(* ===== verification/Prelude.thy ===== *)
theory Prelude
  imports Main "HOL-Library.Sublist" "HOL-Library.Multiset" "HOL-Library.Char_ord" "HOL-Library.List_Lexorder"
begin

text \<open>
  The shared base of the development: the Go standard-library functions on strings that the
  modelled code calls, the collections of simplification rules the component theories feed, and
  the generic lemmas on lists and maps they use.

  A Go \<open>string\<close> and a \<open>[]byte\<close> are sequences of bytes; they are \<^typ>\<open>string\<close> here, whose
  characters are exactly the 256 bytes.  The functions of the package \<open>strings\<close> are given for ASCII
  text: bytes from 128 on are left alone by \<open>ToLower\<close>, compared as they are by \<open>EqualFold\<close> and kept
  by \<open>TrimSpace\<close>, where Go decodes them as UTF-8 first.
\<close>

type_synonym byte = char

named_theorems go_string_simps \<open>unfolding of the Go string functions\<close>
named_theorems cfg_simps \<open>facts on the configuration of the components\<close>

section \<open>Bytes and strings\<close>

definition byte_between :: "byte \<Rightarrow> byte \<Rightarrow> byte \<Rightarrow> bool" where
  "byte_between lo hi c \<longleftrightarrow> of_char lo \<le> (of_char c :: nat) \<and> (of_char c :: nat) \<le> of_char hi"

definition lower_byte :: "byte \<Rightarrow> byte" where
  "lower_byte c = (if byte_between CHR ''A'' CHR ''Z'' c then char_of (of_char c + (32 :: nat)) else c)"

definition upper_byte :: "byte \<Rightarrow> byte" where
  "upper_byte c = (if byte_between CHR ''a'' CHR ''z'' c then char_of (of_char c - (32 :: nat)) else c)"

definition ToLower :: "string \<Rightarrow> string" where
  "ToLower s = map lower_byte s"

definition ToUpper :: "string \<Rightarrow> string" where
  "ToUpper s = map upper_byte s"

definition EqualFold :: "string \<Rightarrow> string \<Rightarrow> bool" where
  "EqualFold s t \<longleftrightarrow> map lower_byte s = map lower_byte t"

definition is_space :: "byte \<Rightarrow> bool" where
  "is_space c \<longleftrightarrow> of_char c \<in> {9, 10, 11, 12, 13, 32 :: nat}"

text \<open>White space in a regular expression.\<close>

definition re_space :: "byte \<Rightarrow> bool" where
  "re_space c \<longleftrightarrow> of_char c \<in> {9, 10, 12, 13, 32 :: nat}"

definition TrimSpace :: "string \<Rightarrow> string" where
  "TrimSpace s = rev (dropWhile is_space (rev (dropWhile is_space s)))"

definition HasPrefix :: "string \<Rightarrow> string \<Rightarrow> bool" where
  "HasPrefix s p \<longleftrightarrow> length p \<le> length s \<and> take (length p) s = p"

definition HasSuffix :: "string \<Rightarrow> string \<Rightarrow> bool" where
  "HasSuffix s p \<longleftrightarrow> length p \<le> length s \<and> drop (length s - length p) s = p"

text \<open>\<open>strings.Contains\<close>.\<close>

definition Contains :: "string \<Rightarrow> string \<Rightarrow> bool" where
  "Contains s w \<longleftrightarrow> list_ex (\<lambda>i. HasPrefix (drop i s) w) [0 ..< Suc (length s)]"

fun Join :: "string list \<Rightarrow> string \<Rightarrow> string" where
  "Join [] sep = []"
| "Join [x] sep = x"
| "Join (x # y # zs) sep = x @ sep @ Join (y # zs) sep"

text \<open>\<open>strings.Split\<close> at one byte.\<close>

fun split_byte :: "byte \<Rightarrow> string \<Rightarrow> string list" where
  "split_byte b [] = [[]]"
| "split_byte b (c # cs) =
     (if c = b then [] # split_byte b cs
      else (case split_byte b cs of [] \<Rightarrow> [[c]] | w # ws \<Rightarrow> (c # w) # ws))"

text \<open>\<open>strings.IndexByte\<close>: the position of the first occurrence.\<close>

fun index_byte :: "string \<Rightarrow> byte \<Rightarrow> nat option" where
  "index_byte [] b = None"
| "index_byte (c # cs) b = (if c = b then Some 0 else map_option Suc (index_byte cs b))"

lemmas [go_string_simps] =
  ToLower_def ToUpper_def EqualFold_def TrimSpace_def is_space_def lower_byte_def upper_byte_def
  byte_between_def HasPrefix_def HasSuffix_def char_of_def bit_0

text \<open>Decimal numbers: \<open>strconv.Itoa\<close> and the \<open>%d\<close> verb.\<close>

fun dec_digits :: "nat \<Rightarrow> string" where
  "dec_digits n = (if n < 10 then [char_of (48 + n)] else dec_digits (n div 10) @ [char_of (48 + n mod 10)])"

declare dec_digits.simps [simp del]

definition show_int :: "int \<Rightarrow> string" where
  "show_int n = (if n < 0 then ''-'' @ dec_digits (nat (- n)) else dec_digits (nat n))"

section \<open>Machine integers\<close>

text \<open>The values of Go's \<open>int64\<close> and the wrap-around of its arithmetic.\<close>

definition int64 :: "int \<Rightarrow> bool" where
  "int64 x \<longleftrightarrow> - (2 ^ 63) \<le> x \<and> x < 2 ^ 63"

definition wrap64 :: "int \<Rightarrow> int" where
  "wrap64 x = (x + 2 ^ 63) mod 2 ^ 64 - 2 ^ 63"

lemma wrap64_id [simp]: "int64 x \<Longrightarrow> wrap64 x = x"
  by (simp add: int64_def wrap64_def)

lemma int64_wrap64 [simp]: "int64 (wrap64 x)"
proof -
  have "0 \<le> (x + 2 ^ 63) mod 2 ^ 64" "(x + 2 ^ 63) mod 2 ^ 64 < 2 ^ 64" by simp_all
  then show ?thesis by (simp add: int64_def wrap64_def)
qed

section \<open>Facts on strings\<close>

lemma lower_byte_idem [simp]: "lower_byte (lower_byte c) = lower_byte c"
proof (cases "byte_between CHR ''A'' CHR ''Z'' c")
  case True
  then have "(of_char c :: nat) + 32 < 256" "65 \<le> (of_char c :: nat)"
    by (auto simp: byte_between_def)
  then show ?thesis
    by (auto simp: lower_byte_def byte_between_def of_char_of)
next
  case False
  then show ?thesis by (simp add: lower_byte_def)
qed

lemma ToLower_idem [simp]: "ToLower (ToLower s) = ToLower s"
  by (simp add: ToLower_def)

lemma length_ToLower [simp]: "length (ToLower s) = length s"
  by (simp add: ToLower_def)

lemma ToLower_eq_Nil [simp]: "ToLower s = [] \<longleftrightarrow> s = []"
  by (simp add: ToLower_def)

lemma EqualFold_iff_ToLower: "EqualFold s t \<longleftrightarrow> ToLower s = ToLower t"
  by (simp add: EqualFold_def ToLower_def)

lemma EqualFold_refl [simp]: "EqualFold s s"
  by (simp add: EqualFold_def)

lemma EqualFold_sym: "EqualFold s t \<Longrightarrow> EqualFold t s"
  by (simp add: EqualFold_def)

lemma EqualFold_trans: "EqualFold s t \<Longrightarrow> EqualFold t u \<Longrightarrow> EqualFold s u"
  by (simp add: EqualFold_def)

lemma HasPrefix_iff_prefix: "HasPrefix s p \<longleftrightarrow> prefix p s"
  by (auto simp: HasPrefix_def prefix_def intro: exI [of _ "drop (length p) s"])
    (metis append_take_drop_id)

lemma split_byte_not_Nil [simp]: "split_byte b s \<noteq> []"
  by (induction s) (auto split: list.splits)

text \<open>\<open>strings.Join\<close> undoes \<open>strings.Split\<close> at the same separator.\<close>

lemma Join_split_byte [simp]: "Join (split_byte b s) [b] = s"
proof (induction s)
  case Nil
  then show ?case by simp
next
  case (Cons c cs)
  obtain w ws where w: "split_byte b cs = w # ws"
    by (cases "split_byte b cs") auto
  with Cons show ?case by (cases ws) auto
qed

text \<open>\<open>strings.Split\<close> undoes \<open>strings.Join\<close> when no part holds the separator.\<close>

lemma split_byte_append: "b \<notin> set w \<Longrightarrow> split_byte b (w @ b # s) = w # split_byte b s"
  by (induction w) auto

lemma split_byte_single: "b \<notin> set w \<Longrightarrow> split_byte b w = [w]"
  by (induction w) auto

lemma split_byte_Join: "ws \<noteq> [] \<Longrightarrow> \<forall>w \<in> set ws. b \<notin> set w \<Longrightarrow> split_byte b (Join ws [b]) = ws"
  by (induction ws "[b]" rule: Join.induct) (auto simp: split_byte_append split_byte_single)

lemma split_byte_clean: "w \<in> set (split_byte b s) \<Longrightarrow> b \<notin> set w"
  by (induction s arbitrary: w) (auto split: if_splits list.splits)

lemma index_byte_Some_iff:
  "index_byte s b = Some i \<longleftrightarrow> i < length s \<and> s ! i = b \<and> b \<notin> set (take i s)"
proof (induction s arbitrary: i)
  case Nil
  then show ?case by simp
next
  case (Cons c cs)
  show ?case
    by (cases i) (auto simp: Cons)
qed

lemma index_byte_None_iff [simp]: "index_byte s b = None \<longleftrightarrow> b \<notin> set s"
  by (induction s) auto

section \<open>Hexadecimal text\<close>

text \<open>\<open>hex.EncodeToString\<close> and the digits of other hexadecimal output.\<close>

definition hex_digit :: "nat \<Rightarrow> byte" where
  "hex_digit n = (if n < 10 then char_of (48 + n) else char_of (87 + n))"

definition EncodeToString :: "byte list \<Rightarrow> string" where
  "EncodeToString bs = concat (map (\<lambda>b. [hex_digit (of_char b div 16), hex_digit (of_char b mod 16)]) bs)"

lemma of_char_hex_digit: "k < 16 \<Longrightarrow> of_char (hex_digit k) = (if k < 10 then 48 + k else 87 + k :: nat)"
  by (simp add: hex_digit_def)

lemma hex_digit_inj:
  assumes "n < 16" "m < 16" "hex_digit n = hex_digit m"
  shows "n = m"
proof -
  have "(if n < 10 then 48 + n else 87 + n) = (if m < 10 then 48 + m else 87 + m)"
    using of_char_hex_digit [OF assms(1)] of_char_hex_digit [OF assms(2)] assms(3) by simp
  then show ?thesis using assms(1,2) by (simp split: if_splits)
qed

lemma nibble_less: "(of_char x :: nat) div 16 < 16"
  by (rule less_mult_imp_div_less) simp

lemma byte_of_nibbles:
  assumes "hex_digit (of_char b div 16) = hex_digit (of_char c div 16)" "hex_digit (of_char b mod 16) = hex_digit (of_char c mod 16)"
  shows "b = c"
proof -
  have "(of_char b :: nat) div 16 = of_char c div 16" by (rule hex_digit_inj [OF nibble_less nibble_less assms(1)])
  moreover have "(of_char b :: nat) mod 16 = of_char c mod 16" by (rule hex_digit_inj [OF _ _ assms(2)]) simp_all
  ultimately have "(of_char b :: nat) = of_char c" by (metis div_mult_mod_eq)
  then show ?thesis by simp
qed

lemma EncodeToString_inj: "EncodeToString bs = EncodeToString cs \<Longrightarrow> bs = cs"
proof (induction bs arbitrary: cs)
  case Nil
  then show ?case by (cases cs) (simp_all add: EncodeToString_def)
next
  case (Cons b bs)
  then obtain c cs' where cs: "cs = c # cs'" by (cases cs) (simp_all add: EncodeToString_def)
  have "hex_digit (of_char b div 16) = hex_digit (of_char c div 16)" "hex_digit (of_char b mod 16) = hex_digit (of_char c mod 16)"
    "EncodeToString bs = EncodeToString cs'"
    using Cons.prems by (simp_all add: cs EncodeToString_def)
  then show ?case using byte_of_nibbles Cons.IH cs by metis
qed

lemma length_EncodeToString: "length (EncodeToString bs) = 2 * length bs"
  by (induction bs) (simp_all add: EncodeToString_def)

lemma set_EncodeToString: "CHR ''|'' \<notin> set (EncodeToString bs)"
proof -
  have bar: "hex_digit k \<noteq> CHR ''|''" if "k < 16" for k
  proof
    assume "hex_digit k = CHR ''|''"
    then have "of_char (hex_digit k) = (124 :: nat)" by simp
    then show False using that unfolding of_char_hex_digit [OF that] by (simp split: if_splits)
  qed
  show ?thesis
    using bar [OF nibble_less, symmetric] bar [of "of_char b mod 16" for b, symmetric]
    by (auto simp: EncodeToString_def)
qed

lemma hex_digit_visible: "n < 16 \<Longrightarrow> \<not> is_space (hex_digit n)"
proof -
  assume "n < 16"
  from of_char_hex_digit [OF this] have "of_char (hex_digit n) \<noteq> (32 :: nat)" "(13 :: nat) < of_char (hex_digit n)" by (simp_all split: if_splits)
  then show ?thesis by (auto simp: is_space_def)
qed

section \<open>Lists\<close>

lemma suffix_comparable: "suffix u x \<Longrightarrow> suffix v x \<Longrightarrow> length u \<le> length v \<Longrightarrow> suffix u v"
  by (rule suffix_length_suffix)

lemma suffix_snoc_iff: "suffix u (x @ [b]) \<longleftrightarrow> u = [] \<or> (\<exists>v. u = v @ [b] \<and> suffix v x)"
  by (metis suffix_snoc)

section \<open>Stable sorting\<close>

text \<open>
  \<open>sort.SliceStable\<close> as a stable insertion sort.  Its contract holds for every comparison that is a strict
  weak order: the result is a permutation, it is sorted, and elements that compare equal keep their order.
\<close>

fun insert_by :: "('a \<Rightarrow> 'a \<Rightarrow> bool) \<Rightarrow> 'a \<Rightarrow> 'a list \<Rightarrow> 'a list" where
  "insert_by lt x [] = [x]"
| "insert_by lt x (y # ys) = (if lt y x then y # insert_by lt x ys else x # y # ys)"

definition SliceStable :: "('a \<Rightarrow> 'a \<Rightarrow> bool) \<Rightarrow> 'a list \<Rightarrow> 'a list" where
  "SliceStable lt xs = foldr (insert_by lt) xs []"

lemma SliceStable_Nil [simp]: "SliceStable lt [] = []"
  by (simp add: SliceStable_def)

lemma SliceStable_Cons [simp]: "SliceStable lt (x # xs) = insert_by lt x (SliceStable lt xs)"
  by (simp add: SliceStable_def)

lemma mset_insert_by [simp]: "mset (insert_by lt x ys) = add_mset x (mset ys)"
  by (induction ys) auto

lemma mset_SliceStable [simp]: "mset (SliceStable lt xs) = mset xs"
  by (induction xs) auto

lemma set_insert_by [simp]: "set (insert_by lt x ys) = insert x (set ys)"
  by (metis mset_insert_by set_mset_add_mset_insert set_mset_mset)

lemma set_SliceStable [simp]: "set (SliceStable lt xs) = set xs"
  by (metis mset_SliceStable set_mset_mset)

locale slice_stable =
  fixes lt :: "'a \<Rightarrow> 'a \<Rightarrow> bool"
  assumes asym: "lt x y \<Longrightarrow> \<not> lt y x"
    and neg_trans: "\<not> lt x y \<Longrightarrow> \<not> lt y z \<Longrightarrow> \<not> lt x z"
begin

lemma insert_sorted:
  "sorted_wrt (\<lambda>x y. \<not> lt y x) ys \<Longrightarrow> sorted_wrt (\<lambda>x y. \<not> lt y x) (insert_by lt x ys)"
  by (induction ys) (auto dest: asym intro: neg_trans, blast dest: asym neg_trans)

lemma sorted: "sorted_wrt (\<lambda>x y. \<not> lt y x) (SliceStable lt xs)"
  by (induction xs) (auto intro: insert_sorted)

lemma insert_stable:
  "filter (\<lambda>y. \<not> lt a y \<and> \<not> lt y a) (insert_by lt x ys) =
     (if \<not> lt a x \<and> \<not> lt x a then x # filter (\<lambda>y. \<not> lt a y \<and> \<not> lt y a) ys
      else filter (\<lambda>y. \<not> lt a y \<and> \<not> lt y a) ys)"
proof (induction ys)
  case Nil
  then show ?case by simp
next
  case (Cons y ys)
  have "\<not> (\<not> lt a y \<and> \<not> lt y a)" if "lt y x" "\<not> lt a x" "\<not> lt x a"
    using that neg_trans by blast
  with Cons show ?case by auto
qed

lemma stable:
  "filter (\<lambda>y. \<not> lt a y \<and> \<not> lt y a) (SliceStable lt xs) = filter (\<lambda>y. \<not> lt a y \<and> \<not> lt y a) xs"
  by (induction xs) (auto simp: insert_stable)

end

section \<open>Transition systems\<close>

text \<open>
  The contract every stateful component with a step relation is checked against: an initial
  predicate, a step relation and an invariant kept by both.  \<open>run\<close> is reachability.
\<close>

inductive reach_by :: "('s \<Rightarrow> bool) \<Rightarrow> ('s \<Rightarrow> 's \<Rightarrow> bool) \<Rightarrow> 's \<Rightarrow> bool"
  for ini :: "'s \<Rightarrow> bool" and stp :: "'s \<Rightarrow> 's \<Rightarrow> bool" where
  reach_init: "ini s \<Longrightarrow> reach_by ini stp s"
| reach_step: "reach_by ini stp s \<Longrightarrow> stp s t \<Longrightarrow> reach_by ini stp t"

locale transition_system =
  fixes ini :: "'s \<Rightarrow> bool"
    and stp :: "'s \<Rightarrow> 's \<Rightarrow> bool"
    and inv :: "'s \<Rightarrow> bool"
  assumes ini_inv: "ini s \<Longrightarrow> inv s"
    and stp_inv: "stp s t \<Longrightarrow> inv s \<Longrightarrow> inv t"
begin

lemma reach_inv: "reach_by ini stp s \<Longrightarrow> inv s"
  by (induction rule: reach_by.induct) (auto intro: ini_inv stp_inv)

lemma steps_inv: "rtranclp stp s t \<Longrightarrow> inv s \<Longrightarrow> inv t"
  by (induction rule: rtranclp_induct) (auto intro: stp_inv)

end

end
