(* ===== verification/KVStore.thy ===== *)
theory KVStore
  imports Prelude "HOL-Library.AList"
begin

text \<open>
  The in-memory key-value store with time-to-live and gossip replication,
  \<^verbatim>\<open>deepintshield_server/framework/kvstore/kvstore.go\<close>.  A value of type \<open>any\<close> is an application value or, when
  no decoder applies, the raw bytes; the Go map is an association list with distinct keys; the clock is an
  argument of every operation; the notifications of the delegate are collected in \<open>kv_out\<close>.  The encoder
  \<open>sonic.Marshal\<close> and the registered decoders are parameters.
\<close>

section \<open>State\<close>

datatype kv_error = ErrClosed | ErrEmptyKey | ErrNotFound | ErrInvalidTTL | ErrMarshal string

datatype 'v any = RawBytes "byte list" | AnyVal 'v

record Config =
  CleanupInterval :: int
  DefaultTTL :: int

record 'v entry =
  e_value :: "'v any"
  writtenAt :: int
  expiresAt :: int

datatype kv_msg = OnSet string "byte list" int int | OnDelete string int

record 'v Store =
  kv_data :: "(string \<times> 'v entry) list"
  defaultTTL :: int
  cleanupInterval :: int
  kv_closed :: bool
  kv_delegate :: bool
  kv_decoders :: "(string \<times> (byte list \<Rightarrow> 'v option)) list"
  kv_out :: "kv_msg list"

definition defaultCleanupInterval :: int where
  "defaultCleanupInterval = 30 * 10 ^ 9"

section \<open>Operations\<close>

definition isExpired :: "'v entry \<Rightarrow> int \<Rightarrow> bool" where
  "isExpired e nowUnixNano \<longleftrightarrow> expiresAt e \<noteq> 0 \<and> nowUnixNano \<ge> expiresAt e"

definition kv_New :: "Config \<Rightarrow> kv_error + 'v Store" where
  "kv_New cfg =
     (if DefaultTTL cfg < 0 then Inl ErrInvalidTTL
      else Inr \<lparr>kv_data = [], defaultTTL = DefaultTTL cfg,
                cleanupInterval = (if CleanupInterval cfg \<le> 0 then defaultCleanupInterval else CleanupInterval cfg),
                kv_closed = False, kv_delegate = False, kv_decoders = [], kv_out = []\<rparr>)"

definition SetDelegate :: "'v Store \<Rightarrow> 'v Store" where
  "SetDelegate s = s\<lparr>kv_delegate := True\<rparr>"

definition RegisterDecoder :: "string \<Rightarrow> (byte list \<Rightarrow> 'v option) \<Rightarrow> 'v Store \<Rightarrow> 'v Store" where
  "RegisterDecoder keyPrefix decoder s = s\<lparr>kv_decoders := AList.update keyPrefix decoder (kv_decoders s)\<rparr>"

definition validateMutable :: "string \<Rightarrow> int \<Rightarrow> 'v Store \<Rightarrow> kv_error option" where
  "validateMutable key ttl s =
     (if key = [] then Some ErrEmptyKey
      else if ttl < 0 then Some ErrInvalidTTL
      else if kv_closed s then Some ErrClosed
      else None)"

definition deadline :: "int \<Rightarrow> int \<Rightarrow> int" where
  "deadline now ttl = (if ttl > 0 then wrap64 (now + ttl) else 0)"

text \<open>\<open>sonic.Marshal\<close>, called only with a delegate.\<close>

definition marshal_for :: "('v any \<Rightarrow> string + byte list) \<Rightarrow> 'v Store \<Rightarrow> 'v any \<Rightarrow> string + byte list" where
  "marshal_for marshal s v = (if kv_delegate s then marshal v else Inr [])"

definition notify :: "kv_msg \<Rightarrow> 'v Store \<Rightarrow> 'v Store" where
  "notify m s = (if kv_delegate s then s\<lparr>kv_out := kv_out s @ [m]\<rparr> else s)"

definition put_entry :: "string \<Rightarrow> 'v entry \<Rightarrow> 'v Store \<Rightarrow> 'v Store" where
  "put_entry key e s = s\<lparr>kv_data := AList.update key e (kv_data s)\<rparr>"

definition drop_entry :: "string \<Rightarrow> 'v Store \<Rightarrow> 'v Store" where
  "drop_entry key s = s\<lparr>kv_data := AList.delete key (kv_data s)\<rparr>"

definition SetWithTTL ::
  "('v any \<Rightarrow> string + byte list) \<Rightarrow> int \<Rightarrow> string \<Rightarrow> 'v any \<Rightarrow> int \<Rightarrow> 'v Store \<Rightarrow> kv_error option \<times> 'v Store" where
  "SetWithTTL marshal now key v ttl s =
     (case validateMutable key ttl s of
        Some e \<Rightarrow> (Some e, s)
      | None \<Rightarrow>
          (case marshal_for marshal s v of
             Inl err \<Rightarrow> (Some (ErrMarshal err), s)
           | Inr valueJSON \<Rightarrow>
               (None, notify (OnSet key valueJSON now (deadline now ttl))
                  (put_entry key \<lparr>e_value = v, writtenAt = now, expiresAt = deadline now ttl\<rparr> s))))"

definition kv_Set ::
  "('v any \<Rightarrow> string + byte list) \<Rightarrow> int \<Rightarrow> string \<Rightarrow> 'v any \<Rightarrow> 'v Store \<Rightarrow> kv_error option \<times> 'v Store" where
  "kv_Set marshal now key v s = SetWithTTL marshal now key v (defaultTTL s) s"

definition SetNXWithTTL ::
  "('v any \<Rightarrow> string + byte list) \<Rightarrow> int \<Rightarrow> string \<Rightarrow> 'v any \<Rightarrow> int \<Rightarrow> 'v Store \<Rightarrow> (kv_error + bool) \<times> 'v Store" where
  "SetNXWithTTL marshal now key v ttl s =
     (case validateMutable key ttl s of
        Some e \<Rightarrow> (Inl e, s)
      | None \<Rightarrow>
          (case marshal_for marshal s v of
             Inl err \<Rightarrow> (Inl (ErrMarshal err), s)
           | Inr valueJSON \<Rightarrow>
               (if (case map_of (kv_data s) key of Some existing \<Rightarrow> \<not> isExpired existing now | None \<Rightarrow> False)
                then (Inr False, s)
                else (Inr True, notify (OnSet key valueJSON now (deadline now ttl))
                  (put_entry key \<lparr>e_value = v, writtenAt = now, expiresAt = deadline now ttl\<rparr> s)))))"

text \<open>The longest registered prefix of the key; the Go map is walked in any order.\<close>

fun best_decoder :: "string \<Rightarrow> string \<times> (byte list \<Rightarrow> 'v option) option \<Rightarrow>
    (string \<times> (byte list \<Rightarrow> 'v option)) list \<Rightarrow> string \<times> (byte list \<Rightarrow> 'v option) option" where
  "best_decoder key best [] = best"
| "best_decoder key best ((pre, decode) # ds) =
     best_decoder key
       (if HasPrefix key pre \<and> length pre > length (fst best) then (pre, Some decode) else best) ds"

definition decodeValue :: "string \<Rightarrow> byte list \<Rightarrow> 'v Store \<Rightarrow> 'v any" where
  "decodeValue key valueJSON s =
     (case snd (best_decoder key ([], None) (kv_decoders s)) of
        Some decode \<Rightarrow> (case decode valueJSON of Some v \<Rightarrow> AnyVal v | None \<Rightarrow> RawBytes valueJSON)
      | None \<Rightarrow> RawBytes valueJSON)"

definition SetRemote :: "string \<Rightarrow> byte list \<Rightarrow> int \<Rightarrow> int \<Rightarrow> 'v Store \<Rightarrow> kv_error option \<times> 'v Store" where
  "SetRemote key valueJSON w x s =
     (if key = [] then (Some ErrEmptyKey, s)
      else if kv_closed s then (Some ErrClosed, s)
      else (case map_of (kv_data s) key of
              Some existing \<Rightarrow>
                (if writtenAt existing > w then (None, s)
                 else (None, put_entry key \<lparr>e_value = decodeValue key valueJSON s, writtenAt = w, expiresAt = x\<rparr> s))
            | None \<Rightarrow> (None, put_entry key \<lparr>e_value = decodeValue key valueJSON s, writtenAt = w, expiresAt = x\<rparr> s)))"

text \<open>
  \<open>Get\<close> reads under the read lock and, for an expired entry, takes the write lock later: \<open>mid\<close> is what other
  callers did to the store in between, \<open>now2\<close> the second reading of the clock.
\<close>

definition Get :: "int \<Rightarrow> ('v Store \<Rightarrow> 'v Store) \<Rightarrow> int \<Rightarrow> string \<Rightarrow> 'v Store \<Rightarrow> (kv_error + 'v any) \<times> 'v Store" where
  "Get now mid now2 key s =
     (if key = [] then (Inl ErrEmptyKey, s)
      else if kv_closed s then (Inl ErrClosed, s)
      else (case map_of (kv_data s) key of
              None \<Rightarrow> (Inl ErrNotFound, s)
            | Some e \<Rightarrow>
                (if isExpired e now
                 then (let s' = mid s in
                       (Inl ErrNotFound,
                        (case map_of (kv_data s') key of
                           Some latest \<Rightarrow> (if isExpired latest now2 then drop_entry key s' else s')
                         | None \<Rightarrow> s')))
                 else (Inr (e_value e), s))))"

definition GetAndDelete :: "int \<Rightarrow> string \<Rightarrow> 'v Store \<Rightarrow> (kv_error + 'v any) \<times> 'v Store" where
  "GetAndDelete now key s =
     (if key = [] then (Inl ErrEmptyKey, s)
      else if kv_closed s then (Inl ErrClosed, s)
      else (case map_of (kv_data s) key of
              None \<Rightarrow> (Inl ErrNotFound, s)
            | Some e \<Rightarrow>
                (let s' = drop_entry key s in
                 if isExpired e now then (Inl ErrNotFound, s')
                 else (Inr (e_value e), notify (OnDelete key now) s'))))"

definition Delete :: "int \<Rightarrow> string \<Rightarrow> 'v Store \<Rightarrow> (kv_error + bool) \<times> 'v Store" where
  "Delete now key s =
     (if key = [] then (Inl ErrEmptyKey, s)
      else if kv_closed s then (Inl ErrClosed, s)
      else (case map_of (kv_data s) key of
              None \<Rightarrow> (Inr False, s)
            | Some e \<Rightarrow> (Inr True, notify (OnDelete key now) (drop_entry key s))))"

definition DeleteRemote :: "string \<Rightarrow> int \<Rightarrow> 'v Store \<Rightarrow> kv_error option \<times> 'v Store" where
  "DeleteRemote key deletedAt s =
     (if key = [] then (Some ErrEmptyKey, s)
      else if kv_closed s then (Some ErrClosed, s)
      else (case map_of (kv_data s) key of
              Some existing \<Rightarrow> (if writtenAt existing > deletedAt then (None, s) else (None, drop_entry key s))
            | None \<Rightarrow> (None, drop_entry key s)))"

definition Len :: "int \<Rightarrow> 'v Store \<Rightarrow> nat" where
  "Len now s = (if kv_closed s then 0 else length (filter (\<lambda>(k, e). \<not> isExpired e now) (kv_data s)))"

definition Close :: "'v Store \<Rightarrow> 'v Store" where
  "Close s = s\<lparr>kv_closed := True\<rparr>"

definition cleanupExpired :: "int \<Rightarrow> 'v Store \<Rightarrow> 'v Store" where
  "cleanupExpired now s = s\<lparr>kv_data := filter (\<lambda>(k, e). \<not> isExpired e now) (kv_data s)\<rparr>"

text \<open>One turn of \<open>cleanupLoop\<close>: a tick sweeps, the stop channel ends the loop.\<close>

datatype cleanup_event = Tick int | Stopped

fun cleanupLoop :: "cleanup_event list \<Rightarrow> 'v Store \<Rightarrow> 'v Store" where
  "cleanupLoop [] s = s"
| "cleanupLoop (Tick now # evs) s = cleanupLoop evs (cleanupExpired now s)"
| "cleanupLoop (Stopped # evs) s = s"

section \<open>What a client sees\<close>

definition kv_view :: "'v Store \<Rightarrow> int \<Rightarrow> string \<Rightarrow> 'v any option" where
  "kv_view s now key =
     (case map_of (kv_data s) key of
        Some e \<Rightarrow> (if isExpired e now then None else Some (e_value e))
      | None \<Rightarrow> None)"

definition kv_inv :: "'v Store \<Rightarrow> bool" where
  "kv_inv s \<longleftrightarrow> distinct (map fst (kv_data s)) \<and> [] \<notin> fst ` set (kv_data s) \<and> 0 < cleanupInterval s \<and> 0 \<le> defaultTTL s"

section \<open>Events\<close>

text \<open>Every call that can change a store; \<open>Get\<close> with the callers that ran inside it already applied.\<close>

datatype 'v kv_event =
    KSet int string "'v any"
  | KSetTTL int string "'v any" int
  | KSetNX int string "'v any" int
  | KSetRemote string "byte list" int int
  | KGet int int string
  | KGetAndDelete int string
  | KDelete int string
  | KDeleteRemote string int
  | KCleanup int
  | KClose
  | KDelegate
  | KDecoder string "byte list \<Rightarrow> 'v option"

fun kv_exec :: "('v any \<Rightarrow> string + byte list) \<Rightarrow> 'v kv_event \<Rightarrow> 'v Store \<Rightarrow> 'v Store" where
  "kv_exec marshal (KSet now k v) s = snd (kv_Set marshal now k v s)"
| "kv_exec marshal (KSetTTL now k v ttl) s = snd (SetWithTTL marshal now k v ttl s)"
| "kv_exec marshal (KSetNX now k v ttl) s = snd (SetNXWithTTL marshal now k v ttl s)"
| "kv_exec marshal (KSetRemote k j w x) s = snd (SetRemote k j w x s)"
| "kv_exec marshal (KGet now now2 k) s = snd (Get now id now2 k s)"
| "kv_exec marshal (KGetAndDelete now k) s = snd (GetAndDelete now k s)"
| "kv_exec marshal (KDelete now k) s = snd (Delete now k s)"
| "kv_exec marshal (KDeleteRemote k d) s = snd (DeleteRemote k d s)"
| "kv_exec marshal (KCleanup now) s = cleanupExpired now s"
| "kv_exec marshal KClose s = Close s"
| "kv_exec marshal KDelegate s = SetDelegate s"
| "kv_exec marshal (KDecoder p d) s = RegisterDecoder p d s"

definition kv_init :: "'v Store \<Rightarrow> bool" where
  "kv_init s \<longleftrightarrow> (\<exists>cfg. kv_New cfg = Inr s)"

inductive kv_step :: "('v any \<Rightarrow> string + byte list) \<Rightarrow> 'v Store \<Rightarrow> 'v Store \<Rightarrow> bool" for marshal where
  "kv_step marshal s (kv_exec marshal ev s)"

inductive_cases kv_stepE: "kv_step marshal s s'"

text \<open>The gossiped writes of a peer, and what they make of one map of entries.\<close>

type_synonym remote_set = "string \<times> byte list \<times> int \<times> int"

definition apply_remote :: "remote_set \<Rightarrow> 'v Store \<Rightarrow> 'v Store" where
  "apply_remote m s = (case m of (key, j, w, x) \<Rightarrow> snd (SetRemote key j w x s))"

definition lww :: "(string \<Rightarrow> byte list \<Rightarrow> 'v any) \<Rightarrow> remote_set \<Rightarrow> (string \<rightharpoonup> 'v entry) \<Rightarrow> (string \<rightharpoonup> 'v entry)" where
  "lww dec m d = (case m of (key, j, w, x) \<Rightarrow>
     (if key = [] \<or> (case d key of Some e \<Rightarrow> writtenAt e > w | None \<Rightarrow> False) then d
      else d(key \<mapsto> \<lparr>e_value = dec key j, writtenAt = w, expiresAt = x\<rparr>)))"

text \<open>The writes of one key carry distinct times.\<close>

definition distinct_times :: "remote_set list \<Rightarrow> bool" where
  "distinct_times ms \<longleftrightarrow>
     (\<forall>m \<in> set ms. \<forall>m' \<in> set ms. fst m = fst m' \<and> fst (snd (snd m)) = fst (snd (snd m')) \<longrightarrow> m = m')"

text \<open>
  What a replica does while it only follows its peers: it takes gossiped writes, its cleanup loop sweeps and its
  clients read, which may remove an expired entry; no clock reading that removes entries is later than \<open>t\<close>.
\<close>

fun following :: "int \<Rightarrow> 'v kv_event \<Rightarrow> bool" where
  "following t (KSetRemote k j w x) \<longleftrightarrow> True"
| "following t (KCleanup now) \<longleftrightarrow> now \<le> t"
| "following t (KGet now now2 k) \<longleftrightarrow> now2 \<le> t"
| "following t _ \<longleftrightarrow> False"

definition remote_writes :: "'v kv_event list \<Rightarrow> remote_set list" where
  "remote_writes evs = concat (map (\<lambda>ev. case ev of KSetRemote k j w x \<Rightarrow> [(k, j, w, x)] | _ \<Rightarrow> []) evs)"

text \<open>The write times and expiries a key has had: those of the entries and of the gossiped writes.\<close>

definition stamps :: "(string \<rightharpoonup> 'v entry) \<Rightarrow> remote_set list \<Rightarrow> (string \<times> int \<times> int) set" where
  "stamps d ms = {(k, writtenAt e, expiresAt e) |k e. d k = Some e} \<union> (\<lambda>(k, j, w, x). (k, w, x)) ` set ms"

text \<open>Of two writes of one key the later one does not expire earlier, as when every write has the same time-to-live.\<close>

definition expiry_ordered :: "(string \<times> int \<times> int) set \<Rightarrow> bool" where
  "expiry_ordered S \<longleftrightarrow> (\<forall>(k, w, x) \<in> S. \<forall>(k', w', x') \<in> S. k = k' \<and> w < w' \<longrightarrow> x' = 0 \<or> (x \<noteq> 0 \<and> x \<le> x'))"

section \<open>The contract of a store with expiry\<close>

text \<open>
  What a client relies on: a value put with a time-to-live is seen until it runs out, other keys are untouched,
  and a sweep at a time is not noticed from then on.
\<close>

locale ttl_store =
  fixes view :: "'s \<Rightarrow> int \<Rightarrow> 'k \<Rightarrow> 'a option"
    and put :: "int \<Rightarrow> 'k \<Rightarrow> 'a \<Rightarrow> int \<Rightarrow> 's \<Rightarrow> 's"
    and sweep :: "int \<Rightarrow> 's \<Rightarrow> 's"
    and open_store :: "'s \<Rightarrow> bool"
    and key_ok :: "'k \<Rightarrow> bool"
  assumes put_self: "open_store s \<Longrightarrow> key_ok k \<Longrightarrow> 0 \<le> now \<Longrightarrow> 0 \<le> ttl \<Longrightarrow> int64 (now + ttl) \<Longrightarrow>
      view (put now k v ttl s) t k = (if ttl = 0 \<or> t < now + ttl then Some v else None)"
    and put_other: "k' \<noteq> k \<Longrightarrow> view (put now k v ttl s) t k' = view s t k'"
    and put_open: "open_store s \<Longrightarrow> open_store (put now k v ttl s)"
    and sweep_view: "open_store s \<Longrightarrow> now \<le> t \<Longrightarrow> view (sweep now s) t k = view s t k"
    and sweep_open: "open_store s \<Longrightarrow> open_store (sweep now s)"
begin

lemma sweeps_view:
  "open_store s \<Longrightarrow> \<forall>now \<in> set ticks. now \<le> t \<Longrightarrow> view (fold sweep ticks s) t k = view s t k"
  by (induction ticks arbitrary: s) (auto simp: sweep_view sweep_open)

lemma put_sweeps:
  assumes "open_store s" "key_ok k" "0 \<le> now" "0 \<le> ttl" "int64 (now + ttl)" "\<forall>u \<in> set ticks. u \<le> t"
  shows "view (fold sweep ticks (put now k v ttl s)) t k = (if ttl = 0 \<or> t < now + ttl then Some v else None)"
  using assms by (simp add: sweeps_view put_self put_open)

end

section \<open>Facts on the operations\<close>

lemmas kv_ops =
  SetWithTTL_def kv_Set_def SetNXWithTTL_def SetRemote_def Get_def GetAndDelete_def Delete_def DeleteRemote_def
  Close_def SetDelegate_def RegisterDecoder_def Let_def

lemma put_entry_inv: "kv_inv s \<Longrightarrow> key \<noteq> [] \<Longrightarrow> kv_inv (put_entry key e s)"
  by (auto simp: kv_inv_def put_entry_def distinct_update dom_update image_iff)

lemma drop_entry_inv: "kv_inv s \<Longrightarrow> kv_inv (drop_entry key s)"
  by (auto simp: kv_inv_def drop_entry_def AList.delete_eq distinct_map_filter)

lemma notify_inv [simp]: "kv_inv (notify m s) \<longleftrightarrow> kv_inv s"
  by (simp add: kv_inv_def notify_def)

lemma cleanup_inv: "kv_inv s \<Longrightarrow> kv_inv (cleanupExpired now s)"
  by (auto simp: kv_inv_def cleanupExpired_def distinct_map_filter)

lemma validate_key: "validateMutable key ttl s = None \<longleftrightarrow> key \<noteq> [] \<and> 0 \<le> ttl \<and> \<not> kv_closed s"
  by (simp add: validateMutable_def)

lemma kv_exec_inv:
  assumes "kv_inv s"
  shows "kv_inv (kv_exec marshal ev s)"
  using assms
  by (cases ev)
    (auto simp: kv_ops validate_key put_entry_inv drop_entry_inv cleanup_inv split: option.splits sum.splits,
     auto simp: kv_inv_def)

interpretation kv: transition_system kv_init "kv_step marshal" kv_inv
proof
  show "kv_init s \<Longrightarrow> kv_inv s" for s :: "'a Store"
    by (auto simp: kv_init_def kv_inv_def kv_New_def defaultCleanupInterval_def split: if_splits)
  show "kv_step marshal s t \<Longrightarrow> kv_inv s \<Longrightarrow> kv_inv t" for s t
    by (auto elim: kv_stepE simp: kv_exec_inv)
qed

lemma map_of_put [simp]: "map_of (kv_data (put_entry k e s)) = (map_of (kv_data s))(k \<mapsto> e)"
  by (simp add: put_entry_def update_conv')

lemma map_of_drop [simp]: "map_of (kv_data (drop_entry k s)) = (map_of (kv_data s))(k := None)"
  by (simp add: drop_entry_def delete_conv')

lemma notify_data [simp]: "kv_data (notify m s) = kv_data s"
  by (simp add: notify_def)

lemma kv_flags [simp]:
  "kv_closed (put_entry k e s) = kv_closed s" "kv_decoders (put_entry k e s) = kv_decoders s"
  "kv_closed (notify m s) = kv_closed s" "kv_delegate (put_entry k e s) = kv_delegate s"
  "kv_delegate (notify m s) = kv_delegate s" "kv_closed (cleanupExpired now s) = kv_closed s"
  "kv_delegate (cleanupExpired now s) = kv_delegate s"
  by (simp_all add: put_entry_def notify_def cleanupExpired_def)

lemma isExpired_mono: "isExpired e now \<Longrightarrow> now \<le> t \<Longrightarrow> isExpired e t"
  by (auto simp: isExpired_def)

lemma deadline_expired:
  assumes "0 \<le> now" "0 \<le> ttl" "int64 (now + ttl)"
  shows "isExpired \<lparr>e_value = v, writtenAt = w, expiresAt = deadline now ttl\<rparr> t \<longleftrightarrow> \<not> (ttl = 0 \<or> t < now + ttl)"
  using assms by (auto simp: isExpired_def deadline_def)

lemma SetWithTTL_ok:
  assumes "validateMutable key ttl s = None" "marshal_for marshal s v = Inr j"
  shows "SetWithTTL marshal now key v ttl s =
    (None, notify (OnSet key j now (deadline now ttl))
       (put_entry key \<lparr>e_value = v, writtenAt = now, expiresAt = deadline now ttl\<rparr> s))"
  using assms by (simp add: SetWithTTL_def)

lemma kv_view_put:
  assumes "0 \<le> now" "0 \<le> ttl" "int64 (now + ttl)"
  shows "kv_view (notify m (put_entry key \<lparr>e_value = v, writtenAt = w, expiresAt = deadline now ttl\<rparr> s)) t =
    (kv_view s t)(key := (if ttl = 0 \<or> t < now + ttl then Some v else None))"
  by (rule ext) (simp add: kv_view_def deadline_expired [OF assms])

lemma map_of_sweep:
  "distinct (map fst xs) \<Longrightarrow> map_of (filter (\<lambda>(k, e). \<not> isExpired e now) xs) k =
     (case map_of xs k of Some e \<Rightarrow> if isExpired e now then None else Some e | None \<Rightarrow> None)"
  by (induction xs) (auto simp: map_of_eq_None_iff image_iff split: option.splits)

lemma kv_view_sweep:
  assumes "kv_inv s" "now \<le> t"
  shows "kv_view (cleanupExpired now s) t = kv_view s t"
proof
  fix k
  show "kv_view (cleanupExpired now s) t k = kv_view s t k"
    using isExpired_mono [OF _ assms(2)] map_of_sweep [of "kv_data s" now k] assms(1)
    by (auto simp: kv_view_def cleanupExpired_def kv_inv_def split: option.splits)
qed

lemma Get_view:
  assumes "key \<noteq> []" "\<not> kv_closed s"
  shows "fst (Get t mid t2 key s) = (case kv_view s t key of Some v \<Rightarrow> Inr v | None \<Rightarrow> Inl ErrNotFound)"
  using assms by (auto simp: Get_def kv_view_def Let_def split: option.splits)

definition kv_open :: "('v any \<Rightarrow> string + byte list) \<Rightarrow> 'v Store \<Rightarrow> bool" where
  "kv_open marshal s \<longleftrightarrow> kv_inv s \<and> \<not> kv_closed s \<and> (kv_delegate s \<longrightarrow> (\<forall>v. \<exists>j. marshal v = Inr j))"

lemma kv_open_marshal: "kv_open marshal s \<Longrightarrow> \<exists>j. marshal_for marshal s v = Inr j"
  by (auto simp: kv_open_def marshal_for_def)

interpretation kvt: ttl_store kv_view "\<lambda>now k v ttl s. snd (SetWithTTL marshal now k v ttl s)" cleanupExpired
  "kv_open marshal" "\<lambda>k. k \<noteq> []"
proof
  fix s :: "'a Store" and k k' now ttl v t
  show "kv_open marshal s \<Longrightarrow> k \<noteq> [] \<Longrightarrow> 0 \<le> now \<Longrightarrow> 0 \<le> ttl \<Longrightarrow> int64 (now + ttl) \<Longrightarrow>
      kv_view (snd (SetWithTTL marshal now k v ttl s)) t k = (if ttl = 0 \<or> t < now + ttl then Some v else None)"
    using kv_open_marshal [of marshal s v]
    by (auto simp: SetWithTTL_ok validate_key kv_open_def kv_view_put)
  show "k' \<noteq> k \<Longrightarrow> kv_view (snd (SetWithTTL marshal now k v ttl s)) t k' = kv_view s t k'"
    by (auto simp: SetWithTTL_def kv_view_def split: option.splits sum.splits)
  show "kv_open marshal s \<Longrightarrow> kv_open marshal (snd (SetWithTTL marshal now k v ttl s))"
    using kv_exec_inv [of s marshal "KSetTTL now k v ttl"]
    by (auto simp: kv_open_def SetWithTTL_def split: option.splits sum.splits)
  show "kv_open marshal s \<Longrightarrow> now \<le> t \<Longrightarrow> kv_view (cleanupExpired now s) t k = kv_view s t k"
    by (simp add: kv_view_sweep kv_open_def)
  show "kv_open marshal s \<Longrightarrow> kv_open marshal (cleanupExpired now s)"
    by (simp add: kv_open_def cleanup_inv)
qed

section \<open>Decoders and replication\<close>

lemma best_decoder_spec:
  defines "r key best ds \<equiv> best_decoder key best ds"
  shows "(r key best ds = best \<or>
      (\<exists>p d. r key best ds = (p, Some d) \<and> (p, d) \<in> set ds \<and> prefix p key \<and> length (fst best) < length p)) \<and>
    length (fst best) \<le> length (fst (r key best ds)) \<and>
    (\<forall>(p, d) \<in> set ds. prefix p key \<longrightarrow> length p \<le> length (fst (r key best ds)))"
  unfolding r_def
proof (induction key best ds rule: best_decoder.induct)
  case (1 key best)
  then show ?case by simp
next
  case (2 key best p d ds)
  let ?best = "if HasPrefix key p \<and> length p > length (fst best) then (p, Some d) else best"
  have len: "length (fst best) \<le> length (fst ?best)" "prefix p key \<longrightarrow> length p \<le> length (fst ?best)"
    by (auto simp: HasPrefix_iff_prefix)
  have eq: "best_decoder key best ((p, d) # ds) = best_decoder key ?best ds" by simp
  show ?case
    unfolding eq using 2 len by (auto simp: HasPrefix_iff_prefix split: if_splits)
qed

lemma best_decoder_perm:
  assumes "distinct (map fst ds)" "mset ds = mset ds'"
  shows "best_decoder key ([], None) ds = best_decoder key ([], None) ds'"
proof -
  let ?r = "best_decoder key ([], None) ds" and ?r' = "best_decoder key ([], None) ds'"
  have same: "set ds = set ds'" using assms(2) by (metis mset_eq_setD)
  note spec = best_decoder_spec [of key "([], None)" ds] and spec' = best_decoder_spec [of key "([], None)" ds']
  have len: "length (fst ?r) = length (fst ?r')"
  proof (rule antisym)
    show "length (fst ?r) \<le> length (fst ?r')" using spec spec' same by (cases "?r = ([], None)") auto
    show "length (fst ?r') \<le> length (fst ?r)" using spec spec' same by (cases "?r' = ([], None)") auto
  qed
  show ?thesis
  proof (cases "?r = ([], None)")
    case True
    then show ?thesis using spec' len by auto
  next
    case False
    then obtain p d where r: "?r = (p, Some d)" "(p, d) \<in> set ds" "prefix p key" "0 < length p"
      using spec by auto
    then obtain p' d' where r': "?r' = (p', Some d')" "(p', d') \<in> set ds'" "prefix p' key"
      using spec' len by auto
    have "p = p'" using r r' len by (metis fst_conv prefix_length_prefix prefix_order.antisym order_refl)
    moreover from this have "d = d'" using r r' same assms(1) by (metis eq_key_imp_eq_value)
    ultimately show ?thesis using r r' by simp
  qed
qed

lemma apply_remote_flags [simp]:
  "kv_closed (apply_remote m s) = kv_closed s" "kv_decoders (apply_remote m s) = kv_decoders s"
  by (auto simp: apply_remote_def SetRemote_def split: prod.splits option.splits)

lemma apply_remote_lww:
  assumes "\<not> kv_closed s"
  shows "map_of (kv_data (apply_remote m s)) = lww (\<lambda>k j. decodeValue k j s) m (map_of (kv_data s))"
  using assms by (auto simp: apply_remote_def SetRemote_def lww_def split: prod.splits option.splits)

lemma decodeValue_remote [simp]: "decodeValue k j (apply_remote m s) = decodeValue k j s"
  by (simp add: decodeValue_def)

lemma fold_remote_lww:
  assumes "\<not> kv_closed s"
  shows "map_of (kv_data (fold apply_remote ms s)) = fold (lww (\<lambda>k j. decodeValue k j s)) ms (map_of (kv_data s))"
  using assms by (induction ms arbitrary: s) (simp_all add: apply_remote_lww)

lemma lww_commute:
  assumes "fst m = fst m' \<and> fst (snd (snd m)) = fst (snd (snd m')) \<longrightarrow> m = m'"
  shows "lww dec m \<circ> lww dec m' = lww dec m' \<circ> lww dec m"
proof
  fix d
  obtain k j w x k' j' w' x' where m: "m = (k, j, w, x)" "m' = (k', j', w', x')" by (cases m, cases m')
  show "(lww dec m \<circ> lww dec m') d = (lww dec m' \<circ> lww dec m) d"
  proof (cases "k = k'")
    case False
    then show ?thesis using m by (auto simp: lww_def fun_upd_twist split: option.splits)
  next
    case True
    then show ?thesis
      using m assms by (cases "d k") (auto simp: lww_def)
  qed
qed

section \<open>What the store guarantees\<close>

text \<open>A store for the examples: open, with no delegate and no decoder.\<close>

definition demo_store :: "nat Store" where
  "demo_store = \<lparr>kv_data = [], defaultTTL = 0, cleanupInterval = 1, kv_closed = False, kv_delegate = False,
     kv_decoders = [], kv_out = []\<rparr>"

lemma demo_store_facts:
  "kv_init demo_store" "kv_inv demo_store" "kv_open marshal demo_store" "\<not> kv_closed demo_store"
  "marshal_for marshal demo_store v = Inr []" "kv_data demo_store = []"
proof -
  have "kv_New \<lparr>CleanupInterval = 1, DefaultTTL = 0\<rparr> = Inr demo_store" by (simp add: kv_New_def demo_store_def)
  then show "kv_init demo_store" unfolding kv_init_def by blast
qed (simp_all add: demo_store_def kv_inv_def kv_open_def marshal_for_def)

text \<open>
  Whatever calls a store goes through, its keys are distinct and not empty and its sweep interval is positive.
\<close>

theorem kv_reachable_inv:
  assumes "reach_by kv_init (kv_step marshal) s"
  shows "kv_inv s"
  using kv.reach_inv [OF assms] .

theorem kv_reachable_inv_witness:
  "kv_inv (kv_exec (\<lambda>_. Inr []) (KSetTTL 1 ''k'' (AnyVal 7) 5) demo_store)"
  by (rule kv_reachable_inv [of "\<lambda>_. Inr []"]) (blast intro: reach_init reach_step kv_step.intros demo_store_facts(1))

text \<open>
  A value stored with a time-to-live is returned by \<open>Get\<close> until the time runs out and not after, other keys are
  untouched, and sweeps of the cleanup loop in between change nothing.
\<close>

theorem kv_read_your_writes:
  assumes "kv_open marshal s" "key \<noteq> []" "0 \<le> now" "0 \<le> ttl" "int64 (now + ttl)" "\<forall>u \<in> set ticks. u \<le> t"
    and "SetWithTTL marshal now key v ttl s = (err, s')" "s'' = fold cleanupExpired ticks s'"
  shows "err = None \<and>
    fst (Get t mid t2 key s'') = (if ttl = 0 \<or> t < now + ttl then Inr v else Inl ErrNotFound) \<and>
    (\<forall>k. k \<noteq> key \<longrightarrow> kv_view s'' t k = kv_view s t k)"
proof -
  from kv_open_marshal [OF assms(1)] obtain j where j: "marshal_for marshal s v = Inr j" by blast
  have err: "err = None" and s': "s' = snd (SetWithTTL marshal now key v ttl s)"
    using assms(1,2,4,7) j by (auto simp: SetWithTTL_ok validate_key kv_open_def)
  have "kv_open marshal s'" using kvt.put_open [OF assms(1)] s' by simp
  then have other: "kv_view s'' t k = kv_view s' t k" for k
    using kvt.sweeps_view assms(6,8) by metis
  have closed: "\<not> kv_closed s''"
  proof -
    have "kv_closed (fold cleanupExpired ticks s') = kv_closed s'" by (induction ticks arbitrary: s') simp_all
    with \<open>kv_open marshal s'\<close> show ?thesis using assms(8) by (simp add: kv_open_def)
  qed
  have "kv_view s'' t key = (if ttl = 0 \<or> t < now + ttl then Some v else None)"
    using kvt.put_self [OF assms(1-5)] other s' by simp
  then have "fst (Get t mid t2 key s'') = (if ttl = 0 \<or> t < now + ttl then Inr v else Inl ErrNotFound)"
    using Get_view [OF assms(2) closed] by simp
  moreover have "kv_view s'' t k = kv_view s t k" if "k \<noteq> key" for k
    using kvt.put_other [OF that] other s' by simp
  ultimately show ?thesis using err by blast
qed

theorem kv_read_your_writes_witness:
  "fst (Get 8 id 8 ''k'' (cleanupExpired 6 (snd (SetWithTTL (\<lambda>_. Inr []) 1 ''k'' (AnyVal 7) 10 demo_store)))) = Inr (AnyVal 7)"
proof -
  obtain err s' where r: "SetWithTTL (\<lambda>_. Inr []) 1 ''k'' (AnyVal 7) 10 demo_store = (err, s')" by fastforce
  show ?thesis
    using kv_read_your_writes [OF demo_store_facts(3) _ _ _ _ _ r, where ticks = "[6]" and t = 8 and mid = id and ?t2.0 = 8] r
    by (simp add: int64_def)
qed

text \<open>
  \<open>SetNXWithTTL\<close> is a lock: on an open store it wins exactly when no live value is there, a loser changes
  nothing, and after a win every attempt on the key before the time runs out loses.
\<close>

theorem kv_setnx_excludes:
  assumes "kv_open marshal s" "key \<noteq> []" "0 \<le> now" "0 \<le> ttl" "int64 (now + ttl)"
    and "0 \<le> ttl'" "ttl = 0 \<or> t < now + ttl"
    and "SetNXWithTTL marshal now key v ttl s = (r, s')"
  shows "r = Inr (kv_view s now key = None) \<and> (r = Inr False \<longrightarrow> s' = s) \<and>
    (r = Inr True \<longrightarrow> SetNXWithTTL marshal t key v' ttl' s' = (Inr False, s'))"
proof -
  from kv_open_marshal [OF assms(1)] obtain j where j: "marshal_for marshal s v = Inr j" by blast
  have valid: "validateMutable key ttl s = None" using assms(1,2,4) by (simp add: validate_key kv_open_def)
  have live: "kv_view s now key = None \<longleftrightarrow>
      \<not> (case map_of (kv_data s) key of Some existing \<Rightarrow> \<not> isExpired existing now | None \<Rightarrow> False)"
    by (auto simp: kv_view_def split: option.splits)
  have won: "SetNXWithTTL marshal t key v' ttl' s' = (Inr False, s')" if "r = Inr True"
  proof -
    have s': "s' = notify (OnSet key j now (deadline now ttl))
        (put_entry key \<lparr>e_value = v, writtenAt = now, expiresAt = deadline now ttl\<rparr> s)"
      using that assms(8) j valid by (auto simp: SetNXWithTTL_def split: if_splits option.splits)
    obtain j' where j': "marshal_for marshal s' v' = Inr j'"
      using kv_open_marshal [OF assms(1), of v'] by (auto simp: s' marshal_for_def)
    have "validateMutable key ttl' s' = None" using assms(1,2,6) s' by (simp add: validate_key kv_open_def)
    then show ?thesis
      using j' assms(7) by (simp add: SetNXWithTTL_def s' deadline_expired [OF assms(3-5)])
  qed
  then show ?thesis using assms(8) j valid live by (auto simp: SetNXWithTTL_def split: if_splits)
qed

theorem kv_setnx_excludes_witness:
  "SetNXWithTTL (\<lambda>_. Inr []) 4 ''lock'' (AnyVal 2) 5 (snd (SetNXWithTTL (\<lambda>_. Inr []) 1 ''lock'' (AnyVal 1) 10 demo_store))
   = (Inr False, snd (SetNXWithTTL (\<lambda>_. Inr []) 1 ''lock'' (AnyVal 1) 10 demo_store))"
proof -
  obtain r s' where r: "SetNXWithTTL (\<lambda>_. Inr []) 1 ''lock'' (AnyVal 1) 10 demo_store = (r, s')" by fastforce
  show ?thesis
    using kv_setnx_excludes [OF demo_store_facts(3) _ _ _ _ _ _ r, where t = 4 and ttl' = 5 and v' = "AnyVal 2"] r
    by (simp add: int64_def kv_view_def demo_store_facts)
qed

text \<open>
  The removal inside \<open>Get\<close> never loses a live value, whatever other callers do between the read and the write
  lock: the store it leaves is the one it read or looks, from the second clock reading on, like the one it found
  under the write lock.
\<close>

theorem kv_get_keeps_live:
  assumes "now2 \<le> t"
  shows "snd (Get now mid now2 key s) = s \<or> kv_view (snd (Get now mid now2 key s)) t = kv_view (mid s) t"
proof -
  have "kv_view (drop_entry key s') t = kv_view s' t" if "map_of (kv_data s') key = Some e" "isExpired e now2" for s' e
    using that isExpired_mono [OF that(2) assms] by (auto simp: kv_view_def)
  then show ?thesis by (auto simp: Get_def Let_def split: option.splits)
qed

theorem kv_get_keeps_live_witness:
  "let mid = (\<lambda>s. snd (SetWithTTL (\<lambda>_. Inr []) 20 ''k'' (AnyVal 9) 0 s));
       s = snd (SetWithTTL (\<lambda>_. Inr []) 1 ''k'' (AnyVal 7) 10 demo_store)
   in snd (Get 15 mid 21 ''k'' s) = s \<or> kv_view (snd (Get 15 mid 21 ''k'' s)) 30 = kv_view (mid s) 30"
  unfolding Let_def by (rule kv_get_keeps_live) simp

text \<open>
  \<open>Len\<close> is the number of keys a client can read at that time, and a sweep does not change it.
\<close>

theorem kv_len_counts_live:
  assumes "kv_inv s" "\<not> kv_closed s" "now \<le> t"
  shows "Len t s = card (dom (kv_view s t)) \<and> Len t (cleanupExpired now s) = Len t s"
proof -
  have len: "Len t u = card (dom (kv_view u t))" if "kv_inv u" "\<not> kv_closed u" for u :: "'a Store"
  proof -
    let ?live = "filter (\<lambda>(k, e). \<not> isExpired e t) (kv_data u)"
    have dist: "distinct (map fst (kv_data u))" using that by (simp add: kv_inv_def)
    then have "distinct (map fst ?live)" by (rule distinct_map_filter)
    moreover have "kv_view u t k \<noteq> None \<longleftrightarrow> k \<in> set (map fst ?live)" for k
    proof (cases "map_of (kv_data u) k")
      case None
      then have "k \<notin> fst ` set (kv_data u)" by (simp add: map_of_eq_None_iff)
      with None show ?thesis by (auto simp: kv_view_def)
    next
      case (Some e)
      then have "(k, e') \<in> set (kv_data u) \<longleftrightarrow> e' = e" for e' using dist by (metis map_of_eq_Some_iff option.inject)
      then have "k \<in> set (map fst ?live) \<longleftrightarrow> \<not> isExpired e t" by (force simp: image_iff)
      then show ?thesis using Some by (simp add: kv_view_def)
    qed
    then have "dom (kv_view u t) = set (map fst ?live)" by auto
    ultimately show ?thesis using that(2) by (metis Len_def distinct_card length_map)
  qed
  show ?thesis
    using len [OF assms(1,2)] len [of "cleanupExpired now s"] kv_view_sweep [OF assms(1,3)] cleanup_inv [OF assms(1)]
      assms(2) by simp
qed

theorem kv_len_counts_live_witness:
  "Len 5 (cleanupExpired 3 demo_store) = Len 5 demo_store"
  using kv_len_counts_live [OF demo_store_facts(2,4), of 3 5] by simp

text \<open>
  A replica that sweeps and reads, against the entries \<open>ref\<close> that the writes alone make: where they differ, the
  entry of \<open>ref\<close> has expired at \<open>t\<close> and the replica has none or an older one, which has expired as well.
\<close>

definition behind :: "int \<Rightarrow> (string \<rightharpoonup> 'v entry) \<Rightarrow> (string \<rightharpoonup> 'v entry) \<Rightarrow> bool" where
  "behind t d ref \<longleftrightarrow> (\<forall>k. d k = ref k \<or>
     (\<exists>e. ref k = Some e \<and> isExpired e t \<and>
       (\<forall>e'. d k = Some e' \<longrightarrow> isExpired e' t \<and> writtenAt e' \<le> writtenAt e)))"

lemma behind_view:
  assumes "behind t (map_of (kv_data s)) (map_of (kv_data s'))"
  shows "kv_view s t = kv_view s' t"
proof
  fix k
  show "kv_view s t k = kv_view s' t k"
    using assms [unfolded behind_def, rule_format, of k]
    by (cases "map_of (kv_data s) k"; cases "map_of (kv_data s') k") (auto simp: kv_view_def)
qed

lemma behind_remove:
  assumes "behind t d ref" "\<And>k. d' k = d k \<or> (\<exists>e. d k = Some e \<and> isExpired e t \<and> d' k = None)"
  shows "behind t d' ref"
  unfolding behind_def
proof
  fix k
  show "d' k = ref k \<or> (\<exists>e. ref k = Some e \<and> isExpired e t \<and> (\<forall>e'. d' k = Some e' \<longrightarrow> isExpired e' t \<and> writtenAt e' \<le> writtenAt e))"
    using assms(1) [unfolded behind_def, rule_format, of k] assms(2) [of k] by auto
qed

lemma behind_lww:
  assumes b: "behind t d ref" and S: "expiry_ordered S" "stamps ref [m] \<subseteq> S"
  shows "behind t (lww dec m d) (lww dec m ref)"
proof -
  obtain key j w x where m: "m = (key, j, w, x)" by (cases m)
  let ?new = "\<lparr>e_value = dec key j, writtenAt = w, expiresAt = x\<rparr>"
  have new: "isExpired ?new t" if e: "ref key = Some e" "isExpired e t" "w < writtenAt e" for e
  proof -
    have "(key, w, x) \<in> S" "(key, writtenAt e, expiresAt e) \<in> S" using S(2) e(1) by (auto simp: stamps_def m)
    then have "expiresAt e = 0 \<or> (x \<noteq> 0 \<and> x \<le> expiresAt e)" using S(1) e(3) by (fastforce simp: expiry_ordered_def)
    then show ?thesis using e(2) by (auto simp: isExpired_def)
  qed
  have "lww dec m d key = lww dec m ref key \<or>
      (\<exists>e. lww dec m ref key = Some e \<and> isExpired e t \<and> (\<forall>e'. lww dec m d key = Some e' \<longrightarrow> isExpired e' t \<and> writtenAt e' \<le> writtenAt e))"
    using b [unfolded behind_def, rule_format, of key]
  proof (elim disjE exE conjE)
    fix e assume e: "ref key = Some e" "isExpired e t" "\<forall>e'. d key = Some e' \<longrightarrow> isExpired e' t \<and> writtenAt e' \<le> writtenAt e"
    show ?thesis
      using e new [OF e(1,2)] by (cases "d key"; cases "w < writtenAt e"; cases "key = []") (auto simp: lww_def m)
  qed (auto simp: lww_def m split: option.splits)
  then show ?thesis
    using b by (auto simp: behind_def lww_def m)
qed

lemma stamps_lww: "stamps (lww dec m ref) ms \<subseteq> stamps ref (m # ms)"
proof -
  obtain key j w x where m: "m = (key, j, w, x)" by (cases m)
  have "(k, writtenAt e, expiresAt e) \<in> stamps ref (m # ms)" if "lww dec m ref k = Some e" for k e
    using that by (auto simp: stamps_def lww_def m split: if_splits)
  then show ?thesis by (force simp: stamps_def [of "lww dec m ref"] stamps_def [of ref "m # ms"])
qed

lemma following_step:
  assumes s: "kv_inv s" "\<not> kv_closed s" and ev: "following t ev"
    and b: "behind t (map_of (kv_data s)) ref" and S: "expiry_ordered S" "stamps ref (remote_writes [ev]) \<subseteq> S"
  shows "behind t (map_of (kv_data (kv_exec marshal ev s))) (fold (lww (\<lambda>k j. decodeValue k j s)) (remote_writes [ev]) ref) \<and>
    \<not> kv_closed (kv_exec marshal ev s) \<and> kv_decoders (kv_exec marshal ev s) = kv_decoders s"
proof (cases ev)
  case (KSetRemote k j w x)
  have eq: "kv_exec marshal ev s = apply_remote (k, j, w, x) s" by (simp add: KSetRemote apply_remote_def)
  have "behind t (lww (\<lambda>k j. decodeValue k j s) (k, j, w, x) (map_of (kv_data s))) (lww (\<lambda>k j. decodeValue k j s) (k, j, w, x) ref)"
    by (rule behind_lww [OF b S(1)]) (use S(2) in \<open>simp add: KSetRemote remote_writes_def\<close>)
  then show ?thesis
    unfolding eq using s(2) by (simp add: apply_remote_lww [OF s(2)] KSetRemote remote_writes_def)
next
  case (KGet now now2 k)
  have "map_of (kv_data (kv_exec marshal ev s)) q = map_of (kv_data s) q \<or>
      (\<exists>e. map_of (kv_data s) q = Some e \<and> isExpired e t \<and> map_of (kv_data (kv_exec marshal ev s)) q = None)" for q
    using ev isExpired_mono [of _ now2 t] by (auto simp: KGet Get_def Let_def split: option.splits)
  from behind_remove [OF b this] show ?thesis
    using s(2) by (auto simp: KGet remote_writes_def Get_def Let_def drop_entry_def split: option.splits)
next
  case (KCleanup now)
  have dist: "distinct (map fst (kv_data s))" using s(1) by (simp add: kv_inv_def)
  have "map_of (kv_data (kv_exec marshal ev s)) q = map_of (kv_data s) q \<or>
      (\<exists>e. map_of (kv_data s) q = Some e \<and> isExpired e t \<and> map_of (kv_data (kv_exec marshal ev s)) q = None)" for q
    using ev isExpired_mono [of _ now t] map_of_sweep [OF dist, of now q]
    by (auto simp: KCleanup cleanupExpired_def split: option.splits if_splits)
  from behind_remove [OF b this] show ?thesis
    using s(2) by (simp add: KCleanup remote_writes_def cleanupExpired_def)
qed (use ev in auto)

lemma expiry_ordered_mono: "S \<subseteq> S' \<Longrightarrow> expiry_ordered S' \<Longrightarrow> expiry_ordered S"
  unfolding expiry_ordered_def split_beta by (meson subsetD)

lemma remote_writes_Cons: "remote_writes (ev # evs) = remote_writes [ev] @ remote_writes evs"
  by (simp add: remote_writes_def)

lemma stamps_fold: "stamps (fold (lww dec) ms ref) ms' \<subseteq> stamps ref (ms @ ms')"
proof (induction ms arbitrary: ref)
  case (Cons m ms)
  have "stamps (lww dec m ref) (ms @ ms') \<subseteq> stamps ref (m # ms @ ms')" by (rule stamps_lww)
  with Cons [of "lww dec m ref"] show ?case by auto
qed simp

text \<open>A following replica is behind the writes it has received.\<close>

lemma following_behind:
  assumes "kv_inv s" "\<not> kv_closed s" "list_all (following t) evs" "behind t (map_of (kv_data s)) ref"
    and "expiry_ordered (stamps ref (remote_writes evs))"
  shows "behind t (map_of (kv_data (fold (kv_exec marshal) evs s))) (fold (lww (\<lambda>k j. decodeValue k j s)) (remote_writes evs) ref)"
  using assms
proof (induction evs arbitrary: s ref)
  case (Cons ev evs)
  let ?s = "kv_exec marshal ev s" and ?dec = "\<lambda>k j. decodeValue k j s"
  let ?ref = "fold (lww ?dec) (remote_writes [ev]) ref"
  have sub: "stamps ref (remote_writes [ev]) \<subseteq> stamps ref (remote_writes (ev # evs))"
    by (auto simp: stamps_def remote_writes_def)
  from following_step [OF Cons.prems(1,2) _ Cons.prems(4,5) sub, of marshal] Cons.prems(3)
  have step: "behind t (map_of (kv_data ?s)) ?ref" "\<not> kv_closed ?s" "kv_decoders ?s = kv_decoders s" by simp_all
  have dec: "(\<lambda>k j. decodeValue k j ?s) = ?dec" by (intro ext) (simp add: decodeValue_def step(3))
  have "stamps ?ref (remote_writes evs) \<subseteq> stamps ref (remote_writes (ev # evs))"
    unfolding remote_writes_Cons [of ev evs] by (rule stamps_fold)
  then have "expiry_ordered (stamps ?ref (remote_writes evs))"
    using Cons.prems(5) by (rule expiry_ordered_mono)
  from Cons.IH [OF kv_exec_inv [OF Cons.prems(1)] step(2) _ step(1) this] Cons.prems(3)
  show ?case unfolding remote_writes_Cons [of ev evs] dec by simp
qed (simp add: remote_writes_def)

lemma lww_order_irrelevant:
  assumes "distinct_times ms" "mset ms = mset ms'"
  shows "fold (lww dec) ms = fold (lww dec) ms'"
proof (rule fold_multiset_equiv [OF _ assms(2)])
  fix m m' assume "m \<in> set ms" "m' \<in> set ms"
  then have "fst m = fst m' \<and> fst (snd (snd m)) = fst (snd (snd m')) \<longrightarrow> m = m'"
    using assms(1) unfolding distinct_times_def by blast
  then show "lww dec m \<circ> lww dec m' = lww dec m' \<circ> lww dec m" by (rule lww_commute)
qed

text \<open>
  C37. Replicas converge: two nodes that start from the same open store and take the same gossiped writes in any two
  orders, with any sweeps of the cleanup loop and any reads between them, show their clients the same value for every
  key at every time not before those sweeps and reads, when the writes of one key carry distinct times and a later
  write of a key never expires before an earlier one.
\<close>

theorem kv_replicas_converge:
  assumes "kv_inv s" "\<not> kv_closed s" "list_all (following t) evs" "list_all (following t) evs'"
    and "mset (remote_writes evs) = mset (remote_writes evs')" "distinct_times (remote_writes evs)"
    and "expiry_ordered (stamps (map_of (kv_data s)) (remote_writes evs))"
  shows "kv_view (fold (kv_exec marshal) evs s) t = kv_view (fold (kv_exec marshal') evs' s) t"
proof -
  let ?dec = "\<lambda>k j. decodeValue k j s"
  have refl: "behind t (map_of (kv_data s)) (map_of (kv_data s))" by (simp add: behind_def)
  have same: "map_of (kv_data (fold apply_remote (remote_writes evs) s)) = fold (lww ?dec) (remote_writes evs) (map_of (kv_data s))"
    by (rule fold_remote_lww [OF assms(2)])
  have "set (remote_writes evs') = set (remote_writes evs)" using assms(5) by (metis mset_eq_setD)
  then have ord': "expiry_ordered (stamps (map_of (kv_data s)) (remote_writes evs'))" using assms(7) by (simp add: stamps_def)
  have "behind t (map_of (kv_data (fold (kv_exec marshal) evs s))) (map_of (kv_data (fold apply_remote (remote_writes evs) s)))"
    using following_behind [OF assms(1-3) refl assms(7)] same by simp
  moreover have "behind t (map_of (kv_data (fold (kv_exec marshal') evs' s))) (map_of (kv_data (fold apply_remote (remote_writes evs) s)))"
    using following_behind [OF assms(1,2,4) refl ord'] same lww_order_irrelevant [OF assms(6,5), of ?dec] by simp
  ultimately show ?thesis using behind_view by metis
qed

text \<open>The newer write arrives first, expires and is swept on one node before the older one arrives.\<close>

theorem kv_replicas_converge_witness:
  "kv_view (fold (kv_exec (\<lambda>_. Inr [])) [KSetRemote ''k'' ''b'' 2 50, KCleanup 60, KSetRemote ''k'' ''a'' 1 40, KSetRemote ''q'' ''c'' 3 90] demo_store) 70 =
   kv_view (fold (kv_exec (\<lambda>_. Inr [])) [KSetRemote ''q'' ''c'' 3 90, KSetRemote ''k'' ''a'' 1 40, KGet 45 45 ''k'', KSetRemote ''k'' ''b'' 2 50] demo_store) 70 \<and>
   kv_view (fold (kv_exec (\<lambda>_. Inr [])) [KSetRemote ''k'' ''b'' 2 50, KCleanup 60, KSetRemote ''k'' ''a'' 1 40, KSetRemote ''q'' ''c'' 3 90] demo_store) 70 ''q'' =
     Some (RawBytes ''c'')"
proof (rule conjI, rule kv_replicas_converge [OF demo_store_facts(2,4)])
  show "expiry_ordered (stamps (map_of (kv_data demo_store))
      (remote_writes [KSetRemote ''k'' ''b'' 2 50, KCleanup 60, KSetRemote ''k'' ''a'' 1 40, KSetRemote ''q'' ''c'' 3 90]))"
    by (auto simp: expiry_ordered_def stamps_def remote_writes_def demo_store_def)
qed (simp_all add: remote_writes_def distinct_times_def kv_view_def SetRemote_def decodeValue_def demo_store_def put_entry_def
    cleanupExpired_def isExpired_def)

text \<open>
  The decoder that a gossiped value is read with does not depend on the order in which Go walks the map of
  decoders: it is the one with the longest registered prefix of the key.
\<close>

theorem kv_decoder_order_irrelevant:
  assumes "distinct (map fst (kv_decoders s))" "mset (kv_decoders s) = mset ds"
  shows "decodeValue key j s = decodeValue key j (s\<lparr>kv_decoders := ds\<rparr>)"
  using best_decoder_perm [OF assms, of key] by (simp add: decodeValue_def)

theorem kv_decoder_order_irrelevant_witness:
  "decodeValue ''ab'' ''x'' (demo_store\<lparr>kv_decoders := [(''a'', \<lambda>_. Some 1), (''ab'', \<lambda>_. Some 2)]\<rparr>) =
   decodeValue ''ab'' ''x'' (demo_store\<lparr>kv_decoders := [(''ab'', \<lambda>_. Some 2), (''a'', \<lambda>_. Some 1)]\<rparr>)"
  using kv_decoder_order_irrelevant [of "demo_store\<lparr>kv_decoders := [(''a'', \<lambda>_. Some 1), (''ab'', \<lambda>_. Some 2)]\<rparr>"
      "[(''ab'', \<lambda>_. Some 2), (''a'', \<lambda>_. Some 1)]" "''ab''" "''x''"]
  by (simp add: demo_store_def)

text \<open>
  Last-write-wins does not extend to deletes: \<open>DeleteRemote\<close> leaves no trace of its time, so a write older than
  the delete that arrives after it brings the key back, while in the order of their times the key is gone.
\<close>

theorem kv_stale_write_resurrects:
  "kv_view (snd (DeleteRemote ''k'' 2 (snd (SetRemote ''k'' ''a'' 1 0 demo_store)))) t ''k'' = None \<and>
   kv_view (snd (SetRemote ''k'' ''a'' 1 0 (snd (DeleteRemote ''k'' 2 demo_store)))) t ''k'' = Some (RawBytes ''a'')"
  by (simp add: kv_view_def SetRemote_def DeleteRemote_def demo_store_facts decodeValue_def isExpired_def)
    (simp add: demo_store_def drop_entry_def put_entry_def isExpired_def)

end
