(* ===== verification/CircuitBreaker.thy ===== *)
theory CircuitBreaker
  imports Prelude "HOL-Library.Word"
begin

text \<open>
  The circuit breaker in front of the upstream providers,
  \<^verbatim>\<open>deepintshield_server/core/providers/utils/circuit_breaker.go\<close> and \<^verbatim>\<open>circuit_do.go\<close>.  The counters keep
  their widths (\<open>uint32\<close>, \<open>int32\<close> and \<open>int64\<close> are words, compared signed where Go's types are signed), the
  clock is an argument.  One call of \<open>Allow\<close> or \<open>Record\<close> is one atomic step; calls of different requests
  interleave freely, which is what the step relation \<open>breaker_step\<close> ranges over.
\<close>

section \<open>State\<close>

datatype CircuitState = CircuitClosed | CircuitOpen | CircuitHalfOpen

datatype breaker_error = ErrCircuitOpen

record ProviderCircuitConfig =
  FailureThreshold :: "32 word"
  OpenDuration :: int
  HalfOpenSuccessThreshold :: "32 word"
  HalfOpenMaxConcurrent :: "32 word"

record ProviderCircuit =
  pc_cfg :: ProviderCircuitConfig
  pc_state :: CircuitState
  consecutiveFails :: "32 word"
  consecutivePasses :: "32 word"
  openUntilNs :: "64 word"
  halfOpenInflight :: "32 word"

definition defaultProviderCircuitConfig :: ProviderCircuitConfig where
  "defaultProviderCircuitConfig =
     \<lparr>FailureThreshold = 5, OpenDuration = 30 * 10 ^ 9, HalfOpenSuccessThreshold = 2, HalfOpenMaxConcurrent = 2\<rparr>"

definition NewProviderCircuit :: "ProviderCircuitConfig \<Rightarrow> ProviderCircuit" where
  "NewProviderCircuit cfg =
     \<lparr>pc_cfg = (if FailureThreshold cfg = 0 then defaultProviderCircuitConfig else cfg),
      pc_state = CircuitClosed, consecutiveFails = 0, consecutivePasses = 0, openUntilNs = 0, halfOpenInflight = 0\<rparr>"

section \<open>Operations\<close>

text \<open>\<open>time.Time.UnixNano\<close> of an instant given in nanoseconds since 1970.\<close>

definition UnixNano :: "int \<Rightarrow> 64 word" where
  "UnixNano t = word_of_int t"

definition tripOpen :: "int \<Rightarrow> ProviderCircuit \<Rightarrow> ProviderCircuit" where
  "tripOpen now c =
     c\<lparr>pc_state := CircuitOpen, openUntilNs := UnixNano (now + OpenDuration (pc_cfg c)), consecutivePasses := 0\<rparr>"

function Allow :: "int \<Rightarrow> ProviderCircuit \<Rightarrow> breaker_error option \<times> ProviderCircuit" where
  "Allow now c =
     (case pc_state c of
        CircuitClosed \<Rightarrow> (None, c)
      | CircuitOpen \<Rightarrow>
          (if openUntilNs c \<le>s UnixNano now
           then Allow now (c\<lparr>pc_state := CircuitHalfOpen, consecutivePasses := 0, halfOpenInflight := 0\<rparr>)
           else (Some ErrCircuitOpen, c))
      | CircuitHalfOpen \<Rightarrow>
          (let c' = c\<lparr>halfOpenInflight := halfOpenInflight c + 1\<rparr> in
           if HalfOpenMaxConcurrent (pc_cfg c) <s halfOpenInflight c'
           then (Some ErrCircuitOpen, c'\<lparr>halfOpenInflight := halfOpenInflight c' - 1\<rparr>)
           else (None, c')))"
  by pat_completeness auto
termination
  by (relation "measure (\<lambda>(now, c). if pc_state c = CircuitOpen then 1 else 0)") auto

declare Allow.simps [simp del]

definition Record :: "int \<Rightarrow> bool \<Rightarrow> ProviderCircuit \<Rightarrow> ProviderCircuit" where
  "Record now success c =
     (let st = pc_state c;
          c1 = (if st = CircuitHalfOpen then c\<lparr>halfOpenInflight := halfOpenInflight c - 1\<rparr> else c)
      in if success
         then (let c2 = c1\<lparr>consecutiveFails := 0\<rparr> in
               if st = CircuitHalfOpen
               then (let c3 = c2\<lparr>consecutivePasses := consecutivePasses c2 + 1\<rparr> in
                     if HalfOpenSuccessThreshold (pc_cfg c) \<le> consecutivePasses c3
                     then c3\<lparr>pc_state := CircuitClosed, consecutivePasses := 0\<rparr>
                     else c3)
               else c2)
         else if st = CircuitHalfOpen then tripOpen now c1
         else (let c2 = c1\<lparr>consecutiveFails := consecutiveFails c1 + 1\<rparr> in
               if FailureThreshold (pc_cfg c) \<le> consecutiveFails c2 then tripOpen now c2 else c2))"

definition State :: "ProviderCircuit \<Rightarrow> CircuitState" where
  "State c = pc_state c"

section \<open>The registry and the guarded call\<close>

type_synonym registry = "string \<rightharpoonup> ProviderCircuit"

definition GetProviderCircuit :: "string \<Rightarrow> registry \<Rightarrow> ProviderCircuit option \<times> registry" where
  "GetProviderCircuit host circuits =
     (if host = [] then (None, circuits)
      else (case circuits host of
              Some c \<Rightarrow> (Some c, circuits)
            | None \<Rightarrow> (let c = NewProviderCircuit defaultProviderCircuitConfig
                       in (Some c, circuits(host \<mapsto> c)))))"

text \<open>What \<open>client.Do\<close> leaves: a transport error or the status of the response.\<close>

datatype do_result = TransportError string | Responded nat

datatype do_error = CircuitRejected breaker_error | DoError string

definition call_failed :: "do_result \<Rightarrow> bool" where
  "call_failed r = (case r of TransportError e \<Rightarrow> True | Responded status \<Rightarrow> status \<ge> 500 \<or> status = 429)"

definition do_err :: "do_result \<Rightarrow> do_error option" where
  "do_err r = (case r of TransportError e \<Rightarrow> Some (DoError e) | Responded status \<Rightarrow> None)"

text \<open>
  The breaker is shared, so the registry may change while the call is under way: \<open>do\<close> is the transport together
  with what other requests do to the registry meanwhile, \<open>t0\<close> and \<open>t1\<close> are the times of \<open>Allow\<close> and \<open>Record\<close>.
  The result says whether the transport was called.
\<close>

definition DoWithCircuit ::
  "(registry \<Rightarrow> do_result \<times> registry) \<Rightarrow> string \<Rightarrow> int \<Rightarrow> int \<Rightarrow> registry \<Rightarrow> do_error option \<times> bool \<times> registry" where
  "DoWithCircuit do host t0 t1 circuits =
     (case GetProviderCircuit host circuits of
        (None, circuits1) \<Rightarrow> (let (r, circuits2) = do circuits1 in (do_err r, True, circuits2))
      | (Some c, circuits1) \<Rightarrow>
          (let (err, c') = Allow t0 c; circuits2 = circuits1(host \<mapsto> c') in
           case err of
             Some e \<Rightarrow> (Some (CircuitRejected e), False, circuits2)
           | None \<Rightarrow>
               (let (r, circuits3) = do circuits2;
                    c3 = (case circuits3 host of Some c3 \<Rightarrow> c3 | None \<Rightarrow> c')
                in (do_err r, True, circuits3(host \<mapsto> Record t1 (\<not> call_failed r) c3)))))"

section \<open>Runs\<close>

text \<open>One request after the other on one breaker: each with its two times and its outcome.\<close>

fun serial_calls :: "(int \<times> int \<times> bool) list \<Rightarrow> ProviderCircuit \<Rightarrow> ProviderCircuit" where
  "serial_calls [] c = c"
| "serial_calls ((t0, t1, ok) # calls) c =
     (case Allow t0 c of
        (None, c') \<Rightarrow> serial_calls calls (Record t1 ok c')
      | (Some e, c') \<Rightarrow> serial_calls calls c')"

text \<open>Events of interleaved requests.\<close>

datatype breaker_event = EvAllow int | EvRecord int bool

fun breaker_exec :: "breaker_event \<Rightarrow> ProviderCircuit \<Rightarrow> ProviderCircuit" where
  "breaker_exec (EvAllow now) c = snd (Allow now c)"
| "breaker_exec (EvRecord now ok) c = Record now ok c"

inductive breaker_step :: "ProviderCircuit \<Rightarrow> ProviderCircuit \<Rightarrow> bool" where
  "breaker_step c (breaker_exec ev c)"

inductive_cases breaker_stepE: "breaker_step c c'"

definition breaker_init :: "ProviderCircuit \<Rightarrow> bool" where
  "breaker_init c \<longleftrightarrow> (\<exists>cfg. HalfOpenSuccessThreshold cfg \<noteq> 0 \<and> c = NewProviderCircuit cfg)"

definition breaker_inv :: "ProviderCircuit \<Rightarrow> bool" where
  "breaker_inv c \<longleftrightarrow>
     FailureThreshold (pc_cfg c) \<noteq> 0 \<and> HalfOpenSuccessThreshold (pc_cfg c) \<noteq> 0 \<and>
     (pc_state c = CircuitClosed \<longrightarrow> consecutiveFails c < FailureThreshold (pc_cfg c)) \<and>
     (pc_state c = CircuitHalfOpen \<longrightarrow> consecutivePasses c < HalfOpenSuccessThreshold (pc_cfg c)) \<and>
     (pc_state c \<noteq> CircuitHalfOpen \<longrightarrow> consecutivePasses c = 0)"

text \<open>The failures in a sequence of events, and the sequences with no success.\<close>

fun is_failure :: "breaker_event \<Rightarrow> bool" where
  "is_failure (EvAllow now) = False"
| "is_failure (EvRecord now ok) = (\<not> ok)"

fun no_success :: "breaker_event \<Rightarrow> bool" where
  "no_success (EvAllow now) = True"
| "no_success (EvRecord now ok) = (\<not> ok)"

section \<open>The breaker a serial caller sees\<close>

text \<open>
  The abstract breaker: closed with a number of failures in a row, open until a time, or half open with a number
  of passed probes.  \<open>F\<close> and \<open>S\<close> are the thresholds, \<open>d\<close> the time it stays open.
\<close>

datatype abs_breaker = AClosed nat | AOpen int | AHalf nat

definition abs_outcome :: "nat \<Rightarrow> nat \<Rightarrow> int \<Rightarrow> int \<Rightarrow> bool \<Rightarrow> abs_breaker \<Rightarrow> abs_breaker" where
  "abs_outcome F S d t1 ok a =
     (case a of
        AClosed f \<Rightarrow> (if ok then AClosed 0 else if F \<le> f + 1 then AOpen (t1 + d) else AClosed (f + 1))
      | AHalf p \<Rightarrow> (if \<not> ok then AOpen (t1 + d) else if S \<le> p + 1 then AClosed 0 else AHalf (p + 1))
      | AOpen u \<Rightarrow> AOpen u)"

definition abs_call :: "nat \<Rightarrow> nat \<Rightarrow> int \<Rightarrow> int \<times> int \<times> bool \<Rightarrow> abs_breaker \<Rightarrow> abs_breaker" where
  "abs_call F S d call a =
     (case call of (t0, t1, ok) \<Rightarrow>
        (case a of
           AOpen u \<Rightarrow> (if t0 < u then AOpen u else abs_outcome F S d t1 ok (AHalf 0))
         | _ \<Rightarrow> abs_outcome F S d t1 ok a))"

definition call_times_ok :: "int \<Rightarrow> int \<times> int \<times> bool \<Rightarrow> bool" where
  "call_times_ok d call \<longleftrightarrow> (case call of (t0, t1, ok) \<Rightarrow> int64 t0 \<and> int64 (t1 + d))"

text \<open>A breaker between two calls of a serial caller, and the abstract breaker it stands for.\<close>

fun breaker_rel :: "ProviderCircuit \<Rightarrow> abs_breaker \<Rightarrow> bool" where
  "breaker_rel c (AClosed f) \<longleftrightarrow>
     pc_state c = CircuitClosed \<and> unat (consecutiveFails c) = f \<and> consecutiveFails c < FailureThreshold (pc_cfg c)"
| "breaker_rel c (AOpen u) \<longleftrightarrow> pc_state c = CircuitOpen \<and> openUntilNs c = UnixNano u \<and> int64 u"
| "breaker_rel c (AHalf p) \<longleftrightarrow>
     pc_state c = CircuitHalfOpen \<and> unat (consecutivePasses c) = p \<and>
     consecutivePasses c < HalfOpenSuccessThreshold (pc_cfg c) \<and> halfOpenInflight c = 0"

section \<open>Facts on the operations\<close>

lemma Allow_closed: "pc_state c = CircuitClosed \<Longrightarrow> Allow now c = (None, c)"
  by (simp add: Allow.simps)

lemma Allow_open_early:
  "pc_state c = CircuitOpen \<Longrightarrow> \<not> openUntilNs c \<le>s UnixNano now \<Longrightarrow> Allow now c = (Some ErrCircuitOpen, c)"
  by (simp add: Allow.simps)

lemma Allow_half_open:
  "pc_state c = CircuitHalfOpen \<Longrightarrow>
   Allow now c = (if HalfOpenMaxConcurrent (pc_cfg c) <s halfOpenInflight c + 1 then (Some ErrCircuitOpen, c)
                  else (None, c\<lparr>halfOpenInflight := halfOpenInflight c + 1\<rparr>))"
  by (simp add: Allow.simps Let_def)

lemma Allow_open_late:
  "pc_state c = CircuitOpen \<Longrightarrow> openUntilNs c \<le>s UnixNano now \<Longrightarrow>
   Allow now c = Allow now (c\<lparr>pc_state := CircuitHalfOpen, consecutivePasses := 0, halfOpenInflight := 0\<rparr>)"
  by (subst Allow.simps) simp

lemmas Allow_cases = Allow_closed Allow_open_early Allow_half_open Allow_open_late

lemma Allow_cfg [simp]: "pc_cfg (snd (Allow now c)) = pc_cfg c"
  by (cases "pc_state c"; cases "openUntilNs c \<le>s UnixNano now") (simp_all add: Allow_cases)

lemma Record_cfg [simp]: "pc_cfg (Record now ok c) = pc_cfg c"
  by (simp add: Record_def tripOpen_def Let_def)

lemma Allow_inv:
  assumes "breaker_inv c"
  shows "breaker_inv (snd (Allow now c))"
proof (cases "pc_state c")
  case CircuitOpen
  then show ?thesis
    using assms by (cases "openUntilNs c \<le>s UnixNano now") (auto simp: Allow_cases breaker_inv_def word_gt_0)
qed (use assms in \<open>auto simp: Allow_cases breaker_inv_def\<close>)

lemma Record_inv:
  assumes "breaker_inv c"
  shows "breaker_inv (Record now ok c)"
  using assms
  by (cases "pc_state c"; cases ok)
    (auto simp: breaker_inv_def Record_def tripOpen_def Let_def word_gt_0 not_le)

interpretation breaker: transition_system breaker_init breaker_step breaker_inv
proof
  show "breaker_init c \<Longrightarrow> breaker_inv c" for c
    by (auto simp: breaker_init_def breaker_inv_def NewProviderCircuit_def defaultProviderCircuitConfig_def word_gt_0
        split: if_splits)
  show "breaker_step c c' \<Longrightarrow> breaker_inv c \<Longrightarrow> breaker_inv c'" for c c'
    by (elim breaker_stepE) (metis breaker_exec.elims Allow_inv Record_inv)
qed


section \<open>Refinement for a serial caller\<close>

lemma sint_UnixNano: "int64 a \<Longrightarrow> sint (UnixNano a) = a"
  by (simp add: int64_def UnixNano_def signed_take_bit_int_eq_self sint_sbintrunc')

lemma UnixNano_le_iff: "int64 a \<Longrightarrow> int64 b \<Longrightarrow> UnixNano a \<le>s UnixNano b \<longleftrightarrow> a \<le> b"
  by (simp add: word_sle_eq sint_UnixNano)

lemma unat_inc_less:
  fixes x y :: "32 word"
  assumes "x < y"
  shows "unat (x + 1) = unat x + 1"
proof -
  have "unat y < 2 ^ 32" using unsigned_less [of y] by simp
  then have "unat x + 1 < 2 ^ 32" using assms by (simp add: word_less_nat_alt)
  then show ?thesis by (simp add: unat_word_ariths)
qed

lemma le_inc_iff:
  fixes x y :: "32 word"
  assumes "x < y"
  shows "y \<le> x + 1 \<longleftrightarrow> unat y \<le> unat x + 1"
  using unat_inc_less [OF assms] by (simp add: word_le_nat_alt)

lemma Record_closed:
  assumes "breaker_rel c (AClosed f)" "int64 (t1 + OpenDuration (pc_cfg c))"
  shows "breaker_rel (Record t1 ok c)
    (abs_outcome (unat (FailureThreshold (pc_cfg c))) S (OpenDuration (pc_cfg c)) t1 ok (AClosed f))"
proof -
  have lt: "consecutiveFails c < FailureThreshold (pc_cfg c)" using assms(1) by simp
  have pos: "0 < FailureThreshold (pc_cfg c)" using lt word_gt_0 [of "FailureThreshold (pc_cfg c)"] by force
  show ?thesis
    using assms le_inc_iff [OF lt] unat_inc_less [OF lt] pos
    by (auto simp: Record_def tripOpen_def abs_outcome_def Let_def not_le)
qed

lemma Record_half:
  assumes "pc_state c = CircuitHalfOpen" "consecutivePasses c < HalfOpenSuccessThreshold (pc_cfg c)"
    and "halfOpenInflight c = 1" "FailureThreshold (pc_cfg c) \<noteq> 0" "int64 (t1 + OpenDuration (pc_cfg c))"
  shows "breaker_rel (Record t1 ok c)
    (abs_outcome F (unat (HalfOpenSuccessThreshold (pc_cfg c))) (OpenDuration (pc_cfg c)) t1 ok
      (AHalf (unat (consecutivePasses c))))"
  using assms le_inc_iff [OF assms(2)] unat_inc_less [OF assms(2)]
  by (auto simp: Record_def tripOpen_def abs_outcome_def Let_def not_le word_gt_0)

lemma serial_call_refines:
  assumes rel: "breaker_rel c a" and ok: "call_times_ok (OpenDuration (pc_cfg c)) call"
    and cfg: "FailureThreshold (pc_cfg c) \<noteq> 0" "HalfOpenSuccessThreshold (pc_cfg c) \<noteq> 0"
      "\<not> HalfOpenMaxConcurrent (pc_cfg c) <s 1"
  shows "breaker_rel (serial_calls [call] c)
    (abs_call (unat (FailureThreshold (pc_cfg c))) (unat (HalfOpenSuccessThreshold (pc_cfg c)))
      (OpenDuration (pc_cfg c)) call a)"
proof -
  obtain t0 t1 r where call: "call = (t0, t1, r)" by (cases call)
  with ok have t: "int64 t0" "int64 (t1 + OpenDuration (pc_cfg c))" by (simp_all add: call_times_ok_def)
  have half: "breaker_rel (serial_calls [call] c')
      (abs_outcome (unat (FailureThreshold (pc_cfg c))) (unat (HalfOpenSuccessThreshold (pc_cfg c)))
        (OpenDuration (pc_cfg c)) t1 r (AHalf (unat (consecutivePasses c'))))"
    if "pc_state c' = CircuitHalfOpen" "halfOpenInflight c' = 0" "pc_cfg c' = pc_cfg c"
      "consecutivePasses c' < HalfOpenSuccessThreshold (pc_cfg c)" for c'
    using that cfg t call
      Record_half [of "c'\<lparr>halfOpenInflight := 1\<rparr>" t1 r "unat (FailureThreshold (pc_cfg c))"]
    by (simp add: Allow_half_open)
  show ?thesis
  proof (cases a)
    case (AClosed f)
    then show ?thesis
      using rel t call Record_closed [of c f t1 r "unat (HalfOpenSuccessThreshold (pc_cfg c))"]
      by (simp add: Allow_closed abs_call_def)
  next
    case (AHalf p)
    then show ?thesis using rel call half [of c] by (auto simp: abs_call_def)
  next
    case (AOpen u)
    then have o: "pc_state c = CircuitOpen" "openUntilNs c = UnixNano u" "int64 u" using rel by simp_all
    show ?thesis
    proof (cases "t0 < u")
      case True
      then show ?thesis
        using o t call AOpen by (simp add: Allow_open_early UnixNano_le_iff abs_call_def)
    next
      case False
      let ?c = "c\<lparr>pc_state := CircuitHalfOpen, consecutivePasses := 0, halfOpenInflight := 0\<rparr>"
      have "Allow t0 c = Allow t0 ?c" using False o t by (intro Allow_open_late) (simp_all add: UnixNano_le_iff)
      then have "serial_calls [call] c = serial_calls [call] ?c" by (simp add: call)
      then show ?thesis using False AOpen call half [of ?c] cfg by (simp add: abs_call_def word_gt_0)
    qed
  qed
qed

lemma serial_calls_Cons: "serial_calls (call # calls) c = serial_calls calls (serial_calls [call] c)"
  by (cases call) (auto split: prod.splits option.splits)

lemma serial_calls_cfg [simp]: "pc_cfg (serial_calls calls c) = pc_cfg c"
proof (induction calls c rule: serial_calls.induct)
  case (2 t0 t1 ok calls c)
  obtain e c' where a: "Allow t0 c = (e, c')" by fastforce
  with Allow_cfg [of t0 c] have "pc_cfg c' = pc_cfg c" by simp
  with 2 a show ?case by (cases e) auto
qed simp

lemma serial_refines:
  assumes "breaker_rel c a" "list_all (call_times_ok (OpenDuration (pc_cfg c))) calls"
    and "FailureThreshold (pc_cfg c) \<noteq> 0" "HalfOpenSuccessThreshold (pc_cfg c) \<noteq> 0"
      "\<not> HalfOpenMaxConcurrent (pc_cfg c) <s 1"
  shows "breaker_rel (serial_calls calls c)
    (fold (abs_call (unat (FailureThreshold (pc_cfg c))) (unat (HalfOpenSuccessThreshold (pc_cfg c)))
      (OpenDuration (pc_cfg c))) calls a)"
  using assms
proof (induction calls arbitrary: c a)
  case Nil
  then show ?case by simp
next
  case (Cons call calls)
  have "breaker_rel (serial_calls [call] c)
    (abs_call (unat (FailureThreshold (pc_cfg c))) (unat (HalfOpenSuccessThreshold (pc_cfg c)))
      (OpenDuration (pc_cfg c)) call a)"
    using Cons.prems by (intro serial_call_refines) simp_all
  from Cons.IH [OF this] Cons.prems show ?case
    unfolding serial_calls_Cons [of call calls] by simp
qed

section \<open>What the breaker guarantees\<close>

text \<open>
  On every interleaving of \<open>Allow\<close> and \<open>Record\<close> calls: a closed breaker has seen fewer failures in a row
  than the threshold, a half-open one has seen fewer passed probes than it needs, and the count of passes is zero
  outside half-open.
\<close>

theorem breaker_reachable_inv:
  assumes "reach_by breaker_init breaker_step c"
  shows "breaker_inv c"
  using breaker.reach_inv [OF assms] .

lemma breaker_reach_exec: "reach_by breaker_init breaker_step c \<Longrightarrow> reach_by breaker_init breaker_step (breaker_exec ev c)"
  by (blast intro: reach_step breaker_step.intros)

theorem breaker_reachable_inv_witness:
  "breaker_inv (breaker_exec (EvRecord 3 False) (breaker_exec (EvAllow 2) (NewProviderCircuit defaultProviderCircuitConfig)))"
proof -
  have "reach_by breaker_init breaker_step (NewProviderCircuit defaultProviderCircuitConfig)"
    unfolding breaker_init_def
    by (intro reach_init exI [of _ defaultProviderCircuitConfig]) (simp add: defaultProviderCircuitConfig_def)
  then show ?thesis by (intro breaker_reachable_inv breaker_reach_exec)
qed

lemma no_success_run:
  assumes "pc_state c = CircuitClosed" "list_all no_success evs"
    and "unat (consecutiveFails c) + length (filter is_failure evs) < unat (FailureThreshold (pc_cfg c))"
  shows "fold breaker_exec evs c =
    c\<lparr>consecutiveFails := consecutiveFails c + of_nat (length (filter is_failure evs))\<rparr>"
  using assms
proof (induction evs arbitrary: c)
  case Nil
  then show ?case by simp
next
  case (Cons ev evs)
  show ?case
  proof (cases ev)
    case (EvAllow now)
    then show ?thesis using Cons by (simp add: Allow_closed)
  next
    case (EvRecord now ok)
    then have ok: "\<not> ok" using Cons.prems by simp
    have lt: "consecutiveFails c < FailureThreshold (pc_cfg c)"
      using Cons.prems EvRecord ok by (simp add: word_less_nat_alt)
    have nx: "breaker_exec ev c = c\<lparr>consecutiveFails := consecutiveFails c + 1\<rparr>"
      using Cons.prems EvRecord ok le_inc_iff [OF lt] by (simp add: Record_def Let_def)
    have "unat (consecutiveFails c + 1) = unat (consecutiveFails c) + 1" by (rule unat_inc_less [OF lt])
    then have "fold breaker_exec evs (breaker_exec ev c) = (breaker_exec ev c)\<lparr>consecutiveFails :=
        consecutiveFails (breaker_exec ev c) + of_nat (length (filter is_failure evs))\<rparr>"
      using Cons.prems EvRecord ok nx by (intro Cons.IH) simp_all
    then show ?thesis using EvRecord ok nx by (simp add: ac_simps)
  qed
qed

text \<open>
  The breaker trips at the \<open>FailureThreshold\<close>-th failure in a row and not before, whatever \<open>Allow\<close> calls come
  between: with fewer failures it is closed and admits, and the failure that reaches the threshold opens it until
  \<open>OpenDuration\<close> later; until then \<open>Allow\<close> rejects without changing anything.
\<close>

theorem breaker_trips_exactly:
  assumes "FailureThreshold cfg \<noteq> 0" "list_all no_success evs"
    and "length (filter is_failure evs) + 1 = unat (FailureThreshold cfg)"
    and "c = fold breaker_exec evs (NewProviderCircuit cfg)"
    and "int64 now" "int64 (t + OpenDuration cfg)" "now < t + OpenDuration cfg"
  shows "State c = CircuitClosed \<and> Allow now c = (None, c) \<and>
    State (Record t False c) = CircuitOpen \<and>
    Allow now (Record t False c) = (Some ErrCircuitOpen, Record t False c)"
proof -
  let ?new = "NewProviderCircuit cfg" and ?n = "length (filter is_failure evs)"
  have new: "pc_cfg ?new = cfg" "pc_state ?new = CircuitClosed" "consecutiveFails ?new = 0"
    using assms(1) by (simp_all add: NewProviderCircuit_def)
  have c: "c = ?new\<lparr>consecutiveFails := of_nat ?n\<rparr>"
    using no_success_run [of ?new evs] assms(2-4) new by simp
  have "unat (FailureThreshold cfg) < 2 ^ 32" using unsigned_less [of "FailureThreshold cfg"] by simp
  then have "?n < 2 ^ 32" using assms(3) by simp
  then have n: "unat (of_nat ?n :: 32 word) = ?n" by (simp add: unsigned_of_nat take_bit_nat_eq_self)
  have lt: "(of_nat ?n :: 32 word) < FailureThreshold cfg" using n assms(3) by (simp add: word_less_nat_alt)
  have "breaker_rel c (AClosed ?n)" using c new n lt by simp
  then have "breaker_rel (Record t False c) (AOpen (t + OpenDuration cfg))"
    using Record_closed [of c ?n t False 0] assms(3,6) c new by (simp add: abs_outcome_def)
  then show ?thesis
    using c new assms(5-7) by (auto simp: State_def Allow_closed Allow_open_early UnixNano_le_iff)
qed

theorem breaker_trips_exactly_witness:
  "let c = fold breaker_exec [EvRecord 1 False, EvAllow 2, EvRecord 3 False, EvRecord 4 False, EvRecord 5 False]
         (NewProviderCircuit defaultProviderCircuitConfig)
   in State c = CircuitClosed \<and> State (Record 6 False c) = CircuitOpen \<and>
      fst (Allow (10 ^ 10) (Record 6 False c)) = Some ErrCircuitOpen"
  using breaker_trips_exactly [of defaultProviderCircuitConfig
      "[EvRecord 1 False, EvAllow 2, EvRecord 3 False, EvRecord 4 False, EvRecord 5 False]" _ "10 ^ 10" 6]
  by (simp add: defaultProviderCircuitConfig_def int64_def Let_def)

text \<open>
  C35. A caller that finishes each request before the next one sees the three-state breaker of the
  documentation: from related states every sequence of calls keeps the concrete breaker related to the abstract one,
  counters never wrap, and the probes in flight return to zero.
\<close>

theorem breaker_refines_spec:
  assumes "breaker_rel c a" "list_all (call_times_ok (OpenDuration (pc_cfg c))) calls"
    and "FailureThreshold (pc_cfg c) \<noteq> 0" "HalfOpenSuccessThreshold (pc_cfg c) \<noteq> 0"
      "\<not> HalfOpenMaxConcurrent (pc_cfg c) <s 1"
  shows "breaker_rel (serial_calls calls c)
    (fold (abs_call (unat (FailureThreshold (pc_cfg c))) (unat (HalfOpenSuccessThreshold (pc_cfg c)))
      (OpenDuration (pc_cfg c))) calls a)"
  using serial_refines [OF assms] .

theorem breaker_refines_spec_witness:
  "breaker_rel (serial_calls [(1, 2, False), (3, 4, True)] (NewProviderCircuit defaultProviderCircuitConfig))
     (fold (abs_call 5 2 (30 * 10 ^ 9)) [(1, 2, False), (3, 4, True)] (AClosed 0))"
  using breaker_refines_spec [of "NewProviderCircuit defaultProviderCircuitConfig" "AClosed 0"
      "[(1, 2, False), (3, 4, True)]"]
  by (simp add: NewProviderCircuit_def defaultProviderCircuitConfig_def call_times_ok_def int64_def word_sless_alt)

lemma abs_probes_close:
  assumes "S = p + length calls" "calls \<noteq> []" "list_all (\<lambda>(t0, t1, ok). ok) calls"
  shows "fold (abs_call F S d) calls (AHalf p) = AClosed 0"
  using assms
proof (induction calls arbitrary: p)
  case Nil
  then show ?case by simp
next
  case (Cons call calls)
  show ?case
  proof (cases calls)
    case Nil
    then show ?thesis using Cons.prems by (cases call) (simp add: abs_call_def abs_outcome_def)
  next
    case (Cons c2 cs)
    then have "abs_call F S d call (AHalf p) = AHalf (p + 1)"
      using Cons.prems by (cases call) (simp add: abs_call_def abs_outcome_def)
    then show ?thesis using Cons.prems Cons.IH [of "p + 1"] Cons by simp
  qed
qed

text \<open>
  Recovery: once the time an open breaker waits for has come, \<open>HalfOpenSuccessThreshold\<close> calls in a row that
  succeed are all admitted and close it, with the count of failures back at zero.
\<close>

theorem breaker_recovers:
  assumes "breaker_rel c (AOpen u)" "list_all (call_times_ok (OpenDuration (pc_cfg c))) calls"
    and "FailureThreshold (pc_cfg c) \<noteq> 0" "\<not> HalfOpenMaxConcurrent (pc_cfg c) <s 1"
    and "length calls = unat (HalfOpenSuccessThreshold (pc_cfg c))" "calls \<noteq> []"
    and "list_all (\<lambda>(t0, t1, ok). ok) calls" "u \<le> fst (hd calls)"
  shows "State (serial_calls calls c) = CircuitClosed \<and> consecutiveFails (serial_calls calls c) = 0"
proof -
  let ?F = "unat (FailureThreshold (pc_cfg c))" and ?S = "unat (HalfOpenSuccessThreshold (pc_cfg c))"
    and ?d = "OpenDuration (pc_cfg c)"
  have S: "HalfOpenSuccessThreshold (pc_cfg c) \<noteq> 0" using assms(5,6) by auto
  obtain call rest where calls: "calls = call # rest" using assms(6) by (cases calls) auto
  have "abs_call ?F ?S ?d call (AOpen u) = abs_call ?F ?S ?d call (AHalf 0)"
    using assms(8) calls by (cases call) (simp add: abs_call_def)
  then have "fold (abs_call ?F ?S ?d) calls (AOpen u) = fold (abs_call ?F ?S ?d) calls (AHalf 0)"
    by (simp add: calls)
  also have "\<dots> = AClosed 0" using assms(5-7) by (intro abs_probes_close) simp_all
  finally show ?thesis
    using serial_refines [OF assms(1-3) S assms(4)] by (simp add: State_def unat_eq_0)
qed

theorem breaker_recovers_witness:
  "State (serial_calls [(40 * 10 ^ 9, 41 * 10 ^ 9, True), (42 * 10 ^ 9, 43 * 10 ^ 9, True)]
     (tripOpen 1 (NewProviderCircuit defaultProviderCircuitConfig))) = CircuitClosed"
  using breaker_recovers [of "tripOpen 1 (NewProviderCircuit defaultProviderCircuitConfig)" "1 + 30 * 10 ^ 9"
      "[(40 * 10 ^ 9, 41 * 10 ^ 9, True), (42 * 10 ^ 9, 43 * 10 ^ 9, True)]"]
  by (simp add: NewProviderCircuit_def defaultProviderCircuitConfig_def tripOpen_def call_times_ok_def int64_def
      word_sless_alt)

text \<open>
  The guarded call fails fast: for a host whose breaker is open and not yet due, \<open>DoWithCircuit\<close> returns
  \<open>ErrCircuitOpen\<close> without calling the transport and leaves every breaker as it was.
\<close>

theorem open_circuit_no_upstream_call:
  assumes "host \<noteq> []" "circuits host = Some c" "pc_state c = CircuitOpen" "\<not> openUntilNs c \<le>s UnixNano t0"
  shows "DoWithCircuit do host t0 t1 circuits = (Some (CircuitRejected ErrCircuitOpen), False, circuits)"
  using assms by (simp add: DoWithCircuit_def GetProviderCircuit_def Allow_open_early Let_def fun_upd_idem)

theorem open_circuit_no_upstream_call_witness:
  "DoWithCircuit (\<lambda>r. (Responded 200, r)) ''h'' 5 6
     [''h'' \<mapsto> tripOpen 1 (NewProviderCircuit defaultProviderCircuitConfig)] =
   (Some (CircuitRejected ErrCircuitOpen), False, [''h'' \<mapsto> tripOpen 1 (NewProviderCircuit defaultProviderCircuitConfig)])"
  using open_circuit_no_upstream_call [of "''h''" "[''h'' \<mapsto> tripOpen 1 (NewProviderCircuit defaultProviderCircuitConfig)]"
      "tripOpen 1 (NewProviderCircuit defaultProviderCircuitConfig)" 5 "\<lambda>r. (Responded 200, r)" 6]
  by (simp add: NewProviderCircuit_def defaultProviderCircuitConfig_def tripOpen_def UnixNano_le_iff int64_def)

text \<open>
  \<open>Record\<close> takes every outcome that arrives while the breaker is half open for the outcome of a probe.  Two
  requests admitted before the outage that succeed after the breaker went half open close it although its only
  probe is still in flight; one of them already makes room for a third probe beside the two that are allowed.
\<close>

theorem stale_outcome_counts_as_probe:
  "\<exists>c. c = fold breaker_exec ([EvAllow 0, EvAllow 0] @ map (\<lambda>t. EvRecord t False) [1, 2, 3, 4, 5] @ [EvAllow (31 * 10 ^ 9)])
         (NewProviderCircuit defaultProviderCircuitConfig) \<and>
     State c = CircuitHalfOpen \<and> halfOpenInflight c = 1 \<and>
     State (Record (32 * 10 ^ 9) True (Record (32 * 10 ^ 9) True c)) = CircuitClosed \<and>
     (\<exists>c2 c3. Allow (33 * 10 ^ 9) (Record (32 * 10 ^ 9) True c) = (None, c2) \<and> Allow (33 * 10 ^ 9) c2 = (None, c3))"
proof -
  let ?mk = "\<lambda>st n p u i. \<lparr>pc_cfg = defaultProviderCircuitConfig, pc_state = st, consecutiveFails = n,
     consecutivePasses = p, openUntilNs = u, halfOpenInflight = i\<rparr>"
  let ?u = "UnixNano (5 + 30 * 10 ^ 9)"
  have new: "NewProviderCircuit defaultProviderCircuitConfig = ?mk CircuitClosed 0 0 0 0"
    by (simp add: NewProviderCircuit_def defaultProviderCircuitConfig_def)
  have cfg: "FailureThreshold defaultProviderCircuitConfig = 5" "HalfOpenSuccessThreshold defaultProviderCircuitConfig = 2"
    "HalfOpenMaxConcurrent defaultProviderCircuitConfig = 2" "OpenDuration defaultProviderCircuitConfig = 30 * 10 ^ 9"
    by (simp_all add: defaultProviderCircuitConfig_def)
  have fail: "Record t False (?mk CircuitClosed n 0 0 0) =
      (if 5 \<le> n + 1 then ?mk CircuitOpen (n + 1) 0 (UnixNano (t + 30 * 10 ^ 9)) 0 else ?mk CircuitClosed (n + 1) 0 0 0)" for t n
    by (simp add: Record_def Let_def tripOpen_def cfg)
  have tripped: "fold breaker_exec ([EvAllow 0, EvAllow 0] @ map (\<lambda>t. EvRecord t False) [1, 2, 3, 4, 5])
      (?mk CircuitClosed 0 0 0 0) = ?mk CircuitOpen 5 0 ?u 0"
    by (simp add: Allow_closed fail word_le_nat_alt)
  have due: "?u \<le>s UnixNano (31 * 10 ^ 9)" by (simp add: UnixNano_le_iff int64_def)
  have probe: "Allow t (?mk CircuitHalfOpen n p u i) = (None, ?mk CircuitHalfOpen n p u (i + 1))"
    if "i = 0 \<or> i = 1" for t n p u i
    using that by (auto simp: Allow_half_open cfg word_sless_alt)
  have half: "Allow (31 * 10 ^ 9) (?mk CircuitOpen 5 0 ?u 0) = (None, ?mk CircuitHalfOpen 5 0 ?u 1)"
    using Allow_open_late [of "?mk CircuitOpen 5 0 ?u 0" "31 * 10 ^ 9"] due probe [of 0] by simp
  have pass: "Record t True (?mk CircuitHalfOpen 5 0 ?u 1) = ?mk CircuitHalfOpen 0 1 ?u 0"
    "State (Record t True (?mk CircuitHalfOpen 0 1 ?u 0)) = CircuitClosed" for t
    by (simp_all add: Record_def Let_def cfg State_def word_le_nat_alt)
  have run: "fold breaker_exec ([EvAllow 0, EvAllow 0] @ map (\<lambda>t. EvRecord t False) [1, 2, 3, 4, 5] @ [EvAllow (31 * 10 ^ 9)])
      (NewProviderCircuit defaultProviderCircuitConfig) = ?mk CircuitHalfOpen 5 0 ?u 1"
    using tripped half unfolding new append_assoc [symmetric] fold_append by simp
  have closes: "State (Record (32 * 10 ^ 9) True (Record (32 * 10 ^ 9) True (?mk CircuitHalfOpen 5 0 ?u 1))) = CircuitClosed"
    unfolding pass(1) by (rule pass(2))
  have third: "\<exists>c2 c3. Allow (33 * 10 ^ 9) (Record (32 * 10 ^ 9) True (?mk CircuitHalfOpen 5 0 ?u 1)) = (None, c2) \<and>
      Allow (33 * 10 ^ 9) c2 = (None, c3)"
    unfolding pass(1) using probe by auto
  show ?thesis
    unfolding run
    by (intro exI [of _ "?mk CircuitHalfOpen 5 0 ?u 1"] conjI refl closes third) (simp_all add: State_def)
qed

end
