(* ===== verification/AgenticContext.thy ===== *)
theory AgenticContext
  imports Prelude Complex_Main
begin

text \<open>
  The inputs and outputs of the policy decision point,
  \<^verbatim>\<open>deepintshield_server/framework/agentic/context.go\<close> and \<^verbatim>\<open>integrity_types.go\<close>: the delegation context, the
  decision, the key of the decision cache, the digests and the autonomy budget.  Verdicts and modes are strings, as
  in the code.  SHA-256 and \<open>json.Marshal\<close> are parameters (\<open>sha\<close>, \<open>marshal\<close>); times are nanoseconds, zero for
  the zero time.
\<close>

section \<open>Values\<close>

text \<open>A \<open>float64\<close>: not a number, an infinity or a finite number.\<close>

datatype float64 = FNaN | FPosInf | FNegInf | FNum rat

fun f_eq :: "float64 \<Rightarrow> float64 \<Rightarrow> bool" where
  "f_eq FNaN y = False"
| "f_eq x FNaN = False"
| "f_eq (FNum a) (FNum b) = (a = b)"
| "f_eq x y = (x = y)"

fun f_less :: "float64 \<Rightarrow> float64 \<Rightarrow> bool" where
  "f_less FNaN y = False"
| "f_less x FNaN = False"
| "f_less (FNum a) (FNum b) = (a < b)"
| "f_less x FNegInf = False"
| "f_less FPosInf y = False"
| "f_less FNegInf y = True"
| "f_less x FPosInf = True"

definition f_of_int :: "int \<Rightarrow> float64" where
  "f_of_int n = FNum (of_int n)"

datatype json = JNull | JBool bool | JNum float64 | JStr string | JArr "json list" | JObj "(string \<times> json) list"

type_synonym Verdict = string

abbreviation VerdictAllow :: Verdict where "VerdictAllow \<equiv> ''ALLOW''"
abbreviation VerdictDeny :: Verdict where "VerdictDeny \<equiv> ''DENY''"
abbreviation VerdictRequireApproval :: Verdict where "VerdictRequireApproval \<equiv> ''REQUIRE_APPROVAL''"
abbreviation VerdictMask :: Verdict where "VerdictMask \<equiv> ''MASK''"

type_synonym EnforcementMode = string

abbreviation EnforcementShadow :: EnforcementMode where "EnforcementShadow \<equiv> ''shadow''"
abbreviation EnforcementCanary :: EnforcementMode where "EnforcementCanary \<equiv> ''canary''"
abbreviation EnforcementEnforce :: EnforcementMode where "EnforcementEnforce \<equiv> ''enforce''"

section \<open>Records\<close>

record IntegritySignal =
  DeclaredClass :: string
  EffectiveClass :: string
  Risk :: float64
  Flags :: "string list"
  Diverged :: bool

record Context =
  RAGProvenance :: string
  CostUsed :: float64
  RecoveryCost :: string
  AgentRiskLevel :: string
  AgentCapabilities :: "string list"
  DataClass :: string
  Namespace :: string
  HourOfDay :: int
  FingerprintDrift :: bool
  Integrity :: IntegritySignal
  ctx_ToolFingerprint :: string
  DelegationDepth :: int

record DelegationContext =
  Principal :: string
  ActorChain :: "string list"
  IdentityType :: string
  Scope :: "string list"
  Tenant :: string
  Workspace :: string
  VirtualKey :: string
  SessionID :: string
  AllowedTools :: "string list"
  CrossTenant :: bool
  Tool :: string
  ArgsDigest :: string
  ProviderID :: string
  PolicyVersion :: int
  dcContext :: Context
  CacheBucket :: string

record Decision =
  dec_Verdict :: Verdict
  dec_Reason :: string
  dec_Approvers :: "string list"
  dec_Obligations :: "string list"
  dec_PolicyID :: string
  DecisionID :: string
  dec_Mode :: EnforcementMode
  CacheHit :: bool
  LatencyUS :: int
  WouldBlock :: bool
  dec_Timestamp :: int

text \<open>Go's zero values, where the code builds a struct from some of its fields.\<close>

definition zero_Decision :: Decision where
  "zero_Decision = \<lparr>dec_Verdict = [], dec_Reason = [], dec_Approvers = [], dec_Obligations = [], dec_PolicyID = [],
     DecisionID = [], dec_Mode = [], CacheHit = False, LatencyUS = 0, WouldBlock = False, dec_Timestamp = 0\<rparr>"

definition zero_Context :: Context where
  "zero_Context = \<lparr>RAGProvenance = [], CostUsed = FNum 0, RecoveryCost = [], AgentRiskLevel = [],
     AgentCapabilities = [], DataClass = [], Namespace = [], HourOfDay = 0, FingerprintDrift = False,
     Integrity = \<lparr>DeclaredClass = [], EffectiveClass = [], Risk = FNum 0, Flags = [], Diverged = False\<rparr>,
     ctx_ToolFingerprint = [], DelegationDepth = 0\<rparr>"

definition zero_DelegationContext :: DelegationContext where
  "zero_DelegationContext = \<lparr>Principal = [], ActorChain = [], IdentityType = [], Scope = [], Tenant = [],
     Workspace = [], VirtualKey = [], SessionID = [], AllowedTools = [], CrossTenant = False, Tool = [],
     ArgsDigest = [], ProviderID = [], PolicyVersion = 0, dcContext = zero_Context, CacheBucket = []\<rparr>"

section \<open>Keys and digests\<close>

definition IntegrityRulesetVersion :: string where
  "IntegrityRulesetVersion = ''1''"

definition toolPolicyVersion :: "int \<Rightarrow> string" where
  "toolPolicyVersion v =
     (if v \<le> 0 then ''0''
      else [char_of (48 + nat (v mod 10)), char_of (97 + nat ((v div 10) mod 256) mod 26)])"

definition cache_key_parts :: "(string \<Rightarrow> byte list) \<Rightarrow> DelegationContext \<Rightarrow> string list" where
  "cache_key_parts sha d =
     [Join (ActorChain d) ''>'', Tool d, ArgsDigest d, EncodeToString (sha (Join (sort (Scope d)) ''|'')),
      toolPolicyVersion (PolicyVersion d), Tenant d, VirtualKey d, IntegrityRulesetVersion, CacheBucket d,
      ctx_ToolFingerprint (dcContext d)]"

definition CacheKey :: "(string \<Rightarrow> byte list) \<Rightarrow> DelegationContext \<Rightarrow> string" where
  "CacheKey sha d = EncodeToString (sha (Join (cache_key_parts sha d) ''|''))"

definition ComputeArgsDigest :: "(string \<Rightarrow> byte list) \<Rightarrow> (json \<Rightarrow> string option) \<Rightarrow> json \<Rightarrow> string" where
  "ComputeArgsDigest sha marshal args =
     (if args = JNull then ''sha256:'' @ replicate 64 CHR ''0''
      else (case marshal args of
              None \<Rightarrow> ''sha256:'' @ replicate 64 CHR ''0''
            | Some data \<Rightarrow> ''sha256:'' @ EncodeToString (sha data)))"

definition AutonomyBudget :: "string \<Rightarrow> Verdict" where
  "AutonomyBudget recoveryCost =
     (if ToLower (TrimSpace recoveryCost) = ''high'' then VerdictRequireApproval else VerdictAllow)"

type_synonym IntegrityPosture = string

definition NormalizePosture :: "string \<Rightarrow> IntegrityPosture" where
  "NormalizePosture s =
     (let p = ToLower (TrimSpace s) in
      if p = ''block'' then ''block'' else if p = ''approval'' then ''approval'' else ''flag'')"

definition ToolFingerprint ::
  "(string \<Rightarrow> byte list) \<Rightarrow> (json \<Rightarrow> string option) \<Rightarrow> string \<Rightarrow> string \<Rightarrow> (string \<times> json) list \<Rightarrow> string \<Rightarrow> string" where
  "ToolFingerprint sha marshal tool actionClass argsSchema source =
     (let schemaJSON = (if argsSchema = [] then [] else (case marshal (JObj argsSchema) of Some b \<Rightarrow> b | None \<Rightarrow> [])) in
      EncodeToString (take 16 (sha (Join [ToLower (TrimSpace tool), ToLower (TrimSpace actionClass), schemaJSON, source] ''|''))))"

section \<open>Facts on the keys\<close>

text \<open>The text of the key parts is what is hashed, so keys agree on contexts with the same parts.\<close>

lemma CacheKey_cong: "cache_key_parts sha d = cache_key_parts sha d' \<Longrightarrow> CacheKey sha d = CacheKey sha d'"
  by (simp add: CacheKey_def)

lemma sort_eq_of_mset: "mset xs = mset ys \<Longrightarrow> sort xs = sort (ys :: 'a :: linorder list)"
  by (metis mset_sort properties_for_sort sorted_sort)

section \<open>What the cache key separates\<close>

text \<open>
  The cache key tells apart what it is built from: with a hash that has no collisions and fields free of the
  separator, two contexts with the same key have the same actor chain text, tool, argument digest, scope text, policy
  version code, tenant, virtual key, time bucket and tool fingerprint; and the order of the scopes does not matter.
\<close>

theorem cache_key_separates:
  assumes "inj sha" "\<forall>p \<in> set (cache_key_parts sha d) \<union> set (cache_key_parts sha d'). CHR ''|'' \<notin> set p"
    and "CacheKey sha d = CacheKey sha d'"
  shows "Tool d = Tool d' \<and> ArgsDigest d = ArgsDigest d' \<and> Tenant d = Tenant d' \<and> VirtualKey d = VirtualKey d' \<and>
    Join (ActorChain d) ''>'' = Join (ActorChain d') ''>'' \<and>
    Join (sort (Scope d)) ''|'' = Join (sort (Scope d')) ''|'' \<and>
    toolPolicyVersion (PolicyVersion d) = toolPolicyVersion (PolicyVersion d') \<and>
    CacheBucket d = CacheBucket d' \<and> ctx_ToolFingerprint (dcContext d) = ctx_ToolFingerprint (dcContext d')"
proof -
  have "Join (cache_key_parts sha d) ''|'' = Join (cache_key_parts sha d') ''|''"
    using assms(1,3) EncodeToString_inj unfolding CacheKey_def by (metis injD)
  then have "cache_key_parts sha d = cache_key_parts sha d'"
    using assms(2) split_byte_Join [of "cache_key_parts sha d" "CHR ''|''"] split_byte_Join [of "cache_key_parts sha d'" "CHR ''|''"]
    by (metis UnI1 UnI2 cache_key_parts_def list.distinct(1))
  then show ?thesis
    using assms(1) EncodeToString_inj by (auto simp: cache_key_parts_def dest: injD)
qed

theorem cache_key_separates_witness:
  "Tool (zero_DelegationContext\<lparr>Tool := ''t'', Scope := [''b'', ''a'']\<rparr>) = Tool (zero_DelegationContext\<lparr>Tool := ''t'', Scope := [''a'', ''b'']\<rparr>)"
proof -
  let ?d = "zero_DelegationContext\<lparr>Tool := ''t'', Scope := [''b'', ''a'']\<rparr>"
  let ?d' = "zero_DelegationContext\<lparr>Tool := ''t'', Scope := [''a'', ''b'']\<rparr>"
  have clean: "\<forall>p \<in> set (cache_key_parts id ?d) \<union> set (cache_key_parts id ?d'). CHR ''|'' \<notin> set p"
    by (auto simp: cache_key_parts_def zero_DelegationContext_def zero_Context_def IntegrityRulesetVersion_def
        toolPolicyVersion_def set_EncodeToString)
  have "sort (Scope ?d) = sort (Scope ?d')" by (rule sort_eq_of_mset) simp
  then have "CacheKey id ?d = CacheKey id ?d'"
    by (intro CacheKey_cong) (simp add: cache_key_parts_def zero_DelegationContext_def)
  from cache_key_separates [OF _ clean this] show ?thesis by simp
qed

text \<open>
  The code of the policy version in the key takes at most 261 values, so old entries become reachable again:
  a decision made under version 1 has the key of the same call under version 261.
\<close>

theorem policy_version_collides:
  "toolPolicyVersion 1 = toolPolicyVersion 261 \<and>
   CacheKey sha (d\<lparr>PolicyVersion := 1\<rparr>) = CacheKey sha (d\<lparr>PolicyVersion := 261\<rparr>)"
  by (simp add: toolPolicyVersion_def CacheKey_def cache_key_parts_def)

text \<open>
  Fields the decision depends on are missing from the key: contexts that differ only in the principal, the
  workspace, the tool allow-list, the cross-tenant flag and the recovery cost share one.
\<close>

theorem cache_key_ignores_inputs:
  "CacheKey sha (d\<lparr>CrossTenant := x, Workspace := w, AllowedTools := ts, Principal := p,
     dcContext := (dcContext d)\<lparr>RecoveryCost := rc\<rparr>\<rparr>) = CacheKey sha d"
  by (rule CacheKey_cong) (simp add: cache_key_parts_def)

end
