(* ===== verification/AgenticPolicy.thy ===== *)
theory AgenticPolicy
  imports AgenticContext
begin

text \<open>
  Policies and their evaluation, \<^verbatim>\<open>deepintshield_server/framework/agentic/policy.go\<close> and \<^verbatim>\<open>rego.go\<close>: the typed
  rules with their matchers and conditions, the generated Rego, the evaluator with Rego first and the rules as the
  fallback, and the restriction of a policy set to the rules that target a caller.  \<open>strconv.ParseFloat\<close> is the
  parameter \<open>pf\<close>; the OPA compiler is the parameter \<open>prepare\<close>, a prepared query a function from the input document
  to the value of the decision, \<open>None\<close> where evaluation fails or has no result.
\<close>

section \<open>Policies\<close>

record SubjectMatcher =
  AnyRole :: "string list"
  AnyAgent :: "string list"
  AnySubject :: "string list"

record ToolMatcher =
  AnyTool :: "string list"
  PrefixTool :: "string list"

record Condition =
  Field :: string
  Operator :: string
  Value :: string
  Values :: "string list"

record CompiledPolicy =
  pol_ID :: string
  pol_Tenant :: string
  pol_Workspace :: string
  pol_Version :: int
  Enabled :: bool
  Priority :: int
  Subject :: SubjectMatcher
  pol_Tool :: ToolMatcher
  Conditions :: "Condition list"
  pol_Verdict :: Verdict
  pol_Approvers :: "string list"
  pol_Obligations :: "string list"
  pol_Reason :: string

section \<open>Comparisons\<close>

definition containsCI :: "string list \<Rightarrow> string \<Rightarrow> bool" where
  "containsCI haystack needle \<longleftrightarrow> list_ex (\<lambda>h. EqualFold h needle) haystack"

definition agentRole :: "string \<Rightarrow> string" where
  "agentRole actor = (case index_byte actor CHR '':'' of None \<Rightarrow> actor | Some idx \<Rightarrow> take idx actor)"

definition riskRank :: "string \<Rightarrow> int" where
  "riskRank level =
     (let l = ToLower (TrimSpace level) in
      if l = ''low'' then 0
      else if l = ''medium'' \<or> l = ''med'' then 1
      else if l = ''high'' then 2
      else if l = ''critical'' then 3
      else -1)"

definition compareRisk :: "string \<Rightarrow> string \<Rightarrow> string \<Rightarrow> bool" where
  "compareRisk got op want =
     (let w = riskRank want; g = riskRank got in
      if w < 0 then False
      else if g < 0 then False
      else if op \<in> {''eq'', ''=='', ''''} then g = w
      else if op \<in> {''ne'', ''!=''} then g \<noteq> w
      else if op \<in> {''gt'', ''>''} then g > w
      else if op \<in> {''gte'', ''>=''} then g \<ge> w
      else if op \<in> {''lt'', ''<''} then g < w
      else if op \<in> {''lte'', ''<=''} then g \<le> w
      else False)"

definition compareString :: "string \<Rightarrow> string \<Rightarrow> string \<Rightarrow> bool" where
  "compareString got op want =
     (if op \<in> {''eq'', ''==''} then EqualFold got want
      else if op \<in> {''ne'', ''!=''} then \<not> EqualFold got want
      else EqualFold got want)"

definition compareFloat :: "(string \<Rightarrow> float64 option) \<Rightarrow> float64 \<Rightarrow> string \<Rightarrow> string \<Rightarrow> bool" where
  "compareFloat pf got op want =
     (case pf (TrimSpace want) of
        None \<Rightarrow> False
      | Some w \<Rightarrow>
          (if op \<in> {''eq'', ''==''} then f_eq got w
           else if op \<in> {''ne'', ''!=''} then \<not> f_eq got w
           else if op \<in> {''gt'', ''>''} then f_less w got
           else if op \<in> {''gte'', ''>=''} then f_less w got \<or> f_eq got w
           else if op \<in> {''lt'', ''<''} then f_less got w
           else if op \<in> {''lte'', ''<=''} then f_less got w \<or> f_eq got w
           else False))"

section \<open>Matching\<close>

definition subject_matches :: "SubjectMatcher \<Rightarrow> DelegationContext \<Rightarrow> bool" where
  "subject_matches s dc =
     (if AnyRole s = [] \<and> AnyAgent s = [] \<and> AnySubject s = [] then True
      else if AnyAgent s \<noteq> [] \<and> list_ex (containsCI (AnyAgent s)) (ActorChain dc) then True
      else if AnySubject s \<noteq> [] \<and> containsCI (AnySubject s) (Principal dc) then True
      else if AnyRole s \<noteq> [] \<and> list_ex (\<lambda>a. containsCI (AnyRole s) (agentRole a)) (ActorChain dc) then True
      else False)"

definition tool_matches :: "ToolMatcher \<Rightarrow> string \<Rightarrow> bool" where
  "tool_matches t tool0 =
     (let tool = TrimSpace tool0 in
      if AnyTool t = [] \<and> PrefixTool t = [] then True
      else if containsCI (AnyTool t) tool then True
      else list_ex (\<lambda>p. HasPrefix (ToLower tool) (ToLower p)) (PrefixTool t))"

definition condition_matches :: "(string \<Rightarrow> float64 option) \<Rightarrow> Condition \<Rightarrow> DelegationContext \<Rightarrow> bool" where
  "condition_matches pf c dc =
     (let field = ToLower (Field c); op = ToLower (Operator c); val = Value c; cx = dcContext dc in
      if field = ''rag_provenance'' then compareString (RAGProvenance cx) op val
      else if field = ''recovery_cost'' then compareString (RecoveryCost cx) op val
      else if field = ''cross_tenant'' then CrossTenant dc = EqualFold val ''true''
      else if field = ''identity_type'' then compareString (IdentityType dc) op val
      else if field = ''tool'' then compareString (Tool dc) op val
      else if field = ''scope'' then
        (if op = ''in'' then containsCI (Scope dc) val
         else if op = ''not_in'' then \<not> containsCI (Scope dc) val
         else False)
      else if field = ''tenant'' then compareString (Tenant dc) op val
      else if field = ''workspace'' then compareString (Workspace dc) op val
      else if field = ''effective_action_class'' then compareString (EffectiveClass (Integrity cx)) op val
      else if field = ''behavior_divergence'' then Diverged (Integrity cx) = EqualFold val ''true''
      else if field = ''integrity_risk'' then compareFloat pf (Risk (Integrity cx)) op val
      else if field = ''delegation_depth'' then compareFloat pf (f_of_int (DelegationDepth cx)) op val
      else if field = ''agent_risk_level'' then compareRisk (AgentRiskLevel cx) op val
      else if field = ''agent_capability'' then
        (if op = ''not_in'' then \<not> containsCI (AgentCapabilities cx) val else containsCI (AgentCapabilities cx) val)
      else if field = ''data_class'' then compareString (DataClass cx) op val
      else if field = ''namespace'' then compareString (Namespace cx) op val
      else if field = ''time_of_day'' then compareFloat pf (f_of_int (HourOfDay cx)) op val
      else if field = ''fingerprint_drift'' then FingerprintDrift cx = EqualFold val ''true''
      else False)"

definition MatchesContext :: "(string \<Rightarrow> float64 option) \<Rightarrow> CompiledPolicy \<Rightarrow> DelegationContext \<Rightarrow> bool" where
  "MatchesContext pf p dc =
     (if \<not> Enabled p then False
      else if \<not> subject_matches (Subject p) dc then False
      else if \<not> tool_matches (pol_Tool p) (Tool dc) then False
      else list_all (\<lambda>c. condition_matches pf c dc) (Conditions p))"

section \<open>Generated Rego\<close>

definition regoComparator :: "string \<Rightarrow> string" where
  "regoComparator op0 =
     (let op = ToLower (TrimSpace op0) in
      if op \<in> {''gt'', ''>''} then ''>''
      else if op \<in> {''gte'', ''>=''} then ''>=''
      else if op \<in> {''lt'', ''<''} then ''<''
      else if op \<in> {''lte'', ''<=''} then ''<=''
      else if op \<in> {''ne'', ''!=''} then ''!=''
      else ''=='')"

definition regoNumber :: "(string \<Rightarrow> float64 option) \<Rightarrow> string \<Rightarrow> string" where
  "regoNumber pf v = (case pf (TrimSpace v) of None \<Rightarrow> ''0'' | Some _ \<Rightarrow> TrimSpace v)"

text \<open>The double quote and the line break.\<close>

definition qt :: string where "qt = [CHR 0x22]"
definition nl :: string where "nl = [CHR 0x0A]"

definition quoted_list :: "string list \<Rightarrow> string" where
  "quoted_list xs = qt @ Join xs (qt @ '','' @ qt) @ qt"

definition rego_equals :: "string \<Rightarrow> string \<Rightarrow> string" where
  "rego_equals path v = ''  '' @ path @ '' == '' @ qt @ v @ qt @ nl"

definition rego_flag :: "string \<Rightarrow> string \<Rightarrow> string" where
  "rego_flag path v = (if EqualFold v ''true'' then ''  '' @ path @ nl else ''  not '' @ path @ nl)"

definition rego_number :: "(string \<Rightarrow> float64 option) \<Rightarrow> string \<Rightarrow> Condition \<Rightarrow> string" where
  "rego_number pf path c = ''  '' @ path @ '' '' @ regoComparator (Operator c) @ '' '' @ regoNumber pf (Value c) @ nl"

definition rego_condition :: "(string \<Rightarrow> float64 option) \<Rightarrow> Condition \<Rightarrow> string" where
  "rego_condition pf c =
     (let field = ToLower (Field c); low = ToLower (TrimSpace (Value c)) in
      if field = ''rag_provenance'' then rego_equals ''input.context.rag_provenance'' (Value c)
      else if field = ''recovery_cost'' then rego_equals ''input.context.recovery_cost'' (Value c)
      else if field = ''cross_tenant'' then rego_flag ''input.context.cross_tenant'' (Value c)
      else if field = ''tool'' then rego_equals ''input.tool'' (Value c)
      else if field = ''effective_action_class'' then rego_equals ''input.context.integrity.effective_class'' (Value c)
      else if field = ''behavior_divergence'' then rego_flag ''input.context.integrity.diverged'' (Value c)
      else if field = ''integrity_risk'' then rego_number pf ''input.context.integrity.risk'' c
      else if field = ''delegation_depth'' then rego_number pf ''input.context.delegation_depth'' c
      else if field = ''agent_risk_level'' then
        ''  risk_rank[input.context.agent_risk_level] '' @ regoComparator (Operator c) @ '' risk_rank['' @ qt @ low @ qt @ '']'' @ nl
      else if field = ''agent_capability'' then
        (if EqualFold (TrimSpace (Operator c)) ''not_in''
         then ''  not '' @ qt @ low @ qt @ '' in input.context.agent_capabilities'' @ nl
         else ''  '' @ qt @ low @ qt @ '' in input.context.agent_capabilities'' @ nl)
      else if field = ''data_class'' then rego_equals ''input.context.data_class'' low
      else if field = ''namespace'' then rego_equals ''input.context.namespace'' low
      else if field = ''time_of_day'' then rego_number pf ''input.context.time_of_day'' c
      else if field = ''fingerprint_drift'' then rego_flag ''input.context.fingerprint_drift'' (Value c)
      else [])"

definition CompileRego :: "(string \<Rightarrow> float64 option) \<Rightarrow> CompiledPolicy \<Rightarrow> string" where
  "CompileRego pf p =
     ''# auto-generated from policy '' @ pol_ID p @ nl @ nl @
     ''package deepintshield.authz'' @ nl @ nl @
     ''import rego.v1'' @ nl @ nl @
     ''decision := {'' @ nl @
     ''  '' @ qt @ ''verdict'' @ qt @ '': '' @ qt @ pol_Verdict p @ qt @ '','' @ nl @
     (if pol_ID p \<noteq> [] then ''  '' @ qt @ ''policy_id'' @ qt @ '': '' @ qt @ pol_ID p @ qt @ '','' @ nl else []) @
     (if pol_Approvers p \<noteq> [] then ''  '' @ qt @ ''approvers'' @ qt @ '': ['' @ quoted_list (pol_Approvers p) @ ''],'' @ nl else []) @
     (if pol_Obligations p \<noteq> [] then ''  '' @ qt @ ''obligations'' @ qt @ '': ['' @ quoted_list (pol_Obligations p) @ ''],'' @ nl else []) @
     (if pol_Reason p \<noteq> [] then ''  '' @ qt @ ''reason'' @ qt @ '': '' @ qt @ pol_Reason p @ qt @ '','' @ nl else []) @
     ''} if {'' @ nl @
     (if AnyRole (Subject p) \<noteq> []
      then ''  some role in roles_of(input.actor_chain)'' @ nl @ ''  role in {'' @ quoted_list (AnyRole (Subject p)) @ ''}'' @ nl
      else []) @
     (if AnyTool (pol_Tool p) \<noteq> [] then ''  input.tool in {'' @ quoted_list (AnyTool (pol_Tool p)) @ ''}'' @ nl else []) @
     concat (map (rego_condition pf) (Conditions p)) @
     ''}'' @ nl"

definition dropped_line :: "string \<Rightarrow> bool" where
  "dropped_line line =
     (let trimmed = TrimSpace line in
      HasPrefix trimmed ''package '' \<or> HasPrefix trimmed ''import '' \<or> HasPrefix trimmed ''#'')"

definition stripPackageAndImports :: "string \<Rightarrow> string" where
  "stripPackageAndImports src = Join (filter (\<lambda>line. \<not> dropped_line line) (split_byte CHR 0x0A src)) nl"

definition merged_preamble :: string where
  "merged_preamble =
     ''package deepintshield.authz'' @ nl @ nl @ ''import rego.v1'' @ nl @ nl @
     ''default decision := {'' @ qt @ ''verdict'' @ qt @ '': '' @ qt @ ''DENY'' @ qt @ '', '' @ qt @ ''reason'' @ qt @ '': '' @
       qt @ ''no matching allow'' @ qt @ ''}'' @ nl @ nl @
     ''roles_of(chain) := { role_of(a) | some a in chain }'' @ nl @ nl @
     ''role_of(actor) := substring(actor, 0, indexof(actor, '' @ qt @ '':'' @ qt @ '')) if indexof(actor, '' @ qt @ '':'' @ qt @ '') > 0'' @ nl @
     ''role_of(actor) := actor if indexof(actor, '' @ qt @ '':'' @ qt @ '') <= 0'' @ nl @ nl @
     ''risk_rank := {'' @ qt @ ''low'' @ qt @ '': 0, '' @ qt @ ''medium'' @ qt @ '': 1, '' @ qt @ ''med'' @ qt @ '': 1, '' @
       qt @ ''high'' @ qt @ '': 2, '' @ qt @ ''critical'' @ qt @ '': 3}'' @ nl @ nl"

definition merged_part :: "string \<Rightarrow> string" where
  "merged_part s =
     (let body = stripPackageAndImports s in
      if TrimSpace body = [] then [] else if \<not> HasSuffix body nl then body @ nl else body)"

definition buildMergedModule :: "string list \<Rightarrow> string" where
  "buildMergedModule snippets = merged_preamble @ concat (map merged_part snippets)"

section \<open>The Rego evaluator\<close>

record RegoEvaluator =
  re_prepared :: "(json \<Rightarrow> json option) option"
  re_source :: string
  re_err :: "string option"

definition CompileRegoModules :: "(string \<Rightarrow> string + (json \<Rightarrow> json option)) \<Rightarrow> string list \<Rightarrow> RegoEvaluator" where
  "CompileRegoModules prepare snippets =
     (let merged = buildMergedModule snippets in
      case prepare merged of
        Inl err \<Rightarrow> \<lparr>re_prepared = None, re_source = merged, re_err = Some err\<rparr>
      | Inr q \<Rightarrow> \<lparr>re_prepared = Some q, re_source = merged, re_err = None\<rparr>)"

definition lowerStrings :: "string list \<Rightarrow> string list" where
  "lowerStrings xs = filter (\<lambda>s. s \<noteq> []) (map (\<lambda>s. ToLower (TrimSpace s)) xs)"

definition rego_input :: "DelegationContext \<Rightarrow> json" where
  "rego_input dc =
     (let cx = dcContext dc; strs = (\<lambda>xs. JArr (map JStr xs)) in
      JObj [(''principal'', JStr (Principal dc)), (''actor_chain'', strs (ActorChain dc)),
        (''identity_type'', JStr (IdentityType dc)), (''scope'', strs (Scope dc)), (''tenant'', JStr (Tenant dc)),
        (''workspace'', JStr (Workspace dc)), (''virtual_key'', JStr (VirtualKey dc)),
        (''allowed_tools'', strs (AllowedTools dc)), (''cross_tenant'', JBool (CrossTenant dc)),
        (''tool'', JStr (Tool dc)), (''args_digest'', JStr (ArgsDigest dc)),
        (''context'', JObj [
          (''rag_provenance'', JStr (RAGProvenance cx)), (''cost_used'', JNum (CostUsed cx)),
          (''recovery_cost'', JStr (RecoveryCost cx)), (''cross_tenant'', JBool (CrossTenant dc)),
          (''integrity'', JObj [(''effective_class'', JStr (EffectiveClass (Integrity cx))),
             (''risk'', JNum (Risk (Integrity cx))), (''diverged'', JBool (Diverged (Integrity cx)))]),
          (''agent_risk_level'', JStr (ToLower (TrimSpace (AgentRiskLevel cx)))),
          (''agent_capabilities'', strs (lowerStrings (AgentCapabilities cx))),
          (''data_class'', JStr (ToLower (TrimSpace (DataClass cx)))),
          (''namespace'', JStr (ToLower (TrimSpace (Namespace cx)))),
          (''time_of_day'', JNum (f_of_int (HourOfDay cx))),
          (''fingerprint_drift'', JBool (FingerprintDrift cx)),
          (''delegation_depth'', JNum (f_of_int (DelegationDepth cx)))])])"

fun json_strings :: "json list \<Rightarrow> string list" where
  "json_strings [] = []"
| "json_strings (JStr s # js) = s # json_strings js"
| "json_strings (_ # js) = json_strings js"

definition decodeRegoResult :: "json \<Rightarrow> Decision option" where
  "decodeRegoResult raw =
     (case raw of
        JObj m \<Rightarrow>
          Some (zero_Decision\<lparr>
            dec_Verdict := (case map_of m ''verdict'' of
               Some (JStr v) \<Rightarrow> (if v \<noteq> [] then ToUpper (TrimSpace v) else VerdictDeny) | _ \<Rightarrow> VerdictDeny),
            dec_Reason := (case map_of m ''reason'' of Some (JStr r) \<Rightarrow> r | _ \<Rightarrow> []),
            dec_Approvers := (case map_of m ''approvers'' of Some (JArr js) \<Rightarrow> json_strings js | _ \<Rightarrow> []),
            dec_Obligations := (case map_of m ''obligations'' of Some (JArr js) \<Rightarrow> json_strings js | _ \<Rightarrow> []),
            dec_PolicyID := (case map_of m ''policy_id'' of Some (JStr p) \<Rightarrow> p | _ \<Rightarrow> [])\<rparr>)
      | _ \<Rightarrow> None)"

definition rego_Evaluate :: "RegoEvaluator option \<Rightarrow> DelegationContext \<Rightarrow> Decision option" where
  "rego_Evaluate e dc =
     (case e of
        None \<Rightarrow> None
      | Some ev \<Rightarrow>
          (case re_prepared ev of
             None \<Rightarrow> None
           | Some prepared \<Rightarrow> (case prepared (rego_input dc) of None \<Rightarrow> None | Some v \<Rightarrow> decodeRegoResult v)))"

definition rego_Source :: "RegoEvaluator option \<Rightarrow> string" where
  "rego_Source e = (case e of None \<Rightarrow> [] | Some ev \<Rightarrow> re_source ev)"

definition LastCompileError :: "RegoEvaluator option \<Rightarrow> string option" where
  "LastCompileError e = (case e of None \<Rightarrow> None | Some ev \<Rightarrow> re_err ev)"

section \<open>Policy sets\<close>

record PolicySet =
  Policies :: "CompiledPolicy list"
  ps_Version :: int
  Rego :: "RegoEvaluator option"

text \<open>The autonomy budget, applied on both paths.\<close>

definition escalate_high :: "DelegationContext \<Rightarrow> Decision \<Rightarrow> Decision" where
  "escalate_high dc dec =
     (if dec_Verdict dec = VerdictAllow \<and> EqualFold (RecoveryCost (dcContext dc)) ''high''
      then dec\<lparr>dec_Verdict := VerdictRequireApproval,
               dec_Approvers := (if dec_Approvers dec = [] then [''security-team''] else dec_Approvers dec),
               dec_Reason := (if dec_Reason dec = [] then ''high recovery_cost outside autonomy budget'' else dec_Reason dec)\<rparr>
      else dec)"

fun first_match :: "(string \<Rightarrow> float64 option) \<Rightarrow> DelegationContext \<Rightarrow> CompiledPolicy list \<Rightarrow> Decision \<Rightarrow> Decision" where
  "first_match pf dc [] dec = dec"
| "first_match pf dc (p # ps) dec =
     (if \<not> MatchesContext pf p dc then first_match pf dc ps dec
      else dec\<lparr>dec_Verdict := pol_Verdict p, dec_Reason := pol_Reason p, dec_Approvers := pol_Approvers p,
               dec_Obligations := pol_Obligations p, dec_PolicyID := pol_ID p\<rparr>)"

definition Evaluate :: "(string \<Rightarrow> float64 option) \<Rightarrow> int \<Rightarrow> PolicySet \<Rightarrow> DelegationContext \<Rightarrow> Decision" where
  "Evaluate pf now s dc =
     (case (if Rego s \<noteq> None \<and> LastCompileError (Rego s) = None then rego_Evaluate (Rego s) dc else None) of
        Some dec \<Rightarrow>
          (let dec' = escalate_high dc dec
           in dec'\<lparr>dec_Timestamp := (if dec_Timestamp dec' = 0 then now else dec_Timestamp dec')\<rparr>)
      | None \<Rightarrow>
          escalate_high dc (first_match pf dc (Policies s)
            (zero_Decision\<lparr>dec_Verdict := VerdictDeny, dec_Reason := ''no matching allow'', dec_Timestamp := now\<rparr>)))"

definition filterPolicySetByIDs :: "PolicySet \<Rightarrow> string list option \<Rightarrow> PolicySet" where
  "filterPolicySetByIDs src allowedIDs =
     (case allowedIDs of
        None \<Rightarrow> src
      | Some ids \<Rightarrow> \<lparr>Policies = filter (\<lambda>p. pol_ID p \<in> set ids) (Policies src), ps_Version = ps_Version src, Rego = Rego src\<rparr>)"

text \<open>The rules decide when there is no usable Rego module.\<close>

definition ast_only :: "PolicySet \<Rightarrow> DelegationContext \<Rightarrow> bool" where
  "ast_only s dc \<longleftrightarrow> Rego s = None \<or> LastCompileError (Rego s) \<noteq> None \<or> rego_Evaluate (Rego s) dc = None"

text \<open>A rule for one agent and one tool, and a call it allows.\<close>

definition demo_policy :: CompiledPolicy where
  "demo_policy = \<lparr>pol_ID = ''p1'', pol_Tenant = [], pol_Workspace = [], pol_Version = 1, Enabled = True, Priority = 1,
     Subject = \<lparr>AnyRole = [], AnyAgent = [''bot''], AnySubject = []\<rparr>, pol_Tool = \<lparr>AnyTool = [''read''], PrefixTool = []\<rparr>,
     Conditions = [], pol_Verdict = VerdictAllow, pol_Approvers = [], pol_Obligations = [], pol_Reason = ''ok''\<rparr>"

definition demo_context :: DelegationContext where
  "demo_context = zero_DelegationContext\<lparr>ActorChain := [''bot''], Tool := ''read''\<rparr>"

section \<open>Facts on the evaluation\<close>

lemma first_match_find:
  "first_match pf dc ps dec =
    (case List.find (\<lambda>p. MatchesContext pf p dc) ps of
       None \<Rightarrow> dec
     | Some p \<Rightarrow> dec\<lparr>dec_Verdict := pol_Verdict p, dec_Reason := pol_Reason p, dec_Approvers := pol_Approvers p,
                    dec_Obligations := pol_Obligations p, dec_PolicyID := pol_ID p\<rparr>)"
  by (induction ps) auto

lemma escalate_high_PolicyID [simp]: "dec_PolicyID (escalate_high dc dec) = dec_PolicyID dec"
  by (simp add: escalate_high_def)

lemma escalate_high_verdict:
  "dec_Verdict (escalate_high dc dec) =
    (if dec_Verdict dec = VerdictAllow \<and> EqualFold (RecoveryCost (dcContext dc)) ''high'' then VerdictRequireApproval
     else dec_Verdict dec)"
  by (simp add: escalate_high_def)

lemma Evaluate_ast:
  "ast_only s dc \<Longrightarrow> Evaluate pf now s dc = escalate_high dc (first_match pf dc (Policies s)
     (zero_Decision\<lparr>dec_Verdict := VerdictDeny, dec_Reason := ''no matching allow'', dec_Timestamp := now\<rparr>))"
  by (auto simp: ast_only_def Evaluate_def)

lemma Evaluate_rego:
  "\<not> ast_only s dc \<Longrightarrow> \<exists>dec. rego_Evaluate (Rego s) dc = Some dec \<and>
     Evaluate pf now s dc = (escalate_high dc dec)\<lparr>dec_Timestamp := (if dec_Timestamp (escalate_high dc dec) = 0 then now
       else dec_Timestamp (escalate_high dc dec))\<rparr>"
  by (auto simp: ast_only_def Evaluate_def Let_def)

text \<open>Only the shadow mode of the decision point sets \<open>WouldBlock\<close>.\<close>

lemma escalate_high_block [simp]: "WouldBlock (escalate_high dc dec) = WouldBlock dec"
  by (simp add: escalate_high_def)

lemma first_match_block [simp]: "WouldBlock (first_match pf dc ps dec) = WouldBlock dec"
  by (induction ps) simp_all

lemma decode_block: "decodeRegoResult v = Some dec \<Longrightarrow> \<not> WouldBlock dec"
  by (cases v) (auto simp: decodeRegoResult_def zero_Decision_def)

lemma rego_block: "rego_Evaluate e dc = Some dec \<Longrightarrow> \<not> WouldBlock dec"
  using decode_block by (auto simp: rego_Evaluate_def split: option.splits)

lemma Evaluate_block [simp]: "\<not> WouldBlock (Evaluate pf now s dc)"
proof (cases "ast_only s dc")
  case True
  then show ?thesis by (simp add: Evaluate_ast zero_Decision_def)
next
  case False
  from Evaluate_rego [OF False, of pf now] show ?thesis using rego_block by auto
qed

lemma ast_only_filter [simp]: "ast_only (filterPolicySetByIDs s ids) dc = ast_only s dc"
  by (cases ids) (simp_all add: ast_only_def filterPolicySetByIDs_def)

lemma find_filter_eq:
  "List.find P (filter Q xs) = List.find (\<lambda>x. Q x \<and> P x) xs"
  by (induction xs) auto

lemma find_witness:
  assumes "List.find P xs = Some x"
  shows "\<exists>before after. xs = before @ x # after \<and> P x \<and> list_all (\<lambda>y. \<not> P y) before"
  using assms
proof (induction xs)
  case (Cons y ys)
  show ?case
  proof (cases "P y")
    case True
    then show ?thesis using Cons.prems by (intro exI [of _ "[]"] exI [of _ ys]) auto
  next
    case False
    then obtain before after where "ys = before @ x # after \<and> P x \<and> list_all (\<lambda>y. \<not> P y) before"
      using Cons by auto
    then show ?thesis using False by (intro exI [of _ "y # before"] exI [of _ after]) auto
  qed
qed simp

section \<open>What the evaluation guarantees\<close>

lemma Evaluate_first_match:
  assumes "ast_only s dc"
  shows "(list_all (\<lambda>p. \<not> MatchesContext pf p dc) (Policies s) \<and> dec_Verdict (Evaluate pf now s dc) = VerdictDeny) \<or>
    (\<exists>before p after. Policies s = before @ p # after \<and> MatchesContext pf p dc \<and>
       list_all (\<lambda>q. \<not> MatchesContext pf q dc) before \<and> dec_PolicyID (Evaluate pf now s dc) = pol_ID p \<and>
       dec_Verdict (Evaluate pf now s dc) =
         (if pol_Verdict p = VerdictAllow \<and> EqualFold (RecoveryCost (dcContext dc)) ''high'' then VerdictRequireApproval
          else pol_Verdict p))"
proof (cases "List.find (\<lambda>p. MatchesContext pf p dc) (Policies s)")
  case None
  then have "dec_Verdict (Evaluate pf now s dc) = VerdictDeny"
    by (simp add: Evaluate_ast [OF assms] first_match_find escalate_high_verdict)
  moreover from None have "list_all (\<lambda>p. \<not> MatchesContext pf p dc) (Policies s)"
    by (simp add: find_None_iff list_all_iff)
  ultimately show ?thesis by blast
next
  case (Some p)
  from find_witness [OF this] obtain before after
    where "Policies s = before @ p # after \<and> MatchesContext pf p dc \<and> list_all (\<lambda>q. \<not> MatchesContext pf q dc) before"
    by blast
  moreover have "dec_PolicyID (Evaluate pf now s dc) = pol_ID p"
    by (simp add: Evaluate_ast [OF assms] first_match_find Some)
  moreover have "dec_Verdict (Evaluate pf now s dc) =
      (if pol_Verdict p = VerdictAllow \<and> EqualFold (RecoveryCost (dcContext dc)) ''high'' then VerdictRequireApproval
       else pol_Verdict p)"
    by (simp add: Evaluate_ast [OF assms] first_match_find Some escalate_high_verdict)
  ultimately show ?thesis by blast
qed

text \<open>
  Closed by default and first match wins: where the rules decide, either no enabled rule matches and the verdict is
  \<open>DENY\<close>, or the decision carries the id of a rule that matches while no earlier one does, and its verdict, turned
  into \<open>REQUIRE_APPROVAL\<close> exactly for an \<open>ALLOW\<close> with a high recovery cost.
\<close>

theorem policy_first_match:
  assumes "ast_only s dc"
  shows "(list_all (\<lambda>p. \<not> MatchesContext pf p dc) (Policies s) \<and> dec_Verdict (Evaluate pf now s dc) = VerdictDeny) \<or>
    (\<exists>before p after. Policies s = before @ p # after \<and> MatchesContext pf p dc \<and>
       list_all (\<lambda>q. \<not> MatchesContext pf q dc) before \<and> dec_PolicyID (Evaluate pf now s dc) = pol_ID p \<and>
       dec_Verdict (Evaluate pf now s dc) =
         (if pol_Verdict p = VerdictAllow \<and> EqualFold (RecoveryCost (dcContext dc)) ''high'' then VerdictRequireApproval
          else pol_Verdict p))"
  by (rule Evaluate_first_match [OF assms])

lemma demo_match: "MatchesContext pf demo_policy demo_context"
  "MatchesContext pf demo_policy (demo_context\<lparr>dcContext := cx\<rparr>)"
  by (simp_all add: MatchesContext_def demo_policy_def demo_context_def zero_DelegationContext_def subject_matches_def
      tool_matches_def containsCI_def go_string_simps)

theorem policy_first_match_witness:
  "dec_Verdict (Evaluate (\<lambda>_. None) 5 \<lparr>Policies = [demo_policy\<lparr>Enabled := False\<rparr>], ps_Version = 1, Rego = None\<rparr> demo_context) = VerdictDeny"
  using policy_first_match [of "\<lparr>Policies = [demo_policy\<lparr>Enabled := False\<rparr>], ps_Version = 1, Rego = None\<rparr>" demo_context
      "\<lambda>_. None" 5]
  by (auto simp: ast_only_def MatchesContext_def Cons_eq_append_conv)

lemma Evaluate_high_not_allow:
  assumes "EqualFold (RecoveryCost (dcContext dc)) ''high''"
  shows "dec_Verdict (Evaluate pf now s dc) \<noteq> VerdictAllow"
proof (cases "ast_only s dc")
  case True
  then show ?thesis using assms by (simp add: Evaluate_ast escalate_high_verdict)
next
  case False
  from Evaluate_rego [OF False, of pf now] show ?thesis using assms by (auto simp: escalate_high_verdict split: if_splits)
qed

text \<open>
  A call with a high recovery cost is never simply allowed, whether Rego or the rules decide.
\<close>

theorem high_recovery_cost_never_allowed:
  assumes "EqualFold (RecoveryCost (dcContext dc)) ''high''"
  shows "dec_Verdict (Evaluate pf now s dc) \<noteq> VerdictAllow"
  by (rule Evaluate_high_not_allow [OF assms])

theorem high_recovery_cost_never_allowed_witness:
  "dec_Verdict (Evaluate (\<lambda>_. None) 5 \<lparr>Policies = [demo_policy], ps_Version = 1, Rego = None\<rparr>
     (demo_context\<lparr>dcContext := zero_Context\<lparr>RecoveryCost := ''HIGH''\<rparr>\<rparr>)) \<noteq> VerdictAllow"
  by (rule high_recovery_cost_never_allowed) (simp add: go_string_simps)

text \<open>
  Targeting, where the rules decide: after the restriction to the ids that target the caller, a decision that is
  not the default denial comes from one of those rules.
\<close>

theorem targeting_restricts_rules:
  assumes "ast_only s dc"
  shows "dec_Verdict (Evaluate pf now (filterPolicySetByIDs s (Some ids)) dc) = VerdictDeny \<or>
    dec_PolicyID (Evaluate pf now (filterPolicySetByIDs s (Some ids)) dc) \<in> set ids"
proof (cases "List.find (\<lambda>p. pol_ID p \<in> set ids \<and> MatchesContext pf p dc) (Policies s)")
  case None
  then show ?thesis
    using assms
    by (simp add: Evaluate_ast first_match_find escalate_high_verdict filterPolicySetByIDs_def find_filter_eq
        ast_only_def)
next
  case (Some p)
  then have "pol_ID p \<in> set ids" by (auto simp: find_Some_iff)
  then show ?thesis
    using assms Some
    by (simp add: Evaluate_ast first_match_find filterPolicySetByIDs_def find_filter_eq ast_only_def)
qed

theorem targeting_restricts_rules_witness:
  "dec_Verdict (Evaluate (\<lambda>_. None) 5 (filterPolicySetByIDs \<lparr>Policies = [demo_policy], ps_Version = 1, Rego = None\<rparr> (Some [])) demo_context)
     = VerdictDeny"
  using targeting_restricts_rules [of "\<lparr>Policies = [demo_policy], ps_Version = 1, Rego = None\<rparr>" demo_context "\<lambda>_. None" 5 "[]"]
  by (simp add: ast_only_def)

text \<open>
  With a working Rego module the restriction has no effect at all: \<open>filterPolicySetByIDs\<close> keeps the evaluator of the
  whole set, so even a caller that no policy targets gets the decision of the full set.
\<close>

theorem rego_ignores_targeting:
  assumes "\<not> ast_only s dc"
  shows "Evaluate pf now (filterPolicySetByIDs s (Some ids)) dc = Evaluate pf now s dc"
  using assms by (auto simp: Evaluate_def filterPolicySetByIDs_def ast_only_def)

theorem rego_ignores_targeting_witness:
  "dec_Verdict (Evaluate (\<lambda>_. None) 5 (filterPolicySetByIDs \<lparr>Policies = [demo_policy], ps_Version = 1,
      Rego = Some \<lparr>re_prepared = Some (\<lambda>_. Some (JObj [(''verdict'', JStr ''ALLOW'')])), re_source = [], re_err = None\<rparr>\<rparr> (Some []))
      demo_context) = VerdictAllow"
proof -
  let ?s = "\<lparr>Policies = [demo_policy], ps_Version = 1,
      Rego = Some \<lparr>re_prepared = Some (\<lambda>_. Some (JObj [(''verdict'', JStr ''ALLOW'')])), re_source = [], re_err = None\<rparr>\<rparr>"
  have r: "rego_Evaluate (Rego ?s) demo_context = Some (zero_Decision\<lparr>dec_Verdict := VerdictAllow\<rparr>)"
    by (simp add: rego_Evaluate_def decodeRegoResult_def zero_Decision_def go_string_simps)
  then have "\<not> ast_only ?s demo_context" by (simp add: ast_only_def LastCompileError_def)
  note same = rego_ignores_targeting [OF this, of "\<lambda>_. None" 5 "[]"]
  have "dec_Verdict (Evaluate (\<lambda>_. None) 5 ?s demo_context) = VerdictAllow"
    unfolding Evaluate_def r
    by (simp add: LastCompileError_def escalate_high_verdict Let_def demo_context_def zero_DelegationContext_def
        zero_Context_def go_string_simps)
  then show ?thesis unfolding same .
qed

text \<open>
  The generated Rego drops restrictions the rules enforce: the agent and principal lists, the tool prefixes, the
  enabled flag and every condition on scope, tenant, workspace or identity type leave no trace in its text, so a module
  built from it cannot tell a restricted rule from an open one, although \<open>MatchesContext\<close> does.
\<close>

theorem rego_drops_restrictions:
  "CompileRego pf (p\<lparr>Enabled := b, Subject := (Subject p)\<lparr>AnyAgent := agents, AnySubject := subjects\<rparr>,
      pol_Tool := (pol_Tool p)\<lparr>PrefixTool := tool_prefixes\<rparr>,
      Conditions := Conditions p @ [\<lparr>Field = ''scope'', Operator = ''in'', Value = v, Values = []\<rparr>]\<rparr>) = CompileRego pf p \<and>
   MatchesContext pf demo_policy demo_context \<and>
   \<not> MatchesContext pf demo_policy (demo_context\<lparr>ActorChain := [''intruder'']\<rparr>)"
  using demo_match(1) [of pf]
  by (simp add: CompileRego_def rego_condition_def go_string_simps)
    (simp add: MatchesContext_def demo_policy_def demo_context_def zero_DelegationContext_def subject_matches_def
      containsCI_def go_string_simps)

text \<open>
  On string operands every operator but \<open>ne\<close> means equality: a rule with \<open>not_in\<close> applies exactly to the value it
  names, and the list \<open>Values\<close> is never read.
\<close>

theorem not_in_means_equal:
  "condition_matches pf \<lparr>Field = ''data_class'', Operator = ''not_in'', Value = v, Values = vs\<rparr> dc \<longleftrightarrow>
     EqualFold (DataClass (dcContext dc)) v"
  by (simp add: condition_matches_def compareString_def go_string_simps)

text \<open>Stripping a snippet is idempotent and leaves no package, import or comment line.\<close>

lemma strip_lines:
  assumes "filter (\<lambda>line. \<not> dropped_line line) (split_byte CHR 0x0A src) \<noteq> []"
  shows "split_byte CHR 0x0A (stripPackageAndImports src) = filter (\<lambda>line. \<not> dropped_line line) (split_byte CHR 0x0A src)"
  unfolding stripPackageAndImports_def nl_def
  using assms by (intro split_byte_Join) (auto dest: split_byte_clean)

lemma dropped_Nil [simp]: "\<not> dropped_line []"
  by (simp add: dropped_line_def TrimSpace_def HasPrefix_def)

text \<open>
  The preparation of a snippet for the merged module is sound: no line that survives is a package clause, an import
  or a comment, and preparing the result again changes nothing.
\<close>

theorem strip_package_and_imports:
  "list_all (\<lambda>line. \<not> dropped_line line) (split_byte CHR 0x0A (stripPackageAndImports src)) \<and>
   stripPackageAndImports (stripPackageAndImports src) = stripPackageAndImports src"
proof (cases "filter (\<lambda>line. \<not> dropped_line line) (split_byte CHR 0x0A src) = []")
  case True
  then have "stripPackageAndImports src = []" by (simp add: stripPackageAndImports_def)
  then show ?thesis by (simp add: stripPackageAndImports_def)
next
  case False
  from strip_lines [OF False] show ?thesis
    by (simp add: list_all_iff) (simp add: stripPackageAndImports_def)
qed

end
