(* ===== verification/Resolvers.thy ===== *)
theory Resolvers
  imports Prelude "HOL-Library.AList"
begin

text \<open>
  The two in-memory indexes the decision point consults on every call:
  \<^verbatim>\<open>deepintshield_server/framework/agentic/vk_resolver.go\<close> (virtual keys by id and by bearer value) and
  \<^verbatim>\<open>policy_target_resolver.go\<close> (which policies target a caller).  A \<open>sync.Map\<close> is a map or an association list; a
  \<open>map[string]struct{}\<close> is a list without repetition, whose order stands for the order Go happens to walk it in.  The
  readers of the configuration store are parameters.
\<close>

section \<open>Virtual keys\<close>

record VKScope =
  vk_ID :: string
  vk_Value :: string
  vk_Tenant :: string
  vk_Workspace :: string
  BoundProvider :: string
  IdentityProviderID :: string
  TeamID :: string
  CustomerID :: string
  AgentConfigured :: bool
  vk_AgentRiskLevel :: string
  vk_AgentCapabilities :: "string list"
  AgentNamespace :: string

record VKResolver =
  scopes :: "(string \<times> VKScope) list"
  valueToID :: "string \<rightharpoonup> string"

definition NewVKResolver :: VKResolver where
  "NewVKResolver = \<lparr>scopes = [], valueToID = Map.empty\<rparr>"

definition Lookup :: "VKResolver \<Rightarrow> string \<Rightarrow> VKScope option" where
  "Lookup r vkID = (if vkID = [] then None else map_of (scopes r) vkID)"

definition LookupByValue :: "VKResolver \<Rightarrow> string \<Rightarrow> VKScope option" where
  "LookupByValue r vkValue =
     (if vkValue = [] then None
      else (case valueToID r vkValue of
              None \<Rightarrow> None
            | Some i \<Rightarrow> (if i = [] then None else Lookup r i)))"

definition UpsertVKScope :: "VKScope option \<Rightarrow> VKResolver \<Rightarrow> VKResolver" where
  "UpsertVKScope sc r =
     (case sc of
        None \<Rightarrow> r
      | Some s \<Rightarrow>
          (if vk_ID s = [] then r
           else (let r' = r\<lparr>scopes := AList.update (vk_ID s) s (scopes r)\<rparr> in
                 if vk_Value s \<noteq> [] then r'\<lparr>valueToID := (valueToID r')(vk_Value s \<mapsto> vk_ID s)\<rparr> else r')))"

definition DeleteVKScope :: "string \<Rightarrow> VKResolver \<Rightarrow> VKResolver" where
  "DeleteVKScope vkID r =
     (if vkID = [] then r
      else (let r' = (case Lookup r vkID of
                        Some existing \<Rightarrow>
                          (if vk_Value existing \<noteq> [] then r\<lparr>valueToID := (valueToID r)(vk_Value existing := None)\<rparr> else r)
                      | None \<Rightarrow> r)
            in r'\<lparr>scopes := AList.delete vkID (scopes r')\<rparr>))"

definition vk_LoadAll :: "VKScope option list \<Rightarrow> VKResolver \<Rightarrow> VKResolver" where
  "vk_LoadAll ss r = fold UpsertVKScope ss r"

definition Size :: "VKResolver \<Rightarrow> nat" where
  "Size r = length (scopes r)"

text \<open>The columns of a virtual-key row the translation reads; a pointer is an option.\<close>

record TableVirtualKey =
  row_ID :: string
  row_Value :: string
  row_TenantID :: string
  row_WorkspaceID :: "string option"
  row_TeamID :: "string option"
  row_CustomerID :: "string option"
  row_BoundIdentityProvider :: string
  row_IdentityProviderID :: string
  row_AgentRiskLevel :: string
  row_AgentCapabilities :: "string list"
  row_AgentNamespace :: string

definition trim_ptr :: "string option \<Rightarrow> string" where
  "trim_ptr p = (case p of None \<Rightarrow> [] | Some s \<Rightarrow> TrimSpace s)"

definition VKScopeFromRow :: "TableVirtualKey option \<Rightarrow> VKScope option" where
  "VKScopeFromRow r =
     (case r of
        None \<Rightarrow> None
      | Some row \<Rightarrow> Some
          \<lparr>vk_ID = row_ID row, vk_Value = row_Value row, vk_Tenant = row_TenantID row,
           vk_Workspace = trim_ptr (row_WorkspaceID row), BoundProvider = row_BoundIdentityProvider row,
           IdentityProviderID = row_IdentityProviderID row, TeamID = trim_ptr (row_TeamID row),
           CustomerID = trim_ptr (row_CustomerID row), AgentConfigured = (row_BoundIdentityProvider row \<noteq> []),
           vk_AgentRiskLevel = TrimSpace (row_AgentRiskLevel row), vk_AgentCapabilities = row_AgentCapabilities row,
           AgentNamespace = TrimSpace (row_AgentNamespace row)\<rparr>)"

definition vk_PreWarm :: "(string + TableVirtualKey list) \<Rightarrow> VKResolver \<Rightarrow> string option \<times> VKResolver" where
  "vk_PreWarm rows r =
     (case rows of
        Inl err \<Rightarrow> (Some err, r)
      | Inr rs \<Rightarrow> (None, vk_LoadAll (map (\<lambda>row. VKScopeFromRow (Some row))
                            (filter (\<lambda>row. row_BoundIdentityProvider row \<noteq> []) rs)) r))"

section \<open>Policy targets\<close>

type_synonym index = "string \<rightharpoonup> string list"

record PolicyTargetResolver =
  broad :: "string list"
  byVK :: index
  byTeam :: index
  byMember :: index
  allPolicy :: "string list"

definition NewPolicyTargetResolver :: PolicyTargetResolver where
  "NewPolicyTargetResolver =
     \<lparr>broad = [], byVK = Map.empty, byTeam = Map.empty, byMember = Map.empty, allPolicy = []\<rparr>"

definition mergeFrom :: "string \<Rightarrow> index \<Rightarrow> string list \<Rightarrow> string list" where
  "mergeFrom key m seen = (if key = [] then seen else (case m key of None \<Rightarrow> seen | Some ids \<Rightarrow> fold List.insert ids seen))"

definition Resolve :: "PolicyTargetResolver \<Rightarrow> string \<Rightarrow> string \<Rightarrow> string \<Rightarrow> string list" where
  "Resolve r vkID teamID memberID =
     mergeFrom memberID (byMember r) (mergeFrom teamID (byTeam r) (mergeFrom vkID (byVK r) (fold List.insert (allPolicy r) [])))"

fun addToIndex :: "string list \<Rightarrow> string \<Rightarrow> index \<Rightarrow> index" where
  "addToIndex [] policyID m = m"
| "addToIndex (k0 # ks) policyID m =
     (let k = TrimSpace k0 in
      if k = [] then addToIndex ks policyID m
      else addToIndex ks policyID (m(k \<mapsto> List.insert policyID (case m k of None \<Rightarrow> [] | Some ids \<Rightarrow> ids))))"

definition dropFromIndex :: "string \<Rightarrow> index \<Rightarrow> index" where
  "dropFromIndex policyID m =
     (\<lambda>k. case m k of
            None \<Rightarrow> None
          | Some ids \<Rightarrow>
              (if policyID \<in> set ids
               then (let ids' = removeAll policyID ids in if ids' = [] then None else Some ids')
               else Some ids))"

definition removePolicy :: "string \<Rightarrow> PolicyTargetResolver \<Rightarrow> PolicyTargetResolver" where
  "removePolicy policyID r =
     r\<lparr>allPolicy := removeAll policyID (allPolicy r), broad := removeAll policyID (broad r),
       byVK := dropFromIndex policyID (byVK r), byTeam := dropFromIndex policyID (byTeam r),
       byMember := dropFromIndex policyID (byMember r)\<rparr>"

definition UpsertPolicy ::
  "string \<Rightarrow> bool \<Rightarrow> string list \<Rightarrow> string list \<Rightarrow> string list \<Rightarrow> PolicyTargetResolver \<Rightarrow> PolicyTargetResolver" where
  "UpsertPolicy policyID appliesToAllKeys vkIDs teamIDs memberIDs r =
     (if policyID = [] then r
      else (let r' = removePolicy policyID r in
            if appliesToAllKeys
            then r'\<lparr>allPolicy := List.insert policyID (allPolicy r'), broad := List.insert policyID (broad r')\<rparr>
            else r'\<lparr>byVK := addToIndex vkIDs policyID (byVK r'), byTeam := addToIndex teamIDs policyID (byTeam r'),
                    byMember := addToIndex memberIDs policyID (byMember r')\<rparr>))"

definition DeletePolicy :: "string \<Rightarrow> PolicyTargetResolver \<Rightarrow> PolicyTargetResolver" where
  "DeletePolicy policyID r = (if policyID = [] then r else removePolicy policyID r)"

definition ptr_reset :: "PolicyTargetResolver \<Rightarrow> PolicyTargetResolver" where
  "ptr_reset r = r\<lparr>allPolicy := [], broad := [], byVK := Map.empty, byTeam := Map.empty, byMember := Map.empty\<rparr>"

text \<open>Target rows are pairs of a target id and a policy id.\<close>

definition load_targets :: "(string \<times> string) list \<Rightarrow> index \<Rightarrow> index" where
  "load_targets ts m = fold (\<lambda>(key, policyID). addToIndex [key] policyID) ts m"

definition ptr_LoadAll ::
  "string list \<Rightarrow> (string \<times> string) list \<Rightarrow> (string \<times> string) list \<Rightarrow> (string \<times> string) list \<Rightarrow>
   PolicyTargetResolver \<Rightarrow> PolicyTargetResolver" where
  "ptr_LoadAll allKeyPolicyIDs vkTargets teamTargets memberTargets r =
     (let r0 = ptr_reset r; ids = filter (\<lambda>i. i \<noteq> []) (map TrimSpace allKeyPolicyIDs) in
      r0\<lparr>allPolicy := fold List.insert ids (allPolicy r0), broad := fold List.insert ids (broad r0),
         byVK := load_targets vkTargets (byVK r0), byTeam := load_targets teamTargets (byTeam r0),
         byMember := load_targets memberTargets (byMember r0)\<rparr>)"

text \<open>The four reads of the configuration store, each of which may fail.\<close>

record target_reader =
  ListAgenticPolicies :: "string + (string \<times> bool) list"
  ListTargets :: "string + (string \<times> string) list"
  ListTeamTargets :: "string + (string \<times> string) list"
  ListMemberTargets :: "string + (string \<times> string) list"

definition ptr_PreWarm :: "target_reader \<Rightarrow> PolicyTargetResolver \<Rightarrow> string option \<times> PolicyTargetResolver" where
  "ptr_PreWarm rd r =
     (case ListAgenticPolicies rd of
        Inl e \<Rightarrow> (Some e, r)
      | Inr policies \<Rightarrow>
          (case ListTargets rd of
             Inl e \<Rightarrow> (Some e, r)
           | Inr vkT \<Rightarrow>
               (case ListTeamTargets rd of
                  Inl e \<Rightarrow> (Some e, r)
                | Inr teamT \<Rightarrow>
                    (case ListMemberTargets rd of
                       Inl e \<Rightarrow> (Some e, r)
                     | Inr memberT \<Rightarrow> (None, ptr_LoadAll (map fst (filter snd policies)) vkT teamT memberT r)))))"

section \<open>What targeting means\<close>

text \<open>The targets of one policy: the broad flag and the three sets of ids.\<close>

record target_spec =
  ts_all :: bool
  ts_vks :: "string set"
  ts_teams :: "string set"
  ts_members :: "string set"

definition index_keys :: "index \<Rightarrow> string \<Rightarrow> string set" where
  "index_keys m policyID = {k. case m k of None \<Rightarrow> False | Some ids \<Rightarrow> policyID \<in> set ids}"

definition targets_of :: "PolicyTargetResolver \<Rightarrow> string \<Rightarrow> target_spec" where
  "targets_of r policyID =
     \<lparr>ts_all = (policyID \<in> set (allPolicy r)), ts_vks = index_keys (byVK r) policyID,
      ts_teams = index_keys (byTeam r) policyID, ts_members = index_keys (byMember r) policyID\<rparr>"

definition trimmed :: "string list \<Rightarrow> string set" where
  "trimmed ks = TrimSpace ` set ks - {[]}"

definition applies :: "target_spec \<Rightarrow> string \<Rightarrow> string \<Rightarrow> string \<Rightarrow> bool" where
  "applies t vk team member \<longleftrightarrow> ts_all t \<or> vk \<in> ts_vks t \<or> team \<in> ts_teams t \<or> member \<in> ts_members t"

definition no_targets :: target_spec where
  "no_targets = \<lparr>ts_all = False, ts_vks = {}, ts_teams = {}, ts_members = {}\<rparr>"

definition ptr_inv :: "PolicyTargetResolver \<Rightarrow> bool" where
  "ptr_inv r \<longleftrightarrow> byVK r [] = None \<and> byTeam r [] = None \<and> byMember r [] = None \<and> set (broad r) = set (allPolicy r)"

datatype ptr_event =
    PUpsert string bool "string list" "string list" "string list"
  | PDelete string
  | PLoad "string list" "(string \<times> string) list" "(string \<times> string) list" "(string \<times> string) list"

fun ptr_exec :: "ptr_event \<Rightarrow> PolicyTargetResolver \<Rightarrow> PolicyTargetResolver" where
  "ptr_exec (PUpsert p a v t m) r = UpsertPolicy p a v t m r"
| "ptr_exec (PDelete p) r = DeletePolicy p r"
| "ptr_exec (PLoad a v t m) r = ptr_LoadAll a v t m r"

text \<open>
  The intended targets of a policy, read off the history of calls alone, latest first: those of the last
  call that names the policy, or of the last full load if that came later.
\<close>

definition rows_for :: "string \<Rightarrow> (string \<times> string) list \<Rightarrow> string set" where
  "rows_for policyID rows = trimmed (map fst (filter (\<lambda>row. snd row = policyID) rows))"

fun intended :: "ptr_event list \<Rightarrow> string \<Rightarrow> target_spec" where
  "intended [] p = no_targets"
| "intended (PUpsert q appliesAll vks teams members # earlier) p =
     (if p \<noteq> q \<or> q = [] then intended earlier p
      else if appliesAll then no_targets\<lparr>ts_all := True\<rparr>
      else \<lparr>ts_all = False, ts_vks = trimmed vks, ts_teams = trimmed teams, ts_members = trimmed members\<rparr>)"
| "intended (PDelete q # earlier) p = (if p \<noteq> q \<or> q = [] then intended earlier p else no_targets)"
| "intended (PLoad allKeys vkRows teamRows memberRows # earlier) p =
     \<lparr>ts_all = (p \<in> trimmed allKeys), ts_vks = rows_for p vkRows, ts_teams = rows_for p teamRows, ts_members = rows_for p memberRows\<rparr>"

inductive ptr_step :: "PolicyTargetResolver \<Rightarrow> PolicyTargetResolver \<Rightarrow> bool" where
  "ptr_step r (ptr_exec ev r)"

inductive_cases ptr_stepE: "ptr_step r r'"

definition ptr_init :: "PolicyTargetResolver \<Rightarrow> bool" where
  "ptr_init r \<longleftrightarrow> r = NewPolicyTargetResolver"

section \<open>Facts on the indexes\<close>

lemma addToIndex_keys:
  "index_keys (addToIndex ks p m) q = (if q = p then index_keys m q \<union> trimmed ks else index_keys m q)"
proof (induction ks p m rule: addToIndex.induct)
  case (1 p m)
  then show ?case by (simp add: trimmed_def)
next
  case (2 k0 ks p m)
  let ?k = "TrimSpace k0"
  let ?m = "m(?k \<mapsto> List.insert p (case m ?k of None \<Rightarrow> [] | Some ids \<Rightarrow> ids))"
  have step: "index_keys ?m q = (if q = p then insert ?k (index_keys m q) else index_keys m q)"
    by (cases "m ?k") (auto simp: index_keys_def)
  have trim: "trimmed (k0 # ks) = (if ?k = [] then trimmed ks else insert ?k (trimmed ks))"
    by (auto simp: trimmed_def)
  show ?case
  proof (cases "?k = []")
    case True
    then show ?thesis using "2.IH"(1) [OF refl True] trim by simp
  next
    case False
    then have eq: "addToIndex (k0 # ks) p m = addToIndex ks p ?m" by (simp add: Let_def)
    have ih: "index_keys (addToIndex ks p ?m) q = (if q = p then index_keys ?m q \<union> trimmed ks else index_keys ?m q)"
      by (rule "2.IH"(2) [OF refl False])
    show ?thesis unfolding eq ih step trim using False by simp
  qed
qed

lemma dropFromIndex_keys: "index_keys (dropFromIndex p m) q = (if q = p then {} else index_keys m q)"
proof -
  have "(case dropFromIndex p m k of None \<Rightarrow> False | Some ids \<Rightarrow> q \<in> set ids) \<longleftrightarrow>
      q \<noteq> p \<and> (case m k of None \<Rightarrow> False | Some ids \<Rightarrow> q \<in> set ids)" for k
  proof (cases "m k")
    case (Some ids)
    show ?thesis
    proof (cases "removeAll p ids = []")
      case True
      then have "set ids \<subseteq> {p}" by (metis Diff_eq_empty_iff empty_set set_removeAll)
      with Some True show ?thesis by (auto simp: dropFromIndex_def Let_def)
    next
      case False
      with Some show ?thesis by (auto simp: dropFromIndex_def Let_def)
    qed
  qed (simp add: dropFromIndex_def)
  then show ?thesis by (auto simp: index_keys_def)
qed

lemma addToIndex_empty: "m [] = None \<Longrightarrow> addToIndex ks p m [] = None"
  by (induction ks p m rule: addToIndex.induct) (auto simp: Let_def)

lemma dropFromIndex_empty: "m [] = None \<Longrightarrow> dropFromIndex p m [] = None"
  by (simp add: dropFromIndex_def)

lemma load_targets_empty: "m [] = None \<Longrightarrow> load_targets ts m [] = None"
  unfolding load_targets_def by (induction ts arbitrary: m) (auto simp: addToIndex_empty simp del: addToIndex.simps)

lemma load_targets_keys:
  "index_keys (load_targets ts m) q = index_keys m q \<union> trimmed (map fst (filter (\<lambda>t. snd t = q) ts))"
  unfolding load_targets_def
proof (induction ts arbitrary: m)
  case Nil
  then show ?case by (simp add: trimmed_def)
next
  case (Cons t ts)
  then show ?case by (cases t) (auto simp: addToIndex_keys trimmed_def simp del: addToIndex.simps)
qed

lemma ptr_exec_inv: "ptr_inv r \<Longrightarrow> ptr_inv (ptr_exec ev r)"
  by (cases ev)
    (auto simp: ptr_inv_def UpsertPolicy_def DeletePolicy_def removePolicy_def ptr_LoadAll_def ptr_reset_def Let_def
      addToIndex_empty dropFromIndex_empty load_targets_empty simp del: addToIndex.simps)

interpretation ptr: transition_system ptr_init ptr_step ptr_inv
proof
  show "ptr_init r \<Longrightarrow> ptr_inv r" for r by (simp add: ptr_init_def ptr_inv_def NewPolicyTargetResolver_def)
  show "ptr_step r r' \<Longrightarrow> ptr_inv r \<Longrightarrow> ptr_inv r'" for r r' by (auto elim: ptr_stepE simp: ptr_exec_inv)
qed

lemma set_fold_insert [simp]: "set (fold List.insert xs ys) = set xs \<union> set ys"
  by (induction xs arbitrary: ys) auto

lemma mergeFrom_set:
  "m [] = None \<Longrightarrow> set (mergeFrom key m seen) = set seen \<union> {p. key \<in> index_keys m p}"
  by (auto simp: mergeFrom_def index_keys_def split: option.splits)

lemma distinct_fold_insert: "distinct ys \<Longrightarrow> distinct (fold List.insert xs ys)"
  by (induction xs arbitrary: ys) auto

lemma distinct_mergeFrom: "distinct seen \<Longrightarrow> distinct (mergeFrom key m seen)"
  by (auto simp: mergeFrom_def distinct_fold_insert split: option.splits)

section \<open>What the indexes guarantee\<close>

lemma targets_of_remove: "targets_of (removePolicy p r) = (targets_of r)(p := no_targets)"
  by (rule ext) (simp add: targets_of_def removePolicy_def dropFromIndex_keys no_targets_def)

text \<open>
  \<open>UpsertPolicy\<close> replaces the targets of its policy and nothing else: the result has the broad flag alone, or exactly
  the given keys with blanks trimmed and empty ones left out; \<open>DeletePolicy\<close> leaves the policy without targets.
\<close>

theorem upsert_policy_refines:
  assumes "p \<noteq> []"
  shows "targets_of (UpsertPolicy p appliesAll vks teams members r) = (targets_of r)(p :=
      (if appliesAll then no_targets\<lparr>ts_all := True\<rparr>
       else \<lparr>ts_all = False, ts_vks = trimmed vks, ts_teams = trimmed teams, ts_members = trimmed members\<rparr>)) \<and>
    targets_of (DeletePolicy p r) = (targets_of r)(p := no_targets)"
proof -
  have "targets_of (UpsertPolicy p appliesAll vks teams members r) q = ((targets_of r)(p :=
      (if appliesAll then no_targets\<lparr>ts_all := True\<rparr>
       else \<lparr>ts_all = False, ts_vks = trimmed vks, ts_teams = trimmed teams, ts_members = trimmed members\<rparr>))) q" for q
    using assms
    by (simp add: UpsertPolicy_def Let_def targets_of_def removePolicy_def addToIndex_keys dropFromIndex_keys no_targets_def)
  then show ?thesis using assms by (auto simp: DeletePolicy_def targets_of_remove)
qed

theorem upsert_policy_refines_witness:
  "targets_of (UpsertPolicy ''p'' False ['' vk1 '', '' ''] [] [] NewPolicyTargetResolver) ''p'' =
     \<lparr>ts_all = False, ts_vks = {''vk1''}, ts_teams = {}, ts_members = {}\<rparr>"
  using upsert_policy_refines [of "''p''" False "['' vk1 '', '' '']" "[]" "[]" NewPolicyTargetResolver]
  by (auto simp: trimmed_def go_string_simps)

lemma targets_of_load:
  "targets_of (ptr_LoadAll allKeys vkRows teamRows memberRows r) p =
     \<lparr>ts_all = (p \<in> trimmed allKeys), ts_vks = rows_for p vkRows, ts_teams = rows_for p teamRows, ts_members = rows_for p memberRows\<rparr>"
proof -
  have "index_keys (load_targets ts Map.empty) p = rows_for p ts" for ts
    by (simp add: load_targets_keys rows_for_def index_keys_def [of Map.empty])
  moreover have "p \<in> set (filter (\<lambda>i. i \<noteq> []) (map TrimSpace allKeys)) \<longleftrightarrow> p \<in> trimmed allKeys" by (auto simp: trimmed_def)
  ultimately show ?thesis by (simp add: targets_of_def ptr_LoadAll_def ptr_reset_def Let_def)
qed

text \<open>The index holds the intended targets of every policy after every history of calls.\<close>

lemma targets_of_history: "targets_of (fold ptr_exec evs NewPolicyTargetResolver) = intended (rev evs)"
proof (induction evs rule: rev_induct)
  case Nil
  show ?case by (rule ext) (simp add: targets_of_def NewPolicyTargetResolver_def no_targets_def index_keys_def)
next
  case (snoc ev evs)
  let ?r = "fold ptr_exec evs NewPolicyTargetResolver"
  have "targets_of (ptr_exec ev ?r) p = intended (ev # rev evs) p" for p
  proof (cases ev)
    case (PUpsert q a v t m)
    then show ?thesis using upsert_policy_refines [of q a v t m ?r] snoc by (cases "q = []") (auto simp: UpsertPolicy_def)
  next
    case (PDelete q)
    then show ?thesis using upsert_policy_refines [of q False "[]" "[]" "[]" ?r] snoc by (cases "q = []") (auto simp: DeletePolicy_def)
  qed (simp add: targets_of_load)
  then show ?case by auto
qed

lemma history_reachable: "reach_by ptr_init ptr_step (fold ptr_exec evs NewPolicyTargetResolver)"
proof (induction evs rule: rev_induct)
  case Nil
  show ?case by (simp add: reach_init ptr_init_def)
next
  case (snoc ev evs)
  then show ?case by (auto intro: reach_step ptr_step.intros)
qed

text \<open>
  C36. After every sequence of upserts, deletions and full loads, \<open>Resolve\<close> returns each policy once, and exactly
  the policies whose last call gave them a target of the caller: the broad flag, or the caller's key, team or member
  among the trimmed ids of that kind.  Targets of earlier calls and of deleted policies have no effect.
\<close>

theorem resolve_returns_applicable:
  "set (Resolve (fold ptr_exec evs NewPolicyTargetResolver) vk team member) = {p. applies (intended (rev evs) p) vk team member} \<and>
   distinct (Resolve (fold ptr_exec evs NewPolicyTargetResolver) vk team member)"
proof -
  let ?r = "fold ptr_exec evs NewPolicyTargetResolver"
  have "ptr_inv ?r" by (rule ptr.reach_inv [OF history_reachable])
  then have "set (Resolve ?r vk team member) = {p. applies (targets_of ?r p) vk team member} \<and> distinct (Resolve ?r vk team member)"
    by (auto simp: Resolve_def ptr_inv_def mergeFrom_set applies_def targets_of_def distinct_mergeFrom distinct_fold_insert)
  then show ?thesis by (simp add: targets_of_history)
qed

text \<open>A policy moved from a key to a team of the same name no longer applies to the key.\<close>

theorem resolve_returns_applicable_witness:
  "set (Resolve (fold ptr_exec [PUpsert ''p'' False [''x''] [] [], PUpsert ''q'' True [] [] [], PUpsert ''p'' False [] ['' x ''] []]
      NewPolicyTargetResolver) ''x'' [] ''x'') = {''q''} \<and>
   set (Resolve (fold ptr_exec [PUpsert ''p'' False [''x''] [] [], PUpsert ''q'' True [] [] [], PUpsert ''p'' False [] ['' x ''] []]
      NewPolicyTargetResolver) [] ''x'' []) = {''p'', ''q''}"
  using resolve_returns_applicable
  by (auto simp: applies_def trimmed_def no_targets_def go_string_simps simp del: fold.simps split: if_splits)

lemma map_of_scopes_upsert:
  "vk_ID s \<noteq> [] \<Longrightarrow> map_of (scopes (UpsertVKScope (Some s) r)) = (map_of (scopes r))(vk_ID s \<mapsto> s)"
  by (simp add: UpsertVKScope_def Let_def update_conv')

text \<open>
  A virtual key that was just stored is found by its id and by its bearer value, other ids are untouched, and after
  \<open>DeleteVKScope\<close> it is found by neither.
\<close>

theorem vk_upsert_lookup_delete:
  assumes "vk_ID s \<noteq> []" "vk_Value s \<noteq> []" "r' = UpsertVKScope (Some s) r"
  shows "Lookup r' (vk_ID s) = Some s \<and> LookupByValue r' (vk_Value s) = Some s \<and>
    (\<forall>i. i \<noteq> vk_ID s \<longrightarrow> Lookup r' i = Lookup r i) \<and>
    Lookup (DeleteVKScope (vk_ID s) r') (vk_ID s) = None \<and> LookupByValue (DeleteVKScope (vk_ID s) r') (vk_Value s) = None"
proof -
  have m: "map_of (scopes r') = (map_of (scopes r))(vk_ID s \<mapsto> s)"
    using assms by (simp add: map_of_scopes_upsert)
  have v: "valueToID r' (vk_Value s) = Some (vk_ID s)"
    using assms by (simp add: UpsertVKScope_def Let_def)
  have l: "Lookup r' (vk_ID s) = Some s" using m assms(1) by (simp add: Lookup_def)
  show ?thesis
    using assms(1,2) m v l
    by (auto simp: Lookup_def LookupByValue_def DeleteVKScope_def Let_def delete_conv')
qed

theorem vk_upsert_lookup_delete_witness:
  "\<exists>s. vk_ID s = ''id'' \<and> vk_Value s = ''sk'' \<and> LookupByValue (UpsertVKScope (Some s) NewVKResolver) ''sk'' = Some s"
proof -
  let ?s = "\<lparr>vk_ID = ''id'', vk_Value = ''sk'', vk_Tenant = [], vk_Workspace = [], BoundProvider = [],
      IdentityProviderID = [], TeamID = [], CustomerID = [], AgentConfigured = True, vk_AgentRiskLevel = [],
      vk_AgentCapabilities = [], AgentNamespace = []\<rparr>"
  show ?thesis
    using vk_upsert_lookup_delete [of ?s "UpsertVKScope (Some ?s) NewVKResolver" NewVKResolver]
    by (intro exI [of _ ?s]) simp
qed

end
