(* ===== verification/AuditPipeline.thy ===== *)
theory AuditPipeline
  imports AgenticContext
begin

text \<open>
  The audit pipeline of the decision point, \<^verbatim>\<open>deepintshield_server/framework/agentic/audit.go\<close> and \<^verbatim>\<open>config.go\<close>: a
  bounded queue drained by workers, the overflow file of the durable modes and its replay, and the shutdown.  The file
  is its bytes; \<open>json.Marshal\<close> and \<open>json.Unmarshal\<close> of a record are the parameters \<open>enc\<close> and \<open>dec\<close>; whether the disk
  and the database take a write is an argument of the operation that writes.  A send on the closed queue panics, which
  is the result \<open>None\<close>.  The queue, the database and the records that were lost are part of the state, so that the
  steps of the requests, the workers, the replay and the shutdown can interleave.
\<close>

section \<open>State\<close>

record AuditRecord =
  ar_DecisionID :: string
  ar_Tenant :: string
  ar_Workspace :: string
  ar_VirtualKey :: string
  ar_SessionID :: string
  ar_Principal :: string
  ar_ActorChain :: "string list"
  ar_IdentityType :: string
  ar_ProviderID :: string
  ar_Tool :: string
  ar_ArgsDigest :: string
  ar_ScopeHash :: string
  ar_Verdict :: Verdict
  ar_Reason :: string
  ar_Obligations :: "string list"
  ar_PolicyID :: string
  ar_PolicyVersion :: int
  ar_RecoveryCost :: string
  ar_RAGProvenance :: string
  ar_CostUsed :: float64
  ar_LatencyUS :: int
  ar_CacheHit :: bool
  ar_Mode :: EnforcementMode
  ar_CrossTenant :: bool
  ar_Timestamp :: int

type_synonym AuditMode = string

abbreviation AuditBestEffort :: AuditMode where "AuditBestEffort \<equiv> ''best_effort''"
abbreviation AuditDurable :: AuditMode where "AuditDurable \<equiv> ''durable''"
abbreviation AuditFailClosed :: AuditMode where "AuditFailClosed \<equiv> ''fail_closed''"

definition ParseAuditMode :: "string \<Rightarrow> AuditMode" where
  "ParseAuditMode s =
     (if s = AuditDurable then AuditDurable else if s = AuditFailClosed then AuditFailClosed else AuditBestEffort)"

definition AuditModeFromEnv :: "(string \<Rightarrow> string) \<Rightarrow> AuditMode" where
  "AuditModeFromEnv getenv = ParseAuditMode (getenv ''DEEPINTSHIELD_AUDIT_MODE'')"

definition AuditSpillPath :: "(string \<Rightarrow> string) \<Rightarrow> (string \<Rightarrow> string) \<Rightarrow> string" where
  "AuditSpillPath getenv inTempDir =
     (let p = TrimSpace (getenv ''DEEPINTSHIELD_AUDIT_SPILL_PATH'') in
      if p \<noteq> [] then p else inTempDir ''deepintshield-audit-spill.ndjson'')"

record AsyncAudit =
  aa_writer :: bool
  aa_ch :: "AuditRecord list"
  aa_cap :: nat
  aa_ch_closed :: bool
  aa_workers :: nat
  aa_cancelled :: bool
  dropCount :: nat
  aa_mode :: AuditMode
  spillPath :: string
  spillCount :: nat
  replayStopped :: bool
  spill_file :: "byte list option"
  audit_db :: "AuditRecord list"
  audit_lost :: "AuditRecord list"

definition NewAsyncAudit :: "bool \<Rightarrow> int \<Rightarrow> int \<Rightarrow> AsyncAudit" where
  "NewAsyncAudit writer queueSize workers =
     \<lparr>aa_writer = writer, aa_ch = [], aa_cap = (if queueSize \<le> 0 then 4096 else nat queueSize), aa_ch_closed = False,
      aa_workers = (if workers \<le> 0 then 2 else nat workers), aa_cancelled = False, dropCount = 0, aa_mode = [],
      spillPath = [], spillCount = 0, replayStopped = False, spill_file = None, audit_db = [], audit_lost = []\<rparr>"

section \<open>Operations\<close>

text \<open>What the disk makes of a write: all of it, or an error after some bytes (none when the file cannot be opened).\<close>

datatype disk_write = Written | Torn nat

definition spill :: "(AuditRecord \<Rightarrow> byte list option) \<Rightarrow> disk_write \<Rightarrow> AuditRecord \<Rightarrow> AsyncAudit \<Rightarrow> bool \<times> AsyncAudit" where
  "spill enc disk rec a =
     (if spillPath a = [] then (False, a)
      else (case enc rec of
              None \<Rightarrow> (False, a)
            | Some b \<Rightarrow>
                (let file = (case spill_file a of None \<Rightarrow> [] | Some f \<Rightarrow> f) in
                 case disk of
                   Written \<Rightarrow> (True, a\<lparr>spill_file := Some (file @ b @ [CHR 0x0A])\<rparr>)
                 | Torn n \<Rightarrow> (False, if n = 0 then a else a\<lparr>spill_file := Some (file @ take n (b @ [CHR 0x0A]))\<rparr>))))"

definition EnqueueChecked ::
  "(AuditRecord \<Rightarrow> byte list option) \<Rightarrow> disk_write \<Rightarrow> AuditRecord \<Rightarrow> AsyncAudit \<Rightarrow> (bool \<times> AsyncAudit) option" where
  "EnqueueChecked enc disk rec a =
     (if \<not> aa_writer a then Some (False, a)
      else if aa_ch_closed a then None
      else if length (aa_ch a) < aa_cap a then Some (True, a\<lparr>aa_ch := aa_ch a @ [rec]\<rparr>)
      else if aa_mode a \<noteq> AuditDurable \<and> aa_mode a \<noteq> AuditFailClosed then Some (False, a\<lparr>dropCount := dropCount a + 1\<rparr>)
      else (case spill enc disk rec a of
              (False, a') \<Rightarrow> Some (False, a'\<lparr>dropCount := dropCount a' + 1\<rparr>)
            | (True, a') \<Rightarrow> Some (True, a'\<lparr>spillCount := spillCount a' + 1\<rparr>)))"

definition Enqueue :: "(AuditRecord \<Rightarrow> byte list option) \<Rightarrow> disk_write \<Rightarrow> AuditRecord \<Rightarrow> AsyncAudit \<Rightarrow> AsyncAudit option" where
  "Enqueue enc disk rec a = map_option snd (EnqueueChecked enc disk rec a)"

definition SpillCount :: "AsyncAudit option \<Rightarrow> nat" where
  "SpillCount a = (case a of None \<Rightarrow> 0 | Some x \<Rightarrow> spillCount x)"

definition Drops :: "AsyncAudit option \<Rightarrow> nat" where
  "Drops a = (case a of None \<Rightarrow> 0 | Some x \<Rightarrow> dropCount x)"

definition EnableDurability :: "AuditMode \<Rightarrow> string \<Rightarrow> AsyncAudit \<Rightarrow> AsyncAudit" where
  "EnableDurability mode path a =
     (if mode \<noteq> AuditDurable \<and> mode \<noteq> AuditFailClosed then a else a\<lparr>aa_mode := mode, spillPath := path\<rparr>)"

text \<open>
  The loop of \<open>ReplaySpill\<close> over the lines of the file; \<open>env\<close> says for a record whether the database takes it and
  what the disk makes of writing it back.
\<close>

fun replay_lines ::
  "(AuditRecord \<Rightarrow> byte list option) \<Rightarrow> (byte list \<Rightarrow> AuditRecord option) \<Rightarrow> (AuditRecord \<Rightarrow> bool \<times> disk_write) \<Rightarrow>
   byte list list \<Rightarrow> nat \<Rightarrow> AsyncAudit \<Rightarrow> nat \<times> AsyncAudit" where
  "replay_lines enc dec env [] replayed a = (replayed, a)"
| "replay_lines enc dec env (line # lines) replayed a =
     (if TrimSpace line = [] then replay_lines enc dec env lines replayed a
      else (case dec line of
              None \<Rightarrow> replay_lines enc dec env lines replayed a
            | Some rec \<Rightarrow>
                (if \<not> fst (env rec)
                 then replay_lines enc dec env lines replayed
                        (case spill enc (snd (env rec)) rec a of
                           (True, a') \<Rightarrow> a'
                         | (False, a') \<Rightarrow> a'\<lparr>audit_lost := audit_lost a' @ [rec]\<rparr>)
                 else replay_lines enc dec env lines (replayed + 1) (a\<lparr>audit_db := audit_db a @ [rec]\<rparr>))))"

text \<open>A read of the file may fail with an error; the result of the truncation is ignored by the code.\<close>

definition ReplaySpill ::
  "(AuditRecord \<Rightarrow> byte list option) \<Rightarrow> (byte list \<Rightarrow> AuditRecord option) \<Rightarrow> (AuditRecord \<Rightarrow> bool \<times> disk_write) \<Rightarrow>
   string option \<Rightarrow> bool \<Rightarrow> AsyncAudit \<Rightarrow> (string + nat) \<times> AsyncAudit" where
  "ReplaySpill enc dec env read_err trunc_ok a =
     (if spillPath a = [] \<or> \<not> aa_writer a then (Inr 0, a)
      else (case read_err of
              Some e \<Rightarrow> (Inl e, a)
            | None \<Rightarrow>
                (case spill_file a of
                   None \<Rightarrow> (Inr 0, a)
                 | Some data \<Rightarrow>
                     (let (n, a') = replay_lines enc dec env (split_byte CHR 0x0A data) 0
                                      (if trunc_ok then a\<lparr>spill_file := Some []\<rparr> else a)
                      in (Inr n, a')))))"

definition Stop :: "AsyncAudit \<Rightarrow> AsyncAudit" where
  "Stop a = a\<lparr>replayStopped := True, aa_cancelled := True, aa_ch_closed := True\<rparr>"

text \<open>
  One turn of a worker in \<open>drain\<close>: it takes a record and writes it, the result of the write being ignored, or it sees
  that the context was cancelled or the closed queue is empty and returns.
\<close>

datatype drain_choice = TakeRecord bool | SeeDone

definition drain_write :: "bool \<Rightarrow> AuditRecord \<Rightarrow> AsyncAudit \<Rightarrow> AsyncAudit" where
  "drain_write db_ok rec a =
     (if db_ok then a\<lparr>audit_db := audit_db a @ [rec]\<rparr> else a\<lparr>audit_lost := audit_lost a @ [rec]\<rparr>)"

definition drain_turn :: "drain_choice \<Rightarrow> AsyncAudit \<Rightarrow> AsyncAudit option" where
  "drain_turn ch a =
     (if aa_workers a = 0 then None
      else (case ch of
              SeeDone \<Rightarrow>
                (if aa_cancelled a \<or> aa_ch_closed a \<and> aa_ch a = [] then Some (a\<lparr>aa_workers := aa_workers a - 1\<rparr>) else None)
            | TakeRecord db_ok \<Rightarrow>
                (case aa_ch a of
                   [] \<Rightarrow> None
                 | rec # rest \<Rightarrow> Some (drain_write db_ok rec (a\<lparr>aa_ch := rest\<rparr>)))))"

text \<open>\<open>prng\<close>: the hexadecimal form of the random bytes.\<close>

definition prng :: "byte list \<Rightarrow> string" where
  "prng buf = EncodeToString buf"

section \<open>Runs\<close>

text \<open>
  The pipeline with the records \<open>EnqueueChecked\<close> has accepted, the records that workers have taken and not yet
  written, the lines that replays have read and not yet handled (the lines of several replays together), and
  whether a truncation has failed.
\<close>

record audit_sys =
  sys_audit :: AsyncAudit
  accepted :: "AuditRecord list"
  inflight :: "AuditRecord list"
  pending :: "byte list list"
  trunc_failed :: bool

definition whole :: "disk_write \<Rightarrow> bool" where
  "whole disk \<longleftrightarrow> disk = Written \<or> disk = Torn 0"

text \<open>
  A worker takes a record and writes it in two steps, and a replay reads the file, which may then not be truncated,
  and handles its lines one by one; everything else may happen between.  A write to the overflow file that fails
  leaves no part of its line here; what a torn line does is shown below.
\<close>

inductive audit_step ::
  "(AuditRecord \<Rightarrow> byte list option) \<Rightarrow> (byte list \<Rightarrow> AuditRecord option) \<Rightarrow> audit_sys \<Rightarrow> audit_sys \<Rightarrow> bool"
  for enc dec where
  step_enqueue: "EnqueueChecked enc disk rec (sys_audit s) = Some (ok, a) \<Longrightarrow> whole disk \<Longrightarrow>
    audit_step enc dec s (s\<lparr>sys_audit := a, accepted := (if ok then accepted s @ [rec] else accepted s)\<rparr>)"
| step_take: "aa_ch (sys_audit s) = rec # rest \<Longrightarrow> length (inflight s) < aa_workers (sys_audit s) \<Longrightarrow>
    audit_step enc dec s (s\<lparr>sys_audit := (sys_audit s)\<lparr>aa_ch := rest\<rparr>, inflight := inflight s @ [rec]\<rparr>)"
| step_write: "inflight s = pre @ rec # post \<Longrightarrow>
    audit_step enc dec s (s\<lparr>sys_audit := drain_write db_ok rec (sys_audit s), inflight := pre @ post\<rparr>)"
| step_done: "drain_turn SeeDone (sys_audit s) = Some a \<Longrightarrow> length (inflight s) < aa_workers (sys_audit s) \<Longrightarrow>
    audit_step enc dec s (s\<lparr>sys_audit := a\<rparr>)"
| step_read: "spillPath (sys_audit s) \<noteq> [] \<Longrightarrow> aa_writer (sys_audit s) \<Longrightarrow> spill_file (sys_audit s) = Some data \<Longrightarrow>
    audit_step enc dec s (s\<lparr>sys_audit := (if trunc_ok then (sys_audit s)\<lparr>spill_file := Some []\<rparr> else sys_audit s),
      pending := pending s @ split_byte CHR 0x0A data, trunc_failed := (trunc_failed s \<or> \<not> trunc_ok)\<rparr>)"
| step_line: "pending s = pre @ line # post \<Longrightarrow> replay_lines enc dec env [line] n (sys_audit s) = (n', a) \<Longrightarrow>
    \<forall>rec. whole (snd (env rec)) \<Longrightarrow> audit_step enc dec s (s\<lparr>sys_audit := a, pending := pre @ post\<rparr>)"
| step_durability: "spillPath (sys_audit s) = [] \<Longrightarrow> audit_step enc dec s (s\<lparr>sys_audit := EnableDurability mode path (sys_audit s)\<rparr>)"
| step_stop: "audit_step enc dec s (s\<lparr>sys_audit := Stop (sys_audit s)\<rparr>)"

inductive_cases audit_stepE: "audit_step enc dec s s'"

text \<open>
  What a record becomes when it is written as a line and read again.  The code relies on these facts of the
  encoding: a line has no line break and is not blank, and what is read from it does not change when it is written
  and read once more.  It need not be the record itself: \<open>json.Marshal\<close> replaces invalid UTF-8.
\<close>

definition canon :: "(AuditRecord \<Rightarrow> byte list option) \<Rightarrow> (byte list \<Rightarrow> AuditRecord option) \<Rightarrow> AuditRecord \<Rightarrow> AuditRecord" where
  "canon enc dec rec = (case enc rec of None \<Rightarrow> rec | Some b \<Rightarrow> (case dec b of None \<Rightarrow> rec | Some r \<Rightarrow> r))"

definition codec_ok :: "(AuditRecord \<Rightarrow> byte list option) \<Rightarrow> (byte list \<Rightarrow> AuditRecord option) \<Rightarrow> bool" where
  "codec_ok enc dec \<longleftrightarrow>
     (\<forall>rec b. enc rec = Some b \<longrightarrow> CHR 0x0A \<notin> set b \<and> TrimSpace b \<noteq> [] \<and>
        (\<exists>r. dec b = Some r \<and> enc r \<noteq> None \<and> canon enc dec r = r))"

definition line_of :: "(AuditRecord \<Rightarrow> byte list option) \<Rightarrow> AuditRecord \<Rightarrow> byte list" where
  "line_of enc rec = (case enc rec of Some b \<Rightarrow> b @ [CHR 0x0A] | None \<Rightarrow> [])"

definition file_bytes :: "AsyncAudit \<Rightarrow> byte list" where
  "file_bytes a = (case spill_file a of None \<Rightarrow> [] | Some f \<Rightarrow> f)"

definition holds_file :: "(AuditRecord \<Rightarrow> byte list option) \<Rightarrow> AsyncAudit \<Rightarrow> AuditRecord list \<Rightarrow> bool" where
  "holds_file enc a recs \<longleftrightarrow> (\<forall>rec \<in> set recs. enc rec \<noteq> None) \<and> file_bytes a = concat (map (line_of enc) recs)"

text \<open>The lines are those of the records, and blank ones.\<close>

definition holds_lines :: "(AuditRecord \<Rightarrow> byte list option) \<Rightarrow> byte list list \<Rightarrow> AuditRecord list \<Rightarrow> bool" where
  "holds_lines enc lines recs \<longleftrightarrow> (\<forall>rec \<in> set recs. enc rec \<noteq> None) \<and>
     mset (filter (\<lambda>l. TrimSpace l \<noteq> []) lines) = mset (map (\<lambda>rec. the (enc rec)) recs)"

text \<open>A start: an earlier process may have left the lines of accepted records in the overflow file.\<close>

definition audit_init :: "(AuditRecord \<Rightarrow> byte list option) \<Rightarrow> audit_sys \<Rightarrow> bool" where
  "audit_init enc s \<longleftrightarrow> (\<exists>w q n file. s = \<lparr>sys_audit = (NewAsyncAudit w q n)\<lparr>spill_file := file\<rparr>, accepted = accepted s,
     inflight = [], pending = [], trunc_failed = False\<rparr>) \<and> holds_file enc (sys_audit s) (accepted s)"

text \<open>Where the records are: in the queue, with a worker, in the database, dropped by a failed write, in the file, in a replay.\<close>

definition places :: "audit_sys \<Rightarrow> AuditRecord list \<Rightarrow> AuditRecord list \<Rightarrow> AuditRecord multiset" where
  "places s spilled replayed = mset (aa_ch (sys_audit s)) + mset (inflight s) + mset (audit_db (sys_audit s)) +
     mset (audit_lost (sys_audit s)) + mset spilled + mset replayed"

definition accounted :: "(AuditRecord \<Rightarrow> byte list option) \<Rightarrow> (byte list \<Rightarrow> AuditRecord option) \<Rightarrow> audit_sys \<Rightarrow> AuditRecord list \<Rightarrow> AuditRecord list \<Rightarrow> AuditRecord multiset \<Rightarrow> bool" where
  "accounted enc dec s spilled replayed again \<longleftrightarrow>
     image_mset (canon enc dec) (places s spilled replayed) = image_mset (canon enc dec) (mset (accepted s)) + again \<and>
     set_mset again \<subseteq> canon enc dec ` set (accepted s) \<and> (again \<noteq> {#} \<longrightarrow> trunc_failed s)"

definition audit_inv :: "(AuditRecord \<Rightarrow> byte list option) \<Rightarrow> (byte list \<Rightarrow> AuditRecord option) \<Rightarrow> audit_sys \<Rightarrow> bool" where
  "audit_inv enc dec s \<longleftrightarrow>
     length (aa_ch (sys_audit s)) \<le> aa_cap (sys_audit s) \<and>
     (\<exists>spilled replayed again. holds_file enc (sys_audit s) spilled \<and> holds_lines enc (pending s) replayed \<and>
        accounted enc dec s spilled replayed again)"

text \<open>A record and an encoding of it, for the examples.\<close>

definition demo_record :: AuditRecord where
  "demo_record = \<lparr>ar_DecisionID = ''d-1'', ar_Tenant = [], ar_Workspace = [], ar_VirtualKey = [], ar_SessionID = [],
     ar_Principal = [], ar_ActorChain = [], ar_IdentityType = [], ar_ProviderID = [], ar_Tool = ''t'', ar_ArgsDigest = [],
     ar_ScopeHash = [], ar_Verdict = VerdictAllow, ar_Reason = [], ar_Obligations = [], ar_PolicyID = [],
     ar_PolicyVersion = 0, ar_RecoveryCost = [], ar_RAGProvenance = [], ar_CostUsed = FNum 0, ar_LatencyUS = 0,
     ar_CacheHit = False, ar_Mode = [], ar_CrossTenant = False, ar_Timestamp = 0\<rparr>"

definition demo_enc :: "AuditRecord \<Rightarrow> byte list option" where
  "demo_enc rec = (if rec = demo_record then Some ''{}'' else None)"

definition demo_dec :: "byte list \<Rightarrow> AuditRecord option" where
  "demo_dec b = (if b = ''{}'' then Some demo_record else None)"

section \<open>Facts on the file\<close>

lemma split_lines:
  assumes "codec_ok enc dec" "\<forall>rec \<in> set recs. enc rec \<noteq> None"
  shows "split_byte CHR 0x0A (concat (map (line_of enc) recs)) = map (\<lambda>rec. the (enc rec)) recs @ [[]]"
  using assms(2)
proof (induction recs)
  case Nil
  then show ?case by simp
next
  case (Cons rec recs)
  then obtain b where b: "enc rec = Some b" by auto
  then have "CHR 0x0A \<notin> set b" using assms(1) by (simp add: codec_ok_def)
  then show ?case using Cons b by (simp add: line_of_def split_byte_append)
qed

lemma canon_line: "codec_ok enc dec \<Longrightarrow> enc rec = Some b \<Longrightarrow> dec b = Some (canon enc dec rec)"
  using codec_ok_def [of enc dec] by (fastforce simp: canon_def [of enc dec rec])

lemma canon_canon: "codec_ok enc dec \<Longrightarrow> canon enc dec (canon enc dec rec) = canon enc dec rec"
  using codec_ok_def [of enc dec] by (cases "enc rec") (fastforce simp: canon_def [of enc dec rec])+

lemma spill_file_grows:
  assumes "spill enc disk rec a = (ok, a')" "holds_file enc a recs" "whole disk"
  shows "holds_file enc a' (if ok then recs @ [rec] else recs)" "aa_ch a' = aa_ch a" "aa_cap a' = aa_cap a" "audit_db a' = audit_db a"
    "audit_lost a' = audit_lost a"
  using assms
  by (auto simp: spill_def whole_def holds_file_def file_bytes_def line_of_def Let_def split: if_splits option.splits)

lemma enqueue_inv:
  assumes "EnqueueChecked enc disk rec a = Some (r, a')" "holds_file enc a recs" "length (aa_ch a) \<le> aa_cap a" "whole disk"
  shows "length (aa_ch a') \<le> aa_cap a' \<and> (\<exists>recs'. holds_file enc a' recs' \<and>
    mset (aa_ch a') + mset (audit_db a') + mset (audit_lost a') + mset recs' =
    mset (aa_ch a) + mset (audit_db a) + mset (audit_lost a) + mset recs + (if r then {#rec#} else {#}))"
proof -
  obtain ok a1 where sp: "spill enc disk rec a = (ok, a1)" by (cases "spill enc disk rec a")
  note grows = spill_file_grows [OF sp assms(2,4)]
  have held: "holds_file enc (b\<lparr>aa_ch := c\<rparr>) rs = holds_file enc b rs" "holds_file enc (b\<lparr>dropCount := m\<rparr>) rs = holds_file enc b rs"
    "holds_file enc (b\<lparr>spillCount := m\<rparr>) rs = holds_file enc b rs" for b c m rs by (simp_all add: holds_file_def file_bytes_def)
  show ?thesis
  proof (cases "aa_writer a \<and> length (aa_ch a) \<ge> aa_cap a \<and> (aa_mode a = AuditDurable \<or> aa_mode a = AuditFailClosed)")
    case True
    then have "r = ok" "a' = (if ok then a1\<lparr>spillCount := spillCount a1 + 1\<rparr> else a1\<lparr>dropCount := dropCount a1 + 1\<rparr>)"
      using assms(1) sp by (auto simp: EnqueueChecked_def split: if_splits bool.splits)
    then show ?thesis using grows assms(3) by (intro conjI exI [of _ "if ok then recs @ [rec] else recs"]) (auto simp: held)
  next
    case False
    then have "spill_file a' = spill_file a" "audit_db a' = audit_db a" "audit_lost a' = audit_lost a"
      "aa_ch a' = (if r then aa_ch a @ [rec] else aa_ch a)" "length (aa_ch a') \<le> aa_cap a'"
      using assms(1,3) sp by (auto simp: EnqueueChecked_def split: if_splits bool.splits)
    then show ?thesis using assms(2) by (intro conjI exI [of _ recs]) (auto simp: holds_file_def file_bytes_def)
  qed
qed

text \<open>A line of a record puts what is read from it into the database, back into the file or to the lost ones.\<close>

lemma line_inv:
  assumes codec: "codec_ok enc dec" and env: "\<forall>rec. whole (snd (env rec))" and line: "enc rec = Some line" and held: "holds_file enc a recs"
    and run: "replay_lines enc dec env [line] n a = (n', a')"
  shows "aa_ch a' = aa_ch a \<and> aa_cap a' = aa_cap a \<and> (\<exists>recs'. holds_file enc a' recs' \<and>
    mset (audit_db a') + mset (audit_lost a') + mset recs' =
    mset (audit_db a) + mset (audit_lost a) + mset recs + {#canon enc dec rec#})"
proof -
  let ?r = "canon enc dec rec"
  have dec: "dec line = Some ?r" "TrimSpace line \<noteq> []" using canon_line [OF codec line] codec line by (auto simp: codec_ok_def)
  obtain ok a1 where sp: "spill enc (snd (env ?r)) ?r a = (ok, a1)" by (cases "spill enc (snd (env ?r)) ?r a")
  note grows = spill_file_grows [OF sp held env [rule_format]]
  have a': "a' = (if fst (env ?r) then a\<lparr>audit_db := audit_db a @ [?r]\<rparr> else if ok then a1 else a1\<lparr>audit_lost := audit_lost a1 @ [?r]\<rparr>)"
    using run dec sp by (auto split: if_splits bool.splits)
  show ?thesis
    using grows held
    by (intro conjI exI [of _ "if \<not> fst (env ?r) \<and> ok then recs @ [?r] else recs"]) (auto simp: a' holds_file_def file_bytes_def)
qed

lemma blank_line: "TrimSpace line = [] \<Longrightarrow> replay_lines enc dec env [line] n a = (n', a') \<Longrightarrow> a' = a"
  by simp

lemma holds_lines_remove:
  assumes "holds_lines enc (pre @ line # post) recs"
  shows "TrimSpace line = [] \<and> holds_lines enc (pre @ post) recs \<or>
    (\<exists>rec recs'. enc rec = Some line \<and> holds_lines enc (pre @ post) recs' \<and> mset recs = mset recs' + {#rec#})"
proof (cases "TrimSpace line = []")
  case True
  then show ?thesis using assms by (simp add: holds_lines_def)
next
  case False
  then have m: "mset (map (\<lambda>rec. the (enc rec)) recs) = add_mset line (mset (filter (\<lambda>l. TrimSpace l \<noteq> []) (pre @ post)))"
    using assms by (simp add: holds_lines_def)
  then have "line \<in># mset (map (\<lambda>rec. the (enc rec)) recs)" by simp
  then obtain rec where rec: "rec \<in> set recs" "the (enc rec) = line" by auto
  have enc: "\<forall>rec \<in> set recs. enc rec \<noteq> None" using assms by (simp add: holds_lines_def)
  have mset: "mset recs = mset (remove1 rec recs) + {#rec#}" using rec(1) by simp
  have "image_mset (\<lambda>rec. the (enc rec)) (mset (remove1 rec recs)) + {#line#} = add_mset line (mset (filter (\<lambda>l. TrimSpace l \<noteq> []) (pre @ post)))"
    using m rec(2) unfolding mset_map mset by simp
  then have "holds_lines enc (pre @ post) (remove1 rec recs)"
    using enc by (auto simp: holds_lines_def dest: notin_set_remove1 [THEN contrapos_nn] set_remove1_subset [THEN subsetD])
  then show ?thesis using rec enc mset by (intro disjI2) (metis option.collapse)
qed

lemma holds_lines_read:
  assumes "codec_ok enc dec" "holds_file enc a recs" "spill_file a = Some data" "holds_lines enc lines recs'"
  shows "holds_lines enc (lines @ split_byte CHR 0x0A data) (recs' @ recs)"
proof -
  have enc: "\<forall>rec \<in> set recs. enc rec \<noteq> None" and "data = concat (map (line_of enc) recs)"
    using assms(2,3) by (simp_all add: holds_file_def file_bytes_def)
  then have data: "split_byte CHR 0x0A data = map (\<lambda>rec. the (enc rec)) recs @ [[]]" using split_lines [OF assms(1) enc] by simp
  have "filter (\<lambda>l. TrimSpace l \<noteq> []) (map (\<lambda>rec. the (enc rec)) recs) = map (\<lambda>rec. the (enc rec)) recs"
    using enc assms(1) by (fastforce simp: filter_id_conv codec_ok_def)
  then show ?thesis using assms(4) enc unfolding data by (auto simp: holds_lines_def TrimSpace_def)
qed

lemma accounted_cong:
  assumes "accounted enc dec s spilled replayed again"
    and "image_mset (canon enc dec) (places s' spilled' replayed') = image_mset (canon enc dec) (places s spilled replayed + mset new)"
    and "accepted s' = accepted s @ new" "trunc_failed s' = trunc_failed s"
  shows "accounted enc dec s' spilled' replayed' again"
  using assms by (auto simp: accounted_def)

lemma audit_invI:
  assumes "length (aa_ch (sys_audit s)) \<le> aa_cap (sys_audit s)" "holds_file enc (sys_audit s) spilled"
    and "holds_lines enc (pending s) replayed" "accounted enc dec s spilled replayed again"
  shows "audit_inv enc dec s"
  using assms unfolding audit_inv_def by blast

lemma holds_file_same: "spill_file a' = spill_file a \<Longrightarrow> holds_file enc a' recs = holds_file enc a recs"
  by (simp add: holds_file_def file_bytes_def)

lemma audit_step_inv:
  assumes codec: "codec_ok enc dec" and step: "audit_step enc dec s s'" and inv: "audit_inv enc dec s"
  shows "audit_inv enc dec s'"
proof -
  from inv obtain spilled replayed again where cap: "length (aa_ch (sys_audit s)) \<le> aa_cap (sys_audit s)"
    and held: "holds_file enc (sys_audit s) spilled" and lines: "holds_lines enc (pending s) replayed" and acc: "accounted enc dec s spilled replayed again"
    unfolding audit_inv_def by blast
  from step show ?thesis
  proof (cases rule: audit_step.cases)
    case (step_enqueue disk rec ok a)
    from enqueue_inv [OF step_enqueue(2) held cap step_enqueue(3)] obtain spilled' where
      new: "length (aa_ch a) \<le> aa_cap a" "holds_file enc a spilled'"
        "mset (aa_ch a) + mset (audit_db a) + mset (audit_lost a) + mset spilled' =
         mset (aa_ch (sys_audit s)) + mset (audit_db (sys_audit s)) + mset (audit_lost (sys_audit s)) + mset spilled + (if ok then {#rec#} else {#})"
      by blast
    have "places s' spilled' replayed = (mset (aa_ch a) + mset (audit_db a) + mset (audit_lost a) + mset spilled') + mset (inflight s) + mset replayed"
      by (simp add: places_def step_enqueue(1) ac_simps)
    also have "\<dots> = places s spilled replayed + mset (if ok then [rec] else [])" unfolding new(3) by (simp add: places_def ac_simps)
    finally have "accounted enc dec s' spilled' replayed again"
      by (intro accounted_cong [OF acc, where new = "if ok then [rec] else []"]) (simp_all add: step_enqueue(1))
    then show ?thesis by (rule audit_invI [rotated 3]) (use new(1,2) lines in \<open>simp_all add: step_enqueue(1)\<close>)
  next
    case (step_take rec rest)
    have "accounted enc dec s' spilled replayed again"
      by (rule accounted_cong [OF acc, where new = "[]"]) (simp_all add: step_take places_def)
    then show ?thesis by (rule audit_invI [rotated 3]) (use cap held lines in \<open>simp_all add: step_take holds_file_def file_bytes_def\<close>)
  next
    case (step_write pre rec post db_ok)
    have "accounted enc dec s' spilled replayed again"
      by (rule accounted_cong [OF acc, where new = "[]"]) (simp_all add: step_write places_def drain_write_def)
    then show ?thesis by (rule audit_invI [rotated 3]) (use cap held lines in \<open>simp_all add: step_write drain_write_def holds_file_def file_bytes_def\<close>)
  next
    case (step_done a)
    then have a: "a = (sys_audit s)\<lparr>aa_workers := aa_workers (sys_audit s) - 1\<rparr>" by (auto simp: drain_turn_def split: if_splits)
    have "accounted enc dec s' spilled replayed again"
      by (rule accounted_cong [OF acc, where new = "[]"]) (simp_all add: step_done(1) a places_def)
    then show ?thesis by (rule audit_invI [rotated 3]) (use cap held lines in \<open>simp_all add: step_done(1) a holds_file_def file_bytes_def\<close>)
  next
    case (step_read data trunc_ok)
    let ?spilled = "if trunc_ok then [] else spilled" and ?again = "if trunc_ok then again else again + image_mset (canon enc dec) (mset spilled)"
    have "canon enc dec ` set spilled \<subseteq> set_mset (image_mset (canon enc dec) (places s spilled replayed))" by (auto simp: places_def)
    also have "\<dots> \<subseteq> canon enc dec ` set (accepted s)" using acc unfolding accounted_def by auto
    finally have "accounted enc dec s' ?spilled (replayed @ spilled) ?again"
      using acc by (auto simp: accounted_def places_def step_read(1) ac_simps)
    moreover have "holds_file enc (sys_audit s') ?spilled" using held by (simp add: step_read(1) holds_file_def file_bytes_def)
    moreover have "holds_lines enc (pending s') (replayed @ spilled)"
      using holds_lines_read [OF codec held step_read(4) lines] by (simp add: step_read(1))
    moreover have "length (aa_ch (sys_audit s')) \<le> aa_cap (sys_audit s')" using cap by (simp add: step_read(1))
    ultimately show ?thesis by (intro audit_invI)
  next
    case (step_line pre line post env n n' a)
    from holds_lines_remove [OF lines [unfolded step_line(2)]] show ?thesis
    proof (elim disjE conjE exE)
      assume blank: "TrimSpace line = []" "holds_lines enc (pre @ post) replayed"
      then have "a = sys_audit s" using blank_line step_line(3) by blast
      moreover have "accounted enc dec s' spilled replayed again"
        by (rule accounted_cong [OF acc, where new = "[]"]) (simp_all add: step_line(1) calculation places_def)
      ultimately show ?thesis by (intro audit_invI) (use cap held blank(2) in \<open>simp_all add: step_line(1)\<close>)
    next
      fix rec replayed'
      assume rec: "enc rec = Some line" "holds_lines enc (pre @ post) replayed'" "mset replayed = mset replayed' + {#rec#}"
      from line_inv [OF codec step_line(4) rec(1) held step_line(3)] obtain spilled' where
        new: "aa_ch a = aa_ch (sys_audit s)" "aa_cap a = aa_cap (sys_audit s)" "holds_file enc a spilled'"
          "mset (audit_db a) + mset (audit_lost a) + mset spilled' =
           mset (audit_db (sys_audit s)) + mset (audit_lost (sys_audit s)) + mset spilled + {#canon enc dec rec#}"
        by blast
      have "places s' spilled' replayed' = mset (aa_ch a) + mset (inflight s) + (mset (audit_db a) + mset (audit_lost a) + mset spilled') + mset replayed'"
        by (simp add: places_def step_line(1) ac_simps)
      then have "image_mset (canon enc dec) (places s' spilled' replayed') = image_mset (canon enc dec) (places s spilled replayed)"
        unfolding new(4) by (simp add: places_def rec(3) new(1) canon_canon [OF codec] ac_simps)
      then have "accounted enc dec s' spilled' replayed' again"
        by (intro accounted_cong [OF acc, where new = "[]"]) (simp_all add: step_line(1))
      then show ?thesis by (rule audit_invI [rotated 3]) (use cap new rec(2) in \<open>simp_all add: step_line(1)\<close>)
    qed
  next
    case (step_durability mode path)
    have "accounted enc dec s' spilled replayed again"
      by (rule accounted_cong [OF acc, where new = "[]"]) (simp_all add: step_durability(1) places_def EnableDurability_def)
    then show ?thesis by (rule audit_invI [rotated 3]) (use cap held lines in \<open>simp_all add: step_durability(1) EnableDurability_def holds_file_def file_bytes_def\<close>)
  next
    case step_stop
    have "accounted enc dec s' spilled replayed again"
      by (rule accounted_cong [OF acc, where new = "[]"]) (simp_all add: step_stop places_def Stop_def)
    then show ?thesis by (rule audit_invI [rotated 3]) (use cap held lines in \<open>simp_all add: step_stop Stop_def holds_file_def file_bytes_def\<close>)
  qed
qed

lemma demo_codec: "codec_ok demo_enc demo_dec"
  by (auto simp: codec_ok_def canon_def demo_enc_def demo_dec_def TrimSpace_def is_space_def split: if_splits)

interpretation audit: transition_system "audit_init enc" "\<lambda>s s'. codec_ok enc dec \<and> audit_step enc dec s s'" "audit_inv enc dec"
proof
  show "audit_inv enc dec s" if "audit_init enc s" for s
  proof -
    from that obtain w q n f where s: "s = \<lparr>sys_audit = (NewAsyncAudit w q n)\<lparr>spill_file := f\<rparr>, accepted = accepted s,
        inflight = [], pending = [], trunc_failed = False\<rparr>" and held: "holds_file enc (sys_audit s) (accepted s)"
      by (auto simp: audit_init_def)
    have "accounted enc dec s (accepted s) [] {#}" by (subst s) (simp add: accounted_def places_def NewAsyncAudit_def)
    moreover have "length (aa_ch (sys_audit s)) \<le> aa_cap (sys_audit s)" "holds_lines enc (pending s) []"
      by (subst s, simp add: NewAsyncAudit_def, subst s, simp add: holds_lines_def)
    ultimately show ?thesis using held by (intro audit_invI)
  qed
  show "codec_ok enc dec \<and> audit_step enc dec s t \<Longrightarrow> audit_inv enc dec s \<Longrightarrow> audit_inv enc dec t" for s t
    using audit_step_inv by blast
qed

lemma reach_codec:
  assumes "codec_ok enc dec" "reach_by (audit_init enc) (audit_step enc dec) s"
  shows "reach_by (audit_init enc) (\<lambda>s s'. codec_ok enc dec \<and> audit_step enc dec s s') s"
  using assms(2) by (induction rule: reach_by.induct) (auto intro: reach_by.intros assms(1))

section \<open>Whole turns and replays as steps\<close>

lemma drain_turn_steps:
  assumes "drain_turn (TakeRecord db_ok) (sys_audit s) = Some a" "length (inflight s) < aa_workers (sys_audit s)"
  shows "(audit_step enc dec)\<^sup>*\<^sup>* s (s\<lparr>sys_audit := a\<rparr>)"
proof -
  obtain rec rest where ch: "aa_ch (sys_audit s) = rec # rest" "a = drain_write db_ok rec ((sys_audit s)\<lparr>aa_ch := rest\<rparr>)"
    using assms(1) by (auto simp: drain_turn_def split: if_splits list.splits)
  let ?s1 = "s\<lparr>sys_audit := (sys_audit s)\<lparr>aa_ch := rest\<rparr>, inflight := inflight s @ [rec]\<rparr>"
  have "audit_step enc dec s ?s1" by (rule step_take [OF ch(1) assms(2)])
  moreover have "audit_step enc dec ?s1 (s\<lparr>sys_audit := a\<rparr>)"
    using step_write [of ?s1 "inflight s" rec "[]" enc dec db_ok] ch(2) by simp
  ultimately show ?thesis by (simp add: converse_rtranclp_into_rtranclp r_into_rtranclp)
qed

lemma replay_lines_Cons:
  "replay_lines enc dec env (line # lines) n a = (case replay_lines enc dec env [line] n a of (n1, a1) \<Rightarrow> replay_lines enc dec env lines n1 a1)"
  by (auto split: option.splits prod.splits bool.splits)

lemma replay_lines_steps:
  assumes "\<forall>rec. whole (snd (env rec))" "pending s = pre @ lines" "replay_lines enc dec env lines n (sys_audit s) = (n', a)"
  shows "(audit_step enc dec)\<^sup>*\<^sup>* s (s\<lparr>sys_audit := a, pending := pre\<rparr>)"
  using assms(2,3)
proof (induction lines arbitrary: s n)
  case (Cons line lines)
  obtain n1 a1 where one: "replay_lines enc dec env [line] n (sys_audit s) = (n1, a1)" by fastforce
  let ?s1 = "s\<lparr>sys_audit := a1, pending := pre @ lines\<rparr>"
  have "replay_lines enc dec env lines n1 (sys_audit ?s1) = (n', a)"
    using Cons.prems(2) unfolding replay_lines_Cons [of _ _ _ line lines] one by simp
  then have "(audit_step enc dec)\<^sup>*\<^sup>* ?s1 (?s1\<lparr>sys_audit := a, pending := pre\<rparr>)" by (intro Cons.IH [of _ n1]) simp_all
  moreover have "audit_step enc dec s ?s1" by (rule step_line [OF Cons.prems(1) one assms(1)])
  ultimately show ?case by (simp add: converse_rtranclp_into_rtranclp)
next
  case Nil
  then have "s\<lparr>sys_audit := a, pending := pre\<rparr> = s" by (cases s) simp
  then show ?case by simp
qed

lemma ReplaySpill_steps:
  assumes "\<forall>rec. whole (snd (env rec))" "spillPath (sys_audit s) \<noteq> []" "aa_writer (sys_audit s)" "spill_file (sys_audit s) = Some data"
    and "ReplaySpill enc dec env None trunc_ok (sys_audit s) = (n, a)"
  shows "(audit_step enc dec)\<^sup>*\<^sup>* s (s\<lparr>sys_audit := a, trunc_failed := (trunc_failed s \<or> \<not> trunc_ok)\<rparr>)"
proof -
  let ?a = "if trunc_ok then (sys_audit s)\<lparr>spill_file := Some []\<rparr> else sys_audit s"
  let ?s1 = "s\<lparr>sys_audit := ?a, pending := pending s @ split_byte CHR 0x0A data, trunc_failed := (trunc_failed s \<or> \<not> trunc_ok)\<rparr>"
  obtain k where run: "replay_lines enc dec env (split_byte CHR 0x0A data) 0 ?a = (k, a)"
    using assms(2-5) by (auto simp: ReplaySpill_def split: prod.splits)
  have "audit_step enc dec s ?s1" by (rule step_read [OF assms(2-4)])
  moreover have "(audit_step enc dec)\<^sup>*\<^sup>* ?s1 (?s1\<lparr>sys_audit := a, pending := pending s\<rparr>)"
    by (rule replay_lines_steps [OF assms(1), of ?s1 "pending s" "split_byte CHR 0x0A data" _ _ 0 k]) (use run in simp_all)
  moreover have "?s1\<lparr>sys_audit := a, pending := pending s\<rparr> = s\<lparr>sys_audit := a, trunc_failed := (trunc_failed s \<or> \<not> trunc_ok)\<rparr>"
    by (cases s) simp
  ultimately show ?thesis by (metis converse_rtranclp_into_rtranclp)
qed

section \<open>What the pipeline guarantees\<close>

text \<open>
  C28. No accepted record disappears: on every interleaving of requests, the two halves of every worker's turn, replays
  line by line and the shutdown, every accepted record, and every record whose line an earlier process left in the
  overflow file, is in the queue, with a worker, in the database, in the overflow file, among the lines a replay has
  still to handle, or among those that a failed write has dropped, each as often as it was accepted; a record appears
  more often only if a truncation of the file has failed.  A record that has been through the file counts as what is
  read back from its line.  The queue never exceeds its capacity.  The steps assume that a write to the file that fails
  leaves no part of its line, and \<open>codec_ok\<close> that a written line can be read back, to a value that
  another writing and reading keeps.
\<close>

theorem audit_conserves_records:
  assumes "codec_ok enc dec" "reach_by (audit_init enc) (audit_step enc dec) s"
  shows "length (aa_ch (sys_audit s)) \<le> aa_cap (sys_audit s) \<and>
    (\<exists>spilled replayed again. file_bytes (sys_audit s) = concat (map (line_of enc) spilled) \<and> holds_lines enc (pending s) replayed \<and>
       image_mset (canon enc dec) (mset (aa_ch (sys_audit s)) + mset (inflight s) + mset (audit_db (sys_audit s)) +
         mset (audit_lost (sys_audit s)) + mset spilled + mset replayed) = image_mset (canon enc dec) (mset (accepted s)) + again \<and>
       set_mset again \<subseteq> canon enc dec ` set (accepted s) \<and> (again \<noteq> {#} \<longrightarrow> trunc_failed s))"
  using audit.reach_inv [OF reach_codec [OF assms]] unfolding audit_inv_def accounted_def places_def holds_file_def by blast

lemma reach_enqueued:
  "reach_by (audit_init enc) (audit_step enc dec)
     \<lparr>sys_audit = (NewAsyncAudit True 1 1)\<lparr>aa_ch := [demo_record]\<rparr>, accepted = [demo_record], inflight = [], pending = [], trunc_failed = False\<rparr>"
proof -
  let ?s = "\<lparr>sys_audit = NewAsyncAudit True 1 1, accepted = [], inflight = [], pending = [], trunc_failed = False\<rparr>"
  have "NewAsyncAudit True 1 1 = (NewAsyncAudit True 1 1)\<lparr>spill_file := None\<rparr>" by (simp add: NewAsyncAudit_def)
  then have "\<exists>w q n f. ?s = \<lparr>sys_audit = (NewAsyncAudit w q n)\<lparr>spill_file := f\<rparr>, accepted = [], inflight = [], pending = [], trunc_failed = False\<rparr>"
    by metis
  then have "reach_by (audit_init enc) (audit_step enc dec) ?s"
    by (intro reach_init) (simp add: audit_init_def holds_file_def file_bytes_def NewAsyncAudit_def [of True 1 1])
  moreover have "EnqueueChecked enc Written demo_record (sys_audit ?s) = Some (True, (NewAsyncAudit True 1 1)\<lparr>aa_ch := [demo_record]\<rparr>)"
    by (simp add: EnqueueChecked_def NewAsyncAudit_def)
  ultimately show ?thesis using audit_step.step_enqueue [of enc Written demo_record ?s] by (fastforce intro: reach_step simp: whole_def)
qed

text \<open>The record is with the worker.\<close>

theorem audit_conserves_records_witness:
  "let s = \<lparr>sys_audit = (NewAsyncAudit True 1 1)\<lparr>aa_ch := []\<rparr>, accepted = [demo_record], inflight = [demo_record], pending = [], trunc_failed = False\<rparr>
   in \<exists>spilled replayed. file_bytes (sys_audit s) = concat (map (line_of demo_enc) spilled) \<and> holds_lines demo_enc (pending s) replayed \<and>
        image_mset (canon demo_enc demo_dec) (mset (aa_ch (sys_audit s)) + mset (inflight s) + mset (audit_db (sys_audit s)) +
         mset (audit_lost (sys_audit s)) + mset spilled + mset replayed) = image_mset (canon demo_enc demo_dec) (mset (accepted s))"
proof -
  let ?s = "\<lparr>sys_audit = (NewAsyncAudit True 1 1)\<lparr>aa_ch := []\<rparr>, accepted = [demo_record], inflight = [demo_record], pending = [], trunc_failed = False\<rparr>"
  let ?q = "\<lparr>sys_audit = (NewAsyncAudit True 1 1)\<lparr>aa_ch := [demo_record]\<rparr>, accepted = [demo_record], inflight = [], pending = [], trunc_failed = False\<rparr>"
  have "audit_step demo_enc demo_dec ?q ?s"
    using step_take [of ?q demo_record "[]" demo_enc demo_dec] by (simp add: NewAsyncAudit_def)
  from audit_conserves_records [OF demo_codec reach_step [OF reach_enqueued this]] show ?thesis
    unfolding Let_def by auto
qed

text \<open>
  The overflow file round-trips: when it holds the lines of some records and the database takes every write, one
  replay writes exactly what is read from these lines, in order, reports their number and leaves the file empty.
\<close>

theorem replay_delivers:
  assumes "codec_ok enc dec" "holds_file enc a recs" "spill_file a \<noteq> None" "spillPath a \<noteq> []" "aa_writer a"
    and "\<forall>rec. fst (env rec)"
  shows "ReplaySpill enc dec env None True a =
    (Inr (length recs), a\<lparr>spill_file := Some [], audit_db := audit_db a @ map (canon enc dec) recs\<rparr>)"
proof -
  have enc: "\<forall>rec \<in> set recs. enc rec \<noteq> None" using assms(2) by (simp add: holds_file_def)
  have lines: "replay_lines enc dec env (map (\<lambda>rec. the (enc rec)) rs @ [[]]) n b = (n + length rs, b\<lparr>audit_db := audit_db b @ map (canon enc dec) rs\<rparr>)"
    if "\<forall>rec \<in> set rs. enc rec \<noteq> None" for rs n b
    using that
  proof (induction rs arbitrary: n b)
    case Nil
    then show ?case by (simp add: TrimSpace_def)
  next
    case (Cons rec rs)
    then obtain l where l: "enc rec = Some l" by auto
    then have "dec l = Some (canon enc dec rec)" "TrimSpace l \<noteq> []" using assms(1) canon_line by (auto simp: codec_ok_def)
    then show ?case using Cons l assms(6) by simp
  qed
  obtain data where data: "spill_file a = Some data" using assms(3) by auto
  then have "data = concat (map (line_of enc) recs)" using assms(2) by (simp add: holds_file_def file_bytes_def)
  then show ?thesis
    using assms(4-6) enc data split_lines [OF assms(1) enc] lines [of recs 0 "a\<lparr>spill_file := Some []\<rparr>"]
    by (simp add: ReplaySpill_def)
qed

theorem replay_delivers_witness:
  "ReplaySpill demo_enc demo_dec (\<lambda>_. (True, Written)) None True
     ((NewAsyncAudit True 1 1)\<lparr>spillPath := ''f'', spill_file := Some (''{}'' @ [CHR 0x0A])\<rparr>) =
   (Inr 1, (NewAsyncAudit True 1 1)\<lparr>spillPath := ''f'', spill_file := Some [], audit_db := [demo_record]\<rparr>)"
  using replay_delivers [OF demo_codec, of "(NewAsyncAudit True 1 1)\<lparr>spillPath := ''f'', spill_file := Some (''{}'' @ [CHR 0x0A])\<rparr>"
      "[demo_record]" "\<lambda>_. (True, Written)"]
  by (simp add: holds_file_def file_bytes_def line_of_def demo_enc_def demo_dec_def canon_def NewAsyncAudit_def)

text \<open>
  A torn line takes the next record with it: the record is accepted, its line is appended to the torn one, and the
  replay skips both without a trace.
\<close>

lemma torn_line_loses_next:
  assumes "codec_ok enc dec" "enc r0 = Some b0" "enc rec = Some b" "0 < n" "n < length b0" "dec (take n b0 @ b) = None"
    and "spillPath a \<noteq> []" "aa_writer a" "spill_file a = None"
  shows "\<exists>a1 a2 a3. spill enc (Torn n) r0 a = (False, a1) \<and> spill enc Written rec a1 = (True, a2) \<and>
    ReplaySpill enc dec env None True a2 = (Inr 0, a3) \<and> audit_db a3 = audit_db a \<and> audit_lost a3 = audit_lost a \<and> file_bytes a3 = []"
proof -
  have b: "CHR 0x0A \<notin> set b0" "CHR 0x0A \<notin> set b" using assms(1-3) by (auto simp: codec_ok_def)
  then have nl: "CHR 0x0A \<notin> set (take n b0 @ b)" by (auto dest: in_set_takeD)
  have split: "split_byte CHR 0x0A (take n b0 @ b @ [CHR 0x0A]) = [take n b0 @ b, []]"
    using split_byte_append [OF nl, of "[]"] by simp
  show ?thesis
    using assms split by (auto simp: spill_def ReplaySpill_def Let_def file_bytes_def TrimSpace_def [of "[]"] split: option.splits)
qed

lemma reach_steps: "reach_by ini step s \<Longrightarrow> step\<^sup>*\<^sup>* s t \<Longrightarrow> reach_by ini step t"
  by (rotate_tac, induction rule: rtranclp_induct) (auto intro: reach_step)

text \<open>
  Accepted is not persisted.  A worker ignores the result of its write, so a record taken from the queue is lost
  when the database refuses it, in every mode and with a working disk; and since \<open>Stop\<close> cancels the workers before they
  drain the queue, they may return with the record still in it.
\<close>

theorem accepted_record_can_be_lost:
  "(\<exists>s. reach_by (audit_init enc) (audit_step enc dec) s \<and> accepted s = [demo_record] \<and>
      aa_mode (sys_audit s) = AuditFailClosed \<and> audit_lost (sys_audit s) = [demo_record]) \<and>
   (\<exists>s. reach_by (audit_init enc) (audit_step enc dec) s \<and> accepted s = [demo_record] \<and>
      aa_workers (sys_audit s) = 0 \<and> aa_ch (sys_audit s) = [demo_record] \<and> audit_db (sys_audit s) = [])"
proof -
  let ?hold = "\<lambda>f a. \<lparr>sys_audit = a, accepted = [demo_record], inflight = f, pending = [], trunc_failed = False\<rparr>"
  let ?sys = "?hold []"
  define a where "a = (NewAsyncAudit True 1 1)\<lparr>aa_ch := [demo_record]\<rparr>"
  define d where "d = EnableDurability AuditFailClosed ''f'' a"
  have r0: "reach_by (audit_init enc) (audit_step enc dec) (?sys a)" unfolding a_def by (rule reach_enqueued)
  have "audit_step enc dec (?sys a) (?sys d)"
    using audit_step.step_durability [of "?sys a" enc dec AuditFailClosed "''f''"] by (simp add: d_def a_def NewAsyncAudit_def)
  then have r1: "reach_by (audit_init enc) (audit_step enc dec) (?sys d)" by (rule reach_step [OF r0])
  have "drain_turn (TakeRecord False) (sys_audit (?sys d)) = Some (d\<lparr>aa_ch := [], audit_lost := [demo_record]\<rparr>)"
    by (simp add: drain_turn_def drain_write_def EnableDurability_def NewAsyncAudit_def d_def a_def)
  then have "(audit_step enc dec)\<^sup>*\<^sup>* (?sys d) ((?sys d)\<lparr>sys_audit := d\<lparr>aa_ch := [], audit_lost := [demo_record]\<rparr>\<rparr>)"
    by (rule drain_turn_steps) (simp add: EnableDurability_def NewAsyncAudit_def d_def a_def)
  then have lost: "reach_by (audit_init enc) (audit_step enc dec) (?sys (d\<lparr>aa_ch := [], audit_lost := [demo_record]\<rparr>))"
    using reach_steps [OF r1] by simp
  have "audit_step enc dec (?sys a) (?sys (Stop a))" using audit_step.step_stop [of enc dec "?sys a"] by simp
  from reach_step [OF r0 this] have r2: "reach_by (audit_init enc) (audit_step enc dec) (?sys (Stop a))" .
  have "drain_turn SeeDone (Stop a) = Some ((Stop a)\<lparr>aa_workers := 0\<rparr>)"
    by (simp add: drain_turn_def Stop_def NewAsyncAudit_def a_def)
  then have "audit_step enc dec (?sys (Stop a)) (?sys ((Stop a)\<lparr>aa_workers := 0\<rparr>))"
    using audit_step.step_done [of "?sys (Stop a)" _ enc dec] by (simp add: Stop_def NewAsyncAudit_def a_def)
  from reach_step [OF r2 this] have left: "reach_by (audit_init enc) (audit_step enc dec) (?sys ((Stop a)\<lparr>aa_workers := 0\<rparr>))" .
  show ?thesis
  proof (intro conjI)
    show "\<exists>s. reach_by (audit_init enc) (audit_step enc dec) s \<and> accepted s = [demo_record] \<and>
      aa_mode (sys_audit s) = AuditFailClosed \<and> audit_lost (sys_audit s) = [demo_record]"
      by (rule exI [of _ "?sys (d\<lparr>aa_ch := [], audit_lost := [demo_record]\<rparr>)"])
        (simp add: lost, simp add: d_def EnableDurability_def)
    show "\<exists>s. reach_by (audit_init enc) (audit_step enc dec) s \<and> accepted s = [demo_record] \<and>
      aa_workers (sys_audit s) = 0 \<and> aa_ch (sys_audit s) = [demo_record] \<and> audit_db (sys_audit s) = []"
      by (rule exI [of _ "?sys ((Stop a)\<lparr>aa_workers := 0\<rparr>)"])
        (simp add: left, simp add: Stop_def a_def NewAsyncAudit_def)
  qed
qed

end
