(* ===== verification/DecisionPoint.thy ===== *)
theory DecisionPoint
  imports AgenticPolicy Resolvers AuditPipeline
begin

text \<open>
  The policy decision point, \<^verbatim>\<open>deepintshield_server/framework/agentic/decision_cache.go\<close> and \<^verbatim>\<open>decide.go\<close>: the decision
  cache over the third-party cache \<open>theine\<close>, the runtime with its loaders, and \<open>Decide\<close> from enrichment through cache,
  early denials, policy evaluation, shadow mode and audit.  The cache library is a record of functions, an argument of
  every definition that uses it, with what its documentation promises in \<open>theine_ok\<close>.  The readings of the clock, the
  random decision id and the standard-library functions that are parameters come in one record, \<open>decide_env\<close>.  \<open>None\<close> as
  the result of \<open>Decide\<close> is the panic of a send on a stopped audit queue.
\<close>

section \<open>The decision cache\<close>

record 'c theine =
  th_Get :: "'c \<Rightarrow> int \<Rightarrow> string \<Rightarrow> Decision option"
  th_SetWithTTL :: "'c \<Rightarrow> int \<Rightarrow> string \<Rightarrow> Decision \<Rightarrow> int \<Rightarrow> 'c"
  th_Keys :: "'c \<Rightarrow> string list"
  th_Delete :: "'c \<Rightarrow> string \<Rightarrow> 'c"
  th_Len :: "'c \<Rightarrow> nat"

record 'c DecisionCache =
  dc_cache :: "'c option"
  dc_hits :: nat
  dc_misses :: nat

definition NewDecisionCache :: "(int \<Rightarrow> 'c option) \<Rightarrow> int \<Rightarrow> 'c DecisionCache" where
  "NewDecisionCache build maxSize =
     \<lparr>dc_cache = (if maxSize \<le> 0 then None else build maxSize), dc_hits = 0, dc_misses = 0\<rparr>"

definition cache_Get :: "'c theine \<Rightarrow> int \<Rightarrow> string \<Rightarrow> 'c DecisionCache \<Rightarrow> Decision option \<times> 'c DecisionCache" where
  "cache_Get T now key c =
     (case dc_cache c of
        None \<Rightarrow> (None, c)
      | Some th \<Rightarrow>
          (case th_Get T th now key of
             None \<Rightarrow> (None, c\<lparr>dc_misses := dc_misses c + 1\<rparr>)
           | Some d \<Rightarrow> (Some (d\<lparr>CacheHit := True\<rparr>), c\<lparr>dc_hits := dc_hits c + 1\<rparr>)))"

definition cache_Put :: "'c theine \<Rightarrow> int \<Rightarrow> string \<Rightarrow> Decision \<Rightarrow> int \<Rightarrow> 'c DecisionCache \<Rightarrow> 'c DecisionCache" where
  "cache_Put T now key d ttl c =
     (case dc_cache c of
        None \<Rightarrow> c
      | Some th \<Rightarrow> c\<lparr>dc_cache := Some (th_SetWithTTL T th now key d (if ttl \<le> 0 then 30 * 10 ^ 9 else ttl))\<rparr>)"

definition cache_InvalidateTenant :: "'c theine \<Rightarrow> string \<Rightarrow> 'c DecisionCache \<Rightarrow> 'c DecisionCache" where
  "cache_InvalidateTenant T tenant c =
     (case dc_cache c of
        None \<Rightarrow> c
      | Some th \<Rightarrow> c\<lparr>dc_cache := Some (fold (\<lambda>k th. th_Delete T th k) (th_Keys T th) th)\<rparr>)"

record CacheStats =
  cs_Hits :: nat
  cs_Misses :: nat
  cs_Size :: nat

definition cache_Stats :: "'c theine \<Rightarrow> 'c DecisionCache \<Rightarrow> CacheStats" where
  "cache_Stats T c =
     \<lparr>cs_Hits = dc_hits c, cs_Misses = dc_misses c, cs_Size = (case dc_cache c of None \<Rightarrow> 0 | Some th \<Rightarrow> th_Len T th)\<rparr>"

text \<open>
  The documented behaviour of the library, stated on what the cache holds: an entry and the time it expires.  A lookup
  returns only held entries that have not expired; a write and a deletion change what is held at their key, and may
  evict other keys but never add one; the keys of a range include every held key.
\<close>

definition theine_ok :: "'c theine \<Rightarrow> ('c \<Rightarrow> string \<rightharpoonup> Decision \<times> int) \<Rightarrow> bool" where
  "theine_ok T held \<longleftrightarrow>
     (\<forall>th now key d. th_Get T th now key = Some d \<longrightarrow> (\<exists>x. held th key = Some (d, x) \<and> now < x)) \<and>
     (\<forall>th now key d ttl. held (th_SetWithTTL T th now key d ttl) \<subseteq>\<^sub>m (held th)(key \<mapsto> (d, now + ttl))) \<and>
     (\<forall>th key. held (th_Delete T th key) \<subseteq>\<^sub>m (held th)(key := None)) \<and>
     (\<forall>th. dom (held th) \<subseteq> set (th_Keys T th))"

section \<open>The runtime\<close>

record ToolTier =
  Sensitivity :: string
  FailPosture :: string
  RevocationPath :: string
  tier_Obligations :: "string list"
  Enforce :: bool
  tier_RecoveryCost :: string
  ActionClass :: string
  ArgsSchema :: "(string \<times> json) list"
  tier_IntegrityPosture :: IntegrityPosture
  PinnedFingerprint :: string

definition zero_ToolTier :: ToolTier where
  "zero_ToolTier = \<lparr>Sensitivity = [], FailPosture = [], RevocationPath = [], tier_Obligations = [], Enforce = False,
     tier_RecoveryCost = [], ActionClass = [], ArgsSchema = [], tier_IntegrityPosture = [], PinnedFingerprint = []\<rparr>"

text \<open>The sink: none, the pipeline of the previous theory, or one that only has \<open>Enqueue\<close>.\<close>

datatype AuditSink = NoSink | AsyncSink AsyncAudit | PlainSink "AuditRecord list"

record 'c Runtime =
  policySets :: "string \<rightharpoonup> PolicySet"
  toolTiering :: "string \<rightharpoonup> ToolTier"
  enforcementMode :: "string \<rightharpoonup> EnforcementMode"
  timeSensitive :: "string \<rightharpoonup> bool"
  rt_cache :: "'c DecisionCache"
  auditSink :: AuditSink
  auditMode :: AuditMode
  revocationSLA :: int
  vkResolver :: "VKResolver option"
  policyTargets :: "PolicyTargetResolver option"

definition NewRuntime :: "(int \<Rightarrow> 'c option) \<Rightarrow> int \<Rightarrow> AuditSink \<Rightarrow> int \<Rightarrow> 'c Runtime" where
  "NewRuntime build cacheSize sink sla =
     \<lparr>policySets = Map.empty, toolTiering = Map.empty, enforcementMode = Map.empty, timeSensitive = Map.empty,
      rt_cache = NewDecisionCache build cacheSize, auditSink = sink, auditMode = [],
      revocationSLA = (if sla \<le> 0 then 30 * 10 ^ 9 else sla), vkResolver = None, policyTargets = None\<rparr>"

definition SetAuditMode :: "AuditMode \<Rightarrow> 'c Runtime \<Rightarrow> 'c Runtime" where
  "SetAuditMode mode r = r\<lparr>auditMode := mode\<rparr>"

definition SetVKResolver :: "VKResolver option \<Rightarrow> 'c Runtime \<Rightarrow> 'c Runtime" where
  "SetVKResolver resolver r = r\<lparr>vkResolver := resolver\<rparr>"

definition SetPolicyTargetResolver :: "PolicyTargetResolver option \<Rightarrow> 'c Runtime \<Rightarrow> 'c Runtime" where
  "SetPolicyTargetResolver resolver r = r\<lparr>policyTargets := resolver\<rparr>"

definition uses_time :: "PolicySet \<Rightarrow> bool" where
  "uses_time pset \<longleftrightarrow> list_ex (\<lambda>p. list_ex (\<lambda>c. EqualFold (TrimSpace (Field c)) ''time_of_day'') (Conditions p)) (Policies pset)"

definition LoadPolicySet :: "string \<Rightarrow> PolicySet \<Rightarrow> 'c Runtime \<Rightarrow> 'c Runtime" where
  "LoadPolicySet tenant pset r =
     r\<lparr>policySets := (policySets r)(tenant \<mapsto> pset), timeSensitive := (timeSensitive r)(tenant \<mapsto> uses_time pset)\<rparr>"

definition isTimeSensitive :: "string \<Rightarrow> 'c Runtime \<Rightarrow> bool" where
  "isTimeSensitive tenant r = (case timeSensitive r tenant of Some b \<Rightarrow> b | None \<Rightarrow> False)"

definition LoadToolTiering :: "(string \<rightharpoonup> ToolTier) \<Rightarrow> 'c Runtime \<Rightarrow> 'c Runtime" where
  "LoadToolTiering tiers r = r\<lparr>toolTiering := tiers\<rparr>"

definition SetEnforcementMode :: "string \<Rightarrow> string \<Rightarrow> EnforcementMode \<Rightarrow> 'c Runtime \<Rightarrow> 'c Runtime" where
  "SetEnforcementMode tenant workspace mode r =
     r\<lparr>enforcementMode := (enforcementMode r)(tenant @ ''|'' @ workspace \<mapsto> mode)\<rparr>"

definition GetEnforcementMode :: "string \<Rightarrow> string \<Rightarrow> 'c Runtime \<Rightarrow> EnforcementMode" where
  "GetEnforcementMode tenant workspace r =
     (case enforcementMode r (tenant @ ''|'' @ workspace) of Some mode \<Rightarrow> mode | None \<Rightarrow> EnforcementShadow)"

definition InvalidateTenant :: "'c theine \<Rightarrow> string \<Rightarrow> 'c Runtime \<Rightarrow> 'c Runtime" where
  "InvalidateTenant T tenant r = r\<lparr>rt_cache := cache_InvalidateTenant T tenant (rt_cache r)\<rparr>"

section \<open>Auditing a decision\<close>

record decide_env =
  env_sha :: "string \<Rightarrow> byte list"
  env_marshal :: "json \<Rightarrow> string option"
  env_pf :: "string \<Rightarrow> float64 option"
  env_enc :: "AuditRecord \<Rightarrow> byte list option"
  env_disk :: disk_write
  env_start :: int
  env_hour :: int
  env_now :: int
  env_latency :: int
  env_id :: string

definition audit_record :: "decide_env \<Rightarrow> DelegationContext \<Rightarrow> Decision \<Rightarrow> string \<Rightarrow> AuditRecord" where
  "audit_record e dc d tierRecoveryCost =
     \<lparr>ar_DecisionID = DecisionID d, ar_Tenant = Tenant dc, ar_Workspace = Workspace dc, ar_VirtualKey = VirtualKey dc,
      ar_SessionID = SessionID dc, ar_Principal = Principal dc, ar_ActorChain = ActorChain dc,
      ar_IdentityType = IdentityType dc, ar_ProviderID = ProviderID dc, ar_Tool = Tool dc, ar_ArgsDigest = ArgsDigest dc,
      ar_ScopeHash = [], ar_Verdict = dec_Verdict d, ar_Reason = dec_Reason d, ar_Obligations = dec_Obligations d,
      ar_PolicyID = dec_PolicyID d, ar_PolicyVersion = PolicyVersion dc,
      ar_RecoveryCost = (if RecoveryCost (dcContext dc) = [] then tierRecoveryCost else RecoveryCost (dcContext dc)),
      ar_RAGProvenance = RAGProvenance (dcContext dc), ar_CostUsed = CostUsed (dcContext dc), ar_LatencyUS = LatencyUS d,
      ar_CacheHit = CacheHit d, ar_Mode = dec_Mode d, ar_CrossTenant = CrossTenant dc,
      ar_Timestamp = (if dec_Timestamp d = 0 then env_now e else dec_Timestamp d)\<rparr>"

definition maybeAudit :: "decide_env \<Rightarrow> DelegationContext \<Rightarrow> Decision \<Rightarrow> string \<Rightarrow> AuditSink \<Rightarrow> (bool \<times> AuditSink) option" where
  "maybeAudit e dc d tierRecoveryCost sink =
     (case sink of
        NoSink \<Rightarrow> Some (True, NoSink)
      | AsyncSink a \<Rightarrow>
          map_option (\<lambda>(ok, a'). (ok, AsyncSink a'))
            (EnqueueChecked (env_enc e) (env_disk e) (audit_record e dc d tierRecoveryCost) a)
      | PlainSink recs \<Rightarrow> Some (True, PlainSink (recs @ [audit_record e dc d tierRecoveryCost])))"

definition finalize ::
  "'c theine \<Rightarrow> decide_env \<Rightarrow> DelegationContext \<Rightarrow> Decision \<Rightarrow> string \<Rightarrow> string \<Rightarrow> 'c Runtime \<Rightarrow> (Decision \<times> 'c Runtime) option" where
  "finalize T e dc d key tierRecoveryCost r =
     (case maybeAudit e dc d tierRecoveryCost (auditSink r) of
        None \<Rightarrow> None
      | Some (ok, sink') \<Rightarrow>
          (let r' = r\<lparr>auditSink := sink'\<rparr> in
           if auditMode r = AuditFailClosed \<and> \<not> ok \<and> dec_Verdict d \<noteq> VerdictDeny
           then Some (d\<lparr>dec_Verdict := VerdictDeny, dec_Reason := ''audit unavailable - denied (fail-closed audit mode)'',
                        dec_Obligations := []\<rparr>, r')
           else Some (d, r'\<lparr>rt_cache := cache_Put T (env_now e) key d (revocationSLA r) (rt_cache r')\<rparr>)))"

section \<open>Deciding\<close>

definition Itoa :: "int \<Rightarrow> string" where
  "Itoa n = (if n < 0 then ''-'' @ dec_digits (nat (- n)) else dec_digits (nat n))"

definition resolve_scope :: "VKResolver option \<Rightarrow> string \<Rightarrow> VKScope option" where
  "resolve_scope res vk =
     (case res of
        None \<Rightarrow> None
      | Some v \<Rightarrow> (if vk = [] then None
                   else (case Lookup v vk of Some s \<Rightarrow> Some s | None \<Rightarrow> LookupByValue v vk)))"

definition vk_handle :: "string \<Rightarrow> string" where
  "vk_handle vk = (if length vk > 8 then drop (length vk - 8) vk else vk)"

text \<open>The enrichment from the scope of the virtual key: fields the caller left empty are filled.\<close>

definition enrich :: "VKResolver option \<Rightarrow> DelegationContext \<Rightarrow> DelegationContext" where
  "enrich res dc =
     (case resolve_scope res (VirtualKey dc) of
        None \<Rightarrow> dc
      | Some s \<Rightarrow>
          (if \<not> AgentConfigured s then dc
           else (let principal = (if Principal dc = [] then ''agent:'' @ vk_handle (VirtualKey dc) else Principal dc);
                     cx = dcContext dc in
                 dc\<lparr>Tenant := (if Tenant dc = [] then vk_Tenant s else Tenant dc),
                    Workspace := (if Workspace dc = [] then vk_Workspace s else Workspace dc),
                    ProviderID := (if ProviderID dc = [] \<and> IdentityProviderID s \<noteq> [] then IdentityProviderID s else ProviderID dc),
                    Principal := principal,
                    ActorChain := (if ActorChain dc = [] then [principal] else ActorChain dc),
                    IdentityType := (if IdentityType dc = [] then ''application'' else IdentityType dc),
                    dcContext := cx\<lparr>
                      AgentRiskLevel := (if AgentRiskLevel cx = [] \<and> vk_AgentRiskLevel s \<noteq> [] then vk_AgentRiskLevel s else AgentRiskLevel cx),
                      AgentCapabilities := (if AgentCapabilities cx = [] \<and> vk_AgentCapabilities s \<noteq> [] then vk_AgentCapabilities s
                                            else AgentCapabilities cx),
                      Namespace := (if Namespace cx = [] \<and> AgentNamespace s \<noteq> [] then AgentNamespace s else Namespace cx)\<rparr>\<rparr>)))"

definition clock_fields :: "decide_env \<Rightarrow> 'c Runtime \<Rightarrow> DelegationContext \<Rightarrow> DelegationContext" where
  "clock_fields e r dc =
     (let cx = (dcContext dc)\<lparr>HourOfDay := env_hour e\<rparr> in
      dc\<lparr>dcContext := cx\<lparr>DelegationDepth := (if DelegationDepth cx = 0 then int (length (ActorChain dc)) else DelegationDepth cx)\<rparr>,
         CacheBucket := (if CacheBucket dc = [] \<and> isTimeSensitive (Tenant dc) r then ''h'' @ Itoa (env_hour e) else CacheBucket dc)\<rparr>)"

definition tier_fields :: "decide_env \<Rightarrow> ToolTier \<Rightarrow> DelegationContext \<Rightarrow> DelegationContext" where
  "tier_fields e tier dc =
     (let cx = dcContext dc in
      dc\<lparr>dcContext := cx\<lparr>
        DataClass := (if DataClass cx = [] \<and> Sensitivity tier \<noteq> [] then Sensitivity tier else DataClass cx),
        FingerprintDrift := (if PinnedFingerprint tier \<noteq> [] \<and>
            PinnedFingerprint tier \<noteq> ToolFingerprint (env_sha e) (env_marshal e) (Tool dc) (ActionClass tier) (ArgsSchema tier) []
          then True else FingerprintDrift cx)\<rparr>\<rparr>)"

fun unique_loop :: "string list \<Rightarrow> string list \<Rightarrow> string list \<Rightarrow> string list" where
  "unique_loop seen out [] = out"
| "unique_loop seen out (v0 # vs) =
     (let v = TrimSpace v0 in
      if v = [] then unique_loop seen out vs
      else if v \<in> set seen then unique_loop seen out vs
      else unique_loop (v # seen) (out @ [v]) vs)"

definition uniqueAppend :: "string list \<Rightarrow> string list \<Rightarrow> string list" where
  "uniqueAppend dst src = unique_loop [] [] (dst @ src)"

definition caller_set :: "'c Runtime \<Rightarrow> DelegationContext \<Rightarrow> PolicySet \<Rightarrow> PolicySet" where
  "caller_set r dc pset =
     (case policyTargets r of
        None \<Rightarrow> pset
      | Some targets \<Rightarrow>
          (let (teamID, memberID) = (case resolve_scope (vkResolver r) (VirtualKey dc) of
                                       None \<Rightarrow> ([], []) | Some s \<Rightarrow> (TeamID s, CustomerID s))
           in filterPolicySetByIDs pset (Some (Resolve targets (VirtualKey dc) teamID memberID))))"

definition early_deny :: "decide_env \<Rightarrow> EnforcementMode \<Rightarrow> string \<Rightarrow> Decision" where
  "early_deny e mode reason =
     zero_Decision\<lparr>dec_Verdict := VerdictDeny, dec_Reason := reason, DecisionID := ''d-'' @ env_id e, dec_Mode := mode,
       dec_Timestamp := env_start e, LatencyUS := env_latency e\<rparr>"

text \<open>Steps 3 to 6 on a cache miss: evaluation, obligations, shadow mode and the fail-closed default.\<close>

definition policy_decision ::
  "decide_env \<Rightarrow> 'c Runtime \<Rightarrow> PolicySet \<Rightarrow> ToolTier \<Rightarrow> EnforcementMode \<Rightarrow> DelegationContext \<Rightarrow> Decision" where
  "policy_decision e r pset tier mode dc =
     (let d0 = Evaluate (env_pf e) (env_now e) (caller_set r dc pset) dc;
          d1 = d0\<lparr>DecisionID := ''d-'' @ env_id e, dec_Mode := mode, dec_Timestamp := env_start e\<rparr>;
          d2 = (if tier_Obligations tier \<noteq> [] then d1\<lparr>dec_Obligations := uniqueAppend (dec_Obligations d1) (tier_Obligations tier)\<rparr> else d1);
          d3 = (if mode = EnforcementShadow \<and> dec_Verdict d2 \<noteq> VerdictAllow
                then d2\<lparr>WouldBlock := True, dec_Verdict := VerdictAllow\<rparr> else d2);
          d4 = (if Policies pset = [] \<and> Sensitivity tier = ''high''
                then d3\<lparr>dec_Verdict := VerdictDeny, dec_Reason := ''fail-closed: no policy set for high-sensitivity tool''\<rparr>
                else d3)
      in d4\<lparr>LatencyUS := env_latency e\<rparr>)"

definition zero_PolicySet :: PolicySet where
  "zero_PolicySet = \<lparr>Policies = [], ps_Version = 0, Rego = None\<rparr>"

definition decide_miss :: "'c theine \<Rightarrow> decide_env \<Rightarrow> DelegationContext \<Rightarrow> string \<Rightarrow> 'c Runtime \<Rightarrow> (Decision \<times> 'c Runtime) option" where
  "decide_miss T e dc2 key r =
     (let pset = (case policySets r (Tenant dc2) of Some s \<Rightarrow> s | None \<Rightarrow> zero_PolicySet);
          tier = (case toolTiering r (Tool dc2) of Some t \<Rightarrow> t | None \<Rightarrow> zero_ToolTier);
          mode0 = (case enforcementMode r (Tenant dc2 @ ''|'' @ Workspace dc2) of Some m \<Rightarrow> m | None \<Rightarrow> []);
          dc = tier_fields e tier dc2;
          mode = (if mode0 = [] then EnforcementShadow else mode0)
      in if AllowedTools dc \<noteq> [] \<and> \<not> containsCI (AllowedTools dc) (Tool dc)
         then finalize T e dc (early_deny e mode ''tool not in virtual key allow-list'') key (tier_RecoveryCost tier) r
         else if CrossTenant dc
         then finalize T e dc (early_deny e mode ''cross-tenant delegation not allowed'') key (tier_RecoveryCost tier) r
         else finalize T e dc (policy_decision e r pset tier mode dc) key (tier_RecoveryCost tier) r)"

definition prepare_call :: "decide_env \<Rightarrow> 'c Runtime \<Rightarrow> DelegationContext \<Rightarrow> DelegationContext" where
  "prepare_call e r dc = clock_fields e r (enrich (vkResolver r) dc)"

definition Decide :: "'c theine \<Rightarrow> decide_env \<Rightarrow> DelegationContext \<Rightarrow> 'c Runtime \<Rightarrow> (Decision \<times> 'c Runtime) option" where
  "Decide T e dc r =
     (let dc2 = prepare_call e r dc; key = CacheKey (env_sha e) dc2 in
      case cache_Get T (env_start e) key (rt_cache r) of
        (Some cached, c) \<Rightarrow> Some (cached\<lparr>LatencyUS := env_latency e\<rparr>, r\<lparr>rt_cache := c\<rparr>)
      | (None, c) \<Rightarrow> decide_miss T e dc2 key (r\<lparr>rt_cache := c\<rparr>))"

section \<open>Reading a decision\<close>

text \<open>A call that is not answered from the cache, the tier of its tool and the policy set of its tenant.\<close>

definition misses :: "'c theine \<Rightarrow> decide_env \<Rightarrow> DelegationContext \<Rightarrow> 'c Runtime \<Rightarrow> bool" where
  "misses T e dc r \<longleftrightarrow> fst (cache_Get T (env_start e) (CacheKey (env_sha e) (prepare_call e r dc)) (rt_cache r)) = None"

definition call_tier :: "DelegationContext \<Rightarrow> 'c Runtime \<Rightarrow> ToolTier" where
  "call_tier dc r = (case toolTiering r (Tool dc) of Some t \<Rightarrow> t | None \<Rightarrow> zero_ToolTier)"

definition call_set :: "DelegationContext \<Rightarrow> 'c Runtime \<Rightarrow> PolicySet" where
  "call_set dc r = (case policySets r (Tenant dc) of Some s \<Rightarrow> s | None \<Rightarrow> zero_PolicySet)"

definition call_mode :: "DelegationContext \<Rightarrow> 'c Runtime \<Rightarrow> EnforcementMode" where
  "call_mode dc r =
     (case enforcementMode r (Tenant dc @ ''|'' @ Workspace dc) of Some m \<Rightarrow> (if m = [] then EnforcementShadow else m) | None \<Rightarrow> EnforcementShadow)"

definition full_context :: "decide_env \<Rightarrow> 'c Runtime \<Rightarrow> DelegationContext \<Rightarrow> DelegationContext" where
  "full_context e r dc = tier_fields e (call_tier (prepare_call e r dc) r) (prepare_call e r dc)"

definition denied_early :: "DelegationContext \<Rightarrow> bool" where
  "denied_early dc \<longleftrightarrow> CrossTenant dc \<or> AllowedTools dc \<noteq> [] \<and> \<not> containsCI (AllowedTools dc) (Tool dc)"

text \<open>The decision that is audited on a miss, before the audit had its say.\<close>

definition proposed :: "decide_env \<Rightarrow> 'c Runtime \<Rightarrow> DelegationContext \<Rightarrow> Decision" where
  "proposed e r dc =
     (let dc2 = prepare_call e r dc; dc3 = full_context e r dc; mode = call_mode dc2 r in
      if AllowedTools dc \<noteq> [] \<and> \<not> containsCI (AllowedTools dc) (Tool dc) then early_deny e mode ''tool not in virtual key allow-list''
      else if CrossTenant dc then early_deny e mode ''cross-tenant delegation not allowed''
      else policy_decision e r (call_set dc2 r) (call_tier dc2 r) mode dc3)"

text \<open>A cache over an association list, a runtime and an environment, for the examples.\<close>

definition alist_theine :: "(string \<times> Decision \<times> int) list theine" where
  "alist_theine = \<lparr>th_Get = (\<lambda>m now k. case map_of m k of Some (d, x) \<Rightarrow> (if now < x then Some d else None) | None \<Rightarrow> None),
     th_SetWithTTL = (\<lambda>m now k d ttl. AList.update k (d, now + ttl) m), th_Keys = map fst, th_Delete = (\<lambda>m k. AList.delete k m),
     th_Len = length\<rparr>"

definition demo_runtime :: "(string \<times> Decision \<times> int) list Runtime" where
  "demo_runtime = LoadPolicySet [] \<lparr>Policies = [demo_policy], ps_Version = 1, Rego = None\<rparr>
     (SetEnforcementMode [] [] EnforcementEnforce (NewRuntime (\<lambda>_. Some []) 10 NoSink 0))"

definition demo_shadow :: "(string \<times> Decision \<times> int) list Runtime" where
  "demo_shadow = NewRuntime (\<lambda>_. Some []) 10 NoSink 0"

text \<open>A runtime whose fail-closed audit can take one record.\<close>

definition demo_audited :: "(string \<times> Decision \<times> int) list Runtime" where
  "demo_audited = SetAuditMode AuditFailClosed (NewRuntime (\<lambda>_. Some []) 10 (AsyncSink (NewAsyncAudit True 1 1)) 0)"

definition demo_env :: decide_env where
  "demo_env = \<lparr>env_sha = id, env_marshal = (\<lambda>_. None), env_pf = (\<lambda>_. None), env_enc = demo_enc, env_disk = Torn 0,
     env_start = 1, env_hour = 9, env_now = 2, env_latency = 0, env_id = ''1''\<rparr>"

section \<open>Facts on deciding\<close>

lemma enrich_keeps [simp]:
  "CrossTenant (enrich res dc) = CrossTenant dc" "AllowedTools (enrich res dc) = AllowedTools dc" "Tool (enrich res dc) = Tool dc"
  "VirtualKey (enrich res dc) = VirtualKey dc" "RecoveryCost (dcContext (enrich res dc)) = RecoveryCost (dcContext dc)"
  by (simp_all add: enrich_def Let_def split: option.splits)

lemma clock_keeps [simp]:
  "CrossTenant (clock_fields e r dc) = CrossTenant dc" "AllowedTools (clock_fields e r dc) = AllowedTools dc"
  "Tool (clock_fields e r dc) = Tool dc" "VirtualKey (clock_fields e r dc) = VirtualKey dc"
  "RecoveryCost (dcContext (clock_fields e r dc)) = RecoveryCost (dcContext dc)"
  by (simp_all add: clock_fields_def Let_def)

lemma tier_keeps [simp]:
  "CrossTenant (tier_fields e t dc) = CrossTenant dc" "AllowedTools (tier_fields e t dc) = AllowedTools dc"
  "Tool (tier_fields e t dc) = Tool dc" "VirtualKey (tier_fields e t dc) = VirtualKey dc"
  "RecoveryCost (dcContext (tier_fields e t dc)) = RecoveryCost (dcContext dc)"
  by (simp_all add: tier_fields_def Let_def)

lemma prepare_keeps [simp]:
  "CrossTenant (prepare_call e r dc) = CrossTenant dc" "AllowedTools (prepare_call e r dc) = AllowedTools dc"
  "Tool (prepare_call e r dc) = Tool dc" "VirtualKey (prepare_call e r dc) = VirtualKey dc"
  by (simp_all add: prepare_call_def)

lemma full_keeps [simp]:
  "CrossTenant (full_context e r dc) = CrossTenant dc" "AllowedTools (full_context e r dc) = AllowedTools dc"
  "Tool (full_context e r dc) = Tool dc" "VirtualKey (full_context e r dc) = VirtualKey dc"
  "RecoveryCost (dcContext (full_context e r dc)) = RecoveryCost (dcContext dc)"
  by (simp_all add: full_context_def prepare_call_def)

lemma caller_set_cache [simp]: "caller_set (r\<lparr>rt_cache := c\<rparr>) dc s = caller_set r dc s"
  by (cases "policyTargets r") (simp_all add: caller_set_def)

lemma policy_decision_cache [simp]: "policy_decision e (r\<lparr>rt_cache := c\<rparr>) s t m dc = policy_decision e r s t m dc"
  by (simp add: policy_decision_def)

text \<open>On a miss, \<open>Decide\<close> is the audit and caching of the proposed decision.\<close>

lemma Decide_miss:
  assumes "misses T e dc r"
  shows "\<exists>c. Decide T e dc r =
    finalize T e (full_context e r dc) (proposed e r dc) (CacheKey (env_sha e) (prepare_call e r dc))
      (tier_RecoveryCost (call_tier (prepare_call e r dc) r)) (r\<lparr>rt_cache := c\<rparr>)"
proof -
  let ?g = "cache_Get T (env_start e) (CacheKey (env_sha e) (prepare_call e r dc)) (rt_cache r)"
  obtain c where g: "?g = (None, c)" using assms by (cases ?g) (auto simp: misses_def)
  have m: "(if (case enforcementMode r k of Some m \<Rightarrow> m | None \<Rightarrow> []) = [] then EnforcementShadow
       else (case enforcementMode r k of Some m \<Rightarrow> m | None \<Rightarrow> [])) =
      (case enforcementMode r k of Some m \<Rightarrow> (if m = [] then EnforcementShadow else m) | None \<Rightarrow> EnforcementShadow)" for k
    by (simp split: option.splits)
  show ?thesis
    using g
    by (intro exI [of _ c])
      (simp add: Decide_def decide_miss_def Let_def m proposed_def full_context_def call_tier_def call_set_def call_mode_def)
qed

lemma finalize_cases:
  assumes "finalize T e dc d key rc r = Some (d', r')"
  obtains (kept) "d' = d" | (denied) "dec_Verdict d' = VerdictDeny" "auditMode r = AuditFailClosed" "dec_Verdict d \<noteq> VerdictDeny"
  using assms by (auto simp: finalize_def Let_def split: option.splits prod.splits if_splits)

lemma early_deny_verdict [simp]: "dec_Verdict (early_deny e m reason) = VerdictDeny"
  by (simp add: early_deny_def)

lemma policy_decision_verdict:
  "dec_Verdict (policy_decision e r pset tier mode dc) =
     (if Policies pset = [] \<and> Sensitivity tier = ''high'' then VerdictDeny
      else if mode = EnforcementShadow then VerdictAllow
      else dec_Verdict (Evaluate (env_pf e) (env_now e) (caller_set r dc pset) dc))"
  by (simp add: policy_decision_def Let_def)

lemma policy_decision_would_block:
  "WouldBlock (policy_decision e r pset tier mode dc) \<longleftrightarrow>
     mode = EnforcementShadow \<and> dec_Verdict (Evaluate (env_pf e) (env_now e) (caller_set r dc pset) dc) \<noteq> VerdictAllow"
  by (simp add: policy_decision_def Let_def)

section \<open>What the decision point guarantees\<close>

lemma demo_misses: "misses alist_theine demo_env dc demo_runtime"
  by (simp add: misses_def cache_Get_def alist_theine_def demo_runtime_def LoadPolicySet_def SetEnforcementMode_def
      NewRuntime_def NewDecisionCache_def)

lemma demo_finalize: "finalize T demo_env dc d k rc (demo_runtime\<lparr>rt_cache := c\<rparr>) \<noteq> None"
  by (simp add: finalize_def maybeAudit_def demo_runtime_def LoadPolicySet_def SetEnforcementMode_def NewRuntime_def Let_def)

lemma demo_decides: "\<exists>d r'. Decide alist_theine demo_env dc demo_runtime = Some (d, r')"
  using Decide_miss [OF demo_misses, of dc] demo_finalize by (metis option.exhaust surj_pair)

lemma early_denial:
  assumes "misses T e dc r" "denied_early dc" "Decide T e dc r = Some (d, r')"
  shows "dec_Verdict d = VerdictDeny"
proof -
  have "dec_Verdict (proposed e r dc) = VerdictDeny"
    using assms(2) by (auto simp: proposed_def denied_early_def Let_def)
  moreover from Decide_miss [OF assms(1)] assms(3) obtain c
    where "finalize T e (full_context e r dc) (proposed e r dc) (CacheKey (env_sha e) (prepare_call e r dc))
        (tier_RecoveryCost (call_tier (prepare_call e r dc) r)) (r\<lparr>rt_cache := c\<rparr>) = Some (d, r')" by auto
  ultimately show ?thesis by (elim finalize_cases) auto
qed

text \<open>
  C15. Outside shadow mode, on a cache miss, a call whose tool is not on its allow-list or that crosses tenants is
  denied, whatever the policies, a Rego program and the audit say.
\<close>

theorem early_denial_is_final:
  assumes "call_mode (prepare_call e r dc) r \<noteq> EnforcementShadow"
    and "misses T e dc r" "denied_early dc" "Decide T e dc r = Some (d, r')"
  shows "dec_Verdict d = VerdictDeny"
  by (rule early_denial [OF assms(2-4)])


lemma ast_only_caller [simp]: "ast_only (caller_set r dc pset) dc' = ast_only pset dc'"
  by (cases "policyTargets r") (auto simp: caller_set_def Let_def split: prod.split)

lemma Rego_caller [simp]: "Rego (caller_set r dc pset) = Rego pset"
  by (cases "policyTargets r") (auto simp: caller_set_def filterPolicySetByIDs_def Let_def split: prod.split)





lemma demo_enforces: "call_mode (prepare_call demo_env demo_runtime (demo_context\<lparr>CrossTenant := True\<rparr>)) demo_runtime = EnforcementEnforce"
  by (simp add: call_mode_def prepare_call_def enrich_def resolve_scope_def clock_fields_def demo_runtime_def LoadPolicySet_def
      SetEnforcementMode_def NewRuntime_def demo_context_def zero_DelegationContext_def Let_def)

theorem early_denial_is_final_witness:
  "\<exists>d r'. Decide alist_theine demo_env (demo_context\<lparr>CrossTenant := True\<rparr>) demo_runtime = Some (d, r') \<and> dec_Verdict d = VerdictDeny"
proof -
  obtain d r' where d: "Decide alist_theine demo_env (demo_context\<lparr>CrossTenant := True\<rparr>) demo_runtime = Some (d, r')" using demo_decides by blast
  have "dec_Verdict d = VerdictDeny"
    by (rule early_denial_is_final [OF _ demo_misses _ d]) (simp_all add: demo_enforces denied_early_def)
  with d show ?thesis by blast
qed

text \<open>
  Shadow mode never blocks what the policies decide: on a cache miss in shadow mode, when no early denial applies, the
  tool is not a high-sensitivity one without policies and the audit is not fail-closed, the verdict is \<open>ALLOW\<close>, and
  \<open>WouldBlock\<close> says exactly whether the policies would have decided otherwise.
\<close>

theorem shadow_mode_allows:
  assumes "misses T e dc r" "Decide T e dc r = Some (d, r')" "\<not> denied_early dc"
    and "call_mode (prepare_call e r dc) r = EnforcementShadow" "auditMode r \<noteq> AuditFailClosed"
    and "Policies (call_set (prepare_call e r dc) r) \<noteq> [] \<or> Sensitivity (call_tier (prepare_call e r dc) r) \<noteq> ''high''"
  shows "dec_Verdict d = VerdictAllow \<and> (WouldBlock d \<longleftrightarrow>
    dec_Verdict (Evaluate (env_pf e) (env_now e) (caller_set r (full_context e r dc) (call_set (prepare_call e r dc) r))
      (full_context e r dc)) \<noteq> VerdictAllow)"
proof -
  have pr: "proposed e r dc = policy_decision e r (call_set (prepare_call e r dc) r) (call_tier (prepare_call e r dc) r)
      EnforcementShadow (full_context e r dc)"
    using assms(3,4) by (auto simp: proposed_def denied_early_def Let_def)
  from Decide_miss [OF assms(1)] assms(2) obtain c
    where "finalize T e (full_context e r dc) (proposed e r dc) (CacheKey (env_sha e) (prepare_call e r dc))
        (tier_RecoveryCost (call_tier (prepare_call e r dc) r)) (r\<lparr>rt_cache := c\<rparr>) = Some (d, r')" by auto
  then have "d = proposed e r dc" using assms(5) by (elim finalize_cases) auto
  then show ?thesis
    unfolding pr using assms(6) by (auto simp: policy_decision_verdict policy_decision_would_block)
qed

lemma demo_shadow_misses: "misses alist_theine demo_env dc demo_shadow"
  by (simp add: misses_def cache_Get_def alist_theine_def demo_shadow_def NewRuntime_def NewDecisionCache_def)

lemma demo_shadow_decides: "\<exists>d r'. Decide alist_theine demo_env dc demo_shadow = Some (d, r')"
proof -
  have "finalize alist_theine demo_env x d k rc (demo_shadow\<lparr>rt_cache := c\<rparr>) \<noteq> None" for x d k rc c
    by (simp add: finalize_def maybeAudit_def demo_shadow_def NewRuntime_def Let_def)
  then show ?thesis using Decide_miss [OF demo_shadow_misses, of dc] by (metis option.exhaust surj_pair)
qed

theorem shadow_mode_allows_witness:
  "\<exists>d r'. Decide alist_theine demo_env demo_context demo_shadow = Some (d, r') \<and> dec_Verdict d = VerdictAllow"
proof -
  obtain d r' where d: "Decide alist_theine demo_env demo_context demo_shadow = Some (d, r')" using demo_shadow_decides by blast
  have "\<not> denied_early demo_context" by (simp add: denied_early_def demo_context_def zero_DelegationContext_def)
  from shadow_mode_allows [OF demo_shadow_misses d this] d show ?thesis
    by (auto simp: call_mode_def call_tier_def demo_shadow_def NewRuntime_def zero_ToolTier_def)
qed

text \<open>
  Fail-closed audit: in that mode, with the pipeline as the sink, a decision other than \<open>DENY\<close> on a cache miss is
  returned only if its record, with the same id and verdict, was accepted by the pipeline.
\<close>

theorem fail_closed_needs_audit:
  assumes "misses T e dc r" "Decide T e dc r = Some (d, r')" "dec_Verdict d \<noteq> VerdictDeny"
    and "auditMode r = AuditFailClosed" "auditSink r = AsyncSink a"
  shows "\<exists>rec a'. EnqueueChecked (env_enc e) (env_disk e) rec a = Some (True, a') \<and> auditSink r' = AsyncSink a' \<and>
    ar_DecisionID rec = DecisionID d \<and> ar_Verdict rec = dec_Verdict d \<and> ar_Tool rec = Tool dc"
proof -
  from Decide_miss [OF assms(1)] assms(2) obtain c
    where "finalize T e (full_context e r dc) (proposed e r dc) (CacheKey (env_sha e) (prepare_call e r dc))
        (tier_RecoveryCost (call_tier (prepare_call e r dc) r)) (r\<lparr>rt_cache := c\<rparr>) = Some (d, r')" by auto
  then show ?thesis
    using assms(3-5)
    by (fastforce simp: finalize_def maybeAudit_def Let_def audit_record_def split: option.splits prod.splits if_splits)
qed

theorem fail_closed_needs_audit_witness:
  "\<exists>d r'. Decide alist_theine demo_env demo_context demo_audited = Some (d, r') \<and>
     (\<exists>rec a'. EnqueueChecked (env_enc demo_env) (env_disk demo_env) rec (NewAsyncAudit True 1 1) = Some (True, a') \<and>
        ar_DecisionID rec = DecisionID d)"
proof -
  have miss: "misses alist_theine demo_env demo_context demo_audited"
    by (simp add: misses_def cache_Get_def alist_theine_def demo_audited_def SetAuditMode_def NewRuntime_def NewDecisionCache_def)
  have "\<not> denied_early demo_context" by (simp add: denied_early_def demo_context_def zero_DelegationContext_def)
  then have v: "dec_Verdict (proposed demo_env demo_audited demo_context) = VerdictAllow"
    by (simp add: proposed_def denied_early_def Let_def policy_decision_verdict call_mode_def call_tier_def demo_audited_def
        SetAuditMode_def NewRuntime_def zero_ToolTier_def)
  have acc: "EnqueueChecked enc ok rec (NewAsyncAudit True 1 1) = Some (True, (NewAsyncAudit True 1 1)\<lparr>aa_ch := [rec]\<rparr>)" for enc ok rec
    by (simp add: EnqueueChecked_def NewAsyncAudit_def)
  from Decide_miss [OF miss] obtain c where c: "Decide alist_theine demo_env demo_context demo_audited =
      finalize alist_theine demo_env (full_context demo_env demo_audited demo_context) (proposed demo_env demo_audited demo_context)
        (CacheKey (env_sha demo_env) (prepare_call demo_env demo_audited demo_context))
        (tier_RecoveryCost (call_tier (prepare_call demo_env demo_audited demo_context) demo_audited)) (demo_audited\<lparr>rt_cache := c\<rparr>)" by blast
  have sink: "auditSink demo_audited = AsyncSink (NewAsyncAudit True 1 1)" "auditMode demo_audited = AuditFailClosed"
    by (simp_all add: demo_audited_def SetAuditMode_def NewRuntime_def)
  obtain r' where d: "Decide alist_theine demo_env demo_context demo_audited = Some (proposed demo_env demo_audited demo_context, r')"
    unfolding c by (simp add: finalize_def maybeAudit_def sink acc Let_def)
  from fail_closed_needs_audit [OF miss d _ sink(2,1)] v d show ?thesis by auto
qed

lemma map_le_upd_None:
  assumes "m \<subseteq>\<^sub>m n(k := None)"
  shows "m k = None" "m \<subseteq>\<^sub>m n"
proof -
  show none: "m k = None"
  proof (cases "m k")
    case (Some v)
    then have "(n(k := None)) k = Some v" using assms by (metis domI map_le_def)
    then show ?thesis by simp
  qed
  show "m \<subseteq>\<^sub>m n"
    unfolding map_le_def
  proof
    fix a assume a: "a \<in> dom m"
    then have "a \<noteq> k" using none by auto
    then show "m a = n a" using a assms by (auto simp: map_le_def)
  qed
qed

lemma map_le_None: "m \<subseteq>\<^sub>m n \<Longrightarrow> n k = None \<Longrightarrow> m k = None"
  by (metis domIff map_le_def)

lemma held_after_deletes:
  assumes "theine_ok T held"
  shows "held (fold (\<lambda>k th. th_Delete T th k) ks th) \<subseteq>\<^sub>m held th \<and>
    (\<forall>k \<in> set ks. held (fold (\<lambda>k th. th_Delete T th k) ks th) k = None)"
proof (induction ks arbitrary: th)
  case Nil
  then show ?case by simp
next
  case (Cons k ks)
  have del: "held (th_Delete T th k) \<subseteq>\<^sub>m (held th)(k := None)" using assms by (simp add: theine_ok_def)
  note del' = map_le_upd_None [OF del]
  let ?after = "fold (\<lambda>k th. th_Delete T th k) ks (th_Delete T th k)"
  have le: "held ?after \<subseteq>\<^sub>m held (th_Delete T th k)" "\<forall>k \<in> set ks. held ?after k = None"
    using Cons [of "th_Delete T th k"] by simp_all
  have "held ?after k = None" by (rule map_le_None [OF le(1) del'(1)])
  moreover have "held ?after \<subseteq>\<^sub>m held th" by (rule map_le_trans [OF le(1) del'(2)])
  ultimately show ?case using le(2) by simp
qed

text \<open>
  Revocation clears the cache: after \<open>InvalidateTenant\<close> no call is answered from the decision cache, whatever the
  library evicted on the way.
\<close>

theorem invalidate_clears_cache:
  assumes "theine_ok T held"
  shows "misses T e dc (InvalidateTenant T tenant r)"
proof (cases "dc_cache (rt_cache r)")
  case None
  then show ?thesis by (simp add: misses_def cache_Get_def InvalidateTenant_def cache_InvalidateTenant_def)
next
  case (Some th)
  let ?th = "fold (\<lambda>k th. th_Delete T th k) (th_Keys T th) th"
  note cleared = held_after_deletes [OF assms, of "th_Keys T th" th]
  have "held ?th k = None" for k
  proof (cases "k \<in> set (th_Keys T th)")
    case True
    then show ?thesis using cleared by blast
  next
    case False
    moreover have "dom (held th) \<subseteq> set (th_Keys T th)" using assms by (simp add: theine_ok_def)
    ultimately have "held th k = None" by blast
    then show ?thesis by (rule map_le_None [OF conjunct1 [OF cleared]])
  qed
  note none = this
  have "th_Get T ?th now k = None" for now k
  proof (cases "th_Get T ?th now k")
    case (Some d)
    then obtain x where "held ?th k = Some (d, x)" using assms unfolding theine_ok_def by blast
    with none [of k] show ?thesis by simp
  qed
  then show ?thesis using Some by (simp add: misses_def cache_Get_def InvalidateTenant_def cache_InvalidateTenant_def)
qed

lemma alist_theine_ok: "theine_ok alist_theine map_of"
  by (auto simp: theine_ok_def alist_theine_def update_conv' delete_conv' dom_map_of_conv_image_fst split: option.splits if_splits)

theorem invalidate_clears_cache_witness:
  "misses alist_theine demo_env demo_context (InvalidateTenant alist_theine ''t'' demo_shadow)"
  by (rule invalidate_clears_cache [OF alist_theine_ok])

text \<open>
  The cache is consulted before the early denials and its key leaves out what they depend on: once an \<open>ALLOW\<close> is
  cached for a call, the same call marked cross-tenant, with another allow-list and a high recovery cost gets that
  \<open>ALLOW\<close>, although \<open>Decide\<close> denies it on a miss.
\<close>

theorem cached_allow_skips_guards:
  assumes "dc_cache (rt_cache r) = Some th" "dec_Verdict d = VerdictAllow"
    and "th_Get T th (env_start e) (CacheKey (env_sha e) (prepare_call e r dc)) = Some d"
    and "dc' = dc\<lparr>CrossTenant := True, AllowedTools := ts, dcContext := (dcContext dc)\<lparr>RecoveryCost := rc\<rparr>\<rparr>"
  shows "denied_early dc' \<and> (\<exists>d' r'. Decide T e dc' r = Some (d', r') \<and> dec_Verdict d' = VerdictAllow)"
proof -
  have "cache_key_parts (env_sha e) (prepare_call e r dc') = cache_key_parts (env_sha e) (prepare_call e r dc)"
  proof (cases "resolve_scope (vkResolver r) (VirtualKey dc)")
    case None
    then show ?thesis
      by (simp add: assms(4) cache_key_parts_def prepare_call_def enrich_def clock_fields_def Let_def)
  next
    case (Some s)
    then show ?thesis
      by (cases "AgentConfigured s")
        (simp_all add: assms(4) cache_key_parts_def prepare_call_def enrich_def clock_fields_def Let_def)
  qed
  then have "CacheKey (env_sha e) (prepare_call e r dc') = CacheKey (env_sha e) (prepare_call e r dc)"
    by (rule CacheKey_cong)
  with assms(1-3) show ?thesis
    by (simp add: Decide_def Let_def cache_Get_def denied_early_def assms(4))
qed

theorem cached_allow_skips_guards_witness:
  "\<exists>r d' r'. Decide alist_theine demo_env (demo_context\<lparr>CrossTenant := True, AllowedTools := [''x''],
     dcContext := (dcContext demo_context)\<lparr>RecoveryCost := ''high''\<rparr>\<rparr>) r = Some (d', r') \<and> dec_Verdict d' = VerdictAllow"
proof -
  let ?d = "zero_Decision\<lparr>dec_Verdict := VerdictAllow\<rparr>"
  let ?key = "\<lambda>r. CacheKey (env_sha demo_env) (prepare_call demo_env r demo_context)"
  let ?th = "[(?key demo_shadow, ?d, 100)]"
  let ?r = "demo_shadow\<lparr>rt_cache := \<lparr>dc_cache = Some ?th, dc_hits = 0, dc_misses = 0\<rparr>\<rparr>"
  have key: "?key ?r = ?key demo_shadow"
    by (simp add: prepare_call_def clock_fields_def isTimeSensitive_def)
  have hit: "th_Get alist_theine [(k, d, 100)] 1 k = Some d" for k d by (simp add: alist_theine_def)
  have start: "env_start demo_env = 1" by (simp add: demo_env_def)
  have get: "th_Get alist_theine ?th (env_start demo_env) (?key ?r) = Some ?d"
    unfolding key start by (rule hit)
  have c: "dc_cache (rt_cache ?r) = Some ?th" and v: "dec_Verdict ?d = VerdictAllow" by simp_all
  have "\<exists>d' r'. Decide alist_theine demo_env (demo_context\<lparr>CrossTenant := True, AllowedTools := [''x''],
     dcContext := (dcContext demo_context)\<lparr>RecoveryCost := ''high''\<rparr>\<rparr>) ?r = Some (d', r') \<and> dec_Verdict d' = VerdictAllow"
    by (rule conjunct2 [OF cached_allow_skips_guards [OF c v get refl]])
  then show ?thesis by (rule exI [of _ ?r])
qed

end
