(* ===== verification/GuardTypes.thy ===== *)
theory GuardTypes
  imports Prelude Complex_Main "HOL-Library.AList"
begin

text \<open>
  The data of the guard runtime: the wire types of
  \<^verbatim>\<open>deepintshield_guard/pkg/runtimeapi/types.go\<close>, the dynamic values (\<open>any\<close>) that policy definitions and
  metadata are made of, and the accessors and normalisers on them from
  \<^verbatim>\<open>deepintshield_guard/internal/engine/engine.go\<close> and \<^verbatim>\<open>runtime_checks.go\<close>.

  A dynamic value is a \<open>goval\<close>: \<open>nil\<close>, a boolean, an integer of any width, a float, a string,
  \<open>[]string\<close>, \<open>[]any\<close>, \<open>map[string]any\<close> or \<open>map[string]string\<close>; maps are association lists with distinct
  keys and \<open>nil\<close> and empty maps are both \<open>[]\<close>.  \<open>fmt.Sprintf("%v", x)\<close> is \<open>Sprint\<close>, with the rendering of
  floats as its argument.
\<close>

section \<open>Dynamic values\<close>

datatype goval =
    VNil | VBool bool | VInt int | VFloat rat | VStr string | VStrs "string list"
  | VList "goval list" | VMap "(string \<times> goval) list" | VStrMap "(string \<times> string) list"

type_synonym gomap = "(string \<times> goval) list"

fun Sprint :: "(rat \<Rightarrow> string) \<Rightarrow> goval \<Rightarrow> string" where
  "Sprint ff VNil = ''<nil>''"
| "Sprint ff (VBool b) = (if b then ''true'' else ''false'')"
| "Sprint ff (VInt n) = show_int n"
| "Sprint ff (VFloat q) = ff q"
| "Sprint ff (VStr s) = s"
| "Sprint ff (VStrs ss) = ''['' @ Join ss '' '' @ '']''"
| "Sprint ff (VList vs) = ''['' @ Join (map (Sprint ff) vs) '' '' @ '']''"
| "Sprint ff (VMap kvs) =
     ''map['' @ Join (map (\<lambda>(k, s). k @ '':'' @ s) (sort_key fst (map (\<lambda>(k, v). (k, Sprint ff v)) kvs))) '' '' @ '']''"
| "Sprint ff (VStrMap kvs) = ''map['' @ Join (map (\<lambda>(k, s). k @ '':'' @ s) (sort_key fst kvs)) '' '' @ '']''"

text \<open>\<open>int(x)\<close> of a float truncates towards zero.\<close>

definition trunc :: "rat \<Rightarrow> int" where
  "trunc q = (if q < 0 then - \<lfloor>- q\<rfloor> else \<lfloor>q\<rfloor>)"

text \<open>The decimal number at the front of a text: \<open>strconv.Atoi\<close> wants the whole text, \<open>Sscanf("%d")\<close> a prefix.\<close>

definition is_digit :: "byte \<Rightarrow> bool" where
  "is_digit c \<longleftrightarrow> byte_between CHR ''0'' CHR ''9'' c"

definition dec_value :: "string \<Rightarrow> int" where
  "dec_value ds = foldl (\<lambda>n c. 10 * n + (of_char c - 48)) 0 ds"

definition scan_int :: "string \<Rightarrow> (int \<times> string) option" where
  "scan_int s =
     (let neg = HasPrefix s ''-'';
          body = (if neg \<or> HasPrefix s ''+'' then tl s else s);
          ds = takeWhile is_digit body;
          v = (if neg then - dec_value ds else dec_value ds)
      in if ds = [] \<or> \<not> int64 v then None else Some (v, dropWhile is_digit body))"

definition Atoi :: "string \<Rightarrow> int option" where
  "Atoi s = (case scan_int s of Some (v, []) \<Rightarrow> Some v | _ \<Rightarrow> None)"

definition Sscan_d :: "string \<Rightarrow> int option" where
  "Sscan_d s = map_option fst (scan_int s)"

section \<open>Accessors\<close>

definition containsNormalizedValue :: "string list \<Rightarrow> string \<Rightarrow> bool" where
  "containsNormalizedValue vs candidate =
     (let c = ToLower (TrimSpace candidate) in list_ex (\<lambda>v. EqualFold (TrimSpace v) c) vs)"

definition containsFold :: "string list \<Rightarrow> string \<Rightarrow> bool" where
  "containsFold vs candidate = (let c = TrimSpace candidate in list_ex (\<lambda>v. EqualFold (TrimSpace v) c) vs)"

definition defaultString :: "string \<Rightarrow> string \<Rightarrow> string" where
  "defaultString value fallback = (if TrimSpace value = [] then fallback else TrimSpace value)"

fun dedupe_loop :: "string list \<Rightarrow> string list \<Rightarrow> string list" where
  "dedupe_loop seen [] = []"
| "dedupe_loop seen (v # vs) =
     (let t = TrimSpace v; key = ToLower t in
      if t = [] then dedupe_loop seen vs
      else if key \<in> set seen then dedupe_loop seen vs
      else t # dedupe_loop (key # seen) vs)"

definition dedupeNonEmptyStrings :: "string list \<Rightarrow> string list" where
  "dedupeNonEmptyStrings vs = dedupe_loop [] vs"

definition toStringSlice :: "(rat \<Rightarrow> string) \<Rightarrow> goval \<Rightarrow> string list" where
  "toStringSlice ff v =
     (case v of
        VStrs ss \<Rightarrow> dedupeNonEmptyStrings ss
      | VStr s \<Rightarrow> dedupeNonEmptyStrings [s]
      | VList vs \<Rightarrow> dedupeNonEmptyStrings (filter (\<lambda>t. t \<noteq> []) (map (\<lambda>i. TrimSpace (Sprint ff i)) vs))
      | _ \<Rightarrow> [])"

definition numericValue :: "goval option \<Rightarrow> int option" where
  "numericValue raw =
     (case raw of
        Some (VInt n) \<Rightarrow> Some n
      | Some (VFloat q) \<Rightarrow> Some (trunc q)
      | Some (VStr s) \<Rightarrow> Atoi (TrimSpace s)
      | _ \<Rightarrow> None)"

fun stringValue :: "(rat \<Rightarrow> string) \<Rightarrow> gomap \<Rightarrow> string list \<Rightarrow> string" where
  "stringValue ff source [] = []"
| "stringValue ff source (key # keys) =
     (case map_of source key of
        None \<Rightarrow> stringValue ff source keys
      | Some VNil \<Rightarrow> stringValue ff source keys
      | Some raw \<Rightarrow>
          (let rendered = TrimSpace (Sprint ff raw) in
           if rendered \<noteq> [] \<and> rendered \<noteq> ''<nil>'' then rendered else stringValue ff source keys))"

definition stringSlice :: "(rat \<Rightarrow> string) \<Rightarrow> goval option \<Rightarrow> string list" where
  "stringSlice ff value =
     (case value of
        Some (VStrs ss) \<Rightarrow> ss
      | Some (VList vs) \<Rightarrow> filter (\<lambda>r. r \<noteq> [] \<and> r \<noteq> ''<nil>'') (map (\<lambda>i. TrimSpace (Sprint ff i)) vs)
      | _ \<Rightarrow> [])"

definition normalizedStringSlice :: "(rat \<Rightarrow> string) \<Rightarrow> goval option \<Rightarrow> string list" where
  "normalizedStringSlice ff value = map (\<lambda>v. ToLower (TrimSpace v)) (stringSlice ff value)"

definition intValue :: "(rat \<Rightarrow> string) \<Rightarrow> gomap \<Rightarrow> string \<Rightarrow> int \<Rightarrow> int" where
  "intValue ff source key fallback =
     (case map_of source key of
        None \<Rightarrow> fallback
      | Some VNil \<Rightarrow> fallback
      | Some (VInt n) \<Rightarrow> n
      | Some (VFloat q) \<Rightarrow> trunc q
      | Some raw \<Rightarrow> (case Sscan_d (TrimSpace (Sprint ff raw)) of Some n \<Rightarrow> n | None \<Rightarrow> fallback))"

definition boolValue :: "gomap \<Rightarrow> string \<Rightarrow> bool \<Rightarrow> bool" where
  "boolValue source key fallback =
     (case map_of source key of
        Some (VBool b) \<Rightarrow> b
      | Some (VStr s) \<Rightarrow>
          (let t = ToLower (TrimSpace s) in
           if t \<in> {''true'', ''1'', ''yes''} then True
           else if t \<in> {''false'', ''0'', ''no''} then False
           else fallback)
      | _ \<Rightarrow> fallback)"

definition mapValue :: "gomap \<Rightarrow> string \<Rightarrow> gomap" where
  "mapValue source key =
     (case map_of source key of
        Some (VMap m) \<Rightarrow> m
      | Some (VStrMap m) \<Rightarrow> map (\<lambda>(k, s). (k, VStr s)) m
      | _ \<Rightarrow> [])"

section \<open>Wire types\<close>

record Actor =
  actor_Type :: string
  actor_ID :: string
  actor_Role :: string
  actor_CustomerID :: string
  actor_TeamID :: string

record MCPContext =
  mcp_ServerLabel :: string
  mcp_ToolName :: string
  mcp_ActionClass :: string
  mcp_Domains :: "string list"

text \<open>Bytes are characters: \<open>att_Data\<close> is the inlined payload.\<close>

record Attachment =
  att_Kind :: string
  att_MIME :: string
  att_Role :: string
  att_Hash :: string
  att_Text :: string
  att_Data :: string
  att_Ref :: string

record Content =
  Input :: string
  Output :: string
  ToolInput :: string
  Attachments :: "Attachment list"

record PolicyProviderBinding =
  pb_ProviderID :: string
  pb_ProviderType :: string
  pb_Stage :: string
  pb_Priority :: int
  pb_Enabled :: bool

record PolicyBundle =
  PolicyID :: string
  PolicyVersionID :: string
  Name :: string
  DomainPackID :: string
  Scope :: string
  EnforcementMode :: string
  Enabled :: bool
  IsDefault :: bool
  TimeoutMs :: int
  Metadata :: gomap
  Definition :: gomap
  ProviderBindings :: "PolicyProviderBinding list"

record ProviderConfig =
  prov_ID :: string
  prov_Name :: string
  prov_Type :: string
  prov_Mode :: string
  prov_CustomerID :: string
  prov_Enabled :: bool
  prov_Region :: string
  prov_Endpoint :: string
  prov_Credentials :: gomap
  prov_ConnectionMeta :: gomap

record MCPToolPolicy =
  tp_PolicyID :: string
  tp_ServerLabel :: string
  tp_ToolName :: string
  tp_ActionClass :: string
  tp_ApprovalNeeded :: bool
  tp_AllowedDomains :: "string list"
  tp_AllowedIdentities :: "string list"

record TenantBundle =
  tb_TenantID :: string
  tb_Revision :: string
  tb_RefreshedAt :: int
  tb_Providers :: "ProviderConfig list"
  tb_Policies :: "PolicyBundle list"
  tb_MCPToolPolicies :: "MCPToolPolicy list"
  tb_Metadata :: gomap

record EvaluateRequest =
  req_TenantID :: string
  req_RequestID :: string
  req_Stage :: string
  req_Model :: string
  req_Provider :: string
  req_Actor :: Actor
  req_Content :: Content
  req_MCP :: "MCPContext option"
  req_Policies :: "PolicyBundle list"
  req_Metadata :: gomap

record Finding =
  f_PolicyID :: string
  f_PolicyVersionID :: string
  f_ProviderID :: string
  f_ProviderType :: string
  f_Category :: string
  f_Severity :: string
  f_Confidence :: rat
  f_Outcome :: string
  f_Summary :: string
  f_Details :: gomap

text \<open>The measured latency of a response is left out.\<close>

record EvaluateResponse =
  Decision :: string
  Reason :: string
  ApprovalRequired :: bool
  Redactions :: "string list"
  SanitizedInput :: string
  SanitizedOutput :: string
  Findings :: "Finding list"
  DecisionChain :: "string list"
  resp_Metadata :: gomap

section \<open>Normalisers\<close>

definition NormalizeStage :: "string \<Rightarrow> string" where
  "NormalizeStage stage =
     (let s = ToLower (TrimSpace stage) in
      if s = ''output'' then ''output''
      else if s = ''action'' then ''action''
      else if s = ''mcp'' then ''mcp''
      else if s = ''rag'' then ''rag''
      else ''input'')"

definition pickContent :: "EvaluateRequest \<Rightarrow> string" where
  "pickContent request =
     (let stage = NormalizeStage (req_Stage request); c = req_Content request in
      if stage = ''output'' \<and> TrimSpace (Output c) \<noteq> [] then Output c
      else if stage \<in> {''action'', ''mcp''} \<and> TrimSpace (ToolInput c) \<noteq> [] then ToolInput c
      else if TrimSpace (Input c) \<noteq> [] then Input c
      else if TrimSpace (Output c) \<noteq> [] then Output c
      else ToolInput c)"

definition normalizeSeverity :: "string \<Rightarrow> string" where
  "normalizeSeverity value =
     (let v = ToLower (TrimSpace value) in
      if v = ''critical'' then ''critical''
      else if v = ''high'' then ''high''
      else if v = ''medium'' then ''medium''
      else ''low'')"

definition normalizeOutcome :: "string \<Rightarrow> string" where
  "normalizeOutcome value =
     (let v = ToLower (TrimSpace value) in
      if v \<in> {''block'', ''deny''} then ''deny''
      else if v \<in> {''approval'', ''human_approval'', ''review''} then ''deny''
      else if v = ''sandbox'' then ''sandbox''
      else if v \<in> {''redact'', ''allow_with_redaction''} then ''redact''
      else ''allow'')"

text \<open>The rewriting of the mode \<open>approval\<close> to \<open>block\<close> has no effect on the test for \<open>monitor\<close>.\<close>

definition normalizeOutcomeForPolicy :: "PolicyBundle \<Rightarrow> string \<Rightarrow> string" where
  "normalizeOutcomeForPolicy policy outcome0 =
     (let outcome = normalizeOutcome outcome0;
          mode = (if EqualFold (TrimSpace (EnforcementMode policy)) ''approval'' then ''block'' else EnforcementMode policy)
      in if EqualFold (TrimSpace mode) ''monitor'' then ''allow'' else outcome)"

section \<open>Facts\<close>

lemma normalizeOutcome_values: "normalizeOutcome v \<in> {''deny'', ''sandbox'', ''redact'', ''allow''}"
  by (simp add: normalizeOutcome_def Let_def)

lemma normalizeOutcome_fix [simp]:
  "normalizeOutcome ''deny'' = ''deny''" "normalizeOutcome ''sandbox'' = ''sandbox''"
  "normalizeOutcome ''redact'' = ''redact''" "normalizeOutcome ''allow'' = ''allow''"
  by (simp_all add: normalizeOutcome_def go_string_simps)

lemma normalizeOutcome_idem [simp]: "normalizeOutcome (normalizeOutcome v) = normalizeOutcome v"
  using normalizeOutcome_values [of v] by auto

lemma normalizeStage_values: "NormalizeStage s \<in> {''output'', ''action'', ''mcp'', ''rag'', ''input''}"
  by (simp add: NormalizeStage_def Let_def)

lemma NormalizeStage_fix [simp]:
  "NormalizeStage ''output'' = ''output''" "NormalizeStage ''action'' = ''action''" "NormalizeStage ''mcp'' = ''mcp''"
  "NormalizeStage ''rag'' = ''rag''" "NormalizeStage ''input'' = ''input''"
  by (simp_all add: NormalizeStage_def go_string_simps)

lemma NormalizeStage_idem [simp]: "NormalizeStage (NormalizeStage s) = NormalizeStage s"
  using normalizeStage_values [of s] by auto

lemma normalizeSeverity_not_Nil [simp]: "normalizeSeverity v \<noteq> []"
  by (simp add: normalizeSeverity_def Let_def)

lemma dropWhile_idem [simp]: "dropWhile P (dropWhile P xs) = dropWhile P xs"
  by (induction xs) auto

lemma TrimSpace_trimmed: "TrimSpace s = t \<Longrightarrow> t = [] \<or> \<not> is_space (hd t) \<and> \<not> is_space (last t)"
proof -
  assume t: "TrimSpace s = t"
  define u where "u = dropWhile is_space s"
  have u: "t = rev (dropWhile is_space (rev u))" using t by (simp add: TrimSpace_def u_def)
  show ?thesis
  proof (cases "t = []")
    case False
    then have ne: "dropWhile is_space (rev u) \<noteq> []" using u by simp
    then have "\<not> is_space (hd (dropWhile is_space (rev u)))" by (rule hd_dropWhile)
    then have last: "\<not> is_space (last t)" using u ne by (simp add: last_rev)
    have "u \<noteq> []" using ne by auto
    have "u = t @ rev (takeWhile is_space (rev u))"
      using u by (metis rev_append rev_rev_ident takeWhile_dropWhile_id)
    then have "hd t = hd u" using False by (metis hd_append2)
    moreover have "\<not> is_space (hd u)" using \<open>u \<noteq> []\<close> unfolding u_def by (rule hd_dropWhile)
    ultimately show ?thesis using last by simp
  qed simp
qed

lemma TrimSpace_idem [simp]: "TrimSpace (TrimSpace s) = TrimSpace s"
proof -
  let ?t = "TrimSpace s"
  consider "?t = []" | "?t \<noteq> []" "\<not> is_space (hd ?t)" "\<not> is_space (last ?t)"
    using TrimSpace_trimmed [OF refl, of s] by blast
  then show ?thesis
  proof cases
    case 1
    have "TrimSpace [] = []" by (simp add: TrimSpace_def)
    with 1 show ?thesis by simp
  next
    case 2
    then have d: "dropWhile is_space ?t = ?t" by (cases ?t) auto
    have "dropWhile is_space (rev ?t) = rev ?t" using 2 by (cases "rev ?t") (auto simp: last_rev hd_rev)
    then show ?thesis by (simp add: TrimSpace_def [of ?t] d)
  qed
qed

text \<open>
  \<open>dedupeNonEmptyStrings\<close> returns trimmed, non-empty texts that differ pairwise in more than case, and
  every non-blank text of the argument has one of them as its representative.
\<close>

lemma dedupe_loop_distinct:
  "distinct (map ToLower (dedupe_loop seen vs)) \<and> set (map ToLower (dedupe_loop seen vs)) \<inter> set seen = {}"
proof (induction vs arbitrary: seen)
  case Nil
  then show ?case by simp
next
  case (Cons v vs)
  show ?case using Cons [of seen] Cons [of "ToLower (TrimSpace v) # seen"] by (auto simp: Let_def disjoint_iff)
qed

lemma dedupe_loop_elems:
  "t \<in> set (dedupe_loop seen vs) \<Longrightarrow> t \<noteq> [] \<and> t \<in> TrimSpace ` set vs"
  by (induction vs arbitrary: seen) (auto simp: Let_def split: if_splits)

lemma dedupe_loop_covers:
  "ToLower ` set (dedupe_loop seen vs) \<union> set seen = ToLower ` (TrimSpace ` set vs - {[]}) \<union> set seen"
proof (induction vs arbitrary: seen)
  case Nil
  then show ?case by simp
next
  case (Cons v vs)
  let ?t = "TrimSpace v"
  consider "?t = []" | "?t \<noteq> []" "ToLower ?t \<in> set seen" | "?t \<noteq> []" "ToLower ?t \<notin> set seen" by blast
  then show ?case
  proof cases
    case 1
    then show ?thesis using Cons.IH [of seen] by (auto simp: Let_def)
  next
    case 2
    then have "ToLower ` (TrimSpace ` set (v # vs) - {[]}) \<union> set seen = ToLower ` (TrimSpace ` set vs - {[]}) \<union> set seen"
      by auto
    with 2 show ?thesis using Cons.IH [of seen] by (simp add: Let_def)
  next
    case 3
    have "ToLower ` (TrimSpace ` set (v # vs) - {[]}) \<union> set seen =
        ToLower ` (TrimSpace ` set vs - {[]}) \<union> set (ToLower ?t # seen)" using 3 by auto
    also have "\<dots> = ToLower ` set (dedupe_loop (ToLower ?t # seen) vs) \<union> set (ToLower ?t # seen)"
      by (rule Cons.IH [symmetric])
    finally show ?thesis using 3 by (auto simp: Let_def)
  qed
qed

lemma dedupe_spec:
  "distinct (map ToLower (dedupeNonEmptyStrings vs))"
  "t \<in> set (dedupeNonEmptyStrings vs) \<Longrightarrow> t \<noteq> [] \<and> TrimSpace t = t"
  "ToLower ` set (dedupeNonEmptyStrings vs) = ToLower ` (TrimSpace ` set vs - {[]})"
  using dedupe_loop_distinct [of "[]" vs] dedupe_loop_elems [of t "[]" vs] dedupe_loop_covers [of "[]" vs]
  by (auto simp: dedupeNonEmptyStrings_def)

end
