(* ===== verification/GuardSelect.thy ===== *)
theory GuardSelect
  imports GuardTypes
begin

text \<open>
  Which policies apply to a request (\<^verbatim>\<open>deepintshield_guard/internal/engine/engine.go\<close>): the selectors in the policy
  metadata, the ordered selection of matching policies, default policies, policies named by the request, and how
  \<open>Evaluate\<close> and \<open>EvaluateFastOnly\<close> combine them.  \<open>ff\<close> renders floats, as in \<^verbatim>\<open>GuardTypes\<close>.
\<close>

section \<open>Glob patterns\<close>

text \<open>
  \<open>path.Match\<close> of the standard library, as the test \<open>err == nil && ok\<close>: a star matches any run without a slash,
  a question mark one byte that is no slash, brackets a class of bytes, and a malformed pattern nothing.
\<close>

definition getEsc :: "string \<Rightarrow> (byte \<times> string) option" where
  "getEsc p =
     (case p of
        [] \<Rightarrow> None
      | c # r \<Rightarrow>
          (if c = CHR ''-'' \<or> c = CHR '']'' then None
           else if c = CHR 0x5C then (case r of [] \<Rightarrow> None | d # r' \<Rightarrow> (if r' = [] then None else Some (d, r')))
           else if r = [] then None else Some (c, r)))"

lemma getEsc_shorter: "getEsc p = Some (c, r) \<Longrightarrow> length r < length p"
  by (auto simp: getEsc_def split: list.splits if_splits)

function class_loop :: "bool \<Rightarrow> byte \<Rightarrow> bool \<Rightarrow> string \<Rightarrow> (bool \<times> string) option" where
  "class_loop started c hit p =
     (if started \<and> HasPrefix p '']'' then Some (hit, tl p)
      else case getEsc p of
        None \<Rightarrow> None
      | Some (lo, r) \<Rightarrow>
          (if HasPrefix r ''-''
           then (case getEsc (tl r) of
                   None \<Rightarrow> None
                 | Some (hi, r') \<Rightarrow> class_loop True c (hit \<or> byte_between lo hi c) r')
           else class_loop True c (hit \<or> c = lo) r))"
  by pat_completeness auto
termination
proof (relation "measure (\<lambda>(started, c, hit, p). length p)")
  fix started c hit p x lo r y hi r'
  assume "getEsc p = Some x" "(lo, r) = x" "HasPrefix r ''-''" "getEsc (tl r) = Some y" "(hi, r') = y"
  then have "length r < length p" "length r' < length (tl r)" by (metis getEsc_shorter)+
  then show "((True, c, hit \<or> byte_between lo hi c, r'), (started, c, hit, p)) \<in> measure (\<lambda>(started, c, hit, p). length p)"
    by simp
next
  fix started c hit p x lo r
  assume "getEsc p = Some x" "(lo, r) = x"
  then show "((True, c, hit \<or> c = lo, r), (started, c, hit, p)) \<in> measure (\<lambda>(started, c, hit, p). length p)"
    using getEsc_shorter by fastforce
qed simp

definition class_match :: "byte \<Rightarrow> string \<Rightarrow> (bool \<times> string) option" where
  "class_match c p =
     (if HasPrefix p ''^'' then map_option (\<lambda>(b, r). (\<not> b, r)) (class_loop False c False (tl p))
      else class_loop False c False p)"

lemma class_loop_shorter: "class_loop st c hit p = Some (b, r) \<Longrightarrow> length r < length p"
proof (induction st c hit p rule: class_loop.induct)
  case (1 st c hit p)
  show ?case
  proof (cases "st \<and> HasPrefix p '']''")
    case True
    with 1(3) show ?thesis by (cases p) (auto simp: HasPrefix_def)
  next
    case False
    with 1(3) obtain lo q where g: "getEsc p = Some (lo, q)" by (auto split: option.splits)
    note q = getEsc_shorter [OF g]
    show ?thesis
    proof (cases "HasPrefix q ''-''")
      case True
      with 1(3) False g obtain hi q' where h: "getEsc (tl q) = Some (hi, q')"
        and r: "class_loop True c (hit \<or> byte_between lo hi c) q' = Some (b, r)" by (auto split: option.splits)
      from 1(1) [OF False g refl True h refl r] getEsc_shorter [OF h] q show ?thesis by simp
    next
      case n: False
      with 1(3) False g have "class_loop True c (hit \<or> c = lo) q = Some (b, r)" by auto
      from 1(2) [OF False g refl n this] q show ?thesis by simp
    qed
  qed
qed

declare class_loop.simps [simp del]

lemma class_match_shorter: "class_match c p = Some (b, r) \<Longrightarrow> length r < length p"
  by (cases p) (auto simp: class_match_def HasPrefix_def split: if_splits dest: class_loop_shorter)

function path_Match :: "string \<Rightarrow> string \<Rightarrow> bool" where
  "path_Match [] s = (s = [])"
| "path_Match (d # p) s =
     (if d = CHR ''*'' then path_Match p s \<or> (if s = [] \<or> hd s = CHR ''/'' then False else path_Match (d # p) (tl s))
      else if s = [] then False
      else if d = CHR ''?'' then hd s \<noteq> CHR ''/'' \<and> path_Match p (tl s)
      else if d = CHR ''['' then (case class_match (hd s) p of None \<Rightarrow> False | Some (b, p') \<Rightarrow> b \<and> path_Match p' (tl s))
      else if d = CHR 0x5C then p \<noteq> [] \<and> hd p = hd s \<and> path_Match (tl p) (tl s)
      else d = hd s \<and> path_Match p (tl s))"
  by pat_completeness auto
termination
  by (relation "measures [\<lambda>(p, s). length p, \<lambda>(p, s). length s]") (auto dest: class_match_shorter)

declare path_Match.simps [simp del]

section \<open>Selectors\<close>

definition policyScopes :: "(rat \<Rightarrow> string) \<Rightarrow> PolicyBundle \<Rightarrow> string list" where
  "policyScopes ff policy =
     (let own = [NormalizeStage (Scope policy)] in
      case map_of (Metadata policy) ''scopes'' of
        None \<Rightarrow> own
      | Some rawScopes \<Rightarrow>
          (let scopes = foldl (\<lambda>acc scope. let n = NormalizeStage scope in
                                 if containsNormalizedValue acc n then acc else acc @ [n]) [] (toStringSlice ff rawScopes)
           in if scopes \<noteq> [] then scopes else own))"

definition policyAppliesToStage :: "(rat \<Rightarrow> string) \<Rightarrow> PolicyBundle \<Rightarrow> string \<Rightarrow> bool" where
  "policyAppliesToStage ff policy stage = list_ex (\<lambda>scope. scope = NormalizeStage stage) (policyScopes ff policy)"

definition policySelectors :: "gomap \<Rightarrow> gomap" where
  "policySelectors metadata =
     (case map_of metadata ''selectors'' of
        Some (VMap typed) \<Rightarrow> typed
      | _ \<Rightarrow> metadata)"

fun selectorValues :: "(rat \<Rightarrow> string) \<Rightarrow> gomap \<Rightarrow> string list \<Rightarrow> string list" where
  "selectorValues ff selectors [] = []"
| "selectorValues ff selectors (key # keys) =
     (case map_of selectors key of
        None \<Rightarrow> selectorValues ff selectors keys
      | Some raw \<Rightarrow>
          (let vs = toStringSlice ff raw in if vs \<noteq> [] then vs else selectorValues ff selectors keys))"

definition selectorPriority :: "gomap \<Rightarrow> int" where
  "selectorPriority metadata =
     (case numericValue (map_of (policySelectors metadata) ''priority'') of
        Some p \<Rightarrow> p
      | None \<Rightarrow> (case numericValue (map_of metadata ''priority'') of Some p \<Rightarrow> p | None \<Rightarrow> 100))"

definition selector_keys :: "string list" where
  "selector_keys =
     [''tenant_ids'', ''workspace_ids'', ''workspace_id'', ''apps'', ''app_ids'', ''app'', ''models'', ''model_patterns'',
      ''routes'', ''route_patterns'', ''providers'', ''request_types'', ''customer_ids'', ''team_ids'', ''actor_types'',
      ''actor_roles'', ''domain_pack_ids'']"

definition selectorSpecificity :: "(rat \<Rightarrow> string) \<Rightarrow> PolicyBundle \<Rightarrow> nat" where
  "selectorSpecificity ff policy =
     (let selectors = policySelectors (Metadata policy) in
      length (filter (\<lambda>key. selectorValues ff selectors [key] \<noteq> []) selector_keys)
      + (if TrimSpace (DomainPackID policy) \<noteq> [] then 1 else 0))"

definition requestMetadataValues :: "(rat \<Rightarrow> string) \<Rightarrow> gomap \<Rightarrow> string list \<Rightarrow> string list" where
  "requestMetadataValues ff metadata keys =
     dedupeNonEmptyStrings (concat (map (\<lambda>key. case map_of metadata key of None \<Rightarrow> [] | Some raw \<Rightarrow> toStringSlice ff raw) keys))"

definition requestWorkspaceValues :: "(rat \<Rightarrow> string) \<Rightarrow> EvaluateRequest \<Rightarrow> string list" where
  "requestWorkspaceValues ff request =
     dedupeNonEmptyStrings (req_TenantID request #
       requestMetadataValues ff (req_Metadata request) [''workspace_id'', ''workspace'', ''tenant_id''])"

definition requestValues :: "string \<Rightarrow> string list \<Rightarrow> string list" where
  "requestValues primary extras =
     dedupeNonEmptyStrings ((if TrimSpace primary \<noteq> [] then [primary] else []) @ extras)"

definition selectorMatches :: "string \<Rightarrow> string \<Rightarrow> bool" where
  "selectorMatches pattern0 candidate0 =
     (let pattern = ToLower (TrimSpace pattern0); candidate = ToLower (TrimSpace candidate0) in
      if pattern = [] \<or> candidate = [] then False
      else if pattern = ''*'' \<or> EqualFold pattern candidate then True
      else if CHR ''*'' \<in> set pattern then path_Match pattern candidate
      else False)"

definition matchSelectorValues :: "string list \<Rightarrow> string list \<Rightarrow> bool" where
  "matchSelectorValues selectors candidates =
     (if selectors = [] then True
      else if candidates = [] then False
      else list_ex (\<lambda>selector. list_ex (\<lambda>candidate. selectorMatches selector candidate) candidates) selectors)"

definition policyMatchesRequest :: "(rat \<Rightarrow> string) \<Rightarrow> PolicyBundle \<Rightarrow> EvaluateRequest \<Rightarrow> bool" where
  "policyMatchesRequest ff policy request =
     (let selectors = policySelectors (Metadata policy);
          sel = selectorValues ff selectors;
          meta = requestMetadataValues ff (req_Metadata request);
          actor = req_Actor request;
          packs = meta [''domain_pack_id'', ''domain_pack_ids''] in
      if boolValue (Metadata policy) ''assignment_only'' False then False
      else if selectors = [] \<and> TrimSpace (DomainPackID policy) = [] then True
      else if \<not> matchSelectorValues (sel [''tenant_ids'']) [req_TenantID request] then False
      else if \<not> matchSelectorValues (sel [''workspace_ids'', ''workspace_id'']) (requestWorkspaceValues ff request) then False
      else if \<not> matchSelectorValues (sel [''apps'', ''app_ids'', ''app'']) (meta [''app'', ''app_id'', ''application'', ''application_id'']) then False
      else if \<not> matchSelectorValues (sel [''models'', ''model_patterns'']) (requestValues (req_Model request) (meta [''model''])) then False
      else if \<not> matchSelectorValues (sel [''routes'', ''route_patterns'']) (meta [''route'', ''url_path'']) then False
      else if \<not> matchSelectorValues (sel [''providers'']) (requestValues (req_Provider request) (meta [''provider''])) then False
      else if \<not> matchSelectorValues (sel [''request_types'']) (meta [''request_type'']) then False
      else if \<not> matchSelectorValues (sel [''customer_ids'']) (requestValues (actor_CustomerID actor) (meta [''customer_id''])) then False
      else if \<not> matchSelectorValues (sel [''team_ids'']) (requestValues (actor_TeamID actor) (meta [''team_id''])) then False
      else if \<not> matchSelectorValues (sel [''actor_types'']) [actor_Type actor] then False
      else if \<not> matchSelectorValues (sel [''actor_roles'']) (requestValues (actor_Role actor) (meta [''actor_role''])) then False
      else if TrimSpace (DomainPackID policy) \<noteq> [] \<and> packs \<noteq> [] \<and> \<not> containsNormalizedValue packs (DomainPackID policy) then False
      else if \<not> matchSelectorValues (sel [''domain_pack_ids'']) (packs @ [DomainPackID policy]) then False
      else True)"

section \<open>Selection\<close>

text \<open>The comparison of \<open>sort.SliceStable\<close> in \<open>selectPolicies\<close>, on the cached sort keys of a candidate.\<close>

definition policy_less :: "(rat \<Rightarrow> string) \<Rightarrow> PolicyBundle \<Rightarrow> PolicyBundle \<Rightarrow> bool" where
  "policy_less ff p q =
     (if selectorPriority (Metadata p) \<noteq> selectorPriority (Metadata q)
      then selectorPriority (Metadata p) < selectorPriority (Metadata q)
      else if selectorSpecificity ff p \<noteq> selectorSpecificity ff q
      then selectorSpecificity ff p > selectorSpecificity ff q
      else if \<not> EqualFold (Name p) (Name q) then ToLower (Name p) < ToLower (Name q)
      else ToLower (PolicyID p) < ToLower (PolicyID q))"

definition policy_selected :: "(rat \<Rightarrow> string) \<Rightarrow> EvaluateRequest \<Rightarrow> PolicyBundle \<Rightarrow> bool" where
  "policy_selected ff request policy =
     (if \<not> Enabled policy then False
      else if IsDefault policy then False
      else if \<not> policyAppliesToStage ff policy (NormalizeStage (req_Stage request)) then False
      else policyMatchesRequest ff policy request)"

definition selectPolicies :: "(rat \<Rightarrow> string) \<Rightarrow> PolicyBundle list \<Rightarrow> EvaluateRequest \<Rightarrow> PolicyBundle list" where
  "selectPolicies ff policies request = SliceStable (policy_less ff) (filter (policy_selected ff request) policies)"

definition selectDefaultPolicies :: "(rat \<Rightarrow> string) \<Rightarrow> PolicyBundle list \<Rightarrow> string \<Rightarrow> PolicyBundle list" where
  "selectDefaultPolicies ff policies stage =
     filter (\<lambda>policy. \<not> (\<not> Enabled policy \<or> \<not> IsDefault policy) \<and> policyAppliesToStage ff policy (NormalizeStage stage)) policies"

fun pick_by_id :: "(string \<rightharpoonup> PolicyBundle) \<Rightarrow> string list \<Rightarrow> string list \<Rightarrow> PolicyBundle list" where
  "pick_by_id index seen [] = []"
| "pick_by_id index seen (policyID # ids) =
     (let trimmed = TrimSpace policyID in
      if trimmed = [] then pick_by_id index seen ids
      else if trimmed \<in> set seen then pick_by_id index seen ids
      else case index trimmed of
             None \<Rightarrow> pick_by_id index seen ids
           | Some policy \<Rightarrow> policy # pick_by_id index (trimmed # seen) ids)"

definition selectPoliciesByID :: "(rat \<Rightarrow> string) \<Rightarrow> PolicyBundle list \<Rightarrow> string list \<Rightarrow> string \<Rightarrow> PolicyBundle list" where
  "selectPoliciesByID ff policies policyIDs stage =
     (if policyIDs = [] then []
      else
        (let index = foldl (\<lambda>index policy.
               if \<not> Enabled policy \<or> \<not> policyAppliesToStage ff policy (NormalizeStage stage) then index
               else index(TrimSpace (PolicyID policy) \<mapsto> policy)) Map.empty policies
         in pick_by_id index [] policyIDs))"

definition policy_key :: "PolicyBundle \<Rightarrow> string" where
  "policy_key policy =
     TrimSpace (PolicyID policy) @ ''::'' @ TrimSpace (PolicyVersionID policy) @ ''::'' @ TrimSpace (Name policy)"

fun merge_loop :: "string list \<Rightarrow> PolicyBundle list \<Rightarrow> PolicyBundle list" where
  "merge_loop seen [] = []"
| "merge_loop seen (policy # ps) =
     (let key = policy_key policy in
      if key \<in> set seen then merge_loop seen ps else policy # merge_loop (key # seen) ps)"

definition mergeRuntimePolicies :: "PolicyBundle list \<Rightarrow> PolicyBundle list \<Rightarrow> PolicyBundle list" where
  "mergeRuntimePolicies basePolicies requestPolicies = merge_loop [] (basePolicies @ requestPolicies)"

section \<open>The policies of an evaluation\<close>

text \<open>The choice of \<open>EvaluateFastOnly\<close>.\<close>

definition fast_policies :: "(rat \<Rightarrow> string) \<Rightarrow> TenantBundle option \<Rightarrow> EvaluateRequest \<Rightarrow> PolicyBundle list" where
  "fast_policies ff bundle request =
     (case bundle of
        None \<Rightarrow> req_Policies request
      | Some b \<Rightarrow>
          (let policies = req_Policies request;
               hydratedPolicies = selectPolicies ff (tb_Policies b) request;
               requestedPolicies = selectPoliciesByID ff (tb_Policies b)
                 (requestMetadataValues ff (req_Metadata request) [''requested_policy_ids'']) (req_Stage request);
               skipTenantGuardrails = boolValue (req_Metadata request) ''skip_tenant_guardrails'' False in
           if requestedPolicies \<noteq> [] then mergeRuntimePolicies requestedPolicies policies
           else if policies = [] \<and> \<not> skipTenantGuardrails
           then mergeRuntimePolicies (selectDefaultPolicies ff (tb_Policies b) (req_Stage request)) hydratedPolicies
           else policies))"

text \<open>The choice of \<open>Evaluate\<close> for a tenant with a bundle, with the entries of the decision chain.\<close>

definition tenant_policies :: "(rat \<Rightarrow> string) \<Rightarrow> TenantBundle \<Rightarrow> EvaluateRequest \<Rightarrow> PolicyBundle list \<times> string list" where
  "tenant_policies ff b request =
     (let policies = req_Policies request;
          defaultPolicies = selectDefaultPolicies ff (tb_Policies b) (req_Stage request);
          hydratedPolicies = selectPolicies ff (tb_Policies b) request;
          requestedPolicies = selectPoliciesByID ff (tb_Policies b)
            (requestMetadataValues ff (req_Metadata request) [''requested_policy_ids'']) (req_Stage request);
          skipTenantGuardrails = boolValue (req_Metadata request) ''skip_tenant_guardrails'' False;
          chain = (if hydratedPolicies \<noteq> []
                   then [''using hydrated tenant bundle revision '' @ TrimSpace (tb_Revision b)] else []) in
      if requestedPolicies \<noteq> [] then
        (let attached = mergeRuntimePolicies requestedPolicies policies;
             chain' = chain @ [''attached virtual-key guardrails from hydrated tenant bundle''] in
         if boolValue (req_Metadata request) ''merge_tenant_policies'' False
         then (mergeRuntimePolicies (mergeRuntimePolicies attached defaultPolicies) hydratedPolicies,
               chain' @ [''merged attached virtual-key guardrails with default and matched tenant policies''])
         else (attached, chain'))
      else if policies = [] then
        (if skipTenantGuardrails
         then (policies, chain @ [''virtual key has no attached guardrails; skipped tenant default policy hydration''])
         else (mergeRuntimePolicies defaultPolicies hydratedPolicies,
               if defaultPolicies \<noteq> [] then chain @ [''applied tenant default guardrail policy''] else chain))
      else (policies, chain))"

definition builtin_policy :: "(string \<Rightarrow> gomap) \<Rightarrow> string \<Rightarrow> PolicyBundle" where
  "builtin_policy default_def stage =
     \<lparr>PolicyID = ''builtin-runtime-default'', PolicyVersionID = ''builtin-runtime-default-v1'',
      Name = ''Default Runtime Protection'', DomainPackID = [], Scope = NormalizeStage stage,
      EnforcementMode = ''block'', Enabled = True, IsDefault = False, TimeoutMs = 0, Metadata = [],
      Definition = default_def stage, ProviderBindings = []\<rparr>"

definition full_policies ::
  "(rat \<Rightarrow> string) \<Rightarrow> (string \<Rightarrow> gomap) \<Rightarrow> TenantBundle option \<Rightarrow> EvaluateRequest \<Rightarrow> PolicyBundle list \<times> string list" where
  "full_policies ff default_def bundle request =
     (let (policies, chain) = (case bundle of Some b \<Rightarrow> tenant_policies ff b request | None \<Rightarrow> (req_Policies request, [])) in
      if policies = [] \<and> bundle = None \<and> req_Policies request = []
      then ([builtin_policy default_def (req_Stage request)],
            chain @ [''no hydrated tenant policies available, using built-in defaults''])
      else if policies = [] then (policies, chain @ [''no enabled tenant policies matched the request''])
      else (policies, chain))"

section \<open>Facts\<close>

text \<open>The order of the selection, and the comparison as its strict part.\<close>

definition policy_order :: "(rat \<Rightarrow> string) \<Rightarrow> PolicyBundle \<Rightarrow> PolicyBundle \<Rightarrow> bool" where
  "policy_order ff p q \<longleftrightarrow>
     selectorPriority (Metadata p) < selectorPriority (Metadata q) \<or>
     selectorPriority (Metadata p) = selectorPriority (Metadata q) \<and>
     (selectorSpecificity ff p > selectorSpecificity ff q \<or>
      selectorSpecificity ff p = selectorSpecificity ff q \<and>
      (ToLower (Name p) < ToLower (Name q) \<or>
       ToLower (Name p) = ToLower (Name q) \<and> ToLower (PolicyID p) \<le> ToLower (PolicyID q)))"

lemma not_policy_less: "\<not> policy_less ff p q \<longleftrightarrow> policy_order ff q p"
  unfolding policy_less_def policy_order_def EqualFold_iff_ToLower by (auto simp: not_less less_le)

lemma policy_order_total: "policy_order ff p q \<or> policy_order ff q p"
  unfolding policy_order_def by (auto simp: less_le)

lemma policy_order_trans: "policy_order ff p q \<Longrightarrow> policy_order ff q r \<Longrightarrow> policy_order ff p r"
  unfolding policy_order_def by (elim disjE conjE) (auto intro: less_trans order_trans)

lemma policy_less_weak:
  "policy_less ff p q \<Longrightarrow> \<not> policy_less ff q p"
  "\<not> policy_less ff p q \<Longrightarrow> \<not> policy_less ff q r \<Longrightarrow> \<not> policy_less ff p r"
  using not_policy_less policy_order_total policy_order_trans by blast+

interpretation pol: slice_stable "policy_less ff" for ff
  by unfold_locales (fact policy_less_weak)+

text \<open>Merging keeps the first policy of each identity.\<close>

lemma merge_loop_distinct:
  "distinct (map policy_key (merge_loop seen ps)) \<and> policy_key ` set (merge_loop seen ps) \<inter> set seen = {}"
proof (induction ps arbitrary: seen)
  case Nil
  then show ?case by simp
next
  case (Cons p ps)
  show ?case using Cons [of seen] Cons [of "policy_key p # seen"] by (auto simp: Let_def disjoint_iff)
qed

lemma merge_loop_subset: "set (merge_loop seen ps) \<subseteq> set ps"
  by (induction ps arbitrary: seen) (auto simp: Let_def)

lemma merge_loop_keys: "policy_key ` set (merge_loop seen ps) \<union> set seen = policy_key ` set ps \<union> set seen"
proof (induction ps arbitrary: seen)
  case Nil
  then show ?case by simp
next
  case (Cons p ps)
  show ?case using Cons [of seen] Cons [of "policy_key p # seen"] by (auto simp: Let_def)
qed

lemma merge_loop_append:
  "merge_loop seen (ps @ qs) = merge_loop seen ps @ merge_loop (rev (map policy_key (merge_loop seen ps)) @ seen) qs"
  by (induction ps arbitrary: seen) (auto simp: Let_def)

lemma merge_loop_distinct_id:
  "distinct (map policy_key ps) \<Longrightarrow> policy_key ` set ps \<inter> set seen = {} \<Longrightarrow> merge_loop seen ps = ps"
  by (induction ps arbitrary: seen) (auto simp: Let_def)

lemma merge_prefix: "distinct (map policy_key ps) \<Longrightarrow> prefix ps (mergeRuntimePolicies ps qs)"
  by (simp add: mergeRuntimePolicies_def merge_loop_append merge_loop_distinct_id)

lemma merge_distinct: "distinct (map policy_key (mergeRuntimePolicies ps qs))"
  using merge_loop_distinct by (auto simp: mergeRuntimePolicies_def)

lemma merge_nonempty: "ps \<noteq> [] \<Longrightarrow> mergeRuntimePolicies ps qs \<noteq> []"
  by (cases ps) (auto simp: mergeRuntimePolicies_def Let_def)

text \<open>The policies of the fast evaluation open the list of the full evaluation.\<close>

lemma fast_prefix_full: "prefix (fast_policies ff bundle request) (fst (full_policies ff dd bundle request))"
proof (cases "bundle")
  case None
  then show ?thesis by (simp add: fast_policies_def full_policies_def)
next
  case (Some b)
  let ?t = "tenant_policies ff b request"
  have "prefix (fast_policies ff bundle request) (fst ?t)"
    by (auto simp: Some fast_policies_def tenant_policies_def Let_def
        intro: prefix_order.trans [OF merge_prefix [OF merge_distinct] merge_prefix [OF merge_distinct]])
  moreover have "fst (full_policies ff dd bundle request) = fst ?t"
    by (simp add: Some full_policies_def split: prod.split)
  ultimately show ?thesis by simp
qed

section \<open>Properties\<close>

text \<open>
  C29. The selection by selectors returns exactly the enabled, non-default policies of the bundle whose scopes hold
  the stage of the request and whose selectors all match it, each as often as the bundle has it.  The result is
  ordered by priority, then by decreasing specificity, then by lower-cased name and identifier, and policies equal
  in all four keep the order of the bundle.
\<close>

theorem select_policies_exact:
  "mset (selectPolicies ff ps req) =
     mset (filter (\<lambda>p. Enabled p \<and> \<not> IsDefault p \<and> NormalizeStage (req_Stage req) \<in> set (policyScopes ff p) \<and>
       policyMatchesRequest ff p req) ps) \<and>
   sorted_wrt (policy_order ff) (selectPolicies ff ps req) \<and>
   (\<forall>a. filter (\<lambda>p. \<not> policy_less ff a p \<and> \<not> policy_less ff p a) (selectPolicies ff ps req) =
      filter (\<lambda>p. \<not> policy_less ff a p \<and> \<not> policy_less ff p a) (filter (policy_selected ff req) ps))"
proof -
  have sel: "policy_selected ff req = (\<lambda>p. Enabled p \<and> \<not> IsDefault p \<and>
      NormalizeStage (req_Stage req) \<in> set (policyScopes ff p) \<and> policyMatchesRequest ff p req)"
    by (auto simp: policy_selected_def policyAppliesToStage_def list_ex_iff fun_eq_iff)
  have "mset (selectPolicies ff ps req) = mset (filter (policy_selected ff req) ps)"
    by (simp add: selectPolicies_def)
  moreover have "sorted_wrt (\<lambda>p q. \<not> policy_less ff q p) (selectPolicies ff ps req)"
    unfolding selectPolicies_def by (rule pol.sorted)
  then have "sorted_wrt (policy_order ff) (selectPolicies ff ps req)"
    by (simp add: not_policy_less)
  ultimately show ?thesis by (auto simp: sel selectPolicies_def pol.stable)
qed

text \<open>
  \<open>mergeRuntimePolicies\<close> keeps one policy for every identity (identifier, version and name, trimmed): no two
  results share one, every identity of the two lists is present, nothing else is, and the result is unchanged when
  the same policies are merged in again.
\<close>

theorem merge_policies_spec:
  "distinct (map policy_key (mergeRuntimePolicies ps qs)) \<and>
   policy_key ` set (mergeRuntimePolicies ps qs) = policy_key ` (set ps \<union> set qs) \<and>
   set (mergeRuntimePolicies ps qs) \<subseteq> set ps \<union> set qs \<and>
   mergeRuntimePolicies (mergeRuntimePolicies ps qs) qs = mergeRuntimePolicies ps qs"
proof -
  let ?m = "mergeRuntimePolicies ps qs"
  have d: "distinct (map policy_key ?m)" by (rule merge_distinct)
  have k: "policy_key ` set ?m = policy_key ` (set ps \<union> set qs)"
    using merge_loop_keys [of "[]" "ps @ qs"] by (simp add: mergeRuntimePolicies_def)
  have s: "set ?m \<subseteq> set ps \<union> set qs"
    using merge_loop_subset [of "[]" "ps @ qs"] by (simp add: mergeRuntimePolicies_def)
  have "merge_loop seen rs = []" if "policy_key ` set rs \<subseteq> set seen" for seen rs
    using that by (induction rs) (auto simp: Let_def)
  moreover have "policy_key ` set qs \<subseteq> policy_key ` set ?m" using k by auto
  ultimately have "mergeRuntimePolicies ?m qs = ?m"
    by (simp add: mergeRuntimePolicies_def [of ?m] merge_loop_append merge_loop_distinct_id [OF d])
  with d k s show ?thesis by blast
qed

end
