(* ===== verification/AhoCorasick.thy ===== *)
theory AhoCorasick
  imports Prelude
begin

text \<open>
  The literal pre-filter of the guard runtime,
  \<^verbatim>\<open>deepintshield_guard/internal/engine/aho_corasick.go\<close>: \<open>buildAhoCorasick\<close> and \<open>matches\<close>.

  A \<open>map[byte]int\<close> is an association list with distinct keys.  The order in which Go ranges over a
  map is not specified, so the definitions that range take it as the argument \<open>rng\<close>, a function
  that permutes the entries; every theorem is for every such \<open>rng\<close>.  The loops that follow failure
  links and the breadth-first loop are \<open>partial_function (option)\<close>: \<open>None\<close> is a loop that does not
  end, and the theorems show the result is \<open>Some\<close>.
\<close>

section \<open>The automaton\<close>

record ahoCorasickAutomaton =
  gotoFn :: "(byte \<times> nat) list list"
  ac_fail :: "nat list"
  ac_emit :: "bool list"

definition ac_goto :: "ahoCorasickAutomaton \<Rightarrow> nat \<Rightarrow> byte \<Rightarrow> nat option" where
  "ac_goto ac s b = map_of (gotoFn ac ! s) b"

definition ac_root :: ahoCorasickAutomaton where
  "ac_root = \<lparr>gotoFn = [[]], ac_fail = [0], ac_emit = [False]\<rparr>"

text \<open>The inner loop of the insertion: one byte of the pattern after the other.\<close>

fun ac_insert :: "ahoCorasickAutomaton \<Rightarrow> nat \<Rightarrow> byte list \<Rightarrow> ahoCorasickAutomaton \<times> nat" where
  "ac_insert ac state [] = (ac, state)"
| "ac_insert ac state (b # bs) =
     (case ac_goto ac state b of
        Some nxt \<Rightarrow> ac_insert ac nxt bs
      | None \<Rightarrow>
          (let nxt = length (gotoFn ac);
               g = gotoFn ac @ [[]];
               ac' = ac\<lparr>gotoFn := g[state := (b, nxt) # (g ! state)],
                        ac_fail := ac_fail ac @ [0],
                        ac_emit := ac_emit ac @ [False]\<rparr>
           in ac_insert ac' nxt bs))"

definition ac_add_pattern :: "ahoCorasickAutomaton \<Rightarrow> string \<Rightarrow> ahoCorasickAutomaton" where
  "ac_add_pattern ac p =
     (let p' = ToLower p in
      if p' = [] then ac
      else (case ac_insert ac 0 p' of
              (ac', state) \<Rightarrow> ac'\<lparr>ac_emit := (ac_emit ac')[state := True]\<rparr>))"

text \<open>\<open>for { if _, ok := gotoFn[f][b]; ok || f == 0 { break }; f = fail[f] }\<close>\<close>

partial_function (option) ac_follow :: "ahoCorasickAutomaton \<Rightarrow> nat \<Rightarrow> byte \<Rightarrow> nat option" where
  "ac_follow ac f b =
     (if ac_goto ac f b \<noteq> None \<or> f = 0 then Some f else ac_follow ac (ac_fail ac ! f) b)"

text \<open>The failure link and the emit flag of one child \<open>nxt\<close>, reached from \<open>node\<close> by the byte \<open>b\<close>.\<close>

definition ac_link :: "ahoCorasickAutomaton \<Rightarrow> nat \<Rightarrow> byte \<Rightarrow> nat \<Rightarrow> ahoCorasickAutomaton option" where
  "ac_link ac node b nxt =
     (case ac_follow ac (ac_fail ac ! node) b of
        None \<Rightarrow> None
      | Some f \<Rightarrow>
          (let target = (case ac_goto ac f b of
                           Some fg \<Rightarrow> if fg \<noteq> nxt then fg else 0
                         | None \<Rightarrow> 0);
               ac' = ac\<lparr>ac_fail := (ac_fail ac)[nxt := target]\<rparr>
           in Some (if ac_emit ac' ! (ac_fail ac' ! nxt)
                    then ac'\<lparr>ac_emit := (ac_emit ac')[nxt := True]\<rparr> else ac')))"

text \<open>The loop over the children of the dequeued node; the queue holds pairs (state, depth).\<close>

fun ac_children :: "ahoCorasickAutomaton \<Rightarrow> nat \<Rightarrow> nat \<Rightarrow> (nat \<times> nat) list \<Rightarrow> (byte \<times> nat) list
    \<Rightarrow> (ahoCorasickAutomaton \<times> (nat \<times> nat) list) option" where
  "ac_children ac node depth queue [] = Some (ac, queue)"
| "ac_children ac node depth queue ((b, nxt) # es) =
     (case ac_link ac node b nxt of
        None \<Rightarrow> None
      | Some ac' \<Rightarrow> ac_children ac' node depth (queue @ [(nxt, depth + 1)]) es)"

partial_function (option) ac_bfs :: "((byte \<times> nat) list \<Rightarrow> (byte \<times> nat) list) \<Rightarrow> ahoCorasickAutomaton
    \<Rightarrow> (nat \<times> nat) list \<Rightarrow> ahoCorasickAutomaton option" where
  "ac_bfs rng ac queue =
     (case queue of
        [] \<Rightarrow> Some ac
      | node # rest \<Rightarrow>
          (case ac_children ac (fst node) (snd node) rest (rng (gotoFn ac ! fst node)) of
             None \<Rightarrow> None
           | Some r \<Rightarrow> ac_bfs rng (fst r) (snd r)))"

definition ac_root_links :: "nat list \<Rightarrow> (byte \<times> nat) list \<Rightarrow> nat list" where
  "ac_root_links fl es = foldl (\<lambda>fl e. fl[snd e := 0]) fl es"

text \<open>The outer option is termination, the inner one the \<open>nil\<close> pointer.\<close>

definition buildAhoCorasick :: "((byte \<times> nat) list \<Rightarrow> (byte \<times> nat) list) \<Rightarrow> string list
    \<Rightarrow> ahoCorasickAutomaton option option" where
  "buildAhoCorasick rng patterns =
     (if patterns = [] then Some None
      else (let ac = foldl ac_add_pattern ac_root patterns;
                es = rng (gotoFn ac ! 0);
                ac' = ac\<lparr>ac_fail := ac_root_links (ac_fail ac) es\<rparr>;
                queue = map (\<lambda>e. (snd e, 1)) es
            in map_option Some (ac_bfs rng ac' queue)))"

text \<open>\<open>for state != 0 { if _, ok := gotoFn[state][b]; ok { break }; state = fail[state] }\<close>\<close>

partial_function (option) ac_fallback :: "ahoCorasickAutomaton \<Rightarrow> nat \<Rightarrow> byte \<Rightarrow> nat option" where
  "ac_fallback ac state b =
     (if state \<noteq> 0
      then (if ac_goto ac state b \<noteq> None then Some state else ac_fallback ac (ac_fail ac ! state) b)
      else Some state)"

fun ac_scan :: "ahoCorasickAutomaton \<Rightarrow> nat \<Rightarrow> byte list \<Rightarrow> bool option" where
  "ac_scan ac state [] = Some False"
| "ac_scan ac state (b # bs) =
     (case ac_fallback ac state b of
        None \<Rightarrow> None
      | Some st \<Rightarrow>
          (let st' = (case ac_goto ac st b of Some nxt \<Rightarrow> nxt | None \<Rightarrow> st)
           in if ac_emit ac ! st' then Some True else ac_scan ac st' bs))"

definition ac_matches :: "ahoCorasickAutomaton option \<Rightarrow> string \<Rightarrow> bool option" where
  "ac_matches acp input =
     (case acp of
        None \<Rightarrow> Some False
      | Some ac \<Rightarrow> if length input = 0 then Some False else ac_scan ac 0 input)"

section \<open>The reference: longest suffix in a set of words\<close>

text \<open>\<open>lsuf W w\<close> is the longest suffix of \<open>w\<close> in \<open>W\<close>; the automaton computes with it.\<close>

fun lsuf :: "'a list set \<Rightarrow> 'a list \<Rightarrow> 'a list" where
  "lsuf W [] = []"
| "lsuf W (x # xs) = (if x # xs \<in> W then x # xs else lsuf W xs)"

definition prefix_closed :: "'a list set \<Rightarrow> bool" where
  "prefix_closed W \<longleftrightarrow> (\<forall>w b. w @ [b] \<in> W \<longrightarrow> w \<in> W)"

text \<open>The labelling of the states by the words of the trie: state \<open>s\<close> stands for \<open>L ! s\<close>.\<close>

definition trie_ok :: "(byte \<times> nat) list list \<Rightarrow> string list \<Rightarrow> bool" where
  "trie_ok G L \<longleftrightarrow>
     length L = length G \<and> L \<noteq> [] \<and> L ! 0 = [] \<and> distinct L \<and> prefix_closed (set L) \<and>
     (\<forall>s < length G. distinct (map fst (G ! s)) \<and>
        (\<forall>b n. (b, n) \<in> set (G ! s) \<longleftrightarrow> n < length G \<and> L ! n = L ! s @ [b]))"

text \<open>What the insertion phase leaves: a trie of the patterns \<open>P\<close>, terminal states marked.\<close>

definition phase1 :: "ahoCorasickAutomaton \<Rightarrow> string list \<Rightarrow> string set \<Rightarrow> bool" where
  "phase1 ac L P \<longleftrightarrow>
     trie_ok (gotoFn ac) L \<and> P \<subseteq> set L \<and> [] \<notin> P \<and>
     length (ac_fail ac) = length L \<and> length (ac_emit ac) = length L \<and>
     (\<forall>s < length L. ac_fail ac ! s = 0) \<and>
     (\<forall>s < length L. ac_emit ac ! s \<longleftrightarrow> L ! s \<in> P)"

text \<open>A state whose failure link and emit flag are final.\<close>

definition linked :: "ahoCorasickAutomaton \<Rightarrow> string list \<Rightarrow> string set \<Rightarrow> nat \<Rightarrow> bool" where
  "linked ac L P n \<longleftrightarrow>
     ac_fail ac ! n < length L \<and> L ! (ac_fail ac ! n) = lsuf (set L) (tl (L ! n)) \<and>
     (ac_emit ac ! n \<longleftrightarrow> (\<exists>p \<in> P. suffix p (L ! n)))"

definition automaton_ok :: "ahoCorasickAutomaton \<Rightarrow> string list \<Rightarrow> string set \<Rightarrow> bool" where
  "automaton_ok ac L P \<longleftrightarrow>
     trie_ok (gotoFn ac) L \<and> P \<subseteq> set L \<and> [] \<notin> P \<and>
     length (ac_fail ac) = length L \<and> length (ac_emit ac) = length L \<and>
     (\<forall>n < length L. linked ac L P n)"

text \<open>The invariant of the breadth-first loop; \<open>D\<close> is the set of states already linked.\<close>

definition bfs_inv :: "ahoCorasickAutomaton \<Rightarrow> string list \<Rightarrow> string set \<Rightarrow> nat set \<Rightarrow> nat list \<Rightarrow> bool" where
  "bfs_inv ac L P D q \<longleftrightarrow>
     trie_ok (gotoFn ac) L \<and> P \<subseteq> set L \<and> [] \<notin> P \<and>
     length (ac_fail ac) = length L \<and> length (ac_emit ac) = length L \<and>
     0 \<in> D \<and> D \<subseteq> {..<length L} \<and> 0 \<notin> set q \<and> set q \<subseteq> D \<and> distinct q \<and>
     (\<forall>n \<in> D. linked ac L P n) \<and>
     (\<forall>n < length L. n \<notin> D \<longrightarrow> (ac_emit ac ! n \<longleftrightarrow> L ! n \<in> P)) \<and>
     (\<forall>n < length L. n \<notin> D \<longrightarrow> (\<exists>k \<in> set q. strict_prefix (L ! k) (L ! n))) \<and>
     (\<forall>n \<in> D. \<forall>k \<in> set q. \<forall>b. L ! n \<noteq> L ! k @ [b])"

text \<open>The queue is sorted by depth, and no linked state is more than one level below its head.\<close>

definition by_depth :: "string list \<Rightarrow> nat set \<Rightarrow> nat list \<Rightarrow> bool" where
  "by_depth L D q \<longleftrightarrow>
     sorted (map (\<lambda>n. length (L ! n)) q) \<and>
     (q \<noteq> [] \<longrightarrow> (\<forall>n \<in> D. length (L ! n) \<le> Suc (length (L ! hd q))))"

text \<open>The failure links of all states up to depth \<open>d\<close> are right.\<close>

definition links_upto :: "ahoCorasickAutomaton \<Rightarrow> string list \<Rightarrow> nat \<Rightarrow> bool" where
  "links_upto ac L d \<longleftrightarrow>
     (\<forall>n < length L. length (L ! n) \<le> d \<longrightarrow>
        ac_fail ac ! n < length L \<and> L ! (ac_fail ac ! n) = lsuf (set L) (tl (L ! n)))"

text \<open>The invariant while the children of the dequeued state \<open>k\<close> are linked; \<open>es\<close> is what is left.\<close>

definition children_inv :: "ahoCorasickAutomaton \<Rightarrow> string list \<Rightarrow> string set \<Rightarrow> nat \<Rightarrow> nat set \<Rightarrow> nat list
    \<Rightarrow> (byte \<times> nat) list \<Rightarrow> bool" where
  "children_inv ac L P k D q es \<longleftrightarrow>
     trie_ok (gotoFn ac) L \<and> P \<subseteq> set L \<and> [] \<notin> P \<and>
     length (ac_fail ac) = length L \<and> length (ac_emit ac) = length L \<and>
     0 \<in> D \<and> D \<subseteq> {..<length L} \<and> 0 \<notin> set q \<and> set q \<subseteq> D \<and> distinct q \<and>
     k \<in> D \<and> k \<noteq> 0 \<and> k \<notin> set q \<and> distinct (map snd es) \<and>
     (\<forall>n \<in> D. linked ac L P n) \<and>
     (\<forall>n < length L. n \<notin> D \<longrightarrow> (ac_emit ac ! n \<longleftrightarrow> L ! n \<in> P)) \<and>
     (\<forall>n < length L. n \<notin> D \<longrightarrow> (\<exists>j \<in> insert k (set q). strict_prefix (L ! j) (L ! n))) \<and>
     (\<forall>n \<in> D. \<forall>j \<in> set q. \<forall>b. L ! n \<noteq> L ! j @ [b]) \<and>
     (\<forall>n < length L. length (L ! n) \<le> length (L ! k) \<longrightarrow> n \<in> D) \<and>
     (\<forall>n \<in> D. length (L ! n) \<le> Suc (length (L ! k))) \<and>
     (\<forall>e \<in> set es. snd e \<notin> D \<and> snd e < length L \<and> L ! snd e = L ! k @ [fst e]) \<and>
     (\<forall>n < length L. \<forall>b. L ! n = L ! k @ [b] \<longrightarrow> (b, n) \<in> set es \<or> n \<in> set q)"

section \<open>Facts on the longest suffix\<close>

lemma lsuf_suffix: "suffix (lsuf W w) w"
  by (induction w) (auto intro: suffix_ConsI)

lemma lsuf_in: "[] \<in> W \<Longrightarrow> lsuf W w \<in> W"
  by (induction w) auto

lemma lsuf_greatest: "suffix u w \<Longrightarrow> u \<in> W \<Longrightarrow> suffix u (lsuf W w)"
  by (induction w) (auto simp: suffix_Cons)

lemma lsuf_unique:
  assumes "suffix v w" "v \<in> W" "\<And>u. suffix u w \<Longrightarrow> u \<in> W \<Longrightarrow> length u \<le> length v" "[] \<in> W"
  shows "lsuf W w = v"
proof -
  have "suffix v (lsuf W w)" using assms(1,2) by (rule lsuf_greatest)
  moreover have "length (lsuf W w) \<le> length v"
    using assms(3) lsuf_suffix lsuf_in [OF assms(4)] by blast
  ultimately show ?thesis
    by (metis suffix_length_le suffix_order.eq_iff suffix_length_suffix lsuf_suffix assms(1))
qed

lemma lsuf_self [simp]: "w \<in> W \<Longrightarrow> lsuf W w = w"
  by (cases w) auto

text \<open>Reading one more byte may start from the longest suffix instead of from the whole text.\<close>

lemma lsuf_snoc_lsuf:
  assumes "prefix_closed W" "[] \<in> W"
  shows "lsuf W (lsuf W x @ [b]) = lsuf W (x @ [b])"
proof -
  have eq: "suffix u (lsuf W x @ [b]) \<longleftrightarrow> suffix u (x @ [b])" if "u \<in> W" for u
  proof -
    have "suffix v (lsuf W x) \<longleftrightarrow> suffix v x" if "v @ [b] \<in> W" for v
      using that assms(1) lsuf_greatest [of v x W] lsuf_suffix [of W x]
      by (auto simp: prefix_closed_def intro: suffix_order.trans)
    with that show ?thesis by (auto simp: suffix_snoc_iff)
  qed
  show ?thesis
  proof (rule lsuf_unique)
    have "lsuf W (x @ [b]) \<in> W" by (rule lsuf_in [OF assms(2)])
    then show "suffix (lsuf W (x @ [b])) (lsuf W x @ [b])" "lsuf W (x @ [b]) \<in> W"
      using eq lsuf_suffix by blast+
    show "length u \<le> length (lsuf W (x @ [b]))" if "suffix u (lsuf W x @ [b])" "u \<in> W" for u
      using that lsuf_greatest [of u "x @ [b]" W] eq [of u] suffix_length_le by blast
  qed (rule assms(2))
qed

lemma lsuf_drop_hd:
  assumes "prefix_closed W" "[] \<in> W" "v \<noteq> []" "v @ [b] \<notin> W"
  shows "lsuf W (lsuf W (tl v) @ [b]) = lsuf W (v @ [b])"
proof -
  have "lsuf W (v @ [b]) = lsuf W (tl v @ [b])"
    using assms(3,4) by (cases v) auto
  then show ?thesis by (simp add: lsuf_snoc_lsuf [OF assms(1,2)])
qed

lemma lsuf_length: "length (lsuf W w) \<le> length w"
  by (simp add: lsuf_suffix suffix_length_le)

lemma suffix_tl_cases: "suffix p w \<longleftrightarrow> p = w \<or> (w \<noteq> [] \<and> suffix p (tl w))"
  by (cases w) (auto simp: suffix_Cons)

lemma suffix_lsuf_iff: "p \<in> W \<Longrightarrow> suffix p (lsuf W w) \<longleftrightarrow> suffix p w"
  by (meson lsuf_greatest lsuf_suffix suffix_order.trans)

section \<open>The labelled trie\<close>

lemma trie_goto_iff:
  assumes "trie_ok (gotoFn ac) L" "s < length L"
  shows "ac_goto ac s b = Some n \<longleftrightarrow> n < length L \<and> L ! n = L ! s @ [b]"
proof -
  have "distinct (map fst (gotoFn ac ! s))"
    using assms by (auto simp: trie_ok_def)
  then have "ac_goto ac s b = Some n \<longleftrightarrow> (b, n) \<in> set (gotoFn ac ! s)"
    by (simp add: ac_goto_def)
  with assms show ?thesis by (auto simp: trie_ok_def)
qed

lemma trie_goto_None_iff:
  assumes "trie_ok (gotoFn ac) L" "s < length L"
  shows "ac_goto ac s b = None \<longleftrightarrow> L ! s @ [b] \<notin> set L"
proof -
  have "(\<exists>n. ac_goto ac s b = Some n) \<longleftrightarrow> L ! s @ [b] \<in> set L"
    by (auto simp: trie_goto_iff [OF assms] in_set_conv_nth)
  then show ?thesis by (cases "ac_goto ac s b") auto
qed

lemma trie_basic:
  assumes "trie_ok G L"
  shows "0 < length L" "L ! 0 = []" "distinct L" "prefix_closed (set L)" "[] \<in> set L"
    "length L = length G"
  using assms by (auto simp: trie_ok_def) (metis length_greater_0_conv nth_mem)+

lemma trie_root_iff:
  assumes "trie_ok G L" "s < length L"
  shows "L ! s = [] \<longleftrightarrow> s = 0"
  using assms trie_basic [OF assms(1)] by (metis nth_eq_iff_index_eq)

lemma trie_label_inj:
  assumes "trie_ok G L" "s < length L" "t < length L" "L ! s = L ! t"
  shows "s = t"
  using assms trie_basic(3) by (metis nth_eq_iff_index_eq)

section \<open>Following failure links\<close>

text \<open>
  Both failure loops satisfy the same equation; the lemma is proved once for a function that
  satisfies it, with the links known to be right up to the depth the walk starts from.
\<close>

lemma failure_walk:
  assumes F: "\<And>s. F s = (if ac_goto ac s b \<noteq> None \<or> s = 0 then Some s else F (ac_fail ac ! s))"
    and T: "trie_ok (gotoFn ac) L"
    and links: "links_upto ac L (length (L ! s))" and s: "s < length L"
  shows "\<exists>f. F s = Some f \<and> f < length L \<and>
    (case ac_goto ac f b of
       Some n \<Rightarrow> n < length L \<and> L ! n = lsuf (set L) (L ! s @ [b])
     | None \<Rightarrow> f = 0 \<and> lsuf (set L) (L ! s @ [b]) = [])"
  using links s
proof (induction "length (L ! s)" arbitrary: s rule: less_induct)
  case less
  note basic = trie_basic [OF T]
  show ?case
  proof (cases "ac_goto ac s b")
    case (Some n)
    then have n: "n < length L" "L ! n = L ! s @ [b]"
      using trie_goto_iff [OF T less.prems(2)] by auto
    then have "L ! s @ [b] \<in> set L" by (metis nth_mem)
    with n have "L ! n = lsuf (set L) (L ! s @ [b])" by simp
    with n Some less.prems(2) show ?thesis by (simp add: F [of s])
  next
    case None
    then have out: "L ! s @ [b] \<notin> set L"
      using trie_goto_None_iff [OF T less.prems(2)] by simp
    show ?thesis
    proof (cases "s = 0")
      case True
      with out basic have "lsuf (set L) (L ! s @ [b]) = []" by simp
      moreover have "F s = Some s" using True F [of s] by simp
      ultimately show ?thesis using True None less.prems(2) by auto
    next
      case False
      let ?g = "ac_fail ac ! s"
      from less.prems have g: "?g < length L" "L ! ?g = lsuf (set L) (tl (L ! s))"
        by (auto simp: links_upto_def)
      have ne: "L ! s \<noteq> []"
        using trie_root_iff [OF T less.prems(2)] False by simp
      then have "length (tl (L ! s)) < length (L ! s)" by (cases "L ! s") auto
      then have shorter: "length (L ! ?g) < length (L ! s)"
        using lsuf_length [of "set L" "tl (L ! s)"] by (simp add: g(2))
      then have "links_upto ac L (length (L ! ?g))"
        using less.prems(1) by (auto simp: links_upto_def)
      note IH = less.hyps [OF shorter this g(1)]
      have same: "lsuf (set L) (L ! ?g @ [b]) = lsuf (set L) (L ! s @ [b])"
        using lsuf_drop_hd [OF basic(4,5) ne out] by (simp add: g(2))
      have "F s = F ?g" using None False F [of s] by simp
      with IH [unfolded same] show ?thesis by simp
    qed
  qed
qed

lemmas ac_follow_walk = failure_walk [where F = "\<lambda>s. ac_follow ac s b" for ac b, OF ac_follow.simps]

lemma ac_fallback_eq:
  "ac_fallback ac s b = (if ac_goto ac s b \<noteq> None \<or> s = 0 then Some s else ac_fallback ac (ac_fail ac ! s) b)"
  by (subst ac_fallback.simps) auto

lemmas ac_fallback_walk = failure_walk [where F = "\<lambda>s. ac_fallback ac s b" for ac b, OF ac_fallback_eq]

section \<open>Linking one state\<close>

lemma ac_link_ok:
  assumes T: "trie_ok (gotoFn ac) L" and P: "P \<subseteq> set L" "[] \<notin> P"
    and len: "length (ac_fail ac) = length L" "length (ac_emit ac) = length L"
    and D: "\<And>n. n \<in> D \<Longrightarrow> linked ac L P n"
    and depth: "\<And>n. n < length L \<Longrightarrow> length (L ! n) \<le> length (L ! k) \<Longrightarrow> n \<in> D"
    and k: "k < length L" "k \<noteq> 0"
    and nxt: "nxt < length L" "L ! nxt = L ! k @ [b]" "ac_emit ac ! nxt \<longleftrightarrow> L ! nxt \<in> P"
  shows "\<exists>ac'. ac_link ac k b nxt = Some ac' \<and> gotoFn ac' = gotoFn ac \<and>
    length (ac_fail ac') = length L \<and> length (ac_emit ac') = length L \<and> linked ac' L P nxt \<and>
    (\<forall>n. n \<noteq> nxt \<longrightarrow> ac_fail ac' ! n = ac_fail ac ! n \<and> ac_emit ac' ! n = ac_emit ac ! n)"
proof -
  note basic = trie_basic [OF T]
  let ?g = "ac_fail ac ! k"
  have kD: "linked ac L P k" using D depth k by simp
  then have g: "?g < length L" "L ! ?g = lsuf (set L) (tl (L ! k))"
    by (auto simp: linked_def)
  have kne: "L ! k \<noteq> []" using trie_root_iff [OF T k(1)] k(2) by simp
  have glen: "length (L ! ?g) < length (L ! k)"
    using lsuf_length [of "set L" "tl (L ! k)"] kne by (cases "L ! k") (auto simp: g(2))
  have "links_upto ac L (length (L ! ?g))"
    using D depth glen by (auto simp: links_upto_def linked_def)
  from ac_follow_walk [OF T this g(1), of b]
  obtain f where f: "ac_follow ac ?g b = Some f"
    and res: "case ac_goto ac f b of
       Some n \<Rightarrow> n < length L \<and> L ! n = lsuf (set L) (L ! ?g @ [b])
     | None \<Rightarrow> f = 0 \<and> lsuf (set L) (L ! ?g @ [b]) = []"
    by auto
  let ?t = "case ac_goto ac f b of Some fg \<Rightarrow> if fg \<noteq> nxt then fg else 0 | None \<Rightarrow> 0"
  have lab: "lsuf (set L) (L ! ?g @ [b]) = lsuf (set L) (tl (L ! nxt))"
    using lsuf_snoc_lsuf [OF basic(4,5), of "tl (L ! k)" b] kne by (simp add: g(2) nxt(2))
  have t: "?t < length L" "L ! ?t = lsuf (set L) (tl (L ! nxt))"
  proof -
    have "?t < length L \<and> L ! ?t = lsuf (set L) (tl (L ! nxt))"
    proof (cases "ac_goto ac f b")
      case None
      with res lab basic show ?thesis by simp
    next
      case (Some n)
      with res have n: "n < length L" "L ! n = lsuf (set L) (tl (L ! nxt))"
        by (simp_all add: lab)
      have "length (L ! n) \<le> length (L ! k)"
        using lsuf_length [of "set L" "tl (L ! nxt)"] kne
        by (cases "L ! k") (auto simp: n(2) nxt(2))
      then have "n \<noteq> nxt" using nxt(2) by auto
      with n Some show ?thesis by simp
    qed
    then show "?t < length L" "L ! ?t = lsuf (set L) (tl (L ! nxt))" by auto
  qed
  have tne: "?t \<noteq> nxt"
  proof
    assume "?t = nxt"
    then have "L ! nxt = lsuf (set L) (tl (L ! nxt))" using t(2) by simp
    then have "length (L ! nxt) \<le> length (tl (L ! nxt))" by (metis lsuf_length)
    moreover have "L ! nxt \<noteq> []" by (simp add: nxt(2))
    ultimately show False by (cases "L ! nxt") simp_all
  qed
  have tlen: "length (L ! ?t) \<le> length (L ! k)"
    using lsuf_length [of "set L" "tl (L ! nxt)"] kne
    by (cases "L ! k") (auto simp: t(2) nxt(2))
  have emit_t: "ac_emit ac ! ?t \<longleftrightarrow> (\<exists>p \<in> P. suffix p (tl (L ! nxt)))"
  proof -
    have "linked ac L P ?t" using D depth t(1) tlen by blast
    then have "ac_emit ac ! ?t \<longleftrightarrow> (\<exists>p \<in> P. suffix p (lsuf (set L) (tl (L ! nxt))))"
      using t(2) by (simp add: linked_def)
    then show ?thesis using P(1) by (metis subsetD suffix_lsuf_iff)
  qed
  have ne: "L ! nxt \<noteq> []" by (simp add: nxt(2))
  have split: "(\<exists>p \<in> P. suffix p (L ! nxt)) \<longleftrightarrow> L ! nxt \<in> P \<or> (\<exists>p \<in> P. suffix p (tl (L ! nxt)))"
    using ne by (auto simp: suffix_tl_cases [of _ "L ! nxt"])
  show ?thesis
    using f t tne emit_t split nxt len
    by (auto simp: ac_link_def Let_def linked_def)
qed

section \<open>The breadth-first loop\<close>

lemma prefix_closed_append: "prefix_closed W \<Longrightarrow> u @ v \<in> W \<Longrightarrow> u \<in> W"
  by (induction v rule: rev_induct) (auto simp: prefix_closed_def simp flip: append_assoc)

lemma linked_cong:
  "ac_fail ac' ! n = ac_fail ac ! n \<Longrightarrow> ac_emit ac' ! n = ac_emit ac ! n \<Longrightarrow>
   linked ac' L P n = linked ac L P n"
  by (simp add: linked_def)

lemma children_step:
  assumes inv: "children_inv ac L P k D q ((b, nxt) # es)"
  shows "\<exists>ac'. ac_link ac k b nxt = Some ac' \<and> gotoFn ac' = gotoFn ac \<and>
    children_inv ac' L P k (insert nxt D) (q @ [nxt]) es"
proof -
  from inv have nxt: "nxt \<notin> D" "nxt < length L" "L ! nxt = L ! k @ [b]"
    and emit: "ac_emit ac ! nxt \<longleftrightarrow> L ! nxt \<in> P" and k: "k < length L" "k \<noteq> 0" "k \<in> D"
    and T: "trie_ok (gotoFn ac) L"
    by (auto simp: children_inv_def)
  have "\<exists>ac'. ac_link ac k b nxt = Some ac' \<and> gotoFn ac' = gotoFn ac \<and>
    length (ac_fail ac') = length L \<and> length (ac_emit ac') = length L \<and> linked ac' L P nxt \<and>
    (\<forall>n. n \<noteq> nxt \<longrightarrow> ac_fail ac' ! n = ac_fail ac ! n \<and> ac_emit ac' ! n = ac_emit ac ! n)"
    using inv nxt emit k by (intro ac_link_ok [where D = D]) (auto simp: children_inv_def)
  then obtain ac' where ac': "ac_link ac k b nxt = Some ac'" "gotoFn ac' = gotoFn ac"
      "length (ac_fail ac') = length L" "length (ac_emit ac') = length L" "linked ac' L P nxt"
    and same: "\<And>n. n \<noteq> nxt \<Longrightarrow> ac_fail ac' ! n = ac_fail ac ! n \<and> ac_emit ac' ! n = ac_emit ac ! n"
    by blast
  have nz: "nxt \<noteq> 0" "nxt \<notin> set q" "nxt \<noteq> k" using inv nxt by (auto simp: children_inv_def)
  have linked': "\<forall>n \<in> insert nxt D. linked ac' L P n"
  proof
    fix n assume "n \<in> insert nxt D"
    then show "linked ac' L P n"
      using ac'(5) same [of n] inv linked_cong [of ac' n ac L P]
      by (cases "n = nxt") (auto simp: children_inv_def)
  qed
  have nochild: "L ! n \<noteq> L ! j @ [c]" if "n \<in> insert nxt D" "j \<in> insert nxt (set q)" for n j c
  proof
    assume eq: "L ! n = L ! j @ [c]"
    have nD: "n < length L" "j < length L" using that inv nxt by (auto simp: children_inv_def)
    show False
    proof (cases "j = nxt")
      case True
      then have "\<not> length (L ! n) \<le> Suc (length (L ! k))" using eq nxt by simp
      moreover have "n \<in> D" using eq True that by auto
      ultimately show False using inv by (auto simp: children_inv_def)
    next
      case False
      then have j: "j \<in> set q" using that by simp
      show False
      proof (cases "n = nxt")
        case True
        with eq nxt have "L ! j = L ! k" by simp
        then have "j = k" using trie_label_inj [OF T] nD k by blast
        with j inv show False by (auto simp: children_inv_def)
      next
        case False
        with that have "n \<in> D" by simp
        with j eq inv show False by (auto simp: children_inv_def)
      qed
    qed
  qed
  have anc: "\<exists>j \<in> insert k (set (q @ [nxt])). strict_prefix (L ! j) (L ! n)"
    if "n < length L" "n \<notin> insert nxt D" for n
    using that inv by (fastforce simp: children_inv_def)
  have es: "\<forall>e \<in> set es. snd e \<notin> insert nxt D \<and> snd e < length L \<and> L ! snd e = L ! k @ [fst e]"
    using inv by (auto simp: children_inv_def)
  have kids: "\<forall>n < length L. \<forall>c. L ! n = L ! k @ [c] \<longrightarrow> (c, n) \<in> set es \<or> n \<in> set (q @ [nxt])"
    using inv by (fastforce simp: children_inv_def)
  have "children_inv ac' L P k (insert nxt D) (q @ [nxt]) es"
    unfolding children_inv_def
  proof (intro conjI)
    show "trie_ok (gotoFn ac') L" using T ac'(2) by simp
    show "\<forall>n < length L. n \<notin> insert nxt D \<longrightarrow> (ac_emit ac' ! n \<longleftrightarrow> L ! n \<in> P)"
      using inv same by (auto simp: children_inv_def)
    show "\<forall>n \<in> insert nxt D. \<forall>j \<in> set (q @ [nxt]). \<forall>b. L ! n \<noteq> L ! j @ [b]"
      using nochild by simp
  qed (use inv nxt nz ac' linked' anc es kids in \<open>auto simp: children_inv_def\<close>)
  with ac' show ?thesis by blast
qed

lemma children_loop:
  assumes "children_inv ac L P k D (map fst q) es"
  shows "\<exists>ac'. ac_children ac k d q es = Some (ac', q @ map (\<lambda>e. (snd e, d + 1)) es) \<and>
    gotoFn ac' = gotoFn ac \<and>
    children_inv ac' L P k (D \<union> snd ` set es) (map fst q @ map snd es) []"
  using assms
proof (induction es arbitrary: ac D q)
  case Nil
  then show ?case by simp
next
  case (Cons e es)
  obtain b nxt where e: "e = (b, nxt)" by force
  from children_step [OF Cons.prems [unfolded e]]
  obtain ac1 where ac1: "ac_link ac k b nxt = Some ac1" "gotoFn ac1 = gotoFn ac"
    and inv1: "children_inv ac1 L P k (insert nxt D) (map fst (q @ [(nxt, d + 1)])) es"
    by auto
  from Cons.IH [OF inv1] ac1 show ?case by (auto simp: e)
qed

lemma bfs_inv_children:
  assumes inv: "bfs_inv ac L P D (k # q)" and dep: "by_depth L D (k # q)"
    and es: "mset es = mset (gotoFn ac ! k)"
  shows "children_inv ac L P k D q es"
proof -
  from inv have T: "trie_ok (gotoFn ac) L" and k: "k < length L" "k \<noteq> 0" "k \<in> D"
    by (auto simp: bfs_inv_def)
  have edges: "(b, n) \<in> set es \<longleftrightarrow> n < length L \<and> L ! n = L ! k @ [b]" for b n
    using T k es by (metis (no_types, lifting) mset_eq_setD trie_ok_def)
  have dfst: "distinct (map fst es)"
    using T k es by (metis (no_types, lifting) mset_eq_imp_distinct_iff mset_map trie_ok_def)
  have dsnd: "distinct (map snd es)"
  proof -
    have "inj_on snd (set es)"
      using edges by (fastforce simp: inj_on_def)
    moreover have "distinct es" using dfst by (simp add: distinct_map)
    ultimately show ?thesis by (simp add: distinct_map)
  qed
  have deep: "n \<in> D" if "n < length L" "length (L ! n) \<le> length (L ! k)" for n
  proof (rule ccontr)
    assume "n \<notin> D"
    with that inv obtain j where "j \<in> set (k # q)" "strict_prefix (L ! j) (L ! n)"
      unfolding bfs_inv_def by blast
    moreover from this(1) dep have "length (L ! k) \<le> length (L ! j)"
      by (auto simp: by_depth_def)
    ultimately show False using that(2) prefix_length_less by fastforce
  qed
  have fresh: "n \<notin> D" if "(b, n) \<in> set es" for b n
    using that inv edges by (auto simp: bfs_inv_def)
  show ?thesis
    unfolding children_inv_def
  proof (intro conjI)
    show "\<forall>n < length L. n \<notin> D \<longrightarrow> (\<exists>j \<in> insert k (set q). strict_prefix (L ! j) (L ! n))"
      using inv by (auto simp: bfs_inv_def)
    show "\<forall>e \<in> set es. snd e \<notin> D \<and> snd e < length L \<and> L ! snd e = L ! k @ [fst e]"
      using fresh edges by auto
    show "\<forall>n < length L. \<forall>b. L ! n = L ! k @ [b] \<longrightarrow> (b, n) \<in> set es \<or> n \<in> set q"
      using edges by blast
    show "\<forall>n \<in> D. length (L ! n) \<le> Suc (length (L ! k))"
      using dep by (simp add: by_depth_def)
  qed (use inv k deep dsnd in \<open>auto simp: bfs_inv_def\<close>)
qed

lemma children_done:
  assumes inv: "children_inv ac L P k D q []"
  shows "bfs_inv ac L P D q"
proof -
  from inv have T: "trie_ok (gotoFn ac) L" and k: "k < length L" by (auto simp: children_inv_def)
  have anc: "\<forall>n < length L. n \<notin> D \<longrightarrow> (\<exists>j \<in> insert k (set q). strict_prefix (L ! j) (L ! n))"
    using inv unfolding children_inv_def by (elim conjE)
  have "\<exists>j \<in> set q. strict_prefix (L ! j) (L ! n)" if n: "n < length L" "n \<notin> D" for n
  proof -
    from anc n obtain j where j: "j \<in> insert k (set q)" "strict_prefix (L ! j) (L ! n)"
      by blast
    show ?thesis
    proof (cases "j \<in> set q")
      case True
      with j show ?thesis by blast
    next
      case False
      with j have "strict_prefix (L ! k) (L ! n)" by simp
      then obtain c cs where c: "L ! n = (L ! k @ [c]) @ cs"
        by (elim strict_prefixE') simp
      have "L ! n \<in> set L" using n by simp
      then have "L ! k @ [c] \<in> set L"
        using c prefix_closed_append [OF trie_basic(4) [OF T]] by metis
      then obtain m where m: "m < length L" "L ! m = L ! k @ [c]" by (metis in_set_conv_nth)
      with inv have mq: "m \<in> set q" by (auto simp: children_inv_def)
      with inv n have "m \<noteq> n" by (auto simp: children_inv_def)
      then have "L ! m \<noteq> L ! n" using trie_label_inj [OF T] m n by blast
      with c m have "strict_prefix (L ! m) (L ! n)" by (auto simp: strict_prefix_def)
      with mq show ?thesis by blast
    qed
  qed
  with inv show ?thesis by (auto simp: children_inv_def bfs_inv_def)
qed

lemma by_depth_children:
  assumes inv: "children_inv ac L P k D q es" and dep: "by_depth L D (k # q)"
  shows "by_depth L (D \<union> snd ` set es) (q @ map snd es)"
proof -
  have len: "length (L ! snd e) = Suc (length (L ! k))" if "e \<in> set es" for e
    using inv that by (auto simp: children_inv_def)
  have up: "length (L ! n) \<le> Suc (length (L ! k))" if "n \<in> D" for n
    using inv that by (auto simp: children_inv_def)
  have qD: "set q \<subseteq> D" using inv by (auto simp: children_inv_def)
  have srt: "sorted (map (\<lambda>n. length (L ! n)) q)" "\<forall>j \<in> set q. length (L ! k) \<le> length (L ! j)"
    using dep by (auto simp: by_depth_def)
  have const: "map (\<lambda>n. length (L ! n)) (map snd es) = replicate (length es) (Suc (length (L ! k)))"
    using len by (induction es) auto
  have "sorted (map (\<lambda>n. length (L ! n)) (q @ map snd es))"
    unfolding map_append const using srt qD up by (auto simp: sorted_append)
  moreover have "length (L ! k) \<le> length (L ! hd (q @ map snd es))" if "q @ map snd es \<noteq> []"
    using that srt len by (cases q; cases es) auto
  ultimately show ?thesis
    using up len by (fastforce simp: by_depth_def intro: order_trans)
qed

theorem ac_bfs_total:
  assumes rng: "\<And>m. mset (rng m) = mset m"
    and "bfs_inv ac L P D (map fst q)" "by_depth L D (map fst q)"
  shows "\<exists>ac'. ac_bfs rng ac q = Some ac' \<and> automaton_ok ac' L P"
  using assms(2,3)
proof (induction "card ({..<length L} - D) + length q" arbitrary: ac D q rule: less_induct)
  case less
  show ?case
  proof (cases q)
    case Nil
    then have "\<forall>n < length L. n \<in> D" using less.prems by (auto simp: bfs_inv_def)
    with less.prems have "automaton_ok ac L P" by (auto simp: bfs_inv_def automaton_ok_def)
    with Nil show ?thesis by (subst ac_bfs.simps) simp
  next
    case (Cons node rest)
    obtain k d where node: "node = (k, d)" by force
    let ?es = "rng (gotoFn ac ! k)"
    have inv: "children_inv ac L P k D (map fst rest) ?es"
      using less.prems rng by (intro bfs_inv_children) (auto simp: Cons node)
    from children_loop [OF inv, of d] obtain ac' where
      ac': "ac_children ac k d rest ?es = Some (ac', rest @ map (\<lambda>e. (snd e, d + 1)) ?es)"
      and inv': "children_inv ac' L P k (D \<union> snd ` set ?es) (map fst rest @ map snd ?es) []"
      by blast
    let ?D = "D \<union> snd ` set ?es" and ?q = "rest @ map (\<lambda>e. (snd e, d + 1)) ?es"
    have q': "map fst ?q = map fst rest @ map snd ?es" by simp
    have "by_depth L ?D (map fst ?q)"
      unfolding q' using by_depth_children [OF inv] less.prems(2) by (simp add: Cons node)
    moreover have "bfs_inv ac' L P ?D (map fst ?q)"
      unfolding q' by (rule children_done [OF inv'])
    moreover have "card ({..<length L} - ?D) + length ?q < card ({..<length L} - D) + length q"
    proof -
      let ?S = "snd ` set ?es"
      have S: "?S \<subseteq> {..<length L} - D" "distinct (map snd ?es)"
        using inv by (auto simp: children_inv_def)
      have "card ?S = length ?es"
        using S(2) by (metis distinct_card length_map set_map)
      moreover have "card ({..<length L} - ?D) = card ({..<length L} - D) - card ?S"
        using S(1) card_Diff_subset [of ?S "{..<length L} - D"] by (simp add: Diff_eq Int_assoc)
      moreover have "card ?S \<le> card ({..<length L} - D)"
        using S(1) by (intro card_mono) auto
      ultimately show ?thesis by (simp add: Cons)
    qed
    ultimately obtain ac'' where "ac_bfs rng ac' ?q = Some ac''" "automaton_ok ac'' L P"
      using less.hyps by blast
    with ac' show ?thesis by (subst ac_bfs.simps) (simp add: Cons node)
  qed
qed

section \<open>The insertion phase\<close>

lemma phase1_root: "phase1 ac_root [[]] {}"
  by (auto simp: phase1_def trie_ok_def ac_root_def prefix_closed_def)

lemma phase1_extend:
  assumes inv: "phase1 ac L P" and s: "s < length L" and new: "ac_goto ac s b = None"
  shows "phase1 (ac\<lparr>gotoFn := (gotoFn ac @ [[]])
        [s := (b, length (gotoFn ac)) # ((gotoFn ac @ [[]]) ! s)],
      ac_fail := ac_fail ac @ [0], ac_emit := ac_emit ac @ [False]\<rparr>) (L @ [L ! s @ [b]]) P"
    (is "phase1 ?ac ?L P")
proof -
  let ?x = "L ! s @ [b]" and ?G = "gotoFn ?ac"
  from inv have T: "trie_ok (gotoFn ac) L" by (simp add: phase1_def)
  note basic = trie_basic [OF T]
  from new have x: "?x \<notin> set L" using trie_goto_None_iff [OF T s] by simp
  have pc: "prefix_closed (set ?L)"
    using basic(4) s by (auto simp: prefix_closed_def)
  have edges: "distinct (map fst (?G ! t)) \<and>
      (\<forall>c n. (c, n) \<in> set (?G ! t) \<longleftrightarrow> n < length ?G \<and> ?L ! n = ?L ! t @ [c])"
    if t: "t < length ?G" for t
  proof (cases "t = length L")
    case True
    have "?L ! n \<noteq> ?x @ [c]" if "n < length ?L" for n c
    proof
      assume "?L ! n = ?x @ [c]"
      with that have "?x @ [c] \<in> set L"
        by (cases "n < length L") (auto simp: nth_append dest: nth_mem)
      then have "?x \<in> set L" by (rule prefix_closed_append [OF basic(4)])
      with x show False by simp
    qed
    with True s basic show ?thesis by (auto simp: nth_append)
  next
    case False
    with t basic have t': "t < length L" by simp
    from T t' have old: "distinct (map fst (gotoFn ac ! t))"
      "\<And>c n. (c, n) \<in> set (gotoFn ac ! t) \<longleftrightarrow> n < length L \<and> L ! n = L ! t @ [c]"
      by (auto simp: trie_ok_def)
    have lab: "L ! s = L ! t \<longleftrightarrow> s = t"
      using trie_label_inj [OF T t' s] by auto
    have "b \<notin> fst ` set (gotoFn ac ! s)"
      using new by (simp add: ac_goto_def map_of_eq_None_iff)
    with old t' s basic lab show ?thesis
      by (cases "t = s") (auto simp: nth_append less_Suc_eq)
  qed
  have "trie_ok ?G ?L"
    using basic pc edges x s by (auto simp: trie_ok_def nth_append)
  moreover have "?x \<notin> P" using inv x by (auto simp: phase1_def)
  ultimately show ?thesis
    using inv by (auto simp: phase1_def nth_append less_Suc_eq)
qed

lemma ac_insert_ok:
  assumes "phase1 ac L P" "s < length L" "ac_insert ac s w = (ac', t)"
  shows "\<exists>L'. phase1 ac' L' P \<and> t < length L' \<and> L' ! t = L ! s @ w"
  using assms
proof (induction w arbitrary: ac s L)
  case Nil
  then show ?case by auto
next
  case (Cons b w)
  from Cons.prems(1) have T: "trie_ok (gotoFn ac) L" by (simp add: phase1_def)
  show ?case
  proof (cases "ac_goto ac s b")
    case (Some n)
    then have n: "n < length L" "L ! n = L ! s @ [b]"
      using trie_goto_iff [OF T Cons.prems(2)] by auto
    from Cons.prems(3) Some have "ac_insert ac n w = (ac', t)" by simp
    from Cons.IH [OF Cons.prems(1) n(1) this] n(2) show ?thesis by simp
  next
    case None
    let ?L = "L @ [L ! s @ [b]]"
    note ext = phase1_extend [OF Cons.prems(1,2) None]
    have "length (gotoFn ac) = length L" using trie_basic(6) [OF T] by simp
    then have n: "length (gotoFn ac) < length ?L" "?L ! length (gotoFn ac) = L ! s @ [b]" by simp_all
    have "\<exists>L'. phase1 ac' L' P \<and> t < length L' \<and> L' ! t = ?L ! length (gotoFn ac) @ w"
      using Cons.prems(3) None by (intro Cons.IH [OF ext n(1)]) (simp add: Let_def)
    with n(2) show ?thesis by simp
  qed
qed

lemma ac_add_pattern_ok:
  assumes "phase1 ac L P"
  shows "\<exists>L'. phase1 (ac_add_pattern ac p) L' (P \<union> ({ToLower p} - {[]}))"
proof (cases "ToLower p = []")
  case True
  with assms show ?thesis by (auto simp: ac_add_pattern_def)
next
  case False
  obtain ac' t where ins: "ac_insert ac 0 (ToLower p) = (ac', t)" by force
  from assms have "trie_ok (gotoFn ac) L" by (simp add: phase1_def)
  note basic = trie_basic [OF this]
  from ac_insert_ok [OF assms basic(1) ins] basic(2)
  obtain L' where L': "phase1 ac' L' P" "t < length L'" "L' ! t = ToLower p" by auto
  have same: "L' ! s = ToLower p \<longleftrightarrow> s = t" if "s < length L'" for s
    using that L' trie_label_inj [of "gotoFn ac'" L' s t] by (auto simp: phase1_def)
  have mem: "ToLower p \<in> set L'" "[] \<noteq> ToLower p" using L'(2,3) False by (metis nth_mem)+
  have "phase1 (ac'\<lparr>ac_emit := (ac_emit ac')[t := True]\<rparr>) L' (insert (ToLower p) P)"
    using L'(1,2) False same mem by (auto simp: phase1_def nth_list_update)
  then have "phase1 (ac_add_pattern ac p) L' (insert (ToLower p) P)"
    using False ins by (simp add: ac_add_pattern_def)
  moreover have "insert (ToLower p) P = P \<union> ({ToLower p} - {[]})" using mem by auto
  ultimately show ?thesis by metis
qed

lemma ac_patterns_ok:
  assumes "phase1 ac L P"
  shows "\<exists>L'. phase1 (foldl ac_add_pattern ac ps) L' (P \<union> (ToLower ` set ps - {[]}))"
  using assms
proof (induction ps arbitrary: ac L P)
  case Nil
  then show ?case by auto
next
  case (Cons p ps)
  from ac_add_pattern_ok [OF Cons.prems] obtain L1
    where "phase1 (ac_add_pattern ac p) L1 (P \<union> ({ToLower p} - {[]}))" by blast
  from Cons.IH [OF this] obtain L2
    where "phase1 (foldl ac_add_pattern ac (p # ps)) L2
      (P \<union> ({ToLower p} - {[]}) \<union> (ToLower ` set ps - {[]}))"
    by auto
  moreover have "P \<union> ({ToLower p} - {[]}) \<union> (ToLower ` set ps - {[]})
      = P \<union> (ToLower ` set (p # ps) - {[]})" by auto
  ultimately show ?case by metis
qed

section \<open>The start of the breadth-first loop\<close>

lemma ac_root_links_zero: "\<forall>s < length fl. fl ! s = 0 \<Longrightarrow> ac_root_links fl es = fl"
proof (induction es arbitrary: fl)
  case Nil
  then show ?case by (simp add: ac_root_links_def)
next
  case (Cons e es)
  have "fl[snd e := 0] = fl"
    using Cons.prems by (metis linorder_not_le list_update_beyond list_update_id)
  with Cons show ?case by (simp add: ac_root_links_def)
qed

lemma bfs_start:
  assumes ph: "phase1 ac L P" and es: "mset es = mset (gotoFn ac ! 0)"
  shows "bfs_inv ac L P (insert 0 (snd ` set es)) (map snd es)"
    and "by_depth L (insert 0 (snd ` set es)) (map snd es)"
proof -
  from ph have T: "trie_ok (gotoFn ac) L" by (simp add: phase1_def)
  note basic = trie_basic [OF T]
  have edges: "(b, n) \<in> set es \<longleftrightarrow> n < length L \<and> L ! n = [b]" for b n
  proof -
    have "set es = set (gotoFn ac ! 0)" using es by (rule mset_eq_setD)
    with T basic show ?thesis by (auto simp: trie_ok_def)
  qed
  have "distinct (map fst (gotoFn ac ! 0))" using T basic by (auto simp: trie_ok_def)
  then have "distinct (map fst es)" using es by (metis mset_eq_imp_distinct_iff mset_map)
  moreover have "inj_on snd (set es)" using edges by (fastforce simp: inj_on_def)
  ultimately have dis: "distinct (map snd es)" by (simp add: distinct_map)
  have lens: "length (L ! n) = 1" if "n \<in> snd ` set es" for n
    using that edges by auto
  have emits: "ac_emit ac ! n \<longleftrightarrow> (\<exists>p \<in> P. suffix p (L ! n))" if "n < length L" "length (L ! n) \<le> 1" for n
    using that ph by (cases "L ! n") (auto simp: phase1_def suffix_Cons)
  have fails: "ac_fail ac ! n < length L \<and> L ! (ac_fail ac ! n) = lsuf (set L) (tl (L ! n))"
    if "n < length L" "length (L ! n) \<le> 1" for n
    using that ph basic by (cases "L ! n") (auto simp: phase1_def)
  have small: "n < length L \<and> length (L ! n) \<le> 1" if "n \<in> insert 0 (snd ` set es)" for n
    using that edges basic lens by auto
  have anc: "\<exists>k \<in> set (map snd es). strict_prefix (L ! k) (L ! n)"
    if n: "n < length L" "n \<notin> insert 0 (snd ` set es)" for n
  proof -
    from n trie_root_iff [OF T n(1)] obtain c cs where c: "L ! n = [c] @ cs"
      by (cases "L ! n") auto
    with prefix_closed_append [OF basic(4)] n have "[c] \<in> set L" by (metis nth_mem)
    then obtain m where m: "m < length L" "L ! m = [c]" by (metis in_set_conv_nth)
    then have "(c, m) \<in> set es" by (simp add: edges)
    moreover from this n have "m \<noteq> n" by force
    then have "L ! m \<noteq> L ! n" using trie_label_inj [OF T] m n by blast
    with c m have "strict_prefix (L ! m) (L ! n)" by (auto simp: strict_prefix_def)
    ultimately show ?thesis by force
  qed
  have noch: "L ! n \<noteq> L ! k @ [b]" if "n \<in> insert 0 (snd ` set es)" "k \<in> snd ` set es" for n k b
    using small [OF that(1)] lens [OF that(2)] by auto
  have lk: "linked ac L P n" if "n \<in> insert 0 (snd ` set es)" for n
    using small [OF that] emits fails by (simp add: linked_def)
  have z: "0 \<notin> snd ` set es" using lens [of 0] basic by auto
  have sub: "insert 0 (snd ` set es) \<subseteq> {..<length L}" using small by blast
  show "bfs_inv ac L P (insert 0 (snd ` set es)) (map snd es)"
    unfolding bfs_inv_def using ph T dis lk anc noch z sub by (auto simp: phase1_def)
  have const: "map (\<lambda>n. length (L ! n)) (map snd es) = replicate (length es) 1"
    using lens by (induction es) auto
  show "by_depth L (insert 0 (snd ` set es)) (map snd es)"
    unfolding by_depth_def const using small by (auto intro: le_trans)
qed

lemma build_ok:
  assumes rng: "\<And>m. mset (rng m) = mset m" and "ps \<noteq> []"
  shows "\<exists>ac L. buildAhoCorasick rng ps = Some (Some ac) \<and>
    automaton_ok ac L (ToLower ` set ps - {[]})"
proof -
  let ?ac = "foldl ac_add_pattern ac_root ps" and ?P = "ToLower ` set ps - {[]}"
  let ?es = "rng (gotoFn ?ac ! 0)"
  from ac_patterns_ok [OF phase1_root] obtain L where ph: "phase1 ?ac L ?P" by auto
  then have links: "ac_root_links (ac_fail ?ac) ?es = ac_fail ?ac"
    by (intro ac_root_links_zero) (simp add: phase1_def)
  note start = bfs_start [OF ph rng]
  have q: "map fst (map (\<lambda>e. (snd e, 1 :: nat)) ?es) = map snd ?es" by simp
  from ac_bfs_total [OF rng, of ?ac L ?P _ "map (\<lambda>e. (snd e, 1)) ?es", unfolded q, OF start]
  obtain ac' where "ac_bfs rng ?ac (map (\<lambda>e. (snd e, 1)) ?es) = Some ac'" "automaton_ok ac' L ?P"
    by auto
  with assms(2) links show ?thesis by (auto simp: buildAhoCorasick_def Let_def)
qed

section \<open>The scan\<close>

lemma automaton_links: "automaton_ok ac L P \<Longrightarrow> links_upto ac L d"
  by (auto simp: automaton_ok_def links_upto_def linked_def)

lemma ac_scan_ok:
  assumes ok: "automaton_ok ac L P" and "s < length L" "L ! s = lsuf (set L) x"
  shows "ac_scan ac s bs = Some (\<exists>ys. prefix ys bs \<and> ys \<noteq> [] \<and> (\<exists>p \<in> P. suffix p (x @ ys)))"
  using assms(2,3)
proof (induction bs arbitrary: s x)
  case Nil
  then show ?case by simp
next
  case (Cons b bs)
  from ok have T: "trie_ok (gotoFn ac) L" and P: "P \<subseteq> set L" by (simp_all add: automaton_ok_def)
  note basic = trie_basic [OF T]
  from ac_fallback_walk [OF T automaton_links [OF ok] Cons.prems(1), of b]
  obtain f where f: "ac_fallback ac s b = Some f" and res: "case ac_goto ac f b of
       Some n \<Rightarrow> n < length L \<and> L ! n = lsuf (set L) (L ! s @ [b])
     | None \<Rightarrow> f = 0 \<and> lsuf (set L) (L ! s @ [b]) = []" by auto
  let ?t = "case ac_goto ac f b of Some nxt \<Rightarrow> nxt | None \<Rightarrow> f"
  have "?t < length L \<and> L ! ?t = lsuf (set L) (L ! s @ [b])"
    using res basic by (cases "ac_goto ac f b") auto
  moreover have "lsuf (set L) (L ! s @ [b]) = lsuf (set L) (x @ [b])"
    using lsuf_snoc_lsuf [OF basic(4,5)] Cons.prems(2) by simp
  ultimately have t: "?t < length L" "L ! ?t = lsuf (set L) (x @ [b])" by simp_all
  have emit: "ac_emit ac ! ?t \<longleftrightarrow> (\<exists>p \<in> P. suffix p (x @ [b]))"
  proof -
    have "ac_emit ac ! ?t \<longleftrightarrow> (\<exists>p \<in> P. suffix p (lsuf (set L) (x @ [b])))"
      using ok t by (simp add: automaton_ok_def linked_def)
    then show ?thesis using P by (metis subsetD suffix_lsuf_iff)
  qed
  have split: "(\<exists>ys. prefix ys (b # bs) \<and> ys \<noteq> [] \<and> (\<exists>p \<in> P. suffix p (x @ ys))) \<longleftrightarrow>
      (\<exists>p \<in> P. suffix p (x @ [b])) \<or>
      (\<exists>ys. prefix ys bs \<and> ys \<noteq> [] \<and> (\<exists>p \<in> P. suffix p ((x @ [b]) @ ys)))" (is "?l \<longleftrightarrow> ?r")
  proof
    assume ?l
    then obtain ys p where ys: "prefix ys bs" "p \<in> P" "suffix p (x @ b # ys)"
      by (auto simp: prefix_Cons)
    then show ?r by (cases "ys = []") auto
  next
    assume ?r
    then show ?l
    proof
      assume "\<exists>p \<in> P. suffix p (x @ [b])"
      then show ?l by (intro exI [of _ "[b]"]) simp
    next
      assume "\<exists>ys. prefix ys bs \<and> ys \<noteq> [] \<and> (\<exists>p \<in> P. suffix p ((x @ [b]) @ ys))"
      then obtain ys where "prefix ys bs" "\<exists>p \<in> P. suffix p (x @ b # ys)" by auto
      then show ?l by (intro exI [of _ "b # ys"]) simp
    qed
  qed
  show ?case
    unfolding split using f emit Cons.IH [OF t] by (auto simp: Let_def)
qed

lemma sublist_iff_suffix_of_prefix: "sublist p w \<longleftrightarrow> (\<exists>ys. prefix ys w \<and> suffix p ys)"
  by (metis sublist_altdef)

lemma ac_matches_automaton:
  assumes ok: "automaton_ok ac L P"
  shows "ac_matches (Some ac) input = Some (\<exists>p \<in> P. sublist p input)"
proof -
  from ok have T: "trie_ok (gotoFn ac) L" and P: "[] \<notin> P" by (simp_all add: automaton_ok_def)
  note basic = trie_basic [OF T]
  have "ac_scan ac 0 input = Some (\<exists>ys. prefix ys input \<and> ys \<noteq> [] \<and> (\<exists>p \<in> P. suffix p ys))"
    using ac_scan_ok [OF ok, of 0 "[]" input] basic by simp
  moreover have "(\<exists>ys. prefix ys input \<and> ys \<noteq> [] \<and> (\<exists>p \<in> P. suffix p ys)) \<longleftrightarrow> (\<exists>p \<in> P. sublist p input)"
    using P by (auto simp: sublist_iff_suffix_of_prefix)
  ultimately show ?thesis using P by (auto simp: ac_matches_def)
qed

section \<open>Correctness of the pre-filter\<close>

lemma build_decides:
  assumes rng: "\<And>m. mset (rng m) = mset m" and b: "buildAhoCorasick rng ps = Some acp"
  shows "ac_matches acp input = Some (\<exists>p \<in> set ps. p \<noteq> [] \<and> sublist (ToLower p) input)"
proof (cases "ps = []")
  case True
  with b show ?thesis by (simp add: buildAhoCorasick_def ac_matches_def)
next
  case False
  from build_ok [OF rng False] b obtain ac L where
    ac: "acp = Some ac" "automaton_ok ac L (ToLower ` set ps - {[]})" by auto
  have "(\<exists>p \<in> ToLower ` set ps - {[]}. sublist p input) \<longleftrightarrow>
      (\<exists>p \<in> set ps. p \<noteq> [] \<and> sublist (ToLower p) input)" by auto
  with ac ac_matches_automaton [OF ac(2)] show ?thesis by simp
qed

lemma build_returns:
  assumes "\<And>m. mset (rng m) = mset m"
  shows "\<exists>acp. buildAhoCorasick rng ps = Some acp"
  using build_ok [OF assms, of ps] by (cases "ps = []") (auto simp: buildAhoCorasick_def)

text \<open>
  C10. Whatever order Go ranges over its maps in, \<open>buildAhoCorasick\<close> returns, and the automaton it
  returns decides multi-pattern containment: \<open>matches\<close> returns on every input, and answers true
  exactly when some non-empty pattern, lower-cased, occurs in the input.
\<close>

theorem aho_corasick_correct:
  assumes "\<And>m. mset (rng m) = mset m"
  shows "\<exists>acp. buildAhoCorasick rng ps = Some acp \<and>
    (\<forall>input. ac_matches acp input = Some (\<exists>p \<in> set ps. p \<noteq> [] \<and> sublist (ToLower p) input))"
  using build_returns [OF assms, of ps] build_decides [OF assms, of ps] by blast

theorem aho_corasick_correct_witness:
  "\<exists>acp. buildAhoCorasick rev [''he'', ''She'', ''hers''] = Some acp \<and>
    ac_matches acp ''ushers'' = Some True \<and> ac_matches acp ''uhe'' = Some True \<and>
    ac_matches acp ''usahers'' = Some True \<and> ac_matches acp ''us'' = Some False"
proof -
  have "\<And>m :: (byte \<times> nat) list. mset (rev m) = mset m" by simp
  from aho_corasick_correct [OF this, of "[''he'', ''She'', ''hers'']"]
  show ?thesis
    by (auto simp: ToLower_def lower_byte_def byte_between_def sublist_Cons_right prefix_Cons)
qed

end
