(* ===== verification/RegexLiterals.thy ===== *)
theory RegexLiterals
  imports AhoCorasick
begin

text \<open>
  The extraction of literal anchors from rule patterns
  (\<^verbatim>\<open>deepintshield_guard/internal/engine/aho_corasick.go\<close>, \<open>extractRequiredLiteral\<close>,
  \<open>extractAllAlternativeLiterals\<close>, \<open>longestLiteralInTree\<close>) over the syntax trees of Go's
  \<open>regexp/syntax\<close>, a match relation for those trees, and the soundness of the literal pre-filter.

  \<open>syntax.Parse\<close> is the argument \<open>parse\<close> of the definitions that call it: a pattern to a tree, or
  \<open>None\<close> for a pattern that does not parse.  Texts are bytes and case folding is that of ASCII.  On ASCII texts,
  and for trees whose literals are ASCII, a rune is a byte and this is the folding and the matching of Go; beyond ASCII
  it is not, since Go folds by Unicode, where for instance the long s (U+017F) is another \<open>s\<close>.  The results about matching
  are therefore stated for ASCII texts and ASCII literals (\<open>ascii_text\<close>, \<open>ascii_literals\<close>).
\<close>

section \<open>Syntax trees\<close>

datatype syntax_op =
    OpNoMatch | OpEmptyMatch | OpLiteral | OpCharClass | OpAnyCharNotNL | OpAnyChar
  | OpBeginLine | OpEndLine | OpBeginText | OpEndText | OpWordBoundary | OpNoWordBoundary
  | OpCapture | OpStar | OpPlus | OpQuest | OpRepeat | OpConcat | OpAlternate

datatype regexp =
  Regexp (re_Op: syntax_op) (re_Sub: "regexp list") (re_Rune: string) (re_FoldCase: bool)
    (re_Min: int) (re_Max: int)

section \<open>ASCII\<close>

definition ascii_text :: "string \<Rightarrow> bool" where
  "ascii_text s \<longleftrightarrow> list_all (\<lambda>c. of_char c < (128 :: nat)) s"

fun ascii_literals :: "regexp \<Rightarrow> bool" where
  "ascii_literals (Regexp op sub rn fc mn mx) \<longleftrightarrow> (op = OpLiteral \<longrightarrow> ascii_text rn) \<and> list_all ascii_literals sub"

section \<open>The extraction\<close>

fun longestLiteralInTree :: "regexp \<Rightarrow> string"
  and literal_of_concat :: "string \<Rightarrow> string \<Rightarrow> regexp list \<Rightarrow> string"
  and literal_of_alternate :: "bool \<Rightarrow> string \<Rightarrow> regexp list \<Rightarrow> string" where
  "longestLiteralInTree (Regexp op sub rn fc mn mx) =
     (case op of
        OpLiteral \<Rightarrow> rn
      | OpConcat \<Rightarrow> literal_of_concat [] [] sub
      | OpCapture \<Rightarrow> (case sub of [r] \<Rightarrow> longestLiteralInTree r | _ \<Rightarrow> [])
      | OpAlternate \<Rightarrow> literal_of_alternate True [] sub
      | _ \<Rightarrow> [])"
| "literal_of_concat best current [] = (if length current > length best then current else best)"
| "literal_of_concat best current (child # rest) =
     (if re_Op child = OpLiteral then literal_of_concat best (current @ re_Rune child) rest
      else (let best' = (if length current > length best then current else best);
                deeper = longestLiteralInTree child;
                best'' = (if length deeper > length best' then deeper else best')
            in literal_of_concat best'' [] rest))"
| "literal_of_alternate first shortest [] = shortest"
| "literal_of_alternate first shortest (branch # rest) =
     (let lit = longestLiteralInTree branch in
      if lit = [] then []
      else if first \<or> length lit < length shortest then literal_of_alternate False lit rest
      else literal_of_alternate first shortest rest)"

definition extractRequiredLiteral :: "(string \<Rightarrow> regexp option) \<Rightarrow> string \<Rightarrow> string option" where
  "extractRequiredLiteral parse pattern =
     (case parse pattern of
        None \<Rightarrow> None
      | Some re \<Rightarrow>
          (let lit = longestLiteralInTree re
           in if length lit < 3 then None else Some (ToLower lit)))"

text \<open>\<open>for root.Op == OpCapture && len(root.Sub) == 1 { root = root.Sub[0] }\<close>\<close>

fun strip_captures :: "regexp \<Rightarrow> regexp" where
  "strip_captures (Regexp op sub rn fc mn mx) =
     (if op = OpCapture then (case sub of [r] \<Rightarrow> strip_captures r | _ \<Rightarrow> Regexp op sub rn fc mn mx)
      else Regexp op sub rn fc mn mx)"

fun branch_literals :: "regexp list \<Rightarrow> string list option" where
  "branch_literals [] = Some []"
| "branch_literals (branch # rest) =
     (let lit = longestLiteralInTree branch in
      if length lit < 3 then None
      else map_option (\<lambda>out. ToLower lit # out) (branch_literals rest))"

text \<open>A \<open>nil\<close> and an empty slice are both \<open>[]\<close>: the only caller tests the length.\<close>

definition extractAllAlternativeLiterals :: "(string \<Rightarrow> regexp option) \<Rightarrow> string \<Rightarrow> string list" where
  "extractAllAlternativeLiterals parse pattern =
     (case parse pattern of
        None \<Rightarrow> []
      | Some re \<Rightarrow>
          (let root = strip_captures re in
           if re_Op root \<noteq> OpAlternate
           then (case extractRequiredLiteral parse pattern of Some lit \<Rightarrow> [lit] | None \<Rightarrow> [])
           else (case branch_literals (re_Sub root) of Some out \<Rightarrow> out | None \<Rightarrow> [])))"

section \<open>What a tree matches\<close>

text \<open>
  The texts a tree matches as a whole.  Zero-width assertions are taken to hold everywhere, so that for ASCII texts and
  trees with ASCII literals the relation contains every match of the regular-expression engine.
\<close>

fun in_ranges :: "string \<Rightarrow> byte \<Rightarrow> bool" where
  "in_ranges (lo # hi # rs) c \<longleftrightarrow> byte_between lo hi c \<or> in_ranges rs c"
| "in_ranges _ c \<longleftrightarrow> False"

definition zero_width :: "syntax_op set" where
  "zero_width = {OpEmptyMatch, OpBeginLine, OpEndLine, OpBeginText, OpEndText, OpWordBoundary,
     OpNoWordBoundary}"

inductive re_match :: "regexp \<Rightarrow> string \<Rightarrow> bool" where
  m_zero: "op \<in> zero_width \<Longrightarrow> re_match (Regexp op sub rn fc mn mx) []"
| m_literal: "w = rn \<or> (fc \<and> EqualFold w rn) \<Longrightarrow> re_match (Regexp OpLiteral sub rn fc mn mx) w"
| m_class: "in_ranges rn c \<Longrightarrow> re_match (Regexp OpCharClass sub rn fc mn mx) [c]"
| m_any: "re_match (Regexp OpAnyChar sub rn fc mn mx) [c]"
| m_any_notnl: "of_char c \<noteq> (10 :: nat) \<Longrightarrow> re_match (Regexp OpAnyCharNotNL sub rn fc mn mx) [c]"
| m_capture: "re_match r w \<Longrightarrow> re_match (Regexp OpCapture [r] rn fc mn mx) w"
| m_star: "list_all (re_match r) ws \<Longrightarrow> re_match (Regexp OpStar [r] rn fc mn mx) (concat ws)"
| m_plus: "list_all (re_match r) ws \<Longrightarrow> ws \<noteq> [] \<Longrightarrow> re_match (Regexp OpPlus [r] rn fc mn mx) (concat ws)"
| m_quest0: "re_match (Regexp OpQuest [r] rn fc mn mx) []"
| m_quest1: "re_match r w \<Longrightarrow> re_match (Regexp OpQuest [r] rn fc mn mx) w"
| m_repeat: "list_all (re_match r) ws \<Longrightarrow> mn \<le> int (length ws) \<Longrightarrow> mx = -1 \<or> int (length ws) \<le> mx \<Longrightarrow>
    re_match (Regexp OpRepeat [r] rn fc mn mx) (concat ws)"
| m_concat: "list_all2 re_match rs ws \<Longrightarrow> re_match (Regexp OpConcat rs rn fc mn mx) (concat ws)"
| m_alternate: "r \<in> set rs \<Longrightarrow> re_match r w \<Longrightarrow> re_match (Regexp OpAlternate rs rn fc mn mx) w"

inductive_cases re_matchE: "re_match (Regexp op sub rn fc mn mx) w"

text \<open>A pattern fires on a text when its tree matches some part of it.\<close>

definition re_fires :: "regexp \<Rightarrow> string \<Rightarrow> bool" where
  "re_fires re inp \<longleftrightarrow> (\<exists>w. sublist w inp \<and> re_match re w)"

text \<open>No alternation is met by the walk of \<open>longestLiteralInTree\<close>.\<close>

fun alternation_free :: "regexp \<Rightarrow> bool" where
  "alternation_free (Regexp op sub rn fc mn mx) =
     (case op of
        OpAlternate \<Rightarrow> False
      | OpConcat \<Rightarrow> list_all alternation_free sub
      | OpCapture \<Rightarrow> list_all alternation_free sub
      | _ \<Rightarrow> True)"

text \<open>The shape the extraction is meant for: alternation at the top only.\<close>

definition anchored_tree :: "regexp \<Rightarrow> bool" where
  "anchored_tree re \<longleftrightarrow>
     (let root = strip_captures re in
      if re_Op root = OpAlternate then list_all alternation_free (re_Sub root)
      else alternation_free re)"

section \<open>Soundness of one literal\<close>

lemma sublist_map: "sublist u v \<Longrightarrow> sublist (map f u) (map f v)"
  unfolding sublist_def by (metis map_append)

lemma sublist_in_append: "sublist u v \<Longrightarrow> sublist u (v @ w)" "sublist u w \<Longrightarrow> sublist u (v @ w)"
  by (metis sublist_append_rightI sublist_order.order.trans sublist_append_leftI)+

definition occurs_ci :: "string \<Rightarrow> string \<Rightarrow> bool" where
  "occurs_ci u w \<longleftrightarrow> sublist (ToLower u) (ToLower w)"

lemma occurs_ci_Nil [simp]: "occurs_ci [] w"
  by (simp add: occurs_ci_def ToLower_def)

lemma occurs_ci_append: "occurs_ci u v \<Longrightarrow> occurs_ci u (v @ w)" "occurs_ci u w \<Longrightarrow> occurs_ci u (v @ w)"
  by (auto simp: occurs_ci_def ToLower_def intro: sublist_in_append)

lemma occurs_ci_sublist: "occurs_ci u v \<Longrightarrow> sublist v w \<Longrightarrow> occurs_ci u w"
  unfolding occurs_ci_def ToLower_def by (metis sublist_map sublist_order.order.trans)

lemma literal_match_ToLower:
  "re_match (Regexp OpLiteral sub rn fc mn mx) w \<Longrightarrow> ToLower w = ToLower rn"
  by (erule re_matchE) (auto simp: EqualFold_iff_ToLower zero_width_def)

lemma literal_child:
  assumes "re_Op child = OpLiteral" "re_match child w"
  shows "ToLower w = ToLower (re_Rune child)"
  using assms literal_match_ToLower by (cases child) auto

text \<open>
  The walk over a concatenation: the best literal so far occurs in the text already matched, and the
  running literal is a suffix of it.
\<close>

lemma concat_walk_sound:
  assumes IH: "\<And>c w. c \<in> set cs \<Longrightarrow> alternation_free c \<Longrightarrow> re_match c w \<Longrightarrow>
      occurs_ci (longestLiteralInTree c) w"
    and "list_all alternation_free cs" "list_all2 re_match cs ws"
    and "occurs_ci best pre" "suffix (ToLower current) (ToLower pre)"
  shows "occurs_ci (literal_of_concat best current cs) (pre @ concat ws)"
  using assms
proof (induction cs arbitrary: best current pre ws)
  case Nil
  then show ?case by (auto simp: occurs_ci_def)
next
  case (Cons c cs)
  from Cons.prems(3) obtain w ws' where ws: "ws = w # ws'" "re_match c w" "list_all2 re_match cs ws'"
    by (auto simp: list_all2_Cons1)
  have cur: "occurs_ci current pre" using Cons.prems(5) by (simp add: occurs_ci_def)
  show ?case
  proof (cases "re_Op c = OpLiteral")
    case True
    then have "ToLower w = ToLower (re_Rune c)" using ws(2) by (rule literal_child)
    then have "suffix (ToLower (current @ re_Rune c)) (ToLower (pre @ w))"
      using Cons.prems(5) by (auto simp: ToLower_def suffix_def)
    moreover have "occurs_ci best (pre @ w)" using Cons.prems(4) by (rule occurs_ci_append)
    ultimately have "occurs_ci (literal_of_concat best (current @ re_Rune c) cs) ((pre @ w) @ concat ws')"
      using Cons.prems ws by (intro Cons.IH) auto
    with True ws show ?thesis by simp
  next
    case False
    let ?b = "if length current > length best then current else best"
    let ?d = "longestLiteralInTree c"
    let ?b' = "if length ?d > length ?b then ?d else ?b"
    have "occurs_ci ?d w" using Cons.prems(1,2) ws(2) by simp
    then have "occurs_ci ?b' (pre @ w)"
      using cur Cons.prems(4) by (auto intro: occurs_ci_append)
    moreover have "suffix (ToLower []) (ToLower (pre @ w))" by (simp add: ToLower_def)
    ultimately have "occurs_ci (literal_of_concat ?b' [] cs) ((pre @ w) @ concat ws')"
      using Cons.prems ws by (intro Cons.IH) auto
    with False ws show ?thesis by (simp add: Let_def)
  qed
qed

lemma longest_literal_sound:
  "alternation_free re \<Longrightarrow> re_match re w \<Longrightarrow> occurs_ci (longestLiteralInTree re) w"
proof (induction re arbitrary: w)
  case (Regexp op sub rn fc mn mx)
  show ?case
  proof (cases op)
    case OpLiteral
    with Regexp.prems show ?thesis
      by (auto dest: literal_match_ToLower simp: occurs_ci_def)
  next
    case OpCapture
    show ?thesis
    proof (cases "\<exists>r. sub = [r]")
      case True
      then obtain r where r: "sub = [r]" by blast
      with Regexp.prems OpCapture have "re_match r w"
        by (auto elim: re_matchE simp: zero_width_def)
      with Regexp OpCapture r show ?thesis by simp
    next
      case False
      with OpCapture show ?thesis by (auto split: list.splits)
    qed
  next
    case OpConcat
    with Regexp.prems obtain ws where ws: "w = concat ws" "list_all2 re_match sub ws"
      by (auto elim: re_matchE simp: zero_width_def)
    have "occurs_ci (literal_of_concat [] [] sub) ([] @ concat ws)"
      using Regexp OpConcat ws by (intro concat_walk_sound) (auto simp: ToLower_def)
    with OpConcat ws show ?thesis by simp
  qed (use Regexp.prems in \<open>auto\<close>)
qed

section \<open>Soundness of the extracted set\<close>

lemma strip_captures_match: "re_match re w \<Longrightarrow> re_match (strip_captures re) w"
proof (induction re arbitrary: w rule: strip_captures.induct)
  case (1 op sub rn fc mn mx)
  then show ?case
    by (cases "op = OpCapture") (auto elim: re_matchE simp: zero_width_def split: list.splits)
qed

lemma branch_literals_sound:
  assumes "branch_literals rs = Some lits" "r \<in> set rs" "list_all alternation_free rs" "re_match r w"
  shows "\<exists>l \<in> set lits. sublist l (ToLower w) \<and> l \<noteq> []"
  using assms
proof (induction rs arbitrary: lits)
  case Nil
  then show ?case by simp
next
  case (Cons r' rs)
  from Cons.prems(1) obtain out where out: "branch_literals rs = Some out"
    "lits = ToLower (longestLiteralInTree r') # out" "\<not> length (longestLiteralInTree r') < 3"
    by (auto simp: Let_def split: if_splits)
  show ?case
  proof (cases "r = r'")
    case True
    with Cons.prems longest_literal_sound [of r w] out(2,3) show ?thesis
      by (auto simp: occurs_ci_def)
  next
    case False
    with Cons.IH [OF out(1)] Cons.prems out show ?thesis by auto
  qed
qed

lemma extract_sound:
  assumes parse: "parse pattern = Some re" and shape: "anchored_tree re"
    and ne: "extractAllAlternativeLiterals parse pattern \<noteq> []" and fires: "re_fires re inp"
  shows "\<exists>l \<in> set (extractAllAlternativeLiterals parse pattern). l \<noteq> [] \<and> sublist l (ToLower inp)"
proof -
  from fires obtain w where w: "sublist w inp" "re_match re w" by (auto simp: re_fires_def)
  have up: "sublist l (ToLower inp)" if "sublist l (ToLower w)" for l
    using that w(1) sublist_map [of w inp lower_byte]
    by (auto simp: ToLower_def intro: sublist_order.order.trans)
  let ?root = "strip_captures re"
  show ?thesis
  proof (cases "re_Op ?root = OpAlternate")
    case False
    with shape have "alternation_free re" by (simp add: anchored_tree_def)
    from longest_literal_sound [OF this w(2)]
    have "sublist (ToLower (longestLiteralInTree re)) (ToLower inp)"
      by (auto simp: occurs_ci_def intro: up)
    with False parse ne show ?thesis
      by (auto simp: extractAllAlternativeLiterals_def extractRequiredLiteral_def Let_def split: if_splits)
  next
    case True
    obtain rs rn fc mn mx where root: "?root = Regexp OpAlternate rs rn fc mn mx"
      using True by (cases ?root) auto
    from strip_captures_match [OF w(2)] root obtain r where r: "r \<in> set rs" "re_match r w"
      by (auto elim: re_matchE simp: zero_width_def)
    from shape True root have free: "list_all alternation_free rs" by (simp add: anchored_tree_def)
    from ne True parse root obtain lits where lits: "branch_literals rs = Some lits"
      by (auto simp: extractAllAlternativeLiterals_def split: option.splits)
    from branch_literals_sound [OF lits r(1) free r(2)] up True parse root lits
    show ?thesis by (auto simp: extractAllAlternativeLiterals_def)
  qed
qed

section \<open>Soundness of the pre-filter\<close>

lemma prefilter_no_match:
  assumes "\<And>m. mset (rng m) = mset m"
    and "\<And>p. p \<in> set patterns \<Longrightarrow> \<exists>re. parse p = Some re \<and> anchored_tree re"
    and "\<And>p. p \<in> set patterns \<Longrightarrow> extractAllAlternativeLiterals parse p \<noteq> []"
    and "buildAhoCorasick rng (concat (map (extractAllAlternativeLiterals parse) patterns)) = Some acp"
    and "ac_matches acp (ToLower inp) = Some False"
  shows "\<forall>p \<in> set patterns. \<forall>re. parse p = Some re \<longrightarrow> \<not> re_fires re inp"
proof (intro ballI allI impI notI)
  fix p re
  assume p: "p \<in> set patterns" and re: "parse p = Some re" and fires: "re_fires re inp"
  from p re assms(2) have "anchored_tree re" by fastforce
  from extract_sound [OF re this assms(3) [OF p] fires]
  obtain l where l: "l \<in> set (extractAllAlternativeLiterals parse p)" "l \<noteq> []" "sublist l (ToLower inp)"
    by blast
  have lower: "ToLower l = l"
  proof -
    have "\<forall>l \<in> set lits. ToLower l = l" if "branch_literals rs = Some lits" for rs lits
      using that by (induction rs arbitrary: lits) (auto simp: Let_def split: if_splits)
    with l(1) show ?thesis
      by (auto simp: extractAllAlternativeLiterals_def extractRequiredLiteral_def Let_def
          split: option.splits if_splits)
  qed
  from build_decides [OF assms(1,4), of "ToLower inp"] assms(5)
  have "\<forall>q \<in> set patterns. \<forall>k \<in> set (extractAllAlternativeLiterals parse q).
      k = [] \<or> \<not> sublist (ToLower k) (ToLower inp)" by auto
  with p l lower show False by metis
qed

text \<open>A pattern with a case-folded branch and a concatenation: \<open>(?i:JAILBREAK)|dev.mode\<close>.\<close>

definition demo_tree :: regexp where
  "demo_tree = Regexp OpAlternate
     [Regexp OpLiteral [] ''JAILBREAK'' True 0 0,
      Regexp OpConcat [Regexp OpLiteral [] ''dev'' False 0 0, Regexp OpAnyChar [] [] False 0 0,
        Regexp OpLiteral [] ''mode'' False 0 0] [] False 0 0] [] False 0 0"

text \<open>
  C27. Soundness of the literal pre-filter on ASCII texts, for rule sets whose patterns all parse, have only ASCII
  literals, no nested alternation and an anchor: when the automaton built from the anchors of every pattern
  reports no hit on the lower-cased text, none of the patterns matches any part of the text, so skipping the
  rules changes no verdict.
\<close>

theorem prefilter_sound:
  assumes "\<And>m. mset (rng m) = mset m" "ascii_text inp"
    and "\<And>p. p \<in> set patterns \<Longrightarrow> \<exists>re. parse p = Some re \<and> ascii_literals re \<and> anchored_tree re"
    and "\<And>p. p \<in> set patterns \<Longrightarrow> extractAllAlternativeLiterals parse p \<noteq> []"
    and "buildAhoCorasick rng (concat (map (extractAllAlternativeLiterals parse) patterns)) = Some acp"
    and "ac_matches acp (ToLower inp) = Some False"
  shows "\<forall>p \<in> set patterns. \<forall>re. parse p = Some re \<longrightarrow> \<not> re_fires re inp"
  by (rule prefilter_no_match [OF assms(1) _ assms(4-6)]) (use assms(3) in blast)

theorem prefilter_sound_witness:
  "\<exists>acp. buildAhoCorasick rev (concat (map (extractAllAlternativeLiterals (\<lambda>_. Some demo_tree)) [''p''])) = Some acp \<and>
    ac_matches acp (ToLower ''Hello there'') = Some False \<and> \<not> re_fires demo_tree ''Hello there''"
proof -
  let ?parse = "\<lambda>_ :: string. Some demo_tree"
  have rng: "\<And>m :: (byte \<times> nat) list. mset (rev m) = mset m" by simp
  have lits: "extractAllAlternativeLiterals ?parse ''p'' = [''jailbreak'', ''mode'']"
    by (simp add: extractAllAlternativeLiterals_def demo_tree_def go_string_simps)
  have anch: "anchored_tree demo_tree" by (simp add: anchored_tree_def demo_tree_def)
  have asc: "ascii_literals demo_tree" by (simp add: demo_tree_def ascii_text_def)
  obtain acp where acp: "buildAhoCorasick rev (concat (map (extractAllAlternativeLiterals ?parse) [''p''])) = Some acp"
    using build_returns [OF rng] by blast
  have miss: "ac_matches acp (ToLower ''Hello there'') = Some False"
    using build_decides [OF rng acp]
    by (simp add: lits go_string_simps sublist_Cons_right prefix_Cons)
  have "\<forall>p \<in> set [''p'']. \<forall>re. ?parse p = Some re \<longrightarrow> \<not> re_fires re ''Hello there''"
    by (rule prefilter_sound [OF rng _ _ _ acp miss]) (simp_all add: lits anch asc ascii_text_def)
  with acp miss show ?thesis by auto
qed

text \<open>
  The restriction to top-level alternation is needed: for an alternation inside a larger pattern
  \<open>longestLiteralInTree\<close> returns the literal of its shortest branch, which a match of another branch need
  not contain.  For \<open>(cat|horse)[0-9]\<close> the only anchor is \<open>cat\<close>, so the automaton reports no hit on
  \<open>horse7\<close> and the rule is skipped although the pattern matches the text.
\<close>

theorem nested_alternation_misses:
  "\<exists>re acp. re = Regexp OpConcat
       [Regexp OpCapture [Regexp OpAlternate
          [Regexp OpLiteral [] ''cat'' False 0 0, Regexp OpLiteral [] ''horse'' False 0 0] [] False 0 0] [] False 0 0,
        Regexp OpCharClass [] ''09'' False 0 0] [] False 0 0 \<and>
     extractAllAlternativeLiterals (\<lambda>_. Some re) ''(cat|horse)[0-9]'' = [''cat''] \<and>
     buildAhoCorasick (\<lambda>m. m) [''cat''] = Some acp \<and>
     ac_matches acp (ToLower ''horse7'') = Some False \<and> re_fires re ''horse7''"
proof -
  let ?alt = "Regexp OpAlternate
          [Regexp OpLiteral [] ''cat'' False 0 0, Regexp OpLiteral [] ''horse'' False 0 0] [] False 0 0"
  let ?cls = "Regexp OpCharClass [] ''09'' False 0 0"
  let ?re = "Regexp OpConcat [Regexp OpCapture [?alt] [] False 0 0, ?cls] [] False 0 0"
  have "re_match ?alt ''horse''" 
    by (rule m_alternate [where r = "Regexp OpLiteral [] ''horse'' False 0 0"]) (auto intro: m_literal)
  then have "re_match (Regexp OpCapture [?alt] [] False 0 0) ''horse''" by (rule m_capture)
  moreover have "re_match ?cls ''7''" by (rule m_class) (simp add: byte_between_def)
  ultimately have "re_match ?re (concat [''horse'', ''7''])" by (intro m_concat) simp
  then have fires: "re_fires ?re ''horse7''" unfolding re_fires_def by (intro exI [of _ "''horse7''"]) simp
  have lits: "extractAllAlternativeLiterals (\<lambda>_. Some ?re) ''(cat|horse)[0-9]'' = [''cat'']"
    by (simp add: extractAllAlternativeLiterals_def extractRequiredLiteral_def go_string_simps)
  have rng: "\<And>m :: (byte \<times> nat) list. mset m = mset m" by simp
  obtain acp where acp: "buildAhoCorasick (\<lambda>m. m) [''cat''] = Some acp"
    using build_returns [OF rng] by blast
  have "ac_matches acp (ToLower ''horse7'') = Some False"
    using build_decides [OF rng acp] by (simp add: go_string_simps sublist_Cons_right prefix_Cons)
  with fires lits acp show ?thesis by blast
qed

end
