(* ===== verification/RuntimeChecks.thy ===== *)
theory RuntimeChecks
  imports GuardTypes RegexLiterals
begin

text \<open>
  The guardrail checks of a policy definition, \<^verbatim>\<open>deepintshield_guard/internal/engine/runtime_checks.go\<close>: extraction of
  the checks, the evaluators, the action taken on a hit, the loop over the policies with its deduplication, match
  cache and deferred webhooks, and the two pre-filters with their caches (\<open>ahoCorasickForRegexMatchChecks\<close> and
  \<open>unionRegexForRegexMatchChecks\<close> of \<^verbatim>\<open>engine.go\<close>).

  The regular-expression package, \<open>encoding/json\<close>, the JSON-schema package, \<open>url.ParseRequestURI\<close> and the answer of
  a webhook are the fields of the environment \<open>check_env\<close>.  A compiled pattern is its source text.  Webhooks run
  concurrently in the program and their results are merged in the order of the checks, which is the order here.
\<close>

section \<open>Checks and their results\<close>

record runtimeCheck =
  ck_Name :: string
  ck_Enabled :: bool
  ck_Priority :: int
  ck_Config :: gomap
  ck_Action :: gomap
  ck_fingerprint :: string

record runtimeCheckResult =
  Triggered :: bool
  res_Summary :: string
  res_Details :: gomap
  res_SanitizedInput :: string
  res_SanitizedOutput :: string
  OverrideOutcome :: string
  OverrideSeverity :: string
  res_Confidence :: rat

definition no_result :: runtimeCheckResult where
  "no_result = \<lparr>Triggered = False, res_Summary = [], res_Details = [], res_SanitizedInput = [], res_SanitizedOutput = [],
     OverrideOutcome = [], OverrideSeverity = [], res_Confidence = 0\<rparr>"

definition hit :: "rat \<Rightarrow> string \<Rightarrow> gomap \<Rightarrow> runtimeCheckResult" where
  "hit confidence summary details = no_result\<lparr>Triggered := True, res_Confidence := confidence, res_Summary := summary, res_Details := details\<rparr>"

record regex_engine =
  rx_Compile :: "string \<Rightarrow> string option"
  rx_FindAll :: "string \<Rightarrow> string \<Rightarrow> string list"
  rx_Match :: "string \<Rightarrow> string \<Rightarrow> bool"
  rx_ReplaceAll :: "string \<Rightarrow> string \<Rightarrow> string \<Rightarrow> string"
  rx_Split :: "string \<Rightarrow> string \<Rightarrow> string list"
  rx_parse :: "string \<Rightarrow> regexp option"
  rx_range :: "(byte \<times> nat) list \<Rightarrow> (byte \<times> nat) list"

record check_env =
  env_rx :: regex_engine
  env_float :: "rat \<Rightarrow> string"
  env_Marshal :: "gomap \<Rightarrow> string"
  env_Unmarshal :: "string \<Rightarrow> string + goval"
  env_type_error :: "goval \<Rightarrow> string"
  env_schema :: "goval \<Rightarrow> string + (goval \<Rightarrow> string option)"
  env_uri_host :: "string \<Rightarrow> string option"
  env_webhook :: "runtimeCheck \<Rightarrow> EvaluateRequest \<Rightarrow> string + runtimeCheckResult"

section \<open>Extraction\<close>

definition runtimeCheckFingerprint :: "check_env \<Rightarrow> string \<Rightarrow> runtimeCheck \<Rightarrow> string" where
  "runtimeCheckFingerprint env enforcementMode check =
     (if ck_fingerprint check \<noteq> [] then ToLower (TrimSpace enforcementMode) @ ''::'' @ ck_fingerprint check
      else ToLower (TrimSpace (ck_Name check)) @ ''::'' @ ToLower (TrimSpace enforcementMode) @ ''::'' @
        env_Marshal env (ck_Config check) @ ''::'' @ env_Marshal env (ck_Action check))"

definition extract_item :: "check_env \<Rightarrow> goval \<Rightarrow> runtimeCheck option" where
  "extract_item env item =
     (case item of
        VMap checkMap \<Rightarrow>
          (let name = ToLower (TrimSpace (stringValue (env_float env) checkMap [''name'', ''check'', ''type''])) in
           if name = [] then None
           else
             (let config = mapValue checkMap ''config'';
                  action = mapValue checkMap ''action'';
                  check = \<lparr>ck_Name = name, ck_Enabled = boolValue checkMap ''enabled'' True,
                    ck_Priority = intValue (env_float env) checkMap ''priority'' 100, ck_Config = config, ck_Action = action,
                    ck_fingerprint = name @ ''::'' @ env_Marshal env config @ ''::'' @ env_Marshal env action\<rparr>
              in if \<not> ck_Enabled check then None else Some check))
      | _ \<Rightarrow> None)"

definition check_less :: "runtimeCheck \<Rightarrow> runtimeCheck \<Rightarrow> bool" where
  "check_less a b \<longleftrightarrow> ck_Priority a < ck_Priority b"

definition extractRuntimeChecks :: "check_env \<Rightarrow> gomap \<Rightarrow> string \<Rightarrow> runtimeCheck list" where
  "extractRuntimeChecks env definition0 stage =
     (let keys = (if NormalizeStage stage = ''output'' then [''output_guardrails'', ''after_request_hooks'']
                  else [''input_guardrails'', ''before_request_hooks'']);
          checks = concat (map (\<lambda>key. case map_of definition0 key of
                     Some (VList items) \<Rightarrow> List.map_filter (extract_item env) items
                   | _ \<Rightarrow> []) keys)
      in SliceStable check_less checks)"

section \<open>Actions\<close>

definition redactWith :: "check_env \<Rightarrow> gomap \<Rightarrow> string" where
  "redactWith env action =
     (let value = stringValue (env_float env) action [''redact_with'', ''mask_with''] in
      if value \<noteq> [] then value else ''[REDACTED]'')"

definition resolvePortkeyAction :: "check_env \<Rightarrow> PolicyBundle \<Rightarrow> runtimeCheck \<Rightarrow> string \<Rightarrow> string \<times> bool \<times> bool" where
  "resolvePortkeyAction env policy check override =
     (let action = ck_Action check;
          outcome0 = normalizeOutcome (defaultString override (stringValue (env_float env) action [''on_fail'', ''outcome'', ''action'']));
          mode = ToLower (TrimSpace (EnforcementMode policy));
          outcome = (if outcome0 = ''allow'' then
                       (if boolValue action ''deny'' False then ''deny''
                        else if mode = ''redact'' then ''redact''
                        else if mode = ''approval'' then ''deny''
                        else if mode = ''sandbox'' then ''sandbox''
                        else if mode = ''block'' then ''deny''
                        else ''deny'')
                     else outcome0)
      in (outcome, boolValue action ''async'' False,
          boolValue action ''pass_through'' False \<or> boolValue action ''direct_to_provider'' False))"

fun extractActionFeedback :: "check_env \<Rightarrow> gomap \<Rightarrow> string list \<Rightarrow> string" where
  "extractActionFeedback env action [] = []"
| "extractActionFeedback env action (key # keys) =
     (let rendered = stringValue (env_float env) action [key] in
      if rendered \<noteq> [] then rendered else extractActionFeedback env action keys)"

definition newline2 :: string where "newline2 = [CHR 0x0A, CHR 0x0A]"

definition applyPortkeyFeedback :: "string \<Rightarrow> string \<Rightarrow> string \<Rightarrow> string \<Rightarrow> string \<times> string" where
  "applyPortkeyFeedback stage input output feedback0 =
     (let feedback = TrimSpace feedback0 in
      if feedback = [] then (input, output)
      else if NormalizeStage stage = ''output''
      then (input, TrimSpace (TrimSpace output @ newline2 @ feedback))
      else (TrimSpace (TrimSpace input @ newline2 @ feedback), output))"

definition chooseSanitizedInput :: "EvaluateRequest \<Rightarrow> string \<Rightarrow> string" where
  "chooseSanitizedInput request value = (if TrimSpace (Input (req_Content request)) = [] then [] else value)"

definition chooseSanitizedOutput :: "EvaluateRequest \<Rightarrow> string \<Rightarrow> string" where
  "chooseSanitizedOutput request value = (if TrimSpace (Output (req_Content request)) = [] then [] else value)"

definition normalizeCheckCategory :: "string \<Rightarrow> string" where
  "normalizeCheckCategory name = ''check_'' @ TrimSpace (ToLower name)"

text \<open>What a check contributes: findings, redactions, chain and the two texts handed on.\<close>

record check_acc =
  acc_findings :: "Finding list"
  acc_redactions :: "string list"
  acc_chain :: "string list"
  acc_input :: string
  acc_output :: string

definition check_severity :: "check_env \<Rightarrow> runtimeCheck \<Rightarrow> runtimeCheckResult \<Rightarrow> string" where
  "check_severity env check result =
     (let s1 = normalizeSeverity (OverrideSeverity result);
          s2 = (if s1 = [] then normalizeSeverity (stringValue (env_float env) (ck_Config check) [''severity'']) else s1)
      in if s2 = [] then ''medium'' else s2)"

definition check_outcome :: "check_env \<Rightarrow> PolicyBundle \<Rightarrow> runtimeCheck \<Rightarrow> runtimeCheckResult \<Rightarrow> string" where
  "check_outcome env policy check result =
     (let (outcome, asyncMode, passThrough) = resolvePortkeyAction env policy check (OverrideOutcome result) in
      if asyncMode \<or> passThrough \<or> EqualFold (EnforcementMode policy) ''monitor'' then ''allow'' else outcome)"

definition check_feedback :: "check_env \<Rightarrow> runtimeCheck \<Rightarrow> string" where
  "check_feedback env check = extractActionFeedback env (ck_Action check) [''feedback'', ''on_fail_message'', ''failure_message'']"

definition check_texts ::
  "check_env \<Rightarrow> runtimeCheck \<Rightarrow> runtimeCheckResult \<Rightarrow> string \<Rightarrow> string \<times> string \<Rightarrow> string \<times> string" where
  "check_texts env check result stage texts =
     (let nextInput = (if TrimSpace (res_SanitizedInput result) \<noteq> [] then res_SanitizedInput result else fst texts);
          nextOutput = (if TrimSpace (res_SanitizedOutput result) \<noteq> [] then res_SanitizedOutput result else snd texts);
          feedback = check_feedback env check
      in if feedback \<noteq> [] then applyPortkeyFeedback stage nextInput nextOutput feedback else (nextInput, nextOutput))"

definition check_details ::
  "check_env \<Rightarrow> PolicyBundle \<Rightarrow> runtimeCheck \<Rightarrow> runtimeCheckResult \<Rightarrow> gomap" where
  "check_details env policy check result =
     (let (outcome, asyncMode, passThrough) = resolvePortkeyAction env policy check (OverrideOutcome result);
          d1 = AList.update ''check_name'' (VStr (ck_Name check)) (res_Details result);
          d2 = (if asyncMode then AList.update ''async'' (VBool True) d1 else d1);
          d3 = (if passThrough then AList.update ''pass_through'' (VBool True) d2 else d2);
          d4 = (if TrimSpace (res_SanitizedInput result) \<noteq> []
                then AList.update ''sanitized_input'' (VStr (res_SanitizedInput result)) d3 else d3);
          d5 = (if TrimSpace (res_SanitizedOutput result) \<noteq> []
                then AList.update ''sanitized_output'' (VStr (res_SanitizedOutput result)) d4 else d4)
      in if check_feedback env check \<noteq> [] then AList.update ''feedback'' (VStr (check_feedback env check)) d5 else d5)"

definition applyRuntimeCheckResult ::
  "check_env \<Rightarrow> PolicyBundle \<Rightarrow> runtimeCheck \<Rightarrow> runtimeCheckResult \<Rightarrow> string \<Rightarrow> check_acc \<Rightarrow> check_acc" where
  "applyRuntimeCheckResult env policy check result stage acc =
     (if \<not> Triggered result then
        (let successFeedback = extractActionFeedback env (ck_Action check) [''on_success_message'', ''success_message''] in
         if successFeedback \<noteq> [] then
           (let (i, out) = applyPortkeyFeedback stage (acc_input acc) (acc_output acc) successFeedback
            in acc\<lparr>acc_input := i, acc_output := out\<rparr>)
         else acc)
      else
        (let outcome = check_outcome env policy check result;
             summary0 = TrimSpace (res_Summary result);
             summary = (if summary0 = [] then ''Guardrail check '' @ ck_Name check @ '' failed'' else summary0);
             confidence = (if res_Confidence result \<le> 0 then 9 / 10 else res_Confidence result);
             (i, out) = check_texts env check result stage (acc_input acc, acc_output acc);
             finding = \<lparr>f_PolicyID = PolicyID policy, f_PolicyVersionID = PolicyVersionID policy, f_ProviderID = [],
               f_ProviderType = [], f_Category = normalizeCheckCategory (ck_Name check),
               f_Severity = check_severity env check result, f_Confidence = confidence, f_Outcome = outcome,
               f_Summary = summary, f_Details = check_details env policy check result\<rparr>
         in \<lparr>acc_findings = acc_findings acc @ [finding],
             acc_redactions = acc_redactions acc @ (if outcome = ''redact'' then [ck_Name check @ '':'' @ summary] else []),
             acc_chain = acc_chain acc @ [Name policy @ '':'' @ ck_Name check @ '' failed''],
             acc_input = i, acc_output = out\<rparr>))"

section \<open>Evaluators\<close>

definition outsideRange :: "int \<Rightarrow> int \<Rightarrow> int \<Rightarrow> bool" where
  "outsideRange value mn mx = (if mn \<ge> 0 \<and> value < mn then True else if mx \<ge> 0 \<and> value > mx then True else False)"

definition regex_result :: "check_env \<Rightarrow> runtimeCheck \<Rightarrow> EvaluateRequest \<Rightarrow> string \<Rightarrow> string list \<Rightarrow> runtimeCheckResult" where
  "regex_result env check request rule found =
     (if found = [] then no_result
      else
        (let redacted = rx_ReplaceAll (env_rx env) rule (pickContent request) (redactWith env (ck_Action check))
         in \<lparr>Triggered = True, res_Summary = stringValue (env_float env) (ck_Config check) [''summary'', ''message''],
             res_Details = [(''matches'', VStrs found), (''rule'', VStr rule)],
             res_SanitizedInput = chooseSanitizedInput request redacted,
             res_SanitizedOutput = chooseSanitizedOutput request redacted,
             OverrideOutcome = [], OverrideSeverity = [], res_Confidence = 95 / 100\<rparr>))"

definition evaluateRegexCheckCached ::
  "check_env \<Rightarrow> runtimeCheck \<Rightarrow> EvaluateRequest \<Rightarrow> (string \<rightharpoonup> string list)
     \<Rightarrow> (string + runtimeCheckResult) \<times> (string \<rightharpoonup> string list)" where
  "evaluateRegexCheckCached env check request matchCache =
     (let rule = stringValue (env_float env) (ck_Config check) [''rule'', ''pattern''] in
      if rule = [] then (Inr no_result, matchCache)
      else case rx_Compile (env_rx env) rule of
        Some err \<Rightarrow> (Inl err, matchCache)
      | None \<Rightarrow>
          (case matchCache rule of
             Some cached \<Rightarrow> (Inr (regex_result env check request rule cached), matchCache)
           | None \<Rightarrow>
               (let found = rx_FindAll (env_rx env) rule (pickContent request)
                in (Inr (regex_result env check request rule found), matchCache(rule \<mapsto> found)))))"

text \<open>\<open>evaluateRegexCheck\<close> passes no cache.\<close>

definition evaluateRegexCheck :: "check_env \<Rightarrow> runtimeCheck \<Rightarrow> EvaluateRequest \<Rightarrow> string + runtimeCheckResult" where
  "evaluateRegexCheck env check request = fst (evaluateRegexCheckCached env check request Map.empty)"

definition range_check :: "check_env \<Rightarrow> runtimeCheck \<Rightarrow> int \<Rightarrow> string \<Rightarrow> string \<Rightarrow> string \<Rightarrow> string \<Rightarrow> runtimeCheckResult" where
  "range_check env check cnt minKey maxKey label0 detail =
     (let mn = intValue (env_float env) (ck_Config check) minKey (- 1);
          mx = intValue (env_float env) (ck_Config check) maxKey (- 1) in
      if \<not> outsideRange cnt mn mx then no_result
      else hit (9 / 10) (label0 @ '' count '' @ show_int cnt @ '' violated the configured range'')
        [(detail, VInt cnt), (''min'', VInt mn), (''max'', VInt mx)])"

definition sentenceCount :: "check_env \<Rightarrow> string \<Rightarrow> nat" where
  "sentenceCount env t = length (filter (\<lambda>part. TrimSpace part \<noteq> []) (rx_Split (env_rx env) ''[.!?]+'' t))"

text \<open>\<open>strings.Fields\<close>.\<close>

fun Fields_loop :: "string \<Rightarrow> string \<Rightarrow> string list" where
  "Fields_loop cur [] = (if cur = [] then [] else [rev cur])"
| "Fields_loop cur (c # cs) =
     (if is_space c then (if cur = [] then Fields_loop [] cs else rev cur # Fields_loop [] cs)
      else Fields_loop (c # cur) cs)"

definition Fields :: "string \<Rightarrow> string list" where
  "Fields s = Fields_loop [] s"

definition evaluateSentenceCountCheck :: "check_env \<Rightarrow> runtimeCheck \<Rightarrow> EvaluateRequest \<Rightarrow> runtimeCheckResult" where
  "evaluateSentenceCountCheck env check request =
     range_check env check (int (sentenceCount env (pickContent request))) ''minSentences'' ''maxSentences'' ''Sentence'' ''sentence_count''"

definition evaluateWordCountCheck :: "check_env \<Rightarrow> runtimeCheck \<Rightarrow> EvaluateRequest \<Rightarrow> runtimeCheckResult" where
  "evaluateWordCountCheck env check request =
     range_check env check (int (length (Fields (pickContent request)))) ''minWords'' ''maxWords'' ''Word'' ''word_count''"

text \<open>\<open>len([]rune(target))\<close> is the length for ASCII text.\<close>

definition evaluateCharacterCountCheck :: "check_env \<Rightarrow> runtimeCheck \<Rightarrow> EvaluateRequest \<Rightarrow> runtimeCheckResult" where
  "evaluateCharacterCountCheck env check request =
     range_check env check (int (length (pickContent request))) ''minCharacters'' ''maxCharacters'' ''Character'' ''character_count''"

definition evaluateJSONSchemaCheck :: "check_env \<Rightarrow> runtimeCheck \<Rightarrow> EvaluateRequest \<Rightarrow> string + runtimeCheckResult" where
  "evaluateJSONSchemaCheck env check request =
     (let target = TrimSpace (pickContent request) in
      if target = [] then Inr no_result
      else case map_of (ck_Config check) ''schema'' of
        None \<Rightarrow> Inr no_result
      | Some VNil \<Rightarrow> Inr no_result
      | Some schemaValue \<Rightarrow>
          (case env_schema env schemaValue of
             Inl err \<Rightarrow> Inl err
           | Inr validate \<Rightarrow>
               (case env_Unmarshal env target of
                  Inl err \<Rightarrow> Inr (hit (95 / 100) ''Response is not valid JSON'' [(''error'', VStr err)])
                | Inr payload \<Rightarrow>
                    (case validate payload of
                       Some err \<Rightarrow> Inr (hit (95 / 100) ''Response JSON does not match the configured schema'' [(''error'', VStr err)])
                     | None \<Rightarrow> Inr no_result))))"

text \<open>\<open>json.Unmarshal\<close> into \<open>map[string]any\<close>: an object, or \<open>null\<close> for the nil map.\<close>

definition unmarshal_object :: "check_env \<Rightarrow> string \<Rightarrow> string + gomap" where
  "unmarshal_object env target =
     (case env_Unmarshal env target of
        Inl err \<Rightarrow> Inl err
      | Inr (VMap m) \<Rightarrow> Inr m
      | Inr VNil \<Rightarrow> Inr []
      | Inr v \<Rightarrow> Inl (env_type_error env v))"

definition operator_fails :: "string \<Rightarrow> nat \<Rightarrow> nat \<Rightarrow> bool" where
  "operator_fails operator matched n =
     (if operator = ''all'' then matched \<noteq> n else if operator = ''none'' then matched > 0 else matched = 0)"

definition check_operator :: "check_env \<Rightarrow> runtimeCheck \<Rightarrow> string" where
  "check_operator env check = ToLower (TrimSpace (stringValue (env_float env) (ck_Config check) [''operator'']))"

definition evaluateJSONKeysCheck :: "check_env \<Rightarrow> runtimeCheck \<Rightarrow> EvaluateRequest \<Rightarrow> string + runtimeCheckResult" where
  "evaluateJSONKeysCheck env check request =
     (let target = TrimSpace (pickContent request) in
      if target = [] then Inr no_result
      else case unmarshal_object env target of
        Inl err \<Rightarrow> Inr (hit (95 / 100) ''Response is not valid JSON'' [(''error'', VStr err)])
      | Inr payload \<Rightarrow>
          (let keys = stringSlice (env_float env) (map_of (ck_Config check) ''keys'') in
           if keys = [] then Inr no_result
           else
             (let operator = check_operator env check;
                  matched = length (filter (\<lambda>key. map_of payload key \<noteq> None) keys) in
              if \<not> operator_fails operator matched (length keys) then Inr no_result
              else Inr (hit (9 / 10) (''JSON keys check failed with operator '' @ defaultString operator ''any'')
                     [(''keys'', VStrs keys), (''matched'', VInt (int matched)), (''operator'', VStr (defaultString operator ''any''))]))))"

definition evaluateContainsCheck :: "check_env \<Rightarrow> runtimeCheck \<Rightarrow> EvaluateRequest \<Rightarrow> runtimeCheckResult" where
  "evaluateContainsCheck env check request =
     (let target = pickContent request;
          ws = stringSlice (env_float env) (map_of (ck_Config check) ''words'') in
      if ws = [] then no_result
      else
        (let operator = check_operator env check;
             matched = filter (\<lambda>w. Contains (ToLower target) (ToLower w)) ws in
         if \<not> operator_fails operator (length matched) (length ws) then no_result
         else hit (88 / 100) ''Contains check failed''
           [(''words'', VStrs ws), (''matched'', VStrs matched), (''operator'', VStr (defaultString operator ''any''))]))"

text \<open>\<open>https?://[^\s<>"']+\<close>\<close>

definition urlPattern :: string where
  "urlPattern = ''https?://[^'' @ [CHR 0x5C] @ ''s<>'' @ [CHR 0x22, CHR 0x27] @ '']+''"

definition evaluateValidURLsCheck :: "check_env \<Rightarrow> runtimeCheck \<Rightarrow> EvaluateRequest \<Rightarrow> runtimeCheckResult" where
  "evaluateValidURLsCheck env check request =
     (let urls = rx_FindAll (env_rx env) urlPattern (pickContent request) in
      if urls = [] then no_result
      else
        (let invalid = filter (\<lambda>candidate.
               case env_uri_host env candidate of
                 None \<Rightarrow> True
               | Some host \<Rightarrow>
                   TrimSpace host = [] \<or> (boolValue (ck_Config check) ''onlyDNS'' False \<and> \<not> Contains host ''.'')) urls in
         if invalid = [] then no_result
         else hit (9 / 10) ''One or more URLs are invalid'' [(''invalid_urls'', VStrs invalid)]))"

text \<open>The four patterns of \<open>containsCode\<close>, with the backslash written as a character code.\<close>

definition code_pattern :: "string \<Rightarrow> string" where
  "code_pattern format =
     (let b = [CHR 0x5C] in
      if format = ''sql'' then ''(?is)'' @ b @ ''b(select|insert|update|delete|from|where|join)'' @ b @ ''b''
      else if format = ''python'' then ''(?m)'' @ b @ ''b(def |class |import |from .+ import |print'' @ b @ ''()''
      else if format \<in> {''typescript'', ''javascript'', ''ts'', ''js''}
      then ''(?m)'' @ b @ ''b(const |let |function |interface |type |=>)''
      else ''(?m)('' @ b @ ''{|'' @ b @ ''}|;|<'' @ b @ ''w+>|SELECT'' @ b @ ''s+.+'' @ b @ ''s+FROM|def'' @ b @ ''s+'' @ b @ ''w+'' @ b @ ''()'')"

definition containsCode :: "check_env \<Rightarrow> string \<Rightarrow> string \<Rightarrow> bool" where
  "containsCode env t format =
     (if Contains t [CHR 0x60, CHR 0x60, CHR 0x60] then True else rx_Match (env_rx env) (code_pattern format) t)"

definition evaluateContainsCodeCheck :: "check_env \<Rightarrow> runtimeCheck \<Rightarrow> EvaluateRequest \<Rightarrow> runtimeCheckResult" where
  "evaluateContainsCodeCheck env check request =
     (let format = ToLower (TrimSpace (stringValue (env_float env) (ck_Config check) [''format''])) in
      if \<not> containsCode env (pickContent request) format then no_result
      else hit (82 / 100) ''Content contains code'' [(''format'', VStr format)])"

definition evaluateLowercaseCheck :: "runtimeCheck \<Rightarrow> EvaluateRequest \<Rightarrow> runtimeCheckResult" where
  "evaluateLowercaseCheck check request =
     (let target = pickContent request;
          expectedLowercase = boolValue (ck_Config check) ''expected'' True;
          isLower = (target = ToLower target) in
      if isLower = expectedLowercase then no_result
      else hit (9 / 10) ''Lowercase check failed'' [(''expected'', VBool expectedLowercase)])"

text \<open>\<open>%q\<close> of \<open>fmt.Sprintf\<close>.\<close>

definition quote_byte :: "byte \<Rightarrow> string" where
  "quote_byte c =
     (let n = of_char c :: nat; b = CHR 0x5C in
      if c = CHR 0x22 \<or> c = b then [b, c]
      else if n = 7 then b # ''a'' else if n = 8 then b # ''b'' else if n = 9 then b # ''t'' else if n = 10 then b # ''n''
      else if n = 11 then b # ''v'' else if n = 12 then b # ''f'' else if n = 13 then b # ''r''
      else if n < 32 \<or> n = 127 then b # ''x'' @ [hex_digit (n div 16), hex_digit (n mod 16)]
      else [c])"

definition quote_go :: "string \<Rightarrow> string" where
  "quote_go s = [CHR 0x22] @ concat (map quote_byte s) @ [CHR 0x22]"

definition evaluateEndsWithCheck :: "check_env \<Rightarrow> runtimeCheck \<Rightarrow> EvaluateRequest \<Rightarrow> runtimeCheckResult" where
  "evaluateEndsWithCheck env check request =
     (let target = TrimSpace (pickContent request);
          suffix0 = stringValue (env_float env) (ck_Config check) [''suffix'', ''Suffix''] in
      if suffix0 = [] \<or> HasSuffix target suffix0 then no_result
      else hit (9 / 10) (''Content does not end with '' @ quote_go suffix0) [(''suffix'', VStr suffix0)])"

definition evaluateModelWhitelistCheck :: "check_env \<Rightarrow> runtimeCheck \<Rightarrow> EvaluateRequest \<Rightarrow> runtimeCheckResult" where
  "evaluateModelWhitelistCheck env check request =
     (let models0 = stringSlice (env_float env) (map_of (ck_Config check) ''models'');
          models = (if models0 = [] then stringSlice (env_float env) (map_of (ck_Config check) ''Models'') else models0) in
      if models = [] then no_result
      else
        (let inverse = boolValue (ck_Config check) ''inverse'' False \<or> boolValue (ck_Config check) ''Inverse'' False;
             matched = containsFold models (req_Model request);
             triggered = (\<not> inverse \<and> \<not> matched) \<or> (inverse \<and> matched) in
         if \<not> triggered then no_result
         else hit (97 / 100) (''Model '' @ req_Model request @ '' violated the configured whitelist policy'')
           [(''models'', VStrs models), (''inverse'', VBool inverse)]))"

definition piiPatternRegistry :: "(string \<times> string) list" where
  "piiPatternRegistry =
     (let b = [CHR 0x5C] in
      [(''email'', ''(?i)'' @ b @ ''b[A-Z0-9._%+'' @ b @ ''-]+@[A-Z0-9.'' @ b @ ''-]+'' @ b @ ''.[A-Z]{2,}'' @ b @ ''b''),
       (''phone'', b @ ''b(?:'' @ b @ ''+?'' @ b @ ''d{1,3}[ -]?)?(?:'' @ b @ ''(?'' @ b @ ''d{3}'' @ b @ '')?[ -]?)'' @ b @
          ''d{3}[ -]?'' @ b @ ''d{4}'' @ b @ ''b''),
       (''ssn'', b @ ''b'' @ b @ ''d{3}-'' @ b @ ''d{2}-'' @ b @ ''d{4}'' @ b @ ''b''),
       (''credit_card'', b @ ''b(?:'' @ b @ ''d[ -]*?){13,16}'' @ b @ ''b'')])"

definition compiledPIIPattern :: "check_env \<Rightarrow> string \<Rightarrow> string option" where
  "compiledPIIPattern env category =
     (case map_of piiPatternRegistry (ToLower (TrimSpace category)) of
        None \<Rightarrow> None
      | Some pattern \<Rightarrow> (if rx_Compile (env_rx env) pattern = None then Some pattern else None))"

definition pii_step :: "check_env \<Rightarrow> runtimeCheck \<Rightarrow> string \<Rightarrow> gomap \<times> string \<Rightarrow> string \<Rightarrow> gomap \<times> string" where
  "pii_step env check target st category =
     (case compiledPIIPattern env category of
        None \<Rightarrow> st
      | Some pattern \<Rightarrow>
          (let found = rx_FindAll (env_rx env) pattern target in
           if found = [] then st
           else (AList.update category (VStrs found) (fst st),
                 rx_ReplaceAll (env_rx env) pattern (snd st) (redactWith env (ck_Action check)))))"

definition evaluatePIICheck :: "check_env \<Rightarrow> runtimeCheck \<Rightarrow> EvaluateRequest \<Rightarrow> runtimeCheckResult" where
  "evaluatePIICheck env check request =
     (let target = pickContent request;
          categories0 = normalizedStringSlice (env_float env) (map_of (ck_Config check) ''categories'');
          categories = (if categories0 = [] then [''email'', ''phone'', ''ssn'', ''credit_card''] else categories0);
          (found, redacted) = foldl (pii_step env check target) ([], target) categories in
      if found = [] then no_result
      else (hit (94 / 100) ''Potential PII detected'' [(''categories'', VStrs categories), (''matches'', VMap found)])
             \<lparr>res_SanitizedInput := chooseSanitizedInput request redacted,
              res_SanitizedOutput := chooseSanitizedOutput request redacted\<rparr>)"

text \<open>
  The counters of \<open>looksGibberish\<close>: letters, vowels, spaces, repeats, the last rune and the length of its run.  The
  two quotients are compared by cross multiplication.
\<close>

fun gibberish_loop :: "nat \<times> nat \<times> nat \<times> nat \<times> byte \<times> nat \<Rightarrow> string \<Rightarrow> nat \<times> nat \<times> nat \<times> nat" where
  "gibberish_loop (letters, vowels, spaces, repeats, lst, run) [] = (letters, vowels, spaces, repeats)"
| "gibberish_loop (letters, vowels, spaces, repeats, lst, run) (r # rs) =
     (let spaces' = (if is_space r then spaces + 1 else spaces);
          letter = byte_between CHR ''a'' CHR ''z'' r;
          letters' = (if letter then letters + 1 else letters);
          vowels' = (if letter \<and> r \<in> set ''aeiou'' then vowels + 1 else vowels);
          run' = (if r = lst then run + 1 else 1);
          repeats' = (if run' \<ge> 5 then repeats + 1 else repeats)
      in gibberish_loop (letters', vowels', spaces', repeats', r, run') rs)"

definition looksGibberish :: "string \<Rightarrow> bool" where
  "looksGibberish t =
     (let trimmed = TrimSpace t in
      if length trimmed < 24 then False
      else
        (let (letters, vowels, spaces, repeats) = gibberish_loop (0, 0, 0, 0, CHR 0x00, 0) (ToLower trimmed) in
         if letters = 0 then False
         else 100 * vowels < 18 * letters \<or> (100 * spaces < 5 * length trimmed \<and> repeats > 0)))"

definition evaluateGibberishCheck :: "EvaluateRequest \<Rightarrow> runtimeCheckResult" where
  "evaluateGibberishCheck request =
     (if \<not> looksGibberish (pickContent request) then no_result
      else hit (78 / 100) ''Content appears to be gibberish'' [])"

definition executeRuntimeCheck :: "check_env \<Rightarrow> runtimeCheck \<Rightarrow> EvaluateRequest \<Rightarrow> string + runtimeCheckResult" where
  "executeRuntimeCheck env check request =
     (let name = ck_Name check in
      if name = ''regex_match'' then evaluateRegexCheck env check request
      else if name = ''sentence_count'' then Inr (evaluateSentenceCountCheck env check request)
      else if name = ''word_count'' then Inr (evaluateWordCountCheck env check request)
      else if name = ''character_count'' then Inr (evaluateCharacterCountCheck env check request)
      else if name = ''json_schema'' then evaluateJSONSchemaCheck env check request
      else if name = ''json_keys'' then evaluateJSONKeysCheck env check request
      else if name = ''contains'' then Inr (evaluateContainsCheck env check request)
      else if name = ''valid_urls'' then Inr (evaluateValidURLsCheck env check request)
      else if name = ''contains_code'' then Inr (evaluateContainsCodeCheck env check request)
      else if name = ''lowercase_detection'' then Inr (evaluateLowercaseCheck check request)
      else if name = ''ends_with'' then Inr (evaluateEndsWithCheck env check request)
      else if name = ''model_whitelist'' then Inr (evaluateModelWhitelistCheck env check request)
      else if name = ''detect_pii'' then Inr (evaluatePIICheck env check request)
      else if name = ''detect_gibberish'' then Inr (evaluateGibberishCheck request)
      else if name = ''webhook'' then env_webhook env check request
      else Inr no_result)"

section \<open>Pre-filters\<close>

definition compiledPolicyCacheKey :: "PolicyBundle \<Rightarrow> string \<Rightarrow> string" where
  "compiledPolicyCacheKey policy stage0 =
     (let stage = NormalizeStage stage0 in
      if TrimSpace (PolicyVersionID policy) \<noteq> [] then TrimSpace (PolicyVersionID policy) @ '':'' @ stage
      else if TrimSpace (PolicyID policy) = ''builtin-runtime-default'' then ''builtin-runtime-default-v1:'' @ stage
      else [])"

text \<open>The part of the runtime's state the pre-filters cache their automata and alternations in.\<close>

record filter_caches =
  compiledRuleUnions :: "string \<rightharpoonup> string"
  compiledRuleACs :: "string \<rightharpoonup> ahoCorasickAutomaton option"

text \<open>The non-empty patterns of the \<open>regex_match\<close> checks, in order.\<close>

definition regex_patterns :: "check_env \<Rightarrow> runtimeCheck list \<Rightarrow> string list" where
  "regex_patterns env checks =
     filter (\<lambda>pattern. pattern \<noteq> [])
       (map (\<lambda>check. stringValue (env_float env) (ck_Config check) [''rule'', ''pattern''])
         (filter (\<lambda>check. ck_Name check = ''regex_match'') checks))"

fun gather_literals :: "check_env \<Rightarrow> string list \<Rightarrow> string list option" where
  "gather_literals env [] = Some []"
| "gather_literals env (pattern # patterns) =
     (let anchors = extractAllAlternativeLiterals (rx_parse (env_rx env)) pattern in
      if anchors = [] then None else map_option (\<lambda>literals. anchors @ literals) (gather_literals env patterns))"

definition ac_key :: "PolicyBundle \<Rightarrow> string" where
  "ac_key policy = compiledPolicyCacheKey policy (NormalizeStage (Scope policy)) @ '':ac''"

definition union_key :: "PolicyBundle \<Rightarrow> string" where
  "union_key policy = compiledPolicyCacheKey policy (NormalizeStage (Scope policy)) @ '':portkey-union''"

text \<open>
  The second look-up under the write lock finds nothing new when no other request runs.  \<open>buildAhoCorasick\<close> always
  returns (\<open>build_returns\<close>), so the last branch is never taken.
\<close>

definition ahoCorasickForRegexMatchChecks ::
  "check_env \<Rightarrow> PolicyBundle \<Rightarrow> runtimeCheck list \<Rightarrow> ('m) filter_caches_scheme
     \<Rightarrow> ahoCorasickAutomaton option \<times> ('m) filter_caches_scheme" where
  "ahoCorasickForRegexMatchChecks env policy checks r =
     (if checks = [] then (None, r)
      else case compiledRuleACs r (ac_key policy) of
        Some ac \<Rightarrow> (ac, r)
      | None \<Rightarrow>
          (case gather_literals env (regex_patterns env checks) of
             None \<Rightarrow> (None, r\<lparr>compiledRuleACs := (compiledRuleACs r)(ac_key policy \<mapsto> None)\<rparr>)
           | Some literals \<Rightarrow>
               (if literals = [] then (None, r)
                else case buildAhoCorasick (rx_range (env_rx env)) literals of
                  Some ac \<Rightarrow> (ac, r\<lparr>compiledRuleACs := (compiledRuleACs r)(ac_key policy \<mapsto> ac)\<rparr>)
                | None \<Rightarrow> (None, r))))"

definition union_pattern :: "string list \<Rightarrow> string" where
  "union_pattern patterns = Join (map (\<lambda>pattern. ''(?:'' @ pattern @ '')'') patterns) ''|''"

definition unionRegexForRegexMatchChecks ::
  "check_env \<Rightarrow> PolicyBundle \<Rightarrow> runtimeCheck list \<Rightarrow> ('m) filter_caches_scheme
     \<Rightarrow> string option \<times> ('m) filter_caches_scheme" where
  "unionRegexForRegexMatchChecks env policy checks r =
     (if checks = [] then (None, r)
      else case compiledRuleUnions r (union_key policy) of
        Some union0 \<Rightarrow> (Some union0, r)
      | None \<Rightarrow>
          (let patterns = regex_patterns env checks in
           if list_ex (\<lambda>pattern. rx_Compile (env_rx env) pattern \<noteq> None) patterns then (None, r)
           else if patterns = [] then (None, r)
           else if rx_Compile (env_rx env) (union_pattern patterns) \<noteq> None then (None, r)
           else (Some (union_pattern patterns),
                 r\<lparr>compiledRuleUnions := (compiledRuleUnions r)(union_key policy \<mapsto> union_pattern patterns)\<rparr>)))"

definition prefilter_skips ::
  "check_env \<Rightarrow> PolicyBundle \<Rightarrow> runtimeCheck list \<Rightarrow> string \<Rightarrow> ('m) filter_caches_scheme \<Rightarrow> bool \<times> ('m) filter_caches_scheme" where
  "prefilter_skips env policy checks target r =
     (let (ac, r1) = ahoCorasickForRegexMatchChecks env policy checks r;
          skip = (ac \<noteq> None \<and> ac_matches ac (ToLower target) = Some False) in
      if skip then (True, r1)
      else
        (let (union0, r2) = unionRegexForRegexMatchChecks env policy checks r1
         in (case union0 of None \<Rightarrow> False | Some u \<Rightarrow> \<not> rx_Match (env_rx env) u target, r2)))"

section \<open>The loop\<close>

record check_loop =
  cl_acc :: check_acc
  cl_seen :: "string list"
  cl_matches :: "string \<rightharpoonup> string list"
  cl_webhooks :: "(PolicyBundle \<times> runtimeCheck) list"

definition merge_result ::
  "check_env \<Rightarrow> PolicyBundle \<Rightarrow> runtimeCheck \<Rightarrow> string \<Rightarrow> string + runtimeCheckResult \<Rightarrow> check_acc \<Rightarrow> check_acc" where
  "merge_result env policy check stage res acc =
     (case res of
        Inl err \<Rightarrow> acc\<lparr>acc_chain := acc_chain acc @ [''guardrail check '' @ ck_Name check @ '' failed: '' @ err]\<rparr>
      | Inr result \<Rightarrow> applyRuntimeCheckResult env policy check result stage acc)"

definition run_check ::
  "check_env \<Rightarrow> EvaluateRequest \<Rightarrow> PolicyBundle \<Rightarrow> bool \<Rightarrow> check_loop \<Rightarrow> runtimeCheck \<Rightarrow> check_loop" where
  "run_check env request policy skipRegexMatch st check =
     (let fingerprint = runtimeCheckFingerprint env (EnforcementMode policy) check in
      if fingerprint \<in> set (cl_seen st) then st
      else
        (let st1 = st\<lparr>cl_seen := fingerprint # cl_seen st\<rparr> in
         if ck_Name check = ''webhook'' then st1\<lparr>cl_webhooks := cl_webhooks st1 @ [(policy, check)]\<rparr>
         else if skipRegexMatch \<and> ck_Name check = ''regex_match'' then st1
         else
           (let (res, cache) = (if ck_Name check = ''regex_match''
                  then evaluateRegexCheckCached env check request (cl_matches st1)
                  else (executeRuntimeCheck env check request, cl_matches st1))
            in st1\<lparr>cl_matches := cache, cl_acc := merge_result env policy check (req_Stage request) res (cl_acc st1)\<rparr>)))"

text \<open>\<open>r\<close> is \<open>None\<close> for the variant without a runtime, which has no pre-filters.\<close>

definition run_policy ::
  "check_env \<Rightarrow> EvaluateRequest \<Rightarrow> check_loop \<times> (('m) filter_caches_scheme) option \<Rightarrow> PolicyBundle
     \<Rightarrow> check_loop \<times> (('m) filter_caches_scheme) option" where
  "run_policy env request s policy =
     (let (st, r) = s;
          checks = extractRuntimeChecks env (Definition policy) (req_Stage request) in
      if checks = [] then (st, r)
      else
        (let (skipRegexMatch, r') =
               (case r of
                  None \<Rightarrow> (False, None)
                | Some caches \<Rightarrow> (case prefilter_skips env policy checks (pickContent request) caches of (b, c) \<Rightarrow> (b, Some c)))
         in (foldl (run_check env request policy skipRegexMatch) st checks, r')))"

definition loop_start :: "EvaluateRequest \<Rightarrow> check_loop" where
  "loop_start request =
     \<lparr>cl_acc = \<lparr>acc_findings = [], acc_redactions = [], acc_chain = [], acc_input = Input (req_Content request),
        acc_output = Output (req_Content request)\<rparr>,
      cl_seen = [], cl_matches = Map.empty, cl_webhooks = []\<rparr>"

definition merge_webhooks :: "check_env \<Rightarrow> EvaluateRequest \<Rightarrow> (PolicyBundle \<times> runtimeCheck) list \<Rightarrow> check_acc \<Rightarrow> check_acc" where
  "merge_webhooks env request webhookChecks acc =
     foldl (\<lambda>acc (policy, check). merge_result env policy check (req_Stage request) (env_webhook env check request) acc) acc webhookChecks"

definition evaluateRuntimeChecksWithRuntime ::
  "check_env \<Rightarrow> (('m) filter_caches_scheme) option \<Rightarrow> PolicyBundle list \<Rightarrow> EvaluateRequest
     \<Rightarrow> check_acc \<times> (('m) filter_caches_scheme) option" where
  "evaluateRuntimeChecksWithRuntime env r policies request =
     (let (st, r') = foldl (run_policy env request) (loop_start request, r) policies
      in (merge_webhooks env request (cl_webhooks st) (cl_acc st), r'))"

definition evaluateRuntimeCheckPolicies :: "check_env \<Rightarrow> PolicyBundle list \<Rightarrow> EvaluateRequest \<Rightarrow> check_acc" where
  "evaluateRuntimeCheckPolicies env policies request =
     fst (evaluateRuntimeChecksWithRuntime env (None :: filter_caches option) policies request)"

end
