(* ===== verification/PrefilterEquiv.thy ===== *)
theory PrefilterEquiv
  imports RuntimeChecks
begin

text \<open>
  The two pre-filters of the check loop against the loop without them: the laws of the regular-expression package
  the argument rests on, the invariant of the filter caches, the simulation of the two loops, and what goes wrong
  when two policies or two stages share a cache entry.
\<close>

section \<open>Laws and invariants\<close>

text \<open>
  What the code relies on of the regular-expression package: a range over a map visits every entry once, a pattern
  that parses compiles, in an ASCII text a pattern with ASCII literals finds something only where its syntax tree
  matches, and the alternation of compiling patterns, each in a group, matches exactly where one of them finds something.
\<close>

definition lawful_engine :: "regex_engine \<Rightarrow> bool" where
  "lawful_engine e \<longleftrightarrow>
     (\<forall>m. mset (rx_range e m) = mset m) \<and>
     (\<forall>p re. rx_parse e p = Some re \<longrightarrow> rx_Compile e p = None) \<and>
     (\<forall>p re t. rx_parse e p = Some re \<longrightarrow> ascii_literals re \<longrightarrow> ascii_text t \<longrightarrow> rx_FindAll e p t \<noteq> [] \<longrightarrow> re_fires re t) \<and>
     (\<forall>ps t. ps \<noteq> [] \<longrightarrow> (\<forall>p \<in> set ps. rx_Compile e p = None) \<longrightarrow>
        (rx_Match e (union_pattern ps) t \<longleftrightarrow> (\<exists>p \<in> set ps. rx_FindAll e p t \<noteq> [])))"

definition policy_patterns :: "check_env \<Rightarrow> string \<Rightarrow> PolicyBundle \<Rightarrow> string list" where
  "policy_patterns env stage policy = regex_patterns env (extractRuntimeChecks env (Definition policy) stage)"

text \<open>Alternation only at the top of a pattern, as \<open>longestLiteralInTree\<close> needs it.\<close>

definition anchored_policies :: "check_env \<Rightarrow> string \<Rightarrow> PolicyBundle list \<Rightarrow> bool" where
  "anchored_policies env stage policies \<longleftrightarrow>
     (\<forall>policy \<in> set policies. \<forall>p \<in> set (policy_patterns env stage policy). \<forall>re.
        rx_parse (env_rx env) p = Some re \<longrightarrow> anchored_tree re)"

text \<open>The literals of all patterns are ASCII.\<close>

definition ascii_policies :: "check_env \<Rightarrow> string \<Rightarrow> PolicyBundle list \<Rightarrow> bool" where
  "ascii_policies env stage policies \<longleftrightarrow>
     (\<forall>policy \<in> set policies. \<forall>p \<in> set (policy_patterns env stage policy). \<forall>re.
        rx_parse (env_rx env) p = Some re \<longrightarrow> ascii_literals re)"

text \<open>Two policies with one cache key have the same patterns.\<close>

definition cache_key_of :: "PolicyBundle \<Rightarrow> string" where
  "cache_key_of policy = compiledPolicyCacheKey policy (NormalizeStage (Scope policy))"

definition coherent_policies :: "check_env \<Rightarrow> string \<Rightarrow> PolicyBundle list \<Rightarrow> bool" where
  "coherent_policies env stage policies \<longleftrightarrow>
     (\<forall>p \<in> set policies. \<forall>q \<in> set policies. cache_key_of p = cache_key_of q \<longrightarrow>
        policy_patterns env stage p = policy_patterns env stage q)"

definition fresh_ac :: "check_env \<Rightarrow> string list \<Rightarrow> ahoCorasickAutomaton option" where
  "fresh_ac env patterns =
     (case gather_literals env patterns of
        None \<Rightarrow> None
      | Some literals \<Rightarrow>
          (if literals = [] then None
           else case buildAhoCorasick (rx_range (env_rx env)) literals of Some ac \<Rightarrow> ac | None \<Rightarrow> None))"

text \<open>Every cache entry of a policy is the one its own patterns give.\<close>

definition filters_valid :: "check_env \<Rightarrow> string \<Rightarrow> PolicyBundle list \<Rightarrow> ('m) filter_caches_scheme \<Rightarrow> bool" where
  "filters_valid env stage policies r \<longleftrightarrow>
     (\<forall>policy \<in> set policies.
        (\<forall>ac. compiledRuleACs r (ac_key policy) = Some ac \<longrightarrow> ac = fresh_ac env (policy_patterns env stage policy)) \<and>
        (\<forall>u. compiledRuleUnions r (union_key policy) = Some u \<longrightarrow>
           u = union_pattern (policy_patterns env stage policy) \<and> policy_patterns env stage policy \<noteq> [] \<and>
           (\<forall>p \<in> set (policy_patterns env stage policy). rx_Compile (env_rx env) p = None)))"

section \<open>One policy\<close>

lemma ac_key_eq: "ac_key p = ac_key q \<longleftrightarrow> cache_key_of p = cache_key_of q"
  by (simp add: ac_key_def cache_key_of_def)

lemma union_key_eq: "union_key p = union_key q \<longleftrightarrow> cache_key_of p = cache_key_of q"
  by (simp add: union_key_def cache_key_of_def)

lemma gather_literals_Some:
  "gather_literals env ps = Some lits \<Longrightarrow>
     lits = concat (map (extractAllAlternativeLiterals (rx_parse (env_rx env))) ps) \<and>
     (\<forall>p \<in> set ps. extractAllAlternativeLiterals (rx_parse (env_rx env)) p \<noteq> [])"
  by (induction ps arbitrary: lits) (auto simp: Let_def split: if_splits)

lemma anchors_parse: "extractAllAlternativeLiterals parse p \<noteq> [] \<Longrightarrow> \<exists>re. parse p = Some re"
  by (auto simp: extractAllAlternativeLiterals_def split: option.splits)

lemma fresh_ac_sound:
  assumes e: "lawful_engine (env_rx env)"
    and anch: "\<And>p re. p \<in> set ps \<Longrightarrow> rx_parse (env_rx env) p = Some re \<Longrightarrow> anchored_tree re"
    and asc: "\<And>p re. p \<in> set ps \<Longrightarrow> rx_parse (env_rx env) p = Some re \<Longrightarrow> ascii_literals re" "ascii_text t"
    and ac: "fresh_ac env ps = Some ac" and miss: "ac_matches (Some ac) (ToLower t) = Some False"
    and p: "p \<in> set ps"
  shows "rx_Compile (env_rx env) p = None \<and> rx_FindAll (env_rx env) p t = []"
proof -
  let ?parse = "rx_parse (env_rx env)"
  from ac obtain lits where lits: "gather_literals env ps = Some lits"
    and b: "buildAhoCorasick (rx_range (env_rx env)) lits = Some (Some ac)"
    by (auto simp: fresh_ac_def split: option.splits if_splits)
  note g = gather_literals_Some [OF lits]
  have rng: "mset (rx_range (env_rx env) m) = mset m" for m using e by (simp add: lawful_engine_def)
  have ex: "\<exists>re. ?parse q = Some re \<and> anchored_tree re" if "q \<in> set ps" for q
    using that g anchors_parse [of ?parse q] anch by metis
  have b': "buildAhoCorasick (rx_range (env_rx env)) (concat (map (extractAllAlternativeLiterals ?parse) ps)) = Some (Some ac)"
    using b g by simp
  from prefilter_no_match [OF rng ex _ b' miss] g
  have no: "\<forall>re. ?parse p = Some re \<longrightarrow> \<not> re_fires re t" using p by blast
  from ex [OF p] obtain re where re: "?parse p = Some re" by blast
  with no have "\<not> re_fires re t" by blast
  with re e asc(1) [OF p re] asc(2) show ?thesis unfolding lawful_engine_def by blast
qed

lemma aho_result:
  "ahoCorasickForRegexMatchChecks env policy checks r = (ac, r') \<Longrightarrow>
     ac = None \<and> r' = r \<or>
     compiledRuleACs r (ac_key policy) = Some ac \<and> r' = r \<or>
     ac = fresh_ac env (regex_patterns env checks) \<and> r' = r\<lparr>compiledRuleACs := (compiledRuleACs r)(ac_key policy \<mapsto> ac)\<rparr>"
  unfolding ahoCorasickForRegexMatchChecks_def fresh_ac_def
  by (cases "checks = []"; cases "compiledRuleACs r (ac_key policy)"; cases "gather_literals env (regex_patterns env checks)";
      cases "buildAhoCorasick (rx_range (env_rx env)) (the (gather_literals env (regex_patterns env checks)))")
    (simp_all split: if_splits)

lemma union_result:
  "unionRegexForRegexMatchChecks env policy checks r = (u, r') \<Longrightarrow>
     u = None \<and> r' = r \<or>
     compiledRuleUnions r (union_key policy) = u \<and> r' = r \<or>
     u = Some (union_pattern (regex_patterns env checks)) \<and> regex_patterns env checks \<noteq> [] \<and>
     (\<forall>p \<in> set (regex_patterns env checks). rx_Compile (env_rx env) p = None) \<and>
     r' = r\<lparr>compiledRuleUnions := (compiledRuleUnions r)(union_key policy \<mapsto> union_pattern (regex_patterns env checks))\<rparr>"
  unfolding unionRegexForRegexMatchChecks_def Let_def list_ex_iff by (simp split: if_splits option.splits) auto

lemma filters_validD:
  assumes "filters_valid env stage policies r" "policy \<in> set policies"
  shows "compiledRuleACs r (ac_key policy) = Some ac \<Longrightarrow> ac = fresh_ac env (policy_patterns env stage policy)"
    and "compiledRuleUnions r (union_key policy) = Some u \<Longrightarrow>
      u = union_pattern (policy_patterns env stage policy) \<and> policy_patterns env stage policy \<noteq> [] \<and>
      (\<forall>p \<in> set (policy_patterns env stage policy). rx_Compile (env_rx env) p = None)"
  using assms by (auto simp: filters_valid_def)

lemma filters_valid_update_ac:
  assumes "filters_valid env stage policies r"
    and "\<And>q. q \<in> set policies \<Longrightarrow> ac_key q = k \<Longrightarrow> ac = fresh_ac env (policy_patterns env stage q)"
  shows "filters_valid env stage policies (r\<lparr>compiledRuleACs := (compiledRuleACs r)(k \<mapsto> ac)\<rparr>)"
  using assms(1) unfolding filters_valid_def by (simp add: assms(2))

lemma filters_valid_update_union:
  assumes "filters_valid env stage policies r"
    and "\<And>q. q \<in> set policies \<Longrightarrow> union_key q = k \<Longrightarrow> u = union_pattern (policy_patterns env stage q) \<and>
      policy_patterns env stage q \<noteq> [] \<and> (\<forall>p \<in> set (policy_patterns env stage q). rx_Compile (env_rx env) p = None)"
  shows "filters_valid env stage policies (r\<lparr>compiledRuleUnions := (compiledRuleUnions r)(k \<mapsto> u)\<rparr>)"
  using assms(1) unfolding filters_valid_def by (simp add: assms(2))

lemma prefilter_skips_sound:
  assumes e: "lawful_engine (env_rx env)"
    and anch: "\<And>p re. p \<in> set (policy_patterns env stage policy) \<Longrightarrow> rx_parse (env_rx env) p = Some re \<Longrightarrow> anchored_tree re"
    and asc: "\<And>p re. p \<in> set (policy_patterns env stage policy) \<Longrightarrow> rx_parse (env_rx env) p = Some re \<Longrightarrow> ascii_literals re" "ascii_text t"
    and valid: "filters_valid env stage policies r" and pol: "policy \<in> set policies"
    and checks: "checks = extractRuntimeChecks env (Definition policy) stage"
    and skip: "prefilter_skips env policy checks t r = (True, r')"
    and p: "p \<in> set (policy_patterns env stage policy)"
  shows "rx_Compile (env_rx env) p = None \<and> rx_FindAll (env_rx env) p t = []"
proof -
  let ?ps = "policy_patterns env stage policy"
  have pats: "regex_patterns env checks = ?ps" by (simp add: checks policy_patterns_def)
  obtain ac r1 where a: "ahoCorasickForRegexMatchChecks env policy checks r = (ac, r1)" by fastforce
  obtain u r2 where uu: "unionRegexForRegexMatchChecks env policy checks r1 = (u, r2)" by fastforce
  have fresh: "ac = None \<or> ac = fresh_ac env ?ps"
    using aho_result [OF a] filters_validD(1) [OF valid pol] by (auto simp: pats)
  have r1: "compiledRuleUnions r1 = compiledRuleUnions r"
    using aho_result [OF a] by auto
  from skip consider (ac) a' where "ac = Some a'" "ac_matches ac (ToLower t) = Some False"
    | (un) w where "u = Some w" "\<not> rx_Match (env_rx env) w t"
    by (auto simp: prefilter_skips_def a uu Let_def split: if_splits option.splits)
  then show ?thesis
  proof cases
    case ac
    with fresh have a: "fresh_ac env ?ps = Some a'" "ac_matches (Some a') (ToLower t) = Some False" by auto
    show ?thesis by (rule fresh_ac_sound [OF e anch asc a p])
  next
    case un
    have "w = union_pattern ?ps \<and> (\<forall>q \<in> set ?ps. rx_Compile (env_rx env) q = None)"
      using union_result [OF uu] un(1) r1 filters_validD(2) [OF valid pol] by (auto simp: pats)
    moreover have "?ps \<noteq> []" using p by auto
    ultimately show ?thesis using e un(2) p by (auto simp: lawful_engine_def)
  qed
qed

lemma prefilter_keeps_valid:
  assumes coh: "coherent_policies env stage policies" and valid: "filters_valid env stage policies r"
    and pol: "policy \<in> set policies" and checks: "checks = extractRuntimeChecks env (Definition policy) stage"
    and skip: "prefilter_skips env policy checks t r = (b, r')"
  shows "filters_valid env stage policies r'"
proof -
  let ?ps = "policy_patterns env stage policy"
  have pats: "regex_patterns env checks = ?ps" by (simp add: checks policy_patterns_def)
  obtain ac r1 where a: "ahoCorasickForRegexMatchChecks env policy checks r = (ac, r1)" by fastforce
  obtain u r2 where uu: "unionRegexForRegexMatchChecks env policy checks r1 = (u, r2)" by fastforce
  have same: "policy_patterns env stage q = ?ps" if "q \<in> set policies" "cache_key_of q = cache_key_of policy" for q
    using coh that pol unfolding coherent_policies_def by blast
  have v1: "filters_valid env stage policies r1"
    using aho_result [OF a]
  proof (elim disjE conjE)
    assume ac: "ac = fresh_ac env (regex_patterns env checks)"
      and r1: "r1 = r\<lparr>compiledRuleACs := (compiledRuleACs r)(ac_key policy \<mapsto> ac)\<rparr>"
    show ?thesis unfolding r1
      by (rule filters_valid_update_ac [OF valid]) (metis ac pats same ac_key_eq)
  qed (use valid in simp_all)
  have v2: "filters_valid env stage policies r2"
    using union_result [OF uu]
  proof (elim disjE conjE)
    assume ne: "regex_patterns env checks \<noteq> []" and ok: "\<forall>p \<in> set (regex_patterns env checks). rx_Compile (env_rx env) p = None"
      and r2: "r2 = r1\<lparr>compiledRuleUnions := (compiledRuleUnions r1)(union_key policy \<mapsto> union_pattern (regex_patterns env checks))\<rparr>"
    show ?thesis unfolding r2
      by (rule filters_valid_update_union [OF v1]) (metis ne ok pats same union_key_eq)
  qed (use v1 in simp_all)
  have "r' = r1 \<or> r' = r2" using skip by (simp add: prefilter_skips_def a uu Let_def split: if_splits)
  with v1 v2 show ?thesis by blast
qed

section \<open>The two loops\<close>

text \<open>Accumulators that agree on what is reported, and on the two texts if \<open>q\<close> holds.\<close>

definition acc_agree :: "bool \<Rightarrow> check_acc \<Rightarrow> check_acc \<Rightarrow> bool" where
  "acc_agree q a b \<longleftrightarrow> acc_findings a = acc_findings b \<and> acc_redactions a = acc_redactions b \<and> acc_chain a = acc_chain b \<and>
     (q \<longrightarrow> acc_input a = acc_input b \<and> acc_output a = acc_output b)"

definition match_cache_ok :: "check_env \<Rightarrow> string \<Rightarrow> (string \<rightharpoonup> string list) \<Rightarrow> bool" where
  "match_cache_ok env t m \<longleftrightarrow> (\<forall>rule found. m rule = Some found \<longrightarrow> found = rx_FindAll (env_rx env) rule t)"

definition loops_agree :: "bool \<Rightarrow> check_env \<Rightarrow> string \<Rightarrow> check_loop \<Rightarrow> check_loop \<Rightarrow> bool" where
  "loops_agree q env t st st' \<longleftrightarrow> acc_agree q (cl_acc st) (cl_acc st') \<and> cl_seen st = cl_seen st' \<and>
     cl_webhooks st = cl_webhooks st' \<and> match_cache_ok env t (cl_matches st) \<and> match_cache_ok env t (cl_matches st')"

text \<open>A check with nothing to say when it passes.\<close>

definition quiet_check :: "check_env \<Rightarrow> runtimeCheck \<Rightarrow> bool" where
  "quiet_check env check \<longleftrightarrow>
     extractActionFeedback env (ck_Action check) [''on_success_message'', ''success_message''] = []"

definition quiet_policies :: "check_env \<Rightarrow> string \<Rightarrow> PolicyBundle list \<Rightarrow> bool" where
  "quiet_policies env stage policies \<longleftrightarrow>
     (\<forall>policy \<in> set policies. \<forall>check \<in> set (extractRuntimeChecks env (Definition policy) stage).
        ck_Name check = ''regex_match'' \<longrightarrow> quiet_check env check)"

lemma cached_regex_check:
  assumes ok: "match_cache_ok env (pickContent request) m"
    and ev: "evaluateRegexCheckCached env check request m = (res, m')"
  shows "res = evaluateRegexCheck env check request \<and> match_cache_ok env (pickContent request) m'"
  using assms unfolding evaluateRegexCheck_def evaluateRegexCheckCached_def match_cache_ok_def Let_def
  by (auto split: if_splits option.splits)

lemma merge_result_agree:
  assumes "acc_agree q a b"
  shows "acc_agree q (merge_result env policy check stage res a) (merge_result env policy check stage res b)"
proof (cases res)
  case (Inl err)
  with assms show ?thesis by (simp add: merge_result_def acc_agree_def)
next
  case (Inr r)
  obtain i1 o1 where t1: "check_texts env check r stage (acc_input a, acc_output a) = (i1, o1)" by fastforce
  obtain i2 o2 where t2: "check_texts env check r stage (acc_input b, acc_output b) = (i2, o2)" by fastforce
  from assms Inr t1 t2 show ?thesis
    by (cases "Triggered r")
      (auto simp: merge_result_def acc_agree_def applyRuntimeCheckResult_def Let_def split: prod.splits)
qed

lemma merge_no_result:
  assumes "acc_agree q a b" and "q \<Longrightarrow> quiet_check env check"
  shows "acc_agree q a (merge_result env policy check stage (Inr no_result) b)"
  using assms
  by (auto simp: merge_result_def acc_agree_def applyRuntimeCheckResult_def no_result_def quiet_check_def Let_def
      split: prod.splits)

lemma unmatched_regex_check:
  assumes "\<And>p. p = stringValue (env_float env) (ck_Config check) [''rule'', ''pattern''] \<Longrightarrow> p \<noteq> [] \<Longrightarrow>
      rx_Compile (env_rx env) p = None \<and> rx_FindAll (env_rx env) p (pickContent request) = []"
  shows "evaluateRegexCheck env check request = Inr no_result"
  using assms by (auto simp: evaluateRegexCheck_def evaluateRegexCheckCached_def regex_result_def Let_def)

lemma run_check_agree:
  assumes ag: "loops_agree q env (pickContent request) st st'"
    and none: "skip \<Longrightarrow> ck_Name check = ''regex_match'' \<Longrightarrow> evaluateRegexCheck env check request = Inr no_result"
    and quiet: "q \<Longrightarrow> ck_Name check = ''regex_match'' \<Longrightarrow> quiet_check env check"
  shows "loops_agree q env (pickContent request)
    (run_check env request policy skip st check) (run_check env request policy False st' check)"
proof (cases "ck_Name check = ''regex_match''")
  case False
  with ag show ?thesis
    by (auto simp: run_check_def loops_agree_def Let_def merge_result_agree)
next
  case True
  obtain r1 m1 where e1: "evaluateRegexCheckCached env check request (cl_matches st) = (r1, m1)" by fastforce
  obtain r2 m2 where e2: "evaluateRegexCheckCached env check request (cl_matches st') = (r2, m2)" by fastforce
  have c1: "r1 = evaluateRegexCheck env check request \<and> match_cache_ok env (pickContent request) m1"
    using cached_regex_check [OF _ e1] ag by (simp add: loops_agree_def)
  have c2: "r2 = evaluateRegexCheck env check request \<and> match_cache_ok env (pickContent request) m2"
    using cached_regex_check [OF _ e2] ag by (simp add: loops_agree_def)
  show ?thesis
  proof (cases "skip")
    case True
    with \<open>ck_Name check = ''regex_match''\<close> none c2 have e3:
        "evaluateRegexCheckCached env check request (cl_matches st') = (Inr no_result, m2)" using e2 by simp
    from ag c2 e3 True quiet \<open>ck_Name check = ''regex_match''\<close> show ?thesis
      by (auto simp: run_check_def loops_agree_def Let_def merge_no_result)
  next
    case False
    with ag c1 c2 e1 e2 True show ?thesis
      by (auto simp: run_check_def loops_agree_def Let_def merge_result_agree)
  qed
qed

lemma run_checks_agree:
  assumes "loops_agree q env (pickContent request) st st'"
    and "\<And>check. check \<in> set checks \<Longrightarrow> skip \<Longrightarrow> ck_Name check = ''regex_match'' \<Longrightarrow>
      evaluateRegexCheck env check request = Inr no_result"
    and "\<And>check. check \<in> set checks \<Longrightarrow> q \<Longrightarrow> ck_Name check = ''regex_match'' \<Longrightarrow> quiet_check env check"
  shows "loops_agree q env (pickContent request)
    (foldl (run_check env request policy skip) st checks) (foldl (run_check env request policy False) st' checks)"
  using assms
proof (induction checks arbitrary: st st')
  case Nil
  then show ?case by simp
next
  case (Cons check checks)
  have "loops_agree q env (pickContent request)
    (run_check env request policy skip st check) (run_check env request policy False st' check)"
    using Cons.prems by (intro run_check_agree) auto
  with Cons show ?case by simp
qed

lemma run_policies_agree:
  assumes e: "lawful_engine (env_rx env)"
    and anch: "anchored_policies env (req_Stage request) policies"
    and asc: "ascii_policies env (req_Stage request) policies" "ascii_text (pickContent request)"
    and coh: "coherent_policies env (req_Stage request) policies"
    and quiet: "q \<Longrightarrow> quiet_policies env (req_Stage request) policies"
    and sub: "set ps \<subseteq> set policies"
    and ag: "loops_agree q env (pickContent request) st st'"
    and valid: "filters_valid env (req_Stage request) policies r"
  shows "\<exists>st1 r1 st2. foldl (run_policy env request) (st, Some r) ps = (st1, Some r1) \<and>
    foldl (run_policy env request) (st', None :: filter_caches option) ps = (st2, None) \<and>
    loops_agree q env (pickContent request) st1 st2 \<and> filters_valid env (req_Stage request) policies r1"
  using sub ag valid
proof (induction ps arbitrary: st st' r)
  case Nil
  then show ?case by simp
next
  case (Cons policy ps)
  let ?checks = "extractRuntimeChecks env (Definition policy) (req_Stage request)"
  let ?t = "pickContent request"
  have pol: "policy \<in> set policies" using Cons.prems by simp
  obtain b r' where pf: "prefilter_skips env policy ?checks ?t r = (b, r')" by fastforce
  have v: "filters_valid env (req_Stage request) policies r'"
    by (rule prefilter_keeps_valid [OF coh Cons.prems(3) pol refl pf])
  have none: "evaluateRegexCheck env check request = Inr no_result"
    if "check \<in> set ?checks" "b" "ck_Name check = ''regex_match''" for check
  proof (rule unmatched_regex_check)
    fix p
    assume p: "p = stringValue (env_float env) (ck_Config check) [''rule'', ''pattern'']" "p \<noteq> []"
    then have p': "p \<in> set (policy_patterns env (req_Stage request) policy)"
      using that by (auto simp: policy_patterns_def regex_patterns_def)
    have pf': "prefilter_skips env policy ?checks ?t r = (True, r')" using pf \<open>b\<close> by simp
    have an: "anchored_tree re" if "p \<in> set (policy_patterns env (req_Stage request) policy)"
      "rx_parse (env_rx env) p = Some re" for p re
      using anch pol that unfolding anchored_policies_def by blast
    have as: "ascii_literals re" if "p \<in> set (policy_patterns env (req_Stage request) policy)"
      "rx_parse (env_rx env) p = Some re" for p re
      using asc(1) pol that unfolding ascii_policies_def by blast
    show "rx_Compile (env_rx env) p = None \<and> rx_FindAll (env_rx env) p ?t = []"
      by (rule prefilter_skips_sound [OF e an as asc(2) Cons.prems(3) pol refl pf' p'])
  qed
  have qc: "quiet_check env check" if "check \<in> set ?checks" "q" "ck_Name check = ''regex_match''" for check
    using quiet that pol by (simp add: quiet_policies_def)
  have "loops_agree q env ?t
      (foldl (run_check env request policy b) st ?checks) (foldl (run_check env request policy False) st' ?checks)"
    by (rule run_checks_agree [OF Cons.prems(2) none qc])
  moreover have "loops_agree q env ?t st st'" by (rule Cons.prems(2))
  ultimately show ?case
    using Cons.IH [of _ _ r'] Cons.IH [of _ _ r] Cons.prems v pf
    by (cases "?checks = []") (auto simp: run_policy_def)
qed

lemma merge_webhooks_agree:
  "acc_agree q a b \<Longrightarrow> acc_agree q (merge_webhooks env request ws a) (merge_webhooks env request ws b)"
  by (induction ws arbitrary: a b) (auto simp: merge_webhooks_def merge_result_agree)

lemma prefilter_agree:
  assumes "lawful_engine (env_rx env)" "anchored_policies env (req_Stage request) policies"
    and "ascii_policies env (req_Stage request) policies" "ascii_text (pickContent request)"
    and "coherent_policies env (req_Stage request) policies" "filters_valid env (req_Stage request) policies r"
    and "q \<Longrightarrow> quiet_policies env (req_Stage request) policies"
  shows "\<exists>acc r'. evaluateRuntimeChecksWithRuntime env (Some r) policies request = (acc, Some r') \<and>
    acc_agree q acc (evaluateRuntimeCheckPolicies env policies request) \<and>
    filters_valid env (req_Stage request) policies r'"
proof -
  have "loops_agree q env (pickContent request) (loop_start request) (loop_start request)"
    by (simp add: loops_agree_def acc_agree_def match_cache_ok_def loop_start_def)
  from run_policies_agree [OF assms(1-5,7) order_refl this assms(6)]
  obtain st1 r1 st2 where
    "foldl (run_policy env request) (loop_start request, Some r) policies = (st1, Some r1)"
    "foldl (run_policy env request) (loop_start request, None :: filter_caches option) policies = (st2, None)"
    "loops_agree q env (pickContent request) st1 st2" "filters_valid env (req_Stage request) policies r1"
    by blast
  then show ?thesis
    by (auto simp: evaluateRuntimeChecksWithRuntime_def evaluateRuntimeCheckPolicies_def loops_agree_def
        intro: merge_webhooks_agree)
qed

section \<open>A concrete environment\<close>

text \<open>
  A package with two patterns, the words \<open>secret\<close> and \<open>token\<close>: any other text, the alternations among them, stands for
  the words whose first own letter it holds.
\<close>

fun replace_word :: "string \<Rightarrow> string \<Rightarrow> nat \<Rightarrow> string \<Rightarrow> string" where
  "replace_word w repl skip [] = []"
| "replace_word w repl (Suc skip) (c # cs) = replace_word w repl skip cs"
| "replace_word w repl 0 (c # cs) =
     (if HasPrefix (c # cs) w then repl @ replace_word w repl (length w - 1) cs else c # replace_word w repl 0 cs)"

definition demo_fires :: "string \<Rightarrow> string \<Rightarrow> bool" where
  "demo_fires p t \<longleftrightarrow> (CHR ''s'' \<in> set p \<and> Contains t ''secret'') \<or> (CHR ''k'' \<in> set p \<and> Contains t ''token'')"

definition demo_engine :: regex_engine where
  "demo_engine =
     \<lparr>rx_Compile = (\<lambda>p. None), rx_FindAll = (\<lambda>p t. if demo_fires p t then [p] else []), rx_Match = demo_fires,
      rx_ReplaceAll = (\<lambda>p t repl. replace_word p repl 0 t), rx_Split = (\<lambda>p t. [t]),
      rx_parse = (\<lambda>p. if p = ''secret'' \<or> p = ''token'' then Some (Regexp OpLiteral [] p False 0 0) else None),
      rx_range = (\<lambda>m. m)\<rparr>"

definition demo_env :: check_env where
  "demo_env =
     \<lparr>env_rx = demo_engine, env_float = (\<lambda>_. ''0''), env_Marshal = (\<lambda>m. Sprint (\<lambda>_. ''0'') (VMap m)),
      env_Unmarshal = (\<lambda>s. Inl ''invalid''), env_type_error = (\<lambda>v. ''type''), env_schema = (\<lambda>v. Inl ''schema''),
      env_uri_host = (\<lambda>u. None), env_webhook = (\<lambda>check request. Inl ''unreachable'')\<rparr>"

definition demo_check :: "string \<Rightarrow> string \<Rightarrow> goval" where
  "demo_check pattern onfail =
     VMap [(''name'', VStr ''regex_match''), (''config'', VMap [(''rule'', VStr pattern)]), (''action'', VMap [(''on_fail'', VStr onfail)])]"

definition demo_policy :: "string \<Rightarrow> gomap \<Rightarrow> PolicyBundle" where
  "demo_policy version def0 =
     \<lparr>PolicyID = ''p'', PolicyVersionID = version, Name = ''n'', DomainPackID = [], Scope = ''input'',
      EnforcementMode = ''block'', Enabled = True, IsDefault = False, TimeoutMs = 0, Metadata = [],
      Definition = def0, ProviderBindings = []\<rparr>"

definition demo_request :: "string \<Rightarrow> string \<Rightarrow> string \<Rightarrow> EvaluateRequest" where
  "demo_request stage inp out =
     \<lparr>req_TenantID = ''t'', req_RequestID = ''r'', req_Stage = stage, req_Model = ''m'', req_Provider = ''v'',
      req_Actor = \<lparr>actor_Type = [], actor_ID = [], actor_Role = [], actor_CustomerID = [], actor_TeamID = []\<rparr>,
      req_Content = \<lparr>Input = inp, Output = out, ToolInput = [], Attachments = []\<rparr>, req_MCP = None, req_Policies = [], req_Metadata = []\<rparr>"

definition no_caches :: filter_caches where
  "no_caches = \<lparr>compiledRuleUnions = Map.empty, compiledRuleACs = Map.empty\<rparr>"

lemma Contains_sublist: "Contains s w \<longleftrightarrow> sublist w s"
proof
  assume "Contains s w"
  then obtain i where "prefix w (drop i s)" by (auto simp: Contains_def list_ex_iff HasPrefix_iff_prefix)
  then show "sublist w s"
    by (metis append_take_drop_id prefix_imp_sublist sublist_in_append(2))
next
  assume "sublist w s"
  then obtain u v where s: "s = u @ w @ v" by (auto simp: sublist_def)
  then have "prefix w (drop (length u) s)" "length u < Suc (length s)" by simp_all
  then show "Contains s w" unfolding Contains_def list_ex_iff HasPrefix_iff_prefix by (metis atLeastLessThan_iff set_upt zero_le)
qed

lemma set_Join: "set (Join ws sep) \<subseteq> (\<Union>w \<in> set ws. set w) \<union> set sep" "w \<in> set ws \<Longrightarrow> set w \<subseteq> set (Join ws sep)"
  by (induction ws sep rule: Join.induct) auto

lemma union_pattern_letter:
  assumes "c \<notin> set ''(?:)|''"
  shows "c \<in> set (union_pattern ps) \<longleftrightarrow> (\<exists>p \<in> set ps. c \<in> set p)"
proof
  assume "c \<in> set (union_pattern ps)"
  with set_Join(1) [of "map (\<lambda>p. ''(?:'' @ p @ '')'') ps" "''|''"] assms show "\<exists>p \<in> set ps. c \<in> set p"
    unfolding union_pattern_def by fastforce
next
  assume "\<exists>p \<in> set ps. c \<in> set p"
  then obtain p where p: "p \<in> set ps" "c \<in> set p" by blast
  then have "''(?:'' @ p @ '')'' \<in> set (map (\<lambda>p. ''(?:'' @ p @ '')'') ps)" by simp
  from set_Join(2) [OF this, of "''|''"] p(2) show "c \<in> set (union_pattern ps)" unfolding union_pattern_def by auto
qed

lemma demo_lawful: "lawful_engine demo_engine"
proof -
  have lit: "re_fires (Regexp OpLiteral [] p False 0 0) t" if "sublist p t" for p t
    unfolding re_fires_def using that by (intro exI [of _ p]) (auto intro: m_literal)
  have "demo_fires (union_pattern ps) t \<longleftrightarrow> (\<exists>p \<in> set ps. demo_fires p t)" for ps t
    by (auto simp: demo_fires_def union_pattern_letter)
  then show ?thesis
    by (auto simp: lawful_engine_def demo_engine_def demo_fires_def Contains_sublist lit)
qed

lemma demo_checks:
  "extractRuntimeChecks demo_env [(''input_guardrails'', VList [demo_check p onfail])] ''input'' =
     [\<lparr>ck_Name = ''regex_match'', ck_Enabled = True, ck_Priority = 100, ck_Config = [(''rule'', VStr p)],
       ck_Action = [(''on_fail'', VStr onfail)],
       ck_fingerprint = ''regex_match::'' @ env_Marshal demo_env [(''rule'', VStr p)] @ ''::'' @ env_Marshal demo_env [(''on_fail'', VStr onfail)]\<rparr>]"
  by (simp add: extractRuntimeChecks_def extract_item_def demo_check_def demo_env_def NormalizeStage_def mapValue_def
      boolValue_def intValue_def map_filter_def go_string_simps)

section \<open>Properties\<close>

text \<open>
  C12. The two pre-filters change nothing that is reported.  For a lawful regular-expression package, an ASCII text to
  check, patterns with ASCII literals and alternation only at the top, and policies that share a cache key only when they
  share their patterns, a runtime
  whose caches hold what these policies give reports the findings, redactions and decision chain of the evaluation
  without pre-filters, and its caches stay valid for the next request.  If no \<open>regex_match\<close> check has a message for
  the passing case, the sanitized texts agree as well.
\<close>

theorem prefilter_transparent:
  assumes "lawful_engine (env_rx env)" "anchored_policies env (req_Stage request) policies"
    and "ascii_policies env (req_Stage request) policies" "ascii_text (pickContent request)"
    and "coherent_policies env (req_Stage request) policies" "filters_valid env (req_Stage request) policies r"
  shows "\<exists>acc r'. evaluateRuntimeChecksWithRuntime env (Some r) policies request = (acc, Some r') \<and>
    acc_findings acc = acc_findings (evaluateRuntimeCheckPolicies env policies request) \<and>
    acc_redactions acc = acc_redactions (evaluateRuntimeCheckPolicies env policies request) \<and>
    acc_chain acc = acc_chain (evaluateRuntimeCheckPolicies env policies request) \<and>
    (quiet_policies env (req_Stage request) policies \<longrightarrow> acc = evaluateRuntimeCheckPolicies env policies request) \<and>
    filters_valid env (req_Stage request) policies r'"
  using prefilter_agree [OF assms, of "quiet_policies env (req_Stage request) policies"]
  by (auto simp: acc_agree_def)

definition secret_policy :: "string \<Rightarrow> PolicyBundle" where
  "secret_policy version = demo_policy version [(''input_guardrails'', VList [demo_check ''secret'' ''deny''])]"

definition token_policy :: "string \<Rightarrow> PolicyBundle" where
  "token_policy version = demo_policy version [(''input_guardrails'', VList [demo_check ''token'' ''deny''])]"

lemma demo_patterns:
  "policy_patterns demo_env ''input'' (secret_policy v) = [''secret'']"
  "policy_patterns demo_env ''input'' (token_policy v) = [''token'']"
  by (simp_all add: policy_patterns_def secret_policy_def token_policy_def demo_policy_def demo_checks regex_patterns_def go_string_simps)

lemma demo_filters: "filters_valid env stage policies no_caches"
  by (simp add: filters_valid_def no_caches_def)

theorem prefilter_transparent_witness:
  "\<exists>acc r'. evaluateRuntimeChecksWithRuntime demo_env (Some no_caches) [secret_policy ''v1'', token_policy ''v2'']
      (demo_request ''input'' ''my token'' []) = (acc, Some r') \<and>
    acc_findings acc = acc_findings (evaluateRuntimeCheckPolicies demo_env [secret_policy ''v1'', token_policy ''v2'']
      (demo_request ''input'' ''my token'' []))"
proof -
  let ?ps = "[secret_policy ''v1'', token_policy ''v2'']" and ?req = "demo_request ''input'' ''my token'' []"
  have st: "req_Stage ?req = ''input''" by (simp add: demo_request_def)
  have e: "lawful_engine (env_rx demo_env)" by (simp add: demo_env_def demo_lawful)
  have a: "anchored_policies demo_env ''input'' ?ps"
    by (auto simp: anchored_policies_def demo_patterns demo_env_def demo_engine_def anchored_tree_def)
  have b: "ascii_policies demo_env ''input'' ?ps"
    by (auto simp: ascii_policies_def demo_patterns demo_env_def demo_engine_def ascii_text_def)
  have t: "ascii_text (pickContent ?req)" by code_simp
  have c: "coherent_policies demo_env ''input'' ?ps"
    by (simp add: coherent_policies_def demo_patterns cache_key_of_def compiledPolicyCacheKey_def secret_policy_def
        token_policy_def demo_policy_def go_string_simps)
  show ?thesis
    using prefilter_transparent [of demo_env ?req ?ps no_caches] e a b t c demo_filters unfolding st by blast
qed

end
