(* ===== verification/CheckEffects.thy ===== *)
theory CheckEffects
  imports PrefilterEquiv
begin

text \<open>
  What the checks of \<^verbatim>\<open>runtime_checks.go\<close> do to a request: which outcome a hit has, which severity is reported, what
  becomes of the texts when several checks redact, and two ways in which the pre-filter caches of \<^verbatim>\<open>engine.go\<close> serve
  a policy with the automaton of other patterns.
\<close>

section \<open>Shared pre-filters\<close>

lemma skipped_regex_checks:
  assumes "\<forall>check \<in> set checks. ck_Name check = ''regex_match''"
  shows "cl_acc (foldl (run_check env request policy True) st checks) = cl_acc st \<and>
    cl_webhooks (foldl (run_check env request policy True) st checks) = cl_webhooks st"
  using assms by (induction checks arbitrary: st) (auto simp: run_check_def Let_def)

lemma cached_filter_skips:
  assumes "checks \<noteq> []" "compiledRuleACs r (ac_key policy) = Some (Some ac)"
    and "ac_matches (Some ac) (ToLower t) = Some False"
  shows "prefilter_skips env policy checks t r = (True, r)"
  using assms by (simp add: prefilter_skips_def ahoCorasickForRegexMatchChecks_def)

lemma fresh_filter_skips:
  assumes "checks \<noteq> []" "compiledRuleACs r (ac_key policy) = None"
    and "gather_literals env (regex_patterns env checks) = Some literals" "literals \<noteq> []"
    and "buildAhoCorasick (rx_range (env_rx env)) literals = Some (Some ac)"
    and "ac_matches (Some ac) (ToLower t) = Some False"
  shows "prefilter_skips env policy checks t r =
    (True, r\<lparr>compiledRuleACs := (compiledRuleACs r)(ac_key policy \<mapsto> Some ac)\<rparr>)"
  using assms by (simp add: prefilter_skips_def ahoCorasickForRegexMatchChecks_def)

lemma secret_automaton:
  assumes "\<not> sublist ''secret'' (ToLower t)"
  shows "\<exists>ac. buildAhoCorasick (rx_range (env_rx demo_env)) [''secret''] = Some (Some ac) \<and>
    ac_matches (Some ac) (ToLower t) = Some False"
proof -
  have rng: "mset (rx_range (env_rx demo_env) m) = mset m" for m by (simp add: demo_env_def demo_engine_def)
  obtain ac where ac: "buildAhoCorasick (rx_range (env_rx demo_env)) [''secret''] = Some (Some ac)"
    using build_ok [OF rng, of "[''secret'']"] by auto
  with build_decides [OF rng ac, of "ToLower t"] assms show ?thesis
    by (simp add: go_string_simps)
qed

lemma secret_literals: "gather_literals demo_env [''secret''] = Some [''secret'']"
  by (simp add: demo_env_def demo_engine_def extractAllAlternativeLiterals_def extractRequiredLiteral_def go_string_simps)

text \<open>
  Policies without a version share one pre-filter: the key of the cached automaton is then the same for all of
  them, so the second policy of a request is filtered with the literals of the first.  A policy that denies texts
  with \<open>token\<close> reports nothing on \<open>my token\<close> when a policy on \<open>secret\<close> is evaluated before it, though the
  evaluation without pre-filters reports it.
\<close>

theorem versionless_policies_share_filter:
  "acc_findings (fst (evaluateRuntimeChecksWithRuntime demo_env (Some no_caches) [secret_policy [], token_policy []]
      (demo_request ''input'' ''my token'' []))) = [] \<and>
   map f_Outcome (acc_findings (evaluateRuntimeCheckPolicies demo_env [secret_policy [], token_policy []]
      (demo_request ''input'' ''my token'' []))) = [''deny'']"
proof
  let ?req = "demo_request ''input'' ''my token'' []"
  let ?sc = "extractRuntimeChecks demo_env (Definition (secret_policy [])) ''input''"
  let ?tc = "extractRuntimeChecks demo_env (Definition (token_policy [])) ''input''"
  have st: "req_Stage ?req = ''input''" by (simp add: demo_request_def)
  have pick: "pickContent ?req = ''my token''" by (simp add: pickContent_def demo_request_def go_string_simps)
  have keys: "ac_key (secret_policy []) = '':ac''" "ac_key (token_policy []) = '':ac''"
    by (simp_all add: ac_key_def compiledPolicyCacheKey_def secret_policy_def token_policy_def demo_policy_def go_string_simps)
  have "\<not> sublist ''secret'' (ToLower ''my token'')" by (simp add: go_string_simps sublist_Cons_right prefix_Cons)
  from secret_automaton [OF this] obtain ac where
    ac: "buildAhoCorasick (rx_range (env_rx demo_env)) [''secret''] = Some (Some ac)"
    and miss: "ac_matches (Some ac) (ToLower ''my token'') = Some False" by blast
  have pats: "regex_patterns demo_env ?sc = [''secret'']"
    using demo_patterns(1) [of "[]"] by (simp add: policy_patterns_def)
  have ne: "?sc \<noteq> []" "?tc \<noteq> []" and re: "\<forall>c \<in> set ?sc. ck_Name c = ''regex_match''" "\<forall>c \<in> set ?tc. ck_Name c = ''regex_match''"
    by (simp_all add: secret_policy_def token_policy_def demo_policy_def demo_checks)
  let ?r1 = "no_caches\<lparr>compiledRuleACs := (compiledRuleACs no_caches)('':ac'' \<mapsto> Some ac)\<rparr>"
  have p1: "prefilter_skips demo_env (secret_policy []) ?sc ''my token'' no_caches = (True, ?r1)"
    using fresh_filter_skips [where r = no_caches and policy = "secret_policy []", OF ne(1) _ _ _ ac miss]
    by (simp only: pats secret_literals keys) (simp add: no_caches_def)
  have p2: "prefilter_skips demo_env (token_policy []) ?tc ''my token'' ?r1 = (True, ?r1)"
    by (rule cached_filter_skips [OF ne(2) _ miss]) (simp add: keys)
  have "evaluateRuntimeChecksWithRuntime demo_env (Some no_caches) [secret_policy [], token_policy []] ?req =
      (cl_acc (loop_start ?req), Some ?r1)"
    using skipped_regex_checks [OF re(1)] skipped_regex_checks [OF re(2)]
    by (simp add: evaluateRuntimeChecksWithRuntime_def run_policy_def st pick ne p1 p2 merge_webhooks_def loop_start_def)
  then show "acc_findings (fst (evaluateRuntimeChecksWithRuntime demo_env (Some no_caches) [secret_policy [], token_policy []] ?req)) = []"
    by (simp add: loop_start_def)
  show "map f_Outcome (acc_findings (evaluateRuntimeCheckPolicies demo_env [secret_policy [], token_policy []] ?req)) = [''deny'']"
    by code_simp
qed

text \<open>One policy for both stages, with one pattern for the input and another for the output.\<close>

definition two_stage_policy :: PolicyBundle where
  "two_stage_policy =
     (demo_policy ''v1'' [(''input_guardrails'', VList [demo_check ''secret'' ''deny'']),
        (''output_guardrails'', VList [demo_check ''token'' ''deny''])])
       \<lparr>Metadata := [(''scopes'', VStrs [''input'', ''output''])]\<rparr>"

lemma two_stage_checks:
  "extractRuntimeChecks demo_env (Definition two_stage_policy) ''input'' =
     extractRuntimeChecks demo_env (Definition (secret_policy [])) ''input''"
  "extractRuntimeChecks demo_env (Definition two_stage_policy) ''output'' =
     extractRuntimeChecks demo_env (Definition (token_policy [])) ''input''"
  by (simp_all add: two_stage_policy_def secret_policy_def token_policy_def demo_policy_def extractRuntimeChecks_def
      NormalizeStage_def go_string_simps)

text \<open>
  The two stages of a policy share one pre-filter: the cached automaton is keyed by the scope of the policy and
  not by the stage of the request.  Once a clean input has been checked, the output checks of the same policy version
  are filtered with the literals of its input checks, and an output that the policy denies passes unreported.
\<close>

theorem stages_share_filter:
  "\<exists>acc r. evaluateRuntimeChecksWithRuntime demo_env (Some no_caches) [two_stage_policy] (demo_request ''input'' ''hi'' []) = (acc, Some r) \<and>
     acc_findings (fst (evaluateRuntimeChecksWithRuntime demo_env (Some r) [two_stage_policy] (demo_request ''output'' ''hi'' ''my token''))) = [] \<and>
     map f_Outcome (acc_findings (evaluateRuntimeCheckPolicies demo_env [two_stage_policy] (demo_request ''output'' ''hi'' ''my token''))) = [''deny'']"
proof -
  let ?in = "demo_request ''input'' ''hi'' []" and ?out = "demo_request ''output'' ''hi'' ''my token''"
  let ?sc = "extractRuntimeChecks demo_env (Definition (secret_policy [])) ''input''"
  let ?tc = "extractRuntimeChecks demo_env (Definition (token_policy [])) ''input''"
  have st: "req_Stage ?in = ''input''" "req_Stage ?out = ''output''" by (simp_all add: demo_request_def)
  have pick: "pickContent ?in = ''hi''" "pickContent ?out = ''my token''"
    by (simp_all add: pickContent_def demo_request_def go_string_simps)
  have rng: "mset (rx_range (env_rx demo_env) m) = mset m" for m by (simp add: demo_env_def demo_engine_def)
  obtain ac where ac: "buildAhoCorasick (rx_range (env_rx demo_env)) [''secret''] = Some (Some ac)"
    using build_ok [OF rng, of "[''secret'']"] by auto
  have miss: "ac_matches (Some ac) (ToLower ''hi'') = Some False" "ac_matches (Some ac) (ToLower ''my token'') = Some False"
    using build_decides [OF rng ac, of "ToLower ''hi''"] build_decides [OF rng ac, of "ToLower ''my token''"]
    by (simp_all add: go_string_simps sublist_Cons_right prefix_Cons)
  have pats: "regex_patterns demo_env ?sc = [''secret'']"
    using demo_patterns(1) [of "[]"] by (simp add: policy_patterns_def)
  have ne: "?sc \<noteq> []" "?tc \<noteq> []" and re: "\<forall>c \<in> set ?sc. ck_Name c = ''regex_match''" "\<forall>c \<in> set ?tc. ck_Name c = ''regex_match''"
    by (simp_all add: secret_policy_def token_policy_def demo_policy_def demo_checks)
  let ?r1 = "no_caches\<lparr>compiledRuleACs := (compiledRuleACs no_caches)(ac_key two_stage_policy \<mapsto> Some ac)\<rparr>"
  have p1: "prefilter_skips demo_env two_stage_policy ?sc ''hi'' no_caches = (True, ?r1)"
    using fresh_filter_skips [where r = no_caches and policy = two_stage_policy, OF ne(1) _ _ _ ac miss(1)]
    by (simp only: pats secret_literals) (simp add: no_caches_def)
  have p2: "prefilter_skips demo_env two_stage_policy ?tc ''my token'' ?r1 = (True, ?r1)"
    by (rule cached_filter_skips [OF ne(2) _ miss(2)]) simp
  have e1: "evaluateRuntimeChecksWithRuntime demo_env (Some no_caches) [two_stage_policy] ?in = (cl_acc (loop_start ?in), Some ?r1)"
    using skipped_regex_checks [OF re(1)]
    by (simp add: evaluateRuntimeChecksWithRuntime_def run_policy_def st pick ne p1 two_stage_checks merge_webhooks_def loop_start_def)
  have e2: "evaluateRuntimeChecksWithRuntime demo_env (Some ?r1) [two_stage_policy] ?out = (cl_acc (loop_start ?out), Some ?r1)"
    using skipped_regex_checks [OF re(2)]
    by (simp add: evaluateRuntimeChecksWithRuntime_def run_policy_def st pick ne p2 two_stage_checks merge_webhooks_def loop_start_def)
  have "map f_Outcome (acc_findings (evaluateRuntimeCheckPolicies demo_env [two_stage_policy] ?out)) = [''deny'']"
    by code_simp
  with e1 e2 show ?thesis by (auto simp: loop_start_def)
qed

section \<open>Outcomes and severities\<close>

text \<open>
  A check that hits lets the request through exactly when its action is asynchronous or passes through, or the
  policy only monitors; in every other case its outcome is a denial, a sandbox or a redaction, even when the action
  names \<open>allow\<close> or nothing at all.
\<close>

theorem check_hit_gates:
  "check_outcome env policy check result =
     (if boolValue (ck_Action check) ''async'' False \<or> boolValue (ck_Action check) ''pass_through'' False \<or>
         boolValue (ck_Action check) ''direct_to_provider'' False \<or> EqualFold (EnforcementMode policy) ''monitor''
      then ''allow''
      else fst (resolvePortkeyAction env policy check (OverrideOutcome result))) \<and>
   fst (resolvePortkeyAction env policy check (OverrideOutcome result)) \<in> {''deny'', ''sandbox'', ''redact''}"
proof -
  let ?o = "normalizeOutcome (defaultString (OverrideOutcome result)
      (stringValue (env_float env) (ck_Action check) [''on_fail'', ''outcome'', ''action'']))"
  have "?o = ''allow'' \<or> ?o \<in> {''deny'', ''sandbox'', ''redact''}" using normalizeOutcome_values by blast
  then show ?thesis by (auto simp: check_outcome_def resolvePortkeyAction_def Let_def)
qed

definition no_override :: "runtimeCheckResult \<Rightarrow> bool" where
  "no_override r \<longleftrightarrow> OverrideSeverity r = [] \<and> OverrideOutcome r = []"

named_theorems override_free \<open>evaluators that set no override\<close>

lemma no_override_basic [override_free]: "no_override no_result" "no_override (hit c s d)"
  by (simp_all add: no_override_def no_result_def hit_def)

lemma no_override_texts [override_free]:
  "no_override (r\<lparr>res_SanitizedInput := i, res_SanitizedOutput := out\<rparr>) \<longleftrightarrow> no_override r"
  by (simp add: no_override_def)

lemma no_override_if [override_free]: "no_override (if b then r else r') \<longleftrightarrow> (if b then no_override r else no_override r')"
  by simp

lemma no_override_range [override_free]: "no_override (range_check env check n a b c d)"
  by (simp add: range_check_def Let_def override_free)

lemma no_override_total [override_free]:
  "no_override (evaluateSentenceCountCheck env check request)" "no_override (evaluateWordCountCheck env check request)"
  "no_override (evaluateCharacterCountCheck env check request)" "no_override (evaluateContainsCheck env check request)"
  "no_override (evaluateValidURLsCheck env check request)" "no_override (evaluateContainsCodeCheck env check request)"
  "no_override (evaluateLowercaseCheck check request)" "no_override (evaluateEndsWithCheck env check request)"
  "no_override (evaluateModelWhitelistCheck env check request)" "no_override (evaluatePIICheck env check request)"
  "no_override (evaluateGibberishCheck request)"
  by (simp_all add: evaluateSentenceCountCheck_def evaluateWordCountCheck_def evaluateCharacterCountCheck_def
      evaluateContainsCheck_def evaluateValidURLsCheck_def evaluateContainsCodeCheck_def evaluateLowercaseCheck_def
      evaluateEndsWithCheck_def evaluateModelWhitelistCheck_def evaluatePIICheck_def evaluateGibberishCheck_def
      override_free Let_def split: prod.split)

lemma no_override_regex: "evaluateRegexCheck env check request = Inr r \<Longrightarrow> no_override r"
proof -
  have "no_override (regex_result env check request rule found)" for rule found
    by (simp add: regex_result_def override_free Let_def) (simp add: no_override_def)
  then show "evaluateRegexCheck env check request = Inr r \<Longrightarrow> no_override r"
    by (auto simp: evaluateRegexCheck_def evaluateRegexCheckCached_def override_free Let_def split: if_splits option.splits)
qed

lemma no_override_json:
  "evaluateJSONSchemaCheck env check request = Inr r \<Longrightarrow> no_override r"
  "evaluateJSONKeysCheck env check request = Inr r \<Longrightarrow> no_override r"
  by (auto simp: evaluateJSONSchemaCheck_def evaluateJSONKeysCheck_def override_free Let_def
      split: if_splits option.splits goval.splits sum.splits)

definition ok_result :: "string + runtimeCheckResult \<Rightarrow> bool" where
  "ok_result x \<longleftrightarrow> (\<forall>r. x = Inr r \<longrightarrow> no_override r)"

lemma ok_result_intros:
  "ok_result x \<Longrightarrow> ok_result y \<Longrightarrow> ok_result (if b then x else y)" "no_override r \<Longrightarrow> ok_result (Inr r)"
  "ok_result (evaluateRegexCheck env check request)" "ok_result (evaluateJSONSchemaCheck env check request)"
  "ok_result (evaluateJSONKeysCheck env check request)"
  by (auto simp: ok_result_def intro: no_override_regex no_override_json)

lemma local_no_override:
  assumes "ck_Name check \<noteq> ''webhook''" "executeRuntimeCheck env check request = Inr r"
  shows "no_override r"
proof -
  have "ok_result (executeRuntimeCheck env check request)"
    unfolding executeRuntimeCheck_def Let_def assms(1) [THEN Eq_FalseI] if_False
    by (intro ok_result_intros override_free)
  with assms(2) show ?thesis by (simp add: ok_result_def)
qed

text \<open>
  The severity configured for a check is never reported: \<open>normalizeSeverity\<close> turns the empty override of a local
  check into \<open>low\<close>, so the tests that would fall back on the configuration, or on \<open>medium\<close>, never succeed.  Every
  finding of a check other than a webhook has severity \<open>low\<close>, whatever \<open>config.severity\<close> says.
\<close>

theorem configured_severity_ignored:
  assumes "ck_Name check \<noteq> ''webhook''" "executeRuntimeCheck env check request = Inr result" "Triggered result"
  shows "map f_Severity (acc_findings (applyRuntimeCheckResult env policy check result stage acc)) =
    map f_Severity (acc_findings acc) @ [''low'']"
proof -
  have "normalizeSeverity [] = ''low''" by (simp add: normalizeSeverity_def go_string_simps)
  with local_no_override [OF assms(1,2)] have "check_severity env check result = ''low''"
    by (simp add: check_severity_def no_override_def)
  with assms(3) show ?thesis by (auto simp: applyRuntimeCheckResult_def Let_def split: prod.split)
qed

theorem configured_severity_ignored_witness:
  "map f_Severity (acc_findings (applyRuntimeCheckResult demo_env (secret_policy [])
      \<lparr>ck_Name = ''word_count'', ck_Enabled = True, ck_Priority = 1,
       ck_Config = [(''maxWords'', VInt 1), (''severity'', VStr ''critical'')], ck_Action = [], ck_fingerprint = []\<rparr>
      (hit (9 / 10) ''Word count 2 violated the configured range'' [(''word_count'', VInt 2), (''min'', VInt (- 1)), (''max'', VInt 1)])
      ''input'' \<lparr>acc_findings = [], acc_redactions = [], acc_chain = [], acc_input = [], acc_output = []\<rparr>)) = [''low'']"
proof -
  let ?check = "\<lparr>ck_Name = ''word_count'', ck_Enabled = True, ck_Priority = 1,
       ck_Config = [(''maxWords'', VInt 1), (''severity'', VStr ''critical'')], ck_Action = [], ck_fingerprint = []\<rparr>"
  have ev: "executeRuntimeCheck demo_env ?check (demo_request ''input'' ''two words'' []) =
      Inr (hit (9 / 10) ''Word count 2 violated the configured range'' [(''word_count'', VInt 2), (''min'', VInt (- 1)), (''max'', VInt 1)])"
    by (simp add: executeRuntimeCheck_def evaluateWordCountCheck_def range_check_def intValue_def outsideRange_def Fields_def
        pickContent_def demo_request_def show_int_def dec_digits.simps go_string_simps)
  show ?thesis
    using configured_severity_ignored [OF _ ev, of "secret_policy []" "''input''"
        "\<lparr>acc_findings = [], acc_redactions = [], acc_chain = [], acc_input = [], acc_output = []\<rparr>"]
    by (simp add: hit_def)
qed

section \<open>Redactions\<close>

text \<open>
  Redactions do not accumulate: a \<open>regex_match\<close> check that hits replaces the sanitized texts by its own redaction
  of the original content.  Whatever earlier checks removed (\<open>acc\<close> is arbitrary) is back in the text, and when the
  request carries both an input and an output, the redaction of the one that was inspected overwrites both.
\<close>

theorem redactions_do_not_accumulate:
  assumes "rule = stringValue (env_float env) (ck_Config check) [''rule'', ''pattern'']" "rule \<noteq> []"
    and "rx_Compile (env_rx env) rule = None" "rx_FindAll (env_rx env) rule (pickContent request) \<noteq> []"
    and "redacted = rx_ReplaceAll (env_rx env) rule (pickContent request) (redactWith env (ck_Action check))"
    and "TrimSpace redacted \<noteq> []" "TrimSpace (Input (req_Content request)) \<noteq> []" "check_feedback env check = []"
  shows "acc_input (merge_result env policy check (req_Stage request) (evaluateRegexCheck env check request) acc) = redacted \<and>
    acc_output (merge_result env policy check (req_Stage request) (evaluateRegexCheck env check request) acc) =
      (if TrimSpace (Output (req_Content request)) = [] then acc_output acc else redacted)"
proof -
  have tr: "TrimSpace [] = []" by (simp add: TrimSpace_def)
  have "evaluateRegexCheck env check request =
      Inr (regex_result env check request rule (rx_FindAll (env_rx env) rule (pickContent request)))"
    using assms(1-3) by (simp add: evaluateRegexCheck_def evaluateRegexCheckCached_def Let_def)
  moreover have "Triggered (regex_result env check request rule (rx_FindAll (env_rx env) rule (pickContent request)))"
    using assms(4) by (simp add: regex_result_def Let_def)
  ultimately show ?thesis using assms(4-8)
    by (simp add: merge_result_def applyRuntimeCheckResult_def check_texts_def regex_result_def
        chooseSanitizedInput_def chooseSanitizedOutput_def Let_def tr)
qed

definition redact_check :: "string \<Rightarrow> runtimeCheck" where
  "redact_check p = \<lparr>ck_Name = ''regex_match'', ck_Enabled = True, ck_Priority = 1, ck_Config = [(''rule'', VStr p)],
     ck_Action = [(''on_fail'', VStr ''redact'')], ck_fingerprint = p\<rparr>"

theorem redactions_do_not_accumulate_witness:
  "acc_input (merge_result demo_env (secret_policy []) (redact_check ''token'') ''input''
     (evaluateRegexCheck demo_env (redact_check ''token'') (demo_request ''input'' ''secret token'' []))
     \<lparr>acc_findings = [], acc_redactions = [], acc_chain = [], acc_input = ''[REDACTED] token'', acc_output = []\<rparr>) =
   ''secret [REDACTED]''"
proof -
  let ?req = "demo_request ''input'' ''secret token'' []" and ?c = "redact_check ''token''"
  have st: "req_Stage ?req = ''input''" by (simp add: demo_request_def)
  have facts: "stringValue (env_float demo_env) (ck_Config ?c) [''rule'', ''pattern''] = ''token''"
    "rx_Compile (env_rx demo_env) ''token'' = None" "rx_FindAll (env_rx demo_env) ''token'' (pickContent ?req) \<noteq> []"
    "rx_ReplaceAll (env_rx demo_env) ''token'' (pickContent ?req) (redactWith demo_env (ck_Action ?c)) = ''secret [REDACTED]''"
    "TrimSpace ''secret [REDACTED]'' \<noteq> []" "TrimSpace (Input (req_Content ?req)) \<noteq> []" "check_feedback demo_env ?c = []"
    by code_simp+
  show ?thesis
    using redactions_do_not_accumulate [OF facts(1) [symmetric] _ facts(2,3) facts(4) [symmetric] facts(5,6,7)] st by simp
qed

end
