(* ===== verification/FastScanners.thy ===== *)
theory FastScanners
  imports Prelude
begin

text \<open>
  The byte scanners for personal data, \<^verbatim>\<open>deepintshield_guard/internal/engine/fast_scanners.go\<close>:
  \<open>FindSSN\<close>, \<open>FindCreditCard\<close> with \<open>luhnValid\<close>, \<open>FindEmail\<close> and the byte classes.  A loop over an
  index is a recursive function of that index; every read is at an index the loop guard keeps in
  range.  The contract all three share (they only append, and every span they append is a non-empty
  part of the input) is the locale \<open>span_scanner\<close>.
\<close>

section \<open>Byte classes\<close>

definition isAsciiDigit :: "byte \<Rightarrow> bool" where
  "isAsciiDigit c \<longleftrightarrow> byte_between CHR ''0'' CHR ''9'' c"

definition isAlpha :: "byte \<Rightarrow> bool" where
  "isAlpha c \<longleftrightarrow> byte_between CHR ''a'' CHR ''z'' c \<or> byte_between CHR ''A'' CHR ''Z'' c"

definition isAlnum :: "byte \<Rightarrow> bool" where
  "isAlnum c \<longleftrightarrow> isAlpha c \<or> isAsciiDigit c"

definition isWordByte :: "byte \<Rightarrow> bool" where
  "isWordByte c \<longleftrightarrow> isAlnum c \<or> c = CHR ''_''"

definition isEmailLocalByte :: "byte \<Rightarrow> bool" where
  "isEmailLocalByte c \<longleftrightarrow> isAlnum c \<or> c \<in> {CHR ''.'', CHR ''_'', CHR ''%'', CHR ''+'', CHR ''-''}"

definition isEmailDomainByte :: "byte \<Rightarrow> bool" where
  "isEmailDomainByte c \<longleftrightarrow> isAlnum c \<or> c \<in> {CHR ''.'', CHR ''-''}"

definition allDigitsAscii :: "byte list \<Rightarrow> bool" where
  "allDigitsAscii s \<longleftrightarrow> list_all isAsciiDigit s"

lemmas byte_class_defs =
  isAsciiDigit_def isAlpha_def isAlnum_def isWordByte_def isEmailLocalByte_def allDigitsAscii_def

record ByteMatch =
  bm_Start :: nat
  bm_End :: nat

text \<open>\<open>input[a:b]\<close>\<close>

definition slice :: "byte list \<Rightarrow> nat \<Rightarrow> nat \<Rightarrow> byte list" where
  "slice input a b = take (b - a) (drop a input)"

section \<open>Social security numbers\<close>

definition ssn_hit :: "byte list \<Rightarrow> nat \<Rightarrow> bool" where
  "ssn_hit input i \<longleftrightarrow>
     input ! i = CHR ''-'' \<and> input ! (i + 3) = CHR ''-'' \<and>
     allDigitsAscii (slice input (i - 3) i) \<and>
     allDigitsAscii (slice input (i + 1) (i + 3)) \<and>
     allDigitsAscii (slice input (i + 4) (i + 8)) \<and>
     \<not> (i - 3 > 0 \<and> isWordByte (input ! (i - 4))) \<and>
     \<not> (i + 8 < length input \<and> isWordByte (input ! (i + 8)))"

function ssn_loop :: "byte list \<Rightarrow> nat \<Rightarrow> ByteMatch list \<Rightarrow> ByteMatch list" where
  "ssn_loop input i out =
     (if i + 8 \<le> length input
      then (if ssn_hit input i
            then ssn_loop input (i + 7 + 1) (out @ [\<lparr>bm_Start = i - 3, bm_End = i + 8\<rparr>])
            else ssn_loop input (i + 1) out)
      else out)"
  by pat_completeness auto
termination
  by (relation "measure (\<lambda>(input, i, out). length input - i)") auto

definition FindSSN :: "byte list \<Rightarrow> ByteMatch list \<Rightarrow> ByteMatch list" where
  "FindSSN input out = (if length input < 11 then out else ssn_loop input 3 out)"

section \<open>Credit cards\<close>

fun luhn_sum :: "nat \<Rightarrow> nat \<Rightarrow> nat list \<Rightarrow> nat" where
  "luhn_sum parity i [] = 0"
| "luhn_sum parity i (d # ds) =
     (let v = (if i mod 2 = parity then (if d * 2 > 9 then d * 2 - 9 else d * 2) else d)
      in v + luhn_sum parity (i + 1) ds)"

definition luhnValid :: "nat list \<Rightarrow> bool" where
  "luhnValid digits \<longleftrightarrow> luhn_sum (length digits mod 2) 0 digits mod 10 = 0"

definition digit_value :: "byte \<Rightarrow> nat" where
  "digit_value c = of_char c - of_char CHR ''0''"

function card_collect :: "byte list \<Rightarrow> nat \<Rightarrow> nat list \<Rightarrow> nat \<times> nat list" where
  "card_collect input e digits =
     (if e < length input \<and> length digits < 19
      then (let c = input ! e in
            if isAsciiDigit c then card_collect input (e + 1) (digits @ [digit_value c])
            else if (c = CHR ''-'' \<or> c = CHR '' '') \<and> e + 1 < length input \<and> isAsciiDigit (input ! (e + 1))
            then card_collect input (e + 1) digits
            else (e, digits))
      else (e, digits))"
  by pat_completeness auto
termination
  by (relation "measure (\<lambda>(input, e, digits). length input - e)") auto

declare ssn_loop.simps [simp del] card_collect.simps [simp del]

lemma card_collect_ge: "e \<le> fst (card_collect input e digits)"
proof (induction input e digits rule: card_collect.induct)
  case (1 input e digits)
  then show ?case
    by (subst card_collect.simps) (auto simp: Let_def)
qed

lemma card_collect_gt:
  assumes "i < length input" "isAsciiDigit (input ! i)"
  shows "i < fst (card_collect input i [])"
proof -
  have "card_collect input i [] = card_collect input (i + 1) ([] @ [digit_value (input ! i)])"
    using assms by (subst card_collect.simps) (simp add: Let_def)
  then show ?thesis using card_collect_ge [of "i + 1"] by (simp add: Suc_le_eq)
qed

function card_loop :: "byte list \<Rightarrow> nat \<Rightarrow> ByteMatch list \<Rightarrow> ByteMatch list" where
  "card_loop input i out =
     (if i < length input
      then (if \<not> isAsciiDigit (input ! i) then card_loop input (i + 1) out
            else if i > 0 \<and> isWordByte (input ! (i - 1)) then card_loop input (i + 1) out
            else (let e = fst (card_collect input i []); digits = snd (card_collect input i []) in
                  if 13 \<le> length digits \<and> length digits \<le> 19 \<and>
                     (e \<ge> length input \<or> \<not> isWordByte (input ! e)) \<and> luhnValid digits
                  then card_loop input e (out @ [\<lparr>bm_Start = i, bm_End = e\<rparr>])
                  else card_loop input (if e > i then e else i + 1) out))
      else out)"
  by pat_completeness auto
termination
  by (relation "measure (\<lambda>(input, i, out). length input - i)")
    (auto simp: card_collect_gt diff_less_mono2)

declare card_loop.simps [simp del]

definition FindCreditCard :: "byte list \<Rightarrow> ByteMatch list \<Rightarrow> ByteMatch list" where
  "FindCreditCard input out = card_loop input 0 out"

section \<open>Email addresses\<close>

fun email_start :: "byte list \<Rightarrow> nat \<Rightarrow> nat" where
  "email_start input 0 = 0"
| "email_start input (Suc s) = (if isEmailLocalByte (input ! s) then email_start input s else Suc s)"

text \<open>The walk over the domain; \<open>lastDot\<close> starts at \<open>-1\<close>.\<close>

function email_domain :: "byte list \<Rightarrow> nat \<Rightarrow> int \<Rightarrow> nat \<times> int" where
  "email_domain input e lastDot =
     (if e < length input
      then (let c = input ! e in
            if isAlnum c then email_domain input (e + 1) lastDot
            else if (c = CHR ''.'' \<or> c = CHR ''-'') \<and> e + 1 < length input \<and> isAlnum (input ! (e + 1))
            then email_domain input (e + 1) (if c = CHR ''.'' then int e else lastDot)
            else (e, lastDot))
      else (e, lastDot))"
  by pat_completeness auto
termination
  by (relation "measure (\<lambda>(input, e, lastDot). length input - e)") auto

declare email_domain.simps [simp del]

text \<open>The body of the loop for an \<open>@\<close> at \<open>i\<close>: the span, or \<open>None\<close> where the code continues.\<close>

definition email_at :: "byte list \<Rightarrow> nat \<Rightarrow> (nat \<times> nat) option" where
  "email_at input i =
     (if input ! i \<noteq> CHR ''@'' then None
      else (let start = email_start input i in
        if start = i then None
        else if start > 0 \<and> isAlnum (input ! (start - 1)) then None
        else (let e = fst (email_domain input (i + 1) (-1));
                  lastDot = snd (email_domain input (i + 1) (-1)) in
          if lastDot < 0 \<or> int e - lastDot < 3 then None
          else if \<not> list_all isAlpha (slice input (nat lastDot + 1) e) then None
          else if e < length input \<and> isAlnum (input ! e) then None
          else Some (start, e))))"

lemma email_domain_ge: "e \<le> fst (email_domain input e d)"
proof (induction input e d rule: email_domain.induct)
  case (1 input e d)
  then show ?case
    by (subst email_domain.simps) (cases "isAlnum (input ! e)"; force simp: Let_def)
qed

lemma email_at_end: "email_at input i = Some (s, e) \<Longrightarrow> i < e"
  using email_domain_ge [of "i + 1" input "- 1"]
  by (auto simp: email_at_def Let_def split: if_splits)

function email_loop :: "byte list \<Rightarrow> nat \<Rightarrow> ByteMatch list \<Rightarrow> ByteMatch list" where
  "email_loop input i out =
     (if i + 3 < length input
      then (case email_at input i of
              None \<Rightarrow> email_loop input (i + 1) out
            | Some m \<Rightarrow> email_loop input (snd m + 1) (out @ [\<lparr>bm_Start = fst m, bm_End = snd m\<rparr>]))
      else out)"
  by pat_completeness auto
termination
  by (relation "measure (\<lambda>(input, i, out). length input - i)") (auto dest: email_at_end)

declare email_loop.simps [simp del]

definition FindEmail :: "byte list \<Rightarrow> ByteMatch list \<Rightarrow> ByteMatch list" where
  "FindEmail input out = email_loop input 1 out"

text \<open>The catalog of scanners by category.\<close>

definition fastScannerForCategory :: "string \<Rightarrow> (byte list \<Rightarrow> ByteMatch list \<Rightarrow> ByteMatch list) option" where
  "fastScannerForCategory category =
     (if category = [] then None
      else map_of [(''ssn'', FindSSN), (''ssn_us'', FindSSN), (''credit_card'', FindCreditCard),
             (''email'', FindEmail)] (ToLower (TrimSpace category)))"

section \<open>What the scanners look for\<close>

text \<open>The pattern \<open>\b\d{3}-\d{2}-\d{4}\b\<close> at position \<open>s\<close>.\<close>

definition ssn_at :: "byte list \<Rightarrow> nat \<Rightarrow> bool" where
  "ssn_at input s \<longleftrightarrow>
     s + 11 \<le> length input \<and>
     (\<forall>k \<in> {0, 1, 2, 4, 5, 7, 8, 9, 10}. isAsciiDigit (input ! (s + k))) \<and>
     input ! (s + 3) = CHR ''-'' \<and> input ! (s + 6) = CHR ''-'' \<and>
     (s = 0 \<or> \<not> isWordByte (input ! (s - 1))) \<and>
     (s + 11 = length input \<or> \<not> isWordByte (input ! (s + 11)))"

definition ssn_span :: "nat \<Rightarrow> ByteMatch" where
  "ssn_span s = \<lparr>bm_Start = s, bm_End = s + 11\<rparr>"

definition span_text :: "byte list \<Rightarrow> ByteMatch \<Rightarrow> byte list" where
  "span_text input m = slice input (bm_Start m) (bm_End m)"

definition card_span :: "byte list \<Rightarrow> ByteMatch \<Rightarrow> bool" where
  "card_span input m \<longleftrightarrow>
     bm_Start m < bm_End m \<and> bm_End m \<le> length input \<and>
     (\<forall>c \<in> set (span_text input m). isAsciiDigit c \<or> c = CHR ''-'' \<or> c = CHR '' '') \<and>
     (let digits = map digit_value (filter isAsciiDigit (span_text input m))
      in 13 \<le> length digits \<and> length digits \<le> 19 \<and> luhnValid digits) \<and>
     (bm_Start m = 0 \<or> \<not> isWordByte (input ! (bm_Start m - 1))) \<and>
     (bm_End m = length input \<or> \<not> isWordByte (input ! bm_End m))"

definition email_span :: "byte list \<Rightarrow> ByteMatch \<Rightarrow> bool" where
  "email_span input m \<longleftrightarrow>
     bm_Start m < bm_End m \<and> bm_End m \<le> length input \<and>
     (\<exists>i dot. bm_Start m < i \<and> i < dot \<and> dot + 3 \<le> bm_End m \<and>
        input ! i = CHR ''@'' \<and> list_all isEmailLocalByte (slice input (bm_Start m) i) \<and>
        input ! dot = CHR ''.'' \<and> list_all isAlpha (slice input (dot + 1) (bm_End m)))"

section \<open>The shared contract\<close>

locale span_scanner =
  fixes scan :: "byte list \<Rightarrow> ByteMatch list \<Rightarrow> ByteMatch list"
    and ok :: "byte list \<Rightarrow> ByteMatch \<Rightarrow> bool"
  assumes scan_append: "scan input out = out @ scan input []"
    and scan_ok: "m \<in> set (scan input []) \<Longrightarrow> ok input m"
    and ok_bounds: "ok input m \<Longrightarrow> bm_Start m < bm_End m \<and> bm_End m \<le> length input"
begin

lemma keeps_out: "prefix out (scan input out)"
  by (subst scan_append) simp

lemma in_bounds: "m \<in> set (scan input []) \<Longrightarrow> bm_Start m < bm_End m \<and> bm_End m \<le> length input"
  using scan_ok ok_bounds by blast

lemma text_length: "m \<in> set (scan input []) \<Longrightarrow> length (span_text input m) = bm_End m - bm_Start m"
  using in_bounds by (fastforce simp: span_text_def slice_def)

lemma new_span: "m \<in> set (scan input out) \<Longrightarrow> m \<in> set out \<or> ok input m"
  using scan_append [of input out] scan_ok by auto

end

section \<open>Social security numbers: the scanner is the pattern\<close>

lemma nth_slice: "a + k < b \<Longrightarrow> b \<le> length input \<Longrightarrow> slice input a b ! k = input ! (a + k)"
  by (simp add: slice_def)

lemma length_slice: "b \<le> length input \<Longrightarrow> length (slice input a b) = b - a"
  by (simp add: slice_def)

lemma set_slice: "b \<le> length input \<Longrightarrow> set (slice input a b) = {input ! k |k. a \<le> k \<and> k < b}"
proof (cases "a \<le> b")
  case True
  assume b: "b \<le> length input"
  show ?thesis
    unfolding set_conv_nth length_slice [OF b]
  proof (intro set_eqI iffI; clarsimp)
    fix i assume "i < b - a"
    then have "slice input a b ! i = input ! (a + i)" using b by (intro nth_slice) auto
    moreover have "a \<le> a + i" "a + i < b" using \<open>i < b - a\<close> by auto
    ultimately show "\<exists>k. slice input a b ! i = input ! k \<and> a \<le> k \<and> k < b" by blast
  next
    fix k assume k: "a \<le> k" "k < b"
    then have "slice input a b ! (k - a) = input ! k"
      using b nth_slice [of a "k - a" b input] by simp
    with k show "\<exists>i. input ! k = slice input a b ! i \<and> i < b - a"
      by (intro exI [of _ "k - a"]) auto
  qed
qed (auto simp: slice_def)

lemma slice_all: "b \<le> length input \<Longrightarrow> list_all P (slice input a b) \<longleftrightarrow> (\<forall>k. a \<le> k \<and> k < b \<longrightarrow> P (input ! k))"
  by (auto simp: list_all_iff set_slice)

lemma slice_snoc:
  assumes "a \<le> e" "e < length input"
  shows "slice input a (e + 1) = slice input a e @ [input ! e]"
proof -
  have "Suc e - a = Suc (e - a)" using assms by simp
  then show ?thesis using assms by (simp add: slice_def take_Suc_conv_app_nth)
qed

lemma between3: "(\<forall>k. a \<le> k \<and> k < a + 3 \<longrightarrow> P k) \<longleftrightarrow> P a \<and> P (a + 1) \<and> P (a + (2 :: nat))"
  by (auto simp: less_Suc_eq le_Suc_eq numeral_3_eq_3 numeral_2_eq_2)

lemma between2: "(\<forall>k. a \<le> k \<and> k < a + 2 \<longrightarrow> P k) \<longleftrightarrow> P a \<and> P (a + (1 :: nat))"
  by (auto simp: less_Suc_eq le_Suc_eq numeral_2_eq_2)

lemma between4: "(\<forall>k. a \<le> k \<and> k < a + 4 \<longrightarrow> P k) \<longleftrightarrow> P a \<and> P (a + 1) \<and> P (a + 2) \<and> P (a + (3 :: nat))"
proof -
  have "a \<le> k \<and> k < a + 4 \<longleftrightarrow> k = a \<or> k = a + 1 \<or> k = a + 2 \<or> k = a + 3" for k by arith
  then show ?thesis by auto
qed

lemma ssn_hit_iff:
  assumes "s + 11 \<le> length input"
  shows "ssn_hit input (s + 3) \<longleftrightarrow> ssn_at input s"
proof -
  have a: "allDigitsAscii (slice input s (s + 3)) \<longleftrightarrow>
      isAsciiDigit (input ! s) \<and> isAsciiDigit (input ! (s + 1)) \<and> isAsciiDigit (input ! (s + 2))"
    using assms by (simp add: allDigitsAscii_def slice_all between3 [of s])
  have b: "allDigitsAscii (slice input (s + 4) (s + 6)) \<longleftrightarrow>
      isAsciiDigit (input ! (s + 4)) \<and> isAsciiDigit (input ! (s + 5))"
    using assms between2 [of "s + 4" "\<lambda>k. isAsciiDigit (input ! k)"]
    by (simp add: allDigitsAscii_def slice_all add.commute)
  have c: "allDigitsAscii (slice input (s + 7) (s + 11)) \<longleftrightarrow>
      isAsciiDigit (input ! (s + 7)) \<and> isAsciiDigit (input ! (s + 8)) \<and>
      isAsciiDigit (input ! (s + 9)) \<and> isAsciiDigit (input ! (s + 10))"
    using assms between4 [of "s + 7" "\<lambda>k. isAsciiDigit (input ! k)"]
    by (simp add: allDigitsAscii_def slice_all add.commute)
  have idx: "s + 3 - 3 = s" "s + 3 + 1 = s + 4" "s + 3 + 3 = s + 6" "s + 3 + 4 = s + 7"
    "s + 3 + 8 = s + 11" "s + 3 - 4 = s - 1"
    by simp_all
  show ?thesis
    unfolding ssn_hit_def ssn_at_def idx a b c using assms by auto
qed

text \<open>A second number cannot start inside a number: its left boundary would be a digit.\<close>

lemma ssn_no_overlap:
  assumes "ssn_at input s" "s < t" "t < s + 8"
  shows "\<not> ssn_at input t"
proof
  assume t: "ssn_at input t"
  have d: "isAsciiDigit (input ! (s + k))" if "k \<in> {0, 1, 2, 4, 5, 7, 8, 9, 10}" for k
    using assms(1) that by (auto simp: ssn_at_def)
  have dash: "\<not> isAsciiDigit CHR ''-''" by (simp add: isAsciiDigit_def byte_between_def)
  have w: "\<not> isWordByte (input ! (t - 1))" using t assms(2) by (simp add: ssn_at_def)
  have t3: "isAsciiDigit (input ! t)" "isAsciiDigit (input ! (t + 2))" "input ! (t + 3) = CHR ''-''"
    using t by (auto simp: ssn_at_def dest: bspec [where x = "0 :: nat"] bspec [where x = "2 :: nat"])
  from assms(2,3) have "t = s + 1 \<or> t = s + 2 \<or> t = s + 3 \<or> t = s + 4 \<or> t = s + 5 \<or> t = s + 6 \<or> t = s + 7"
    by linarith
  then show False
  proof (elim disjE)
    assume "t = s + 1" then show False using d [of 0] w by (simp add: isWordByte_def isAlnum_def)
  next
    assume "t = s + 2" then show False using d [of 1] w by (simp add: isWordByte_def isAlnum_def)
  next
    assume "t = s + 3" then show False using assms(1) t3(1) dash by (simp add: ssn_at_def)
  next
    assume "t = s + 4" then show False using assms(1) t3(2) dash by (simp add: ssn_at_def add.commute)
  next
    assume "t = s + 5" then show False using d [of 4] w by (simp add: isWordByte_def isAlnum_def add.commute)
  next
    assume "t = s + 6" then show False using assms(1) t3(1) dash by (simp add: ssn_at_def)
  next
    assume "t = s + 7" then show False using d [of 10] t3(3) dash by (simp add: add.assoc)
  qed
qed

lemma filter_upt_skip:
  assumes "\<And>t. i \<le> t \<Longrightarrow> t < j \<Longrightarrow> \<not> P t" "i \<le> j"
  shows "filter P [i..<n] = filter P [j..<n]"
proof (cases "j \<le> n")
  case True
  then have "[i..<n] = [i..<j] @ [j..<n]" using assms(2) by (metis le_add_diff_inverse upt_add_eq_append)
  with assms(1) show ?thesis by (simp add: filter_empty_conv)
next
  case False
  with assms(1) show ?thesis by (simp add: filter_empty_conv)
qed

lemma ssn_loop_eq:
  "ssn_loop input (s + 3) out = out @ map ssn_span (filter (ssn_at input) [s..<length input])"
proof (induction "length input - s" arbitrary: s out rule: less_induct)
  case less
  show ?case
  proof (cases "s + 11 \<le> length input")
    case False
    then have "filter (ssn_at input) [s..<length input] = []"
      by (auto simp: filter_empty_conv ssn_at_def)
    with False show ?thesis by (subst ssn_loop.simps) simp
  next
    case True
    have cons: "[s..<length input] = s # [s + 1..<length input]"
      using True by (simp add: upt_conv_Cons)
    show ?thesis
    proof (cases "ssn_at input s")
      case hit: True
      have "filter (ssn_at input) [s..<length input] = s # filter (ssn_at input) [s + 8..<length input]"
        using hit ssn_no_overlap [OF hit] filter_upt_skip [of "s + 1" "s + 8" "ssn_at input" "length input"]
        by (simp add: cons)
      moreover have "ssn_loop input (s + 3) out = ssn_loop input ((s + 8) + 3) (out @ [ssn_span s])"
        using True hit ssn_hit_iff [OF True]
        by (subst ssn_loop.simps) (simp add: ssn_span_def add.commute)
      moreover have "length input - (s + 8) < length input - s" using True by simp
      ultimately show ?thesis using less.hyps [of "s + 8"] by simp
    next
      case miss: False
      have "ssn_loop input (s + 3) out = ssn_loop input ((s + 1) + 3) out"
        using True miss ssn_hit_iff [OF True] by (subst ssn_loop.simps) (simp add: add.commute)
      moreover have "length input - (s + 1) < length input - s" using True by simp
      ultimately show ?thesis using less.hyps [of "s + 1"] miss cons by simp
    qed
  qed
qed

lemma FindSSN_eq: "FindSSN input out = out @ map ssn_span (filter (ssn_at input) [0..<length input])"
proof (cases "length input < 11")
  case True
  then have "filter (ssn_at input) [0..<length input] = []"
    by (auto simp: filter_empty_conv ssn_at_def)
  with True show ?thesis by (simp add: FindSSN_def)
next
  case False
  then show ?thesis using ssn_loop_eq [of input 0 out] by (simp add: FindSSN_def)
qed


section \<open>Credit cards: every span is a Luhn-valid run\<close>

lemma luhn_sum_append:
  "luhn_sum p i (xs @ ys) = luhn_sum p i xs + luhn_sum p (i + length xs) ys"
  by (induction xs arbitrary: i) (auto simp: Let_def)

lemma slice_self [simp]: "slice input a a = []"
  by (simp add: slice_def)

lemma card_collect_spec:
  assumes "i \<le> e" "e \<le> length input" "digits = map digit_value (filter isAsciiDigit (slice input i e))"
    and "\<forall>c \<in> set (slice input i e). isAsciiDigit c \<or> c = CHR ''-'' \<or> c = CHR '' ''"
    and "card_collect input e digits = (e', digits')"
  shows "e' \<le> length input \<and> digits' = map digit_value (filter isAsciiDigit (slice input i e')) \<and>
    (\<forall>c \<in> set (slice input i e'). isAsciiDigit c \<or> c = CHR ''-'' \<or> c = CHR '' '')"
  using assms
proof (induction input e digits rule: card_collect.induct)
  case (1 input e digits)
  let ?c = "input ! e"
  show ?case
  proof (cases "e < length input \<and> length digits < 19")
    case False
    then have "card_collect input e digits = (e, digits)" by (subst card_collect.simps) auto
    then show ?thesis using 1 by auto
  next
    case True
    have sn: "slice input i (e + 1) = slice input i e @ [?c]"
      using slice_snoc [of i e input] 1(3) True by simp
    consider (digit) "isAsciiDigit ?c"
      | (sep) "\<not> isAsciiDigit ?c" "?c = CHR ''-'' \<or> ?c = CHR '' ''" "e + 1 < length input" "isAsciiDigit (input ! (e + 1))"
      | (stop) "\<not> isAsciiDigit ?c"
        "\<not> ((?c = CHR ''-'' \<or> ?c = CHR '' '') \<and> e + 1 < length input \<and> isAsciiDigit (input ! (e + 1)))"
      by blast
    then show ?thesis
    proof cases
      case digit
      then have r: "card_collect input e digits = card_collect input (e + 1) (digits @ [digit_value ?c])"
        using True by (subst card_collect.simps) (simp add: Let_def)
      show ?thesis
        using 1(3-7) True digit r
        by (intro "1.IH"(1) [OF True refl digit]) (auto simp: sn simp del: One_nat_def add_Suc_right)
    next
      case sep
      then have r: "card_collect input e digits = card_collect input (e + 1) digits"
        using True by (subst card_collect.simps) (simp add: Let_def)
      show ?thesis
        using 1(3-7) True sep r
        by (intro "1.IH"(2) [OF True refl]) (auto simp: sn simp del: One_nat_def add_Suc_right)
    next
      case stop
      then have "card_collect input e digits = (e, digits)"
        using True by (subst card_collect.simps) (auto simp: Let_def)
      then show ?thesis using 1 by auto
    qed
  qed
qed

lemma card_collect_from:
  assumes "i < length input" "card_collect input i [] = (e, digits)"
  shows "e \<le> length input" "digits = map digit_value (filter isAsciiDigit (slice input i e))"
    "\<forall>c \<in> set (slice input i e). isAsciiDigit c \<or> c = CHR ''-'' \<or> c = CHR '' ''"
  using card_collect_spec [of i i input "[]" e digits] assms by simp_all

text \<open>One turn of the loop: it moves on and appends at most one span, whatever \<open>out\<close> holds.\<close>

lemma card_loop_turn:
  assumes "i < length input"
  obtains j new where "i < j" "\<And>out. card_loop input i out = card_loop input j (out @ new)"
    "\<And>m. m \<in> set new \<Longrightarrow> card_span input m"
proof -
  obtain e digits where c: "card_collect input i [] = (e, digits)" by fastforce
  let ?m = "\<lparr>bm_Start = i, bm_End = e\<rparr>"
  note step = card_loop.simps [of input i] and run = card_collect_from [OF assms c]
  have gt: "isAsciiDigit (input ! i) \<Longrightarrow> i < e" using card_collect_gt [OF assms] c by simp
  consider (skip) "\<not> isAsciiDigit (input ! i) \<or> i > 0 \<and> isWordByte (input ! (i - 1))"
    | (hit) "isAsciiDigit (input ! i)" "\<not> (i > 0 \<and> isWordByte (input ! (i - 1)))"
      "13 \<le> length digits \<and> length digits \<le> 19 \<and> (e \<ge> length input \<or> \<not> isWordByte (input ! e)) \<and> luhnValid digits"
    | (miss) "isAsciiDigit (input ! i)" "\<not> (i > 0 \<and> isWordByte (input ! (i - 1)))"
      "\<not> (13 \<le> length digits \<and> length digits \<le> 19 \<and> (e \<ge> length input \<or> \<not> isWordByte (input ! e)) \<and> luhnValid digits)"
    by blast
  then show ?thesis
  proof cases
    case skip
    then show ?thesis using assms by (intro that [of "i + 1" "[]"]) (auto simp: step)
  next
    case hit
    have "card_loop input i out = card_loop input e (out @ [?m])" for out
      unfolding step [of out] c Let_def fst_conv snd_conv using assms hit by (simp only: if_True if_False not_True_eq_False simp_thms)
    moreover have "card_span input ?m"
      using hit gt run by (auto simp: card_span_def span_text_def Let_def)
    ultimately show ?thesis using gt hit by (intro that [of e "[?m]"]) auto
  next
    case miss
    have "card_loop input i out = card_loop input e out" for out
      unfolding step [of out] c Let_def fst_conv snd_conv using assms miss gt
      by (simp only: if_True if_False not_True_eq_False)
    then show ?thesis using gt miss by (intro that [of e "[]"]) auto
  qed
qed

lemma card_loop_append: "card_loop input i out = out @ card_loop input i []"
proof (induction "length input - i" arbitrary: i out rule: less_induct)
  case less
  show ?case
  proof (cases "i < length input")
    case False
    then show ?thesis by (simp add: card_loop.simps)
  next
    case True
    from card_loop_turn [OF True] obtain j new
      where j: "i < j" "\<And>out. card_loop input i out = card_loop input j (out @ new)" by metis
    then show ?thesis using less [of j "out @ new"] less [of j new] True by simp
  qed
qed

lemma card_loop_sound: "m \<in> set (card_loop input i []) \<Longrightarrow> card_span input m"
proof (induction "length input - i" arbitrary: i rule: less_induct)
  case less
  show ?case
  proof (cases "i < length input")
    case False
    then show ?thesis using less.prems by (simp add: card_loop.simps)
  next
    case True
    from card_loop_turn [OF True] obtain j new
      where j: "i < j" "\<And>out. card_loop input i out = card_loop input j (out @ new)"
        "\<And>m. m \<in> set new \<Longrightarrow> card_span input m" by metis
    then have "m \<in> set new \<or> m \<in> set (card_loop input j [])"
      using less.prems card_loop_append [of input j new] by auto
    then show ?thesis using j less.hyps [of j] True by auto
  qed
qed

section \<open>Email addresses: every span has the shape\<close>

lemma email_start_spec:
  assumes "s \<le> length input"
  shows "email_start input s \<le> s \<and> list_all isEmailLocalByte (slice input (email_start input s) s)"
  using assms
proof (induction s)
  case 0
  then show ?case by simp
next
  case (Suc s)
  then show ?case using slice_snoc [of "email_start input s" s input] by simp
qed

lemma email_domain_spec:
  assumes "email_domain input e d = (e', d')" "e \<le> length input"
  shows "e' \<le> length input \<and>
    (d' = d \<or> (int e \<le> d' \<and> d' < int e' \<and> input ! nat d' = CHR ''.''))"
  using assms
proof (induction input e d rule: email_domain.induct)
  case (1 input e d)
  note step = email_domain.simps [of input e d]
  show ?case
  proof (cases "e < length input")
    case False
    then have "(e', d') = (e, d)" using 1(3) by (subst (asm) step) simp
    then show ?thesis using 1(4) by simp
  next
    case True
    show ?thesis
    proof (cases "isAlnum (input ! e)")
      case an: True
      then have "email_domain input (e + 1) d = (e', d')" using 1(3) True by (subst (asm) step) (simp add: Let_def)
      from "1.IH"(1) [OF True refl an this] True show ?thesis by auto
    next
      case na: False
      show ?thesis
      proof (cases "(input ! e = CHR ''.'' \<or> input ! e = CHR ''-'') \<and> e + 1 < length input \<and> isAlnum (input ! (e + 1))")
        case sep: True
        then have r: "email_domain input (e + 1) (if input ! e = CHR ''.'' then int e else d) = (e', d')"
          using 1(3) True na by (subst (asm) step) (simp add: Let_def)
        moreover have "e + 1 \<le> e'"
          using r email_domain_ge [of "e + 1" input "if input ! e = CHR ''.'' then int e else d"] by simp
        ultimately show ?thesis using "1.IH"(2) [OF True refl na sep] True by (auto split: if_splits)
      next
        case False
        then have "(e', d') = (e, d)" using 1(3) True na by (subst (asm) step) (auto simp: Let_def)
        then show ?thesis using True by simp
      qed
    qed
  qed
qed

lemma email_at_spec:
  assumes "email_at input i = Some (s, e)" "i < length input"
  shows "email_span input \<lparr>bm_Start = s, bm_End = e\<rparr>"
proof -
  obtain e' d where dom: "email_domain input (i + 1) (-1) = (e', d)" by fastforce
  have h: "input ! i = CHR ''@''" "s = email_start input i" "s \<noteq> i" "e = e'" "\<not> d < 0" "\<not> int e - d < 3"
    "list_all isAlpha (slice input (nat d + 1) e)"
    using assms(1) dom by (auto simp: email_at_def Let_def split: if_splits)
  have d: "e \<le> length input" "int (i + 1) \<le> d" "d < int e" "input ! nat d = CHR ''.''"
    using email_domain_spec [OF dom] assms(2) h by auto
  have s: "s < i" "list_all isEmailLocalByte (slice input s i)"
    using email_start_spec [of i input] assms(2) h(2,3) by auto
  then show ?thesis
    using h d unfolding email_span_def
    by (intro conjI exI [of _ i] exI [of _ "nat d"]) auto
qed

lemma email_loop_append: "email_loop input i out = out @ email_loop input i []"
proof (induction "length input - i" arbitrary: i out rule: less_induct)
  case less
  note step = email_loop.simps [of input i]
  show ?case
  proof (cases "i + 3 < length input")
    case False
    then show ?thesis by (simp add: step)
  next
    case True
    have later: "email_loop input j o' = o' @ email_loop input j []" if "i < j" for j o'
      using less [of j o'] True that by simp
    show ?thesis
    proof (cases "email_at input i")
      case None
      then show ?thesis using True later [of "i + 1" out] by (simp add: step)
    next
      case (Some m)
      then have "i < snd m + 1" using email_at_end [of input i "fst m" "snd m"] by simp
      note l = later [OF this]
      show ?thesis
        using True Some l [of "out @ [\<lparr>bm_Start = fst m, bm_End = snd m\<rparr>]"] l [of "[\<lparr>bm_Start = fst m, bm_End = snd m\<rparr>]"]
        by (simp add: step)
    qed
  qed
qed

lemma email_loop_sound: "m \<in> set (email_loop input i []) \<Longrightarrow> email_span input m"
proof (induction "length input - i" arbitrary: i rule: less_induct)
  case less
  note step = email_loop.simps [of input i]
  show ?case
  proof (cases "i + 3 < length input")
    case False
    then show ?thesis using less.prems by (simp add: step)
  next
    case True
    have later: "m \<in> set (email_loop input j []) \<Longrightarrow> email_span input m" if "i < j" for j
      using less.hyps [of j] True that by simp
    show ?thesis
    proof (cases "email_at input i")
      case None
      then show ?thesis using True less.prems later [of "i + 1"] by (simp add: step)
    next
      case (Some p)
      then have gt: "i < snd p + 1" and ok: "email_span input \<lparr>bm_Start = fst p, bm_End = snd p\<rparr>"
        using email_at_end [of input i "fst p" "snd p"] email_at_spec [of input i "fst p" "snd p"] True by auto
      have "m = \<lparr>bm_Start = fst p, bm_End = snd p\<rparr> \<or> m \<in> set (email_loop input (snd p + 1) [])"
        using less.prems True Some
          email_loop_append [of input "snd p + 1" "[\<lparr>bm_Start = fst p, bm_End = snd p\<rparr>]"]
        by (simp add: step)
      then show ?thesis using ok later [OF gt] by blast
    qed
  qed
qed

section \<open>The three scanners meet the contract\<close>

definition ssn_ok :: "byte list \<Rightarrow> ByteMatch \<Rightarrow> bool" where
  "ssn_ok input m \<longleftrightarrow> ssn_at input (bm_Start m) \<and> bm_End m = bm_Start m + 11"

interpretation ssn: span_scanner FindSSN ssn_ok
  by unfold_locales (auto simp: FindSSN_eq ssn_ok_def ssn_span_def, auto simp: ssn_at_def)

interpretation card: span_scanner FindCreditCard card_span
proof
  show "FindCreditCard input out = out @ FindCreditCard input []" for input out
    unfolding FindCreditCard_def by (rule card_loop_append)
  show "m \<in> set (FindCreditCard input []) \<Longrightarrow> card_span input m" for m input
    unfolding FindCreditCard_def by (rule card_loop_sound)
qed (simp add: card_span_def)

interpretation email: span_scanner FindEmail email_span
proof
  show "FindEmail input out = out @ FindEmail input []" for input out
    unfolding FindEmail_def by (rule email_loop_append)
  show "m \<in> set (FindEmail input []) \<Longrightarrow> email_span input m" for m input
    unfolding FindEmail_def by (rule email_loop_sound)
qed (simp add: email_span_def)

section \<open>What the scanners guarantee\<close>

text \<open>
  \<open>FindSSN\<close> finds exactly the occurrences of \<open>\b\d{3}-\d{2}-\d{4}\b\<close>, from left to right: the jump over a
  match loses none, because two occurrences never overlap.
\<close>

theorem ssn_scanner_exact:
  "FindSSN input out = out @ map ssn_span (filter (ssn_at input) [0..<length input])"
  by (rule FindSSN_eq)

text \<open>
  Every span \<open>FindCreditCard\<close> appends is inside the input, consists of digits and separators, holds 13
  to 19 digits that pass Luhn's check, and has a word boundary on both sides; what \<open>out\<close> held is kept.
\<close>

theorem credit_card_spans_sound:
  "\<exists>new. FindCreditCard input out = out @ new \<and> list_all (card_span input) new"
  using card.scan_append [of input out] card.scan_ok [of _ input] by (auto simp: list_all_iff)

lemma card_collect_digits:
  assumes "e + length ds = length (pre @ run)" "drop e (pre @ run) = ds" "list_all isAsciiDigit ds"
    and "length digits + length ds \<le> 19"
    and "post = [] \<or> \<not> isAsciiDigit (hd post) \<and> hd post \<noteq> CHR ''-'' \<and> hd post \<noteq> CHR '' ''"
  shows "card_collect (pre @ run @ post) e digits = (length (pre @ run), digits @ map digit_value ds)"
  using assms
proof (induction ds arbitrary: e digits)
  case Nil
  then have e: "e = length (pre @ run)" by simp
  have stop: "post = [] \<or> e < length (pre @ run @ post) \<and> (pre @ run @ post) ! e = hd post"
    using e by (cases post) (auto simp: nth_append)
  show ?case using stop Nil(5) e by (subst card_collect.simps) (auto simp: Let_def)
next
  case (Cons d ds)
  have e: "e < length (pre @ run)" using Cons.prems(1) by simp
  have "(pre @ run) ! e = d" using Cons.prems(2) e by (metis Cons_nth_drop_Suc list.inject)
  then have d: "(pre @ run @ post) ! e = d" using e by (metis append_assoc nth_append_left)
  have "card_collect (pre @ run @ post) e digits = card_collect (pre @ run @ post) (e + 1) (digits @ [digit_value d])"
    using e d Cons.prems(3,4) by (subst card_collect.simps) (simp add: Let_def)
  also have "\<dots> = (length (pre @ run), (digits @ [digit_value d]) @ map digit_value ds)"
  proof (rule Cons.IH)
    show "drop (e + 1) (pre @ run) = ds"
      using Cons.prems(2) by (metis Suc_eq_plus1 drop_Suc list.sel(3) tl_drop)
  qed (use Cons.prems in auto)
  finally show ?case by simp
qed

lemma card_loop_skip:
  assumes "list_all (\<lambda>c. \<not> isAsciiDigit c) pre" "i \<le> length pre"
  shows "card_loop (pre @ rest) i out = card_loop (pre @ rest) (length pre) out"
  using assms(2)
proof (induction "length pre - i" arbitrary: i)
  case 0
  then show ?case by simp
next
  case (Suc n)
  have i: "i < length pre" using Suc.hyps(2) by simp
  then have "\<not> isAsciiDigit ((pre @ rest) ! i)"
    using assms(1) by (simp add: nth_append list_all_length)
  then have "card_loop (pre @ rest) i out = card_loop (pre @ rest) (i + 1) out"
    using i by (subst card_loop.simps) simp
  also have "\<dots> = card_loop (pre @ rest) (length pre) out"
    using Suc.hyps(2) by (intro Suc.hyps(1)) auto
  finally show ?case .
qed

text \<open>
  A card number written as one run of 13 to 19 digits that pass Luhn's check is found, wherever it stands,
  when no digit precedes it, it does not follow a word byte, and neither a word byte nor a separator follows.
\<close>

theorem credit_card_found:
  assumes "list_all (\<lambda>c. \<not> isAsciiDigit c) pre" "pre = [] \<or> \<not> isWordByte (last pre)"
    and "list_all isAsciiDigit run" "13 \<le> length run" "length run \<le> 19" "luhnValid (map digit_value run)"
    and "post = [] \<or> \<not> isWordByte (hd post) \<and> hd post \<noteq> CHR ''-'' \<and> hd post \<noteq> CHR '' ''"
  shows "\<lparr>bm_Start = length pre, bm_End = length pre + length run\<rparr> \<in> set (FindCreditCard (pre @ run @ post) out)"
proof -
  let ?in = "pre @ run @ post" and ?e = "length pre + length run"
  let ?m = "\<lparr>bm_Start = length pre, bm_End = ?e\<rparr>"
  have coll: "card_collect ?in (length pre) [] = (?e, map digit_value run)"
    using card_collect_digits [of "length pre" run pre run "[]" post] assms
    by (auto simp: isWordByte_def isAlnum_def)
  have i: "length pre < length ?in" using assms(4) by auto
  have d: "isAsciiDigit (?in ! length pre)" using assms(3,4) by (cases run) (auto simp: nth_append)
  have l: "\<not> (length pre > 0 \<and> isWordByte (?in ! (length pre - 1)))"
    using assms(2) by (auto simp: nth_append last_conv_nth)
  have r: "?e \<ge> length ?in \<or> \<not> isWordByte (?in ! ?e)"
    using assms(7) by (cases post) (auto simp: nth_append)
  have ok: "13 \<le> length (map digit_value run) \<and> length (map digit_value run) \<le> 19 \<and>
      (?e \<ge> length ?in \<or> \<not> isWordByte (?in ! ?e)) \<and> luhnValid (map digit_value run)"
    using r assms(4-6) by simp
  have "card_loop ?in (length pre) out = card_loop ?in ?e (out @ [?m])"
    unfolding card_loop.simps [of ?in "length pre"] coll Let_def fst_conv snd_conv
    using i d l ok by (simp only: if_True if_False not_True_eq_False simp_thms)
  then show ?thesis
    using card_loop_skip [OF assms(1), of 0 "run @ post" out] card_loop_append [of ?in ?e "out @ [?m]"]
    by (simp add: FindCreditCard_def)
qed

theorem credit_card_found_witness:
  "\<lparr>bm_Start = 5, bm_End = 21\<rparr> \<in> set (FindCreditCard ''card:4111111111111111.'' [])"
proof -
  have len: "length ''card:'' = 5" "length ''4111111111111111'' = 16" by simp_all
  have "\<lparr>bm_Start = length ''card:'', bm_End = length ''card:'' + length ''4111111111111111''\<rparr>
      \<in> set (FindCreditCard (''card:'' @ ''4111111111111111'' @ ''.'') [])"
    by (rule credit_card_found)
      (simp_all add: byte_class_defs byte_between_def luhnValid_def digit_value_def)
  then show ?thesis unfolding len by simp
qed

text \<open>The weight of one digit in the sum.\<close>

lemma luhn_weight_inj:
  fixes d d' :: nat
  assumes "d \<le> 9" "d' \<le> 9"
    and "(if b then (if d * 2 > 9 then d * 2 - 9 else d * 2) else d) =
         (if b then (if d' * 2 > 9 then d' * 2 - 9 else d' * 2) else d')"
  shows "d = d'"
  using assms by (cases b; cases "d * 2 > 9"; cases "d' * 2 > 9") (simp_all, presburger+)

lemma mod_cancel_middle: "(a + x + c) mod n = (a + y + c) mod n \<Longrightarrow> x mod n = y mod (n :: nat)"
  unfolding nat_mod_eq_iff by (auto simp: ac_simps)

text \<open>
  Luhn's check catches every error in one digit: two digit strings that differ in one place are never both
  valid.
\<close>

theorem luhn_single_digit_error:
  assumes "luhnValid (xs @ d # ys)" "d \<le> 9" "d' \<le> 9" "d \<noteq> d'"
  shows "\<not> luhnValid (xs @ d' # ys)"
proof
  assume other: "luhnValid (xs @ d' # ys)"
  define w where "w i d = (if i mod 2 = length (xs @ d # ys) mod 2 then (if d * 2 > 9 then d * 2 - 9 else d * 2) else d)" for i d :: nat
  have same: "length (xs @ d' # ys) = length (xs @ d # ys)" by simp
  obtain A B where sums:
    "luhn_sum (length (xs @ d # ys) mod 2) 0 (xs @ d # ys) = A + w (length xs) d + B"
    "luhn_sum (length (xs @ d # ys) mod 2) 0 (xs @ d' # ys) = A + w (length xs) d' + B"
    by (simp add: luhn_sum_append w_def Let_def add.assoc)
  have "(A + w (length xs) d + B) mod 10 = (A + w (length xs) d' + B) mod 10"
    using assms(1) other sums same unfolding luhnValid_def by simp
  then have m: "w (length xs) d mod 10 = w (length xs) d' mod 10"
    by (rule mod_cancel_middle)
  have "w (length xs) x mod 10 = w (length xs) x" if "x \<le> 9" for x
    using that by (auto simp: w_def)
  with m assms(2,3) have "w (length xs) d = w (length xs) d'" by simp
  then show False using luhn_weight_inj [OF assms(2,3)] assms(4) unfolding w_def by simp
qed

theorem luhn_single_digit_error_witness:
  "luhnValid ([7, 9, 9, 2, 7] @ 3 # [9, 8, 7, 1, 3]) \<and> \<not> luhnValid ([7, 9, 9, 2, 7] @ 5 # [9, 8, 7, 1, 3])"
proof -
  have "luhnValid ([7, 9, 9, 2, 7] @ 3 # [9, 8, 7, 1, 3])" by (simp add: luhnValid_def)
  then show ?thesis using luhn_single_digit_error [of "[7, 9, 9, 2, 7]" 3 "[9, 8, 7, 1, 3]" 5] by simp
qed

text \<open>
  A number just before a card hides it: the digits of both are read as one run across the separator, the run
  fails Luhn's check, and the scanner resumes after the run, although a pattern search would start at the card.
\<close>

theorem credit_card_swallowed:
  "FindCreditCard ''4111111111111111'' [] = [\<lparr>bm_Start = 0, bm_End = 16\<rparr>] \<and>
   FindCreditCard ''12 4111111111111111'' [] = []"
  by (simp add: FindCreditCard_def card_loop.simps card_collect.simps byte_class_defs byte_between_def
      luhnValid_def digit_value_def Let_def)

text \<open>
  Every span \<open>FindEmail\<close> appends is inside the input and has the form of an address: a non-empty local part,
  an \<open>@\<close>, and a domain whose last label has at least two letters; what \<open>out\<close> held is kept.
\<close>

theorem email_spans_sound:
  "\<exists>new. FindEmail input out = out @ new \<and> list_all (email_span input) new"
  using email.scan_append [of input out] email.scan_ok [of _ input] by (auto simp: list_all_iff)

end
