(* ===== verification/GuardEngine.thy ===== *)
theory GuardEngine
  imports GuardSelect CheckEffects FastScanners
begin

text \<open>
  The guard runtime, \<^verbatim>\<open>deepintshield_guard/internal/engine/engine.go\<close> with \<^verbatim>\<open>finding_summary.go\<close>: the runtime's state
  (tenant bundles and compilation caches), compiled rules, the local rule evaluation, the MCP tool policies, the
  provider bindings and the decision from the findings.  The entry points are in \<^verbatim>\<open>GuardEntry\<close>.

  SHA-256, the modality stage, the card compiler and the provider adapters are fields of \<open>guard_env\<close> (the card compiler
  is modelled in \<^verbatim>\<open>Cards\<close> and the modality stage in \<^verbatim>\<open>GuardModality\<close>); an adapter is told whether its context has been
  cancelled.
\<close>

section \<open>State\<close>

record compiledRule =
  cr_Category :: string
  cr_Pattern :: string
  cr_Severity :: string
  cr_Outcome :: string
  cr_Summary :: string

record GuardRuntime = filter_caches +
  tenantBundles :: "string \<rightharpoonup> TenantBundle"
  refreshedTenants :: "string \<rightharpoonup> int"
  compiledDefs :: "string \<rightharpoonup> gomap"
  compiledRules :: "string \<rightharpoonup> compiledRule list"
  adapterTimeout :: int
  ragChunkParallelism :: int
  perCategoryTimeouts :: "string \<rightharpoonup> int"

type_synonym adapter = "bool \<Rightarrow> int \<Rightarrow> EvaluateRequest \<Rightarrow> ProviderConfig \<Rightarrow> PolicyBundle \<Rightarrow> string + Finding list"

record guard_env =
  g_checks :: check_env
  g_CompileDefinition :: "gomap \<Rightarrow> string \<Rightarrow> gomap"
  g_sha256_hex :: "string \<Rightarrow> string"
  g_adapters :: "string \<rightharpoonup> adapter"
  g_arrival :: "(Finding list \<times> string list) list \<Rightarrow> (Finding list \<times> string list) list"
  g_extract :: "EvaluateRequest \<Rightarrow> EvaluateRequest"
  g_modality :: "bool \<Rightarrow> EvaluateRequest \<Rightarrow> Finding list \<times> string list"
  g_now :: string

section \<open>Configuration\<close>

definition envInt :: "string \<Rightarrow> int \<Rightarrow> int" where
  "envInt raw0 fallback =
     (let raw = TrimSpace raw0 in
      if raw = [] then fallback
      else case Atoi raw of None \<Rightarrow> fallback | Some v \<Rightarrow> (if v \<le> 0 then fallback else v))"

text \<open>\<open>time.Duration(v) * time.Millisecond\<close>: nanoseconds in a signed 64-bit integer, and the product wraps.\<close>

definition millis :: "int \<Rightarrow> int" where
  "millis v = wrap64 (v * 1000000)"

record RuntimeConfig =
  AdapterTimeoutMs :: int
  RAGChunkParallelism :: int
  PerCategoryTimeoutsMs :: "(string \<times> int) list"

text \<open>
  \<open>getenv\<close> reads the environment and \<open>unmarshal_ints\<close> decodes a JSON object of integers.  The entries of the category
  map are taken in the order of the list; Go leaves that order open.
\<close>

definition New :: "(string \<Rightarrow> string) \<Rightarrow> (string \<Rightarrow> (string \<times> int) list option) \<Rightarrow> RuntimeConfig list \<Rightarrow> GuardRuntime" where
  "New getenv unmarshal_ints opts =
     (let cfg = (case opts of [] \<Rightarrow> \<lparr>AdapterTimeoutMs = 0, RAGChunkParallelism = 0, PerCategoryTimeoutsMs = []\<rparr> | c # _ \<Rightarrow> c);
          timeout0 = (if AdapterTimeoutMs cfg > 0 then millis (AdapterTimeoutMs cfg) else millis 10000);
          parallel0 = (if RAGChunkParallelism cfg > 0 then RAGChunkParallelism cfg else 8);
          envTimeout = envInt (getenv ''DEEPINTSHIELD_GUARD_ADAPTER_TIMEOUT_MS'') 0;
          envParallel = envInt (getenv ''DEEPINTSHIELD_GUARD_RAG_CHUNK_PARALLELISM'') 0;
          raw = TrimSpace (getenv ''DEEPINTSHIELD_GUARD_TIMEOUTS_BY_CATEGORY'');
          parsed = (if raw = [] then [] else case unmarshal_ints raw of None \<Rightarrow> [] | Some m \<Rightarrow> m);
          perCategory = foldl (\<lambda>m kv. AList.update (fst kv) (snd kv) m) (PerCategoryTimeoutsMs cfg) parsed
      in \<lparr>compiledRuleUnions = Map.empty, compiledRuleACs = Map.empty, tenantBundles = Map.empty, refreshedTenants = Map.empty,
          compiledDefs = Map.empty, compiledRules = Map.empty,
          adapterTimeout = (if envTimeout > 0 then millis envTimeout else timeout0),
          ragChunkParallelism = (if envParallel > 0 then envParallel else parallel0),
          perCategoryTimeouts = foldl (\<lambda>m kv. if snd kv > 0 then m(ToLower (TrimSpace (fst kv)) \<mapsto> millis (snd kv)) else m)
            Map.empty perCategory\<rparr>)"

definition resolveTimeout :: "GuardRuntime \<Rightarrow> PolicyBundle \<Rightarrow> int" where
  "resolveTimeout r policy =
     (if TimeoutMs policy > 0 then millis (TimeoutMs policy)
      else
        (let text_of = (\<lambda>key. case map_of (Metadata policy) key of Some (VStr v) \<Rightarrow> ToLower (TrimSpace v) | _ \<Rightarrow> []);
             category0 = text_of ''category'';
             category = (if category0 = [] then text_of ''check_class'' else category0) in
         if category \<noteq> [] then
           (case perCategoryTimeouts r category of
              Some d \<Rightarrow> (if d > 0 then d else adapterTimeout r)
            | None \<Rightarrow> adapterTimeout r)
         else adapterTimeout r))"

section \<open>Compiled definitions and rules\<close>

definition definitionHashKey :: string where
  "definitionHashKey = ''__definition_hash__''"

definition computeDefinitionHash :: "guard_env \<Rightarrow> gomap \<Rightarrow> string" where
  "computeDefinitionHash g d =
     (if d = [] then []
      else (let raw = env_Marshal (g_checks g) d in if raw = [] then [] else g_sha256_hex g raw))"

definition compiledDefinitionRulesCacheKey :: "guard_env \<Rightarrow> gomap \<Rightarrow> string" where
  "compiledDefinitionRulesCacheKey g d =
     (if d = [] then []
      else case map_of d definitionHashKey of
        Some (VStr h) \<Rightarrow> (if h \<noteq> [] then h else computeDefinitionHash g d)
      | _ \<Rightarrow> computeDefinitionHash g d)"

definition compiledDefinitionForPolicy :: "guard_env \<Rightarrow> PolicyBundle \<Rightarrow> string \<Rightarrow> GuardRuntime \<Rightarrow> gomap \<times> GuardRuntime" where
  "compiledDefinitionForPolicy g policy stage r =
     (let cacheKey = compiledPolicyCacheKey policy stage;
          fresh = g_CompileDefinition g (Definition policy) (NormalizeStage stage) in
      if cacheKey = [] then (fresh, r)
      else case compiledDefs r cacheKey of
        Some compiled \<Rightarrow> (compiled, r)
      | None \<Rightarrow> (fresh, r\<lparr>compiledDefs := (compiledDefs r)(cacheKey \<mapsto> fresh)\<rparr>))"

text \<open>\<open>fmt.Sprintf("%v", ruleMap[key])\<close>: a missing key is \<open>nil\<close>.\<close>

definition rule_field :: "guard_env \<Rightarrow> gomap \<Rightarrow> string \<Rightarrow> string" where
  "rule_field g ruleMap key =
     Sprint (env_float (g_checks g)) (case map_of ruleMap key of None \<Rightarrow> VNil | Some v \<Rightarrow> v)"

definition compile_rule :: "guard_env \<Rightarrow> goval \<Rightarrow> compiledRule option" where
  "compile_rule g item =
     (case item of
        VMap ruleMap \<Rightarrow>
          (let pattern = TrimSpace (rule_field g ruleMap ''pattern'') in
           if pattern = [] then None
           else if rx_Compile (env_rx (g_checks g)) pattern \<noteq> None then None
           else Some \<lparr>cr_Category = TrimSpace (rule_field g ruleMap ''category''), cr_Pattern = pattern,
             cr_Severity = normalizeSeverity (rule_field g ruleMap ''severity''),
             cr_Outcome = normalizeOutcome (rule_field g ruleMap ''outcome''),
             cr_Summary = TrimSpace (rule_field g ruleMap ''summary'')\<rparr>)
      | _ \<Rightarrow> None)"

definition compileRules :: "guard_env \<Rightarrow> gomap \<Rightarrow> compiledRule list" where
  "compileRules g d =
     (case map_of d ''rules'' of
        Some (VList rawSlice) \<Rightarrow> List.map_filter (compile_rule g) rawSlice
      | _ \<Rightarrow> [])"

definition compiledRulesForDefinition :: "guard_env \<Rightarrow> gomap \<Rightarrow> GuardRuntime \<Rightarrow> compiledRule list \<times> GuardRuntime" where
  "compiledRulesForDefinition g d r =
     (let cacheKey = compiledDefinitionRulesCacheKey g d in
      if cacheKey = [] then (compileRules g d, r)
      else case compiledRules r cacheKey of
        Some rules \<Rightarrow> (rules, r)
      | None \<Rightarrow> (let rules = compileRules g d in (rules, r\<lparr>compiledRules := (compiledRules r)(cacheKey \<mapsto> rules)\<rparr>)))"

definition unionRegexForRules :: "guard_env \<Rightarrow> gomap \<Rightarrow> compiledRule list \<Rightarrow> GuardRuntime \<Rightarrow> string option \<times> GuardRuntime" where
  "unionRegexForRules g d rules r =
     (if rules = [] then (None, r)
      else
        (let cacheKey = compiledDefinitionRulesCacheKey g d;
             union0 = union_pattern (map cr_Pattern rules);
             fresh = (if rx_Compile (env_rx (g_checks g)) union0 \<noteq> None then (None, r)
                      else if cacheKey = [] then (Some union0, r)
                      else (Some union0, r\<lparr>compiledRuleUnions := (compiledRuleUnions r)(cacheKey \<mapsto> union0)\<rparr>)) in
         if cacheKey = [] then fresh
         else case compiledRuleUnions r cacheKey of Some u \<Rightarrow> (Some u, r) | None \<Rightarrow> fresh))"

text \<open>The fold of \<open>compileRuntimePolicies\<close>: every policy with its compiled definition.\<close>

fun compileRuntimePolicies :: "guard_env \<Rightarrow> string \<Rightarrow> PolicyBundle list \<Rightarrow> GuardRuntime \<Rightarrow> PolicyBundle list \<times> GuardRuntime" where
  "compileRuntimePolicies g stage [] r = ([], r)"
| "compileRuntimePolicies g stage (policy # policies) r =
     (let (compiled, r1) = compiledDefinitionForPolicy g policy (NormalizeStage stage) r;
          (rest, r2) = compileRuntimePolicies g stage policies r1
      in (policy\<lparr>Definition := compiled\<rparr> # rest, r2))"

section \<open>Tenants\<close>

text \<open>The hash is stored into the compiled map itself, so a cached entry carries it from then on.\<close>

definition prewarm_policy :: "guard_env \<Rightarrow> PolicyBundle \<Rightarrow> GuardRuntime \<Rightarrow> GuardRuntime" where
  "prewarm_policy g policy r =
     (let stage = NormalizeStage (Scope policy);
          (compiled, r1) = compiledDefinitionForPolicy g policy stage r;
          h = computeDefinitionHash g compiled;
          key = compiledPolicyCacheKey policy stage;
          compiled' = (if map_of compiled definitionHashKey = None \<and> h \<noteq> [] then AList.update definitionHashKey (VStr h) compiled else compiled);
          r2 = (if key = [] then r1 else r1\<lparr>compiledDefs := (compiledDefs r1)(key \<mapsto> compiled')\<rparr>)
      in snd (compiledRulesForDefinition g compiled' r2))"

definition prewarmTenantBundle :: "guard_env \<Rightarrow> TenantBundle \<Rightarrow> GuardRuntime \<Rightarrow> GuardRuntime" where
  "prewarmTenantBundle g bundle0 r = fold (prewarm_policy g) (tb_Policies bundle0) r"

text \<open>\<open>now\<close> is the clock; the zero time is 0.\<close>

definition RefreshTenant :: "guard_env \<Rightarrow> int \<Rightarrow> TenantBundle \<Rightarrow> GuardRuntime \<Rightarrow> GuardRuntime" where
  "RefreshTenant g now bundle0 r =
     (let tenantID = TrimSpace (tb_TenantID bundle0) in
      if tenantID = [] then r
      else
        (let b1 = bundle0\<lparr>tb_TenantID := tenantID\<rparr>;
             b2 = (if tb_RefreshedAt b1 = 0 then b1\<lparr>tb_RefreshedAt := now\<rparr> else b1);
             r1 = prewarmTenantBundle g b2 r
         in r1\<lparr>tenantBundles := (tenantBundles r1)(tenantID \<mapsto> b2),
               refreshedTenants := (refreshedTenants r1)(tenantID \<mapsto> tb_RefreshedAt b2)\<rparr>))"

definition lookupTenantBundle :: "GuardRuntime \<Rightarrow> string \<Rightarrow> TenantBundle option" where
  "lookupTenantBundle r tenantID0 =
     (let tenantID = TrimSpace tenantID0 in if tenantID = [] then None else tenantBundles r tenantID)"

section \<open>Summaries\<close>

definition isSensitiveCategory :: "string \<Rightarrow> bool" where
  "isSensitiveCategory category \<longleftrightarrow> ToLower (TrimSpace category) \<in>
     {''pii'', ''ssn'', ''ssn_us'', ''credit_card'', ''email'', ''phone'', ''iban'', ''passport'', ''india_pan'', ''india_aadhaar'',
      ''bearer_token'', ''api_key_kv'', ''aws_access_key'', ''aws_secret'', ''github_pat'', ''slack_token'', ''jwt'',
      ''private_key_block'', ''generic_secret_kv'', ''google_api_key'', ''secrets'', ''credentials'', ''secret''}"

text \<open>The loop of \<open>intToASCII\<close> writes the digits from the last one into a buffer of twenty bytes.\<close>

fun ascii_loop :: "nat \<Rightarrow> string \<Rightarrow> string" where
  "ascii_loop n buf = (if n = 0 then buf else ascii_loop (n div 10) (char_of (48 + n mod 10) # buf))"

declare ascii_loop.simps [simp del]

definition intToASCII :: "int \<Rightarrow> string" where
  "intToASCII n = (if n = 0 then ''0'' else if n < 0 then ''-'' @ ascii_loop (nat (- n)) [] else ascii_loop (nat n) [])"

text \<open>The ellipsis in UTF-8.\<close>

definition ellipsis :: string where "ellipsis = [CHR 0xE2, CHR 0x80, CHR 0xA6]"

definition redactExcerptForCategory :: "string \<Rightarrow> string \<Rightarrow> string" where
  "redactExcerptForCategory category match0 =
     (let trimmed = TrimSpace match0 in
      if trimmed = [] then ''<empty>''
      else if isSensitiveCategory category
      then (if length trimmed > 4 then take 4 trimmed else trimmed) @ ellipsis @ ''['' @ intToASCII (int (length trimmed)) @ '' chars redacted]''
      else if length trimmed > 64 then take 64 trimmed @ ellipsis
      else trimmed)"

definition composeFindingSummary :: "string \<Rightarrow> string \<Rightarrow> string list \<Rightarrow> string" where
  "composeFindingSummary baseSummary category found =
     (let base = TrimSpace baseSummary in
      case found of
        [] \<Rightarrow> base
      | first # rest \<Rightarrow>
          (let excerpt = redactExcerptForCategory category first in
           if base = [] \<and> category = [] then ''matched: '' @ excerpt
           else if base = [] then ''matched '' @ category @ '': '' @ excerpt
           else if category = [] then base @ '' (matched: '' @ excerpt @ '')''
           else base @ '' (matched '' @ category @ '': '' @ excerpt @ '')''))"

section \<open>Local rules\<close>

definition rule_matches :: "guard_env \<Rightarrow> string \<Rightarrow> compiledRule \<Rightarrow> string list" where
  "rule_matches g target rule =
     (case fastScannerForCategory (cr_Category rule) of
        Some scanner \<Rightarrow> map (\<lambda>h. slice target (bm_Start h) (bm_End h)) (scanner target [])
      | None \<Rightarrow> rx_FindAll (env_rx (g_checks g)) (cr_Pattern rule) target)"

definition policy_finding :: "PolicyBundle \<Rightarrow> string \<Rightarrow> string \<Rightarrow> rat \<Rightarrow> string \<Rightarrow> string \<Rightarrow> gomap \<Rightarrow> Finding" where
  "policy_finding policy category severity confidence outcome summary details =
     \<lparr>f_PolicyID = PolicyID policy, f_PolicyVersionID = PolicyVersionID policy, f_ProviderID = [], f_ProviderType = [],
      f_Category = category, f_Severity = severity, f_Confidence = confidence, f_Outcome = outcome, f_Summary = summary,
      f_Details = details\<rparr>"

definition add_finding :: "Finding \<Rightarrow> string \<Rightarrow> check_acc \<Rightarrow> check_acc" where
  "add_finding f entry acc = acc\<lparr>acc_findings := acc_findings acc @ [f], acc_chain := acc_chain acc @ [entry]\<rparr>"

definition local_rule :: "guard_env \<Rightarrow> EvaluateRequest \<Rightarrow> PolicyBundle \<Rightarrow> check_acc \<Rightarrow> compiledRule \<Rightarrow> check_acc" where
  "local_rule g request policy acc rule =
     (let found = rule_matches g (pickContent request) rule;
          redact = (\<lambda>t. rx_ReplaceAll (env_rx (g_checks g)) (cr_Pattern rule) t ''[REDACTED]'') in
      if found = [] then acc
      else
        (let acc1 = add_finding
               (policy_finding policy (cr_Category rule) (cr_Severity rule) (84 / 100)
                 (normalizeOutcomeForPolicy policy (normalizeOutcome (cr_Outcome rule)))
                 (composeFindingSummary (cr_Summary rule) (cr_Category rule) found) [(''matches'', VStrs found)])
               (Name policy @ '' matched '' @ cr_Category rule) acc in
         if normalizeOutcome (cr_Outcome rule) = ''redact''
         then acc1\<lparr>acc_redactions := acc_redactions acc1 @ [cr_Category rule @ '':'' @ hd found],
                   acc_input := (if Input (req_Content request) \<noteq> [] then redact (acc_input acc1) else acc_input acc1),
                   acc_output := (if Output (req_Content request) \<noteq> [] then redact (acc_output acc1) else acc_output acc1)\<rparr>
         else acc1))"

definition definition_strings :: "guard_env \<Rightarrow> PolicyBundle \<Rightarrow> string \<Rightarrow> string list" where
  "definition_strings g policy key =
     (case map_of (Definition policy) key of None \<Rightarrow> [] | Some v \<Rightarrow> toStringSlice (env_float (g_checks g)) v)"

definition blocked_pairs :: "guard_env \<Rightarrow> PolicyBundle \<Rightarrow> MCPContext \<Rightarrow> string list" where
  "blocked_pairs g policy m =
     concat (map (\<lambda>blockedDomain. filter (\<lambda>domain. EqualFold (TrimSpace domain) (TrimSpace blockedDomain)) (mcp_Domains m))
       (definition_strings g policy ''blocked_domains''))"

text \<open>The part of the loop body after the rules: blocked domains and the two lists of action classes.\<close>

definition local_mcp :: "guard_env \<Rightarrow> EvaluateRequest \<Rightarrow> PolicyBundle \<Rightarrow> check_acc \<Rightarrow> check_acc" where
  "local_mcp g request policy acc =
     (case req_MCP request of
        None \<Rightarrow> acc
      | Some m \<Rightarrow>
          (let deny = normalizeOutcomeForPolicy policy ''deny'';
               acc1 = fold (\<lambda>domain. add_finding
                        (policy_finding policy ''blocked_domain'' ''high'' (95 / 100) deny
                          (''Request domain '' @ domain @ '' is blocked by policy'') [(''domain'', VStr domain)])
                        ''blocked MCP destination domain'') (blocked_pairs g policy m) acc;
               allowed = definition_strings g policy ''allowed_action_classes'';
               acc2 = (if allowed \<noteq> [] \<and> \<not> containsNormalizedValue allowed (mcp_ActionClass m)
                       then add_finding (policy_finding policy ''action_scope'' ''critical'' (96 / 100) deny
                              (''Action class '' @ mcp_ActionClass m @ '' is outside the allowed MCP scope'') [(''allowed_action_classes'', VStrs allowed)])
                              ''blocked MCP action class outside scope'' acc1
                       else acc1);
               denied = definition_strings g policy ''denied_action_classes''
           in if denied \<noteq> [] \<and> containsNormalizedValue denied (mcp_ActionClass m)
              then add_finding (policy_finding policy ''denied_action_class'' ''high'' (90 / 100) deny
                     (''Action class '' @ mcp_ActionClass m @ '' is denied by policy'') [(''denied_action_classes'', VStrs denied)])
                     ''blocked MCP action class requiring manual review'' acc2
              else acc2))"

text \<open>
  The built-in definition.  Its lists of checks have the static type \<open>[]map[string]any\<close>, which the copy through JSON
  in the card compiler turns into \<open>[]any\<close>; they are given in that form.
\<close>

definition default_check :: "string \<Rightarrow> int \<Rightarrow> gomap \<Rightarrow> string \<Rightarrow> goval" where
  "default_check name priority config onFail =
     VMap [(''name'', VStr name), (''enabled'', VBool True), (''priority'', VInt priority), (''config'', VMap config),
       (''action'', VMap [(''on_fail'', VStr onFail)])]"

definition pii_config :: gomap where
  "pii_config = [(''categories'', VStrs [''email'', ''phone'', ''ssn'', ''credit_card'']), (''severity'', VStr ''high'')]"

definition defaultDefinition :: "string \<Rightarrow> gomap" where
  "defaultDefinition stage =
     [(''input_guardrails'', VList
        [default_check ''regex_match'' 10
           [(''rule'', VStr ''(?i)(ignore previous instructions|reveal system prompt|developer mode|jailbreak|bypass safety|override policy)''),
            (''severity'', VStr ''high''), (''summary'', VStr ''Prompt injection or jailbreak attempt detected'')] ''deny'',
         default_check ''detect_pii'' 20 pii_config ''deny'',
         default_check ''detect_gibberish'' 30 [(''severity'', VStr ''medium'')] ''deny'']),
      (''output_guardrails'', VList
        [default_check ''detect_pii'' 10 pii_config ''deny'',
         default_check ''regex_match'' 20
           [(''rule'', VStr ''(?i)(guaranteed cure|certain outcome|no evidence needed)''), (''severity'', VStr ''medium''),
            (''summary'', VStr ''Potentially unsafe unsupported claim detected'')] ''redact'']),
      (''blocked_domains'', VStrs [''pastebin.com'', ''ngrok.io'', ''example-malware.test'']),
      (''allowed_action_classes'', VStrs [''read'', ''write'', ''network'', ''destructive'', ''exec'']),
      (''denied_action_classes'', VStrs [''destructive'', ''exec''])]"

text \<open>The rules of a policy, or of the built-in definition when it has none.\<close>

definition rules_for_policy :: "guard_env \<Rightarrow> PolicyBundle \<Rightarrow> GuardRuntime \<Rightarrow> compiledRule list \<times> GuardRuntime" where
  "rules_for_policy g policy r =
     (let (rules, r1) = compiledRulesForDefinition g (Definition policy) r in
      if rules \<noteq> [] then (rules, r1)
      else
        (let builtin = (builtin_policy defaultDefinition (Scope policy))\<lparr>Scope := Scope policy, Name := [], EnforcementMode := [], Enabled := False\<rparr>;
             (d, r2) = compiledDefinitionForPolicy g builtin (NormalizeStage (Scope policy)) r1
         in compiledRulesForDefinition g d r2))"

definition local_policy :: "guard_env \<Rightarrow> EvaluateRequest \<Rightarrow> PolicyBundle \<Rightarrow> check_acc \<times> GuardRuntime \<Rightarrow> check_acc \<times> GuardRuntime" where
  "local_policy g request policy s =
     (let (acc, r) = s;
          (rules, r1) = rules_for_policy g policy r;
          (union0, r2) = unionRegexForRules g (Definition policy) rules r1;
          noMatch = (case union0 of None \<Rightarrow> False | Some u \<Rightarrow> \<not> rx_Match (env_rx (g_checks g)) u (pickContent request));
          anyFastScanner = list_ex (\<lambda>rule. fastScannerForCategory (cr_Category rule) \<noteq> None) rules in
      if noMatch \<and> \<not> anyFastScanner
      then (acc\<lparr>acc_chain := acc_chain acc @ [Name policy @ '' evaluated via union fast-path (no match)'']\<rparr>, r2)
      else (local_mcp g request policy (foldl (local_rule g request policy) acc rules), r2))"

definition evaluateLocalPolicies :: "guard_env \<Rightarrow> PolicyBundle list \<Rightarrow> EvaluateRequest \<Rightarrow> GuardRuntime \<Rightarrow> check_acc \<times> GuardRuntime" where
  "evaluateLocalPolicies g policies request r = fold (local_policy g request) policies (cl_acc (loop_start request), r)"

section \<open>MCP tool policies\<close>

definition matchesToolPolicy :: "MCPToolPolicy \<Rightarrow> EvaluateRequest \<Rightarrow> bool" where
  "matchesToolPolicy policy request =
     (case req_MCP request of
        None \<Rightarrow> False
      | Some m \<Rightarrow>
          (if TrimSpace (tp_ServerLabel policy) \<noteq> [] \<and> \<not> EqualFold (TrimSpace (tp_ServerLabel policy)) (TrimSpace (mcp_ServerLabel m)) then False
           else if TrimSpace (tp_ToolName policy) \<noteq> [] \<and> \<not> EqualFold (TrimSpace (tp_ToolName policy)) (TrimSpace (mcp_ToolName m)) then False
           else if TrimSpace (tp_ActionClass policy) \<noteq> [] \<and> \<not> EqualFold (TrimSpace (tp_ActionClass policy)) (TrimSpace (mcp_ActionClass m)) then False
           else True))"

definition mcp_finding :: "MCPToolPolicy \<Rightarrow> string \<Rightarrow> string \<Rightarrow> rat \<Rightarrow> string \<Rightarrow> gomap \<Rightarrow> Finding" where
  "mcp_finding policy category severity confidence summary details =
     \<lparr>f_PolicyID = tp_PolicyID policy, f_PolicyVersionID = [], f_ProviderID = [], f_ProviderType = [], f_Category = category,
      f_Severity = severity, f_Confidence = confidence, f_Outcome = normalizeOutcome ''deny'', f_Summary = summary, f_Details = details\<rparr>"

definition mcp_tool_policy :: "EvaluateRequest \<Rightarrow> MCPContext \<Rightarrow> MCPToolPolicy \<Rightarrow> (Finding \<times> string) list" where
  "mcp_tool_policy request m policy =
     (if \<not> matchesToolPolicy policy request then []
      else
        (if tp_AllowedIdentities policy \<noteq> [] \<and> \<not> containsNormalizedValue (tp_AllowedIdentities policy) (actor_ID (req_Actor request))
         then [(mcp_finding policy ''identity_scope'' ''critical'' (97 / 100)
                  (''Actor '' @ actor_ID (req_Actor request) @ '' is not allowed to execute tool '' @ mcp_ToolName m)
                  [(''allowed_identities'', VStrs (tp_AllowedIdentities policy))], ''blocked MCP tool execution by identity scope'')] else []) @
        (if tp_AllowedDomains policy \<noteq> [] \<and> mcp_Domains m \<noteq> []
         then map (\<lambda>domain. (mcp_finding policy ''domain_scope'' ''high'' (94 / 100)
                  (''Domain '' @ domain @ '' is outside the allowed MCP domain scope'')
                  [(''allowed_domains'', VStrs (tp_AllowedDomains policy))], ''blocked MCP destination outside allowed domains''))
                (filter (\<lambda>domain. \<not> containsNormalizedValue (tp_AllowedDomains policy) domain) (mcp_Domains m)) else []) @
        (if tp_ApprovalNeeded policy
         then [(mcp_finding policy ''restricted_action_class'' ''high'' (91 / 100)
                  (''Tool '' @ mcp_ToolName m @ '' is blocked for restricted action class '' @ mcp_ActionClass m)
                  [(''server_label'', VStr (tp_ServerLabel policy)), (''tool_name'', VStr (tp_ToolName policy)), (''action_class'', VStr (tp_ActionClass policy))],
                ''MCP tool policy blocked a restricted action class'')] else []))"

definition evaluateMCPToolPolicies :: "MCPToolPolicy list \<Rightarrow> EvaluateRequest \<Rightarrow> Finding list \<times> string list" where
  "evaluateMCPToolPolicies policies request =
     (case req_MCP request of
        None \<Rightarrow> ([], [])
      | Some m \<Rightarrow> (let rs = concat (map (mcp_tool_policy request m) policies) in (map fst rs, map snd rs)))"

section \<open>Provider bindings\<close>

definition binding_less :: "PolicyBundle \<times> PolicyProviderBinding \<times> ProviderConfig \<Rightarrow> PolicyBundle \<times> PolicyProviderBinding \<times> ProviderConfig \<Rightarrow> bool" where
  "binding_less a b \<longleftrightarrow> pb_Priority (fst (snd a)) < pb_Priority (fst (snd b))"

definition binding_tasks ::
  "TenantBundle \<Rightarrow> PolicyBundle list \<Rightarrow> EvaluateRequest \<Rightarrow> (PolicyBundle \<times> PolicyProviderBinding \<times> ProviderConfig) list" where
  "binding_tasks b policies request =
     (let providersByID = foldl (\<lambda>m provider. if prov_Enabled provider then m(prov_ID provider \<mapsto> provider) else m) Map.empty (tb_Providers b)
      in SliceStable binding_less
           (concat (map (\<lambda>policy. List.map_filter (\<lambda>binding.
              if \<not> pb_Enabled binding then None
              else if pb_Stage binding \<noteq> [] \<and> NormalizeStage (pb_Stage binding) \<noteq> NormalizeStage (req_Stage request) then None
              else map_option (\<lambda>provider. (policy, binding, provider)) (providersByID (pb_ProviderID binding)))
              (ProviderBindings policy)) policies)))"

definition run_adapter ::
  "guard_env \<Rightarrow> GuardRuntime \<Rightarrow> bool \<Rightarrow> EvaluateRequest \<Rightarrow> PolicyBundle \<times> PolicyProviderBinding \<times> ProviderConfig
     \<Rightarrow> (Finding list \<times> string list) option" where
  "run_adapter g r cancelled request task =
     (let (policy, binding, provider) = task in
      case g_adapters g (TrimSpace (prov_Type provider)) of
        None \<Rightarrow> None
      | Some adapter \<Rightarrow>
          (case adapter cancelled (resolveTimeout r policy) request provider policy of
             Inl err \<Rightarrow> Some ([], [''provider '' @ prov_Name provider @ '' evaluation failed: '' @ err])
           | Inr adapterFindings \<Rightarrow>
               (let findings = map (\<lambda>f. f\<lparr>f_PolicyID := PolicyID policy, f_PolicyVersionID := PolicyVersionID policy,
                      f_ProviderID := prov_ID provider, f_ProviderType := prov_Type provider,
                      f_Severity := normalizeSeverity (f_Severity f),
                      f_Outcome := normalizeOutcomeForPolicy policy (f_Outcome f)\<rparr>) adapterFindings
                in Some (findings, [''provider '' @ prov_Name provider @ '' evaluated '' @ show_int (int (length findings)) @ '' finding(s)'']))))"

definition evaluateProviderBindings ::
  "guard_env \<Rightarrow> GuardRuntime \<Rightarrow> bool \<Rightarrow> TenantBundle \<Rightarrow> PolicyBundle list \<Rightarrow> EvaluateRequest \<Rightarrow> Finding list \<times> string list" where
  "evaluateProviderBindings g r cancelled b policies request =
     (let results = g_arrival g (List.map_filter (run_adapter g r cancelled request) (binding_tasks b policies request))
      in (concat (map fst results), concat (map snd results)))"

section \<open>The decision\<close>

definition hasGatingDeny :: "Finding list \<Rightarrow> bool" where
  "hasGatingDeny findings = list_ex (\<lambda>f. normalizeOutcome (f_Outcome f) \<in> {''deny'', ''sandbox''}) findings"

definition severityRank :: "string \<Rightarrow> nat" where
  "severityRank outcome =
     (if outcome = ''redact'' then 1 else if outcome = ''sandbox'' then 2 else if outcome = ''deny'' then 3 else 0)"

fun best_finding :: "nat \<times> string \<Rightarrow> Finding list \<Rightarrow> nat \<times> string" where
  "best_finding best [] = best"
| "best_finding best (f # fs) =
     (let rank = severityRank (normalizeOutcome (f_Outcome f)) in
      best_finding (if rank > fst best then (rank, f_Summary f) else best) fs)"

definition resolveDecision :: "Finding list \<Rightarrow> string list \<Rightarrow> string \<times> bool \<times> string" where
  "resolveDecision findings redactions =
     (let (bestRank, bestSummary) = best_finding (0, []) findings in
      if bestRank = 3 then (''deny'', False, bestSummary)
      else if bestRank = 2 then (''sandbox'', False, bestSummary)
      else if bestRank = 1 then (''allow_with_redaction'', False, bestSummary)
      else if redactions \<noteq> [] then (''allow_with_redaction'', False, ''Content was sanitized by runtime redaction rules'')
      else (''allow'', False, ''No guardrail violations detected''))"

end
