(* ===== verification/GuardRAG.thy ===== *)
theory GuardRAG
  imports GuardEngine
begin

text \<open>
  The retrieval stage of the guard runtime, \<^verbatim>\<open>internal/engine/rag.go\<close>: the chunks a request retrieved are read from its
  metadata, each chunk is judged by the directives of the policies and by the checks, rules and providers of the other
  stages, and the decision on the request follows from the findings and the outcomes of its chunks.

  The chunks run as goroutines, at most \<open>ragChunkParallelism\<close> at a time, and are merged in their order; here they run one
  after the other.  The time of the evaluation is the field \<open>g_now\<close>; the measured latency is left out.
\<close>

section \<open>Data\<close>

record ragChunkInput =
  rc_ChunkID :: string
  rc_DocumentID :: string
  rc_DocumentVersion :: string
  rc_Content :: string
  rc_OffsetStart :: int
  rc_OffsetEnd :: int
  rc_ACLTags :: "string list"
  rc_Labels :: "string list"
  rc_TrustScore :: int
  rc_InjectionScore :: int
  rc_PIIFlags :: "string list"
  rc_SourceID :: string
  rc_SourceName :: string
  rc_SourceHealth :: string
  rc_Quarantined :: bool

record ragChunkOutcome =
  ro_ChunkID :: string
  ro_DocumentID :: string
  ro_DocumentVersion :: string
  ro_ContentPreview :: string
  ro_OffsetStart :: int
  ro_OffsetEnd :: int
  ro_TrustScore :: int
  ro_InjectionScore :: int
  ro_PIIFlags :: "string list"
  ro_SourceID :: string
  ro_SourceName :: string
  ro_SourceHealth :: string
  ro_Quarantined :: bool
  ro_Decision :: string
  ro_Reason :: string
  ro_PolicyHits :: "string list"
  ro_SanitizedContent :: string
  ro_CitationRequired :: bool

record ragChunkEval =
  re_outcomes :: "ragChunkOutcome list"
  re_findings :: "Finding list"
  re_redactions :: "string list"
  re_chain :: "string list"
  re_quarantine :: "string list"

record ragPolicyDirectives =
  minTrustScore :: int
  maxInjectionScore :: int
  blockOnPII :: bool
  citationRequired :: bool
  requireApproval :: bool
  shadowMode :: bool
  allowedRoles :: "string list"
  allowedApps :: "string list"
  trustedSourceIDs :: "string list"
  blockedPatterns :: "string list"

section \<open>Directives of a policy\<close>

fun metadataString :: "(rat \<Rightarrow> string) \<Rightarrow> gomap \<Rightarrow> string list \<Rightarrow> string" where
  "metadataString ff metadata [] = []"
| "metadataString ff metadata (key # keys) =
     (let value = TrimSpace (stringValue ff metadata [key]) in if value \<noteq> [] then value else metadataString ff metadata keys)"

definition readRAGInt :: "(rat \<Rightarrow> string) \<Rightarrow> gomap \<Rightarrow> gomap \<Rightarrow> string \<Rightarrow> int" where
  "readRAGInt ff metadata d key =
     (let value = intValue ff metadata key (- 1) in if value \<ge> 0 then value else intValue ff d key 0)"

definition readRAGBool :: "gomap \<Rightarrow> gomap \<Rightarrow> string \<Rightarrow> bool" where
  "readRAGBool metadata d key = (if map_of metadata key \<noteq> None then boolValue metadata key False else boolValue d key False)"

definition readRAGStrings :: "(rat \<Rightarrow> string) \<Rightarrow> gomap \<Rightarrow> gomap \<Rightarrow> string \<Rightarrow> string list" where
  "readRAGStrings ff metadata d key =
     (case map_of metadata key of
        Some raw \<Rightarrow> stringSlice ff (Some raw)
      | None \<Rightarrow> (case map_of d key of Some raw \<Rightarrow> stringSlice ff (Some raw) | None \<Rightarrow> []))"

definition ragDirectives :: "(rat \<Rightarrow> string) \<Rightarrow> PolicyBundle \<Rightarrow> ragPolicyDirectives" where
  "ragDirectives ff policy =
     (let metadata = Metadata policy; d = Definition policy;
          strings = (\<lambda>key. dedupeNonEmptyStrings (readRAGStrings ff metadata d key)) in
      \<lparr>minTrustScore = readRAGInt ff metadata d ''min_trust_score'', maxInjectionScore = readRAGInt ff metadata d ''max_injection_score'',
       blockOnPII = readRAGBool metadata d ''block_on_pii'', citationRequired = readRAGBool metadata d ''citation_required'',
       requireApproval = readRAGBool metadata d ''require_approval'', shadowMode = readRAGBool metadata d ''shadow_mode'',
       allowedRoles = strings ''allowed_roles'', allowedApps = strings ''allowed_apps'',
       trustedSourceIDs = strings ''trusted_source_ids'', blockedPatterns = strings ''blocked_patterns''\<rparr>)"

definition collectRAGChunkDirectives :: "(rat \<Rightarrow> string) \<Rightarrow> PolicyBundle list \<Rightarrow> bool" where
  "collectRAGChunkDirectives ff policies = list_ex (\<lambda>policy. shadowMode (ragDirectives ff policy)) policies"

definition app_name :: "(rat \<Rightarrow> string) \<Rightarrow> gomap \<Rightarrow> string" where
  "app_name ff metadata = metadataString ff metadata [''app_name'', ''app'', ''application'']"

definition ragPolicyAppliesToRequest :: "(rat \<Rightarrow> string) \<Rightarrow> ragPolicyDirectives \<Rightarrow> EvaluateRequest \<Rightarrow> bool" where
  "ragPolicyAppliesToRequest ff directives request =
     (if allowedRoles directives \<noteq> [] \<and> \<not> containsNormalizedValue (allowedRoles directives) (actor_Role (req_Actor request)) then False
      else if allowedApps directives \<noteq> [] \<and> \<not> containsNormalizedValue (allowedApps directives) (app_name ff (req_Metadata request)) then False
      else True)"

text \<open>The alternation of the blocked patterns, when it compiles.\<close>

definition blockedPatternRegexp :: "regex_engine \<Rightarrow> string list \<Rightarrow> string option" where
  "blockedPatternRegexp rx patterns =
     (let parts = filter (\<lambda>p. p \<noteq> []) (map TrimSpace patterns); u = Join parts ''|'' in
      if parts = [] then None else if rx_Compile rx u \<noteq> None then None else Some u)"

section \<open>Chunks of a request\<close>

definition bundleRAGSources :: "TenantBundle option \<Rightarrow> (string \<times> gomap) list" where
  "bundleRAGSources bundle0 =
     (case bundle0 of
        None \<Rightarrow> []
      | Some b \<Rightarrow>
          (case map_of (tb_Metadata b) ''rag_sources'' of
             Some (VMap rawSources) \<Rightarrow> List.map_filter (\<lambda>(sourceID, rawSource). case rawSource of VMap entries \<Rightarrow> Some (sourceID, entries) | _ \<Rightarrow> None) rawSources
           | _ \<Rightarrow> []))"

definition bundleRAGSource :: "(string \<times> gomap) list \<Rightarrow> string \<Rightarrow> gomap" where
  "bundleRAGSource inventory sourceID = (case map_of inventory (TrimSpace sourceID) of None \<Rightarrow> [] | Some entries \<Rightarrow> entries)"

definition defaultInt :: "int \<Rightarrow> int \<Rightarrow> int" where
  "defaultInt value fallback = (if value > 0 then value else fallback)"

definition chunk_of :: "(rat \<Rightarrow> string) \<Rightarrow> (string \<times> gomap) list \<Rightarrow> gomap \<Rightarrow> nat \<Rightarrow> gomap \<Rightarrow> ragChunkInput" where
  "chunk_of ff inventory metadata index entries =
     (let str = (\<lambda>key. TrimSpace (stringValue ff entries [key]));
          sourceID = defaultString (str ''source_id'') (metadataString ff metadata [''source_id'']);
          defaults = bundleRAGSource inventory sourceID;
          both = (\<lambda>key. dedupeNonEmptyStrings (stringSlice ff (map_of entries key) @ stringSlice ff (map_of defaults key))) in
      \<lparr>rc_ChunkID = (if str ''chunk_id'' = [] then ''chunk-'' @ show_int (int index + 1) else str ''chunk_id''),
       rc_DocumentID = str ''document_id'', rc_DocumentVersion = str ''document_version'', rc_Content = str ''content'',
       rc_OffsetStart = intValue ff entries ''offset_start'' 0, rc_OffsetEnd = intValue ff entries ''offset_end'' 0,
       rc_ACLTags = both ''acl_tags'', rc_Labels = both ''labels'',
       rc_TrustScore = defaultInt (intValue ff entries ''trust_score'' 0) (intValue ff defaults ''trust_score'' 0),
       rc_InjectionScore = intValue ff entries ''injection_score'' 0,
       rc_PIIFlags = dedupeNonEmptyStrings (stringSlice ff (map_of entries ''pii_flags'')),
       rc_SourceID = sourceID,
       rc_SourceName = defaultString (str ''source_name'') (defaultString (stringValue ff defaults [''source_name'']) (metadataString ff metadata [''source_name''])),
       rc_SourceHealth = defaultString (str ''source_health'') (defaultString (stringValue ff defaults [''source_health'']) ''healthy''),
       rc_Quarantined = boolValue entries ''quarantined'' (boolValue defaults ''quarantined'' False)\<rparr>)"

definition extractRAGChunks :: "(rat \<Rightarrow> string) \<Rightarrow> TenantBundle option \<Rightarrow> EvaluateRequest \<Rightarrow> ragChunkInput list" where
  "extractRAGChunks ff bundle0 request =
     (let metadata = req_Metadata request;
          raw = (case map_of metadata ''rag_chunks'' of Some v \<Rightarrow> Some v | None \<Rightarrow> map_of metadata ''retrieved_chunks'') in
      case raw of
        Some (VList rawSlice) \<Rightarrow>
          List.map_filter (\<lambda>(index, item). case item of
             VMap entries \<Rightarrow> Some (chunk_of ff (bundleRAGSources bundle0) metadata index entries) | _ \<Rightarrow> None) (enumerate 0 rawSlice)
      | _ \<Rightarrow> [])"

section \<open>One chunk\<close>

definition mergeMaps :: "gomap \<Rightarrow> gomap \<Rightarrow> gomap" where
  "mergeMaps base extras = foldl (\<lambda>m kv. AList.update (fst kv) (snd kv) m) base (AList.clearjunk extras)"

definition buildRAGFindingDetails :: "ragChunkInput \<Rightarrow> gomap \<Rightarrow> gomap" where
  "buildRAGFindingDetails chunk extra =
     mergeMaps
       [(''chunk_id'', VStr (rc_ChunkID chunk)), (''document_id'', VStr (rc_DocumentID chunk)),
        (''document_version'', VStr (rc_DocumentVersion chunk)), (''offset_start'', VInt (rc_OffsetStart chunk)),
        (''offset_end'', VInt (rc_OffsetEnd chunk)), (''source_id'', VStr (rc_SourceID chunk)), (''source_name'', VStr (rc_SourceName chunk)),
        (''trust_score'', VInt (rc_TrustScore chunk)), (''injection_score'', VInt (rc_InjectionScore chunk)),
        (''pii_flags'', VStrs (rc_PIIFlags chunk)), (''quarantined'', VBool (rc_Quarantined chunk))] extra"

definition outcomeToRAGChunkDecision :: "string \<Rightarrow> string" where
  "outcomeToRAGChunkDecision outcome =
     (let o1 = normalizeOutcome outcome in
      if o1 \<in> {''deny'', ''sandbox''} then ''reject'' else if o1 = ''redact'' then ''redact'' else ''allow'')"

definition ragChunkDecisionRank :: "string \<Rightarrow> nat" where
  "ragChunkDecisionRank decision =
     (let d = ToLower (TrimSpace decision) in
      if d = ''quarantine'' then 4 else if d = ''reject'' then 3 else if d = ''redact'' then 2 else 1)"

definition chunk_only :: "Finding \<Rightarrow> bool" where
  "chunk_only f = boolValue (f_Details f) ''chunk_decision_only'' False"

definition reconcile_step :: "(rat \<Rightarrow> string) \<Rightarrow> nat \<times> ragChunkOutcome \<Rightarrow> Finding \<Rightarrow> nat \<times> ragChunkOutcome" where
  "reconcile_step ff st f =
     (let (bestRank, outcome) = st in
      if \<not> chunk_only f then st
      else if TrimSpace (stringValue ff (f_Details f) [''chunk_id'']) \<noteq> TrimSpace (ro_ChunkID outcome) then st
      else
        (let decision0 = TrimSpace (stringValue ff (f_Details f) [''chunk_decision'']);
             decision = (if decision0 = [] then outcomeToRAGChunkDecision (f_Outcome f) else decision0);
             rank = ragChunkDecisionRank decision;
             (best1, o1) = (if rank > bestRank then (rank, outcome\<lparr>ro_Decision := decision, ro_Reason := f_Summary f\<rparr>) else (bestRank, outcome))
         in (best1, if TrimSpace (ro_Reason o1) = [] \<and> decision = ro_Decision o1 then o1\<lparr>ro_Reason := f_Summary f\<rparr> else o1)))"

definition reconcileRAGChunkOutcome :: "(rat \<Rightarrow> string) \<Rightarrow> ragChunkOutcome \<Rightarrow> Finding list \<Rightarrow> ragChunkOutcome" where
  "reconcileRAGChunkOutcome ff outcome findings =
     (let o1 = snd (foldl (reconcile_step ff) (ragChunkDecisionRank (ro_Decision outcome), outcome) findings) in
      if ro_Decision o1 = ''redact'' \<and> TrimSpace (ro_SanitizedContent o1) = [] then o1\<lparr>ro_SanitizedContent := ''[REDACTED]''\<rparr> else o1)"

definition compactRAGContent :: "string \<Rightarrow> nat \<Rightarrow> string" where
  "compactRAGContent value0 limit =
     (let value = Join (Fields (TrimSpace value0)) '' '' in
      if limit = 0 \<or> length value \<le> limit then value else TrimSpace (take limit value) @ ''...'')"

definition chunk_request :: "ragChunkInput \<Rightarrow> EvaluateRequest \<Rightarrow> EvaluateRequest" where
  "chunk_request chunk request =
     request\<lparr>req_Content := \<lparr>Input = rc_Content chunk, Output = [], ToolInput = [], Attachments = []\<rparr>,
       req_Metadata := AList.update ''rag_chunk'' (VMap
         [(''chunk_id'', VStr (rc_ChunkID chunk)), (''document_id'', VStr (rc_DocumentID chunk)),
          (''document_version'', VStr (rc_DocumentVersion chunk)), (''offset_start'', VInt (rc_OffsetStart chunk)),
          (''offset_end'', VInt (rc_OffsetEnd chunk)), (''acl_tags'', VStrs (rc_ACLTags chunk)), (''labels'', VStrs (rc_Labels chunk)),
          (''trust_score'', VInt (rc_TrustScore chunk)), (''injection_score'', VInt (rc_InjectionScore chunk)),
          (''pii_flags'', VStrs (rc_PIIFlags chunk)), (''source_id'', VStr (rc_SourceID chunk)), (''source_name'', VStr (rc_SourceName chunk)),
          (''source_health'', VStr (rc_SourceHealth chunk)), (''quarantined'', VBool (rc_Quarantined chunk))]) (req_Metadata request)\<rparr>"

definition chunk_outcome :: "ragChunkInput \<Rightarrow> ragChunkOutcome" where
  "chunk_outcome chunk =
     \<lparr>ro_ChunkID = rc_ChunkID chunk, ro_DocumentID = rc_DocumentID chunk, ro_DocumentVersion = rc_DocumentVersion chunk,
      ro_ContentPreview = compactRAGContent (rc_Content chunk) 180, ro_OffsetStart = rc_OffsetStart chunk, ro_OffsetEnd = rc_OffsetEnd chunk,
      ro_TrustScore = rc_TrustScore chunk, ro_InjectionScore = rc_InjectionScore chunk, ro_PIIFlags = rc_PIIFlags chunk,
      ro_SourceID = rc_SourceID chunk, ro_SourceName = rc_SourceName chunk, ro_SourceHealth = rc_SourceHealth chunk,
      ro_Quarantined = rc_Quarantined chunk, ro_Decision = ''allow'', ro_Reason = [], ro_PolicyHits = [], ro_SanitizedContent = [],
      ro_CitationRequired = False\<rparr>"

text \<open>What the policies have said of a chunk so far.\<close>

record rag_state =
  rs_outcome :: ragChunkOutcome
  rs_findings :: "Finding list"
  rs_chain :: "string list"
  rs_quarantine :: "string list"
  rs_hits :: "string list"

definition rag_finding :: "PolicyBundle \<Rightarrow> string \<Rightarrow> string \<Rightarrow> rat \<Rightarrow> string \<Rightarrow> string \<Rightarrow> gomap \<Rightarrow> Finding" where
  "rag_finding policy category severity confidence outcome summary details =
     policy_finding policy category severity confidence outcome summary details"

text \<open>
  A test of the policy loop on a chunk: its condition, the category, severity and confidence of its finding, the decision it
  asks for, its summary and the additional details.
\<close>

type_synonym rag_test = "bool \<times> string \<times> string \<times> rat \<times> string \<times> string \<times> gomap"

text \<open>A test that applies adds a finding on the chunk alone, and its decision when the chunk is still allowed.\<close>

definition rag_flag :: "PolicyBundle \<Rightarrow> ragChunkInput \<Rightarrow> rag_state \<Rightarrow> rag_test \<Rightarrow> rag_state" where
  "rag_flag policy chunk st test =
     (let (applies, category, severity, confidence, decision, summary, extra) = test in
      if \<not> applies then st
      else
        (let f = rag_finding policy category severity confidence ''allow'' summary
               (buildRAGFindingDetails chunk ([(''chunk_decision_only'', VBool True), (''chunk_decision'', VStr decision)] @ extra));
             oc = rs_outcome st in
         st\<lparr>rs_findings := rs_findings st @ [f],
            rs_outcome := (if ro_Decision oc = ''allow'' \<or> decision = ''quarantine''
              then oc\<lparr>ro_Decision := decision, ro_Reason := summary\<rparr> else oc)\<rparr>))"

definition rag_tests :: "guard_env \<Rightarrow> ragPolicyDirectives \<Rightarrow> ragChunkInput \<Rightarrow> rag_test list" where
  "rag_tests g d chunk =
     (let rx = env_rx (g_checks g); source = defaultString (rc_SourceName chunk) (rc_SourceID chunk);
          blocked = blockedPatternRegexp rx (blockedPatterns d) in
      [(rc_Quarantined chunk, ''source_quarantine'', ''critical'', 97 / 100, ''quarantine'', ''Retrieved source '' @ source @ '' is quarantined'', []),
       (trustedSourceIDs d \<noteq> [] \<and> rc_SourceID chunk \<noteq> [] \<and> \<not> containsNormalizedValue (trustedSourceIDs d) (rc_SourceID chunk),
        ''trusted_source_miss'', ''high'', 94 / 100, ''reject'', ''Retrieved source '' @ source @ '' is outside the trusted source inventory'',
        [(''trusted_source_ids'', VStrs (trustedSourceIDs d))]),
       (minTrustScore d > 0 \<and> rc_TrustScore chunk > 0 \<and> rc_TrustScore chunk < minTrustScore d,
        ''source_trust'', ''high'', 90 / 100, ''reject'',
        ''Retrieved chunk trust score '' @ show_int (rc_TrustScore chunk) @ '' is below the required threshold '' @ show_int (minTrustScore d),
        [(''min_trust_score'', VInt (minTrustScore d))]),
       (maxInjectionScore d > 0 \<and> rc_InjectionScore chunk > maxInjectionScore d,
        ''rag_injection_score'', ''critical'', 95 / 100, ''reject'',
        ''Retrieved chunk injection score '' @ show_int (rc_InjectionScore chunk) @ '' exceeds the configured maximum '' @ show_int (maxInjectionScore d),
        [(''max_injection_score'', VInt (maxInjectionScore d))]),
       (blockOnPII d \<and> rc_PIIFlags chunk \<noteq> [], ''rag_pii'', ''high'', 95 / 100, ''redact'',
        ''Retrieved chunk contains flagged PII and must be sanitized'', []),
       (case blocked of None \<Rightarrow> False | Some u \<Rightarrow> rx_Match rx u (rc_Content chunk), ''rag_blocked_pattern'', ''high'', 93 / 100, ''reject'',
        ''Retrieved chunk matched a blocked pattern'',
        [(''matches'', VStrs (case blocked of None \<Rightarrow> [] | Some u \<Rightarrow> rx_FindAll rx u (rc_Content chunk)))])])"

definition rag_block :: "PolicyBundle \<Rightarrow> ragChunkInput \<Rightarrow> string \<Rightarrow> string \<Rightarrow> string \<Rightarrow> gomap \<Rightarrow> rag_state \<Rightarrow> rag_state" where
  "rag_block policy chunk category severity summary extra st =
     st\<lparr>rs_findings := rs_findings st @ [rag_finding policy category severity (92 / 100) (normalizeOutcomeForPolicy policy ''deny'') summary
          (buildRAGFindingDetails chunk ((''request_level'', VBool True) # extra))]\<rparr>"

definition rag_policy :: "guard_env \<Rightarrow> ragChunkInput \<Rightarrow> EvaluateRequest \<Rightarrow> rag_state \<Rightarrow> PolicyBundle \<Rightarrow> rag_state" where
  "rag_policy g chunk request st policy =
     (let ff = env_float (g_checks g); d = ragDirectives ff policy in
      if \<not> ragPolicyAppliesToRequest ff d request then
        (if requireApproval d
         then (rag_block policy chunk ''rag_access_scope'' (normalizeSeverity (defaultString [] ''high''))
                (''RAG access is blocked for actor role '' @ defaultString (actor_Role (req_Actor request)) ''unknown'' @ '' or app '' @
                  defaultString (app_name ff (req_Metadata request)) ''unknown'')
                [(''allowed_roles'', VStrs (allowedRoles d)), (''allowed_apps'', VStrs (allowedApps d))] st)
              \<lparr>rs_chain := rs_chain st @ [Name policy @ '' blocked a restricted RAG request'']\<rparr>
         else st)
      else
        (let s0 = st\<lparr>rs_hits := (if TrimSpace (Name policy) = [] then rs_hits st else rs_hits st @ [TrimSpace (Name policy)])\<rparr>;
             s1 = (if requireApproval d then rag_block policy chunk ''rag_restricted_access'' ''high''
                     ''RAG policy blocks retrieved content that was previously marked as approval-only'' [] s0 else s0);
             s2 = (if rc_Quarantined chunk \<and> rc_SourceID chunk \<noteq> [] then s1\<lparr>rs_quarantine := rs_quarantine s1 @ [rc_SourceID chunk]\<rparr> else s1);
             s3 = foldl (rag_flag policy chunk) s2 (rag_tests g d chunk)
         in (if citationRequired d then s3\<lparr>rs_outcome := (rs_outcome s3)\<lparr>ro_CitationRequired := True\<rparr>\<rparr> else s3)))"

definition tag_findings :: "ragChunkInput \<Rightarrow> Finding list \<Rightarrow> Finding list" where
  "tag_findings chunk fs =
     map (\<lambda>f. f\<lparr>f_Details := buildRAGFindingDetails chunk (mergeMaps (f_Details f)
       [(''chunk_decision_only'', VBool True), (''chunk_decision'', VStr (outcomeToRAGChunkDecision (f_Outcome f)))])\<rparr>) fs"

text \<open>A sanitized text turns an allowed chunk into a redacted one.\<close>

definition sanitize_outcome :: "ragChunkInput \<Rightarrow> string \<Rightarrow> string \<Rightarrow> ragChunkOutcome \<Rightarrow> ragChunkOutcome" where
  "sanitize_outcome chunk sanitized reason oc =
     (if TrimSpace sanitized \<noteq> [] \<and> sanitized \<noteq> rc_Content chunk \<and> ro_Decision oc = ''allow''
      then oc\<lparr>ro_Decision := ''redact'', ro_SanitizedContent := sanitized, ro_Reason := reason\<rparr> else oc)"

text \<open>The end of a chunk: precomputed flags, shadow mode, and the findings once more.\<close>

definition finish_outcome :: "(rat \<Rightarrow> string) \<Rightarrow> ragChunkInput \<Rightarrow> bool \<Rightarrow> string list \<Rightarrow> Finding list \<Rightarrow> ragChunkOutcome \<Rightarrow> ragChunkOutcome" where
  "finish_outcome ff chunk shadow hits findings oc =
     (let o1 = (if ro_Decision oc = ''allow'' \<and> rc_PIIFlags chunk \<noteq> []
                then oc\<lparr>ro_Decision := ''redact'', ro_Reason := ''Chunk contains precomputed PII flags''\<rparr> else oc);
          o2 = (if shadow then o1\<lparr>ro_Decision := ''allow'',
                  ro_Reason := (if TrimSpace (ro_Reason o1) = [] then ''Shadow mode captured a non-blocking RAG evaluation'' else ro_Reason o1)\<rparr> else o1)
      in reconcileRAGChunkOutcome ff (o2\<lparr>ro_PolicyHits := sort (remdups hits)\<rparr>) findings)"

definition evaluateRAGChunk ::
  "guard_env \<Rightarrow> TenantBundle option \<Rightarrow> PolicyBundle list \<Rightarrow> EvaluateRequest \<Rightarrow> ragChunkInput \<Rightarrow> bool \<Rightarrow> GuardRuntime \<Rightarrow> ragChunkEval \<times> GuardRuntime" where
  "evaluateRAGChunk g bundle0 policies request chunk shadow r =
     (let ff = env_float (g_checks g);
          req = chunk_request chunk request;
          st = foldl (rag_policy g chunk req)
                 \<lparr>rs_outcome = chunk_outcome chunk, rs_findings = [], rs_chain = [], rs_quarantine = [], rs_hits = []\<rparr> policies;
          pk = evaluateRuntimeCheckPolicies (g_checks g) policies req;
          o1 = sanitize_outcome chunk (acc_input pk) ''Chunk content sanitized by runtime guardrail check'' (rs_outcome st);
          (lc, r1) = evaluateLocalPolicies g policies req r;
          o2 = sanitize_outcome chunk (acc_input lc) ''Chunk content sanitized by local RAG policy'' o1;
          (pf, pc) = (case bundle0 of Some b \<Rightarrow> evaluateProviderBindings g r1 False b policies req | None \<Rightarrow> ([], []));
          findings = rs_findings st @ tag_findings chunk (acc_findings pk) @ tag_findings chunk (acc_findings lc) @ tag_findings chunk pf
      in (\<lparr>re_outcomes = [finish_outcome ff chunk shadow (rs_hits st) findings o2], re_findings = findings,
           re_redactions = acc_redactions pk @ acc_redactions lc, re_chain = rs_chain st @ acc_chain pk @ acc_chain lc @ pc,
           re_quarantine = rs_quarantine st\<rparr>, r1))"

fun rag_chunks ::
  "guard_env \<Rightarrow> TenantBundle option \<Rightarrow> PolicyBundle list \<Rightarrow> EvaluateRequest \<Rightarrow> bool \<Rightarrow> ragChunkInput list \<Rightarrow> GuardRuntime \<Rightarrow> ragChunkEval list \<times> GuardRuntime" where
  "rag_chunks g bundle0 policies request shadow [] r = ([], r)"
| "rag_chunks g bundle0 policies request shadow (chunk # chunks) r =
     (let (evaluation, r1) = evaluateRAGChunk g bundle0 policies request chunk shadow r;
          (rest, r2) = rag_chunks g bundle0 policies request shadow chunks r1
      in (evaluation # rest, r2))"

definition evaluateRAGChunks ::
  "guard_env \<Rightarrow> TenantBundle option \<Rightarrow> PolicyBundle list \<Rightarrow> EvaluateRequest \<Rightarrow> ragChunkInput list \<Rightarrow> GuardRuntime \<Rightarrow> ragChunkEval \<times> GuardRuntime" where
  "evaluateRAGChunks g bundle0 policies request chunks r =
     (let (es, r1) = rag_chunks g bundle0 policies request (collectRAGChunkDirectives (env_float (g_checks g)) policies) chunks r
      in (\<lparr>re_outcomes = concat (map re_outcomes es), re_findings = concat (map re_findings es), re_redactions = concat (map re_redactions es),
           re_chain = concat (map re_chain es), re_quarantine = remdups (concat (map re_quarantine es))\<rparr>, r1))"

section \<open>The decision\<close>

definition first_summary :: "string \<Rightarrow> Finding list \<Rightarrow> string" where
  "first_summary outcome fs =
     (case filter (\<lambda>f. \<not> chunk_only f \<and> normalizeOutcome (f_Outcome f) = outcome \<and> f_Summary f \<noteq> []) fs of [] \<Rightarrow> [] | f # _ \<Rightarrow> f_Summary f)"

definition resolveRAGDecision :: "Finding list \<Rightarrow> string list \<Rightarrow> ragChunkOutcome list \<Rightarrow> string \<times> bool \<times> string" where
  "resolveRAGDecision findings redactions outcomes =
     (let allowedChunks = length (filter (\<lambda>oc. ro_Decision oc \<in> {''allow'', ''redact''}) outcomes);
          rejectedChunks = length (filter (\<lambda>oc. ro_Decision oc \<in> {''reject'', ''quarantine''}) outcomes);
          anyRedaction = (list_ex (\<lambda>oc. ro_Decision oc = ''redact'') outcomes \<or> list_ex (\<lambda>f. normalizeOutcome (f_Outcome f) = ''redact'') findings);
          denySummary = first_summary ''deny'' findings;
          sandboxSummary = first_summary ''sandbox'' findings in
      if denySummary \<noteq> [] then (''deny'', False, denySummary)
      else if sandboxSummary \<noteq> [] then (''sandbox'', False, sandboxSummary)
      else if outcomes \<noteq> [] \<and> allowedChunks = 0 \<and> rejectedChunks > 0 then (''deny'', False, ''All retrieved chunks were rejected by RAG guardrails'')
      else if anyRedaction \<or> redactions \<noteq> [] then (''allow_with_redaction'', False, ''Retrieved content was sanitized by RAG guardrails'')
      else (''allow'', False, ''RAG content passed guardrail evaluation''))"

section \<open>The stage\<close>

definition filterRAGOutcomes :: "ragChunkOutcome list \<Rightarrow> string list \<Rightarrow> ragChunkOutcome list" where
  "filterRAGOutcomes outcomes decisions =
     filter (\<lambda>oc. ToLower (TrimSpace (ro_Decision oc)) \<in> set (map (\<lambda>d. ToLower (TrimSpace d)) decisions)) outcomes"

definition ragOutcomesToAny :: "ragChunkOutcome list \<Rightarrow> goval" where
  "ragOutcomesToAny outcomes =
     VList (map (\<lambda>oc. VMap
       [(''chunk_id'', VStr (ro_ChunkID oc)), (''document_id'', VStr (ro_DocumentID oc)), (''document_version'', VStr (ro_DocumentVersion oc)),
        (''content_preview'', VStr (ro_ContentPreview oc)), (''offset_start'', VInt (ro_OffsetStart oc)), (''offset_end'', VInt (ro_OffsetEnd oc)),
        (''trust_score'', VInt (ro_TrustScore oc)), (''injection_score'', VInt (ro_InjectionScore oc)), (''pii_flags'', VStrs (ro_PIIFlags oc)),
        (''source_id'', VStr (ro_SourceID oc)), (''source_name'', VStr (ro_SourceName oc)), (''source_health'', VStr (ro_SourceHealth oc)),
        (''quarantined'', VBool (ro_Quarantined oc)), (''decision'', VStr (ro_Decision oc)), (''reason'', VStr (ro_Reason oc)),
        (''policy_hits'', VStrs (ro_PolicyHits oc)), (''sanitized_content'', VStr (ro_SanitizedContent oc)),
        (''citation_required'', VBool (ro_CitationRequired oc))]) outcomes)"

fun first_ids :: "string list \<Rightarrow> Finding list \<Rightarrow> string list" where
  "first_ids seen [] = []"
| "first_ids seen (f # fs) =
     (if TrimSpace (f_PolicyID f) = [] \<or> f_PolicyID f \<in> set seen then first_ids seen fs else f_PolicyID f # first_ids (f_PolicyID f # seen) fs)"

definition collectRAGPolicyHits :: "Finding list \<Rightarrow> string list" where
  "collectRAGPolicyHits findings = sort (first_ids [] findings)"

definition anyRAGCitationRequired :: "ragChunkOutcome list \<Rightarrow> bool" where
  "anyRAGCitationRequired outcomes = list_ex ro_CitationRequired outcomes"

definition ragCitations :: "ragChunkOutcome list \<Rightarrow> goval" where
  "ragCitations outcomes =
     VList (map (\<lambda>oc. VMap
       [(''source_id'', VStr (ro_SourceID oc)), (''source_name'', VStr (ro_SourceName oc)), (''document_id'', VStr (ro_DocumentID oc)),
        (''document_version'', VStr (ro_DocumentVersion oc)), (''chunk_id'', VStr (ro_ChunkID oc)), (''offset_start'', VInt (ro_OffsetStart oc)),
        (''offset_end'', VInt (ro_OffsetEnd oc))])
       (filter (\<lambda>oc. ro_CitationRequired oc \<and> \<not> EqualFold (ro_Decision oc) ''reject'' \<and> \<not> EqualFold (ro_Decision oc) ''quarantine'') outcomes))"

definition mapKeysSorted :: "string list \<Rightarrow> string list" where
  "mapKeysSorted keys = sort (filter (\<lambda>key. TrimSpace key \<noteq> []) keys)"

definition rag_metadata :: "guard_env \<Rightarrow> EvaluateRequest \<Rightarrow> Finding list \<Rightarrow> ragChunkEval \<Rightarrow> gomap" where
  "rag_metadata g request findings ce =
     (let ff = env_float (g_checks g); md = req_Metadata request; ocs = re_outcomes ce in
      [(''rag'', VMap
         [(''query'', VStr (TrimSpace (Input (req_Content request)))), (''app_name'', VStr (app_name ff md)),
          (''agent_name'', VStr (metadataString ff md [''agent_name'', ''agent''])), (''source_id'', VStr (metadataString ff md [''source_id''])),
          (''source_name'', VStr (metadataString ff md [''source_name''])), (''retrieved_chunks'', ragOutcomesToAny ocs),
          (''rejected_chunks'', ragOutcomesToAny (filterRAGOutcomes ocs [''reject'', ''quarantine''])),
          (''allowed_chunks'', ragOutcomesToAny (filterRAGOutcomes ocs [''allow'', ''redact''])),
          (''redacted_chunks'', ragOutcomesToAny (filterRAGOutcomes ocs [''redact''])),
          (''quarantine_sources'', VStrs (mapKeysSorted (re_quarantine ce))), (''policy_hits'', VStrs (collectRAGPolicyHits findings)),
          (''citation_required'', VBool (anyRAGCitationRequired ocs)), (''citations'', ragCitations ocs),
          (''requester'', VStr (actor_ID (req_Actor request))), (''requester_role'', VStr (actor_Role (req_Actor request))),
          (''runtime_evaluated_at'', VStr (g_now g))])])"

definition evaluateRAG ::
  "guard_env \<Rightarrow> TenantBundle option \<Rightarrow> PolicyBundle list \<Rightarrow> EvaluateRequest \<Rightarrow> EvaluateResponse \<Rightarrow> GuardRuntime \<Rightarrow> EvaluateResponse \<times> GuardRuntime" where
  "evaluateRAG g bundle0 policies request response r =
     (let (compiled, r1) = compileRuntimePolicies g ''rag'' policies r;
          c = req_Content request;
          pk = evaluateRuntimeCheckPolicies (g_checks g) compiled request;
          changedIn = (TrimSpace (acc_input pk) \<noteq> [] \<and> acc_input pk \<noteq> Input c);
          changedOut = (TrimSpace (acc_output pk) \<noteq> [] \<and> acc_output pk \<noteq> Output c);
          c1 = c\<lparr>Input := (if changedIn then acc_input pk else Input c), Output := (if changedOut then acc_output pk else Output c)\<rparr>;
          (lc, r2) = evaluateLocalPolicies g compiled (request\<lparr>req_Content := c1\<rparr>) r1;
          sanitizedInput = (if acc_input lc \<noteq> Input c1 then acc_input lc else if changedIn then acc_input pk else SanitizedInput response);
          sanitizedOutput = (if acc_output lc \<noteq> Output c1 then acc_output lc else if changedOut then acc_output pk else SanitizedOutput response);
          c2 = c1\<lparr>Input := (if acc_input lc \<noteq> Input c1 then acc_input lc else Input c1),
                 Output := (if acc_output lc \<noteq> Output c1 then acc_output lc else Output c1)\<rparr>;
          sanitizedRequest = request\<lparr>req_Content := c2\<rparr>;
          (pf, pc) = (case bundle0 of Some b \<Rightarrow> evaluateProviderBindings g r2 False b compiled sanitizedRequest | None \<Rightarrow> ([], []));
          chunks = extractRAGChunks (env_float (g_checks g)) bundle0 sanitizedRequest;
          (ce, r3) = evaluateRAGChunks g bundle0 compiled sanitizedRequest chunks r2;
          findings = Findings response @ acc_findings pk @ acc_findings lc @ pf @ re_findings ce;
          redactions = Redactions response @ acc_redactions pk @ acc_redactions lc @ re_redactions ce;
          (decision, approval, reason) = resolveRAGDecision findings redactions (re_outcomes ce)
      in (response\<lparr>Findings := findings, Redactions := redactions,
            DecisionChain := DecisionChain response @ acc_chain pk @ acc_chain lc @ pc @ re_chain ce,
            SanitizedInput := sanitizedInput, SanitizedOutput := sanitizedOutput,
            resp_Metadata := rag_metadata g sanitizedRequest findings ce,
            Decision := decision, ApprovalRequired := approval, Reason := reason\<rparr>, r3))"

end
