(* ===== verification/GuardEntry.thy ===== *)
theory GuardEntry
  imports GuardRAG
begin

text \<open>
  The entry points of the guard runtime, \<open>Evaluate\<close> and \<open>EvaluateFastOnly\<close> of \<^verbatim>\<open>internal/engine/engine.go\<close>.

  The four evaluation paths of \<open>Evaluate\<close> run as goroutines and are joined before their results are merged; they are
  run one after the other here, which is one of their orders: they share only the caches, in which the check loop and
  the rule evaluation use different keys.
\<close>

section \<open>The entry points\<close>

definition empty_response :: "string \<Rightarrow> EvaluateResponse" where
  "empty_response entry =
     \<lparr>Decision = ''allow'', Reason = ''No guardrail violations detected'', ApprovalRequired = False, Redactions = [],
      SanitizedInput = [], SanitizedOutput = [], Findings = [], DecisionChain = [entry], resp_Metadata = []\<rparr>"

text \<open>The check loop works on the caches of the runtime; the rest of the runtime is not touched by it.\<close>

definition portkey_path :: "guard_env \<Rightarrow> PolicyBundle list \<Rightarrow> EvaluateRequest \<Rightarrow> GuardRuntime \<Rightarrow> check_acc \<times> GuardRuntime" where
  "portkey_path g policies request r =
     (case evaluateRuntimeChecksWithRuntime (g_checks g) (Some r) policies request of
        (acc, Some r') \<Rightarrow> (acc, r')
      | (acc, None) \<Rightarrow> (acc, r))"

definition EvaluateFastOnly :: "guard_env \<Rightarrow> EvaluateRequest \<Rightarrow> GuardRuntime \<Rightarrow> EvaluateResponse \<times> GuardRuntime" where
  "EvaluateFastOnly g request0 r =
     (let request = g_extract g request0;
          response = empty_response ''deepintshield_guard fast-only evaluation'';
          policies = fast_policies (env_float (g_checks g)) (lookupTenantBundle r (req_TenantID request)) request in
      if policies = [] then (response, r)
      else
        (let (compiled, r1) = compileRuntimePolicies g (req_Stage request) policies r;
             (pk, r2) = portkey_path g compiled request r1;
             (lc, r3) = evaluateLocalPolicies g compiled request r2;
             findings = acc_findings pk @ acc_findings lc;
             redactions = acc_redactions pk @ acc_redactions lc;
             c = req_Content request;
             (decision, approval, reason) = resolveDecision findings redactions
         in (response\<lparr>Findings := findings, Redactions := redactions,
               DecisionChain := DecisionChain response @ acc_chain pk @ acc_chain lc,
               SanitizedInput := (if TrimSpace (acc_input pk) \<noteq> [] \<and> acc_input pk \<noteq> Input c then acc_input pk
                                  else if acc_input lc \<noteq> Input c then acc_input lc else []),
               SanitizedOutput := (if TrimSpace (acc_output pk) \<noteq> [] \<and> acc_output pk \<noteq> Output c then acc_output pk
                                   else if acc_output lc \<noteq> Output c then acc_output lc else []),
               Decision := decision, ApprovalRequired := approval, Reason := reason\<rparr>, r3)))"

text \<open>The slow paths: MCP tool policies, provider bindings, modality detectors.\<close>

definition slow_paths ::
  "guard_env \<Rightarrow> GuardRuntime \<Rightarrow> bool \<Rightarrow> TenantBundle option \<Rightarrow> PolicyBundle list \<Rightarrow> EvaluateRequest \<Rightarrow> Finding list \<times> string list" where
  "slow_paths g r cancelled bundle0 compiled request =
     (let (mf, mc) = (case bundle0 of Some b \<Rightarrow> evaluateMCPToolPolicies (tb_MCPToolPolicies b) request | None \<Rightarrow> ([], []));
          (pf, pc) = (case bundle0 of Some b \<Rightarrow> evaluateProviderBindings g r cancelled b compiled request | None \<Rightarrow> ([], []));
          (df, dc) = g_modality g cancelled request
      in (mf @ pf @ df, mc @ pc @ dc))"

definition Evaluate :: "guard_env \<Rightarrow> EvaluateRequest \<Rightarrow> GuardRuntime \<Rightarrow> EvaluateResponse \<times> GuardRuntime" where
  "Evaluate g request0 r =
     (let request = g_extract g request0;
          bundle0 = lookupTenantBundle r (req_TenantID request);
          (policies, chain) = full_policies (env_float (g_checks g)) defaultDefinition bundle0 request;
          response0 = empty_response ''deepintshield_guard runtime evaluation'';
          response = response0\<lparr>DecisionChain := DecisionChain response0 @ chain\<rparr>;
          (compiled, r1) = compileRuntimePolicies g (req_Stage request) policies r in
      if NormalizeStage (req_Stage request) = ''rag'' then evaluateRAG g bundle0 policies request response r1
      else
        (let (pk, r2) = portkey_path g compiled request r1;
             (lc, r3) = evaluateLocalPolicies g compiled request r2;
             fastDecided = hasGatingDeny (acc_findings pk) \<or> hasGatingDeny (acc_findings lc);
             (sf, sc) = slow_paths g r3 fastDecided bundle0 compiled request;
             findings = acc_findings pk @ acc_findings lc @ sf;
             redactions = acc_redactions pk @ acc_redactions lc;
             c = req_Content request;
             (decision, approval, reason) = resolveDecision findings redactions
         in (response\<lparr>Findings := findings, Redactions := redactions,
               DecisionChain := DecisionChain response @ acc_chain pk @ acc_chain lc @ sc,
               Decision := decision, ApprovalRequired := approval, Reason := reason,
               SanitizedInput := (if acc_input lc \<noteq> Input c then acc_input lc
                                  else if TrimSpace (acc_input pk) \<noteq> [] \<and> acc_input pk \<noteq> Input c then acc_input pk else []),
               SanitizedOutput := (if acc_output lc \<noteq> Output c then acc_output lc
                                   else if TrimSpace (acc_output pk) \<noteq> [] \<and> acc_output pk \<noteq> Output c then acc_output pk else [])\<rparr>, r3)))"

end
