(* ===== verification/GuardDecision.thy ===== *)
theory GuardDecision
  imports GuardEntry
begin

text \<open>
  The decision of the guard runtime is the worst outcome among the findings, with the summary of the first finding that has
  it, and does not depend on the order of the other findings.
\<close>

section \<open>The worst finding\<close>

definition rank_of :: "Finding \<Rightarrow> nat" where
  "rank_of f = severityRank (normalizeOutcome (f_Outcome f))"

lemma rank_of_iff:
  "rank_of f = 3 \<longleftrightarrow> normalizeOutcome (f_Outcome f) = ''deny''"
  "rank_of f = 2 \<longleftrightarrow> normalizeOutcome (f_Outcome f) = ''sandbox''"
  "rank_of f = 1 \<longleftrightarrow> normalizeOutcome (f_Outcome f) = ''redact''"
  by (auto simp: rank_of_def severityRank_def)

lemma rank_of_le: "rank_of f \<le> 3"
  by (simp add: rank_of_def severityRank_def)

lemma best_finding_ge: "n \<le> fst (best_finding b fs) \<longleftrightarrow> n \<le> fst b \<or> (\<exists>f \<in> set fs. n \<le> rank_of f)"
proof (induction fs arbitrary: b)
  case Nil
  then show ?case by simp
next
  case (Cons f fs)
  show ?case by (auto simp: Cons rank_of_def Let_def)
qed

lemma best_finding_le3: "fst b \<le> 3 \<Longrightarrow> fst (best_finding b fs) \<le> 3"
  by (induction fs arbitrary: b) (auto simp: Let_def severityRank_def)

lemma best_finding_eq:
  "fst (best_finding (0, []) fs) = 3 \<longleftrightarrow> (\<exists>f \<in> set fs. rank_of f = 3)"
  "fst (best_finding (0, []) fs) = 2 \<longleftrightarrow> (\<nexists>f. f \<in> set fs \<and> rank_of f = 3) \<and> (\<exists>f \<in> set fs. rank_of f = 2)"
  "fst (best_finding (0, []) fs) = 1 \<longleftrightarrow> (\<nexists>f. f \<in> set fs \<and> rank_of f \<ge> 2) \<and> (\<exists>f \<in> set fs. rank_of f = 1)"
proof -
  let ?b = "fst (best_finding (0, []) fs)"
  have ge: "n \<le> ?b \<longleftrightarrow> n = 0 \<or> (\<exists>f \<in> set fs. n \<le> rank_of f)" for n using best_finding_ge [of n "(0, [])" fs] by simp
  have le: "?b \<le> 3" by (rule best_finding_le3) simp
  have r3: "3 \<le> rank_of f \<longleftrightarrow> rank_of f = 3" for f using rank_of_le [of f] by auto
  show "?b = 3 \<longleftrightarrow> (\<exists>f \<in> set fs. rank_of f = 3)" using ge [of 3] le r3 by auto
  have b2: "?b = 2 \<longleftrightarrow> 2 \<le> ?b \<and> \<not> 3 \<le> ?b" by auto
  have r2: "2 \<le> rank_of f \<longleftrightarrow> rank_of f = 2 \<or> rank_of f = 3" for f using rank_of_le [of f] by auto
  show "?b = 2 \<longleftrightarrow> (\<nexists>f. f \<in> set fs \<and> rank_of f = 3) \<and> (\<exists>f \<in> set fs. rank_of f = 2)"
    unfolding b2 ge r3 r2 by auto
  have b1: "?b = 1 \<longleftrightarrow> 1 \<le> ?b \<and> \<not> 2 \<le> ?b" by auto
  have r1: "1 \<le> rank_of f \<longleftrightarrow> rank_of f = 1 \<or> 2 \<le> rank_of f" for f by auto
  show "?b = 1 \<longleftrightarrow> (\<nexists>f. f \<in> set fs \<and> rank_of f \<ge> 2) \<and> (\<exists>f \<in> set fs. rank_of f = 1)"
    unfolding b1 ge r1 by auto
qed

lemma best_finding_summary:
  "fst (best_finding b fs) > fst b \<Longrightarrow>
     snd (best_finding b fs) = f_Summary (hd (filter (\<lambda>f. rank_of f = fst (best_finding b fs)) fs))"
proof (induction fs arbitrary: b)
  case Nil
  then show ?case by simp
next
  case (Cons f fs)
  let ?b = "if rank_of f > fst b then (rank_of f, f_Summary f) else b"
  have step: "best_finding b (f # fs) = best_finding ?b fs" by (simp add: rank_of_def Let_def)
  have ge: "fst ?b \<le> fst (best_finding ?b fs)" using best_finding_ge [of "fst ?b" ?b fs] by simp
  show ?case
  proof (cases "fst (best_finding ?b fs) > fst ?b")
    case True
    then have "rank_of f \<noteq> fst (best_finding ?b fs)" by (auto split: if_splits)
    with Cons.IH [OF True] step show ?thesis by simp
  next
    case False
    then have eq: "fst (best_finding ?b fs) = fst ?b" using ge by simp
    with Cons.prems step have new: "rank_of f > fst b" by (auto split: if_splits)
    have "best_finding c gs = c" if "fst (best_finding c gs) = fst c" for c gs
      using that
    proof (induction gs arbitrary: c)
      case (Cons g gs)
      let ?c = "if rank_of g > fst c then (rank_of g, f_Summary g) else c"
      have s: "best_finding c (g # gs) = best_finding ?c gs" by (simp add: rank_of_def Let_def)
      have "fst ?c \<le> fst (best_finding ?c gs)" using best_finding_ge [of "fst ?c" ?c gs] by simp
      with Cons.prems s have "?c = c" by (auto split: if_splits)
      with Cons s show ?case by metis
    qed simp
    from this [OF eq] new step show ?thesis by simp
  qed
qed

definition worst_decision :: "Finding list \<Rightarrow> string list \<Rightarrow> string" where
  "worst_decision fs rs =
     (if \<exists>f \<in> set fs. normalizeOutcome (f_Outcome f) = ''deny'' then ''deny''
      else if \<exists>f \<in> set fs. normalizeOutcome (f_Outcome f) = ''sandbox'' then ''sandbox''
      else if (\<exists>f \<in> set fs. normalizeOutcome (f_Outcome f) = ''redact'') \<or> rs \<noteq> [] then ''allow_with_redaction''
      else ''allow'')"

lemma resolve_worst: "fst (resolveDecision fs rs) = worst_decision fs rs"
proof -
  let ?b = "fst (best_finding (0, []) fs)"
  have "2 \<le> rank_of f \<longleftrightarrow> rank_of f = 2 \<or> rank_of f = 3" for f using rank_of_le [of f] by auto
  then show ?thesis
    using best_finding_eq [of fs]
    by (cases "best_finding (0, []) fs") (auto simp: resolveDecision_def worst_decision_def rank_of_iff rank_of_iff(3) [unfolded One_nat_def])
qed

text \<open>
  C14. The decision is the worst outcome: a request is denied exactly if some finding denies, sandboxed if none denies
  and some finding sandboxes, allowed with redaction if the worst is a redaction or something was redacted, and allowed
  otherwise.  Approval is never asked for, and the reason of a decision by findings is the summary of the first finding
  with the worst outcome.
\<close>

theorem decision_is_worst_finding:
  "resolveDecision fs rs =
     (worst_decision fs rs, False,
      if \<exists>f \<in> set fs. normalizeOutcome (f_Outcome f) \<noteq> ''allow''
      then f_Summary (hd (filter (\<lambda>f. severityRank (normalizeOutcome (f_Outcome f)) =
             Max ((\<lambda>f. severityRank (normalizeOutcome (f_Outcome f))) ` set fs)) fs))
      else if rs \<noteq> [] then ''Content was sanitized by runtime redaction rules'' else ''No guardrail violations detected'')"
proof -
  obtain b t where bt: "best_finding (0, []) fs = (b, t)" by fastforce
  have ge: "n \<le> b \<longleftrightarrow> n = 0 \<or> (\<exists>f \<in> set fs. n \<le> rank_of f)" for n using best_finding_ge [of n "(0, [])" fs] bt by simp
  have le: "b \<le> 3" using best_finding_le3 [of "(0, [])" fs] bt by simp
  have some: "(\<exists>f \<in> set fs. normalizeOutcome (f_Outcome f) \<noteq> ''allow'') \<longleftrightarrow> 0 < b"
  proof -
    have "normalizeOutcome (f_Outcome f) \<noteq> ''allow'' \<longleftrightarrow> 1 \<le> rank_of f" for f
      using normalizeOutcome_values [of "f_Outcome f"] by (auto simp: rank_of_def severityRank_def)
    then show ?thesis using ge [of 1] by auto
  qed
  have mx: "Max (rank_of ` set fs) = b" if "0 < b"
  proof (rule Max_eqI)
    show "y \<le> b" if "y \<in> rank_of ` set fs" for y using that ge [of y] by auto
    from ge [of b] that obtain f where "f \<in> set fs" "b \<le> rank_of f" by auto
    moreover have "rank_of f \<le> b" using ge [of "rank_of f"] \<open>f \<in> set fs\<close> by auto
    ultimately show "b \<in> rank_of ` set fs" by force
  qed simp
  have t: "t = f_Summary (hd (filter (\<lambda>f. rank_of f = b) fs))" if "0 < b"
    using best_finding_summary [of "(0, [])" fs] bt that by simp
  have "fst (resolveDecision fs rs) = worst_decision fs rs" by (rule resolve_worst)
  moreover have "snd (resolveDecision fs rs) = (False, if 0 < b then t
      else if rs \<noteq> [] then ''Content was sanitized by runtime redaction rules'' else ''No guardrail violations detected'')"
    using le by (auto simp: resolveDecision_def bt)
  ultimately show ?thesis
    using t mx some unfolding rank_of_def [symmetric] by (cases "resolveDecision fs rs") auto
qed

end
