(* ===== verification/GuardPaths.thy ===== *)
theory GuardPaths
  imports GuardDecision
begin

text \<open>
  The evaluation paths of the guard runtime and the caches they share: the rule caches are transparent, the check loop
  depends on the runtime through its filter caches only, and the findings of \<open>EvaluateFastOnly\<close> are findings of
  \<open>Evaluate\<close>, so that a request the fast evaluation denies is denied by the full one.
\<close>

section \<open>The rule evaluation without caches\<close>

definition local_pure :: "guard_env \<Rightarrow> EvaluateRequest \<Rightarrow> PolicyBundle \<Rightarrow> check_acc \<Rightarrow> check_acc" where
  "local_pure g request policy acc =
     (let rules = compileRules g (Definition policy);
          u = union_pattern (map cr_Pattern rules) in
      if rules \<noteq> [] \<and> rx_Compile (env_rx (g_checks g)) u = None \<and> \<not> rx_Match (env_rx (g_checks g)) u (pickContent request) \<and>
         \<not> list_ex (\<lambda>rule. fastScannerForCategory (cr_Category rule) \<noteq> None) rules
      then acc\<lparr>acc_chain := acc_chain acc @ [Name policy @ '' evaluated via union fast-path (no match)'']\<rparr>
      else local_mcp g request policy (foldl (local_rule g request policy) acc rules))"

text \<open>
  The keys of the rule caches for a set \<open>D\<close> of definitions: two of them with one hash have the same rules, no hash is a
  key of the check loop's alternations, and the compiled built-in definition belongs to \<open>D\<close> and has no rules of its own.
  The restriction to a set is needed: a definition may carry a hash of its own choice under \<open>__definition_hash__\<close>.
\<close>

definition hash_ok :: "guard_env \<Rightarrow> gomap set \<Rightarrow> bool" where
  "hash_ok g D \<longleftrightarrow>
     (\<forall>d \<in> D. \<forall>d' \<in> D. compiledDefinitionRulesCacheKey g d \<noteq> [] \<longrightarrow>
        compiledDefinitionRulesCacheKey g d = compiledDefinitionRulesCacheKey g d' \<longrightarrow> compileRules g d = compileRules g d') \<and>
     (\<forall>d \<in> D. \<forall>policy. compiledDefinitionRulesCacheKey g d \<noteq> union_key policy) \<and>
     (\<forall>scope. g_CompileDefinition g (defaultDefinition scope) (NormalizeStage scope) \<in> D \<and>
        compileRules g (g_CompileDefinition g (defaultDefinition scope) (NormalizeStage scope)) = [])"

definition builtin_key :: "string \<Rightarrow> string" where
  "builtin_key stage = ''builtin-runtime-default-v1:'' @ NormalizeStage stage"

definition local_valid :: "guard_env \<Rightarrow> gomap set \<Rightarrow> GuardRuntime \<Rightarrow> bool" where
  "local_valid g D r \<longleftrightarrow>
     (\<forall>d \<in> D. compiledDefinitionRulesCacheKey g d \<noteq> [] \<longrightarrow>
        compiledRules r (compiledDefinitionRulesCacheKey g d) \<in> {None, Some (compileRules g d)}) \<and>
     (\<forall>d \<in> D. compiledDefinitionRulesCacheKey g d \<noteq> [] \<longrightarrow>
        compiledRuleUnions r (compiledDefinitionRulesCacheKey g d) = None \<or>
        compiledRuleUnions r (compiledDefinitionRulesCacheKey g d) = Some (union_pattern (map cr_Pattern (compileRules g d))) \<and>
        rx_Compile (env_rx (g_checks g)) (union_pattern (map cr_Pattern (compileRules g d))) = None) \<and>
     (\<forall>stage d. compiledDefs r (builtin_key stage) = Some d \<longrightarrow> d \<in> D \<and> compileRules g d = [])"

lemma hash_rules:
  assumes "hash_ok g D" "d \<in> D" "d' \<in> D" "compiledDefinitionRulesCacheKey g d' = compiledDefinitionRulesCacheKey g d"
    and "compiledDefinitionRulesCacheKey g d' \<noteq> []"
  shows "compileRules g d' = compileRules g d"
  using assms unfolding hash_ok_def by metis

lemma local_validD:
  assumes "local_valid g D r" "d \<in> D" "compiledDefinitionRulesCacheKey g d \<noteq> []"
  shows "compiledRules r (compiledDefinitionRulesCacheKey g d) = None \<or>
      compiledRules r (compiledDefinitionRulesCacheKey g d) = Some (compileRules g d)"
    and "compiledRuleUnions r (compiledDefinitionRulesCacheKey g d) = None \<or>
      compiledRuleUnions r (compiledDefinitionRulesCacheKey g d) = Some (union_pattern (map cr_Pattern (compileRules g d))) \<and>
      rx_Compile (env_rx (g_checks g)) (union_pattern (map cr_Pattern (compileRules g d))) = None"
  using assms by (simp_all add: local_valid_def)

lemma local_valid_rules:
  assumes "local_valid g D r"
    and "\<And>d. d \<in> D \<Longrightarrow> compiledDefinitionRulesCacheKey g d = k \<Longrightarrow> k \<noteq> [] \<Longrightarrow> compileRules g d = rules"
  shows "local_valid g D (r\<lparr>compiledRules := (compiledRules r)(k \<mapsto> rules)\<rparr>)"
  using assms(1) unfolding local_valid_def by (simp add: assms(2))

lemma local_valid_union:
  assumes "local_valid g D r" "rx_Compile (env_rx (g_checks g)) (union_pattern (map cr_Pattern rules)) = None"
    and "\<And>d. d \<in> D \<Longrightarrow> compiledDefinitionRulesCacheKey g d = k \<Longrightarrow> k \<noteq> [] \<Longrightarrow> compileRules g d = rules"
  shows "local_valid g D (r\<lparr>compiledRuleUnions := (compiledRuleUnions r)(k \<mapsto> union_pattern (map cr_Pattern rules))\<rparr>)"
  using assms(1) unfolding local_valid_def by (simp add: assms(2,3))

lemma rules_cache:
  assumes "hash_ok g D" "local_valid g D r" "d \<in> D"
  shows "\<exists>r'. compiledRulesForDefinition g d r = (compileRules g d, r') \<and> local_valid g D r'"
proof -
  let ?k = "compiledDefinitionRulesCacheKey g d"
  consider "?k = []" | "?k \<noteq> []" "compiledRules r ?k = Some (compileRules g d)" | "?k \<noteq> []" "compiledRules r ?k = None"
    using local_validD(1) [OF assms(2,3)] by metis
  then show ?thesis
  proof cases
    case 3
    have "local_valid g D (r\<lparr>compiledRules := (compiledRules r)(?k \<mapsto> compileRules g d)\<rparr>)"
      by (rule local_valid_rules [OF assms(2)]) (metis hash_rules [OF assms(1,3)])
    with 3 show ?thesis by (simp add: compiledRulesForDefinition_def Let_def)
  qed (use assms(2) in \<open>simp_all add: compiledRulesForDefinition_def Let_def\<close>)
qed

lemma builtin_definition:
  assumes "hash_ok g D" "local_valid g D r"
    and b: "b = (builtin_policy defaultDefinition scope)\<lparr>Scope := scope, Name := [], EnforcementMode := [], Enabled := False\<rparr>"
  shows "\<exists>d r'. compiledDefinitionForPolicy g b (NormalizeStage scope) r = (d, r') \<and> d \<in> D \<and> compileRules g d = [] \<and> local_valid g D r'"
proof -
  have tr: "TrimSpace ''builtin-runtime-default-v1'' = ''builtin-runtime-default-v1''" by (simp add: go_string_simps)
  have key: "compiledPolicyCacheKey b (NormalizeStage scope) = builtin_key scope"
    by (simp add: b compiledPolicyCacheKey_def builtin_policy_def builtin_key_def tr Let_def)
  have ne: "builtin_key scope \<noteq> []" by (simp add: builtin_key_def)
  let ?fresh = "g_CompileDefinition g (defaultDefinition scope) (NormalizeStage scope)"
  have def0: "Definition b = defaultDefinition scope" by (simp add: b builtin_policy_def)
  have fresh: "?fresh \<in> D" "compileRules g ?fresh = []" using assms(1) by (simp_all add: hash_ok_def)
  show ?thesis
  proof (cases "compiledDefs r (builtin_key scope)")
    case None
    let ?r' = "r\<lparr>compiledDefs := (compiledDefs r)(builtin_key scope \<mapsto> ?fresh)\<rparr>"
    have "local_valid g D ?r'" using assms(2) fresh unfolding local_valid_def by simp
    with None ne key def0 fresh show ?thesis by (simp add: compiledDefinitionForPolicy_def Let_def)
  next
    case (Some d)
    with assms(2) have "d \<in> D" "compileRules g d = []" unfolding local_valid_def by metis+
    with Some ne key assms(2) show ?thesis by (simp add: compiledDefinitionForPolicy_def Let_def)
  qed
qed

lemma union_cache:
  assumes "hash_ok g D" "local_valid g D r" "rules = compileRules g d" "rules \<noteq> []" "d \<in> D"
  shows "\<exists>r'. unionRegexForRules g d rules r =
      (if rx_Compile (env_rx (g_checks g)) (union_pattern (map cr_Pattern rules)) = None
       then Some (union_pattern (map cr_Pattern rules)) else None, r') \<and> local_valid g D r'"
proof -
  let ?k = "compiledDefinitionRulesCacheKey g d" and ?u = "union_pattern (map cr_Pattern rules)"
  have upd: "local_valid g D (r\<lparr>compiledRuleUnions := (compiledRuleUnions r)(?k \<mapsto> ?u)\<rparr>)"
    if "rx_Compile (env_rx (g_checks g)) ?u = None"
    by (rule local_valid_union [OF assms(2) that]) (metis hash_rules [OF assms(1,5)] assms(3))
  consider "?k = []" | "?k \<noteq> []" "compiledRuleUnions r ?k = None"
    | "?k \<noteq> []" "compiledRuleUnions r ?k = Some ?u" "rx_Compile (env_rx (g_checks g)) ?u = None"
    using local_validD(2) [OF assms(2,5)] assms(3) by metis
  then show ?thesis
    by cases (use assms(2,4) upd in \<open>simp_all add: unionRegexForRules_def Let_def\<close>)
qed

lemma local_policy_pure:
  assumes "hash_ok g D" "local_valid g D r" "Definition policy \<in> D"
  shows "\<exists>r'. local_policy g request policy (acc, r) = (local_pure g request policy acc, r') \<and> local_valid g D r'"
proof -
  let ?rules = "compileRules g (Definition policy)"
  obtain r1 where r1: "compiledRulesForDefinition g (Definition policy) r = (?rules, r1)" "local_valid g D r1"
    using rules_cache [OF assms] by blast
  show ?thesis
  proof (cases "?rules = []")
    case True
    obtain d r2 where d: "compiledDefinitionForPolicy g
        ((builtin_policy defaultDefinition (Scope policy))\<lparr>Scope := Scope policy, Name := [], EnforcementMode := [], Enabled := False\<rparr>)
        (NormalizeStage (Scope policy)) r1 = (d, r2)" "d \<in> D" "compileRules g d = []" "local_valid g D r2"
      using builtin_definition [OF assms(1) r1(2) refl] by blast
    obtain r3 where r3: "compiledRulesForDefinition g d r2 = (compileRules g d, r3)" "local_valid g D r3"
      using rules_cache [OF assms(1) d(4,2)] by blast
    from True r1 d r3 show ?thesis
      by (simp add: local_policy_def local_pure_def rules_for_policy_def unionRegexForRules_def Let_def)
  next
    case False
    obtain r2 where "unionRegexForRules g (Definition policy) ?rules r1 =
      (if rx_Compile (env_rx (g_checks g)) (union_pattern (map cr_Pattern ?rules)) = None
       then Some (union_pattern (map cr_Pattern ?rules)) else None, r2)" "local_valid g D r2"
      using union_cache [OF assms(1) r1(2) refl False assms(3)] by blast
    with False r1 show ?thesis
      by (simp add: local_policy_def local_pure_def rules_for_policy_def Let_def)
  qed
qed

lemma local_policies_pure:
  assumes "hash_ok g D" "local_valid g D r" "\<forall>p \<in> set policies. Definition p \<in> D"
  shows "\<exists>r'. fold (local_policy g request) policies (acc, r) = (fold (local_pure g request) policies acc, r') \<and> local_valid g D r'"
  using assms(2,3)
proof (induction policies arbitrary: acc r)
  case Nil
  then show ?case by simp
next
  case (Cons policy policies)
  have dp: "Definition policy \<in> D" using Cons.prems(2) by simp
  from local_policy_pure [OF assms(1) Cons.prems(1) dp] obtain r1 where
    "local_policy g request policy (acc, r) = (local_pure g request policy acc, r1)" "local_valid g D r1" by blast
  with Cons.IH Cons.prems(2) show ?case by simp
qed

text \<open>
  The rule caches are transparent: for definitions among which equal hashes mean equal rules, evaluating the rules of the policies
  through the caches of the runtime gives what compiling every definition afresh gives, and leaves the caches valid.
\<close>

theorem rule_caches_transparent:
  assumes "hash_ok g D" "local_valid g D r" "\<forall>p \<in> set policies. Definition p \<in> D"
  shows "\<exists>r'. evaluateLocalPolicies g policies request r =
    (fold (local_pure g request) policies (cl_acc (loop_start request)), r') \<and> local_valid g D r'"
  using local_policies_pure [OF assms] by (simp add: evaluateLocalPolicies_def)

section \<open>The check loop and the runtime\<close>

definition same_filters :: "GuardRuntime \<Rightarrow> GuardRuntime \<Rightarrow> bool" where
  "same_filters r r' \<longleftrightarrow> compiledRuleUnions r = compiledRuleUnions r' \<and> compiledRuleACs r = compiledRuleACs r'"

text \<open>What the check loop leaves alone.\<close>

definition loop_frame :: "GuardRuntime \<Rightarrow> GuardRuntime \<Rightarrow> bool" where
  "loop_frame r r' \<longleftrightarrow> compiledDefs r' = compiledDefs r \<and> compiledRules r' = compiledRules r \<and>
     (\<forall>k. (\<forall>policy. k \<noteq> union_key policy) \<longrightarrow> compiledRuleUnions r' k = compiledRuleUnions r k)"

lemma loop_frame_refl [simp]: "loop_frame r r"
  by (simp add: loop_frame_def)

lemma loop_frame_trans: "loop_frame r r1 \<Longrightarrow> loop_frame r1 r2 \<Longrightarrow> loop_frame r r2"
  by (simp add: loop_frame_def)

lemma loop_frame_valid: "hash_ok g D \<Longrightarrow> local_valid g D r \<Longrightarrow> loop_frame r r' \<Longrightarrow> local_valid g D r'"
  unfolding local_valid_def loop_frame_def hash_ok_def by metis

lemma prefilter_frame:
  assumes "prefilter_skips env policy checks t r = (b, r')"
  shows "loop_frame r r'"
proof -
  obtain ac r1 where a: "ahoCorasickForRegexMatchChecks env policy checks r = (ac, r1)" by fastforce
  obtain u r2 where uu: "unionRegexForRegexMatchChecks env policy checks r1 = (u, r2)" by fastforce
  have f1: "loop_frame r r1" using aho_result [OF a] by (auto simp: loop_frame_def)
  have f2: "loop_frame r1 r2" using union_result [OF uu] by (auto simp: loop_frame_def)
  have "r' = r1 \<or> r' = r2" using assms by (simp add: prefilter_skips_def a uu Let_def split: if_splits)
  with f1 loop_frame_trans [OF f1 f2] show ?thesis by metis
qed

lemma aho_same_filters:
  assumes "same_filters r r'" "ahoCorasickForRegexMatchChecks env policy checks r = (ac, r1)"
  shows "\<exists>r1'. ahoCorasickForRegexMatchChecks env policy checks r' = (ac, r1') \<and> same_filters r1 r1'"
  using assms unfolding ahoCorasickForRegexMatchChecks_def same_filters_def
  by (auto split: if_splits option.splits)

lemma union_same_filters:
  assumes "same_filters r r'" "unionRegexForRegexMatchChecks env policy checks r = (u, r1)"
  shows "\<exists>r1'. unionRegexForRegexMatchChecks env policy checks r' = (u, r1') \<and> same_filters r1 r1'"
  using assms unfolding unionRegexForRegexMatchChecks_def same_filters_def Let_def
  by (cases "compiledRuleUnions r' (union_key policy)") (auto split: if_splits)

lemma prefilter_same_filters:
  assumes "same_filters r r'" "prefilter_skips env policy checks t r = (b, r1)"
  shows "\<exists>r1'. prefilter_skips env policy checks t r' = (b, r1') \<and> same_filters r1 r1'"
proof -
  obtain ac q where a: "ahoCorasickForRegexMatchChecks env policy checks r = (ac, q)" by fastforce
  obtain u w where uu: "unionRegexForRegexMatchChecks env policy checks q = (u, w)" by fastforce
  obtain q' where a': "ahoCorasickForRegexMatchChecks env policy checks r' = (ac, q')" "same_filters q q'"
    using aho_same_filters [OF assms(1) a] by blast
  obtain w' where u': "unionRegexForRegexMatchChecks env policy checks q' = (u, w')" "same_filters w w'"
    using union_same_filters [OF a'(2) uu] by blast
  from assms(2) a uu a' u' show ?thesis by (auto simp: prefilter_skips_def Let_def split: if_splits)
qed

lemma run_policies_runtime:
  assumes "same_filters r r'"
  shows "\<exists>st1 r1 r1'. foldl (run_policy env request) (st, Some r) ps = (st1, Some r1) \<and>
    foldl (run_policy env request) (st, Some r') ps = (st1, Some r1') \<and> same_filters r1 r1' \<and> loop_frame r r1 \<and> loop_frame r' r1'"
  using assms
proof (induction ps arbitrary: st r r')
  case Nil
  then show ?case by simp
next
  case (Cons policy ps)
  let ?checks = "extractRuntimeChecks env (Definition policy) (req_Stage request)"
  obtain b q where q: "prefilter_skips env policy ?checks (pickContent request) r = (b, q)" by fastforce
  obtain q' where q': "prefilter_skips env policy ?checks (pickContent request) r' = (b, q')" "same_filters q q'"
    using prefilter_same_filters [OF Cons.prems q] by blast
  show ?case
  proof (cases "?checks = []")
    case True
    then have "run_policy env request (st, Some r) policy = (st, Some r)" "run_policy env request (st, Some r') policy = (st, Some r')"
      by (simp_all add: run_policy_def)
    with Cons.IH [OF Cons.prems] show ?thesis by simp
  next
    case False
    let ?st = "foldl (run_check env request policy b) st ?checks"
    obtain st1 r1 r1' where "foldl (run_policy env request) (?st, Some q) ps = (st1, Some r1)"
      "foldl (run_policy env request) (?st, Some q') ps = (st1, Some r1')" "same_filters r1 r1'" "loop_frame q r1" "loop_frame q' r1'"
      using Cons.IH [OF q'(2)] by blast
    moreover have "run_policy env request (st, Some r) policy = (?st, Some q)" "run_policy env request (st, Some r') policy = (?st, Some q')"
      using False q q'(1) by (simp_all add: run_policy_def)
    ultimately show ?thesis
      using loop_frame_trans [OF prefilter_frame [OF q]] loop_frame_trans [OF prefilter_frame [OF q'(1)]] by auto
  qed
qed

section \<open>Findings only accumulate\<close>

definition result_findings :: "check_env \<Rightarrow> PolicyBundle \<Rightarrow> runtimeCheck \<Rightarrow> string + runtimeCheckResult \<Rightarrow> Finding list" where
  "result_findings env policy check res =
     acc_findings (merge_result env policy check [] res \<lparr>acc_findings = [], acc_redactions = [], acc_chain = [], acc_input = [], acc_output = []\<rparr>)"

lemma merge_result_findings:
  "acc_findings (merge_result env policy check stage res acc) = acc_findings acc @ result_findings env policy check res"
proof (cases res)
  case (Inr r)
  then show ?thesis
    by (cases "Triggered r")
      (simp_all add: result_findings_def merge_result_def applyRuntimeCheckResult_def Let_def split: prod.splits)
qed (simp add: result_findings_def merge_result_def)

lemma run_check_grows:
  "prefix (acc_findings (cl_acc st)) (acc_findings (cl_acc (run_check env request policy skip st check))) \<and>
   prefix (cl_webhooks st) (cl_webhooks (run_check env request policy skip st check))"
  by (simp add: run_check_def Let_def merge_result_findings split: prod.split)

lemma run_checks_grow:
  "prefix (acc_findings (cl_acc st)) (acc_findings (cl_acc (foldl (run_check env request policy skip) st checks))) \<and>
   prefix (cl_webhooks st) (cl_webhooks (foldl (run_check env request policy skip) st checks))"
proof (induction checks arbitrary: st)
  case (Cons check checks)
  then show ?case using run_check_grows [of st env request policy skip check] by (auto intro: prefix_order.trans)
qed simp

lemma run_policies_grow:
  "foldl (run_policy env request) (st, r) ps = (st', r') \<Longrightarrow>
     prefix (acc_findings (cl_acc st)) (acc_findings (cl_acc st')) \<and> prefix (cl_webhooks st) (cl_webhooks st')"
proof (induction ps arbitrary: st r)
  case (Cons policy ps)
  obtain st1 r1 where s: "run_policy env request (st, r) policy = (st1, r1)" by fastforce
  have "prefix (acc_findings (cl_acc st)) (acc_findings (cl_acc st1)) \<and> prefix (cl_webhooks st) (cl_webhooks st1)"
    using s run_checks_grow by (auto simp: run_policy_def Let_def split: if_splits option.splits prod.splits)
  moreover have "prefix (acc_findings (cl_acc st1)) (acc_findings (cl_acc st')) \<and> prefix (cl_webhooks st1) (cl_webhooks st')"
    using Cons s by simp
  ultimately show ?case by (auto intro: prefix_order.trans)
qed simp

lemma merge_webhooks_findings:
  "set (acc_findings (merge_webhooks env request ws acc)) =
     set (acc_findings acc) \<union> (\<Union>(p, c) \<in> set ws. set (result_findings env p c (env_webhook env c request)))"
  by (induction ws arbitrary: acc) (auto simp: merge_webhooks_def merge_result_findings)

lemma checks_prefix_findings:
  assumes "same_filters r r'" and r1: "evaluateRuntimeChecksWithRuntime env (Some r) ps request = (acc, r1)"
    and r2: "evaluateRuntimeChecksWithRuntime env (Some r') (ps @ qs) request = (acc', r2)"
  shows "set (acc_findings acc) \<subseteq> set (acc_findings acc')"
proof -
  from run_policies_runtime [OF assms(1)] obtain st q q' where
    a: "foldl (run_policy env request) (loop_start request, Some r) ps = (st, Some q)"
    and b: "foldl (run_policy env request) (loop_start request, Some r') ps = (st, Some q')" by blast
  obtain st' q'' where c: "foldl (run_policy env request) (st, Some q') qs = (st', q'')" by fastforce
  from a r1 have acc: "acc = merge_webhooks env request (cl_webhooks st) (cl_acc st)"
    by (simp add: evaluateRuntimeChecksWithRuntime_def)
  from b c r2 have acc': "acc' = merge_webhooks env request (cl_webhooks st') (cl_acc st')"
    by (simp add: evaluateRuntimeChecksWithRuntime_def)
  from run_policies_grow [OF c] have "set (acc_findings (cl_acc st)) \<subseteq> set (acc_findings (cl_acc st'))"
    "set (cl_webhooks st) \<subseteq> set (cl_webhooks st')" by (auto dest: set_mono_prefix)
  then show ?thesis unfolding acc acc' merge_webhooks_findings by blast
qed

lemma add_finding_grows: "acc_findings (add_finding f e acc) = acc_findings acc @ [f]"
  by (simp add: add_finding_def)

lemma local_rule_grows: "prefix (acc_findings acc) (acc_findings (local_rule g request policy acc rule))"
  by (simp add: local_rule_def add_finding_def Let_def)

lemma local_rules_grow: "prefix (acc_findings acc) (acc_findings (foldl (local_rule g request policy) acc rules))"
proof (induction rules arbitrary: acc)
  case (Cons rule rules)
  then show ?case using local_rule_grows [of acc g request policy rule] by (auto intro: prefix_order.trans)
qed simp

lemma add_findings_grow: "prefix (acc_findings acc) (acc_findings (fold (\<lambda>d. add_finding (f d) (e d)) ds acc))"
proof (induction ds arbitrary: acc)
  case (Cons d ds)
  have "prefix (acc_findings acc) (acc_findings (add_finding (f d) (e d) acc))" by (simp add: add_finding_grows)
  with Cons [of "add_finding (f d) (e d) acc"] show ?case by (auto intro: prefix_order.trans)
qed simp

lemma local_mcp_grows: "prefix (acc_findings acc) (acc_findings (local_mcp g request policy acc))"
proof (cases "req_MCP request")
  case (Some m)
  have add: "prefix (acc_findings acc) (acc_findings (if b then add_finding f e a else a))"
    if "prefix (acc_findings acc) (acc_findings a)" for b f e a
    using that by (simp add: add_finding_grows)
  show ?thesis unfolding local_mcp_def Some option.case Let_def by (intro add add_findings_grow)
qed (simp add: local_mcp_def)

lemma local_pure_grows: "prefix (acc_findings acc) (acc_findings (local_pure g request policy acc))"
  using prefix_order.trans [OF local_rules_grow local_mcp_grows] by (simp add: local_pure_def Let_def)

lemma local_pures_grow: "prefix (acc_findings acc) (acc_findings (fold (local_pure g request) ps acc))"
proof (induction ps arbitrary: acc)
  case (Cons p ps)
  then show ?case using local_pure_grows [of acc g request p] by (auto intro: prefix_order.trans)
qed simp

section \<open>Compiling the policies of a request\<close>

text \<open>A policy that claims the cache key of the built-in definition compiles to no rules, like the built-in one.\<close>

definition builtin_clean :: "guard_env \<Rightarrow> gomap set \<Rightarrow> string \<Rightarrow> PolicyBundle list \<Rightarrow> bool" where
  "builtin_clean g D stage policies \<longleftrightarrow>
     (\<forall>p \<in> set policies. \<forall>s. compiledPolicyCacheKey p (NormalizeStage stage) = builtin_key s \<longrightarrow>
        g_CompileDefinition g (Definition p) (NormalizeStage stage) \<in> D \<and>
        compileRules g (g_CompileDefinition g (Definition p) (NormalizeStage stage)) = [])"

lemma compile_policy_valid:
  assumes "local_valid g D r" "compiledDefinitionForPolicy g p (NormalizeStage stage) r = (d, r')"
    and "\<And>s. compiledPolicyCacheKey p (NormalizeStage stage) = builtin_key s \<Longrightarrow>
      g_CompileDefinition g (Definition p) (NormalizeStage stage) \<in> D \<and>
      compileRules g (g_CompileDefinition g (Definition p) (NormalizeStage stage)) = []"
  shows "local_valid g D r' \<and> same_filters r r'"
proof -
  let ?k = "compiledPolicyCacheKey p (NormalizeStage stage)" and ?fresh = "g_CompileDefinition g (Definition p) (NormalizeStage stage)"
  have "r' = r \<or> r' = r\<lparr>compiledDefs := (compiledDefs r)(?k \<mapsto> ?fresh)\<rparr>"
    using assms(2) by (auto simp: compiledDefinitionForPolicy_def Let_def split: if_splits option.splits)
  moreover have "local_valid g D (r\<lparr>compiledDefs := (compiledDefs r)(?k \<mapsto> ?fresh)\<rparr>)"
    using assms(1) assms(3) [OF sym] unfolding local_valid_def by auto
  ultimately show ?thesis using assms(1) by (auto simp: same_filters_def)
qed

lemma same_filters_trans: "same_filters a b \<Longrightarrow> same_filters b c \<Longrightarrow> same_filters a c"
  by (simp add: same_filters_def)

lemma same_filters_sym: "same_filters a b \<Longrightarrow> same_filters b a"
  by (simp add: same_filters_def)

lemma compile_policies_valid:
  assumes "local_valid g D r" "builtin_clean g D stage ps" "compileRuntimePolicies g stage ps r = (cs, r')"
  shows "local_valid g D r' \<and> same_filters r r'"
  using assms
proof (induction ps arbitrary: r cs)
  case Nil
  then show ?case by (simp add: same_filters_def)
next
  case (Cons p ps)
  obtain d r1 where d: "compiledDefinitionForPolicy g p (NormalizeStage stage) r = (d, r1)" by fastforce
  obtain cs1 r2 where c: "compileRuntimePolicies g stage ps r1 = (cs1, r2)" by fastforce
  from Cons.prems(2) have bc: "builtin_clean g D stage ps" by (simp add: builtin_clean_def)
  have v: "local_valid g D r1 \<and> same_filters r r1"
    by (rule compile_policy_valid [OF Cons.prems(1) d]) (use Cons.prems(2) in \<open>auto simp: builtin_clean_def\<close>)
  have "r2 = r'" using Cons.prems(3) d c by simp
  with Cons.IH [OF conjunct1 [OF v] bc] c v show ?case by (auto intro: same_filters_trans)
qed

lemma compile_policies_append:
  "compileRuntimePolicies g stage (ps @ qs) r =
     (let (cs, r1) = compileRuntimePolicies g stage ps r; (ds, r2) = compileRuntimePolicies g stage qs r1 in (cs @ ds, r2))"
  by (induction ps arbitrary: r) (auto simp: Let_def split: prod.splits)

section \<open>Fast and full evaluation\<close>

lemma portkey_path_runtime:
  "\<exists>acc r'. portkey_path g ps request r = (acc, r') \<and>
     evaluateRuntimeChecksWithRuntime (g_checks g) (Some r) ps request = (acc, Some r') \<and> loop_frame r r'"
proof -
  have "same_filters r r" by (simp add: same_filters_def)
  from run_policies_runtime [OF this, of "g_checks g" request "loop_start request" ps]
  obtain st r1 where "foldl (run_policy (g_checks g) request) (loop_start request, Some r) ps = (st, Some r1)" "loop_frame r r1"
    by blast
  then show ?thesis by (simp add: portkey_path_def evaluateRuntimeChecksWithRuntime_def)
qed

lemma fast_findings_subset:
  assumes g: "hash_ok g D" and v: "local_valid g D r"
    and clean: "builtin_clean g D (req_Stage request) (fast @ extra)"
    and cf: "compileRuntimePolicies g (req_Stage request) fast r = (cfast, r1)"
    and cm: "compileRuntimePolicies g (req_Stage request) (fast @ extra) r = (cfull, r1')"
    and defs: "\<forall>p \<in> set cfull. Definition p \<in> D"
    and pf: "portkey_path g cfast request r1 = (pk, r2)" and pm: "portkey_path g cfull request r1' = (pk', r2')"
    and lf: "evaluateLocalPolicies g cfast request r2 = (lc, r3)" and lm: "evaluateLocalPolicies g cfull request r2' = (lc', r3')"
  shows "set (acc_findings pk) \<subseteq> set (acc_findings pk') \<and> set (acc_findings lc) \<subseteq> set (acc_findings lc')"
proof -
  obtain ds where cfull: "cfull = cfast @ ds" using cf cm by (auto simp: compile_policies_append Let_def split: prod.splits)
  have cl: "builtin_clean g D (req_Stage request) fast" using clean by (simp add: builtin_clean_def)
  have s: "local_valid g D r1" "same_filters r r1" "local_valid g D r1'" "same_filters r r1'"
    using compile_policies_valid [OF v cl cf] compile_policies_valid [OF v clean cm] by auto
  have same: "same_filters r1 r1'" using s by (simp add: same_filters_def)
  have e: "evaluateRuntimeChecksWithRuntime (g_checks g) (Some r1) cfast request = (pk, Some r2)" "loop_frame r1 r2"
    using portkey_path_runtime [of g cfast request r1] pf by auto
  have e': "evaluateRuntimeChecksWithRuntime (g_checks g) (Some r1') (cfast @ ds) request = (pk', Some r2')" "loop_frame r1' r2'"
    using portkey_path_runtime [of g cfull request r1'] pm cfull by auto
  have "set (acc_findings pk) \<subseteq> set (acc_findings pk')" by (rule checks_prefix_findings [OF same e(1) e'(1)])
  moreover have v2: "local_valid g D r2" "local_valid g D r2'"
    using loop_frame_valid [OF g s(1) e(2)] loop_frame_valid [OF g s(3) e'(2)] by auto
  have "lc = fold (local_pure g request) cfast (cl_acc (loop_start request))"
    using local_policies_pure [OF g v2(1), of cfast request "cl_acc (loop_start request)"] lf defs cfull
    by (auto simp: evaluateLocalPolicies_def)
  moreover have "lc' = fold (local_pure g request) (cfast @ ds) (cl_acc (loop_start request))"
    using local_policies_pure [OF g v2(2), of "cfast @ ds" request "cl_acc (loop_start request)"] lm cfull defs
    by (auto simp: evaluateLocalPolicies_def)
  ultimately show ?thesis
    using set_mono_prefix [OF local_pures_grow [of "fold (local_pure g request) cfast (cl_acc (loop_start request))" g request ds]]
    by simp
qed

text \<open>
  C18. The fast evaluation is sound for the full one.  Outside the retrieval stage, with rule caches valid for the
  definitions the policies compile to, every finding
  of \<open>EvaluateFastOnly\<close> is a finding of \<open>Evaluate\<close> on the same request and runtime; so a request the fast evaluation
  denies is denied by the full evaluation, and short-circuiting it changes no verdict.
\<close>

theorem fast_deny_is_full_deny:
  assumes "hash_ok g D" "local_valid g D r" "NormalizeStage (req_Stage (g_extract g request)) \<noteq> ''rag''"
    and "builtin_clean g D (req_Stage (g_extract g request))
      (fst (full_policies (env_float (g_checks g)) defaultDefinition
        (lookupTenantBundle r (req_TenantID (g_extract g request))) (g_extract g request)))"
    and "\<forall>p \<in> set (fst (compileRuntimePolicies g (req_Stage (g_extract g request))
      (fst (full_policies (env_float (g_checks g)) defaultDefinition
        (lookupTenantBundle r (req_TenantID (g_extract g request))) (g_extract g request))) r)). Definition p \<in> D"
  shows "set (Findings (fst (EvaluateFastOnly g request r))) \<subseteq> set (Findings (fst (Evaluate g request r))) \<and>
    (Decision (fst (EvaluateFastOnly g request r)) = ''deny'' \<longrightarrow> Decision (fst (Evaluate g request r)) = ''deny'')"
proof -
  let ?req = "g_extract g request"
  let ?b = "lookupTenantBundle r (req_TenantID ?req)"
  let ?fast = "fast_policies (env_float (g_checks g)) ?b ?req"
  obtain full ch where full: "full_policies (env_float (g_checks g)) defaultDefinition ?b ?req = (full, ch)" by fastforce
  obtain extra where ex: "full = ?fast @ extra"
    using fast_prefix_full [of "env_float (g_checks g)" ?b ?req defaultDefinition] full by (auto simp: prefix_def)
  obtain cfast r1 where cf: "compileRuntimePolicies g (req_Stage ?req) ?fast r = (cfast, r1)" by fastforce
  obtain cfull r1' where cm: "compileRuntimePolicies g (req_Stage ?req) full r = (cfull, r1')" by fastforce
  obtain pk r2 where pf: "portkey_path g cfast ?req r1 = (pk, r2)" by fastforce
  obtain pk' r2' where pm: "portkey_path g cfull ?req r1' = (pk', r2')" by fastforce
  obtain lc r3 where lf: "evaluateLocalPolicies g cfast ?req r2 = (lc, r3)" by fastforce
  obtain lc' r3' where lm: "evaluateLocalPolicies g cfull ?req r2' = (lc', r3')" by fastforce
  obtain sf sc where sl: "slow_paths g r3' (hasGatingDeny (acc_findings pk') \<or> hasGatingDeny (acc_findings lc')) ?b cfull ?req = (sf, sc)"
    by fastforce
  have sub: "set (acc_findings pk) \<subseteq> set (acc_findings pk') \<and> set (acc_findings lc) \<subseteq> set (acc_findings lc')"
    by (rule fast_findings_subset [OF assms(1,2) _ cf cm [unfolded ex] _ pf pm lf lm]) (use assms(4,5) full ex cm in simp_all)
  have fullF: "Findings (fst (Evaluate g request r)) = acc_findings pk' @ acc_findings lc' @ sf"
    and fullD: "Decision (fst (Evaluate g request r)) =
      worst_decision (acc_findings pk' @ acc_findings lc' @ sf) (acc_redactions pk' @ acc_redactions lc')"
    using assms(3) full cm pm lm sl
    by (simp_all add: Evaluate_def Let_def resolve_worst [symmetric] split: prod.split)
  have fastF: "set (Findings (fst (EvaluateFastOnly g request r))) \<subseteq> set (acc_findings pk @ acc_findings lc)"
    and fastD: "?fast \<noteq> [] \<Longrightarrow> Decision (fst (EvaluateFastOnly g request r)) =
      worst_decision (acc_findings pk @ acc_findings lc) (acc_redactions pk @ acc_redactions lc)"
    and fast0: "?fast = [] \<Longrightarrow> Decision (fst (EvaluateFastOnly g request r)) = ''allow''"
    using cf pf lf
    by (auto simp: EvaluateFastOnly_def Let_def empty_response_def resolve_worst [symmetric] split: prod.split)
  have "set (acc_findings pk @ acc_findings lc) \<subseteq> set (acc_findings pk' @ acc_findings lc' @ sf)" using sub by auto
  moreover have "Decision (fst (Evaluate g request r)) = ''deny''" if "Decision (fst (EvaluateFastOnly g request r)) = ''deny''"
  proof -
    have "?fast \<noteq> []" using fast0 that by auto
    with fastD that have "\<exists>f \<in> set (acc_findings pk @ acc_findings lc). normalizeOutcome (f_Outcome f) = ''deny''"
      by (auto simp: worst_decision_def split: if_splits)
    then have "\<exists>f \<in> set (acc_findings pk' @ acc_findings lc' @ sf). normalizeOutcome (f_Outcome f) = ''deny''"
      using sub by auto
    then show ?thesis unfolding fullD by (simp add: worst_decision_def)
  qed
  ultimately show ?thesis using fastF fullF by auto
qed

section \<open>A concrete runtime\<close>

definition demo_guard :: guard_env where
  "demo_guard =
     \<lparr>g_checks = demo_env, g_CompileDefinition = (\<lambda>d stage. d), g_sha256_hex = (\<lambda>s. s @ ''#''), g_adapters = Map.empty,
      g_arrival = (\<lambda>rs. rs), g_extract = (\<lambda>req. req), g_modality = (\<lambda>c req. ([], [])), g_now = []\<rparr>"

definition new_runtime :: GuardRuntime where
  "new_runtime = New (\<lambda>name. []) (\<lambda>s. None) []"

lemma new_runtime_simps [simp]:
  "compiledRuleUnions new_runtime = Map.empty" "compiledRuleACs new_runtime = Map.empty" "tenantBundles new_runtime = Map.empty"
  "compiledDefs new_runtime = Map.empty" "compiledRules new_runtime = Map.empty"
  by (simp_all add: new_runtime_def New_def Let_def)

definition terse_policy :: PolicyBundle where
  "terse_policy = demo_policy ''v1'' [(''input_guardrails'', VList [VMap [(''name'', VStr ''word_count''),
     (''config'', VMap [(''maxWords'', VInt 1)]), (''action'', VMap [(''on_fail'', VStr ''deny'')])]])]"

definition demo_inline :: EvaluateRequest where
  "demo_inline = (demo_request ''input'' ''two words'' [])\<lparr>req_Policies := [terse_policy]\<rparr>"

lemma demo_compiled:
  "fst (full_policies (env_float (g_checks demo_guard)) defaultDefinition
     (lookupTenantBundle new_runtime (req_TenantID (g_extract demo_guard demo_inline))) (g_extract demo_guard demo_inline)) = [terse_policy]"
  by (simp add: full_policies_def demo_guard_def lookupTenantBundle_def demo_inline_def demo_request_def Let_def)

lemma demo_key:
  "map_of d definitionHashKey = None \<Longrightarrow>
     compiledDefinitionRulesCacheKey demo_guard d = [] \<or> last (compiledDefinitionRulesCacheKey demo_guard d) = CHR ''#''"
  by (simp add: compiledDefinitionRulesCacheKey_def computeDefinitionHash_def demo_guard_def Let_def)

lemma union_key_last: "union_key policy \<noteq> [] \<and> last (union_key policy) = CHR ''n''"
  by (simp add: union_key_def)

lemma demo_hash_ok:
  assumes plain: "\<And>d. d \<in> D \<Longrightarrow> map_of d definitionHashKey = None"
    and inj: "\<And>d d'. d \<in> D \<Longrightarrow> d' \<in> D \<Longrightarrow>
      compiledDefinitionRulesCacheKey demo_guard d = compiledDefinitionRulesCacheKey demo_guard d' \<Longrightarrow> compileRules demo_guard d = compileRules demo_guard d'"
    and "defaultDefinition [] \<in> D"
  shows "hash_ok demo_guard D"
proof -
  have "defaultDefinition scope = defaultDefinition []" for scope by (simp add: defaultDefinition_def)
  moreover have "compiledDefinitionRulesCacheKey demo_guard d \<noteq> union_key policy" if "d \<in> D" for d policy
    using demo_key [of d] plain [OF that] union_key_last [of policy] by auto
  moreover have "compileRules demo_guard (defaultDefinition []) = []" by (simp add: compileRules_def defaultDefinition_def)
  moreover have "g_CompileDefinition demo_guard d stage = d" for d stage by (simp add: demo_guard_def)
  ultimately show ?thesis
    unfolding hash_ok_def using inj assms(3) by metis
qed

text \<open>A policy with a rule of its own.\<close>

definition rule_value :: "string \<Rightarrow> string \<Rightarrow> goval" where
  "rule_value pattern outcome =
     VMap [(''pattern'', VStr pattern), (''category'', VStr ''leak''), (''severity'', VStr ''high''), (''outcome'', VStr outcome),
       (''summary'', VStr ''leak found'')]"

definition rule_policy :: PolicyBundle where
  "rule_policy = demo_policy ''v1'' [(''rules'', VList [rule_value ''secret'' ''deny''])]"

theorem rule_caches_transparent_witness:
  "\<exists>r'. evaluateLocalPolicies demo_guard [rule_policy, rule_policy] (demo_request ''input'' ''my secret'' []) new_runtime =
     (fold (local_pure demo_guard (demo_request ''input'' ''my secret'' [])) [rule_policy, rule_policy]
        (cl_acc (loop_start (demo_request ''input'' ''my secret'' []))), r')"
proof -
  let ?D = "{defaultDefinition [], Definition rule_policy}"
  have plain: "map_of d definitionHashKey = None" if "d \<in> ?D" for d
    using that by (auto simp: rule_policy_def demo_policy_def defaultDefinition_def definitionHashKey_def)
  have ne: "compiledDefinitionRulesCacheKey demo_guard (defaultDefinition []) \<noteq> compiledDefinitionRulesCacheKey demo_guard (Definition rule_policy)"
    by code_simp
  have hk: "hash_ok demo_guard ?D"
    by (rule demo_hash_ok [OF plain]) (use ne in auto)
  have v: "local_valid demo_guard ?D new_runtime" by (simp add: local_valid_def)
  show ?thesis using rule_caches_transparent [OF hk v, of "[rule_policy, rule_policy]"] by auto
qed

end
