(* ===== verification/GuardFindings.thy ===== *)
theory GuardFindings
  imports GuardPaths "HOL-Library.Multiset"
begin

text \<open>
  What the single paths of the guard runtime contribute to its verdict: the scope of MCP calls, the provider bindings,
  the two phases of \<open>Evaluate\<close>, the registry of tenant bundles and the call budgets.  The last section shows two ways
  in which a policy that should deny is left unenforced.
\<close>

section \<open>MCP tool policies\<close>

text \<open>A tool policy refuses a call it matches: the actor or a domain is outside its lists, or it asks for approval.\<close>

definition tool_violation :: "EvaluateRequest \<Rightarrow> MCPContext \<Rightarrow> MCPToolPolicy \<Rightarrow> bool" where
  "tool_violation request m p \<longleftrightarrow> matchesToolPolicy p request \<and>
     (tp_AllowedIdentities p \<noteq> [] \<and> \<not> containsNormalizedValue (tp_AllowedIdentities p) (actor_ID (req_Actor request)) \<or>
      tp_AllowedDomains p \<noteq> [] \<and> (\<exists>d \<in> set (mcp_Domains m). \<not> containsNormalizedValue (tp_AllowedDomains p) d) \<or>
      tp_ApprovalNeeded p)"

lemma normalizeOutcome_deny [simp]: "normalizeOutcome ''deny'' = ''deny''"
  by (simp add: normalizeOutcome_def go_string_simps)

lemma tool_policy_some: "mcp_tool_policy request m p \<noteq> [] \<longleftrightarrow> tool_violation request m p"
  by (auto simp: mcp_tool_policy_def tool_violation_def filter_empty_conv)

lemma tool_policy_deny: "f \<in> set (mcp_tool_policy request m p) \<Longrightarrow> f_Outcome (fst f) = ''deny''"
  by (auto simp: mcp_tool_policy_def mcp_finding_def split: if_splits)

lemma mcp_findings_some:
  "fst (evaluateMCPToolPolicies ps request) \<noteq> [] \<longleftrightarrow> (\<exists>m p. req_MCP request = Some m \<and> p \<in> set ps \<and> tool_violation request m p)"
  by (auto simp: evaluateMCPToolPolicies_def Let_def tool_policy_some split: option.split)

lemma mcp_findings_deny: "f \<in> set (fst (evaluateMCPToolPolicies ps request)) \<Longrightarrow> f_Outcome f = ''deny''"
  by (auto simp: evaluateMCPToolPolicies_def Let_def dest: tool_policy_deny split: option.splits)

text \<open>
  The MCP tool policies of a tenant deny exactly the calls outside their scope: on their findings alone the decision
  is a denial if some policy that matches the server, tool and action class of the call lists other actors, lists
  domains of which the call leaves one out, or asks for approval; otherwise it is to allow.
\<close>

theorem tool_policies_deny_exactly:
  "fst (resolveDecision (fst (evaluateMCPToolPolicies ps request)) []) =
     (if \<exists>m p. req_MCP request = Some m \<and> p \<in> set ps \<and> tool_violation request m p then ''deny'' else ''allow'')"
proof (cases "fst (evaluateMCPToolPolicies ps request)")
  case Nil
  then show ?thesis using mcp_findings_some [of ps request] by (simp add: resolve_worst worst_decision_def)
next
  case (Cons f fs)
  moreover have "f_Outcome f = ''deny''" using mcp_findings_deny [of f ps request] Cons by simp
  ultimately show ?thesis
    using mcp_findings_some [of ps request] unfolding resolve_worst worst_decision_def by auto
qed

section \<open>Action classes and domains of a policy\<close>

definition scope_violation :: "guard_env \<Rightarrow> PolicyBundle \<Rightarrow> MCPContext \<Rightarrow> bool" where
  "scope_violation g policy m \<longleftrightarrow>
     (\<exists>blocked \<in> set (definition_strings g policy ''blocked_domains''). \<exists>d \<in> set (mcp_Domains m).
        EqualFold (TrimSpace d) (TrimSpace blocked)) \<or>
     definition_strings g policy ''allowed_action_classes'' \<noteq> [] \<and>
        \<not> containsNormalizedValue (definition_strings g policy ''allowed_action_classes'') (mcp_ActionClass m) \<or>
     containsNormalizedValue (definition_strings g policy ''denied_action_classes'') (mcp_ActionClass m)"

lemma add_findings_set:
  "set (acc_findings (fold (\<lambda>d. add_finding (f d) (e d)) ds acc)) = set (acc_findings acc) \<union> f ` set ds"
  by (induction ds arbitrary: acc) (auto simp: add_finding_grows)

lemma add_findings_outcome:
  assumes "d \<in> set ds" "\<And>d. f_Outcome (f d) = v"
  shows "\<exists>x \<in> set (acc_findings (fold (\<lambda>d. add_finding (f d) (e d)) ds acc)). f_Outcome x = v"
  unfolding add_findings_set using assms by blast

lemma contains_nonempty: "containsNormalizedValue vs v \<Longrightarrow> vs \<noteq> []"
  by (auto simp: containsNormalizedValue_def)

lemma scope_violation_finding:
  assumes "req_MCP request = Some m" "scope_violation g policy m"
  shows "\<exists>f \<in> set (acc_findings (local_mcp g request policy acc)). f_Outcome f = normalizeOutcomeForPolicy policy ''deny''"
proof -
  let ?deny = "normalizeOutcomeForPolicy policy ''deny''"
  have pf: "f_Outcome (policy_finding policy c s q ?deny t d) = ?deny" for c s q t d by (simp add: policy_finding_def)
  have keep: "\<exists>f \<in> set (acc_findings (if b then add_finding f0 e a else a)). f_Outcome f = ?deny"
    if "\<exists>f \<in> set (acc_findings a). f_Outcome f = ?deny" for b f0 e a
    using that by (auto simp: add_finding_grows)
  have new: "\<exists>f \<in> set (acc_findings (if b then add_finding (policy_finding policy c s q ?deny t d) e a else a)). f_Outcome f = ?deny"
    if b for b c s q t d e a
    using that by (auto simp: add_finding_grows pf)
  from assms(2) consider
      (domain) blocked d where "blocked \<in> set (definition_strings g policy ''blocked_domains'')" "d \<in> set (mcp_Domains m)"
        "EqualFold (TrimSpace d) (TrimSpace blocked)"
    | (allowed) "definition_strings g policy ''allowed_action_classes'' \<noteq> [] \<and>
        \<not> containsNormalizedValue (definition_strings g policy ''allowed_action_classes'') (mcp_ActionClass m)"
    | (denied) "definition_strings g policy ''denied_action_classes'' \<noteq> [] \<and>
        containsNormalizedValue (definition_strings g policy ''denied_action_classes'') (mcp_ActionClass m)"
    unfolding scope_violation_def using contains_nonempty by metis
  then show ?thesis
  proof cases
    case domain
    then have "d \<in> set (blocked_pairs g policy m)" by (auto simp: blocked_pairs_def)
    then show ?thesis
      unfolding local_mcp_def assms(1) option.case Let_def
      by (intro keep add_findings_outcome [OF _ pf])
  next
    case allowed
    then show ?thesis unfolding local_mcp_def assms(1) option.case Let_def by (intro keep new)
  next
    case denied
    then show ?thesis unfolding local_mcp_def assms(1) option.case Let_def by (intro new)
  qed
qed

lemma scope_violation_local:
  assumes "policy \<in> set ps" "compileRules g (Definition policy) = []" "req_MCP request = Some m" "scope_violation g policy m"
  shows "\<exists>f \<in> set (acc_findings (fold (local_pure g request) ps acc)). f_Outcome f = normalizeOutcomeForPolicy policy ''deny''"
proof -
  obtain ps1 ps2 where ps: "ps = ps1 @ policy # ps2" using assms(1) by (meson split_list)
  let ?a = "fold (local_pure g request) ps1 acc"
  have "local_pure g request policy ?a = local_mcp g request policy ?a" using assms(2) by (simp add: local_pure_def)
  with scope_violation_finding [OF assms(3,4), of ?a] obtain f where
    "f \<in> set (acc_findings (local_pure g request policy ?a))" "f_Outcome f = normalizeOutcomeForPolicy policy ''deny''" by auto
  moreover have "prefix (acc_findings (local_pure g request policy ?a)) (acc_findings (fold (local_pure g request) ps acc))"
    unfolding ps by (simp add: local_pures_grow)
  ultimately show ?thesis using set_mono_prefix by blast
qed

lemma evaluate_findings:
  assumes "NormalizeStage (req_Stage (g_extract g request)) \<noteq> ''rag''"
    and "compileRuntimePolicies g (req_Stage (g_extract g request)) (fst (full_policies (env_float (g_checks g)) defaultDefinition
        (lookupTenantBundle r (req_TenantID (g_extract g request))) (g_extract g request))) r = (cs, r1)"
    and "portkey_path g cs (g_extract g request) r1 = (pk, r2)" "evaluateLocalPolicies g cs (g_extract g request) r2 = (lc, r3)"
  shows "\<exists>sf. Findings (fst (Evaluate g request r)) = acc_findings pk @ acc_findings lc @ sf \<and>
    Decision (fst (Evaluate g request r)) = worst_decision (acc_findings pk @ acc_findings lc @ sf) (acc_redactions pk @ acc_redactions lc)"
proof -
  let ?req = "g_extract g request"
  let ?b = "lookupTenantBundle r (req_TenantID ?req)"
  obtain full ch where full: "full_policies (env_float (g_checks g)) defaultDefinition ?b ?req = (full, ch)" by fastforce
  obtain sf sc where sl: "slow_paths g r3 (hasGatingDeny (acc_findings pk) \<or> hasGatingDeny (acc_findings lc)) ?b cs ?req = (sf, sc)"
    by fastforce
  show ?thesis
    using assms full sl by (intro exI [of _ sf]) (simp add: Evaluate_def Let_def resolve_worst [symmetric] split: prod.split)
qed

text \<open>
  C24. Scopes of MCP calls are enforced by policies without rules: outside the retrieval stage and with valid caches, if
  one of the policies an evaluation uses has no rules of its own, is not in monitor mode, and blocks a domain of
  the call, does not list its action class among the allowed ones or lists it among the denied ones, then the full
  evaluation denies the call.
\<close>

theorem action_scope_enforced:
  assumes "hash_ok g D" "local_valid g D r" "NormalizeStage (req_Stage (g_extract g request)) \<noteq> ''rag''"
    and "builtin_clean g D (req_Stage (g_extract g request))
      (fst (full_policies (env_float (g_checks g)) defaultDefinition
        (lookupTenantBundle r (req_TenantID (g_extract g request))) (g_extract g request)))"
    and "compileRuntimePolicies g (req_Stage (g_extract g request))
      (fst (full_policies (env_float (g_checks g)) defaultDefinition
        (lookupTenantBundle r (req_TenantID (g_extract g request))) (g_extract g request))) r = (cs, r1)"
    and "\<forall>p \<in> set cs. Definition p \<in> D"
    and "policy \<in> set cs" "compileRules g (Definition policy) = []" "\<not> EqualFold (TrimSpace (EnforcementMode policy)) ''monitor''"
    and "req_MCP (g_extract g request) = Some m" "scope_violation g policy m"
  shows "Decision (fst (Evaluate g request r)) = ''deny''"
proof -
  let ?req = "g_extract g request"
  have s: "local_valid g D r1" using compile_policies_valid [OF assms(2,4,5)] by simp
  obtain pk r2 where pk: "portkey_path g cs ?req r1 = (pk, r2)" "loop_frame r1 r2"
    using portkey_path_runtime [of g cs ?req r1] by blast
  obtain r3 where lc: "evaluateLocalPolicies g cs ?req r2 = (fold (local_pure g ?req) cs (cl_acc (loop_start ?req)), r3)"
    using local_policies_pure [OF assms(1) loop_frame_valid [OF assms(1) s pk(2)] assms(6)] by (auto simp: evaluateLocalPolicies_def)
  have "normalizeOutcomeForPolicy policy ''deny'' = ''deny''"
    using assms(9) by (simp add: normalizeOutcomeForPolicy_def Let_def go_string_simps EqualFold_def)
  with scope_violation_local [OF assms(7,8,10,11)] obtain f where
    "f \<in> set (acc_findings (fold (local_pure g ?req) cs (cl_acc (loop_start ?req))))" "normalizeOutcome (f_Outcome f) = ''deny''"
    by (metis normalizeOutcome_deny)
  with evaluate_findings [OF assms(3,5) pk(1) lc] show ?thesis by (auto simp: worst_decision_def)
qed

definition exec_call :: MCPContext where
  "exec_call = \<lparr>mcp_ServerLabel = ''shell'', mcp_ToolName = ''run'', mcp_ActionClass = ''exec'', mcp_Domains = []\<rparr>"

definition scope_policy :: "gomap \<Rightarrow> PolicyBundle" where
  "scope_policy rules = demo_policy ''v1'' ((''denied_action_classes'', VStrs [''exec'']) # rules)"

definition scope_request :: "gomap \<Rightarrow> EvaluateRequest" where
  "scope_request rules = (demo_request ''input'' ''hello'' [])\<lparr>req_MCP := Some exec_call, req_Policies := [scope_policy rules]\<rparr>"

section \<open>Provider bindings and the two phases\<close>

definition permutes_results :: "(('a \<times> 'b) list \<Rightarrow> ('a \<times> 'b) list) \<Rightarrow> bool" where
  "permutes_results arr \<longleftrightarrow> (\<forall>xs. mset (arr xs) = mset xs)"

lemma worst_decision_set: "set fs = set fs' \<Longrightarrow> worst_decision fs rs = worst_decision fs' rs"
  by (simp add: worst_decision_def)

lemma provider_findings_set:
  assumes "permutes_results (g_arrival g)"
  shows "set (fst (evaluateProviderBindings g r cancelled b ps request)) =
    (\<Union>x \<in> set (List.map_filter (run_adapter g r cancelled request) (binding_tasks b ps request)). set (fst x))"
proof -
  have "set (g_arrival g xs) = set xs" for xs using assms by (metis permutes_results_def set_mset_mset)
  then show ?thesis by (simp add: evaluateProviderBindings_def Let_def)
qed

text \<open>
  The order in which the providers answer does not change the decision: for any two orders of arrival, the findings
  of the bindings, merged between the same other findings, lead to the same decision.
\<close>

theorem arrival_order_irrelevant:
  assumes "permutes_results (g_arrival g)" "permutes_results arr"
  shows "fst (resolveDecision (before @ fst (evaluateProviderBindings (g\<lparr>g_arrival := arr\<rparr>) r cancelled b ps request) @ after) rs) =
    fst (resolveDecision (before @ fst (evaluateProviderBindings g r cancelled b ps request) @ after) rs)"
proof -
  have "run_adapter (g\<lparr>g_arrival := arr\<rparr>) r cancelled request = run_adapter g r cancelled request"
    by (rule ext) (simp add: run_adapter_def)
  then have "set (fst (evaluateProviderBindings (g\<lparr>g_arrival := arr\<rparr>) r cancelled b ps request)) =
      set (fst (evaluateProviderBindings g r cancelled b ps request))"
    using provider_findings_set [of "g\<lparr>g_arrival := arr\<rparr>"] provider_findings_set [OF assms(1)] assms(2) by simp
  then show ?thesis unfolding resolve_worst by (intro worst_decision_set) simp
qed

definition text_finding :: "string \<Rightarrow> Finding" where
  "text_finding outcome =
     \<lparr>f_PolicyID = [], f_PolicyVersionID = [], f_ProviderID = [], f_ProviderType = [], f_Category = ''toxicity'', f_Severity = ''high'',
      f_Confidence = 1, f_Outcome = outcome, f_Summary = ''found'', f_Details = []\<rparr>"

text \<open>One provider that always reports, and one that never answers.\<close>

definition bound_guard :: guard_env where
  "bound_guard = demo_guard\<lparr>g_adapters := [''webhook'' \<mapsto> \<lambda>c t req prov pol. Inr [text_finding ''deny'']]\<rparr>"

definition mute_guard :: guard_env where
  "mute_guard = demo_guard\<lparr>g_adapters := [''webhook'' \<mapsto> \<lambda>c t req prov pol. Inl ''context deadline exceeded'']\<rparr>"

definition bound_policy :: "string \<Rightarrow> PolicyBundle" where
  "bound_policy version = (demo_policy version [])\<lparr>ProviderBindings :=
     [\<lparr>pb_ProviderID = ''w'', pb_ProviderType = [], pb_Stage = [], pb_Priority = 1, pb_Enabled = True\<rparr>]\<rparr>"

definition bound_bundle :: TenantBundle where
  "bound_bundle = \<lparr>tb_TenantID = ''t'', tb_Revision = ''1'', tb_RefreshedAt = 0,
     tb_Providers = [\<lparr>prov_ID = ''w'', prov_Name = ''hook'', prov_Type = ''webhook'', prov_Mode = [], prov_CustomerID = [],
       prov_Enabled = True, prov_Region = [], prov_Endpoint = [], prov_Credentials = [], prov_ConnectionMeta = []\<rparr>],
     tb_Policies = [bound_policy ''v1'', bound_policy ''v2''], tb_MCPToolPolicies = [], tb_Metadata = []\<rparr>"

theorem arrival_order_irrelevant_witness:
  "fst (resolveDecision ([] @ fst (evaluateProviderBindings (bound_guard\<lparr>g_arrival := rev\<rparr>) new_runtime False bound_bundle
      [bound_policy ''v1'', bound_policy ''v2''] (demo_request ''input'' ''hi'' [])) @ []) []) = ''deny''"
proof -
  let ?ps = "[bound_policy ''v1'', bound_policy ''v2'']" and ?req = "demo_request ''input'' ''hi'' []"
  have p: "permutes_results (g_arrival bound_guard)" "permutes_results rev"
    by (simp_all add: permutes_results_def bound_guard_def demo_guard_def)
  have "fst (resolveDecision ([] @ fst (evaluateProviderBindings bound_guard new_runtime False bound_bundle ?ps ?req) @ []) []) = ''deny''"
    by code_simp
  with arrival_order_irrelevant [OF p, of "[]" new_runtime False bound_bundle ?ps ?req "[]" "[]"] show ?thesis by simp
qed

text \<open>
  Failing providers fail open: when every adapter returns an error, as it does after a timeout, the provider bindings
  add no finding, so a request only they would have stopped is allowed.
\<close>

theorem failed_providers_fail_open:
  assumes "permutes_results (g_arrival g)"
    and "\<forall>adapter \<in> ran (g_adapters g). \<forall>cancelled t req prov pol. \<exists>err. adapter cancelled t req prov pol = Inl err"
  shows "fst (evaluateProviderBindings g r cancelled b ps request) = []"
proof -
  have "fst y = []" if "run_adapter g r cancelled request task = Some y" for task y
  proof -
    obtain policy binding provider where t: "task = (policy, binding, provider)" by (metis prod_cases3)
    from that obtain adapter where a: "g_adapters g (TrimSpace (prov_Type provider)) = Some adapter"
      by (auto simp: run_adapter_def t split: option.splits)
    with assms(2) obtain err where "adapter cancelled (resolveTimeout r policy) request provider policy = Inl err"
      by (meson ranI)
    with that a show ?thesis by (auto simp: run_adapter_def t)
  qed
  then have "set (fst (evaluateProviderBindings g r cancelled b ps request)) = {}"
    unfolding provider_findings_set [OF assms(1)] by (auto simp: map_filter_def)
  then show ?thesis by simp
qed

theorem failed_providers_fail_open_witness:
  "fst (evaluateProviderBindings mute_guard new_runtime False bound_bundle [bound_policy ''v1''] (demo_request ''input'' ''hi'' [])) = []"
  by (rule failed_providers_fail_open) (simp_all add: permutes_results_def mute_guard_def demo_guard_def)

text \<open>
  What cancelling the slow paths is worth: once the fast paths have a denial or a sandboxing among their findings,
  the decision is one of the two whatever the slow paths would add; but it is the decision of the fast findings alone
  only if they already deny or nothing of the slow paths denies.
\<close>

theorem fast_verdict_settles:
  assumes "hasGatingDeny fast"
  shows "fst (resolveDecision (fast @ slow) rs) \<in> {''deny'', ''sandbox''} \<and>
    (fst (resolveDecision (fast @ slow) rs) = fst (resolveDecision fast rs) \<longleftrightarrow>
       (\<exists>f \<in> set fast. normalizeOutcome (f_Outcome f) = ''deny'') \<or>
       (\<forall>f \<in> set slow. normalizeOutcome (f_Outcome f) \<noteq> ''deny''))"
  using assms unfolding resolve_worst worst_decision_def hasGatingDeny_def list_ex_iff by auto

theorem fast_verdict_settles_witness:
  "fst (resolveDecision ([text_finding ''sandbox''] @ [text_finding ''deny'']) []) \<noteq> fst (resolveDecision [text_finding ''sandbox''] [])"
proof -
  have "hasGatingDeny [text_finding ''sandbox'']" by code_simp
  from fast_verdict_settles [OF this, of "[text_finding ''deny'']" "[]"]
  show ?thesis by (simp add: text_finding_def normalizeOutcome_def go_string_simps)
qed

section \<open>Tenant bundles\<close>

lemma rules_frame:
  "tenantBundles (snd (compiledRulesForDefinition g d r)) = tenantBundles r"
  "refreshedTenants (snd (compiledRulesForDefinition g d r)) = refreshedTenants r"
  by (simp_all add: compiledRulesForDefinition_def Let_def split: option.split)

lemma definition_frame:
  assumes "compiledDefinitionForPolicy g p stage r = (d, r')"
  shows "tenantBundles r' = tenantBundles r" "refreshedTenants r' = refreshedTenants r"
  using assms by (auto simp: compiledDefinitionForPolicy_def Let_def split: if_splits option.splits)

lemma prewarm_frame:
  "tenantBundles (prewarm_policy g p r) = tenantBundles r" "refreshedTenants (prewarm_policy g p r) = refreshedTenants r"
  by (auto simp: prewarm_policy_def Let_def rules_frame split: prod.split dest: definition_frame)

lemma prewarm_bundle_frame:
  "tenantBundles (prewarmTenantBundle g b r) = tenantBundles r" "refreshedTenants (prewarmTenantBundle g b r) = refreshedTenants r"
proof -
  have "tenantBundles (fold (prewarm_policy g) ps r) = tenantBundles r \<and> refreshedTenants (fold (prewarm_policy g) ps r) = refreshedTenants r" for ps
    by (induction ps arbitrary: r) (simp_all add: prewarm_frame)
  then show "tenantBundles (prewarmTenantBundle g b r) = tenantBundles r" "refreshedTenants (prewarmTenantBundle g b r) = refreshedTenants r"
    by (simp_all add: prewarmTenantBundle_def)
qed

text \<open>
  A refreshed bundle is the one that is looked up: after \<open>RefreshTenant\<close>, looking up an id that equals the tenant's up
  to surrounding space gives the bundle, with its id trimmed and its time filled in when it had none; every other tenant
  keeps its bundle, and a bundle without a tenant id changes nothing.
\<close>

theorem refresh_then_lookup:
  "lookupTenantBundle (RefreshTenant g now b r) tid =
     (if TrimSpace tid = TrimSpace (tb_TenantID b) \<and> TrimSpace tid \<noteq> []
      then Some (b\<lparr>tb_TenantID := TrimSpace tid, tb_RefreshedAt := (if tb_RefreshedAt b = 0 then now else tb_RefreshedAt b)\<rparr>)
      else lookupTenantBundle r tid)"
  by (auto simp: lookupTenantBundle_def RefreshTenant_def Let_def prewarm_bundle_frame)

section \<open>Call budgets\<close>

lemma millis_exact: "0 < v \<Longrightarrow> v \<le> 9223372036854 \<Longrightarrow> millis v = v * 1000000"
  by (simp add: millis_def wrap64_def)

lemma envInt_result: "envInt raw 0 = 0 \<or> envInt raw 0 > 0"
  by (auto simp: envInt_def Let_def split: option.split)

definition budget_ok :: "int \<Rightarrow> bool" where
  "budget_ok v \<longleftrightarrow> v \<le> 9223372036854"

lemma foldl_keeps: "P a \<Longrightarrow> (\<And>b x. P b \<Longrightarrow> x \<in> set xs \<Longrightarrow> P (f b x)) \<Longrightarrow> P (foldl f a xs)"
  by (induction xs arbitrary: a) auto

lemma category_budgets:
  fixes h :: "string \<Rightarrow> string"
  assumes "\<forall>kv \<in> set (m :: (string \<times> int) list). budget_ok (snd kv)"
  shows "\<forall>d \<in> ran (foldl (\<lambda>m kv. if snd kv > 0 then m(h (fst kv) \<mapsto> millis (snd kv)) else m) Map.empty m). 0 < d"
proof (rule foldl_keeps [where P = "\<lambda>m. \<forall>d \<in> ran m. 0 < d"])
  fix b :: "string \<rightharpoonup> int" and kv assume b: "\<forall>d \<in> ran b. 0 < d" and kv: "kv \<in> set m"
  have "ran (b(h (fst kv) \<mapsto> millis (snd kv))) \<subseteq> insert (millis (snd kv)) (ran b)" by (auto simp: ran_def)
  moreover have "0 < millis (snd kv)" if "snd kv > 0" using assms kv that millis_exact [of "snd kv"] by (simp add: budget_ok_def)
  ultimately show "\<forall>d \<in> ran (if snd kv > 0 then b(h (fst kv) \<mapsto> millis (snd kv)) else b). 0 < d"
    using b by (cases "snd kv > 0") auto
qed simp

lemma update_values: "set (AList.update k v m) \<subseteq> insert (k, v) (set m)"
  by (induction m) auto

lemma merged_budgets:
  assumes "\<forall>kv \<in> set m. budget_ok (snd kv)" "\<forall>kv \<in> set parsed. budget_ok (snd kv)"
  shows "\<forall>kv \<in> set (foldl (\<lambda>m kv. AList.update (fst kv) (snd kv) m) m parsed). budget_ok (snd kv)"
  by (rule foldl_keeps [where P = "\<lambda>m. \<forall>kv \<in> set m. budget_ok (snd kv)", OF assms(1)]) (use assms(2) update_values in fastforce)

lemma resolve_budget:
  assumes "0 < adapterTimeout r" "\<And>d. d \<in> ran (perCategoryTimeouts r) \<Longrightarrow> 0 < d" "budget_ok (TimeoutMs policy)"
  shows "0 < resolveTimeout r policy"
  using assms millis_exact [of "TimeoutMs policy"]
  by (auto simp: resolveTimeout_def Let_def budget_ok_def intro: ranI split: option.split)

text \<open>
  Every provider call has a positive budget: in a runtime built by \<open>New\<close>, if the configured, environment and policy
  timeouts are at most 9223372036854 milliseconds, the resolved timeout is positive for every policy, whatever the
  environment and the category map hold.  The bound is sharp: one millisecond more and the product with the nanoseconds
  of a millisecond wraps to a negative duration, with which a call fails at once.
\<close>

theorem resolved_timeout_positive:
  assumes "\<forall>cfg \<in> set opts. budget_ok (AdapterTimeoutMs cfg) \<and> (\<forall>kv \<in> set (PerCategoryTimeoutsMs cfg). budget_ok (snd kv))"
    and "\<forall>raw m. unmarshal raw = Some m \<longrightarrow> (\<forall>kv \<in> set m. budget_ok (snd kv))"
    and "budget_ok (envInt (getenv ''DEEPINTSHIELD_GUARD_ADAPTER_TIMEOUT_MS'') 0)" "budget_ok (TimeoutMs policy)"
  shows "0 < resolveTimeout (New getenv unmarshal opts) policy \<and>
    resolveTimeout (New getenv unmarshal opts) (policy\<lparr>TimeoutMs := 9223372036855\<rparr>) < 0"
proof -
  let ?r = "New getenv unmarshal opts"
  let ?cfg = "case opts of [] \<Rightarrow> \<lparr>AdapterTimeoutMs = 0, RAGChunkParallelism = 0, PerCategoryTimeoutsMs = []\<rparr> | c # _ \<Rightarrow> c"
  have cfg: "budget_ok (AdapterTimeoutMs ?cfg)" "\<forall>kv \<in> set (PerCategoryTimeoutsMs ?cfg). budget_ok (snd kv)"
    using assms(1) by (auto simp: budget_ok_def split: list.split)
  have parsed: "\<forall>kv \<in> set (if raw = [] then [] else case unmarshal raw of None \<Rightarrow> [] | Some m \<Rightarrow> m). budget_ok (snd kv)" for raw
    using assms(2) by (cases "unmarshal raw") simp_all
  have "0 < adapterTimeout ?r"
    using cfg(1) assms(3) millis_exact by (auto simp: New_def Let_def budget_ok_def)
  moreover have "\<forall>d \<in> ran (perCategoryTimeouts ?r). 0 < d"
    unfolding New_def Let_def GuardRuntime.select_convs by (rule category_budgets [OF merged_budgets [OF cfg(2) parsed]])
  ultimately have "0 < resolveTimeout ?r policy" using resolve_budget [OF _ _ assms(4)] by blast
  then show ?thesis by (simp add: resolveTimeout_def millis_def wrap64_def)
qed

theorem resolved_timeout_positive_witness:
  "0 < resolveTimeout (New (\<lambda>name. ''250'') (\<lambda>raw. Some [(''pii'', 150)]) []) terse_policy"
proof -
  have "budget_ok (envInt ''250'' 0)" "budget_ok (TimeoutMs terse_policy)" by code_simp+
  with resolved_timeout_positive [of "[]" "\<lambda>raw. Some [(''pii'', 150)]" "\<lambda>name. ''250''" terse_policy] show ?thesis
    by (simp add: budget_ok_def)
qed

section \<open>Policies left unenforced\<close>

text \<open>
  The no-match fast path drops a policy's MCP scopes: a policy that denies the action class \<open>exec\<close> refuses an
  \<open>exec\<close> call when it has no rules, and allows the same call when it also has a rule that does not match the text.
\<close>

theorem fast_path_drops_action_scope:
  "Decision (fst (Evaluate demo_guard (scope_request []) new_runtime)) = ''deny'' \<and>
   Decision (fst (Evaluate demo_guard (scope_request [(''rules'', VList [rule_value ''secret'' ''deny''])]) new_runtime)) = ''allow''"
  by code_simp

text \<open>A caller's policy without rules that claims the hash of another definition.\<close>

definition forged_policy :: PolicyBundle where
  "forged_policy = demo_policy [] [(definitionHashKey, VStr (computeDefinitionHash demo_guard (Definition rule_policy)))]"

definition honest_request :: EvaluateRequest where
  "honest_request = (demo_request ''input'' ''my secret'' [])\<lparr>req_Policies := [rule_policy]\<rparr>"

definition forged_request :: EvaluateRequest where
  "forged_request = (demo_request ''input'' ''hello'' [])\<lparr>req_Policies := [forged_policy]\<rparr>"

text \<open>
  A forged definition hash disarms another policy: a definition may carry a hash of its own choice, and the cache of
  compiled rules trusts it.  After one request with a policy that has no rules but the hash of another policy's
  definition, a text the other policy's rule denies is allowed.
\<close>

theorem forged_hash_disarms_rules:
  "Decision (fst (Evaluate demo_guard honest_request new_runtime)) = ''deny'' \<and>
   Decision (fst (Evaluate demo_guard honest_request (snd (Evaluate demo_guard forged_request new_runtime)))) = ''allow''"
  by code_simp

end
