(* ===== verification/Cards.thy ===== *)
theory Cards
  imports GuardTypes
begin

text \<open>
  The card compiler of the guard, \<^verbatim>\<open>deepintshield_guard/internal/cards/compiler.go\<close>: the cards an operator selects in
  the policy builder are turned into the checks, blocked domains and action classes of a policy definition.

  The preset catalogue is a JSON file embedded into the program; it is the field \<open>ce_presets\<close>, and \<open>json.Marshal\<close>
  and the rendering of floats are fields too.  \<open>json_copy\<close> is the copy of a value through JSON: numbers become
  floats and typed slices and maps become untyped ones (for texts in UTF-8 and integers a float holds exactly).
\<close>

record presetDefinition =
  Literals :: "string list"
  Regex :: "string list"

record card_env =
  ce_float :: "rat \<Rightarrow> string"
  ce_Marshal :: "goval \<Rightarrow> string"
  ce_presets :: "string \<rightharpoonup> presetDefinition"

record builderCardState =
  card_ID :: string
  card_Enabled :: bool
  card_Action :: string
  card_Severity :: string
  card_Summary :: string
  SelectedPresets :: "string list"
  SelectedCategories :: "string list"
  ModelAllowlist :: "string list"
  InverseMatch :: bool
  BlockedDomains :: "string list"
  AllowedActionClasses :: "string list"
  DeniedActionClasses :: "string list"
  MaxCharacters :: string
  MaxWords :: string
  MaxSentences :: string
  CustomPattern :: string
  CustomTerms :: string
  RequireValidURLs :: bool

record cardEmission =
  em_Checks :: "gomap list"
  em_BlockedDomains :: "string list"
  em_AllowedActionClasses :: "string list"
  em_DeniedActionClasses :: "string list"

section \<open>Values\<close>

fun json_copy :: "goval \<Rightarrow> goval" where
  "json_copy (VInt n) = VFloat (of_int n)"
| "json_copy (VStrs ss) = VList (map VStr ss)"
| "json_copy (VList vs) = VList (map json_copy vs)"
| "json_copy (VMap kvs) = VMap (map (\<lambda>(k, v). (k, json_copy v)) kvs)"
| "json_copy (VStrMap kvs) = VMap (map (\<lambda>(k, s). (k, VStr s)) kvs)"
| "json_copy v = v"

definition cloneDefinition :: "gomap \<Rightarrow> gomap" where
  "cloneDefinition d = map (\<lambda>(k, v). (k, json_copy v)) d"

definition card_mapValue :: "goval option \<Rightarrow> gomap" where
  "card_mapValue value = (case value of Some (VMap m) \<Rightarrow> m | _ \<Rightarrow> [])"

definition asObjectArray :: "goval option \<Rightarrow> gomap list" where
  "asObjectArray value =
     (case value of Some (VList items) \<Rightarrow> List.map_filter (\<lambda>item. case item of VMap m \<Rightarrow> Some m | _ \<Rightarrow> None) items | _ \<Rightarrow> [])"

definition objectArray :: "gomap list \<Rightarrow> goval" where
  "objectArray values = VList (map VMap values)"

definition stringArray :: "string list \<Rightarrow> goval" where
  "stringArray values = VList (map VStr values)"

definition card_stringValue :: "card_env \<Rightarrow> goval option \<Rightarrow> string" where
  "card_stringValue e value =
     (case value of None \<Rightarrow> [] | Some VNil \<Rightarrow> [] | Some (VStr s) \<Rightarrow> s | Some v \<Rightarrow> Sprint (ce_float e) v)"

definition dedupeStrings :: "string list \<Rightarrow> string list" where
  "dedupeStrings values = sort (dedupe_loop [] values)"

definition card_stringSlice :: "card_env \<Rightarrow> goval option \<Rightarrow> string list" where
  "card_stringSlice e value =
     (case value of
        Some (VStrs ss) \<Rightarrow> dedupeStrings ss
      | Some (VList items) \<Rightarrow>
          dedupeStrings (filter (\<lambda>r. r \<noteq> [] \<and> r \<noteq> ''<nil>'') (map (\<lambda>i. TrimSpace (card_stringValue e (Some i))) items))
      | _ \<Rightarrow> [])"

definition normalizeStringSlice :: "card_env \<Rightarrow> goval option \<Rightarrow> string list" where
  "normalizeStringSlice e value = dedupeStrings (map (\<lambda>v. ToLower (TrimSpace v)) (card_stringSlice e value))"

definition ParseBool :: "string \<Rightarrow> bool option" where
  "ParseBool s =
     (if s \<in> {''1'', ''t'', ''T'', ''TRUE'', ''true'', ''True''} then Some True
      else if s \<in> {''0'', ''f'', ''F'', ''FALSE'', ''false'', ''False''} then Some False
      else None)"

definition card_boolValue :: "goval option \<Rightarrow> bool \<Rightarrow> bool" where
  "card_boolValue value fallback =
     (case value of
        Some (VBool b) \<Rightarrow> b
      | Some (VStr s) \<Rightarrow> (case ParseBool (TrimSpace s) of Some b \<Rightarrow> b | None \<Rightarrow> fallback)
      | _ \<Rightarrow> fallback)"

definition normalizeAction :: "string \<Rightarrow> string" where
  "normalizeAction value =
     (let v = ToLower (TrimSpace value) in if v \<in> {''allow'', ''redact'', ''sandbox''} then v else ''deny'')"

definition card_normalizeSeverity :: "string \<Rightarrow> string" where
  "card_normalizeSeverity value =
     (let v = ToLower (TrimSpace value) in if v \<in> {''critical'', ''high'', ''medium''} then v else ''low'')"

definition firstNonNil :: "goval option list \<Rightarrow> goval option" where
  "firstNonNil values = (case filter (\<lambda>v. v \<noteq> None \<and> v \<noteq> Some VNil) values of [] \<Rightarrow> None | v # _ \<Rightarrow> v)"

definition card_containsNormalizedValue :: "string list \<Rightarrow> string \<Rightarrow> bool" where
  "card_containsNormalizedValue values target0 =
     (let target = ToLower (TrimSpace target0) in
      target \<noteq> [] \<and> list_ex (\<lambda>v. ToLower (TrimSpace v) = target) values)"

definition parsePositiveInt :: "string \<Rightarrow> int" where
  "parsePositiveInt value = (case Atoi (TrimSpace value) of Some n \<Rightarrow> (if n \<le> 0 then 0 else n) | None \<Rightarrow> 0)"

text \<open>\<open>strings.FieldsFunc\<close>: the non-empty runs between separators.\<close>

fun fields_by :: "(byte \<Rightarrow> bool) \<Rightarrow> string \<Rightarrow> string \<Rightarrow> string list" where
  "fields_by sep acc [] = (if acc = [] then [] else [acc])"
| "fields_by sep acc (c # cs) =
     (if sep c then (if acc = [] then [] else [acc]) @ fields_by sep [] cs else fields_by sep (acc @ [c]) cs)"

definition parseList :: "string \<Rightarrow> string list" where
  "parseList raw =
     (if TrimSpace raw = [] then []
      else dedupeStrings (filter (\<lambda>t. t \<noteq> []) (map TrimSpace
        (fields_by (\<lambda>c. c \<in> {CHR 0x0A, CHR '','', CHR '';''}) [] raw))))"

text \<open>A \<open>stringSet\<close> with its members in the order they were added, and its sorted values.\<close>

definition set_addAll :: "string list \<Rightarrow> string list \<Rightarrow> string list" where
  "set_addAll s values = s @ filter (\<lambda>t. t \<noteq> []) (map TrimSpace values)"

definition set_values :: "string list \<Rightarrow> string list" where
  "set_values s = sort (remdups s)"

section \<open>Rules\<close>

definition msPresetDefaults :: "(string \<times> string list) list" where
  "msPresetDefaults =
     [(''owasp-llm01-prompt-injection'', [''ms_prompt_injection_direct_override'', ''ms_prompt_injection_delimiter_attack'', ''ms_prompt_injection_roleplay_jailbreak'', ''ms_prompt_injection_encoding_obfuscation'', ''ms_prompt_injection_context_manipulation'', ''ms_prompt_injection_multi_turn_escalation'', ''ms_evasion_unicode'', ''ms_exec_dangerous_commands'', ''ms_exfiltration_network'', ''ms_privilege_escalation'']),
      (''owasp-llm02-sensitive-information-disclosure'', [''ms_pii_detection'', ''ms_secrets_credentials'']),
      (''owasp-llm04-data-model-poisoning'', [''ms_rag_memory_poisoning'', ''ms_evasion_unicode'']),
      (''owasp-llm05-improper-output-handling'', [''ms_output_guardrails'', ''ms_injection_sql_nosql'']),
      (''owasp-llm06-excessive-agency'', [''ms_mcp_tool_threats'', ''ms_exec_dangerous_commands'', ''ms_exfiltration_network'', ''ms_privilege_escalation'']),
      (''owasp-llm07-system-prompt-leakage'', [''ms_prompt_injection_canary_leak'', ''ms_output_guardrails'']),
      (''owasp-llm08-vector-embedding-weaknesses'', [''ms_rag_memory_poisoning'', ''ms_evasion_unicode'']),
      (''owasp-llm09-misinformation'', [''no_evidence_claims'', ''unsupported_certainty'']),
      (''domain-bfsi-runtime-protection'', [''payment_card_data'', ''finance_override'', ''wire_transfer_escalation'']),
      (''domain-healthcare-clinical-safety'', [''phi_markers'', ''unsafe_clinical_instructions'', ''unsupported_diagnosis'', ''high_stakes_guidance'']),
      (''domain-insurance-claims-controls'', [''claimant_pii'', ''claims_override'', ''fraud_score_manipulation'', ''verification_bypass'']),
      (''domain-enterprise-copilot-baseline'', [''prompt_injection'', ''prompt_leakage'', ''credential_exposure'', ''hidden_instructions'', ''role_discovery'']),
      (''domain-customer-support-assistant'', [''refund_override'', ''ms_pii_detection'', ''cross_context_leak'']),
      (''domain-development-assistant'', [''shell_exec'', ''script_payload'', ''dependency_exfiltration'', ''ms_exec_dangerous_commands'', ''embedded_secrets''])]"

definition cardScopes :: "(string \<times> string list) list" where
  "cardScopes =
     [(''owasp-llm01-prompt-injection'', [''input'', ''action'', ''mcp'', ''rag'']),
      (''owasp-llm02-sensitive-information-disclosure'', [''input'', ''output'', ''action'', ''mcp'', ''rag'']),
      (''owasp-llm03-supply-chain'', [''input'', ''action'', ''mcp'', ''rag'']),
      (''owasp-llm04-data-model-poisoning'', [''input'', ''rag'', ''mcp'']),
      (''owasp-llm05-improper-output-handling'', [''output'', ''action'', ''mcp'']),
      (''owasp-llm06-excessive-agency'', [''action'', ''mcp'']),
      (''owasp-llm07-system-prompt-leakage'', [''input'', ''output'']),
      (''owasp-llm08-vector-embedding-weaknesses'', [''input'', ''rag'', ''mcp'']),
      (''owasp-llm09-misinformation'', [''input'', ''output'']),
      (''owasp-llm10-unbounded-consumption'', [''input'', ''action'', ''mcp'', ''rag'']),
      (''domain-bfsi-runtime-protection'', [''input'', ''action'', ''mcp'']),
      (''domain-healthcare-clinical-safety'', [''input'', ''output'']),
      (''domain-insurance-claims-controls'', [''input'', ''action'', ''mcp'']),
      (''domain-enterprise-copilot-baseline'', [''input'', ''output'', ''action'', ''mcp'']),
      (''domain-customer-support-assistant'', [''input'', ''output'']),
      (''domain-development-assistant'', [''input'', ''action'', ''mcp''])]"

text \<open>\<open>regexp.QuoteMeta\<close>\<close>

definition QuoteMeta :: "string \<Rightarrow> string" where
  "QuoteMeta s = concat (map (\<lambda>c. if c \<in> set ''.+*?()|[]{}^$'' \<or> c = CHR 0x5C then [CHR 0x5C, c] else [c]) s)"

definition default_presets :: "string \<Rightarrow> string list" where
  "default_presets ID = (case map_of msPresetDefaults ID of None \<Rightarrow> [] | Some ps \<Rightarrow> ps)"

definition mergeMSDefaults :: "builderCardState \<Rightarrow> string list" where
  "mergeMSDefaults state =
     (let defaults = default_presets (card_ID state) in
      if defaults = [] then SelectedPresets state else dedupeStrings (SelectedPresets state @ defaults))"

definition buildAlternationRegex :: "string list \<Rightarrow> string list \<Rightarrow> string \<Rightarrow> string" where
  "buildAlternationRegex literals regexes customPattern =
     (let parts = map (\<lambda>l. QuoteMeta (TrimSpace l)) (filter (\<lambda>l. TrimSpace l \<noteq> []) (dedupeStrings literals)) @
                  filter (\<lambda>r. r \<noteq> []) (map TrimSpace (dedupeStrings regexes)) @
                  (if TrimSpace customPattern \<noteq> [] then [TrimSpace customPattern] else [])
      in Join parts ''|'')"

text \<open>The literals and regular expressions of the presets that exist.\<close>

definition preset_parts :: "card_env \<Rightarrow> string list \<Rightarrow> (presetDefinition \<Rightarrow> string list) \<Rightarrow> string list" where
  "preset_parts e ids part =
     concat (map (\<lambda>ID. case ce_presets e ID of None \<Rightarrow> [] | Some d \<Rightarrow> part d) (normalizeStringSlice e (Some (VStrs ids))))"

definition emitStandardRegexRule :: "card_env \<Rightarrow> builderCardState \<Rightarrow> string" where
  "emitStandardRegexRule e state =
     (let ids = mergeMSDefaults state in
      buildAlternationRegex (preset_parts e ids Literals @ parseList (CustomTerms state)) (preset_parts e ids Regex) (CustomPattern state))"

definition buildPatternRule :: "card_env \<Rightarrow> string list \<Rightarrow> string \<Rightarrow> string" where
  "buildPatternRule e ids customPattern = buildAlternationRegex (preset_parts e ids Literals) (preset_parts e ids Regex) customPattern"

section \<open>Checks\<close>

definition stateSummary :: "builderCardState \<Rightarrow> string \<Rightarrow> string" where
  "stateSummary state fallback = (if TrimSpace (card_Summary state) \<noteq> [] then TrimSpace (card_Summary state) else fallback)"

definition stateSeverity :: "builderCardState \<Rightarrow> string \<Rightarrow> string" where
  "stateSeverity state fallback =
     (let severity = card_normalizeSeverity (card_Severity state) in
      if severity = ''low'' \<and> ToLower (TrimSpace fallback) \<noteq> ''low'' \<and> TrimSpace (card_Severity state) = [] then fallback
      else if TrimSpace severity = [] then fallback
      else severity)"

definition buildCheck :: "builderCardState \<Rightarrow> int \<Rightarrow> string \<Rightarrow> gomap \<Rightarrow> gomap" where
  "buildCheck state priority name config =
     (let action0 = normalizeAction (card_Action state); action = (if action0 = [] then ''deny'' else action0) in
      [(''name'', VStr name), (''enabled'', VBool (card_Enabled state)), (''priority'', VInt priority), (''config'', VMap config),
       (''action'', VMap [(''on_fail'', VStr action), (''redact_with'', VStr ''[REDACTED]'')])])"

text \<open>The entries every configuration has.\<close>

definition common_config :: "builderCardState \<Rightarrow> string \<Rightarrow> string \<Rightarrow> gomap" where
  "common_config state severity summary =
     [(''card_id'', VStr (card_ID state)), (''severity'', VStr (stateSeverity state severity)), (''summary'', VStr (stateSummary state summary))]"

definition buildRegexCheck :: "builderCardState \<Rightarrow> int \<Rightarrow> string \<Rightarrow> string \<Rightarrow> gomap" where
  "buildRegexCheck state priority patternBody category =
     buildCheck state priority ''regex_match''
       (common_config state ''medium'' ''Guardrail policy triggered'' @
        [(''category'', VStr category), (''rule'', VStr (''(?i)('' @ patternBody @ '')''))])"

text \<open>The regular-expression check of a card, when its rule is not empty.\<close>

definition rule_check :: "card_env \<Rightarrow> builderCardState \<Rightarrow> int \<Rightarrow> string \<Rightarrow> gomap list" where
  "rule_check e state priority category =
     (let r = emitStandardRegexRule e state in if r \<noteq> [] then [buildRegexCheck state priority r category] else [])"

definition checks_only :: "gomap list \<Rightarrow> cardEmission" where
  "checks_only checks = \<lparr>em_Checks = checks, em_BlockedDomains = [], em_AllowedActionClasses = [], em_DeniedActionClasses = []\<rparr>"

section \<open>The cards\<close>

definition emitPromptInjectionCard :: "card_env \<Rightarrow> builderCardState \<Rightarrow> cardEmission" where
  "emitPromptInjectionCard e state =
     checks_only (rule_check e state 10 ''prompt_injection'' @
       (if card_containsNormalizedValue (SelectedPresets state) ''obfuscated_prompt''
        then [buildCheck state 20 ''detect_gibberish'' (common_config state ''high'' ''Obfuscated prompt content detected'')] else []))"

definition pii_card_check :: "builderCardState \<Rightarrow> int \<Rightarrow> string list \<Rightarrow> string \<Rightarrow> string \<Rightarrow> gomap" where
  "pii_card_check state priority categories severity summary =
     buildCheck state priority ''detect_pii'' (common_config state severity summary @ [(''categories'', stringArray categories)])"

definition url_check :: "builderCardState \<Rightarrow> int \<Rightarrow> string \<Rightarrow> string \<Rightarrow> gomap list" where
  "url_check state priority severity summary =
     (if RequireValidURLs state then [buildCheck state priority ''valid_urls'' (common_config state severity summary)] else [])"

definition emitSensitiveInfoCard :: "card_env \<Rightarrow> builderCardState \<Rightarrow> cardEmission" where
  "emitSensitiveInfoCard e state =
     checks_only ((if SelectedCategories state \<noteq> []
        then [pii_card_check state 10 (SelectedCategories state) ''high'' ''Sensitive information detected''] else []) @
       rule_check e state 20 ''sensitive_information'')"

definition emitSupplyChainCard :: "builderCardState \<Rightarrow> string \<Rightarrow> cardEmission" where
  "emitSupplyChainCard state scope =
     (checks_only (if ModelAllowlist state \<noteq> []
        then [buildCheck state 10 ''model_whitelist'' (common_config state ''high'' ''Model or supplier inventory policy violated'' @
               [(''models'', stringArray (ModelAllowlist state)), (''inverse'', VBool (InverseMatch state))])] else []))
     \<lparr>em_BlockedDomains := (if scope \<in> {''action'', ''mcp'', ''rag''} then dedupeStrings (BlockedDomains state) else [])\<rparr>"

definition emitPoisoningCard :: "card_env \<Rightarrow> builderCardState \<Rightarrow> cardEmission" where
  "emitPoisoningCard e state = checks_only (rule_check e state 10 ''data_model_poisoning'')"

definition emitImproperOutputCard :: "card_env \<Rightarrow> builderCardState \<Rightarrow> cardEmission" where
  "emitImproperOutputCard e state =
     checks_only (
       (let formats = dedupeStrings (SelectedCategories state) in
        map (\<lambda>(i, format). buildCheck state (10 + int i) ''contains_code''
               (common_config state ''high'' ''Generated content contains code'' @ [(''format'', VStr format)])) (enumerate 0 formats)) @
       rule_check e state 40 ''improper_output_handling'' @
       url_check state 50 ''high'' ''Generated output contains malformed URLs'')"

definition emitAgencyCard :: "builderCardState \<Rightarrow> cardEmission" where
  "emitAgencyCard state =
     \<lparr>em_Checks = [], em_BlockedDomains = dedupeStrings (BlockedDomains state),
      em_AllowedActionClasses = dedupeStrings (AllowedActionClasses state),
      em_DeniedActionClasses = dedupeStrings (DeniedActionClasses state)\<rparr>"

definition emitSystemPromptLeakageCard :: "card_env \<Rightarrow> builderCardState \<Rightarrow> cardEmission" where
  "emitSystemPromptLeakageCard e state = checks_only (rule_check e state 10 ''system_prompt_leakage'')"

definition emitVectorCard :: "card_env \<Rightarrow> builderCardState \<Rightarrow> string \<Rightarrow> cardEmission" where
  "emitVectorCard e state scope =
     (checks_only (rule_check e state 10 ''vector_embedding_weakness'' @
        url_check state 20 ''high'' ''Retrieved content contains malformed URLs''))
     \<lparr>em_BlockedDomains := (if scope \<in> {''action'', ''mcp''} then dedupeStrings (BlockedDomains state) else [])\<rparr>"

definition emitMisinformationCard :: "card_env \<Rightarrow> builderCardState \<Rightarrow> cardEmission" where
  "emitMisinformationCard e state =
     checks_only (rule_check e state 10 ''misinformation'' @
       url_check state 20 ''medium'' ''Generated citations or URLs are malformed'')"

text \<open>A limit of the consumption card, when it is a positive number.\<close>

definition limit_check :: "builderCardState \<Rightarrow> int \<Rightarrow> string \<Rightarrow> string \<Rightarrow> string \<Rightarrow> string \<Rightarrow> gomap list" where
  "limit_check state priority name key raw summary =
     (let n = parsePositiveInt raw in
      if n > 0 then [buildCheck state priority name (common_config state ''medium'' summary @ [(key, VInt n)])] else [])"

definition emitUnboundedConsumptionCard :: "builderCardState \<Rightarrow> cardEmission" where
  "emitUnboundedConsumptionCard state =
     checks_only (
       limit_check state 10 ''character_count'' ''maxCharacters'' (MaxCharacters state) ''Request exceeded the configured character limit'' @
       limit_check state 20 ''word_count'' ''maxWords'' (MaxWords state) ''Request exceeded the configured word limit'' @
       limit_check state 30 ''sentence_count'' ''maxSentences'' (MaxSentences state) ''Request exceeded the configured sentence limit'')"

definition emitBFSICard :: "card_env \<Rightarrow> builderCardState \<Rightarrow> cardEmission" where
  "emitBFSICard e state =
     (let creditCard = card_containsNormalizedValue (SelectedCategories state) ''credit_card'';
          presets = SelectedPresets state @
            (if creditCard \<and> \<not> card_containsNormalizedValue (SelectedPresets state) ''payment_card_data'' then [''payment_card_data''] else []);
          r = emitStandardRegexRule e (state\<lparr>SelectedPresets := presets\<rparr>)
      in \<lparr>em_Checks =
            (if r \<noteq> [] then [buildRegexCheck state 10 r ''bfsi_runtime_protection''] else []) @
            (if card_containsNormalizedValue presets ''payment_card_data'' \<or> creditCard
             then [pii_card_check state 20 [''credit_card''] ''critical'' ''Payment or card data detected''] else []),
          em_BlockedDomains = dedupeStrings (BlockedDomains state), em_AllowedActionClasses = [],
          em_DeniedActionClasses = dedupeStrings (DeniedActionClasses state)\<rparr>)"

definition intersectPresets :: "string list \<Rightarrow> string list \<Rightarrow> string list" where
  "intersectPresets selected allowed =
     filter (\<lambda>name. ToLower (TrimSpace name) \<in> set (map (\<lambda>a. ToLower (TrimSpace a)) allowed)) selected"

definition phi_state :: "builderCardState \<Rightarrow> builderCardState" where
  "phi_state state =
     state\<lparr>card_Action := (if card_Action state = ''deny'' then ''redact'' else card_Action state),
           SelectedPresets := [''phi_markers'', ''high_stakes_guidance'']\<rparr>"

definition clinical_check :: "card_env \<Rightarrow> builderCardState \<Rightarrow> int \<Rightarrow> string \<Rightarrow> gomap list" where
  "clinical_check e state priority preset =
     (let r = buildPatternRule e (dedupeStrings ([preset] @ intersectPresets (SelectedPresets state) [preset])) [] in
      if r \<noteq> [] then [buildRegexCheck state priority r ''clinical_risk''] else [])"

definition emitHealthcareCard :: "card_env \<Rightarrow> builderCardState \<Rightarrow> string \<Rightarrow> cardEmission" where
  "emitHealthcareCard e state scope =
     \<lparr>em_Checks =
        (if card_containsNormalizedValue (SelectedPresets state) ''phi_markers'' \<or>
            card_containsNormalizedValue (default_presets (card_ID state)) ''phi_markers''
         then rule_check e (phi_state state) 10 ''phi'' else []) @
        (if scope = ''output''
         then clinical_check e state 20 ''unsafe_clinical_instructions'' @ clinical_check e state 30 ''unsupported_diagnosis'' else []),
      em_BlockedDomains = [], em_AllowedActionClasses = [], em_DeniedActionClasses = dedupeStrings (DeniedActionClasses state)\<rparr>"

definition emitInsuranceCard :: "card_env \<Rightarrow> builderCardState \<Rightarrow> cardEmission" where
  "emitInsuranceCard e state =
     \<lparr>em_Checks = rule_check e state 10 ''insurance_claims'' @
        (if card_containsNormalizedValue (SelectedPresets state) ''claimant_pii'' \<or> SelectedCategories state \<noteq> []
         then [pii_card_check state 20 (if SelectedCategories state = [] then [''email'', ''phone''] else SelectedCategories state) ''high'' ''Claimant PII detected'']
         else []),
      em_BlockedDomains = [], em_AllowedActionClasses = [], em_DeniedActionClasses = dedupeStrings (DeniedActionClasses state)\<rparr>"

definition emitEnterpriseCopilotCard :: "card_env \<Rightarrow> builderCardState \<Rightarrow> cardEmission" where
  "emitEnterpriseCopilotCard e state = checks_only (rule_check e state 10 ''enterprise_copilot'')"

definition emitCustomerSupportCard :: "card_env \<Rightarrow> builderCardState \<Rightarrow> cardEmission" where
  "emitCustomerSupportCard e state =
     checks_only ((if SelectedCategories state \<noteq> [] then [pii_card_check state 10 (SelectedCategories state) ''high'' ''Customer data detected''] else []) @
       rule_check e state 20 ''customer_support'' @ url_check state 30 ''high'' ''Support response contains malformed URLs'')"

definition emitDevelopmentCard :: "card_env \<Rightarrow> builderCardState \<Rightarrow> cardEmission" where
  "emitDevelopmentCard e state =
     \<lparr>em_Checks = rule_check e state 10 ''development_assistant'', em_BlockedDomains = [],
      em_AllowedActionClasses = dedupeStrings (AllowedActionClasses state),
      em_DeniedActionClasses = dedupeStrings (DeniedActionClasses state)\<rparr>"

definition emitCardState :: "card_env \<Rightarrow> builderCardState \<Rightarrow> string \<Rightarrow> cardEmission" where
  "emitCardState e state scope =
     (let ID = card_ID state in
      if ID = ''owasp-llm01-prompt-injection'' then emitPromptInjectionCard e state
      else if ID = ''owasp-llm02-sensitive-information-disclosure'' then emitSensitiveInfoCard e state
      else if ID = ''owasp-llm03-supply-chain'' then emitSupplyChainCard state scope
      else if ID = ''owasp-llm04-data-model-poisoning'' then emitPoisoningCard e state
      else if ID = ''owasp-llm05-improper-output-handling'' then emitImproperOutputCard e state
      else if ID = ''owasp-llm06-excessive-agency'' then emitAgencyCard state
      else if ID = ''owasp-llm07-system-prompt-leakage'' then emitSystemPromptLeakageCard e state
      else if ID = ''owasp-llm08-vector-embedding-weaknesses'' then emitVectorCard e state scope
      else if ID = ''owasp-llm09-misinformation'' then emitMisinformationCard e state
      else if ID = ''owasp-llm10-unbounded-consumption'' then emitUnboundedConsumptionCard state
      else if ID = ''domain-bfsi-runtime-protection'' then emitBFSICard e state
      else if ID = ''domain-healthcare-clinical-safety'' then emitHealthcareCard e state scope
      else if ID = ''domain-insurance-claims-controls'' then emitInsuranceCard e state
      else if ID = ''domain-enterprise-copilot-baseline'' then emitEnterpriseCopilotCard e state
      else if ID = ''domain-customer-support-assistant'' then emitCustomerSupportCard e state
      else if ID = ''domain-development-assistant'' then emitDevelopmentCard e state
      else checks_only [])"

section \<open>Compiling a definition\<close>

definition supportsScope :: "string \<Rightarrow> string \<Rightarrow> bool" where
  "supportsScope cardID scope =
     (case map_of cardScopes cardID of None \<Rightarrow> False | Some scopes \<Rightarrow> ToLower (TrimSpace scope) \<in> set scopes)"

definition stageCheckKey :: "string \<Rightarrow> string" where
  "stageCheckKey scope = (if ToLower (TrimSpace scope) = ''output'' then ''output_guardrails'' else ''input_guardrails'')"

definition guardrailCheckFingerprint :: "card_env \<Rightarrow> gomap \<Rightarrow> string" where
  "guardrailCheckFingerprint e check =
     (let field = (\<lambda>k. case map_of check k of None \<Rightarrow> VNil | Some v \<Rightarrow> v) in
      ToLower (TrimSpace (card_stringValue e (map_of check ''name''))) @ ''::'' @ ce_Marshal e (field ''config'') @ ''::'' @
      ce_Marshal e (field ''action''))"

definition parse_card :: "card_env \<Rightarrow> goval \<Rightarrow> builderCardState option" where
  "parse_card e rawCard =
     (case rawCard of
        VMap entries \<Rightarrow>
          (let str = (\<lambda>k. card_stringValue e (map_of entries k)); ID = TrimSpace (str ''id'') in
           if ID = [] then None
           else Some
             \<lparr>card_ID = ID, card_Enabled = card_boolValue (map_of entries ''enabled'') True,
              card_Action = normalizeAction (str ''action''), card_Severity = card_normalizeSeverity (str ''severity''),
              card_Summary = TrimSpace (str ''summary''),
              SelectedPresets = normalizeStringSlice e (map_of entries ''selectedPresets''),
              SelectedCategories = normalizeStringSlice e (map_of entries ''selectedCategories''),
              ModelAllowlist = card_stringSlice e (map_of entries ''modelAllowlist''),
              InverseMatch = card_boolValue (map_of entries ''inverseMatch'') False,
              BlockedDomains = card_stringSlice e (map_of entries ''blockedDomains''),
              AllowedActionClasses = card_stringSlice e (map_of entries ''allowedActionClasses''),
              DeniedActionClasses = card_stringSlice e (firstNonNil [map_of entries ''deniedActionClasses'', map_of entries ''approvalActionClasses'']),
              MaxCharacters = TrimSpace (str ''maxCharacters''), MaxWords = TrimSpace (str ''maxWords''),
              MaxSentences = TrimSpace (str ''maxSentences''), CustomPattern = TrimSpace (str ''customPattern''),
              CustomTerms = TrimSpace (str ''customTerms''),
              RequireValidURLs = card_boolValue (map_of entries ''requireValidUrls'') False\<rparr>)
      | _ \<Rightarrow> None)"

definition builderMetadataKey :: string where "builderMetadataKey = ''_deepintshield_builder''"

definition parseSelectedCards :: "card_env \<Rightarrow> gomap \<Rightarrow> builderCardState list" where
  "parseSelectedCards e d =
     (case map_of (card_mapValue (map_of d builderMetadataKey)) ''selected_cards'' of
        Some (VList rawCards) \<Rightarrow> List.map_filter (parse_card e) rawCards
      | _ \<Rightarrow> [])"

text \<open>A check is appended unless its fingerprint has been seen.\<close>

definition add_check :: "card_env \<Rightarrow> string list \<times> gomap list \<Rightarrow> gomap \<Rightarrow> string list \<times> gomap list" where
  "add_check e st check =
     (let fingerprint = guardrailCheckFingerprint e check in
      if fingerprint \<in> set (fst st) then st else (fingerprint # fst st, snd st @ [check]))"

definition check_card_id :: "card_env \<Rightarrow> gomap \<Rightarrow> string" where
  "check_card_id e check = TrimSpace (card_stringValue e (map_of (card_mapValue (map_of check ''config'')) ''card_id''))"

definition put_strings :: "string \<Rightarrow> string list \<Rightarrow> gomap \<Rightarrow> gomap" where
  "put_strings key s d = (if set_values s \<noteq> [] then AList.update key (stringArray (set_values s)) d else d)"

definition CompileDefinition :: "card_env \<Rightarrow> gomap \<Rightarrow> string \<Rightarrow> gomap" where
  "CompileDefinition e definition0 scope =
     (let compiled = cloneDefinition definition0; cards = parseSelectedCards e compiled in
      if compiled = [] then compiled
      else if cards = [] then compiled
      else
        (let stageKey = stageCheckKey scope;
             kept = foldl (add_check e) ([], []) (filter (\<lambda>check. check_card_id e check = []) (asObjectArray (map_of compiled stageKey)));
             emitted = map (\<lambda>state. emitCardState e state scope) (filter (\<lambda>state. card_Enabled state \<and> supportsScope (card_ID state) scope) cards);
             nextChecks = snd (foldl (add_check e) kept (concat (map em_Checks emitted)));
             gather = (\<lambda>f. foldl set_addAll [] (map f emitted));
             base = AList.delete ''denied_action_classes'' (AList.delete ''approval_action_classes''
               (AList.delete ''allowed_action_classes'' (AList.delete ''blocked_domains'' compiled)));
             withChecks = (if nextChecks \<noteq> [] then AList.update stageKey (objectArray nextChecks) base else AList.delete stageKey base)
         in put_strings ''denied_action_classes'' (gather em_DeniedActionClasses)
              (put_strings ''allowed_action_classes'' (gather em_AllowedActionClasses)
                (put_strings ''blocked_domains'' (gather em_BlockedDomains) withChecks))))"

end
