(* ===== verification/CardCompile.thy ===== *)
theory CardCompile
  imports Cards
begin

text \<open>
  What the card compiler guarantees: the checks of a compiled definition are, up to fingerprints, the hand-written ones
  and those of the enabled cards that support the stage, each once; action classes and blocked domains come from the
  cards alone; compiling a compiled definition changes nothing.  The last section shows where cards do less than they
  are documented to do.
\<close>

section \<open>Checks with fingerprints\<close>

lemma add_checks:
  assumes "set (fst st) = guardrailCheckFingerprint e ` set (snd st)" "distinct (map (guardrailCheckFingerprint e) (snd st))"
  shows "set (fst (foldl (add_check e) st cs)) = guardrailCheckFingerprint e ` set (snd (foldl (add_check e) st cs)) \<and>
    distinct (map (guardrailCheckFingerprint e) (snd (foldl (add_check e) st cs))) \<and>
    guardrailCheckFingerprint e ` set (snd (foldl (add_check e) st cs)) = guardrailCheckFingerprint e ` (set (snd st) \<union> set cs) \<and>
    set (snd (foldl (add_check e) st cs)) \<subseteq> set (snd st) \<union> set cs"
  using assms
proof (induction cs arbitrary: st)
  case (Cons c cs)
  let ?st = "add_check e st c"
  have st: "set (fst ?st) = guardrailCheckFingerprint e ` set (snd ?st)" "distinct (map (guardrailCheckFingerprint e) (snd ?st))"
    "guardrailCheckFingerprint e ` set (snd ?st) = guardrailCheckFingerprint e ` (insert c (set (snd st)))"
    "set (snd ?st) \<subseteq> insert c (set (snd st))"
    using Cons.prems by (auto simp: add_check_def Let_def)
  note ih = Cons.IH [OF st(1,2)]
  have "guardrailCheckFingerprint e ` (set (snd ?st) \<union> set cs) = guardrailCheckFingerprint e ` (set (snd st) \<union> set (c # cs))"
    unfolding image_Un st(3) by simp
  moreover have "set (snd ?st) \<union> set cs \<subseteq> set (snd st) \<union> set (c # cs)" using st(4) by auto
  ultimately show ?case
    unfolding foldl_Cons using conjunct1 [OF ih] conjunct1 [OF conjunct2 [OF ih]] conjunct1 [OF conjunct2 [OF conjunct2 [OF ih]]]
      subset_trans [OF conjunct2 [OF conjunct2 [OF conjunct2 [OF ih]]]] by (metis (no_types))
qed simp

lemma add_checks_new:
  assumes "distinct (map (guardrailCheckFingerprint e) cs)" "guardrailCheckFingerprint e ` set cs \<inter> set (fst st) = {}"
  shows "foldl (add_check e) st cs = (rev (map (guardrailCheckFingerprint e) cs) @ fst st, snd st @ cs)"
  using assms by (induction cs arbitrary: st) (auto simp: add_check_def Let_def)

text \<open>The hand-written checks of a stage, the emissions of its cards, and the checks of the result.\<close>

definition own_checks :: "card_env \<Rightarrow> gomap \<Rightarrow> string \<Rightarrow> gomap list" where
  "own_checks e d scope = filter (\<lambda>check. check_card_id e check = []) (asObjectArray (map_of d (stageCheckKey scope)))"

definition emissions :: "card_env \<Rightarrow> gomap \<Rightarrow> string \<Rightarrow> cardEmission list" where
  "emissions e d scope =
     map (\<lambda>state. emitCardState e state scope) (filter (\<lambda>state. card_Enabled state \<and> supportsScope (card_ID state) scope) (parseSelectedCards e d))"

definition next_checks :: "card_env \<Rightarrow> gomap \<Rightarrow> string \<Rightarrow> gomap list" where
  "next_checks e d scope =
     snd (foldl (add_check e) (foldl (add_check e) ([], []) (own_checks e d scope)) (concat (map em_Checks (emissions e d scope))))"

definition gathered :: "(cardEmission \<Rightarrow> string list) \<Rightarrow> cardEmission list \<Rightarrow> string list" where
  "gathered f es = foldl set_addAll [] (map f es)"

definition stripped :: "gomap \<Rightarrow> gomap" where
  "stripped d = AList.delete ''denied_action_classes'' (AList.delete ''approval_action_classes''
     (AList.delete ''allowed_action_classes'' (AList.delete ''blocked_domains'' d)))"

definition put_checks :: "string \<Rightarrow> gomap list \<Rightarrow> gomap \<Rightarrow> gomap" where
  "put_checks key cs d = (if cs \<noteq> [] then AList.update key (objectArray cs) d else AList.delete key d)"

lemma compile_unfold:
  assumes "parseSelectedCards e (cloneDefinition d) \<noteq> []"
  shows "CompileDefinition e d scope =
    put_strings ''denied_action_classes'' (gathered em_DeniedActionClasses (emissions e (cloneDefinition d) scope))
      (put_strings ''allowed_action_classes'' (gathered em_AllowedActionClasses (emissions e (cloneDefinition d) scope))
        (put_strings ''blocked_domains'' (gathered em_BlockedDomains (emissions e (cloneDefinition d) scope))
          (put_checks (stageCheckKey scope) (next_checks e (cloneDefinition d) scope) (stripped (cloneDefinition d)))))"
proof -
  have "cloneDefinition d \<noteq> []" using assms by (auto simp: parseSelectedCards_def card_mapValue_def)
  with assms show ?thesis
    by (simp add: CompileDefinition_def Let_def own_checks_def emissions_def next_checks_def gathered_def stripped_def put_checks_def)
qed

section \<open>Reading the compiled definition\<close>

lemma map_of_delete: "map_of (AList.delete k d) x = (if x = k then None else map_of d x)"
  by (simp add: delete_conv')

lemma map_of_update: "map_of (AList.update k v d) x = (if x = k then Some v else map_of d x)"
  by (simp add: update_conv')

lemma map_of_put_strings:
  "map_of (put_strings k s d) x = (if x = k \<and> set_values s \<noteq> [] then Some (stringArray (set_values s)) else map_of d x)"
  by (simp add: put_strings_def map_of_update)

lemma map_of_put_checks:
  "map_of (put_checks k cs d) x = (if x = k then (if cs \<noteq> [] then Some (objectArray cs) else None) else map_of d x)"
  by (simp add: put_checks_def map_of_update map_of_delete)

lemma stage_key_names: "stageCheckKey scope \<in> {''output_guardrails'', ''input_guardrails''}"
  by (simp add: stageCheckKey_def)

lemmas read_simps = map_of_put_strings map_of_put_checks map_of_delete map_of_update

lemma compiled_fields:
  assumes "parseSelectedCards e (cloneDefinition d) \<noteq> []"
  shows "map_of (CompileDefinition e d scope) x =
    (if x = stageCheckKey scope then (if next_checks e (cloneDefinition d) scope \<noteq> [] then Some (objectArray (next_checks e (cloneDefinition d) scope)) else None)
     else if x \<in> {''blocked_domains'', ''allowed_action_classes'', ''denied_action_classes'', ''approval_action_classes''} then
       (let s = set_values (gathered (if x = ''blocked_domains'' then em_BlockedDomains else if x = ''allowed_action_classes'' then em_AllowedActionClasses
                else if x = ''denied_action_classes'' then em_DeniedActionClasses else (\<lambda>_. [])) (emissions e (cloneDefinition d) scope)) in
        if s \<noteq> [] then Some (stringArray s) else None)
     else map_of (cloneDefinition d) x)"
proof -
  have empty: "gathered (\<lambda>_. []) es = []" for es
  proof -
    have "foldl set_addAll [] (map (\<lambda>_. []) es) = []" by (induction es) (simp_all add: set_addAll_def)
    then show ?thesis by (simp add: gathered_def)
  qed
  have ne: "stageCheckKey scope \<noteq> ''blocked_domains''" "stageCheckKey scope \<noteq> ''allowed_action_classes''"
    "stageCheckKey scope \<noteq> ''denied_action_classes''" "stageCheckKey scope \<noteq> ''approval_action_classes''"
    by (simp_all add: stageCheckKey_def)
  consider "x = stageCheckKey scope" | "x = ''blocked_domains''" | "x = ''allowed_action_classes''" | "x = ''denied_action_classes''"
    | "x = ''approval_action_classes''"
    | "x \<noteq> stageCheckKey scope" "x \<notin> {''blocked_domains'', ''allowed_action_classes'', ''denied_action_classes'', ''approval_action_classes''}"
    unfolding insert_iff empty_iff by satx
  then show ?thesis
  proof cases
    case 1
    show ?thesis unfolding compile_unfold [OF assms] 1 by (simp add: read_simps ne)
  next
    case 6
    then show ?thesis unfolding compile_unfold [OF assms] by (simp add: read_simps stripped_def)
  qed (simp_all add: compile_unfold [OF assms] read_simps stripped_def Let_def empty set_values_def ne [symmetric])
qed

lemma asObjectArray_objects: "asObjectArray (Some (objectArray cs)) = cs"
  by (induction cs) (simp_all add: asObjectArray_def objectArray_def map_filter_def)

lemma gathered_set: "set (gathered f es) = {t. t \<noteq> [] \<and> (\<exists>em \<in> set es. t \<in> TrimSpace ` set (f em))}"
proof -
  have "set (foldl set_addAll s (map f es)) = set s \<union> {t. t \<noteq> [] \<and> (\<exists>em \<in> set es. t \<in> TrimSpace ` set (f em))}" for s
    by (induction es arbitrary: s) (auto simp: set_addAll_def)
  then show ?thesis by (simp add: gathered_def)
qed

definition string_items :: "goval option \<Rightarrow> string set" where
  "string_items v = (case v of Some (VList vs) \<Rightarrow> {s. VStr s \<in> set vs} | _ \<Rightarrow> {})"

lemma string_items_array: "string_items (if s \<noteq> [] then Some (stringArray s) else None) = set s"
  by (auto simp: string_items_def stringArray_def)

text \<open>
  C30. What the compiler makes of a definition.  Without a selected card the result is a copy of the definition.  With
  one, the checks of the result for the stage are hand-written checks of that stage (the ones without a card) or checks
  emitted by the enabled cards that support the stage, their fingerprints are pairwise different, and every such
  check is represented by one with its fingerprint; the denied action classes are exactly the non-empty ones these cards
  emit, trimmed, and those that the definition itself listed are gone.  What a card emits is the value of \<open>emitCardState\<close>.
\<close>

theorem compile_keeps_cards:
  "if parseSelectedCards e (cloneDefinition d) = [] then CompileDefinition e d scope = cloneDefinition d
   else
     distinct (map (guardrailCheckFingerprint e) (asObjectArray (map_of (CompileDefinition e d scope) (stageCheckKey scope)))) \<and>
     set (asObjectArray (map_of (CompileDefinition e d scope) (stageCheckKey scope))) \<subseteq> set (own_checks e (cloneDefinition d) scope) \<union>
        {check. \<exists>state \<in> set (parseSelectedCards e (cloneDefinition d)).
           card_Enabled state \<and> supportsScope (card_ID state) scope \<and> check \<in> set (em_Checks (emitCardState e state scope))} \<and>
     guardrailCheckFingerprint e ` set (asObjectArray (map_of (CompileDefinition e d scope) (stageCheckKey scope))) =
      guardrailCheckFingerprint e ` (set (own_checks e (cloneDefinition d) scope) \<union>
        {check. \<exists>state \<in> set (parseSelectedCards e (cloneDefinition d)).
           card_Enabled state \<and> supportsScope (card_ID state) scope \<and> check \<in> set (em_Checks (emitCardState e state scope))}) \<and>
     string_items (map_of (CompileDefinition e d scope) ''denied_action_classes'') =
      {t. t \<noteq> [] \<and> (\<exists>state \<in> set (parseSelectedCards e (cloneDefinition d)).
           card_Enabled state \<and> supportsScope (card_ID state) scope \<and>
           t \<in> TrimSpace ` set (em_DeniedActionClasses (emitCardState e state scope)))}"
proof (cases "parseSelectedCards e (cloneDefinition d) = []")
  case True
  then show ?thesis by (simp add: CompileDefinition_def Let_def)
next
  case False
  let ?own = "own_checks e (cloneDefinition d) scope" and ?em = "emissions e (cloneDefinition d) scope"
  have field: "asObjectArray (map_of (CompileDefinition e d scope) (stageCheckKey scope)) = next_checks e (cloneDefinition d) scope"
    using asObjectArray_objects by (auto simp: compiled_fields [OF False] asObjectArray_def)
  have kept: "set (fst (foldl (add_check e) ([], []) ?own)) = guardrailCheckFingerprint e ` set (snd (foldl (add_check e) ([], []) ?own)) \<and>
      distinct (map (guardrailCheckFingerprint e) (snd (foldl (add_check e) ([], []) ?own))) \<and>
      guardrailCheckFingerprint e ` set (snd (foldl (add_check e) ([], []) ?own)) = guardrailCheckFingerprint e ` set ?own \<and>
      set (snd (foldl (add_check e) ([], []) ?own)) \<subseteq> set ?own"
    using add_checks [of "([], [])" e ?own] by simp
  have nxt: "distinct (map (guardrailCheckFingerprint e) (next_checks e (cloneDefinition d) scope)) \<and>
      guardrailCheckFingerprint e ` set (next_checks e (cloneDefinition d) scope) =
      guardrailCheckFingerprint e ` (set ?own \<union> set (concat (map em_Checks ?em))) \<and>
      set (next_checks e (cloneDefinition d) scope) \<subseteq> set ?own \<union> set (concat (map em_Checks ?em))"
    using add_checks [of "foldl (add_check e) ([], []) ?own" e "concat (map em_Checks ?em)"] kept
    unfolding next_checks_def image_Un by auto
  have em: "set (concat (map em_Checks ?em)) = {check. \<exists>state \<in> set (parseSelectedCards e (cloneDefinition d)).
      card_Enabled state \<and> supportsScope (card_ID state) scope \<and> check \<in> set (em_Checks (emitCardState e state scope))}"
    by (auto simp: emissions_def)
  have "stageCheckKey scope \<noteq> ''denied_action_classes''" by (simp add: stageCheckKey_def)
  then have "string_items (map_of (CompileDefinition e d scope) ''denied_action_classes'') = set (gathered em_DeniedActionClasses ?em)"
    by (simp add: compiled_fields [OF False] Let_def string_items_array set_values_def)
  also have "\<dots> = {t. t \<noteq> [] \<and> (\<exists>state \<in> set (parseSelectedCards e (cloneDefinition d)).
      card_Enabled state \<and> supportsScope (card_ID state) scope \<and> t \<in> TrimSpace ` set (em_DeniedActionClasses (emitCardState e state scope)))}"
    by (simp add: gathered_set emissions_def) blast
  finally show ?thesis using False field nxt unfolding em by simp
qed

section \<open>Copies\<close>

lemma json_copy_idem [simp]: "json_copy (json_copy v) = json_copy v"
  by (induction v rule: json_copy.induct) (auto simp: comp_def)

lemma clone_idem [simp]: "cloneDefinition (cloneDefinition d) = cloneDefinition d"
  by (simp add: cloneDefinition_def comp_def case_prod_unfold)

lemma map_of_clone: "map_of (cloneDefinition d) k = map_option json_copy (map_of d k)"
  by (induction d) (auto simp: cloneDefinition_def)

lemma clone_update: "cloneDefinition (AList.update k v d) = AList.update k (json_copy v) (cloneDefinition d)"
  by (induction d) (auto simp: cloneDefinition_def)

lemma clone_delete: "cloneDefinition (AList.delete k d) = AList.delete k (cloneDefinition d)"
  by (induction d) (auto simp: cloneDefinition_def AList.delete_eq)

lemma json_copy_strings [simp]: "json_copy (stringArray ss) = stringArray ss"
  by (simp add: stringArray_def)

lemma json_copy_objects: "json_copy (objectArray cs) = objectArray (map cloneDefinition cs)"
  by (simp add: objectArray_def cloneDefinition_def)

lemma clone_put_strings: "cloneDefinition (put_strings k s d) = put_strings k s (cloneDefinition d)"
  by (simp add: put_strings_def clone_update)

lemma clone_put_checks: "cloneDefinition (put_checks k cs d) = put_checks k (map cloneDefinition cs) (cloneDefinition d)"
  by (simp add: put_checks_def clone_update clone_delete json_copy_objects)

lemma clone_stripped: "cloneDefinition (stripped d) = stripped (cloneDefinition d)"
  by (simp add: stripped_def clone_delete)

section \<open>Order of the entries\<close>

lemma delete_update_same: "AList.delete k (AList.update k v d) = AList.delete k d"
  by (induction d) (auto simp: AList.delete_eq)

lemma delete_update_other: "k \<noteq> k' \<Longrightarrow> AList.delete k (AList.update k' v d) = AList.update k' v (AList.delete k d)"
  by (induction d) (auto simp: AList.delete_eq)

lemma update_twice: "AList.update k v (AList.update k w d) = AList.update k v d"
  by (induction d) auto

lemma delete_twice: "AList.delete k (AList.delete k d) = AList.delete k d"
  by (simp add: AList.delete_eq)

lemma delete_commutes: "AList.delete k (AList.delete k' d) = AList.delete k' (AList.delete k d)"
  by (simp add: AList.delete_eq conj_commute case_prod_unfold)

lemma stripped_put_strings:
  "k \<in> {''blocked_domains'', ''allowed_action_classes'', ''denied_action_classes''} \<Longrightarrow> stripped (put_strings k s d) = stripped d"
  by (auto simp: stripped_def put_strings_def delete_update_same delete_update_other)

lemma stripped_put_checks: "stripped (put_checks (stageCheckKey scope) cs d) = put_checks (stageCheckKey scope) cs (stripped d)"
proof -
  have ne: "k \<noteq> stageCheckKey scope"
    if "k = ''blocked_domains'' \<or> k = ''allowed_action_classes'' \<or> k = ''denied_action_classes'' \<or> k = ''approval_action_classes''" for k
    using that by (auto simp: stageCheckKey_def)
  show ?thesis
    by (simp add: stripped_def put_checks_def delete_update_other ne delete_commutes [of _ "stageCheckKey scope"])
qed

lemma stripped_twice: "stripped (stripped d) = stripped d"
  by (simp add: stripped_def AList.delete_eq) (auto intro!: filter_cong)

lemma put_checks_twice: "cs' = [] \<longleftrightarrow> cs = [] \<Longrightarrow> put_checks k cs (put_checks k cs' d) = put_checks k cs d"
  by (simp add: put_checks_def update_twice delete_twice)

section \<open>Emitted checks carry their card\<close>

definition tagged :: "card_env \<Rightarrow> string \<Rightarrow> gomap \<Rightarrow> bool" where
  "tagged e ID check \<longleftrightarrow> check_card_id e (cloneDefinition check) = TrimSpace ID"

lemma buildCheck_tagged: "tagged e (card_ID s) (buildCheck s p n (common_config s a b @ more_config))"
  by (simp add: tagged_def check_card_id_def buildCheck_def common_config_def cloneDefinition_def card_mapValue_def card_stringValue_def Let_def)

lemma buildCheck_tagged0: "tagged e (card_ID s) (buildCheck s p n (common_config s a b))"
  using buildCheck_tagged [of e s p n a b "[]"] by simp

lemma regex_tagged: "tagged e (card_ID s) (buildRegexCheck s p r c)"
  by (simp add: buildRegexCheck_def buildCheck_tagged)

lemma rule_tagged: "check \<in> set (rule_check e s p c) \<Longrightarrow> tagged e (card_ID s) check"
  by (auto simp: rule_check_def Let_def regex_tagged split: if_splits)

lemma phi_tagged: "check \<in> set (rule_check e (phi_state s) p c) \<Longrightarrow> tagged e (card_ID s) check"
  using rule_tagged [of check e "phi_state s"] by (simp add: phi_state_def)

lemma url_tagged: "check \<in> set (url_check s p a b) \<Longrightarrow> tagged e (card_ID s) check"
  by (auto simp: url_check_def buildCheck_tagged0 split: if_splits)

lemma limit_tagged: "check \<in> set (limit_check s p n k raw b) \<Longrightarrow> tagged e (card_ID s) check"
  by (auto simp: limit_check_def Let_def buildCheck_tagged split: if_splits)

lemma clinical_tagged: "check \<in> set (clinical_check e s p preset) \<Longrightarrow> tagged e (card_ID s) check"
  by (auto simp: clinical_check_def Let_def regex_tagged split: if_splits)

lemma pii_tagged: "tagged e (card_ID s) (pii_card_check s p cats a b)"
  by (simp add: pii_card_check_def buildCheck_tagged)

lemmas tag_rules = buildCheck_tagged buildCheck_tagged0 regex_tagged pii_tagged
lemmas tag_dests = rule_tagged phi_tagged url_tagged limit_tagged clinical_tagged

lemmas emit_defs = emitPromptInjectionCard_def emitSensitiveInfoCard_def emitSupplyChainCard_def emitPoisoningCard_def
  emitImproperOutputCard_def emitAgencyCard_def emitSystemPromptLeakageCard_def emitVectorCard_def emitMisinformationCard_def
  emitUnboundedConsumptionCard_def emitBFSICard_def emitHealthcareCard_def emitInsuranceCard_def emitEnterpriseCopilotCard_def
  emitCustomerSupportCard_def emitDevelopmentCard_def checks_only_def

lemma card_tagged:
  "check \<in> set (em_Checks (emitPromptInjectionCard e s)) \<Longrightarrow> tagged e (card_ID s) check"
  "check \<in> set (em_Checks (emitSensitiveInfoCard e s)) \<Longrightarrow> tagged e (card_ID s) check"
  "check \<in> set (em_Checks (emitSupplyChainCard s scope)) \<Longrightarrow> tagged e (card_ID s) check"
  "check \<in> set (em_Checks (emitPoisoningCard e s)) \<Longrightarrow> tagged e (card_ID s) check"
  "check \<in> set (em_Checks (emitImproperOutputCard e s)) \<Longrightarrow> tagged e (card_ID s) check"
  "check \<in> set (em_Checks (emitAgencyCard s)) \<Longrightarrow> tagged e (card_ID s) check"
  "check \<in> set (em_Checks (emitSystemPromptLeakageCard e s)) \<Longrightarrow> tagged e (card_ID s) check"
  "check \<in> set (em_Checks (emitVectorCard e s scope)) \<Longrightarrow> tagged e (card_ID s) check"
  "check \<in> set (em_Checks (emitMisinformationCard e s)) \<Longrightarrow> tagged e (card_ID s) check"
  "check \<in> set (em_Checks (emitUnboundedConsumptionCard s)) \<Longrightarrow> tagged e (card_ID s) check"
  "check \<in> set (em_Checks (emitBFSICard e s)) \<Longrightarrow> tagged e (card_ID s) check"
  "check \<in> set (em_Checks (emitHealthcareCard e s scope)) \<Longrightarrow> tagged e (card_ID s) check"
  "check \<in> set (em_Checks (emitInsuranceCard e s)) \<Longrightarrow> tagged e (card_ID s) check"
  "check \<in> set (em_Checks (emitEnterpriseCopilotCard e s)) \<Longrightarrow> tagged e (card_ID s) check"
  "check \<in> set (em_Checks (emitCustomerSupportCard e s)) \<Longrightarrow> tagged e (card_ID s) check"
  "check \<in> set (em_Checks (emitDevelopmentCard e s)) \<Longrightarrow> tagged e (card_ID s) check"
  by (auto simp: emit_defs Let_def tag_rules intro: tag_dests split: if_splits)

lemma em_if:
  "check \<in> set (em_Checks (if b then x else y)) \<Longrightarrow> (check \<in> set (em_Checks x) \<Longrightarrow> P) \<Longrightarrow> (check \<in> set (em_Checks y) \<Longrightarrow> P) \<Longrightarrow> P"
  by (cases b) simp_all

lemma emitted_tagged:
  assumes "check \<in> set (em_Checks (emitCardState e s scope))"
  shows "tagged e (card_ID s) check"
  using assms unfolding emitCardState_def Let_def
  by (elim em_if) (erule card_tagged | simp add: checks_only_def)+

section \<open>Compiling twice\<close>

lemma parsed_card_id: "s \<in> set (parseSelectedCards e d) \<Longrightarrow> TrimSpace (card_ID s) \<noteq> []"
  by (auto simp: parseSelectedCards_def parse_card_def Let_def map_filter_def split: option.splits goval.splits if_splits)

lemma add_checks_fst: "fst st = rev (map (guardrailCheckFingerprint e) (snd st)) \<Longrightarrow>
    fst (foldl (add_check e) st cs) = rev (map (guardrailCheckFingerprint e) (snd (foldl (add_check e) st cs)))"
  by (induction cs arbitrary: st) (auto simp: add_check_def Let_def)

lemma add_checks_again:
  assumes "K = snd (foldl (add_check e) ([], []) cs)"
  shows "foldl (add_check e) ([], []) K = foldl (add_check e) ([], []) cs"
proof -
  have "distinct (map (guardrailCheckFingerprint e) K)" using add_checks [of "([], [])" e cs] assms by simp
  then have "foldl (add_check e) ([], []) K = (rev (map (guardrailCheckFingerprint e) K), K)"
    using add_checks_new [of e K "([], [])"] by simp
  also have "\<dots> = foldl (add_check e) ([], []) cs"
    using add_checks_fst [of "([], [])" e cs] assms by (simp add: prod_eq_iff)
  finally show ?thesis .
qed

lemma add_checks_append: "\<exists>xs. snd (foldl (add_check e) st cs) = snd st @ xs \<and> set xs \<subseteq> set cs"
proof (induction cs arbitrary: st)
  case (Cons c cs)
  obtain xs where "snd (foldl (add_check e) (add_check e st c) cs) = snd (add_check e st c) @ xs" "set xs \<subseteq> set cs"
    using Cons [of "add_check e st c"] by blast
  moreover have "snd (add_check e st c) = snd st \<or> snd (add_check e st c) = snd st @ [c]"
    by (simp add: add_check_def Let_def)
  ultimately show ?case by auto
qed simp

lemma own_checks_copied: "check \<in> set (own_checks e (cloneDefinition d) scope) \<Longrightarrow> cloneDefinition check = check \<and> check_card_id e check = []"
proof -
  assume c: "check \<in> set (own_checks e (cloneDefinition d) scope)"
  then obtain v where v: "map_of d (stageCheckKey scope) = Some v" "check \<in> set (asObjectArray (Some (json_copy v)))" "check_card_id e check = []"
    unfolding own_checks_def map_of_clone
    by (cases "map_of d (stageCheckKey scope)") (simp_all add: asObjectArray_def)
  then have "VMap check \<in> set (case json_copy v of VList vs \<Rightarrow> vs | _ \<Rightarrow> [])"
    by (auto simp: asObjectArray_def map_filter_def split: goval.splits option.splits)
  then obtain x where "VMap check = json_copy x" by (cases v) auto
  then have "json_copy (VMap check) = VMap check" by (metis json_copy_idem)
  then show ?thesis using v(3) by (simp add: cloneDefinition_def)
qed

lemma second_parse:
  assumes "parseSelectedCards e (cloneDefinition d) \<noteq> []"
  shows "parseSelectedCards e (cloneDefinition (CompileDefinition e d scope)) = parseSelectedCards e (cloneDefinition d)"
proof -
  have "builderMetadataKey \<noteq> stageCheckKey scope"
    "builderMetadataKey \<notin> {''blocked_domains'', ''allowed_action_classes'', ''denied_action_classes'', ''approval_action_classes''}"
    by (simp_all add: builderMetadataKey_def stageCheckKey_def)
  then have "map_of (CompileDefinition e d scope) builderMetadataKey = map_of (cloneDefinition d) builderMetadataKey"
    unfolding compiled_fields [OF assms] by simp
  then show ?thesis by (simp add: parseSelectedCards_def map_of_clone option.map_comp comp_def)
qed

lemma second_own_checks:
  assumes "parseSelectedCards e (cloneDefinition d) \<noteq> []"
  shows "own_checks e (cloneDefinition (CompileDefinition e d scope)) scope = snd (foldl (add_check e) ([], []) (own_checks e (cloneDefinition d) scope))"
proof -
  let ?own = "own_checks e (cloneDefinition d) scope" and ?next = "next_checks e (cloneDefinition d) scope"
  let ?K = "snd (foldl (add_check e) ([], []) ?own)"
  obtain xs where xs: "?next = ?K @ xs" "set xs \<subseteq> set (concat (map em_Checks (emissions e (cloneDefinition d) scope)))"
    using add_checks_append [of e "foldl (add_check e) ([], []) ?own" "concat (map em_Checks (emissions e (cloneDefinition d) scope))"]
    by (auto simp: next_checks_def)
  have "asObjectArray (map_of (cloneDefinition (CompileDefinition e d scope)) (stageCheckKey scope)) = map cloneDefinition ?next"
    using asObjectArray_objects by (simp add: map_of_clone compiled_fields [OF assms] json_copy_objects asObjectArray_def)
  then have own: "own_checks e (cloneDefinition (CompileDefinition e d scope)) scope =
      filter (\<lambda>check. check_card_id e check = []) (map cloneDefinition ?K @ map cloneDefinition xs)"
    by (simp add: own_checks_def xs(1))
  have "set ?K \<subseteq> set ?own" using add_checks [of "([], [])" e ?own] by simp
  then have k: "\<forall>check \<in> set ?K. cloneDefinition check = check \<and> check_card_id e check = []" using own_checks_copied by blast
  then have k1: "map cloneDefinition ?K = ?K" by (simp add: map_idI)
  have "check_card_id e (cloneDefinition check) \<noteq> []" if check: "check \<in> set xs" for check
  proof -
    obtain s where s: "s \<in> set (parseSelectedCards e (cloneDefinition d))" "check \<in> set (em_Checks (emitCardState e s scope))"
      using check xs(2) by (auto simp: emissions_def)
    from emitted_tagged [OF s(2)] parsed_card_id [OF s(1)] show ?thesis by (simp add: tagged_def)
  qed
  then have "filter (\<lambda>check. check_card_id e check = []) (map cloneDefinition xs) = []" by (auto simp: filter_empty_conv)
  with own k1 k show ?thesis by (simp add: filter_id_conv)
qed

text \<open>
  Compiling is idempotent: a definition that has been compiled for a stage, stored and compiled again for that stage
  is the same definition, entry for entry and check for check; generated checks are not mistaken for hand-written ones.
\<close>

theorem compile_idempotent:
  "CompileDefinition e (CompileDefinition e d scope) scope = CompileDefinition e d scope"
proof (cases "parseSelectedCards e (cloneDefinition d) = []")
  case True
  then have "CompileDefinition e d scope = cloneDefinition d" by (simp add: CompileDefinition_def Let_def)
  with True show ?thesis by (simp add: CompileDefinition_def Let_def)
next
  case False
  let ?C = "CompileDefinition e d scope" and ?c = "cloneDefinition d"
  have em: "emissions e (cloneDefinition ?C) scope = emissions e ?c scope"
    unfolding emissions_def second_parse [OF False] ..
  have nxt: "next_checks e (cloneDefinition ?C) scope = next_checks e ?c scope"
    unfolding next_checks_def em second_own_checks [OF False] by (subst add_checks_again [OF refl]) (rule refl)
  have "stripped (cloneDefinition ?C) = put_checks (stageCheckKey scope) (map cloneDefinition (next_checks e ?c scope)) (stripped ?c)"
    unfolding compile_unfold [OF False]
    by (simp add: clone_put_strings clone_put_checks clone_stripped stripped_put_strings stripped_put_checks stripped_twice)
  then have "put_checks (stageCheckKey scope) (next_checks e ?c scope) (stripped (cloneDefinition ?C)) =
      put_checks (stageCheckKey scope) (next_checks e ?c scope) (stripped ?c)"
    by (simp add: put_checks_twice)
  then show ?thesis
    using compile_unfold [of e ?C scope] compile_unfold [OF False, of scope] second_parse [OF False, of scope] False
    unfolding em nxt by metis
qed

section \<open>A definition with a card\<close>

definition demo_cards :: card_env where
  "demo_cards = \<lparr>ce_float = (\<lambda>_. ''0''), ce_Marshal = Sprint (\<lambda>_. ''0''),
     ce_presets = [''ms_pii_detection'' \<mapsto> \<lparr>Literals = [''passport no.''], Regex = []\<rparr>]\<rparr>"

definition card_value :: "string \<Rightarrow> gomap \<Rightarrow> goval" where
  "card_value ID entries = VMap ((''id'', VStr ID) # entries)"

definition card_definition :: "goval list \<Rightarrow> gomap \<Rightarrow> gomap" where
  "card_definition cards entries = (builderMetadataKey, VMap [(''selected_cards'', VList cards)]) # entries"

theorem compile_keeps_cards_witness:
  "string_items (map_of (CompileDefinition demo_cards (card_definition
      [card_value ''owasp-llm06-excessive-agency'' [(''deniedActionClasses'', VStrs [''exec''])]] [(''denied_action_classes'', VStrs [''network''])]) ''mcp'')
     ''denied_action_classes'') = {''exec''}"
proof -
  let ?d = "card_definition [card_value ''owasp-llm06-excessive-agency'' [(''deniedActionClasses'', VStrs [''exec''])]]
    [(''denied_action_classes'', VStrs [''network''])]"
  have ex: "\<exists>s. parseSelectedCards demo_cards (cloneDefinition ?d) = [s] \<and> card_Enabled s \<and> card_ID s = ''owasp-llm06-excessive-agency'' \<and>
      DeniedActionClasses s = [''exec'']"
    by (simp add: parseSelectedCards_def card_definition_def card_value_def cloneDefinition_def builderMetadataKey_def card_mapValue_def
        map_filter_def parse_card_def card_stringValue_def card_boolValue_def card_stringSlice_def firstNonNil_def
        dedupeStrings_def Let_def go_string_simps)
  then obtain s where s: "parseSelectedCards demo_cards (cloneDefinition ?d) = [s]" "card_Enabled s" "card_ID s = ''owasp-llm06-excessive-agency''"
    "DeniedActionClasses s = [''exec'']" by blast
  have em: "em_DeniedActionClasses (emitCardState demo_cards s ''mcp'') = [''exec'']"
    using s(3,4) by (simp add: emitCardState_def emitAgencyCard_def dedupeStrings_def Let_def go_string_simps)
  have sup: "supportsScope (card_ID s) ''mcp''" unfolding s(3) by code_simp
  have tr: "TrimSpace ''exec'' = ''exec''" by (simp add: go_string_simps)
  have "{t. t \<noteq> [] \<and> (\<exists>state \<in> set [s]. card_Enabled state \<and> supportsScope (card_ID state) ''mcp'' \<and>
      t \<in> TrimSpace ` set (em_DeniedActionClasses (emitCardState demo_cards state ''mcp'')))} = {''exec''}"
    using s(2) em sup tr by auto
  with compile_keeps_cards [of demo_cards ?d "''mcp''"] show ?thesis unfolding s(1) by simp
qed

section \<open>Cards that do less than documented\<close>

text \<open>
  The severity a card falls back to is never used: parsing turns a missing severity into \<open>low\<close>, and for a parsed
  card \<open>stateSeverity\<close> returns the parsed value whatever the fallback; so a card without a severity reports \<open>low\<close>, also
  where the emitter asks for \<open>high\<close> or \<open>critical\<close>.
\<close>

theorem severity_fallback_unused:
  assumes "s \<in> set (parseSelectedCards e d)"
  shows "stateSeverity s fallback = card_Severity s \<and> card_Severity s \<in> {''critical'', ''high'', ''medium'', ''low''}"
proof -
  obtain raw where raw: "card_Severity s = card_normalizeSeverity raw"
    using assms by (auto simp: parseSelectedCards_def parse_card_def Let_def map_filter_def split: option.splits goval.splits if_splits)
  have four: "card_normalizeSeverity raw \<in> {''critical'', ''high'', ''medium'', ''low''}"
    by (simp add: card_normalizeSeverity_def Let_def)
  moreover have "card_normalizeSeverity v = v \<and> TrimSpace v \<noteq> []" if "v \<in> {''critical'', ''high'', ''medium'', ''low''}" for v
    using that by (auto simp: card_normalizeSeverity_def go_string_simps)
  ultimately show ?thesis using raw by (auto simp: stateSeverity_def Let_def)
qed

theorem severity_fallback_unused_witness:
  "stateSeverity (hd (parseSelectedCards demo_cards (card_definition [card_value ''owasp-llm01-prompt-injection'' []] []))) ''high'' = ''low''"
proof -
  let ?cs = "parseSelectedCards demo_cards (card_definition [card_value ''owasp-llm01-prompt-injection'' []] [])"
  have l: "card_Severity (hd ?cs) = ''low'' \<and> length ?cs = 1" by code_simp
  then have "hd ?cs \<in> set ?cs" by (cases ?cs) auto
  from severity_fallback_unused [OF this, of "''high''"] l show ?thesis by simp
qed

text \<open>
  Patterns that differ in case are merged: of two regular expressions that agree up to the case of their letters,
  such as the class of digits and the class of everything else, only the first reaches the compiled rule, although
  case decides what a class matches.
\<close>

theorem regexes_merged_by_case:
  assumes "TrimSpace r = r" "r \<noteq> []" "ToLower (TrimSpace r') = ToLower r"
  shows "buildAlternationRegex [] [r, r'] [] = r"
proof -
  have "TrimSpace r' = [] \<or> ToLower (TrimSpace r') = ToLower r" using assms(3) by simp
  then have "dedupeStrings [r, r'] = [r]" using assms by (auto simp: dedupeStrings_def Let_def)
  then show ?thesis using assms(1,2) by (simp add: buildAlternationRegex_def TrimSpace_def [of "[]"] dedupeStrings_def [of "[]"])
qed

theorem regexes_merged_by_case_witness:
  "buildAlternationRegex [] [CHR 0x5C # ''d{4}'', CHR 0x5C # ''D{4}''] [] = CHR 0x5C # ''d{4}''"
  by (rule regexes_merged_by_case) (simp_all add: go_string_simps)

text \<open>The excessive-agency card has default presets but emits no check for them.\<close>

lemma agency_presets_never_emitted:
  "card_ID s = ''owasp-llm06-excessive-agency'' \<Longrightarrow> default_presets (card_ID s) \<noteq> [] \<and> em_Checks (emitCardState e s scope) = []"
  by (simp add: emitCardState_def emitAgencyCard_def default_presets_def msPresetDefaults_def)

text \<open>The redacting check for health information uses the clinical presets, at every stage.\<close>

lemma phi_check_uses_clinical_presets:
  assumes "card_ID s = ''domain-healthcare-clinical-safety''"
  shows "{''unsafe_clinical_instructions'', ''unsupported_diagnosis''} \<subseteq> set (mergeMSDefaults (phi_state s))"
  using assms by (simp add: mergeMSDefaults_def phi_state_def default_presets_def msPresetDefaults_def dedupeStrings_def Let_def go_string_simps)

end
