(* ===== verification/GuardCards.thy ===== *)
theory GuardCards
  imports GuardFindings CardCompile
begin

text \<open>
  The guard runtime with its card compiler.  The engine compiles the definition of every policy for the stage of the
  request with \<^verbatim>\<open>cards.CompileDefinition\<close>; here that parameter of the engine's model is the model of the compiler.  The
  conditions on the rule caches hold for a new runtime, and a card of a policy reaches the decision.
\<close>

section \<open>The runtime and its compiler\<close>

definition with_cards :: "card_env \<Rightarrow> guard_env \<Rightarrow> guard_env" where
  "with_cards e g = g\<lparr>g_CompileDefinition := CompileDefinition e\<rparr>"

lemma with_cards_simps [simp]:
  "g_checks (with_cards e g) = g_checks g" "g_extract (with_cards e g) = g_extract g"
  "g_CompileDefinition (with_cards e g) = CompileDefinition e" "g_sha256_hex (with_cards e g) = g_sha256_hex g"
  by (simp_all add: with_cards_def)

lemma with_cards_rules [simp]: "compileRules (with_cards e g) d = compileRules g d"
proof -
  have "rule_field (with_cards e g) m key = rule_field g m key" for m key by (simp add: rule_field_def)
  then have "compile_rule (with_cards e g) item = compile_rule g item" for item
    by (simp only: compile_rule_def with_cards_simps)
  then show ?thesis unfolding compileRules_def by presburger
qed

lemma with_cards_key [simp]: "compiledDefinitionRulesCacheKey (with_cards e g) d = compiledDefinitionRulesCacheKey g d"
proof -
  have "computeDefinitionHash (with_cards e g) d = computeDefinitionHash g d" by (simp only: computeDefinitionHash_def with_cards_simps)
  then show ?thesis by (simp only: compiledDefinitionRulesCacheKey_def)
qed

text \<open>Without selected cards the compiler returns a copy.\<close>

lemma compile_no_cards: "map_of d builderMetadataKey = None \<Longrightarrow> CompileDefinition e d scope = cloneDefinition d"
  by (simp add: CompileDefinition_def parseSelectedCards_def map_of_clone card_mapValue_def Let_def)

lemma compile_default: "CompileDefinition e (defaultDefinition scope) stage = cloneDefinition (defaultDefinition [])"
proof -
  have "defaultDefinition scope = defaultDefinition []" by (simp add: defaultDefinition_def)
  then show ?thesis by (simp add: compile_no_cards defaultDefinition_def builderMetadataKey_def)
qed

lemma plain_clone: "map_of d definitionHashKey = None \<Longrightarrow> map_of (cloneDefinition d) definitionHashKey = None"
  by (simp add: map_of_clone)

lemma no_rules_clone: "map_of d ''rules'' = None \<Longrightarrow> compileRules g (cloneDefinition d) = []"
  by (simp add: compileRules_def map_of_clone)

text \<open>Fields the compiler leaves alone.\<close>

lemma compiled_other:
  assumes "x \<notin> {''output_guardrails'', ''input_guardrails'', ''blocked_domains'', ''allowed_action_classes'', ''denied_action_classes'', ''approval_action_classes''}"
  shows "map_of (CompileDefinition e d scope) x = map_of (cloneDefinition d) x"
proof (cases "parseSelectedCards e (cloneDefinition d) = []")
  case True
  then show ?thesis by (simp add: CompileDefinition_def Let_def)
next
  case False
  then show ?thesis using compiled_fields [OF False, of scope x] assms stage_key_names [of scope] by auto
qed

definition default_fields :: "gomap \<Rightarrow> bool" where
  "default_fields d \<longleftrightarrow> map_of d definitionHashKey = None \<and> map_of d ''rules'' = None"

lemma default_fields_compiled: "default_fields d \<Longrightarrow> default_fields (CompileDefinition e d scope)"
  using compiled_other [of definitionHashKey e d scope] compiled_other [of "''rules''" e d scope]
  by (simp add: default_fields_def map_of_clone definitionHashKey_def)

lemma default_fields_rules: "default_fields d \<Longrightarrow> compileRules g d = []"
  by (simp add: default_fields_def compileRules_def)

definition card_guard :: guard_env where
  "card_guard = with_cards demo_cards demo_guard"

text \<open>With definitions that have no rules and choose no hash of their own, the rule caches of the runtime are coherent.\<close>

lemma card_hash_ok:
  assumes "\<And>d. d \<in> D \<Longrightarrow> default_fields d" "cloneDefinition (defaultDefinition []) \<in> D"
  shows "hash_ok card_guard D"
proof -
  have rules: "compileRules card_guard d = []" if "d \<in> D" for d using assms(1) [OF that] default_fields_rules by blast
  have key: "compiledDefinitionRulesCacheKey card_guard d = [] \<or> last (compiledDefinitionRulesCacheKey card_guard d) = CHR ''#''" if "d \<in> D" for d
    using demo_key [of d] assms(1) [OF that] by (simp add: card_guard_def default_fields_def)
  have "compiledDefinitionRulesCacheKey card_guard d \<noteq> union_key policy" if "d \<in> D" for d policy
    using key [OF that] union_key_last [of policy] by auto
  then show ?thesis
    unfolding hash_ok_def using rules assms(2) by (simp add: card_guard_def compile_default)
qed

section \<open>A card that denies a call\<close>

definition card_policy :: PolicyBundle where
  "card_policy = demo_policy ''v1'' (card_definition [card_value ''owasp-llm06-excessive-agency'' [(''deniedActionClasses'', VStrs [''exec''])]] [])"

definition card_request :: EvaluateRequest where
  "card_request = (demo_request ''mcp'' ''hello'' [])\<lparr>req_MCP := Some exec_call, req_Policies := [card_policy]\<rparr>"

definition card_compiled :: PolicyBundle where
  "card_compiled = card_policy\<lparr>Definition := CompileDefinition demo_cards (Definition card_policy) ''mcp''\<rparr>"

lemma default_fields_demo: "default_fields (cloneDefinition (defaultDefinition []))" "default_fields (Definition card_policy)"
  by (simp_all add: default_fields_def map_of_clone defaultDefinition_def definitionHashKey_def card_policy_def demo_policy_def
      card_definition_def builderMetadataKey_def)

text \<open>
  The policy names no action class itself: the card it selects does, and the compiled policy denies the call.
\<close>

theorem action_scope_enforced_witness:
  "map_of (Definition card_policy) ''denied_action_classes'' = None \<and>
   Decision (fst (Evaluate card_guard card_request new_runtime)) = ''deny''"
proof -
  let ?D = "{cloneDefinition (defaultDefinition []), Definition card_compiled}"
  have x: "g_extract card_guard card_request = card_request" by (simp add: card_guard_def demo_guard_def)
  have st: "req_Stage card_request = ''mcp''" by (simp add: card_request_def demo_request_def)
  have nst: "NormalizeStage ''mcp'' = ''mcp''" by code_simp
  have ps: "fst (full_policies (env_float (g_checks card_guard)) defaultDefinition (lookupTenantBundle new_runtime (req_TenantID card_request)) card_request) = [card_policy]"
    by (simp add: full_policies_def lookupTenantBundle_def card_request_def demo_request_def Let_def)
  have "fst (compileRuntimePolicies card_guard (req_Stage card_request) [card_policy] new_runtime) = [card_compiled]"
    by (simp add: compiledDefinitionForPolicy_def card_guard_def card_compiled_def st nst Let_def)
  then obtain r1 where cr: "compileRuntimePolicies card_guard (req_Stage card_request) [card_policy] new_runtime = ([card_compiled], r1)"
    by (metis prod.collapse)
  have df: "default_fields d" if "d \<in> ?D" for d
    using that default_fields_demo default_fields_compiled by (auto simp: card_compiled_def)
  have hk: "hash_ok card_guard ?D" by (rule card_hash_ok) (use df in auto)
  have v: "local_valid card_guard ?D new_runtime" by (simp add: local_valid_def)
  have rules: "compileRules card_guard (Definition card_compiled) = []" using df default_fields_rules by blast
  have cl: "builtin_clean card_guard ?D (req_Stage card_request) [card_policy]"
    using rules by (simp add: builtin_clean_def st nst card_compiled_def card_guard_def)
  have sv: "scope_violation card_guard card_compiled exec_call" by code_simp
  have mode: "\<not> EqualFold (TrimSpace (EnforcementMode card_compiled)) ''monitor''" by code_simp
  have m: "req_MCP card_request = Some exec_call" by (simp add: card_request_def)
  have "Decision (fst (Evaluate card_guard card_request new_runtime)) = ''deny''"
    by (rule action_scope_enforced [where g = card_guard and request = card_request and r = new_runtime and policy = card_compiled
          and m = exec_call and cs = "[card_compiled]", unfolded x ps, OF hk v _ cl cr _ _ rules mode m sv])
      (simp_all add: st nst)
  then show ?thesis by (simp add: card_policy_def demo_policy_def card_definition_def builderMetadataKey_def)
qed

text \<open>A check of a policy, copied by the compiler, denies in both phases.\<close>

lemma card_fast: "Decision (fst (EvaluateFastOnly card_guard demo_inline new_runtime)) = ''deny''"
  by code_simp

theorem fast_deny_is_full_deny_witness:
  "Decision (fst (Evaluate card_guard demo_inline new_runtime)) = ''deny''"
proof -
  let ?c = "terse_policy\<lparr>Definition := cloneDefinition (Definition terse_policy)\<rparr>"
  let ?D = "{cloneDefinition (defaultDefinition []), Definition ?c}"
  have terse: "CompileDefinition e (Definition terse_policy) stage = cloneDefinition (Definition terse_policy)" for e stage
    by (rule compile_no_cards) (simp add: terse_policy_def demo_policy_def builderMetadataKey_def)
  have compiled: "fst (full_policies (env_float (g_checks card_guard)) defaultDefinition
     (lookupTenantBundle new_runtime (req_TenantID (g_extract card_guard demo_inline))) (g_extract card_guard demo_inline)) = [terse_policy]"
    using demo_compiled by (simp add: card_guard_def)
  have "default_fields (cloneDefinition (Definition terse_policy))"
    by (simp add: default_fields_def map_of_clone terse_policy_def demo_policy_def definitionHashKey_def)
  then have df: "default_fields d" if "d \<in> ?D" for d using that default_fields_demo(1) by auto
  have hk: "hash_ok card_guard ?D" by (rule card_hash_ok) (use df in auto)
  have v: "local_valid card_guard ?D new_runtime" by (simp add: local_valid_def)
  have st: "NormalizeStage (req_Stage (g_extract card_guard demo_inline)) \<noteq> ''rag''"
    by (simp add: card_guard_def demo_guard_def demo_inline_def demo_request_def)
  have cl: "builtin_clean card_guard ?D stage [terse_policy]" for stage
    using df [of "Definition ?c"] default_fields_rules by (simp add: builtin_clean_def card_guard_def terse)
  have dd: "\<forall>p \<in> set (fst (compileRuntimePolicies card_guard stage [terse_policy] new_runtime)). Definition p \<in> ?D" for stage
    by (simp add: compiledDefinitionForPolicy_def card_guard_def terse Let_def)
  show ?thesis
    using fast_deny_is_full_deny [OF hk v st, unfolded compiled, OF cl dd] card_fast by simp
qed

end
