(* ===== verification/GuardChunks.thy ===== *)
theory GuardChunks
  imports GuardRAG
begin

text \<open>
  What the retrieval stage guarantees: every retrieved chunk gets exactly one outcome, a chunk that violates a directive of
  a policy that applies is rejected or quarantined, and a request all of whose chunks violate one is not allowed.
\<close>

section \<open>Details of findings\<close>

lemma map_of_updates: "map_of (foldl (\<lambda>m kv. AList.update (fst kv) (snd kv) m) base extras) = map_of base ++ map_of (rev extras)"
  by (induction extras arbitrary: base) (auto simp: update_conv' map_add_def fun_eq_iff split: option.splits)

lemma map_of_mergeMaps: "map_of (mergeMaps base extras) k = (case map_of extras k of Some v \<Rightarrow> Some v | None \<Rightarrow> map_of base k)"
proof -
  have "map_of (rev (AList.clearjunk extras)) = map_of extras"
    using map_of_inject_set [of "rev (AList.clearjunk extras)" "AList.clearjunk extras"] by (simp add: rev_map [symmetric] distinct_clearjunk map_of_clearjunk)
  then show ?thesis by (simp add: mergeMaps_def map_of_updates map_add_def)
qed

definition decision_of :: "(rat \<Rightarrow> string) \<Rightarrow> Finding \<Rightarrow> string" where
  "decision_of ff f =
     (let d = TrimSpace (stringValue ff (f_Details f) [''chunk_decision'']) in if d = [] then outcomeToRAGChunkDecision (f_Outcome f) else d)"

definition about_chunk :: "(rat \<Rightarrow> string) \<Rightarrow> string \<Rightarrow> Finding \<Rightarrow> bool" where
  "about_chunk ff ID f \<longleftrightarrow> chunk_only f \<and> TrimSpace (stringValue ff (f_Details f) [''chunk_id'']) = TrimSpace ID"

definition chunk_decisions :: "string set" where
  "chunk_decisions = {''allow'', ''redact'', ''reject'', ''quarantine''}"

lemma decision_literal [simp]:
  "d \<in> chunk_decisions \<Longrightarrow> TrimSpace d = d \<and> d \<noteq> [] \<and> d \<noteq> ''<nil>''"
  by (auto simp: chunk_decisions_def go_string_simps)

lemma outcome_decisions: "outcomeToRAGChunkDecision v \<in> chunk_decisions"
  by (simp add: outcomeToRAGChunkDecision_def chunk_decisions_def Let_def)

lemma string_entry:
  "map_of m k = Some (VStr s) \<Longrightarrow> TrimSpace s \<noteq> ''<nil>'' \<Longrightarrow> stringValue ff m [k] = TrimSpace s"
  by (auto simp: Let_def)

lemma rank_decisions:
  "ragChunkDecisionRank ''allow'' = 1" "ragChunkDecisionRank ''redact'' = 2" "ragChunkDecisionRank ''reject'' = 3"
  "ragChunkDecisionRank ''quarantine'' = 4"
  by (simp_all add: ragChunkDecisionRank_def go_string_simps)

section \<open>Reconciliation\<close>

text \<open>Findings about the chunk ask for one of the four decisions.\<close>

definition literal_findings :: "(rat \<Rightarrow> string) \<Rightarrow> Finding list \<Rightarrow> bool" where
  "literal_findings ff fs \<longleftrightarrow> (\<forall>f \<in> set fs. chunk_only f \<longrightarrow> decision_of ff f \<in> chunk_decisions)"

lemma literal_append [simp]: "literal_findings ff (xs @ ys) \<longleftrightarrow> literal_findings ff xs \<and> literal_findings ff ys"
  by (auto simp: literal_findings_def)

lemma reconcile_step_result:
  assumes "reconcile_step ff (n, oc) f = (n', oc')"
  shows "ro_ChunkID oc' = ro_ChunkID oc"
    and "about_chunk ff (ro_ChunkID oc) f \<Longrightarrow> n' = max n (ragChunkDecisionRank (decision_of ff f)) \<and>
      ro_Decision oc' = (if ragChunkDecisionRank (decision_of ff f) > n then decision_of ff f else ro_Decision oc)"
    and "\<not> about_chunk ff (ro_ChunkID oc) f \<Longrightarrow> n' = n \<and> oc' = oc"
  using assms by (auto simp: reconcile_step_def about_chunk_def decision_of_def Let_def split: if_splits)

lemma reconcile_fold:
  assumes "foldl (reconcile_step ff) (n, oc) fs = (n', oc')" "n = ragChunkDecisionRank (ro_Decision oc)"
    and "ro_Decision oc \<in> chunk_decisions" "literal_findings ff fs"
  shows "ro_ChunkID oc' = ro_ChunkID oc \<and> n' = ragChunkDecisionRank (ro_Decision oc') \<and> ro_Decision oc' \<in> chunk_decisions \<and>
    n \<le> n' \<and> (\<forall>f \<in> set fs. about_chunk ff (ro_ChunkID oc) f \<longrightarrow> ragChunkDecisionRank (decision_of ff f) \<le> n')"
  using assms
proof (induction fs arbitrary: n oc)
  case (Cons f fs)
  obtain n1 oc1 where s: "reconcile_step ff (n, oc) f = (n1, oc1)" by fastforce
  note r = reconcile_step_result [OF s]
  have lit: "chunk_only f \<longrightarrow> decision_of ff f \<in> chunk_decisions" and lits: "literal_findings ff fs"
    using Cons.prems(4) by (auto simp: literal_findings_def)
  have st: "n1 = ragChunkDecisionRank (ro_Decision oc1)" "ro_Decision oc1 \<in> chunk_decisions" "n \<le> n1"
    "about_chunk ff (ro_ChunkID oc) f \<longrightarrow> ragChunkDecisionRank (decision_of ff f) \<le> n1"
    using r Cons.prems(2,3) lit by (cases "about_chunk ff (ro_ChunkID oc) f"; auto simp: about_chunk_def)+
  have fold: "foldl (reconcile_step ff) (n1, oc1) fs = (n', oc')" using Cons.prems(1) s by simp
  from Cons.IH [OF fold st(1,2) lits] r(1) st(3,4) show ?case by auto
qed simp

lemma reconcile_result:
  assumes "ro_Decision oc \<in> chunk_decisions" "literal_findings ff fs"
  shows "ro_ChunkID (reconcileRAGChunkOutcome ff oc fs) = ro_ChunkID oc \<and> ro_Decision (reconcileRAGChunkOutcome ff oc fs) \<in> chunk_decisions \<and>
    ragChunkDecisionRank (ro_Decision oc) \<le> ragChunkDecisionRank (ro_Decision (reconcileRAGChunkOutcome ff oc fs)) \<and>
    (\<forall>f \<in> set fs. about_chunk ff (ro_ChunkID oc) f \<longrightarrow>
       ragChunkDecisionRank (decision_of ff f) \<le> ragChunkDecisionRank (ro_Decision (reconcileRAGChunkOutcome ff oc fs)))"
proof -
  obtain n' oc' where f: "foldl (reconcile_step ff) (ragChunkDecisionRank (ro_Decision oc), oc) fs = (n', oc')" by fastforce
  have "ro_Decision (reconcileRAGChunkOutcome ff oc fs) = ro_Decision oc'" "ro_ChunkID (reconcileRAGChunkOutcome ff oc fs) = ro_ChunkID oc'"
    by (simp_all add: reconcileRAGChunkOutcome_def f Let_def)
  with reconcile_fold [OF f refl assms] show ?thesis by metis
qed

section \<open>The policies of a chunk\<close>

definition free_keys :: "gomap \<Rightarrow> bool" where
  "free_keys extra \<longleftrightarrow> map_of extra ''chunk_id'' = None \<and> map_of extra ''chunk_decision'' = None \<and>
     map_of extra ''chunk_decision_only'' = None"

lemma flag_details:
  assumes "free_keys extra"
  shows "map_of (buildRAGFindingDetails chunk ([(''chunk_decision_only'', VBool True), (''chunk_decision'', VStr d)] @ extra)) ''chunk_id'' = Some (VStr (rc_ChunkID chunk))"
    and "map_of (buildRAGFindingDetails chunk ([(''chunk_decision_only'', VBool True), (''chunk_decision'', VStr d)] @ extra)) ''chunk_decision'' = Some (VStr d)"
    and "map_of (buildRAGFindingDetails chunk ([(''chunk_decision_only'', VBool True), (''chunk_decision'', VStr d)] @ extra)) ''chunk_decision_only'' = Some (VBool True)"
  using assms by (simp_all add: buildRAGFindingDetails_def map_of_mergeMaps free_keys_def map_add_def)

lemma flag_finding:
  assumes "free_keys extra" "d \<in> chunk_decisions" "TrimSpace (rc_ChunkID chunk) \<noteq> ''<nil>''"
    and "f = rag_finding policy c s q ''allow'' t (buildRAGFindingDetails chunk ([(''chunk_decision_only'', VBool True), (''chunk_decision'', VStr d)] @ extra))"
  shows "chunk_only f \<and> decision_of ff f = d \<and> about_chunk ff (rc_ChunkID chunk) f"
proof -
  note det = flag_details [OF assms(1), of chunk d]
  have "stringValue ff (f_Details f) [''chunk_decision''] = d" "stringValue ff (f_Details f) [''chunk_id''] = TrimSpace (rc_ChunkID chunk)"
    "boolValue (f_Details f) ''chunk_decision_only'' False"
    using string_entry [OF det(2)] string_entry [OF det(1)] det(3) assms(2-4) by (simp_all add: rag_finding_def policy_finding_def boolValue_def)
  then show ?thesis using assms(2) by (simp add: chunk_only_def decision_of_def about_chunk_def)
qed

text \<open>A state of the loop: its outcome has the chunk's id and one of the four decisions, and so do the findings.\<close>

definition rag_ok :: "(rat \<Rightarrow> string) \<Rightarrow> ragChunkInput \<Rightarrow> rag_state \<Rightarrow> bool" where
  "rag_ok ff chunk st \<longleftrightarrow> ro_ChunkID (rs_outcome st) = rc_ChunkID chunk \<and> ro_Decision (rs_outcome st) \<in> chunk_decisions \<and>
     literal_findings ff (rs_findings st)"

lemma block_ok:
  assumes "rag_ok ff chunk st" "map_of extra ''chunk_decision_only'' = None"
  shows "rag_ok ff chunk (rag_block policy chunk c s t extra st) \<and> prefix (rs_findings st) (rs_findings (rag_block policy chunk c s t extra st))"
proof -
  have "map_of (buildRAGFindingDetails chunk ((''request_level'', VBool True) # extra)) ''chunk_decision_only'' = None"
    using assms(2) by (simp add: buildRAGFindingDetails_def map_of_mergeMaps map_add_def)
  then have "\<not> chunk_only (rag_finding policy c s q v t (buildRAGFindingDetails chunk ((''request_level'', VBool True) # extra)))" for q v
    by (simp add: chunk_only_def rag_finding_def policy_finding_def boolValue_def)
  with assms(1) show ?thesis by (auto simp: rag_block_def rag_ok_def literal_findings_def)
qed

text \<open>
  The tests that reject or quarantine a chunk, stated on the chunk and the directives of a policy.  A chunk without a source
  id is not tested against the trusted sources, and one without a trust score not against the minimal score; the
  directive on PII redacts a chunk and is stated separately.
\<close>

definition chunk_violation :: "guard_env \<Rightarrow> ragPolicyDirectives \<Rightarrow> ragChunkInput \<Rightarrow> bool" where
  "chunk_violation g d chunk \<longleftrightarrow>
     rc_Quarantined chunk \<or>
     trustedSourceIDs d \<noteq> [] \<and> rc_SourceID chunk \<noteq> [] \<and> \<not> containsNormalizedValue (trustedSourceIDs d) (rc_SourceID chunk) \<or>
     minTrustScore d > 0 \<and> rc_TrustScore chunk > 0 \<and> rc_TrustScore chunk < minTrustScore d \<or>
     maxInjectionScore d > 0 \<and> rc_InjectionScore chunk > maxInjectionScore d \<or>
     (case blockedPatternRegexp (env_rx (g_checks g)) (blockedPatterns d) of
        None \<Rightarrow> False | Some u \<Rightarrow> rx_Match (env_rx (g_checks g)) u (rc_Content chunk))"

definition bad_finding :: "(rat \<Rightarrow> string) \<Rightarrow> ragChunkInput \<Rightarrow> rag_state \<Rightarrow> bool" where
  "bad_finding ff chunk st \<longleftrightarrow> (\<exists>f \<in> set (rs_findings st). about_chunk ff (rc_ChunkID chunk) f \<and> decision_of ff f \<in> {''reject'', ''quarantine''})"

definition extends :: "(rat \<Rightarrow> string) \<Rightarrow> ragChunkInput \<Rightarrow> rag_state \<Rightarrow> rag_state \<Rightarrow> bool" where
  "extends ff chunk st st' \<longleftrightarrow> rag_ok ff chunk st' \<and> prefix (rs_findings st) (rs_findings st')"

lemma extends_trans: "extends ff chunk a b \<Longrightarrow> extends ff chunk b c \<Longrightarrow> extends ff chunk a c"
  by (auto simp: extends_def intro: prefix_order.trans)

lemma extends_bad: "extends ff chunk a b \<Longrightarrow> bad_finding ff chunk a \<Longrightarrow> bad_finding ff chunk b"
  unfolding extends_def bad_finding_def using set_mono_prefix by blast

lemma extends_same: "rag_ok ff chunk st \<Longrightarrow> rs_outcome st' = rs_outcome st \<Longrightarrow> rs_findings st' = rs_findings st \<Longrightarrow> extends ff chunk st st'"
  by (simp add: extends_def rag_ok_def)

lemma extends_ok: "extends ff chunk a b \<Longrightarrow> rag_ok ff chunk b"
  by (simp add: extends_def)

definition test_ok :: "rag_test \<Rightarrow> bool" where
  "test_ok test \<longleftrightarrow> (case test of (b, c, s, q, d, t, extra) \<Rightarrow> free_keys extra \<and> d \<in> chunk_decisions)"

definition rejects :: "rag_test \<Rightarrow> bool" where
  "rejects test \<longleftrightarrow> (case test of (b, c, s, q, d, t, extra) \<Rightarrow> b \<and> d \<in> {''reject'', ''quarantine''})"

lemma flag_extends:
  assumes "rag_ok ff chunk st" "test_ok test" "TrimSpace (rc_ChunkID chunk) \<noteq> ''<nil>''"
  shows "extends ff chunk st (rag_flag policy chunk st test) \<and> (rejects test \<longrightarrow> bad_finding ff chunk (rag_flag policy chunk st test))"
proof -
  obtain b c s q d t extra where test: "test = (b, c, s, q, d, t, extra)" by (metis prod_cases7)
  let ?f = "rag_finding policy c s q ''allow'' t (buildRAGFindingDetails chunk ([(''chunk_decision_only'', VBool True), (''chunk_decision'', VStr d)] @ extra))"
  have ok: "free_keys extra" "d \<in> chunk_decisions" using assms(2) by (simp_all add: test_ok_def test)
  note f = flag_finding [OF ok assms(3) refl, of policy c s q t ff]
  have "rag_ok ff chunk (rag_flag policy chunk st test)"
    using assms(1) ok(2) f by (auto simp: test rag_ok_def rag_flag_def Let_def literal_findings_def)
  moreover have "prefix (rs_findings st) (rs_findings (rag_flag policy chunk st test))" by (simp add: test rag_flag_def Let_def)
  moreover have "bad_finding ff chunk (rag_flag policy chunk st test)" if "rejects test"
    using that f by (auto simp: test rejects_def bad_finding_def rag_flag_def Let_def)
  ultimately show ?thesis by (simp add: extends_def)
qed

lemma flags_extend:
  assumes "rag_ok ff chunk st" "\<forall>test \<in> set tests. test_ok test" "TrimSpace (rc_ChunkID chunk) \<noteq> ''<nil>''"
  shows "extends ff chunk st (foldl (rag_flag policy chunk) st tests) \<and>
    ((\<exists>test \<in> set tests. rejects test) \<longrightarrow> bad_finding ff chunk (foldl (rag_flag policy chunk) st tests))"
  using assms(1,2)
proof (induction tests arbitrary: st)
  case Nil
  then show ?case by (simp add: extends_def)
next
  case (Cons test tests)
  let ?st = "rag_flag policy chunk st test"
  have one: "extends ff chunk st ?st \<and> (rejects test \<longrightarrow> bad_finding ff chunk ?st)"
    using flag_extends [OF Cons.prems(1) _ assms(3)] Cons.prems(2) by simp
  have rest: "extends ff chunk ?st (foldl (rag_flag policy chunk) ?st tests) \<and>
      ((\<exists>test \<in> set tests. rejects test) \<longrightarrow> bad_finding ff chunk (foldl (rag_flag policy chunk) ?st tests))"
    using Cons.IH [OF extends_ok [OF conjunct1 [OF one]]] Cons.prems(2) by simp
  have "extends ff chunk st (foldl (rag_flag policy chunk) ?st tests)" using one rest extends_trans by blast
  moreover have "bad_finding ff chunk (foldl (rag_flag policy chunk) ?st tests)" if "\<exists>t \<in> set (test # tests). rejects t"
    using that one rest extends_bad [OF conjunct1 [OF rest]] by auto
  ultimately show ?case by simp
qed

lemma chunk_decisions_mem [simp]: "''reject'' \<in> chunk_decisions" "''quarantine'' \<in> chunk_decisions" "''redact'' \<in> chunk_decisions" "''allow'' \<in> chunk_decisions"
  by (simp_all add: chunk_decisions_def)

lemma tests_ok: "\<forall>test \<in> set (rag_tests g d chunk). test_ok test"
  by (simp add: rag_tests_def test_ok_def free_keys_def Let_def)

lemma violation_rejects: "chunk_violation g d chunk \<Longrightarrow> \<exists>test \<in> set (rag_tests g d chunk). rejects test"
  by (auto simp: chunk_violation_def rag_tests_def rejects_def Let_def)

lemma rag_policy_ok:
  assumes ok: "rag_ok (env_float (g_checks g)) chunk st" and nil: "TrimSpace (rc_ChunkID chunk) \<noteq> ''<nil>''"
  shows "extends (env_float (g_checks g)) chunk st (rag_policy g chunk request st policy) \<and>
    (ragPolicyAppliesToRequest (env_float (g_checks g)) (ragDirectives (env_float (g_checks g)) policy) request \<and>
     chunk_violation g (ragDirectives (env_float (g_checks g)) policy) chunk \<longrightarrow>
     bad_finding (env_float (g_checks g)) chunk (rag_policy g chunk request st policy))"
proof (cases "ragPolicyAppliesToRequest (env_float (g_checks g)) (ragDirectives (env_float (g_checks g)) policy) request")
  case False
  have "extends (env_float (g_checks g)) chunk st ((rag_block policy chunk c s t [(''allowed_roles'', v), (''allowed_apps'', w)] st)\<lparr>rs_chain := ch\<rparr>)" for c s t v w ch
    using block_ok [OF ok, of "[(''allowed_roles'', v), (''allowed_apps'', w)]" policy c s t] by (simp add: extends_def rag_ok_def)
  moreover have "extends (env_float (g_checks g)) chunk st st" using ok by (simp add: extends_def)
  ultimately show ?thesis using False by (simp add: rag_policy_def Let_def)
next
  case True
  let ?ff = "env_float (g_checks g)"
  let ?d = "ragDirectives ?ff policy"
  define s0 where "s0 = st\<lparr>rs_hits := (if TrimSpace (Name policy) = [] then rs_hits st else rs_hits st @ [TrimSpace (Name policy)])\<rparr>"
  define s1 where "s1 = (if requireApproval ?d then rag_block policy chunk ''rag_restricted_access'' ''high''
      ''RAG policy blocks retrieved content that was previously marked as approval-only'' [] s0 else s0)"
  define s2 where "s2 = (if rc_Quarantined chunk \<and> rc_SourceID chunk \<noteq> [] then s1\<lparr>rs_quarantine := rs_quarantine s1 @ [rc_SourceID chunk]\<rparr> else s1)"
  define s3 where "s3 = foldl (rag_flag policy chunk) s2 (rag_tests g ?d chunk)"
  have res: "rag_policy g chunk request st policy =
      (if citationRequired ?d then s3\<lparr>rs_outcome := (rs_outcome s3)\<lparr>ro_CitationRequired := True\<rparr>\<rparr> else s3)"
    using True unfolding rag_policy_def Let_def s3_def s2_def s1_def s0_def by simp
  have e0: "extends ?ff chunk st s0" by (rule extends_same [OF ok]) (simp_all add: s0_def)
  have e1: "extends ?ff chunk s0 s1"
    using block_ok [OF extends_ok [OF e0], of "[]"] extends_ok [OF e0] by (simp add: s1_def extends_def)
  have e2: "extends ?ff chunk s1 s2" by (rule extends_same [OF extends_ok [OF e1]]) (simp_all add: s2_def)
  note e3 = flags_extend [OF extends_ok [OF e2] tests_ok [of g ?d chunk] nil, of policy, folded s3_def]
  have e4: "extends ?ff chunk s3 (rag_policy g chunk request st policy)"
    using extends_ok [OF conjunct1 [OF e3]] unfolding res by (simp add: extends_def rag_ok_def)
  have "extends ?ff chunk st (rag_policy g chunk request st policy)" using e0 e1 e2 e3 e4 extends_trans by metis
  then show ?thesis using e3 violation_rejects extends_bad [OF e4] by blast
qed

lemma rag_policies_ok:
  assumes "rag_ok (env_float (g_checks g)) chunk st" "TrimSpace (rc_ChunkID chunk) \<noteq> ''<nil>''"
  shows "extends (env_float (g_checks g)) chunk st (foldl (rag_policy g chunk request) st policies) \<and>
    ((\<exists>policy \<in> set policies. ragPolicyAppliesToRequest (env_float (g_checks g)) (ragDirectives (env_float (g_checks g)) policy) request \<and>
       chunk_violation g (ragDirectives (env_float (g_checks g)) policy) chunk) \<longrightarrow>
     bad_finding (env_float (g_checks g)) chunk (foldl (rag_policy g chunk request) st policies))"
  using assms(1)
proof (induction policies arbitrary: st)
  case Nil
  then show ?case by (simp add: extends_def)
next
  case (Cons policy policies)
  let ?st = "rag_policy g chunk request st policy"
  note one = rag_policy_ok [OF Cons.prems assms(2), of request policy]
  note rest = Cons.IH [OF extends_ok [OF conjunct1 [OF one]]]
  have "extends (env_float (g_checks g)) chunk st (foldl (rag_policy g chunk request) ?st policies)"
    by (rule extends_trans [OF conjunct1 [OF one] conjunct1 [OF rest]])
  moreover note extends_bad [OF conjunct1 [OF rest]]
  ultimately show ?case using one rest by (simp only: foldl_Cons list.set bex_simps) metis
qed

section \<open>One chunk\<close>

lemma tag_literal: "literal_findings ff (tag_findings chunk fs)"
proof -
  have "map_of (buildRAGFindingDetails chunk (mergeMaps m [(''chunk_decision_only'', VBool True), (''chunk_decision'', VStr d)])) ''chunk_decision'' = Some (VStr d)"
    for m d by (simp add: buildRAGFindingDetails_def map_of_mergeMaps)
  note e = string_entry [OF this]
  have "decision_of ff (f\<lparr>f_Details := buildRAGFindingDetails chunk (mergeMaps (f_Details f)
      [(''chunk_decision_only'', VBool True), (''chunk_decision'', VStr (outcomeToRAGChunkDecision (f_Outcome f)))])\<rparr>) \<in> chunk_decisions" for f
    using outcome_decisions [of "f_Outcome f"] by (simp add: decision_of_def e del: stringValue.simps)
  then show ?thesis by (simp add: literal_findings_def tag_findings_def)
qed

lemma sanitize_keeps [simp]:
  "ro_ChunkID (sanitize_outcome chunk t reason oc) = ro_ChunkID oc"
  "ro_Decision oc \<in> chunk_decisions \<Longrightarrow> ro_Decision (sanitize_outcome chunk t reason oc) \<in> chunk_decisions"
  by (simp_all add: sanitize_outcome_def)

lemma high_rank: "d \<in> chunk_decisions \<Longrightarrow> ragChunkDecisionRank d \<ge> 3 \<longleftrightarrow> d \<in> {''reject'', ''quarantine''}"
  by (auto simp: chunk_decisions_def rank_decisions)

lemma finish_result:
  assumes "ro_Decision oc \<in> chunk_decisions" "ro_ChunkID oc = rc_ChunkID chunk" "literal_findings ff fs"
  shows "ro_ChunkID (finish_outcome ff chunk shadow hits fs oc) = rc_ChunkID chunk \<and>
    ro_Decision (finish_outcome ff chunk shadow hits fs oc) \<in> chunk_decisions \<and>
    ((\<exists>f \<in> set fs. about_chunk ff (rc_ChunkID chunk) f \<and> decision_of ff f \<in> {''reject'', ''quarantine''}) \<longrightarrow>
     ro_Decision (finish_outcome ff chunk shadow hits fs oc) \<in> {''reject'', ''quarantine''}) \<and>
    (\<not> shadow \<and> rc_PIIFlags chunk \<noteq> [] \<longrightarrow> ro_Decision (finish_outcome ff chunk shadow hits fs oc) \<noteq> ''allow'')"
proof -
  define o1 where "o1 = (if ro_Decision oc = ''allow'' \<and> rc_PIIFlags chunk \<noteq> []
    then oc\<lparr>ro_Decision := ''redact'', ro_Reason := ''Chunk contains precomputed PII flags''\<rparr> else oc)"
  define o2 where "o2 = (if shadow then o1\<lparr>ro_Decision := ''allow'',
    ro_Reason := (if TrimSpace (ro_Reason o1) = [] then ''Shadow mode captured a non-blocking RAG evaluation'' else ro_Reason o1)\<rparr> else o1)"
  let ?o = "o2\<lparr>ro_PolicyHits := sort (remdups hits)\<rparr>"
  have o: "ro_Decision ?o \<in> chunk_decisions" "ro_ChunkID ?o = rc_ChunkID chunk" using assms(1,2) by (simp_all add: o2_def o1_def)
  note r = reconcile_result [OF o(1) assms(3), unfolded o(2)]
  have f: "finish_outcome ff chunk shadow hits fs oc = reconcileRAGChunkOutcome ff ?o fs"
    by (simp only: finish_outcome_def Let_def o2_def o1_def)
  have "ragChunkDecisionRank (ro_Decision (reconcileRAGChunkOutcome ff ?o fs)) \<ge> 3"
    if "g \<in> set fs" "about_chunk ff (rc_ChunkID chunk) g" "decision_of ff g \<in> {''reject'', ''quarantine''}" for g
    using r that high_rank [of "decision_of ff g"] by (fastforce simp: chunk_decisions_def)
  moreover have "ro_Decision (reconcileRAGChunkOutcome ff ?o fs) \<noteq> ''allow''" if "\<not> shadow" "rc_PIIFlags chunk \<noteq> []"
  proof -
    have "ro_Decision ?o \<noteq> ''allow''" using that by (simp add: o2_def o1_def)
    with \<open>ro_Decision ?o \<in> chunk_decisions\<close> have "2 \<le> ragChunkDecisionRank (ro_Decision ?o)" by (auto simp: chunk_decisions_def rank_decisions)
    also have "\<dots> \<le> ragChunkDecisionRank (ro_Decision (reconcileRAGChunkOutcome ff ?o fs))" using r by blast
    finally show ?thesis by (auto simp: rank_decisions)
  qed
  ultimately show ?thesis unfolding f using r high_rank by blast
qed

lemma chunk_result:
  assumes "evaluateRAGChunk g bundle0 policies request chunk shadow r = (e, r')" "TrimSpace (rc_ChunkID chunk) \<noteq> ''<nil>''"
  shows "\<exists>oc. re_outcomes e = [oc] \<and> ro_ChunkID oc = rc_ChunkID chunk \<and> ro_Decision oc \<in> chunk_decisions \<and>
    ((\<exists>policy \<in> set policies. ragPolicyAppliesToRequest (env_float (g_checks g)) (ragDirectives (env_float (g_checks g)) policy) (chunk_request chunk request) \<and>
       chunk_violation g (ragDirectives (env_float (g_checks g)) policy) chunk) \<longrightarrow> ro_Decision oc \<in> {''reject'', ''quarantine''}) \<and>
    (\<not> shadow \<and> rc_PIIFlags chunk \<noteq> [] \<longrightarrow> ro_Decision oc \<noteq> ''allow'')"
proof -
  let ?ff = "env_float (g_checks g)" and ?req = "chunk_request chunk request"
  let ?init = "\<lparr>rs_outcome = chunk_outcome chunk, rs_findings = [], rs_chain = [], rs_quarantine = [], rs_hits = []\<rparr>"
  let ?st = "foldl (rag_policy g chunk ?req) ?init policies"
  have "rag_ok ?ff chunk ?init" by (simp add: rag_ok_def chunk_outcome_def literal_findings_def)
  note ps = rag_policies_ok [OF this assms(2), of ?req policies]
  have ok: "rag_ok ?ff chunk ?st" by (rule extends_ok [OF conjunct1 [OF ps]])
  obtain s1 s2 t1 t2 pk lc pf where
    e: "re_outcomes e = [finish_outcome ?ff chunk shadow (rs_hits ?st) (rs_findings ?st @ tag_findings chunk pk @ tag_findings chunk lc @ tag_findings chunk pf)
      (sanitize_outcome chunk s2 t2 (sanitize_outcome chunk s1 t1 (rs_outcome ?st)))]"
    using assms(1) by (auto simp: evaluateRAGChunk_def Let_def split: prod.splits)
  let ?fs = "rs_findings ?st @ tag_findings chunk pk @ tag_findings chunk lc @ tag_findings chunk pf"
  have lit: "literal_findings ?ff ?fs" using ok by (simp add: rag_ok_def tag_literal)
  have "ro_Decision (sanitize_outcome chunk s2 t2 (sanitize_outcome chunk s1 t1 (rs_outcome ?st))) \<in> chunk_decisions"
    "ro_ChunkID (sanitize_outcome chunk s2 t2 (sanitize_outcome chunk s1 t1 (rs_outcome ?st))) = rc_ChunkID chunk"
    using ok by (simp_all add: rag_ok_def)
  note fin = finish_result [OF this lit, of shadow "rs_hits ?st"]
  have "bad_finding ?ff chunk ?st \<Longrightarrow> \<exists>f \<in> set ?fs. about_chunk ?ff (rc_ChunkID chunk) f \<and> decision_of ?ff f \<in> {''reject'', ''quarantine''}"
    by (auto simp: bad_finding_def)
  with fin ps e show ?thesis by (simp only: list.inject) metis
qed

section \<open>All chunks of a request\<close>

lemma stringValue_cong: "map_of m' k = map_of m k \<Longrightarrow> stringValue ff m' [k] = stringValue ff m [k]"
  by (simp add: Let_def split: option.splits goval.splits)

lemma metadataString_cong: "(\<And>k. k \<in> set ks \<Longrightarrow> map_of m' k = map_of m k) \<Longrightarrow> metadataString ff m' ks = metadataString ff m ks"
proof (induction ks)
  case (Cons k ks)
  then show ?case using stringValue_cong [of m' k m ff] by (simp add: Let_def del: stringValue.simps)
qed simp

lemma applies_cong:
  assumes "req_Actor request' = req_Actor request"
    and "\<And>k. k \<noteq> ''rag_chunk'' \<Longrightarrow> map_of (req_Metadata request') k = map_of (req_Metadata request) k"
  shows "ragPolicyAppliesToRequest ff d request' = ragPolicyAppliesToRequest ff d request"
proof -
  have "app_name ff (req_Metadata request') = app_name ff (req_Metadata request)"
    unfolding app_name_def by (rule metadataString_cong) (auto intro!: assms(2))
  then show ?thesis by (simp only: ragPolicyAppliesToRequest_def assms(1))
qed

lemma applies_chunk [simp]: "ragPolicyAppliesToRequest ff d (chunk_request chunk request) = ragPolicyAppliesToRequest ff d request"
  by (rule applies_cong) (simp_all add: chunk_request_def update_conv')

lemma stringValue_trimmed: "TrimSpace (stringValue ff m ks) = stringValue ff m ks \<and> stringValue ff m ks \<noteq> ''<nil>''"
  by (induction ks) (auto simp: Let_def TrimSpace_def [of "[]"] split: option.splits goval.splits)

lemma trim_first: "\<not> is_space c \<Longrightarrow> TrimSpace (c # s) = [] \<or> hd (TrimSpace (c # s)) = c"
  unfolding TrimSpace_def by (simp add: dropWhile_append)

lemma extracted_id:
  assumes "chunk \<in> set (extractRAGChunks ff bundle0 request)"
  shows "TrimSpace (rc_ChunkID chunk) \<noteq> ''<nil>''"
proof -
  have "TrimSpace (rc_ChunkID (chunk_of ff inventory metadata index entries)) \<noteq> ''<nil>''" for inventory metadata index entries
    using stringValue_trimmed [of ff entries "[''chunk_id'']"] trim_first [of "CHR ''c''" "''hunk-'' @ show_int (int index + 1)"]
    by (auto simp: chunk_of_def Let_def is_space_def simp del: stringValue.simps)
  then show ?thesis using assms
    by (auto simp: extractRAGChunks_def Let_def map_filter_def split: option.splits goval.splits)
qed

definition chunk_verdict :: "guard_env \<Rightarrow> PolicyBundle list \<Rightarrow> EvaluateRequest \<Rightarrow> ragChunkInput \<Rightarrow> bool" where
  "chunk_verdict g policies request chunk \<longleftrightarrow>
     (\<exists>policy \<in> set policies. ragPolicyAppliesToRequest (env_float (g_checks g)) (ragDirectives (env_float (g_checks g)) policy) request \<and>
        chunk_violation g (ragDirectives (env_float (g_checks g)) policy) chunk)"

lemma rag_chunks_result:
  assumes "rag_chunks g bundle0 policies request shadow chunks r = (es, r')" "\<forall>chunk \<in> set chunks. TrimSpace (rc_ChunkID chunk) \<noteq> ''<nil>''"
  shows "list_all2 (\<lambda>chunk oc. ro_ChunkID oc = rc_ChunkID chunk \<and> ro_Decision oc \<in> chunk_decisions \<and>
      (chunk_verdict g policies request chunk \<longrightarrow> ro_Decision oc \<in> {''reject'', ''quarantine''}) \<and>
      (\<not> shadow \<and> rc_PIIFlags chunk \<noteq> [] \<longrightarrow> ro_Decision oc \<noteq> ''allow'')) chunks (concat (map re_outcomes es))"
  using assms
proof (induction chunks arbitrary: r es)
  case (Cons chunk chunks)
  obtain e r1 where e: "evaluateRAGChunk g bundle0 policies request chunk shadow r = (e, r1)" by fastforce
  obtain es1 r2 where es1: "rag_chunks g bundle0 policies request shadow chunks r1 = (es1, r2)" by fastforce
  have es: "es = e # es1" using Cons.prems(1) e es1 by simp
  obtain oc where oc: "re_outcomes e = [oc]" "ro_ChunkID oc = rc_ChunkID chunk" "ro_Decision oc \<in> chunk_decisions"
    "chunk_verdict g policies request chunk \<longrightarrow> ro_Decision oc \<in> {''reject'', ''quarantine''}"
    "\<not> shadow \<and> rc_PIIFlags chunk \<noteq> [] \<longrightarrow> ro_Decision oc \<noteq> ''allow''"
    using chunk_result [OF e] Cons.prems(2) by (auto simp: chunk_verdict_def)
  have r2: "r2 = r'" using Cons.prems(1) e es1 by simp
  show ?case using Cons.IH [OF es1 [unfolded r2]] Cons.prems(2) oc by (simp add: es)
qed simp


section \<open>The decision of the stage\<close>

lemma all_blocked_decision:
  assumes "ocs \<noteq> []" "\<forall>oc \<in> set ocs. ro_Decision oc \<in> {''reject'', ''quarantine''}"
  shows "fst (resolveRAGDecision fs redactions ocs) \<in> {''deny'', ''sandbox''}"
proof -
  have "filter (\<lambda>oc. ro_Decision oc \<in> {''allow'', ''redact''}) ocs = []" using assms(2) by (auto simp: filter_empty_conv)
  moreover have "filter (\<lambda>oc. ro_Decision oc \<in> {''reject'', ''quarantine''}) ocs = ocs" using assms(2) by (simp add: filter_id_conv)
  ultimately show ?thesis using assms(1) by (simp add: resolveRAGDecision_def Let_def)
qed

lemma chunks_content [simp]: "extractRAGChunks ff bundle0 (request\<lparr>req_Content := c\<rparr>) = extractRAGChunks ff bundle0 request"
  by (simp add: extractRAGChunks_def)

lemma verdict_content [simp]: "chunk_verdict g policies (request\<lparr>req_Content := c\<rparr>) chunk = chunk_verdict g policies request chunk"
  by (simp add: chunk_verdict_def ragPolicyAppliesToRequest_def)

lemma response_decision:
  "Decision (response\<lparr>Findings := a, Redactions := b, DecisionChain := c, SanitizedInput := e, SanitizedOutput := f, resp_Metadata := m,
     Decision := d, ApprovalRequired := h, Reason := i\<rparr>) = d"
  by simp

lemma rag_decision:
  "\<exists>c fs redactions r2. Decision (fst (evaluateRAG g bundle0 policies request response r)) = fst (resolveRAGDecision fs redactions
     (re_outcomes (fst (evaluateRAGChunks g bundle0 (fst (compileRuntimePolicies g ''rag'' policies r)) (request\<lparr>req_Content := c\<rparr>)
       (extractRAGChunks (env_float (g_checks g)) bundle0 request) r2))))"
  unfolding evaluateRAG_def Let_def chunks_content split_beta fst_conv response_decision by (intro exI, rule refl)

text \<open>
  A retrieval request all of whose chunks violate a directive of a policy that applies to it is denied or sandboxed: the
  retrieval stage never answers allow when nothing that was retrieved may be passed on.
\<close>
theorem all_violating_denied:
  assumes "chunks = extractRAGChunks (env_float (g_checks g)) bundle0 request" "chunks \<noteq> []"
    and "\<forall>chunk \<in> set chunks. chunk_verdict g (fst (compileRuntimePolicies g ''rag'' policies r)) request chunk"
  shows "Decision (fst (evaluateRAG g bundle0 policies request response r)) \<in> {''deny'', ''sandbox''}"
proof -
  let ?ps = "fst (compileRuntimePolicies g ''rag'' policies r)"
  obtain c fs redactions r2 where d: "Decision (fst (evaluateRAG g bundle0 policies request response r)) =
      fst (resolveRAGDecision fs redactions (re_outcomes (fst (evaluateRAGChunks g bundle0 ?ps (request\<lparr>req_Content := c\<rparr>) chunks r2))))"
    using rag_decision unfolding assms(1) by blast
  obtain ce r3 where ce: "evaluateRAGChunks g bundle0 ?ps (request\<lparr>req_Content := c\<rparr>) chunks r2 = (ce, r3)" by fastforce
  obtain es where es: "rag_chunks g bundle0 ?ps (request\<lparr>req_Content := c\<rparr>) (collectRAGChunkDirectives (env_float (g_checks g)) ?ps) chunks r2 = (es, r3)"
    and ocs: "re_outcomes ce = concat (map re_outcomes es)"
    using ce by (auto simp: evaluateRAGChunks_def split: prod.splits)
  have "list_all2 (\<lambda>chunk oc. ro_Decision oc \<in> {''reject'', ''quarantine''}) chunks (re_outcomes ce)"
    unfolding ocs by (rule list.rel_mono_strong [OF rag_chunks_result [OF es], unfolded verdict_content]) (use extracted_id assms in auto)
  then have "re_outcomes ce \<noteq> []" "\<forall>oc \<in> set (re_outcomes ce). ro_Decision oc \<in> {''reject'', ''quarantine''}"
    using assms(2) by (auto simp: list_all2_conv_all_nth in_set_conv_nth)
  then show ?thesis unfolding d ce fst_conv by (rule all_blocked_decision)
qed

end
