(* ===== verification/GuardRetrieval.thy ===== *)
theory GuardRetrieval
  imports GuardPaths GuardChunks
begin

text \<open>
  The retrieval stage on concrete requests: the theorems of \<open>GuardChunks\<close> applied, and three cases in which a directive
  of a policy does not do what its name says.
\<close>

definition rag_demo_policy :: "gomap \<Rightarrow> PolicyBundle" where
  "rag_demo_policy directives = (demo_policy ''v1'' [])\<lparr>Metadata := directives\<rparr>"

definition rag_demo_request :: "gomap list \<Rightarrow> EvaluateRequest" where
  "rag_demo_request chunks = (demo_request ''rag'' ''a question'' [])\<lparr>req_Metadata := [(''rag_chunks'', VList (map VMap chunks))]\<rparr>"

definition low_trust_chunk :: gomap where
  "low_trust_chunk = [(''chunk_id'', VStr ''c1''), (''content'', VStr ''text''), (''source_id'', VStr ''kb''), (''trust_score'', VInt 10)]"

definition trust_directives :: gomap where
  "trust_directives = [(''min_trust_score'', VInt 80), (''trusted_source_ids'', VStrs [''wiki''])]"

lemma rag_demo_chunks:
  "extractRAGChunks (env_float (g_checks demo_guard)) None (rag_demo_request [low_trust_chunk]) =
     [chunk_of (env_float (g_checks demo_guard)) [] (req_Metadata (rag_demo_request [low_trust_chunk])) 0 low_trust_chunk]"
  by (simp add: extractRAGChunks_def rag_demo_request_def bundleRAGSources_def map_filter_def)

lemma rag_demo_verdict:
  "chunk \<in> set (extractRAGChunks (env_float (g_checks demo_guard)) None (rag_demo_request [low_trust_chunk])) \<Longrightarrow>
   chunk_verdict demo_guard [rag_demo_policy trust_directives] (rag_demo_request [low_trust_chunk]) chunk"
  unfolding rag_demo_chunks by (simp only: list.set singleton_iff) code_simp


lemma rag_demo_compiled: "fst (compileRuntimePolicies demo_guard ''rag'' [rag_demo_policy trust_directives] new_runtime) = [rag_demo_policy trust_directives]"
  by code_simp

theorem all_violating_denied_witness:
  "Decision (fst (evaluateRAG demo_guard None [rag_demo_policy trust_directives] (rag_demo_request [low_trust_chunk]) (empty_response []) new_runtime)) \<in> {''deny'', ''sandbox''}"
proof (rule all_violating_denied [OF refl])
  show "extractRAGChunks (env_float (g_checks demo_guard)) None (rag_demo_request [low_trust_chunk]) \<noteq> []" by (simp add: rag_demo_chunks)
qed (unfold rag_demo_compiled, use rag_demo_verdict in blast)

section \<open>Directives without effect\<close>

text \<open>The decisions on the chunks of a request with one policy, for a tenant without a bundle.\<close>

definition rag_run :: "gomap \<Rightarrow> gomap \<Rightarrow> string list" where
  "rag_run directives chunk =
     (let request = rag_demo_request [chunk] in
      map ro_Decision (re_outcomes (fst (evaluateRAGChunks demo_guard None [rag_demo_policy directives] request
        (extractRAGChunks (env_float (g_checks demo_guard)) None request) new_runtime))))"

text \<open>
  A policy in shadow mode, which should only observe, rejects chunks: the outcome of a chunk is reset to allow for
  shadow mode and then raised again to the worst decision of its findings, so that the same chunk is rejected with shadow
  mode on and off.
\<close>
theorem shadow_mode_rejects:
  "rag_run ((''shadow_mode'', VBool True) # trust_directives) low_trust_chunk = [''reject''] \<and>
   rag_run trust_directives low_trust_chunk = [''reject'']"
  by code_simp

text \<open>
  The trust directives are skipped for a chunk that says nothing of its origin: with a minimum trust score of 80 and one
  trusted source, a chunk with trust score 10 from another source is rejected, and the same chunk without a score and
  without a source is allowed.
\<close>
theorem anonymous_chunk_trusted:
  "rag_run trust_directives low_trust_chunk = [''reject''] \<and>
   rag_run trust_directives [(''chunk_id'', VStr ''c1''), (''content'', VStr ''text'')] = [''allow'']"
  by code_simp

text \<open>
  A finding that denies the request is ignored when its summary is empty: the stage remembers the first denial by its
  summary and asks whether the summary is empty, so a provider that denies without a text lets the request through.
\<close>
theorem silent_denial_ignored:
  "fst (resolveRAGDecision [rag_finding (rag_demo_policy []) ''provider'' ''high'' 1 ''deny'' [] []] [] []) = ''allow'' \<and>
   fst (resolveRAGDecision [rag_finding (rag_demo_policy []) ''provider'' ''high'' 1 ''deny'' ''no'' []] [] []) = ''deny'' \<and>
   fst (resolveDecision [rag_finding (rag_demo_policy []) ''provider'' ''high'' 1 ''deny'' [] []] []) = ''deny''"
  by code_simp

end
