(* ===== verification/GuardModality.thy ===== *)
theory GuardModality
  imports GuardTypes
begin

text \<open>
  The modality stage of the guard runtime, \<^verbatim>\<open>internal/engine/modality.go\<close> and \<^verbatim>\<open>modality_detect.go\<close>: attachments are
  turned into text by a chain of extractors, with a bounded cache in front of it, and folded into the text the
  detectors see; modality detectors report findings on the attachments themselves.

  The registered extractors and detectors are parameters, and so are SHA-256 and the state of the context: \<open>ctx i j\<close>
  says whether it has ended when extractor \<open>j\<close> is about to run on attachment \<open>i\<close>.  The cache is an association list,
  so that its number of entries is its length.
\<close>

section \<open>UTF-8\<close>

definition code_of :: "byte \<Rightarrow> nat" where
  "code_of c = of_char c"

definition RuneStart :: "byte \<Rightarrow> bool" where
  "RuneStart c \<longleftrightarrow> \<not> (128 \<le> code_of c \<and> code_of c \<le> 191)"

definition continues :: "nat \<Rightarrow> nat \<Rightarrow> byte \<Rightarrow> bool" where
  "continues lo hi c \<longleftrightarrow> lo \<le> code_of c \<and> code_of c \<le> hi"

text \<open>How many bytes follow a first byte, and the range of the second one; \<open>None\<close> for a byte that starts nothing.\<close>

definition rune_shape :: "byte \<Rightarrow> (nat \<times> nat \<times> nat) option" where
  "rune_shape c =
     (let n = code_of c in
      if n < 128 then Some (0, 128, 191)
      else if n < 194 then None
      else if n < 224 then Some (1, 128, 191)
      else if n = 224 then Some (2, 160, 191)
      else if n = 237 then Some (2, 128, 159)
      else if n < 240 then Some (2, 128, 191)
      else if n = 240 then Some (3, 144, 191)
      else if n < 244 then Some (3, 128, 191)
      else if n = 244 then Some (3, 128, 143)
      else None)"

text \<open>\<open>utf8.Valid\<close>: the state is the number of bytes still expected and the range of the next one.\<close>

fun utf8_from :: "nat \<Rightarrow> nat \<Rightarrow> nat \<Rightarrow> string \<Rightarrow> bool" where
  "utf8_from n lo hi [] = (n = 0)"
| "utf8_from 0 lo hi (c # cs) = (case rune_shape c of None \<Rightarrow> False | Some (k, l, h) \<Rightarrow> utf8_from k l h cs)"
| "utf8_from (Suc n) lo hi (c # cs) = (continues lo hi c \<and> utf8_from n 128 191 cs)"

definition utf8_Valid :: "string \<Rightarrow> bool" where
  "utf8_Valid s = utf8_from 0 128 191 s"

section \<open>Extraction\<close>

definition maxAttachmentsPerRequest :: nat where "maxAttachmentsPerRequest = 16"
definition maxExtractBytes :: nat where "maxExtractBytes = 8 * 1048576"
definition maxExtractedTextPerAsset :: nat where "maxExtractedTextPerAsset = 32 * 1024"
definition maxExtractCacheEntries :: nat where "maxExtractCacheEntries = 4096"

text \<open>An extractor answers with its text, or that it does not handle the asset, or with an error.\<close>

datatype extraction = Extracted string | NotHandled | Failed

record Extractor =
  ext_Kinds :: "string list"
  ext_Extract :: "Attachment \<Rightarrow> extraction"

type_synonym extract_cache = "(string \<times> string) list"

definition handles_kind :: "string list \<Rightarrow> string \<Rightarrow> bool" where
  "handles_kind kinds kind = (kinds = [] \<or> list_ex (\<lambda>k. EqualFold k kind) kinds)"

definition textAttachmentExtractor :: Extractor where
  "textAttachmentExtractor =
     \<lparr>ext_Kinds = [''document''],
      ext_Extract = (\<lambda>att. if att_Data att = [] \<or> \<not> utf8_Valid (att_Data att) then NotHandled else Extracted (att_Data att))\<rparr>"

text \<open>\<open>init\<close> registers the text extractor; later registrations are appended.\<close>

definition RegisterExtractor :: "Extractor option \<Rightarrow> Extractor list \<Rightarrow> Extractor list" where
  "RegisterExtractor e chain = (case e of None \<Rightarrow> chain | Some x \<Rightarrow> chain @ [x])"

fun rune_cut :: "string \<Rightarrow> nat \<Rightarrow> nat" where
  "rune_cut s n = (if n > 0 \<and> \<not> RuneStart (s ! n) then rune_cut s (n - 1) else n)"

declare rune_cut.simps [simp del]

definition capExtractedText :: "string \<Rightarrow> string" where
  "capExtractedText s =
     (if length s \<le> maxExtractedTextPerAsset then s else take (rune_cut s maxExtractedTextPerAsset) s)"

fun runExtractors :: "(nat \<Rightarrow> bool) \<Rightarrow> nat \<Rightarrow> Extractor list \<Rightarrow> Attachment \<Rightarrow> string" where
  "runExtractors ctx j [] att = []"
| "runExtractors ctx j (e # chain) att =
     (if \<not> handles_kind (ext_Kinds e) (att_Kind att) then runExtractors ctx (Suc j) chain att
      else if ctx j then []
      else case ext_Extract e att of
        Extracted t \<Rightarrow> (if TrimSpace t \<noteq> [] then TrimSpace t else runExtractors ctx (Suc j) chain att)
      | _ \<Rightarrow> runExtractors ctx (Suc j) chain att)"

definition loadExtractCache :: "extract_cache \<Rightarrow> string \<Rightarrow> string option" where
  "loadExtractCache cache key = map_of cache key"

definition storeExtractCache :: "string \<Rightarrow> string \<Rightarrow> extract_cache \<Rightarrow> extract_cache" where
  "storeExtractCache key val cache =
     AList.update key val (if length cache \<ge> maxExtractCacheEntries then [] else cache)"

definition asset_key :: "(string \<Rightarrow> string) \<Rightarrow> Attachment \<Rightarrow> string" where
  "asset_key hashBytes att = (if att_Data att \<noteq> [] then hashBytes (att_Data att) else TrimSpace (att_Hash att))"

definition fresh_text :: "(nat \<Rightarrow> bool) \<Rightarrow> Extractor list \<Rightarrow> Attachment \<Rightarrow> string" where
  "fresh_text ctx chain att = capExtractedText (TrimSpace (runExtractors ctx 0 chain att))"

definition resolveAttachmentText ::
  "(string \<Rightarrow> string) \<Rightarrow> Extractor list \<Rightarrow> (nat \<Rightarrow> bool) \<Rightarrow> Attachment \<Rightarrow> extract_cache \<Rightarrow> string \<times> extract_cache" where
  "resolveAttachmentText hashBytes chain ctx att cache =
     (if TrimSpace (att_Text att) \<noteq> [] then (capExtractedText (TrimSpace (att_Text att)), cache)
      else if att_Data att = [] \<and> TrimSpace (att_Ref att) = [] then ([], cache)
      else if length (att_Data att) > maxExtractBytes then ([], cache)
      else
        (let key = asset_key hashBytes att; t = fresh_text ctx chain att in
         if key = [] then (t, cache)
         else case loadExtractCache cache key of
           Some cached \<Rightarrow> (cached, cache)
         | None \<Rightarrow> (t, storeExtractCache key t cache)))"

definition newline :: string where "newline = [CHR 0x0A]"

definition appendExtractedText :: "string \<Rightarrow> string list \<Rightarrow> string" where
  "appendExtractedText base parts =
     (if TrimSpace base = [] then Join parts newline else base @ newline @ Join parts newline)"

text \<open>The loop over the attachments, with the parts gathered for input and output.\<close>

fun extract_loop ::
  "(string \<Rightarrow> string) \<Rightarrow> Extractor list \<Rightarrow> (nat \<Rightarrow> nat \<Rightarrow> bool) \<Rightarrow> nat \<Rightarrow> Attachment list
     \<Rightarrow> string list \<times> string list \<times> extract_cache \<Rightarrow> string list \<times> string list \<times> extract_cache" where
  "extract_loop hashBytes chain ctx i [] st = st"
| "extract_loop hashBytes chain ctx i (att # atts) (ins, outs, cache) =
     (if i \<ge> maxAttachmentsPerRequest then (ins, outs, cache)
      else
        (let (t, cache1) = resolveAttachmentText hashBytes chain (ctx i) att cache in
         extract_loop hashBytes chain ctx (Suc i) atts
           (if t = [] then (ins, outs, cache1)
            else if EqualFold (att_Role att) ''output'' then (ins, outs @ [t], cache1)
            else (ins @ [t], outs, cache1))))"

definition applyModalityExtraction ::
  "bool \<Rightarrow> (string \<Rightarrow> string) \<Rightarrow> Extractor list \<Rightarrow> (nat \<Rightarrow> nat \<Rightarrow> bool) \<Rightarrow> EvaluateRequest \<Rightarrow> extract_cache
     \<Rightarrow> EvaluateRequest \<times> extract_cache" where
  "applyModalityExtraction enabled hashBytes chain ctx request cache =
     (let c = req_Content request in
      if \<not> enabled \<or> Attachments c = [] then (request, cache)
      else
        (let (ins, outs, cache1) = extract_loop hashBytes chain ctx 0 (Attachments c) ([], [], cache);
             c1 = (if ins \<noteq> [] then c\<lparr>Input := appendExtractedText (Input c) ins\<rparr> else c);
             c2 = (if outs \<noteq> [] then c1\<lparr>Output := appendExtractedText (Output c) outs\<rparr> else c1)
         in (request\<lparr>req_Content := c2\<rparr>, cache1)))"

section \<open>Modality detectors\<close>

record ModalityDetector =
  det_Kinds :: "string list"
  det_Detect :: "Attachment \<Rightarrow> Finding list option"

definition modalityDetectorsActive :: "bool \<Rightarrow> ModalityDetector list \<Rightarrow> bool" where
  "modalityDetectorsActive enabled detectors \<longleftrightarrow> enabled \<and> detectors \<noteq> []"

definition set_detail :: "string \<Rightarrow> string \<Rightarrow> gomap \<Rightarrow> gomap" where
  "set_detail key value details = (if value \<noteq> [] then AList.update key (VStr value) details else details)"

definition tagFindingWithAttachment :: "Attachment \<Rightarrow> Finding \<Rightarrow> Finding" where
  "tagFindingWithAttachment att f =
     f\<lparr>f_Details := set_detail ''attachment_mime'' (att_MIME att)
        (set_detail ''attachment_hash'' (att_Hash att) (set_detail ''attachment_kind'' (att_Kind att) (f_Details f)))\<rparr>"

text \<open>The results of the detectors on one attachment; \<open>None\<close> is an error, which is skipped.\<close>

definition detect_one :: "ModalityDetector list \<Rightarrow> Attachment \<Rightarrow> Finding list list" where
  "detect_one chain att =
     List.map_filter (\<lambda>d. if handles_kind (det_Kinds d) (att_Kind att)
       then map_option (map (tagFindingWithAttachment att)) (det_Detect d att) else None) chain"

text \<open>\<open>ctx i\<close> says whether the context has ended before attachment \<open>i\<close>.\<close>

fun detect_loop :: "ModalityDetector list \<Rightarrow> (nat \<Rightarrow> bool) \<Rightarrow> nat \<Rightarrow> Attachment list \<Rightarrow> Finding list list" where
  "detect_loop chain ctx i [] = []"
| "detect_loop chain ctx i (att # atts) =
     (if i \<ge> maxAttachmentsPerRequest \<or> ctx i then []
      else detect_one chain att @ detect_loop chain ctx (Suc i) atts)"

definition runModalityDetectors :: "ModalityDetector list \<Rightarrow> (nat \<Rightarrow> bool) \<Rightarrow> EvaluateRequest \<Rightarrow> Finding list \<times> string list" where
  "runModalityDetectors chain ctx request =
     (let atts = Attachments (req_Content request); results = detect_loop chain ctx 0 atts in
      if atts = [] \<or> chain = [] then ([], [])
      else if results = [] then ([], [])
      else (concat results, [''evaluated modality detectors over request attachments'']))"

section \<open>Capping\<close>

lemma rune_cut_le: "rune_cut s n \<le> n"
proof (induction s n rule: rune_cut.induct)
  case (1 s n)
  show ?case by (subst rune_cut.simps) (use 1 in auto)
qed

lemma rune_cut_start: "rune_cut s n = 0 \<or> RuneStart (s ! rune_cut s n)"
proof (induction s n rule: rune_cut.induct)
  case (1 s n)
  show ?case using 1 by (cases "n > 0 \<and> \<not> RuneStart (s ! n)") (auto simp: rune_cut.simps [of s n])
qed

lemma cap_length: "length (capExtractedText s) \<le> maxExtractedTextPerAsset"
  using rune_cut_le [of s maxExtractedTextPerAsset] by (simp add: capExtractedText_def)

lemma rune_shape_range: "rune_shape c = Some (k, lo, hi) \<Longrightarrow> 128 \<le> lo \<and> hi \<le> 191"
  by (auto simp: rune_shape_def Let_def split: if_splits)

lemma utf8_take:
  "utf8_from n lo hi s \<Longrightarrow> k < length s \<Longrightarrow> RuneStart (s ! k) \<Longrightarrow> 128 \<le> lo \<Longrightarrow> hi \<le> 191 \<Longrightarrow> utf8_from n lo hi (take k s)"
proof (induction n lo hi s arbitrary: k rule: utf8_from.induct)
  case (2 lo hi c cs)
  then show ?case using rune_shape_range [of c] by (cases k) (auto split: option.splits)
next
  case (3 n lo hi c cs)
  then show ?case by (cases k) (auto simp: continues_def RuneStart_def)
qed simp

text \<open>
  Capping keeps the encoding: the capped text is a prefix of at most 32 KiB, it is the whole text when that is short
  enough, and a valid UTF-8 text stays valid, because the cut is moved back to the start of a character.
\<close>

theorem cap_keeps_utf8:
  "prefix (capExtractedText s) s \<and> length (capExtractedText s) \<le> 32768 \<and>
   (length s \<le> 32768 \<longrightarrow> capExtractedText s = s) \<and> (utf8_Valid s \<longrightarrow> utf8_Valid (capExtractedText s))"
proof (cases "length s \<le> maxExtractedTextPerAsset")
  case False
  let ?k = "rune_cut s maxExtractedTextPerAsset"
  have "?k < length s" using False rune_cut_le [of s maxExtractedTextPerAsset] by simp
  then have "utf8_Valid (take ?k s)" if "utf8_Valid s"
    using that rune_cut_start [of s maxExtractedTextPerAsset] utf8_take [of 0 128 191 s ?k] by (auto simp: utf8_Valid_def)
  with False cap_length [of s] show ?thesis by (auto simp: capExtractedText_def maxExtractedTextPerAsset_def take_is_prefix)
qed (simp add: capExtractedText_def maxExtractedTextPerAsset_def)

section \<open>Bounds\<close>

definition cache_ok :: "extract_cache \<Rightarrow> bool" where
  "cache_ok cache \<longleftrightarrow> length cache \<le> maxExtractCacheEntries \<and> (\<forall>kv \<in> set cache. length (snd kv) \<le> maxExtractedTextPerAsset)"

lemma cache_ok_Nil [simp]: "cache_ok []"
  by (simp add: cache_ok_def)

lemma update_length: "length (AList.update k v m) \<le> Suc (length m)"
  by (induction m) auto

lemma update_values_in: "set (AList.update k v m) \<subseteq> insert (k, v) (set m)"
  by (induction m) auto

lemma store_ok:
  assumes "cache_ok cache" "length t \<le> maxExtractedTextPerAsset"
  shows "cache_ok (storeExtractCache key t cache)"
proof -
  let ?m = "if length cache \<ge> maxExtractCacheEntries then [] else cache"
  have "length ?m < maxExtractCacheEntries" by (auto simp: maxExtractCacheEntries_def)
  then have "length (AList.update key t ?m) \<le> maxExtractCacheEntries" using update_length [of key t ?m] by simp
  moreover have "\<forall>kv \<in> set (AList.update key t ?m). length (snd kv) \<le> maxExtractedTextPerAsset"
  proof -
    have "\<forall>kv \<in> set ?m. length (snd kv) \<le> maxExtractedTextPerAsset" using assms(1) by (simp add: cache_ok_def)
    then have "\<forall>kv \<in> insert (key, t) (set ?m). length (snd kv) \<le> maxExtractedTextPerAsset" using assms(2) by simp
    then show ?thesis using update_values_in [of key t ?m] by blast
  qed
  ultimately show ?thesis by (simp add: cache_ok_def storeExtractCache_def)
qed

lemma resolve_ok:
  assumes "cache_ok cache" "resolveAttachmentText hashBytes chain ctx att cache = (t, cache')"
  shows "cache_ok cache' \<and> length t \<le> maxExtractedTextPerAsset"
proof -
  have "length s \<le> maxExtractedTextPerAsset" if "map_of cache k = Some s" for k s
    using assms(1) map_of_SomeD [OF that] by (auto simp: cache_ok_def)
  with assms show ?thesis
    by (auto simp: resolveAttachmentText_def fresh_text_def loadExtractCache_def Let_def cap_length store_ok
        split: if_splits option.splits)
qed

lemma extract_loop_ok:
  assumes "extract_loop hashBytes chain ctx i atts (ins, outs, cache) = (ins', outs', cache')" "cache_ok cache"
    and "\<forall>t \<in> set (ins @ outs). length t \<le> maxExtractedTextPerAsset" "length ins \<le> i" "length outs \<le> i" "i \<le> maxAttachmentsPerRequest"
  shows "cache_ok cache' \<and> (\<forall>t \<in> set (ins' @ outs'). length t \<le> maxExtractedTextPerAsset) \<and>
    length ins' \<le> maxAttachmentsPerRequest \<and> length outs' \<le> maxAttachmentsPerRequest"
  using assms
proof (induction atts arbitrary: i ins outs cache)
  case (Cons att atts)
  obtain t cache1 where r: "resolveAttachmentText hashBytes chain (ctx i) att cache = (t, cache1)" by fastforce
  note ok = resolve_ok [OF Cons.prems(2) r]
  show ?case
  proof (cases "i \<ge> maxAttachmentsPerRequest")
    case False
    obtain ins1 outs1 where st: "(if t = [] then (ins, outs, cache1)
            else if EqualFold (att_Role att) ''output'' then (ins, outs @ [t], cache1) else (ins @ [t], outs, cache1)) = (ins1, outs1, cache1)"
      by (cases "t = []"; cases "EqualFold (att_Role att) ''output''") simp_all
    have step: "extract_loop hashBytes chain ctx (Suc i) atts (ins1, outs1, cache1) = (ins', outs', cache')"
      using Cons.prems(1) False r st by simp
    have "set (ins1 @ outs1) \<subseteq> insert t (set (ins @ outs))" "length ins1 \<le> Suc i" "length outs1 \<le> Suc i"
      using st Cons.prems(4,5) by (auto split: if_splits)
    then show ?thesis using Cons.IH [OF step] ok Cons.prems(3) False by auto
  qed (use Cons.prems in auto)
qed auto

lemma Join_length: "\<forall>p \<in> set parts. length p \<le> n \<Longrightarrow> length (Join parts newline) + 1 \<le> length parts * (n + 1) + 1"
  by (induction parts newline rule: Join.induct) (auto simp: newline_def)

lemma append_length:
  assumes "\<forall>p \<in> set parts. length p \<le> n" "parts \<noteq> []"
  shows "length (appendExtractedText base parts) \<le> length base + length parts * (n + 1) + 1"
  using Join_length [OF assms(1)] by (simp add: appendExtractedText_def newline_def)

text \<open>
  The stage is bounded: whatever the attachments and extractors, with a cache of at most 4096 texts of at most 32 KiB
  the stage leaves such a cache, adds at most 16 texts of 32 KiB with their separators to the input and to the output,
  and changes nothing else of the request.
\<close>

theorem extraction_bounded:
  assumes "cache_ok cache" "applyModalityExtraction enabled hashBytes chain ctx request cache = (request', cache')"
  shows "cache_ok cache' \<and>
    length (Input (req_Content request')) \<le> length (Input (req_Content request)) + 16 * 32769 + 1 \<and>
    length (Output (req_Content request')) \<le> length (Output (req_Content request)) + 16 * 32769 + 1 \<and>
    request' = request\<lparr>req_Content := (req_Content request)\<lparr>Input := Input (req_Content request'), Output := Output (req_Content request')\<rparr>\<rparr>"
proof (cases "\<not> enabled \<or> Attachments (req_Content request) = []")
  case True
  with assms show ?thesis by (auto simp: applyModalityExtraction_def)
next
  case False
  let ?c = "req_Content request"
  obtain ins outs c1 where l: "extract_loop hashBytes chain ctx 0 (Attachments ?c) ([], [], cache) = (ins, outs, c1)"
    by (metis prod_cases3)
  from extract_loop_ok [OF l assms(1)] have ok: "cache_ok c1" "\<forall>t \<in> set ins. length t \<le> 32768" "\<forall>t \<in> set outs. length t \<le> 32768"
    "length ins \<le> 16" "length outs \<le> 16"
    by (auto simp: maxExtractedTextPerAsset_def maxAttachmentsPerRequest_def)
  have b: "length (appendExtractedText base parts) \<le> length base + 16 * 32769 + 1"
    if "\<forall>p \<in> set parts. length p \<le> 32768" "parts \<noteq> []" "length parts \<le> 16" for base parts
    using append_length [OF that(1,2), of base] that(3) by simp
  have eqs: "cache' = c1" "req_Content request' = ?c\<lparr>Input := (if ins \<noteq> [] then appendExtractedText (Input ?c) ins else Input ?c),
      Output := (if outs \<noteq> [] then appendExtractedText (Output ?c) outs else Output ?c)\<rparr>"
    "request' = request\<lparr>req_Content := req_Content request'\<rparr>"
    using assms(2) False l by (auto simp: applyModalityExtraction_def Let_def)
  show ?thesis using ok b eqs by auto
qed

text \<open>Attachments for the witnesses: a document with its bytes, and one that is only a reference.\<close>

definition document :: "string \<Rightarrow> Attachment" where
  "document d = \<lparr>att_Kind = ''document'', att_MIME = ''text/plain'', att_Role = [], att_Hash = [], att_Text = [], att_Data = d, att_Ref = []\<rparr>"

definition reference :: "string \<Rightarrow> Attachment" where
  "reference h = \<lparr>att_Kind = ''document'', att_MIME = ''text/plain'', att_Role = [], att_Hash = h, att_Text = [], att_Data = [], att_Ref = ''u''\<rparr>"

definition document_request :: "Attachment list \<Rightarrow> EvaluateRequest" where
  "document_request atts =
     \<lparr>req_TenantID = ''t'', req_RequestID = ''r'', req_Stage = ''input'', req_Model = ''m'', req_Provider = ''v'',
      req_Actor = \<lparr>actor_Type = [], actor_ID = [], actor_Role = [], actor_CustomerID = [], actor_TeamID = []\<rparr>,
      req_Content = \<lparr>Input = ''hi'', Output = [], ToolInput = [], Attachments = atts\<rparr>, req_MCP = None, req_Policies = [], req_Metadata = []\<rparr>"

theorem cap_keeps_utf8_witness:
  "utf8_Valid (capExtractedText ''ok'')"
proof -
  have "utf8_Valid ''ok''" by code_simp
  with cap_keeps_utf8 [of "''ok''"] show ?thesis by blast
qed

theorem extraction_bounded_witness:
  "\<exists>request' cache'. applyModalityExtraction True (\<lambda>b. b) [textAttachmentExtractor] (\<lambda>i j. False) (document_request [document ''abc'']) [] =
     (request', cache') \<and> cache_ok cache'"
proof -
  obtain request' cache' where "applyModalityExtraction True (\<lambda>b. b) [textAttachmentExtractor] (\<lambda>i j. False)
      (document_request [document ''abc'']) [] = (request', cache')" by fastforce
  with extraction_bounded [OF cache_ok_Nil this] show ?thesis by blast
qed

section \<open>The cache can hide an asset\<close>

lemma document_text:
  assumes "utf8_Valid d" "d \<noteq> []" "TrimSpace d \<noteq> []"
  shows "runExtractors ctx 0 [textAttachmentExtractor] (document d) = (if ctx 0 then [] else TrimSpace d)"
  using assms by (simp add: textAttachmentExtractor_def document_def handles_kind_def)

lemma reference_text: "runExtractors ctx 0 [textAttachmentExtractor] (reference h) = []"
  by (simp add: textAttachmentExtractor_def reference_def handles_kind_def)

lemma cap_empty [simp]: "capExtractedText [] = []"
  by (simp add: capExtractedText_def)

lemma TrimSpace_empty [simp]: "TrimSpace [] = []"
  by (simp add: TrimSpace_def)

lemma stored_lookup: "loadExtractCache (storeExtractCache key t cache) key = Some t"
  by (simp add: loadExtractCache_def storeExtractCache_def update_conv')

text \<open>
  One request can hide an asset from all later ones.  Take a text document small enough to be extracted, not in the
  cache: extracted on its own it gives its text.  But after a request with a mere reference that claims the SHA-256 of
  the document as its hash, and equally after a request whose context ended before the document was extracted, the
  cache holds the empty text for the document, and it is passed on with nothing of it shown to the detectors.
\<close>

theorem empty_extraction_is_cached:
  assumes "utf8_Valid d" "TrimSpace d \<noteq> []" "length d \<le> maxExtractBytes" "TrimSpace (hashBytes d) = hashBytes d" "hashBytes d \<noteq> []"
    and "loadExtractCache cache (hashBytes d) = None" "ctx 0"
  shows "(\<not> live 0 \<longrightarrow>
      fst (resolveAttachmentText hashBytes [textAttachmentExtractor] live (document d) cache) = capExtractedText (TrimSpace d)) \<and>
    fst (resolveAttachmentText hashBytes [textAttachmentExtractor] live (document d)
      (snd (resolveAttachmentText hashBytes [textAttachmentExtractor] live (reference (hashBytes d)) cache))) = [] \<and>
    fst (resolveAttachmentText hashBytes [textAttachmentExtractor] live (document d)
      (snd (resolveAttachmentText hashBytes [textAttachmentExtractor] ctx (document d) cache))) = []"
proof -
  have ne: "d \<noteq> []" using assms(2) by auto
  have doc: "asset_key hashBytes (document d) = hashBytes d" "att_Text (document d) = []" "att_Data (document d) = d"
    using ne by (simp_all add: asset_key_def document_def)
  have ref: "asset_key hashBytes (reference (hashBytes d)) = hashBytes d" "att_Text (reference (hashBytes d)) = []"
    "att_Data (reference (hashBytes d)) = []" "TrimSpace (att_Ref (reference (hashBytes d))) \<noteq> []"
    using assms(4) by (simp_all add: asset_key_def reference_def go_string_simps)
  show ?thesis
    using assms doc ref ne
    by (simp add: resolveAttachmentText_def fresh_text_def document_text [OF assms(1) ne assms(2)] reference_text stored_lookup Let_def
        del: runExtractors.simps)
qed

theorem empty_extraction_is_cached_witness:
  "fst (resolveAttachmentText (\<lambda>b. ''sha'') [textAttachmentExtractor] (\<lambda>j. False) (document ''abc'')
     (snd (resolveAttachmentText (\<lambda>b. ''sha'') [textAttachmentExtractor] (\<lambda>j. False) (reference ''sha'') []))) = []"
proof -
  have "utf8_Valid ''abc''" "TrimSpace ''abc'' \<noteq> []" "TrimSpace ''sha'' = ''sha''" by code_simp+
  from empty_extraction_is_cached [OF this(1,2), of "\<lambda>b. ''sha''" "[]" "\<lambda>j. True" "\<lambda>j. False"] this(3)
  show ?thesis by (simp add: maxExtractBytes_def loadExtractCache_def)
qed

end
