(* ===== verification/Float64.thy ===== *)
theory Float64
  imports Prelude Complex_Main
begin

text \<open>
  Go's \<open>float64\<close>: a value is the rational number it stands for, and an operation rounds the exact result to the nearest
  number with 53 significant bits, ties to even.  Infinities, not-a-number and subnormal numbers are left out: the amounts,
  weights and percentages of the gateway stay far inside the normal range.
\<close>

section \<open>Rounding\<close>

definition round_even :: "rat \<Rightarrow> int" where
  "round_even x =
     (let f = \<lfloor>x\<rfloor>; d = x - of_int f in
      if d < 1 / 2 then f else if d > 1 / 2 then f + 1 else if even f then f else f + 1)"

text \<open>The number of bits of a positive integer.\<close>

function bits :: "int \<Rightarrow> int" where
  "bits n = (if n \<le> 0 then 0 else bits (n div 2) + 1)"
  by pat_completeness auto
termination by (relation "measure nat") auto

declare bits.simps [simp del]

text \<open>The exponent of the largest power of two at or below a positive number.\<close>

definition exponent :: "rat \<Rightarrow> int" where
  "exponent x = (let (n, d) = quotient_of x; e = bits n - bits d in if x < 2 powi e then e - 1 else e)"

definition fl :: "rat \<Rightarrow> rat" where
  "fl x = (if x = 0 then 0 else let u = 2 powi (exponent \<bar>x\<bar> - 52) in of_int (round_even (x / u)) * u)"

definition f_add :: "rat \<Rightarrow> rat \<Rightarrow> rat" where
  "f_add x y = fl (x + y)"

definition f_mul :: "rat \<Rightarrow> rat \<Rightarrow> rat" where
  "f_mul x y = fl (x * y)"

definition f_div :: "rat \<Rightarrow> rat \<Rightarrow> rat" where
  "f_div x y = fl (x / y)"

text \<open>The numbers that are \<open>float64\<close> values.\<close>

definition float64 :: "rat \<Rightarrow> bool" where
  "float64 x \<longleftrightarrow> fl x = x"

section \<open>Rounding to an integer\<close>

lemma round_even_of_int [simp]: "round_even (of_int n) = n"
  by (simp add: round_even_def)

lemma round_even_bounds: "of_int \<lfloor>x\<rfloor> \<le> (of_int (round_even x) :: rat)" "round_even x \<le> \<lfloor>x\<rfloor> + 1"
  by (simp_all add: round_even_def Let_def)

lemma round_even_mono: "x \<le> y \<Longrightarrow> round_even x \<le> round_even y"
proof -
  assume le: "x \<le> y"
  then have "\<lfloor>x\<rfloor> \<le> \<lfloor>y\<rfloor>" by (rule floor_mono)
  then consider "\<lfloor>x\<rfloor> + 1 \<le> \<lfloor>y\<rfloor>" | "\<lfloor>x\<rfloor> = \<lfloor>y\<rfloor>" by linarith
  then show ?thesis
  proof cases
    case 1
    then show ?thesis using round_even_bounds(2) [of x] round_even_bounds(1) [of y] by linarith
  next
    case 2
    then show ?thesis using le by (auto simp: round_even_def Let_def)
  qed
qed

lemma round_even_ge: "of_int n \<le> x \<Longrightarrow> n \<le> round_even x"
  using round_even_mono [of "of_int n" x] by simp

lemma round_even_le: "x \<le> of_int n \<Longrightarrow> round_even x \<le> n"
  using round_even_mono [of x "of_int n"] by simp

section \<open>The exponent\<close>

lemma powi_less: "i < j \<Longrightarrow> (2 :: rat) powi i < 2 powi j"
  by (rule power_int_strict_increasing) simp_all

lemma powi_le: "i \<le> j \<Longrightarrow> (2 :: rat) powi i \<le> 2 powi j"
  by (rule power_int_increasing) simp_all

lemma powi_less_iff: "(2 :: rat) powi i < 2 powi j \<longleftrightarrow> i < j"
  using powi_less [of i j] powi_le [of j i] by linarith

lemma bits_nonneg: "0 \<le> bits n"
  by (induction n rule: bits.induct) (subst bits.simps, simp)

lemma bits_bounds: "0 < n \<Longrightarrow> 2 powi (bits n - 1) \<le> (of_int n :: rat) \<and> (of_int n :: rat) < 2 powi bits n"
proof (induction n rule: bits.induct)
  case (1 n)
  have b: "bits n = bits (n div 2) + 1" using 1 by (subst bits.simps) simp
  show ?case
  proof (cases "n = 1")
    case True
    then show ?thesis by (simp add: bits.simps)
  next
    case False
    then have "0 < n div 2" using 1 by linarith
    then have ih: "2 powi (bits (n div 2) - 1) \<le> (of_int (n div 2) :: rat)" "(of_int (n div 2) :: rat) < 2 powi bits (n div 2)"
      using 1 by auto
    have two: "(2 :: rat) powi bits n = 2 * 2 powi bits (n div 2)" "(2 :: rat) powi (bits n - 1) = 2 * 2 powi (bits (n div 2) - 1)"
      unfolding b by (simp_all add: power_int_add power_int_diff)
    have pow: "(2 :: rat) powi bits (n div 2) = of_int (2 ^ nat (bits (n div 2)))" by (simp add: power_int_def bits_nonneg)
    then have "n div 2 + 1 \<le> 2 ^ nat (bits (n div 2))" using ih(2) by (simp only: of_int_less_iff)
    then have "n < 2 * 2 ^ nat (bits (n div 2))" by linarith
    then have "(of_int n :: rat) < of_int (2 * 2 ^ nat (bits (n div 2)))" by (simp only: of_int_less_iff)
    moreover have "2 * (n div 2) \<le> n" by simp
    then have "2 * (of_int (n div 2) :: rat) \<le> of_int n" by (metis of_int_le_iff of_int_mult of_int_numeral)
    ultimately show ?thesis unfolding two pow using ih(1) by simp
  qed
qed

lemma exponent_bounds:
  assumes "0 < x"
  shows "2 powi exponent x \<le> x" "x < 2 powi (exponent x + 1)"
proof -
  obtain n d where q: "quotient_of x = (n, d)" by fastforce
  have d: "d > 0" and x: "x = of_int n / of_int d" using q by (auto simp: quotient_of_denom_pos quotient_of_div)
  have n: "n > 0" using assms d x by (simp add: zero_less_divide_iff)
  let ?a = "bits n" and ?b = "bits d"
  note fn = bits_bounds [OF n] and fd = bits_bounds [OF d]
  have split: "(2 :: rat) powi (i - j) = 2 powi i / 2 powi j" for i j by (simp add: power_int_diff)
  have lo: "2 powi (?a - ?b - 1) \<le> x"
  proof -
    have "(2 :: rat) powi (?a - ?b - 1) = 2 powi (?a - 1) / 2 powi ?b" using split [of "?a - 1" ?b] by (simp add: algebra_simps)
    also have "\<dots> \<le> of_int n / of_int d" by (rule frac_le) (use fn fd d n in \<open>simp_all add: less_imp_le\<close>)
    finally show ?thesis using x by simp
  qed
  have hi: "x < 2 powi (?a - ?b + 1)"
  proof -
    have "of_int n / of_int d < (2 :: rat) powi ?a / 2 powi (?b - 1)" by (rule frac_less) (use fn fd n in \<open>simp_all\<close>)
    also have "\<dots> = 2 powi (?a - ?b + 1)" using split [of ?a "?b - 1"] by (simp add: algebra_simps)
    finally show ?thesis using x by simp
  qed
  show "2 powi exponent x \<le> x" "x < 2 powi (exponent x + 1)"
    using lo hi by (auto simp: exponent_def q Let_def)
qed

lemma exponent_unique:
  assumes "2 powi e \<le> x" "x < 2 powi (e + 1)"
  shows "exponent x = e"
proof -
  have "0 < x" using assms(1) by (rule less_le_trans [rotated]) simp
  note b = exponent_bounds [OF this]
  have "exponent x < e + 1" "e < exponent x + 1"
    using b assms le_less_trans powi_less_iff by blast+
  then show ?thesis by linarith
qed

lemma exponent_mono: "0 < x \<Longrightarrow> x \<le> y \<Longrightarrow> exponent x \<le> exponent y"
proof -
  assume x: "0 < x" and le: "x \<le> y"
  have "(2 :: rat) powi exponent x < 2 powi (exponent y + 1)"
    using exponent_bounds(1) [OF x] exponent_bounds(2) [of y] x le by linarith
  then show ?thesis unfolding powi_less_iff by simp
qed

section \<open>Rounding to a float\<close>

text \<open>A positive number is rounded to an integer with at most 53 bits, scaled.\<close>

lemma fl_form:
  assumes "0 < x"
  obtains m u where "u = 2 powi (exponent x - 52)" "m = round_even (x / u)" "fl x = of_int m * u" "2 ^ 52 \<le> m" "m \<le> 2 ^ 53" "0 < u"
proof -
  let ?u = "(2 :: rat) powi (exponent x - 52)"
  have u: "0 < ?u" by simp
  have "(2 :: rat) powi exponent x = 2 ^ 52 * ?u" "(2 :: rat) powi (exponent x + 1) = 2 ^ 53 * ?u"
    by (simp_all add: power_int_diff power_int_add)
  then have "of_int (2 ^ 52) \<le> x / ?u" "x / ?u \<le> of_int (2 ^ 53)"
    using exponent_bounds [OF assms] u by (simp_all add: pos_le_divide_eq pos_divide_le_eq)
  then have "2 ^ 52 \<le> round_even (x / ?u)" "round_even (x / ?u) \<le> 2 ^ 53"
    using round_even_ge round_even_le by blast+
  moreover have "fl x = of_int (round_even (x / ?u)) * ?u" using assms by (simp add: fl_def Let_def)
  ultimately show thesis using that u by blast
qed

lemma fl_zero [simp]: "fl 0 = 0"
  by (simp add: fl_def)

lemma fl_range:
  assumes "0 < x"
  shows "2 powi exponent x \<le> fl x" "fl x \<le> 2 powi (exponent x + 1)"
proof -
  obtain m u where m: "u = 2 powi (exponent x - 52)" "fl x = of_int m * u" "2 ^ 52 \<le> m" "m \<le> 2 ^ 53" "0 < u"
    by (rule fl_form [OF assms])
  have p: "(2 :: rat) powi exponent x = of_int (2 ^ 52) * u" "(2 :: rat) powi (exponent x + 1) = of_int (2 ^ 53) * u"
    unfolding m(1) by (simp_all add: power_int_diff power_int_add)
  have "of_int (2 ^ 52) \<le> (of_int m :: rat)" "(of_int m :: rat) \<le> of_int (2 ^ 53)" using m(3,4) by (simp_all only: of_int_le_iff)
  then show "2 powi exponent x \<le> fl x" "fl x \<le> 2 powi (exponent x + 1)"
    unfolding p m(2) using m(5) by (simp_all only: mult_le_cancel_right_pos)
qed

lemma fl_pos: "0 < x \<Longrightarrow> 0 < fl x"
  using fl_range(1) [of x] by (rule less_le_trans [rotated]) simp_all

lemma fl_mono:
  assumes "0 \<le> x" "x \<le> y"
  shows "fl x \<le> fl y"
proof (cases "x = 0")
  case True
  then show ?thesis using assms fl_pos [of y] by (cases "y = 0") auto
next
  case False
  then have x: "0 < x" and y: "0 < y" using assms by auto
  consider "exponent x = exponent y" | "exponent x + 1 \<le> exponent y"
    using exponent_mono [OF x assms(2)] by linarith
  then show ?thesis
  proof cases
    case 1
    let ?u = "(2 :: rat) powi (exponent y - 52)"
    have "x / ?u \<le> y / ?u" using assms(2) by (rule divide_right_mono) simp
    then have "of_int (round_even (x / ?u)) \<le> (of_int (round_even (y / ?u)) :: rat)" by (simp add: round_even_mono)
    then show ?thesis using x y 1 by (simp add: fl_def Let_def mult_right_mono)
  next
    case 2
    have "fl x \<le> 2 powi (exponent x + 1)" by (rule fl_range [OF x])
    also have "\<dots> \<le> 2 powi exponent y" by (rule powi_le [OF 2])
    also have "\<dots> \<le> fl y" by (rule fl_range [OF y])
    finally show ?thesis .
  qed
qed

lemma fl_scaled: "2 ^ 52 \<le> m \<Longrightarrow> m < 2 ^ 53 \<Longrightarrow> fl (of_int m * 2 powi k) = of_int m * 2 powi k"
proof -
  assume m: "2 ^ 52 \<le> m" "m < (2 ^ 53 :: int)"
  let ?x = "of_int m * 2 powi k :: rat"
  have r: "of_int (2 ^ 52) \<le> (of_int m :: rat)" "(of_int m :: rat) < of_int (2 ^ 53)" using m by (simp_all only: of_int_le_iff of_int_less_iff)
  have pos: "0 < (2 :: rat) powi k" by simp
  have "exponent ?x = k + 52"
  proof (rule exponent_unique)
    have "(2 :: rat) powi (k + 52) = of_int (2 ^ 52) * 2 powi k" "(2 :: rat) powi (k + 52 + 1) = of_int (2 ^ 53) * 2 powi k"
      by (simp_all add: power_int_add)
    then show "2 powi (k + 52) \<le> ?x" "?x < 2 powi (k + 52 + 1)"
      using r pos by (simp_all only: mult_le_cancel_right_pos mult_less_cancel_right_pos)
  qed
  moreover have "0 < ?x" using m pos by (intro mult_pos_pos) simp_all
  ultimately show ?thesis by (simp add: fl_def Let_def)
qed

lemma fl_fl: "0 \<le> x \<Longrightarrow> fl (fl x) = fl x"
proof (cases "x = 0")
  case False
  assume "0 \<le> x"
  with False have "0 < x" by simp
  then obtain m u where m: "u = 2 powi (exponent x - 52)" "fl x = of_int m * u" "2 ^ 52 \<le> m" "m \<le> 2 ^ 53" "0 < u"
    by (rule fl_form)
  show ?thesis
  proof (cases "m = 2 ^ 53")
    case True
    have "fl x = of_int (2 ^ 52) * 2 powi (exponent x - 51)"
      unfolding m(2) True m(1) by (simp add: power_int_diff)
    then show ?thesis using fl_scaled [of "2 ^ 52" "exponent x - 51"] by simp
  next
    case False
    then show ?thesis using fl_scaled [of m "exponent x - 52"] m by simp
  qed
qed simp

section \<open>Sums\<close>

lemma float64_fl [simp]: "0 \<le> x \<Longrightarrow> float64 (fl x)"
  by (simp add: float64_def fl_fl)

lemma float64_0 [simp]: "float64 0"
  by (simp add: float64_def)

lemma f_add_float64 [simp]: "0 \<le> x \<Longrightarrow> 0 \<le> y \<Longrightarrow> float64 (f_add x y)"
  by (simp add: f_add_def)

lemma f_add_zero: "float64 x \<Longrightarrow> f_add x 0 = x"
  by (simp add: f_add_def float64_def)

text \<open>Adding an amount never decreases a total.\<close>

lemma f_add_ge: "float64 x \<Longrightarrow> 0 \<le> x \<Longrightarrow> 0 \<le> y \<Longrightarrow> x \<le> f_add x y"
  using fl_mono [of x "x + y"] by (simp add: f_add_def float64_def)

lemma f_add_nonneg: "0 \<le> x \<Longrightarrow> 0 \<le> y \<Longrightarrow> 0 \<le> f_add x y"
  using fl_mono [of 0 "x + y"] by (simp add: f_add_def)

lemma f_add_mono: "0 \<le> x \<Longrightarrow> 0 \<le> y \<Longrightarrow> x \<le> x' \<Longrightarrow> y \<le> y' \<Longrightarrow> f_add x y \<le> f_add x' y'"
  unfolding f_add_def by (rule fl_mono) simp_all

end
