(* ===== verification/GoDuration.thy ===== *)
theory GoDuration
  imports Float64
begin

text \<open>
  Durations: \<open>time.ParseDuration\<close> of the standard library, with its unsigned 64-bit arithmetic, and \<open>ParseDuration\<close> of
  \<^verbatim>\<open>framework/configstore/tables/utils.go\<close>, which adds days, weeks, months and years.  A duration is a number of nanoseconds.
\<close>

section \<open>The standard library\<close>

definition is_digit :: "byte \<Rightarrow> bool" where
  "is_digit c = byte_between CHR ''0'' CHR ''9'' c"

definition digit_val :: "byte \<Rightarrow> int" where
  "digit_val c = of_char c - of_char CHR ''0''"

text \<open>The leading digits of a string as a number; no result when it exceeds \<open>2 ^ 63\<close>.\<close>

fun leadingInt :: "int \<Rightarrow> string \<Rightarrow> (int \<times> string) option" where
  "leadingInt x [] = Some (x, [])"
| "leadingInt x (c # s) =
     (if \<not> is_digit c then Some (x, c # s)
      else if x > 2 ^ 63 div 10 then None
      else if x * 10 + digit_val c > 2 ^ 63 then None
      else leadingInt (x * 10 + digit_val c) s)"

text \<open>The digits after a point and the power of ten that scales them; digits that do not fit are dropped.\<close>

fun leadingFraction :: "int \<Rightarrow> rat \<Rightarrow> bool \<Rightarrow> string \<Rightarrow> int \<times> rat \<times> string" where
  "leadingFraction x scale overflow [] = (x, scale, [])"
| "leadingFraction x scale overflow (c # s) =
     (if \<not> is_digit c then (x, scale, c # s)
      else if overflow \<or> x > (2 ^ 63 - 1) div 10 \<or> x * 10 + digit_val c > 2 ^ 63 then leadingFraction x scale True s
      else leadingFraction (x * 10 + digit_val c) (f_mul scale 10) False s)"

definition unitMap :: "(string \<times> int) list" where
  "unitMap =
     [(''ns'', 1), (''us'', 1000), ([CHR 0xC2, CHR 0xB5, CHR ''s''], 1000), ([CHR 0xCE, CHR 0xBC, CHR ''s''], 1000),
      (''ms'', 1000000), (''s'', 1000000000), (''m'', 60000000000), (''h'', 3600000000000)]"

text \<open>One number with its unit, and the rest of the string.\<close>

definition duration_part :: "string \<Rightarrow> (int \<times> string) option" where
  "duration_part s =
     (if s = [] \<or> \<not> (hd s = CHR ''.'' \<or> is_digit (hd s)) then None
      else
        (case leadingInt 0 s of
           None \<Rightarrow> None
         | Some (v, s1) \<Rightarrow>
             (let pre = (length s1 \<noteq> length s);
                  point = (s1 \<noteq> [] \<and> hd s1 = CHR ''.'');
                  (f, scale, s2) = (if point then leadingFraction 0 1 False (tl s1) else (0, 1, s1));
                  post = (point \<and> length s2 \<noteq> length (tl s1));
                  u = takeWhile (\<lambda>c. \<not> (c = CHR ''.'' \<or> is_digit c)) s2 in
              if \<not> pre \<and> \<not> post then None
              else if u = [] then None
              else
                (case map_of unitMap u of
                   None \<Rightarrow> None
                 | Some unit \<Rightarrow>
                     if v > 2 ^ 63 div unit then None
                     else
                       (let v1 = v * unit + (if f > 0 then \<lfloor>f_mul (fl (of_int f)) (f_div (of_int unit) scale)\<rfloor> else 0) in
                        if f > 0 \<and> v1 > 2 ^ 63 then None else Some (v1, drop (length u) s2))))))"

lemma leadingInt_length: "leadingInt x s = Some (v, s1) \<Longrightarrow> length s1 \<le> length s"
  by (induction x s rule: leadingInt.induct) (auto split: if_splits)

lemma leadingFraction_length: "length (snd (snd (leadingFraction x sc ov s))) \<le> length s"
  by (induction x sc ov s rule: leadingFraction.induct) auto

lemma duration_part_length: "duration_part s = Some (v, s1) \<Longrightarrow> length s1 < length s"
proof -
  assume a: "duration_part s = Some (v, s1)"
  obtain w t where t: "leadingInt 0 s = Some (w, t)" using a by (auto simp: duration_part_def split: if_splits option.splits)
  define r where "r = (if t \<noteq> [] \<and> hd t = CHR ''.'' then leadingFraction 0 1 False (tl t) else (0, 1, t))"
  let ?u = "takeWhile (\<lambda>c. \<not> (c = CHR ''.'' \<or> is_digit c)) (snd (snd r))"
  have "length (snd (snd r)) \<le> length t" using leadingFraction_length [of 0 1 False "tl t"] by (auto simp: r_def)
  then have "length (snd (snd r)) \<le> length s" using leadingInt_length [OF t] by linarith
  moreover have u: "?u \<noteq> []" "s1 = drop (length ?u) (snd (snd r))"
    using a by (auto simp: duration_part_def t r_def Let_def split: if_splits option.splits prod.splits)
  moreover have "0 < length (snd (snd r))" "0 < length ?u" using u(1) by auto
  ultimately show ?thesis unfolding u(2) length_drop by linarith
qed

text \<open>The loop over the parts.  The total is an unsigned 64-bit number.\<close>

function duration_loop :: "int \<Rightarrow> string \<Rightarrow> int option" where
  "duration_loop d s =
     (if s = [] then Some d
      else
        (case duration_part s of
           None \<Rightarrow> None
         | Some (v, s1) \<Rightarrow> (let d1 = (d + v) mod 2 ^ 64 in if d1 > 2 ^ 63 then None else duration_loop d1 s1)))"
  by pat_completeness auto
termination
  by (relation "measure (\<lambda>(d, s). length s)") (auto dest: duration_part_length)

declare duration_loop.simps [simp del]

definition time_ParseDuration :: "string \<Rightarrow> int option" where
  "time_ParseDuration s0 =
     (let signed = (s0 \<noteq> [] \<and> hd s0 \<in> {CHR ''-'', CHR ''+''});
          neg = (signed \<and> hd s0 = CHR ''-'');
          s = (if signed then tl s0 else s0) in
      if s = ''0'' then Some 0
      else if s = [] then None
      else
        (case duration_loop 0 s of
           None \<Rightarrow> None
         | Some d \<Rightarrow> if neg then Some (wrap64 (- d)) else if d > 2 ^ 63 - 1 then None else Some d))"

text \<open>\<open>now.Sub(t)\<close> saturates at the largest and smallest duration.\<close>

definition time_Sub :: "int \<Rightarrow> int \<Rightarrow> int" where
  "time_Sub now t = max (- (2 ^ 63)) (min (2 ^ 63 - 1) (now - t))"

section \<open>Days, weeks, months and years\<close>

definition ParseDuration :: "string \<Rightarrow> int option" where
  "ParseDuration duration =
     (if duration = [] then None
      else
        (let scaled = (\<lambda>factor. map_option (\<lambda>d. wrap64 (d * factor)) (time_ParseDuration (butlast duration @ ''h''))) in
         if last duration = CHR ''d'' then scaled 24
         else if last duration = CHR ''w'' then map_option (\<lambda>d. wrap64 (d * 7)) (scaled 24)
         else if last duration = CHR ''M'' then map_option (\<lambda>d. wrap64 (d * 30)) (scaled 24)
         else if last duration = CHR ''Y'' then map_option (\<lambda>d. wrap64 (d * 365)) (scaled 24)
         else time_ParseDuration duration))"

end
