(* ===== verification/ModelCatalog.thy ===== *)
theory ModelCatalog
  imports Float64 "HOL-Library.AList"
begin

text \<open>
  Model names and the model catalogue: \<open>ParseModelString\<close> and the version suffixes of \<^verbatim>\<open>core/schemas/utils.go\<close>, and the
  look-ups of \<^verbatim>\<open>framework/modelcatalog/main.go\<close> that decide which provider serves which model.

  A Go map that is iterated is an association list, iterated in its order; the catalogue's lock makes each operation atomic.
  The known providers, a package variable, are an argument.  Prices are read elsewhere; only the fields of a price row that
  name a model are kept here.
\<close>

section \<open>Model names\<close>

definition StandardProviders :: "string list" where
  "StandardProviders =
     [''anthropic'', ''azure'', ''bedrock'', ''cerebras'', ''cohere'', ''gemini'', ''groq'', ''mistral'', ''ollama'', ''openai'',
      ''parasail'', ''perplexity'', ''sgl'', ''vertex'', ''openrouter'', ''elevenlabs'', ''huggingface'', ''nebius'', ''xai'',
      ''replicate'', ''vllm'', ''runway'', ''fireworks'', ''opencode-go'', ''opencode-zen'']"

definition RegisterKnownProvider :: "string \<Rightarrow> string list \<Rightarrow> string list" where
  "RegisterKnownProvider provider known = List.insert provider known"

definition UnregisterKnownProvider :: "string \<Rightarrow> string list \<Rightarrow> string list" where
  "UnregisterKnownProvider provider known = (if provider \<in> set StandardProviders then known else filter (\<lambda>p. p \<noteq> provider) known)"

definition ParseModelString :: "string list \<Rightarrow> string \<Rightarrow> string \<Rightarrow> string \<times> string" where
  "ParseModelString known model defaultProvider =
     (case index_byte model CHR ''/'' of
        Some i \<Rightarrow> if take i model \<in> set known then (take i model, drop (Suc i) model) else (defaultProvider, model)
      | None \<Rightarrow> (defaultProvider, model))"

definition digits :: "nat \<Rightarrow> string \<Rightarrow> bool" where
  "digits n s \<longleftrightarrow> length s = n \<and> list_all (byte_between CHR ''0'' CHR ''9'') s"

definition some_digits :: "string \<Rightarrow> bool" where
  "some_digits s \<longleftrightarrow> s \<noteq> [] \<and> list_all (byte_between CHR ''0'' CHR ''9'') s"

definition anthropicDateRe :: "string \<Rightarrow> bool" where
  "anthropicDateRe s = digits 8 s"

definition openAIDateRe :: "string \<Rightarrow> bool" where
  "openAIDateRe s = (case split_byte CHR ''-'' s of [y, m, d] \<Rightarrow> digits 4 y \<and> digits 2 m \<and> digits 2 d | _ \<Rightarrow> False)"

definition taggedVersionRe :: "string \<Rightarrow> bool" where
  "taggedVersionRe s \<longleftrightarrow>
     s \<noteq> [] \<and> hd s = CHR ''v'' \<and> length (split_byte CHR ''.'' (tl s)) \<le> 3 \<and> list_all some_digits (split_byte CHR ''.'' (tl s)) \<or>
     HasPrefix s ''rc'' \<and> some_digits (drop 2 s) \<or>
     s \<in> {''alpha'', ''beta'', ''preview'', ''canary'', ''experimental''}"

definition SplitModelAndVersion :: "string \<Rightarrow> string \<times> string" where
  "SplitModelAndVersion ID =
     (let parts = split_byte CHR ''-'' ID; n = length parts; last3 = Join (drop (n - 3) parts) ''-'' in
      if ID = [] then ([], [])
      else if n \<ge> 3 \<and> openAIDateRe last3 then (Join (take (n - 3) parts) ''-'', last3)
      else if n \<ge> 2 \<and> (anthropicDateRe (last parts) \<or> taggedVersionRe (last parts)) then (Join (butlast parts) ''-'', last parts)
      else (ID, []))"

definition BaseModelName :: "string \<Rightarrow> string" where
  "BaseModelName ID = fst (SplitModelAndVersion ID)"

definition SameBaseModel :: "string \<Rightarrow> string \<Rightarrow> bool" where
  "SameBaseModel a b \<longleftrightarrow> a = b \<or> BaseModelName a = BaseModelName b"

section \<open>The catalogue\<close>

record ModelPricing =
  pr_Model :: string
  pr_BaseModel :: string
  pr_Provider :: string
  pr_Mode :: string

record ModelCatalog =
  mc_pricingData :: "(string \<times> ModelPricing) list"
  mc_modelPool :: "(string \<times> string list) list"
  mc_unfilteredModelPool :: "(string \<times> string list) list"
  mc_baseModelIndex :: "(string \<times> string) list"

definition makeKey :: "string \<Rightarrow> string \<Rightarrow> string \<Rightarrow> string" where
  "makeKey model provider mode = model @ ''|'' @ provider @ ''|'' @ mode"

definition normalizeProvider :: "string \<Rightarrow> string" where
  "normalizeProvider p =
     (if sublist ''vertex_ai'' p \<or> p = ''google-vertex'' then ''vertex''
      else if sublist ''bedrock'' p then ''bedrock''
      else if sublist ''cohere'' p then ''cohere''
      else if sublist ''runwayml'' p then ''runway''
      else if sublist ''fireworks_ai'' p \<or> p = ''fireworks'' then ''fireworks''
      else p)"

definition pool_models :: "(string \<times> string list) list \<Rightarrow> string \<Rightarrow> string list" where
  "pool_models pool provider = (case map_of pool provider of None \<Rightarrow> [] | Some models \<Rightarrow> models)"

definition GetModelsForProvider :: "ModelCatalog \<Rightarrow> string \<Rightarrow> string list" where
  "GetModelsForProvider mc provider = pool_models (mc_modelPool mc) provider"

definition GetUnfilteredModelsForProvider :: "ModelCatalog \<Rightarrow> string \<Rightarrow> string list" where
  "GetUnfilteredModelsForProvider mc provider = pool_models (mc_unfilteredModelPool mc) provider"

definition GetDistinctBaseModelNames :: "ModelCatalog \<Rightarrow> string list" where
  "GetDistinctBaseModelNames mc = remdups (map snd (mc_baseModelIndex mc))"

definition GetBaseModelName :: "string list \<Rightarrow> ModelCatalog \<Rightarrow> string \<Rightarrow> string" where
  "GetBaseModelName known mc model =
     (case map_of (mc_baseModelIndex mc) model of
        Some base \<Rightarrow> base
      | None \<Rightarrow>
          (let baseName = snd (ParseModelString known model []) in
           case (if baseName \<noteq> model then map_of (mc_baseModelIndex mc) baseName else None) of
             Some base \<Rightarrow> base
           | None \<Rightarrow> BaseModelName baseName))"

definition IsSameModel :: "string list \<Rightarrow> ModelCatalog \<Rightarrow> string \<Rightarrow> string \<Rightarrow> bool" where
  "IsSameModel known mc model1 model2 \<longleftrightarrow> model1 = model2 \<or> GetBaseModelName known mc model1 = GetBaseModelName known mc model2"

text \<open>A provider joins when one of the providers found so far sells the model through it, once for each such provider.\<close>

definition resellers :: "ModelCatalog \<Rightarrow> string \<Rightarrow> string \<Rightarrow> string list \<Rightarrow> string list" where
  "resellers mc reseller model providers =
     (if reseller \<in> set providers then providers
      else providers @ concat (map (\<lambda>provider. if provider @ ''/'' @ model \<in> set (pool_models (mc_modelPool mc) reseller) then [reseller] else []) providers))"

definition GetProvidersForModel :: "string list \<Rightarrow> ModelCatalog \<Rightarrow> string \<Rightarrow> string list" where
  "GetProvidersForModel known mc model =
     (let direct = map fst (filter (\<lambda>(provider, models).
            list_ex (\<lambda>m. m = model \<or> GetBaseModelName known mc m = GetBaseModelName known mc model) models) (mc_modelPool mc));
          p1 = resellers mc ''openrouter'' model direct;
          p2 = resellers mc ''vertex'' model p1;
          p3 = (if ''groq'' \<notin> set p2 \<and> sublist ''gpt-'' model \<and> ''openai/'' @ model \<in> set (pool_models (mc_modelPool mc) ''groq'')
                then p2 @ [''groq''] else p2) in
      if ''bedrock'' \<notin> set p3 \<and> sublist ''claude'' model \<and> list_ex (\<lambda>bedrockModel. sublist model bedrockModel) (pool_models (mc_modelPool mc) ''bedrock'')
      then p3 @ [''bedrock''] else p3)"

definition IsModelAllowedForProvider :: "string list \<Rightarrow> ModelCatalog \<Rightarrow> string \<Rightarrow> string \<Rightarrow> string list \<Rightarrow> bool" where
  "IsModelAllowedForProvider known mc provider model allowedModels =
     (if allowedModels = [] then provider \<in> set (GetProvidersForModel known mc model)
      else list_ex (\<lambda>allowedModel.
        allowedModel = model \<or>
        CHR ''/'' \<in> set allowedModel \<and> allowedModel \<in> set (GetModelsForProvider mc provider) \<and>
        snd (ParseModelString known allowedModel []) = model) allowedModels)"

definition RefineModelForProvider :: "string list \<Rightarrow> ModelCatalog \<Rightarrow> string \<Rightarrow> string \<Rightarrow> string option" where
  "RefineModelForProvider known mc provider model =
     (if provider \<noteq> ''groq'' then Some model
      else if sublist ''gpt-'' model then Some (''openai/'' @ model)
      else
        (case map_of (mc_modelPool mc) provider of
           None \<Rightarrow> Some model
         | Some models \<Rightarrow>
             (case List.map_filter (\<lambda>poolModel. let (providerPart, modelPart) = ParseModelString known poolModel [] in
                 if model = modelPart then Some (providerPart @ ''/'' @ modelPart) else None) models of
                [] \<Rightarrow> Some model
              | [candidate] \<Rightarrow> Some candidate
              | _ \<Rightarrow> None)))"

definition IsTextCompletionSupported :: "ModelCatalog \<Rightarrow> string \<Rightarrow> string \<Rightarrow> bool" where
  "IsTextCompletionSupported mc model provider =
     (map_of (mc_pricingData mc) (makeKey model (normalizeProvider provider) ''completion'') \<noteq> None)"

section \<open>Filling the catalogue\<close>

definition provider_rows :: "ModelCatalog \<Rightarrow> string \<Rightarrow> ModelPricing list" where
  "provider_rows mc provider = filter (\<lambda>pricing. normalizeProvider (pr_Provider pricing) = provider) (map snd (mc_pricingData mc))"

fun index_rows :: "ModelPricing list \<Rightarrow> (string \<times> string) list \<Rightarrow> (string \<times> string) list" where
  "index_rows [] index = index"
| "index_rows (pricing # rows) index =
     index_rows rows (if pr_BaseModel pricing \<noteq> [] then AList.update (pr_Model pricing) (pr_BaseModel pricing) index else index)"

text \<open>The first rows of their models, as the loop that skips models it has seen visits them.\<close>

fun first_rows :: "string list \<Rightarrow> ModelPricing list \<Rightarrow> ModelPricing list" where
  "first_rows seen [] = []"
| "first_rows seen (pricing # rows) =
     (if pr_Model pricing \<in> set seen then first_rows seen rows else pricing # first_rows (pr_Model pricing # seen) rows)"

text \<open>Appends the models that are not in the list yet.\<close>

fun add_new :: "string list \<Rightarrow> string list \<Rightarrow> string list" where
  "add_new acc [] = acc"
| "add_new acc (m # ms) = add_new (if m \<in> set acc then acc else acc @ [m]) ms"

definition own_models :: "string list \<Rightarrow> string \<Rightarrow> string list \<Rightarrow> string list" where
  "own_models known provider ids =
     List.map_filter (\<lambda>ID. let (parsedProvider, parsedModel) = ParseModelString known ID [] in
       if parsedProvider = provider then Some parsedModel else None) ids"

definition DeleteModelDataForProvider :: "string \<Rightarrow> ModelCatalog \<Rightarrow> ModelCatalog" where
  "DeleteModelDataForProvider provider mc =
     mc\<lparr>mc_modelPool := AList.delete provider (mc_modelPool mc), mc_unfilteredModelPool := AList.delete provider (mc_unfilteredModelPool mc)\<rparr>"

definition UpsertModelDataForProvider :: "string list \<Rightarrow> string \<Rightarrow> string list \<Rightarrow> string list \<Rightarrow> ModelCatalog \<Rightarrow> ModelCatalog" where
  "UpsertModelDataForProvider known provider modelData allowedModels mc =
     (let rows = first_rows [] (provider_rows mc provider);
          providerModels = map pr_Model rows;
          mc1 = mc\<lparr>mc_baseModelIndex := index_rows rows (mc_baseModelIndex mc)\<rparr>;
          fromAllowed = (if modelData = [] \<and> allowedModels \<noteq> [] then add_new [] (own_models known provider allowedModels) else []);
          fromData = add_new fromAllowed (own_models known provider modelData);
          final = (if allowedModels = [] then add_new fromData providerModels else fromData) in
      if modelData = [] \<and> allowedModels = [] then mc1\<lparr>mc_modelPool := AList.update provider providerModels (mc_modelPool mc1)\<rparr>
      else mc1\<lparr>mc_modelPool := AList.update provider final (mc_modelPool mc1)\<rparr>)"

definition UpsertUnfilteredModelDataForProvider :: "string list \<Rightarrow> string \<Rightarrow> string list \<Rightarrow> ModelCatalog \<Rightarrow> ModelCatalog" where
  "UpsertUnfilteredModelDataForProvider known provider modelData mc =
     mc\<lparr>mc_unfilteredModelPool := AList.update provider
       (add_new (add_new [] (map pr_Model (provider_rows mc provider))) (own_models known provider modelData)) (mc_unfilteredModelPool mc)\<rparr>"

definition populateModelPoolFromPricingData :: "ModelCatalog \<Rightarrow> ModelCatalog" where
  "populateModelPoolFromPricingData mc =
     (let rows = map snd (mc_pricingData mc);
          providers = remdups (map (\<lambda>pricing. normalizeProvider (pr_Provider pricing)) rows);
          pool = map (\<lambda>provider. (provider, remdups (map pr_Model (provider_rows mc provider)))) providers in
      mc\<lparr>mc_modelPool := pool, mc_unfilteredModelPool := pool, mc_baseModelIndex := index_rows rows []\<rparr>)"

end
