(* ===== verification/GovTables.thy ===== *)
theory GovTables
  imports GoDuration ModelCatalog
begin

text \<open>
  The rows the governance plugin works on (\<open>framework/configstore/tables\<close>), their save-time
  validation, the keys of the in-memory store (\<open>plugins/governance/tenant_keys.go\<close>) and the store
  record itself (\<open>LocalGovernanceStore\<close> of \<open>plugins/governance/store.go\<close>).

  Columns no modelled function reads (descriptions, hashes of the configuration file, JSON copies,
  encryption and audit columns, the back-references from customers and teams to their virtual keys)
  are left out.  A pointer to a row is an \<open>option\<close>: the plugin never writes through such a pointer
  once the row is stored, it clones the row and stores the clone.  An amount of money is a rational
  that a \<open>float64\<close> can hold, an instant is a number of nanoseconds.

  A \<open>sync.Map\<close> is an association list: \<open>Load\<close> is \<^const>\<open>map_of\<close>, \<open>Store\<close> is \<^const>\<open>AList.update\<close>,
  \<open>Delete\<close> is \<^const>\<open>AList.delete\<close>, and \<open>Range\<close> visits the entries in the order of the list, which
  stands for whichever order the runtime picks.
\<close>

type_synonym 'v smap = "(string \<times> 'v) list"

abbreviation Load :: "'v smap \<Rightarrow> string \<Rightarrow> 'v option" where
  "Load \<equiv> map_of"

abbreviation Store :: "string \<Rightarrow> 'v \<Rightarrow> 'v smap \<Rightarrow> 'v smap" where
  "Store \<equiv> AList.update"

abbreviation Delete :: "string \<Rightarrow> 'v smap \<Rightarrow> 'v smap" where
  "Delete \<equiv> AList.delete"

section \<open>Rows\<close>

record TableBudget =
  bud_ID :: string
  bud_TenantID :: string
  MaxLimit :: rat
  ResetDuration :: string
  LastReset :: int
  CurrentUsage :: rat

record TableRateLimit =
  rl_ID :: string
  rl_TenantID :: string
  TokenMaxLimit :: "int option"
  TokenResetDuration :: "string option"
  TokenCurrentUsage :: int
  TokenLastReset :: int
  RequestMaxLimit :: "int option"
  RequestResetDuration :: "string option"
  RequestCurrentUsage :: int
  RequestLastReset :: int

record TableCustomer =
  cus_ID :: string
  cus_TenantID :: string
  cus_Name :: string
  cus_BudgetID :: "string option"
  cus_RateLimitID :: "string option"
  cus_Budget :: "TableBudget option"
  cus_RateLimit :: "TableRateLimit option"

record TableTeam =
  team_ID :: string
  team_TenantID :: string
  team_Name :: string
  team_CustomerID :: "string option"
  team_BudgetID :: "string option"
  team_RateLimitID :: "string option"
  team_Customer :: "TableCustomer option"
  team_Budget :: "TableBudget option"
  team_RateLimit :: "TableRateLimit option"
  CustomerMembers :: "TableCustomer list"

record TableVirtualKeyProviderConfig =
  pc_ID :: int
  pc_Provider :: string
  pc_Weight :: "rat option"
  AllowedModels :: "string list"
  KeySelectionStrategy :: "string option"
  pc_BudgetID :: "string option"
  pc_RateLimitID :: "string option"
  pc_Budget :: "TableBudget option"
  pc_RateLimit :: "TableRateLimit option"
  pc_Keys :: "string list"

record TableVirtualKeyMCPConfig =
  mcp_ClientName :: string
  ToolsToExecute :: "string list"

record VirtualKeyFallbackEntry =
  fb_Provider :: string
  fb_Model :: string

record TableVirtualKey =
  vk_ID :: string
  vk_TenantID :: string
  vk_Name :: string
  vk_Value :: string
  vk_IsActive :: bool
  vk_CacheKey :: string
  vk_CacheEnabled :: "bool option"
  vk_SemanticCacheEnabled :: "bool option"
  vk_CacheScopeMode :: "string option"
  vk_CacheMetadataScopeKeys :: "string list"
  vk_CacheAllowSemanticWhenUnscoped :: "bool option"
  FallbackChain :: "VirtualKeyFallbackEntry list"
  ProviderConfigs :: "TableVirtualKeyProviderConfig list"
  MCPConfigs :: "TableVirtualKeyMCPConfig list"
  vk_GuardrailPolicies :: "string list"
  vk_TeamID :: "string option"
  vk_CustomerID :: "string option"
  vk_BudgetID :: "string option"
  vk_RateLimitID :: "string option"
  vk_WorkspaceID :: "string option"
  vk_Team :: "TableTeam option"
  vk_Customer :: "TableCustomer option"
  vk_Budget :: "TableBudget option"
  vk_RateLimit :: "TableRateLimit option"
  vk_PreviousValue :: string
  vk_PreviousValueExpiresAt :: "int option"

record TableModelConfig =
  mcfg_ID :: string
  mcfg_TenantID :: string
  mcfg_ModelName :: string
  mcfg_Provider :: "string option"
  mcfg_BudgetID :: "string option"
  mcfg_RateLimitID :: "string option"
  mcfg_Budget :: "TableBudget option"
  mcfg_RateLimit :: "TableRateLimit option"
  mcfg_CreatedAt :: int

record TableProvider =
  prov_TenantID :: string
  prov_Name :: string
  prov_BudgetID :: "string option"
  prov_RateLimitID :: "string option"
  prov_Budget :: "TableBudget option"
  prov_RateLimit :: "TableRateLimit option"
  prov_CreatedAt :: int

record TableRoutingTarget =
  rt_Provider :: "string option"
  rt_Model :: "string option"
  rt_KeyID :: "string option"
  rt_Weight :: rat

record TableRoutingRule =
  rule_ID :: string
  rule_TenantID :: string
  rule_Name :: string
  rule_Enabled :: bool
  CelExpression :: string
  Targets :: "TableRoutingTarget list"
  ParsedFallbacks :: "string list"
  rule_Scope :: string
  rule_ScopeID :: "string option"
  Priority :: int
  rule_CreatedAt :: int

record UserGovernance =
  ug_UserID :: string
  ug_BudgetID :: "string option"
  ug_RateLimitID :: "string option"
  ug_Budget :: "TableBudget option"
  ug_RateLimit :: "TableRateLimit option"

section \<open>Save-time validation\<close>

text \<open>The \<open>BeforeSave\<close> hooks: \<open>None\<close> accepts the row.\<close>

datatype SaveError =
    InvalidResetDuration string | ResetDurationNotPositive string | NegativeMaxLimit rat
  | InvalidTokenResetDuration string | TokenResetDurationNotPositive string
  | InvalidRequestResetDuration string | RequestResetDurationNotPositive string
  | TokenResetDurationMissing | RequestResetDurationMissing
  | TokenMaxLimitNotPositive int | RequestMaxLimitNotPositive int
  | ModelNameEmpty | BudgetIDEmpty | RateLimitIDEmpty | ProviderEmpty | TeamAndCustomer

definition TableBudget_BeforeSave :: "TableBudget \<Rightarrow> SaveError option" where
  "TableBudget_BeforeSave b =
     (case ParseDuration (ResetDuration b) of
        None \<Rightarrow> Some (InvalidResetDuration (ResetDuration b))
      | Some d \<Rightarrow>
          if d \<le> 0 then Some (ResetDurationNotPositive (ResetDuration b))
          else if MaxLimit b < 0 then Some (NegativeMaxLimit (MaxLimit b)) else None)"

text \<open>One window of a rate limit: the two errors its duration can give.\<close>

definition duration_check :: "(string \<Rightarrow> SaveError) \<Rightarrow> (string \<Rightarrow> SaveError) \<Rightarrow> string option \<Rightarrow> SaveError option" where
  "duration_check invalid nonpos od =
     (case od of
        None \<Rightarrow> None
      | Some s \<Rightarrow>
          (case ParseDuration s of
             None \<Rightarrow> Some (invalid s)
           | Some d \<Rightarrow> if d \<le> 0 then Some (nonpos s) else None))"

definition TableRateLimit_BeforeSave :: "TableRateLimit \<Rightarrow> SaveError option" where
  "TableRateLimit_BeforeSave rl =
     (case duration_check InvalidTokenResetDuration TokenResetDurationNotPositive (TokenResetDuration rl) of
        Some e \<Rightarrow> Some e
      | None \<Rightarrow>
          (case duration_check InvalidRequestResetDuration RequestResetDurationNotPositive (RequestResetDuration rl) of
             Some e \<Rightarrow> Some e
           | None \<Rightarrow>
               if TokenMaxLimit rl \<noteq> None \<and> TokenResetDuration rl = None then Some TokenResetDurationMissing
               else if RequestMaxLimit rl \<noteq> None \<and> RequestResetDuration rl = None then Some RequestResetDurationMissing
               else (case TokenMaxLimit rl of
                       Some m \<Rightarrow> if m \<le> 0 then Some (TokenMaxLimitNotPositive m)
                         else (case RequestMaxLimit rl of
                                 Some m' \<Rightarrow> if m' \<le> 0 then Some (RequestMaxLimitNotPositive m') else None
                               | None \<Rightarrow> None)
                     | None \<Rightarrow>
                         (case RequestMaxLimit rl of
                            Some m' \<Rightarrow> if m' \<le> 0 then Some (RequestMaxLimitNotPositive m') else None
                          | None \<Rightarrow> None))))"

definition blank :: "string option \<Rightarrow> bool" where
  "blank os = (case os of None \<Rightarrow> False | Some s \<Rightarrow> TrimSpace s = [])"

definition TableModelConfig_BeforeSave :: "TableModelConfig \<Rightarrow> SaveError option" where
  "TableModelConfig_BeforeSave mc =
     (if TrimSpace (mcfg_ModelName mc) = [] then Some ModelNameEmpty
      else if blank (mcfg_BudgetID mc) then Some BudgetIDEmpty
      else if blank (mcfg_RateLimitID mc) then Some RateLimitIDEmpty
      else if blank (mcfg_Provider mc) then Some ProviderEmpty
      else None)"

text \<open>The governance part of \<open>TableProvider.BeforeSave\<close> and the membership rule of
  \<open>TableVirtualKey.BeforeSave\<close>; the rest of the two hooks serialises and encrypts columns.\<close>

definition TableProvider_BeforeSave :: "TableProvider \<Rightarrow> SaveError option" where
  "TableProvider_BeforeSave p =
     (if blank (prov_BudgetID p) then Some BudgetIDEmpty
      else if blank (prov_RateLimitID p) then Some RateLimitIDEmpty
      else None)"

definition TableVirtualKey_BeforeSave :: "TableVirtualKey \<Rightarrow> SaveError option" where
  "TableVirtualKey_BeforeSave vk =
     (if vk_TeamID vk \<noteq> None \<and> vk_CustomerID vk \<noteq> None then Some TeamAndCustomer else None)"

section \<open>Keys of the store\<close>

text \<open>The tenant of a request is the string \<open>governanceTenantIDFromContext\<close> finds, empty when the
  context carries none.\<close>

definition governanceGlobalTenantKey :: string where
  "governanceGlobalTenantKey = ''__global__''"

definition normalizeGovernanceTenantID :: "string \<Rightarrow> string" where
  "normalizeGovernanceTenantID tenantID =
     (let t = TrimSpace tenantID in if t = [] then governanceGlobalTenantKey else t)"

definition governanceMatchesTenant :: "string \<Rightarrow> string \<Rightarrow> bool" where
  "governanceMatchesTenant requestTenantID recordTenantID \<longleftrightarrow>
     requestTenantID = [] \<or>
     normalizeGovernanceTenantID recordTenantID = normalizeGovernanceTenantID requestTenantID"

definition governanceTenantScopedKey :: "string \<Rightarrow> string \<Rightarrow> string" where
  "governanceTenantScopedKey tenantID key = normalizeGovernanceTenantID tenantID @ ''::'' @ key"

definition governanceVirtualKeyStoreKey :: "string \<Rightarrow> string \<Rightarrow> string" where
  "governanceVirtualKeyStoreKey tenantID virtualKeyValue = governanceTenantScopedKey tenantID virtualKeyValue"

definition governanceTeamStoreKey :: "string \<Rightarrow> string \<Rightarrow> string" where
  "governanceTeamStoreKey tenantID teamID = governanceTenantScopedKey tenantID teamID"

definition governanceCustomerStoreKey :: "string \<Rightarrow> string \<Rightarrow> string" where
  "governanceCustomerStoreKey tenantID customerID = governanceTenantScopedKey tenantID customerID"

definition governanceProviderStoreKey :: "string \<Rightarrow> string \<Rightarrow> string" where
  "governanceProviderStoreKey tenantID providerName = governanceTenantScopedKey tenantID providerName"

definition governanceModelStoreKey :: "string \<Rightarrow> string \<Rightarrow> string option \<Rightarrow> string" where
  "governanceModelStoreKey tenantID modelName providerName =
     (case providerName of
        Some p \<Rightarrow>
          if TrimSpace p \<noteq> [] then governanceTenantScopedKey tenantID (modelName @ '':'' @ TrimSpace p)
          else governanceTenantScopedKey tenantID modelName
      | None \<Rightarrow> governanceTenantScopedKey tenantID modelName)"

definition governanceRoutingScopeStoreKey :: "string \<Rightarrow> string \<Rightarrow> string \<Rightarrow> string" where
  "governanceRoutingScopeStoreKey tenantID scope scopeID =
     (if scope = ''global'' then governanceTenantScopedKey tenantID ''global:''
      else governanceTenantScopedKey tenantID (scope @ '':'' @ scopeID))"

section \<open>The store\<close>

text \<open>
  \<open>LocalGovernanceStore\<close>.  \<open>gs_configStore\<close> says whether a database is attached, \<open>gs_known\<close> is the
  package-level set of provider names \<open>ParseModelString\<close> reads, and a compiled CEL program is
  represented by the expression it was compiled from.
\<close>

record LocalGovernanceStore =
  gs_virtualKeys :: "TableVirtualKey smap"
  gs_teams :: "TableTeam smap"
  gs_customers :: "TableCustomer smap"
  gs_budgets :: "TableBudget smap"
  gs_rateLimits :: "TableRateLimit smap"
  gs_modelConfigs :: "TableModelConfig smap"
  gs_providers :: "TableProvider smap"
  gs_routingRules :: "TableRoutingRule list smap"
  gs_users :: "UserGovernance smap"
  LastDBUsagesBudgets :: "rat smap"
  LastDBUsagesRequestsRateLimits :: "int smap"
  LastDBUsagesTokensRateLimits :: "int smap"
  compiledRoutingPrograms :: "string smap"
  gs_configStore :: bool
  gs_modelCatalog :: "ModelCatalog option"
  gs_known :: "string list"

section \<open>Facts on the map operations and the keys\<close>

lemma Load_Store [simp]: "Load (Store k v m) k' = (if k' = k then Some v else Load m k')"
  by (simp add: update_conv')

lemma Load_Delete [simp]: "Load (Delete k m) k' = (if k' = k then None else Load m k')"
  by (simp add: delete_conv')

lemma scopedKey_inj:
  assumes "CHR '':'' \<notin> set (normalizeGovernanceTenantID t)" "CHR '':'' \<notin> set (normalizeGovernanceTenantID t')"
  shows "governanceTenantScopedKey t k = governanceTenantScopedKey t' k' \<longleftrightarrow>
         normalizeGovernanceTenantID t = normalizeGovernanceTenantID t' \<and> k = k'"
proof -
  have split: "xs = xs' \<and> ys = ys'"
    if "xs @ CHR '':'' # ys = xs' @ CHR '':'' # ys'" "CHR '':'' \<notin> set xs" "CHR '':'' \<notin> set xs'"
    for xs xs' ys ys' :: string
    using that
  proof (induction xs arbitrary: xs')
    case Nil
    then show ?case by (cases xs') auto
  next
    case (Cons x xs)
    then show ?case by (cases xs') auto
  qed
  have key: "governanceTenantScopedKey u x = normalizeGovernanceTenantID u @ CHR '':'' # CHR '':'' # x" for u x
    by (simp add: governanceTenantScopedKey_def)
  show ?thesis
    unfolding key using split [OF _ assms, of "CHR '':'' # k" "CHR '':'' # k'"] by auto
qed

end
