(* ===== verification/GovStore.thy ===== *)
theory GovStore
  imports GovTables
begin

text \<open>
  The checks and the charges of the in-memory governance store (\<open>plugins/governance/store.go\<close>): the
  look-ups, the hierarchy of budgets and rate limits a virtual key is subject to, the four budget
  checks and the four rate-limit checks, the charges after a response, and the reset of expired
  windows.

  One call reads the clock several times; the model gives it one instant \<open>now\<close>.  A nil map of
  baselines is the empty map, a nil request has the empty provider and model.
\<close>

section \<open>Requests and decisions\<close>

datatype Decision =
    DecisionAllow | DecisionVirtualKeyNotFound | DecisionVirtualKeyBlocked | DecisionRateLimited
  | DecisionBudgetExceeded | DecisionTokenLimited | DecisionRequestLimited | DecisionModelBlocked
  | DecisionProviderBlocked

record EvaluationRequest =
  er_VirtualKey :: string
  er_Provider :: string
  er_Model :: string
  er_UserID :: string

type_synonym 'n baselines = "string \<rightharpoonup> 'n"

text \<open>The error of a budget check: no virtual key, or the name of the level, its usage and its limit.\<close>

datatype BudgetError = VirtualKeyNil | BudgetExceeded string rat rat

definition baseline :: "'n :: zero baselines \<Rightarrow> string \<Rightarrow> 'n" where
  "baseline m k = (case m k of None \<Rightarrow> 0 | Some v \<Rightarrow> v)"

section \<open>Look-ups\<close>

definition GetVirtualKey :: "LocalGovernanceStore \<Rightarrow> string \<Rightarrow> string \<Rightarrow> TableVirtualKey option" where
  "GetVirtualKey gs tenantID vkValue =
     (if tenantID \<noteq> [] then Load (gs_virtualKeys gs) (governanceVirtualKeyStoreKey tenantID vkValue)
      else find (\<lambda>vk. vk_Value vk = vkValue) (map snd (gs_virtualKeys gs)))"

definition getTeamByTenant :: "LocalGovernanceStore \<Rightarrow> string \<Rightarrow> string \<Rightarrow> TableTeam option" where
  "getTeamByTenant gs tenantID teamID = Load (gs_teams gs) (governanceTeamStoreKey tenantID teamID)"

definition getCustomerByTenant :: "LocalGovernanceStore \<Rightarrow> string \<Rightarrow> string \<Rightarrow> TableCustomer option" where
  "getCustomerByTenant gs tenantID customerID = Load (gs_customers gs) (governanceCustomerStoreKey tenantID customerID)"

definition getProviderByContext :: "LocalGovernanceStore \<Rightarrow> string \<Rightarrow> string \<Rightarrow> TableProvider option" where
  "getProviderByContext gs tenantID provider = Load (gs_providers gs) (governanceProviderStoreKey tenantID provider)"

definition GetUserGovernance :: "LocalGovernanceStore \<Rightarrow> string \<Rightarrow> UserGovernance option" where
  "GetUserGovernance gs userID = Load (gs_users gs) userID"

text \<open>The base name of a model, when it differs from the model: the catalogue is optional.\<close>

definition other_base :: "LocalGovernanceStore \<Rightarrow> string \<Rightarrow> string option" where
  "other_base gs model =
     (case gs_modelCatalog gs of
        None \<Rightarrow> None
      | Some mc \<Rightarrow>
          (let baseName = GetBaseModelName (gs_known gs) mc model in
           if baseName \<noteq> model then Some baseName else None))"

text \<open>Both look-ups return the configuration and the name it was found under.\<close>

definition findModelOnlyConfig :: "LocalGovernanceStore \<Rightarrow> string \<Rightarrow> string \<Rightarrow> (TableModelConfig \<times> string) option" where
  "findModelOnlyConfig gs tenantID model =
     (let direct = map_option (\<lambda>mc. (mc, model)) (Load (gs_modelConfigs gs) (governanceModelStoreKey tenantID model None)) in
      case other_base gs model of
        None \<Rightarrow> direct
      | Some baseName \<Rightarrow>
          (case Load (gs_modelConfigs gs) (governanceModelStoreKey tenantID baseName None) of
             Some mc \<Rightarrow> Some (mc, baseName)
           | None \<Rightarrow> direct))"

definition findProviderSpecificModelConfig :: "LocalGovernanceStore \<Rightarrow> string \<Rightarrow> string \<Rightarrow> string \<Rightarrow> (TableModelConfig \<times> string) option" where
  "findProviderSpecificModelConfig gs tenantID model provider =
     (if provider = [] then None
      else
        (case Load (gs_modelConfigs gs) (governanceModelStoreKey tenantID model (Some provider)) of
           Some mc \<Rightarrow> Some (mc, model)
         | None \<Rightarrow>
             (case other_base gs model of
                None \<Rightarrow> None
              | Some baseName \<Rightarrow>
                  map_option (\<lambda>mc. (mc, baseName))
                    (Load (gs_modelConfigs gs) (governanceModelStoreKey tenantID baseName (Some provider))))))"

section \<open>The hierarchy of a virtual key\<close>

text \<open>A row by its optional identifier.\<close>

definition by_id :: "'v smap \<Rightarrow> string option \<Rightarrow> 'v option" where
  "by_id m oid = (case oid of None \<Rightarrow> None | Some i \<Rightarrow> Load m i)"

definition named :: "string \<Rightarrow> 'v option \<Rightarrow> ('v \<times> string) list" where
  "named name ov = (case ov of None \<Rightarrow> [] | Some v \<Rightarrow> [(v, name)])"

text \<open>
  The two collections walk the same hierarchy, once for budgets and once for rate limits: the
  provider configurations of the requested provider, the key, its team, the customer of the team,
  and the customer of the key unless the team already led to it.
\<close>

definition collectBudgetsFromHierarchy :: "LocalGovernanceStore \<Rightarrow> TableVirtualKey option \<Rightarrow> string \<Rightarrow> (TableBudget \<times> string) list" where
  "collectBudgetsFromHierarchy gs ovk requestedProvider =
     (case ovk of
        None \<Rightarrow> []
      | Some vk \<Rightarrow>
          (let ofID = by_id (gs_budgets gs);
               team = (case vk_TeamID vk of None \<Rightarrow> None | Some t \<Rightarrow> getTeamByTenant gs (vk_TenantID vk) t);
               teamCustomerID = (case team of None \<Rightarrow> [] | Some t \<Rightarrow> (case team_CustomerID t of None \<Rightarrow> [] | Some c \<Rightarrow> c));
               customer = (\<lambda>oc. case oc of None \<Rightarrow> None | Some c \<Rightarrow> getCustomerByTenant gs (vk_TenantID vk) c);
               customer_budget = (\<lambda>oc. case customer oc of None \<Rightarrow> [] | Some c \<Rightarrow> named ''Customer'' (ofID (cus_BudgetID c))) in
           concat (map (\<lambda>pc. if pc_Provider pc = requestedProvider then named (pc_Provider pc) (ofID (pc_BudgetID pc)) else []) (ProviderConfigs vk)) @
           named ''VK'' (ofID (vk_BudgetID vk)) @
           (case team of
              None \<Rightarrow> []
            | Some t \<Rightarrow> named ''Team'' (ofID (team_BudgetID t)) @ customer_budget (team_CustomerID t)) @
           (if teamCustomerID = [] \<or> vk_CustomerID vk \<noteq> Some teamCustomerID then customer_budget (vk_CustomerID vk) else [])))"

definition collectRateLimitsFromHierarchy :: "LocalGovernanceStore \<Rightarrow> TableVirtualKey option \<Rightarrow> string \<Rightarrow> (TableRateLimit \<times> string) list" where
  "collectRateLimitsFromHierarchy gs ovk requestedProvider =
     (case ovk of
        None \<Rightarrow> []
      | Some vk \<Rightarrow>
          (let ofID = by_id (gs_rateLimits gs);
               team = (case vk_TeamID vk of None \<Rightarrow> None | Some t \<Rightarrow> getTeamByTenant gs (vk_TenantID vk) t);
               teamCustomerID = (case team of None \<Rightarrow> [] | Some t \<Rightarrow> (case team_CustomerID t of None \<Rightarrow> [] | Some c \<Rightarrow> c));
               customer = (\<lambda>oc. case oc of None \<Rightarrow> None | Some c \<Rightarrow> getCustomerByTenant gs (vk_TenantID vk) c);
               customer_limit = (\<lambda>oc. case customer oc of None \<Rightarrow> [] | Some c \<Rightarrow> named ''Customer'' (ofID (cus_RateLimitID c))) in
           concat (map (\<lambda>pc. if pc_Provider pc = requestedProvider then named (pc_Provider pc) (ofID (pc_RateLimitID pc)) else []) (ProviderConfigs vk)) @
           named ''VK'' (ofID (vk_RateLimitID vk)) @
           (case team of
              None \<Rightarrow> []
            | Some t \<Rightarrow> named ''Team'' (ofID (team_RateLimitID t)) @ customer_limit (team_CustomerID t)) @
           (if teamCustomerID = [] \<or> vk_CustomerID vk \<noteq> Some teamCustomerID then customer_limit (vk_CustomerID vk) else [])))"

definition collectBudgetIDsFromMemory :: "LocalGovernanceStore \<Rightarrow> TableVirtualKey option \<Rightarrow> string \<Rightarrow> string list" where
  "collectBudgetIDsFromMemory gs ovk provider = map (bud_ID \<circ> fst) (collectBudgetsFromHierarchy gs ovk provider)"

definition collectRateLimitIDsFromMemory :: "LocalGovernanceStore \<Rightarrow> TableVirtualKey option \<Rightarrow> string \<Rightarrow> string list" where
  "collectRateLimitIDsFromMemory gs ovk provider = map (rl_ID \<circ> fst) (collectRateLimitsFromHierarchy gs ovk provider)"

section \<open>Budget checks\<close>

text \<open>\<open>time.Since(lastReset) >= duration\<close> for a duration that parses.\<close>

definition window_expired :: "int \<Rightarrow> string option \<Rightarrow> int \<Rightarrow> bool" where
  "window_expired now od lastReset =
     (case od of
        None \<Rightarrow> False
      | Some s \<Rightarrow> (case ParseDuration s of None \<Rightarrow> False | Some d \<Rightarrow> d \<le> time_Sub now lastReset))"

definition budget_expired :: "int \<Rightarrow> TableBudget \<Rightarrow> bool" where
  "budget_expired now b \<longleftrightarrow> ResetDuration b \<noteq> [] \<and> window_expired now (Some (ResetDuration b)) (LastReset b)"

definition budget_check :: "int \<Rightarrow> rat baselines \<Rightarrow> TableBudget \<Rightarrow> string \<Rightarrow> BudgetError option" where
  "budget_check now baselines b name =
     (if budget_expired now b then None
      else
        (let usage = f_add (CurrentUsage b) (baseline baselines (bud_ID b)) in
         if MaxLimit b \<le> usage then Some (BudgetExceeded name usage (MaxLimit b)) else None))"

fun first_error :: "('a \<Rightarrow> 'e option) \<Rightarrow> 'a list \<Rightarrow> 'e option" where
  "first_error f [] = None"
| "first_error f (x # xs) = (case f x of Some e \<Rightarrow> Some e | None \<Rightarrow> first_error f xs)"

definition request_provider :: "EvaluationRequest option \<Rightarrow> string" where
  "request_provider r = (case r of None \<Rightarrow> [] | Some q \<Rightarrow> er_Provider q)"

definition request_model :: "EvaluationRequest option \<Rightarrow> string" where
  "request_model r = (case r of None \<Rightarrow> [] | Some q \<Rightarrow> er_Model q)"

definition CheckBudget :: "LocalGovernanceStore \<Rightarrow> int \<Rightarrow> TableVirtualKey option \<Rightarrow> EvaluationRequest option \<Rightarrow> rat baselines \<Rightarrow> BudgetError option" where
  "CheckBudget gs now ovk request baselines =
     (case ovk of
        None \<Rightarrow> Some VirtualKeyNil
      | Some vk \<Rightarrow>
          first_error (\<lambda>(b, name). budget_check now baselines b name)
            (collectBudgetsFromHierarchy gs ovk (request_provider request)))"

definition CheckProviderBudget :: "LocalGovernanceStore \<Rightarrow> int \<Rightarrow> string \<Rightarrow> EvaluationRequest option \<Rightarrow> rat baselines \<Rightarrow> BudgetError option" where
  "CheckProviderBudget gs now tenantID request baselines =
     (case getProviderByContext gs tenantID (request_provider request) of
        None \<Rightarrow> None
      | Some p \<Rightarrow>
          (case by_id (gs_budgets gs) (prov_BudgetID p) of
             None \<Rightarrow> None
           | Some b \<Rightarrow> budget_check now baselines b (request_provider request)))"

text \<open>The configurations a model check looks at: the provider-specific one, then the model-only one.\<close>

definition model_configs :: "LocalGovernanceStore \<Rightarrow> string \<Rightarrow> string \<Rightarrow> string \<Rightarrow> (TableModelConfig \<times> string) list" where
  "model_configs gs tenantID model provider =
     (case findProviderSpecificModelConfig gs tenantID model provider of
        None \<Rightarrow> []
      | Some (mc, configKey) \<Rightarrow> [(mc, ''Model:'' @ configKey @ '':Provider:'' @ provider)]) @
     (case findModelOnlyConfig gs tenantID model of
        None \<Rightarrow> []
      | Some (mc, configKey) \<Rightarrow> [(mc, ''Model:'' @ configKey)])"

definition CheckModelBudget :: "LocalGovernanceStore \<Rightarrow> int \<Rightarrow> string \<Rightarrow> EvaluationRequest option \<Rightarrow> rat baselines \<Rightarrow> BudgetError option" where
  "CheckModelBudget gs now tenantID request baselines =
     first_error (\<lambda>(mc, name).
         case by_id (gs_budgets gs) (mcfg_BudgetID mc) of
           None \<Rightarrow> None
         | Some b \<Rightarrow> budget_check now baselines b name)
       (filter (\<lambda>(mc, name). mcfg_Budget mc \<noteq> None)
          (model_configs gs tenantID (request_model request) (request_provider request)))"

definition CheckUserBudget :: "LocalGovernanceStore \<Rightarrow> int \<Rightarrow> string \<Rightarrow> rat baselines \<Rightarrow> BudgetError option" where
  "CheckUserBudget gs now userID baselines =
     (if userID = [] then None
      else
        (case GetUserGovernance gs userID of
           None \<Rightarrow> None
         | Some ug \<Rightarrow>
             (case by_id (gs_budgets gs) (ug_BudgetID ug) of
                None \<Rightarrow> None
              | Some b \<Rightarrow> budget_check now baselines b ''user'')))"

section \<open>Rate-limit checks\<close>

text \<open>\<open>%d\<close> of \<open>fmt.Sprintf\<close>.\<close>

definition itoa :: "int \<Rightarrow> string" where
  "itoa i = (if i < 0 then ''-'' @ dec_digits (nat (- i)) else dec_digits (nat i))"

definition limit_reached :: "int \<Rightarrow> string option \<Rightarrow> int \<Rightarrow> int option \<Rightarrow> int \<Rightarrow> bool" where
  "limit_reached now resetDuration lastReset maxLimit usage \<longleftrightarrow>
     \<not> window_expired now resetDuration lastReset \<and> (case maxLimit of None \<Rightarrow> False | Some m \<Rightarrow> m \<le> usage)"

definition limit_message :: "string \<Rightarrow> int \<Rightarrow> int option \<Rightarrow> string option \<Rightarrow> string" where
  "limit_message what usage maxLimit resetDuration =
     what @ '' limit exceeded ('' @ itoa usage @ ''/'' @ itoa (the maxLimit) @ '', resets every '' @
     (case resetDuration of None \<Rightarrow> ''unknown'' | Some d \<Rightarrow> d) @ '')''"

definition token_usage :: "int baselines \<Rightarrow> TableRateLimit \<Rightarrow> int" where
  "token_usage tokensBaselines rl = wrap64 (TokenCurrentUsage rl + baseline tokensBaselines (rl_ID rl))"

definition request_usage :: "int baselines \<Rightarrow> TableRateLimit \<Rightarrow> int" where
  "request_usage requestsBaselines rl = wrap64 (RequestCurrentUsage rl + baseline requestsBaselines (rl_ID rl))"

definition token_reached :: "int \<Rightarrow> int baselines \<Rightarrow> TableRateLimit \<Rightarrow> bool" where
  "token_reached now tokensBaselines rl \<longleftrightarrow>
     limit_reached now (TokenResetDuration rl) (TokenLastReset rl) (TokenMaxLimit rl) (token_usage tokensBaselines rl)"

definition request_reached :: "int \<Rightarrow> int baselines \<Rightarrow> TableRateLimit \<Rightarrow> bool" where
  "request_reached now requestsBaselines rl \<longleftrightarrow>
     limit_reached now (RequestResetDuration rl) (RequestLastReset rl) (RequestMaxLimit rl) (request_usage requestsBaselines rl)"

text \<open>The violations of one rate limit; the user check prefixes its messages with \<open>user\<close>.\<close>

definition rate_violations :: "int \<Rightarrow> int baselines \<Rightarrow> int baselines \<Rightarrow> string \<Rightarrow> TableRateLimit \<Rightarrow> string list" where
  "rate_violations now tokensBaselines requestsBaselines who rl =
     (if token_reached now tokensBaselines rl
      then [limit_message (who @ ''token'') (token_usage tokensBaselines rl) (TokenMaxLimit rl) (TokenResetDuration rl)] else []) @
     (if request_reached now requestsBaselines rl
      then [limit_message (who @ ''request'') (request_usage requestsBaselines rl) (RequestMaxLimit rl) (RequestResetDuration rl)] else [])"

definition rate_decision :: "string list \<Rightarrow> Decision" where
  "rate_decision violations =
     (if length violations = 1 then
        (if sublist ''token'' (hd violations) then DecisionTokenLimited
         else if sublist ''request'' (hd violations) then DecisionRequestLimited
         else DecisionRateLimited)
      else DecisionRateLimited)"

text \<open>A rate-limit check returns the level it failed at, the violations and the decision.\<close>

type_synonym RateError = "string \<times> string list \<times> Decision"

definition rate_check :: "int \<Rightarrow> int baselines \<Rightarrow> int baselines \<Rightarrow> string \<Rightarrow> TableRateLimit \<Rightarrow> string \<Rightarrow> RateError option" where
  "rate_check now tokensBaselines requestsBaselines who rl name =
     (let violations = rate_violations now tokensBaselines requestsBaselines who rl in
      if violations = [] then None else Some (name, violations, rate_decision violations))"

definition CheckRateLimit :: "LocalGovernanceStore \<Rightarrow> int \<Rightarrow> TableVirtualKey option \<Rightarrow> EvaluationRequest option \<Rightarrow> int baselines \<Rightarrow> int baselines \<Rightarrow> RateError option" where
  "CheckRateLimit gs now ovk request tokensBaselines requestsBaselines =
     first_error (\<lambda>(rl, name). rate_check now tokensBaselines requestsBaselines [] rl name)
       (collectRateLimitsFromHierarchy gs ovk (request_provider request))"

definition CheckProviderRateLimit :: "LocalGovernanceStore \<Rightarrow> int \<Rightarrow> string \<Rightarrow> EvaluationRequest option \<Rightarrow> int baselines \<Rightarrow> int baselines \<Rightarrow> RateError option" where
  "CheckProviderRateLimit gs now tenantID request tokensBaselines requestsBaselines =
     (case getProviderByContext gs tenantID (request_provider request) of
        None \<Rightarrow> None
      | Some p \<Rightarrow>
          (case by_id (gs_rateLimits gs) (prov_RateLimitID p) of
             None \<Rightarrow> None
           | Some rl \<Rightarrow> rate_check now tokensBaselines requestsBaselines [] rl (request_provider request)))"

definition CheckModelRateLimit :: "LocalGovernanceStore \<Rightarrow> int \<Rightarrow> string \<Rightarrow> EvaluationRequest option \<Rightarrow> int baselines \<Rightarrow> int baselines \<Rightarrow> RateError option" where
  "CheckModelRateLimit gs now tenantID request tokensBaselines requestsBaselines =
     first_error (\<lambda>(mc, name).
         case by_id (gs_rateLimits gs) (mcfg_RateLimitID mc) of
           None \<Rightarrow> None
         | Some rl \<Rightarrow> rate_check now tokensBaselines requestsBaselines [] rl name)
       (model_configs gs tenantID (request_model request) (request_provider request))"

definition CheckUserRateLimit :: "LocalGovernanceStore \<Rightarrow> int \<Rightarrow> string \<Rightarrow> int baselines \<Rightarrow> int baselines \<Rightarrow> RateError option" where
  "CheckUserRateLimit gs now userID tokensBaselines requestsBaselines =
     (if userID = [] then None
      else
        (case GetUserGovernance gs userID of
           None \<Rightarrow> None
         | Some ug \<Rightarrow>
             (case by_id (gs_rateLimits gs) (ug_RateLimitID ug) of
                None \<Rightarrow> None
              | Some rl \<Rightarrow> rate_check now tokensBaselines requestsBaselines ''user '' rl ''user'')))"

section \<open>Charges\<close>

text \<open>The lazy reset every charge starts with.\<close>

definition budget_reset :: "int \<Rightarrow> TableBudget \<Rightarrow> TableBudget" where
  "budget_reset now b = (if budget_expired now b then b\<lparr>CurrentUsage := 0, LastReset := now\<rparr> else b)"

definition budget_charge :: "int \<Rightarrow> rat \<Rightarrow> TableBudget \<Rightarrow> TableBudget" where
  "budget_charge now cost b = (let c = budget_reset now b in c\<lparr>CurrentUsage := f_add (CurrentUsage c) cost\<rparr>)"

text \<open>\<open>updateBudget\<close>: a budget that is not in the store is skipped.\<close>

definition updateBudget :: "int \<Rightarrow> rat \<Rightarrow> string \<Rightarrow> LocalGovernanceStore \<Rightarrow> LocalGovernanceStore" where
  "updateBudget now cost budgetID gs =
     (case Load (gs_budgets gs) budgetID of
        None \<Rightarrow> gs
      | Some b \<Rightarrow> gs\<lparr>gs_budgets := Store budgetID (budget_charge now cost b) (gs_budgets gs)\<rparr>)"

definition UpdateVirtualKeyBudgetUsageInMemory :: "int \<Rightarrow> TableVirtualKey option \<Rightarrow> string \<Rightarrow> rat \<Rightarrow> LocalGovernanceStore \<Rightarrow> BudgetError option \<times> LocalGovernanceStore" where
  "UpdateVirtualKeyBudgetUsageInMemory now ovk provider cost gs =
     (case ovk of
        None \<Rightarrow> (Some VirtualKeyNil, gs)
      | Some vk \<Rightarrow> (None, fold (updateBudget now cost) (collectBudgetIDsFromMemory gs ovk provider) gs))"

definition option_list :: "'a option \<Rightarrow> 'a list" where
  "option_list x = (case x of None \<Rightarrow> [] | Some y \<Rightarrow> [y])"

definition provider_budget_ids :: "LocalGovernanceStore \<Rightarrow> string \<Rightarrow> string \<Rightarrow> string list" where
  "provider_budget_ids gs tenantID provider =
     (if provider = [] then []
      else (case getProviderByContext gs tenantID provider of None \<Rightarrow> [] | Some p \<Rightarrow> option_list (prov_BudgetID p)))"

definition UpdateProviderAndModelBudgetUsageInMemory :: "int \<Rightarrow> string \<Rightarrow> string \<Rightarrow> string \<Rightarrow> rat \<Rightarrow> LocalGovernanceStore \<Rightarrow> LocalGovernanceStore" where
  "UpdateProviderAndModelBudgetUsageInMemory now tenantID model provider cost gs =
     fold (updateBudget now cost)
       (provider_budget_ids gs tenantID provider @
        concat (map (option_list \<circ> mcfg_BudgetID \<circ> fst) (model_configs gs tenantID model provider))) gs"

text \<open>The user charge stores under the identifier of the row, not under the one it looked up.\<close>

definition UpdateUserBudgetUsageInMemory :: "int \<Rightarrow> string \<Rightarrow> rat \<Rightarrow> LocalGovernanceStore \<Rightarrow> LocalGovernanceStore" where
  "UpdateUserBudgetUsageInMemory now userID cost gs =
     (if userID = [] \<or> cost \<le> 0 then gs
      else
        (case GetUserGovernance gs userID of
           None \<Rightarrow> gs
         | Some ug \<Rightarrow>
             (case by_id (gs_budgets gs) (ug_BudgetID ug) of
                None \<Rightarrow> gs
              | Some b \<Rightarrow> gs\<lparr>gs_budgets := Store (bud_ID b) (budget_charge now cost b) (gs_budgets gs)\<rparr>)))"

definition rate_reset :: "int \<Rightarrow> TableRateLimit \<Rightarrow> TableRateLimit" where
  "rate_reset now rl =
     (let rl1 = (if window_expired now (TokenResetDuration rl) (TokenLastReset rl)
                 then rl\<lparr>TokenCurrentUsage := 0, TokenLastReset := now\<rparr> else rl) in
      if window_expired now (RequestResetDuration rl1) (RequestLastReset rl1)
      then rl1\<lparr>RequestCurrentUsage := 0, RequestLastReset := now\<rparr> else rl1)"

definition rate_charge :: "int \<Rightarrow> int \<Rightarrow> bool \<Rightarrow> bool \<Rightarrow> TableRateLimit \<Rightarrow> TableRateLimit" where
  "rate_charge now tokensUsed shouldUpdateTokens shouldUpdateRequests rl =
     (let rl1 = rate_reset now rl;
          rl2 = (if shouldUpdateTokens then rl1\<lparr>TokenCurrentUsage := wrap64 (TokenCurrentUsage rl1 + tokensUsed)\<rparr> else rl1) in
      if shouldUpdateRequests then rl2\<lparr>RequestCurrentUsage := wrap64 (RequestCurrentUsage rl2 + 1)\<rparr> else rl2)"

definition updateRateLimit :: "int \<Rightarrow> int \<Rightarrow> bool \<Rightarrow> bool \<Rightarrow> string \<Rightarrow> LocalGovernanceStore \<Rightarrow> LocalGovernanceStore" where
  "updateRateLimit now tokensUsed shouldUpdateTokens shouldUpdateRequests rateLimitID gs =
     (case Load (gs_rateLimits gs) rateLimitID of
        None \<Rightarrow> gs
      | Some rl \<Rightarrow>
          gs\<lparr>gs_rateLimits := Store rateLimitID (rate_charge now tokensUsed shouldUpdateTokens shouldUpdateRequests rl) (gs_rateLimits gs)\<rparr>)"

definition UpdateVirtualKeyRateLimitUsageInMemory :: "int \<Rightarrow> TableVirtualKey option \<Rightarrow> string \<Rightarrow> int \<Rightarrow> bool \<Rightarrow> bool \<Rightarrow> LocalGovernanceStore \<Rightarrow> BudgetError option \<times> LocalGovernanceStore" where
  "UpdateVirtualKeyRateLimitUsageInMemory now ovk provider tokensUsed shouldUpdateTokens shouldUpdateRequests gs =
     (case ovk of
        None \<Rightarrow> (Some VirtualKeyNil, gs)
      | Some vk \<Rightarrow>
          (None, fold (updateRateLimit now tokensUsed shouldUpdateTokens shouldUpdateRequests)
                   (collectRateLimitIDsFromMemory gs ovk provider) gs))"

definition provider_rate_ids :: "LocalGovernanceStore \<Rightarrow> string \<Rightarrow> string \<Rightarrow> string list" where
  "provider_rate_ids gs tenantID provider =
     (if provider = [] then []
      else (case getProviderByContext gs tenantID provider of None \<Rightarrow> [] | Some p \<Rightarrow> option_list (prov_RateLimitID p)))"

definition UpdateProviderAndModelRateLimitUsageInMemory :: "int \<Rightarrow> string \<Rightarrow> string \<Rightarrow> string \<Rightarrow> int \<Rightarrow> bool \<Rightarrow> bool \<Rightarrow> LocalGovernanceStore \<Rightarrow> LocalGovernanceStore" where
  "UpdateProviderAndModelRateLimitUsageInMemory now tenantID model provider tokensUsed shouldUpdateTokens shouldUpdateRequests gs =
     fold (updateRateLimit now tokensUsed shouldUpdateTokens shouldUpdateRequests)
       (provider_rate_ids gs tenantID provider @
        concat (map (option_list \<circ> mcfg_RateLimitID \<circ> fst) (model_configs gs tenantID model provider))) gs"

definition UpdateUserRateLimitUsageInMemory :: "int \<Rightarrow> string \<Rightarrow> int \<Rightarrow> bool \<Rightarrow> bool \<Rightarrow> LocalGovernanceStore \<Rightarrow> LocalGovernanceStore" where
  "UpdateUserRateLimitUsageInMemory now userID tokensUsed shouldUpdateTokens shouldUpdateRequests gs =
     (if userID = [] then gs
      else
        (case GetUserGovernance gs userID of
           None \<Rightarrow> gs
         | Some ug \<Rightarrow>
             (case by_id (gs_rateLimits gs) (ug_RateLimitID ug) of
                None \<Rightarrow> gs
              | Some rl \<Rightarrow>
                  gs\<lparr>gs_rateLimits := Store (rl_ID rl) (rate_charge now tokensUsed shouldUpdateTokens shouldUpdateRequests rl) (gs_rateLimits gs)\<rparr>)))"

section \<open>Reset of expired windows\<close>

definition map_entries :: "('v \<Rightarrow> 'v) \<Rightarrow> 'v smap \<Rightarrow> 'v smap" where
  "map_entries f m = map (\<lambda>(k, v). (k, f v)) m"

text \<open>The copies of a budget embedded in the rows that refer to it; model configurations and
  providers keep their old copy.\<close>

definition vk_with_budget :: "TableBudget \<Rightarrow> TableVirtualKey \<Rightarrow> TableVirtualKey" where
  "vk_with_budget b vk =
     (if vk_BudgetID vk = Some (bud_ID b) then vk\<lparr>vk_Budget := Some b\<rparr> else vk)
       \<lparr>ProviderConfigs := map (\<lambda>pc. if pc_BudgetID pc = Some (bud_ID b) then pc\<lparr>pc_Budget := Some b\<rparr> else pc) (ProviderConfigs vk)\<rparr>"

definition team_with_budget :: "TableBudget \<Rightarrow> TableTeam \<Rightarrow> TableTeam" where
  "team_with_budget b r = (if team_BudgetID r = Some (bud_ID b) then r\<lparr>team_Budget := Some b\<rparr> else r)"

definition customer_with_budget :: "TableBudget \<Rightarrow> TableCustomer \<Rightarrow> TableCustomer" where
  "customer_with_budget b r = (if cus_BudgetID r = Some (bud_ID b) then r\<lparr>cus_Budget := Some b\<rparr> else r)"

definition user_with_budget :: "TableBudget \<Rightarrow> UserGovernance \<Rightarrow> UserGovernance" where
  "user_with_budget b r = (if ug_BudgetID r = Some (bud_ID b) then r\<lparr>ug_Budget := Some b\<rparr> else r)"

definition updateBudgetReferences :: "TableBudget \<Rightarrow> LocalGovernanceStore \<Rightarrow> LocalGovernanceStore" where
  "updateBudgetReferences b gs =
     gs\<lparr>gs_virtualKeys := map_entries (vk_with_budget b) (gs_virtualKeys gs),
        gs_teams := map_entries (team_with_budget b) (gs_teams gs),
        gs_customers := map_entries (customer_with_budget b) (gs_customers gs),
        gs_users := map_entries (user_with_budget b) (gs_users gs)\<rparr>"

definition vk_with_limit :: "TableRateLimit \<Rightarrow> TableVirtualKey \<Rightarrow> TableVirtualKey" where
  "vk_with_limit rl vk =
     (if vk_RateLimitID vk = Some (rl_ID rl) then vk\<lparr>vk_RateLimit := Some rl\<rparr> else vk)
       \<lparr>ProviderConfigs := map (\<lambda>pc. if pc_RateLimitID pc = Some (rl_ID rl) then pc\<lparr>pc_RateLimit := Some rl\<rparr> else pc) (ProviderConfigs vk)\<rparr>"

definition team_with_limit :: "TableRateLimit \<Rightarrow> TableTeam \<Rightarrow> TableTeam" where
  "team_with_limit rl r = (if team_RateLimitID r = Some (rl_ID rl) then r\<lparr>team_RateLimit := Some rl\<rparr> else r)"

definition customer_with_limit :: "TableRateLimit \<Rightarrow> TableCustomer \<Rightarrow> TableCustomer" where
  "customer_with_limit rl r = (if cus_RateLimitID r = Some (rl_ID rl) then r\<lparr>cus_RateLimit := Some rl\<rparr> else r)"

definition user_with_limit :: "TableRateLimit \<Rightarrow> UserGovernance \<Rightarrow> UserGovernance" where
  "user_with_limit rl r = (if ug_RateLimitID r = Some (rl_ID rl) then r\<lparr>ug_RateLimit := Some rl\<rparr> else r)"

definition updateRateLimitReferences :: "TableRateLimit \<Rightarrow> LocalGovernanceStore \<Rightarrow> LocalGovernanceStore" where
  "updateRateLimitReferences rl gs =
     gs\<lparr>gs_virtualKeys := map_entries (vk_with_limit rl) (gs_virtualKeys gs),
        gs_teams := map_entries (team_with_limit rl) (gs_teams gs),
        gs_customers := map_entries (customer_with_limit rl) (gs_customers gs),
        gs_users := map_entries (user_with_limit rl) (gs_users gs)\<rparr>"

text \<open>Each reset visits the entries the map had when it started; the second component collects the
  rows it reset.\<close>

definition reset_budget_entry :: "int \<Rightarrow> string \<times> TableBudget \<Rightarrow> LocalGovernanceStore \<times> TableBudget list \<Rightarrow> LocalGovernanceStore \<times> TableBudget list" where
  "reset_budget_entry now = (\<lambda>(key, b) (gs, acc).
     if window_expired now (Some (ResetDuration b)) (LastReset b) then
       (let copied = b\<lparr>CurrentUsage := 0, LastReset := now\<rparr> in
        (updateBudgetReferences copied
           (gs\<lparr>LastDBUsagesBudgets := Store (bud_ID b) 0 (LastDBUsagesBudgets gs),
               gs_budgets := Store key copied (gs_budgets gs)\<rparr>), acc @ [copied]))
     else (gs, acc))"

definition ResetExpiredBudgetsInMemory :: "int \<Rightarrow> LocalGovernanceStore \<Rightarrow> LocalGovernanceStore \<times> TableBudget list" where
  "ResetExpiredBudgetsInMemory now gs = fold (reset_budget_entry now) (gs_budgets gs) (gs, [])"

definition reset_rate_entry :: "int \<Rightarrow> string \<times> TableRateLimit \<Rightarrow> LocalGovernanceStore \<times> TableRateLimit list \<Rightarrow> LocalGovernanceStore \<times> TableRateLimit list" where
  "reset_rate_entry now = (\<lambda>(key, rl) (gs, acc).
     (let token = window_expired now (TokenResetDuration rl) (TokenLastReset rl);
          request = window_expired now (RequestResetDuration rl) (RequestLastReset rl) in
      if token \<or> request then
        (let copied = rate_reset now rl in
         (updateRateLimitReferences copied
            (gs\<lparr>LastDBUsagesTokensRateLimits :=
                  (if token then Store (rl_ID rl) 0 (LastDBUsagesTokensRateLimits gs) else LastDBUsagesTokensRateLimits gs),
                LastDBUsagesRequestsRateLimits :=
                  (if request then Store (rl_ID rl) 0 (LastDBUsagesRequestsRateLimits gs) else LastDBUsagesRequestsRateLimits gs),
                gs_rateLimits := Store key copied (gs_rateLimits gs)\<rparr>), acc @ [copied]))
      else (gs, acc)))"

definition ResetExpiredRateLimitsInMemory :: "int \<Rightarrow> LocalGovernanceStore \<Rightarrow> LocalGovernanceStore \<times> TableRateLimit list" where
  "ResetExpiredRateLimitsInMemory now gs = fold (reset_rate_entry now) (gs_rateLimits gs) (gs, [])"

section \<open>The database copy\<close>

text \<open>
  The two tables the store writes back to.  A transaction is either applied as a whole or, when the
  database reports an error, not at all; the error is an argument.
\<close>

record GovDB =
  db_budgets :: "TableBudget list"
  db_rateLimits :: "TableRateLimit list"

definition ExecuteTransaction :: "string option \<Rightarrow> (GovDB \<Rightarrow> GovDB) \<Rightarrow> GovDB \<Rightarrow> string option \<times> GovDB" where
  "ExecuteTransaction txErr f db = (case txErr of Some e \<Rightarrow> (Some e, db) | None \<Rightarrow> (None, f db))"

text \<open>\<open>UPDATE ... WHERE id = ?\<close>.\<close>

definition update_budget_row :: "string \<Rightarrow> (TableBudget \<Rightarrow> TableBudget) \<Rightarrow> GovDB \<Rightarrow> GovDB" where
  "update_budget_row i f db = db\<lparr>db_budgets := map (\<lambda>b. if bud_ID b = i then f b else b) (db_budgets db)\<rparr>"

definition update_rate_row :: "string \<Rightarrow> (TableRateLimit \<Rightarrow> TableRateLimit) \<Rightarrow> GovDB \<Rightarrow> GovDB" where
  "update_rate_row i f db = db\<lparr>db_rateLimits := map (\<lambda>rl. if rl_ID rl = i then f rl else rl) (db_rateLimits db)\<rparr>"

definition ResetExpiredBudgets :: "bool \<Rightarrow> string option \<Rightarrow> TableBudget list \<Rightarrow> GovDB \<Rightarrow> string option \<times> GovDB" where
  "ResetExpiredBudgets configStore txErr resetBudgets db =
     (if resetBudgets \<noteq> [] \<and> configStore then
        (case ExecuteTransaction txErr
            (fold (\<lambda>b. update_budget_row (bud_ID b) (\<lambda>row. row\<lparr>CurrentUsage := CurrentUsage b, LastReset := LastReset b\<rparr>)) resetBudgets) db of
           (Some e, db') \<Rightarrow> (Some (''failed to persist budget resets to database: '' @ e), db')
         | (None, db') \<Rightarrow> (None, db'))
      else (None, db))"

definition ResetExpiredRateLimits :: "bool \<Rightarrow> string option \<Rightarrow> TableRateLimit list \<Rightarrow> GovDB \<Rightarrow> string option \<times> GovDB" where
  "ResetExpiredRateLimits configStore txErr resetRateLimits db =
     (if resetRateLimits \<noteq> [] \<and> configStore then
        (case ExecuteTransaction txErr
            (fold (\<lambda>rl. update_rate_row (rl_ID rl) (\<lambda>row.
               (let row1 = (if TokenCurrentUsage rl = 0 \<and> TokenResetDuration rl \<noteq> None
                            then row\<lparr>TokenCurrentUsage := 0, TokenLastReset := TokenLastReset rl\<rparr> else row) in
                if RequestCurrentUsage rl = 0 \<and> RequestResetDuration rl \<noteq> None
                then row1\<lparr>RequestCurrentUsage := 0, RequestLastReset := RequestLastReset rl\<rparr> else row1))) resetRateLimits) db of
           (Some e, db') \<Rightarrow> (Some (''failed to persist rate limit resets to database: '' @ e), db')
         | (None, db') \<Rightarrow> (None, db'))
      else (None, db))"

definition isDeadlock :: "string \<Rightarrow> bool" where
  "isDeadlock errStr \<longleftrightarrow> sublist ''deadlock'' errStr \<or> sublist ''40P01'' errStr \<or> sublist ''1213'' errStr"

definition DumpBudgets :: "LocalGovernanceStore \<Rightarrow> string option \<Rightarrow> rat baselines \<Rightarrow> GovDB \<Rightarrow> string option \<times> GovDB" where
  "DumpBudgets gs txErr baselines db =
     (if gs_configStore gs \<and> gs_budgets gs \<noteq> [] then
        (case ExecuteTransaction txErr
            (fold (\<lambda>(key, b). update_budget_row (bud_ID b) (\<lambda>row. row\<lparr>CurrentUsage :=
                 (case baselines (bud_ID b) of None \<Rightarrow> CurrentUsage b | Some v \<Rightarrow> f_add (CurrentUsage b) v)\<rparr>)) (gs_budgets gs)) db of
           (Some e, db') \<Rightarrow> (if isDeadlock e then None else Some (''failed to dump budgets to database: '' @ e), db')
         | (None, db') \<Rightarrow> (None, db'))
      else (None, db))"

text \<open>The rate limits some row of the store refers to, each once.\<close>

definition referenced_rate_ids :: "LocalGovernanceStore \<Rightarrow> string list" where
  "referenced_rate_ids gs = remdups (concat (map option_list
     (concat (map (\<lambda>(k, vk). vk_RateLimitID vk # map pc_RateLimitID (ProviderConfigs vk)) (gs_virtualKeys gs)) @
      map (mcfg_RateLimitID \<circ> snd) (gs_modelConfigs gs) @
      map (prov_RateLimitID \<circ> snd) (gs_providers gs) @
      map (team_RateLimitID \<circ> snd) (gs_teams gs) @
      map (cus_RateLimitID \<circ> snd) (gs_customers gs) @
      map (ug_RateLimitID \<circ> snd) (gs_users gs))))"

definition DumpRateLimits :: "LocalGovernanceStore \<Rightarrow> string option \<Rightarrow> int baselines \<Rightarrow> int baselines \<Rightarrow> GovDB \<Rightarrow> string option \<times> GovDB" where
  "DumpRateLimits gs txErr tokenBaselines requestBaselines db =
     (let rateLimitUpdates = concat (map (\<lambda>i. option_list (Load (gs_rateLimits gs) i)) (referenced_rate_ids gs)) in
      if gs_configStore gs \<and> rateLimitUpdates \<noteq> [] then
        (case ExecuteTransaction txErr
            (fold (\<lambda>rl. update_rate_row (rl_ID rl) (\<lambda>row. row\<lparr>
                 TokenCurrentUsage := token_usage tokenBaselines rl,
                 RequestCurrentUsage := request_usage requestBaselines rl\<rparr>)) rateLimitUpdates) db of
           (Some e, db') \<Rightarrow> (if isDeadlock e then None else Some (''failed to dump rate limits to database: '' @ e), db')
         | (None, db') \<Rightarrow> (None, db'))
      else (None, db))"

end
