(* ===== verification/GovCrud.thy ===== *)
theory GovCrud
  imports GovStore
begin

text \<open>
  Maintenance of the in-memory governance store (\<open>plugins/governance/store.go\<close>): creating, updating
  and deleting virtual keys, teams, customers, users, model configurations and providers, rebuilding
  the maps from the rows of the database or of the configuration file, and the snapshot the
  administration API reads.
\<close>

section \<open>Budgets and rate limits of a row\<close>

definition store_budget :: "TableBudget \<Rightarrow> LocalGovernanceStore \<Rightarrow> LocalGovernanceStore" where
  "store_budget b gs = gs\<lparr>gs_budgets := Store (bud_ID b) b (gs_budgets gs)\<rparr>"

definition store_rate :: "TableRateLimit \<Rightarrow> LocalGovernanceStore \<Rightarrow> LocalGovernanceStore" where
  "store_rate rl gs = gs\<lparr>gs_rateLimits := Store (rl_ID rl) rl (gs_rateLimits gs)\<rparr>"

definition store_budget_opt :: "TableBudget option \<Rightarrow> LocalGovernanceStore \<Rightarrow> LocalGovernanceStore" where
  "store_budget_opt ob gs = (case ob of None \<Rightarrow> gs | Some b \<Rightarrow> store_budget b gs)"

definition store_rate_opt :: "TableRateLimit option \<Rightarrow> LocalGovernanceStore \<Rightarrow> LocalGovernanceStore" where
  "store_rate_opt orl gs = (case orl of None \<Rightarrow> gs | Some rl \<Rightarrow> store_rate rl gs)"

definition delete_budget :: "string option \<Rightarrow> LocalGovernanceStore \<Rightarrow> LocalGovernanceStore" where
  "delete_budget oid gs = (case oid of None \<Rightarrow> gs | Some i \<Rightarrow> gs\<lparr>gs_budgets := Delete i (gs_budgets gs)\<rparr>)"

definition delete_rate :: "string option \<Rightarrow> LocalGovernanceStore \<Rightarrow> LocalGovernanceStore" where
  "delete_rate oid gs = (case oid of None \<Rightarrow> gs | Some i \<Rightarrow> gs\<lparr>gs_rateLimits := Delete i (gs_rateLimits gs)\<rparr>)"

text \<open>An update keeps the usage and the start of the window the store holds for the same identifier.\<close>

definition keep_budget :: "LocalGovernanceStore \<Rightarrow> TableBudget \<Rightarrow> TableBudget" where
  "keep_budget gs b =
     (case Load (gs_budgets gs) (bud_ID b) of
        None \<Rightarrow> b
      | Some existing \<Rightarrow> b\<lparr>CurrentUsage := CurrentUsage existing, LastReset := LastReset existing\<rparr>)"

definition keep_rate :: "LocalGovernanceStore \<Rightarrow> TableRateLimit \<Rightarrow> TableRateLimit" where
  "keep_rate gs rl =
     (case Load (gs_rateLimits gs) (rl_ID rl) of
        None \<Rightarrow> rl
      | Some existing \<Rightarrow>
          rl\<lparr>TokenCurrentUsage := TokenCurrentUsage existing, RequestCurrentUsage := RequestCurrentUsage existing,
             TokenLastReset := TokenLastReset existing, RequestLastReset := RequestLastReset existing\<rparr>)"

text \<open>The new row of an update and what happens to the old one: stored, or deleted with the row
  that no longer has it.\<close>

definition replace_budget :: "TableBudget option \<Rightarrow> string option \<Rightarrow> LocalGovernanceStore \<Rightarrow> TableBudget option \<times> LocalGovernanceStore" where
  "replace_budget new old gs =
     (case new of
        Some b \<Rightarrow> (Some (keep_budget gs b), store_budget (keep_budget gs b) gs)
      | None \<Rightarrow> (None, delete_budget old gs))"

definition replace_rate :: "TableRateLimit option \<Rightarrow> string option \<Rightarrow> LocalGovernanceStore \<Rightarrow> TableRateLimit option \<times> LocalGovernanceStore" where
  "replace_rate new old gs =
     (case new of
        Some rl \<Rightarrow> (Some (keep_rate gs rl), store_rate (keep_rate gs rl) gs)
      | None \<Rightarrow> (None, delete_rate old gs))"

section \<open>Virtual keys\<close>

definition store_vk :: "TableVirtualKey \<Rightarrow> LocalGovernanceStore \<Rightarrow> LocalGovernanceStore" where
  "store_vk vk gs =
     gs\<lparr>gs_virtualKeys := Store (governanceVirtualKeyStoreKey (vk_TenantID vk) (vk_Value vk)) vk (gs_virtualKeys gs)\<rparr>"

definition CreateVirtualKeyInMemory :: "TableVirtualKey \<Rightarrow> LocalGovernanceStore \<Rightarrow> LocalGovernanceStore" where
  "CreateVirtualKeyInMemory vk gs =
     store_vk vk
       (fold (\<lambda>pc. store_rate_opt (pc_RateLimit pc) \<circ> store_budget_opt (pc_Budget pc)) (ProviderConfigs vk)
          (store_rate_opt (vk_RateLimit vk) (store_budget_opt (vk_Budget vk) gs)))"

text \<open>The provider configurations of an updated key, in order; \<open>existing\<close> gives the old ones by identifier.\<close>

fun update_configs :: "(int \<rightharpoonup> TableVirtualKeyProviderConfig) \<Rightarrow> TableVirtualKeyProviderConfig list \<Rightarrow> LocalGovernanceStore \<Rightarrow> TableVirtualKeyProviderConfig list \<times> LocalGovernanceStore" where
  "update_configs existing [] gs = ([], gs)"
| "update_configs existing (pc # pcs) gs =
     (let old = existing (pc_ID pc);
          (rl, gs1) = replace_rate (pc_RateLimit pc) (case old of None \<Rightarrow> None | Some o' \<Rightarrow> map_option rl_ID (pc_RateLimit o')) gs;
          (b, gs2) = replace_budget (pc_Budget pc) (case old of None \<Rightarrow> None | Some o' \<Rightarrow> map_option bud_ID (pc_Budget o')) gs1;
          (pcs', gs3) = update_configs existing pcs gs2 in
      (pc\<lparr>pc_RateLimit := rl, pc_Budget := b\<rparr> # pcs', gs3))"

definition UpdateVirtualKeyInMemory :: "TableVirtualKey \<Rightarrow> LocalGovernanceStore \<Rightarrow> LocalGovernanceStore" where
  "UpdateVirtualKeyInMemory vk gs =
     (case Load (gs_virtualKeys gs) (governanceVirtualKeyStoreKey (vk_TenantID vk) (vk_Value vk)) of
        None \<Rightarrow> CreateVirtualKeyInMemory vk gs
      | Some existingVK \<Rightarrow>
          (let (b, gs1) = replace_budget (vk_Budget vk) (map_option bud_ID (vk_Budget existingVK)) gs;
               (rl, gs2) = replace_rate (vk_RateLimit vk) (map_option rl_ID (vk_RateLimit existingVK)) gs1;
               (pcs, gs3) = update_configs (map_of (rev (map (\<lambda>pc. (pc_ID pc, pc)) (ProviderConfigs existingVK)))) (ProviderConfigs vk) gs2 in
           store_vk (vk\<lparr>vk_Budget := b, vk_RateLimit := rl, ProviderConfigs := pcs\<rparr>) gs3))"

definition DeleteVirtualKeyInMemory :: "string \<Rightarrow> LocalGovernanceStore \<Rightarrow> LocalGovernanceStore" where
  "DeleteVirtualKeyInMemory vkID gs =
     (if vkID = [] then gs
      else
        (case find (\<lambda>(key, vk). vk_ID vk = vkID) (gs_virtualKeys gs) of
           None \<Rightarrow> gs
         | Some (key, vk) \<Rightarrow>
             (let gs1 = fold (\<lambda>pc. delete_rate (pc_RateLimitID pc) \<circ> delete_budget (pc_BudgetID pc)) (ProviderConfigs vk)
                          (delete_rate (vk_RateLimitID vk) (delete_budget (vk_BudgetID vk) gs)) in
              gs1\<lparr>gs_virtualKeys := Delete key (gs_virtualKeys gs1)\<rparr>)))"

text \<open>The row the rotation endpoint writes (\<open>handlers/governance.go\<close>), for a fresh value and a grace
  period in nanoseconds; \<open>ReloadVirtualKey\<close> then passes the row to \<^const>\<open>UpdateVirtualKeyInMemory\<close>.\<close>

definition rotateVirtualKey :: "string \<Rightarrow> int \<Rightarrow> int \<Rightarrow> TableVirtualKey \<Rightarrow> TableVirtualKey" where
  "rotateVirtualKey newValue gracePeriod now vk =
     vk\<lparr>vk_PreviousValue := vk_Value vk,
        vk_PreviousValueExpiresAt := Some (if gracePeriod > 0 then now + gracePeriod else now),
        vk_Value := newValue\<rparr>"

section \<open>Teams, customers and users\<close>

definition CreateTeamInMemory :: "TableTeam \<Rightarrow> LocalGovernanceStore \<Rightarrow> LocalGovernanceStore" where
  "CreateTeamInMemory team gs =
     (let gs1 = store_rate_opt (team_RateLimit team) (store_budget_opt (team_Budget team) gs) in
      gs1\<lparr>gs_teams := Store (governanceTeamStoreKey (team_TenantID team) (team_ID team)) team (gs_teams gs1)\<rparr>)"

definition UpdateTeamInMemory :: "TableTeam \<Rightarrow> LocalGovernanceStore \<Rightarrow> LocalGovernanceStore" where
  "UpdateTeamInMemory team gs =
     (case Load (gs_teams gs) (governanceTeamStoreKey (team_TenantID team) (team_ID team)) of
        None \<Rightarrow> CreateTeamInMemory team gs
      | Some existingTeam \<Rightarrow>
          (let (b, gs1) = replace_budget (team_Budget team) (map_option bud_ID (team_Budget existingTeam)) gs;
               (rl, gs2) = replace_rate (team_RateLimit team) (map_option rl_ID (team_RateLimit existingTeam)) gs1 in
           gs2\<lparr>gs_teams := Store (governanceTeamStoreKey (team_TenantID team) (team_ID team))
                            (team\<lparr>team_Budget := b, team_RateLimit := rl\<rparr>) (gs_teams gs2)\<rparr>))"

definition DeleteTeamInMemory :: "string \<Rightarrow> LocalGovernanceStore \<Rightarrow> LocalGovernanceStore" where
  "DeleteTeamInMemory teamID gs =
     (if teamID = [] then gs
      else
        (let gs1 = (case find (\<lambda>(key, team). team_ID team = teamID) (gs_teams gs) of
                      None \<Rightarrow> gs
                    | Some (key, team) \<Rightarrow>
                        (let g = delete_rate (team_RateLimitID team) (delete_budget (team_BudgetID team) gs) in
                         g\<lparr>gs_teams := Delete key (gs_teams g)\<rparr>)) in
         gs1\<lparr>gs_virtualKeys := map_entries (\<lambda>vk.
               if vk_TeamID vk = Some teamID then vk\<lparr>vk_TeamID := None, vk_Team := None\<rparr> else vk) (gs_virtualKeys gs1)\<rparr>))"

definition CreateCustomerInMemory :: "TableCustomer \<Rightarrow> LocalGovernanceStore \<Rightarrow> LocalGovernanceStore" where
  "CreateCustomerInMemory customer gs =
     (let gs1 = store_rate_opt (cus_RateLimit customer) (store_budget_opt (cus_Budget customer) gs) in
      gs1\<lparr>gs_customers := Store (governanceCustomerStoreKey (cus_TenantID customer) (cus_ID customer)) customer (gs_customers gs1)\<rparr>)"

definition UpdateCustomerInMemory :: "TableCustomer \<Rightarrow> LocalGovernanceStore \<Rightarrow> LocalGovernanceStore" where
  "UpdateCustomerInMemory customer gs =
     (case Load (gs_customers gs) (governanceCustomerStoreKey (cus_TenantID customer) (cus_ID customer)) of
        None \<Rightarrow> CreateCustomerInMemory customer gs
      | Some existingCustomer \<Rightarrow>
          (let (b, gs1) = replace_budget (cus_Budget customer) (map_option bud_ID (cus_Budget existingCustomer)) gs;
               (rl, gs2) = replace_rate (cus_RateLimit customer) (map_option rl_ID (cus_RateLimit existingCustomer)) gs1 in
           gs2\<lparr>gs_customers := Store (governanceCustomerStoreKey (cus_TenantID customer) (cus_ID customer))
                            (customer\<lparr>cus_Budget := b, cus_RateLimit := rl\<rparr>) (gs_customers gs2)\<rparr>))"

definition drop_customer :: "string \<Rightarrow> TableTeam \<Rightarrow> TableTeam" where
  "drop_customer customerID team =
     (let t1 = (if team_CustomerID team = Some customerID then team\<lparr>team_CustomerID := None, team_Customer := None\<rparr> else team) in
      t1\<lparr>CustomerMembers := filter (\<lambda>member. cus_ID member \<noteq> customerID) (CustomerMembers t1)\<rparr>)"

definition DeleteCustomerInMemory :: "string \<Rightarrow> LocalGovernanceStore \<Rightarrow> LocalGovernanceStore" where
  "DeleteCustomerInMemory customerID gs =
     (if customerID = [] then gs
      else
        (let gs1 = (case find (\<lambda>(key, customer). cus_ID customer = customerID) (gs_customers gs) of
                      None \<Rightarrow> gs
                    | Some (key, customer) \<Rightarrow>
                        (let g = delete_rate (cus_RateLimitID customer) (delete_budget (cus_BudgetID customer) gs) in
                         g\<lparr>gs_customers := Delete key (gs_customers g)\<rparr>)) in
         gs1\<lparr>gs_virtualKeys := map_entries (\<lambda>vk.
               if vk_CustomerID vk = Some customerID then vk\<lparr>vk_CustomerID := None, vk_Customer := None\<rparr> else vk) (gs_virtualKeys gs1),
             gs_teams := map_entries (drop_customer customerID) (gs_teams gs1)\<rparr>))"

definition CreateUserGovernanceInMemory :: "string \<Rightarrow> TableBudget option \<Rightarrow> TableRateLimit option \<Rightarrow> LocalGovernanceStore \<Rightarrow> LocalGovernanceStore" where
  "CreateUserGovernanceInMemory userID budget rateLimit gs =
     (if userID = [] then gs
      else
        (let gs1 = store_rate_opt rateLimit (store_budget_opt budget gs) in
         gs1\<lparr>gs_users := Store userID
               \<lparr>ug_UserID = userID, ug_BudgetID = map_option bud_ID budget, ug_RateLimitID = map_option rl_ID rateLimit,
                ug_Budget = budget, ug_RateLimit = rateLimit\<rparr> (gs_users gs1)\<rparr>))"

definition UpdateUserGovernanceInMemory :: "string \<Rightarrow> TableBudget option \<Rightarrow> TableRateLimit option \<Rightarrow> LocalGovernanceStore \<Rightarrow> LocalGovernanceStore" where
  "UpdateUserGovernanceInMemory userID budget rateLimit gs =
     (if userID = [] then gs
      else
        (let existing = GetUserGovernance gs userID;
             (b, gs1) = replace_budget budget (case existing of None \<Rightarrow> None | Some ug \<Rightarrow> ug_BudgetID ug) gs;
             (rl, gs2) = replace_rate rateLimit (case existing of None \<Rightarrow> None | Some ug \<Rightarrow> ug_RateLimitID ug) gs1 in
         gs2\<lparr>gs_users := Store userID
               \<lparr>ug_UserID = userID, ug_BudgetID = map_option bud_ID b, ug_RateLimitID = map_option rl_ID rl,
                ug_Budget = b, ug_RateLimit = rl\<rparr> (gs_users gs2)\<rparr>))"

definition DeleteUserGovernanceInMemory :: "string \<Rightarrow> LocalGovernanceStore \<Rightarrow> LocalGovernanceStore" where
  "DeleteUserGovernanceInMemory userID gs =
     (if userID = [] then gs
      else
        (let gs1 = (case GetUserGovernance gs userID of
                      None \<Rightarrow> gs
                    | Some ug \<Rightarrow> delete_rate (ug_RateLimitID ug) (delete_budget (ug_BudgetID ug) gs)) in
         gs1\<lparr>gs_users := Delete userID (gs_users gs1)\<rparr>))"

section \<open>Model configurations and providers\<close>

text \<open>These two updates keep the usage but take the start of the window from the new row.\<close>

definition keep_budget_usage :: "LocalGovernanceStore \<Rightarrow> TableBudget \<Rightarrow> TableBudget" where
  "keep_budget_usage gs b =
     (case Load (gs_budgets gs) (bud_ID b) of
        None \<Rightarrow> b
      | Some existing \<Rightarrow> b\<lparr>CurrentUsage := CurrentUsage existing\<rparr>)"

definition keep_rate_usage :: "LocalGovernanceStore \<Rightarrow> TableRateLimit \<Rightarrow> TableRateLimit" where
  "keep_rate_usage gs rl =
     (case Load (gs_rateLimits gs) (rl_ID rl) of
        None \<Rightarrow> rl
      | Some existing \<Rightarrow>
          rl\<lparr>TokenCurrentUsage := TokenCurrentUsage existing, RequestCurrentUsage := RequestCurrentUsage existing\<rparr>)"

definition model_config_key :: "LocalGovernanceStore \<Rightarrow> TableModelConfig \<Rightarrow> string" where
  "model_config_key gs mc =
     (if mcfg_Provider mc \<noteq> None then governanceModelStoreKey (mcfg_TenantID mc) (mcfg_ModelName mc) (mcfg_Provider mc)
      else governanceModelStoreKey (mcfg_TenantID mc)
             (case gs_modelCatalog gs of
                None \<Rightarrow> mcfg_ModelName mc
              | Some cat \<Rightarrow> GetBaseModelName (gs_known gs) cat (mcfg_ModelName mc)) None)"

definition UpdateModelConfigInMemory :: "TableModelConfig \<Rightarrow> LocalGovernanceStore \<Rightarrow> TableModelConfig \<times> LocalGovernanceStore" where
  "UpdateModelConfigInMemory mc gs =
     (let b = map_option (keep_budget_usage gs) (mcfg_Budget mc);
          gs1 = store_budget_opt b gs;
          rl = map_option (keep_rate_usage gs1) (mcfg_RateLimit mc);
          gs2 = store_rate_opt rl gs1;
          clone = mc\<lparr>mcfg_Budget := b, mcfg_RateLimit := rl\<rparr> in
      (clone, gs2\<lparr>gs_modelConfigs := Store (model_config_key gs2 clone) clone (gs_modelConfigs gs2)\<rparr>))"

definition DeleteModelConfigInMemory :: "string \<Rightarrow> LocalGovernanceStore \<Rightarrow> LocalGovernanceStore" where
  "DeleteModelConfigInMemory mcID gs =
     (if mcID = [] then gs
      else
        (case find (\<lambda>(key, mc). mcfg_ID mc = mcID) (gs_modelConfigs gs) of
           None \<Rightarrow> gs
         | Some (key, mc) \<Rightarrow>
             (let g = delete_rate (mcfg_RateLimitID mc) (delete_budget (mcfg_BudgetID mc) gs) in
              g\<lparr>gs_modelConfigs := Delete key (gs_modelConfigs g)\<rparr>)))"

definition UpdateProviderInMemory :: "TableProvider \<Rightarrow> LocalGovernanceStore \<Rightarrow> TableProvider \<times> LocalGovernanceStore" where
  "UpdateProviderInMemory provider gs =
     (let b = map_option (keep_budget_usage gs) (prov_Budget provider);
          gs1 = store_budget_opt b gs;
          rl = map_option (keep_rate_usage gs1) (prov_RateLimit provider);
          gs2 = store_rate_opt rl gs1;
          clone = provider\<lparr>prov_Budget := b, prov_RateLimit := rl\<rparr> in
      (clone, gs2\<lparr>gs_providers := Store (governanceProviderStoreKey (prov_TenantID clone) (prov_Name clone)) clone (gs_providers gs2)\<rparr>))"

definition DeleteProviderInMemory :: "string \<Rightarrow> LocalGovernanceStore \<Rightarrow> LocalGovernanceStore" where
  "DeleteProviderInMemory providerName gs =
     (if providerName = [] then gs
      else
        (case find (\<lambda>(key, p). prov_Name p = providerName) (gs_providers gs) of
           None \<Rightarrow> gs
         | Some (key, p) \<Rightarrow>
             (let g = delete_rate (prov_RateLimitID p) (delete_budget (prov_BudgetID p) gs) in
              g\<lparr>gs_providers := Delete key (gs_providers g)\<rparr>)))"

end
