(* ===== verification/GovRouting.thy ===== *)
theory GovRouting
  imports GovCrud
begin

text \<open>
  Routing rules (\<open>plugins/governance/routing.go\<close> and the routing part of \<open>store.go\<close>): their place in
  the store, the cache of compiled programs, the scope chain of a request, the weighted choice of a
  target and the evaluation in scope and priority order.

  CEL is a library: whether an expression compiles and what a program evaluates to on a set of
  variables are the arguments \<open>compiles\<close> and \<open>eval\<close>.  \<open>sort.Slice\<close> leaves the order of equal elements
  open; the model keeps them in place.  The two random numbers a choice may draw are arguments.
\<close>

section \<open>Expressions\<close>

text \<open>
  \<open>normalizeMapKeysInCEL\<close> lowers the whole match of four patterns.  A pattern is a function that, at a
  position of the expression, gives the length of the match that starts there; the leftmost matches
  that do not overlap are replaced, as \<open>ReplaceAllStringFunc\<close> does.
\<close>

definition is_quote :: "byte \<Rightarrow> bool" where
  "is_quote c \<longleftrightarrow> c = CHR 0x22 \<or> c = CHR 0x27"

text \<open>The length of \<open>["']([^"']+)["']\<close> at the start of a string.\<close>

definition quoted_len :: "string \<Rightarrow> nat option" where
  "quoted_len s =
     (case s of
        [] \<Rightarrow> None
      | c # cs \<Rightarrow>
          (let key = takeWhile (\<lambda>x. \<not> is_quote x) cs in
           if is_quote c \<and> key \<noteq> [] \<and> length key < length cs then Some (length key + 2) else None))"

text \<open>\<open>headers\[["']([^"']+)["']\]\<close> and its counterpart for \<open>params\<close>.\<close>

definition key_pattern :: "string \<Rightarrow> string \<Rightarrow> nat option" where
  "key_pattern name s =
     (let pre = name @ ''['' in
      if HasPrefix s pre then
        (case quoted_len (drop (length pre) s) of
           None \<Rightarrow> None
         | Some n \<Rightarrow> if HasPrefix (drop (length pre + n) s) '']'' then Some (length pre + n + 1) else None)
      else None)"

text \<open>\<open>["']([^"']+)["']\s+in\s+headers\<close> and its counterpart; \<open>\s\<close> is one of five bytes.\<close>

definition in_pattern :: "string \<Rightarrow> string \<Rightarrow> nat option" where
  "in_pattern name s =
     (case quoted_len s of
        None \<Rightarrow> None
      | Some n \<Rightarrow>
          (let r1 = drop n s; w1 = length (takeWhile re_space r1);
               r2 = drop w1 r1; r3 = drop 2 r2; w2 = length (takeWhile re_space r3) in
           if w1 > 0 \<and> HasPrefix r2 ''in'' \<and> w2 > 0 \<and> HasPrefix (drop w2 r3) name
           then Some (n + w1 + 2 + w2 + length name) else None))"

function replace_lower :: "(string \<Rightarrow> nat option) \<Rightarrow> string \<Rightarrow> string" where
  "replace_lower pat [] = []"
| "replace_lower pat (c # cs) =
     (case pat (c # cs) of
        Some (Suc n) \<Rightarrow> ToLower (take (Suc n) (c # cs)) @ replace_lower pat (drop n cs)
      | _ \<Rightarrow> c # replace_lower pat cs)"
  by pat_completeness auto
termination
  by (relation "measure (length \<circ> snd)") auto

definition normalizeMapKeysInCEL :: "string \<Rightarrow> string" where
  "normalizeMapKeysInCEL expr =
     replace_lower (in_pattern ''params'') (replace_lower (in_pattern ''headers'')
       (replace_lower (key_pattern ''params'') (replace_lower (key_pattern ''headers'') expr)))"

definition validPatterns :: "string list" where
  "validPatterns = [''=='', ''!='', ''&&'', ''||'', ''>'', ''<'', ''>='', ''<='', ''in '', ''matches '',
     ''.startsWith('', ''.contains('', ''.endsWith('', ''['', '']'', ''('', '')'', ''!'']"

definition validateCELExpression :: "string \<Rightarrow> bool" where
  "validateCELExpression expr \<longleftrightarrow>
     expr = [] \<or> expr = ''true'' \<or> expr = ''false'' \<or> list_ex (\<lambda>pattern. sublist pattern expr) validPatterns"

section \<open>Rules in the store\<close>

datatype RoutingError = InvalidExpression | CompileError | EvalError | NotBoolean

definition rule_expression :: "TableRoutingRule \<Rightarrow> string" where
  "rule_expression rule = normalizeMapKeysInCEL (if CelExpression rule = [] then ''true'' else CelExpression rule)"

definition GetRoutingProgram :: "(string \<Rightarrow> bool) \<Rightarrow> TableRoutingRule \<Rightarrow> LocalGovernanceStore \<Rightarrow> (RoutingError + string) \<times> LocalGovernanceStore" where
  "GetRoutingProgram compiles rule gs =
     (case Load (compiledRoutingPrograms gs) (rule_ID rule) of
        Some prog \<Rightarrow> (Inr prog, gs)
      | None \<Rightarrow>
          (let expr = rule_expression rule in
           if \<not> validateCELExpression expr then (Inl InvalidExpression, gs)
           else if \<not> compiles expr then (Inl CompileError, gs)
           else (Inr expr, gs\<lparr>compiledRoutingPrograms := Store (rule_ID rule) expr (compiledRoutingPrograms gs)\<rparr>)))"

definition HasRoutingRules :: "LocalGovernanceStore \<Rightarrow> string \<Rightarrow> bool" where
  "HasRoutingRules gs tenantID \<longleftrightarrow>
     list_ex (\<lambda>(key, rules). list_ex (\<lambda>rule. governanceMatchesTenant tenantID (rule_TenantID rule)) rules) (gs_routingRules gs)"

definition GetAllRoutingRules :: "LocalGovernanceStore \<Rightarrow> TableRoutingRule list" where
  "GetAllRoutingRules gs =
     sort_key Priority (sort_key (\<lambda>rule. - rule_CreatedAt rule) (concat (map snd (gs_routingRules gs))))"

definition GetScopedRoutingRules :: "LocalGovernanceStore \<Rightarrow> string \<Rightarrow> string \<Rightarrow> string \<Rightarrow> TableRoutingRule list" where
  "GetScopedRoutingRules gs tenantID scope scopeID =
     (case Load (gs_routingRules gs) (governanceRoutingScopeStoreKey tenantID scope scopeID) of
        None \<Rightarrow> []
      | Some rules \<Rightarrow> filter rule_Enabled rules)"

definition rule_key :: "TableRoutingRule \<Rightarrow> string" where
  "rule_key rule = governanceRoutingScopeStoreKey (rule_TenantID rule) (rule_Scope rule)
     (case rule_ScopeID rule of None \<Rightarrow> [] | Some i \<Rightarrow> i)"

text \<open>An entry that loses its last rule is deleted.\<close>

definition drop_rules :: "(TableRoutingRule \<Rightarrow> bool) \<Rightarrow> TableRoutingRule list smap \<Rightarrow> TableRoutingRule list smap" where
  "drop_rules gone m =
     concat (map (\<lambda>(key, rules).
       (let rules' = filter (\<lambda>r. \<not> gone r) rules in
        if length rules' = length rules then [(key, rules)] else if rules' = [] then [] else [(key, rules')])) m)"

definition UpdateRoutingRuleInMemory :: "(string \<Rightarrow> bool) \<Rightarrow> TableRoutingRule \<Rightarrow> LocalGovernanceStore \<Rightarrow> LocalGovernanceStore" where
  "UpdateRoutingRuleInMemory compiles rule gs =
     (let m = drop_rules (\<lambda>r. rule_ID r = rule_ID rule \<and> rule_TenantID r = rule_TenantID rule) (gs_routingRules gs);
          rules = (case Load m (rule_key rule) of None \<Rightarrow> [] | Some existing \<Rightarrow> existing);
          gs1 = gs\<lparr>gs_routingRules := Store (rule_key rule) (sort_key Priority (rules @ [rule])) m,
                   compiledRoutingPrograms := Delete (rule_ID rule) (compiledRoutingPrograms gs)\<rparr> in
      snd (GetRoutingProgram compiles rule gs1))"

text \<open>Deleting a rule also deletes an entry that was empty before.\<close>

definition DeleteRoutingRuleInMemory :: "string \<Rightarrow> LocalGovernanceStore \<Rightarrow> LocalGovernanceStore" where
  "DeleteRoutingRuleInMemory i gs =
     gs\<lparr>gs_routingRules := filter (\<lambda>(key, rules). rules \<noteq> [])
          (map (\<lambda>(key, rules). (key, filter (\<lambda>r. rule_ID r \<noteq> i) rules)) (gs_routingRules gs)),
        compiledRoutingPrograms := Delete i (compiledRoutingPrograms gs)\<rparr>"

section \<open>Capacity of a provider and a model\<close>

record BudgetAndRateLimitStatus =
  BudgetPercentUsed :: rat
  RateLimitTokenPercentUsed :: rat
  RateLimitRequestPercentUsed :: rat

definition percent :: "rat \<Rightarrow> rat \<Rightarrow> rat" where
  "percent used limit = f_mul (f_div used limit) 100"

definition raise_rate :: "int baselines \<Rightarrow> int baselines \<Rightarrow> TableRateLimit option \<Rightarrow> BudgetAndRateLimitStatus \<Rightarrow> BudgetAndRateLimitStatus" where
  "raise_rate tokenBaselines requestBaselines orl st =
     (case orl of
        None \<Rightarrow> st
      | Some rl \<Rightarrow>
          (let of_limit = (\<lambda>limit used. case limit of
                 Some m \<Rightarrow> if m > 0 then percent (fl (of_int used)) (fl (of_int m)) else 0
               | None \<Rightarrow> 0) in
           st\<lparr>RateLimitTokenPercentUsed := max (RateLimitTokenPercentUsed st) (of_limit (TokenMaxLimit rl) (token_usage tokenBaselines rl)),
              RateLimitRequestPercentUsed := max (RateLimitRequestPercentUsed st) (of_limit (RequestMaxLimit rl) (request_usage requestBaselines rl))\<rparr>))"

definition raise_budget :: "rat baselines \<Rightarrow> TableBudget option \<Rightarrow> BudgetAndRateLimitStatus \<Rightarrow> BudgetAndRateLimitStatus" where
  "raise_budget budgetBaselines ob st =
     (case ob of
        None \<Rightarrow> st
      | Some b \<Rightarrow>
          if MaxLimit b > 0 then
            st\<lparr>BudgetPercentUsed := max (BudgetPercentUsed st)
                 (percent (f_add (CurrentUsage b) (baseline budgetBaselines (bud_ID b))) (MaxLimit b))\<rparr>
          else st)"

text \<open>The rate limit and the budget of each level the status looks at.  The provider configuration of
  the key is the first one of the provider, and its rate limit is looked up by the embedded copy.\<close>

definition status_levels :: "LocalGovernanceStore \<Rightarrow> string \<Rightarrow> string \<Rightarrow> string \<Rightarrow> TableVirtualKey option \<Rightarrow> (TableRateLimit option \<times> TableBudget option) list" where
  "status_levels gs tenantID model provider ovk =
     (let level = (\<lambda>rid bid. (by_id (gs_rateLimits gs) rid, by_id (gs_budgets gs) bid)) in
      (if model \<noteq> [] then map (\<lambda>(mc, name). level (mcfg_RateLimitID mc) (mcfg_BudgetID mc)) (model_configs gs tenantID model provider) else []) @
      (case getProviderByContext gs tenantID provider of None \<Rightarrow> [] | Some p \<Rightarrow> [level (prov_RateLimitID p) (prov_BudgetID p)]) @
      (case ovk of
         None \<Rightarrow> []
       | Some vk \<Rightarrow>
           (case find (\<lambda>pc. pc_Provider pc = provider) (ProviderConfigs vk) of
              None \<Rightarrow> []
            | Some pc \<Rightarrow> [level (map_option rl_ID (pc_RateLimit pc)) (pc_BudgetID pc)])))"

definition GetBudgetAndRateLimitStatus :: "LocalGovernanceStore \<Rightarrow> string \<Rightarrow> string \<Rightarrow> string \<Rightarrow> TableVirtualKey option \<Rightarrow> rat baselines \<Rightarrow> int baselines \<Rightarrow> int baselines \<Rightarrow> BudgetAndRateLimitStatus" where
  "GetBudgetAndRateLimitStatus gs tenantID model provider ovk budgetBaselines tokenBaselines requestBaselines =
     fold (\<lambda>(orl, ob) st. raise_budget budgetBaselines ob (raise_rate tokenBaselines requestBaselines orl st))
       (status_levels gs tenantID model provider ovk)
       \<lparr>BudgetPercentUsed = 0, RateLimitTokenPercentUsed = 0, RateLimitRequestPercentUsed = 0\<rparr>"

section \<open>Evaluation\<close>

record ScopeLevel =
  ScopeName :: string
  scope_ScopeID :: string

record RoutingDecision =
  rd_Provider :: string
  rd_Model :: string
  rd_KeyID :: string
  rd_Fallbacks :: "string list"
  MatchedRuleID :: string
  MatchedRuleName :: string

record RoutingContext =
  rc_VirtualKey :: "TableVirtualKey option"
  rc_Provider :: string
  rc_Model :: string
  rc_RequestType :: string
  rc_Headers :: "string smap"
  rc_QueryParams :: "string smap"
  rc_Status :: "BudgetAndRateLimitStatus option"

definition buildScopeChain :: "TableVirtualKey option \<Rightarrow> ScopeLevel list" where
  "buildScopeChain virtualKey =
     (case virtualKey of
        None \<Rightarrow> []
      | Some vk \<Rightarrow>
          \<lparr>ScopeName = ''virtual_key'', scope_ScopeID = vk_ID vk\<rparr> #
          (case vk_Team vk of
             Some team \<Rightarrow>
               \<lparr>ScopeName = ''team'', scope_ScopeID = team_ID team\<rparr> #
               (case team_Customer team of
                  None \<Rightarrow> []
                | Some c \<Rightarrow> [\<lparr>ScopeName = ''customer'', scope_ScopeID = cus_ID c\<rparr>])
           | None \<Rightarrow>
               (case vk_Customer vk of
                  None \<Rightarrow> []
                | Some c \<Rightarrow> [\<lparr>ScopeName = ''customer'', scope_ScopeID = cus_ID c\<rparr>]))) @
     [\<lparr>ScopeName = ''global'', scope_ScopeID = []\<rparr>]"

text \<open>The variables of an expression.  Keys that differ only in case collapse to one.\<close>

record RoutingVariables =
  var_model :: string
  var_provider :: string
  var_request_type :: string
  var_headers :: "string smap"
  var_params :: "string smap"
  var_virtual_key_id :: string
  var_virtual_key_name :: string
  var_team_id :: string
  var_team_name :: string
  var_customer_id :: string
  var_customer_name :: string
  var_budget_used :: rat
  var_tokens_used :: rat
  var_request :: rat

definition lower_keys :: "string smap \<Rightarrow> string smap" where
  "lower_keys m = fold (\<lambda>(k, v). Store (ToLower k) v) m []"

definition routing_customer :: "TableVirtualKey option \<Rightarrow> TableCustomer option" where
  "routing_customer ovk =
     (case ovk of
        None \<Rightarrow> None
      | Some vk \<Rightarrow>
          (case vk_Team vk of
             None \<Rightarrow> vk_Customer vk
           | Some t \<Rightarrow> (case team_Customer t of Some c \<Rightarrow> Some c | None \<Rightarrow> vk_Customer vk)))"

definition extractRoutingVariables :: "RoutingContext \<Rightarrow> RoutingVariables" where
  "extractRoutingVariables rc =
     (let ovk = rc_VirtualKey rc;
          team = (case ovk of None \<Rightarrow> None | Some vk \<Rightarrow> vk_Team vk);
          str = (\<lambda>f ox. case ox of None \<Rightarrow> [] | Some x \<Rightarrow> f x) in
      \<lparr>var_model = rc_Model rc, var_provider = rc_Provider rc, var_request_type = rc_RequestType rc,
       var_headers = lower_keys (rc_Headers rc), var_params = lower_keys (rc_QueryParams rc),
       var_virtual_key_id = (case ovk of None \<Rightarrow> [] | Some vk \<Rightarrow> vk_ID vk),
       var_virtual_key_name = (case ovk of None \<Rightarrow> [] | Some vk \<Rightarrow> vk_Name vk),
       var_team_id = (case team of None \<Rightarrow> [] | Some t \<Rightarrow> team_ID t),
       var_team_name = (case team of None \<Rightarrow> [] | Some t \<Rightarrow> team_Name t),
       var_customer_id = str cus_ID (routing_customer ovk),
       var_customer_name = str cus_Name (routing_customer ovk),
       var_budget_used = (case rc_Status rc of None \<Rightarrow> 0 | Some st \<Rightarrow> BudgetPercentUsed st),
       var_tokens_used = (case rc_Status rc of None \<Rightarrow> 0 | Some st \<Rightarrow> RateLimitTokenPercentUsed st),
       var_request = (case rc_Status rc of None \<Rightarrow> 0 | Some st \<Rightarrow> RateLimitRequestPercentUsed st)\<rparr>)"

text \<open>The result of \<open>program.Eval\<close>: an error text, a boolean, or a value of another type.\<close>

datatype EvalResult = EvalFailed string | EvalBool bool | EvalOther

type_synonym cel_eval = "string \<Rightarrow> RoutingVariables \<Rightarrow> EvalResult"

definition evaluateCELExpression :: "cel_eval \<Rightarrow> string \<Rightarrow> RoutingVariables \<Rightarrow> RoutingError + bool" where
  "evaluateCELExpression eval program variables =
     (case eval program variables of
        EvalFailed e \<Rightarrow> if sublist ''no such key'' e then Inr False else Inl EvalError
      | EvalBool b \<Rightarrow> Inr b
      | EvalOther \<Rightarrow> Inl NotBoolean)"

fun pick_target :: "rat \<Rightarrow> rat \<Rightarrow> TableRoutingTarget list \<Rightarrow> TableRoutingTarget option" where
  "pick_target r cumulative [] = None"
| "pick_target r cumulative (t # ts) =
     (let cumulative' = f_add cumulative (rt_Weight t) in
      if r < cumulative' then Some t else pick_target r cumulative' ts)"

text \<open>\<open>u\<close> is \<open>rand.Float64()\<close> and \<open>pick n\<close> is \<open>rand.IntN(n)\<close>.\<close>

definition selectWeightedTarget :: "rat \<Rightarrow> (nat \<Rightarrow> nat) \<Rightarrow> TableRoutingTarget list \<Rightarrow> TableRoutingTarget option" where
  "selectWeightedTarget u pick targets =
     (let valid = filter (\<lambda>t. rt_Weight t \<ge> 0) targets;
          tot = fold (\<lambda>t acc. f_add acc (rt_Weight t)) valid 0 in
      if valid = [] then None
      else if tot = 0 then Some (valid ! pick (length valid))
      else if length valid = 1 then Some (hd valid)
      else (case pick_target (f_mul u tot) 0 valid of Some t \<Rightarrow> Some t | None \<Rightarrow> Some (last valid)))"

definition routing_decision :: "RoutingContext \<Rightarrow> TableRoutingRule \<Rightarrow> TableRoutingTarget \<Rightarrow> RoutingDecision" where
  "routing_decision rc rule target =
     \<lparr>rd_Provider = (case rt_Provider target of Some p \<Rightarrow> if p \<noteq> [] then p else rc_Provider rc | None \<Rightarrow> rc_Provider rc),
      rd_Model = (case rt_Model target of Some m \<Rightarrow> if m \<noteq> [] then m else rc_Model rc | None \<Rightarrow> rc_Model rc),
      rd_KeyID = (case rt_KeyID target of Some k \<Rightarrow> k | None \<Rightarrow> []),
      rd_Fallbacks = ParsedFallbacks rule, MatchedRuleID = rule_ID rule, MatchedRuleName = rule_Name rule\<rparr>"

record RoutingEnv =
  env_compiles :: "string \<Rightarrow> bool"
  env_eval :: cel_eval
  env_rand :: rat
  env_pick :: "nat \<Rightarrow> nat"

fun evaluate_rules :: "RoutingEnv \<Rightarrow> RoutingContext \<Rightarrow> TableRoutingRule list \<Rightarrow> LocalGovernanceStore \<Rightarrow> RoutingDecision option \<times> LocalGovernanceStore" where
  "evaluate_rules env rc [] gs = (None, gs)"
| "evaluate_rules env rc (rule # rules) gs =
     (case GetRoutingProgram (env_compiles env) rule gs of
        (Inl e, gs1) \<Rightarrow> evaluate_rules env rc rules gs1
      | (Inr program, gs1) \<Rightarrow>
          (case evaluateCELExpression (env_eval env) program (extractRoutingVariables rc) of
             Inl e \<Rightarrow> evaluate_rules env rc rules gs1
           | Inr matched \<Rightarrow>
               if \<not> matched then evaluate_rules env rc rules gs1
               else
                 (case selectWeightedTarget (env_rand env) (env_pick env) (Targets rule) of
                    None \<Rightarrow> evaluate_rules env rc rules gs1
                  | Some target \<Rightarrow> (Some (routing_decision rc rule target), gs1))))"

fun evaluate_scopes :: "RoutingEnv \<Rightarrow> string \<Rightarrow> RoutingContext \<Rightarrow> ScopeLevel list \<Rightarrow> LocalGovernanceStore \<Rightarrow> RoutingDecision option \<times> LocalGovernanceStore" where
  "evaluate_scopes env tenantID rc [] gs = (None, gs)"
| "evaluate_scopes env tenantID rc (scope # scopes) gs =
     (case evaluate_rules env rc (GetScopedRoutingRules gs tenantID (ScopeName scope) (scope_ScopeID scope)) gs of
        (Some d, gs1) \<Rightarrow> (Some d, gs1)
      | (None, gs1) \<Rightarrow> evaluate_scopes env tenantID rc scopes gs1)"

definition EvaluateRoutingRules :: "RoutingEnv \<Rightarrow> string \<Rightarrow> RoutingContext \<Rightarrow> LocalGovernanceStore \<Rightarrow> RoutingDecision option \<times> LocalGovernanceStore" where
  "EvaluateRoutingRules env tenantID rc gs = evaluate_scopes env tenantID rc (buildScopeChain (rc_VirtualKey rc)) gs"

end
