(* ===== verification/GovLoad.thy ===== *)
theory GovLoad
  imports GovRouting
begin

text \<open>
  Building the in-memory governance store from the database or from the configuration file, and the
  snapshot the administration API reads (\<open>NewLocalGovernanceStore\<close>, \<open>loadFromDatabase\<close>,
  \<open>loadFromConfigMemory\<close>, \<open>rebuildInMemoryStructures\<close>, \<open>GetGovernanceData\<close> of
  \<open>plugins/governance/store.go\<close>).
\<close>

section \<open>Rows to load\<close>

record GovernanceConfig =
  cfg_Customers :: "TableCustomer list"
  cfg_Teams :: "TableTeam list"
  cfg_VirtualKeys :: "TableVirtualKey list"
  cfg_Budgets :: "TableBudget list"
  cfg_RateLimits :: "TableRateLimit list"
  cfg_ModelConfigs :: "TableModelConfig list"
  cfg_Providers :: "TableProvider list"
  cfg_RoutingRules :: "TableRoutingRule list"

definition store_all :: "('v \<Rightarrow> string) \<Rightarrow> 'v list \<Rightarrow> 'v smap" where
  "store_all key rows = fold (\<lambda>r. Store (key r) r) rows []"

definition group_rules :: "TableRoutingRule list \<Rightarrow> TableRoutingRule list smap" where
  "group_rules rules =
     map_entries (sort_key Priority)
       (fold (\<lambda>rule m. Store (rule_key rule) ((case Load m (rule_key rule) of None \<Rightarrow> [] | Some rs \<Rightarrow> rs) @ [rule]) m) rules [])"

definition precompile :: "(string \<Rightarrow> bool) \<Rightarrow> LocalGovernanceStore \<Rightarrow> LocalGovernanceStore" where
  "precompile compiles gs =
     fold (\<lambda>rule g. snd (GetRoutingProgram compiles rule g)) (concat (map snd (gs_routingRules gs))) gs"

definition rebuildInMemoryStructures :: "(string \<Rightarrow> bool) \<Rightarrow> GovernanceConfig \<Rightarrow> LocalGovernanceStore \<Rightarrow> LocalGovernanceStore" where
  "rebuildInMemoryStructures compiles cfg gs =
     (let gs1 = gs\<lparr>
            gs_users := [],
            gs_customers := store_all (\<lambda>c. governanceCustomerStoreKey (cus_TenantID c) (cus_ID c)) (cfg_Customers cfg),
            gs_teams := store_all (\<lambda>t. governanceTeamStoreKey (team_TenantID t) (team_ID t)) (cfg_Teams cfg),
            gs_budgets := store_all bud_ID (cfg_Budgets cfg),
            gs_rateLimits := store_all rl_ID (cfg_RateLimits cfg),
            gs_virtualKeys := store_all (\<lambda>vk. governanceVirtualKeyStoreKey (vk_TenantID vk) (vk_Value vk)) (cfg_VirtualKeys cfg),
            gs_modelConfigs := store_all (model_config_key gs) (cfg_ModelConfigs cfg),
            gs_providers := store_all (\<lambda>p. governanceProviderStoreKey (prov_TenantID p) (prov_Name p)) (cfg_Providers cfg),
            gs_routingRules := group_rules (cfg_RoutingRules cfg)\<rparr> in
      (precompile compiles gs1)\<lparr>
        LastDBUsagesBudgets := fold (\<lambda>b. Store (bud_ID b) (CurrentUsage b)) (cfg_Budgets cfg) [],
        LastDBUsagesRequestsRateLimits := fold (\<lambda>rl. Store (rl_ID rl) (RequestCurrentUsage rl)) (cfg_RateLimits cfg) [],
        LastDBUsagesTokensRateLimits := fold (\<lambda>rl. Store (rl_ID rl) (TokenCurrentUsage rl)) (cfg_RateLimits cfg) []\<rparr>)"

text \<open>The eight reads of \<open>loadFromDatabase\<close>, each with its possible error; the first error ends the load.\<close>

record DBReads =
  dbr_customers :: "string + TableCustomer list"
  dbr_teams :: "string + TableTeam list"
  dbr_virtualKeys :: "string + TableVirtualKey list"
  dbr_budgets :: "string + TableBudget list"
  dbr_rateLimits :: "string + TableRateLimit list"
  dbr_modelConfigs :: "string + TableModelConfig list"
  dbr_providers :: "string + TableProvider list"
  dbr_routingRules :: "string + TableRoutingRule list"

definition bind_sum :: "'e + 'a \<Rightarrow> ('a \<Rightarrow> 'e + 'b) \<Rightarrow> 'e + 'b" where
  "bind_sum x f = (case x of Inl e \<Rightarrow> Inl e | Inr y \<Rightarrow> f y)"

definition loadFromDatabase :: "(string \<Rightarrow> bool) \<Rightarrow> DBReads \<Rightarrow> LocalGovernanceStore \<Rightarrow> string + LocalGovernanceStore" where
  "loadFromDatabase compiles reads gs =
     bind_sum (dbr_customers reads) (\<lambda>customers.
     bind_sum (dbr_teams reads) (\<lambda>teams.
     bind_sum (dbr_virtualKeys reads) (\<lambda>virtualKeys.
     bind_sum (dbr_budgets reads) (\<lambda>budgets.
     bind_sum (dbr_rateLimits reads) (\<lambda>rateLimits.
     bind_sum (dbr_modelConfigs reads) (\<lambda>modelConfigs.
     bind_sum (dbr_providers reads) (\<lambda>providers.
     bind_sum (dbr_routingRules reads) (\<lambda>routingRules.
       Inr (rebuildInMemoryStructures compiles
         \<lparr>cfg_Customers = customers, cfg_Teams = teams, cfg_VirtualKeys = virtualKeys, cfg_Budgets = budgets,
          cfg_RateLimits = rateLimits, cfg_ModelConfigs = modelConfigs, cfg_Providers = providers,
          cfg_RoutingRules = routingRules\<rparr> gs)))))))))"

text \<open>Linking the rows of the configuration file: model configurations, providers and provider
  configurations take the first row with the identifier, virtual keys the last one.\<close>

definition first_row :: "('v \<Rightarrow> string) \<Rightarrow> 'v list \<Rightarrow> string option \<Rightarrow> 'v option \<Rightarrow> 'v option" where
  "first_row idf rows oid old =
     (case oid of
        None \<Rightarrow> old
      | Some i \<Rightarrow> (case find (\<lambda>r. idf r = i) rows of None \<Rightarrow> old | Some r \<Rightarrow> Some r))"

definition last_row :: "('v \<Rightarrow> string) \<Rightarrow> 'v list \<Rightarrow> string option \<Rightarrow> 'v option \<Rightarrow> 'v option" where
  "last_row idf rows = first_row idf (rev rows)"

definition link_config :: "GovernanceConfig \<Rightarrow> GovernanceConfig" where
  "link_config cfg =
     (let bs = cfg_Budgets cfg; rls = cfg_RateLimits cfg in
      cfg\<lparr>
        cfg_ModelConfigs := map (\<lambda>mc. mc\<lparr>
          mcfg_Budget := first_row bud_ID bs (mcfg_BudgetID mc) (mcfg_Budget mc),
          mcfg_RateLimit := first_row rl_ID rls (mcfg_RateLimitID mc) (mcfg_RateLimit mc)\<rparr>) (cfg_ModelConfigs cfg),
        cfg_Providers := map (\<lambda>p. p\<lparr>
          prov_Budget := first_row bud_ID bs (prov_BudgetID p) (prov_Budget p),
          prov_RateLimit := first_row rl_ID rls (prov_RateLimitID p) (prov_RateLimit p)\<rparr>) (cfg_Providers cfg),
        cfg_VirtualKeys := map (\<lambda>vk. vk\<lparr>
          vk_Team := last_row team_ID (cfg_Teams cfg) (vk_TeamID vk) (vk_Team vk),
          vk_Customer := last_row cus_ID (cfg_Customers cfg) (vk_CustomerID vk) (vk_Customer vk),
          vk_Budget := last_row bud_ID bs (vk_BudgetID vk) (vk_Budget vk),
          vk_RateLimit := last_row rl_ID rls (vk_RateLimitID vk) (vk_RateLimit vk),
          ProviderConfigs := map (\<lambda>pc. pc\<lparr>
            pc_Budget := first_row bud_ID bs (pc_BudgetID pc) (pc_Budget pc),
            pc_RateLimit := first_row rl_ID rls (pc_RateLimitID pc) (pc_RateLimit pc)\<rparr>) (ProviderConfigs vk)\<rparr>) (cfg_VirtualKeys cfg)\<rparr>)"

definition loadFromConfigMemory :: "(string \<Rightarrow> bool) \<Rightarrow> GovernanceConfig option \<Rightarrow> LocalGovernanceStore \<Rightarrow> string + LocalGovernanceStore" where
  "loadFromConfigMemory compiles config gs =
     (case config of
        None \<Rightarrow> Inl ''governance config is nil''
      | Some cfg \<Rightarrow> Inr (rebuildInMemoryStructures compiles (link_config cfg) gs))"

definition empty_store :: "bool \<Rightarrow> ModelCatalog option \<Rightarrow> string list \<Rightarrow> LocalGovernanceStore" where
  "empty_store configStore modelCatalog known =
     \<lparr>gs_virtualKeys = [], gs_teams = [], gs_customers = [], gs_budgets = [], gs_rateLimits = [], gs_modelConfigs = [],
      gs_providers = [], gs_routingRules = [], gs_users = [], LastDBUsagesBudgets = [], LastDBUsagesRequestsRateLimits = [],
      LastDBUsagesTokensRateLimits = [], compiledRoutingPrograms = [], gs_configStore = configStore,
      gs_modelCatalog = modelCatalog, gs_known = known\<rparr>"

text \<open>A store with a database loads from it, one without from the configuration file.\<close>

definition NewLocalGovernanceStore :: "(string \<Rightarrow> bool) \<Rightarrow> DBReads option \<Rightarrow> GovernanceConfig option \<Rightarrow> ModelCatalog option \<Rightarrow> string list \<Rightarrow> string + LocalGovernanceStore" where
  "NewLocalGovernanceStore compiles configStore config modelCatalog known =
     (case configStore of
        Some reads \<Rightarrow> loadFromDatabase compiles reads (empty_store True modelCatalog known)
      | None \<Rightarrow> loadFromConfigMemory compiles config (empty_store False modelCatalog known))"

section \<open>The snapshot of the administration API\<close>

record GovernanceData =
  gd_VirtualKeys :: "TableVirtualKey smap"
  gd_Teams :: "TableTeam smap"
  gd_Customers :: "TableCustomer smap"
  gd_Users :: "UserGovernance smap"
  gd_Budgets :: "TableBudget smap"
  gd_RateLimits :: "TableRateLimit smap"
  gd_RoutingRules :: "TableRoutingRule smap"
  gd_ModelConfigs :: "TableModelConfig list"
  gd_Providers :: "TableProvider list"

text \<open>The copy the store holds now, or the embedded one when the store holds none.\<close>

definition live_budget :: "LocalGovernanceStore \<Rightarrow> string option \<Rightarrow> TableBudget option \<Rightarrow> TableBudget option" where
  "live_budget gs oid old = (case by_id (gs_budgets gs) oid of None \<Rightarrow> old | Some b \<Rightarrow> Some b)"

definition live_rate :: "LocalGovernanceStore \<Rightarrow> string option \<Rightarrow> TableRateLimit option \<Rightarrow> TableRateLimit option" where
  "live_rate gs oid old = (case by_id (gs_rateLimits gs) oid of None \<Rightarrow> old | Some rl \<Rightarrow> Some rl)"

definition GetGovernanceData :: "LocalGovernanceStore \<Rightarrow> string \<Rightarrow> GovernanceData" where
  "GetGovernanceData gs tenantID =
     (let lb = live_budget gs; lr = live_rate gs in
      \<lparr>gd_VirtualKeys = store_all vk_ID (map (\<lambda>vk. vk\<lparr>
           vk_Budget := lb (vk_BudgetID vk) (vk_Budget vk), vk_RateLimit := lr (vk_RateLimitID vk) (vk_RateLimit vk),
           ProviderConfigs := map (\<lambda>pc. pc\<lparr>pc_Budget := lb (pc_BudgetID pc) (pc_Budget pc),
             pc_RateLimit := lr (pc_RateLimitID pc) (pc_RateLimit pc)\<rparr>) (ProviderConfigs vk)\<rparr>)
           (filter (\<lambda>vk. governanceMatchesTenant tenantID (vk_TenantID vk)) (map snd (gs_virtualKeys gs)))),
       gd_Teams = store_all team_ID (map (\<lambda>t. t\<lparr>
           team_Budget := lb (team_BudgetID t) (team_Budget t), team_RateLimit := lr (team_RateLimitID t) (team_RateLimit t)\<rparr>)
           (filter (\<lambda>t. governanceMatchesTenant tenantID (team_TenantID t)) (map snd (gs_teams gs)))),
       gd_Customers = store_all cus_ID (map (\<lambda>c. c\<lparr>
           cus_Budget := lb (cus_BudgetID c) (cus_Budget c), cus_RateLimit := lr (cus_RateLimitID c) (cus_RateLimit c)\<rparr>)
           (filter (\<lambda>c. governanceMatchesTenant tenantID (cus_TenantID c)) (map snd (gs_customers gs)))),
       gd_Users = store_all ug_UserID (map (\<lambda>u. u\<lparr>
           ug_Budget := lb (ug_BudgetID u) (ug_Budget u), ug_RateLimit := lr (ug_RateLimitID u) (ug_RateLimit u)\<rparr>)
           (map snd (gs_users gs))),
       gd_Budgets = store_all bud_ID (filter (\<lambda>b. governanceMatchesTenant tenantID (bud_TenantID b)) (map snd (gs_budgets gs))),
       gd_RateLimits = store_all rl_ID (filter (\<lambda>rl. governanceMatchesTenant tenantID (rl_TenantID rl)) (map snd (gs_rateLimits gs))),
       gd_RoutingRules = store_all rule_ID (filter (\<lambda>r. governanceMatchesTenant tenantID (rule_TenantID r))
           (concat (map snd (gs_routingRules gs)))),
       gd_ModelConfigs = sort_key mcfg_CreatedAt (map (\<lambda>mc. mc\<lparr>
           mcfg_Budget := lb (mcfg_BudgetID mc) (mcfg_Budget mc), mcfg_RateLimit := lr (mcfg_RateLimitID mc) (mcfg_RateLimit mc)\<rparr>)
           (filter (\<lambda>mc. governanceMatchesTenant tenantID (mcfg_TenantID mc)) (map snd (gs_modelConfigs gs)))),
       gd_Providers = sort_key prov_CreatedAt (map (\<lambda>p. p\<lparr>
           prov_Budget := lb (prov_BudgetID p) (prov_Budget p), prov_RateLimit := lr (prov_RateLimitID p) (prov_RateLimit p)\<rparr>)
           (filter (\<lambda>p. governanceMatchesTenant tenantID (prov_TenantID p)) (map snd (gs_providers gs))))\<rparr>)"

end
