(* ===== verification/GovResolver.thy ===== *)
theory GovResolver
  imports GovLoad
begin

text \<open>
  The decision engine and the usage tracker of the governance plugin
  (\<open>plugins/governance/resolver.go\<close>, \<open>tracker.go\<close>), on the request context of
  \<open>core/schemas/context.go\<close>.
\<close>

section \<open>The request context\<close>

datatype CtxValue = CtxStr string | CtxBool bool | CtxInt int | CtxStrs "string list" | CtxMap "string smap" | CtxNil

record DeepIntShieldContext =
  ctx_values :: "CtxValue smap"
  ctx_blockRestrictedWrites :: bool

definition reservedKeys :: "string list" where
  "reservedKeys = [''x-bf-vk'', ''x-bf-api-key'', ''x-bf-api-key-id'', ''request-id'', ''fallback-request-id'',
     ''deepintshield-direct-key'', ''deepintshield-selected-key-id'', ''deepintshield-selected-key-name'',
     ''deepintshield-number-of-retries'', ''deepintshield-fallback-index'', ''deepintshield-skip-key-selection'',
     ''deepintshield-extra-url-path'', ''deepintshield-defer-trace-completion'']"

definition ctx_Value :: "DeepIntShieldContext \<Rightarrow> string \<Rightarrow> CtxValue option" where
  "ctx_Value ctx key = Load (ctx_values ctx) key"

definition SetValue :: "string \<Rightarrow> CtxValue \<Rightarrow> DeepIntShieldContext \<Rightarrow> DeepIntShieldContext" where
  "SetValue key v ctx =
     (if ctx_blockRestrictedWrites ctx \<and> key \<in> set reservedKeys then ctx
      else ctx\<lparr>ctx_values := Store key v (ctx_values ctx)\<rparr>)"

definition GetStringFromContext :: "DeepIntShieldContext \<Rightarrow> string \<Rightarrow> string" where
  "GetStringFromContext ctx key = (case ctx_Value ctx key of Some (CtxStr s) \<Rightarrow> s | _ \<Rightarrow> [])"

definition GetBoolFromContext :: "DeepIntShieldContext \<Rightarrow> string \<Rightarrow> bool" where
  "GetBoolFromContext ctx key = (case ctx_Value ctx key of Some (CtxBool b) \<Rightarrow> b | _ \<Rightarrow> False)"

definition AppendToContextList :: "string \<Rightarrow> string \<Rightarrow> DeepIntShieldContext \<Rightarrow> DeepIntShieldContext" where
  "AppendToContextList key v ctx =
     SetValue key (CtxStrs ((case ctx_Value ctx key of Some (CtxStrs xs) \<Rightarrow> xs | _ \<Rightarrow> []) @ [v])) ctx"

definition governanceTenantIDFromContext :: "DeepIntShieldContext \<Rightarrow> string" where
  "governanceTenantIDFromContext ctx = TrimSpace (GetStringFromContext ctx ''tenant_id'')"

section \<open>Results\<close>

text \<open>The reason of a decision: a fixed text, or a text followed by the error of a check.\<close>

datatype Reason = ReasonText string | ReasonBudget string BudgetError | ReasonRate string RateError

record EvaluationResult =
  res_Decision :: Decision
  res_Reason :: Reason
  res_VirtualKey :: "TableVirtualKey option"
  res_RateLimitInfo :: "TableRateLimit option"

definition result_of :: "Decision \<Rightarrow> Reason \<Rightarrow> EvaluationResult" where
  "result_of d r = \<lparr>res_Decision = d, res_Reason = r, res_VirtualKey = None, res_RateLimitInfo = None\<rparr>"

definition result_for :: "TableVirtualKey \<Rightarrow> Decision \<Rightarrow> Reason \<Rightarrow> EvaluationResult" where
  "result_for vk d r = \<lparr>res_Decision = d, res_Reason = r, res_VirtualKey = Some vk, res_RateLimitInfo = None\<rparr>"

definition request_for :: "string \<Rightarrow> string \<Rightarrow> string \<Rightarrow> EvaluationRequest" where
  "request_for vkValue provider model =
     \<lparr>er_VirtualKey = vkValue, er_Provider = provider, er_Model = model, er_UserID = []\<rparr>"

section \<open>Provider, model and user checks\<close>

definition EvaluateModelAndProviderRequest :: "LocalGovernanceStore \<Rightarrow> int \<Rightarrow> string \<Rightarrow> string \<Rightarrow> string \<Rightarrow> EvaluationResult" where
  "EvaluateModelAndProviderRequest gs now tenantID provider model =
     (let request = Some (request_for [] provider model);
          provider_result =
            (if provider = [] then None
             else
               (case CheckProviderRateLimit gs now tenantID request Map.empty Map.empty of
                  Some e \<Rightarrow> Some (result_of (snd (snd e)) (ReasonRate ''Provider-level rate limit check failed: '' e))
                | None \<Rightarrow>
                    (case CheckProviderBudget gs now tenantID request Map.empty of
                       Some e \<Rightarrow> Some (result_of DecisionBudgetExceeded (ReasonBudget ''Provider-level budget exceeded: '' e))
                     | None \<Rightarrow> None)));
          model_result =
            (if model = [] then None
             else
               (case CheckModelRateLimit gs now tenantID request Map.empty Map.empty of
                  Some e \<Rightarrow> Some (result_of (snd (snd e)) (ReasonRate ''Model-level rate limit check failed: '' e))
                | None \<Rightarrow>
                    (case CheckModelBudget gs now tenantID request Map.empty of
                       Some e \<Rightarrow> Some (result_of DecisionBudgetExceeded (ReasonBudget ''Model-level budget exceeded: '' e))
                     | None \<Rightarrow> None))) in
      case provider_result of
        Some r \<Rightarrow> r
      | None \<Rightarrow>
          (case model_result of
             Some r \<Rightarrow> r
           | None \<Rightarrow> result_of DecisionAllow
               (ReasonText ''Request allowed by governance policy (provider-level and model-level checks passed)'')))"

definition EvaluateUserRequest :: "LocalGovernanceStore \<Rightarrow> int \<Rightarrow> string \<Rightarrow> EvaluationResult" where
  "EvaluateUserRequest gs now userID =
     (if userID = [] then result_of DecisionAllow (ReasonText ''No user ID provided, skipping user-level checks'')
      else
        (case CheckUserRateLimit gs now userID Map.empty Map.empty of
           Some e \<Rightarrow> result_of (snd (snd e)) (ReasonRate ''User-level rate limit exceeded: '' e)
         | None \<Rightarrow>
             (case CheckUserBudget gs now userID Map.empty of
                Some e \<Rightarrow> result_of DecisionBudgetExceeded (ReasonBudget ''User-level budget exceeded: '' e)
              | None \<Rightarrow> result_of DecisionAllow (ReasonText ''User-level checks passed''))))"

section \<open>Virtual keys\<close>

definition modelless_requests :: "string list" where
  "modelless_requests = [''list_models'', ''mcp_tool_execution'', ''batch_create'', ''batch_list'', ''batch_retrieve'',
     ''batch_cancel'', ''batch_results'', ''file_upload'', ''file_list'', ''file_retrieve'', ''file_delete'', ''file_content'',
     ''container_create'', ''container_list'', ''container_retrieve'', ''container_delete'', ''container_file_create'',
     ''container_file_list'', ''container_file_retrieve'', ''container_file_content'', ''container_file_delete'']"

definition isModelRequired :: "string \<Rightarrow> bool" where
  "isModelRequired requestType \<longleftrightarrow> requestType \<notin> set modelless_requests"

definition config_allows :: "LocalGovernanceStore \<Rightarrow> string \<Rightarrow> string list \<Rightarrow> string \<Rightarrow> bool" where
  "config_allows gs provider allowedModels model =
     (case gs_modelCatalog gs of
        Some mc \<Rightarrow> IsModelAllowedForProvider (gs_known gs) mc provider model allowedModels
      | None \<Rightarrow> allowedModels = [] \<or> model \<in> set allowedModels)"

definition isModelAllowed :: "LocalGovernanceStore \<Rightarrow> TableVirtualKey \<Rightarrow> string \<Rightarrow> string \<Rightarrow> bool" where
  "isModelAllowed gs vk provider model =
     (ProviderConfigs vk = [] \<or>
      (case find (\<lambda>pc. pc_Provider pc = provider) (ProviderConfigs vk) of
         None \<Rightarrow> False
       | Some pc \<Rightarrow> config_allows gs provider (AllowedModels pc) model))"

definition isProviderAllowed :: "TableVirtualKey \<Rightarrow> string \<Rightarrow> bool" where
  "isProviderAllowed vk provider \<longleftrightarrow>
     ProviderConfigs vk = [] \<or> list_ex (\<lambda>pc. pc_Provider pc = provider) (ProviderConfigs vk)"

definition set_if :: "bool \<Rightarrow> string \<Rightarrow> CtxValue \<Rightarrow> DeepIntShieldContext \<Rightarrow> DeepIntShieldContext" where
  "set_if c key v ctx = (if c then SetValue key v ctx else ctx)"

definition policy_ids :: "string list \<Rightarrow> string list" where
  "policy_ids ids = rev (remdups (rev (filter (\<lambda>i. i \<noteq> []) (map TrimSpace ids))))"

definition setVirtualKeyGuardrailContext :: "TableVirtualKey \<Rightarrow> DeepIntShieldContext \<Rightarrow> DeepIntShieldContext" where
  "setVirtualKeyGuardrailContext vk ctx =
     set_if (policy_ids (vk_GuardrailPolicies vk) \<noteq> []) ''deepintshield-governance-guardrail-policy-ids''
       (CtxStrs (policy_ids (vk_GuardrailPolicies vk))) ctx"

definition set_customer :: "TableCustomer option \<Rightarrow> DeepIntShieldContext \<Rightarrow> DeepIntShieldContext" where
  "set_customer oc ctx =
     (case oc of
        None \<Rightarrow> ctx
      | Some c \<Rightarrow> SetValue ''deepintshield-governance-customer-name'' (CtxStr (cus_Name c))
                   (SetValue ''deepintshield-governance-customer-id'' (CtxStr (cus_ID c)) ctx))"

text \<open>What both evaluations of a virtual key leave in the context before they decide.\<close>

definition vk_context :: "TableVirtualKey \<Rightarrow> DeepIntShieldContext \<Rightarrow> DeepIntShieldContext" where
  "vk_context vk ctx0 =
     (let pre = ''deepintshield-governance-virtual-key-'';
          c1 = SetValue (pre @ ''name'') (CtxStr (vk_Name vk)) (SetValue (pre @ ''id'') (CtxStr (vk_ID vk)) ctx0);
          c2 = set_if (TrimSpace (vk_CacheKey vk) \<noteq> []) (pre @ ''cache-key'') (CtxStr (TrimSpace (vk_CacheKey vk))) c1;
          c3 = (case vk_CacheEnabled vk of None \<Rightarrow> c2 | Some b \<Rightarrow> SetValue (pre @ ''cache-enabled'') (CtxBool b) c2);
          c4 = (case vk_SemanticCacheEnabled vk of None \<Rightarrow> c3 | Some b \<Rightarrow> SetValue (pre @ ''semantic-cache-enabled'') (CtxBool b) c3);
          c5 = (case vk_CacheScopeMode vk of None \<Rightarrow> c4 | Some m \<Rightarrow> set_if (m \<noteq> []) (pre @ ''cache-scope-mode'') (CtxStr m) c4);
          c6 = set_if (vk_CacheMetadataScopeKeys vk \<noteq> []) (pre @ ''cache-metadata-scope-keys'') (CtxStrs (vk_CacheMetadataScopeKeys vk)) c5;
          c7 = (case vk_CacheAllowSemanticWhenUnscoped vk of None \<Rightarrow> c6 | Some b \<Rightarrow> SetValue (pre @ ''cache-allow-semantic-when-unscoped'') (CtxBool b) c6);
          c8 = setVirtualKeyGuardrailContext vk c7;
          c9 = (case vk_Team vk of
                  None \<Rightarrow> c8
                | Some t \<Rightarrow> set_customer (team_Customer t)
                    (SetValue ''deepintshield-governance-team-name'' (CtxStr (team_Name t))
                      (SetValue ''deepintshield-governance-team-id'' (CtxStr (team_ID t)) c8))) in
      set_customer (vk_Customer vk) c9)"

definition key_context :: "TableVirtualKey \<Rightarrow> string \<Rightarrow> DeepIntShieldContext \<Rightarrow> DeepIntShieldContext" where
  "key_context vk provider ctx =
     (case find (\<lambda>pc. pc_Provider pc = provider) (ProviderConfigs vk) of
        None \<Rightarrow> ctx
      | Some pc \<Rightarrow>
          (let c1 = set_if (pc_Keys pc \<noteq> []) ''bf-governance-include-only-keys'' (CtxStrs (pc_Keys pc)) ctx in
           case KeySelectionStrategy pc of
             None \<Rightarrow> c1
           | Some s \<Rightarrow> set_if (s \<noteq> []) ''deepintshield-key-selection-strategy'' (CtxStr s) c1))"

text \<open>The decisions the two evaluations share: the state of the key and the filters.\<close>

definition vk_filter :: "LocalGovernanceStore \<Rightarrow> TableVirtualKey \<Rightarrow> string \<Rightarrow> string \<Rightarrow> string \<Rightarrow> EvaluationResult option" where
  "vk_filter gs vk provider model requestType =
     (if \<not> vk_IsActive vk then Some (result_of DecisionVirtualKeyBlocked (ReasonText ''Virtual key is inactive''))
      else if requestType \<noteq> ''mcp_tool_execution'' \<and> \<not> isProviderAllowed vk provider
      then Some (result_for vk DecisionProviderBlocked (ReasonText (''Provider '' @ [CHR 0x27] @ provider @ [CHR 0x27] @ '' is not allowed for this virtual key'')))
      else if isModelRequired requestType \<and> \<not> isModelAllowed gs vk provider model
      then Some (result_for vk DecisionModelBlocked (ReasonText (''Model '' @ [CHR 0x27] @ model @ [CHR 0x27] @ '' is not allowed for this virtual key'')))
      else None)"

definition checkRateLimitHierarchy :: "LocalGovernanceStore \<Rightarrow> int \<Rightarrow> TableVirtualKey \<Rightarrow> EvaluationRequest \<Rightarrow> EvaluationResult option" where
  "checkRateLimitHierarchy gs now vk request =
     (case CheckRateLimit gs now (Some vk) (Some request) Map.empty Map.empty of
        None \<Rightarrow> None
      | Some e \<Rightarrow>
          (let info = (case find (\<lambda>pc. pc_Provider pc = er_Provider request \<and> pc_RateLimit pc \<noteq> None) (ProviderConfigs vk) of
                         Some pc \<Rightarrow> pc_RateLimit pc
                       | None \<Rightarrow> vk_RateLimit vk) in
           Some ((result_for vk (snd (snd e)) (ReasonRate ''Rate limit check failed: '' e))\<lparr>res_RateLimitInfo := info\<rparr>)))"

definition checkBudgetHierarchy :: "LocalGovernanceStore \<Rightarrow> int \<Rightarrow> TableVirtualKey \<Rightarrow> EvaluationRequest \<Rightarrow> EvaluationResult option" where
  "checkBudgetHierarchy gs now vk request =
     map_option (\<lambda>e. result_for vk DecisionBudgetExceeded (ReasonBudget ''Budget exceeded: '' e))
       (CheckBudget gs now (Some vk) (Some request) Map.empty)"

definition EvaluateVirtualKeyRequest :: "LocalGovernanceStore \<Rightarrow> int \<Rightarrow> string \<Rightarrow> string \<Rightarrow> string \<Rightarrow> string \<Rightarrow> DeepIntShieldContext \<Rightarrow> EvaluationResult \<times> DeepIntShieldContext" where
  "EvaluateVirtualKeyRequest gs now virtualKeyValue provider model requestType ctx =
     (case GetVirtualKey gs (governanceTenantIDFromContext ctx) virtualKeyValue of
        None \<Rightarrow> (result_of DecisionVirtualKeyNotFound (ReasonText ''Virtual key not found''), ctx)
      | Some vk \<Rightarrow>
          (let ctx1 = vk_context vk ctx; request = request_for virtualKeyValue provider model in
           case vk_filter gs vk provider model requestType of
             Some r \<Rightarrow> (r, ctx1)
           | None \<Rightarrow>
               (case checkRateLimitHierarchy gs now vk request of
                  Some r \<Rightarrow> (r, ctx1)
                | None \<Rightarrow>
                    (case checkBudgetHierarchy gs now vk request of
                       Some r \<Rightarrow> (r, ctx1)
                     | None \<Rightarrow>
                         (result_for vk DecisionAllow (ReasonText ''Request allowed by governance policy''),
                          key_context vk provider ctx1)))))"

definition EvaluateVirtualKeyFiltering :: "LocalGovernanceStore \<Rightarrow> string \<Rightarrow> string \<Rightarrow> string \<Rightarrow> string \<Rightarrow> DeepIntShieldContext \<Rightarrow> EvaluationResult \<times> DeepIntShieldContext" where
  "EvaluateVirtualKeyFiltering gs virtualKeyValue provider model requestType ctx =
     (case GetVirtualKey gs (governanceTenantIDFromContext ctx) virtualKeyValue of
        None \<Rightarrow> (result_of DecisionVirtualKeyNotFound (ReasonText ''Virtual key not found''), ctx)
      | Some vk \<Rightarrow>
          (let ctx1 = vk_context vk ctx in
           case vk_filter gs vk provider model requestType of
             Some r \<Rightarrow> (r, ctx1)
           | None \<Rightarrow>
               (result_for vk DecisionAllow (ReasonText ''Request allowed by governance policy (VK filtering only)''),
                key_context vk provider ctx1)))"

definition isRateLimitViolation :: "Decision \<Rightarrow> bool" where
  "isRateLimitViolation decision \<longleftrightarrow> decision \<in> {DecisionRateLimited, DecisionTokenLimited, DecisionRequestLimited}"

definition isProviderBudgetViolated :: "LocalGovernanceStore \<Rightarrow> int \<Rightarrow> string \<Rightarrow> TableVirtualKey \<Rightarrow> TableVirtualKeyProviderConfig \<Rightarrow> bool" where
  "isProviderBudgetViolated gs now tenantID vk config =
     (let request = Some (request_for [] (pc_Provider config) []) in
      CheckProviderBudget gs now tenantID request Map.empty \<noteq> None \<or>
      pc_Budget config \<noteq> None \<and> CheckBudget gs now (Some vk) request Map.empty \<noteq> None)"

definition rate_error_decision :: "RateError option \<Rightarrow> Decision" where
  "rate_error_decision e = (case e of None \<Rightarrow> DecisionAllow | Some (name, violations, decision) \<Rightarrow> decision)"

definition isProviderRateLimitViolated :: "LocalGovernanceStore \<Rightarrow> int \<Rightarrow> string \<Rightarrow> TableVirtualKey \<Rightarrow> TableVirtualKeyProviderConfig \<Rightarrow> bool" where
  "isProviderRateLimitViolated gs now tenantID vk config =
     (let request = Some (request_for [] (pc_Provider config) []);
          global = CheckProviderRateLimit gs now tenantID request Map.empty Map.empty;
          own = CheckRateLimit gs now (Some vk) request Map.empty Map.empty in
      global \<noteq> None \<or> isRateLimitViolation (rate_error_decision global) \<or>
      pc_RateLimit config \<noteq> None \<and> (own \<noteq> None \<or> isRateLimitViolation (rate_error_decision own)))"

section \<open>The usage tracker\<close>

record UsageUpdate =
  uu_VirtualKey :: string
  uu_Provider :: string
  uu_Model :: string
  uu_Success :: bool
  uu_TokensUsed :: int
  uu_Cost :: rat
  uu_RequestID :: string
  uu_UserID :: string
  uu_IsStreaming :: bool
  uu_IsFinalChunk :: bool
  uu_HasUsageData :: bool

text \<open>The four steps of \<open>UpdateUsage\<close>; the store functions return no error for a key that is not nil.\<close>

definition charge_model :: "int \<Rightarrow> string \<Rightarrow> UsageUpdate \<Rightarrow> bool \<Rightarrow> bool \<Rightarrow> bool \<Rightarrow> LocalGovernanceStore \<Rightarrow> LocalGovernanceStore" where
  "charge_model now tenantID update tokens requests budget gs =
     (if uu_Provider update \<noteq> [] \<and> uu_Model update \<noteq> [] then
        (let gs1 = UpdateProviderAndModelRateLimitUsageInMemory now tenantID (uu_Model update) (uu_Provider update) (uu_TokensUsed update) tokens requests gs in
         if budget \<and> uu_Cost update > 0
         then UpdateProviderAndModelBudgetUsageInMemory now tenantID (uu_Model update) (uu_Provider update) (uu_Cost update) gs1
         else gs1)
      else gs)"

definition charge_user :: "int \<Rightarrow> UsageUpdate \<Rightarrow> bool \<Rightarrow> bool \<Rightarrow> bool \<Rightarrow> LocalGovernanceStore \<Rightarrow> LocalGovernanceStore" where
  "charge_user now update tokens requests budget gs =
     (if uu_UserID update \<noteq> [] then
        (let gs1 = UpdateUserRateLimitUsageInMemory now (uu_UserID update) (uu_TokensUsed update) tokens requests gs in
         if budget \<and> uu_Cost update > 0 then UpdateUserBudgetUsageInMemory now (uu_UserID update) (uu_Cost update) gs1 else gs1)
      else gs)"

definition charge_vk :: "int \<Rightarrow> UsageUpdate \<Rightarrow> bool \<Rightarrow> bool \<Rightarrow> bool \<Rightarrow> TableVirtualKey \<Rightarrow> LocalGovernanceStore \<Rightarrow> LocalGovernanceStore" where
  "charge_vk now update tokens requests budget vk gs =
     (let gs1 = (if vk_RateLimit vk \<noteq> None \<or> ProviderConfigs vk \<noteq> [] \<or> vk_TeamID vk \<noteq> None \<or> vk_CustomerID vk \<noteq> None
                 then snd (UpdateVirtualKeyRateLimitUsageInMemory now (Some vk) (uu_Provider update) (uu_TokensUsed update) tokens requests gs)
                 else gs) in
      if budget \<and> uu_Cost update > 0
      then snd (UpdateVirtualKeyBudgetUsageInMemory now (Some vk) (uu_Provider update) (uu_Cost update) gs1)
      else gs1)"

definition UpdateUsage :: "int \<Rightarrow> string \<Rightarrow> UsageUpdate \<Rightarrow> LocalGovernanceStore \<Rightarrow> LocalGovernanceStore" where
  "UpdateUsage now tenantID update gs =
     (if \<not> uu_Success update then gs
      else
        (let tokens = (\<not> uu_IsStreaming update \<or> uu_IsStreaming update \<and> uu_HasUsageData update);
             requests = (\<not> uu_IsStreaming update \<or> uu_IsStreaming update \<and> uu_IsFinalChunk update);
             budget = (\<not> uu_IsStreaming update \<or> uu_IsStreaming update \<and> uu_HasUsageData update);
             gs1 = charge_model now tenantID update tokens requests budget gs;
             gs2 = charge_user now update tokens requests budget gs1 in
         if uu_VirtualKey update = [] then gs2
         else
           (case GetVirtualKey gs2 tenantID (uu_VirtualKey update) of
              None \<Rightarrow> gs2
            | Some vk \<Rightarrow> charge_vk now update tokens requests budget vk gs2)))"

text \<open>One tick of the reset worker; the errors the four database steps report are arguments, and
  the tracker only logs them.\<close>

definition resetExpiredCounters :: "int \<Rightarrow> (nat \<Rightarrow> string option) \<Rightarrow> LocalGovernanceStore \<times> GovDB \<Rightarrow> LocalGovernanceStore \<times> GovDB" where
  "resetExpiredCounters now txErr = (\<lambda>(gs, db).
     (let (gs1, resetRateLimits) = ResetExpiredRateLimitsInMemory now gs;
          db1 = snd (ResetExpiredRateLimits (gs_configStore gs) (txErr 0) resetRateLimits db);
          (gs2, resetBudgets) = ResetExpiredBudgetsInMemory now gs1;
          db2 = snd (ResetExpiredBudgets (gs_configStore gs) (txErr 1) resetBudgets db1);
          db3 = snd (DumpRateLimits gs2 (txErr 2) Map.empty Map.empty db2);
          db4 = snd (DumpBudgets gs2 (txErr 3) Map.empty db3) in
      (gs2, db4)))"

text \<open>
  The reset at start-up.  It resets the rate limits embedded in the virtual keys it reads from the
  database, writes those back, and resets the budgets of the store; the second component says whether
  an error was reported.
\<close>

definition startup_rate_errors :: "TableRateLimit \<Rightarrow> nat" where
  "startup_rate_errors rl =
     (case TokenResetDuration rl of Some s \<Rightarrow> if ParseDuration s = None then 1 else 0 | None \<Rightarrow> 0) +
     (case RequestResetDuration rl of Some s \<Rightarrow> if ParseDuration s = None then 1 else 0 | None \<Rightarrow> 0)"

definition PerformStartupResets :: "int \<Rightarrow> (string + TableVirtualKey list) \<Rightarrow> string option \<Rightarrow> string option \<Rightarrow> LocalGovernanceStore \<times> GovDB \<Rightarrow> (LocalGovernanceStore \<times> GovDB) \<times> bool" where
  "PerformStartupResets now vks budgetErr txErr = (\<lambda>(gs, db).
     if \<not> gs_configStore gs then ((gs, db), False)
     else
       (let limits = concat (map (\<lambda>vk. option_list (vk_RateLimit vk)) (case vks of Inl e \<Rightarrow> [] | Inr xs \<Rightarrow> xs));
            due = filter (\<lambda>rl. window_expired now (TokenResetDuration rl) (TokenLastReset rl) \<or>
                               window_expired now (RequestResetDuration rl) (RequestLastReset rl)) limits;
            resetRateLimits = map (rate_reset now) due;
            (gs1, resetBudgets) = ResetExpiredBudgetsInMemory now gs;
            (e1, db1) = ResetExpiredBudgets True budgetErr resetBudgets db;
            (e2, db2) = (if resetRateLimits = [] then (None, db1)
                         else ExecuteTransaction txErr (fold (\<lambda>rl. update_rate_row (rl_ID rl) (\<lambda>row. row\<lparr>
                                TokenCurrentUsage := TokenCurrentUsage rl, TokenLastReset := TokenLastReset rl,
                                RequestCurrentUsage := RequestCurrentUsage rl, RequestLastReset := RequestLastReset rl\<rparr>)) resetRateLimits) db1) in
        ((gs1, db2), isl vks \<or> sum_list (map startup_rate_errors limits) > 0 \<or> e1 \<noteq> None \<or> e2 \<noteq> None)))"

end
