(* ===== verification/GovPlugin.thy ===== *)
theory GovPlugin
  imports GovResolver
begin

text \<open>
  The hooks of the governance plugin (\<open>plugins/governance/main.go\<close>, \<open>utils.go\<close>): reading the virtual
  key of a request, applying routing rules, choosing a provider, the headers for MCP tools, the
  decision before a call and the charge after it.

  The body of a request is the map its JSON or form parses to; parsing and serialising it, the cost
  of a response and the price of a tool are arguments.  The log lines a context collects are left out.
\<close>

section \<open>Virtual keys in headers\<close>

definition VirtualKeyPrefix :: string where
  "VirtualKeyPrefix = ''sk-bf-''"

definition caseInsensitiveLookup :: "string smap \<Rightarrow> string \<Rightarrow> string" where
  "caseInsensitiveLookup data key =
     (if key = [] then []
      else
        (case Load data key of
           Some v \<Rightarrow> v
         | None \<Rightarrow>
             (case Load data (ToLower key) of
                Some v \<Rightarrow> v
              | None \<Rightarrow> (case find (\<lambda>(k, v). EqualFold k key) data of None \<Rightarrow> [] | Some (k, v) \<Rightarrow> v))))"

definition is_virtual_key :: "string \<Rightarrow> bool" where
  "is_virtual_key s \<longleftrightarrow> s \<noteq> [] \<and> HasPrefix (ToLower s) VirtualKeyPrefix"

definition bearer_key :: "string \<Rightarrow> string option" where
  "bearer_key authHeader =
     (if authHeader \<noteq> [] \<and> HasPrefix (ToLower authHeader) ''bearer '' \<and> is_virtual_key (TrimSpace (drop 7 authHeader))
      then Some (TrimSpace (drop 7 authHeader)) else None)"

definition parse_virtual_key :: "(string \<Rightarrow> string) \<Rightarrow> string option" where
  "parse_virtual_key header =
     (if is_virtual_key (header ''x-bf-vk'') then Some (header ''x-bf-vk'')
      else
        (case bearer_key (header ''Authorization'') of
           Some k \<Rightarrow> Some k
         | None \<Rightarrow>
             if is_virtual_key (header ''x-api-key'') then Some (header ''x-api-key'')
             else if is_virtual_key (header ''x-goog-api-key'') then Some (header ''x-goog-api-key'')
             else None))"

text \<open>The two parsers differ in how they look a header up: \<open>peek\<close> is \<open>fasthttp\<close>'s.\<close>

definition ParseVirtualKeyFromFastHTTPRequest :: "(string \<Rightarrow> string) \<Rightarrow> string option" where
  "ParseVirtualKeyFromFastHTTPRequest peek = parse_virtual_key peek"

definition parseVirtualKeyFromHTTPRequest :: "string smap \<Rightarrow> string option" where
  "parseVirtualKeyFromHTTPRequest headers = parse_virtual_key (caseInsensitiveLookup headers)"

section \<open>Requests\<close>

datatype BodyValue = BodyStr string | BodyStrs "string list" | BodyOther

record HTTPRequest =
  http_Path :: string
  http_Headers :: "string smap"
  http_Query :: "string smap"
  http_PathParams :: "string smap"

text \<open>\<open>p_inMemoryStore\<close> holds the names of the configured providers.\<close>

record GovernancePlugin =
  p_inMemoryStore :: "string list option"
  p_isVkMandatory :: "bool option"
  p_requiredHeaders :: "string list option"
  p_env :: RoutingEnv

definition UpdateEnforceAuthOnInference :: "bool \<Rightarrow> GovernancePlugin \<Rightarrow> GovernancePlugin" where
  "UpdateEnforceAuthOnInference enforce p = p\<lparr>p_isVkMandatory := Some enforce\<rparr>"

text \<open>\<open>url.PathUnescape\<close>.\<close>

definition unhex :: "byte \<Rightarrow> nat option" where
  "unhex c =
     (if byte_between CHR ''0'' CHR ''9'' c then Some (of_char c - 48)
      else if byte_between CHR ''a'' CHR ''f'' c then Some (of_char c - 87)
      else if byte_between CHR ''A'' CHR ''F'' c then Some (of_char c - 55)
      else None)"

fun PathUnescape :: "string \<Rightarrow> string option" where
  "PathUnescape [] = Some []"
| "PathUnescape (c # cs) =
     (if c = CHR ''%'' then
        (case cs of
           h # l # rest \<Rightarrow>
             (case (unhex h, unhex l) of
                (Some a, Some b) \<Rightarrow> map_option ((#) (char_of (16 * a + b))) (PathUnescape rest)
              | _ \<Rightarrow> None)
         | _ \<Rightarrow> None)
      else map_option ((#) c) (PathUnescape cs))"

definition GeminiRequestSuffixPaths :: "string list" where
  "GeminiRequestSuffixPaths = ['':streamGenerateContent'', '':generateContent'', '':countTokens'', '':embedContent'',
     '':batchEmbedContents'', '':batchGenerateContent'', '':predict'', '':predictLongRunning'']"

definition isGeminiPath :: "HTTPRequest \<Rightarrow> bool" where
  "isGeminiPath req = sublist ''/genai'' (http_Path req)"

definition isBedrockPath :: "HTTPRequest \<Rightarrow> bool" where
  "isBedrockPath req = sublist ''/bedrock'' (http_Path req)"

text \<open>The model a request names, from the body or from the path, and the endpoint suffix cut from
  it; \<open>None\<close> where the callers leave the request alone.\<close>

definition request_model_string :: "HTTPRequest \<Rightarrow> BodyValue smap \<Rightarrow> (string \<times> string) option" where
  "request_model_string req body =
     (let rawModelID = caseInsensitiveLookup (http_PathParams req) ''modelId'';
          modelValue =
            (case Load body ''model'' of
               Some v \<Rightarrow> Some v
             | None \<Rightarrow>
                 if isGeminiPath req then Some (BodyStr (caseInsensitiveLookup (http_PathParams req) ''model''))
                 else if isBedrockPath req \<and> rawModelID \<noteq> []
                 then Some (BodyStr (case PathUnescape rawModelID of None \<Rightarrow> rawModelID | Some d \<Rightarrow> d))
                 else None) in
      case modelValue of
        Some (BodyStr s) \<Rightarrow>
          if s = [] then None
          else if isGeminiPath req then
            (case find (HasSuffix s) GeminiRequestSuffixPaths of
               None \<Rightarrow> Some (s, [])
             | Some sfx \<Rightarrow> Some (take (length s - length sfx) s, sfx))
          else Some (s, [])
      | _ \<Rightarrow> None)"

section \<open>Load balancing\<close>

definition getWeight :: "rat option \<Rightarrow> rat" where
  "getWeight w = (case w of None \<Rightarrow> 1 | Some x \<Rightarrow> x)"

definition eligible_configs :: "LocalGovernanceStore \<Rightarrow> int \<Rightarrow> string \<Rightarrow> TableVirtualKey \<Rightarrow> string \<Rightarrow> TableVirtualKeyProviderConfig list" where
  "eligible_configs gs now tenantID vk modelStr =
     filter (\<lambda>config. config_allows gs (pc_Provider config) (AllowedModels config) modelStr \<and>
                      \<not> isProviderBudgetViolated gs now tenantID vk config \<and>
                      \<not> isProviderRateLimitViolated gs now tenantID vk config) (ProviderConfigs vk)"

fun pick_provider :: "rat \<Rightarrow> rat \<Rightarrow> TableVirtualKeyProviderConfig list \<Rightarrow> string" where
  "pick_provider randomValue currentWeight [] = []"
| "pick_provider randomValue currentWeight (config # configs) =
     (let currentWeight' = f_add currentWeight (getWeight (pc_Weight config)) in
      if randomValue \<le> currentWeight' then pc_Provider config else pick_provider randomValue currentWeight' configs)"

definition select_provider :: "rat \<Rightarrow> TableVirtualKeyProviderConfig list \<Rightarrow> string" where
  "select_provider u configs =
     (let totalWeight = fold (\<lambda>config acc. f_add acc (getWeight (pc_Weight config))) configs 0;
          selected = pick_provider (f_mul u totalWeight) 0 configs in
      if selected = [] \<and> configs \<noteq> [] then pc_Provider (hd configs) else selected)"

definition refine :: "LocalGovernanceStore \<Rightarrow> string \<Rightarrow> string \<Rightarrow> string option" where
  "refine gs provider modelStr =
     (case gs_modelCatalog gs of
        None \<Rightarrow> Some modelStr
      | Some mc \<Rightarrow> RefineModelForProvider (gs_known gs) mc provider modelStr)"

text \<open>The fallbacks of the operator's chain, and those derived from the other eligible providers.\<close>

definition chain_fallbacks :: "TableVirtualKey \<Rightarrow> string \<Rightarrow> string \<Rightarrow> string list" where
  "chain_fallbacks vk selected modelStr =
     map (\<lambda>e. TrimSpace (fb_Provider e) @ ''/'' @ TrimSpace (fb_Model e))
       (filter (\<lambda>e. TrimSpace (fb_Provider e) \<noteq> [] \<and> TrimSpace (fb_Model e) \<noteq> [] \<and>
                    \<not> (TrimSpace (fb_Provider e) = selected \<and> TrimSpace (fb_Model e) = modelStr)) (FallbackChain vk))"

definition derived_fallbacks :: "LocalGovernanceStore \<Rightarrow> TableVirtualKeyProviderConfig list \<Rightarrow> string \<Rightarrow> string \<Rightarrow> string list" where
  "derived_fallbacks gs configs selected modelStr =
     concat (map (\<lambda>config.
         if pc_Provider config = selected then []
         else (case refine gs (pc_Provider config) modelStr of None \<Rightarrow> [] | Some m \<Rightarrow> [pc_Provider config @ ''/'' @ m]))
       (sort_key (\<lambda>config. - getWeight (pc_Weight config)) configs))"

definition add_fallbacks :: "LocalGovernanceStore \<Rightarrow> TableVirtualKey \<Rightarrow> TableVirtualKeyProviderConfig list \<Rightarrow> string \<Rightarrow> string \<Rightarrow> BodyValue smap \<Rightarrow> BodyValue smap" where
  "add_fallbacks gs vk configs selected modelStr body =
     (if Load body ''fallbacks'' \<noteq> None then body
      else if FallbackChain vk \<noteq> [] then
        (if chain_fallbacks vk selected modelStr \<noteq> [] then Store ''fallbacks'' (BodyStrs (chain_fallbacks vk selected modelStr)) body else body)
      else if length configs > 1 then Store ''fallbacks'' (BodyStrs (derived_fallbacks gs configs selected modelStr)) body
      else body)"

text \<open>A model with the prefix of a configured provider is left alone, and so is any prefixed model
  when the set of configured providers is not available.  \<open>Inl\<close> is a failed refinement.\<close>

definition already_prefixed :: "GovernancePlugin \<Rightarrow> string list \<Rightarrow> string \<Rightarrow> bool" where
  "already_prefixed p known modelStr \<longleftrightarrow>
     CHR ''/'' \<in> set modelStr \<and>
     (case p_inMemoryStore p of None \<Rightarrow> True | Some configured \<Rightarrow> fst (ParseModelString known modelStr []) \<in> set configured)"

definition loadBalanceProvider :: "GovernancePlugin \<Rightarrow> LocalGovernanceStore \<Rightarrow> int \<Rightarrow> HTTPRequest \<Rightarrow> TableVirtualKey \<Rightarrow> BodyValue smap \<Rightarrow> DeepIntShieldContext \<Rightarrow> string + (BodyValue smap \<times> DeepIntShieldContext)" where
  "loadBalanceProvider p gs now req virtualKey body ctx =
     (case request_model_string req body of
        None \<Rightarrow> Inr (body, ctx)
      | Some (modelStr, genaiRequestSuffix) \<Rightarrow>
          if already_prefixed p (gs_known gs) modelStr then Inr (body, ctx)
          else
            (let configs = eligible_configs gs now (governanceTenantIDFromContext ctx) virtualKey modelStr;
                 selected = select_provider (env_rand (p_env p)) configs;
                 placed =
                   (if isGeminiPath req then Some (body, SetValue ''model'' (CtxStr (selected @ ''/'' @ modelStr @ genaiRequestSuffix)) ctx)
                    else if isBedrockPath req then Some (body, SetValue ''modelId'' (CtxStr (selected @ ''/'' @ modelStr)) ctx)
                    else map_option (\<lambda>m. (Store ''model'' (BodyStr (selected @ ''/'' @ m)) body, ctx)) (refine gs selected modelStr)) in
             if configs = [] then Inr (body, ctx)
             else
               (case placed of
                  None \<Rightarrow> Inl ''failed to refine model''
                | Some (body1, ctx1) \<Rightarrow>
                    Inr (add_fallbacks gs virtualKey configs selected modelStr body1,
                         AppendToContextList ''deepintshield-routing-engines-used'' ''governance'' ctx1))))"

section \<open>Routing rules on a request\<close>

definition prefixed_model :: "RoutingDecision \<Rightarrow> string \<Rightarrow> string" where
  "prefixed_model d model = (if rd_Provider d \<noteq> [] then rd_Provider d @ ''/'' @ model else model)"

definition apply_decision :: "HTTPRequest \<Rightarrow> string \<Rightarrow> RoutingDecision \<Rightarrow> BodyValue smap \<Rightarrow> DeepIntShieldContext \<Rightarrow> BodyValue smap \<times> DeepIntShieldContext" where
  "apply_decision req genaiRequestSuffix d body ctx =
     (let (body1, ctx1) =
            (if isGeminiPath req then (body, SetValue ''model'' (CtxStr (prefixed_model d (rd_Model d @ genaiRequestSuffix))) ctx)
             else if isBedrockPath req then (body, SetValue ''modelId'' (CtxStr (prefixed_model d (rd_Model d))) ctx)
             else (Store ''model'' (BodyStr (prefixed_model d (rd_Model d))) body, ctx));
          ctx2 = AppendToContextList ''deepintshield-routing-engines-used'' ''routing-rule'' ctx1;
          body2 = (if rd_Fallbacks d \<noteq> [] then Store ''fallbacks'' (BodyStrs (rd_Fallbacks d)) body1 else body1) in
      (body2, set_if (rd_KeyID d \<noteq> []) ''x-bf-api-key-id'' (CtxStr (rd_KeyID d)) ctx2))"

definition applyRoutingRules :: "GovernancePlugin \<Rightarrow> HTTPRequest \<Rightarrow> TableVirtualKey option \<Rightarrow> BodyValue smap \<Rightarrow> DeepIntShieldContext \<Rightarrow> LocalGovernanceStore \<Rightarrow> (BodyValue smap \<times> DeepIntShieldContext \<times> RoutingDecision option) \<times> LocalGovernanceStore" where
  "applyRoutingRules p req virtualKey body ctx gs =
     (case request_model_string req body of
        None \<Rightarrow> ((body, ctx, None), gs)
      | Some (modelStr, genaiRequestSuffix) \<Rightarrow>
          (let (provider, model) = ParseModelString (gs_known gs) modelStr [];
               tenantID = governanceTenantIDFromContext ctx;
               rc = \<lparr>rc_VirtualKey = virtualKey, rc_Provider = provider, rc_Model = model,
                     rc_RequestType = GetStringFromContext ctx ''deepintshield-http-request-type'',
                     rc_Headers = http_Headers req, rc_QueryParams = http_Query req,
                     rc_Status = Some (GetBudgetAndRateLimitStatus gs tenantID model provider virtualKey Map.empty Map.empty Map.empty)\<rparr> in
           case EvaluateRoutingRules (p_env p) tenantID rc gs of
             (None, gs1) \<Rightarrow> ((body, ctx, None), gs1)
           | (Some d, gs1) \<Rightarrow>
               (let ctx1 = SetValue ''deepintshield-governance-routing-rule-name'' (CtxStr (MatchedRuleName d))
                             (SetValue ''deepintshield-governance-routing-rule-id'' (CtxStr (MatchedRuleID d)) ctx);
                    (body2, ctx2) = apply_decision req genaiRequestSuffix d body ctx1 in
                ((body2, ctx2, Some d), gs1))))"

section \<open>MCP tools and headers\<close>

definition mcp_tools :: "TableVirtualKeyMCPConfig \<Rightarrow> string list" where
  "mcp_tools c =
     (if ToolsToExecute c = [] then []
      else if ''*'' \<in> set (ToolsToExecute c) then [mcp_ClientName c @ ''-*'']
      else map (\<lambda>tool. mcp_ClientName c @ ''-'' @ tool) (filter (\<lambda>tool. tool \<noteq> []) (ToolsToExecute c)))"

definition addMCPIncludeTools :: "string smap \<Rightarrow> TableVirtualKey \<Rightarrow> string smap" where
  "addMCPIncludeTools headers vk =
     (if MCPConfigs vk \<noteq> [] then Store ''x-bf-mcp-include-tools'' (Join (concat (map mcp_tools (MCPConfigs vk))) '','') headers
      else headers)"

record DeepIntShieldError =
  dse_Type :: string
  dse_StatusCode :: "int option"
  dse_Message :: Reason

definition validateRequiredHeaders :: "GovernancePlugin \<Rightarrow> DeepIntShieldContext \<Rightarrow> DeepIntShieldError option" where
  "validateRequiredHeaders p ctx =
     (case p_requiredHeaders p of
        None \<Rightarrow> None
      | Some required \<Rightarrow>
          (let headers = (case ctx_Value ctx ''deepintshield-request-headers'' of Some (CtxMap m) \<Rightarrow> m | _ \<Rightarrow> []);
               missing = filter (\<lambda>h. Load headers (ToLower h) = None) required in
           if missing = [] then None
           else Some \<lparr>dse_Type = ''missing_required_headers'', dse_StatusCode = Some 400,
                      dse_Message = ReasonText (''missing required headers: '' @ Join missing '', '')\<rparr>))"

section \<open>The transport hook\<close>

text \<open>
  \<open>HTTPTransportPreHook\<close> on a request with a body.  \<open>None\<close> for the payload is a body that does not
  parse.  The result says whether the request is passed on (\<open>Inr\<close>) with the payload to serialise, the
  headers to add and the context, or fails.
\<close>

definition adopt_tenant :: "TableVirtualKey \<Rightarrow> DeepIntShieldContext \<Rightarrow> DeepIntShieldContext" where
  "adopt_tenant vk ctx = set_if (vk_TenantID vk \<noteq> [] \<and> ctx_Value ctx ''tenant_id'' = None) ''tenant_id'' (CtxStr (vk_TenantID vk)) ctx"

record TransportOutcome =
  out_Payload :: "BodyValue smap option"
  out_Headers :: "string smap"
  out_Context :: DeepIntShieldContext

definition unchanged :: "HTTPRequest \<Rightarrow> DeepIntShieldContext \<Rightarrow> TransportOutcome" where
  "unchanged req ctx = \<lparr>out_Payload = None, out_Headers = http_Headers req, out_Context = ctx\<rparr>"

text \<open>Routing and load balancing of a parsed body, for a key that was found and is active or for no key.\<close>

definition govern_body :: "GovernancePlugin \<Rightarrow> int \<Rightarrow> HTTPRequest \<Rightarrow> TableVirtualKey option \<Rightarrow> bool \<Rightarrow> BodyValue smap \<Rightarrow> DeepIntShieldContext \<Rightarrow> LocalGovernanceStore \<Rightarrow> (string + TransportOutcome) \<times> LocalGovernanceStore" where
  "govern_body p now req ovk hasRoutingRules body ctx gs =
     (let ((body1, ctx1, decision), gs1) =
            (if hasRoutingRules then applyRoutingRules p req ovk body ctx gs else ((body, ctx, None), gs)) in
      case ovk of
        None \<Rightarrow> (Inr \<lparr>out_Payload = (if decision \<noteq> None then Some body1 else None), out_Headers = http_Headers req, out_Context = ctx1\<rparr>, gs1)
      | Some vk \<Rightarrow>
          (case loadBalanceProvider p gs1 now req vk body1 ctx1 of
             Inl e \<Rightarrow> (Inl e, gs1)
           | Inr (body2, ctx2) \<Rightarrow>
               (Inr \<lparr>out_Payload = Some body2,
                     out_Headers = fold (\<lambda>(k, v). Store k v) (addMCPIncludeTools [] vk) (http_Headers req),
                     out_Context = ctx2\<rparr>, gs1)))"

definition HTTPTransportPreHook :: "GovernancePlugin \<Rightarrow> int \<Rightarrow> HTTPRequest \<Rightarrow> BodyValue smap option \<Rightarrow> DeepIntShieldContext \<Rightarrow> LocalGovernanceStore \<Rightarrow> (string + TransportOutcome) \<times> LocalGovernanceStore" where
  "HTTPTransportPreHook p now req payload ctx gs =
     (let virtualKeyValue = parseVirtualKeyFromHTTPRequest (http_Headers req);
          tenantID = governanceTenantIDFromContext ctx;
          hasRoutingRules = HasRoutingRules gs tenantID in
      if virtualKeyValue = None \<and> \<not> hasRoutingRules then (Inr (unchanged req ctx), gs)
      else
        (case payload of
           None \<Rightarrow> (Inr (unchanged req ctx), gs)
         | Some body \<Rightarrow>
             (case virtualKeyValue of
                None \<Rightarrow> govern_body p now req None hasRoutingRules body ctx gs
              | Some v \<Rightarrow>
                  (case GetVirtualKey gs tenantID v of
                     None \<Rightarrow> (Inr (unchanged req ctx), gs)
                   | Some vk \<Rightarrow>
                       if \<not> vk_IsActive vk then (Inr (unchanged req ctx), gs)
                       else govern_body p now req (Some vk) hasRoutingRules body (adopt_tenant vk ctx) gs))))"

text \<open>The large-payload variant sees only the model the metadata names; its result is the model to
  put back there, the headers and the context.\<close>

definition governLargePayload :: "GovernancePlugin \<Rightarrow> int \<Rightarrow> HTTPRequest \<Rightarrow> string \<Rightarrow> string option \<Rightarrow> bool \<Rightarrow> DeepIntShieldContext \<Rightarrow> LocalGovernanceStore \<Rightarrow> (string + string \<times> TransportOutcome) \<times> LocalGovernanceStore" where
  "governLargePayload p now req metadataModel virtualKeyValue hasRoutingRules ctx gs =
     (let keep = (Inr (metadataModel, unchanged req ctx), gs);
          go = (\<lambda>ovk ctx'.
            (case govern_body p now req ovk hasRoutingRules [(''model'', BodyStr metadataModel)] ctx' gs of
               (Inl e, gs1) \<Rightarrow> (Inl e, gs1)
             | (Inr out, gs1) \<Rightarrow>
                 (Inr (case out_Payload out of
                         None \<Rightarrow> metadataModel
                       | Some b \<Rightarrow> (case Load b ''model'' of Some (BodyStr m) \<Rightarrow> m | _ \<Rightarrow> metadataModel),
                       out\<lparr>out_Payload := None\<rparr>), gs1))) in
      if metadataModel = [] then keep
      else
        (case virtualKeyValue of
           None \<Rightarrow> go None ctx
         | Some v \<Rightarrow>
             (case GetVirtualKey gs (governanceTenantIDFromContext ctx) v of
                None \<Rightarrow> keep
              | Some vk \<Rightarrow> if \<not> vk_IsActive vk then keep else go (Some vk) (adopt_tenant vk ctx))))"

section \<open>The decision before a call\<close>

definition decision_string :: "Decision \<Rightarrow> string" where
  "decision_string d =
     (case d of
        DecisionAllow \<Rightarrow> ''allow'' | DecisionVirtualKeyNotFound \<Rightarrow> ''virtual_key_not_found''
      | DecisionVirtualKeyBlocked \<Rightarrow> ''virtual_key_blocked'' | DecisionRateLimited \<Rightarrow> ''rate_limited''
      | DecisionBudgetExceeded \<Rightarrow> ''budget_exceeded'' | DecisionTokenLimited \<Rightarrow> ''token_limited''
      | DecisionRequestLimited \<Rightarrow> ''request_limited'' | DecisionModelBlocked \<Rightarrow> ''model_blocked''
      | DecisionProviderBlocked \<Rightarrow> ''provider_blocked'')"

definition decision_status :: "Decision \<Rightarrow> int" where
  "decision_status d =
     (if d \<in> {DecisionRateLimited, DecisionTokenLimited, DecisionRequestLimited} then 429
      else if d = DecisionBudgetExceeded then 402 else 403)"

definition decision_error :: "EvaluationResult \<Rightarrow> DeepIntShieldError option" where
  "decision_error r =
     (if res_Decision r = DecisionAllow then None
      else Some \<lparr>dse_Type = decision_string (res_Decision r), dse_StatusCode = Some (decision_status (res_Decision r)),
                 dse_Message = res_Reason r\<rparr>)"

text \<open>The workspace of the key against that of the request: a mismatch is an error, a request
  without one takes the key's.\<close>

definition check_workspace :: "TableVirtualKey \<Rightarrow> DeepIntShieldContext \<Rightarrow> DeepIntShieldError option \<times> DeepIntShieldContext" where
  "check_workspace vk ctx =
     (case vk_WorkspaceID vk of
        None \<Rightarrow> (None, ctx)
      | Some vkWS \<Rightarrow>
          if vkWS = [] then (None, ctx)
          else
            (let reqWS = GetStringFromContext ctx ''workspace_id'' in
             if reqWS = [] then (None, SetValue ''workspace_id'' (CtxStr vkWS) ctx)
             else if reqWS \<noteq> vkWS then
               (Some \<lparr>dse_Type = ''workspace_scope_mismatch'', dse_StatusCode = Some 403,
                      dse_Message = ReasonText ''Virtual key is scoped to a different workspace than the API key in use.''\<rparr>, ctx)
             else (None, ctx)))"

text \<open>The first part: the key of the request, its tenant and its workspace, and whether a key is mandatory.\<close>

definition request_key :: "LocalGovernanceStore \<Rightarrow> EvaluationRequest \<Rightarrow> DeepIntShieldContext \<Rightarrow> TableVirtualKey option" where
  "request_key gs request ctx =
     (if er_VirtualKey request \<noteq> [] then GetVirtualKey gs (governanceTenantIDFromContext ctx) (er_VirtualKey request) else None)"

definition mandatory_error :: "GovernancePlugin \<Rightarrow> EvaluationRequest \<Rightarrow> bool \<Rightarrow> DeepIntShieldError option" where
  "mandatory_error p request isVirtualKeyValid =
     (if p_isVkMandatory p = Some True \<and> er_VirtualKey request = [] then
        Some \<lparr>dse_Type = ''virtual_key_required'', dse_StatusCode = Some 401,
              dse_Message = ReasonText ''virtual key is required. Provide a virtual key via the x-bf-vk header.''\<rparr>
      else if p_isVkMandatory p = Some True \<and> \<not> isVirtualKeyValid then
        Some \<lparr>dse_Type = ''virtual_key_not_found'', dse_StatusCode = Some 403, dse_Message = ReasonText ''Virtual key not found.''\<rparr>
      else None)"

definition admit_key :: "GovernancePlugin \<Rightarrow> LocalGovernanceStore \<Rightarrow> EvaluationRequest \<Rightarrow> DeepIntShieldContext \<Rightarrow> DeepIntShieldError option \<times> DeepIntShieldContext" where
  "admit_key p gs request ctx =
     (let ovk = request_key gs request ctx;
          (e, ctx1) = (case ovk of None \<Rightarrow> (None, ctx) | Some vk \<Rightarrow> check_workspace vk (adopt_tenant vk ctx)) in
      if e \<noteq> None then (e, ctx1) else (mandatory_error p request (ovk \<noteq> None), ctx1))"

text \<open>The second part: provider and model, then the user, then the key.\<close>

definition evaluate_levels :: "LocalGovernanceStore \<Rightarrow> int \<Rightarrow> EvaluationRequest \<Rightarrow> string \<Rightarrow> DeepIntShieldContext \<Rightarrow> EvaluationResult \<times> DeepIntShieldContext" where
  "evaluate_levels gs now request requestType ctx =
     (let r1 = EvaluateModelAndProviderRequest gs now (governanceTenantIDFromContext ctx) (er_Provider request) (er_Model request);
          r2 = (if res_Decision r1 = DecisionAllow then EvaluateUserRequest gs now (er_UserID request) else r1) in
      if res_Decision r2 = DecisionAllow \<and> er_VirtualKey request \<noteq> [] then
        (if er_UserID request \<noteq> []
         then EvaluateVirtualKeyFiltering gs (er_VirtualKey request) (er_Provider request) (er_Model request) requestType ctx
         else EvaluateVirtualKeyRequest gs now (er_VirtualKey request) (er_Provider request) (er_Model request) requestType ctx)
      else (r2, ctx))"

definition rejected_key :: string where
  "rejected_key = ''bf-governance-rejected''"

definition is_rejected :: "DeepIntShieldContext \<Rightarrow> bool" where
  "is_rejected ctx \<longleftrightarrow> (case ctx_Value ctx rejected_key of Some (CtxBool b) \<Rightarrow> True | _ \<Rightarrow> False)"

definition evaluateGovernanceRequest :: "GovernancePlugin \<Rightarrow> LocalGovernanceStore \<Rightarrow> int \<Rightarrow> EvaluationRequest \<Rightarrow> string \<Rightarrow> DeepIntShieldContext \<Rightarrow> (EvaluationResult option \<times> DeepIntShieldError option) \<times> DeepIntShieldContext" where
  "evaluateGovernanceRequest p gs now request requestType ctx =
     (case admit_key p gs request ctx of
        (Some e, ctx1) \<Rightarrow> ((None, Some e), ctx1)
      | (None, ctx1) \<Rightarrow>
          (let (result, ctx2) = evaluate_levels gs now request requestType ctx1;
               ctx3 = set_if (res_Decision result \<noteq> DecisionAllow \<and> \<not> is_rejected ctx2) rejected_key (CtxBool True) ctx2 in
           ((Some result, decision_error result), ctx3)))"

definition PreLLMHook :: "GovernancePlugin \<Rightarrow> LocalGovernanceStore \<Rightarrow> int \<Rightarrow> string \<Rightarrow> string \<Rightarrow> string \<Rightarrow> DeepIntShieldContext \<Rightarrow> DeepIntShieldError option \<times> DeepIntShieldContext" where
  "PreLLMHook p gs now provider model requestType ctx =
     (if GetBoolFromContext ctx ''deepintshield-skip-key-selection'' then (None, ctx)
      else
        (case validateRequiredHeaders p ctx of
           Some e \<Rightarrow> (Some e, ctx)
         | None \<Rightarrow>
             (let request = \<lparr>er_VirtualKey = GetStringFromContext ctx ''x-bf-vk'', er_Provider = provider, er_Model = model,
                             er_UserID = GetStringFromContext ctx ''deepintshield-governance-user-id''\<rparr>;
                  ((result, e), ctx1) = evaluateGovernanceRequest p gs now request requestType ctx in
              (e, ctx1))))"

definition codeModeToolNames :: "string list" where
  "codeModeToolNames = [''listToolFiles'', ''readToolFile'', ''getToolDocs'', ''executeToolCode'']"

definition PreMCPHook :: "GovernancePlugin \<Rightarrow> LocalGovernanceStore \<Rightarrow> int \<Rightarrow> string \<Rightarrow> DeepIntShieldContext \<Rightarrow> DeepIntShieldError option \<times> DeepIntShieldContext" where
  "PreMCPHook p gs now toolName ctx =
     (if toolName \<in> set codeModeToolNames then (None, ctx)
      else
        (case validateRequiredHeaders p ctx of
           Some e \<Rightarrow> (Some e, ctx)
         | None \<Rightarrow>
             (let request = \<lparr>er_VirtualKey = GetStringFromContext ctx ''x-bf-vk'', er_Provider = [], er_Model = [],
                             er_UserID = GetStringFromContext ctx ''deepintshield-governance-user-id''\<rparr>;
                  ((result, e), ctx1) = evaluateGovernanceRequest p gs now request ''mcp_tool_execution'' ctx in
              (e, ctx1))))"

section \<open>The charge after a call\<close>

text \<open>A response by the token counts of its parts, each present when the part and its usage are; the
  cases of the worker are tried in this order.\<close>

record LLMResponse =
  resp_TokenCounts :: "int option list"
  resp_Cost :: rat
  resp_ModelIDs :: "string list option"

definition tokens_used :: "LLMResponse \<Rightarrow> int" where
  "tokens_used r = (case List.map_filter id (resp_TokenCounts r) of [] \<Rightarrow> 0 | n # _ \<Rightarrow> n)"

definition stream_requests :: "string list" where
  "stream_requests = [''text_completion_stream'', ''chat_completion_stream'', ''responses_stream'', ''speech_stream'',
     ''transcription_stream'', ''image_generation_stream'', ''image_edit_stream'', ''passthrough_stream'',
     ''websocket_responses'', ''realtime'']"

definition IsStreamRequestType :: "string \<Rightarrow> bool" where
  "IsStreamRequestType requestType \<longleftrightarrow> requestType \<in> set stream_requests"

text \<open>The update the worker hands to the tracker, if it hands one over.  The cost is the catalogue's,
  zero without a catalogue.\<close>

definition postHookWorker :: "bool \<Rightarrow> LLMResponse option \<Rightarrow> string \<Rightarrow> string \<Rightarrow> string \<Rightarrow> string \<Rightarrow> string \<Rightarrow> string \<Rightarrow> bool \<Rightarrow> UsageUpdate option" where
  "postHookWorker hasCatalog result provider model requestType virtualKey requestID userID isFinalChunk =
     (let isStreaming = IsStreamRequestType requestType;
          tokens = (case result of None \<Rightarrow> 0 | Some r \<Rightarrow> tokens_used r) in
      if \<not> isStreaming \<or> isStreaming \<and> isFinalChunk then
        Some \<lparr>uu_VirtualKey = virtualKey, uu_Provider = provider, uu_Model = model, uu_Success = (result \<noteq> None),
              uu_TokensUsed = tokens, uu_Cost = (case result of Some r \<Rightarrow> if hasCatalog then resp_Cost r else 0 | None \<Rightarrow> 0),
              uu_RequestID = requestID, uu_UserID = userID, uu_IsStreaming = isStreaming, uu_IsFinalChunk = isFinalChunk,
              uu_HasUsageData = (tokens > 0)\<rparr>
      else None)"

text \<open>\<open>filterModelsForVirtualKey\<close> asks the catalogue without testing that there is one: without it
  the call panics, which is \<open>None\<close> here.\<close>

definition filterModelsForVirtualKey :: "LocalGovernanceStore \<Rightarrow> string \<Rightarrow> string list \<Rightarrow> string \<Rightarrow> string list option" where
  "filterModelsForVirtualKey gs tenantID models virtualKeyValue =
     (case GetVirtualKey gs tenantID virtualKeyValue of
        None \<Rightarrow> Some []
      | Some vk \<Rightarrow>
          if ProviderConfigs vk = [] then Some models
          else
            (case gs_modelCatalog gs of
               None \<Rightarrow>
                 if list_ex (\<lambda>i. list_ex (\<lambda>pc. pc_Provider pc = fst (ParseModelString (gs_known gs) i [])) (ProviderConfigs vk)) models
                 then None else Some []
             | Some mc \<Rightarrow>
                 Some (filter (\<lambda>i. let (provider, modelName) = ParseModelString (gs_known gs) i [] in
                   list_ex (\<lambda>pc. pc_Provider pc = provider \<and>
                     IsModelAllowedForProvider (gs_known gs) mc provider modelName (AllowedModels pc)) (ProviderConfigs vk)) models)))"

definition newUsageTrackingContext :: "DeepIntShieldContext \<Rightarrow> string" where
  "newUsageTrackingContext ctx = TrimSpace (GetStringFromContext ctx ''tenant_id'')"

text \<open>
  \<open>PostLLMHook\<close> gives back the response and starts the worker; the second component is what the
  worker will charge, and under which tenant.  \<open>None\<close> as a whole is the panic of the model filter.
\<close>

definition PostLLMHook :: "LocalGovernanceStore \<Rightarrow> LLMResponse option \<Rightarrow> string \<Rightarrow> string \<Rightarrow> string \<Rightarrow> DeepIntShieldContext \<Rightarrow> (LLMResponse option \<times> (string \<times> UsageUpdate) option) option" where
  "PostLLMHook gs result requestType provider model ctx =
     (if is_rejected ctx then Some (result, None)
      else
        (let virtualKey = GetStringFromContext ctx ''x-bf-vk'';
             userID = GetStringFromContext ctx ''deepintshield-governance-user-id'';
             isFinalChunk = GetBoolFromContext ctx ''deepintshield-stream-end-indicator'';
             filtered =
               (case result of
                  None \<Rightarrow> Some result
                | Some r \<Rightarrow>
                    (case resp_ModelIDs r of
                       None \<Rightarrow> Some result
                     | Some ids \<Rightarrow>
                         if requestType = ''list_models'' \<and> virtualKey \<noteq> [] then
                           map_option (\<lambda>ids'. Some (r\<lparr>resp_ModelIDs := Some ids'\<rparr>))
                             (filterModelsForVirtualKey gs (governanceTenantIDFromContext ctx) ids virtualKey)
                         else Some result)) in
         map_option (\<lambda>result'.
           (result',
            if model \<noteq> [] then
              map_option (\<lambda>u. (newUsageTrackingContext ctx, u))
                (postHookWorker (gs_modelCatalog gs \<noteq> None) result' provider model requestType
                   (if userID \<noteq> [] then [] else virtualKey) (GetStringFromContext ctx ''request-id'') userID isFinalChunk)
            else None)) filtered))"

text \<open>\<open>PostMCPHook\<close>: the update of a tool call, with the price of the tool as an argument.\<close>

definition PostMCPHook :: "bool \<Rightarrow> string \<Rightarrow> rat option \<Rightarrow> DeepIntShieldContext \<Rightarrow> (string \<times> UsageUpdate) option" where
  "PostMCPHook success toolName price ctx =
     (let userID = GetStringFromContext ctx ''deepintshield-governance-user-id'';
          virtualKey = (if userID \<noteq> [] then [] else GetStringFromContext ctx ''x-bf-vk'');
          toolCost = (case price of Some c \<Rightarrow> if success then c else 0 | None \<Rightarrow> 0) in
      if is_rejected ctx \<or> virtualKey = [] \<or> success \<and> toolName \<in> set codeModeToolNames then None
      else Some (newUsageTrackingContext ctx,
        \<lparr>uu_VirtualKey = virtualKey, uu_Provider = [], uu_Model = [], uu_Success = success, uu_TokensUsed = 0,
         uu_Cost = toolCost, uu_RequestID = GetStringFromContext ctx ''request-id'', uu_UserID = [],
         uu_IsStreaming = False, uu_IsFinalChunk = True, uu_HasUsageData = (toolCost > 0)\<rparr>))"

end
