(* ===== verification/GovMeter.thy ===== *)
theory GovMeter
  imports GovPlugin
begin

text \<open>
  Metering in the governance store.  Budgets and rate limits are metered the same way: a row is reset
  when its window has passed and charged afterwards, and a request charges the rows of a list of
  identifiers.  The locale \<open>metered\<close> states that contract and proves, once, what a list of charges
  does to every row; it is interpreted on the budgets and on the rate limits of the store.  The
  theory then determines what \<^const>\<open>UpdateUsage\<close> charges, and when a request is admitted.
\<close>

section \<open>The contract of a metered row\<close>

definition charge_row :: "('r \<Rightarrow> 'r) \<Rightarrow> string \<Rightarrow> 'r smap \<Rightarrow> 'r smap" where
  "charge_row f i m = (case Load m i of None \<Rightarrow> m | Some r \<Rightarrow> Store i (f r) m)"

definition keyed :: "('r \<Rightarrow> string) \<Rightarrow> 'r smap \<Rightarrow> bool" where
  "keyed idf m \<longleftrightarrow> distinct (map fst m) \<and> (\<forall>i r. Load m i = Some r \<longrightarrow> idf r = i)"

named_theorems keyed_intros \<open>operations that keep a map keyed\<close>

lemma keyed_Load: "keyed idf m \<Longrightarrow> Load m i = Some r \<Longrightarrow> idf r = i"
  by (simp add: keyed_def)

lemma keyed_distinct: "keyed idf m \<Longrightarrow> distinct (map fst m)"
  by (simp add: keyed_def)

lemma keyed_Nil [simp, keyed_intros]: "keyed idf []"
  by (simp add: keyed_def)

lemma keyed_Store [keyed_intros]: "keyed idf m \<Longrightarrow> idf r = i \<Longrightarrow> keyed idf (Store i r m)"
  by (simp add: keyed_def distinct_update)

lemma keyed_Delete [keyed_intros]: "keyed idf m \<Longrightarrow> keyed idf (Delete i m)"
  by (simp add: keyed_def distinct_delete)

lemma Load_map_entries [simp]: "Load (map_entries f m) i = map_option f (Load m i)"
  by (induction m) (auto simp: map_entries_def)

lemma fst_map_entries [simp]: "map fst (map_entries f m) = map fst m"
  by (induction m) (auto simp: map_entries_def)

lemma keyed_map_entries [keyed_intros]: "keyed idf m \<Longrightarrow> (\<And>r. idf (f r) = idf r) \<Longrightarrow> keyed idf (map_entries f m)"
  by (auto simp: keyed_def)

lemma keyed_charge_row [keyed_intros]: "keyed idf m \<Longrightarrow> (\<And>r. idf (f r) = idf r) \<Longrightarrow> keyed idf (charge_row f i m)"
  by (auto simp: charge_row_def keyed_Load intro: keyed_Store split: option.split)

lemma Load_charge_row: "Load (charge_row f i m) j = (if j = i then map_option f (Load m i) else Load m j)"
  by (simp add: charge_row_def split: option.split)

lemma Load_charge_rows: "Load (fold (charge_row f) ids m) i = map_option (f ^^ count_list ids i) (Load m i)"
proof (induction ids arbitrary: m)
  case Nil
  then show ?case by (simp add: option.map_id0 id_def [symmetric])
next
  case (Cons j ids)
  have "map_option (f ^^ n) (map_option f x) = map_option (f ^^ Suc n) x" for n x
    by (simp add: option.map_comp funpow_Suc_right del: funpow.simps(2))
  then show ?case by (simp add: Cons.IH Load_charge_row del: funpow.simps(2))
qed

lemma keyed_charge_rows [keyed_intros]:
  "keyed idf m \<Longrightarrow> (\<And>r. idf (f r) = idf r) \<Longrightarrow> keyed idf (fold (charge_row f) ids m)"
  by (induction ids arbitrary: m) (auto intro: keyed_charge_row)

text \<open>
  The provider of the contract gives the identifier of a row, its lazy reset and its charge, which
  starts with the reset.  Resetting twice at one instant is resetting once, and neither step changes
  the identifier.
\<close>

locale metered =
  fixes idf :: "'r \<Rightarrow> string"
    and reset :: "int \<Rightarrow> 'r \<Rightarrow> 'r"
    and charge :: "int \<Rightarrow> 'c \<Rightarrow> 'r \<Rightarrow> 'r"
  assumes idf_reset: "idf (reset now r) = idf r"
    and idf_charge: "idf (charge now c r) = idf r"
    and charge_reset: "charge now c (reset now r) = charge now c r"
begin

lemma keyed_charges: "keyed idf m \<Longrightarrow> keyed idf (fold (charge_row (charge now c)) ids m)"
  by (rule keyed_charge_rows) (simp_all add: idf_charge)

lemma keyed_resets: "keyed idf m \<Longrightarrow> keyed idf (map_entries (reset now) m)"
  by (rule keyed_map_entries) (simp_all add: idf_reset)

text \<open>The background reset makes no difference to a charge at the same instant.\<close>

lemma charge_after_reset:
  assumes "i \<in> set ids"
  shows "Load (fold (charge_row (charge now c)) ids (map_entries (reset now) m)) i =
         Load (fold (charge_row (charge now c)) ids m) i"
proof -
  from assms obtain n where n: "count_list ids i = Suc n"
    by (metis count_list_0_iff not0_implies_Suc)
  have "(charge now c ^^ Suc n) (reset now r) = (charge now c ^^ Suc n) r" for r
    by (simp add: funpow_Suc_right charge_reset del: funpow.simps(2))
  then show ?thesis by (simp add: Load_charge_rows n option.map_comp comp_def del: funpow.simps(2))
qed

end

section \<open>The two providers\<close>

lemma bud_ID_charge [simp]: "bud_ID (budget_charge now c b) = bud_ID b" "bud_ID (budget_reset now b) = bud_ID b"
  by (simp_all add: budget_charge_def budget_reset_def Let_def)

lemma budget_reset_idem [simp]: "budget_reset now (budget_reset now b) = budget_reset now b"
  by (simp add: budget_reset_def)

lemma budget_charge_reset [simp]: "budget_charge now c (budget_reset now b) = budget_charge now c b"
  by (simp add: budget_charge_def)

interpretation budgets: metered bud_ID budget_reset budget_charge
  by unfold_locales simp_all

lemma rl_ID_charge [simp]: "rl_ID (rate_charge now t b b' rl) = rl_ID rl" "rl_ID (rate_reset now rl) = rl_ID rl"
  by (simp_all add: rate_charge_def rate_reset_def Let_def)

lemma rate_reset_idem [simp]: "rate_reset now (rate_reset now rl) = rate_reset now rl"
  by (simp add: rate_reset_def Let_def)

lemma rate_charge_reset [simp]: "rate_charge now t b b' (rate_reset now rl) = rate_charge now t b b' rl"
  by (simp add: rate_charge_def)

interpretation limits: metered rl_ID rate_reset "\<lambda>now (t, b, b'). rate_charge now t b b'"
  by unfold_locales auto

section \<open>What a response charges\<close>

lemma budgets_updateBudgets:
  "fold (updateBudget now cost) ids gs = gs\<lparr>gs_budgets := fold (charge_row (budget_charge now cost)) ids (gs_budgets gs)\<rparr>"
  by (induction ids arbitrary: gs) (auto simp: updateBudget_def charge_row_def split: option.split)

lemma limits_updateRateLimits:
  "fold (updateRateLimit now t b b') ids gs = gs\<lparr>gs_rateLimits := fold (charge_row (rate_charge now t b b')) ids (gs_rateLimits gs)\<rparr>"
  by (induction ids arbitrary: gs) (auto simp: updateRateLimit_def charge_row_def split: option.split)

text \<open>The levels of the hierarchy of a key: their names and the identifiers they refer to.  The four
  selectors pick the budget or the rate limit of a row.\<close>

definition hierarchy_levels ::
  "(TableVirtualKeyProviderConfig \<Rightarrow> string option) \<Rightarrow> (TableVirtualKey \<Rightarrow> string option) \<Rightarrow> (TableTeam \<Rightarrow> string option) \<Rightarrow>
   (TableCustomer \<Rightarrow> string option) \<Rightarrow> LocalGovernanceStore \<Rightarrow> TableVirtualKey \<Rightarrow> string \<Rightarrow> (string \<times> string option) list" where
  "hierarchy_levels ofPC ofVK ofTeam ofCustomer gs vk provider =
     (let team = Option.bind (vk_TeamID vk) (getTeamByTenant gs (vk_TenantID vk));
          customer = (\<lambda>oc. case Option.bind oc (getCustomerByTenant gs (vk_TenantID vk)) of None \<Rightarrow> [] | Some c \<Rightarrow> [(''Customer'', ofCustomer c)]);
          teamCustomer = Option.bind team team_CustomerID in
      map (\<lambda>pc. (pc_Provider pc, ofPC pc)) (filter (\<lambda>pc. pc_Provider pc = provider) (ProviderConfigs vk)) @
      (''VK'', ofVK vk) #
      (case team of None \<Rightarrow> [] | Some t \<Rightarrow> (''Team'', ofTeam t) # customer (team_CustomerID t)) @
      (if teamCustomer = None \<or> teamCustomer = Some [] \<or> vk_CustomerID vk \<noteq> teamCustomer then customer (vk_CustomerID vk) else []))"

definition budget_levels :: "LocalGovernanceStore \<Rightarrow> TableVirtualKey \<Rightarrow> string \<Rightarrow> (string \<times> string option) list" where
  "budget_levels = hierarchy_levels pc_BudgetID vk_BudgetID team_BudgetID cus_BudgetID"

definition limit_levels :: "LocalGovernanceStore \<Rightarrow> TableVirtualKey \<Rightarrow> string \<Rightarrow> (string \<times> string option) list" where
  "limit_levels = hierarchy_levels pc_RateLimitID vk_RateLimitID team_RateLimitID cus_RateLimitID"

lemma concat_map_filter: "concat (map f (filter P xs)) = concat (map (\<lambda>x. if P x then f x else []) xs)"
  by (induction xs) auto

lemma collectBudgets_levels:
  "collectBudgetsFromHierarchy gs (Some vk) provider =
   concat (map (\<lambda>(name, oid). named name (by_id (gs_budgets gs) oid)) (budget_levels gs vk provider))"
proof (cases "Option.bind (vk_TeamID vk) (getTeamByTenant gs (vk_TenantID vk))")
  case None
  then show ?thesis
    unfolding collectBudgetsFromHierarchy_def budget_levels_def hierarchy_levels_def Let_def
    by (cases "vk_TeamID vk"; cases "vk_CustomerID vk") (simp_all add: concat_map_filter comp_def split: option.split)
next
  case (Some t)
  then obtain i where "vk_TeamID vk = Some i" "getTeamByTenant gs (vk_TenantID vk) i = Some t"
    by (cases "vk_TeamID vk") auto
  then show ?thesis
    unfolding collectBudgetsFromHierarchy_def budget_levels_def hierarchy_levels_def Let_def
    by (cases "team_CustomerID t"; cases "vk_CustomerID vk") (simp_all add: concat_map_filter comp_def split: option.split)
qed

lemma collectRateLimits_levels:
  "collectRateLimitsFromHierarchy gs (Some vk) provider =
   concat (map (\<lambda>(name, oid). named name (by_id (gs_rateLimits gs) oid)) (limit_levels gs vk provider))"
proof (cases "Option.bind (vk_TeamID vk) (getTeamByTenant gs (vk_TenantID vk))")
  case None
  then show ?thesis
    unfolding collectRateLimitsFromHierarchy_def limit_levels_def hierarchy_levels_def Let_def
    by (cases "vk_TeamID vk"; cases "vk_CustomerID vk") (simp_all add: concat_map_filter comp_def split: option.split)
next
  case (Some t)
  then obtain i where "vk_TeamID vk = Some i" "getTeamByTenant gs (vk_TenantID vk) i = Some t"
    by (cases "vk_TeamID vk") auto
  then show ?thesis
    unfolding collectRateLimitsFromHierarchy_def limit_levels_def hierarchy_levels_def Let_def
    by (cases "team_CustomerID t"; cases "vk_CustomerID vk") (simp_all add: concat_map_filter comp_def split: option.split)
qed

definition level_ids :: "(string \<times> string option) list \<Rightarrow> string list" where
  "level_ids ls = concat (map (option_list \<circ> snd) ls)"

text \<open>Charging the rows that were found is charging every identifier the levels refer to.\<close>

lemma charge_found:
  assumes "keyed idf m"
  shows "fold (charge_row f) (map (idf \<circ> fst) (concat (map (\<lambda>(name, oid). named name (by_id m oid)) ls))) m =
         fold (charge_row f) (level_ids ls) m"
proof -
  define known where "known i \<longleftrightarrow> Load m i \<noteq> None" for i
  have "map (idf \<circ> fst) (concat (map (\<lambda>(name, oid). named name (by_id m oid)) ls)) = filter known (level_ids ls)"
    using assms by (induction ls) (auto simp: level_ids_def named_def by_id_def option_list_def known_def keyed_Load split: option.split)
  moreover have "fold (charge_row f) (filter known ids) m' = fold (charge_row f) ids m'"
    if "\<And>i. Load m' i = None \<longleftrightarrow> \<not> known i" for ids m'
    using that
  proof (induction ids arbitrary: m')
    case (Cons i ids)
    have "Load (charge_row f i m') j = None \<longleftrightarrow> \<not> known j" for j
      using Cons.prems by (auto simp: Load_charge_row)
    moreover have "charge_row f i m' = m'" if "\<not> known i"
      using that Cons.prems [of i] by (simp add: charge_row_def)
    ultimately show ?case using Cons by auto
  qed simp
  ultimately show ?thesis by (simp add: known_def)
qed

text \<open>The identifiers of the budgets a usage update charges, one entry for every level that names
  one: provider, model and provider, model, user, and the hierarchy of the key.\<close>

definition user_budget_ids :: "LocalGovernanceStore \<Rightarrow> string \<Rightarrow> string list" where
  "user_budget_ids gs userID =
     (case GetUserGovernance gs userID of None \<Rightarrow> [] | Some ug \<Rightarrow> option_list (ug_BudgetID ug))"

definition model_budget_ids :: "LocalGovernanceStore \<Rightarrow> string \<Rightarrow> string \<Rightarrow> string \<Rightarrow> string list" where
  "model_budget_ids gs tenantID model provider =
     provider_budget_ids gs tenantID provider @
     concat (map (option_list \<circ> mcfg_BudgetID \<circ> fst) (model_configs gs tenantID model provider))"

definition charged_budget_ids :: "LocalGovernanceStore \<Rightarrow> string \<Rightarrow> UsageUpdate \<Rightarrow> string list" where
  "charged_budget_ids gs tenantID update =
     (if \<not> uu_Success update \<or> uu_IsStreaming update \<and> \<not> uu_HasUsageData update \<or> uu_Cost update \<le> 0 then []
      else
        (if uu_Provider update \<noteq> [] \<and> uu_Model update \<noteq> []
         then model_budget_ids gs tenantID (uu_Model update) (uu_Provider update) else []) @
        (if uu_UserID update \<noteq> [] then user_budget_ids gs (uu_UserID update) else []) @
        (if uu_VirtualKey update \<noteq> []
         then (case GetVirtualKey gs tenantID (uu_VirtualKey update) of
                 None \<Rightarrow> []
               | Some vk \<Rightarrow> level_ids (budget_levels gs vk (uu_Provider update)))
         else []))"

text \<open>A store in which every budget and every rate limit is filed under its identifier.\<close>

definition metering_ok :: "LocalGovernanceStore \<Rightarrow> bool" where
  "metering_ok gs \<longleftrightarrow> keyed bud_ID (gs_budgets gs) \<and> keyed rl_ID (gs_rateLimits gs)"

lemma fold_none_rows: "(\<And>i. i \<in> set ids \<Longrightarrow> Load m i = None) \<Longrightarrow> fold (charge_row f) ids m = m"
  by (induction ids) (auto simp: charge_row_def)

lemma user_budget_charge:
  assumes "keyed bud_ID (gs_budgets gs)" "0 < cost" "userID \<noteq> []"
  shows "UpdateUserBudgetUsageInMemory now userID cost gs =
         gs\<lparr>gs_budgets := fold (charge_row (budget_charge now cost)) (user_budget_ids gs userID) (gs_budgets gs)\<rparr>"
  using assms by (auto simp: UpdateUserBudgetUsageInMemory_def user_budget_ids_def by_id_def option_list_def charge_row_def
      keyed_Load split: option.split)

text \<open>A look-up that charges no budget sees the same configuration before and after a charge.\<close>

lemma lookups_stable:
  assumes "gs_virtualKeys gs' = gs_virtualKeys gs" "gs_teams gs' = gs_teams gs" "gs_customers gs' = gs_customers gs"
    "gs_modelConfigs gs' = gs_modelConfigs gs" "gs_providers gs' = gs_providers gs" "gs_users gs' = gs_users gs"
    "gs_modelCatalog gs' = gs_modelCatalog gs" "gs_known gs' = gs_known gs"
  shows "GetVirtualKey gs' = GetVirtualKey gs" "model_configs gs' = model_configs gs"
    "getProviderByContext gs' = getProviderByContext gs" "GetUserGovernance gs' = GetUserGovernance gs"
    "getTeamByTenant gs' = getTeamByTenant gs" "getCustomerByTenant gs' = getCustomerByTenant gs"
  unfolding fun_eq_iff GetVirtualKey_def model_configs_def findProviderSpecificModelConfig_def
    findModelOnlyConfig_def other_base_def getProviderByContext_def GetUserGovernance_def getTeamByTenant_def
    getCustomerByTenant_def assms
  by simp_all


lemma level_ids_stable:
  assumes "gs_teams gs' = gs_teams gs" "gs_customers gs' = gs_customers gs"
  shows "budget_levels gs' = budget_levels gs" "limit_levels gs' = limit_levels gs"
proof -
  have [simp]: "getTeamByTenant gs' = getTeamByTenant gs" "getCustomerByTenant gs' = getCustomerByTenant gs"
    using assms by (simp_all add: fun_eq_iff getTeamByTenant_def getCustomerByTenant_def)
  show "budget_levels gs' = budget_levels gs" "limit_levels gs' = limit_levels gs"
    by (simp_all add: fun_eq_iff budget_levels_def limit_levels_def hierarchy_levels_def)
qed

lemma vk_budget_charge:
  assumes "keyed bud_ID (gs_budgets gs)"
  shows "snd (UpdateVirtualKeyBudgetUsageInMemory now (Some vk) provider cost gs) =
         gs\<lparr>gs_budgets := fold (charge_row (budget_charge now cost)) (level_ids (budget_levels gs vk provider)) (gs_budgets gs)\<rparr>"
  by (simp add: UpdateVirtualKeyBudgetUsageInMemory_def collectBudgetIDsFromMemory_def collectBudgets_levels
      budgets_updateBudgets charge_found [OF assms])

lemma vk_limit_charge:
  assumes "keyed rl_ID (gs_rateLimits gs)"
  shows "snd (UpdateVirtualKeyRateLimitUsageInMemory now (Some vk) provider t b b' gs) =
         gs\<lparr>gs_rateLimits := fold (charge_row (rate_charge now t b b')) (level_ids (limit_levels gs vk provider)) (gs_rateLimits gs)\<rparr>"
  by (simp add: UpdateVirtualKeyRateLimitUsageInMemory_def collectRateLimitIDsFromMemory_def collectRateLimits_levels
      limits_updateRateLimits charge_found [OF assms])

lemma user_limit_charge:
  assumes "keyed rl_ID (gs_rateLimits gs)"
  obtains m where "UpdateUserRateLimitUsageInMemory now userID t b b' gs = gs\<lparr>gs_rateLimits := m\<rparr>" "keyed rl_ID m"
proof -
  have "\<exists>m. UpdateUserRateLimitUsageInMemory now userID t b b' gs = gs\<lparr>gs_rateLimits := m\<rparr> \<and> keyed rl_ID m"
  proof (cases "Option.bind (GetUserGovernance gs userID) (\<lambda>ug. by_id (gs_rateLimits gs) (ug_RateLimitID ug))")
    case None
    then have "UpdateUserRateLimitUsageInMemory now userID t b b' gs = gs\<lparr>gs_rateLimits := gs_rateLimits gs\<rparr>"
      by (auto simp: UpdateUserRateLimitUsageInMemory_def split: option.split bind_splits)
    then show ?thesis using assms by blast
  next
    case (Some rl)
    then have "UpdateUserRateLimitUsageInMemory now userID t b b' gs =
        gs\<lparr>gs_rateLimits := (if userID = [] then gs_rateLimits gs else Store (rl_ID rl) (rate_charge now t b b' rl) (gs_rateLimits gs))\<rparr>"
      by (auto simp: UpdateUserRateLimitUsageInMemory_def split: option.split bind_splits)
    moreover have "keyed rl_ID (if userID = [] then gs_rateLimits gs else Store (rl_ID rl) (rate_charge now t b b' rl) (gs_rateLimits gs))"
      using assms by (simp add: keyed_Store)
    ultimately show ?thesis by blast
  qed
  then show ?thesis using that by blast
qed

text \<open>The look-ups do not depend on the two metered maps.\<close>

lemma lookups_metered [simp]:
  "GetVirtualKey (gs\<lparr>gs_rateLimits := m\<rparr>) = GetVirtualKey gs" "GetVirtualKey (gs\<lparr>gs_budgets := m'\<rparr>) = GetVirtualKey gs"
  "model_configs (gs\<lparr>gs_rateLimits := m\<rparr>) = model_configs gs" "model_configs (gs\<lparr>gs_budgets := m'\<rparr>) = model_configs gs"
  "getProviderByContext (gs\<lparr>gs_rateLimits := m\<rparr>) = getProviderByContext gs"
  "getProviderByContext (gs\<lparr>gs_budgets := m'\<rparr>) = getProviderByContext gs"
  "GetUserGovernance (gs\<lparr>gs_rateLimits := m\<rparr>) = GetUserGovernance gs"
  "GetUserGovernance (gs\<lparr>gs_budgets := m'\<rparr>) = GetUserGovernance gs"
  "budget_levels (gs\<lparr>gs_rateLimits := m\<rparr>) = budget_levels gs" "budget_levels (gs\<lparr>gs_budgets := m'\<rparr>) = budget_levels gs"
  "limit_levels (gs\<lparr>gs_rateLimits := m\<rparr>) = limit_levels gs" "limit_levels (gs\<lparr>gs_budgets := m'\<rparr>) = limit_levels gs"
  by (simp_all add: lookups_stable [of "gs\<lparr>gs_rateLimits := m\<rparr>" gs] lookups_stable [of "gs\<lparr>gs_budgets := m'\<rparr>" gs]
      level_ids_stable [of "gs\<lparr>gs_rateLimits := m\<rparr>" gs] level_ids_stable [of "gs\<lparr>gs_budgets := m'\<rparr>" gs])

lemma ids_metered [simp]:
  "user_budget_ids (gs\<lparr>gs_rateLimits := m\<rparr>) = user_budget_ids gs" "user_budget_ids (gs\<lparr>gs_budgets := m'\<rparr>) = user_budget_ids gs"
  "model_budget_ids (gs\<lparr>gs_rateLimits := m\<rparr>) = model_budget_ids gs" "model_budget_ids (gs\<lparr>gs_budgets := m'\<rparr>) = model_budget_ids gs"
  by (simp_all add: fun_eq_iff user_budget_ids_def model_budget_ids_def provider_budget_ids_def)

abbreviation charge_ids :: "int \<Rightarrow> rat \<Rightarrow> string list \<Rightarrow> TableBudget smap \<Rightarrow> TableBudget smap" where
  "charge_ids now cost \<equiv> fold (charge_row (budget_charge now cost))"

lemma charge_model_form:
  assumes "keyed rl_ID (gs_rateLimits gs)"
  shows "\<exists>m. keyed rl_ID m \<and> charge_model now tenantID u tokens requests budget gs =
    gs\<lparr>gs_rateLimits := m, gs_budgets := charge_ids now (uu_Cost u)
        (if budget \<and> uu_Cost u > 0 \<and> uu_Provider u \<noteq> [] \<and> uu_Model u \<noteq> [] then model_budget_ids gs tenantID (uu_Model u) (uu_Provider u) else [])
        (gs_budgets gs)\<rparr>"
proof -
  define m where "m = fold (charge_row (rate_charge now (uu_TokensUsed u) tokens requests))
     (provider_rate_ids gs tenantID (uu_Provider u) @
      concat (map (option_list \<circ> mcfg_RateLimitID \<circ> fst) (model_configs gs tenantID (uu_Model u) (uu_Provider u)))) (gs_rateLimits gs)"
  have "keyed rl_ID m" unfolding m_def using assms by (rule keyed_charge_rows) simp
  moreover have "UpdateProviderAndModelRateLimitUsageInMemory now tenantID (uu_Model u) (uu_Provider u) (uu_TokensUsed u) tokens requests gs =
      gs\<lparr>gs_rateLimits := m\<rparr>"
    by (simp add: UpdateProviderAndModelRateLimitUsageInMemory_def limits_updateRateLimits m_def)
  moreover have "UpdateProviderAndModelBudgetUsageInMemory now tenantID (uu_Model u) (uu_Provider u) (uu_Cost u) g =
      g\<lparr>gs_budgets := charge_ids now (uu_Cost u) (model_budget_ids g tenantID (uu_Model u) (uu_Provider u)) (gs_budgets g)\<rparr>" for g
    by (simp add: UpdateProviderAndModelBudgetUsageInMemory_def budgets_updateBudgets model_budget_ids_def)
  ultimately have "charge_model now tenantID u tokens requests budget gs =
    gs\<lparr>gs_rateLimits := (if uu_Provider u \<noteq> [] \<and> uu_Model u \<noteq> [] then m else gs_rateLimits gs), gs_budgets := charge_ids now (uu_Cost u)
        (if budget \<and> uu_Cost u > 0 \<and> uu_Provider u \<noteq> [] \<and> uu_Model u \<noteq> [] then model_budget_ids gs tenantID (uu_Model u) (uu_Provider u) else [])
        (gs_budgets gs)\<rparr>"
    by (simp add: charge_model_def Let_def)
  then show ?thesis
    using \<open>keyed rl_ID m\<close> assms by (intro exI [of _ "if uu_Provider u \<noteq> [] \<and> uu_Model u \<noteq> [] then m else gs_rateLimits gs"]) auto
qed

lemma charge_user_form:
  assumes "metering_ok gs"
  shows "\<exists>m. keyed rl_ID m \<and> charge_user now u tokens requests budget gs =
    gs\<lparr>gs_rateLimits := m, gs_budgets := charge_ids now (uu_Cost u)
        (if budget \<and> uu_Cost u > 0 \<and> uu_UserID u \<noteq> [] then user_budget_ids gs (uu_UserID u) else []) (gs_budgets gs)\<rparr>"
proof -
  from assms have k: "keyed bud_ID (gs_budgets gs)" "keyed rl_ID (gs_rateLimits gs)" by (simp_all add: metering_ok_def)
  from k(2) obtain m where m: "UpdateUserRateLimitUsageInMemory now (uu_UserID u) (uu_TokensUsed u) tokens requests gs = gs\<lparr>gs_rateLimits := m\<rparr>"
    "keyed rl_ID m" by (rule user_limit_charge)
  have "charge_user now u tokens requests budget gs =
    gs\<lparr>gs_rateLimits := (if uu_UserID u \<noteq> [] then m else gs_rateLimits gs), gs_budgets := charge_ids now (uu_Cost u)
        (if budget \<and> uu_Cost u > 0 \<and> uu_UserID u \<noteq> [] then user_budget_ids gs (uu_UserID u) else []) (gs_budgets gs)\<rparr>"
    using k by (simp add: charge_user_def Let_def m user_budget_charge)
  then show ?thesis using m(2) k(2) by (intro exI [of _ "if uu_UserID u \<noteq> [] then m else gs_rateLimits gs"]) auto
qed

lemma charge_vk_form:
  assumes "metering_ok gs"
  shows "\<exists>m. keyed rl_ID m \<and> charge_vk now u tokens requests budget vk gs =
    gs\<lparr>gs_rateLimits := m, gs_budgets := charge_ids now (uu_Cost u)
        (if budget \<and> uu_Cost u > 0 then level_ids (budget_levels gs vk (uu_Provider u)) else []) (gs_budgets gs)\<rparr>"
proof -
  from assms have k: "keyed bud_ID (gs_budgets gs)" "keyed rl_ID (gs_rateLimits gs)" by (simp_all add: metering_ok_def)
  define has where "has \<longleftrightarrow> vk_RateLimit vk \<noteq> None \<or> ProviderConfigs vk \<noteq> [] \<or> vk_TeamID vk \<noteq> None \<or> vk_CustomerID vk \<noteq> None"
  define m where "m = (if has then fold (charge_row (rate_charge now (uu_TokensUsed u) tokens requests)) (level_ids (limit_levels gs vk (uu_Provider u))) (gs_rateLimits gs) else gs_rateLimits gs)"
  have "keyed rl_ID m" unfolding m_def using k(2) by (auto intro: keyed_charge_rows)
  moreover have "charge_vk now u tokens requests budget vk gs =
    gs\<lparr>gs_rateLimits := m, gs_budgets := charge_ids now (uu_Cost u)
        (if budget \<and> uu_Cost u > 0 then level_ids (budget_levels gs vk (uu_Provider u)) else []) (gs_budgets gs)\<rparr>"
    unfolding charge_vk_def has_def [symmetric] using k by (simp add: vk_limit_charge vk_budget_charge m_def Let_def)
  ultimately show ?thesis by blast
qed

definition early_ids :: "LocalGovernanceStore \<Rightarrow> string \<Rightarrow> UsageUpdate \<Rightarrow> bool \<Rightarrow> string list" where
  "early_ids gs tenantID u budget =
     (if budget \<and> uu_Cost u > 0 \<and> uu_Provider u \<noteq> [] \<and> uu_Model u \<noteq> [] then model_budget_ids gs tenantID (uu_Model u) (uu_Provider u) else []) @
     (if budget \<and> uu_Cost u > 0 \<and> uu_UserID u \<noteq> [] then user_budget_ids gs (uu_UserID u) else [])"

lemma charge_first_form:
  assumes "metering_ok gs"
  shows "\<exists>m. keyed rl_ID m \<and> charge_user now u tokens requests budget (charge_model now tenantID u tokens requests budget gs) =
    gs\<lparr>gs_rateLimits := m, gs_budgets := charge_ids now (uu_Cost u) (early_ids gs tenantID u budget) (gs_budgets gs)\<rparr>"
proof -
  have k: "keyed bud_ID (gs_budgets gs)" "keyed rl_ID (gs_rateLimits gs)" using assms by (simp_all add: metering_ok_def)
  obtain m1 ids1 where m1: "keyed rl_ID m1"
    "charge_model now tenantID u tokens requests budget gs = gs\<lparr>gs_rateLimits := m1, gs_budgets := charge_ids now (uu_Cost u) ids1 (gs_budgets gs)\<rparr>"
    and ids1: "ids1 = (if budget \<and> uu_Cost u > 0 \<and> uu_Provider u \<noteq> [] \<and> uu_Model u \<noteq> [] then model_budget_ids gs tenantID (uu_Model u) (uu_Provider u) else [])"
    using charge_model_form [OF k(2), of now tenantID u tokens requests budget] by blast
  have "metering_ok (charge_model now tenantID u tokens requests budget gs)"
    unfolding m1(2) using m1(1) k by (simp add: metering_ok_def budgets.keyed_charges)
  note user = charge_user_form [OF this, of now u tokens requests budget]
  have ids: "user_budget_ids (charge_model now tenantID u tokens requests budget gs) = user_budget_ids gs" by (simp add: m1(2))
  from user show ?thesis unfolding ids early_ids_def ids1 [symmetric] by (simp add: m1(2) split del: if_split)
qed

lemma UpdateUsage_form:
  assumes "metering_ok gs"
  shows "\<exists>m. keyed rl_ID m \<and> UpdateUsage now tenantID u gs =
    gs\<lparr>gs_rateLimits := m, gs_budgets := charge_ids now (uu_Cost u) (charged_budget_ids gs tenantID u) (gs_budgets gs)\<rparr>"
proof (cases "uu_Success u")
  case False
  then have "UpdateUsage now tenantID u gs =
      gs\<lparr>gs_rateLimits := gs_rateLimits gs, gs_budgets := charge_ids now (uu_Cost u) (charged_budget_ids gs tenantID u) (gs_budgets gs)\<rparr>"
    by (simp add: UpdateUsage_def charged_budget_ids_def)
  then show ?thesis using assms unfolding metering_ok_def by blast
next
  case True
  define t where "t \<longleftrightarrow> \<not> uu_IsStreaming u \<or> uu_IsStreaming u \<and> uu_HasUsageData u"
  define r where "r \<longleftrightarrow> \<not> uu_IsStreaming u \<or> uu_IsStreaming u \<and> uu_IsFinalChunk u"
  define gs2 where "gs2 = charge_user now u t r t (charge_model now tenantID u t r t gs)"
  define ovk where "ovk = (if uu_VirtualKey u = [] then None else GetVirtualKey gs tenantID (uu_VirtualKey u))"
  obtain m2 where m2: "keyed rl_ID m2"
    and gs2: "gs2 = gs\<lparr>gs_rateLimits := m2, gs_budgets := charge_ids now (uu_Cost u) (early_ids gs tenantID u t) (gs_budgets gs)\<rparr>"
    using charge_first_form [OF assms] unfolding gs2_def by blast
  have ok2: "metering_ok gs2" using m2 assms by (simp add: gs2 metering_ok_def budgets.keyed_charges)
  have run: "UpdateUsage now tenantID u gs = (case ovk of None \<Rightarrow> gs2 | Some vk \<Rightarrow> charge_vk now u t r t vk gs2)"
  proof -
    have "GetVirtualKey gs2 = GetVirtualKey gs" by (simp add: gs2)
    then show ?thesis using True
      unfolding UpdateUsage_def t_def [symmetric] r_def [symmetric] Let_def gs2_def [symmetric] ovk_def by simp
  qed
  have ids: "charged_budget_ids gs tenantID u = early_ids gs tenantID u t @
      (case ovk of None \<Rightarrow> [] | Some vk \<Rightarrow> if t \<and> uu_Cost u > 0 then level_ids (budget_levels gs vk (uu_Provider u)) else [])"
    using True unfolding charged_budget_ids_def early_ids_def t_def ovk_def
    by (cases "GetVirtualKey gs tenantID (uu_VirtualKey u)") auto
  show ?thesis
  proof (cases ovk)
    case None
    then show ?thesis using m2 by (auto simp: run ids gs2)
  next
    case (Some vk)
    have levels: "budget_levels gs2 = budget_levels gs" by (simp add: gs2)
    obtain m3 where "keyed rl_ID m3" and m3: "charge_vk now u t r t vk gs2 =
        gs2\<lparr>gs_rateLimits := m3, gs_budgets := charge_ids now (uu_Cost u)
          (if t \<and> uu_Cost u > 0 then level_ids (budget_levels gs vk (uu_Provider u)) else []) (gs_budgets gs2)\<rparr>"
      using charge_vk_form [OF ok2, of now u t r t vk] unfolding levels by blast
    then show ?thesis
      unfolding run ids Some option.case m3 by (intro exI [of _ m3]) (simp add: gs2 split del: if_split)
  qed
qed

lemma UpdateUsage_budgets:
  assumes "metering_ok gs"
  shows "gs_budgets (UpdateUsage now tenantID u gs) = charge_ids now (uu_Cost u) (charged_budget_ids gs tenantID u) (gs_budgets gs)"
proof -
  obtain m where "UpdateUsage now tenantID u gs = gs\<lparr>gs_rateLimits := m,
      gs_budgets := charge_ids now (uu_Cost u) (charged_budget_ids gs tenantID u) (gs_budgets gs)\<rparr>"
    using UpdateUsage_form [OF assms] by blast
  then show ?thesis by simp
qed

lemma UpdateUsage_metering_ok: "metering_ok gs \<Longrightarrow> metering_ok (UpdateUsage now tenantID u gs)"
  using UpdateUsage_form [of gs now tenantID u] by (auto simp: metering_ok_def budgets.keyed_charges)

text \<open>
  C7. A successful response charges every budget of the store exactly once for each level that refers
  to it (provider, model and provider, model, user, provider configuration, key, team, customer), and
  no other budget: a budget two levels share is charged twice.
\<close>
theorem budget_charged_per_reference:
  assumes "metering_ok gs"
  shows "Load (gs_budgets (UpdateUsage now tenantID update gs)) i =
         map_option (budget_charge now (uu_Cost update) ^^ count_list (charged_budget_ids gs tenantID update) i) (Load (gs_budgets gs) i)"
  by (simp add: UpdateUsage_budgets [OF assms] Load_charge_rows)

end
