(* ===== verification/GovReset.thy ===== *)
theory GovReset
  imports GovMeter
begin

text \<open>
  The background reset of expired windows against the lazy one.  A reset changes the metered rows and
  the copies embedded in other rows, and nothing a look-up or a check reads besides; so a check and a
  charge give the same answer whether or not the background worker came first.
\<close>

section \<open>What a reset leaves alone\<close>

definition vk_refs :: "TableVirtualKey \<Rightarrow> string \<times> string \<times> string option \<times> string option \<times> string option \<times> string option \<times> (string \<times> string option \<times> string option) list" where
  "vk_refs vk = (vk_TenantID vk, vk_Value vk, vk_TeamID vk, vk_CustomerID vk, vk_BudgetID vk, vk_RateLimitID vk,
     map (\<lambda>pc. (pc_Provider pc, pc_BudgetID pc, pc_RateLimitID pc)) (ProviderConfigs vk))"

text \<open>Two stores whose rows differ only in embedded copies.\<close>

definition same_refs :: "LocalGovernanceStore \<Rightarrow> LocalGovernanceStore \<Rightarrow> bool" where
  "same_refs gs gs' \<longleftrightarrow>
     (\<exists>f. gs_virtualKeys gs' = map_entries f (gs_virtualKeys gs) \<and> (\<forall>vk. vk_refs (f vk) = vk_refs vk)) \<and>
     (\<exists>f. gs_teams gs' = map_entries f (gs_teams gs) \<and>
        (\<forall>t. team_CustomerID (f t) = team_CustomerID t \<and> team_BudgetID (f t) = team_BudgetID t \<and> team_RateLimitID (f t) = team_RateLimitID t)) \<and>
     (\<exists>f. gs_customers gs' = map_entries f (gs_customers gs) \<and>
        (\<forall>c. cus_BudgetID (f c) = cus_BudgetID c \<and> cus_RateLimitID (f c) = cus_RateLimitID c)) \<and>
     (\<exists>f. gs_users gs' = map_entries f (gs_users gs) \<and>
        (\<forall>u. ug_BudgetID (f u) = ug_BudgetID u \<and> ug_RateLimitID (f u) = ug_RateLimitID u)) \<and>
     gs_modelConfigs gs' = gs_modelConfigs gs \<and> gs_providers gs' = gs_providers gs \<and>
     gs_modelCatalog gs' = gs_modelCatalog gs \<and> gs_known gs' = gs_known gs"

lemma map_entries_id: "map_entries id m = m" and map_entries_comp: "map_entries f (map_entries g m) = map_entries (f \<circ> g) m"
  by (auto simp: map_entries_def)

lemma same_refsI:
  assumes "gs_virtualKeys gs' = map_entries f1 (gs_virtualKeys gs)" "\<And>vk. vk_refs (f1 vk) = vk_refs vk"
    "gs_teams gs' = map_entries f2 (gs_teams gs)"
    "\<And>t. team_CustomerID (f2 t) = team_CustomerID t \<and> team_BudgetID (f2 t) = team_BudgetID t \<and> team_RateLimitID (f2 t) = team_RateLimitID t"
    "gs_customers gs' = map_entries f3 (gs_customers gs)"
    "\<And>c. cus_BudgetID (f3 c) = cus_BudgetID c \<and> cus_RateLimitID (f3 c) = cus_RateLimitID c"
    "gs_users gs' = map_entries f4 (gs_users gs)"
    "\<And>u. ug_BudgetID (f4 u) = ug_BudgetID u \<and> ug_RateLimitID (f4 u) = ug_RateLimitID u"
    "gs_modelConfigs gs' = gs_modelConfigs gs" "gs_providers gs' = gs_providers gs"
    "gs_modelCatalog gs' = gs_modelCatalog gs" "gs_known gs' = gs_known gs"
  shows "same_refs gs gs'"
  unfolding same_refs_def using assms by blast

lemma same_refs_refl: "same_refs gs gs"
  by (rule same_refsI [where ?f1.0 = id and ?f2.0 = id and ?f3.0 = id and ?f4.0 = id]) (simp_all add: map_entries_id)

lemma same_refs_trans:
  assumes "same_refs a b" "same_refs b c"
  shows "same_refs a c"
proof -
  from assms(1) obtain f1 f2 f3 f4 where f:
    "gs_virtualKeys b = map_entries f1 (gs_virtualKeys a)" "\<forall>vk. vk_refs (f1 vk) = vk_refs vk"
    "gs_teams b = map_entries f2 (gs_teams a)"
    "\<forall>t. team_CustomerID (f2 t) = team_CustomerID t \<and> team_BudgetID (f2 t) = team_BudgetID t \<and> team_RateLimitID (f2 t) = team_RateLimitID t"
    "gs_customers b = map_entries f3 (gs_customers a)"
    "\<forall>c. cus_BudgetID (f3 c) = cus_BudgetID c \<and> cus_RateLimitID (f3 c) = cus_RateLimitID c"
    "gs_users b = map_entries f4 (gs_users a)"
    "\<forall>u. ug_BudgetID (f4 u) = ug_BudgetID u \<and> ug_RateLimitID (f4 u) = ug_RateLimitID u"
    unfolding same_refs_def by blast
  from assms(2) obtain g1 g2 g3 g4 where g:
    "gs_virtualKeys c = map_entries g1 (gs_virtualKeys b)" "\<forall>vk. vk_refs (g1 vk) = vk_refs vk"
    "gs_teams c = map_entries g2 (gs_teams b)"
    "\<forall>t. team_CustomerID (g2 t) = team_CustomerID t \<and> team_BudgetID (g2 t) = team_BudgetID t \<and> team_RateLimitID (g2 t) = team_RateLimitID t"
    "gs_customers c = map_entries g3 (gs_customers b)"
    "\<forall>c. cus_BudgetID (g3 c) = cus_BudgetID c \<and> cus_RateLimitID (g3 c) = cus_RateLimitID c"
    "gs_users c = map_entries g4 (gs_users b)"
    "\<forall>u. ug_BudgetID (g4 u) = ug_BudgetID u \<and> ug_RateLimitID (g4 u) = ug_RateLimitID u"
    unfolding same_refs_def by blast
  show ?thesis
    by (rule same_refsI [where ?f1.0 = "g1 \<circ> f1" and ?f2.0 = "g2 \<circ> f2" and ?f3.0 = "g3 \<circ> f3" and ?f4.0 = "g4 \<circ> f4"])
      (use assms f g in \<open>simp_all add: map_entries_comp same_refs_def\<close>)
qed

lemma vk_refs_with [simp]: "vk_refs (vk_with_budget b vk) = vk_refs vk" "vk_refs (vk_with_limit rl vk) = vk_refs vk"
  by (auto simp: vk_refs_def vk_with_budget_def vk_with_limit_def)

lemma references_same_refs:
  "same_refs gs (updateBudgetReferences b gs)" "same_refs gs (updateRateLimitReferences rl gs)"
  by (rule same_refsI [where ?f1.0 = "vk_with_budget b" and ?f2.0 = "team_with_budget b" and ?f3.0 = "customer_with_budget b" and ?f4.0 = "user_with_budget b"]
      same_refsI [where ?f1.0 = "vk_with_limit rl" and ?f2.0 = "team_with_limit rl" and ?f3.0 = "customer_with_limit rl" and ?f4.0 = "user_with_limit rl"];
      simp add: updateBudgetReferences_def updateRateLimitReferences_def team_with_budget_def customer_with_budget_def
        user_with_budget_def team_with_limit_def customer_with_limit_def user_with_limit_def; fail)+

lemma window_budget [simp]: "window_expired now (Some (ResetDuration b)) (LastReset b) \<longleftrightarrow> budget_expired now b"
  by (auto simp: budget_expired_def window_expired_def ParseDuration_def)

lemma reset_budget_entry_same_refs: "same_refs gs (fst (reset_budget_entry now e (gs, acc)))"
proof -
  have "same_refs gs (gs\<lparr>LastDBUsagesBudgets := l, gs_budgets := m\<rparr>)" for l m
    by (rule same_refsI [where ?f1.0 = id and ?f2.0 = id and ?f3.0 = id and ?f4.0 = id]) (simp_all add: map_entries_id)
  then show ?thesis
    by (auto simp: reset_budget_entry_def Let_def same_refs_refl split: prod.split
        intro: same_refs_trans [OF _ references_same_refs(1)])
qed

lemma fold_reset_same_refs: "same_refs gs (fst (fold (reset_budget_entry now) es (gs, acc)))"
proof (induction es arbitrary: gs acc)
  case (Cons e es)
  obtain gs1 acc1 where e: "reset_budget_entry now e (gs, acc) = (gs1, acc1)" by fastforce
  then have "same_refs gs gs1" using reset_budget_entry_same_refs [of gs now e acc] by simp
  then show ?case using Cons [of gs1 acc1] by (auto simp: e intro: same_refs_trans)
qed (simp add: same_refs_refl)

lemma reset_same_refs: "same_refs gs (fst (ResetExpiredBudgetsInMemory now gs))"
  by (simp add: ResetExpiredBudgetsInMemory_def fold_reset_same_refs)

section \<open>What a reset does to the budgets\<close>

definition reset_entry :: "int \<Rightarrow> string \<times> TableBudget \<Rightarrow> TableBudget smap \<Rightarrow> TableBudget smap" where
  "reset_entry now = (\<lambda>(k, b) m. if budget_expired now b then Store k (budget_reset now b) m else m)"

lemma reset_budget_entry_budgets:
  "gs_budgets (fst (reset_budget_entry now e (gs, acc))) = reset_entry now e (gs_budgets gs)"
  by (auto simp: reset_budget_entry_def reset_entry_def budget_reset_def updateBudgetReferences_def Let_def split: prod.split)

lemma fold_reset_budgets:
  "gs_budgets (fst (fold (reset_budget_entry now) es (gs, acc))) = fold (reset_entry now) es (gs_budgets gs)"
proof (induction es arbitrary: gs acc)
  case (Cons e es)
  obtain gs1 acc1 where e: "reset_budget_entry now e (gs, acc) = (gs1, acc1)" by fastforce
  then have "gs_budgets gs1 = reset_entry now e (gs_budgets gs)" using reset_budget_entry_budgets [of now e gs acc] by simp
  then show ?case using Cons [of gs1 acc1] by (simp add: e)
qed simp

lemma Load_reset_entries:
  assumes "distinct (map fst es)" "\<And>k b. (k, b) \<in> set es \<Longrightarrow> Load m k = Some b"
  shows "Load (fold (reset_entry now) es m) i = (if i \<in> fst ` set es then map_option (budget_reset now) (Load m i) else Load m i)"
  using assms
proof (induction es arbitrary: m)
  case (Cons e es)
  obtain k b where e: "e = (k, b)" by fastforce
  have kb: "Load m k = Some b" "k \<notin> fst ` set es" using Cons.prems by (auto simp: e)
  have step: "Load (reset_entry now e m) j = (if j = k then Some (budget_reset now b) else Load m j)" for j
    using kb by (auto simp: reset_entry_def e budget_reset_def)
  have "Load (fold (reset_entry now) es (reset_entry now e m)) i =
      (if i \<in> fst ` set es then map_option (budget_reset now) (Load (reset_entry now e m) i) else Load (reset_entry now e m) i)"
  proof (rule Cons.IH)
    show "distinct (map fst es)" using Cons.prems(1) by simp
    show "Load (reset_entry now e m) k' = Some b'" if "(k', b') \<in> set es" for k' b'
      using that kb Cons.prems(2) by (force simp: step)
  qed
  then show ?case using kb by (auto simp: step [unfolded e] e)
qed simp

lemma Load_reset:
  assumes "keyed bud_ID (gs_budgets gs)"
  shows "Load (gs_budgets (fst (ResetExpiredBudgetsInMemory now gs))) i = map_option (budget_reset now) (Load (gs_budgets gs) i)"
proof -
  have "Load (fold (reset_entry now) (gs_budgets gs) (gs_budgets gs)) i =
      (if i \<in> fst ` set (gs_budgets gs) then map_option (budget_reset now) (Load (gs_budgets gs) i) else Load (gs_budgets gs) i)"
    using keyed_distinct [OF assms] by (intro Load_reset_entries) auto
  moreover have "Load (gs_budgets gs) i = None" if "i \<notin> fst ` set (gs_budgets gs)" using that by (simp add: map_of_eq_None_iff)
  ultimately show ?thesis by (auto simp: ResetExpiredBudgetsInMemory_def fold_reset_budgets)
qed

lemma reset_rateLimits: "gs_rateLimits (fst (fold (reset_budget_entry now) es (gs, acc))) = gs_rateLimits gs"
proof (induction es arbitrary: gs acc)
  case (Cons e es)
  obtain gs1 acc1 where e: "reset_budget_entry now e (gs, acc) = (gs1, acc1)" by fastforce
  then have "gs_rateLimits gs1 = gs_rateLimits gs"
    by (auto simp: reset_budget_entry_def updateBudgetReferences_def Let_def split: prod.splits if_splits)
  then show ?case using Cons [of gs1 acc1] by (simp add: e)
qed simp

lemma reset_metering_ok:
  assumes "metering_ok gs"
  shows "metering_ok (fst (ResetExpiredBudgetsInMemory now gs))"
proof -
  have k: "keyed bud_ID (gs_budgets gs)" using assms by (simp add: metering_ok_def)
  have "distinct (map fst (fold (reset_entry now) es m))" if "distinct (map fst m)" for es m
    using that by (induction es arbitrary: m) (auto simp: reset_entry_def distinct_update)
  then have "distinct (map fst (gs_budgets (fst (ResetExpiredBudgetsInMemory now gs))))"
    using keyed_distinct [OF k] by (simp add: ResetExpiredBudgetsInMemory_def fold_reset_budgets)
  then have "keyed bud_ID (gs_budgets (fst (ResetExpiredBudgetsInMemory now gs)))"
    using k by (auto simp: keyed_def Load_reset [OF k])
  then show ?thesis using assms by (simp add: metering_ok_def ResetExpiredBudgetsInMemory_def reset_rateLimits)
qed

section \<open>Checks and charges after a reset\<close>

lemma same_refs_lookup:
  assumes "same_refs gs gs'"
  shows "map_option vk_refs (GetVirtualKey gs' tenantID v) = map_option vk_refs (GetVirtualKey gs tenantID v)"
    and "model_configs gs' = model_configs gs" and "getProviderByContext gs' = getProviderByContext gs"
    and "map_option ug_BudgetID (GetUserGovernance gs' userID) = map_option ug_BudgetID (GetUserGovernance gs userID)"
proof -
  from assms obtain f g where f: "gs_virtualKeys gs' = map_entries f (gs_virtualKeys gs)" "\<And>vk. vk_refs (f vk) = vk_refs vk"
    and g: "gs_users gs' = map_entries g (gs_users gs)" "\<And>u. ug_BudgetID (g u) = ug_BudgetID u"
    unfolding same_refs_def by blast
  have v: "vk_Value (f vk) = vk_Value vk" for vk using f(2) [of vk] by (simp add: vk_refs_def)
  have "find (\<lambda>vk. vk_Value vk = v) (map snd (map_entries f m)) = map_option f (find (\<lambda>vk. vk_Value vk = v) (map snd m))" for m
    by (induction m) (auto simp: map_entries_def v)
  then show "map_option vk_refs (GetVirtualKey gs' tenantID v) = map_option vk_refs (GetVirtualKey gs tenantID v)"
    by (simp add: GetVirtualKey_def f option.map_comp comp_def)
  show "map_option ug_BudgetID (GetUserGovernance gs' userID) = map_option ug_BudgetID (GetUserGovernance gs userID)"
    by (simp add: GetUserGovernance_def g option.map_comp comp_def)
  have same: "gs_modelConfigs gs' = gs_modelConfigs gs" "gs_providers gs' = gs_providers gs"
    "gs_modelCatalog gs' = gs_modelCatalog gs" "gs_known gs' = gs_known gs" using assms by (simp_all add: same_refs_def)
  show "model_configs gs' = model_configs gs" "getProviderByContext gs' = getProviderByContext gs"
    unfolding fun_eq_iff model_configs_def findProviderSpecificModelConfig_def findModelOnlyConfig_def other_base_def
      getProviderByContext_def same by simp_all
qed

lemma hierarchy_levels_cong:
  assumes team: "\<And>t i. getTeamByTenant gs' t i = map_option f (getTeamByTenant gs t i)"
      "\<And>t. ofTeam (f t) = ofTeam t" "\<And>t. team_CustomerID (f t) = team_CustomerID t"
    and customer: "\<And>t i. getCustomerByTenant gs' t i = map_option g (getCustomerByTenant gs t i)" "\<And>c. ofCustomer (g c) = ofCustomer c"
    and vk: "vk_TenantID vk' = vk_TenantID vk" "vk_TeamID vk' = vk_TeamID vk" "vk_CustomerID vk' = vk_CustomerID vk" "ofVK vk' = ofVK vk"
    and pcs: "map (\<lambda>pc. (pc_Provider pc, ofPC pc)) (filter (\<lambda>pc. pc_Provider pc = provider) (ProviderConfigs vk')) =
      map (\<lambda>pc. (pc_Provider pc, ofPC pc)) (filter (\<lambda>pc. pc_Provider pc = provider) (ProviderConfigs vk))"
  shows "hierarchy_levels ofPC ofVK ofTeam ofCustomer gs' vk' provider = hierarchy_levels ofPC ofVK ofTeam ofCustomer gs vk provider"
proof -
  have 1: "Option.bind oi (getTeamByTenant gs' t) = map_option f (Option.bind oi (getTeamByTenant gs t))" for oi t
    by (cases oi) (simp_all add: team)
  have 2: "(case Option.bind oi (getCustomerByTenant gs' t) of None \<Rightarrow> [] | Some c \<Rightarrow> [(n, ofCustomer c)]) =
      (case Option.bind oi (getCustomerByTenant gs t) of None \<Rightarrow> [] | Some c \<Rightarrow> [(n, ofCustomer c)])" for oi t and n :: string
    by (cases oi) (simp_all add: customer split: option.split)
  show ?thesis
    unfolding hierarchy_levels_def Let_def vk pcs 1 2
    by (cases "Option.bind (vk_TeamID vk) (getTeamByTenant gs (vk_TenantID vk))") (simp_all add: team)
qed

lemma map_filter_projection:
  assumes "map (\<lambda>x. (p x, q x)) xs = map (\<lambda>x. (p x, q x)) ys"
  shows "map (\<lambda>x. (p x, r (q x))) (filter (\<lambda>x. p x = c) xs) = map (\<lambda>x. (p x, r (q x))) (filter (\<lambda>x. p x = c) ys)"
proof -
  have "map (\<lambda>x. (p x, r (q x))) (filter (\<lambda>x. p x = c) zs) = map (\<lambda>(a, b). (a, r b)) (filter (\<lambda>(a, b). a = c) (map (\<lambda>x. (p x, q x)) zs))" for zs
    by (induction zs) auto
  then show ?thesis using assms by simp
qed

lemma same_refs_levels:
  assumes "same_refs gs gs'" "vk_refs vk' = vk_refs vk"
  shows "budget_levels gs' vk' provider = budget_levels gs vk provider" "limit_levels gs' vk' provider = limit_levels gs vk provider"
proof -
  from assms obtain f g where f: "gs_teams gs' = map_entries f (gs_teams gs)"
      "\<And>t. team_CustomerID (f t) = team_CustomerID t \<and> team_BudgetID (f t) = team_BudgetID t \<and> team_RateLimitID (f t) = team_RateLimitID t"
    and g: "gs_customers gs' = map_entries g (gs_customers gs)" "\<And>c. cus_BudgetID (g c) = cus_BudgetID c \<and> cus_RateLimitID (g c) = cus_RateLimitID c"
    unfolding same_refs_def by blast
  have vk: "vk_TenantID vk' = vk_TenantID vk" "vk_TeamID vk' = vk_TeamID vk" "vk_CustomerID vk' = vk_CustomerID vk"
      "vk_BudgetID vk' = vk_BudgetID vk" "vk_RateLimitID vk' = vk_RateLimitID vk"
    and pcs: "map (\<lambda>pc. (pc_Provider pc, pc_BudgetID pc, pc_RateLimitID pc)) (ProviderConfigs vk') =
         map (\<lambda>pc. (pc_Provider pc, pc_BudgetID pc, pc_RateLimitID pc)) (ProviderConfigs vk)"
    using assms(2) by (simp_all add: vk_refs_def)
  have rows: "getTeamByTenant gs' t i = map_option f (getTeamByTenant gs t i)" "getCustomerByTenant gs' t i = map_option g (getCustomerByTenant gs t i)" for t i
    by (simp_all add: getTeamByTenant_def getCustomerByTenant_def f g)
  note sel = map_filter_projection [where q = "\<lambda>pc. (pc_BudgetID pc, pc_RateLimitID pc)", OF pcs, of _ provider]
  show "budget_levels gs' vk' provider = budget_levels gs vk provider"
    unfolding budget_levels_def by (rule hierarchy_levels_cong [OF rows(1) _ _ rows(2)]) (use f g vk sel [of fst] in simp_all)
  show "limit_levels gs' vk' provider = limit_levels gs vk provider"
    unfolding limit_levels_def by (rule hierarchy_levels_cong [OF rows(1) _ _ rows(2)]) (use f g vk sel [of snd] in simp_all)
qed

lemma same_refs_charged:
  assumes "same_refs gs gs'"
  shows "charged_budget_ids gs' tenantID u = charged_budget_ids gs tenantID u"
proof -
  note look = same_refs_lookup [OF assms]
  have users: "user_budget_ids gs' userID = user_budget_ids gs userID" for userID
    using look(4) [of userID] unfolding user_budget_ids_def
    by (cases "GetUserGovernance gs userID"; cases "GetUserGovernance gs' userID") auto
  have models: "model_budget_ids gs' = model_budget_ids gs"
    by (simp add: fun_eq_iff model_budget_ids_def provider_budget_ids_def look)
  have keys: "(case GetVirtualKey gs' tenantID v of None \<Rightarrow> [] | Some vk \<Rightarrow> level_ids (budget_levels gs' vk p)) =
      (case GetVirtualKey gs tenantID v of None \<Rightarrow> [] | Some vk \<Rightarrow> level_ids (budget_levels gs vk p))" for v p
    using look(1) [of tenantID v] same_refs_levels(1) [OF assms]
    by (cases "GetVirtualKey gs tenantID v"; cases "GetVirtualKey gs' tenantID v") auto
  show ?thesis unfolding charged_budget_ids_def users models keys ..
qed

lemma first_error_None: "first_error f xs = None \<longleftrightarrow> (\<forall>x \<in> set xs. f x = None)"
  by (induction xs) (auto split: option.split)

lemma named_iff [simp]: "x \<in> set (named n ov) \<longleftrightarrow> (\<exists>v. ov = Some v \<and> x = (v, n))"
  by (auto simp: named_def split: option.split)

lemma by_id_map: "(\<And>i. Load m' i = map_option f (Load m i)) \<Longrightarrow> by_id m' oid = map_option f (by_id m oid)"
  by (simp add: by_id_def split: option.split)

lemma budget_check_reset:
  assumes "0 < MaxLimit b"
  shows "budget_check now Map.empty (budget_reset now b) name = None \<longleftrightarrow> budget_check now Map.empty b name = None"
  using assms by (auto simp: budget_check_def budget_reset_def baseline_def f_add_def Let_def)

lemma CheckBudget_levels:
  "CheckBudget gs now (Some vk) request Map.empty = None \<longleftrightarrow>
   (\<forall>(name, oid) \<in> set (budget_levels gs vk (request_provider request)). \<forall>b. by_id (gs_budgets gs) oid = Some b \<longrightarrow>
      budget_check now Map.empty b name = None)"
  unfolding CheckBudget_def option.case first_error_None collectBudgets_levels by (auto split: prod.splits)

text \<open>
  Lazy expiry agrees with the background reset: when every budget of the store has a positive
  limit, a virtual key passes the budget check of a request exactly when it passes it after the worker
  has reset the expired budgets at that instant.
\<close>
theorem lazy_expiry_check_agrees:
  assumes "keyed bud_ID (gs_budgets gs)"
    and "\<And>i b. Load (gs_budgets gs) i = Some b \<Longrightarrow> 0 < MaxLimit b"
  shows "CheckBudget (fst (ResetExpiredBudgetsInMemory now gs)) now (Some vk) request Map.empty = None \<longleftrightarrow>
         CheckBudget gs now (Some vk) request Map.empty = None"
proof -
  have levels: "budget_levels (fst (ResetExpiredBudgetsInMemory now gs)) vk p = budget_levels gs vk p" for p
    by (rule same_refs_levels(1) [OF reset_same_refs refl])
  have rows: "by_id (gs_budgets (fst (ResetExpiredBudgetsInMemory now gs))) oid = map_option (budget_reset now) (by_id (gs_budgets gs) oid)" for oid
    by (rule by_id_map) (rule Load_reset [OF assms(1)])
  have pos: "0 < MaxLimit b" if "by_id (gs_budgets gs) oid = Some b" for oid b
    using that assms(2) by (auto simp: by_id_def split: option.splits)
  show ?thesis unfolding CheckBudget_levels levels rows
    by (fastforce simp: budget_check_reset pos)
qed

text \<open>
  The background reset is invisible to a charge at the same instant: a budget the update charges
  ends with the same usage and the same window start whether or not the worker reset the store just
  before, and a budget it does not charge differs by that reset only.
\<close>
theorem background_reset_charge_agrees:
  assumes "metering_ok gs"
  shows "Load (gs_budgets (UpdateUsage now tenantID update (fst (ResetExpiredBudgetsInMemory now gs)))) i =
         map_option (if i \<in> set (charged_budget_ids gs tenantID update) then id else budget_reset now)
           (Load (gs_budgets (UpdateUsage now tenantID update gs)) i)"
proof -
  let ?ids = "charged_budget_ids gs tenantID update"
  have k: "keyed bud_ID (gs_budgets gs)" using assms by (simp add: metering_ok_def)
  have ids: "charged_budget_ids (fst (ResetExpiredBudgetsInMemory now gs)) tenantID update = ?ids"
    by (rule same_refs_charged [OF reset_same_refs])
  have "Load (gs_budgets (UpdateUsage now tenantID update (fst (ResetExpiredBudgetsInMemory now gs)))) i =
      map_option (budget_charge now (uu_Cost update) ^^ count_list ?ids i) (map_option (budget_reset now) (Load (gs_budgets gs) i))"
    by (simp add: UpdateUsage_budgets [OF reset_metering_ok [OF assms]] ids Load_reset [OF k] Load_charge_rows)
  moreover have "Load (gs_budgets (UpdateUsage now tenantID update gs)) i =
      map_option (budget_charge now (uu_Cost update) ^^ count_list ?ids i) (Load (gs_budgets gs) i)"
    by (simp add: UpdateUsage_budgets [OF assms] Load_charge_rows)
  moreover have "Load (fold (charge_row (budget_charge now c)) ?ids (map_entries (budget_reset now) (gs_budgets gs))) i =
      Load (fold (charge_row (budget_charge now c)) ?ids (gs_budgets gs)) i" if "i \<in> set ?ids" for c
    using that by (rule budgets.charge_after_reset)
  ultimately show ?thesis by (simp add: Load_charge_rows option.map_id count_list_0_iff id_def [symmetric])
qed

end
