(* ===== verification/GovInvariant.thy ===== *)
theory GovInvariant
  imports GovReset
begin

text \<open>
  The well-formedness of the governance store: every row is filed under the key its own fields give,
  no key occurs twice, and the rules of a scope are in priority order.  The store built from the
  database or from the configuration file is well formed, and every operation of the store keeps it
  so; the tenant isolation of the look-ups rests on it.
\<close>

section \<open>The invariant\<close>

definition vk_key :: "TableVirtualKey \<Rightarrow> string" where
  "vk_key vk = governanceVirtualKeyStoreKey (vk_TenantID vk) (vk_Value vk)"

definition team_key :: "TableTeam \<Rightarrow> string" where
  "team_key t = governanceTeamStoreKey (team_TenantID t) (team_ID t)"

definition customer_key :: "TableCustomer \<Rightarrow> string" where
  "customer_key c = governanceCustomerStoreKey (cus_TenantID c) (cus_ID c)"

definition provider_key :: "TableProvider \<Rightarrow> string" where
  "provider_key p = governanceProviderStoreKey (prov_TenantID p) (prov_Name p)"

definition rules_ok :: "TableRoutingRule list smap \<Rightarrow> bool" where
  "rules_ok m \<longleftrightarrow> distinct (map fst m) \<and>
     (\<forall>k rules. Load m k = Some rules \<longrightarrow> sorted (map Priority rules) \<and> (\<forall>r \<in> set rules. rule_key r = k))"

definition store_ok :: "LocalGovernanceStore \<Rightarrow> bool" where
  "store_ok gs \<longleftrightarrow>
     keyed bud_ID (gs_budgets gs) \<and> keyed rl_ID (gs_rateLimits gs) \<and> keyed vk_key (gs_virtualKeys gs) \<and>
     keyed team_key (gs_teams gs) \<and> keyed customer_key (gs_customers gs) \<and> keyed provider_key (gs_providers gs) \<and>
     keyed ug_UserID (gs_users gs) \<and> keyed (model_config_key gs) (gs_modelConfigs gs) \<and> rules_ok (gs_routingRules gs)"

lemma model_config_key_cong:
  "gs_modelCatalog gs' = gs_modelCatalog gs \<Longrightarrow> gs_known gs' = gs_known gs \<Longrightarrow> model_config_key gs' = model_config_key gs"
  by (rule ext) (simp add: model_config_key_def split: option.split)

text \<open>A store that differs from a well-formed one in a few maps is well formed when those are.\<close>

lemma model_config_key_update [simp]:
  "model_config_key (gs\<lparr>gs_budgets := m1\<rparr>) = model_config_key gs"
  "model_config_key (gs\<lparr>gs_rateLimits := m2\<rparr>) = model_config_key gs"
  "model_config_key (gs\<lparr>gs_virtualKeys := m3\<rparr>) = model_config_key gs"
  "model_config_key (gs\<lparr>gs_teams := m4\<rparr>) = model_config_key gs"
  "model_config_key (gs\<lparr>gs_customers := m5\<rparr>) = model_config_key gs"
  "model_config_key (gs\<lparr>gs_providers := m6\<rparr>) = model_config_key gs"
  "model_config_key (gs\<lparr>gs_users := m7\<rparr>) = model_config_key gs"
  "model_config_key (gs\<lparr>gs_modelConfigs := m8\<rparr>) = model_config_key gs"
  "model_config_key (gs\<lparr>gs_routingRules := m9\<rparr>) = model_config_key gs"
  "model_config_key (gs\<lparr>compiledRoutingPrograms := m10\<rparr>) = model_config_key gs"
  "model_config_key (gs\<lparr>LastDBUsagesBudgets := m11\<rparr>) = model_config_key gs"
  "model_config_key (gs\<lparr>LastDBUsagesRequestsRateLimits := m12\<rparr>) = model_config_key gs"
  "model_config_key (gs\<lparr>LastDBUsagesTokensRateLimits := m13\<rparr>) = model_config_key gs"
  by (rule model_config_key_cong; simp)+

named_theorems store_ok_intros \<open>operations that keep the store well formed\<close>

lemma store_ok_budgets [store_ok_intros]: "store_ok gs \<Longrightarrow> keyed bud_ID m \<Longrightarrow> store_ok (gs\<lparr>gs_budgets := m\<rparr>)"
  by (simp add: store_ok_def)

lemma store_ok_limits [store_ok_intros]: "store_ok gs \<Longrightarrow> keyed rl_ID m \<Longrightarrow> store_ok (gs\<lparr>gs_rateLimits := m\<rparr>)"
  by (simp add: store_ok_def)

lemma store_ok_keys [store_ok_intros]: "store_ok gs \<Longrightarrow> keyed vk_key m \<Longrightarrow> store_ok (gs\<lparr>gs_virtualKeys := m\<rparr>)"
  by (simp add: store_ok_def)

lemma store_ok_teams [store_ok_intros]: "store_ok gs \<Longrightarrow> keyed team_key m \<Longrightarrow> store_ok (gs\<lparr>gs_teams := m\<rparr>)"
  by (simp add: store_ok_def)

lemma store_ok_customers [store_ok_intros]: "store_ok gs \<Longrightarrow> keyed customer_key m \<Longrightarrow> store_ok (gs\<lparr>gs_customers := m\<rparr>)"
  by (simp add: store_ok_def)

lemma store_ok_providers [store_ok_intros]: "store_ok gs \<Longrightarrow> keyed provider_key m \<Longrightarrow> store_ok (gs\<lparr>gs_providers := m\<rparr>)"
  by (simp add: store_ok_def)

lemma store_ok_users [store_ok_intros]: "store_ok gs \<Longrightarrow> keyed ug_UserID m \<Longrightarrow> store_ok (gs\<lparr>gs_users := m\<rparr>)"
  by (simp add: store_ok_def)

lemma store_ok_modelConfigs [store_ok_intros]:
  "store_ok gs \<Longrightarrow> keyed (model_config_key gs) m \<Longrightarrow> store_ok (gs\<lparr>gs_modelConfigs := m\<rparr>)"
  by (simp add: store_ok_def)

lemma store_ok_rules [store_ok_intros]: "store_ok gs \<Longrightarrow> rules_ok m \<Longrightarrow> store_ok (gs\<lparr>gs_routingRules := m\<rparr>)"
  by (simp add: store_ok_def)

lemma store_ok_other [store_ok_intros]:
  "store_ok gs \<Longrightarrow> store_ok (gs\<lparr>compiledRoutingPrograms := p\<rparr>)" "store_ok gs \<Longrightarrow> store_ok (gs\<lparr>LastDBUsagesBudgets := lb\<rparr>)"
  "store_ok gs \<Longrightarrow> store_ok (gs\<lparr>LastDBUsagesRequestsRateLimits := lr\<rparr>)"
  "store_ok gs \<Longrightarrow> store_ok (gs\<lparr>LastDBUsagesTokensRateLimits := lt\<rparr>)"
  by (simp_all add: store_ok_def)

lemma store_okD:
  assumes "store_ok gs"
  shows "keyed bud_ID (gs_budgets gs)" "keyed rl_ID (gs_rateLimits gs)" "keyed vk_key (gs_virtualKeys gs)"
    "keyed team_key (gs_teams gs)" "keyed customer_key (gs_customers gs)" "keyed provider_key (gs_providers gs)"
    "keyed ug_UserID (gs_users gs)" "keyed (model_config_key gs) (gs_modelConfigs gs)" "rules_ok (gs_routingRules gs)" "metering_ok gs"
  using assms by (simp_all add: store_ok_def metering_ok_def)

section \<open>Budgets and rate limits of a row\<close>

lemma store_ok_store [store_ok_intros]:
  "store_ok gs \<Longrightarrow> store_ok (store_budget b gs)" "store_ok gs \<Longrightarrow> store_ok (store_rate rl gs)"
  "store_ok gs \<Longrightarrow> store_ok (store_budget_opt ob gs)" "store_ok gs \<Longrightarrow> store_ok (store_rate_opt orl gs)"
  "store_ok gs \<Longrightarrow> store_ok (delete_budget oid gs)" "store_ok gs \<Longrightarrow> store_ok (delete_rate oid gs)"
  by (auto simp: store_budget_def store_rate_def store_budget_opt_def store_rate_opt_def delete_budget_def delete_rate_def
      intro!: store_ok_budgets store_ok_limits keyed_Store keyed_Delete dest: store_okD split: option.split)

lemma store_ok_replace [store_ok_intros]:
  "store_ok gs \<Longrightarrow> store_ok (snd (replace_budget new old gs))" "store_ok gs \<Longrightarrow> store_ok (snd (replace_rate new' old gs))"
  by (auto simp: replace_budget_def replace_rate_def intro: store_ok_store split: option.split)

lemma store_ok_fold: "store_ok gs \<Longrightarrow> (\<And>x g. store_ok g \<Longrightarrow> store_ok (f x g)) \<Longrightarrow> store_ok (fold f xs gs)"
  by (induction xs arbitrary: gs) auto

text \<open>Neither changes the maps of the rows.\<close>

lemma store_frame [simp]:
  "gs_virtualKeys (store_budget_opt ob gs) = gs_virtualKeys gs" "gs_virtualKeys (store_rate_opt orl gs) = gs_virtualKeys gs"
  "gs_teams (store_budget_opt ob gs) = gs_teams gs" "gs_teams (store_rate_opt orl gs) = gs_teams gs"
  "gs_customers (store_budget_opt ob gs) = gs_customers gs" "gs_customers (store_rate_opt orl gs) = gs_customers gs"
  "model_config_key (store_budget_opt ob gs) = model_config_key gs" "model_config_key (store_rate_opt orl gs) = model_config_key gs"
  by (auto simp: store_budget_opt_def store_rate_opt_def store_budget_def store_rate_def split: option.split)

section \<open>The operations\<close>

lemma CreateVirtualKey_ok [store_ok_intros]: "store_ok gs \<Longrightarrow> store_ok (CreateVirtualKeyInMemory vk gs)"
  unfolding CreateVirtualKeyInMemory_def store_vk_def
  by (intro store_ok_keys keyed_Store store_okD store_ok_fold) (auto simp: vk_key_def intro: store_ok_store)

lemma update_configs_ok: "store_ok gs \<Longrightarrow> store_ok (snd (update_configs existing pcs gs))"
proof (induction pcs arbitrary: gs)
  case (Cons pc pcs)
  let ?rl = "replace_rate (pc_RateLimit pc) (case existing (pc_ID pc) of None \<Rightarrow> None | Some o' \<Rightarrow> map_option rl_ID (pc_RateLimit o'))"
  let ?b = "replace_budget (pc_Budget pc) (case existing (pc_ID pc) of None \<Rightarrow> None | Some o' \<Rightarrow> map_option bud_ID (pc_Budget o'))"
  have "store_ok (snd (?b (snd (?rl gs))))" by (intro store_ok_replace Cons.prems)
  from Cons.IH [OF this] show ?case by (simp add: Let_def split_beta)
qed simp

lemma store_ok_store_vk: "store_ok gs \<Longrightarrow> store_ok (store_vk vk gs)"
  unfolding store_vk_def by (intro store_ok_keys keyed_Store store_okD) (auto simp: vk_key_def)

lemma UpdateVirtualKey_ok [store_ok_intros]: "store_ok gs \<Longrightarrow> store_ok (UpdateVirtualKeyInMemory vk gs)"
  unfolding UpdateVirtualKeyInMemory_def Let_def split_beta
  by (auto split: option.split intro!: CreateVirtualKey_ok store_ok_store_vk update_configs_ok store_ok_replace)

lemma DeleteVirtualKey_ok [store_ok_intros]: "store_ok gs \<Longrightarrow> store_ok (DeleteVirtualKeyInMemory i gs)"
  unfolding DeleteVirtualKeyInMemory_def Let_def
  by (auto split: option.split intro!: store_ok_keys keyed_Delete store_okD store_ok_fold store_ok_store)

lemma CreateTeam_ok [store_ok_intros]: "store_ok gs \<Longrightarrow> store_ok (CreateTeamInMemory team gs)"
  unfolding CreateTeamInMemory_def Let_def
  by (intro store_ok_teams keyed_Store store_okD store_ok_store) (auto simp: team_key_def intro: store_okD)

lemma UpdateTeam_ok [store_ok_intros]: "store_ok gs \<Longrightarrow> store_ok (UpdateTeamInMemory team gs)"
  unfolding UpdateTeamInMemory_def Let_def split_beta
  by (auto split: option.split simp: team_key_def intro!: CreateTeam_ok store_ok_teams keyed_Store store_okD store_ok_replace)

lemma DeleteTeam_ok [store_ok_intros]: "store_ok gs \<Longrightarrow> store_ok (DeleteTeamInMemory i gs)"
proof -
  assume ok: "store_ok gs"
  have "store_ok (case find (\<lambda>(key, team). team_ID team = i) (gs_teams gs) of
      None \<Rightarrow> gs
    | Some (key, team) \<Rightarrow>
        (let g = delete_rate (team_RateLimitID team) (delete_budget (team_BudgetID team) gs) in
         g\<lparr>gs_teams := Delete key (gs_teams g)\<rparr>))"
    using ok by (auto simp: Let_def split: option.split intro!: store_ok_teams keyed_Delete store_okD store_ok_store)
  then show ?thesis
    unfolding DeleteTeamInMemory_def using ok
    by (simp only: Let_def split: if_split) (auto intro!: store_ok_keys keyed_map_entries store_okD simp: vk_key_def)
qed

lemma CreateCustomer_ok [store_ok_intros]: "store_ok gs \<Longrightarrow> store_ok (CreateCustomerInMemory customer gs)"
  unfolding CreateCustomerInMemory_def Let_def
  by (intro store_ok_customers keyed_Store store_okD store_ok_store) (auto simp: customer_key_def intro: store_okD)

lemma UpdateCustomer_ok [store_ok_intros]: "store_ok gs \<Longrightarrow> store_ok (UpdateCustomerInMemory customer gs)"
  unfolding UpdateCustomerInMemory_def Let_def split_beta
  by (auto split: option.split simp: customer_key_def intro!: CreateCustomer_ok store_ok_customers keyed_Store store_okD store_ok_replace)

lemma DeleteCustomer_ok [store_ok_intros]: "store_ok gs \<Longrightarrow> store_ok (DeleteCustomerInMemory i gs)"
proof -
  assume ok: "store_ok gs"
  have "store_ok (case find (\<lambda>(key, customer). cus_ID customer = i) (gs_customers gs) of
      None \<Rightarrow> gs
    | Some (key, customer) \<Rightarrow>
        (let g = delete_rate (cus_RateLimitID customer) (delete_budget (cus_BudgetID customer) gs) in
         g\<lparr>gs_customers := Delete key (gs_customers g)\<rparr>))"
    using ok by (auto simp: Let_def split: option.split intro!: store_ok_customers keyed_Delete store_okD store_ok_store)
  then show ?thesis
    unfolding DeleteCustomerInMemory_def using ok
    by (simp only: Let_def split: if_split)
      (auto intro!: store_ok_keys store_ok_teams keyed_map_entries store_okD simp: vk_key_def team_key_def drop_customer_def Let_def)
qed

lemma UserGovernance_ok [store_ok_intros]:
  "store_ok gs \<Longrightarrow> store_ok (CreateUserGovernanceInMemory i b rl gs)"
  "store_ok gs \<Longrightarrow> store_ok (UpdateUserGovernanceInMemory i b rl gs)"
  "store_ok gs \<Longrightarrow> store_ok (DeleteUserGovernanceInMemory i gs)"
  unfolding CreateUserGovernanceInMemory_def UpdateUserGovernanceInMemory_def DeleteUserGovernanceInMemory_def Let_def split_beta
  by (auto split: option.split intro!: store_ok_users keyed_Store keyed_Delete store_okD store_ok_store store_ok_replace)

lemma ModelConfig_ok [store_ok_intros]:
  "store_ok gs \<Longrightarrow> store_ok (snd (UpdateModelConfigInMemory mc gs))" "store_ok gs \<Longrightarrow> store_ok (DeleteModelConfigInMemory i gs)"
proof -
  assume ok: "store_ok gs"
  show "store_ok (snd (UpdateModelConfigInMemory mc gs))"
    unfolding UpdateModelConfigInMemory_def Let_def snd_conv
    by (intro store_ok_modelConfigs keyed_Store store_ok_store ok refl) (intro store_okD store_ok_store ok)
  have frame: "model_config_key (delete_rate x (delete_budget y gs)) = model_config_key gs" for x y
    by (simp add: delete_rate_def delete_budget_def split: option.split)
  show "store_ok (DeleteModelConfigInMemory i gs)"
    unfolding DeleteModelConfigInMemory_def Let_def using ok
    by (auto split: option.split intro!: store_ok_modelConfigs keyed_Delete store_ok_store) (auto intro!: store_okD store_ok_store)
qed

lemma Provider_ok [store_ok_intros]:
  "store_ok gs \<Longrightarrow> store_ok (snd (UpdateProviderInMemory p gs))" "store_ok gs \<Longrightarrow> store_ok (DeleteProviderInMemory i gs)"
  unfolding UpdateProviderInMemory_def DeleteProviderInMemory_def Let_def snd_conv
  by (auto split: option.split simp: provider_key_def intro!: store_ok_providers keyed_Store keyed_Delete store_okD store_ok_store)

lemma UpdateUsage_ok [store_ok_intros]: "store_ok gs \<Longrightarrow> store_ok (UpdateUsage now tenantID u gs)"
proof -
  assume ok: "store_ok gs"
  obtain m where "keyed rl_ID m" "UpdateUsage now tenantID u gs =
      gs\<lparr>gs_rateLimits := m, gs_budgets := charge_ids now (uu_Cost u) (charged_budget_ids gs tenantID u) (gs_budgets gs)\<rparr>"
    using UpdateUsage_form store_okD(10) [OF ok] by blast
  then show ?thesis using ok by (auto intro!: store_ok_budgets store_ok_limits budgets.keyed_charges store_okD)
qed

text \<open>The resets.\<close>

lemma key_with [simp]:
  "vk_key (vk_with_budget b vk) = vk_key vk" "vk_key (vk_with_limit rl vk) = vk_key vk"
  "team_key (team_with_budget b t) = team_key t" "team_key (team_with_limit rl t) = team_key t"
  "customer_key (customer_with_budget b c) = customer_key c" "customer_key (customer_with_limit rl c) = customer_key c"
  "ug_UserID (user_with_budget b u) = ug_UserID u" "ug_UserID (user_with_limit rl u) = ug_UserID u"
  by (simp_all add: vk_key_def vk_with_budget_def vk_with_limit_def team_key_def team_with_budget_def team_with_limit_def
      customer_key_def customer_with_budget_def customer_with_limit_def user_with_budget_def user_with_limit_def)

lemma references_ok [store_ok_intros]:
  "store_ok gs \<Longrightarrow> store_ok (updateBudgetReferences b gs)" "store_ok gs \<Longrightarrow> store_ok (updateRateLimitReferences rl gs)"
  unfolding updateBudgetReferences_def updateRateLimitReferences_def
  by (intro store_ok_keys store_ok_teams store_ok_customers store_ok_users keyed_map_entries store_okD; simp)+

lemma keyed_entry: "keyed idf m \<Longrightarrow> (k, r) \<in> set m \<Longrightarrow> idf r = k"
  by (metis keyed_Load keyed_distinct map_of_is_SomeI)

lemma ResetExpired_ok [store_ok_intros]:
  assumes "store_ok gs"
  shows "store_ok (fst (ResetExpiredBudgetsInMemory now gs))" "store_ok (fst (ResetExpiredRateLimitsInMemory now gs))"
proof -
  have "store_ok (fst (fold (reset_budget_entry now) es (g, acc)))" if "store_ok g" "\<And>k b. (k, b) \<in> set es \<Longrightarrow> bud_ID b = k" for es g acc
    using that
  proof (induction es arbitrary: g acc)
    case (Cons e es)
    obtain k b where e: "e = (k, b)" by fastforce
    have "store_ok (fst (reset_budget_entry now e (g, acc)))"
      using Cons.prems by (auto simp: reset_budget_entry_def e Let_def
          intro!: references_ok store_ok_budgets store_ok_other keyed_Store store_okD)
    then show ?case using Cons by (cases "reset_budget_entry now e (g, acc)") auto
  qed simp
  then show "store_ok (fst (ResetExpiredBudgetsInMemory now gs))"
    using assms keyed_entry [OF store_okD(1) [OF assms]] by (simp add: ResetExpiredBudgetsInMemory_def)
  have "store_ok (fst (fold (reset_rate_entry now) es (g, acc)))" if "store_ok g" "\<And>k rl. (k, rl) \<in> set es \<Longrightarrow> rl_ID rl = k" for es g acc
    using that
  proof (induction es arbitrary: g acc)
    case (Cons e es)
    obtain k rl where e: "e = (k, rl)" by fastforce
    have "store_ok (fst (reset_rate_entry now e (g, acc)))"
      using Cons.prems by (auto simp: reset_rate_entry_def e Let_def
          intro!: references_ok store_ok_limits store_ok_other keyed_Store store_okD)
    then show ?case using Cons by (cases "reset_rate_entry now e (g, acc)") auto
  qed simp
  then show "store_ok (fst (ResetExpiredRateLimitsInMemory now gs))"
    using assms keyed_entry [OF store_okD(2) [OF assms]] by (simp add: ResetExpiredRateLimitsInMemory_def)
qed

text \<open>Routing rules.\<close>

lemma GetRoutingProgram_ok [store_ok_intros]: "store_ok gs \<Longrightarrow> store_ok (snd (GetRoutingProgram compiles rule gs))"
  by (auto simp: GetRoutingProgram_def Let_def split: option.split intro: store_ok_other)

lemma rules_ok_Store: "rules_ok m \<Longrightarrow> (\<And>r. r \<in> set rs \<Longrightarrow> rule_key r = k) \<Longrightarrow> sorted (map Priority rs) \<Longrightarrow> rules_ok (Store k rs m)"
  by (auto simp: rules_ok_def distinct_update)

lemma drop_rules_entry:
  assumes "(k, rs) \<in> set (drop_rules gone m)"
  shows "\<exists>rs'. (k, rs') \<in> set m \<and> rs = filter (\<lambda>r. \<not> gone r) rs'"
proof -
  have full: "filter P xs = xs" if "length (filter P xs) = length xs" for P and xs :: "TableRoutingRule list"
    using that by (metis filter_True length_filter_less nat_neq_iff)
  from assms obtain rs' where "(k, rs') \<in> set m"
    "rs = (if length (filter (\<lambda>r. \<not> gone r) rs') = length rs' then rs' else filter (\<lambda>r. \<not> gone r) rs')"
    by (fastforce simp: drop_rules_def Let_def split: if_splits)
  then show ?thesis using full by metis
qed

lemma rules_ok_iff:
  "rules_ok m \<longleftrightarrow> distinct (map fst m) \<and> (\<forall>(k, rules) \<in> set m. sorted (map Priority rules) \<and> (\<forall>r \<in> set rules. rule_key r = k))"
  by (cases "distinct (map fst m)") (auto simp: rules_ok_def split_beta)

text \<open>Dropping rules of each scope, and perhaps whole scopes, keeps the rules well formed.\<close>

lemma rules_ok_shrink:
  assumes "rules_ok m" "distinct (map fst m')"
    and "\<And>k rs. (k, rs) \<in> set m' \<Longrightarrow> \<exists>rs'. (k, rs') \<in> set m \<and> rs = filter keep rs'"
  shows "rules_ok m'"
  unfolding rules_ok_iff
proof (intro conjI ballI, rule assms(2), clarify)
  fix k rs assume "(k, rs) \<in> set m'"
  then obtain rs' where rs': "(k, rs') \<in> set m" "rs = filter keep rs'" using assms(3) by blast
  then have "sorted (map Priority rs')" "\<forall>r \<in> set rs'. rule_key r = k" using assms(1) by (auto simp: rules_ok_iff)
  then show "sorted (map Priority rs) \<and> (\<forall>r \<in> set rs. rule_key r = k)" using rs'(2) by (simp add: sorted_filter)
qed

lemma distinct_drop_rules: "distinct (map fst m) \<Longrightarrow> distinct (map fst (drop_rules gone m))"
proof (induction m)
  case (Cons e m)
  have one: "drop_rules gone (e # m) = drop_rules gone [e] @ drop_rules gone m" "fst ` set (drop_rules gone [e]) \<subseteq> {fst e}"
    "distinct (map fst (drop_rules gone [e]))"
    by (auto simp: drop_rules_def Let_def split: prod.split)
  have "fst ` set (drop_rules gone m) \<subseteq> fst ` set m"
    by (force dest: drop_rules_entry)
  moreover have "fst e \<notin> fst ` set m" using Cons.prems by simp
  ultimately have "fst e \<notin> fst ` set (drop_rules gone m)" by (rule contra_subsetD)
  then have "fst ` set (drop_rules gone [e]) \<inter> fst ` set (drop_rules gone m) = {}"
    using subsetD [OF one(2)] by (metis disjoint_iff singletonD)
  then show ?case using one(3) Cons by (simp add: one(1))
qed (simp add: drop_rules_def)

lemma rules_ok_drop: "rules_ok m \<Longrightarrow> rules_ok (drop_rules gone m)"
  by (rule rules_ok_shrink) (auto dest: drop_rules_entry intro: distinct_drop_rules simp: rules_ok_def)

lemma UpdateRoutingRule_ok [store_ok_intros]: "store_ok gs \<Longrightarrow> store_ok (UpdateRoutingRuleInMemory compiles rule gs)"
proof -
  assume ok: "store_ok gs"
  define m where "m = drop_rules (\<lambda>r. rule_ID r = rule_ID rule \<and> rule_TenantID r = rule_TenantID rule) (gs_routingRules gs)"
  define rules where "rules = (case Load m (rule_key rule) of None \<Rightarrow> [] | Some existing \<Rightarrow> existing)"
  have m: "rules_ok m" unfolding m_def by (intro rules_ok_drop store_okD ok)
  then have "\<forall>r \<in> set rules. rule_key r = rule_key rule" unfolding rules_def rules_ok_def by (cases "Load m (rule_key rule)") auto
  then have "rules_ok (Store (rule_key rule) (sort_key Priority (rules @ [rule])) m)"
    by (intro rules_ok_Store m) auto
  then show ?thesis
    unfolding UpdateRoutingRuleInMemory_def Let_def m_def [symmetric] rules_def [symmetric]
    by (intro GetRoutingProgram_ok store_ok_other store_ok_rules ok)
qed

lemma DeleteRoutingRule_ok [store_ok_intros]: "store_ok gs \<Longrightarrow> store_ok (DeleteRoutingRuleInMemory i gs)"
proof -
  assume ok: "store_ok gs"
  let ?m = "filter (\<lambda>(key, rules). rules \<noteq> []) (map (\<lambda>(key, rules). (key, filter (\<lambda>r. rule_ID r \<noteq> i) rules)) (gs_routingRules gs))"
  have m: "rules_ok (gs_routingRules gs)" by (rule store_okD(9) [OF ok])
  have "distinct (map fst ?m)"
    using m unfolding rules_ok_def by (intro distinct_map_filter) (simp add: split_beta comp_def)
  then have "rules_ok ?m" by (rule rules_ok_shrink [OF m]) auto
  then show ?thesis unfolding DeleteRoutingRuleInMemory_def by (intro store_ok_other store_ok_rules ok)
qed

section \<open>Loading\<close>

lemma keyed_store_all: "keyed idf (store_all idf rows)"
proof -
  have "keyed idf (fold (\<lambda>r. Store (idf r) r) rows m)" if "keyed idf m" for m
    using that by (induction rows arbitrary: m) (auto intro: keyed_Store)
  then show ?thesis by (simp add: store_all_def)
qed

lemma rules_ok_group: "rules_ok (group_rules rules)"
proof -
  let ?step = "\<lambda>rule m. Store (rule_key rule) ((case Load m (rule_key rule) of None \<Rightarrow> [] | Some rs \<Rightarrow> rs) @ [rule]) m"
  define grouped :: "TableRoutingRule list smap \<Rightarrow> bool"
    where "grouped m \<longleftrightarrow> distinct (map fst m) \<and> (\<forall>k rs r. Load m k = Some rs \<longrightarrow> r \<in> set rs \<longrightarrow> rule_key r = k)" for m
  have step: "grouped (?step rule m)" if "grouped m" for rule m
    unfolding grouped_def
  proof (intro conjI allI impI)
    show "distinct (map fst (?step rule m))" using that by (simp add: grouped_def distinct_update)
    fix k rs r assume *: "Load (?step rule m) k = Some rs" "r \<in> set rs"
    have old: "rule_key r' = k'" if "Load m k' = Some rs'" "r' \<in> set rs'" for k' rs' r'
      using \<open>grouped m\<close> that unfolding grouped_def by blast
    show "rule_key r = k"
    proof (cases "k = rule_key rule")
      case True
      with * have "r \<in> set ((case Load m (rule_key rule) of None \<Rightarrow> [] | Some rs \<Rightarrow> rs) @ [rule])" by (simp add: Load_Store)
      then show ?thesis using old True by (cases "Load m (rule_key rule)") auto
    next
      case False
      with * show ?thesis using old by (simp add: Load_Store)
    qed
  qed
  have all: "grouped (fold ?step rules m)" if "grouped m" for m
    using that
  proof (induction rules arbitrary: m)
    case (Cons rule rules)
    from Cons.IH [OF step [OF Cons.prems]] show ?case unfolding fold_simps .
  qed simp
  have "grouped []" by (simp add: grouped_def)
  note g = all [OF this]
  have "rules_ok (map_entries (sort_key Priority) m)" if "grouped m" for m
    using that unfolding grouped_def rules_ok_iff map_entries_def by (auto simp: split_beta comp_def)
  from this [OF g] show ?thesis unfolding group_rules_def .
qed

lemma precompile_ok: "store_ok gs \<Longrightarrow> store_ok (precompile compiles gs)"
  unfolding precompile_def by (intro store_ok_fold GetRoutingProgram_ok)

lemma rebuild_ok: "store_ok (rebuildInMemoryStructures compiles cfg gs)"
proof -
  have keys: "(\<lambda>vk. governanceVirtualKeyStoreKey (vk_TenantID vk) (vk_Value vk)) = vk_key" "(\<lambda>t. governanceTeamStoreKey (team_TenantID t) (team_ID t)) = team_key"
    "(\<lambda>c. governanceCustomerStoreKey (cus_TenantID c) (cus_ID c)) = customer_key"
    "(\<lambda>p. governanceProviderStoreKey (prov_TenantID p) (prov_Name p)) = provider_key"
    by (simp_all add: fun_eq_iff vk_key_def team_key_def customer_key_def provider_key_def)
  show ?thesis
    unfolding rebuildInMemoryStructures_def Let_def keys
    by (intro store_ok_other precompile_ok) (simp add: store_ok_def keyed_store_all rules_ok_group)
qed

lemma New_ok: "NewLocalGovernanceStore compiles reads config catalog known = Inr gs \<Longrightarrow> store_ok gs"
  by (auto simp: NewLocalGovernanceStore_def loadFromDatabase_def loadFromConfigMemory_def bind_sum_def rebuild_ok
      split: option.splits sum.splits)

end
