(* ===== verification/GovSample.thy ===== *)
theory GovSample
  imports GovTables
begin

text \<open>
  A small governance configuration the concrete instances of the theorems use: the key \<open>sk-1\<close> of the
  tenant \<open>acme\<close> with an hourly budget of ten units and an hourly rate limit, in a store that holds
  nothing else.
\<close>

definition sample_budget :: TableBudget where
  "sample_budget = \<lparr>bud_ID = ''b1'', bud_TenantID = ''acme'', MaxLimit = 10, ResetDuration = ''1h'', LastReset = 0, CurrentUsage = 0\<rparr>"

definition sample_limit :: TableRateLimit where
  "sample_limit = \<lparr>rl_ID = ''r1'', rl_TenantID = ''acme'',
     TokenMaxLimit = Some 100, TokenResetDuration = Some ''1h'', TokenCurrentUsage = 0, TokenLastReset = 0,
     RequestMaxLimit = Some 5, RequestResetDuration = Some ''1h'', RequestCurrentUsage = 0, RequestLastReset = 0\<rparr>"

definition sample_key :: TableVirtualKey where
  "sample_key = \<lparr>vk_ID = ''k1'', vk_TenantID = ''acme'', vk_Name = ''key'', vk_Value = ''sk-1'', vk_IsActive = True,
     vk_CacheKey = [], vk_CacheEnabled = None, vk_SemanticCacheEnabled = None, vk_CacheScopeMode = None,
     vk_CacheMetadataScopeKeys = [], vk_CacheAllowSemanticWhenUnscoped = None, FallbackChain = [], ProviderConfigs = [],
     MCPConfigs = [], vk_GuardrailPolicies = [], vk_TeamID = None, vk_CustomerID = None, vk_BudgetID = Some ''b1'',
     vk_RateLimitID = Some ''r1'', vk_WorkspaceID = None, vk_Team = None, vk_Customer = None, vk_Budget = Some sample_budget,
     vk_RateLimit = Some sample_limit, vk_PreviousValue = [], vk_PreviousValueExpiresAt = None\<rparr>"

definition sample_store :: LocalGovernanceStore where
  "sample_store = \<lparr>gs_virtualKeys = [(''acme::sk-1'', sample_key)], gs_teams = [], gs_customers = [],
     gs_budgets = [(''b1'', sample_budget)], gs_rateLimits = [(''r1'', sample_limit)], gs_modelConfigs = [],
     gs_providers = [], gs_routingRules = [], gs_users = [], LastDBUsagesBudgets = [], LastDBUsagesRequestsRateLimits = [],
     LastDBUsagesTokensRateLimits = [], compiledRoutingPrograms = [], gs_configStore = False,
     gs_modelCatalog = None, gs_known = []\<rparr>"

lemma ParseDuration_hour [simp]: "ParseDuration ''1h'' = Some 3600000000000"
  by code_simp

lemma acme_key [simp]: "governanceVirtualKeyStoreKey ''acme'' ''sk-1'' = ''acme::sk-1''"
  by code_simp

end
