(* ===== verification/GovReach.thy ===== *)
theory GovReach
  imports GovInvariant GovPlugin GovSample
begin

text \<open>
  The reachable stores.  A step is one complete operation on the in-memory store: an administrative
  change, a charge, a reset, or a routing evaluation, which fills the cache of compiled programs.
  Every store reached from a load is well formed, and in a well-formed store the look-ups of a
  tenant only return the rows of that tenant.
\<close>

section \<open>Steps\<close>

inductive gov_step :: "LocalGovernanceStore \<Rightarrow> LocalGovernanceStore \<Rightarrow> bool" where
  create_key: "gov_step gs (CreateVirtualKeyInMemory vk gs)"
| update_key: "gov_step gs (UpdateVirtualKeyInMemory vk gs)"
| delete_key: "gov_step gs (DeleteVirtualKeyInMemory i gs)"
| create_team: "gov_step gs (CreateTeamInMemory team gs)"
| update_team: "gov_step gs (UpdateTeamInMemory team gs)"
| delete_team: "gov_step gs (DeleteTeamInMemory i gs)"
| create_customer: "gov_step gs (CreateCustomerInMemory customer gs)"
| update_customer: "gov_step gs (UpdateCustomerInMemory customer gs)"
| delete_customer: "gov_step gs (DeleteCustomerInMemory i gs)"
| create_user: "gov_step gs (CreateUserGovernanceInMemory i b rl gs)"
| update_user: "gov_step gs (UpdateUserGovernanceInMemory i b rl gs)"
| delete_user: "gov_step gs (DeleteUserGovernanceInMemory i gs)"
| update_model: "gov_step gs (snd (UpdateModelConfigInMemory mc gs))"
| delete_model: "gov_step gs (DeleteModelConfigInMemory i gs)"
| update_provider: "gov_step gs (snd (UpdateProviderInMemory p gs))"
| delete_provider: "gov_step gs (DeleteProviderInMemory i gs)"
| update_rule: "gov_step gs (UpdateRoutingRuleInMemory compiles rule gs)"
| delete_rule: "gov_step gs (DeleteRoutingRuleInMemory i gs)"
| route: "gov_step gs (snd (EvaluateRoutingRules env tenantID rc gs))"
| charge: "gov_step gs (UpdateUsage now tenantID u gs)"
| reset_budgets: "gov_step gs (fst (ResetExpiredBudgetsInMemory now gs))"
| reset_limits: "gov_step gs (fst (ResetExpiredRateLimitsInMemory now gs))"

lemma evaluate_rules_ok: "store_ok gs \<Longrightarrow> store_ok (snd (evaluate_rules env rc rules gs))"
proof (induction rules arbitrary: gs)
  case (Cons rule rules)
  have "store_ok (snd (GetRoutingProgram (env_compiles env) rule gs))" by (rule GetRoutingProgram_ok [OF Cons.prems])
  with Cons.IH show ?case by (auto split: prod.split sum.split option.split)
qed simp

lemma evaluate_scopes_ok: "store_ok gs \<Longrightarrow> store_ok (snd (evaluate_scopes env tenantID rc scopes gs))"
proof (induction scopes arbitrary: gs)
  case (Cons scope scopes)
  let ?rules = "GetScopedRoutingRules gs tenantID (ScopeName scope) (scope_ScopeID scope)"
  have "store_ok (snd (evaluate_rules env rc ?rules gs))" by (rule evaluate_rules_ok [OF Cons.prems])
  with Cons.IH show ?case by (auto split: prod.split option.split)
qed simp

lemma EvaluateRoutingRules_ok [store_ok_intros]: "store_ok gs \<Longrightarrow> store_ok (snd (EvaluateRoutingRules env tenantID rc gs))"
  unfolding EvaluateRoutingRules_def by (rule evaluate_scopes_ok)

lemma gov_step_ok: "gov_step gs gs' \<Longrightarrow> store_ok gs \<Longrightarrow> store_ok gs'"
  by (induction rule: gov_step.induct) (rule store_ok_intros; assumption)+

text \<open>
  C2. Every store reached from a successful load, by any sequence of the store's operations, is well
  formed: each budget, rate limit, virtual key, team, customer, provider, user and model
  configuration is filed under the key its own fields give, no key occurs twice, and the routing
  rules of every scope belong to it and stand in priority order.
\<close>

theorem reachable_store_ok:
  assumes "NewLocalGovernanceStore compiles reads config catalog known = Inr gs0" "gov_step\<^sup>*\<^sup>* gs0 gs"
  shows "store_ok gs"
  using assms(2) by (induction rule: rtranclp_induct) (auto intro: New_ok [OF assms(1)] gov_step_ok)

theorem reachable_store_ok_witness: "store_ok (UpdateVirtualKeyInMemory sample_key (empty_store False None []))"
  by (rule reachable_store_ok [of "\<lambda>_. True" None
        "Some \<lparr>cfg_Customers = [], cfg_Teams = [], cfg_VirtualKeys = [], cfg_Budgets = [], cfg_RateLimits = [],
               cfg_ModelConfigs = [], cfg_Providers = [], cfg_RoutingRules = []\<rparr>" None "[]" "empty_store False None []"])
    (simp_all add: NewLocalGovernanceStore_def loadFromConfigMemory_def rebuildInMemoryStructures_def link_config_def
      empty_store_def store_all_def group_rules_def precompile_def map_entries_def r_into_rtranclp update_key)

lemma sample_ok: "store_ok sample_store"
  by (simp add: store_ok_def sample_store_def keyed_def vk_key_def sample_key_def sample_budget_def sample_limit_def rules_ok_def)

section \<open>Tenant isolation\<close>

abbreviation plain_tenant :: "string \<Rightarrow> bool" where
  "plain_tenant t \<equiv> CHR '':'' \<notin> set (normalizeGovernanceTenantID t)"

lemma scoped_row:
  assumes "keyed (\<lambda>r. governanceTenantScopedKey (tenant r) (name r)) m" "plain_tenant t"
    and "Load m (governanceTenantScopedKey t k) = Some r" "plain_tenant (tenant r)"
  shows "normalizeGovernanceTenantID (tenant r) = normalizeGovernanceTenantID t \<and> name r = k"
  using keyed_Load [OF assms(1,3)] scopedKey_inj [OF assms(4,2)] by simp

text \<open>
  C5. Tenant isolation of the look-ups: in a well-formed store, for a tenant identifier that is not
  empty, and when neither that identifier nor the tenant identifier of the row found contains a
  colon, a look-up made for a tenant returns a virtual key, team, customer or provider of that tenant
  only, and the one that was asked for.
\<close>

theorem lookups_are_tenant_scoped:
  assumes "store_ok gs" "plain_tenant t" "t \<noteq> []"
  shows "(\<forall>v vk. GetVirtualKey gs t v = Some vk \<and> plain_tenant (vk_TenantID vk) \<longrightarrow>
            normalizeGovernanceTenantID (vk_TenantID vk) = normalizeGovernanceTenantID t \<and> vk_Value vk = v) \<and>
         (\<forall>i team. getTeamByTenant gs t i = Some team \<and> plain_tenant (team_TenantID team) \<longrightarrow>
            normalizeGovernanceTenantID (team_TenantID team) = normalizeGovernanceTenantID t \<and> team_ID team = i) \<and>
         (\<forall>i customer. getCustomerByTenant gs t i = Some customer \<and> plain_tenant (cus_TenantID customer) \<longrightarrow>
            normalizeGovernanceTenantID (cus_TenantID customer) = normalizeGovernanceTenantID t \<and> cus_ID customer = i) \<and>
         (\<forall>n p. getProviderByContext gs t n = Some p \<and> plain_tenant (prov_TenantID p) \<longrightarrow>
            normalizeGovernanceTenantID (prov_TenantID p) = normalizeGovernanceTenantID t \<and> prov_Name p = n)"
proof -
  have fold_keys: "vk_key = (\<lambda>vk. governanceTenantScopedKey (vk_TenantID vk) (vk_Value vk))"
    "team_key = (\<lambda>tm. governanceTenantScopedKey (team_TenantID tm) (team_ID tm))"
    "customer_key = (\<lambda>c. governanceTenantScopedKey (cus_TenantID c) (cus_ID c))"
    "provider_key = (\<lambda>p. governanceTenantScopedKey (prov_TenantID p) (prov_Name p))"
    by (simp_all add: fun_eq_iff vk_key_def team_key_def customer_key_def provider_key_def governanceVirtualKeyStoreKey_def
        governanceTeamStoreKey_def governanceCustomerStoreKey_def governanceProviderStoreKey_def)
  note rows = store_okD(3-6) [OF assms(1), unfolded fold_keys, THEN scoped_row, OF assms(2)]
  show ?thesis
    unfolding GetVirtualKey_def getTeamByTenant_def getCustomerByTenant_def getProviderByContext_def
      governanceVirtualKeyStoreKey_def governanceTeamStoreKey_def governanceCustomerStoreKey_def governanceProviderStoreKey_def
      if_P [OF assms(3)]
    using rows by blast
qed

theorem lookups_are_tenant_scoped_witness:
  "GetVirtualKey sample_store ''acme'' ''sk-1'' = Some sample_key \<and>
   normalizeGovernanceTenantID (vk_TenantID sample_key) = normalizeGovernanceTenantID ''acme'' \<and> vk_Value sample_key = ''sk-1''"
proof -
  have plain: "plain_tenant ''acme''" "vk_TenantID sample_key = ''acme''" by code_simp+
  have look: "GetVirtualKey sample_store ''acme'' ''sk-1'' = Some sample_key" by (simp add: GetVirtualKey_def sample_store_def)
  with lookups_are_tenant_scoped [OF sample_ok plain(1)] plain show ?thesis by (metis list.distinct(1))
qed

end
