(* ===== verification/GovAdmission.thy ===== *)
theory GovAdmission
  imports GovReach
begin

text \<open>
  Admission.  A request is admitted exactly when its key is acceptable and every budget and every rate
  limit that governs it is open; the budgets that govern a request without a user are those its
  response charges, so a run of requests served one after the other overspends a budget by at most one
  charge.
\<close>

section \<open>Open budgets and rate limits\<close>

text \<open>No baselines are passed at admission: the usage is added to zero.\<close>

definition budget_open :: "int \<Rightarrow> TableBudget \<Rightarrow> bool" where
  "budget_open now b \<longleftrightarrow> budget_expired now b \<or> f_add (CurrentUsage b) 0 < MaxLimit b"

definition rate_open :: "int \<Rightarrow> TableRateLimit \<Rightarrow> bool" where
  "rate_open now rl \<longleftrightarrow>
     (window_expired now (TokenResetDuration rl) (TokenLastReset rl) \<or>
        (case TokenMaxLimit rl of None \<Rightarrow> True | Some m \<Rightarrow> wrap64 (TokenCurrentUsage rl) < m)) \<and>
     (window_expired now (RequestResetDuration rl) (RequestLastReset rl) \<or>
        (case RequestMaxLimit rl of None \<Rightarrow> True | Some m \<Rightarrow> wrap64 (RequestCurrentUsage rl) < m))"

lemma budget_check_open: "budget_check now Map.empty b name = None \<longleftrightarrow> budget_open now b"
  by (auto simp: budget_check_def budget_open_def baseline_def Let_def)

lemma rate_check_open: "rate_check now Map.empty Map.empty who rl name = None \<longleftrightarrow> rate_open now rl"
  by (auto simp: rate_check_def rate_violations_def rate_open_def token_reached_def request_reached_def limit_reached_def
      token_usage_def request_usage_def baseline_def Let_def split: option.split)

text \<open>All rows of a map that a list of identifiers finds are open.\<close>

definition all_open :: "('r \<Rightarrow> bool) \<Rightarrow> 'r smap \<Rightarrow> string list \<Rightarrow> bool" where
  "all_open opened m ids \<longleftrightarrow> (\<forall>i \<in> set ids. case Load m i of None \<Rightarrow> True | Some r \<Rightarrow> opened r)"

lemma all_open_simps [simp]:
  "all_open opened m []" "all_open opened m (xs @ ys) \<longleftrightarrow> all_open opened m xs \<and> all_open opened m ys"
  "all_open opened m (concat xss) \<longleftrightarrow> (\<forall>xs \<in> set xss. all_open opened m xs)"
  by (auto simp: all_open_def)

lemma all_open_option:
  "all_open opened m (option_list oid) \<longleftrightarrow> (case by_id m oid of None \<Rightarrow> True | Some r \<Rightarrow> opened r)"
  by (auto simp: all_open_def option_list_def by_id_def split: option.split)

section \<open>What governs a request\<close>

definition model_governing :: "(TableModelConfig \<Rightarrow> string option) \<Rightarrow> LocalGovernanceStore \<Rightarrow> string \<Rightarrow> string \<Rightarrow> string \<Rightarrow> string list" where
  "model_governing ref gs tenantID model provider =
     (if model = [] then [] else concat (map (\<lambda>(mc, name). option_list (ref mc)) (model_configs gs tenantID model provider)))"

definition user_governing :: "(UserGovernance \<Rightarrow> string option) \<Rightarrow> LocalGovernanceStore \<Rightarrow> string \<Rightarrow> string list" where
  "user_governing ref gs userID =
     (if userID = [] then [] else (case GetUserGovernance gs userID of None \<Rightarrow> [] | Some ug \<Rightarrow> option_list (ref ug)))"

text \<open>The key's own hierarchy governs requests without a user.\<close>

definition key_governing ::
  "(LocalGovernanceStore \<Rightarrow> TableVirtualKey \<Rightarrow> string \<Rightarrow> (string \<times> string option) list) \<Rightarrow> LocalGovernanceStore \<Rightarrow> string \<Rightarrow> EvaluationRequest \<Rightarrow> string list" where
  "key_governing levels gs tenantID request =
     (if er_VirtualKey request = [] \<or> er_UserID request \<noteq> [] then []
      else (case GetVirtualKey gs tenantID (er_VirtualKey request) of
              None \<Rightarrow> []
            | Some vk \<Rightarrow> level_ids (levels gs vk (er_Provider request))))"

definition governing_budgets :: "LocalGovernanceStore \<Rightarrow> string \<Rightarrow> EvaluationRequest \<Rightarrow> string list" where
  "governing_budgets gs tenantID request =
     provider_budget_ids gs tenantID (er_Provider request) @
     model_governing (\<lambda>mc. if mcfg_Budget mc = None then None else mcfg_BudgetID mc) gs tenantID (er_Model request) (er_Provider request) @
     user_governing ug_BudgetID gs (er_UserID request) @ key_governing budget_levels gs tenantID request"

definition governing_limits :: "LocalGovernanceStore \<Rightarrow> string \<Rightarrow> EvaluationRequest \<Rightarrow> string list" where
  "governing_limits gs tenantID request =
     provider_rate_ids gs tenantID (er_Provider request) @
     model_governing mcfg_RateLimitID gs tenantID (er_Model request) (er_Provider request) @
     user_governing ug_RateLimitID gs (er_UserID request) @ key_governing limit_levels gs tenantID request"

definition key_accepted :: "LocalGovernanceStore \<Rightarrow> string \<Rightarrow> EvaluationRequest \<Rightarrow> string \<Rightarrow> bool" where
  "key_accepted gs tenantID request requestType \<longleftrightarrow>
     er_VirtualKey request = [] \<or>
     (case GetVirtualKey gs tenantID (er_VirtualKey request) of
        None \<Rightarrow> False
      | Some vk \<Rightarrow> vk_IsActive vk \<and> (requestType = ''mcp_tool_execution'' \<or> isProviderAllowed vk (er_Provider request)) \<and>
          (isModelRequired requestType \<longrightarrow> isModelAllowed gs vk (er_Provider request) (er_Model request)))"

section \<open>The checks decide openness\<close>

lemma CheckProvider_open:
  "provider \<noteq> [] \<Longrightarrow> CheckProviderBudget gs now t (Some (request_for v provider model)) Map.empty = None \<longleftrightarrow>
     all_open (budget_open now) (gs_budgets gs) (provider_budget_ids gs t provider)"
  "provider \<noteq> [] \<Longrightarrow> CheckProviderRateLimit gs now t (Some (request_for v provider model)) Map.empty Map.empty = None \<longleftrightarrow>
     all_open (rate_open now) (gs_rateLimits gs) (provider_rate_ids gs t provider)"
  by (auto simp: CheckProviderBudget_def CheckProviderRateLimit_def provider_budget_ids_def provider_rate_ids_def request_provider_def
      request_for_def all_open_option budget_check_open rate_check_open split: option.split)

lemma CheckModel_open:
  "model \<noteq> [] \<Longrightarrow> CheckModelBudget gs now t (Some (request_for v provider model)) Map.empty = None \<longleftrightarrow>
     all_open (budget_open now) (gs_budgets gs)
       (model_governing (\<lambda>mc. if mcfg_Budget mc = None then None else mcfg_BudgetID mc) gs t model provider)"
  "model \<noteq> [] \<Longrightarrow> CheckModelRateLimit gs now t (Some (request_for v provider model)) Map.empty Map.empty = None \<longleftrightarrow>
     all_open (rate_open now) (gs_rateLimits gs) (model_governing mcfg_RateLimitID gs t model provider)"
  by (auto simp: CheckModelBudget_def CheckModelRateLimit_def model_governing_def request_provider_def request_model_def
      request_for_def all_open_option budget_check_open rate_check_open first_error_None by_id_def split_beta split: option.splits if_splits)

lemma CheckUser_open:
  "CheckUserBudget gs now userID Map.empty = None \<longleftrightarrow> all_open (budget_open now) (gs_budgets gs) (user_governing ug_BudgetID gs userID)"
  "CheckUserRateLimit gs now userID Map.empty Map.empty = None \<longleftrightarrow> all_open (rate_open now) (gs_rateLimits gs) (user_governing ug_RateLimitID gs userID)"
  by (auto simp: CheckUserBudget_def CheckUserRateLimit_def user_governing_def all_open_option budget_check_open rate_check_open
      split: option.split)

lemma named_open:
  "(\<forall>(r, name) \<in> set (concat (map (\<lambda>(name, oid). named name (by_id m oid)) ls)). opened r) \<longleftrightarrow> all_open opened m (level_ids ls)"
  by (auto simp: level_ids_def all_open_option comp_def split_beta split: option.splits)

lemma CheckKey_open:
  "checkBudgetHierarchy gs now vk request = None \<longleftrightarrow>
     all_open (budget_open now) (gs_budgets gs) (level_ids (budget_levels gs vk (er_Provider request)))"
  "checkRateLimitHierarchy gs now vk request = None \<longleftrightarrow>
     all_open (rate_open now) (gs_rateLimits gs) (level_ids (limit_levels gs vk (er_Provider request)))"
proof -
  have "checkBudgetHierarchy gs now vk request = None \<longleftrightarrow> CheckBudget gs now (Some vk) (Some request) Map.empty = None"
    "checkRateLimitHierarchy gs now vk request = None \<longleftrightarrow> CheckRateLimit gs now (Some vk) (Some request) Map.empty Map.empty = None"
    by (simp_all add: checkBudgetHierarchy_def checkRateLimitHierarchy_def Let_def split: option.split)
  then show "checkBudgetHierarchy gs now vk request = None \<longleftrightarrow>
      all_open (budget_open now) (gs_budgets gs) (level_ids (budget_levels gs vk (er_Provider request)))"
    "checkRateLimitHierarchy gs now vk request = None \<longleftrightarrow>
      all_open (rate_open now) (gs_rateLimits gs) (level_ids (limit_levels gs vk (er_Provider request)))"
    unfolding CheckBudget_def CheckRateLimit_def option.case first_error_None collectBudgets_levels collectRateLimits_levels
      named_open [symmetric] request_provider_def
    by (simp_all add: split_beta budget_check_open rate_check_open)
qed

section \<open>Admission\<close>

lemma rate_decision_denies [simp]: "rate_decision vs \<noteq> DecisionAllow"
  by (simp add: rate_decision_def)

lemma rate_check_denies: "rate_check now tb rb who rl name \<noteq> Some (n, vs, DecisionAllow)"
  by (auto simp: rate_check_def Let_def split: if_splits)

lemma rate_errors_deny [simp]:
  "CheckProviderRateLimit gs now t r tb rb \<noteq> Some (n, vs, DecisionAllow)"
  "CheckModelRateLimit gs now t r tb rb \<noteq> Some (n, vs, DecisionAllow)"
  "CheckUserRateLimit gs now userID tb rb \<noteq> Some (n, vs, DecisionAllow)"
  "CheckRateLimit gs now ovk r tb rb \<noteq> Some (n, vs, DecisionAllow)"
proof -
  have first: "first_error f xs \<noteq> Some (n, vs, DecisionAllow)" if "\<And>x n vs. f x \<noteq> Some (n, vs, DecisionAllow)"
    for f :: "'z \<Rightarrow> RateError option" and xs n vs
    using that by (induction xs) (auto split: option.split)
  show "CheckProviderRateLimit gs now t r tb rb \<noteq> Some (n, vs, DecisionAllow)"
    "CheckUserRateLimit gs now userID tb rb \<noteq> Some (n, vs, DecisionAllow)"
    by (simp_all add: CheckProviderRateLimit_def CheckUserRateLimit_def rate_check_denies split: option.split)
  show "CheckModelRateLimit gs now t r tb rb \<noteq> Some (n, vs, DecisionAllow)" "CheckRateLimit gs now ovk r tb rb \<noteq> Some (n, vs, DecisionAllow)"
    unfolding CheckModelRateLimit_def CheckRateLimit_def
    by (rule first; simp add: rate_check_denies split: option.split prod.split)+
qed

lemma model_and_provider_allows:
  "res_Decision (EvaluateModelAndProviderRequest gs now t provider model) = DecisionAllow \<longleftrightarrow>
     all_open (budget_open now) (gs_budgets gs) (provider_budget_ids gs t provider @
       model_governing (\<lambda>mc. if mcfg_Budget mc = None then None else mcfg_BudgetID mc) gs t model provider) \<and>
     all_open (rate_open now) (gs_rateLimits gs) (provider_rate_ids gs t provider @ model_governing mcfg_RateLimitID gs t model provider)"
proof -
  let ?r = "Some (request_for [] provider model)"
  have "res_Decision (EvaluateModelAndProviderRequest gs now t provider model) = DecisionAllow \<longleftrightarrow>
      (provider = [] \<or> CheckProviderRateLimit gs now t ?r Map.empty Map.empty = None \<and> CheckProviderBudget gs now t ?r Map.empty = None) \<and>
      (model = [] \<or> CheckModelRateLimit gs now t ?r Map.empty Map.empty = None \<and> CheckModelBudget gs now t ?r Map.empty = None)"
    by (auto simp: EvaluateModelAndProviderRequest_def Let_def result_of_def split: option.split)
  moreover have "provider_budget_ids gs t [] = []" "provider_rate_ids gs t [] = []" "model_governing ref gs t [] p = []" for ref p
    by (simp_all add: provider_budget_ids_def provider_rate_ids_def model_governing_def)
  ultimately show ?thesis
    by (cases "provider = []"; cases "model = []") (auto simp: CheckProvider_open CheckModel_open)
qed

lemma user_allows:
  "res_Decision (EvaluateUserRequest gs now userID) = DecisionAllow \<longleftrightarrow>
     all_open (budget_open now) (gs_budgets gs) (user_governing ug_BudgetID gs userID) \<and>
     all_open (rate_open now) (gs_rateLimits gs) (user_governing ug_RateLimitID gs userID)"
  unfolding CheckUser_open [symmetric]
  by (auto simp: EvaluateUserRequest_def result_of_def user_governing_def CheckUserBudget_def CheckUserRateLimit_def rate_check_denies split: option.split)

lemma vk_filter_accepts:
  "vk_filter gs vk provider model requestType = None \<longleftrightarrow>
     vk_IsActive vk \<and> (requestType = ''mcp_tool_execution'' \<or> isProviderAllowed vk provider) \<and>
     (isModelRequired requestType \<longrightarrow> isModelAllowed gs vk provider model)"
  unfolding vk_filter_def by (cases "requestType = ''mcp_tool_execution''") simp_all

lemma vk_filter_denies: "vk_filter gs vk provider model requestType = Some r \<Longrightarrow> res_Decision r \<noteq> DecisionAllow"
  unfolding vk_filter_def by (auto simp: result_of_def result_for_def simp del: append.simps split: if_splits)

lemma key_allows:
  "res_Decision (fst (EvaluateVirtualKeyFiltering gs v provider model requestType ctx)) = DecisionAllow \<longleftrightarrow>
     (\<exists>vk. GetVirtualKey gs (governanceTenantIDFromContext ctx) v = Some vk \<and> vk_filter gs vk provider model requestType = None)"
  "res_Decision (fst (EvaluateVirtualKeyRequest gs now v provider model requestType ctx)) = DecisionAllow \<longleftrightarrow>
     (\<exists>vk. GetVirtualKey gs (governanceTenantIDFromContext ctx) v = Some vk \<and> vk_filter gs vk provider model requestType = None \<and>
        all_open (budget_open now) (gs_budgets gs) (level_ids (budget_levels gs vk provider)) \<and>
        all_open (rate_open now) (gs_rateLimits gs) (level_ids (limit_levels gs vk provider)))"
proof -
  show "res_Decision (fst (EvaluateVirtualKeyFiltering gs v provider model requestType ctx)) = DecisionAllow \<longleftrightarrow>
     (\<exists>vk. GetVirtualKey gs (governanceTenantIDFromContext ctx) v = Some vk \<and> vk_filter gs vk provider model requestType = None)"
    by (auto simp: EvaluateVirtualKeyFiltering_def result_of_def result_for_def Let_def dest: vk_filter_denies split: option.split)
  have deny: "res_Decision r \<noteq> DecisionAllow"
    if "checkRateLimitHierarchy gs now vk q = Some r \<or> checkBudgetHierarchy gs now vk q = Some r" for vk q r
    using that by (auto simp: checkRateLimitHierarchy_def checkBudgetHierarchy_def result_for_def Let_def split: option.splits)
  note deny = deny [OF disjI1] deny [OF disjI2]
  have prov: "er_Provider (request_for v provider model) = provider" by (simp add: request_for_def)
  show "res_Decision (fst (EvaluateVirtualKeyRequest gs now v provider model requestType ctx)) = DecisionAllow \<longleftrightarrow>
     (\<exists>vk. GetVirtualKey gs (governanceTenantIDFromContext ctx) v = Some vk \<and> vk_filter gs vk provider model requestType = None \<and>
        all_open (budget_open now) (gs_budgets gs) (level_ids (budget_levels gs vk provider)) \<and>
        all_open (rate_open now) (gs_rateLimits gs) (level_ids (limit_levels gs vk provider)))"
    unfolding CheckKey_open [where request = "request_for v provider model", unfolded prov, symmetric]
    by (auto simp: EvaluateVirtualKeyRequest_def result_of_def result_for_def Let_def dest: deny vk_filter_denies split: option.split)
qed

lemma levels_allow:
  assumes "t = governanceTenantIDFromContext ctx"
  shows "res_Decision (fst (evaluate_levels gs now request requestType ctx)) = DecisionAllow \<longleftrightarrow>
      key_accepted gs t request requestType \<and>
      all_open (budget_open now) (gs_budgets gs) (governing_budgets gs t request) \<and>
      all_open (rate_open now) (gs_rateLimits gs) (governing_limits gs t request)"
  unfolding evaluate_levels_def Let_def governing_budgets_def governing_limits_def all_open_simps assms
  using model_and_provider_allows [of gs now "governanceTenantIDFromContext ctx" "er_Provider request" "er_Model request"]
    user_allows [of gs now "er_UserID request"]
  by (cases "GetVirtualKey gs (governanceTenantIDFromContext ctx) (er_VirtualKey request)")
    (auto simp: key_allows vk_filter_accepts key_accepted_def key_governing_def)

lemma no_error_iff:
  "snd (fst (evaluateGovernanceRequest p gs now request requestType ctx)) = None \<longleftrightarrow>
     fst (admit_key p gs request ctx) = None \<and>
     res_Decision (fst (evaluate_levels gs now request requestType (snd (admit_key p gs request ctx)))) = DecisionAllow"
  by (cases "admit_key p gs request ctx"; cases "fst (admit_key p gs request ctx)")
    (auto simp: evaluateGovernanceRequest_def decision_error_def Let_def split_beta)

lemma admitted_budgets_open:
  "snd (fst (evaluateGovernanceRequest p gs now request requestType ctx)) = None \<Longrightarrow>
   all_open (budget_open now) (gs_budgets gs)
     (governing_budgets gs (governanceTenantIDFromContext (snd (admit_key p gs request ctx))) request)"
  by (simp add: no_error_iff levels_allow [OF refl])

text \<open>
  C1. Admission is exact: a request passes the governance plugin if and only if its key passes the
  scope check and the mandatory-key rule, the key exists, is active and allows the provider and, where
  the request type needs one, the model, and every budget and every rate limit that governs the
  request (of the provider, the model, the user, or the key with its team and customer) is open: its
  window has lapsed or its usage is below its limit.
\<close>

theorem request_admitted_iff:
  "snd (fst (evaluateGovernanceRequest p gs now request requestType ctx)) = None \<longleftrightarrow>
     (let tenantID = governanceTenantIDFromContext (snd (admit_key p gs request ctx)) in
      fst (admit_key p gs request ctx) = None \<and> key_accepted gs tenantID request requestType \<and>
      all_open (budget_open now) (gs_budgets gs) (governing_budgets gs tenantID request) \<and>
      all_open (rate_open now) (gs_rateLimits gs) (governing_limits gs tenantID request))"
  unfolding no_error_iff Let_def levels_allow [OF refl] ..

end
