(* ===== verification/GovQuota.thy ===== *)
theory GovQuota
  imports GovAdmission
begin

text \<open>
  The quota a budget gives.  Requests served one after the other, each admitted before it is charged,
  take a budget past its limit by at most the charge of one request; and a budget that is exhausted stays
  so, whatever is charged, until its window lapses, even if charges overlap.
\<close>

section \<open>Time\<close>

lemma time_Sub_mono: "now \<le> now' \<Longrightarrow> time_Sub now t \<le> time_Sub now' t"
  unfolding time_Sub_def by (intro max.mono min.mono) simp_all

lemma window_expired_mono: "window_expired now od lastReset \<Longrightarrow> now \<le> now' \<Longrightarrow> window_expired now' od lastReset"
  using time_Sub_mono [of now now' lastReset] by (auto simp: window_expired_def split: option.splits)

lemma budget_expired_mono: "budget_expired now b \<Longrightarrow> now \<le> now' \<Longrightarrow> budget_expired now' b"
  unfolding budget_expired_def using window_expired_mono [of now "Some (ResetDuration b)" "LastReset b" now'] by blast

section \<open>What is charged was checked\<close>






section \<open>Sequential service\<close>











section \<open>An exhausted budget stays exhausted\<close>

text \<open>
  Charges and background resets of many goroutines, all before the instant \<open>T\<close>.  The state is the store and the copies of
  budget rows that goroutines have loaded and not yet written back, each with its key.  A charge loads a row (\<open>metering_load\<close>)
  and later stores the charged copy (\<open>metering_store\<close>), whatever happened to the row in between; the background reset does the
  same (\<open>metering_reset_row\<close>).  A response whose charges are not interrupted and complete resets are single steps.
\<close>

type_synonym MeteringState = "LocalGovernanceStore \<times> (string \<times> TableBudget) list"

inductive metering :: "int \<Rightarrow> MeteringState \<Rightarrow> MeteringState \<Rightarrow> bool" for T where
  metering_load: "Load (gs_budgets gs) i = Some b \<Longrightarrow> metering T (gs, held) (gs, (i, b) # held)"
| metering_store: "(i, b) \<in> set held \<Longrightarrow> now \<le> T \<Longrightarrow> 0 \<le> cost \<Longrightarrow>
    metering T (gs, held) (gs\<lparr>gs_budgets := Store i (budget_charge now cost b) (gs_budgets gs)\<rparr>, remove1 (i, b) held)"
| metering_reset_row: "(i, b) \<in> set held \<Longrightarrow> now \<le> T \<Longrightarrow>
    metering T (gs, held) (fst (reset_budget_entry now (i, b) (gs, [])), remove1 (i, b) held)"
| metering_charge: "now \<le> T \<Longrightarrow> metering T (gs, held) (UpdateUsage now t u gs, held)"
| metering_reset: "now \<le> T \<Longrightarrow> metering T (gs, held) (fst (ResetExpiredBudgetsInMemory now gs), held)"
| metering_limits: "now \<le> T \<Longrightarrow> metering T (gs, held) (fst (ResetExpiredRateLimitsInMemory now gs), held)"

text \<open>The state a budget exhausted in its current window keeps.\<close>

definition exhausted :: "int \<Rightarrow> TableBudget \<Rightarrow> bool" where
  "exhausted T b \<longleftrightarrow> \<not> budget_expired T b \<and> 0 \<le> MaxLimit b \<and> MaxLimit b \<le> CurrentUsage b \<and> float64 (CurrentUsage b)"

lemma exhausted_closed: "exhausted T b \<Longrightarrow> now \<le> T \<Longrightarrow> \<not> budget_open now b"
  using budget_expired_mono [of now b T] by (auto simp: exhausted_def budget_open_def f_add_zero)

lemma exhausted_reset: "exhausted T b \<Longrightarrow> now \<le> T \<Longrightarrow> budget_reset now b = b"
  using budget_expired_mono [of now b T] by (auto simp: exhausted_def budget_reset_def)

lemma exhausted_charge:
  assumes "exhausted T b" "now \<le> T" "0 \<le> cost"
  shows "exhausted T (budget_charge now cost b)"
proof -
  from assms(1) have u: "0 \<le> CurrentUsage b" "float64 (CurrentUsage b)" "MaxLimit b \<le> CurrentUsage b"
    unfolding exhausted_def by linarith+
  have "MaxLimit b \<le> f_add (CurrentUsage b) cost" by (rule order_trans [OF u(3) f_add_ge [OF u(2,1) assms(3)]])
  moreover have "budget_charge now cost b = b\<lparr>CurrentUsage := f_add (CurrentUsage b) cost\<rparr>"
    unfolding budget_charge_def Let_def exhausted_reset [OF assms(1,2)] ..
  moreover have "budget_expired T (b\<lparr>CurrentUsage := x\<rparr>) = budget_expired T b" for x unfolding budget_expired_def by simp
  moreover have "float64 (f_add (CurrentUsage b) cost)" using u(1) assms(3) by (rule f_add_float64)
  ultimately show ?thesis using assms(1) by (simp add: exhausted_def)
qed

lemma exhausted_charges: "exhausted T b \<Longrightarrow> now \<le> T \<Longrightarrow> 0 \<le> cost \<Longrightarrow> exhausted T ((budget_charge now cost ^^ n) b)"
  by (induction n) (auto intro: exhausted_charge)

lemma reset_rates_form:
  assumes "keyed rl_ID (gs_rateLimits gs)" "list_all (\<lambda>(k, rl). rl_ID rl = k) es"
  shows "gs_budgets (fst (fold (reset_rate_entry now) es (gs, acc))) = gs_budgets gs \<and>
    keyed rl_ID (gs_rateLimits (fst (fold (reset_rate_entry now) es (gs, acc))))"
  using assms
proof (induction es arbitrary: gs acc)
  case (Cons e es)
  obtain k rl where e: "e = (k, rl)" by fastforce
  obtain gs1 acc1 where step: "reset_rate_entry now e (gs, acc) = (gs1, acc1)" by fastforce
  then have "gs_budgets gs1 = gs_budgets gs \<and> keyed rl_ID (gs_rateLimits gs1)"
    using Cons.prems by (auto simp: reset_rate_entry_def updateRateLimitReferences_def e Let_def intro!: keyed_Store split: if_splits)
  then show ?case using Cons.IH [of gs1 acc1] Cons.prems(2) by (simp add: step)
qed simp

lemma reset_limits_form:
  assumes "metering_ok gs"
  shows "gs_budgets (fst (ResetExpiredRateLimitsInMemory now gs)) = gs_budgets gs" "metering_ok (fst (ResetExpiredRateLimitsInMemory now gs))"
proof -
  have "list_all (\<lambda>(k, rl). rl_ID rl = k) (gs_rateLimits gs)"
    using assms keyed_entry [of rl_ID "gs_rateLimits gs"] by (auto simp: metering_ok_def list_all_iff)
  then show "gs_budgets (fst (ResetExpiredRateLimitsInMemory now gs)) = gs_budgets gs" "metering_ok (fst (ResetExpiredRateLimitsInMemory now gs))"
    using reset_rates_form [of gs "gs_rateLimits gs" now "[]"] assms by (simp_all add: metering_ok_def ResetExpiredRateLimitsInMemory_def)
qed

text \<open>The row of the budget and every copy of it that is held are exhausted; rows are filed under their identifiers.\<close>

definition closed_state :: "int \<Rightarrow> string \<Rightarrow> MeteringState \<Rightarrow> bool" where
  "closed_state T i = (\<lambda>(gs, held). metering_ok gs \<and> (\<exists>b. Load (gs_budgets gs) i = Some b \<and> exhausted T b) \<and>
     list_all (\<lambda>(j, b). bud_ID b = j \<and> (j = i \<longrightarrow> exhausted T b)) held)"

lemma closed_held: "closed_state T i (gs, held) \<Longrightarrow> (j, b) \<in> set held \<Longrightarrow> bud_ID b = j \<and> (j = i \<longrightarrow> exhausted T b)"
  by (auto simp: closed_state_def list_all_iff)

lemma closed_remove: "closed_state T i (gs, held) \<Longrightarrow> closed_state T i (gs, remove1 x held)"
  using set_remove1_subset [of x held] by (auto simp: closed_state_def list_all_iff)

lemma closed_row:
  assumes "closed_state T i (gs, held)" "bud_ID b = j" "j = i \<Longrightarrow> exhausted T b" "metering_ok gs'" "gs_budgets gs' = Store j b (gs_budgets gs)"
  shows "closed_state T i (gs', held)"
  using assms by (auto simp: closed_state_def)

lemma metering_closed: "metering T s s' \<Longrightarrow> closed_state T i s \<Longrightarrow> closed_state T i s'"
proof (induction rule: metering.induct)
  case (metering_load gs j b held)
  then show ?case using keyed_Load [of bud_ID "gs_budgets gs" j b] by (auto simp: closed_state_def metering_ok_def)
next
  case (metering_store j b held now cost gs)
  note h = closed_held [OF metering_store(4,1)]
  have id: "bud_ID (budget_charge now cost b) = j" using h by (simp add: budget_charge_def budget_reset_def Let_def)
  have "metering_ok gs" using metering_store(4) by (simp add: closed_state_def)
  then have ok: "metering_ok (gs\<lparr>gs_budgets := Store j (budget_charge now cost b) (gs_budgets gs)\<rparr>)"
    using id by (simp add: metering_ok_def keyed_Store)
  show ?case
    by (rule closed_row [OF closed_remove [OF metering_store(4)] id _ ok]) (use h exhausted_charge metering_store(2,3) in auto)
next
  case (metering_reset_row j b held now gs)
  note h = closed_held [OF metering_reset_row(3,1)]
  have id: "bud_ID (budget_reset now b) = j" using h by (simp add: budget_reset_def)
  let ?gs = "fst (reset_budget_entry now (j, b) (gs, []))"
  have row: "gs_budgets ?gs = (if budget_expired now b then Store j (budget_reset now b) (gs_budgets gs) else gs_budgets gs)"
    by (simp add: reset_budget_entry_budgets reset_entry_def)
  have rates: "gs_rateLimits ?gs = gs_rateLimits gs" using reset_rateLimits [of now "[(j, b)]" gs "[]"] by simp
  have ok0: "metering_ok gs" using metering_reset_row(3) by (simp add: closed_state_def)
  show ?case
  proof (cases "budget_expired now b")
    case True
    have "metering_ok ?gs" using ok0 True id by (simp add: metering_ok_def row rates keyed_Store)
    moreover have "j \<noteq> i" using True h metering_reset_row(2) budget_expired_mono [of now b T] by (auto simp: exhausted_def)
    ultimately show ?thesis
      by (intro closed_row [OF closed_remove [OF metering_reset_row(3)] id]) (simp_all add: row True)
  next
    case False
    then have "metering_ok ?gs" using ok0 by (simp add: metering_ok_def row rates)
    then show ?thesis using closed_remove [OF metering_reset_row(3)] False by (simp add: closed_state_def row)
  qed
next
  case (metering_charge now gs held t u)
  then obtain b where ok: "metering_ok gs" and b: "Load (gs_budgets gs) i = Some b" "exhausted T b" by (auto simp: closed_state_def)
  let ?n = "count_list (charged_budget_ids gs t u) i"
  have "Load (gs_budgets (UpdateUsage now t u gs)) i = Some ((budget_charge now (uu_Cost u) ^^ ?n) b)"
    using b(1) unfolding UpdateUsage_budgets [OF ok] Load_charge_rows by simp
  moreover have "exhausted T ((budget_charge now (uu_Cost u) ^^ ?n) b)"
  proof (cases "0 \<le> uu_Cost u")
    case True
    then show ?thesis by (rule exhausted_charges [OF b(2) metering_charge.hyps])
  next
    case False
    then have "charged_budget_ids gs t u = []" by (simp add: charged_budget_ids_def)
    then show ?thesis using b(2) by simp
  qed
  ultimately show ?case using UpdateUsage_metering_ok [OF ok] metering_charge.prems by (auto simp: closed_state_def)
next
  case (metering_reset now gs held)
  then obtain b where ok: "metering_ok gs" and b: "Load (gs_budgets gs) i = Some b" "exhausted T b" by (auto simp: closed_state_def)
  then have "Load (gs_budgets (fst (ResetExpiredBudgetsInMemory now gs))) i = Some b"
    using metering_reset.hyps exhausted_reset [OF b(2)] Load_reset [of gs now i] by (simp add: metering_ok_def)
  then show ?case using metering_reset.prems reset_metering_ok [OF ok] b(2) by (auto simp: closed_state_def)
next
  case (metering_limits now gs held)
  then show ?case using reset_limits_form [of gs now] by (auto simp: closed_state_def)
qed

text \<open>
  C3. An exhausted budget blocks until its window lapses: once the usage of a budget has reached its
  limit, and no goroutine still holds a copy of its row from before, no interleaving of charges and
  background resets before the end of its window reopens it, even if their loads and stores overlap,
  and every request it governs in that time is rejected.
\<close>

theorem exhausted_budget_blocks:
  assumes "metering_ok gs" "Load (gs_budgets gs) i = Some b" "exhausted T b"
    and "list_all (\<lambda>(j, b'). bud_ID b' = j \<and> (j = i \<longrightarrow> exhausted T b')) held"
    and "(metering T)\<^sup>*\<^sup>* (gs, held) (gs', held')" "now \<le> T"
    and "i \<in> set (governing_budgets gs' (governanceTenantIDFromContext (snd (admit_key p gs' request ctx))) request)"
  shows "snd (fst (evaluateGovernanceRequest p gs' now request requestType ctx)) \<noteq> None"
proof
  assume "snd (fst (evaluateGovernanceRequest p gs' now request requestType ctx)) = None"
  then have "all_open (budget_open now) (gs_budgets gs') (governing_budgets gs' (governanceTenantIDFromContext (snd (admit_key p gs' request ctx))) request)"
    by (rule admitted_budgets_open)
  moreover have "closed_state T i (gs', held')"
    using assms(5) by (rule rtranclp_induct) (use assms(1-4) metering_closed in \<open>auto simp: closed_state_def\<close>)
  then obtain b' where "Load (gs_budgets gs') i = Some b'" "\<not> budget_open now b'"
    using exhausted_closed [OF _ assms(6)] by (auto simp: closed_state_def)
  ultimately show False using assms(7) by (auto simp: all_open_def split: option.splits)
qed

section \<open>Instances\<close>

definition sample_request :: EvaluationRequest where
  "sample_request = \<lparr>er_VirtualKey = ''sk-1'', er_Provider = ''openai'', er_Model = ''gpt-4'', er_UserID = []\<rparr>"

definition sample_ctx :: DeepIntShieldContext where
  "sample_ctx = \<lparr>ctx_values = [(''tenant_id'', CtxStr ''acme'')], ctx_blockRestrictedWrites = False\<rparr>"

definition sample_plugin :: GovernancePlugin where
  "sample_plugin = \<lparr>p_inMemoryStore = None, p_isVkMandatory = Some True, p_requiredHeaders = None,
     p_env = \<lparr>env_compiles = (\<lambda>e. True), env_eval = (\<lambda>e vs. EvalBool True), env_rand = 0, env_pick = (\<lambda>n. 0)\<rparr>\<rparr>"

definition sample_usage :: "rat \<Rightarrow> UsageUpdate" where
  "sample_usage cost = \<lparr>uu_VirtualKey = ''sk-1'', uu_Provider = ''openai'', uu_Model = ''gpt-4'', uu_Success = True, uu_TokensUsed = 7,
     uu_Cost = cost, uu_RequestID = ''q1'', uu_UserID = [], uu_IsStreaming = False, uu_IsFinalChunk = False, uu_HasUsageData = True\<rparr>"

definition sample_spent :: "rat \<Rightarrow> LocalGovernanceStore" where
  "sample_spent x = sample_store\<lparr>gs_budgets := [(''b1'', sample_budget\<lparr>CurrentUsage := x\<rparr>)]\<rparr>"





lemma spent_ok: "metering_ok (sample_spent x)" "Load (gs_budgets (sample_spent x)) ''b1'' = Some (sample_budget\<lparr>CurrentUsage := x\<rparr>)"
  using store_okD(10) [OF sample_ok] by (simp_all add: metering_ok_def sample_spent_def keyed_def sample_budget_def sample_store_def)

text \<open>Two charges that overlap: the second loads the row before the first has stored it.\<close>

definition overlapped :: LocalGovernanceStore where
  "overlapped = (sample_spent 10)\<lparr>gs_budgets := Store ''b1'' (budget_charge 1 2 (sample_budget\<lparr>CurrentUsage := 10\<rparr>))
     (Store ''b1'' (budget_charge 1 3 (sample_budget\<lparr>CurrentUsage := 10\<rparr>)) (gs_budgets (sample_spent 10)))\<rparr>"

lemma overlapped_run: "(metering 3)\<^sup>*\<^sup>* (sample_spent 10, []) (overlapped, [])"
proof -
  let ?b = "sample_budget\<lparr>CurrentUsage := 10\<rparr>"
  let ?gs = "(sample_spent 10)\<lparr>gs_budgets := Store ''b1'' (budget_charge 1 3 ?b) (gs_budgets (sample_spent 10))\<rparr>"
  note load = metering_load [OF spent_ok(2) [of 10]]
  have "metering 3 (sample_spent 10, []) (sample_spent 10, [(''b1'', ?b)])" by (rule load)
  moreover have "metering 3 (sample_spent 10, [(''b1'', ?b)]) (sample_spent 10, [(''b1'', ?b), (''b1'', ?b)])" by (rule load)
  moreover have "metering 3 (sample_spent 10, [(''b1'', ?b), (''b1'', ?b)]) (?gs, [(''b1'', ?b)])"
    using metering_store [of "''b1''" ?b "[(''b1'', ?b), (''b1'', ?b)]" 1 3 3 "sample_spent 10"] by simp
  moreover have "metering 3 (?gs, [(''b1'', ?b)]) (overlapped, [])"
    using metering_store [of "''b1''" ?b "[(''b1'', ?b)]" 1 3 2 ?gs] by (simp add: overlapped_def)
  ultimately show ?thesis by (meson rtranclp.rtrancl_refl rtranclp.rtrancl_into_rtrancl)
qed

theorem exhausted_budget_blocks_witness:
  "snd (fst (evaluateGovernanceRequest sample_plugin overlapped 2 sample_request ''chat_completion'' sample_ctx)) \<noteq> None"
proof -
  have "exhausted 3 (sample_budget\<lparr>CurrentUsage := 10\<rparr>)" by code_simp
  moreover have "''b1'' \<in> set (governing_budgets overlapped
      (governanceTenantIDFromContext (snd (admit_key sample_plugin overlapped sample_request sample_ctx))) sample_request)"
    by code_simp
  ultimately show ?thesis by (intro exhausted_budget_blocks [OF spent_ok _ _ overlapped_run]) simp_all
qed

theorem budget_charged_per_reference_witness:
  "Load (gs_budgets (UpdateUsage 1 ''acme'' (sample_usage 3) sample_store)) ''b1'' = Some (budget_charge 1 3 sample_budget)"
proof -
  have "count_list (charged_budget_ids sample_store ''acme'' (sample_usage 3)) ''b1'' = 1" "uu_Cost (sample_usage 3) = 3"
    "Load (gs_budgets sample_store) ''b1'' = Some sample_budget" by code_simp+
  then show ?thesis
    using budget_charged_per_reference [OF store_okD(10) [OF sample_ok], of 1 "''acme''" "sample_usage 3" "''b1''"] by simp
qed

theorem lazy_expiry_check_agrees_witness:
  "CheckBudget (sample_spent 10) 3600000000000 (Some sample_key) (Some sample_request) Map.empty = None \<and>
   CheckBudget (fst (ResetExpiredBudgetsInMemory 3600000000000 (sample_spent 10))) 3600000000000 (Some sample_key) (Some sample_request) Map.empty = None"
proof -
  have "CheckBudget (sample_spent 10) 3600000000000 (Some sample_key) (Some sample_request) Map.empty = None" by code_simp
  moreover have "0 < MaxLimit b" if "Load (gs_budgets (sample_spent 10)) i = Some b" for i b
    using that by (auto simp: sample_spent_def sample_budget_def split: if_splits)
  ultimately show ?thesis
    using lazy_expiry_check_agrees [OF spent_ok(1) [unfolded metering_ok_def, THEN conjunct1]] by blast
qed

theorem background_reset_charge_agrees_witness:
  "Load (gs_budgets (UpdateUsage 3600000000000 ''acme'' (sample_usage 3) (fst (ResetExpiredBudgetsInMemory 3600000000000 (sample_spent 10))))) ''b1'' =
   Load (gs_budgets (UpdateUsage 3600000000000 ''acme'' (sample_usage 3) (sample_spent 10))) ''b1''"
proof -
  have "''b1'' \<in> set (charged_budget_ids (sample_spent 10) ''acme'' (sample_usage 3))" by code_simp
  then show ?thesis
    using background_reset_charge_agrees [OF spent_ok(1) [of 10], of 3600000000000 "''acme''" "sample_usage 3" "''b1''"] by (simp add: option.map_id)
qed

end
