(* ===== verification/GovPersist.thy ===== *)
theory GovPersist
  imports GovQuota "HOL-Library.Multiset"
begin

text \<open>
  The store across a restart, a rotation and a race: what the periodic dump writes and a reload reads
  back, what the rotation of a key leaves behind, and what two charges that overlap do to a budget.
\<close>

section \<open>Dump and reload\<close>

definition dump_row :: "LocalGovernanceStore \<Rightarrow> TableBudget \<Rightarrow> TableBudget" where
  "dump_row gs row = (case Load (gs_budgets gs) (bud_ID row) of None \<Rightarrow> row | Some b \<Rightarrow> row\<lparr>CurrentUsage := CurrentUsage b\<rparr>)"

lemma dump_rows:
  assumes "keyed bud_ID (gs_budgets gs)" "gs_configStore gs"
  shows "db_budgets (snd (DumpBudgets gs None Map.empty db)) = map (dump_row gs) (db_budgets db)"
proof -
  let ?upd = "\<lambda>(key :: string, b). update_budget_row (bud_ID b) (\<lambda>row. row\<lparr>CurrentUsage :=
      (case Map.empty (bud_ID b) of None \<Rightarrow> CurrentUsage b | Some v \<Rightarrow> f_add (CurrentUsage b) v)\<rparr>)"
  have "db_budgets (fold ?upd es db) =
      map (\<lambda>row. case Load es (bud_ID row) of None \<Rightarrow> row | Some b \<Rightarrow> row\<lparr>CurrentUsage := CurrentUsage b\<rparr>) (db_budgets db)"
    if "distinct (map fst es)" "\<And>k b. (k, b) \<in> set es \<Longrightarrow> bud_ID b = k" for es db
    using that
  proof (induction es arbitrary: db)
    case (Cons e es)
    obtain k b where e: "e = (k, b)" by fastforce
    have k: "bud_ID b = k" using Cons.prems(2) [of k b] e by simp
    have fresh: "Load es k = None" using Cons.prems(1) e by (simp add: map_of_eq_None_iff)
    have "db_budgets (fold ?upd es (?upd e db)) = map (\<lambda>row. case Load es (bud_ID row) of None \<Rightarrow> row | Some b \<Rightarrow> row\<lparr>CurrentUsage := CurrentUsage b\<rparr>)
        (db_budgets (?upd e db))" using Cons.prems by (intro Cons.IH) auto
    also have "\<dots> = map (\<lambda>row. case Load (e # es) (bud_ID row) of None \<Rightarrow> row | Some b \<Rightarrow> row\<lparr>CurrentUsage := CurrentUsage b\<rparr>) (db_budgets db)"
      by (simp add: update_budget_row_def e k fresh)
    finally show ?case by simp
  qed simp
  from this [OF keyed_distinct [OF assms(1)] keyed_entry [OF assms(1)]] show ?thesis
    using assms(2) by (cases "gs_budgets gs = []") (auto simp: DumpBudgets_def ExecuteTransaction_def dump_row_def [abs_def])
qed

lemma Load_store_all:
  assumes "distinct (map idf rows)"
  shows "Load (store_all idf rows) i = find (\<lambda>r. idf r = i) rows"
proof -
  have "Load (fold (\<lambda>r. Store (idf r) r) rows m) i = (case find (\<lambda>r. idf r = i) rows of None \<Rightarrow> Load m i | Some r \<Rightarrow> Some r)" for m
    using assms
  proof (induction rows arbitrary: m)
    case (Cons r rows)
    have "find (\<lambda>s. idf s = idf r) rows = None" using Cons.prems by (fastforce simp: find_None_iff image_iff)
    then show ?case using Cons by (auto split: option.split)
  qed simp
  then show ?thesis by (simp add: store_all_def split: option.split)
qed

lemma precompile_budgets: "gs_budgets (precompile compiles gs) = gs_budgets gs"
proof -
  have "gs_budgets (snd (GetRoutingProgram compiles rule g)) = gs_budgets g" for rule g
    by (auto simp: GetRoutingProgram_def Let_def split: option.split)
  then have "gs_budgets (fold (\<lambda>rule g. snd (GetRoutingProgram compiles rule g)) rules g) = gs_budgets g" for rules g
    by (induction rules arbitrary: g) simp_all
  then show ?thesis by (simp add: precompile_def)
qed

lemma reload_budgets:
  assumes "loadFromDatabase compiles reads gsE = Inr gs"
  shows "\<exists>rows. dbr_budgets reads = Inr rows \<and> gs_budgets gs = store_all bud_ID rows"
  using assms by (auto simp: loadFromDatabase_def bind_sum_def rebuildInMemoryStructures_def precompile_budgets Let_def split: sum.splits)

lemma reload_row:
  assumes "keyed bud_ID (gs_budgets gs)" "gs_configStore gs" "distinct (map bud_ID (db_budgets db))" "row \<in> set (db_budgets db)"
    and "dbr_budgets reads = Inr (db_budgets (snd (DumpBudgets gs None Map.empty db)))"
    and "loadFromDatabase compiles reads gsE = Inr gs'"
  shows "Load (gs_budgets gs') (bud_ID row) = Some (dump_row gs row)"
proof -
  let ?rows = "map (dump_row gs) (db_budgets db)"
  have id: "bud_ID (dump_row gs r) = bud_ID r" for r by (simp add: dump_row_def split: option.split)
  have load: "gs_budgets gs' = store_all bud_ID ?rows"
    using reload_budgets [OF assms(6)] assms(5) dump_rows [OF assms(1,2), of db] by auto
  have "distinct (map bud_ID ?rows)" using assms(3) by (simp add: comp_def id)
  moreover have "find (\<lambda>r. bud_ID r = bud_ID row) ?rows = Some (dump_row gs row)"
  proof -
    have "find (\<lambda>r. bud_ID r = bud_ID row) (map (dump_row gs) rs) = Some (dump_row gs row)" if "distinct (map bud_ID rs)" "row \<in> set rs" for rs
      using that by (induction rs) (auto simp: id image_iff)
    then show ?thesis using assms(3,4) by blast
  qed
  ultimately show ?thesis by (simp add: load Load_store_all)
qed

text \<open>
  C32. Dump and reload round trip: when the periodic dump succeeds and the store is rebuilt from the
  database, every budget that has a row there comes back with the usage it had in memory, under the
  limit and with the window start of the row.
\<close>

theorem dump_reload_keeps_usage:
  assumes "store_ok gs" "gs_configStore gs" "distinct (map bud_ID (db_budgets db))" "row \<in> set (db_budgets db)"
    and "Load (gs_budgets gs) (bud_ID row) = Some b"
    and "dbr_budgets reads = Inr (db_budgets (snd (DumpBudgets gs None Map.empty db)))" "loadFromDatabase compiles reads gsE = Inr gs'"
  shows "Load (gs_budgets gs') (bud_ID row) = Some (row\<lparr>CurrentUsage := CurrentUsage b\<rparr>)"
  using reload_row [OF store_okD(1) [OF assms(1)] assms(2,3,4,6,7)] assms(5) by (simp add: dump_row_def)

text \<open>
  The window start of a lazy reset is never written back: when a charge finds the window of a
  budget lapsed, starts a new one and adds its cost, and the store is dumped, a restart at any later
  time finds the old window start in the row and zeroes the usage, whatever was spent in the new
  window.
\<close>

theorem lazy_reset_forgotten_on_restart:
  assumes "store_ok gs" "gs_configStore gs" "distinct (map bud_ID (db_budgets db))" "row \<in> set (db_budgets db)"
    and "Load (gs_budgets gs) (bud_ID row) = Some b" "ResetDuration row = ResetDuration b" "LastReset row = LastReset b"
    and "budget_expired now b" "now \<le> now'"
    and "dbr_budgets reads = Inr (db_budgets (snd (DumpBudgets (UpdateUsage now t u gs) None Map.empty db)))"
    and "loadFromDatabase compiles reads gsE = Inr gs'"
  shows "map_option CurrentUsage (Load (gs_budgets (fst (ResetExpiredBudgetsInMemory now' gs'))) (bud_ID row)) = Some 0"
proof -
  let ?g = "UpdateUsage now t u gs"
  have ok: "store_ok ?g" by (rule UpdateUsage_ok [OF assms(1)])
  have cs: "gs_configStore ?g"
    using UpdateUsage_form [OF store_okD(10) [OF assms(1)], of now t u] assms(2) by auto
  have row: "Load (gs_budgets gs') (bud_ID row) = Some (dump_row ?g row)"
    by (rule reload_row [OF store_okD(1) [OF ok] cs assms(3,4,10,11)])
  have same: "ResetDuration (dump_row ?g row) = ResetDuration b" "LastReset (dump_row ?g row) = LastReset b"
    using assms(6,7) by (simp_all add: dump_row_def split: option.split)
  have "budget_expired now (dump_row ?g row)" using assms(8) unfolding budget_expired_def same .
  then have lapsed: "budget_expired now' (dump_row ?g row)" by (rule budget_expired_mono [OF _ assms(9)])
  have "keyed bud_ID (gs_budgets gs')" using reload_budgets [OF assms(11)] keyed_store_all by auto
  then show ?thesis using row lapsed by (simp add: Load_reset budget_reset_def)
qed

section \<open>Rotation\<close>

lemma CreateVirtualKey_keys:
  "gs_virtualKeys (CreateVirtualKeyInMemory vk gs) = Store (vk_key vk) vk (gs_virtualKeys gs)"
proof -
  have "gs_virtualKeys (fold (\<lambda>pc. store_rate_opt (pc_RateLimit pc) \<circ> store_budget_opt (pc_Budget pc)) pcs g) = gs_virtualKeys g"
    for pcs :: "TableVirtualKeyProviderConfig list" and g
    by (induction pcs arbitrary: g) simp_all
  then show ?thesis by (simp add: CreateVirtualKeyInMemory_def store_vk_def vk_key_def)
qed

lemma DeleteVirtualKey_keys:
  "\<exists>key. gs_virtualKeys (DeleteVirtualKeyInMemory i gs) = gs_virtualKeys gs \<or>
         gs_virtualKeys (DeleteVirtualKeyInMemory i gs) = Delete key (gs_virtualKeys gs)"
proof -
  have one: "gs_virtualKeys (delete_rate x (delete_budget y g)) = gs_virtualKeys g" for x y g
    by (simp add: delete_rate_def delete_budget_def split: option.split)
  have "gs_virtualKeys (fold (\<lambda>pc. delete_rate (pc_RateLimitID pc) \<circ> delete_budget (pc_BudgetID pc)) pcs g) = gs_virtualKeys g"
    for pcs :: "TableVirtualKeyProviderConfig list" and g
    by (induction pcs arbitrary: g) (simp_all add: one)
  then show ?thesis by (auto simp: DeleteVirtualKeyInMemory_def one Let_def split: option.split)
qed

text \<open>
  A rotated key keeps its old value: after a rotation with any grace period, a look-up of the old
  value still returns the key as it was before, at any later time, beside the new value; and deleting
  the key removes at most one of the two.
\<close>

theorem rotated_value_stays_valid:
  assumes "store_ok gs" "t \<noteq> []" "GetVirtualKey gs t v = Some vk" "plain_tenant t" "plain_tenant (vk_TenantID vk)"
    and "v' \<noteq> v" "GetVirtualKey gs t v' = None"
    and gs': "gs' = UpdateVirtualKeyInMemory (rotateVirtualKey v' grace now vk) gs"
  shows "GetVirtualKey gs' t v = Some vk \<and> GetVirtualKey gs' t v' = Some (rotateVirtualKey v' grace now vk) \<and>
         (GetVirtualKey (DeleteVirtualKeyInMemory (vk_ID vk) gs') t v \<noteq> None \<or> GetVirtualKey (DeleteVirtualKeyInMemory (vk_ID vk) gs') t v' \<noteq> None)"
proof -
  let ?new = "rotateVirtualKey v' grace now vk"
  have "vk_key vk = governanceVirtualKeyStoreKey t v"
    using keyed_Load [OF store_okD(3) [OF assms(1)]] assms(2,3) by (simp add: GetVirtualKey_def)
  then have tenant: "normalizeGovernanceTenantID (vk_TenantID vk) = normalizeGovernanceTenantID t"
    using scopedKey_inj [OF assms(5,4)] by (simp add: vk_key_def governanceVirtualKeyStoreKey_def)
  have key: "vk_key ?new = governanceVirtualKeyStoreKey t v'"
    using tenant by (simp add: rotateVirtualKey_def vk_key_def governanceVirtualKeyStoreKey_def governanceTenantScopedKey_def)
  have other: "governanceVirtualKeyStoreKey t v' \<noteq> governanceVirtualKeyStoreKey t v"
    using assms(6) scopedKey_inj [OF assms(4,4)] by (simp add: governanceVirtualKeyStoreKey_def)
  have gs'_keys: "gs_virtualKeys gs' = Store (governanceVirtualKeyStoreKey t v') ?new (gs_virtualKeys gs)"
    using assms(2,7) key CreateVirtualKey_keys [of ?new gs]
    by (simp add: gs' UpdateVirtualKeyInMemory_def GetVirtualKey_def vk_key_def)
  have both: "Load (gs_virtualKeys gs') (governanceVirtualKeyStoreKey t v) = Some vk"
    "Load (gs_virtualKeys gs') (governanceVirtualKeyStoreKey t v') = Some ?new"
    using assms(2,3) other by (auto simp: gs'_keys GetVirtualKey_def)
  obtain key where "gs_virtualKeys (DeleteVirtualKeyInMemory (vk_ID vk) gs') = gs_virtualKeys gs' \<or>
      gs_virtualKeys (DeleteVirtualKeyInMemory (vk_ID vk) gs') = Delete key (gs_virtualKeys gs')"
    using DeleteVirtualKey_keys by blast
  then show ?thesis using both assms(2) other by (auto simp: GetVirtualKey_def)
qed

section \<open>Overlapping charges\<close>

text \<open>
  The charge of one budget is a load, a change of the copy and a store, with no lock around them.  A
  goroutine is about to load, about to store the copy it loaded, or has finished.
\<close>

datatype Charger = Pending string rat | Loaded string rat "TableBudget option" | Finished string rat

inductive interleave :: "int \<Rightarrow> TableBudget smap \<times> Charger list \<Rightarrow> TableBudget smap \<times> Charger list \<Rightarrow> bool" for now where
  charger_load: "n < length cs \<Longrightarrow> cs ! n = Pending i c \<Longrightarrow> interleave now (m, cs) (m, cs[n := Loaded i c (Load m i)])"
| charger_store: "n < length cs \<Longrightarrow> cs ! n = Loaded i c (Some b) \<Longrightarrow>
    interleave now (m, cs) (Store i (budget_charge now c b) m, cs[n := Finished i c])"
| charger_skip: "n < length cs \<Longrightarrow> cs ! n = Loaded i c None \<Longrightarrow> interleave now (m, cs) (m, cs[n := Finished i c])"

text \<open>A goroutine that runs alone is \<^const>\<open>charge_row\<close>.\<close>

lemma charger_alone:
  "(interleave now)\<^sup>*\<^sup>* (m, [Pending i c]) (charge_row (budget_charge now c) i m, [Finished i c])"
proof -
  have "interleave now (m, [Pending i c]) (m, [Loaded i c (Load m i)])" using charger_load [of 0 "[Pending i c]" i c now m] by simp
  moreover have "interleave now (m, [Loaded i c (Load m i)]) (charge_row (budget_charge now c) i m, [Finished i c])"
    using charger_store [of 0 "[Loaded i c (Load m i)]" i c] charger_skip [of 0 "[Loaded i c (Load m i)]" i c now m]
    by (cases "Load m i") (simp_all add: charge_row_def)
  ultimately show ?thesis by (meson rtranclp.rtrancl_refl rtranclp.rtrancl_into_rtrancl)
qed

text \<open>The costs a row has taken, among those of the goroutines that have finished with it.\<close>

definition finished_costs :: "string \<Rightarrow> Charger list \<Rightarrow> rat multiset" where
  "finished_costs i cs = mset (concat (map (\<lambda>g. case g of Finished j c \<Rightarrow> if j = i then [c] else [] | _ \<Rightarrow> []) cs))"

definition charged_from :: "int \<Rightarrow> TableBudget \<Rightarrow> rat multiset \<Rightarrow> TableBudget \<Rightarrow> bool" where
  "charged_from now b0 costs b \<longleftrightarrow> (\<exists>xs. mset xs \<subseteq># costs \<and> b = fold (budget_charge now) xs b0)"

lemma charged_from_mono: "charged_from now b0 A b \<Longrightarrow> A \<subseteq># B \<Longrightarrow> charged_from now b0 B b"
  unfolding charged_from_def using subset_mset.order_trans by blast

lemma charged_from_charge:
  assumes "charged_from now b0 A b"
  shows "charged_from now b0 (add_mset c A) (budget_charge now c b)"
proof -
  from assms obtain xs where "mset xs \<subseteq># A" "b = fold (budget_charge now) xs b0" by (auto simp: charged_from_def)
  then have "mset (xs @ [c]) \<subseteq># add_mset c A" "budget_charge now c b = fold (budget_charge now) (xs @ [c]) b0" by simp_all
  then show ?thesis unfolding charged_from_def by blast
qed

lemma finished_costs_update:
  assumes "n < length cs" "\<And>j c. cs ! n \<noteq> Finished j c"
  shows "finished_costs i (cs[n := g]) = (case g of Finished j c \<Rightarrow> if j = i then add_mset c (finished_costs i cs) else finished_costs i cs | _ \<Rightarrow> finished_costs i cs)"
  using assms
proof (induction cs arbitrary: n)
  case (Cons g' cs)
  show ?case
  proof (cases n)
    case 0
    then show ?thesis using Cons.prems(2) by (cases g'; cases g) (auto simp: finished_costs_def)
  next
    case (Suc k)
    then show ?thesis using Cons.IH [of k] Cons.prems by (cases g) (auto simp: finished_costs_def)
  qed
qed simp

definition race_ok :: "int \<Rightarrow> string \<Rightarrow> TableBudget \<Rightarrow> TableBudget smap \<times> Charger list \<Rightarrow> bool" where
  "race_ok now i b0 = (\<lambda>(m, cs).
     (\<exists>b. Load m i = Some b \<and> charged_from now b0 (finished_costs i cs) b) \<and>
     (\<forall>c ob. Loaded i c ob \<in> set cs \<longrightarrow> (\<exists>b. ob = Some b \<and> charged_from now b0 (finished_costs i cs) b)))"

lemma race_step: "interleave now s s' \<Longrightarrow> race_ok now i b0 s \<Longrightarrow> race_ok now i b0 s'"
proof (induction rule: interleave.induct)
  case (charger_load n cs j c m)
  note fin = finished_costs_update [OF charger_load(1), of i "Loaded j c (Load m j)"]
  show ?case using charger_load fin set_update_subset_insert [of cs n "Loaded j c (Load m j)"] by (auto simp: race_ok_def)
next
  case (charger_store n cs j c b m)
  let ?cs = "cs[n := Finished j c]"
  have fin: "finished_costs i ?cs = (if j = i then add_mset c (finished_costs i cs) else finished_costs i cs)"
    using finished_costs_update [OF charger_store(1), of i "Finished j c"] charger_store(2) by simp
  have sub: "finished_costs i cs \<subseteq># finished_costs i ?cs" by (simp add: fin)
  have "Loaded j c (Some b) \<in> set cs" using charger_store(1,2) nth_mem by metis
  then have "j = i \<Longrightarrow> charged_from now b0 (finished_costs i cs) b"
    using charger_store.prems by (auto simp: race_ok_def)
  then have "charged_from now b0 (finished_costs i ?cs) (budget_charge now c b)" if "j = i"
    using that charged_from_charge unfolding fin by simp
  moreover have "x \<in> set cs" if "x \<in> set ?cs" "x \<noteq> Finished j c" for x
    using that set_update_subset_insert [of cs n "Finished j c"] by auto
  ultimately show ?case using charger_store.prems charged_from_mono [OF _ sub] unfolding race_ok_def by (auto split: if_splits) blast+
next
  case (charger_skip n cs j c m)
  have fin: "finished_costs i (cs[n := Finished j c]) = (if j = i then add_mset c (finished_costs i cs) else finished_costs i cs)"
    using finished_costs_update [OF charger_skip(1), of i "Finished j c"] charger_skip(2) by simp
  have "Loaded j c None \<in> set cs" using charger_skip(1,2) nth_mem by metis
  then have "j \<noteq> i" using charger_skip.prems by (auto simp: race_ok_def)
  moreover have "x \<in> set cs" if "x \<in> set (cs[n := Finished j c])" "x \<noteq> Finished j c" for x
    using that set_update_subset_insert [of cs n "Finished j c"] by auto
  ultimately show ?case using charger_skip.prems fin unfolding race_ok_def by auto
qed

text \<open>
  Overlapping charges never charge twice: however the loads and stores of concurrent charges
  interleave, the row of a budget is at every moment the original row charged with some of the costs
  of the goroutines that have finished, each at most once.
\<close>

theorem overlapping_charges_never_duplicate:
  assumes "Load m i = Some b" "(interleave now)\<^sup>*\<^sup>* (m, map (\<lambda>(j, c). Pending j c) work) (m', cs)"
  shows "\<exists>xs b'. Load m' i = Some b' \<and> mset xs \<subseteq># finished_costs i cs \<and> b' = fold (budget_charge now) xs b"
proof -
  have "race_ok now i b (m, map (\<lambda>(j, c). Pending j c) work)"
    using assms(1) by (auto simp: race_ok_def charged_from_def split: prod.splits intro!: exI [of _ "[]"])
  moreover have "race_ok now i b s'" if "(interleave now)\<^sup>*\<^sup>* s s'" "race_ok now i b s" for s s'
    using that by (induction rule: rtranclp_induct) (auto intro: race_step)
  ultimately have "race_ok now i b (m', cs)" using assms(2) by blast
  then show ?thesis by (auto simp: race_ok_def charged_from_def)
qed

lemma race_run:
  assumes "Load m i = Some b"
  shows "(interleave now)\<^sup>*\<^sup>* (m, [Pending i c1, Pending i c2])
           (Store i (budget_charge now c2 b) (Store i (budget_charge now c1 b) m), [Finished i c1, Finished i c2])"
proof -
  let ?m1 = "Store i (budget_charge now c1 b) m"
  have "interleave now (m, [Pending i c1, Pending i c2]) (m, [Loaded i c1 (Some b), Pending i c2])"
    using charger_load [of 0 "[Pending i c1, Pending i c2]" i c1 now m] assms by simp
  moreover have "interleave now (m, [Loaded i c1 (Some b), Pending i c2]) (m, [Loaded i c1 (Some b), Loaded i c2 (Some b)])"
    using charger_load [of 1 "[Loaded i c1 (Some b), Pending i c2]" i c2 now m] assms by simp
  moreover have "interleave now (m, [Loaded i c1 (Some b), Loaded i c2 (Some b)]) (?m1, [Finished i c1, Loaded i c2 (Some b)])"
    using charger_store [of 0 "[Loaded i c1 (Some b), Loaded i c2 (Some b)]" i c1 b now m] by simp
  moreover have "interleave now (?m1, [Finished i c1, Loaded i c2 (Some b)]) (Store i (budget_charge now c2 b) ?m1, [Finished i c1, Finished i c2])"
    using charger_store [of 1 "[Finished i c1, Loaded i c2 (Some b)]" i c2 b now ?m1] by simp
  ultimately show ?thesis
    by (intro converse_rtranclp_into_rtranclp [of "interleave now", OF _ converse_rtranclp_into_rtranclp
          [OF _ converse_rtranclp_into_rtranclp [OF _ r_into_rtranclp]]])
qed

text \<open>
  Overlapping charges lose updates: for every two charges of one budget there is an interleaving
  after which both have finished and the budget carries the second cost only.
\<close>

theorem overlapping_charges_lose_one:
  assumes "Load m i = Some b"
  shows "\<exists>m'. (interleave now)\<^sup>*\<^sup>* (m, [Pending i c1, Pending i c2]) (m', [Finished i c1, Finished i c2]) \<and>
              Load m' i = Some (budget_charge now c2 b)"
  by (intro exI conjI) (rule race_run [OF assms], simp)

section \<open>Instances\<close>

definition sample_db :: GovDB where
  "sample_db = \<lparr>db_budgets = [sample_budget\<lparr>CurrentUsage := 10\<rparr>], db_rateLimits = []\<rparr>"

definition sample_reads :: "TableBudget list \<Rightarrow> DBReads" where
  "sample_reads rows = \<lparr>dbr_customers = Inr [], dbr_teams = Inr [], dbr_virtualKeys = Inr [], dbr_budgets = Inr rows, dbr_rateLimits = Inr [],
     dbr_modelConfigs = Inr [], dbr_providers = Inr [], dbr_routingRules = Inr []\<rparr>"

definition sample_live :: LocalGovernanceStore where
  "sample_live = (sample_spent 10)\<lparr>gs_configStore := True\<rparr>"

lemma sample_live_ok: "store_ok sample_live" "gs_configStore sample_live" "distinct (map bud_ID (db_budgets sample_db))"
  "sample_budget\<lparr>CurrentUsage := 10\<rparr> \<in> set (db_budgets sample_db)"
  "Load (gs_budgets sample_live) (bud_ID (sample_budget\<lparr>CurrentUsage := 10\<rparr>)) = Some (sample_budget\<lparr>CurrentUsage := 10\<rparr>)"
proof -
  have "store_ok (sample_spent 10)" unfolding sample_spent_def
    by (rule store_ok_budgets [OF sample_ok]) (simp add: keyed_def sample_budget_def)
  moreover have "model_config_key ((sample_spent 10)\<lparr>gs_configStore := True\<rparr>) = model_config_key (sample_spent 10)"
    by (rule model_config_key_cong) simp_all
  ultimately show "store_ok sample_live" unfolding sample_live_def store_ok_def by simp
qed (simp_all add: sample_live_def sample_db_def sample_spent_def sample_budget_def)

theorem dump_reload_keeps_usage_witness:
  "\<exists>gs'. loadFromDatabase (\<lambda>e. True) (sample_reads (db_budgets (snd (DumpBudgets sample_live None Map.empty sample_db)))) (empty_store True None []) = Inr gs' \<and>
         map_option CurrentUsage (Load (gs_budgets gs') ''b1'') = Some 10"
proof -
  let ?reads = "sample_reads (db_budgets (snd (DumpBudgets sample_live None Map.empty sample_db)))"
  obtain gs' where load: "loadFromDatabase (\<lambda>e. True) ?reads (empty_store True None []) = Inr gs'"
    by (simp add: loadFromDatabase_def sample_reads_def bind_sum_def)
  have "dbr_budgets ?reads = Inr (db_budgets (snd (DumpBudgets sample_live None Map.empty sample_db)))" by (simp add: sample_reads_def)
  from dump_reload_keeps_usage [OF sample_live_ok this load] load show ?thesis by (simp add: sample_budget_def)
qed

theorem lazy_reset_forgotten_on_restart_witness:
  "\<exists>gs'. loadFromDatabase (\<lambda>e. True) (sample_reads (db_budgets (snd (DumpBudgets (UpdateUsage 3600000000000 ''acme'' (sample_usage 3) sample_live)
            None Map.empty sample_db)))) (empty_store True None []) = Inr gs' \<and>
         map_option CurrentUsage (Load (gs_budgets (UpdateUsage 3600000000000 ''acme'' (sample_usage 3) sample_live)) ''b1'') = Some 3 \<and>
         map_option CurrentUsage (Load (gs_budgets (fst (ResetExpiredBudgetsInMemory 3600000000001 gs'))) ''b1'') = Some 0"
proof -
  let ?reads = "sample_reads (db_budgets (snd (DumpBudgets (UpdateUsage 3600000000000 ''acme'' (sample_usage 3) sample_live) None Map.empty sample_db)))"
  obtain gs' where load: "loadFromDatabase (\<lambda>e. True) ?reads (empty_store True None []) = Inr gs'"
    by (simp add: loadFromDatabase_def sample_reads_def bind_sum_def)
  have reads: "dbr_budgets ?reads = Inr (db_budgets (snd (DumpBudgets (UpdateUsage 3600000000000 ''acme'' (sample_usage 3) sample_live) None Map.empty sample_db)))"
    by (simp add: sample_reads_def)
  have lapsed: "budget_expired 3600000000000 (sample_budget\<lparr>CurrentUsage := 10\<rparr>)" by code_simp
  have spent: "map_option CurrentUsage (Load (gs_budgets (UpdateUsage 3600000000000 ''acme'' (sample_usage 3) sample_live)) ''b1'') = Some 3" by code_simp
  have "bud_ID (sample_budget\<lparr>CurrentUsage := 10\<rparr>) = ''b1''" by (simp add: sample_budget_def)
  with lazy_reset_forgotten_on_restart [OF sample_live_ok refl refl lapsed _ reads load, of 3600000000001] load spent show ?thesis by simp
qed

theorem rotated_value_stays_valid_witness:
  "GetVirtualKey (UpdateVirtualKeyInMemory (rotateVirtualKey ''sk-2'' 0 5 sample_key) sample_store) ''acme'' ''sk-1'' = Some sample_key"
proof -
  have plain: "plain_tenant ''acme''" "plain_tenant (vk_TenantID sample_key)" by code_simp+
  have "GetVirtualKey sample_store ''acme'' ''sk-1'' = Some sample_key" "GetVirtualKey sample_store ''acme'' ''sk-2'' = None"
    by (simp add: GetVirtualKey_def sample_store_def) code_simp
  from rotated_value_stays_valid [OF sample_ok _ this(1) plain _ this(2) refl, of 0 5] show ?thesis by simp
qed

theorem overlapping_charges_never_duplicate_witness:
  "\<exists>xs b'. Load (charge_row (budget_charge 1 3) ''b1'' (gs_budgets sample_store)) ''b1'' = Some b' \<and>
      mset xs \<subseteq># finished_costs ''b1'' [Finished ''b1'' 3] \<and> b' = fold (budget_charge 1) xs sample_budget"
proof -
  have "Load (gs_budgets sample_store) ''b1'' = Some sample_budget" by (simp add: sample_store_def)
  moreover have "(interleave 1)\<^sup>*\<^sup>* (gs_budgets sample_store, map (\<lambda>(j, c). Pending j c) [(''b1'', 3)])
      (charge_row (budget_charge 1 3) ''b1'' (gs_budgets sample_store), [Finished ''b1'' 3])"
    using charger_alone by simp
  ultimately show ?thesis by (rule overlapping_charges_never_duplicate)
qed

theorem overlapping_charges_lose_one_witness:
  "\<exists>m'. (interleave 1)\<^sup>*\<^sup>* (gs_budgets sample_store, [Pending ''b1'' 9, Pending ''b1'' 2]) (m', [Finished ''b1'' 9, Finished ''b1'' 2]) \<and>
        map_option CurrentUsage (Load m' ''b1'') = Some 2"
proof -
  have load: "Load (gs_budgets sample_store) ''b1'' = Some sample_budget" by (simp add: sample_store_def)
  have "CurrentUsage (budget_charge 1 2 sample_budget) = 2" by code_simp
  with overlapping_charges_lose_one [OF load, of 1 9 2] show ?thesis by fastforce
qed

end
