(* ===== verification/GovPrecedence.thy ===== *)
theory GovPrecedence
  imports GovReach
begin

text \<open>
  The routing engine against its specification: rules are considered scope by scope, from the virtual
  key to the global scope, and inside a scope in priority order; the first rule whose expression holds
  and that has an eligible target decides.  The specification reads the expressions of the rules; the
  engine reads programs from a cache that it fills while it runs, which updates and deletions of rules
  keep in step with the rules.
\<close>

section \<open>What one rule decides\<close>

definition rule_outcome :: "RoutingEnv \<Rightarrow> RoutingContext \<Rightarrow> LocalGovernanceStore \<Rightarrow> TableRoutingRule \<Rightarrow> RoutingDecision option" where
  "rule_outcome env rc gs rule =
     (case fst (GetRoutingProgram (env_compiles env) rule gs) of
        Inl e \<Rightarrow> None
      | Inr program \<Rightarrow>
          if evaluateCELExpression (env_eval env) program (extractRoutingVariables rc) = Inr True
          then map_option (routing_decision rc rule) (selectWeightedTarget (env_rand env) (env_pick env) (Targets rule))
          else None)"

definition scope_rules :: "LocalGovernanceStore \<Rightarrow> string \<Rightarrow> ScopeLevel \<Rightarrow> TableRoutingRule list" where
  "scope_rules gs tenantID scope = GetScopedRoutingRules gs tenantID (ScopeName scope) (scope_ScopeID scope)"

fun first_outcome :: "('a \<Rightarrow> 'b option) \<Rightarrow> 'a list \<Rightarrow> 'b option" where
  "first_outcome f [] = None"
| "first_outcome f (x # xs) = (case f x of Some y \<Rightarrow> Some y | None \<Rightarrow> first_outcome f xs)"

lemma first_outcome_append:
  "first_outcome f (xs @ ys) = (case first_outcome f xs of Some y \<Rightarrow> Some y | None \<Rightarrow> first_outcome f ys)"
  by (induction xs) (auto split: option.split)

lemma first_outcome_concat: "first_outcome f (concat (map g xs)) = first_outcome (first_outcome f \<circ> g) xs"
  by (induction xs) (auto simp: first_outcome_append split: option.split)

lemma first_outcome_cong: "(\<And>x. x \<in> set xs \<Longrightarrow> f x = g x) \<Longrightarrow> first_outcome f xs = first_outcome g xs"
  by (induction xs) (auto split: option.split)

lemma first_outcome_None: "first_outcome f xs = None \<longleftrightarrow> (\<forall>x \<in> set xs. f x = None)"
  by (induction xs) (auto split: option.split)

lemma first_outcome_Some:
  "first_outcome f xs = Some y \<Longrightarrow> \<exists>us x vs. xs = us @ x # vs \<and> f x = Some y \<and> (\<forall>u \<in> set us. f u = None)"
proof (induction xs)
  case (Cons x xs)
  show ?case
  proof (cases "f x")
    case None
    with Cons obtain us z vs where "xs = us @ z # vs" "f z = Some y" "\<forall>u \<in> set us. f u = None" by auto
    with None have "x # xs = (x # us) @ z # vs \<and> f z = Some y \<and> (\<forall>u \<in> set (x # us). f u = None)" by simp
    then show ?thesis by blast
  next
    case (Some a)
    with Cons.prems have "x # xs = [] @ x # xs \<and> f x = Some y \<and> (\<forall>u \<in> set []. f u = None)" by simp
    then show ?thesis by blast
  qed
qed simp

section \<open>The cache is transparent\<close>

text \<open>Two stores that differ in the programs of other rules only give a rule the same program.\<close>

definition same_but :: "string set \<Rightarrow> LocalGovernanceStore \<Rightarrow> LocalGovernanceStore \<Rightarrow> bool" where
  "same_but ids gs gs' \<longleftrightarrow> (\<exists>progs. gs' = gs\<lparr>compiledRoutingPrograms := progs\<rparr> \<and>
     (\<forall>i. i \<notin> ids \<longrightarrow> Load progs i = Load (compiledRoutingPrograms gs) i))"

lemma same_but_refl [simp]: "same_but ids gs gs"
  unfolding same_but_def by (rule exI [of _ "compiledRoutingPrograms gs"]) simp

lemma same_but_trans: "same_but A g1 g2 \<Longrightarrow> same_but B g2 g3 \<Longrightarrow> same_but (A \<union> B) g1 g3"
  by (force simp: same_but_def)

lemma same_but_program: "same_but {rule_ID rule} gs (snd (GetRoutingProgram compiles rule gs))"
  by (auto simp: GetRoutingProgram_def Let_def same_but_def split: option.split
      intro: exI [of _ "compiledRoutingPrograms gs"] exI [of _ "Store (rule_ID rule) (rule_expression rule) (compiledRoutingPrograms gs)"])

lemma same_but_outcome: "same_but ids gs gs' \<Longrightarrow> rule_ID rule \<notin> ids \<Longrightarrow> rule_outcome env rc gs' rule = rule_outcome env rc gs rule"
  by (auto simp: same_but_def rule_outcome_def GetRoutingProgram_def Let_def split: option.split)

lemma same_but_scope: "same_but ids gs gs' \<Longrightarrow> scope_rules gs' tenantID scope = scope_rules gs tenantID scope"
  by (auto simp: same_but_def scope_rules_def GetScopedRoutingRules_def)

lemma evaluate_rules_step:
  "evaluate_rules env rc (rule # rules) gs =
     (case rule_outcome env rc gs rule of
        Some d \<Rightarrow> (Some d, snd (GetRoutingProgram (env_compiles env) rule gs))
      | None \<Rightarrow> evaluate_rules env rc rules (snd (GetRoutingProgram (env_compiles env) rule gs)))"
  by (cases "GetRoutingProgram (env_compiles env) rule gs") (auto simp: rule_outcome_def split: sum.split option.split)

declare evaluate_rules.simps(2) [simp del]

lemma evaluate_rules_spec:
  assumes "distinct (map rule_ID rules)"
  shows "fst (evaluate_rules env rc rules gs) = first_outcome (rule_outcome env rc gs) rules"
    and "same_but (rule_ID ` set rules) gs (snd (evaluate_rules env rc rules gs))"
proof -
  have "fst (evaluate_rules env rc rules gs) = first_outcome (rule_outcome env rc gs) rules \<and>
        same_but (rule_ID ` set rules) gs (snd (evaluate_rules env rc rules gs))"
    using assms
  proof (induction rules arbitrary: gs)
    case (Cons rule rules)
    let ?gs = "snd (GetRoutingProgram (env_compiles env) rule gs)"
    have one: "same_but {rule_ID rule} gs ?gs" by (rule same_but_program)
    have eq: "rule_outcome env rc ?gs r = rule_outcome env rc gs r" if "r \<in> set rules" for r
      using that Cons.prems by (intro same_but_outcome [OF one]) (auto simp: image_iff)
    note IH = Cons.IH [of ?gs]
    have "first_outcome (rule_outcome env rc ?gs) rules = first_outcome (rule_outcome env rc gs) rules"
      by (rule first_outcome_cong) (rule eq)
    moreover have "same_but (rule_ID ` set (rule # rules)) gs (snd (evaluate_rules env rc rules ?gs))"
      using same_but_trans [OF one conjunct2 [OF IH]] Cons.prems by simp
    moreover have "same_but (rule_ID ` set (rule # rules)) gs ?gs"
      using one by (auto simp: same_but_def)
    ultimately show ?case using IH Cons.prems
      by (simp add: evaluate_rules_step split: option.split)
  qed simp
  then show "fst (evaluate_rules env rc rules gs) = first_outcome (rule_outcome env rc gs) rules"
    and "same_but (rule_ID ` set rules) gs (snd (evaluate_rules env rc rules gs))" by auto
qed

lemma evaluate_scopes_spec:
  assumes "distinct (map rule_ID (concat (map (scope_rules gs tenantID) scopes)))"
  shows "fst (evaluate_scopes env tenantID rc scopes gs) =
         first_outcome (rule_outcome env rc gs) (concat (map (scope_rules gs tenantID) scopes))"
  using assms
proof (induction scopes arbitrary: gs)
  case (Cons scope scopes)
  let ?rules = "scope_rules gs tenantID scope"
  let ?rest = "concat (map (scope_rules gs tenantID) scopes)"
  let ?gs = "snd (evaluate_rules env rc ?rules gs)"
  from Cons.prems have d: "distinct (map rule_ID ?rules)" "rule_ID ` set ?rules \<inter> rule_ID ` set ?rest = {}" "distinct (map rule_ID ?rest)"
    by (auto simp: image_Un)
  note spec = evaluate_rules_spec(1) [OF d(1), of env rc gs] evaluate_rules_spec(2) [OF d(1), of gs env rc]
  have scopes: "map (scope_rules ?gs tenantID) scopes = map (scope_rules gs tenantID) scopes"
    using same_but_scope [OF spec(2)] by simp
  have "fst (evaluate_scopes env tenantID rc scopes ?gs) = first_outcome (rule_outcome env rc ?gs) ?rest"
    using Cons.IH [of ?gs] d(3) by (simp only: scopes)
  also have "\<dots> = first_outcome (rule_outcome env rc gs) ?rest"
    using d(2) by (intro first_outcome_cong same_but_outcome [OF spec(2)]) auto
  finally show ?case
    using spec(1) by (auto simp: first_outcome_append scope_rules_def [symmetric] split: prod.split option.split)
qed simp

section \<open>The cache follows the rules\<close>

text \<open>What a rule decides by its own expression.\<close>

definition rule_decision :: "RoutingEnv \<Rightarrow> RoutingContext \<Rightarrow> TableRoutingRule \<Rightarrow> RoutingDecision option" where
  "rule_decision env rc rule =
     (if validateCELExpression (rule_expression rule) \<and> env_compiles env (rule_expression rule) \<and>
         evaluateCELExpression (env_eval env) (rule_expression rule) (extractRoutingVariables rc) = Inr True
      then map_option (routing_decision rc rule) (selectWeightedTarget (env_rand env) (env_pick env) (Targets rule))
      else None)"

text \<open>A cached program is the compiled expression of its rule.\<close>

definition program_current :: "(string \<Rightarrow> bool) \<Rightarrow> string smap \<Rightarrow> TableRoutingRule \<Rightarrow> bool" where
  "program_current compiles progs rule \<longleftrightarrow>
     (case Load progs (rule_ID rule) of
        None \<Rightarrow> True
      | Some prog \<Rightarrow> prog = rule_expression rule \<and> validateCELExpression prog \<and> compiles prog)"

definition stored_rules :: "LocalGovernanceStore \<Rightarrow> TableRoutingRule set" where
  "stored_rules gs = (\<Union>(key, rules) \<in> set (gs_routingRules gs). set rules)"

definition programs_current :: "(string \<Rightarrow> bool) \<Rightarrow> LocalGovernanceStore \<Rightarrow> bool" where
  "programs_current compiles gs \<longleftrightarrow> (\<forall>rule \<in> stored_rules gs. program_current compiles (compiledRoutingPrograms gs) rule)"

lemma current_outcome:
  "program_current (env_compiles env) (compiledRoutingPrograms gs) rule \<Longrightarrow> rule_outcome env rc gs rule = rule_decision env rc rule"
  by (auto simp: program_current_def rule_outcome_def rule_decision_def GetRoutingProgram_def Let_def split: option.splits)

lemma scope_rules_stored: "r \<in> set (scope_rules gs tenantID scope) \<Longrightarrow> r \<in> stored_rules gs"
proof -
  assume "r \<in> set (scope_rules gs tenantID scope)"
  then obtain rules where "Load (gs_routingRules gs) (governanceRoutingScopeStoreKey tenantID (ScopeName scope) (scope_ScopeID scope)) = Some rules" "r \<in> set rules"
    by (cases "Load (gs_routingRules gs) (governanceRoutingScopeStoreKey tenantID (ScopeName scope) (scope_ScopeID scope))")
      (auto simp: scope_rules_def GetScopedRoutingRules_def)
  then show ?thesis by (auto simp: stored_rules_def dest!: map_of_SomeD)
qed

lemma Load_Delete_other: "Load (Delete i m) k = (if k = i then None else Load m k)"
  by (simp add: delete_conv')

text \<open>Deleting a rule drops its program.\<close>

lemma Delete_current: "programs_current compiles gs \<Longrightarrow> programs_current compiles (DeleteRoutingRuleInMemory i gs)"
  by (auto simp: programs_current_def program_current_def stored_rules_def DeleteRoutingRuleInMemory_def Load_Delete_other)

lemma drop_rules_mem:
  assumes "(key, rules) \<in> set (drop_rules gone m)" "r \<in> set rules"
  shows "\<not> gone r \<and> (\<exists>rules'. (key, rules') \<in> set m \<and> r \<in> set rules')"
proof -
  from assms(1) obtain rules' where m: "(key, rules') \<in> set m"
    and kept: "rules = filter (\<lambda>r. \<not> gone r) rules' \<or> rules = rules' \<and> length (filter (\<lambda>r. \<not> gone r) rules') = length rules'"
    by (auto simp: drop_rules_def Let_def split: if_splits)
  from kept have "\<not> gone r \<and> r \<in> set rules'" using assms(2) length_filter_less [of r rules' "\<lambda>r. \<not> gone r"] by auto
  with m show ?thesis by blast
qed

lemma set_Store: "set (Store k v m) \<subseteq> insert (k, v) (set m)"
  by (induction m) auto

lemma fresh_program:
  assumes "Load (compiledRoutingPrograms gs) (rule_ID rule) = None"
  obtains progs where "snd (GetRoutingProgram compiles rule gs) = gs\<lparr>compiledRoutingPrograms := progs\<rparr>"
    "progs = compiledRoutingPrograms gs \<or> progs = Store (rule_ID rule) (rule_expression rule) (compiledRoutingPrograms gs) \<and>
      validateCELExpression (rule_expression rule) \<and> compiles (rule_expression rule)"
proof (cases "validateCELExpression (rule_expression rule) \<and> compiles (rule_expression rule)")
  case True
  with assms show thesis
    by (intro that [of "Store (rule_ID rule) (rule_expression rule) (compiledRoutingPrograms gs)"]) (simp_all add: GetRoutingProgram_def Let_def)
next
  case False
  with assms show thesis by (intro that [of "compiledRoutingPrograms gs"]) (auto simp: GetRoutingProgram_def Let_def)
qed

text \<open>An update replaces the rule of that identifier and its program.\<close>

lemma Update_current:
  assumes "programs_current compiles gs" "\<forall>r \<in> stored_rules gs. rule_ID r = rule_ID rule \<longrightarrow> rule_TenantID r = rule_TenantID rule"
  shows "programs_current compiles (UpdateRoutingRuleInMemory compiles rule gs)"
proof -
  let ?gone = "\<lambda>r. rule_ID r = rule_ID rule \<and> rule_TenantID r = rule_TenantID rule"
  let ?m = "drop_rules ?gone (gs_routingRules gs)"
  let ?progs = "Delete (rule_ID rule) (compiledRoutingPrograms gs)"
  have kept: "program_current compiles (compiledRoutingPrograms gs) r \<and> rule_ID r \<noteq> rule_ID rule"
    if m: "(key, rules) \<in> set ?m" "r \<in> set rules" for key rules r
  proof -
    from drop_rules_mem [OF m] have "r \<in> stored_rules gs" "\<not> ?gone r" by (auto simp: stored_rules_def)
    with assms show ?thesis by (auto simp: programs_current_def)
  qed
  let ?old = "case Load ?m (rule_key rule) of None \<Rightarrow> [] | Some existing \<Rightarrow> existing"
  let ?gs1 = "gs\<lparr>gs_routingRules := Store (rule_key rule) (sort_key Priority (?old @ [rule])) ?m, compiledRoutingPrograms := ?progs\<rparr>"
  have rest: "r = rule \<or> program_current compiles (compiledRoutingPrograms gs) r \<and> rule_ID r \<noteq> rule_ID rule" if "r \<in> stored_rules ?gs1" for r
  proof -
    from that have "r \<in> set (?old @ [rule]) \<or> (\<exists>key rules. (key, rules) \<in> set ?m \<and> r \<in> set rules)"
      using set_Store [of "rule_key rule" "sort_key Priority (?old @ [rule])" ?m] by (auto simp: stored_rules_def)
    moreover have "\<exists>key rules. (key, rules) \<in> set ?m \<and> r \<in> set rules" if "r \<in> set ?old"
      using that by (cases "Load ?m (rule_key rule)") (auto dest: map_of_SomeD)
    ultimately show ?thesis using kept by auto
  qed
  have "Load (compiledRoutingPrograms ?gs1) (rule_ID rule) = None" by (simp add: Load_Delete_other)
  then obtain progs where run: "snd (GetRoutingProgram compiles rule ?gs1) = ?gs1\<lparr>compiledRoutingPrograms := progs\<rparr>"
    and progs: "progs = compiledRoutingPrograms ?gs1 \<or> progs = Store (rule_ID rule) (rule_expression rule) (compiledRoutingPrograms ?gs1) \<and>
      validateCELExpression (rule_expression rule) \<and> compiles (rule_expression rule)"
    by (rule fresh_program)
  have "program_current compiles progs r" if "r \<in> stored_rules ?gs1" for r
    using rest [OF that] progs by (auto simp: program_current_def Load_Delete_other)
  moreover have "stored_rules (?gs1\<lparr>compiledRoutingPrograms := progs\<rparr>) = stored_rules ?gs1" by (simp add: stored_rules_def)
  ultimately show ?thesis unfolding programs_current_def UpdateRoutingRuleInMemory_def Let_def run by simp
qed

section \<open>Precedence\<close>

lemma scope_rules_sorted: "store_ok gs \<Longrightarrow> sorted (map Priority (scope_rules gs tenantID scope))"
  using store_okD(9) [of gs] by (auto simp: scope_rules_def GetScopedRoutingRules_def rules_ok_iff sorted_filter
      split: option.split dest!: map_of_SomeD)

lemma sorted_before:
  assumes "sorted (map f (us @ x # vs))" "y \<in> set (us @ x # vs)" "f y < f x"
  shows "y \<in> set us"
  using assms by (auto simp: sorted_append)

text \<open>
  C8. Routing precedence: in a well-formed store where the rules of the scopes have distinct
  identifiers and every cached program is the compiled expression of its rule, the engine returns the
  decision of the first rule whose own expression holds and that has an eligible target, in the first
  scope that has one, scopes taken from the virtual key through its team and customer to the global
  scope.  Every rule of an earlier scope, and every enabled rule of the same scope with a smaller
  priority, does not fire; and it returns nothing exactly when no rule of any scope fires.
\<close>

theorem routing_precedence:
  assumes "store_ok gs" "programs_current (env_compiles env) gs"
    and "distinct (map rule_ID (concat (map (scope_rules gs tenantID) (buildScopeChain (rc_VirtualKey rc)))))"
  shows "case fst (EvaluateRoutingRules env tenantID rc gs) of
           None \<Rightarrow> \<forall>scope \<in> set (buildScopeChain (rc_VirtualKey rc)). \<forall>r \<in> set (scope_rules gs tenantID scope). rule_decision env rc r = None
         | Some d \<Rightarrow> \<exists>before scope after rule. buildScopeChain (rc_VirtualKey rc) = before @ scope # after \<and>
             rule \<in> set (scope_rules gs tenantID scope) \<and> rule_decision env rc rule = Some d \<and>
             (\<forall>s \<in> set before. \<forall>r \<in> set (scope_rules gs tenantID s). rule_decision env rc r = None) \<and>
             (\<forall>r \<in> set (scope_rules gs tenantID scope). Priority r < Priority rule \<longrightarrow> rule_decision env rc r = None)"
proof -
  let ?out = "rule_decision env rc" and ?rules = "scope_rules gs tenantID"
  have own: "rule_outcome env rc gs r = ?out r" if "r \<in> set (?rules scope)" for r scope
    using assms(2) scope_rules_stored [OF that] by (intro current_outcome) (simp add: programs_current_def)
  have spec: "fst (EvaluateRoutingRules env tenantID rc gs) = first_outcome ?out (concat (map ?rules (buildScopeChain (rc_VirtualKey rc))))"
    unfolding EvaluateRoutingRules_def evaluate_scopes_spec [OF assms(3)] by (rule first_outcome_cong) (auto intro: own)
  have "\<exists>before scope after rule. scopes = before @ scope # after \<and> rule \<in> set (?rules scope) \<and> ?out rule = Some d \<and>
          (\<forall>s \<in> set before. \<forall>r \<in> set (?rules s). ?out r = None) \<and>
          (\<forall>r \<in> set (?rules scope). Priority r < Priority rule \<longrightarrow> ?out r = None)"
    if "first_outcome ?out (concat (map ?rules scopes)) = Some d" for scopes d
  proof -
    from that have "first_outcome (first_outcome ?out \<circ> ?rules) scopes = Some d" by (simp only: first_outcome_concat)
    from first_outcome_Some [OF this] obtain before scope after where
      chain: "scopes = before @ scope # after" "first_outcome ?out (?rules scope) = Some d" "\<forall>s \<in> set before. first_outcome ?out (?rules s) = None"
      by auto
    from first_outcome_Some [OF chain(2)] obtain us rule vs where
      rule: "?rules scope = us @ rule # vs" "?out rule = Some d" "\<forall>r \<in> set us. ?out r = None" by blast
    have "?out r = None" if "r \<in> set (?rules scope)" "Priority r < Priority rule" for r
      using that sorted_before [of Priority us rule vs r] scope_rules_sorted [OF assms(1), of tenantID scope] rule by simp
    with chain rule show ?thesis
      by (intro exI [of _ before] exI [of _ scope] exI [of _ after] exI [of _ rule]) (auto simp: first_outcome_None)
  qed
  then show ?thesis unfolding spec by (auto simp: first_outcome_None split: option.split)
qed

definition sample_rule :: "string \<Rightarrow> int \<Rightarrow> string \<Rightarrow> TableRoutingRule" where
  "sample_rule i priority expr = \<lparr>rule_ID = i, rule_TenantID = ''acme'', rule_Name = i, rule_Enabled = True, CelExpression = expr,
     Targets = [\<lparr>rt_Provider = Some ''openai'', rt_Model = None, rt_KeyID = None, rt_Weight = 1\<rparr>], ParsedFallbacks = [],
     rule_Scope = ''global'', rule_ScopeID = None, Priority = priority, rule_CreatedAt = 0\<rparr>"

definition sample_routing :: LocalGovernanceStore where
  "sample_routing = sample_store\<lparr>gs_routingRules := [(''acme::global:'', [sample_rule ''a'' 1 ''false'', sample_rule ''b'' 2 ''true''])]\<rparr>"

definition sample_env :: RoutingEnv where
  "sample_env = \<lparr>env_compiles = (\<lambda>e. True), env_eval = (\<lambda>e vs. EvalBool (e = ''true'')), env_rand = 0, env_pick = (\<lambda>n. 0)\<rparr>"

definition sample_context :: RoutingContext where
  "sample_context = \<lparr>rc_VirtualKey = None, rc_Provider = ''azure'', rc_Model = ''gpt-4'', rc_RequestType = ''chat_completion'',
     rc_Headers = [], rc_QueryParams = [], rc_Status = None\<rparr>"

theorem routing_precedence_witness:
  "\<exists>d scope rule. fst (EvaluateRoutingRules sample_env ''acme'' sample_context sample_routing) = Some d \<and> MatchedRuleID d = ''b'' \<and>
     rule \<in> set (scope_rules sample_routing ''acme'' scope) \<and> rule_decision sample_env sample_context rule = Some d"
proof -
  have run: "map_option MatchedRuleID (fst (EvaluateRoutingRules sample_env ''acme'' sample_context sample_routing)) = Some ''b''"
    by code_simp
  have "rules_ok [(''acme::global:'', [sample_rule ''a'' 1 ''false'', sample_rule ''b'' 2 ''true''])]"
    unfolding rules_ok_iff by code_simp
  then have ok: "store_ok sample_routing" unfolding sample_routing_def by (rule store_ok_rules [OF sample_ok])
  have "distinct (map rule_ID (concat (map (scope_rules sample_routing ''acme'') (buildScopeChain (rc_VirtualKey sample_context)))))"
    by code_simp
  moreover have "compiledRoutingPrograms sample_routing = []" by code_simp
  then have "programs_current (env_compiles sample_env) sample_routing" by (simp add: programs_current_def program_current_def)
  ultimately show ?thesis using routing_precedence [OF ok, of sample_env "''acme''" sample_context] run by (auto split: option.splits)
qed

end
