(* ===== verification/GovSelection.thy ===== *)
theory GovSelection
  imports GovReach
begin

text \<open>
  Weighted selection with rounded sums.  A random number below one, multiplied by the total and
  rounded, stays below the total, so the routing engine's scan of the running totals always stops,
  and at a target of positive weight.
\<close>

section \<open>The random point\<close>

lemma round_even_below:
  assumes "x < of_int m - 1 / 2"
  shows "round_even x < m"
proof -
  have f: "of_int \<lfloor>x\<rfloor> \<le> x" "x < of_int \<lfloor>x\<rfloor> + 1" by linarith+
  show ?thesis
  proof (cases "\<lfloor>x\<rfloor> = m - 1")
    case True
    then have "x - of_int \<lfloor>x\<rfloor> < 1 / 2" using assms by simp
    then show ?thesis using True by (simp add: round_even_def Let_def)
  next
    case False
    have "of_int \<lfloor>x\<rfloor> < (of_int m :: rat)" using f(1) assms by linarith
    then have "\<lfloor>x\<rfloor> + 1 < m" using False by simp
    then show ?thesis using round_even_bounds(2) [of x] by linarith
  qed
qed

text \<open>\<open>rand.Float64()\<close> is a multiple of \<open>2 ^ -53\<close> in \<open>[0, 1)\<close>.\<close>

lemma f_mul_less:
  assumes u: "0 \<le> u" "u \<le> 1 - 1 / 2 ^ 53" and tot: "0 < tot" "float64 tot"
  shows "f_mul u tot < tot"
proof (cases "u = 0")
  case False
  define x where "x = u * tot"
  have x: "0 < x" "x \<le> tot - tot / 2 ^ 53" using u tot False mult_right_mono [OF u(2), of tot] by (auto simp: x_def algebra_simps)
  obtain m w where m: "w = 2 powi (exponent tot - 52)" "fl tot = of_int m * w" "2 ^ 52 \<le> m" "0 < w"
    by (rule fl_form [OF tot(1)])
  have t: "tot = of_int m * w" using m(2) tot(2) by (simp add: float64_def)
  show ?thesis
  proof (cases "exponent x = exponent tot")
    case True
    have lo: "2 ^ 52 * w \<le> x" using exponent_bounds(1) [OF x(1)] by (simp add: True m(1) power_int_diff)
    have "m \<noteq> 2 ^ 52" using lo x(2) m(4) t by auto
    then have "2 ^ 52 < m" using m(3) by linarith
    then have "of_int (2 ^ 52) < (of_int m :: rat)" by (simp only: of_int_less_iff)
    then have "2 ^ 52 * w < of_int m * w" using m(4) by (intro mult_strict_right_mono) simp_all
    then have "tot / 2 ^ 53 > w / 2" unfolding t by simp
    then have "x < tot - w / 2" using x(2) by linarith
    then have "x < (of_int m - 1 / 2) * w" unfolding t by (simp add: left_diff_distrib)
    then have "x / w < of_int m - 1 / 2" using m(4) by (simp add: pos_divide_less_eq)
    then have "round_even (x / w) < m" by (rule round_even_below)
    moreover have "fl x = of_int (round_even (x / w)) * w" using x(1) by (simp add: fl_def Let_def True m(1))
    ultimately have "fl x < tot" unfolding t using m(4) by simp
    then show ?thesis by (simp add: f_mul_def x_def)
  next
    case False
    then have less: "exponent x + 1 \<le> exponent tot" using exponent_mono [OF x(1), of tot] x tot by fastforce
    obtain n v where n: "v = 2 powi (exponent x - 52)" "n = round_even (x / v)" "fl x = of_int n * v" "n \<le> 2 ^ 53" "0 < v"
      by (rule fl_form [OF x(1)])
    have "2 powi (exponent x + 1) \<le> (2 powi exponent tot :: rat)" by (rule powi_le [OF less])
    then have "2 ^ 53 * v \<le> 2 ^ 52 * w" by (simp add: n(1) m(1) power_int_diff power_int_add)
    also have "\<dots> \<le> of_int m * w"
      using of_int_le_iff [where 'a = rat, THEN iffD2, OF m(3)] m(4) by (intro mult_right_mono) simp_all
    finally have tv: "2 ^ 53 * v \<le> tot" unfolding t .
    show ?thesis
    proof (cases "2 ^ 53 * v = tot")
      case True
      then have "x / v \<le> of_int (2 ^ 53 - 1)" using x(2) n(5) by (simp add: field_simps)
      then have "n \<le> 2 ^ 53 - 1" unfolding n(2) by (rule round_even_le)
      then have "of_int n * v < 2 ^ 53 * v" using n(5) of_int_le_iff [where 'a = rat, of n "2 ^ 53 - 1"] by simp
      then show ?thesis using True n(3) by (simp add: f_mul_def x_def [symmetric])
    next
      case False
      have "of_int n * v \<le> 2 ^ 53 * v" using n(4,5) of_int_le_iff [where 'a = rat, of n "2 ^ 53"] by simp
      then show ?thesis using False tv n(3) by (simp add: f_mul_def x_def [symmetric])
    qed
  qed
qed (use tot in \<open>simp add: f_mul_def\<close>)

section \<open>The scan\<close>

lemma fold_f_add_ge:
  assumes "0 \<le> c" "float64 c" "\<forall>t \<in> set ts. 0 \<le> weight t"
  shows "c \<le> fold (\<lambda>t acc. f_add acc (weight t)) ts c \<and> float64 (fold (\<lambda>t acc. f_add acc (weight t)) ts c)"
  using assms
proof (induction ts arbitrary: c)
  case (Cons t ts)
  from Cons.prems have "c \<le> f_add c (weight t)" "float64 (f_add c (weight t))" by (simp_all add: f_add_ge)
  with Cons.IH [of "f_add c (weight t)"] Cons.prems show ?case by fastforce
qed simp

lemma fold_f_add_pos:
  assumes "t \<in> set ts" "0 < weight t" "\<forall>t \<in> set ts. 0 \<le> weight t"
  shows "0 < fold (\<lambda>t acc. f_add acc (weight t)) ts 0"
proof -
  have "0 < fold (\<lambda>t acc. f_add acc (weight t)) ts c" if "0 \<le> c" "float64 c" for c
    using that assms
  proof (induction ts arbitrary: c)
    case (Cons s ts)
    have nn: "0 \<le> f_add c (weight s)" "float64 (f_add c (weight s))" using Cons.prems by (simp_all add: f_add_nonneg)
    show ?case
    proof (cases "t = s")
      case True
      have "0 < f_add c (weight s)" using Cons.prems True by (simp add: f_add_def fl_pos)
      then show ?thesis using fold_f_add_ge [of "f_add c (weight s)" ts weight] nn Cons.prems by fastforce
    next
      case False
      then show ?thesis using Cons.IH [of "f_add c (weight s)"] nn Cons.prems by simp
    qed
  qed simp
  from this [of 0] show ?thesis by simp
qed

lemma pick_target_hits:
  assumes "0 \<le> c" "float64 c" "c \<le> r" "\<forall>t \<in> set ts. 0 \<le> rt_Weight t" "r < fold (\<lambda>t acc. f_add acc (rt_Weight t)) ts c"
  shows "\<exists>t \<in> set ts. pick_target r c ts = Some t \<and> 0 < rt_Weight t"
  using assms
proof (induction ts arbitrary: c)
  case (Cons t ts)
  let ?c = "f_add c (rt_Weight t)"
  have nn: "0 \<le> ?c" "float64 ?c" using Cons.prems by (simp_all add: f_add_nonneg)
  show ?case
  proof (cases "r < ?c")
    case True
    then have "rt_Weight t \<noteq> 0" using Cons.prems f_add_zero [of c] by auto
    then show ?thesis using True Cons.prems by (auto simp: less_le)
  next
    case False
    then show ?thesis using Cons.IH [of ?c] nn Cons.prems by (auto simp: Let_def)
  qed
qed simp

text \<open>
  Weighted routing: when some target of a rule has a positive weight, the selection returns a
  target of the rule with a positive weight, for every value the random source can return and
  whatever the rounding of the running totals; targets with a negative weight or weight zero are
  never taken.
\<close>

theorem weighted_target_positive:
  assumes "0 \<le> u" "u \<le> 1 - 1 / 2 ^ 53" "t \<in> set targets" "0 < rt_Weight t"
  shows "\<exists>t' \<in> set targets. selectWeightedTarget u pick targets = Some t' \<and> 0 < rt_Weight t'"
proof -
  define valid where "valid = filter (\<lambda>t. 0 \<le> rt_Weight t) targets"
  define tot where "tot = fold (\<lambda>t acc. f_add acc (rt_Weight t)) valid 0"
  have v: "t \<in> set valid" "\<forall>t \<in> set valid. 0 \<le> rt_Weight t" "set valid \<subseteq> set targets"
    using assms by (auto simp: valid_def)
  have tot: "0 < tot" "float64 tot"
    using fold_f_add_pos [OF v(1) assms(4) v(2)] fold_f_add_ge [of 0 valid rt_Weight] v(2) by (auto simp: tot_def)
  have sel: "selectWeightedTarget u pick targets =
      (if length valid = 1 then Some (hd valid) else case pick_target (f_mul u tot) 0 valid of Some t \<Rightarrow> Some t | None \<Rightarrow> Some (last valid))"
    using v(1) tot(1) unfolding selectWeightedTarget_def Let_def valid_def [symmetric] tot_def [symmetric] by auto
  show ?thesis
  proof (cases "length valid = 1")
    case True
    then have "valid = [t]" using v(1) by (auto simp: length_Suc_conv)
    then show ?thesis using sel assms(3,4) by simp
  next
    case False
    have "0 \<le> f_mul u tot" using assms(1) tot fl_mono [of 0 "u * tot"] by (simp add: f_mul_def)
    moreover have "f_mul u tot < fold (\<lambda>t acc. f_add acc (rt_Weight t)) valid 0"
      using f_mul_less [OF assms(1,2) tot] by (simp add: tot_def)
    ultimately show ?thesis using pick_target_hits [of 0 "f_mul u tot" valid] v sel False by auto
  qed
qed

definition weighted :: "string \<Rightarrow> rat \<Rightarrow> TableRoutingTarget" where
  "weighted p w = \<lparr>rt_Provider = Some p, rt_Model = None, rt_KeyID = None, rt_Weight = w\<rparr>"

theorem weighted_target_positive_witness:
  "\<exists>t' \<in> set [weighted ''a'' 0, weighted ''b'' (1 / 2), weighted ''c'' (- 1)].
     selectWeightedTarget (1 - 1 / 2 ^ 53) (\<lambda>n. 0) [weighted ''a'' 0, weighted ''b'' (1 / 2), weighted ''c'' (- 1)] = Some t' \<and> 0 < rt_Weight t'"
  by (rule weighted_target_positive [where t = "weighted ''b'' (1 / 2)"]) (simp_all add: weighted_def)

definition weighted_config :: "string \<Rightarrow> rat \<Rightarrow> TableVirtualKeyProviderConfig" where
  "weighted_config p w = \<lparr>pc_ID = 0, pc_Provider = p, pc_Weight = Some w, AllowedModels = [], KeySelectionStrategy = None,
     pc_BudgetID = None, pc_RateLimitID = None, pc_Budget = None, pc_RateLimit = None, pc_Keys = []\<rparr>"

text \<open>The load balancer compares with \<open>\<le>\<close>: the random value zero takes a leading provider of weight zero.\<close>

lemma load_balancer_takes_zero_weight:
  "select_provider 0 [weighted_config ''drained'' 0, weighted_config ''live'' 1] = ''drained''"
  by code_simp

end
