(* ===== verification/AuditChain.thy ===== *)
theory AuditChain
  imports GuardTypes
begin

text \<open>
  The tamper-evident audit log of the gateway: \<^verbatim>\<open>framework/logstore/audit_types.go\<close>,
  \<^verbatim>\<open>audit_store.go\<close>, \<^verbatim>\<open>audit_verify.go\<close> and \<^verbatim>\<open>tenant_scoping.go\<close>.  A row carries the hash of its
  fields and of the previous row of its tenant; \<open>CreateAuditLog\<close> appends a row in a transaction,
  \<open>VerifyAuditChain\<close> walks the rows of a tenant.

  The table is the list of its rows in the order of insertion.  Times are nanoseconds since 1970.
  SHA-256, the JSON coding of the details and the errors of the database are parameters; the second
  call of the JSON encoder on the same details is a parameter of its own, because the order of keys
  may differ.
\<close>

section \<open>Times\<close>

text \<open>\<open>time.Time.Format(time.RFC3339Nano)\<close> of a time in UTC: year, month and day of a day number, then the
  fields with leading zeros, then the fraction without trailing zeros.\<close>

definition civil :: "int \<Rightarrow> int \<times> int \<times> int" where
  "civil days =
     (let z = days + 719468;
          era = z div 146097;
          doe = z mod 146097;
          yoe = (doe - doe div 1460 + doe div 36524 - doe div 146096) div 365;
          doy = doe - (365 * yoe + yoe div 4 - yoe div 100);
          mp = (5 * doy + 2) div 153;
          m = (if mp < 10 then mp + 3 else mp - 9)
      in (yoe + era * 400 + (if m \<le> 2 then 1 else 0), m, doy - (153 * mp + 2) div 5 + 1))"

definition pad :: "nat \<Rightarrow> int \<Rightarrow> string" where
  "pad w n =
     (if n < 0 then ''-'' else []) @
     (let ds = dec_digits (nat \<bar>n\<bar>) in replicate (w - length ds) CHR ''0'' @ ds)"

definition fraction :: "int \<Rightarrow> string" where
  "fraction ns = (if ns = 0 then [] else ''.'' @ rev (dropWhile (\<lambda>c. c = CHR ''0'') (rev (pad 9 ns))))"

definition RFC3339Nano :: "int \<Rightarrow> string" where
  "RFC3339Nano t =
     (let secs = t div 1000000000;
          (y, m, d) = civil (secs div 86400);
          s = secs mod 86400
      in pad 4 y @ ''-'' @ pad 2 m @ ''-'' @ pad 2 d @ ''T'' @ pad 2 (s div 3600) @ '':'' @
         pad 2 (s mod 3600 div 60) @ '':'' @ pad 2 (s mod 60) @ fraction (t mod 1000000000) @ ''Z'')"

text \<open>The zero value of \<open>time.Time\<close>, and \<open>Truncate(time.Microsecond)\<close>.\<close>

definition zero_time :: int where
  "zero_time = - 62135596800000000000"

definition truncate_us :: "int \<Rightarrow> int" where
  "truncate_us t = t - t mod 1000"

section \<open>Entries\<close>

record AuditLogActor =
  actor_UserID :: string
  actor_Email :: string
  actor_IPAddress :: string

record AuditLogVerification =
  ver_Hash :: string
  ver_Verified :: bool
  ver_VerificationMethod :: string

record AuditLogEntry =
  ae_EventID :: string
  ae_TenantID :: string
  ae_WorkspaceID :: "string option"
  ae_Sequence :: int
  ae_Timestamp :: int
  ae_EventType :: string
  ae_Action :: string
  ae_Status :: string
  ae_Severity :: string
  ae_ResourceType :: string
  ae_ResourceID :: string
  ae_ActorUserID :: string
  ae_ActorEmail :: string
  ae_ActorIPAddress :: string
  ae_RequestID :: string
  ae_RequestPath :: string
  ae_RequestMethod :: string
  ae_DetailsJSON :: string
  ae_PreviousHash :: string
  ae_Hash :: string
  ae_VerificationMethod :: string
  ae_CreatedAt :: int
  ae_Actor :: AuditLogActor
  ae_Details :: "gomap option"
  ae_Verification :: AuditLogVerification

text \<open>The packages the log relies on.\<close>

record AuditLib =
  lib_marshal :: "gomap \<Rightarrow> string + string"
  lib_marshal_again :: "gomap \<Rightarrow> string + string"
  lib_unmarshal :: "string \<Rightarrow> string + gomap"
  lib_sha256 :: "string \<Rightarrow> byte list"

definition normalizeAuditValue :: "string \<Rightarrow> string" where
  "normalizeAuditValue value = ToLower (TrimSpace value)"

definition payload_fields :: "AuditLogEntry \<Rightarrow> string list" where
  "payload_fields e =
     [TrimSpace (ae_TenantID e), TrimSpace (ae_EventID e), show_int (ae_Sequence e), RFC3339Nano (ae_Timestamp e),
      normalizeAuditValue (ae_EventType e), normalizeAuditValue (ae_Action e), normalizeAuditValue (ae_Status e),
      normalizeAuditValue (ae_Severity e), normalizeAuditValue (ae_ResourceType e), TrimSpace (ae_ResourceID e),
      TrimSpace (ae_ActorUserID e), TrimSpace (ae_ActorEmail e), TrimSpace (ae_ActorIPAddress e),
      TrimSpace (ae_RequestID e), TrimSpace (ae_RequestPath e), TrimSpace (ae_RequestMethod e),
      TrimSpace (ae_PreviousHash e)]"

definition payload :: "AuditLogEntry \<Rightarrow> string" where
  "payload e = concat (map (\<lambda>f. f @ ''|'') (payload_fields e)) @ TrimSpace (ae_DetailsJSON e)"

definition ComputedHash :: "AuditLib \<Rightarrow> AuditLogEntry \<Rightarrow> string" where
  "ComputedHash lib e = ''sha256:'' @ EncodeToString (lib_sha256 lib (payload e))"

definition SerializeFields :: "(gomap \<Rightarrow> string + string) \<Rightarrow> AuditLogEntry \<Rightarrow> string + AuditLogEntry" where
  "SerializeFields marshal e =
     (let e1 = e\<lparr>ae_ActorUserID := (if TrimSpace (ae_ActorUserID e) = [] then TrimSpace (actor_UserID (ae_Actor e)) else ae_ActorUserID e),
                 ae_ActorEmail := (if TrimSpace (ae_ActorEmail e) = [] then TrimSpace (actor_Email (ae_Actor e)) else ae_ActorEmail e),
                 ae_ActorIPAddress := (if TrimSpace (ae_ActorIPAddress e) = [] then TrimSpace (actor_IPAddress (ae_Actor e)) else ae_ActorIPAddress e)\<rparr>
      in case ae_Details e of
           None \<Rightarrow> Inr e1
         | Some details \<Rightarrow>
             if TrimSpace (ae_DetailsJSON e) = []
             then (case marshal details of Inl err \<Rightarrow> Inl err | Inr raw \<Rightarrow> Inr (e1\<lparr>ae_DetailsJSON := raw\<rparr>))
             else Inr e1)"

definition default_method :: "AuditLogEntry \<Rightarrow> AuditLogEntry" where
  "default_method e = (if TrimSpace (ae_VerificationMethod e) = [] then e\<lparr>ae_VerificationMethod := ''cryptographic_hash''\<rparr> else e)"

definition DeserializeFields :: "AuditLib \<Rightarrow> AuditLogEntry \<Rightarrow> string + AuditLogEntry" where
  "DeserializeFields lib e =
     (let e1 = e\<lparr>ae_Actor := \<lparr>actor_UserID = TrimSpace (ae_ActorUserID e), actor_Email = TrimSpace (ae_ActorEmail e),
                             actor_IPAddress = TrimSpace (ae_ActorIPAddress e)\<rparr>\<rparr>;
          finish = (\<lambda>details. let e2 = default_method (e1\<lparr>ae_Details := details\<rparr>) in
             Inr (e2\<lparr>ae_Verification := \<lparr>ver_Hash = ae_Hash e2,
                      ver_Verified = (TrimSpace (ae_Hash e2) \<noteq> [] \<and> ae_Hash e2 = ComputedHash lib e2),
                      ver_VerificationMethod = ae_VerificationMethod e2\<rparr>\<rparr>))
      in if TrimSpace (ae_DetailsJSON e) \<noteq> []
         then (case lib_unmarshal lib (ae_DetailsJSON e) of Inl err \<Rightarrow> Inl err | Inr details \<Rightarrow> finish (Some details))
         else finish None)"

section \<open>Creating an entry\<close>

text \<open>The tenant and the workspace of the request context, both already trimmed; a query is limited to
  the rows of the tenant when there is one (\<open>scopeTenantStatement\<close>).\<close>

record AuditCtx =
  cx_tenant :: string
  cx_workspace :: string

definition in_scope :: "AuditCtx \<Rightarrow> AuditLogEntry \<Rightarrow> bool" where
  "in_scope cx row \<longleftrightarrow> cx_tenant cx = [] \<or> ae_TenantID row = cx_tenant cx"

definition prepare_entry :: "AuditLib \<Rightarrow> AuditCtx \<Rightarrow> int \<Rightarrow> AuditLogEntry \<Rightarrow> string + AuditLogEntry" where
  "prepare_entry lib cx now entry =
     (case SerializeFields (lib_marshal lib) entry of
        Inl err \<Rightarrow> Inl err
      | Inr e1 \<Rightarrow>
          (let e2 = (if TrimSpace (ae_TenantID e1) = [] then e1\<lparr>ae_TenantID := cx_tenant cx\<rparr> else e1);
               e3 = (if ae_WorkspaceID e2 = None \<and> cx_workspace cx \<noteq> [] then e2\<lparr>ae_WorkspaceID := Some (cx_workspace cx)\<rparr> else e2);
               e4 = (if ae_Timestamp e3 = zero_time then e3\<lparr>ae_Timestamp := now\<rparr> else e3);
               e5 = e4\<lparr>ae_Timestamp := truncate_us (ae_Timestamp e4)\<rparr>
           in Inr (default_method e5)))"

text \<open>\<open>Order("sequence DESC").Limit(1).Take\<close>: the row with the largest sequence number in scope, or none.\<close>

fun latest_row :: "AuditLogEntry list \<Rightarrow> AuditLogEntry option" where
  "latest_row [] = None"
| "latest_row (r # rs) =
     (case latest_row rs of None \<Rightarrow> Some r | Some s \<Rightarrow> if ae_Sequence s > ae_Sequence r then Some s else Some r)"

definition link_entry :: "AuditLib \<Rightarrow> AuditCtx \<Rightarrow> AuditLogEntry list \<Rightarrow> AuditLogEntry \<Rightarrow> string + AuditLogEntry" where
  "link_entry lib cx rows entry =
     (case latest_row (filter (in_scope cx) rows) of
        None \<Rightarrow> (let e = entry\<lparr>ae_Sequence := 1, ae_PreviousHash := []\<rparr> in Inr (e\<lparr>ae_Hash := ComputedHash lib e\<rparr>))
      | Some row \<Rightarrow>
          (case DeserializeFields lib row of
             Inl err \<Rightarrow> Inl err
           | Inr previous \<Rightarrow>
               (let e = entry\<lparr>ae_Sequence := wrap64 (ae_Sequence previous + 1), ae_PreviousHash := ae_Hash previous\<rparr>
                in Inr (e\<lparr>ae_Hash := ComputedHash lib e\<rparr>))))"

definition BeforeCreate :: "AuditLib \<Rightarrow> int \<Rightarrow> AuditLogEntry \<Rightarrow> string + AuditLogEntry" where
  "BeforeCreate lib now e =
     (let e1 = (if ae_Timestamp e = zero_time then e\<lparr>ae_Timestamp := now\<rparr> else e);
          e2 = (if ae_CreatedAt e1 = zero_time then e1\<lparr>ae_CreatedAt := now\<rparr> else e1)
      in SerializeFields (lib_marshal_again lib) (default_method e2))"

text \<open>The insert does nothing when the event or the sequence number of the tenant is taken
  (\<open>OnConflict{DoNothing: true}\<close>), and reports no error.  \<open>assignTenantOnCreate\<close> fills in an empty tenant.\<close>

definition conflicts :: "AuditLogEntry \<Rightarrow> AuditLogEntry \<Rightarrow> bool" where
  "conflicts e row \<longleftrightarrow> ae_EventID row = ae_EventID e \<or> ae_TenantID row = ae_TenantID e \<and> ae_Sequence row = ae_Sequence e"

definition insert_entry :: "AuditLib \<Rightarrow> AuditCtx \<Rightarrow> int \<Rightarrow> AuditLogEntry \<Rightarrow> AuditLogEntry list \<Rightarrow> string + AuditLogEntry list" where
  "insert_entry lib cx now entry rows =
     (case BeforeCreate lib now entry of
        Inl err \<Rightarrow> Inl err
      | Inr e1 \<Rightarrow>
          (let e = (if TrimSpace (ae_TenantID e1) = [] \<and> cx_tenant cx \<noteq> [] then e1\<lparr>ae_TenantID := cx_tenant cx\<rparr> else e1)
           in Inr (if list_ex (conflicts e) rows then rows else rows @ [e])))"

text \<open>One transaction: \<open>takeErr\<close> and \<open>createErr\<close> are the failures of its two statements.\<close>

definition CreateAuditLog ::
  "AuditLib \<Rightarrow> AuditCtx \<Rightarrow> int \<Rightarrow> string option \<Rightarrow> string option \<Rightarrow> AuditLogEntry \<Rightarrow> AuditLogEntry list \<Rightarrow> string option \<times> AuditLogEntry list" where
  "CreateAuditLog lib cx now takeErr createErr entry rows =
     (case prepare_entry lib cx now entry of
        Inl err \<Rightarrow> (Some err, rows)
      | Inr e1 \<Rightarrow>
          (case takeErr of
             Some err \<Rightarrow> (Some err, rows)
           | None \<Rightarrow>
               (case link_entry lib cx rows e1 of
                  Inl err \<Rightarrow> (Some err, rows)
                | Inr e2 \<Rightarrow>
                    (case createErr of
                       Some err \<Rightarrow> (Some err, rows)
                     | None \<Rightarrow>
                         (case insert_entry lib cx now e2 rows of
                            Inl err \<Rightarrow> (Some err, rows)
                          | Inr rows' \<Rightarrow> (None, rows'))))))"

section \<open>Verification\<close>

record AuditChainBreak =
  brk_Kind :: string
  brk_Sequence :: int
  brk_EventID :: string
  brk_Timestamp :: int
  brk_ExpectedHash :: string
  brk_ActualHash :: string
  brk_Detail :: string

record AuditChainVerificationReport =
  rep_TenantID :: string
  rep_WorkspaceID :: string
  rep_TotalEntries :: int
  rep_VerifiedCount :: int
  rep_BrokenCount :: int
  rep_FirstSequence :: int
  rep_LastSequence :: int
  rep_FirstTimestamp :: "int option"
  rep_LastTimestamp :: "int option"
  rep_HeadHash :: string
  rep_Chain :: string
  rep_VerifiedAt :: int
  rep_Breaks :: "AuditChainBreak list"

record AuditChainVerifyOptions =
  opt_WorkspaceID :: string
  opt_MaxBreaks :: int

definition audit_break :: "string \<Rightarrow> AuditLogEntry \<Rightarrow> string \<Rightarrow> string \<Rightarrow> string \<Rightarrow> AuditChainBreak" where
  "audit_break kind e expected actual detail =
     \<lparr>brk_Kind = kind, brk_Sequence = ae_Sequence e, brk_EventID = ae_EventID e, brk_Timestamp = zero_time,
      brk_ExpectedHash = expected, brk_ActualHash = actual, brk_Detail = detail\<rparr>"

definition add_break :: "int \<Rightarrow> AuditChainBreak \<Rightarrow> AuditChainVerificationReport \<Rightarrow> AuditChainVerificationReport" where
  "add_break maxBreaks b rep =
     rep\<lparr>rep_BrokenCount := rep_BrokenCount rep + 1,
         rep_Breaks := (if int (length (rep_Breaks rep)) < maxBreaks then rep_Breaks rep @ [b] else rep_Breaks rep)\<rparr>"

definition note_row :: "bool \<Rightarrow> AuditLogEntry \<Rightarrow> AuditChainVerificationReport \<Rightarrow> AuditChainVerificationReport" where
  "note_row seenAny e rep =
     (let r1 = (if rep_TenantID rep = [] then rep\<lparr>rep_TenantID := ae_TenantID e\<rparr> else rep);
          r2 = r1\<lparr>rep_TotalEntries := rep_TotalEntries r1 + 1\<rparr>;
          r3 = (if \<not> seenAny then r2\<lparr>rep_FirstSequence := ae_Sequence e, rep_FirstTimestamp := Some (ae_Timestamp e)\<rparr> else r2)
      in r3\<lparr>rep_LastSequence := ae_Sequence e, rep_LastTimestamp := Some (ae_Timestamp e), rep_HeadHash := ae_Hash e\<rparr>)"

definition check_hash :: "AuditLib \<Rightarrow> int \<Rightarrow> AuditLogEntry \<Rightarrow> AuditChainVerificationReport \<Rightarrow> AuditChainVerificationReport" where
  "check_hash lib maxBreaks e rep =
     (let expectedHash = ComputedHash lib e in
      if expectedHash \<noteq> ae_Hash e
      then add_break maxBreaks
             ((audit_break ''hash_mismatch'' e expectedHash (ae_Hash e) ''row hash does not match recomputed payload'')
                \<lparr>brk_Timestamp := ae_Timestamp e\<rparr>) rep
      else rep\<lparr>rep_VerifiedCount := rep_VerifiedCount rep + 1\<rparr>)"

definition check_first :: "int \<Rightarrow> AuditLogEntry \<Rightarrow> AuditChainVerificationReport \<Rightarrow> AuditChainVerificationReport" where
  "check_first maxBreaks e rep =
     (let r1 = (if ae_Sequence e \<noteq> 1
                then add_break maxBreaks (audit_break ''unexpected_chain_start'' e [] [] ''first row sequence is not 1'') rep else rep)
      in if TrimSpace (ae_PreviousHash e) \<noteq> []
         then add_break maxBreaks
                (audit_break ''previous_hash_mismatch'' e [] (ae_PreviousHash e) ''first row carries a non-empty previous_hash'') r1
         else r1)"

definition check_next :: "int \<Rightarrow> string \<Rightarrow> int \<Rightarrow> AuditLogEntry \<Rightarrow> AuditChainVerificationReport \<Rightarrow> AuditChainVerificationReport" where
  "check_next maxBreaks previousHash previousSequence e rep =
     (let r1 = (if ae_Sequence e = previousSequence
                then add_break maxBreaks (audit_break ''sequence_duplicate'' e [] [] ''duplicate sequence number'') rep
                else if ae_Sequence e \<noteq> wrap64 (previousSequence + 1)
                then add_break maxBreaks (audit_break ''sequence_gap'' e [] [] ''sequence number jumped - chain has a missing row'') rep
                else rep)
      in if ae_PreviousHash e \<noteq> previousHash
         then add_break maxBreaks
                (audit_break ''previous_hash_mismatch'' e previousHash (ae_PreviousHash e) (''previous_hash does not match prior row'' @ [CHR 0x27] @ ''s hash'')) r1
         else r1)"

fun verify_rows ::
  "AuditLib \<Rightarrow> int \<Rightarrow> bool \<Rightarrow> string \<Rightarrow> int \<Rightarrow> AuditLogEntry list \<Rightarrow> AuditChainVerificationReport \<Rightarrow> AuditChainVerificationReport" where
  "verify_rows lib maxBreaks seenAny previousHash previousSequence [] rep = rep"
| "verify_rows lib maxBreaks seenAny previousHash previousSequence (e # es) rep =
     (let r1 = check_hash lib maxBreaks e (note_row seenAny e rep);
          r2 = (if previousSequence = 0 then check_first maxBreaks e r1
                else check_next maxBreaks previousHash previousSequence e r1)
      in verify_rows lib maxBreaks True (ae_Hash e) (ae_Sequence e) es r2)"

definition visible :: "AuditChainVerifyOptions \<Rightarrow> AuditLogEntry \<Rightarrow> bool" where
  "visible opts row \<longleftrightarrow>
     TrimSpace (opt_WorkspaceID opts) = [] \<or> ae_WorkspaceID row = None \<or> ae_WorkspaceID row = Some (TrimSpace (opt_WorkspaceID opts))"

fun read_all :: "AuditLib \<Rightarrow> AuditLogEntry list \<Rightarrow> string + AuditLogEntry list" where
  "read_all lib [] = Inr []"
| "read_all lib (r # rs) =
     (case DeserializeFields lib r of
        Inl err \<Rightarrow> Inl err
      | Inr e \<Rightarrow> (case read_all lib rs of Inl err \<Rightarrow> Inl err | Inr es \<Rightarrow> Inr (e # es)))"

definition VerifyAuditChain ::
  "AuditLib \<Rightarrow> AuditCtx \<Rightarrow> int \<Rightarrow> string option \<Rightarrow> AuditChainVerifyOptions \<Rightarrow> AuditLogEntry list \<Rightarrow> string + AuditChainVerificationReport" where
  "VerifyAuditChain lib cx now findErr opts rows =
     (let maxBreaks = (if opt_MaxBreaks opts \<le> 0 then 100 else opt_MaxBreaks opts);
          report = \<lparr>rep_TenantID = [], rep_WorkspaceID = TrimSpace (opt_WorkspaceID opts), rep_TotalEntries = 0, rep_VerifiedCount = 0,
                    rep_BrokenCount = 0, rep_FirstSequence = 0, rep_LastSequence = 0, rep_FirstTimestamp = None, rep_LastTimestamp = None,
                    rep_HeadHash = [], rep_Chain = ''empty'', rep_VerifiedAt = now, rep_Breaks = []\<rparr>
      in case findErr of
           Some err \<Rightarrow> Inl err
         | None \<Rightarrow>
             (case read_all lib (sort_key ae_Sequence (filter (\<lambda>r. in_scope cx r \<and> visible opts r) rows)) of
                Inl err \<Rightarrow> Inl err
              | Inr entries \<Rightarrow>
                  (let rep = verify_rows lib maxBreaks False [] 0 entries report
                   in Inr (if entries = [] then rep
                           else if rep_BrokenCount rep = 0 then rep\<lparr>rep_Chain := ''intact''\<rparr>
                           else rep\<lparr>rep_Chain := ''broken''\<rparr>))))"

section \<open>What the verification accepts\<close>

text \<open>The columns the verification looks at.\<close>

definition cols :: "AuditLogEntry \<Rightarrow> string \<times> int \<times> string \<times> string \<times> string" where
  "cols e = (payload e, ae_Sequence e, ae_PreviousHash e, ae_Hash e, ae_TenantID e)"

lemma cols_eqD:
  assumes "cols e = cols e'"
  shows "payload e = payload e'" "ae_Sequence e = ae_Sequence e'" "ae_PreviousHash e = ae_PreviousHash e'"
    "ae_Hash e = ae_Hash e'" "ae_TenantID e = ae_TenantID e'" "ComputedHash lib e = ComputedHash lib e'"
  using assms by (simp_all add: cols_def ComputedHash_def)

lemma payload_cong:
  "payload (e\<lparr>ae_Actor := a\<rparr>) = payload e" "payload (e\<lparr>ae_Details := d\<rparr>) = payload e"
  "payload (e\<lparr>ae_Verification := v\<rparr>) = payload e" "payload (e\<lparr>ae_VerificationMethod := m\<rparr>) = payload e"
  "payload (e\<lparr>ae_CreatedAt := c\<rparr>) = payload e" "payload (e\<lparr>ae_Hash := h\<rparr>) = payload e"
  by (simp_all add: payload_def payload_fields_def)

lemma cols_cong [simp]:
  "cols (e\<lparr>ae_Actor := a\<rparr>) = cols e" "cols (e\<lparr>ae_Details := d\<rparr>) = cols e"
  "cols (e\<lparr>ae_Verification := v\<rparr>) = cols e" "cols (e\<lparr>ae_VerificationMethod := m\<rparr>) = cols e"
  "cols (e\<lparr>ae_CreatedAt := c\<rparr>) = cols e"
  by (simp_all add: cols_def payload_cong)

lemma cols_default_method [simp]: "cols (default_method e) = cols e"
  by (simp add: default_method_def)

lemma DeserializeFields_cols: "DeserializeFields lib e = Inr e' \<Longrightarrow> cols e' = cols e"
  by (auto simp: DeserializeFields_def Let_def split: sum.splits if_splits)

lemma read_all_cols: "read_all lib rs = Inr es \<Longrightarrow> map cols es = map cols rs"
  by (induction rs arbitrary: es) (auto split: sum.splits dest: DeserializeFields_cols)

text \<open>The chain as a predicate: every hash is the hash of its row, the first row starts the chain and
  every other row continues it.\<close>

definition starts_row :: "AuditLogEntry \<Rightarrow> bool" where
  "starts_row e \<longleftrightarrow> ae_Sequence e = 1 \<and> TrimSpace (ae_PreviousHash e) = []"

definition continues_row :: "string \<Rightarrow> int \<Rightarrow> AuditLogEntry \<Rightarrow> bool" where
  "continues_row previousHash previousSequence e \<longleftrightarrow>
     ae_Sequence e = wrap64 (previousSequence + 1) \<and> ae_Sequence e \<noteq> previousSequence \<and> ae_PreviousHash e = previousHash"

fun chain_ok :: "AuditLib \<Rightarrow> string \<Rightarrow> int \<Rightarrow> AuditLogEntry list \<Rightarrow> bool" where
  "chain_ok lib previousHash previousSequence [] \<longleftrightarrow> True"
| "chain_ok lib previousHash previousSequence (e # es) \<longleftrightarrow>
     ae_Hash e = ComputedHash lib e \<and>
     (if previousSequence = 0 then starts_row e else continues_row previousHash previousSequence e) \<and>
     chain_ok lib (ae_Hash e) (ae_Sequence e) es"

lemma chain_ok_cols: "map cols es = map cols rs \<Longrightarrow> chain_ok lib h s es \<longleftrightarrow> chain_ok lib h s rs"
proof (induction es arbitrary: rs h s)
  case (Cons e es)
  then obtain r rs' where rs: "rs = r # rs'" "cols e = cols r" "map cols es = map cols rs'" by (cases rs) auto
  show ?case using Cons.IH [OF rs(3)] cols_eqD [OF rs(2)] by (simp add: rs(1) starts_row_def continues_row_def)
qed simp

lemma broken_simps [simp]:
  "rep_BrokenCount (add_break m b rep) = rep_BrokenCount rep + 1"
  "rep_BrokenCount (note_row seen e rep) = rep_BrokenCount rep"
  "rep_BrokenCount (check_hash lib m e rep) = rep_BrokenCount rep + (if ae_Hash e = ComputedHash lib e then 0 else 1)"
  by (auto simp: add_break_def note_row_def check_hash_def Let_def)

lemma broken_first: "rep_BrokenCount rep \<le> rep_BrokenCount (check_first m e rep)"
  "rep_BrokenCount (check_first m e rep) = rep_BrokenCount rep \<longleftrightarrow> starts_row e"
  by (auto simp: check_first_def starts_row_def Let_def)

lemma broken_next: "rep_BrokenCount rep \<le> rep_BrokenCount (check_next m h s e rep)"
  "rep_BrokenCount (check_next m h s e rep) = rep_BrokenCount rep \<longleftrightarrow> continues_row h s e"
  by (auto simp: check_next_def continues_row_def Let_def)

lemma verify_rows_broken:
  "rep_BrokenCount rep \<le> rep_BrokenCount (verify_rows lib m seen h s es rep) \<and>
   (rep_BrokenCount (verify_rows lib m seen h s es rep) = rep_BrokenCount rep \<longleftrightarrow> chain_ok lib h s es)"
proof (induction es arbitrary: seen h s rep)
  case (Cons e es)
  let ?r1 = "check_hash lib m e (note_row seen e rep)"
  let ?r2 = "if s = 0 then check_first m e ?r1 else check_next m h s e ?r1"
  have r1: "rep_BrokenCount rep \<le> rep_BrokenCount ?r1" "rep_BrokenCount ?r1 = rep_BrokenCount rep \<longleftrightarrow> ae_Hash e = ComputedHash lib e"
    by auto
  have r2: "rep_BrokenCount ?r1 \<le> rep_BrokenCount ?r2"
    "rep_BrokenCount ?r2 = rep_BrokenCount ?r1 \<longleftrightarrow> (if s = 0 then starts_row e else continues_row h s e)"
    using broken_first [where rep = ?r1 and m = m and e = e] broken_next [where rep = ?r1 and m = m and h = h and s = s and e = e] by (simp_all split: if_split)
  show ?case using Cons.IH [where rep = ?r2 and seen = True and h = "ae_Hash e" and s = "ae_Sequence e"] r1 r2
    by (auto simp only: verify_rows.simps Let_def chain_ok.simps)
qed simp

lemma verify_rows_head:
  "es \<noteq> [] \<Longrightarrow> rep_HeadHash (verify_rows lib m seen h s es rep) = ae_Hash (last es)"
proof (induction es arbitrary: seen h s rep)
  case (Cons e es)
  have "rep_HeadHash (if s = 0 then check_first m e (check_hash lib m e (note_row seen e rep))
      else check_next m h s e (check_hash lib m e (note_row seen e rep))) = ae_Hash e"
    by (simp add: check_first_def check_next_def check_hash_def note_row_def add_break_def Let_def)
  with Cons show ?case by (cases es) (simp_all add: Let_def)
qed simp

abbreviation chain_rows :: "AuditCtx \<Rightarrow> AuditChainVerifyOptions \<Rightarrow> AuditLogEntry list \<Rightarrow> AuditLogEntry list" where
  "chain_rows cx opts rows \<equiv> sort_key ae_Sequence (filter (\<lambda>r. in_scope cx r \<and> visible opts r) rows)"

lemma VerifyAuditChain_returns:
  "\<exists>es. read_all lib (chain_rows cx opts rows) = Inr es \<Longrightarrow> \<exists>rep. VerifyAuditChain lib cx now None opts rows = Inr rep"
  by (auto simp: VerifyAuditChain_def Let_def)

text \<open>A report is intact exactly if the rows it covers form a chain, and its head is the hash of the last row.\<close>

lemma VerifyAuditChain_intact:
  assumes "VerifyAuditChain lib cx now None opts rows = Inr rep"
  shows "rep_Chain rep = ''intact'' \<longleftrightarrow> chain_rows cx opts rows \<noteq> [] \<and> chain_ok lib [] 0 (chain_rows cx opts rows)"
    and "chain_rows cx opts rows \<noteq> [] \<Longrightarrow> rep_HeadHash rep = ae_Hash (last (chain_rows cx opts rows))"
    and "rep_Chain rep = ''broken'' \<longleftrightarrow> \<not> chain_ok lib [] 0 (chain_rows cx opts rows)"
    and "rep_Chain rep = ''empty'' \<longleftrightarrow> chain_rows cx opts rows = []"
proof -
  obtain es where es: "read_all lib (chain_rows cx opts rows) = Inr es"
    using assms by (auto simp: VerifyAuditChain_def Let_def split: sum.splits)
  note c = read_all_cols [OF es]
  have len: "es = [] \<longleftrightarrow> chain_rows cx opts rows = []" using arg_cong [OF c, of length] by (metis length_0_conv length_map)
  have last: "ae_Hash (last es) = ae_Hash (last (chain_rows cx opts rows))" if "es \<noteq> []"
  proof -
    have "cols (last es) = cols (last (chain_rows cx opts rows))"
      using that len c by (metis last_map)
    then show ?thesis by (rule cols_eqD)
  qed
  define m where "m = (if opt_MaxBreaks opts \<le> 0 then 100 else opt_MaxBreaks opts)"
  define r0 where "r0 = \<lparr>rep_TenantID = [], rep_WorkspaceID = TrimSpace (opt_WorkspaceID opts), rep_TotalEntries = 0, rep_VerifiedCount = 0,
                    rep_BrokenCount = 0, rep_FirstSequence = 0, rep_LastSequence = 0, rep_FirstTimestamp = None, rep_LastTimestamp = None,
                    rep_HeadHash = [], rep_Chain = ''empty'', rep_VerifiedAt = now, rep_Breaks = []\<rparr>"
  let ?v = "verify_rows lib m False [] 0 es r0"
  have r0: "rep_BrokenCount r0 = 0" "rep_Chain r0 = ''empty''" by (simp_all add: r0_def)
  have rep: "rep = (if es = [] then r0 else if rep_BrokenCount ?v = 0 then ?v\<lparr>rep_Chain := ''intact''\<rparr> else ?v\<lparr>rep_Chain := ''broken''\<rparr>)"
    using assms es unfolding VerifyAuditChain_def Let_def m_def [symmetric] r0_def [symmetric] by (cases "es = []") (auto simp del: verify_rows.simps(2))
  have ok: "rep_BrokenCount ?v = 0 \<longleftrightarrow> chain_ok lib [] 0 (chain_rows cx opts rows)"
    using verify_rows_broken [where rep = r0 and lib = lib and m = m and seen = False and h = "[]" and s = 0 and es = es] r0(1)
      chain_ok_cols [OF c, of lib "[]" 0] by simp
  have head: "rep_HeadHash ?v = ae_Hash (last es)" if "es \<noteq> []" by (rule verify_rows_head [OF that])
  show "rep_Chain rep = ''intact'' \<longleftrightarrow> chain_rows cx opts rows \<noteq> [] \<and> chain_ok lib [] 0 (chain_rows cx opts rows)"
    unfolding rep ok [symmetric] len [symmetric] by (simp add: r0)
  show "rep_HeadHash rep = ae_Hash (last (chain_rows cx opts rows))" if "chain_rows cx opts rows \<noteq> []"
    using that head last unfolding rep len [symmetric] by simp
  show "rep_Chain rep = ''broken'' \<longleftrightarrow> \<not> chain_ok lib [] 0 (chain_rows cx opts rows)"
    using ok len unfolding rep by (cases "es = []") (simp_all add: r0)
  show "rep_Chain rep = ''empty'' \<longleftrightarrow> chain_rows cx opts rows = []"
    unfolding rep len [symmetric] by (simp add: r0)
qed

end
