(* ===== verification/AuditAppend.thy ===== *)
theory AuditAppend
  imports AuditChain
begin

text \<open>
  Concurrent appends to the audit log.  A transaction reads the head of its tenant's chain, computes
  the next row and inserts it; other transactions may insert between the two.  The unique index on
  tenant and sequence number decides the race.
\<close>

section \<open>Writers\<close>

datatype Writer = Waiting AuditCtx AuditLogEntry | Located AuditCtx AuditLogEntry | Returned "string option"

inductive writer_step :: "AuditLib \<Rightarrow> AuditLogEntry list \<times> Writer list \<Rightarrow> AuditLogEntry list \<times> Writer list \<Rightarrow> bool" for lib where
  w_locate: "i < length ws \<Longrightarrow> ws ! i = Waiting cx e \<Longrightarrow> 0 \<le> now \<Longrightarrow> prepare_entry lib cx now e = Inr e1 \<Longrightarrow>
    link_entry lib cx rows e1 = Inr e2 \<Longrightarrow> writer_step lib (rows, ws) (rows, ws[i := Located cx e2])"
| w_refuse: "i < length ws \<Longrightarrow> ws ! i = Waiting cx e \<Longrightarrow> prepare_entry lib cx now e = Inl err \<Longrightarrow>
    writer_step lib (rows, ws) (rows, ws[i := Returned (Some err)])"
| w_insert: "i < length ws \<Longrightarrow> ws ! i = Located cx e2 \<Longrightarrow> 0 \<le> now \<Longrightarrow> insert_entry lib cx now e2 rows = Inr rows' \<Longrightarrow>
    writer_step lib (rows, ws) (rows', ws[i := Returned None])"
| w_abort: "i < length ws \<Longrightarrow> writer_step lib (rows, ws) (rows, ws[i := Returned (Some err)])"

text \<open>What the callers guarantee: a trimmed tenant in the context, no other tenant on the entry, the details
  not yet encoded, and no time before 1970.  And what the code relies on in the JSON package: what it writes is not
  blank and can be read again.  The details it reads need not be those that were written: integers come back as
  floating-point numbers and lists of strings as lists of values.\<close>

definition job_ok :: "AuditCtx \<Rightarrow> AuditLogEntry \<Rightarrow> bool" where
  "job_ok cx e \<longleftrightarrow> cx_tenant cx \<noteq> [] \<and> TrimSpace (cx_tenant cx) = cx_tenant cx \<and>
     (TrimSpace (ae_TenantID e) = [] \<or> ae_TenantID e = cx_tenant cx) \<and> ae_DetailsJSON e = [] \<and>
     (ae_Timestamp e = zero_time \<or> 0 \<le> ae_Timestamp e)"

definition lawful_json :: "AuditLib \<Rightarrow> bool" where
  "lawful_json lib \<longleftrightarrow> (\<forall>d raw. lib_marshal lib d = Inr raw \<longrightarrow> TrimSpace raw \<noteq> [] \<and> (\<exists>d'. lib_unmarshal lib raw = Inr d'))"

section \<open>The invariant\<close>

abbreviation of_tenant :: "string \<Rightarrow> AuditLogEntry list \<Rightarrow> AuditLogEntry list" where
  "of_tenant t rows \<equiv> filter (\<lambda>r. ae_TenantID r = t) rows"

definition readable :: "AuditLib \<Rightarrow> AuditLogEntry \<Rightarrow> bool" where
  "readable lib e \<longleftrightarrow> TrimSpace (ae_DetailsJSON e) = [] \<or> (\<exists>d. lib_unmarshal lib (ae_DetailsJSON e) = Inr d)"

definition serialized :: "AuditLogEntry \<Rightarrow> bool" where
  "serialized e \<longleftrightarrow>
     (TrimSpace (ae_ActorUserID e) = [] \<longrightarrow> ae_ActorUserID e = TrimSpace (actor_UserID (ae_Actor e))) \<and>
     (TrimSpace (ae_ActorEmail e) = [] \<longrightarrow> ae_ActorEmail e = TrimSpace (actor_Email (ae_Actor e))) \<and>
     (TrimSpace (ae_ActorIPAddress e) = [] \<longrightarrow> ae_ActorIPAddress e = TrimSpace (actor_IPAddress (ae_Actor e))) \<and>
     (ae_Details e = None \<or> TrimSpace (ae_DetailsJSON e) \<noteq> [])"

definition tenant_ok :: "AuditLib \<Rightarrow> AuditLogEntry list \<Rightarrow> bool" where
  "tenant_ok lib rs \<longleftrightarrow> chain_ok lib [] 0 rs \<and> map ae_Sequence rs = map int [1..<Suc (length rs)]"

definition chain_linked :: "AuditLib \<Rightarrow> AuditLogEntry list \<Rightarrow> AuditLogEntry \<Rightarrow> bool" where
  "chain_linked lib rs e \<longleftrightarrow> ae_Hash e = ComputedHash lib e \<and>
     (\<exists>k \<le> length rs. ae_Sequence e = int k + 1 \<and> ae_PreviousHash e = (if k = 0 then [] else ae_Hash (rs ! (k - 1))))"

fun writer_ok :: "AuditLib \<Rightarrow> AuditLogEntry list \<Rightarrow> Writer \<Rightarrow> bool" where
  "writer_ok lib rows (Waiting cx e) \<longleftrightarrow> job_ok cx e"
| "writer_ok lib rows (Located cx e) \<longleftrightarrow>
     ae_TenantID e \<noteq> [] \<and> TrimSpace (ae_TenantID e) = ae_TenantID e \<and> serialized e \<and> readable lib e \<and>
     ae_Timestamp e \<noteq> zero_time \<and> chain_linked lib (of_tenant (ae_TenantID e) rows) e"
| "writer_ok lib rows (Returned r) \<longleftrightarrow> True"

definition log_ok :: "AuditLib \<Rightarrow> AuditLogEntry list \<times> Writer list \<Rightarrow> bool" where
  "log_ok lib s \<longleftrightarrow> (\<forall>t. t \<noteq> [] \<longrightarrow> tenant_ok lib (of_tenant t (fst s))) \<and> list_all (readable lib) (fst s) \<and>
     list_all (writer_ok lib (fst s)) (snd s)"

lemma chain_ok_snoc:
  "chain_ok lib h s (es @ [e]) \<longleftrightarrow> chain_ok lib h s es \<and> ae_Hash e = ComputedHash lib e \<and>
     (let h' = (if es = [] then h else ae_Hash (last es)); s' = (if es = [] then s else ae_Sequence (last es))
      in if s' = 0 then starts_row e else continues_row h' s' e)"
  by (induction es arbitrary: h s) auto

lemma latest_row_sorted: "sorted_wrt (<) (map ae_Sequence rs) \<Longrightarrow> rs \<noteq> [] \<Longrightarrow> latest_row rs = Some (last rs)"
proof (induction rs)
  case (Cons r rs)
  show ?case
  proof (cases "rs = []")
    case False
    then have "ae_Sequence r < ae_Sequence (last rs)" using Cons.prems by auto
    then show ?thesis using Cons False by simp
  qed simp
qed simp

lemma tenant_okD:
  assumes "tenant_ok lib rs"
  shows "sorted_wrt (<) (map ae_Sequence rs)" "i < length rs \<Longrightarrow> ae_Sequence (rs ! i) = int i + 1"
    "rs \<noteq> [] \<Longrightarrow> ae_Sequence (last rs) = int (length rs)"
proof -
  have seqs: "map ae_Sequence rs = map int [1..<Suc (length rs)]" using assms by (simp add: tenant_ok_def)
  show nth: "ae_Sequence (rs ! i) = int i + 1" if "i < length rs" for i
    using arg_cong [OF seqs, of "\<lambda>xs. xs ! i"] that by (simp del: upt_Suc)
  show "sorted_wrt (<) (map ae_Sequence rs)" unfolding seqs by (simp add: sorted_wrt_map del: upt_Suc)
  show "ae_Sequence (last rs) = int (length rs)" if "rs \<noteq> []"
    using nth [of "length rs - 1"] that by (cases rs) (auto simp: last_conv_nth)
qed

lemma linked_mono: "chain_linked lib rs e \<Longrightarrow> chain_linked lib (rs @ rs') e"
proof -
  assume "chain_linked lib rs e"
  then obtain k where k: "k \<le> length rs" "ae_Sequence e = int k + 1" "ae_PreviousHash e = (if k = 0 then [] else ae_Hash (rs ! (k - 1)))"
    and hash: "ae_Hash e = ComputedHash lib e" by (auto simp: chain_linked_def)
  have "ae_PreviousHash e = (if k = 0 then [] else ae_Hash ((rs @ rs') ! (k - 1)))" using k by (auto simp: nth_append)
  then show ?thesis using k(1,2) hash by (auto simp: chain_linked_def)
qed

text \<open>A linked row whose sequence number is free extends the chain.\<close>

lemma tenant_ok_snoc:
  assumes "tenant_ok lib rs" "chain_linked lib rs e" "ae_Sequence e \<notin> ae_Sequence ` set rs" "int (length rs) < 2 ^ 63 - 1"
  shows "tenant_ok lib (rs @ [e])"
proof -
  obtain k where k: "k \<le> length rs" "ae_Sequence e = int k + 1" "ae_PreviousHash e = (if k = 0 then [] else ae_Hash (rs ! (k - 1)))"
    and hash: "ae_Hash e = ComputedHash lib e"
    using assms(2) by (auto simp: chain_linked_def)
  have "\<not> k < length rs"
    using tenant_okD(2) [OF assms(1), of k] assms(3) k(2) by (metis image_eqI nth_mem)
  then have len: "k = length rs" using k(1) by simp
  have "wrap64 (int (length rs) + 1) = int (length rs) + 1"
    using assms(4) by (intro wrap64_id) (simp add: int64_def)
  then have "chain_ok lib [] 0 (rs @ [e])"
    using assms(1) hash k len tenant_okD(3) [OF assms(1)]
    by (auto simp: chain_ok_snoc tenant_ok_def starts_row_def continues_row_def TrimSpace_def last_conv_nth)
  then show ?thesis using assms(1) k(2) len by (simp add: tenant_ok_def)
qed

section \<open>Every step keeps the invariant\<close>

lemma SerializeFields_ok:
  assumes "SerializeFields m e = Inr e'" "ae_DetailsJSON e = []"
    and "\<And>d raw. m d = Inr raw \<Longrightarrow> TrimSpace raw \<noteq> [] \<and> (\<exists>d'. lib_unmarshal lib raw = Inr d')"
  shows "serialized e'" "readable lib e'" "ae_TenantID e' = ae_TenantID e" "ae_Timestamp e' = ae_Timestamp e"
proof -
  define e1 where "e1 = e\<lparr>ae_ActorUserID := (if TrimSpace (ae_ActorUserID e) = [] then TrimSpace (actor_UserID (ae_Actor e)) else ae_ActorUserID e),
                 ae_ActorEmail := (if TrimSpace (ae_ActorEmail e) = [] then TrimSpace (actor_Email (ae_Actor e)) else ae_ActorEmail e),
                 ae_ActorIPAddress := (if TrimSpace (ae_ActorIPAddress e) = [] then TrimSpace (actor_IPAddress (ae_Actor e)) else ae_ActorIPAddress e)\<rparr>"
  have blank: "TrimSpace (ae_DetailsJSON e) = []" by (simp add: assms(2) TrimSpace_def)
  have e': "ae_Details e = None \<and> e' = e1 \<or> (\<exists>d raw. ae_Details e = Some d \<and> m d = Inr raw \<and> e' = e1\<lparr>ae_DetailsJSON := raw\<rparr>)"
    using assms(1) blank unfolding SerializeFields_def Let_def e1_def [symmetric] by (simp split: option.splits sum.splits)
  have actor: "TrimSpace (ae_ActorUserID e1) = [] \<longrightarrow> ae_ActorUserID e1 = TrimSpace (actor_UserID (ae_Actor e1))"
    "TrimSpace (ae_ActorEmail e1) = [] \<longrightarrow> ae_ActorEmail e1 = TrimSpace (actor_Email (ae_Actor e1))"
    "TrimSpace (ae_ActorIPAddress e1) = [] \<longrightarrow> ae_ActorIPAddress e1 = TrimSpace (actor_IPAddress (ae_Actor e1))"
    "ae_Details e1 = ae_Details e" "ae_DetailsJSON e1 = ae_DetailsJSON e" "ae_TenantID e1 = ae_TenantID e" "ae_Timestamp e1 = ae_Timestamp e"
    by (simp_all add: e1_def)
  show "serialized e'" "readable lib e'" "ae_TenantID e' = ae_TenantID e" "ae_Timestamp e' = ae_Timestamp e"
    using e' actor blank assms(3) by (auto simp: serialized_def readable_def)
qed

lemma serialized_cong:
  "serialized (e\<lparr>ae_TenantID := t\<rparr>) = serialized e" "serialized (e\<lparr>ae_WorkspaceID := w\<rparr>) = serialized e"
  "serialized (e\<lparr>ae_Timestamp := ts\<rparr>) = serialized e" "serialized (e\<lparr>ae_VerificationMethod := v\<rparr>) = serialized e"
  "serialized (e\<lparr>ae_Sequence := n, ae_PreviousHash := p, ae_Hash := h\<rparr>) = serialized e" "serialized (e\<lparr>ae_CreatedAt := c\<rparr>) = serialized e"
  by (simp_all add: serialized_def)

lemma readable_cong:
  "readable lib (e\<lparr>ae_TenantID := t\<rparr>) = readable lib e" "readable lib (e\<lparr>ae_WorkspaceID := w\<rparr>) = readable lib e"
  "readable lib (e\<lparr>ae_Timestamp := ts\<rparr>) = readable lib e" "readable lib (e\<lparr>ae_VerificationMethod := v\<rparr>) = readable lib e"
  "readable lib (e\<lparr>ae_Sequence := n, ae_PreviousHash := p, ae_Hash := h\<rparr>) = readable lib e" "readable lib (e\<lparr>ae_CreatedAt := c\<rparr>) = readable lib e"
  by (simp_all add: readable_def)

lemma truncate_us_nonneg: "0 \<le> t \<Longrightarrow> 0 \<le> truncate_us t"
  by (simp add: truncate_us_def) (smt (verit, best) zmod_le_nonneg_dividend)

lemma prepare_entry_ok:
  assumes "prepare_entry lib cx now e = Inr e1" "job_ok cx e" "lawful_json lib" "0 \<le> now"
  shows "ae_TenantID e1 = cx_tenant cx" "serialized e1" "readable lib e1" "ae_Timestamp e1 \<noteq> zero_time"
proof -
  obtain e0 where e0: "SerializeFields (lib_marshal lib) e = Inr e0" using assms(1) by (auto simp: prepare_entry_def split: sum.splits)
  have ok: "serialized e0" "readable lib e0" "ae_TenantID e0 = ae_TenantID e" "ae_Timestamp e0 = ae_Timestamp e"
    using SerializeFields_ok [OF e0, of lib] assms(2,3) unfolding job_ok_def lawful_json_def by blast+
  define e2 where "e2 = (if TrimSpace (ae_TenantID e0) = [] then e0\<lparr>ae_TenantID := cx_tenant cx\<rparr> else e0)"
  define e3 where "e3 = (if ae_WorkspaceID e2 = None \<and> cx_workspace cx \<noteq> [] then e2\<lparr>ae_WorkspaceID := Some (cx_workspace cx)\<rparr> else e2)"
  define e4 where "e4 = (if ae_Timestamp e3 = zero_time then e3\<lparr>ae_Timestamp := now\<rparr> else e3)"
  have e1: "e1 = default_method (e4\<lparr>ae_Timestamp := truncate_us (ae_Timestamp e4)\<rparr>)"
    using assms(1) unfolding prepare_entry_def e0 sum.case Let_def e2_def [symmetric] e3_def [symmetric] e4_def [symmetric] by (rule sum.inject(2) [THEN iffD1, OF sym])
  have e2: "ae_TenantID e2 = cx_tenant cx" "serialized e2" "readable lib e2" "ae_Timestamp e2 = ae_Timestamp e"
    using ok assms(2) by (auto simp: job_ok_def serialized_cong readable_cong e2_def)
  have e3: "ae_TenantID e3 = cx_tenant cx" "serialized e3" "readable lib e3" "ae_Timestamp e3 = ae_Timestamp e"
    using e2 by (simp_all add: serialized_cong readable_cong e3_def)
  have e4: "ae_TenantID e4 = cx_tenant cx" "serialized e4" "readable lib e4" "0 \<le> ae_Timestamp e4"
    using e3 assms(2,4) by (auto simp: serialized_cong readable_cong job_ok_def e4_def)
  show "ae_TenantID e1 = cx_tenant cx" "serialized e1" "readable lib e1"
    using e4(1-3) unfolding e1 default_method_def by (simp_all add: serialized_cong readable_cong)
  have "0 \<le> ae_Timestamp e1" using truncate_us_nonneg [OF e4(4)] unfolding e1 default_method_def by simp
  then show "ae_Timestamp e1 \<noteq> zero_time" by (simp add: zero_time_def)
qed

lemma link_entry_ok:
  assumes "link_entry lib cx rows e1 = Inr e2" "cx_tenant cx \<noteq> []" "tenant_ok lib (of_tenant (cx_tenant cx) rows)"
    and "int (length rows) < 2 ^ 63 - 1"
  shows "\<exists>n p h. e2 = e1\<lparr>ae_Sequence := n, ae_PreviousHash := p, ae_Hash := h\<rparr> \<and> chain_linked lib (of_tenant (cx_tenant cx) rows) e2"
proof -
  let ?rs = "of_tenant (cx_tenant cx) rows"
  have scope: "filter (in_scope cx) rows = ?rs" using assms(2) by (simp add: in_scope_def [abs_def])
  have hash: "ae_Hash (e\<lparr>ae_Hash := ComputedHash lib e\<rparr>) = ComputedHash lib (e\<lparr>ae_Hash := ComputedHash lib e\<rparr>)" for e
    by (simp add: ComputedHash_def payload_cong)
  show ?thesis
  proof (cases "?rs = []")
    case True
    have "chain_linked lib ?rs e2" "e2 = e1\<lparr>ae_Sequence := 1, ae_PreviousHash := [], ae_Hash := ComputedHash lib (e1\<lparr>ae_Sequence := 1, ae_PreviousHash := []\<rparr>)\<rparr>"
      using assms(1) hash True by (auto simp: link_entry_def scope Let_def chain_linked_def)
    then show ?thesis by blast
  next
    case False
    have last: "latest_row ?rs = Some (last ?rs)" by (rule latest_row_sorted [OF tenant_okD(1) [OF assms(3)] False])
    then obtain p where p: "DeserializeFields lib (last ?rs) = Inr p"
      using assms(1) by (auto simp: link_entry_def scope split: sum.splits)
    note c = cols_eqD [OF DeserializeFields_cols [OF p]]
    have "int (length ?rs) < 2 ^ 63 - 1" using assms(4) length_filter_le [of _ rows] by (smt (verit) of_nat_le_iff)
    then have w: "wrap64 (ae_Sequence p + 1) = int (length ?rs) + 1"
      unfolding c(2) tenant_okD(3) [OF assms(3) False] by (intro wrap64_id) (simp add: int64_def)
    let ?e = "e1\<lparr>ae_Sequence := int (length ?rs) + 1, ae_PreviousHash := ae_Hash (last ?rs)\<rparr>"
    have e2: "e2 = ?e\<lparr>ae_Hash := ComputedHash lib ?e\<rparr>"
      using assms(1) last p w c(4) by (simp add: link_entry_def scope Let_def)
    have "chain_linked lib ?rs e2" unfolding chain_linked_def e2 using hash [of ?e] False
      by (intro conjI exI [of _ "length ?rs"]) (simp_all add: last_conv_nth)
    moreover have "e2 = e1\<lparr>ae_Sequence := int (length ?rs) + 1, ae_PreviousHash := ae_Hash (last ?rs), ae_Hash := ComputedHash lib ?e\<rparr>"
      by (simp add: e2)
    ultimately show ?thesis by blast
  qed
qed

lemma insert_entry_eq:
  assumes "serialized e" "readable lib e" "ae_Timestamp e \<noteq> zero_time" "TrimSpace (ae_TenantID e) \<noteq> []"
  obtains e' where "cols e' = cols e" "readable lib e'" "ae_EventID e' = ae_EventID e"
    "\<And>rows. insert_entry lib cx now e rows = Inr (if list_ex (conflicts e') rows then rows else rows @ [e'])"
proof -
  have ser: "SerializeFields m e' = Inr e'" if "serialized e'" for m e'
    using that by (auto simp: serialized_def SerializeFields_def Let_def split: option.splits)
  let ?e = "default_method (if ae_CreatedAt e = zero_time then e\<lparr>ae_CreatedAt := now\<rparr> else e)"
  have s: "serialized ?e" "readable lib ?e" using assms(1,2) by (simp_all add: default_method_def serialized_cong readable_cong)
  have "BeforeCreate lib now e = Inr ?e" using assms(3) ser [OF s(1)] by (simp add: BeforeCreate_def Let_def)
  moreover have "ae_TenantID ?e = ae_TenantID e" "ae_EventID ?e = ae_EventID e" by (simp_all add: default_method_def)
  moreover have "cols ?e = cols e" by simp
  ultimately show thesis using that [of ?e] s(2) assms(4) by (simp add: insert_entry_def Let_def)
qed

lemma insert_entry_ok:
  assumes "insert_entry lib cx now e rows = Inr rows'" "serialized e" "readable lib e" "ae_Timestamp e \<noteq> zero_time"
    and "TrimSpace (ae_TenantID e) \<noteq> []"
  shows "rows' = rows \<or> (\<exists>e'. rows' = rows @ [e'] \<and> cols e' = cols e \<and> readable lib e' \<and> \<not> list_ex (conflicts e') rows)"
proof -
  obtain e' where e': "cols e' = cols e" "readable lib e'" "\<And>rows. insert_entry lib cx now e rows = Inr (if list_ex (conflicts e') rows then rows else rows @ [e'])"
    using insert_entry_eq [OF assms(2-5), of cx now] by blast
  show ?thesis using assms(1) e'(1,2) unfolding e'(3) by (cases "list_ex (conflicts e') rows") auto
qed

lemma writer_ok_mono:
  assumes "writer_ok lib rows w"
  shows "writer_ok lib (rows @ rows') w"
  using assms by (cases w) (auto intro: linked_mono)

lemma linked_cols: "cols e = cols e' \<Longrightarrow> chain_linked lib rs e \<Longrightarrow> chain_linked lib rs e'"
  by (simp add: chain_linked_def cols_eqD [of e e'])

lemma list_all_update: "list_all P xs \<Longrightarrow> P x \<Longrightarrow> list_all P (xs[i := x])"
  by (auto simp: list_all_iff dest: set_update_subset_insert [THEN subsetD])

lemma log_okI:
  assumes "\<And>t. t \<noteq> [] \<Longrightarrow> tenant_ok lib (of_tenant t rows)" "list_all (readable lib) rows" "list_all (writer_ok lib rows) ws"
  shows "log_ok lib (rows, ws)"
  using assms by (simp add: log_ok_def)

lemma insert_keeps_log:
  assumes ok: "log_ok lib (rows, ws)" and w: "writer_ok lib rows (Located cx e)" and ins: "insert_entry lib cx now e rows = Inr rows'"
    and len: "int (length rows) < 2 ^ 63 - 1"
  shows "log_ok lib (rows', ws)"
proof -
  have e: "ae_TenantID e \<noteq> []" "TrimSpace (ae_TenantID e) \<noteq> []" "serialized e" "readable lib e" "ae_Timestamp e \<noteq> zero_time"
    "chain_linked lib (of_tenant (ae_TenantID e) rows) e" using w by auto
  from insert_entry_ok [OF ins e(3,4,5,2)] consider "rows' = rows"
    | e' where "rows' = rows @ [e']" "cols e' = cols e" "readable lib e'" "\<not> list_ex (conflicts e') rows" by blast
  then show ?thesis
  proof cases
    case 1
    then show ?thesis using ok by simp
  next
    case (2 e')
    note same = cols_eqD [OF 2(2)]
    have free: "ae_Sequence e' \<notin> ae_Sequence ` set (of_tenant (ae_TenantID e) rows)"
      using 2(4) same(5) by (auto simp: conflicts_def list_ex_iff)
    show ?thesis unfolding 2(1)
    proof (rule log_okI)
      fix t :: string assume t: "t \<noteq> []"
      have old: "tenant_ok lib (of_tenant t rows)" using ok t by (simp add: log_ok_def)
      have "int (length (of_tenant t rows)) < 2 ^ 63 - 1" using len length_filter_le [of "\<lambda>r. ae_TenantID r = t" rows] by linarith
      then show "tenant_ok lib (of_tenant t (rows @ [e']))"
        using old tenant_ok_snoc [OF _ linked_cols [OF 2(2) [symmetric] e(6)] free] same(5) by auto
    next
      show "list_all (readable lib) (rows @ [e'])" using ok 2(3) by (simp add: log_ok_def)
      show "list_all (writer_ok lib (rows @ [e'])) ws"
        using ok writer_ok_mono [of lib rows _ "[e']"] by (auto simp: log_ok_def list_all_iff)
    qed
  qed
qed

lemma log_ok_update: "log_ok lib (rows, ws) \<Longrightarrow> writer_ok lib rows w \<Longrightarrow> log_ok lib (rows, ws[i := w])"
  by (simp add: log_ok_def list_all_update)

lemma writer_step_ok:
  assumes "writer_step lib s s'" "log_ok lib s" "lawful_json lib" "int (length (fst s)) < 2 ^ 63 - 1"
  shows "log_ok lib s'"
  using assms
proof (induction rule: writer_step.induct)
  case (w_locate i ws cx e now e1 rows e2)
  have job: "job_ok cx e" using w_locate by (simp add: log_ok_def list_all_length) (metis writer_ok.simps(1))
  note e1 = prepare_entry_ok [OF w_locate(4) job w_locate(7,3)]
  have t: "cx_tenant cx \<noteq> []" "TrimSpace (cx_tenant cx) = cx_tenant cx" using job by (simp_all add: job_ok_def)
  have "tenant_ok lib (of_tenant (cx_tenant cx) rows)" using w_locate(6) t by (simp add: log_ok_def)
  from link_entry_ok [OF w_locate(5) t(1) this] w_locate(8) obtain n p h
    where e2: "e2 = e1\<lparr>ae_Sequence := n, ae_PreviousHash := p, ae_Hash := h\<rparr>" "chain_linked lib (of_tenant (cx_tenant cx) rows) e2" by auto
  have "ae_TenantID e2 = cx_tenant cx" "serialized e2" "readable lib e2" "ae_Timestamp e2 \<noteq> zero_time"
    using e1 by (simp_all add: e2(1) serialized_cong readable_cong)
  then have "writer_ok lib rows (Located cx e2)" using t e2(2) by simp
  then show ?case using w_locate(6) by (rule log_ok_update [rotated])
next
  case (w_insert i ws cx e2 now rows rows')
  have "writer_ok lib rows (Located cx e2)" using w_insert by (metis fst_conv list_all_length log_ok_def snd_conv)
  then have "log_ok lib (rows', ws)" using insert_keeps_log w_insert by simp
  then show ?case by (rule log_ok_update) simp
qed (auto intro: log_ok_update)

lemma writer_step_grows: "writer_step lib s s' \<Longrightarrow> length (fst s) \<le> length (fst s')"
  by (induction rule: writer_step.induct) (auto simp: insert_entry_def Let_def split: sum.splits if_splits)

lemma writers_ok:
  assumes "(writer_step lib)\<^sup>*\<^sup>* ([], map (\<lambda>(cx, e). Waiting cx e) jobs) s" "\<forall>(cx, e) \<in> set jobs. job_ok cx e" "lawful_json lib"
    and "int (length (fst s)) < 2 ^ 63 - 1"
  shows "log_ok lib s"
  using assms(1,4)
proof (induction rule: rtranclp_induct)
  case base
  then show ?case using assms(2) by (auto simp: log_ok_def tenant_ok_def list_all_iff)
next
  case (step s s')
  then have "int (length (fst s)) < 2 ^ 63 - 1" using writer_step_grows [OF step(2)] by linarith
  with step assms(3) show ?case by (blast intro: writer_step_ok)
qed

lemma read_all_readable: "list_all (readable lib) rs \<Longrightarrow> \<exists>es. read_all lib rs = Inr es"
proof (induction rs)
  case (Cons r rs)
  then have "\<exists>e. DeserializeFields lib r = Inr e" by (auto simp: readable_def DeserializeFields_def Let_def)
  with Cons show ?case by auto
qed simp

lemma sorted_sequences: "sorted_wrt (<) (map ae_Sequence rs) \<Longrightarrow> sort_key ae_Sequence rs = rs"
  by (simp add: sort_key_id_if_sorted strict_sorted_imp_sorted)

text \<open>
  C13. The audit chain survives concurrency: however the transactions of any number of writers
  interleave, abort or lose the race for a sequence number, the verification of every tenant's chain
  over all workspaces returns a report without a break, which is intact unless the tenant has no row.
  Every writer has a trimmed tenant in its context and an entry of that tenant whose details are not yet
  encoded and whose time is not before 1970, the details that the JSON package writes can be read
  again, and the log starts empty and holds fewer than \<open>2 ^ 63 - 1\<close> rows.
\<close>

theorem concurrent_appends_verify:
  assumes "(writer_step lib)\<^sup>*\<^sup>* ([], map (\<lambda>(cx, e). Waiting cx e) jobs) (rows, ws)"
    and "\<forall>(cx, e) \<in> set jobs. job_ok cx e" "lawful_json lib" "int (length rows) < 2 ^ 63 - 1"
    and "cx_tenant cx \<noteq> []" "TrimSpace (opt_WorkspaceID opts) = []"
  shows "\<exists>rep. VerifyAuditChain lib cx now None opts rows = Inr rep \<and>
           rep_Chain rep = (if \<exists>r \<in> set rows. ae_TenantID r = cx_tenant cx then ''intact'' else ''empty'')"
proof -
  let ?rs = "of_tenant (cx_tenant cx) rows"
  have ok: "log_ok lib (rows, ws)" using writers_ok [OF assms(1-3)] assms(4) by simp
  have t: "tenant_ok lib ?rs" using ok assms(5) by (simp add: log_ok_def)
  have rows: "chain_rows cx opts rows = ?rs"
    using assms(5,6) sorted_sequences [OF tenant_okD(1) [OF t]] by (simp add: in_scope_def visible_def)
  have "list_all (readable lib) ?rs" using ok by (auto simp: log_ok_def list_all_iff)
  then obtain rep where rep: "VerifyAuditChain lib cx now None opts rows = Inr rep"
    using read_all_readable VerifyAuditChain_returns rows by metis
  have "chain_ok lib [] 0 ?rs" using t by (simp add: tenant_ok_def)
  then have "rep_Chain rep = (if ?rs = [] then ''empty'' else ''intact'')"
    using VerifyAuditChain_intact(1,4) [OF rep] unfolding rows by auto
  then show ?thesis using rep by (auto simp: filter_empty_conv)
qed

section \<open>A lost race is silent\<close>

definition encodable :: "AuditLib \<Rightarrow> AuditLogEntry \<Rightarrow> bool" where
  "encodable lib e \<longleftrightarrow> (case ae_Details e of None \<Rightarrow> True | Some d \<Rightarrow> (case lib_marshal lib d of Inl err \<Rightarrow> False | Inr raw \<Rightarrow> True))"

lemma prepare_plain:
  assumes "job_ok cx e" "encodable lib e" "lawful_json lib" "0 \<le> now"
  obtains p where "prepare_entry lib cx now e = Inr p" "ae_TenantID p = cx_tenant cx" "serialized p" "readable lib p"
    "ae_Timestamp p \<noteq> zero_time" "ae_EventID p = ae_EventID e"
proof -
  have "\<exists>e0. SerializeFields (lib_marshal lib) e = Inr e0 \<and> ae_EventID e0 = ae_EventID e"
    using assms(2) by (auto simp: encodable_def SerializeFields_def Let_def split: option.splits sum.splits)
  then obtain e0 where e0: "SerializeFields (lib_marshal lib) e = Inr e0" "ae_EventID e0 = ae_EventID e" by blast
  then obtain p where p: "prepare_entry lib cx now e = Inr p" by (simp add: prepare_entry_def Let_def)
  have "ae_EventID p = ae_EventID e"
    using p e0 by (auto simp: prepare_entry_def Let_def default_method_def split: if_splits)
  with prepare_entry_ok [OF p assms(1,3,4)] p show thesis by (intro that [of p])
qed

lemma link_first:
  obtains e where "link_entry lib cx [] p = Inr e" "ae_Sequence e = 1" "ae_TenantID e = ae_TenantID p"
    "ae_EventID e = ae_EventID p" "serialized e = serialized p" "readable lib e = readable lib p" "ae_Timestamp e = ae_Timestamp p"
  by (simp add: link_entry_def Let_def serialized_def readable_def)

lemma lost_race:
  assumes "job_ok cx e1" "job_ok cx e2" "encodable lib e1" "encodable lib e2" "lawful_json lib"
  shows "\<exists>row. (writer_step lib)\<^sup>*\<^sup>* ([], [Waiting cx e1, Waiting cx e2]) ([row], [Returned None, Returned None]) \<and>
               ae_EventID row = ae_EventID e1 \<and> ae_TenantID row = cx_tenant cx"
proof -
  have t: "TrimSpace (cx_tenant cx) \<noteq> []" using assms(1) by (simp add: job_ok_def)
  obtain p1 where p1: "prepare_entry lib cx 0 e1 = Inr p1" "ae_TenantID p1 = cx_tenant cx" "serialized p1" "readable lib p1"
    "ae_Timestamp p1 \<noteq> zero_time" "ae_EventID p1 = ae_EventID e1" using prepare_plain [OF assms(1,3,5), of 0] by auto
  obtain p2 where p2: "prepare_entry lib cx 0 e2 = Inr p2" "ae_TenantID p2 = cx_tenant cx" "serialized p2" "readable lib p2"
    "ae_Timestamp p2 \<noteq> zero_time" using prepare_plain [OF assms(2,4,5), of 0] by auto
  obtain l1 where l1: "link_entry lib cx [] p1 = Inr l1" "ae_Sequence l1 = 1" "ae_TenantID l1 = cx_tenant cx" "ae_EventID l1 = ae_EventID e1"
    "serialized l1" "readable lib l1" "ae_Timestamp l1 \<noteq> zero_time" using p1 link_first [of lib cx p1] by metis
  obtain l2 where l2: "link_entry lib cx [] p2 = Inr l2" "ae_Sequence l2 = 1" "ae_TenantID l2 = cx_tenant cx"
    "serialized l2" "readable lib l2" "ae_Timestamp l2 \<noteq> zero_time" using p2 link_first [of lib cx p2] by metis
  obtain r1 where r1: "cols r1 = cols l1" "ae_EventID r1 = ae_EventID l1"
    "\<And>rows. insert_entry lib cx 0 l1 rows = Inr (if list_ex (conflicts r1) rows then rows else rows @ [r1])"
    using insert_entry_eq [OF l1(5,6,7), of cx 0] t l1(3) by auto
  obtain r2 where r2: "cols r2 = cols l2"
    "\<And>rows. insert_entry lib cx 0 l2 rows = Inr (if list_ex (conflicts r2) rows then rows else rows @ [r2])"
    using insert_entry_eq [OF l2(4,5,6), of cx 0] t l2(3) by auto
  have clash: "conflicts r2 r1" using cols_eqD [OF r1(1)] cols_eqD [OF r2(1)] l1(2,3) l2(2,3) by (simp add: conflicts_def)
  have "writer_step lib ([], [Waiting cx e1, Waiting cx e2]) ([], [Located cx l1, Waiting cx e2])"
    using w_locate [of 0 "[Waiting cx e1, Waiting cx e2]" cx e1 0 lib p1 "[]" l1] p1(1) l1(1) by simp
  moreover have "writer_step lib ([], [Located cx l1, Waiting cx e2]) ([], [Located cx l1, Located cx l2])"
    using w_locate [of 1 "[Located cx l1, Waiting cx e2]" cx e2 0 lib p2 "[]" l2] p2(1) l2(1) by simp
  moreover have "writer_step lib ([], [Located cx l1, Located cx l2]) ([r1], [Returned None, Located cx l2])"
    using w_insert [of 0 "[Located cx l1, Located cx l2]" cx l1 0 lib "[]"] r1(3) by simp
  moreover have "writer_step lib ([r1], [Returned None, Located cx l2]) ([r1], [Returned None, Returned None])"
    using w_insert [of 1 "[Returned None, Located cx l2]" cx l2 0 lib "[r1]"] r2(2) clash by simp
  ultimately have "(writer_step lib)\<^sup>*\<^sup>* ([], [Waiting cx e1, Waiting cx e2]) ([r1], [Returned None, Returned None])"
    by (meson converse_rtranclp_into_rtranclp rtranclp.rtrancl_refl)
  then show ?thesis using r1(2) l1(3,4) cols_eqD(5) [OF r1(1)] by auto
qed

text \<open>
  A writer that loses the race for a sequence number loses its event without an error: for every
  two entries of one tenant there is an interleaving after which both transactions have returned
  success and the log holds the first entry only.
\<close>

theorem concurrent_append_dropped:
  assumes "job_ok cx e1" "job_ok cx e2" "encodable lib e1" "encodable lib e2" "lawful_json lib"
  shows "\<exists>row. (writer_step lib)\<^sup>*\<^sup>* ([], [Waiting cx e1, Waiting cx e2]) ([row], [Returned None, Returned None]) \<and>
               ae_EventID row = ae_EventID e1 \<and> ae_TenantID row = cx_tenant cx"
  by (rule lost_race [OF assms])

section \<open>Instances\<close>

text \<open>A coding of three values, in which an integer comes back as a floating-point number and a list of strings as a list of values.\<close>

definition sample_audit_lib :: AuditLib where
  "sample_audit_lib =
     \<lparr>lib_marshal = (\<lambda>d. if d = [] then Inr ''{}'' else if d = [(''n'', VInt 3)] \<or> d = [(''n'', VFloat 3)] then Inr ''{\"n\":3}''
        else if d = [(''roles'', VStrs [''admin''])] \<or> d = [(''roles'', VList [VStr ''admin''])] then Inr ''{\"roles\":[\"admin\"]}'' else Inl ''unsupported''),
      lib_marshal_again = (\<lambda>d. if d = [] then Inr ''{ }'' else Inl ''unsupported''),
      lib_unmarshal = (\<lambda>s. if s = ''{\"n\":3}'' then Inr [(''n'', VFloat 3)] else if s = ''{\"roles\":[\"admin\"]}'' then Inr [(''roles'', VList [VStr ''admin''])] else Inr []),
      lib_sha256 = id\<rparr>"

definition sample_entry :: AuditLogEntry where
  "sample_entry = \<lparr>ae_EventID = ''e1'', ae_TenantID = [], ae_WorkspaceID = None, ae_Sequence = 0, ae_Timestamp = zero_time,
     ae_EventType = ''auth'', ae_Action = ''login'', ae_Status = ''success'', ae_Severity = ''info'', ae_ResourceType = ''session'',
     ae_ResourceID = [], ae_ActorUserID = ''u1'', ae_ActorEmail = [], ae_ActorIPAddress = [], ae_RequestID = ''r1'',
     ae_RequestPath = [CHR ''/''], ae_RequestMethod = ''POST'', ae_DetailsJSON = [], ae_PreviousHash = [], ae_Hash = [],
     ae_VerificationMethod = [], ae_CreatedAt = zero_time,
     ae_Actor = \<lparr>actor_UserID = [], actor_Email = [], actor_IPAddress = []\<rparr>, ae_Details = None,
     ae_Verification = \<lparr>ver_Hash = [], ver_Verified = False, ver_VerificationMethod = []\<rparr>\<rparr>"

definition sample_cx :: AuditCtx where
  "sample_cx = \<lparr>cx_tenant = ''acme'', cx_workspace = []\<rparr>"

definition detail_entry :: AuditLogEntry where
  "detail_entry = sample_entry\<lparr>ae_EventID := ''e2'', ae_Details := Some [(''n'', VInt 3)]\<rparr>"

lemma sample_job: "job_ok sample_cx sample_entry" "encodable sample_audit_lib sample_entry"
  "job_ok sample_cx detail_entry" "encodable sample_audit_lib detail_entry"
  by code_simp+

lemma sample_lawful: "lawful_json sample_audit_lib"
  by (simp add: lawful_json_def sample_audit_lib_def go_string_simps)

theorem concurrent_append_dropped_witness:
  "\<exists>row. (writer_step sample_audit_lib)\<^sup>*\<^sup>* ([], [Waiting sample_cx detail_entry, Waiting sample_cx sample_entry])
            ([row], [Returned None, Returned None]) \<and> ae_EventID row = ''e2'' \<and> ae_TenantID row = ''acme''"
  using concurrent_append_dropped [OF sample_job(3,1,4,2) sample_lawful] by (simp add: detail_entry_def sample_cx_def)

theorem concurrent_appends_verify_witness:
  "\<exists>row rep. ae_EventID row = ''e2'' \<and>
     VerifyAuditChain sample_audit_lib sample_cx 0 None \<lparr>opt_WorkspaceID = [], opt_MaxBreaks = 0\<rparr> [row] = Inr rep \<and> rep_Chain rep = ''intact''"
proof -
  obtain row where row: "(writer_step sample_audit_lib)\<^sup>*\<^sup>* ([], map (\<lambda>(cx, e). Waiting cx e) [(sample_cx, detail_entry), (sample_cx, sample_entry)])
      ([row], [Returned None, Returned None])" "ae_EventID row = ''e2''" "ae_TenantID row = cx_tenant sample_cx"
    using lost_race [OF sample_job(3,1,4,2) sample_lawful] by (auto simp: detail_entry_def)
  have jobs: "\<forall>(cx, e) \<in> set [(sample_cx, detail_entry), (sample_cx, sample_entry)]. job_ok cx e" using sample_job by simp
  obtain rep where "VerifyAuditChain sample_audit_lib sample_cx 0 None \<lparr>opt_WorkspaceID = [], opt_MaxBreaks = 0\<rparr> [row] = Inr rep" "rep_Chain rep = ''intact''"
    using concurrent_appends_verify [OF row(1) jobs sample_lawful, of sample_cx "\<lparr>opt_WorkspaceID = [], opt_MaxBreaks = 0\<rparr>" 0] row(3)
    by (auto simp: sample_cx_def TrimSpace_def)
  then show ?thesis using row(2) by blast
qed

end
