(* ===== verification/AuditTamper.thy ===== *)
theory AuditTamper
  imports AuditAppend
begin

text \<open>
  What a verified chain proves about the rows behind it: the hash of its last row commits to all
  hashed fields of all rows, as long as the fields do not contain the separator of the payload and
  SHA-256 does not collide on the payloads.  Then two limits: the payload does not escape its
  separator, and a verification limited to one workspace reports breaks that are none.
\<close>

section \<open>Hashes commit to fields\<close>

lemma dropWhile_hd: "s \<noteq> [] \<Longrightarrow> \<not> P (hd s) \<Longrightarrow> dropWhile P s = s"
  by (cases s) simp_all

lemma TrimSpace_id: "s \<noteq> [] \<Longrightarrow> \<not> is_space (hd s) \<Longrightarrow> \<not> is_space (last s) \<Longrightarrow> TrimSpace s = s"
  by (simp add: TrimSpace_def dropWhile_hd hd_rev)

lemma TrimSpace_fixed:
  assumes "TrimSpace s = s" "s \<noteq> []"
  shows "\<not> is_space (hd s)" "\<not> is_space (last s)"
proof -
  have ends: "\<not> P (hd (dropWhile P xs))" if "dropWhile P xs \<noteq> []" for P and xs :: string
    using that by (rule hd_dropWhile)
  let ?t = "dropWhile is_space s"
  have s: "rev (dropWhile is_space (rev ?t)) = s" using assms(1) by (simp add: TrimSpace_def)
  have "hd (dropWhile is_space (rev ?t)) = last s" using arg_cong [OF s, of last] assms(2) s by (metis hd_rev rev_rev_ident)
  then show "\<not> is_space (last s)" using ends [of is_space "rev ?t"] s assms(2) by (metis rev.simps(1))
  have "length s \<le> length ?t" using arg_cong [OF s, of length] length_dropWhile_le [of is_space "rev ?t"] by simp
  moreover have "takeWhile is_space s @ ?t = s" by simp
  ultimately have "takeWhile is_space s = []" by (metis add_le_same_cancel2 le_zero_eq length_0_conv length_append)
  then have "?t = s" by (metis append_Nil takeWhile_dropWhile_id)
  then show "\<not> is_space (hd s)" using ends [of is_space s] assms(2) by auto
qed

lemma ComputedHash_trimmed: "TrimSpace (ComputedHash lib e) = ComputedHash lib e"
proof (rule TrimSpace_id)
  let ?bs = "lib_sha256 lib (payload e)"
  have "\<not> is_space (last (''sha256:'' @ EncodeToString ?bs))"
  proof (cases ?bs rule: rev_cases)
    case Nil
    then show ?thesis by (simp add: EncodeToString_def is_space_def)
  next
    case (snoc ys y)
    then show ?thesis by (simp add: EncodeToString_def hex_digit_visible)
  qed
  then show "\<not> is_space (last (ComputedHash lib e))" by (simp add: ComputedHash_def)
qed (simp_all add: ComputedHash_def is_space_def)

definition plain_row :: "AuditLogEntry \<Rightarrow> bool" where
  "plain_row e \<longleftrightarrow> (\<forall>f \<in> set (payload_fields e). CHR ''|'' \<notin> set f)"

definition hashed :: "AuditLogEntry \<Rightarrow> string list \<times> string" where
  "hashed e = (payload_fields e, TrimSpace (ae_DetailsJSON e))"

lemma separated_inj:
  assumes "length fs = length gs" "\<forall>f \<in> set fs. b \<notin> set f" "\<forall>g \<in> set gs. b \<notin> set g"
    and "concat (map (\<lambda>f. f @ [b]) fs) @ d = concat (map (\<lambda>g. g @ [b]) gs) @ d'"
  shows "fs = gs \<and> d = d'"
  using assms
proof (induction fs gs arbitrary: d d' rule: list_induct2)
  case (Cons f fs g gs)
  have eq: "f @ b # concat (map (\<lambda>f. f @ [b]) fs) @ d = g @ b # concat (map (\<lambda>g. g @ [b]) gs) @ d'"
    using Cons.prems(3) by simp
  have fg: "takeWhile (\<lambda>c. c \<noteq> b) (f @ b # xs) = f" "takeWhile (\<lambda>c. c \<noteq> b) (g @ b # xs) = g" for xs
    using Cons.prems(1,2) by (auto simp: takeWhile_append)
  have "f = g" using arg_cong [OF eq, of "takeWhile (\<lambda>c. c \<noteq> b)"] unfolding fg .
  then have "concat (map (\<lambda>f. f @ [b]) fs) @ d = concat (map (\<lambda>g. g @ [b]) gs) @ d'" using eq by simp
  from Cons.IH [OF _ _ this] Cons.prems(1,2) \<open>f = g\<close> show ?case by simp
qed simp

lemma payload_inj:
  assumes "payload e = payload e'" "plain_row e" "plain_row e'"
  shows "hashed e = hashed e'"
proof -
  have len: "length (payload_fields e) = length (payload_fields e')" by (simp add: payload_fields_def)
  have "payload_fields e = payload_fields e' \<and> TrimSpace (ae_DetailsJSON e) = TrimSpace (ae_DetailsJSON e')"
    by (rule separated_inj [OF len assms(2,3) [unfolded plain_row_def] assms(1) [unfolded payload_def]])
  then show ?thesis by (simp add: hashed_def)
qed

lemma ComputedHash_commits:
  assumes "ComputedHash lib e = ComputedHash lib e'" "e \<in> S" "e' \<in> S" "\<forall>r \<in> S. plain_row r" "inj_on (lib_sha256 lib) (payload ` S)"
  shows "hashed e = hashed e'"
proof -
  have "lib_sha256 lib (payload e) = lib_sha256 lib (payload e')"
    using assms(1) by (simp add: ComputedHash_def EncodeToString_inj)
  then have "payload e = payload e'" using inj_onD [OF assms(5)] assms(2,3) by blast
  then show ?thesis using payload_inj assms(2-4) by blast
qed

section \<open>The head of a chain commits to the chain\<close>

lemma chain_sequences:
  assumes "chain_ok lib [] 0 rs" "int (length rs) < 2 ^ 63"
  shows "map ae_Sequence rs = map int [1..<Suc (length rs)]"
  using assms
proof (induction rs rule: rev_induct)
  case (snoc r rs)
  have IH: "map ae_Sequence rs = map int [1..<Suc (length rs)]" using snoc by (simp add: chain_ok_snoc)
  have "ae_Sequence r = int (length rs) + 1"
  proof (cases "rs = []")
    case True
    then show ?thesis using snoc.prems(1) by (simp add: starts_row_def)
  next
    case False
    have "last (map ae_Sequence rs) = int (length rs)" unfolding IH using False by (cases rs) auto
    then have l: "ae_Sequence (last rs) = int (length rs)" using False by (simp add: last_map)
    have "wrap64 (int (length rs) + 1) = int (length rs) + 1" using snoc.prems(2) by (intro wrap64_id) (simp add: int64_def)
    then show ?thesis using snoc.prems(1) False l by (simp add: chain_ok_snoc continues_row_def Let_def)
  qed
  then show ?case using IH by simp
qed simp

lemma chain_commits:
  assumes "chain_ok lib [] 0 rs" "chain_ok lib [] 0 rs'" "rs \<noteq> []" "rs' \<noteq> []" "ae_Hash (last rs) = ae_Hash (last rs')"
    and "int (length rs) < 2 ^ 63" "int (length rs') < 2 ^ 63"
    and S: "set rs \<subseteq> S" "set rs' \<subseteq> S" "\<forall>r \<in> S. plain_row r" "inj_on (lib_sha256 lib) (payload ` S)"
  shows "map hashed rs = map hashed rs'"
  using assms(1-7) S(1,2)
proof (induction rs arbitrary: rs' rule: rev_induct)
  case (snoc r rs)
  obtain qs q where q: "rs' = qs @ [q]" using snoc.prems(4) by (cases rs' rule: rev_cases) auto
  have hash: "ae_Hash r = ComputedHash lib r" "ae_Hash q = ComputedHash lib q" using snoc.prems(1,2) by (simp_all add: q chain_ok_snoc)
  have same: "hashed r = hashed q"
    by (rule ComputedHash_commits [OF _ _ _ S(3,4)]) (use hash snoc.prems q in auto)
  then have prev: "TrimSpace (ae_PreviousHash r) = TrimSpace (ae_PreviousHash q)" by (simp add: hashed_def payload_fields_def)
  have link: "ae_PreviousHash x = ae_Hash (last xs) \<and> TrimSpace (ae_PreviousHash x) = ae_PreviousHash x \<and> ae_PreviousHash x \<noteq> []"
    if a: "chain_ok lib [] 0 (xs @ [x])" "xs \<noteq> []" "int (length (xs @ [x])) < 2 ^ 63" for xs x
  proof -
    have c: "chain_ok lib [] 0 xs" using a(1) by (simp add: chain_ok_snoc)
    have "last (map ae_Sequence xs) = int (length xs)" using chain_sequences [OF c] a(2,3) by (cases xs) auto
    then have "ae_Sequence (last xs) \<noteq> 0" using a(2) by (simp add: last_map)
    then have p: "ae_PreviousHash x = ae_Hash (last xs)" using a(1,2) by (simp add: chain_ok_snoc continues_row_def Let_def)
    obtain ys y where y: "xs = ys @ [y]" using a(2) by (cases xs rule: rev_cases) auto
    have "ae_Hash (last xs) = ComputedHash lib (last xs)" using c by (simp add: y chain_ok_snoc)
    then show ?thesis using p ComputedHash_trimmed [of lib "last xs"] by (simp add: ComputedHash_def)
  qed
  have first: "TrimSpace (ae_PreviousHash x) = []" if "chain_ok lib [] 0 [x]" for x using that by (simp add: starts_row_def)
  have empty: "rs = [] \<longleftrightarrow> qs = []"
    using link [of rs r] link [of qs q] first [of r] first [of q] prev snoc.prems(1,2,6,7) by (cases "rs = []"; cases "qs = []") (auto simp: q)
  show ?case
  proof (cases "rs = []")
    case True
    then show ?thesis using empty same by (simp add: q)
  next
    case False
    then have "ae_Hash (last rs) = ae_Hash (last qs)"
      using link [of rs r] link [of qs q] empty prev snoc.prems(1,2,6,7) by (metis q)
    then have "map hashed rs = map hashed qs"
      using snoc.IH [of qs] snoc.prems False empty by (simp add: q chain_ok_snoc)
    then show ?thesis using same by (simp add: q)
  qed
qed simp

text \<open>
  C11. Tamper evidence: two audit logs that both verify as intact and show the same head hash agree, row
  by row, in every hashed field (tenant, event, sequence number, time, action, actor, request, link and
  details), provided no field contains the separator and SHA-256 does not collide on their payloads.  So
  no row can be changed, inserted, removed or reordered without changing the head hash.
\<close>

theorem head_hash_commits:
  assumes "VerifyAuditChain lib cx now None opts rows = Inr rep" "rep_Chain rep = ''intact''"
    and "VerifyAuditChain lib cx' now' None opts' rows' = Inr rep'" "rep_Chain rep' = ''intact''"
    and "rep_HeadHash rep = rep_HeadHash rep'"
    and "\<forall>r \<in> set rows \<union> set rows'. plain_row r" "inj_on (lib_sha256 lib) (payload ` (set rows \<union> set rows'))"
    and "int (length rows) < 2 ^ 63" "int (length rows') < 2 ^ 63"
  shows "map hashed (chain_rows cx opts rows) = map hashed (chain_rows cx' opts' rows')"
proof (rule chain_commits [OF _ _ _ _ _ _ _ _ _ assms(6,7)])
  note i = VerifyAuditChain_intact [OF assms(1)] and i' = VerifyAuditChain_intact [OF assms(3)]
  show c: "chain_ok lib [] 0 (chain_rows cx opts rows)" "chain_rows cx opts rows \<noteq> []" using i(1) assms(2) by simp_all
  show c': "chain_ok lib [] 0 (chain_rows cx' opts' rows')" "chain_rows cx' opts' rows' \<noteq> []" using i'(1) assms(4) by simp_all
  show "ae_Hash (last (chain_rows cx opts rows)) = ae_Hash (last (chain_rows cx' opts' rows'))"
    using i(2) [OF c(2)] i'(2) [OF c'(2)] assms(5) by simp
  have "length (chain_rows cx opts rows) \<le> length rows" "length (chain_rows cx' opts' rows') \<le> length rows'"
    by (simp_all add: length_filter_le)
  then show "int (length (chain_rows cx opts rows)) < 2 ^ 63" "int (length (chain_rows cx' opts' rows')) < 2 ^ 63"
    using assms(8,9) by linarith+
qed auto

section \<open>The separator is not escaped\<close>

lemma TrimSpace_joined:
  assumes "TrimSpace a = a" "TrimSpace b = b"
  shows "TrimSpace (a @ ''|'' @ b) = a @ ''|'' @ b"
proof (rule TrimSpace_id)
  have bar: "\<not> is_space CHR ''|''" by (simp add: is_space_def)
  show "\<not> is_space (hd (a @ ''|'' @ b))" using TrimSpace_fixed(1) [OF assms(1)] bar by (cases a) auto
  show "\<not> is_space (last (a @ ''|'' @ b))" using TrimSpace_fixed(2) [OF assms(2)] bar by (cases b) auto
qed simp

text \<open>
  The separator of the payload is not escaped: moving the text after a bar from the request path to
  the request method changes two audited fields and leaves the hash as it is, so an altered row
  verifies.
\<close>

theorem separator_not_escaped:
  assumes "TrimSpace a = a" "TrimSpace b = b" "TrimSpace c = c"
  shows "ComputedHash lib (e\<lparr>ae_RequestPath := a @ ''|'' @ b, ae_RequestMethod := c\<rparr>) =
         ComputedHash lib (e\<lparr>ae_RequestPath := a, ae_RequestMethod := b @ ''|'' @ c\<rparr>)"
  using TrimSpace_joined [OF assms(1,2)] TrimSpace_joined [OF assms(2,3)] assms
  by (simp add: ComputedHash_def payload_def payload_fields_def)

section \<open>Verification limited to a workspace\<close>

lemma read_all_iff: "(\<exists>es. read_all lib rs = Inr es) \<longleftrightarrow> (\<forall>r \<in> set rs. \<exists>e. DeserializeFields lib r = Inr e)"
  by (induction rs) (auto split: sum.splits)

text \<open>
  C40. A verification limited to a workspace calls intact logs broken: when a tenant's chain is intact and
  some row that the workspace does not see comes before one it sees, the report for the workspace says
  broken.
\<close>

theorem workspace_view_breaks:
  assumes "VerifyAuditChain lib cx now None full rows = Inr rep" "rep_Chain rep = ''intact''" "TrimSpace (opt_WorkspaceID full) = []"
    and "r \<in> set rows" "in_scope cx r" "\<not> visible opts r"
    and "r' \<in> set rows" "in_scope cx r'" "visible opts r'" "ae_Sequence r < ae_Sequence r'" "int (length rows) < 2 ^ 63"
  shows "\<exists>rep'. VerifyAuditChain lib cx now' None opts rows = Inr rep' \<and> rep_Chain rep' = ''broken''"
proof -
  let ?F = "chain_rows cx full rows" and ?V = "chain_rows cx opts rows"
  have all: "visible full x" for x using assms(3) by (simp add: visible_def)
  have ok: "chain_ok lib [] 0 ?F" using VerifyAuditChain_intact(1) [OF assms(1)] assms(2) by simp
  have len: "length ?F \<le> length rows" "length ?V \<le> length rows" by (simp_all add: length_filter_le)
  then have small: "int (length ?F) < 2 ^ 63" "int (length ?V) < 2 ^ 63" using assms(11) by linarith+
  note seqF = chain_sequences [OF ok small(1)]
  have in_F: "x \<in> set ?F" if "x \<in> set rows" "in_scope cx x" for x using that all by simp
  have "distinct (map ae_Sequence ?F)" unfolding seqF by (simp add: distinct_map del: upt_Suc)
  then have inj: "x = y" if "x \<in> set ?F" "y \<in> set ?F" "ae_Sequence x = ae_Sequence y" for x y
    using that by (auto simp: distinct_map inj_on_def)
  have "\<forall>x \<in> set ?F. \<exists>e. DeserializeFields lib x = Inr e"
    using assms(1) unfolding read_all_iff [symmetric] by (auto simp: VerifyAuditChain_def Let_def split: sum.splits)
  then have "\<exists>es. read_all lib ?V = Inr es" unfolding read_all_iff using all by auto
  then obtain rep' where rep': "VerifyAuditChain lib cx now' None opts rows = Inr rep'"
    using VerifyAuditChain_returns by blast
  have "\<not> chain_ok lib [] 0 ?V"
  proof
    assume "chain_ok lib [] 0 ?V"
    from chain_sequences [OF this small(2)] have seqV: "ae_Sequence ` set ?V = int ` {1..<Suc (length ?V)}"
      by (metis list.set_map set_upt)
    have "ae_Sequence r \<in> set (map ae_Sequence ?F)" using in_F assms(4,5) by auto
    then have "ae_Sequence r \<ge> 1" unfolding seqF by auto
    moreover have "ae_Sequence r' \<in> int ` {1..<Suc (length ?V)}" unfolding seqV [symmetric] using assms(7-9) by auto
    ultimately have "ae_Sequence r \<in> int ` {1..<Suc (length ?V)}"
      using assms(10) by (intro image_eqI [of _ _ "nat (ae_Sequence r)"]) auto
    then obtain x where x: "x \<in> set ?V" "ae_Sequence x = ae_Sequence r" unfolding seqV [symmetric] by auto
    have "x = r" using x in_F assms(4,5) by (intro inj) auto
    then show False using x(1) assms(6) by simp
  qed
  then show ?thesis using rep' VerifyAuditChain_intact(3) [OF rep'] by blast
qed

section \<open>Instances\<close>

definition tiny_lib :: AuditLib where
  "tiny_lib = sample_audit_lib\<lparr>lib_sha256 := \<lambda>s. [char_of (length s mod 256)]\<rparr>"

definition row1 :: AuditLogEntry where
  "row1 = sample_entry\<lparr>ae_TenantID := ''acme'', ae_WorkspaceID := Some ''w1'', ae_Sequence := 1, ae_Timestamp := 1000,
     ae_Hash := ''sha256:57'', ae_VerificationMethod := ''cryptographic_hash''\<rparr>"

definition row2 :: AuditLogEntry where
  "row2 = sample_entry\<lparr>ae_EventID := ''e2'', ae_TenantID := ''acme'', ae_WorkspaceID := Some ''w2'', ae_Sequence := 2, ae_Timestamp := 2000,
     ae_PreviousHash := ''sha256:57'', ae_Hash := ''sha256:60'', ae_VerificationMethod := ''cryptographic_hash''\<rparr>"

abbreviation all_of :: "string \<Rightarrow> AuditChainVerifyOptions" where
  "all_of ws \<equiv> \<lparr>opt_WorkspaceID = ws, opt_MaxBreaks = 0\<rparr>"

lemma sample_payloads: "length (payload row1) = 87" "length (payload row2) = 96" "plain_row row1" "plain_row row2"
  by code_simp+

lemma sample_hashes: "ae_Hash row1 = ComputedHash tiny_lib row1" "ae_Hash row2 = ComputedHash tiny_lib row2"
  unfolding ComputedHash_def tiny_lib_def by (simp_all add: sample_payloads row1_def [THEN arg_cong, of ae_Hash] row2_def [THEN arg_cong, of ae_Hash]
    EncodeToString_def hex_digit_def) code_simp+

lemma sample_chain: "chain_rows sample_cx (all_of []) [row1, row2] = [row1, row2]" "chain_ok tiny_lib [] 0 [row1, row2]"
proof -
  show "chain_rows sample_cx (all_of []) [row1, row2] = [row1, row2]"
    by (simp add: in_scope_def visible_def TrimSpace_def row1_def row2_def sample_cx_def)
  have "starts_row row1" "continues_row (ae_Hash row1) (ae_Sequence row1) row2" "ae_Sequence row1 \<noteq> 0" by code_simp+
  then show "chain_ok tiny_lib [] 0 [row1, row2]" using sample_hashes by simp
qed

lemma sample_intact: "\<exists>rep. VerifyAuditChain tiny_lib sample_cx now None (all_of []) [row1, row2] = Inr rep \<and> rep_Chain rep = ''intact''"
proof -
  have "\<exists>es. read_all tiny_lib [row1, row2] = Inr es"
    unfolding read_all_iff by (auto simp: DeserializeFields_def Let_def row1_def row2_def sample_entry_def TrimSpace_def)
  then obtain rep where "VerifyAuditChain tiny_lib sample_cx now None (all_of []) [row1, row2] = Inr rep"
    using VerifyAuditChain_returns sample_chain(1) by metis
  then show ?thesis using VerifyAuditChain_intact(1) sample_chain by fastforce
qed

theorem head_hash_commits_witness:
  "\<exists>rep. VerifyAuditChain tiny_lib sample_cx 0 None (all_of []) [row1, row2] = Inr rep \<and>
     map hashed (chain_rows sample_cx (all_of []) [row1, row2]) = map hashed (chain_rows sample_cx (all_of []) [row1, row2])"
proof -
  obtain rep where rep: "VerifyAuditChain tiny_lib sample_cx 0 None (all_of []) [row1, row2] = Inr rep" "rep_Chain rep = ''intact''"
    using sample_intact by blast
  have "inj_on (lib_sha256 tiny_lib) (payload ` (set [row1, row2] \<union> set [row1, row2]))"
    by (auto simp: inj_on_def tiny_lib_def sample_payloads)
  then show ?thesis using head_hash_commits [OF rep rep refl] rep(1) sample_payloads by auto
qed

theorem separator_not_escaped_witness:
  "ComputedHash tiny_lib (row1\<lparr>ae_RequestPath := ''a|b'', ae_RequestMethod := ''c''\<rparr>) =
   ComputedHash tiny_lib (row1\<lparr>ae_RequestPath := ''a'', ae_RequestMethod := ''b|c''\<rparr>)"
  using separator_not_escaped [of "''a''" "''b''" "''c''" tiny_lib row1] by (simp add: go_string_simps)

theorem workspace_view_breaks_witness:
  "\<exists>rep. VerifyAuditChain tiny_lib sample_cx 0 None (all_of ''w2'') [row1, row2] = Inr rep \<and> rep_Chain rep = ''broken''"
proof -
  obtain rep where rep: "VerifyAuditChain tiny_lib sample_cx 0 None (all_of []) [row1, row2] = Inr rep" "rep_Chain rep = ''intact''"
    using sample_intact by blast
  have "in_scope sample_cx row1" "\<not> visible (all_of ''w2'') row1" "in_scope sample_cx row2" "visible (all_of ''w2'') row2"
    "ae_Sequence row1 < ae_Sequence row2" "TrimSpace (opt_WorkspaceID (all_of [])) = []" by code_simp+
  then show ?thesis using workspace_view_breaks [OF rep, of row1 "all_of ''w2''" row2] by simp
qed

end
