(* ===== verification/DistLock.thy ===== *)
theory DistLock
  imports Prelude
begin

text \<open>
  The distributed lock of the configuration store: \<^verbatim>\<open>framework/configstore/dlock.go\<close>, with the statements
  of \<^verbatim>\<open>rdb.go\<close> it runs on the table \<open>distributed_locks\<close>.  A lock is a row with a holder and an expiry;
  a client that has acquired it may rely on it until the expiry it wrote, less a margin for the difference
  of the processes' clocks: each process compares the expiry with its own clock.

  The table is the list of its rows, one for each key (the primary key).  Times are nanoseconds.  The
  errors of the database and of the context are parameters; a statement that fails has no effect.
\<close>

section \<open>The table\<close>

record TableDistributedLock =
  lk_LockKey :: string
  lk_HolderID :: string
  lk_ExpiresAt :: int
  lk_CreatedAt :: int

datatype LockError = ErrLockNotAcquired | ErrLockNotHeld | ErrLockExpired | ErrEmptyLockKey | ContextError string | StoreError string

type_synonym locks = "TableDistributedLock list"

text \<open>The insert does nothing when the key is taken; one affected row means that the lock is acquired.
  A creation time of 0 stands for the zero value of \<open>time.Time\<close>.\<close>

definition TryAcquireLock :: "string option \<Rightarrow> int \<Rightarrow> TableDistributedLock \<Rightarrow> locks \<Rightarrow> (LockError + bool) \<times> locks" where
  "TryAcquireLock fault now lock rows =
     (let row = (if lk_CreatedAt lock = 0 then lock\<lparr>lk_CreatedAt := now\<rparr> else lock) in
      case fault of
        Some err \<Rightarrow> (Inl (StoreError err), rows)
      | None \<Rightarrow> if list_ex (\<lambda>r. lk_LockKey r = lk_LockKey lock) rows then (Inr False, rows) else (Inr True, rows @ [row]))"

definition GetLock :: "string option \<Rightarrow> string \<Rightarrow> locks \<Rightarrow> LockError + TableDistributedLock option" where
  "GetLock fault lockKey rows =
     (case fault of Some err \<Rightarrow> Inl (StoreError err) | None \<Rightarrow> Inr (List.find (\<lambda>r. lk_LockKey r = lockKey) rows))"

definition UpdateLockExpiry :: "string option \<Rightarrow> int \<Rightarrow> string \<Rightarrow> string \<Rightarrow> int \<Rightarrow> locks \<Rightarrow> LockError option \<times> locks" where
  "UpdateLockExpiry fault now lockKey holderID expiresAt rows =
     (let here = (\<lambda>r. lk_LockKey r = lockKey \<and> lk_HolderID r = holderID \<and> lk_ExpiresAt r > now) in
      case fault of
        Some err \<Rightarrow> (Some (StoreError err), rows)
      | None \<Rightarrow> (if list_ex here rows then None else Some ErrLockNotHeld,
                 map (\<lambda>r. if here r then r\<lparr>lk_ExpiresAt := expiresAt\<rparr> else r) rows))"

definition ReleaseLock :: "string option \<Rightarrow> string \<Rightarrow> string \<Rightarrow> locks \<Rightarrow> (LockError + bool) \<times> locks" where
  "ReleaseLock fault lockKey holderID rows =
     (let here = (\<lambda>r. lk_LockKey r = lockKey \<and> lk_HolderID r = holderID) in
      case fault of
        Some err \<Rightarrow> (Inl (StoreError err), rows)
      | None \<Rightarrow> (Inr (list_ex here rows), filter (\<lambda>r. \<not> here r) rows))"

definition CleanupExpiredLocks :: "string option \<Rightarrow> int \<Rightarrow> locks \<Rightarrow> (LockError + int) \<times> locks" where
  "CleanupExpiredLocks fault now rows =
     (case fault of
        Some err \<Rightarrow> (Inl (StoreError err), rows)
      | None \<Rightarrow> (Inr (int (length (filter (\<lambda>r. lk_ExpiresAt r < now) rows))), filter (\<lambda>r. \<not> lk_ExpiresAt r < now) rows))"

definition CleanupExpiredLockByKey :: "string option \<Rightarrow> int \<Rightarrow> string \<Rightarrow> locks \<Rightarrow> (LockError + bool) \<times> locks" where
  "CleanupExpiredLockByKey fault now lockKey rows =
     (let here = (\<lambda>r. lk_LockKey r = lockKey \<and> lk_ExpiresAt r < now) in
      case fault of
        Some err \<Rightarrow> (Inl (StoreError err), rows)
      | None \<Rightarrow> (Inr (list_ex here rows), filter (\<lambda>r. \<not> here r) rows))"

section \<open>The manager and its locks\<close>

record DistributedLockManager =
  lm_store :: bool
  lm_defaultTTL :: int
  lm_retryInterval :: int
  lm_maxRetries :: int

record DistributedLock =
  dl_store :: bool
  dl_lockKey :: string
  dl_holderID :: string
  dl_ttl :: int
  dl_retryInterval :: int
  dl_maxRetries :: int
  dl_acquired :: bool

definition WithDefaultTTL :: "int \<Rightarrow> DistributedLockManager \<Rightarrow> DistributedLockManager" where
  "WithDefaultTTL ttl m = m\<lparr>lm_defaultTTL := ttl\<rparr>"

definition WithRetryInterval :: "int \<Rightarrow> DistributedLockManager \<Rightarrow> DistributedLockManager" where
  "WithRetryInterval interval m = m\<lparr>lm_retryInterval := interval\<rparr>"

definition WithMaxRetries :: "int \<Rightarrow> DistributedLockManager \<Rightarrow> DistributedLockManager" where
  "WithMaxRetries maxRetries m = m\<lparr>lm_maxRetries := maxRetries\<rparr>"

definition NewDistributedLockManager :: "bool \<Rightarrow> (DistributedLockManager \<Rightarrow> DistributedLockManager) list \<Rightarrow> DistributedLockManager" where
  "NewDistributedLockManager store opts =
     fold (\<lambda>opt. opt) opts \<lparr>lm_store = store, lm_defaultTTL = 30000000000, lm_retryInterval = 100000000, lm_maxRetries = 100\<rparr>"

definition NewLock :: "string \<Rightarrow> DistributedLockManager \<Rightarrow> string \<Rightarrow> LockError + DistributedLock" where
  "NewLock uuid m lockKey =
     (if lockKey = [] then Inl ErrEmptyLockKey
      else Inr \<lparr>dl_store = lm_store m, dl_lockKey = lockKey, dl_holderID = uuid, dl_ttl = lm_defaultTTL m,
                dl_retryInterval = lm_retryInterval m, dl_maxRetries = lm_maxRetries m, dl_acquired = False\<rparr>)"

definition NewLockWithTTL :: "string \<Rightarrow> DistributedLockManager \<Rightarrow> string \<Rightarrow> int \<Rightarrow> LockError + DistributedLock" where
  "NewLockWithTTL uuid m lockKey ttl = (case NewLock uuid m lockKey of Inl err \<Rightarrow> Inl err | Inr lock \<Rightarrow> Inr (lock\<lparr>dl_ttl := ttl\<rparr>))"

text \<open>\<open>cleanupExpiredLock\<close>; its error is only logged.\<close>

definition cleanupExpiredLock :: "string option \<Rightarrow> int \<Rightarrow> DistributedLock \<Rightarrow> locks \<Rightarrow> locks" where
  "cleanupExpiredLock fault now l rows =
     (if \<not> dl_store l then rows else snd (CleanupExpiredLockByKey fault now (dl_lockKey l) rows))"

definition lock_row :: "int \<Rightarrow> DistributedLock \<Rightarrow> TableDistributedLock" where
  "lock_row now l = \<lparr>lk_LockKey = dl_lockKey l, lk_HolderID = dl_holderID l, lk_ExpiresAt = now + dl_ttl l, lk_CreatedAt = 0\<rparr>"

definition TryLock :: "string option \<Rightarrow> string option \<Rightarrow> int \<Rightarrow> DistributedLock \<Rightarrow> locks \<Rightarrow> (LockError + bool) \<times> DistributedLock \<times> locks" where
  "TryLock cleanFault acquireFault now l rows =
     (if \<not> dl_store l then (Inr True, l, rows)
      else
        (case TryAcquireLock acquireFault now (lock_row now l) (cleanupExpiredLock cleanFault now l rows) of
           (Inl err, rows') \<Rightarrow> (Inl err, l, rows')
         | (Inr acquired, rows') \<Rightarrow> (Inr acquired, if acquired then l\<lparr>dl_acquired := True\<rparr> else l, rows')))"

definition Unlock :: "string option \<Rightarrow> DistributedLock \<Rightarrow> locks \<Rightarrow> LockError option \<times> DistributedLock \<times> locks" where
  "Unlock fault l rows =
     (if \<not> dl_store l then (None, l, rows)
      else if \<not> dl_acquired l then (Some ErrLockNotHeld, l, rows)
      else
        (case ReleaseLock fault (dl_lockKey l) (dl_holderID l) rows of
           (Inl err, rows') \<Rightarrow> (Some err, l, rows')
         | (Inr released, rows') \<Rightarrow> (if released then None else Some ErrLockNotHeld, l\<lparr>dl_acquired := False\<rparr>, rows')))"

definition Extend :: "string option \<Rightarrow> int \<Rightarrow> DistributedLock \<Rightarrow> locks \<Rightarrow> LockError option \<times> DistributedLock \<times> locks" where
  "Extend fault now l rows =
     (if \<not> dl_store l then (None, l, rows)
      else if \<not> dl_acquired l then (Some ErrLockNotHeld, l, rows)
      else
        (case UpdateLockExpiry fault now (dl_lockKey l) (dl_holderID l) (now + dl_ttl l) rows of
           (None, rows') \<Rightarrow> (None, l, rows')
         | (Some err, rows') \<Rightarrow> (Some err, if err = ErrLockNotHeld then l\<lparr>dl_acquired := False\<rparr> else l, rows')))"

definition IsHeld :: "string option \<Rightarrow> int \<Rightarrow> DistributedLock \<Rightarrow> locks \<Rightarrow> (LockError + bool) \<times> DistributedLock" where
  "IsHeld fault now l rows =
     (if \<not> dl_store l \<or> \<not> dl_acquired l then (Inr False, l)
      else
        (case GetLock fault (dl_lockKey l) rows of
           Inl err \<Rightarrow> (Inl err, l)
         | Inr None \<Rightarrow> (Inr False, l\<lparr>dl_acquired := False\<rparr>)
         | Inr (Some lock) \<Rightarrow>
             if lk_HolderID lock \<noteq> dl_holderID l \<or> now > lk_ExpiresAt lock then (Inr False, l\<lparr>dl_acquired := False\<rparr>) else (Inr True, l)))"

section \<open>Waiting for a lock\<close>

text \<open>
  What the loop meets at attempt \<open>i\<close>: the time, the errors of the two statements, the state of the
  context before the attempt and during the wait, and what other processes do to the table meanwhile.
\<close>

record LockEnv =
  env_time :: "nat \<Rightarrow> int"
  env_cleanFault :: "nat \<Rightarrow> string option"
  env_acquireFault :: "nat \<Rightarrow> string option"
  env_done :: "nat \<Rightarrow> string option"
  env_waitDone :: "nat \<Rightarrow> string option"
  env_others :: "nat \<Rightarrow> locks \<Rightarrow> locks"

text \<open>The loop of \<open>Lock\<close> and \<open>LockWithRetry\<close>, which differ in the time they wait; the last component are the waits.\<close>

function lock_loop ::
  "LockEnv \<Rightarrow> (nat \<Rightarrow> int) \<Rightarrow> int \<Rightarrow> nat \<Rightarrow> DistributedLock \<Rightarrow> locks \<Rightarrow> LockError option \<times> DistributedLock \<times> locks \<times> int list" where
  "lock_loop env wait maxRetries i l rows =
     (if int i \<le> maxRetries then
        (case env_done env i of
           Some err \<Rightarrow> (Some (ContextError err), l, rows, [])
         | None \<Rightarrow>
             (case TryLock (env_cleanFault env i) (env_acquireFault env i) (env_time env i) l rows of
                (Inl err, l', rows') \<Rightarrow> (Some err, l', rows', [])
              | (Inr True, l', rows') \<Rightarrow> (None, l', rows', [])
              | (Inr False, l', rows') \<Rightarrow>
                  if int i < maxRetries then
                    (case env_waitDone env i of
                       Some err \<Rightarrow> (Some (ContextError err), l', rows', [])
                     | None \<Rightarrow>
                         (case lock_loop env wait maxRetries (Suc i) l' (env_others env i rows') of
                            (r, l'', rows'', waits) \<Rightarrow> (r, l'', rows'', wait i # waits)))
                  else lock_loop env wait maxRetries (Suc i) l' rows'))
      else (Some ErrLockNotAcquired, l, rows, []))"
  by pat_completeness auto
termination by (relation "measure (\<lambda>(env, wait, maxRetries, i, l, rows). nat (maxRetries + 1 - int i))") auto

declare lock_loop.simps [simp del]

definition backoff :: "nat \<Rightarrow> int" where
  "backoff i = 2 ^ min i 5 * 1000000000"

definition Lock :: "LockEnv \<Rightarrow> DistributedLock \<Rightarrow> locks \<Rightarrow> LockError option \<times> DistributedLock \<times> locks \<times> int list" where
  "Lock env l rows =
     (if \<not> dl_store l then (None, l, rows, []) else lock_loop env (\<lambda>i. dl_retryInterval l) (dl_maxRetries l) 0 l rows)"

definition LockWithRetry :: "LockEnv \<Rightarrow> int \<Rightarrow> DistributedLock \<Rightarrow> locks \<Rightarrow> LockError option \<times> DistributedLock \<times> locks \<times> int list" where
  "LockWithRetry env maxRetries l rows =
     (if \<not> dl_store l then (None, l, rows, []) else lock_loop env backoff maxRetries 0 l rows)"

section \<open>Clients of one table\<close>

text \<open>
  Processes that use locks on the same table.  A client is its lock object and the expiry it last
  wrote.  Every statement is a step of its own, so that the two statements of one \<open>TryLock\<close> may be
  separated.

  Every process passes a reading of its own clock (\<open>time.Now()\<close>) to the database.  \<open>lw_clock\<close> is the real
  time; a reading is at most \<open>d\<close> ahead of the real time at which the statement runs, and it may be any
  earlier time, because the clock may be late and the statement may run long after the clock was read.
\<close>

record LockClient =
  cl_lock :: DistributedLock
  cl_until :: int

record LockWorld =
  lw_rows :: locks
  lw_clients :: "LockClient list"
  lw_clock :: int

inductive lock_step :: "int \<Rightarrow> LockWorld \<Rightarrow> LockWorld \<Rightarrow> bool" for d where
  s_cleanup: "i < length (lw_clients w) \<Longrightarrow> l = cl_lock (lw_clients w ! i) \<Longrightarrow> now \<le> lw_clock w + d \<Longrightarrow>
    lock_step d w (w\<lparr>lw_rows := cleanupExpiredLock fault now l (lw_rows w)\<rparr>)"
| s_acquire: "i < length (lw_clients w) \<Longrightarrow> l = cl_lock (lw_clients w ! i) \<Longrightarrow> t \<le> lw_clock w + d \<Longrightarrow>
    TryAcquireLock fault now (lock_row t l) (lw_rows w) = (Inr True, rows') \<Longrightarrow>
    lock_step d w (w\<lparr>lw_rows := rows', lw_clients := (lw_clients w)[i := \<lparr>cl_lock = l\<lparr>dl_acquired := True\<rparr>, cl_until = t + dl_ttl l\<rparr>]\<rparr>)"
| s_unlock: "i < length (lw_clients w) \<Longrightarrow> c = lw_clients w ! i \<Longrightarrow> Unlock fault (cl_lock c) (lw_rows w) = (r, l', rows') \<Longrightarrow>
    lock_step d w (w\<lparr>lw_rows := rows', lw_clients := (lw_clients w)[i := c\<lparr>cl_lock := l'\<rparr>]\<rparr>)"
| s_extend: "i < length (lw_clients w) \<Longrightarrow> c = lw_clients w ! i \<Longrightarrow> now \<le> lw_clock w + d \<Longrightarrow>
    Extend fault now (cl_lock c) (lw_rows w) = (r, l', rows') \<Longrightarrow>
    lock_step d w (w\<lparr>lw_rows := rows', lw_clients := (lw_clients w)
      [i := \<lparr>cl_lock = l', cl_until = (if r = None then now + dl_ttl (cl_lock c) else cl_until c)\<rparr>]\<rparr>)"
| s_held: "i < length (lw_clients w) \<Longrightarrow> c = lw_clients w ! i \<Longrightarrow> now \<le> lw_clock w + d \<Longrightarrow>
    IsHeld fault now (cl_lock c) (lw_rows w) = (r, l') \<Longrightarrow>
    lock_step d w (w\<lparr>lw_clients := (lw_clients w)[i := c\<lparr>cl_lock := l'\<rparr>]\<rparr>)"
| s_gc: "now \<le> lw_clock w + d \<Longrightarrow> lock_step d w (w\<lparr>lw_rows := snd (CleanupExpiredLocks fault now (lw_rows w))\<rparr>)"
| s_tick: "lw_clock w \<le> t \<Longrightarrow> lock_step d w (w\<lparr>lw_clock := t\<rparr>)"

text \<open>A client relies on a lock it has acquired while its clock is a margin before the expiry it wrote.\<close>

definition relies :: "int \<Rightarrow> int \<Rightarrow> LockClient \<Rightarrow> bool" where
  "relies margin now c \<longleftrightarrow> dl_acquired (cl_lock c) \<and> now + margin \<le> cl_until c"

definition owns :: "locks \<Rightarrow> LockClient \<Rightarrow> bool" where
  "owns rows c \<longleftrightarrow>
     (\<exists>r \<in> set rows. lk_LockKey r = dl_lockKey (cl_lock c) \<and> lk_HolderID r = dl_holderID (cl_lock c) \<and> cl_until c \<le> lk_ExpiresAt r)"

definition same_object :: "DistributedLock \<Rightarrow> DistributedLock \<Rightarrow> bool" where
  "same_object l l' \<longleftrightarrow> dl_store l' = dl_store l \<and> dl_lockKey l' = dl_lockKey l \<and> dl_holderID l' = dl_holderID l \<and> dl_ttl l' = dl_ttl l"

abbreviation holders :: "LockWorld \<Rightarrow> string list" where
  "holders w \<equiv> map (dl_holderID \<circ> cl_lock) (lw_clients w)"

text \<open>One row for each key, different holders, and every client that relies on its lock has its row.\<close>

definition lock_inv :: "int \<Rightarrow> LockWorld \<Rightarrow> bool" where
  "lock_inv d w \<longleftrightarrow> distinct (map lk_LockKey (lw_rows w)) \<and> distinct (holders w) \<and>
     (\<forall>c \<in> set (lw_clients w). dl_store (cl_lock c)) \<and>
     (\<forall>c \<in> set (lw_clients w). relies d (lw_clock w) c \<longrightarrow> owns (lw_rows w) c)"

lemma lock_invI:
  assumes "distinct (map lk_LockKey rows)" "distinct (map (dl_holderID \<circ> cl_lock) cs)"
    and "\<And>c. c \<in> set cs \<Longrightarrow> dl_store (cl_lock c)" "\<And>c. c \<in> set cs \<Longrightarrow> relies d now c \<Longrightarrow> owns rows c"
  shows "lock_inv d (w\<lparr>lw_rows := rows, lw_clients := cs, lw_clock := now\<rparr>)"
  using assms by (auto simp: lock_inv_def)

text \<open>Replacing client \<open>i\<close> by one with the same lock object: the others keep their rows if these survive.\<close>

lemma lock_inv_update:
  assumes inv: "lock_inv d w" and i: "i < length (lw_clients w)" and same: "same_object (cl_lock (lw_clients w ! i)) (cl_lock c')"
    and rows: "distinct (map lk_LockKey rows')"
    and self: "relies d (lw_clock w) c' \<Longrightarrow> owns rows' c'"
    and others: "\<And>c. c \<in> set (lw_clients w) \<Longrightarrow> dl_holderID (cl_lock c) \<noteq> dl_holderID (cl_lock (lw_clients w ! i)) \<Longrightarrow>
      relies d (lw_clock w) c \<Longrightarrow> owns (lw_rows w) c \<Longrightarrow> owns rows' c"
  shows "lock_inv d (w\<lparr>lw_rows := rows', lw_clients := (lw_clients w)[i := c']\<rparr>)"
proof -
  have ids: "map (dl_holderID \<circ> cl_lock) ((lw_clients w)[i := c']) = holders w"
    using same i by (auto simp: same_object_def map_update list_eq_iff_nth_eq nth_list_update)
  have inv': "distinct (holders w)" "\<And>c. c \<in> set (lw_clients w) \<Longrightarrow> dl_store (cl_lock c)"
    "\<And>c. c \<in> set (lw_clients w) \<Longrightarrow> relies d (lw_clock w) c \<Longrightarrow> owns (lw_rows w) c"
    using inv by (auto simp: lock_inv_def)
  have other: "c \<in> set (lw_clients w) \<and> dl_holderID (cl_lock c) \<noteq> dl_holderID (cl_lock (lw_clients w ! i))"
    if a: "c \<in> set ((lw_clients w)[i := c'])" "c \<noteq> c'" for c
  proof -
    obtain j where j: "j < length (lw_clients w)" "(lw_clients w)[i := c'] ! j = c" using a(1) by (auto simp: in_set_conv_nth)
    then have "j \<noteq> i" using a(2) i j(2) by auto
    then have "c = lw_clients w ! j" using j by simp
    moreover have "holders w ! j \<noteq> holders w ! i" using inv'(1) j(1) i \<open>j \<noteq> i\<close> by (simp add: nth_eq_iff_index_eq del: nth_map)
    ultimately show ?thesis using j(1) i by auto
  qed
  have "lock_inv d (w\<lparr>lw_rows := rows', lw_clients := (lw_clients w)[i := c'], lw_clock := lw_clock w\<rparr>)"
  proof (rule lock_invI)
    show "distinct (map (dl_holderID \<circ> cl_lock) ((lw_clients w)[i := c']))" unfolding ids by (rule inv'(1))
    show "dl_store (cl_lock c)" if "c \<in> set ((lw_clients w)[i := c'])" for c
      using other [OF that] inv'(2) same nth_mem [OF i] by (cases "c = c'") (auto simp: same_object_def)
    show "owns rows' c" if "c \<in> set ((lw_clients w)[i := c'])" "relies d (lw_clock w) c" for c
      using other [OF that(1)] inv'(3) that(2) self others by (cases "c = c'") auto
  qed (rule rows)
  then show ?thesis by simp
qed

lemma owns_filter: "owns rows c \<Longrightarrow> (\<And>r. r \<in> set rows \<Longrightarrow> lk_LockKey r = dl_lockKey (cl_lock c) \<Longrightarrow>
    lk_HolderID r = dl_holderID (cl_lock c) \<Longrightarrow> cl_until c \<le> lk_ExpiresAt r \<Longrightarrow> P r) \<Longrightarrow> owns (filter P rows) c"
  by (auto simp: owns_def)

lemma same_object_refl [simp]: "same_object l l" "same_object l (l\<lparr>dl_acquired := a\<rparr>)"
  by (simp_all add: same_object_def)

lemma distinct_map_filter_keys: "distinct (map lk_LockKey rows) \<Longrightarrow> distinct (map lk_LockKey (filter P rows))"
  by (rule distinct_map_filter)

lemma lock_inv_rows:
  assumes "lock_inv d w" "distinct (map lk_LockKey rows')"
    and "\<And>c. c \<in> set (lw_clients w) \<Longrightarrow> relies d (lw_clock w) c \<Longrightarrow> owns (lw_rows w) c \<Longrightarrow> owns rows' c"
  shows "lock_inv d (w\<lparr>lw_rows := rows'\<rparr>)"
  using assms by (auto simp: lock_inv_def)

lemma owns_live: "relies d clock c \<Longrightarrow> now \<le> clock + d \<Longrightarrow> owns rows c \<Longrightarrow> (\<And>r. now \<le> lk_ExpiresAt r \<Longrightarrow> P r) \<Longrightarrow> owns (filter P rows) c"
  by (rule owns_filter) (auto simp: relies_def)

lemma owns_append: "owns rows c \<Longrightarrow> owns (rows @ rows') c"
  by (auto simp: owns_def)

lemma lock_step_inv: "lock_step d w w' \<Longrightarrow> lock_inv d w \<Longrightarrow> lock_inv d w'"
proof (induction rule: lock_step.induct)
  case (s_cleanup i w l now fault)
  have rows: "cleanupExpiredLock fault now l (lw_rows w) = lw_rows w \<or>
      cleanupExpiredLock fault now l (lw_rows w) = filter (\<lambda>r. \<not> (lk_LockKey r = dl_lockKey l \<and> lk_ExpiresAt r < now)) (lw_rows w)"
    by (simp add: cleanupExpiredLock_def CleanupExpiredLockByKey_def Let_def split: option.splits)
  show ?case
  proof (rule lock_inv_rows [OF s_cleanup(4)])
    show "distinct (map lk_LockKey (cleanupExpiredLock fault now l (lw_rows w)))"
      using rows s_cleanup(4) distinct_map_filter_keys by (auto simp: lock_inv_def)
    show "owns (cleanupExpiredLock fault now l (lw_rows w)) c"
      if "relies d (lw_clock w) c" "owns (lw_rows w) c" for c
      using rows owns_live [OF that(1) s_cleanup(3) that(2)] that(2) by (metis (no_types, lifting) linorder_not_le)
  qed
next
  case (s_acquire i w l t fault now rows')
  obtain row where rows': "rows' = lw_rows w @ [row]" "lk_LockKey row = dl_lockKey l" "lk_HolderID row = dl_holderID l" "lk_ExpiresAt row = t + dl_ttl l"
    and free: "dl_lockKey l \<notin> lk_LockKey ` set (lw_rows w)"
    using s_acquire(4) by (fastforce simp: TryAcquireLock_def Let_def lock_row_def list_ex_iff split: option.splits if_splits)
  show ?case
  proof (rule lock_inv_update [OF s_acquire(5,1)])
    show "distinct (map lk_LockKey rows')" using s_acquire(5) free by (simp add: rows' lock_inv_def)
    show "owns rows' \<lparr>cl_lock = l\<lparr>dl_acquired := True\<rparr>, cl_until = t + dl_ttl l\<rparr>" by (simp add: owns_def rows')
  qed (simp_all add: s_acquire(2) [symmetric] rows'(1) owns_append)
next
  case (s_unlock i w c fault r l' rows')
  have store: "dl_store (cl_lock c)" using s_unlock(1,2,4) by (simp add: lock_inv_def)
  have cases: "l' = cl_lock c \<and> rows' = lw_rows w \<or>
      l' = (cl_lock c)\<lparr>dl_acquired := False\<rparr> \<and>
      rows' = filter (\<lambda>x. \<not> (lk_LockKey x = dl_lockKey (cl_lock c) \<and> lk_HolderID x = dl_holderID (cl_lock c))) (lw_rows w)"
    using s_unlock(3) store by (auto simp: Unlock_def ReleaseLock_def Let_def split: option.splits if_splits)
  show ?case
  proof (rule lock_inv_update [OF s_unlock(4,1)])
    show "distinct (map lk_LockKey rows')" using cases s_unlock(4) distinct_map_filter_keys by (auto simp: lock_inv_def)
    show "owns rows' (c\<lparr>cl_lock := l'\<rparr>)" if "relies d (lw_clock w) (c\<lparr>cl_lock := l'\<rparr>)"
      using cases that s_unlock(1,2,4) nth_mem [OF s_unlock(1)] by (auto simp: relies_def lock_inv_def)
    show "owns rows' d" if "dl_holderID (cl_lock d) \<noteq> dl_holderID (cl_lock (lw_clients w ! i))" "owns (lw_rows w) d" for d
      using cases that s_unlock(2) by (auto simp: owns_def)
  qed (use cases s_unlock(2) in auto)
next
  case (s_extend i w c now fault r l' rows')
  let ?here = "\<lambda>x. lk_LockKey x = dl_lockKey (cl_lock c) \<and> lk_HolderID x = dl_holderID (cl_lock c) \<and> lk_ExpiresAt x > now"
  let ?exp = "now + dl_ttl (cl_lock c)"
  let ?upd = "\<lambda>x. if ?here x then x\<lparr>lk_ExpiresAt := ?exp\<rparr> else x"
  have store: "dl_store (cl_lock c)" using s_extend(1,2,5) by (simp add: lock_inv_def)
  have cases: "r \<noteq> None \<and> (l' = cl_lock c \<or> l' = (cl_lock c)\<lparr>dl_acquired := False\<rparr>) \<and> rows' = lw_rows w \<or>
      r = None \<and> l' = cl_lock c \<and> (\<exists>x \<in> set (lw_rows w). ?here x) \<and> rows' = map ?upd (lw_rows w)"
    using s_extend(4) store
    by (auto simp: Extend_def UpdateLockExpiry_def Let_def list_ex_iff intro!: map_idI split: option.splits if_splits)
  have keys: "map lk_LockKey (map ?upd (lw_rows w)) = map lk_LockKey (lw_rows w)" by simp
  show ?case
  proof (rule lock_inv_update [OF s_extend(5,1)])
    show "distinct (map lk_LockKey rows')" using cases keys s_extend(5) by (auto simp: lock_inv_def simp del: map_map)
    show "owns rows' \<lparr>cl_lock = l', cl_until = (if r = None then ?exp else cl_until c)\<rparr>"
      if "relies d (lw_clock w) \<lparr>cl_lock = l', cl_until = (if r = None then ?exp else cl_until c)\<rparr>"
      using cases
    proof (elim disjE conjE)
      assume "rows' = lw_rows w" "r \<noteq> None" "l' = cl_lock c"
      then show ?thesis using that s_extend(1,2,5) nth_mem [OF s_extend(1)] by (auto simp: relies_def lock_inv_def owns_def)
    next
      assume "l' = (cl_lock c)\<lparr>dl_acquired := False\<rparr>"
      then show ?thesis using that by (simp add: relies_def)
    next
      assume a: "r = None" "l' = cl_lock c" "\<exists>x \<in> set (lw_rows w). ?here x" "rows' = map ?upd (lw_rows w)"
      then obtain x where "x \<in> set (lw_rows w)" "?here x" by blast
      then have "x\<lparr>lk_ExpiresAt := ?exp\<rparr> \<in> set rows'" "lk_LockKey x = dl_lockKey l'" "lk_HolderID x = dl_holderID l'"
        using a(2,4) by (auto intro!: image_eqI [of _ ?upd x])
      then show ?thesis using a(1) by (auto simp: owns_def intro!: bexI [of _ "x\<lparr>lk_ExpiresAt := ?exp\<rparr>"])
    qed
    show "owns rows' d" if "dl_holderID (cl_lock d) \<noteq> dl_holderID (cl_lock (lw_clients w ! i))" "owns (lw_rows w) d" for d
      using cases that s_extend(2) by (fastforce simp: owns_def)
  qed (use cases s_extend(2) in auto)
next
  case (s_held i w c now fault r l')
  have "l' = cl_lock c \<or> l' = (cl_lock c)\<lparr>dl_acquired := False\<rparr>"
    using s_held(4) by (auto simp: IsHeld_def split: sum.splits option.splits if_splits)
  then have "lock_inv d (w\<lparr>lw_rows := lw_rows w, lw_clients := (lw_clients w)[i := c\<lparr>cl_lock := l'\<rparr>]\<rparr>)"
    using s_held(1,2,5) nth_mem [OF s_held(1)] by (intro lock_inv_update) (auto simp: lock_inv_def relies_def)
  then show ?case by simp
next
  case (s_gc now w fault)
  show ?case
    by (rule lock_inv_rows [OF s_gc(2)])
      (use s_gc in \<open>auto simp: CleanupExpiredLocks_def lock_inv_def intro: distinct_map_filter_keys owns_live [OF _ s_gc(1)] split: option.split\<close>)
next
  case (s_tick w t)
  then show ?case by (auto simp: lock_inv_def relies_def)
qed

interpretation lock_world: transition_system
  "\<lambda>w. distinct (map lk_LockKey (lw_rows w)) \<and> distinct (holders w) \<and>
       (\<forall>c \<in> set (lw_clients w). dl_store (cl_lock c) \<and> \<not> dl_acquired (cl_lock c))"
  "lock_step d" "lock_inv d" for d
proof unfold_locales
  show "lock_inv d w" if "distinct (map lk_LockKey (lw_rows w)) \<and> distinct (holders w) \<and>
    (\<forall>c \<in> set (lw_clients w). dl_store (cl_lock c) \<and> \<not> dl_acquired (cl_lock c))" for w
    using that by (auto simp: lock_inv_def relies_def)
qed (rule lock_step_inv)

text \<open>
  C21. Mutual exclusion under a bound \<open>d\<close> on the skew of the clocks: however the statements of the processes
  interleave with expiries, extensions, failed statements and clean-ups, as long as no clock is more than
  \<open>d\<close> ahead of the real time when a statement is made, no two clients with different holder ids, whose clocks
  \<open>x\<close> and \<open>y\<close> are at most \<open>d\<close> late, rely on the same lock at the same time.  A client relies on a lock it has
  acquired, and neither released nor learnt to be lost, while its own clock is at least \<open>2 d\<close> before the
  expiry it wrote; with equal clocks (\<open>d = 0\<close>) this is until the expiry.
\<close>

theorem lease_exclusive:
  assumes "distinct (map lk_LockKey (lw_rows w0))" "distinct (holders w0)"
    and "\<forall>c \<in> set (lw_clients w0). dl_store (cl_lock c) \<and> \<not> dl_acquired (cl_lock c)" "(lock_step d)\<^sup>*\<^sup>* w0 w"
    and "i < length (lw_clients w)" "j < length (lw_clients w)" "i \<noteq> j"
    and "dl_lockKey (cl_lock (lw_clients w ! i)) = dl_lockKey (cl_lock (lw_clients w ! j))"
    and "lw_clock w - d \<le> x" "lw_clock w - d \<le> y"
  shows "\<not> (relies (2 * d) x (lw_clients w ! i) \<and> relies (2 * d) y (lw_clients w ! j))"
proof
  assume "relies (2 * d) x (lw_clients w ! i) \<and> relies (2 * d) y (lw_clients w ! j)"
  then have rel: "relies d (lw_clock w) (lw_clients w ! i)" "relies d (lw_clock w) (lw_clients w ! j)"
    using assms(9,10) by (auto simp: relies_def)
  have inv: "lock_inv d w"
    using lock_world.steps_inv [OF assms(4)] lock_world.ini_inv [of w0] assms(1-3) by blast
  then have "owns (lw_rows w) (lw_clients w ! i)" "owns (lw_rows w) (lw_clients w ! j)"
    using rel assms(5,6) by (auto simp: lock_inv_def)
  then obtain r r' where r: "r \<in> set (lw_rows w)" "r' \<in> set (lw_rows w)" "lk_LockKey r = lk_LockKey r'"
    and h: "lk_HolderID r = holders w ! i" "lk_HolderID r' = holders w ! j"
    using assms(5,6,8) by (auto simp: owns_def)
  have "r = r'" using inv r by (auto simp: lock_inv_def distinct_map inj_on_def)
  then have "i = j" using inv h assms(5,6) by (auto simp: lock_inv_def nth_eq_iff_index_eq simp del: nth_map)
  then show False using assms(7) by simp
qed

text \<open>A whole \<open>TryLock\<close> with one reading of the clock is a sequence of steps of the client.\<close>

lemma TryLock_steps:
  assumes "i < length (lw_clients w)" "c = lw_clients w ! i" "dl_store (cl_lock c)" "now \<le> lw_clock w + d"
    and "TryLock cf af now (cl_lock c) (lw_rows w) = (r, l', rows')"
  shows "(lock_step d)\<^sup>*\<^sup>* w (w\<lparr>lw_rows := rows', lw_clients := (lw_clients w)
    [i := (if r = Inr True then \<lparr>cl_lock = l', cl_until = now + dl_ttl (cl_lock c)\<rparr> else c)]\<rparr>)"
proof -
  let ?w1 = "w\<lparr>lw_rows := cleanupExpiredLock cf now (cl_lock c) (lw_rows w)\<rparr>"
  have one: "lock_step d w ?w1" by (rule s_cleanup [OF assms(1) _ assms(4)]) (simp add: assms(2))
  show ?thesis
  proof (cases "r = Inr True")
    case True
    then have acq: "TryAcquireLock af now (lock_row now (cl_lock c)) (lw_rows ?w1) = (Inr True, rows')" "l' = (cl_lock c)\<lparr>dl_acquired := True\<rparr>"
      using assms(3,5) by (auto simp: TryLock_def split: prod.splits sum.splits)
    have "lock_step d ?w1 (w\<lparr>lw_rows := rows', lw_clients := (lw_clients w)[i := \<lparr>cl_lock = l', cl_until = now + dl_ttl (cl_lock c)\<rparr>]\<rparr>)"
      using s_acquire [of i ?w1 "cl_lock c" now d af now rows'] acq assms(1,2,4) by simp
    then show ?thesis using one True by (simp add: converse_rtranclp_into_rtranclp r_into_rtranclp)
  next
    case False
    then have "rows' = lw_rows ?w1"
      using assms(3,5) by (auto simp: TryLock_def TryAcquireLock_def Let_def split: prod.splits sum.splits option.splits if_splits)
    then show ?thesis using one False assms(1,2) by simp
  qed
qed

text \<open>A client whose row was taken over releases nothing.\<close>

lemma stale_unlock_harmless:
  assumes "dl_store l" "dl_acquired l" "\<forall>r \<in> set rows. lk_LockKey r = dl_lockKey l \<longrightarrow> lk_HolderID r \<noteq> dl_holderID l"
  shows "Unlock None l rows = (Some ErrLockNotHeld, l\<lparr>dl_acquired := False\<rparr>, rows)"
  using assms by (auto simp: Unlock_def ReleaseLock_def Let_def list_ex_iff filter_id_conv)

section \<open>The waiting loop\<close>

lemma TryLock_true:
  assumes "TryLock cf af now l rows = (Inr True, l', rows')" "dl_store l"
  shows "dl_acquired l' \<and> (\<exists>r \<in> set rows'. lk_LockKey r = dl_lockKey l \<and> lk_HolderID r = dl_holderID l \<and> lk_ExpiresAt r = now + dl_ttl l)"
  using assms by (auto simp: TryLock_def TryAcquireLock_def lock_row_def Let_def split: prod.splits sum.splits option.splits if_splits)

lemma TryLock_free:
  assumes "dl_store l" "\<forall>r \<in> set rows. lk_LockKey r = dl_lockKey l \<longrightarrow> lk_ExpiresAt r < now"
  shows "\<exists>l' rows'. TryLock None None now l rows = (Inr True, l', rows')"
  using assms by (auto simp: TryLock_def TryAcquireLock_def cleanupExpiredLock_def CleanupExpiredLockByKey_def lock_row_def Let_def list_ex_iff)

lemma TryLock_same: "TryLock cf af now l rows = (r, l', rows') \<Longrightarrow> same_object l l'"
  by (auto simp: TryLock_def split: if_splits prod.splits sum.splits)

text \<open>The outcome of the loop: it acquires the lock, or it has waited between all its attempts, or an error ends it.\<close>

definition wait_outcome :: "int \<Rightarrow> nat \<Rightarrow> DistributedLock \<Rightarrow> LockError option \<times> DistributedLock \<times> locks \<times> int list \<Rightarrow> bool" where
  "wait_outcome m i l res =
     (case res of (r, l', rows', waits) \<Rightarrow>
        length waits \<le> nat (m - int i) \<and>
        (case r of
           None \<Rightarrow> dl_acquired l' \<and> list_ex (\<lambda>x. lk_LockKey x = dl_lockKey l \<and> lk_HolderID x = dl_holderID l) rows'
         | Some err \<Rightarrow> err = ErrLockNotAcquired \<longrightarrow> length waits = nat (m - int i)))"

lemma TryLock_error: "TryLock cf af now l rows = (Inl err, l', rows') \<Longrightarrow> err \<noteq> ErrLockNotAcquired"
  by (auto simp: TryLock_def TryAcquireLock_def Let_def split: if_splits prod.splits sum.splits option.splits)

lemma loop_outcome:
  assumes "dl_store l"
  shows "wait_outcome m i l (lock_loop env wait m i l rows)"
  using assms
proof (induction "nat (m + 1 - int i)" arbitrary: i l rows rule: less_induct)
  case less
  obtain t l1 rows1 where res1: "TryLock (env_cleanFault env i) (env_acquireFault env i) (env_time env i) l rows = (t, l1, rows1)"
    by (cases "TryLock (env_cleanFault env i) (env_acquireFault env i) (env_time env i) l rows")
  have same: "dl_store l1" "dl_lockKey l1 = dl_lockKey l" "dl_holderID l1 = dl_holderID l"
    using TryLock_same [OF res1] less.prems by (simp_all add: same_object_def)
  have IH: "wait_outcome m (Suc i) l1 (lock_loop env wait m (Suc i) l1 rows2)" if "int i \<le> m" for rows2
    by (rule less.hyps) (use that same in auto)
  show ?case
  proof (cases "int i \<le> m \<and> env_done env i = None \<and> t = Inr False")
    case True
    then show ?thesis using IH same res1
      by (subst lock_loop.simps) (fastforce simp: wait_outcome_def split: option.splits prod.splits)
  next
    case False
    have true: "dl_acquired l1 \<and> list_ex (\<lambda>x. lk_LockKey x = dl_lockKey l \<and> lk_HolderID x = dl_holderID l) rows1" if "t = Inr True"
      using TryLock_true [OF res1 [unfolded that] less.prems] by (auto simp: list_ex_iff)
    have err: "t \<noteq> Inl ErrLockNotAcquired" using TryLock_error res1 by blast
    from False show ?thesis using res1 true err
      by (subst lock_loop.simps) (auto simp: wait_outcome_def split: option.splits sum.splits bool.splits)
  qed
qed

lemma loop_acquires:
  assumes "dl_store l" "i \<le> k" "int k \<le> m"
    and "\<And>j. j \<le> k \<Longrightarrow> env_done env j = None \<and> env_waitDone env j = None \<and> env_cleanFault env j = None \<and> env_acquireFault env j = None"
    and "\<And>rows r. 0 < k \<Longrightarrow> r \<in> set (env_others env (k - 1) rows) \<Longrightarrow> lk_LockKey r = dl_lockKey l \<Longrightarrow> lk_ExpiresAt r < env_time env k"
    and "i = k \<Longrightarrow> \<forall>r \<in> set rows. lk_LockKey r = dl_lockKey l \<longrightarrow> lk_ExpiresAt r < env_time env k"
  shows "\<exists>l' rows' waits. lock_loop env wait m i l rows = (None, l', rows', waits) \<and> dl_acquired l' \<and>
    (\<exists>r \<in> set rows'. lk_LockKey r = dl_lockKey l \<and> lk_HolderID r = dl_holderID l)"
  using assms
proof (induction "k - i" arbitrary: i l rows)
  case 0
  then have "i = k" by simp
  with 0(7) have "\<forall>r \<in> set rows. lk_LockKey r = dl_lockKey l \<longrightarrow> lk_ExpiresAt r < env_time env i" by simp
  from TryLock_free [OF 0(2) this] obtain l' rows' where t: "TryLock None None (env_time env i) l rows = (Inr True, l', rows')" by blast
  from TryLock_true [OF t 0(2)] show ?case
    using 0(4,5) \<open>i = k\<close> t by (subst lock_loop.simps) auto
next
  case (Suc n)
  have env: "env_done env i = None" "env_waitDone env i = None" "env_cleanFault env i = None" "env_acquireFault env i = None"
    using Suc.prems(2,4) by auto
  obtain t l1 rows1 where res1: "TryLock None None (env_time env i) l rows = (t, l1, rows1)"
    by (cases "TryLock None None (env_time env i) l rows")
  have same: "dl_store l1" "dl_lockKey l1 = dl_lockKey l" "dl_holderID l1 = dl_holderID l"
    using TryLock_same [OF res1] Suc.prems(1) by (simp_all add: same_object_def)
  have lt: "int i < m" using Suc.hyps(2) Suc.prems(3) by linarith
  have "\<exists>b. t = Inr b" using res1 Suc.prems(1)
    by (auto simp: TryLock_def TryAcquireLock_def Let_def split: if_splits prod.splits)
  then consider "t = Inr True" | "t = Inr False" by (metis (full_types))
  then show ?case
  proof cases
    case 1
    from TryLock_true [OF res1 [unfolded 1] Suc.prems(1)] show ?thesis using lt env res1 1 by (subst lock_loop.simps) auto
  next
    case 2
    have "\<exists>l' rows' waits. lock_loop env wait m (Suc i) l1 (env_others env i rows1) = (None, l', rows', waits) \<and> dl_acquired l' \<and>
      (\<exists>r \<in> set rows'. lk_LockKey r = dl_lockKey l1 \<and> lk_HolderID r = dl_holderID l1)"
      by (rule Suc.hyps(1)) (use Suc.hyps(2) Suc.prems same in \<open>auto\<close>)
    then show ?thesis using lt env res1 2 same by (subst lock_loop.simps) auto
  qed
qed

text \<open>
  C33. Waiting for a lock ends with a definite outcome: for every behaviour of the database, the context and
  the other processes, \<open>LockWithRetry\<close> on a lock with a store returns after at most \<open>maxRetries\<close> waits; without
  an error the lock is marked as acquired and its row is in the table, and the error \<open>ErrLockNotAcquired\<close> is
  returned only after a wait between every two of the \<open>maxRetries + 1\<close> attempts.
\<close>

theorem lock_wait_bounded:
  assumes "dl_store l" "LockWithRetry env maxRetries l rows = (r, l', rows', waits)"
  shows "length waits \<le> nat maxRetries \<and>
     (r = None \<longrightarrow> dl_acquired l' \<and> (\<exists>x \<in> set rows'. lk_LockKey x = dl_lockKey l \<and> lk_HolderID x = dl_holderID l)) \<and>
     (r = Some ErrLockNotAcquired \<longrightarrow> length waits = nat maxRetries)"
  using loop_outcome [OF assms(1), of maxRetries 0 env backoff rows] assms
  by (auto simp: LockWithRetry_def wait_outcome_def list_ex_iff)

text \<open>
  C34. A waiting client gets the lock: when there is no live row for its key at some attempt \<open>k\<close> within the
  retry limit, the first attempt included (the table has none at the first attempt, or whatever the other
  processes do they leave none during the wait before attempt \<open>k\<close>), and no statement fails and the context is
  not cancelled until then, \<open>Lock\<close> returns without an error, the lock is marked as acquired and its row is
  in the table.
\<close>

theorem lock_acquires_when_free:
  assumes "dl_store l" "int k \<le> dl_maxRetries l"
    and "\<And>j. j \<le> k \<Longrightarrow> env_done env j = None \<and> env_waitDone env j = None \<and> env_cleanFault env j = None \<and> env_acquireFault env j = None"
    and "\<And>r. k = 0 \<Longrightarrow> r \<in> set rows \<Longrightarrow> lk_LockKey r = dl_lockKey l \<Longrightarrow> lk_ExpiresAt r < env_time env 0"
    and "\<And>table r. 0 < k \<Longrightarrow> r \<in> set (env_others env (k - 1) table) \<Longrightarrow> lk_LockKey r = dl_lockKey l \<Longrightarrow> lk_ExpiresAt r < env_time env k"
  shows "\<exists>l' rows' waits. Lock env l rows = (None, l', rows', waits) \<and> dl_acquired l' \<and>
    (\<exists>r \<in> set rows'. lk_LockKey r = dl_lockKey l \<and> lk_HolderID r = dl_holderID l)"
  using loop_acquires [OF assms(1) _ assms(2,3), of 0] assms(1,4,5) by (simp add: Lock_def)

section \<open>Concrete runs\<close>

definition lock_a :: DistributedLock where
  "lock_a = \<lparr>dl_store = True, dl_lockKey = ''migrate'', dl_holderID = ''a'', dl_ttl = 30, dl_retryInterval = 1, dl_maxRetries = 3, dl_acquired = False\<rparr>"

definition lock_b :: DistributedLock where
  "lock_b = lock_a\<lparr>dl_holderID := ''b''\<rparr>"

definition world_ab :: LockWorld where
  "world_ab = \<lparr>lw_rows = [], lw_clients = [\<lparr>cl_lock = lock_a, cl_until = 0\<rparr>, \<lparr>cl_lock = lock_b, cl_until = 0\<rparr>], lw_clock = 100\<rparr>"

text \<open>The world after the first client's \<open>TryLock\<close>.\<close>

definition world_held :: LockWorld where
  "world_held = world_ab
     \<lparr>lw_rows := [\<lparr>lk_LockKey = ''migrate'', lk_HolderID = ''a'', lk_ExpiresAt = 130, lk_CreatedAt = 100\<rparr>],
      lw_clients := [\<lparr>cl_lock = lock_a\<lparr>dl_acquired := True\<rparr>, cl_until = 130\<rparr>, \<lparr>cl_lock = lock_b, cl_until = 0\<rparr>]\<rparr>"

lemmas lock_sample_defs = lock_a_def lock_b_def world_ab_def world_held_def

lemma world_held_reached: "(lock_step 5)\<^sup>*\<^sup>* world_ab world_held"
proof -
  have "TryLock None None (lw_clock world_ab) (cl_lock (lw_clients world_ab ! 0)) (lw_rows world_ab) = (Inr True, lock_a\<lparr>dl_acquired := True\<rparr>, lw_rows world_held)"
    by (simp add: lock_sample_defs TryLock_def TryAcquireLock_def lock_row_def cleanupExpiredLock_def CleanupExpiredLockByKey_def)
  from TryLock_steps [OF _ refl _ _ this] show ?thesis
    by (simp add: lock_sample_defs)
qed

theorem lease_exclusive_witness:
  "relies 10 103 (lw_clients world_held ! 0) \<and> \<not> relies 10 97 (lw_clients world_held ! 1)"
proof -
  have a: "relies 10 103 (lw_clients world_held ! 0)" by (simp add: lock_sample_defs relies_def)
  moreover have "\<not> (relies (2 * 5) 103 (lw_clients world_held ! 0) \<and> relies (2 * 5) 97 (lw_clients world_held ! 1))"
    by (rule lease_exclusive [OF _ _ _ world_held_reached]) (simp_all add: lock_sample_defs)
  ultimately show ?thesis by simp
qed

text \<open>
  The margin is needed: a client whose clock is 40 ahead deletes a row that is live for its holder, and
  both clients have acquired the lock before the expiry each of them wrote.
\<close>

lemma fast_clock_steals:
  "\<exists>l' rows'. TryLock None None 140 lock_b (lw_rows world_held) = (Inr True, l', rows') \<and> dl_acquired l' \<and>
     relies 0 100 (lw_clients world_held ! 0)"
  by (simp add: lock_sample_defs relies_def TryLock_def TryAcquireLock_def lock_row_def cleanupExpiredLock_def CleanupExpiredLockByKey_def Let_def)

text \<open>The second client waits while the first one's row is live; the row has expired by the third attempt.\<close>

definition env_ab :: LockEnv where
  "env_ab = \<lparr>env_time = (\<lambda>i. 120 + 10 * int i), env_cleanFault = (\<lambda>_. None), env_acquireFault = (\<lambda>_. None),
     env_done = (\<lambda>_. None), env_waitDone = (\<lambda>_. None), env_others = (\<lambda>_ rows. filter (\<lambda>r. lk_ExpiresAt r < 140) rows)\<rparr>"

theorem lock_acquires_when_free_witness:
  "(\<exists>l' rows' waits. Lock env_ab lock_b (lw_rows world_held) = (None, l', rows', waits) \<and> dl_acquired l' \<and>
     (\<exists>r \<in> set rows'. lk_LockKey r = ''migrate'' \<and> lk_HolderID r = ''b'')) \<and>
   (\<exists>l' rows' waits. Lock env_ab lock_a [] = (None, l', rows', waits) \<and> dl_acquired l' \<and>
     (\<exists>r \<in> set rows'. lk_LockKey r = ''migrate'' \<and> lk_HolderID r = ''a''))"
  using lock_acquires_when_free [of lock_b 2 env_ab "lw_rows world_held"] lock_acquires_when_free [of lock_a 0 env_ab "[]"]
  by (simp add: lock_sample_defs env_ab_def)

text \<open>While the other client keeps the row alive, the second one gives up after all its waits.\<close>

definition env_busy :: LockEnv where
  "env_busy = env_ab\<lparr>env_time := (\<lambda>_. 120), env_others := (\<lambda>_ rows. rows)\<rparr>"

theorem lock_wait_bounded_witness:
  "fst (LockWithRetry env_busy 2 lock_b (lw_rows world_held)) = Some ErrLockNotAcquired \<and>
   length (snd (snd (snd (LockWithRetry env_busy 2 lock_b (lw_rows world_held))))) = 2"
proof -
  have run: "LockWithRetry env_busy 2 lock_b (lw_rows world_held) =
      (Some ErrLockNotAcquired, lock_b, lw_rows world_held, [1000000000, 2000000000])"
    by (simp add: LockWithRetry_def lock_loop.simps env_busy_def env_ab_def lock_sample_defs TryLock_def TryAcquireLock_def
        lock_row_def cleanupExpiredLock_def CleanupExpiredLockByKey_def Let_def backoff_def)
  have "dl_store lock_b" by (simp add: lock_sample_defs)
  from lock_wait_bounded [OF this run] show ?thesis by (simp add: run)
qed

end
