(* ===== verification/McpTools.thy ===== *)
theory McpTools
  imports GuardTypes
begin

text \<open>
  The tools of the gateway's MCP clients: \<^verbatim>\<open>core/mcp/utils.go\<close>, \<^verbatim>\<open>toolmanager.go\<close>, \<^verbatim>\<open>parallel_registry.go\<close> and
  \<^verbatim>\<open>parallel_classifier.go\<close>.  Which tools a request may see, which the agent may run without asking, which of
  them may run side by side, and the execution of one call.

  A map that is walked is an association list in the order of the walk.  A client in the map always has
  a configuration.  JSON decoding and the call of an MCP server are parameters.
\<close>

section \<open>Clients and their filters\<close>

record MCPClientConfig =
  mc_ID :: string
  mc_Name :: string
  mc_IsCodeModeClient :: bool
  mc_ToolsToExecute :: "string list option"
  mc_ToolsToAutoExecute :: "string list option"

text \<open>A tool: the name of its function, if it has one, and the rest of its schema.\<close>

record ChatTool =
  ct_Function :: "string option"
  ct_Schema :: string

record MCPClientState =
  cs_ExecutionConfig :: MCPClientConfig
  cs_ToolMap :: "(string \<times> ChatTool) list"
  cs_ToolNameMapping :: "(string \<times> string) list"

text \<open>The two filters of a request; \<open>None\<close> where the context has none.\<close>

record McpCtx =
  mx_IncludeClients :: "string list option"
  mx_IncludeTools :: "string list option"

definition stripClientPrefix :: "string \<Rightarrow> string \<Rightarrow> string" where
  "stripClientPrefix prefixedToolName clientName =
     (let prefix = clientName @ ''-'' in
      if HasPrefix prefixedToolName prefix then drop (length prefix) prefixedToolName else prefixedToolName)"

definition shouldIncludeClient :: "string \<Rightarrow> string list option \<Rightarrow> bool" where
  "shouldIncludeClient clientName includeClients =
     (case includeClients of
        None \<Rightarrow> True
      | Some cs \<Rightarrow> if cs = [] then False else if ''*'' \<in> set cs then True else clientName \<in> set cs)"

definition shouldSkipToolForConfig :: "string \<Rightarrow> MCPClientConfig option \<Rightarrow> bool" where
  "shouldSkipToolForConfig toolName config =
     (case config of
        None \<Rightarrow> True
      | Some c \<Rightarrow>
          (case mc_ToolsToExecute c of
             None \<Rightarrow> True
           | Some ts \<Rightarrow>
               if ts = [] then True
               else if ''*'' \<in> set ts then False
               else stripClientPrefix toolName (mc_Name c) \<notin> set ts))"

definition canAutoExecuteTool :: "string \<Rightarrow> MCPClientConfig option \<Rightarrow> bool" where
  "canAutoExecuteTool toolName config =
     (if shouldSkipToolForConfig toolName config then False
      else
        (case config of
           None \<Rightarrow> False
         | Some c \<Rightarrow>
             (case mc_ToolsToAutoExecute c of
                None \<Rightarrow> False
              | Some ts \<Rightarrow>
                  if ts = [] then False
                  else if ''*'' \<in> set ts then True
                  else stripClientPrefix toolName (mc_Name c) \<in> set ts)))"

definition shouldSkipToolForRequest :: "McpCtx \<Rightarrow> string \<Rightarrow> string \<Rightarrow> bool" where
  "shouldSkipToolForRequest ctx clientName toolName =
     (case mx_IncludeTools ctx of
        None \<Rightarrow> False
      | Some ts \<Rightarrow>
          if ts = [] then True
          else if clientName @ ''-*'' \<in> set ts then False
          else toolName \<notin> set ts)"

definition GetClientForTool :: "MCPClientState list \<Rightarrow> string \<Rightarrow> MCPClientState option" where
  "GetClientForTool clients toolName = List.find (\<lambda>c. toolName \<in> fst ` set (cs_ToolMap c)) clients"

definition GetClientByName :: "MCPClientState list \<Rightarrow> string \<Rightarrow> MCPClientState option" where
  "GetClientByName clients clientName = List.find (\<lambda>c. mc_Name (cs_ExecutionConfig c) = clientName) clients"

text \<open>\<open>tools[name] = append(tools[name], tool)\<close>.\<close>

fun append_tool :: "string \<Rightarrow> ChatTool \<Rightarrow> (string \<times> ChatTool list) list \<Rightarrow> (string \<times> ChatTool list) list" where
  "append_tool name tool [] = [(name, [tool])]"
| "append_tool name tool ((n, ts) # rest) = (if n = name then (n, ts @ [tool]) # rest else (n, ts) # append_tool name tool rest)"

definition client_tools :: "McpCtx \<Rightarrow> MCPClientState \<Rightarrow> (string \<times> ChatTool list) list \<Rightarrow> (string \<times> ChatTool list) list" where
  "client_tools ctx client acc =
     (let config = cs_ExecutionConfig client in
      if \<not> shouldIncludeClient (mc_Name config) (mx_IncludeClients ctx) then acc
      else fold (\<lambda>(toolName, tool) acc.
             if shouldSkipToolForConfig toolName (Some config) then acc
             else if shouldSkipToolForRequest ctx (mc_Name config) toolName then acc
             else append_tool (mc_Name config) tool acc) (cs_ToolMap client) acc)"

definition GetToolPerClient :: "McpCtx \<Rightarrow> MCPClientState list \<Rightarrow> (string \<times> ChatTool list) list" where
  "GetToolPerClient ctx clients = fold (client_tools ctx) clients []"

definition isToolPermittedForExecution :: "McpCtx \<Rightarrow> MCPClientState option \<Rightarrow> string \<Rightarrow> bool" where
  "isToolPermittedForExecution ctx client toolName =
     (case client of
        None \<Rightarrow> False
      | Some c \<Rightarrow>
          if toolName \<notin> fst ` set (cs_ToolMap c) then False
          else if \<not> shouldIncludeClient (mc_Name (cs_ExecutionConfig c)) (mx_IncludeClients ctx) then False
          else if shouldSkipToolForConfig toolName (Some (cs_ExecutionConfig c)) then False
          else if shouldSkipToolForRequest ctx (mc_Name (cs_ExecutionConfig c)) toolName then False
          else True)"

section \<open>Names\<close>

definition ValidateMCPClientName :: "string \<Rightarrow> string option" where
  "ValidateMCPClientName name =
     (if TrimSpace name = [] then Some ''name is required for MCP client''
      else if list_ex (\<lambda>c. (127 :: nat) < of_char c) name then Some ''name must contain only ASCII characters''
      else if CHR ''-'' \<in> set name then Some ''name cannot contain hyphens''
      else if CHR '' '' \<in> set name then Some ''name cannot contain spaces''
      else if byte_between CHR ''0'' CHR ''9'' (hd name) then Some ''name cannot start with a number''
      else None)"

definition is_letter :: "byte \<Rightarrow> bool" where
  "is_letter c \<longleftrightarrow> byte_between CHR ''a'' CHR ''z'' c \<or> byte_between CHR ''A'' CHR ''Z'' c"

text \<open>\<open>parseToolName\<close> on ASCII names; the text built so far is kept in reverse.\<close>

definition parse_first :: "byte \<Rightarrow> string" where
  "parse_first c =
     (if is_letter c \<or> c = CHR ''_'' \<or> c = CHR ''$'' then [lower_byte c]
      else if is_digit c then [c, CHR ''_''] else [CHR ''_''])"

fun parse_rest :: "string \<Rightarrow> string \<Rightarrow> string" where
  "parse_rest [] out = out"
| "parse_rest (r # rs) out =
     parse_rest rs
       (if is_letter r \<or> is_digit r \<or> r = CHR ''_'' \<or> r = CHR ''$'' then lower_byte r # out
        else if is_space r \<or> r = CHR ''-''
        then (case out of [] \<Rightarrow> out | c # cs \<Rightarrow> if c \<noteq> CHR ''_'' then CHR ''_'' # out else out)
        else out)"

definition parseToolName :: "string \<Rightarrow> string" where
  "parseToolName toolName =
     (case toolName of
        [] \<Rightarrow> []
      | first # rest \<Rightarrow>
          (let parsed = rev (dropWhile (\<lambda>c. c = CHR ''_'') (parse_rest rest (parse_first first)))
           in if parsed = [] then ''tool'' else parsed))"

definition validateNormalizedToolName :: "string \<Rightarrow> string option" where
  "validateNormalizedToolName normalizedName =
     (if normalizedName = [] then Some ''tool name cannot be empty after normalization''
      else if CHR ''/'' \<in> set normalizedName
      then Some (''tool name cannot contain '' @ [CHR 0x27] @ ''/'' @ [CHR 0x27] @ '' (path separator) after normalization: '' @ normalizedName)
      else if Contains normalizedName ''..''
      then Some (''tool name cannot contain '' @ [CHR 0x27] @ ''..'' @ [CHR 0x27] @ '' (path traversal) after normalization: '' @ normalizedName)
      else None)"

definition getOriginalToolName :: "string \<Rightarrow> MCPClientState option \<Rightarrow> string" where
  "getOriginalToolName sanitizedToolName client =
     (case client of
        None \<Rightarrow> sanitizedToolName
      | Some c \<Rightarrow> (case map_of (cs_ToolNameMapping c) sanitizedToolName of Some n \<Rightarrow> n | None \<Rightarrow> sanitizedToolName))"

text \<open>\<open>strings.ReplaceAll(name, "-", "_")\<close>.\<close>

definition underscores :: "string \<Rightarrow> string" where
  "underscores s = map (\<lambda>c. if c = CHR ''-'' then CHR ''_'' else c) s"

section \<open>Tool calls in code\<close>

text \<open>
  \<open>extractToolCallsFromCode\<close> collects the leftmost matches of the pattern: an optional \<open>await\<close> with spaces,
  an identifier, a dot, an identifier and an opening parenthesis, with spaces in between.
\<close>

definition ident_start :: "byte \<Rightarrow> bool" where
  "ident_start c \<longleftrightarrow> is_letter c \<or> c = CHR ''_'' \<or> c = CHR ''$''"

definition ident_char :: "byte \<Rightarrow> bool" where
  "ident_char c \<longleftrightarrow> ident_start c \<or> is_digit c"

definition match_ident :: "string \<Rightarrow> (string \<times> string) option" where
  "match_ident s =
     (case s of
        [] \<Rightarrow> None
      | c # cs \<Rightarrow> if ident_start c then Some (c # takeWhile ident_char cs, dropWhile ident_char cs) else None)"

definition match_byte :: "byte \<Rightarrow> string \<Rightarrow> string option" where
  "match_byte b s = (case dropWhile re_space s of c # cs \<Rightarrow> if c = b then Some cs else None | [] \<Rightarrow> None)"

definition match_call :: "string \<Rightarrow> ((string \<times> string) \<times> string) option" where
  "match_call s =
     (case match_ident s of
        None \<Rightarrow> None
      | Some (serverName, s1) \<Rightarrow>
          (case match_byte CHR ''.'' s1 of
             None \<Rightarrow> None
           | Some s2 \<Rightarrow>
               (case match_ident (dropWhile re_space s2) of
                  None \<Rightarrow> None
                | Some (toolName, s3) \<Rightarrow>
                    (case match_byte CHR ''('' s3 of None \<Rightarrow> None | Some s4 \<Rightarrow> Some ((serverName, toolName), s4)))))"

definition match_at :: "string \<Rightarrow> ((string \<times> string) \<times> string) option" where
  "match_at s =
     (let awaited = (if HasPrefix s ''await'' \<and> drop 5 s \<noteq> [] \<and> re_space (hd (drop 5 s))
                     then match_call (dropWhile re_space (drop 5 s)) else None)
      in case awaited of Some m \<Rightarrow> Some m | None \<Rightarrow> match_call s)"

lemma dropWhile_shorter: "length (dropWhile P s) \<le> length s"
  by (rule length_dropWhile_le)

lemma match_ident_shorter: "match_ident s = Some (w, s') \<Longrightarrow> length s' < length s"
  by (cases s) (auto simp: match_ident_def less_Suc_eq_le dropWhile_shorter split: if_splits)

lemma match_byte_shorter: "match_byte b s = Some s' \<Longrightarrow> length s' < length s"
proof -
  assume a: "match_byte b s = Some s'"
  then obtain c where "dropWhile re_space s = c # s'" by (auto simp: match_byte_def split: list.splits if_splits)
  then show ?thesis using dropWhile_shorter [of re_space s] by simp
qed

lemma match_call_shorter: "match_call s = Some (m, s') \<Longrightarrow> length s' < length s"
  by (auto simp: match_call_def split: option.splits dest!: match_ident_shorter match_byte_shorter)
    (use dropWhile_shorter in \<open>meson le_less_trans less_imp_le_nat less_trans le_trans\<close>)

lemma match_at_shorter: "match_at s = Some (m, s') \<Longrightarrow> length s' < length s"
proof -
  assume "match_at s = Some (m, s')"
  then consider "match_call (dropWhile re_space (drop 5 s)) = Some (m, s')" | "match_call s = Some (m, s')"
    by (auto simp: match_at_def Let_def split: option.splits if_splits)
  then show ?thesis
  proof cases
    case 1
    have "length (dropWhile re_space (drop 5 s)) \<le> length s" using dropWhile_shorter [of re_space "drop 5 s"] by simp
    then show ?thesis using match_call_shorter [OF 1] by simp
  qed (rule match_call_shorter)
qed

function extractToolCallsFromCode :: "string \<Rightarrow> (string \<times> string) list" where
  "extractToolCallsFromCode code =
     (case code of
        [] \<Rightarrow> []
      | c # cs \<Rightarrow> (case match_at code of Some (m, rest) \<Rightarrow> m # extractToolCallsFromCode rest | None \<Rightarrow> extractToolCallsFromCode cs))"
  by pat_completeness auto
termination
  by (relation "measure length") (auto dest: match_at_shorter)

declare extractToolCallsFromCode.simps [simp del]

text \<open>A backslash followed by \<open>n\<close> becomes a line feed.\<close>

fun real_newlines :: "string \<Rightarrow> string" where
  "real_newlines (a # b # cs) =
     (if of_char a = (92 :: nat) \<and> b = CHR ''n'' then char_of (10 :: nat) # real_newlines cs else a # real_newlines (b # cs))"
| "real_newlines cs = cs"

definition isToolCallAllowedForCodeMode :: "string \<Rightarrow> string \<Rightarrow> string list \<Rightarrow> (string \<times> string list) list \<Rightarrow> bool" where
  "isToolCallAllowedForCodeMode serverName toolName allClientNames allowedAutoExecutionTools =
     (if serverName \<notin> set allClientNames then True
      else
        (case map_of allowedAutoExecutionTools serverName of
           None \<Rightarrow> False
         | Some allowedTools \<Rightarrow>
             if ''*'' \<in> set allowedTools then True else toolName \<in> set allowedTools))"

definition code_tool_names :: "string list \<Rightarrow> string list" where
  "code_tool_names toolsToAutoExecute = map (\<lambda>n. if n = ''*'' then ''*'' else parseToolName (underscores n)) toolsToAutoExecute"

definition buildAllowedAutoExecutionTools :: "McpCtx \<Rightarrow> MCPClientState list \<Rightarrow> string list \<times> (string \<times> string list) list" where
  "buildAllowedAutoExecutionTools ctx clients =
     fold (\<lambda>clientName (names, allowed).
        case GetClientByName clients clientName of
          None \<Rightarrow> (names, allowed)
        | Some client \<Rightarrow>
            (names @ [clientName],
             if \<not> mc_IsCodeModeClient (cs_ExecutionConfig client) then allowed
             else
               (case mc_ToolsToAutoExecute (cs_ExecutionConfig client) of
                  None \<Rightarrow> allowed
                | Some ts \<Rightarrow> if ts = [] then allowed else allowed @ [(clientName, code_tool_names ts)])))
       (map fst (GetToolPerClient ctx clients)) ([], [])"

section \<open>Messages\<close>

record ChatAssistantMessageToolCall =
  tc_Index :: nat
  tc_Type :: "string option"
  tc_ID :: "string option"
  tc_Name :: "string option"
  tc_Arguments :: string

text \<open>Of a content block only its kind and its text are read.\<close>

record ChatContentBlock =
  cb_Type :: string
  cb_Text :: "string option"

record ChatMessageContent =
  ctn_ContentStr :: "string option"
  ctn_ContentBlocks :: "ChatContentBlock list option"

record ChatToolMessage =
  tm_ToolCallID :: "string option"

text \<open>An assistant message; refusal, audio, reasoning and annotations are only copied and left out.\<close>

record ChatAssistantMessage =
  am_ToolCalls :: "ChatAssistantMessageToolCall list"

record ChatMessage =
  msg_Name :: "string option"
  msg_Role :: string
  msg_Content :: "ChatMessageContent option"
  msg_ToolMessage :: "ChatToolMessage option"
  msg_AssistantMessage :: "ChatAssistantMessage option"

definition createToolResponseMessage :: "ChatAssistantMessageToolCall \<Rightarrow> string \<Rightarrow> ChatMessage" where
  "createToolResponseMessage toolCall content =
     \<lparr>msg_Name = None, msg_Role = ''tool'', msg_Content = Some \<lparr>ctn_ContentStr = Some content, ctn_ContentBlocks = None\<rparr>,
      msg_ToolMessage = Some \<lparr>tm_ToolCallID = tc_ID toolCall\<rparr>, msg_AssistantMessage = None\<rparr>"

section \<open>Executing one call\<close>

datatype ToolError =
    ClientNotFound string
  | ToolNotPermitted string
  | ArgumentsInvalid string string
  | ToolTimedOut int string
  | ToolCallFailed string
  | CodeModeError string

text \<open>The content of a result; content of another kind is its JSON text, when it has one, and the string under
  \<open>text\<close> in it, when there is one.\<close>

datatype McpContent =
    TextContent string
  | ImageContent string string
  | AudioContent string string
  | EmbeddedResource string
  | OtherContent "string option" "string option"

definition content_text :: "McpContent \<Rightarrow> string" where
  "content_text content =
     (let nl = [char_of (10 :: nat)] in
      case content of
        TextContent t \<Rightarrow> t
      | ImageContent d m \<Rightarrow> ''[Image Response: '' @ d @ '', MIME: '' @ m @ '']'' @ nl
      | AudioContent d m \<Rightarrow> ''[Audio Response: '' @ d @ '', MIME: '' @ m @ '']'' @ nl
      | EmbeddedResource t \<Rightarrow> ''[Embedded Resource Response: '' @ t @ '']'' @ nl
      | OtherContent js t \<Rightarrow>
          (case js of
             None \<Rightarrow> []
           | Some j \<Rightarrow> (case t of Some x \<Rightarrow> ''[Text Response: '' @ x @ '']'' @ nl | None \<Rightarrow> j)))"

definition extractTextFromMCPResponse :: "McpContent list option \<Rightarrow> string \<Rightarrow> string" where
  "extractTextFromMCPResponse toolResponse toolName =
     (let done = ''MCP tool '' @ [CHR 0x27] @ toolName @ [CHR 0x27] @ '' executed successfully'' in
      case toolResponse of
        None \<Rightarrow> done
      | Some contents \<Rightarrow>
          (let result = concat (map content_text contents) in if result \<noteq> [] then TrimSpace result else done))"

text \<open>The code mode, if one is set: the names it serves and its executor.  \<open>callTool\<close> is the remote call; it
  fails with a flag for the deadline and a text.\<close>

record ToolsManager =
  tmgr_codeMode :: "((string \<Rightarrow> bool) \<times> (ChatAssistantMessageToolCall \<Rightarrow> string + ChatMessage)) option"
  tmgr_toolExecutionTimeout :: int
  tmgr_unmarshal :: "string \<Rightarrow> string + gomap"
  tmgr_callTool :: "MCPClientState \<Rightarrow> string \<Rightarrow> gomap \<Rightarrow> (bool \<times> string) + McpContent list option"

definition executeToolInternal ::
  "ToolsManager \<Rightarrow> McpCtx \<Rightarrow> MCPClientState list \<Rightarrow> ChatAssistantMessageToolCall \<Rightarrow> string \<Rightarrow> ToolError + ChatMessage \<times> string \<times> string" where
  "executeToolInternal m ctx clients toolCall toolName =
     (let regular =
        (case GetClientForTool clients toolName of
           None \<Rightarrow> Inl (ClientNotFound toolName)
         | Some client \<Rightarrow>
             if \<not> isToolPermittedForExecution ctx (Some client) toolName then Inl (ToolNotPermitted toolName)
             else
               (case (if TrimSpace (tc_Arguments toolCall) = [] then Inr [] else tmgr_unmarshal m (tc_Arguments toolCall)) of
                  Inl err \<Rightarrow> Inl (ArgumentsInvalid toolName err)
                | Inr arguments \<Rightarrow>
                    (let sanitizedToolName = stripClientPrefix toolName (mc_Name (cs_ExecutionConfig client));
                         originalMCPToolName = getOriginalToolName sanitizedToolName (Some client)
                     in case tmgr_callTool m client originalMCPToolName arguments of
                          Inl (deadline, err) \<Rightarrow> Inl (if deadline then ToolTimedOut (tmgr_toolExecutionTimeout m) toolName else ToolCallFailed err)
                        | Inr toolResponse \<Rightarrow>
                            Inr (createToolResponseMessage toolCall (extractTextFromMCPResponse toolResponse toolName),
                                 mc_Name (cs_ExecutionConfig client), sanitizedToolName))))
      in case tmgr_codeMode m of
           Some (isCodeModeTool, execute) \<Rightarrow>
             if isCodeModeTool toolName
             then (case execute toolCall of Inl err \<Rightarrow> Inl (CodeModeError err) | Inr msg \<Rightarrow> Inr (msg, [], toolName))
             else regular
         | None \<Rightarrow> regular)"

section \<open>The tools offered to a model\<close>

definition add_tool :: "ChatTool \<Rightarrow> ChatTool list \<times> string list \<Rightarrow> ChatTool list \<times> string list" where
  "add_tool tool acc =
     (case ct_Function tool of
        None \<Rightarrow> acc
      | Some name \<Rightarrow> if name = [] \<or> name \<in> set (snd acc) then acc else (fst acc @ [tool], name # snd acc))"

definition GetAvailableTools :: "ChatTool list option \<Rightarrow> McpCtx \<Rightarrow> MCPClientState list \<Rightarrow> ChatTool list" where
  "GetAvailableTools codeModeTools ctx clients =
     (let (available, includeCodeModeTools) =
        fold (\<lambda>(clientName, clientTools) (acc, code).
            case GetClientByName clients clientName of
              None \<Rightarrow> (acc, code)
            | Some client \<Rightarrow>
                if mc_IsCodeModeClient (cs_ExecutionConfig client) then (acc, True) else (fold add_tool clientTools acc, code))
          (GetToolPerClient ctx clients) (([], []), False)
      in fst (case codeModeTools of
                Some tools \<Rightarrow> if includeCodeModeTools then fold add_tool tools available else available
              | None \<Rightarrow> available))"

section \<open>Which calls may run side by side\<close>

record ParallelToolConfig =
  pc_Enabled :: bool
  pc_DefaultSafe :: bool
  pc_Safety :: "(string \<times> bool) list"
  pc_HeuristicArgs :: bool

text \<open>The global configuration: what was stored last, with trimmed names, or the default.\<close>

definition SetGlobalParallelToolConfig :: "ParallelToolConfig \<Rightarrow> ParallelToolConfig option" where
  "SetGlobalParallelToolConfig cfg = Some (cfg\<lparr>pc_Safety := rev (map (\<lambda>(k, v). (TrimSpace k, v)) (pc_Safety cfg))\<rparr>)"

definition effectiveParallelToolConfig :: "ParallelToolConfig option \<Rightarrow> ParallelToolConfig" where
  "effectiveParallelToolConfig g =
     (case g of
        Some cfg \<Rightarrow> cfg
      | None \<Rightarrow> \<lparr>pc_Enabled = False, pc_DefaultSafe = True, pc_Safety = [], pc_HeuristicArgs = False\<rparr>)"

definition isToolSafeForParallel :: "ParallelToolConfig \<Rightarrow> string \<Rightarrow> bool \<times> bool" where
  "isToolSafeForParallel cfg toolName =
     (let name = TrimSpace toolName in
      if name = [] then (pc_DefaultSafe cfg, False)
      else
        (case map_of (pc_Safety cfg) name of
           Some v \<Rightarrow> (v, True)
         | None \<Rightarrow>
             (case index_byte name CHR ''-'' of
                Some dash \<Rightarrow>
                  if 0 < dash
                  then (case map_of (pc_Safety cfg) (take dash name @ ''-*'') of Some v \<Rightarrow> (v, True) | None \<Rightarrow> (pc_DefaultSafe cfg, False))
                  else (pc_DefaultSafe cfg, False)
              | None \<Rightarrow> (pc_DefaultSafe cfg, False))))"

record classifiedToolCalls =
  cl_all :: "ChatAssistantMessageToolCall list"
  cl_parallel :: "ChatAssistantMessageToolCall list"
  cl_sequential :: "ChatAssistantMessageToolCall list"
  cl_unknownSerialized :: nat

definition toolNameOrEmpty :: "string option \<Rightarrow> string" where
  "toolNameOrEmpty name = (case name of None \<Rightarrow> [] | Some n \<Rightarrow> n)"

definition extractArgKeys :: "(string \<Rightarrow> string + gomap) \<Rightarrow> string \<Rightarrow> string list" where
  "extractArgKeys unmarshal arguments =
     (let s = TrimSpace arguments in
      if s = [] then [] else (case unmarshal s of Inl err \<Rightarrow> [] | Inr m \<Rightarrow> map fst m))"

text \<open>Phase 1, the registry; phase 2, the argument names.\<close>

definition registry_phase :: "ParallelToolConfig \<Rightarrow> ChatAssistantMessageToolCall \<Rightarrow> classifiedToolCalls \<Rightarrow> classifiedToolCalls" where
  "registry_phase cfg tc r =
     (let (safe, known) = isToolSafeForParallel cfg (toolNameOrEmpty (tc_Name tc));
          r1 = (if known then r else r\<lparr>cl_unknownSerialized := Suc (cl_unknownSerialized r)\<rparr>)
      in if safe then r1\<lparr>cl_parallel := cl_parallel r1 @ [tc]\<rparr> else r1\<lparr>cl_sequential := cl_sequential r1 @ [tc]\<rparr>)"

fun argument_phase ::
  "(string \<Rightarrow> string + gomap) \<Rightarrow> string list \<Rightarrow> ChatAssistantMessageToolCall list \<Rightarrow>
   ChatAssistantMessageToolCall list \<times> ChatAssistantMessageToolCall list" where
  "argument_phase unmarshal seen [] = ([], [])"
| "argument_phase unmarshal seen (tc # tcs) =
     (let args = extractArgKeys unmarshal (tc_Arguments tc) in
      if list_ex (\<lambda>key. key \<in> set seen) args
      then (case argument_phase unmarshal seen tcs of (newParallel, moved) \<Rightarrow> (newParallel, tc # moved))
      else (case argument_phase unmarshal (args @ seen) tcs of (newParallel, moved) \<Rightarrow> (tc # newParallel, moved)))"

definition classifyToolCallsForParallel ::
  "(string \<Rightarrow> string + gomap) \<Rightarrow> ParallelToolConfig \<Rightarrow> ChatAssistantMessageToolCall list \<Rightarrow> classifiedToolCalls" where
  "classifyToolCallsForParallel unmarshal cfg toolCalls =
     (let result = \<lparr>cl_all = toolCalls, cl_parallel = [], cl_sequential = [], cl_unknownSerialized = 0\<rparr> in
      if length toolCalls \<le> 1 then result\<lparr>cl_parallel := toolCalls\<rparr>
      else
        (let r1 = fold (registry_phase cfg) toolCalls result in
         if pc_HeuristicArgs cfg \<and> 2 \<le> length (cl_parallel r1)
         then (case argument_phase unmarshal [] (cl_parallel r1) of
                 (newParallel, moved) \<Rightarrow> r1\<lparr>cl_parallel := newParallel, cl_sequential := cl_sequential r1 @ moved\<rparr>)
         else r1))"

fun indexOf :: "ChatAssistantMessageToolCall list \<Rightarrow> ChatAssistantMessageToolCall \<Rightarrow> nat option" where
  "indexOf [] target = None"
| "indexOf (tc # tcs) target =
     (if tc_ID tc = tc_ID target \<and> tc_Name tc = tc_Name target then Some 0 else map_option Suc (indexOf tcs target))"

section \<open>The split is a partition\<close>

abbreviation arg_keys :: "(string \<Rightarrow> string + gomap) \<Rightarrow> ChatAssistantMessageToolCall \<Rightarrow> string set" where
  "arg_keys unmarshal tc \<equiv> set (extractArgKeys unmarshal (tc_Arguments tc))"

definition tagged_safe :: "ParallelToolConfig \<Rightarrow> ChatAssistantMessageToolCall \<Rightarrow> bool" where
  "tagged_safe cfg tc \<longleftrightarrow> fst (isToolSafeForParallel cfg (toolNameOrEmpty (tc_Name tc)))"

lemma registry_phase_spec:
  "cl_parallel (fold (registry_phase cfg) tcs r) = cl_parallel r @ filter (tagged_safe cfg) tcs \<and>
   cl_sequential (fold (registry_phase cfg) tcs r) = cl_sequential r @ filter (\<lambda>tc. \<not> tagged_safe cfg tc) tcs \<and>
   cl_all (fold (registry_phase cfg) tcs r) = cl_all r"
proof (induction tcs arbitrary: r)
  case (Cons tc tcs)
  from Cons.IH [of "registry_phase cfg tc r"] show ?case
    by (cases "isToolSafeForParallel cfg (toolNameOrEmpty (tc_Name tc))") (auto simp: registry_phase_def tagged_safe_def Let_def)
qed auto

lemma argument_phase_spec:
  assumes "argument_phase unmarshal seen tcs = (par, moved)"
  shows "mset par + mset moved = mset tcs"
    and "tc \<in> set par \<Longrightarrow> arg_keys unmarshal tc \<inter> set seen = {}"
    and "sorted_wrt (\<lambda>a b. arg_keys unmarshal a \<inter> arg_keys unmarshal b = {}) par"
    and "tc \<in> set moved \<Longrightarrow> arg_keys unmarshal tc \<inter> (set seen \<union> (\<Union>p \<in> set par. arg_keys unmarshal p)) \<noteq> {}"
  using assms
proof (induction tcs arbitrary: seen par moved tc)
  case (Cons t tcs)
  let ?keys = "extractArgKeys unmarshal (tc_Arguments t)"
  { case 1 then show ?case using Cons.IH(1) by (auto simp: Let_def split: if_splits prod.splits) }
  { case 2
    then show ?case using Cons.IH(2) by (fastforce simp: Let_def list_ex_iff split: if_splits prod.splits) }
  { case 3
    show ?case
    proof (cases "list_ex (\<lambda>key. key \<in> set seen) ?keys")
      case True
      then show ?thesis using 3 Cons.IH(3) by (auto simp: Let_def split: prod.splits)
    next
      case False
      then obtain par' where par: "par = t # par'" "argument_phase unmarshal (?keys @ seen) tcs = (par', moved)"
        using 3 by (auto simp: Let_def split: prod.splits)
      have "arg_keys unmarshal t \<inter> arg_keys unmarshal p = {}" if "p \<in> set par'" for p
        using Cons.IH(2) [OF that par(2)] by auto
      then show ?thesis using Cons.IH(3) [OF par(2)] by (simp add: par(1))
    qed }
  { case 4
    show ?case
    proof (cases "list_ex (\<lambda>key. key \<in> set seen) ?keys")
      case True
      then obtain moved' where m: "moved = t # moved'" "argument_phase unmarshal seen tcs = (par, moved')"
        using 4(2) by (auto simp: Let_def split: prod.splits)
      then show ?thesis using True 4(1) Cons.IH(4) [OF _ m(2)] by (fastforce simp: list_ex_iff)
    next
      case False
      then obtain par' where par: "par = t # par'" "argument_phase unmarshal (?keys @ seen) tcs = (par', moved)"
        using 4(2) by (auto simp: Let_def split: prod.splits)
      then show ?thesis using Cons.IH(4) [OF 4(1) par(2)] by auto
    qed }
qed simp_all

lemma classified_split:
  assumes "2 \<le> length toolCalls" "classifyToolCallsForParallel unmarshal cfg toolCalls = c"
  shows "mset (cl_parallel c) + mset (cl_sequential c) = mset toolCalls \<and>
    list_all (tagged_safe cfg) (cl_parallel c) \<and>
    (pc_HeuristicArgs cfg \<longrightarrow> sorted_wrt (\<lambda>a b. arg_keys unmarshal a \<inter> arg_keys unmarshal b = {}) (cl_parallel c)) \<and>
    list_all (\<lambda>tc. \<not> tagged_safe cfg tc \<or>
        pc_HeuristicArgs cfg \<and> list_ex (\<lambda>p. arg_keys unmarshal tc \<inter> arg_keys unmarshal p \<noteq> {}) (cl_parallel c)) (cl_sequential c)"
proof -
  define r where "r = fold (registry_phase cfg) toolCalls \<lparr>cl_all = toolCalls, cl_parallel = [], cl_sequential = [], cl_unknownSerialized = 0\<rparr>"
  have r: "cl_parallel r = filter (tagged_safe cfg) toolCalls" "cl_sequential r = filter (\<lambda>tc. \<not> tagged_safe cfg tc) toolCalls"
    unfolding r_def using registry_phase_spec [of cfg toolCalls "\<lparr>cl_all = toolCalls, cl_parallel = [], cl_sequential = [], cl_unknownSerialized = 0\<rparr>"] by auto
  have split: "mset (cl_parallel r) + mset (cl_sequential r) = mset toolCalls" by (simp add: r)
  show ?thesis
  proof (cases "pc_HeuristicArgs cfg \<and> 2 \<le> length (cl_parallel r)")
    case True
    obtain par moved where ph: "argument_phase unmarshal [] (cl_parallel r) = (par, moved)" by fastforce
    have c: "cl_parallel c = par" "cl_sequential c = cl_sequential r @ moved"
      using assms True ph by (auto simp: classifyToolCallsForParallel_def Let_def r_def [symmetric])
    note spec = argument_phase_spec [OF ph]
    have "set par \<subseteq> set (cl_parallel r)" by (metis spec(1) mset_subset_eq_add_left set_mset_mono set_mset_mset)
    then have "list_all (tagged_safe cfg) par" by (auto simp: list_all_iff r)
    moreover have "list_ex (\<lambda>p. arg_keys unmarshal tc \<inter> arg_keys unmarshal p \<noteq> {}) par" if "tc \<in> set moved" for tc
      using spec(4) [OF that] by (auto simp: list_ex_iff)
    moreover have "mset par + mset (cl_sequential r @ moved) = mset toolCalls"
      unfolding split [symmetric] spec(1) [symmetric] by (simp add: ac_simps)
    ultimately show ?thesis using True spec(3) by (auto simp: c list_all_iff r)
  next
    case False
    then have "c = r" using assms by (auto simp: classifyToolCallsForParallel_def Let_def r_def [symmetric])
    moreover have "sorted_wrt Q xs" if "length xs < 2" for Q and xs :: "ChatAssistantMessageToolCall list"
      using that by (cases xs) auto
    ultimately show ?thesis using False split by (auto simp: r list_all_iff not_le)
  qed
qed

text \<open>
  The split of a batch of at least two calls loses and repeats nothing; only calls the registry marks as
  safe run side by side, with the heuristic no two of them share an argument name, and a call is only
  put into the sequential part when it is not marked as safe or shares a name with one that is not.
\<close>

theorem parallel_split_exact:
  assumes "2 \<le> length toolCalls" "classifyToolCallsForParallel unmarshal cfg toolCalls = c"
  shows "mset (cl_parallel c) + mset (cl_sequential c) = mset toolCalls \<and>
    list_all (tagged_safe cfg) (cl_parallel c) \<and>
    (pc_HeuristicArgs cfg \<longrightarrow> sorted_wrt (\<lambda>a b. arg_keys unmarshal a \<inter> arg_keys unmarshal b = {}) (cl_parallel c)) \<and>
    list_all (\<lambda>tc. \<not> tagged_safe cfg tc \<or>
        pc_HeuristicArgs cfg \<and> list_ex (\<lambda>p. arg_keys unmarshal tc \<inter> arg_keys unmarshal p \<noteq> {}) (cl_parallel c)) (cl_sequential c)"
  using assms by (rule classified_split)

lemma classified_mset:
  assumes "2 \<le> length toolCalls" "classifyToolCallsForParallel unmarshal cfg toolCalls = c"
  shows "mset (cl_parallel c) + mset (cl_sequential c) = mset toolCalls"
  using classified_split [OF assms] by blast

definition call_of :: "string \<Rightarrow> string \<Rightarrow> string \<Rightarrow> ChatAssistantMessageToolCall" where
  "call_of i name args = \<lparr>tc_Index = 0, tc_Type = Some ''function'', tc_ID = Some i, tc_Name = Some name, tc_Arguments = args\<rparr>"

text \<open>Arguments with one key, the text itself.\<close>

definition one_key :: "string \<Rightarrow> string + gomap" where
  "one_key s = Inr [(s, VNil)]"

theorem parallel_split_exact_witness:
  "let cfg = \<lparr>pc_Enabled = True, pc_DefaultSafe = True, pc_Safety = [(''crm-write'', False)], pc_HeuristicArgs = True\<rparr>;
       c = classifyToolCallsForParallel one_key cfg [call_of ''1'' ''crm-read'' ''id'', call_of ''2'' ''crm-write'' ''id'', call_of ''3'' ''crm-list'' ''id'']
   in cl_parallel c = [call_of ''1'' ''crm-read'' ''id''] \<and>
      mset (cl_parallel c) + mset (cl_sequential c) =
        mset [call_of ''1'' ''crm-read'' ''id'', call_of ''2'' ''crm-write'' ''id'', call_of ''3'' ''crm-list'' ''id'']"
proof -
  let ?cfg = "\<lparr>pc_Enabled = True, pc_DefaultSafe = True, pc_Safety = [(''crm-write'', False)], pc_HeuristicArgs = True\<rparr> :: ParallelToolConfig"
  let ?calls = "[call_of ''1'' ''crm-read'' ''id'', call_of ''2'' ''crm-write'' ''id'', call_of ''3'' ''crm-list'' ''id'']"
  have "2 \<le> length ?calls" by simp
  from parallel_split_exact [OF this refl, of one_key ?cfg]
  have "mset (cl_parallel (classifyToolCallsForParallel one_key ?cfg ?calls)) + mset (cl_sequential (classifyToolCallsForParallel one_key ?cfg ?calls)) = mset ?calls"
    by blast
  moreover have "cl_parallel (classifyToolCallsForParallel one_key ?cfg ?calls) = [call_of ''1'' ''crm-read'' ''id'']" by code_simp
  ultimately show ?thesis by (simp only: Let_def)
qed

section \<open>Permissions\<close>

text \<open>A call is only sent to a server when the configuration of the client and the filters of the request permit it.\<close>

lemma unpermitted_never_called:
  assumes "\<forall>c \<in> set clients. \<not> isToolPermittedForExecution ctx (Some c) toolName"
    and "\<forall>p. tmgr_codeMode m = Some p \<longrightarrow> \<not> fst p toolName"
  shows "\<exists>err. executeToolInternal m ctx clients toolCall toolName = Inl err"
proof (cases "GetClientForTool clients toolName")
  case None
  then show ?thesis using assms(2) by (auto simp: executeToolInternal_def Let_def split: option.splits)
next
  case (Some c)
  then have "c \<in> set clients" by (auto simp: GetClientForTool_def find_Some_iff in_set_conv_nth)
  then show ?thesis using Some assms by (auto simp: executeToolInternal_def Let_def split: option.splits)
qed

lemma can_auto_is_allowed:
  "canAutoExecuteTool toolName (Some c) \<longleftrightarrow>
     (\<exists>ts as. mc_ToolsToExecute c = Some ts \<and> mc_ToolsToAutoExecute c = Some as \<and>
        (''*'' \<in> set ts \<or> stripClientPrefix toolName (mc_Name c) \<in> set ts) \<and>
        (''*'' \<in> set as \<or> stripClientPrefix toolName (mc_Name c) \<in> set as))"
  by (auto simp: canAutoExecuteTool_def shouldSkipToolForConfig_def split: option.splits if_splits)

end
