(* ===== verification/AgentLoop.thy ===== *)
theory AgentLoop
  imports McpTools "HOL-Library.AList"
begin

text \<open>
  The agent mode of the gateway: \<^verbatim>\<open>core/mcp/agent.go\<close> with the chat adapter of \<^verbatim>\<open>agentadaptors.go\<close>.  As long as the
  model answers with tool calls, the agent runs those it may run without asking, adds their results to the
  conversation and calls the model again, at most \<open>maxAgentDepth\<close> times; other calls are handed back.

  The model, the tools, the connected clients and the order in which calls that run side by side take
  effect and deliver are parameters; each of them may depend on everything that happened before.
\<close>

section \<open>The environment\<close>

text \<open>What the agent does that others can see.\<close>

datatype 'req AgentEvent = ToolRun ChatAssistantMessageToolCall | LLMCall 'req

record ('req, 'resp) AgentEnv =
  ag_ctx :: McpCtx
  ag_clients :: "'req AgentEvent list \<Rightarrow> MCPClientState list"
  ag_unmarshal :: "string \<Rightarrow> string + gomap"
  ag_executeTool :: "'req AgentEvent list \<Rightarrow> ChatAssistantMessageToolCall \<Rightarrow> string + ChatMessage option option"
  ag_makeReq :: "'req AgentEvent list \<Rightarrow> 'req \<Rightarrow> string + 'resp"
  ag_newRequestID :: "('req AgentEvent list \<Rightarrow> string) option"
  ag_parallelConfig :: "'req AgentEvent list \<Rightarrow> ParallelToolConfig option"
  ag_order :: "'req AgentEvent list \<Rightarrow> ChatAssistantMessageToolCall list \<Rightarrow> ChatAssistantMessageToolCall list"
  ag_deliver :: "'req AgentEvent list \<Rightarrow> ChatMessage list \<Rightarrow> ChatMessage list"
  ag_wallMs :: "'req AgentEvent list \<Rightarrow> int"
  ag_toolMs :: "'req AgentEvent list \<Rightarrow> int list"

record ParallelToolsDecision =
  pd_Applied :: bool
  pd_TotalTools :: nat
  pd_ParallelCount :: nat
  pd_SequentialCount :: nat
  pd_WallClockMs :: int
  pd_SerialEstimateMs :: int
  pd_LatencySavedMs :: int
  pd_UnknownToolsSerialized :: nat

text \<open>The state: the events so far and the values the agent writes to the request context.\<close>

record 'req AgentState =
  as_trace :: "'req AgentEvent list"
  as_RequestID :: "string option"
  as_OriginalRequestID :: "string option"
  as_parallelDebug :: "ParallelToolsDecision option"

text \<open>The interface of the two request formats.\<close>

record ('req, 'resp, 'msg) agentAPIAdapter =
  ad_getConversationHistory :: "'msg list"
  ad_getInitialResponse :: 'resp
  ad_extractToolCalls :: "'resp \<Rightarrow> ChatAssistantMessageToolCall list"
  ad_addAssistantMessage :: "'msg list \<Rightarrow> 'resp \<Rightarrow> 'msg list"
  ad_addToolResults :: "'msg list \<Rightarrow> ChatMessage list \<Rightarrow> 'msg list"
  ad_createNewRequest :: "'msg list \<Rightarrow> 'req"
  ad_createResponseWithExecutedTools ::
    "'resp \<Rightarrow> ChatMessage list \<Rightarrow> ChatAssistantMessageToolCall list \<Rightarrow> ChatAssistantMessageToolCall list \<Rightarrow> 'resp"

section \<open>Which calls the agent runs itself\<close>

definition code_allowed :: "McpCtx \<Rightarrow> MCPClientState list \<Rightarrow> (string \<Rightarrow> string + gomap) \<Rightarrow> string \<Rightarrow> bool" where
  "code_allowed ctx clients unmarshal args =
     (case unmarshal args of
        Inl err \<Rightarrow> False
      | Inr arguments \<Rightarrow>
          (case map_of arguments ''code'' of
             Some (VStr code) \<Rightarrow>
               if code = [] then False
               else
                 (let extractedToolCalls = extractToolCallsFromCode (real_newlines code);
                      (allClientNames, allowedAutoExecutionTools) = buildAllowedAutoExecutionTools ctx clients
                  in if extractedToolCalls = [] then True
                     else if allowedAutoExecutionTools = [] then False
                     else list_all (\<lambda>(s, t). isToolCallAllowedForCodeMode s t allClientNames allowedAutoExecutionTools) extractedToolCalls)
           | _ \<Rightarrow> False))"

definition auto_executable :: "McpCtx \<Rightarrow> MCPClientState list \<Rightarrow> (string \<Rightarrow> string + gomap) \<Rightarrow> ChatAssistantMessageToolCall \<Rightarrow> bool" where
  "auto_executable ctx clients unmarshal toolCall =
     (case tc_Name toolCall of
        None \<Rightarrow> False
      | Some toolName \<Rightarrow>
          (case GetClientForTool clients toolName of
             None \<Rightarrow>
               if toolName = ''listToolFiles'' \<or> toolName = ''readToolFile'' \<or> toolName = ''getToolDocs'' then True
               else if toolName = ''executeToolCode'' then code_allowed ctx clients unmarshal (tc_Arguments toolCall)
               else False
           | Some client \<Rightarrow> canAutoExecuteTool toolName (Some (cs_ExecutionConfig client))))"

section \<open>Running calls\<close>

definition createToolResultMessage :: "ChatAssistantMessageToolCall \<Rightarrow> string \<Rightarrow> string option \<Rightarrow> ChatMessage" where
  "createToolResultMessage toolCall result err =
     (let content = (case err of
            Some e \<Rightarrow> ''Error executing tool '' @ (case tc_Name toolCall of Some n \<Rightarrow> n | None \<Rightarrow> ''unknown'') @ '': '' @ e
          | None \<Rightarrow> result)
      in \<lparr>msg_Name = None, msg_Role = ''tool'', msg_Content = Some \<lparr>ctn_ContentStr = Some content, ctn_ContentBlocks = None\<rparr>,
          msg_ToolMessage = Some \<lparr>tm_ToolCallID = tc_ID toolCall\<rparr>, msg_AssistantMessage = None\<rparr>)"

definition runToolCall :: "('req, 'resp) AgentEnv \<Rightarrow> 'req AgentEvent list \<Rightarrow> ChatAssistantMessageToolCall \<Rightarrow> ChatMessage" where
  "runToolCall env tr toolCall =
     (case ag_executeTool env tr toolCall of
        Inl toolErr \<Rightarrow> createToolResultMessage toolCall [] (Some toolErr)
      | Inr (Some (Some message)) \<Rightarrow> message
      | Inr (Some None) \<Rightarrow> createToolResultMessage toolCall [] None
      | Inr None \<Rightarrow> createToolResultMessage toolCall [] None)"

fun run_calls ::
  "('req, 'resp) AgentEnv \<Rightarrow> ChatAssistantMessageToolCall list \<Rightarrow> 'req AgentEvent list \<Rightarrow> ChatMessage list \<times> 'req AgentEvent list" where
  "run_calls env [] tr = ([], tr)"
| "run_calls env (tc # tcs) tr =
     (let m = runToolCall env tr tc; (ms, tr') = run_calls env tcs (tr @ [ToolRun tc]) in (m # ms, tr'))"

definition recordParallelToolsDebug :: "bool \<Rightarrow> classifiedToolCalls \<Rightarrow> int \<Rightarrow> int list \<Rightarrow> ParallelToolsDecision" where
  "recordParallelToolsDebug enabled classified wallMs perToolMs =
     (let serialMs = sum_list perToolMs;
          savedMs = (if serialMs - wallMs < 0 then 0 else serialMs - wallMs)
      in \<lparr>pd_Applied = enabled, pd_TotalTools = length (cl_all classified), pd_ParallelCount = length (cl_parallel classified),
          pd_SequentialCount = length (cl_sequential classified), pd_WallClockMs = wallMs, pd_SerialEstimateMs = serialMs,
          pd_LatencySavedMs = savedMs, pd_UnknownToolsSerialized = cl_unknownSerialized classified\<rparr>)"

definition execute_batch ::
  "('req, 'resp) AgentEnv \<Rightarrow> ChatAssistantMessageToolCall list \<Rightarrow> 'req AgentState \<Rightarrow> ChatMessage list \<times> 'req AgentState" where
  "execute_batch env autoExecutableTools st =
     (let tr = as_trace st;
          cfg = effectiveParallelToolConfig (ag_parallelConfig env tr);
          classified = classifyToolCallsForParallel (ag_unmarshal env) cfg autoExecutableTools;
          (results, tr') =
            (if \<not> pc_Enabled cfg \<or> cl_sequential classified = []
             then (let (ms, tr1) = run_calls env (ag_order env tr autoExecutableTools) tr in (ag_deliver env tr ms, tr1))
             else
               (let (ms1, tr1) = run_calls env (ag_order env tr (cl_parallel classified)) tr;
                    (ms2, tr2) = run_calls env (cl_sequential classified) tr1
                in (ag_deliver env tr ms1 @ ms2, tr2)))
      in (results, st\<lparr>as_trace := tr',
            as_parallelDebug := Some (recordParallelToolsDebug (pc_Enabled cfg) classified (ag_wallMs env tr) (ag_toolMs env tr))\<rparr>))"

section \<open>The loop\<close>

text \<open>Which calls count as auto-executable at a moment, and the part of an iteration that runs them.\<close>

definition auto_at :: "('req, 'resp) AgentEnv \<Rightarrow> 'req AgentEvent list \<Rightarrow> ChatAssistantMessageToolCall \<Rightarrow> bool" where
  "auto_at env tr = auto_executable (ag_ctx env) (ag_clients env tr) (ag_unmarshal env)"

definition tools_phase ::
  "('req, 'resp) AgentEnv \<Rightarrow> ('req, 'resp, 'msg) agentAPIAdapter \<Rightarrow> 'resp \<Rightarrow> 'req AgentState \<Rightarrow> ChatMessage list \<times> 'req AgentState" where
  "tools_phase env ad currentResponse st =
     (let autoExecutableTools = filter (auto_at env (as_trace st)) (ad_extractToolCalls ad currentResponse) in
      if autoExecutableTools = [] then ([], st) else execute_batch env autoExecutableTools st)"

definition renew_request_id :: "('req, 'resp) AgentEnv \<Rightarrow> 'req AgentState \<Rightarrow> 'req AgentState" where
  "renew_request_id env st =
     (case ag_newRequestID env of
        None \<Rightarrow> st
      | Some fetch \<Rightarrow> (let newID = fetch (as_trace st) in if newID \<noteq> [] then st\<lparr>as_RequestID := Some newID\<rparr> else st))"

text \<open>\<open>n\<close> is \<open>maxAgentDepth - depth\<close>, the number of iterations left.\<close>

fun agent_loop ::
  "('req, 'resp) AgentEnv \<Rightarrow> ('req, 'resp, 'msg) agentAPIAdapter \<Rightarrow> nat \<Rightarrow> nat \<Rightarrow> 'resp \<Rightarrow> 'msg list \<Rightarrow> ChatMessage list \<Rightarrow>
   ChatAssistantMessageToolCall list \<Rightarrow> 'req AgentState \<Rightarrow> (string + 'resp) \<times> 'req AgentState" where
  "agent_loop env ad 0 depth currentResponse history allResults allCalls st = (Inr currentResponse, st)"
| "agent_loop env ad (Suc n) depth currentResponse history allResults allCalls st =
     (let toolCalls = ad_extractToolCalls ad currentResponse in
      if toolCalls = [] then (Inr currentResponse, st)
      else
        (let autoExecutableTools = filter (auto_at env (as_trace st)) toolCalls;
             nonAutoExecutableTools = filter (\<lambda>tc. \<not> auto_at env (as_trace st) tc) toolCalls;
             (executed, st1) = tools_phase env ad currentResponse st;
             history1 = (if autoExecutableTools = [] then history
                         else ad_addToolResults ad (ad_addAssistantMessage ad history currentResponse) executed);
             allResults1 = allResults @ executed;
             allCalls1 = allCalls @ autoExecutableTools
         in if nonAutoExecutableTools \<noteq> []
            then (Inr (if Suc depth = 1 \<and> allResults1 = [] then currentResponse
                       else ad_createResponseWithExecutedTools ad currentResponse allResults1 allCalls1 nonAutoExecutableTools), st1)
            else
              (let newReq = ad_createNewRequest ad history1;
                   st2 = renew_request_id env st1;
                   st3 = st2\<lparr>as_trace := as_trace st2 @ [LLMCall newReq]\<rparr>
               in case ag_makeReq env (as_trace st2) newReq of
                    Inl err \<Rightarrow> (Inl err, st3)
                  | Inr response \<Rightarrow> agent_loop env ad n (Suc depth) response history1 allResults1 allCalls1 st3)))"

definition executeAgent ::
  "('req, 'resp) AgentEnv \<Rightarrow> int \<Rightarrow> ('req, 'resp, 'msg) agentAPIAdapter \<Rightarrow> 'req AgentState \<Rightarrow> (string + 'resp) \<times> 'req AgentState" where
  "executeAgent env maxAgentDepth ad st =
     agent_loop env ad (nat maxAgentDepth) 0 (ad_getInitialResponse ad) (ad_getConversationHistory ad) [] []
       (case as_RequestID st of Some originalRequestID \<Rightarrow> st\<lparr>as_OriginalRequestID := Some originalRequestID\<rparr> | None \<Rightarrow> st)"

section \<open>The chat adapter\<close>

text \<open>A choice with its non-streaming message; the metadata of requests and responses is only copied.\<close>

record ResponseChoice =
  ch_Index :: int
  ch_FinishReason :: "string option"
  ch_Message :: "ChatMessage option"

record ChatResponse =
  resp_Meta :: string
  resp_Choices :: "ResponseChoice list"

record ChatRequest =
  req_Provider :: string
  req_Model :: string
  req_Fallbacks :: "string list"
  req_Params :: string
  req_Input :: "ChatMessage list"

definition choice_calls :: "ResponseChoice \<Rightarrow> ChatAssistantMessageToolCall list" where
  "choice_calls choice =
     (case ch_Message choice of
        None \<Rightarrow> []
      | Some m \<Rightarrow> (case msg_AssistantMessage m of None \<Rightarrow> [] | Some am \<Rightarrow> am_ToolCalls am))"

definition hasToolCallsForChatResponse :: "ChatResponse option \<Rightarrow> bool" where
  "hasToolCallsForChatResponse response =
     (case response of
        None \<Rightarrow> False
      | Some r \<Rightarrow> list_ex (\<lambda>choice. ch_FinishReason choice = Some ''tool_calls'' \<or> choice_calls choice \<noteq> []) (resp_Choices r))"

definition extractToolCalls :: "ChatResponse option \<Rightarrow> ChatAssistantMessageToolCall list" where
  "extractToolCalls response =
     (if \<not> hasToolCallsForChatResponse response then []
      else (case response of None \<Rightarrow> [] | Some r \<Rightarrow> concat (map choice_calls (resp_Choices r))))"

definition addAssistantMessage :: "ChatMessage list \<Rightarrow> ChatResponse option \<Rightarrow> ChatMessage list" where
  "addAssistantMessage conversation response =
     (case response of None \<Rightarrow> conversation | Some r \<Rightarrow> conversation @ List.map_filter ch_Message (resp_Choices r))"

definition addToolResults :: "ChatMessage list \<Rightarrow> ChatMessage list \<Rightarrow> ChatMessage list" where
  "addToolResults conversation toolResults = conversation @ toolResults"

definition createNewRequest :: "ChatRequest \<Rightarrow> ChatMessage list \<Rightarrow> ChatRequest" where
  "createNewRequest originalReq conversation = originalReq\<lparr>req_Input := conversation\<rparr>"

text \<open>The summary of executed tools: a map from the name of a tool to its output.\<close>

definition call_names :: "ChatAssistantMessageToolCall list \<Rightarrow> (string \<times> string) list" where
  "call_names calls =
     fold (\<lambda>tc m. case (tc_ID tc, tc_Name tc) of (Some i, Some n) \<Rightarrow> AList.update i n m | _ \<Rightarrow> m) calls []"

definition result_name :: "(string \<times> string) list \<Rightarrow> ChatMessage \<Rightarrow> string" where
  "result_name toolCallIDToName toolResult =
     (case msg_ToolMessage toolResult of
        Some tm \<Rightarrow>
          (case tm_ToolCallID tm of
             Some toolCallID \<Rightarrow> (case map_of toolCallIDToName toolCallID of Some name \<Rightarrow> name | None \<Rightarrow> toolCallID)
           | None \<Rightarrow> ''unknown_tool'')
      | None \<Rightarrow> ''unknown_tool'')"

definition result_output :: "ChatMessage \<Rightarrow> goval" where
  "result_output toolResult =
     (case msg_Content toolResult of
        None \<Rightarrow> VNil
      | Some c \<Rightarrow>
          (case ctn_ContentStr c of
             Some s \<Rightarrow> VStr s
           | None \<Rightarrow>
               (case ctn_ContentBlocks c of
                  None \<Rightarrow> VNil
                | Some blocks \<Rightarrow>
                    VList (map (\<lambda>b. VMap ((''type'', VStr (cb_Type b)) # (case cb_Text b of Some t \<Rightarrow> [(''text'', VStr t)] | None \<Rightarrow> []))) blocks))))"

definition results_map :: "ChatMessage list \<Rightarrow> ChatAssistantMessageToolCall list \<Rightarrow> gomap" where
  "results_map results calls =
     fold (\<lambda>r m. AList.update (result_name (call_names calls) r) (result_output r) m) results []"

definition summary_text :: "(goval \<Rightarrow> string option) \<Rightarrow> ChatMessage list \<Rightarrow> ChatAssistantMessageToolCall list \<Rightarrow> string" where
  "summary_text marshal results calls =
     (let nl = char_of (10 :: nat);
          shown = VMap (results_map results calls)
      in if results \<noteq> []
         then ''The Output from allowed tools calls is - '' @ (case marshal shown of Some json \<Rightarrow> json | None \<Rightarrow> Sprint (\<lambda>_. []) shown) @
              [nl, nl] @ ''Now I shall call these tools next...''
         else ''Now I shall call these tools next...'')"

definition createChatResponseWithExecutedToolsAndNonAutoExecutableCalls ::
  "(goval \<Rightarrow> string option) \<Rightarrow> ChatResponse \<Rightarrow> ChatMessage list \<Rightarrow> ChatAssistantMessageToolCall list \<Rightarrow>
   ChatAssistantMessageToolCall list \<Rightarrow> ChatResponse" where
  "createChatResponseWithExecutedToolsAndNonAutoExecutableCalls marshal originalResponse results calls pending =
     \<lparr>resp_Meta = resp_Meta originalResponse,
      resp_Choices =
        [\<lparr>ch_Index = 0, ch_FinishReason = Some ''stop'',
          ch_Message = Some
            \<lparr>msg_Name = None, msg_Role = ''assistant'',
             msg_Content = Some \<lparr>ctn_ContentStr = Some (summary_text marshal results calls), ctn_ContentBlocks = None\<rparr>,
             msg_ToolMessage = None, msg_AssistantMessage = Some \<lparr>am_ToolCalls = pending\<rparr>\<rparr>\<rparr>]\<rparr>"

definition chatAPIAdapter ::
  "(goval \<Rightarrow> string option) \<Rightarrow> ChatRequest \<Rightarrow> ChatResponse option \<Rightarrow> (ChatRequest, ChatResponse option, ChatMessage) agentAPIAdapter" where
  "chatAPIAdapter marshal originalReq initialResponse =
     \<lparr>ad_getConversationHistory = req_Input originalReq,
      ad_getInitialResponse = initialResponse,
      ad_extractToolCalls = extractToolCalls,
      ad_addAssistantMessage = addAssistantMessage,
      ad_addToolResults = addToolResults,
      ad_createNewRequest = createNewRequest originalReq,
      ad_createResponseWithExecutedTools = (\<lambda>response results calls pending.
        map_option (\<lambda>r. createChatResponseWithExecutedToolsAndNonAutoExecutableCalls marshal r results calls pending) response)\<rparr>"

definition ExecuteAgentForChatRequest ::
  "(goval \<Rightarrow> string option) \<Rightarrow> (ChatRequest, ChatResponse option) AgentEnv \<Rightarrow> int \<Rightarrow> ChatRequest \<Rightarrow> ChatResponse option \<Rightarrow>
   ChatRequest AgentState \<Rightarrow> (string + ChatResponse option) \<times> ChatRequest AgentState" where
  "ExecuteAgentForChatRequest marshal env maxAgentDepth originalReq initialResponse st =
     executeAgent env maxAgentDepth (chatAPIAdapter marshal originalReq initialResponse) st"

section \<open>Facts on single steps\<close>

lemma run_calls_spec:
  "run_calls env tcs tr = (ms, tr') \<Longrightarrow> tr' = tr @ map ToolRun tcs \<and> length ms = length tcs"
  by (induction tcs arbitrary: tr ms) (fastforce split: prod.splits)+

text \<open>Calls that run side by side all run, in some order, and all deliver.\<close>

definition fair_scheduler :: "('req, 'resp) AgentEnv \<Rightarrow> bool" where
  "fair_scheduler env \<longleftrightarrow>
     (\<forall>tr tcs. mset (ag_order env tr tcs) = mset tcs) \<and> (\<forall>tr ms. mset (ag_deliver env tr ms) = mset ms)"

lemma fair_lengths:
  assumes "fair_scheduler env"
  shows "length (ag_order env tr tcs) = length tcs" "length (ag_deliver env tr ms) = length ms"
  using assms by (metis fair_scheduler_def mset_eq_length)+

lemma execute_batch_spec:
  assumes "execute_batch env auto st = (ms, st1)"
  obtains order where "as_trace st1 = as_trace st @ map ToolRun order" "fair_scheduler env \<Longrightarrow> mset order = mset auto \<and> length ms = length auto"
proof -
  let ?tr = "as_trace st"
  let ?cfg = "effectiveParallelToolConfig (ag_parallelConfig env ?tr)"
  let ?c = "classifyToolCallsForParallel (ag_unmarshal env) ?cfg auto"
  show ?thesis
  proof (cases "\<not> pc_Enabled ?cfg \<or> cl_sequential ?c = []")
    case True
    obtain ms' tr' where run: "run_calls env (ag_order env ?tr auto) ?tr = (ms', tr')" by fastforce
    then have "as_trace st1 = tr'" "ms = ag_deliver env ?tr ms'"
      using assms True by (auto simp: execute_batch_def Let_def split: prod.splits)
    with run_calls_spec [OF run] show ?thesis
      by (intro that [of "ag_order env ?tr auto"]) (auto simp: fair_lengths, simp add: fair_scheduler_def)
  next
    case False
    obtain ms1 tr1 where run1: "run_calls env (ag_order env ?tr (cl_parallel ?c)) ?tr = (ms1, tr1)" by fastforce
    obtain ms2 tr2 where run2: "run_calls env (cl_sequential ?c) tr1 = (ms2, tr2)" by fastforce
    have st1: "as_trace st1 = tr2" "ms = ag_deliver env ?tr ms1 @ ms2"
      using assms False run1 run2 by (auto simp: execute_batch_def Let_def split: prod.splits)
    have "2 \<le> length auto" using False by (auto simp: classifyToolCallsForParallel_def Let_def split: if_splits)
    then have split: "mset (cl_parallel ?c) + mset (cl_sequential ?c) = mset auto"
      by (rule classified_mset [OF _ refl])
    have fair: "mset (ag_order env ?tr (cl_parallel ?c) @ cl_sequential ?c) = mset auto \<and> length ms = length auto"
      if f: "fair_scheduler env"
    proof -
      have "mset (ag_order env ?tr (cl_parallel ?c)) = mset (cl_parallel ?c)" "length (ag_deliver env ?tr ms1) = length ms1"
        using f by (auto simp: fair_scheduler_def fair_lengths)
      then show ?thesis using split run_calls_spec [OF run1] run_calls_spec [OF run2] st1(2)
        by (metis length_append mset_append mset_eq_length)
    qed
    with run_calls_spec [OF run1] run_calls_spec [OF run2] st1(1) show ?thesis
      by (intro that [of "ag_order env ?tr (cl_parallel ?c) @ cl_sequential ?c"]) auto
  qed
qed

lemma tools_phase_spec:
  assumes "tools_phase env ad cur st = (ms, st1)"
  obtains order where "as_trace st1 = as_trace st @ map ToolRun order"
    "fair_scheduler env \<Longrightarrow> mset order = mset (filter (auto_at env (as_trace st)) (ad_extractToolCalls ad cur)) \<and> length ms = length order"
proof (cases "filter (auto_at env (as_trace st)) (ad_extractToolCalls ad cur) = []")
  case True
  then show ?thesis using assms that [of "[]"] by (auto simp: tools_phase_def filter_empty_conv)
next
  case False
  then have run: "execute_batch env (filter (auto_at env (as_trace st)) (ad_extractToolCalls ad cur)) st = (ms, st1)"
    using assms by (simp add: tools_phase_def Let_def)
  obtain order where "as_trace st1 = as_trace st @ map ToolRun order"
    "fair_scheduler env \<Longrightarrow> mset order = mset (filter (auto_at env (as_trace st)) (ad_extractToolCalls ad cur)) \<and>
       length ms = length (filter (auto_at env (as_trace st)) (ad_extractToolCalls ad cur))"
    using execute_batch_spec [OF run] by metis
  then show ?thesis using that [of order] by (metis mset_eq_length)
qed

lemma agent_loop_step:
  fixes env :: "('req, 'resp) AgentEnv" and ad :: "('req, 'resp, 'msg) agentAPIAdapter"
  defines "auto \<equiv> \<lambda>cur st. filter (auto_at env (as_trace st)) (ad_extractToolCalls ad cur)"
    and "pending \<equiv> \<lambda>cur st. filter (\<lambda>tc. \<not> auto_at env (as_trace st) tc) (ad_extractToolCalls ad cur)"
  assumes "agent_loop env ad (Suc n) depth cur hist res calls st = (r, st')"
  obtains (ended) "ad_extractToolCalls ad cur = []" "r = Inr cur" "st' = st"
  | (stopped) ms where "tools_phase env ad cur st = (ms, st')" "pending cur st \<noteq> []"
      "r = Inr (if depth = 0 \<and> res @ ms = [] then cur
                else ad_createResponseWithExecutedTools ad cur (res @ ms) (calls @ auto cur st) (pending cur st))"
  | (failed) ms st1 hist1 err where "tools_phase env ad cur st = (ms, st1)" "pending cur st = []" "ad_extractToolCalls ad cur \<noteq> []" "r = Inl err"
      "hist1 = ad_addToolResults ad (ad_addAssistantMessage ad hist cur) ms"
      "as_trace st' = as_trace st1 @ [LLMCall (ad_createNewRequest ad hist1)]"
  | (again) ms st1 hist1 st3 response where "tools_phase env ad cur st = (ms, st1)" "pending cur st = []" "ad_extractToolCalls ad cur \<noteq> []"
      "hist1 = ad_addToolResults ad (ad_addAssistantMessage ad hist cur) ms"
      "as_trace st3 = as_trace st1 @ [LLMCall (ad_createNewRequest ad hist1)]"
      "agent_loop env ad n (Suc depth) response hist1 (res @ ms) (calls @ auto cur st) st3 = (r, st')"
proof (cases "ad_extractToolCalls ad cur = []")
  case True
  then show ?thesis using assms(3) ended by simp
next
  case False
  obtain ms st1 where ph: "tools_phase env ad cur st = (ms, st1)" by fastforce
  let ?hist1 = "if auto cur st = [] then hist else ad_addToolResults ad (ad_addAssistantMessage ad hist cur) ms"
  let ?req = "ad_createNewRequest ad ?hist1"
  let ?st2 = "renew_request_id env st1"
  have tr2: "as_trace ?st2 = as_trace st1" by (simp add: renew_request_id_def Let_def split: option.split)
  have "agent_loop env ad (Suc n) depth cur hist res calls st = (if pending cur st \<noteq> []
      then (Inr (if depth = 0 \<and> res @ ms = [] then cur
             else ad_createResponseWithExecutedTools ad cur (res @ ms) (calls @ auto cur st) (pending cur st)), st1)
      else (case ag_makeReq env (as_trace ?st2) ?req of
          Inl err \<Rightarrow> (Inl err, ?st2\<lparr>as_trace := as_trace ?st2 @ [LLMCall ?req]\<rparr>)
        | Inr response \<Rightarrow> agent_loop env ad n (Suc depth) response ?hist1 (res @ ms) (calls @ auto cur st)
            (?st2\<lparr>as_trace := as_trace ?st2 @ [LLMCall ?req]\<rparr>)))"
    unfolding auto_def pending_def using False ph by (simp add: Let_def split: sum.split)
  note loop = this [unfolded assms(3), symmetric]
  show ?thesis
  proof (cases "pending cur st = []")
    case pend: False
    then show ?thesis using loop ph by (intro stopped [of ms]) auto
  next
    case True
    then have "auto cur st \<noteq> []" using False by (auto simp: pending_def auto_def filter_empty_conv)
    then have hist: "?hist1 = ad_addToolResults ad (ad_addAssistantMessage ad hist cur) ms" by simp
    show ?thesis
    proof (cases "ag_makeReq env (as_trace ?st2) ?req")
      case (Inl err)
      then have "r = Inl err" "as_trace st' = as_trace st1 @ [LLMCall (ad_createNewRequest ad (ad_addToolResults ad (ad_addAssistantMessage ad hist cur) ms))]"
        using loop True hist tr2 by auto
      then show ?thesis using failed [OF ph True False _ refl] by blast
    next
      case (Inr response)
      then show ?thesis using loop True hist tr2 by (intro again [OF ph True False refl]) auto
    qed
  qed
qed

section \<open>What the agent may do\<close>

fun is_llm :: "'req AgentEvent \<Rightarrow> bool" where
  "is_llm (LLMCall r) = True"
| "is_llm (ToolRun t) = False"

definition llm_calls :: "'req AgentEvent list \<Rightarrow> nat" where
  "llm_calls tr = length (filter is_llm tr)"

lemma llm_calls_simps [simp]:
  "llm_calls [] = 0" "llm_calls (tr @ tr') = llm_calls tr + llm_calls tr'" "llm_calls (map ToolRun tcs) = 0" "llm_calls [LLMCall r] = 1"
  by (simp_all add: llm_calls_def filter_empty_conv)

lemma agent_loop_bounded:
  "agent_loop env ad n depth cur hist res calls st = (r, st') \<Longrightarrow> \<exists>new. as_trace st' = as_trace st @ new \<and> llm_calls new \<le> n"
proof (induction n arbitrary: depth cur hist res calls st)
  case (Suc n)
  show ?case
  proof (rule agent_loop_step [OF Suc.prems])
    fix ms assume "tools_phase env ad cur st = (ms, st')"
    from tools_phase_spec [OF this] obtain order where "as_trace st' = as_trace st @ map ToolRun order" by metis
    then show ?thesis by (intro exI [of _ "map ToolRun order"]) simp
  next
    fix ms st1 hist1 assume a: "tools_phase env ad cur st = (ms, st1)" "as_trace st' = as_trace st1 @ [LLMCall (ad_createNewRequest ad hist1)]"
    from tools_phase_spec [OF a(1)] obtain order where "as_trace st1 = as_trace st @ map ToolRun order" by metis
    then show ?thesis using a(2) by (intro exI [of _ "map ToolRun order @ [LLMCall (ad_createNewRequest ad hist1)]"]) simp
  next
    fix ms st1 hist1 st3 response
    assume a: "tools_phase env ad cur st = (ms, st1)" "as_trace st3 = as_trace st1 @ [LLMCall (ad_createNewRequest ad hist1)]"
      "agent_loop env ad n (Suc depth) response hist1 (res @ ms) (calls @ filter (auto_at env (as_trace st)) (ad_extractToolCalls ad cur)) st3 = (r, st')"
    from tools_phase_spec [OF a(1)] obtain order where o: "as_trace st1 = as_trace st @ map ToolRun order" by metis
    from Suc.IH [OF a(3)] obtain new where "as_trace st' = as_trace st3 @ new" "llm_calls new \<le> n" by blast
    then show ?thesis using a(2) o by (intro exI [of _ "map ToolRun order @ LLMCall (ad_createNewRequest ad hist1) # new"]) (simp add: llm_calls_def filter_empty_conv)
  qed auto
qed auto

text \<open>
  C23. The agent stops: whatever the model and the tools answer, \<open>executeAgent\<close> returns after at most
  \<open>maxAgentDepth\<close> further calls of the model, and what happened before stays in its trace.
\<close>

theorem agent_calls_bounded:
  "\<exists>r st' new. executeAgent env maxAgentDepth ad st = (r, st') \<and> as_trace st' = as_trace st @ new \<and> llm_calls new \<le> nat maxAgentDepth"
proof -
  obtain r st' where run: "executeAgent env maxAgentDepth ad st = (r, st')" by fastforce
  from agent_loop_bounded [OF this [unfolded executeAgent_def]]
  show ?thesis using run by (auto split: option.splits)
qed

text \<open>Every call in a trace was auto-executable for the clients of an earlier moment of the run.\<close>

definition runs_only_auto :: "('req, 'resp) AgentEnv \<Rightarrow> 'req AgentEvent list \<Rightarrow> 'req AgentEvent list \<Rightarrow> bool" where
  "runs_only_auto env tr new \<longleftrightarrow> (\<forall>i tc. i < length new \<longrightarrow> new ! i = ToolRun tc \<longrightarrow> (\<exists>k \<le> i. auto_at env (tr @ take k new) tc))"

lemma runs_only_auto_append:
  assumes "runs_only_auto env tr new" "runs_only_auto env (tr @ new) new'"
  shows "runs_only_auto env tr (new @ new')"
  unfolding runs_only_auto_def
proof (intro allI impI)
  fix i tc assume i: "i < length (new @ new')" "(new @ new') ! i = ToolRun tc"
  show "\<exists>k \<le> i. auto_at env (tr @ take k (new @ new')) tc"
  proof (cases "i < length new")
    case True
    then obtain k where "k \<le> i" "auto_at env (tr @ take k new) tc" using assms(1) i by (auto simp: runs_only_auto_def nth_append)
    then show ?thesis using True by (intro exI [of _ k]) auto
  next
    case False
    then have "i - length new < length new'" "new' ! (i - length new) = ToolRun tc" using i by (auto simp: nth_append)
    then obtain k where "k \<le> i - length new" "auto_at env ((tr @ new) @ take k new') tc"
      using assms(2) unfolding runs_only_auto_def by blast
    then show ?thesis using False by (intro exI [of _ "length new + k"]) auto
  qed
qed

lemma runs_only_auto_batch: "list_all (auto_at env tr) order \<Longrightarrow> runs_only_auto env tr (map ToolRun order)"
  by (auto simp: runs_only_auto_def list_all_length intro!: exI [of _ 0])

lemma runs_only_auto_llm: "runs_only_auto env tr [LLMCall r]"
  by (simp add: runs_only_auto_def)

lemma tools_phase_auto:
  assumes "tools_phase env ad cur st = (ms, st1)" "fair_scheduler env"
  obtains order where "as_trace st1 = as_trace st @ map ToolRun order" "runs_only_auto env (as_trace st) (map ToolRun order)"
    "mset order = mset (filter (auto_at env (as_trace st)) (ad_extractToolCalls ad cur))" "length ms = length order"
proof -
  from tools_phase_spec [OF assms(1)] assms(2) obtain order where order: "as_trace st1 = as_trace st @ map ToolRun order"
    "mset order = mset (filter (auto_at env (as_trace st)) (ad_extractToolCalls ad cur))" "length ms = length order" by metis
  then have "set order = set (filter (auto_at env (as_trace st)) (ad_extractToolCalls ad cur))" by (metis set_mset_mset)
  then have "list_all (auto_at env (as_trace st)) order" by (auto simp: list_all_iff)
  then show thesis using that order runs_only_auto_batch by blast
qed

lemma agent_loop_auto:
  assumes "fair_scheduler env"
  shows "agent_loop env ad n depth cur hist res calls st = (r, st') \<Longrightarrow>
    \<exists>new. as_trace st' = as_trace st @ new \<and> runs_only_auto env (as_trace st) new"
proof (induction n arbitrary: depth cur hist res calls st)
  case 0
  then show ?case by (intro exI [of _ "[]"]) (auto simp: runs_only_auto_def)
next
  case (Suc n)
  show ?case
  proof (rule agent_loop_step [OF Suc.prems])
    assume "st' = st"
    then show ?thesis by (intro exI [of _ "[]"]) (auto simp: runs_only_auto_def)
  next
    fix ms assume "tools_phase env ad cur st = (ms, st')"
    from tools_phase_auto [OF this assms] show ?thesis by metis
  next
    fix ms st1 hist1 assume a: "tools_phase env ad cur st = (ms, st1)" "as_trace st' = as_trace st1 @ [LLMCall (ad_createNewRequest ad hist1)]"
    from tools_phase_auto [OF a(1) assms] obtain order where
      "as_trace st1 = as_trace st @ map ToolRun order" "runs_only_auto env (as_trace st) (map ToolRun order)" by metis
    then show ?thesis using a(2) runs_only_auto_append [OF _ runs_only_auto_llm] by (metis append.assoc)
  next
    fix ms st1 hist1 st3 response
    assume a: "tools_phase env ad cur st = (ms, st1)" "as_trace st3 = as_trace st1 @ [LLMCall (ad_createNewRequest ad hist1)]"
      "agent_loop env ad n (Suc depth) response hist1 (res @ ms) (calls @ filter (auto_at env (as_trace st)) (ad_extractToolCalls ad cur)) st3 = (r, st')"
    from tools_phase_auto [OF a(1) assms] obtain order where
      o: "as_trace st1 = as_trace st @ map ToolRun order" "runs_only_auto env (as_trace st) (map ToolRun order)" by metis
    from Suc.IH [OF a(3)] obtain new where new: "as_trace st' = as_trace st3 @ new" "runs_only_auto env (as_trace st3) new" by blast
    have "runs_only_auto env (as_trace st) (map ToolRun order @ [LLMCall (ad_createNewRequest ad hist1)])"
      using runs_only_auto_append [OF o(2) runs_only_auto_llm] .
    from runs_only_auto_append [OF this, of new] new(2) a(2) o(1) new(1) show ?thesis by (metis append.assoc)
  qed
qed

text \<open>
  C19. The agent runs a tool only when it may: every call it runs was auto-executable for the clients
  connected at an earlier moment of the run; if the tool belongs to a client, the configuration of that client
  lists it both as executable and as auto-executable.
\<close>

theorem agent_runs_only_auto_calls:
  assumes "fair_scheduler env" "executeAgent env maxAgentDepth ad st = (r, st')"
    and "as_trace st' = as_trace st @ new" "i < length new" "new ! i = ToolRun tc"
  shows "\<exists>k \<le> i. let clients = ag_clients env (as_trace st @ take k new) in
    auto_executable (ag_ctx env) clients (ag_unmarshal env) tc \<and>
    (\<forall>name c. tc_Name tc = Some name \<longrightarrow> GetClientForTool clients name = Some c \<longrightarrow>
      (\<exists>ts as. mc_ToolsToExecute (cs_ExecutionConfig c) = Some ts \<and> mc_ToolsToAutoExecute (cs_ExecutionConfig c) = Some as \<and>
        (''*'' \<in> set ts \<or> stripClientPrefix name (mc_Name (cs_ExecutionConfig c)) \<in> set ts) \<and>
        (''*'' \<in> set as \<or> stripClientPrefix name (mc_Name (cs_ExecutionConfig c)) \<in> set as)))"
proof -
  from agent_loop_auto [OF assms(1) assms(2) [unfolded executeAgent_def]]
  have "runs_only_auto env (as_trace st) new" using assms(3) by (auto split: option.splits)
  then obtain k where k: "k \<le> i" "auto_at env (as_trace st @ take k new) tc" using assms(4,5) unfolding runs_only_auto_def by blast
  moreover have "canAutoExecuteTool name (Some (cs_ExecutionConfig c))"
    if "tc_Name tc = Some name" "GetClientForTool (ag_clients env (as_trace st @ take k new)) name = Some c" for name c
    using k(2) that by (simp add: auto_at_def auto_executable_def)
  ultimately show ?thesis unfolding Let_def auto_at_def can_auto_is_allowed by blast
qed

section \<open>What the agent hands back\<close>

lemma chat_adapter_simps [simp]:
  "ad_extractToolCalls (chatAPIAdapter marshal req init) = extractToolCalls"
  "ad_createNewRequest (chatAPIAdapter marshal req init) = createNewRequest req"
  "ad_addToolResults (chatAPIAdapter marshal req init) = addToolResults"
  "ad_addAssistantMessage (chatAPIAdapter marshal req init) = addAssistantMessage"
  "ad_getInitialResponse (chatAPIAdapter marshal req init) = init"
  "ad_getConversationHistory (chatAPIAdapter marshal req init) = req_Input req"
  "ad_createResponseWithExecutedTools (chatAPIAdapter marshal req init) response results calls pending =
     map_option (\<lambda>r. createChatResponseWithExecutedToolsAndNonAutoExecutableCalls marshal r results calls pending) response"
  by (simp_all add: chatAPIAdapter_def)

lemma extract_created:
  "extractToolCalls (map_option (\<lambda>r. createChatResponseWithExecutedToolsAndNonAutoExecutableCalls marshal r results calls pending) response)
     = (if response = None then [] else pending)"
  by (cases response)
    (auto simp: extractToolCalls_def hasToolCallsForChatResponse_def choice_calls_def
      createChatResponseWithExecutedToolsAndNonAutoExecutableCalls_def)

text \<open>The finish reason \<open>stop\<close> does not hide the pending calls from the test for tool calls.\<close>

lemma created_has_tool_calls:
  "pending \<noteq> [] \<Longrightarrow>
   hasToolCallsForChatResponse (Some (createChatResponseWithExecutedToolsAndNonAutoExecutableCalls marshal r results calls pending))"
  by (simp add: hasToolCallsForChatResponse_def choice_calls_def createChatResponseWithExecutedToolsAndNonAutoExecutableCalls_def)

lemma chat_loop_pending:
  assumes "fair_scheduler env"
  shows "agent_loop env (chatAPIAdapter marshal req init) n depth cur hist res calls st = (Inr resp, st') \<Longrightarrow>
    as_trace st' = as_trace st @ new \<Longrightarrow> llm_calls new < n \<Longrightarrow> tc \<in> set (extractToolCalls resp) \<Longrightarrow>
    \<exists>k \<le> length new. \<not> auto_at env (as_trace st @ take k new) tc"
proof (induction n arbitrary: depth cur hist res calls st new)
  case (Suc n)
  let ?ad = "chatAPIAdapter marshal req init"
  show ?case
  proof (rule agent_loop_step [OF Suc.prems(1)])
    assume "ad_extractToolCalls ?ad cur = []" "Inr resp = Inr cur"
    then show ?thesis using Suc.prems(4) by simp
  next
    fix ms assume a: "tools_phase env ?ad cur st = (ms, st')"
      "(Inr resp :: string + ChatResponse option) = Inr (if depth = 0 \<and> res @ ms = [] then cur
         else ad_createResponseWithExecutedTools ?ad cur (res @ ms) (calls @ filter (auto_at env (as_trace st)) (ad_extractToolCalls ?ad cur))
                (filter (\<lambda>tc. \<not> auto_at env (as_trace st) tc) (ad_extractToolCalls ?ad cur)))"
    have "\<not> auto_at env (as_trace st) tc"
    proof (cases "depth = 0 \<and> res @ ms = []")
      case True
      from tools_phase_auto [OF a(1) assms] obtain order where
        "mset order = mset (filter (auto_at env (as_trace st)) (ad_extractToolCalls ?ad cur))" "length ms = length order" by metis
      then have "filter (auto_at env (as_trace st)) (ad_extractToolCalls ?ad cur) = []" using True by (metis append_is_Nil_conv length_0_conv mset_zero_iff)
      then show ?thesis using a(2) True Suc.prems(4) by (auto simp: filter_empty_conv)
    next
      case False
      then show ?thesis using a(2) Suc.prems(4) by (auto simp: extract_created split: if_splits)
    qed
    then show ?thesis by (intro exI [of _ 0]) simp
  next
    fix ms st1 hist1 st3 response
    assume a: "tools_phase env ?ad cur st = (ms, st1)" "as_trace st3 = as_trace st1 @ [LLMCall (ad_createNewRequest ?ad hist1)]"
      "agent_loop env ?ad n (Suc depth) response hist1 (res @ ms) (calls @ filter (auto_at env (as_trace st)) (ad_extractToolCalls ?ad cur)) st3 = (Inr resp, st')"
    from tools_phase_auto [OF a(1) assms] obtain order where o: "as_trace st1 = as_trace st @ map ToolRun order" by metis
    from agent_loop_bounded [OF a(3)] obtain new' where new': "as_trace st' = as_trace st3 @ new'" by blast
    then have new: "new = map ToolRun order @ LLMCall (ad_createNewRequest ?ad hist1) # new'" using Suc.prems(2) a(2) o by simp
    then have "llm_calls new' < n" using Suc.prems(3) by (simp add: llm_calls_def filter_empty_conv)
    from Suc.IH [OF a(3) new' this Suc.prems(4)] obtain k where k: "k \<le> length new'" "\<not> auto_at env (as_trace st3 @ take k new') tc" by blast
    have "as_trace st3 @ take k new' = as_trace st @ take (length order + 1 + k) new" using a(2) o by (simp add: new)
    then show ?thesis using k by (intro exI [of _ "length order + 1 + k"]) (simp add: new)
  qed simp
qed simp

text \<open>
  What the agent hands back before its depth is exhausted needs a decision of the caller: no call in
  the response was auto-executable when the agent looked at it.
\<close>

theorem agent_hands_back_unapproved:
  assumes "fair_scheduler env" "ExecuteAgentForChatRequest marshal env maxAgentDepth req init st = (Inr resp, st')"
    and "as_trace st' = as_trace st @ new" "llm_calls new < nat maxAgentDepth" "tc \<in> set (extractToolCalls resp)"
  shows "\<exists>k \<le> length new. \<not> auto_executable (ag_ctx env) (ag_clients env (as_trace st @ take k new)) (ag_unmarshal env) tc"
proof -
  let ?st = "case as_RequestID st of Some i \<Rightarrow> st\<lparr>as_OriginalRequestID := Some i\<rparr> | None \<Rightarrow> st"
  have st: "as_trace ?st = as_trace st" by (simp split: option.split)
  have "\<exists>k \<le> length new. \<not> auto_at env (as_trace ?st @ take k new) tc"
    by (rule chat_loop_pending [OF assms(1) _ _ assms(4,5)])
      (use assms(2,3) st in \<open>auto simp: ExecuteAgentForChatRequest_def executeAgent_def\<close>)
  then show ?thesis by (simp add: st auto_at_def)
qed

section \<open>Two gaps\<close>

text \<open>Code that names a tool without calling it in place: the function is called through a variable.\<close>

definition alias_code :: string where
  "alias_code = ''f = crm.delete'' @ [char_of (10 :: nat)] @ ''f(id=1)''"

lemma alias_code_extracts: "extractToolCallsFromCode (real_newlines alias_code) = []" "alias_code \<noteq> []"
  by code_simp+

text \<open>
  Whatever tools the clients are configured to run without asking, the agent runs this code, which calls a
  tool through a variable: the search for calls in the code finds none, and the check is skipped.
\<close>

theorem code_alias_escapes_approval:
  assumes "tc_Name tc = Some ''executeToolCode''" "GetClientForTool clients ''executeToolCode'' = None"
    and "unmarshal (tc_Arguments tc) = Inr [(''code'', VStr alias_code)]"
  shows "auto_executable ctx clients unmarshal tc"
  using assms by (simp add: auto_executable_def code_allowed_def alias_code_extracts split: prod.split)

text \<open>
  The summary of executed tools is keyed by the name of the tool, so of two results of the same tool
  only the last one reaches the caller.
\<close>

theorem repeated_result_lost:
  assumes "tc_ID c1 = Some i1" "tc_ID c2 = Some i2" "i1 \<noteq> i2" "tc_Name c1 = Some n" "tc_Name c2 = Some n"
    and "msg_ToolMessage r1 = Some \<lparr>tm_ToolCallID = Some i1\<rparr>" "msg_ToolMessage r2 = Some \<lparr>tm_ToolCallID = Some i2\<rparr>"
  shows "createChatResponseWithExecutedToolsAndNonAutoExecutableCalls marshal response [r1, r2] [c1, c2] pending =
    createChatResponseWithExecutedToolsAndNonAutoExecutableCalls marshal response [r2] [c1, c2] pending"
proof -
  have "result_name (call_names [c1, c2]) r1 = n" "result_name (call_names [c1, c2]) r2 = n"
    using assms by (simp_all add: result_name_def call_names_def update_conv' map_of_Cons_code)
  then have "results_map [r1, r2] [c1, c2] = results_map [r2] [c1, c2]" by (simp add: results_map_def)
  then show ?thesis by (simp add: createChatResponseWithExecutedToolsAndNonAutoExecutableCalls_def summary_text_def Let_def)
qed

section \<open>A concrete run\<close>

text \<open>A client with a tool that may be read without asking and one that may not be used so; the model asks for the
  first, then for the second.\<close>

definition crm_client :: MCPClientState where
  "crm_client =
     \<lparr>cs_ExecutionConfig = \<lparr>mc_ID = ''1'', mc_Name = ''crm'', mc_IsCodeModeClient = True, mc_ToolsToExecute = Some [''read'', ''delete''],
        mc_ToolsToAutoExecute = Some [''read'']\<rparr>,
      cs_ToolMap = [(''crm-read'', \<lparr>ct_Function = Some ''crm-read'', ct_Schema = []\<rparr>), (''crm-delete'', \<lparr>ct_Function = Some ''crm-delete'', ct_Schema = []\<rparr>)],
      cs_ToolNameMapping = [(''read'', ''read''), (''delete'', ''delete'')]\<rparr>"

definition asks_for :: "ChatAssistantMessageToolCall list \<Rightarrow> ChatResponse option" where
  "asks_for calls = Some \<lparr>resp_Meta = ''m'', resp_Choices = [\<lparr>ch_Index = 0, ch_FinishReason = Some ''tool_calls'',
     ch_Message = Some \<lparr>msg_Name = None, msg_Role = ''assistant'', msg_Content = None, msg_ToolMessage = None,
       msg_AssistantMessage = Some \<lparr>am_ToolCalls = calls\<rparr>\<rparr>\<rparr>]\<rparr>"

definition sample_agent :: "(ChatRequest, ChatResponse option) AgentEnv" where
  "sample_agent =
     \<lparr>ag_ctx = \<lparr>mx_IncludeClients = None, mx_IncludeTools = None\<rparr>, ag_clients = (\<lambda>_. [crm_client]),
      ag_unmarshal = (\<lambda>s. Inr [(''code'', VStr s)]), ag_executeTool = (\<lambda>_ tc. Inr (Some (Some (createToolResponseMessage tc ''ok'')))),
      ag_makeReq = (\<lambda>_ _. Inr (asks_for [call_of ''2'' ''crm-delete'' []])), ag_newRequestID = None, ag_parallelConfig = (\<lambda>_. None),
      ag_order = (\<lambda>_ tcs. rev tcs), ag_deliver = (\<lambda>_ ms. ms), ag_wallMs = (\<lambda>_. 0), ag_toolMs = (\<lambda>_. [])\<rparr>"

definition sample_chat :: ChatRequest where
  "sample_chat = \<lparr>req_Provider = ''openai'', req_Model = ''gpt'', req_Fallbacks = [], req_Params = [], req_Input = []\<rparr>"

definition sample_start :: "ChatRequest AgentState" where
  "sample_start = \<lparr>as_trace = [], as_RequestID = Some ''r1'', as_OriginalRequestID = None, as_parallelDebug = None\<rparr>"

definition sample_run :: "(string + ChatResponse option) \<times> ChatRequest AgentState" where
  "sample_run = ExecuteAgentForChatRequest (\<lambda>_. None) sample_agent 5 sample_chat (asks_for [call_of ''1'' ''crm-read'' []]) sample_start"

lemma sample_agent_fair: "fair_scheduler sample_agent"
  by (simp add: fair_scheduler_def sample_agent_def)

definition sample_events :: "ChatRequest AgentEvent list" where
  "sample_events = as_trace (snd sample_run)"

lemma sample_run_facts:
  "sample_events ! 0 = ToolRun (call_of ''1'' ''crm-read'' [])" "length sample_events = 2" "llm_calls sample_events = 1"
  "extractToolCalls (projr (fst sample_run)) = [call_of ''2'' ''crm-delete'' []]" "isl (fst sample_run) = False"
  by code_simp+

theorem agent_runs_only_auto_calls_witness:
  "auto_executable (ag_ctx sample_agent) (ag_clients sample_agent []) (ag_unmarshal sample_agent) (call_of ''1'' ''crm-read'' [])"
proof -
  obtain r st' where run: "executeAgent sample_agent 5 (chatAPIAdapter (\<lambda>_. None) sample_chat (asks_for [call_of ''1'' ''crm-read'' []])) sample_start = (r, st')"
    by fastforce
  then have "as_trace st' = as_trace sample_start @ sample_events"
    by (simp add: sample_events_def sample_run_def ExecuteAgentForChatRequest_def sample_start_def)
  from agent_runs_only_auto_calls [OF sample_agent_fair run this _ sample_run_facts(1)] show ?thesis
    by (simp add: sample_run_facts sample_start_def Let_def)
qed

theorem agent_hands_back_unapproved_witness:
  "\<exists>k \<le> 2. \<not> auto_executable (ag_ctx sample_agent) (ag_clients sample_agent (take k sample_events)) (ag_unmarshal sample_agent) (call_of ''2'' ''crm-delete'' [])"
proof -
  have run: "ExecuteAgentForChatRequest (\<lambda>_. None) sample_agent 5 sample_chat (asks_for [call_of ''1'' ''crm-read'' []]) sample_start
    = (Inr (projr (fst sample_run)), snd sample_run)"
    using sample_run_facts(5) by (metis prod.collapse sample_run_def sum.collapse(2))
  have "as_trace (snd sample_run) = as_trace sample_start @ sample_events" by (simp add: sample_events_def sample_start_def)
  from agent_hands_back_unapproved [OF sample_agent_fair run this, of "call_of ''2'' ''crm-delete'' []"] show ?thesis
    by (simp add: sample_run_facts sample_start_def)
qed

theorem code_alias_escapes_approval_witness:
  "auto_executable (ag_ctx sample_agent) [crm_client] (ag_unmarshal sample_agent) (call_of ''3'' ''executeToolCode'' alias_code) \<and>
   \<not> auto_executable (ag_ctx sample_agent) [crm_client] (ag_unmarshal sample_agent) (call_of ''3'' ''executeToolCode'' ''crm.delete(id=1)'')"
proof
  show "auto_executable (ag_ctx sample_agent) [crm_client] (ag_unmarshal sample_agent) (call_of ''3'' ''executeToolCode'' alias_code)"
    by (rule code_alias_escapes_approval) (simp_all add: call_of_def crm_client_def GetClientForTool_def sample_agent_def)
  show "\<not> auto_executable (ag_ctx sample_agent) [crm_client] (ag_unmarshal sample_agent) (call_of ''3'' ''executeToolCode'' ''crm.delete(id=1)'')"
    by code_simp
qed

theorem repeated_result_lost_witness:
  "createChatResponseWithExecutedToolsAndNonAutoExecutableCalls (\<lambda>_. None) (the (asks_for []))
     [createToolResponseMessage (call_of ''1'' ''crm-read'' []) ''Ann'', createToolResponseMessage (call_of ''2'' ''crm-read'' []) ''Bob'']
     [call_of ''1'' ''crm-read'' [], call_of ''2'' ''crm-read'' []] [] =
   createChatResponseWithExecutedToolsAndNonAutoExecutableCalls (\<lambda>_. None) (the (asks_for []))
     [createToolResponseMessage (call_of ''2'' ''crm-read'' []) ''Bob''] [call_of ''1'' ''crm-read'' [], call_of ''2'' ''crm-read'' []] []"
  by (rule repeated_result_lost [of _ "''1''" _ "''2''"]) (simp_all add: call_of_def createToolResponseMessage_def)

end
