(* ===== verification/PriceRows.thy ===== *)
theory PriceRows
  imports ModelCatalog GuardTypes "HOL-Library.AList"
begin

text \<open>
  The price rows of \<^verbatim>\<open>framework/modelcatalog\<close>: how they are loaded and indexed (\<^verbatim>\<open>sync.go\<close>), the canonical name of a model
  (\<^verbatim>\<open>canonicalize.go\<close>) and the look-up of the row of a request (\<^verbatim>\<open>getPricing\<close>, \<^verbatim>\<open>resolvePricing\<close> of \<^verbatim>\<open>pricing.go\<close>).

  A Go map is an association list with one entry for a key.  The alias index is built by ranging over the map of the
  rows, in an order the language leaves open: it is an argument here.
\<close>

section \<open>Rows\<close>

record TableModelPricing = ModelPricing +
  pr_InputCostPerToken :: rat
  pr_OutputCostPerToken :: rat
  pr_InputCostPerTokenBatches :: "rat option"
  pr_OutputCostPerTokenBatches :: "rat option"
  pr_InputCostPerCharacter :: "rat option"
  pr_InputCostPerTokenAbove128kTokens :: "rat option"
  pr_InputCostPerImageAbove128kTokens :: "rat option"
  pr_InputCostPerVideoPerSecondAbove128kTokens :: "rat option"
  pr_InputCostPerAudioPerSecondAbove128kTokens :: "rat option"
  pr_OutputCostPerTokenAbove128kTokens :: "rat option"
  pr_InputCostPerTokenAbove200kTokens :: "rat option"
  pr_OutputCostPerTokenAbove200kTokens :: "rat option"
  pr_CacheCreationInputTokenCost :: "rat option"
  pr_CacheReadInputTokenCost :: "rat option"
  pr_CacheCreationInputTokenCostAbove200kTokens :: "rat option"
  pr_CacheReadInputTokenCostAbove200kTokens :: "rat option"
  pr_InputCostPerImage :: "rat option"
  pr_InputCostPerPixel :: "rat option"
  pr_OutputCostPerImage :: "rat option"
  pr_OutputCostPerPixel :: "rat option"
  pr_OutputCostPerImageAbove512x512Pixels :: "rat option"
  pr_OutputCostPerImageAbove1024x1024Pixels :: "rat option"
  pr_OutputCostPerImageAbove2048x2048Pixels :: "rat option"
  pr_OutputCostPerImageAbove4096x4096Pixels :: "rat option"
  pr_OutputCostPerImageLowQuality :: "rat option"
  pr_OutputCostPerImageMediumQuality :: "rat option"
  pr_OutputCostPerImageHighQuality :: "rat option"
  pr_OutputCostPerImageAutoQuality :: "rat option"
  pr_InputCostPerImageToken :: "rat option"
  pr_OutputCostPerImageToken :: "rat option"
  pr_InputCostPerAudioToken :: "rat option"
  pr_InputCostPerAudioPerSecond :: "rat option"
  pr_InputCostPerSecond :: "rat option"
  pr_InputCostPerVideoPerSecond :: "rat option"
  pr_OutputCostPerAudioToken :: "rat option"
  pr_OutputCostPerVideoPerSecond :: "rat option"
  pr_OutputCostPerSecond :: "rat option"
  pr_SearchContextCostPerQuery :: "rat option"

record PriceSheet =
  ps_pricingData :: "(string \<times> TableModelPricing) list"
  ps_pricingAlias :: "(string \<times> string) list"

section \<open>Modes and names\<close>

definition normalizeRequestType :: "string \<Rightarrow> string" where
  "normalizeRequestType t =
     (if t \<in> {''text_completion'', ''text_completion_stream''} then ''completion''
      else if t \<in> {''chat_completion'', ''chat_completion_stream''} then ''chat''
      else if t \<in> {''responses'', ''responses_stream''} then ''responses''
      else if t = ''embedding'' then ''embedding''
      else if t = ''rerank'' then ''rerank''
      else if t \<in> {''speech'', ''speech_stream''} then ''audio_speech''
      else if t \<in> {''transcription'', ''transcription_stream''} then ''audio_transcription''
      else if t \<in> {''image_generation'', ''image_generation_stream'', ''image_variation''} then ''image_generation''
      else if t \<in> {''image_edit'', ''image_edit_stream''} then ''image_edit''
      else if t \<in> {''video_generation'', ''video_remix''} then ''video_generation''
      else ''unknown'')"

definition normalizeStreamRequestType :: "string \<Rightarrow> string" where
  "normalizeStreamRequestType t =
     (if t = ''text_completion_stream'' then ''text_completion''
      else if t = ''chat_completion_stream'' then ''chat_completion''
      else if t = ''responses_stream'' then ''responses''
      else if t = ''speech_stream'' then ''speech''
      else if t = ''transcription_stream'' then ''transcription''
      else if t = ''image_generation_stream'' then ''image_generation''
      else if t = ''image_edit_stream'' then ''image_edit''
      else t)"

text \<open>The suffix pattern at the end of a name: a hyphen and a date, a snapshot number or a version tag.\<close>

definition date_suffix :: "string \<Rightarrow> bool" where
  "date_suffix s \<longleftrightarrow>
     (case s of
        [] \<Rightarrow> False
      | c # rest \<Rightarrow> c = CHR ''-'' \<and>
          (openAIDateRe rest \<or> digits 8 rest \<or>
           (case split_byte CHR ''-'' rest of [m, y] \<Rightarrow> digits 2 m \<and> digits 4 y | _ \<Rightarrow> False) \<or>
           digits 3 rest \<or> digits 4 rest \<or>
           (case rest of v # ds \<Rightarrow> v = CHR ''v'' \<and> (digits 1 ds \<or> digits 2 ds \<or> digits 3 ds) | [] \<Rightarrow> False)))"

text \<open>The leftmost match that reaches the end is removed.\<close>

fun strip_date :: "string \<Rightarrow> string" where
  "strip_date [] = []"
| "strip_date (c # cs) = (if date_suffix (c # cs) then [] else c # strip_date cs)"

definition cut_prefix :: "string \<Rightarrow> string list \<Rightarrow> string" where
  "cut_prefix m tags = (case List.find (HasPrefix m) tags of Some p \<Rightarrow> drop (length p) m | None \<Rightarrow> m)"

definition cut_suffix :: "string \<Rightarrow> string list \<Rightarrow> string" where
  "cut_suffix m tags = (case List.find (HasSuffix m) tags of Some s \<Rightarrow> take (length m - length s) m | None \<Rightarrow> m)"

definition canonicalizeModelName :: "string \<Rightarrow> string" where
  "canonicalizeModelName model =
     (let m0 = ToLower (TrimSpace model) in
      if m0 = [] then []
      else
        (let m1 = (case index_byte m0 CHR ''@'' of Some i \<Rightarrow> take i m0 | None \<Rightarrow> m0);
             m2 = (case index_byte m1 CHR ''/'' of Some i \<Rightarrow> drop (Suc i) m1 | None \<Rightarrow> m1);
             m3 = cut_prefix m2 [''anthropic.'', ''amazon.'', ''meta.'', ''mistral.'', ''cohere.'', ''ai21.''];
             m4 = cut_suffix m3 [''-latest'', ''-stable'', ''-experimental'']
         in rev (dropWhile (\<lambda>c. c = CHR ''-'' \<or> c = CHR ''_'') (rev (strip_date m4)))))"

definition canonicalAliasKey :: "string \<Rightarrow> string \<Rightarrow> string \<Rightarrow> string" where
  "canonicalAliasKey model provider mode = makeKey (canonicalizeModelName model) (ToLower (TrimSpace provider)) mode"

definition IsAnthropicModel :: "string \<Rightarrow> bool" where
  "IsAnthropicModel model \<longleftrightarrow> Contains model ''anthropic.'' \<or> Contains model ''claude''"

section \<open>Loading\<close>

definition row_key :: "TableModelPricing \<Rightarrow> string" where
  "row_key p = makeKey (pr_Model p) (pr_Provider p) (pr_Mode p)"

definition loadPricingRows :: "TableModelPricing list \<Rightarrow> (string \<times> TableModelPricing) list" where
  "loadPricingRows records = fold (\<lambda>p m. AList.update (row_key p) p m) records []"

definition row_alias :: "TableModelPricing \<Rightarrow> string" where
  "row_alias p = canonicalAliasKey (pr_Model p) (pr_Provider p) (pr_Mode p)"

definition index_row :: "string \<times> TableModelPricing \<Rightarrow> (string \<times> string) list \<Rightarrow> (string \<times> string) list" where
  "index_row entry index =
     (case entry of
        (fullKey, p) \<Rightarrow>
          (let aliasKey = row_alias p
           in if aliasKey = [] \<or> aliasKey = fullKey then index else AList.update aliasKey fullKey index))"

definition rebuildPricingAliasIndexLocked :: "(string \<times> TableModelPricing) list \<Rightarrow> (string \<times> string) list" where
  "rebuildPricingAliasIndexLocked entries = fold index_row entries []"

text \<open>The sheet after the records have been read; \<open>order\<close> is the order in which the loop over the map meets its entries.\<close>

definition loadPricingFromDatabase ::
  "TableModelPricing list \<Rightarrow> ((string \<times> TableModelPricing) list \<Rightarrow> (string \<times> TableModelPricing) list) \<Rightarrow> PriceSheet" where
  "loadPricingFromDatabase records order =
     (let data = loadPricingRows records
      in \<lparr>ps_pricingData = data, ps_pricingAlias = rebuildPricingAliasIndexLocked (order data)\<rparr>)"

section \<open>Look-up\<close>

fun first_some :: "'a option list \<Rightarrow> 'a option" where
  "first_some [] = None"
| "first_some (Some x # xs) = Some x"
| "first_some (None # xs) = first_some xs"

text \<open>The keys \<open>getPricing\<close> tries, in order, before it asks the alias index.\<close>

definition exact_keys :: "string \<Rightarrow> string \<Rightarrow> string \<Rightarrow> string list" where
  "exact_keys model provider requestType =
     (let mode = normalizeRequestType requestType;
          chat = normalizeRequestType ''chat_completion'';
          responses = (requestType = ''responses'' \<or> requestType = ''responses_stream'');
          either = (\<lambda>m p. makeKey m p mode # (if responses then [makeKey m p chat] else []))
      in [makeKey model provider mode] @
         (if provider = ''gemini'' then either model ''vertex'' else []) @
         (if provider = ''vertex''
          then (case index_byte model CHR ''/'' of Some i \<Rightarrow> either (drop (Suc i) model) ''vertex'' | None \<Rightarrow> []) else []) @
         (if provider = ''bedrock'' \<and> \<not> Contains model ''anthropic.'' \<and> IsAnthropicModel model then either (''anthropic.'' @ model) provider else []) @
         (if responses then [makeKey model provider chat] else []) @
         (if requestType \<in> {''image_edit'', ''image_edit_stream'', ''image_variation''}
          then [makeKey model provider (normalizeRequestType ''image_generation'')] else []))"

definition alias_rows :: "PriceSheet \<Rightarrow> string \<Rightarrow> string \<Rightarrow> string \<Rightarrow> TableModelPricing option list" where
  "alias_rows ps model provider requestType =
     (let row = (\<lambda>mode. Option.bind (map_of (ps_pricingAlias ps) (canonicalAliasKey model provider mode)) (map_of (ps_pricingData ps)))
      in row (normalizeRequestType requestType) #
         (if requestType = ''responses'' \<or> requestType = ''responses_stream'' then [row (normalizeRequestType ''chat_completion'')] else []))"

definition getPricing :: "PriceSheet \<Rightarrow> string \<Rightarrow> string \<Rightarrow> string \<Rightarrow> TableModelPricing option" where
  "getPricing ps model provider requestType =
     first_some (map (map_of (ps_pricingData ps)) (exact_keys model provider requestType) @ alias_rows ps model provider requestType)"

definition resolvePricing :: "PriceSheet \<Rightarrow> string \<Rightarrow> string \<Rightarrow> string \<Rightarrow> string \<Rightarrow> TableModelPricing option" where
  "resolvePricing ps provider model deployment requestType =
     (case getPricing ps model provider requestType of
        Some p \<Rightarrow> Some p
      | None \<Rightarrow> if deployment \<noteq> [] then getPricing ps deployment provider requestType else None)"

section \<open>What the load builds\<close>

lemma load_step: "loadPricingRows (rs @ [p]) = AList.update (row_key p) p (loadPricingRows rs)"
  by (simp add: loadPricingRows_def)

lemma load_distinct: "distinct (map fst (loadPricingRows rs))"
  by (induction rs rule: rev_induct) (simp_all add: load_step distinct_update, simp add: loadPricingRows_def)

lemma load_row: "map_of (loadPricingRows rs) k = Some p \<Longrightarrow> p \<in> set rs \<and> row_key p = k"
  by (induction rs rule: rev_induct) (auto simp: load_step update_conv loadPricingRows_def split: if_splits)

lemma load_entry: "(k, p) \<in> set (loadPricingRows rs) \<longleftrightarrow> map_of (loadPricingRows rs) k = Some p"
  by (simp add: load_distinct)

lemma rebuild_step: "rebuildPricingAliasIndexLocked (es @ [e]) = index_row e (rebuildPricingAliasIndexLocked es)"
  by (simp add: rebuildPricingAliasIndexLocked_def)

lemma row_alias_nonempty [simp]: "row_alias p \<noteq> []"
  by (simp add: row_alias_def canonicalAliasKey_def makeKey_def)

lemma alias_map: "map_of (index_row (f, p) index) = (if row_alias p = f then map_of index else (map_of index)(row_alias p \<mapsto> f))"
  by (simp add: index_row_def Let_def update_conv')

text \<open>An alias leads to a row with that canonical key, and a row that is not under its canonical key has an alias.\<close>

lemma alias_sound: "map_of (rebuildPricingAliasIndexLocked es) a = Some f \<Longrightarrow> \<exists>p. (f, p) \<in> set es \<and> row_alias p = a"
proof (induction es rule: rev_induct)
  case Nil
  then show ?case by (simp add: rebuildPricingAliasIndexLocked_def)
next
  case (snoc e es)
  obtain g q where e: "e = (g, q)" by (cases e)
  from snoc show ?case by (auto simp: e rebuild_step alias_map split: if_splits)
qed

lemma alias_complete: "(f, p) \<in> set es \<Longrightarrow> row_alias p \<noteq> f \<Longrightarrow> map_of (rebuildPricingAliasIndexLocked es) (row_alias p) \<noteq> None"
proof (induction es rule: rev_induct)
  case (snoc e es)
  obtain g q where e: "e = (g, q)" by (cases e)
  from snoc show ?case by (auto simp: e rebuild_step alias_map)
qed simp

lemma first_some_in: "first_some xs = Some x \<Longrightarrow> Some x \<in> set xs"
  by (induction xs rule: first_some.induct) auto

lemma first_some_None: "first_some xs = None \<longleftrightarrow> set xs \<subseteq> {None}"
  by (induction xs rule: first_some.induct) auto

lemma exact_keys_head: "exact_keys model provider requestType = makeKey model provider (normalizeRequestType requestType) # tl (exact_keys model provider requestType)"
  by (simp add: exact_keys_def Let_def)

text \<open>The keys under which the canonical form of a request is looked up.\<close>

definition alias_keys :: "string \<Rightarrow> string \<Rightarrow> string \<Rightarrow> string list" where
  "alias_keys model provider requestType =
     canonicalAliasKey model provider (normalizeRequestType requestType) #
     (if requestType = ''responses'' \<or> requestType = ''responses_stream'' then [canonicalAliasKey model provider (normalizeRequestType ''chat_completion'')] else [])"

lemma alias_rows_keys:
  "alias_rows ps model provider requestType =
     map (\<lambda>a. Option.bind (map_of (ps_pricingAlias ps) a) (map_of (ps_pricingData ps))) (alias_keys model provider requestType)"
  by (simp add: alias_rows_def alias_keys_def Let_def)

lemma loaded_sheet [simp]:
  "ps_pricingData (loadPricingFromDatabase records order) = loadPricingRows records"
  "ps_pricingAlias (loadPricingFromDatabase records order) = rebuildPricingAliasIndexLocked (order (loadPricingRows records))"
  by (simp_all add: loadPricingFromDatabase_def Let_def)

section \<open>The row of a request\<close>

text \<open> C22. The row that prices a request is one of the rows that were loaded, and it is there for a reason: its own key is one of
  those the request is looked up under, or its canonical key is.  A row under the exact key of the request comes first.
  The order in which the index was built does not matter for this.\<close>

theorem price_row_sound:
  assumes order: "mset (order (loadPricingRows records)) = mset (loadPricingRows records)"
    and found: "getPricing (loadPricingFromDatabase records order) model provider requestType = Some p"
  shows "p \<in> set records \<and>
    (row_key p \<in> set (exact_keys model provider requestType) \<or> row_alias p \<in> set (alias_keys model provider requestType)) \<and>
    (case map_of (loadPricingRows records) (makeKey model provider (normalizeRequestType requestType)) of Some q \<Rightarrow> p = q | None \<Rightarrow> True)"
proof (intro conjI)
  consider k where "k \<in> set (exact_keys model provider requestType)" "map_of (loadPricingRows records) k = Some p"
    | a f where "a \<in> set (alias_keys model provider requestType)"
      "map_of (rebuildPricingAliasIndexLocked (order (loadPricingRows records))) a = Some f" "map_of (loadPricingRows records) f = Some p"
    using first_some_in [OF found [unfolded getPricing_def]]
    by (auto simp: alias_rows_keys eq_commute [of "Some p"] bind_eq_Some_conv)
  then have "p \<in> set records \<and>
    (row_key p \<in> set (exact_keys model provider requestType) \<or> row_alias p \<in> set (alias_keys model provider requestType))"
  proof cases
    case 1
    with load_row [of records] show ?thesis by blast
  next
    case 2
    from alias_sound [OF 2(2)] obtain q where "(f, q) \<in> set (loadPricingRows records)" "row_alias q = a"
      using order by (metis set_mset_mset)
    with 2(3) have "row_alias p = a" unfolding load_entry by auto
    with 2 load_row [of records] show ?thesis by blast
  qed
  then show "p \<in> set records"
    and "row_key p \<in> set (exact_keys model provider requestType) \<or> row_alias p \<in> set (alias_keys model provider requestType)"
    by blast+
  show "case map_of (loadPricingRows records) (makeKey model provider (normalizeRequestType requestType)) of Some q \<Rightarrow> p = q | None \<Rightarrow> True"
    using found by (subst (asm) getPricing_def, subst (asm) exact_keys_head) (auto split: option.split)
qed

text \<open>A request whose canonical form is that of a loaded row finds a price, whatever the order in which the index was built,
  if that row is not itself under its canonical key.\<close>

theorem snapshot_priced:
  assumes order: "mset (order (loadPricingRows records)) = mset (loadPricingRows records)"
    and row: "map_of (loadPricingRows records) k = Some q" "row_alias q \<noteq> k"
    and request: "row_alias q \<in> set (alias_keys model provider requestType)"
  shows "\<exists>p. getPricing (loadPricingFromDatabase records order) model provider requestType = Some p"
proof -
  let ?entries = "order (loadPricingRows records)"
  have entries: "set ?entries = set (loadPricingRows records)" using order by (metis set_mset_mset)
  then have "(k, q) \<in> set ?entries" using row by (simp add: map_of_SomeD)
  from alias_complete [OF this row(2)] obtain f where f: "map_of (rebuildPricingAliasIndexLocked ?entries) (row_alias q) = Some f"
    by blast
  from alias_sound [OF f] obtain p where "map_of (loadPricingRows records) f = Some p"
    unfolding entries load_entry by blast
  with f request have "Some p \<in> set (alias_rows (loadPricingFromDatabase records order) model provider requestType)"
    by (force simp: alias_rows_keys)
  then have "getPricing (loadPricingFromDatabase records order) model provider requestType \<noteq> None"
    unfolding getPricing_def first_some_None by auto
  then show ?thesis by blast
qed

section \<open>Examples\<close>

text \<open>A row with the two basic rates only.\<close>

definition basic_row :: "string \<Rightarrow> string \<Rightarrow> string \<Rightarrow> rat \<Rightarrow> rat \<Rightarrow> TableModelPricing" where
  "basic_row model provider mode input output =
     \<lparr>pr_Model = model, pr_BaseModel = [], pr_Provider = provider, pr_Mode = mode, pr_InputCostPerToken = input, pr_OutputCostPerToken = output,
      pr_InputCostPerTokenBatches = None, pr_OutputCostPerTokenBatches = None, pr_InputCostPerCharacter = None,
      pr_InputCostPerTokenAbove128kTokens = None, pr_InputCostPerImageAbove128kTokens = None, pr_InputCostPerVideoPerSecondAbove128kTokens = None,
      pr_InputCostPerAudioPerSecondAbove128kTokens = None, pr_OutputCostPerTokenAbove128kTokens = None, pr_InputCostPerTokenAbove200kTokens = None,
      pr_OutputCostPerTokenAbove200kTokens = None, pr_CacheCreationInputTokenCost = None, pr_CacheReadInputTokenCost = None,
      pr_CacheCreationInputTokenCostAbove200kTokens = None, pr_CacheReadInputTokenCostAbove200kTokens = None, pr_InputCostPerImage = None,
      pr_InputCostPerPixel = None, pr_OutputCostPerImage = None, pr_OutputCostPerPixel = None, pr_OutputCostPerImageAbove512x512Pixels = None,
      pr_OutputCostPerImageAbove1024x1024Pixels = None, pr_OutputCostPerImageAbove2048x2048Pixels = None,
      pr_OutputCostPerImageAbove4096x4096Pixels = None, pr_OutputCostPerImageLowQuality = None, pr_OutputCostPerImageMediumQuality = None,
      pr_OutputCostPerImageHighQuality = None, pr_OutputCostPerImageAutoQuality = None, pr_InputCostPerImageToken = None,
      pr_OutputCostPerImageToken = None, pr_InputCostPerAudioToken = None, pr_InputCostPerAudioPerSecond = None, pr_InputCostPerSecond = None,
      pr_InputCostPerVideoPerSecond = None, pr_OutputCostPerAudioToken = None, pr_OutputCostPerVideoPerSecond = None, pr_OutputCostPerSecond = None,
      pr_SearchContextCostPerQuery = None\<rparr>"

text \<open>Two snapshots of one model, the second at half the price.\<close>

definition demo_snapshots :: "TableModelPricing list" where
  "demo_snapshots =
     [basic_row ''gpt-4o-2024-05-13'' ''openai'' ''chat'' (1 / 200000) (3 / 200000), basic_row ''gpt-4o-2024-08-06'' ''openai'' ''chat'' (1 / 400000) (1 / 100000)]"

lemma demo_aliases:
  "map row_alias demo_snapshots = [''gpt-4o|openai|chat'', ''gpt-4o|openai|chat'']"
  by code_simp

theorem price_row_sound_witness:
  "row_key (basic_row ''gpt-4o-2024-05-13'' ''openai'' ''chat'' (1 / 200000) (3 / 200000)) \<in> set (exact_keys ''gpt-4o-2024-05-13'' ''openai'' ''chat_completion'') \<or>
   row_alias (basic_row ''gpt-4o-2024-05-13'' ''openai'' ''chat'' (1 / 200000) (3 / 200000)) \<in> set (alias_keys ''gpt-4o-2024-05-13'' ''openai'' ''chat_completion'')"
proof -
  have "getPricing (loadPricingFromDatabase demo_snapshots id) ''gpt-4o-2024-05-13'' ''openai'' ''chat_completion'' =
      Some (basic_row ''gpt-4o-2024-05-13'' ''openai'' ''chat'' (1 / 200000) (3 / 200000))"
    by code_simp
  from price_row_sound [of id, OF _ this] show ?thesis by simp
qed

theorem snapshot_priced_witness:
  "\<exists>p. getPricing (loadPricingFromDatabase demo_snapshots rev) ''openai/gpt-4o'' ''openai'' ''chat_completion'' = Some p"
proof (rule snapshot_priced)
  show "mset (rev (loadPricingRows demo_snapshots)) = mset (loadPricingRows demo_snapshots)" by simp
  show "map_of (loadPricingRows demo_snapshots) ''gpt-4o-2024-05-13|openai|chat'' = Some (hd demo_snapshots)" by code_simp
  show "row_alias (hd demo_snapshots) \<noteq> ''gpt-4o-2024-05-13|openai|chat''" by code_simp
  show "row_alias (hd demo_snapshots) \<in> set (alias_keys ''openai/gpt-4o'' ''openai'' ''chat_completion'')" by code_simp
qed

text \<open> Which of two snapshots prices the name without a date depends on the order in which the loop over the map of the rows meets
  them, which the language leaves open: the same rows give two prices.\<close>

theorem alias_order_matters:
  "map_option pr_InputCostPerToken (getPricing (loadPricingFromDatabase demo_snapshots id) ''gpt-4o'' ''openai'' ''chat_completion'') = Some (1 / 400000) \<and>
   map_option pr_InputCostPerToken (getPricing (loadPricingFromDatabase demo_snapshots rev) ''gpt-4o'' ''openai'' ''chat_completion'') = Some (1 / 200000)"
  by code_simp

text \<open>A row that is under its canonical key already gets no alias: a name that is not canonical does not find it.\<close>

theorem canonical_row_unreachable:
  "getPricing (loadPricingFromDatabase [basic_row ''gpt-4o'' ''openai'' ''chat'' (1 / 400000) (1 / 100000)] id) ''gpt-4o-latest'' ''openai'' ''chat_completion'' = None \<and>
   canonicalizeModelName ''gpt-4o-latest'' = ''gpt-4o''"
  by code_simp

theorem canonical_not_idempotent:
  "canonicalizeModelName ''openrouter/openai/gpt-4o'' = ''openai/gpt-4o'' \<and> canonicalizeModelName ''openai/gpt-4o'' = ''gpt-4o''"
  by code_simp

end
