(* ===== verification/PricingOverrides.thy ===== *)
theory PricingOverrides
  imports PriceRows
begin

text \<open>
  The price overrides of a provider: \<^verbatim>\<open>framework/modelcatalog/overrides.go\<close>.  Go's regular expressions are an argument:
  what a pattern compiles to, if it does.

  The wildcard matcher agrees with a matcher by definition, and the override that is chosen is the first among the best
  of those that apply.
\<close>

section \<open>Compiled overrides\<close>

record ProviderPricingOverride =
  po_ModelPattern :: string
  po_MatchType :: string
  po_RequestTypes :: "string list"
  po_InputCostPerToken :: "rat option"
  po_OutputCostPerToken :: "rat option"
  po_InputCostPerVideoPerSecond :: "rat option"
  po_InputCostPerAudioPerSecond :: "rat option"
  po_InputCostPerCharacter :: "rat option"
  po_InputCostPerTokenAbove128kTokens :: "rat option"
  po_InputCostPerImageAbove128kTokens :: "rat option"
  po_InputCostPerVideoPerSecondAbove128kTokens :: "rat option"
  po_InputCostPerAudioPerSecondAbove128kTokens :: "rat option"
  po_OutputCostPerTokenAbove128kTokens :: "rat option"
  po_InputCostPerTokenAbove200kTokens :: "rat option"
  po_OutputCostPerTokenAbove200kTokens :: "rat option"
  po_CacheCreationInputTokenCostAbove200kTokens :: "rat option"
  po_CacheReadInputTokenCostAbove200kTokens :: "rat option"
  po_CacheReadInputTokenCost :: "rat option"
  po_CacheCreationInputTokenCost :: "rat option"
  po_InputCostPerTokenBatches :: "rat option"
  po_OutputCostPerTokenBatches :: "rat option"
  po_InputCostPerImageToken :: "rat option"
  po_OutputCostPerImageToken :: "rat option"
  po_InputCostPerImage :: "rat option"
  po_OutputCostPerImage :: "rat option"
  po_OutputCostPerImageAbove1024x1024Pixels :: "rat option"
  po_OutputCostPerImageAbove2048x2048Pixels :: "rat option"
  po_OutputCostPerImageAbove4096x4096Pixels :: "rat option"
  po_OutputCostPerImageLowQuality :: "rat option"
  po_OutputCostPerImageMediumQuality :: "rat option"
  po_OutputCostPerImageHighQuality :: "rat option"
  po_OutputCostPerImageAutoQuality :: "rat option"

type_synonym matcher = "string \<Rightarrow> bool"

record compiledProviderPricingOverride =
  co_override :: ProviderPricingOverride
  co_regex :: "matcher option"
  co_requestModes :: "string list"
  co_hasRequestFilter :: bool
  co_literalChars :: nat
  co_order :: nat

datatype override_error =
  EmptyPattern
| NoWildcard
| InvalidRegex
| UnsupportedMatchType string
| UnsupportedRequestType string

text \<open>The modes of the request types, up to the first that has none.\<close>

fun request_modes :: "string list \<Rightarrow> override_error + string list" where
  "request_modes [] = Inr []"
| "request_modes (t # ts) =
     (if normalizeRequestType t = ''unknown'' then Inl (UnsupportedRequestType t)
      else (case request_modes ts of Inl e \<Rightarrow> Inl e | Inr ms \<Rightarrow> Inr (List.insert (normalizeRequestType t) ms)))"

text \<open>What the match type makes of a pattern: the compiled expression and the number of literal characters.\<close>

definition compile_pattern :: "(string \<Rightarrow> matcher option) \<Rightarrow> string \<Rightarrow> string \<Rightarrow> override_error + (matcher option \<times> nat)" where
  "compile_pattern Compile matchType pattern =
     (if matchType = ''exact'' then Inr (None, length pattern)
      else if matchType = ''wildcard''
      then (if CHR ''*'' \<notin> set pattern then Inl NoWildcard else Inr (None, length (filter (\<lambda>c. c \<noteq> CHR ''*'') pattern)))
      else if matchType = ''regex''
      then (case Compile pattern of None \<Rightarrow> Inl InvalidRegex | Some re \<Rightarrow> Inr (Some re, length pattern))
      else Inl (UnsupportedMatchType matchType))"

definition compileProviderPricingOverride ::
  "(string \<Rightarrow> matcher option) \<Rightarrow> nat \<Rightarrow> ProviderPricingOverride \<Rightarrow> override_error + compiledProviderPricingOverride" where
  "compileProviderPricingOverride Compile order ov =
     (let pattern = TrimSpace (po_ModelPattern ov) in
      if pattern = [] then Inl EmptyPattern
      else
        (case compile_pattern Compile (po_MatchType ov) pattern of
           Inl e \<Rightarrow> Inl e
         | Inr (re, literal) \<Rightarrow>
             (case request_modes (po_RequestTypes ov) of
                Inl e \<Rightarrow> Inl e
              | Inr modes \<Rightarrow>
                  Inr \<lparr>co_override = ov\<lparr>po_ModelPattern := pattern\<rparr>, co_regex = re, co_requestModes = modes,
                       co_hasRequestFilter = (po_RequestTypes ov \<noteq> []), co_literalChars = literal, co_order = order\<rparr>)))"

fun compile_all ::
  "(string \<Rightarrow> matcher option) \<Rightarrow> nat \<Rightarrow> ProviderPricingOverride list \<Rightarrow> (nat \<times> override_error) + compiledProviderPricingOverride list" where
  "compile_all Compile i [] = Inr []"
| "compile_all Compile i (ov # ovs) =
     (case compileProviderPricingOverride Compile i ov of
        Inl e \<Rightarrow> Inl (i, e)
      | Inr c \<Rightarrow> (case compile_all Compile (Suc i) ovs of Inl e \<Rightarrow> Inl e | Inr cs \<Rightarrow> Inr (c # cs)))"

type_synonym override_map = "(string \<times> compiledProviderPricingOverride list) list"

text \<open>A list with a bad override is refused as a whole, with its index; the map keeps what it had.\<close>

definition SetProviderPricingOverrides ::
  "(string \<Rightarrow> matcher option) \<Rightarrow> override_map \<Rightarrow> string \<Rightarrow> ProviderPricingOverride list \<Rightarrow> (nat \<times> override_error) + override_map" where
  "SetProviderPricingOverrides Compile m provider overrides =
     (case compile_all Compile 0 overrides of
        Inl e \<Rightarrow> Inl e
      | Inr compiled \<Rightarrow> Inr (if compiled = [] then AList.delete provider m else AList.update provider compiled m))"

definition DeleteProviderPricingOverrides :: "override_map \<Rightarrow> string \<Rightarrow> override_map" where
  "DeleteProviderPricingOverrides m provider = AList.delete provider m"

section \<open>Matching\<close>

text \<open>\<open>strings.Index\<close>: where the first occurrence starts.\<close>

fun Index :: "string \<Rightarrow> string \<Rightarrow> nat option" where
  "Index s sub = (if HasPrefix s sub then Some 0 else (case s of [] \<Rightarrow> None | c # cs \<Rightarrow> map_option Suc (Index cs sub)))"

text \<open>The middle parts, each at its first occurrence; the rest of the name after them.\<close>

fun skip_parts :: "string list \<Rightarrow> string \<Rightarrow> string option" where
  "skip_parts [] remaining = Some remaining"
| "skip_parts (part # parts) remaining =
     (if part = [] then skip_parts parts remaining
      else (case Index remaining part of None \<Rightarrow> None | Some i \<Rightarrow> skip_parts parts (drop (i + length part) remaining)))"

definition wildcardMatch :: "string \<Rightarrow> string \<Rightarrow> bool" where
  "wildcardMatch pattern model =
     (let parts = split_byte CHR ''*'' pattern in
      if length parts = 1 then model = pattern
      else if \<not> HasPrefix model (hd parts) then False
      else
        (case skip_parts (butlast (tl parts)) (drop (length (hd parts)) model) of
           None \<Rightarrow> False
         | Some remaining \<Rightarrow> HasSuffix remaining (last parts)))"

definition matchesModel :: "compiledProviderPricingOverride \<Rightarrow> string \<Rightarrow> bool" where
  "matchesModel c model =
     (let matchType = po_MatchType (co_override c); pattern = po_ModelPattern (co_override c) in
      if matchType = ''exact'' then model = pattern
      else if matchType = ''wildcard'' then wildcardMatch pattern model
      else if matchType = ''regex'' then (case co_regex c of Some re \<Rightarrow> re model | None \<Rightarrow> False)
      else False)"

definition matchesAnyModel :: "compiledProviderPricingOverride \<Rightarrow> string list \<Rightarrow> bool" where
  "matchesAnyModel c models = list_ex (matchesModel c) models"

definition overridePriority :: "string \<Rightarrow> nat" where
  "overridePriority matchType =
     (if matchType = ''exact'' then 0 else if matchType = ''wildcard'' then 1 else if matchType = ''regex'' then 2 else 3)"

definition isBetterOverride :: "compiledProviderPricingOverride \<Rightarrow> compiledProviderPricingOverride option \<Rightarrow> bool" where
  "isBetterOverride candidate best =
     (case best of
        None \<Rightarrow> True
      | Some b \<Rightarrow>
          (let candidatePriority = overridePriority (po_MatchType (co_override candidate));
               bestPriority = overridePriority (po_MatchType (co_override b))
           in if candidatePriority \<noteq> bestPriority then candidatePriority < bestPriority
              else if co_hasRequestFilter candidate \<noteq> co_hasRequestFilter b then co_hasRequestFilter candidate
              else if co_literalChars candidate \<noteq> co_literalChars b then co_literalChars candidate > co_literalChars b
              else co_order candidate < co_order b))"

definition override_applies :: "string list \<Rightarrow> string \<Rightarrow> compiledProviderPricingOverride \<Rightarrow> bool" where
  "override_applies models mode c \<longleftrightarrow> (co_hasRequestFilter c \<longrightarrow> mode \<in> set (co_requestModes c)) \<and> matchesAnyModel c models"

definition selectBestOverride ::
  "compiledProviderPricingOverride list \<Rightarrow> string list \<Rightarrow> string \<Rightarrow> compiledProviderPricingOverride option" where
  "selectBestOverride overrides models mode =
     fold (\<lambda>c best. if override_applies models mode c \<and> isBetterOverride c best then Some c else best) overrides None"

section \<open>Application\<close>

definition patched :: "rat option \<Rightarrow> rat option \<Rightarrow> rat option" where
  "patched new old = (if new = None then old else new)"

definition patchPricing :: "TableModelPricing \<Rightarrow> ProviderPricingOverride \<Rightarrow> TableModelPricing" where
  "patchPricing pricing ov = pricing
     \<lparr>pr_InputCostPerToken := (case po_InputCostPerToken ov of Some r \<Rightarrow> r | None \<Rightarrow> pr_InputCostPerToken pricing),
      pr_OutputCostPerToken := (case po_OutputCostPerToken ov of Some r \<Rightarrow> r | None \<Rightarrow> pr_OutputCostPerToken pricing),
      pr_InputCostPerVideoPerSecond := patched (po_InputCostPerVideoPerSecond ov) (pr_InputCostPerVideoPerSecond pricing),
      pr_InputCostPerAudioPerSecond := patched (po_InputCostPerAudioPerSecond ov) (pr_InputCostPerAudioPerSecond pricing),
      pr_InputCostPerTokenAbove200kTokens := patched (po_InputCostPerTokenAbove200kTokens ov) (pr_InputCostPerTokenAbove200kTokens pricing),
      pr_OutputCostPerTokenAbove200kTokens := patched (po_OutputCostPerTokenAbove200kTokens ov) (pr_OutputCostPerTokenAbove200kTokens pricing),
      pr_CacheCreationInputTokenCostAbove200kTokens := patched (po_CacheCreationInputTokenCostAbove200kTokens ov) (pr_CacheCreationInputTokenCostAbove200kTokens pricing),
      pr_CacheReadInputTokenCostAbove200kTokens := patched (po_CacheReadInputTokenCostAbove200kTokens ov) (pr_CacheReadInputTokenCostAbove200kTokens pricing),
      pr_CacheReadInputTokenCost := patched (po_CacheReadInputTokenCost ov) (pr_CacheReadInputTokenCost pricing),
      pr_CacheCreationInputTokenCost := patched (po_CacheCreationInputTokenCost ov) (pr_CacheCreationInputTokenCost pricing),
      pr_InputCostPerTokenBatches := patched (po_InputCostPerTokenBatches ov) (pr_InputCostPerTokenBatches pricing),
      pr_OutputCostPerTokenBatches := patched (po_OutputCostPerTokenBatches ov) (pr_OutputCostPerTokenBatches pricing),
      pr_InputCostPerImage := patched (po_InputCostPerImage ov) (pr_InputCostPerImage pricing),
      pr_OutputCostPerImage := patched (po_OutputCostPerImage ov) (pr_OutputCostPerImage pricing),
      pr_OutputCostPerImageLowQuality := patched (po_OutputCostPerImageLowQuality ov) (pr_OutputCostPerImageLowQuality pricing),
      pr_OutputCostPerImageMediumQuality := patched (po_OutputCostPerImageMediumQuality ov) (pr_OutputCostPerImageMediumQuality pricing),
      pr_OutputCostPerImageHighQuality := patched (po_OutputCostPerImageHighQuality ov) (pr_OutputCostPerImageHighQuality pricing),
      pr_OutputCostPerImageAutoQuality := patched (po_OutputCostPerImageAutoQuality ov) (pr_OutputCostPerImageAutoQuality pricing)\<rparr>"

definition applyPricingOverrides :: "override_map \<Rightarrow> string \<Rightarrow> string \<Rightarrow> string \<Rightarrow> TableModelPricing \<Rightarrow> TableModelPricing" where
  "applyPricingOverrides m provider model requestType pricing =
     (case map_of m provider of
        None \<Rightarrow> pricing
      | Some overrides \<Rightarrow>
          (case selectBestOverride overrides [model] (normalizeRequestType requestType) of
             None \<Rightarrow> pricing
           | Some best \<Rightarrow> patchPricing pricing (co_override best)))"

section \<open>Wildcards\<close>

text \<open>A star stands for any string.\<close>

primrec glob :: "string \<Rightarrow> string \<Rightarrow> bool" where
  "glob [] s \<longleftrightarrow> s = []"
| "glob (c # p) s \<longleftrightarrow>
     (if c = CHR ''*'' then list_ex (glob p) (suffixes s) else (case s of [] \<Rightarrow> False | d # s' \<Rightarrow> c = d \<and> glob p s'))"

text \<open>The parts after a star: each somewhere after the one before, the last at the end.\<close>

fun spread :: "string list \<Rightarrow> string \<Rightarrow> bool" where
  "spread [] s \<longleftrightarrow> False"
| "spread [w] s \<longleftrightarrow> suffix w s"
| "spread (w # ws) s \<longleftrightarrow> (\<exists>u v. s = u @ w @ v \<and> spread ws v)"

lemma Index_prefix: "HasPrefix s w \<Longrightarrow> Index s w = Some 0"
  by (cases s) simp_all

lemma Index_first: "\<not> HasPrefix (c # s) w \<Longrightarrow> Index (c # s) w = map_option Suc (Index s w)"
  by simp

declare Index.simps [simp del]

lemma HasSuffix_iff_suffix: "HasSuffix s w \<longleftrightarrow> suffix w s"
  by (auto simp: HasSuffix_def suffix_def) (metis append_take_drop_id)

text \<open>The first occurrence leaves the longest rest.\<close>

lemma Index_Some:
  "Index s w = Some i \<Longrightarrow> (\<exists>u. s = u @ w @ drop (i + length w) s) \<and> (\<forall>u v. s = u @ w @ v \<longrightarrow> suffix v (drop (i + length w) s))"
proof (induction s arbitrary: i)
  case Nil
  then show ?case by (subst (asm) Index.simps) (auto split: if_splits simp: HasPrefix_iff_prefix)
next
  case (Cons c s)
  show ?case
  proof (cases "HasPrefix (c # s) w")
    case True
    with Cons.prems have "i = 0" by (simp add: Index_prefix)
    moreover from True obtain r where r: "c # s = w @ r" by (auto simp: HasPrefix_iff_prefix prefix_def)
    moreover have "suffix v r" if "w @ r = u @ w @ v" for u v
    proof -
      from that have "length v \<le> length r" by (metis add.commute add_le_cancel_right le_add2 length_append)
      with that show ?thesis by (metis suffix_append suffix_length_suffix suffix_def append.assoc)
    qed
    moreover have "drop (0 + length w) (c # s) = r" unfolding r by simp
    ultimately show ?thesis by (metis append_Nil)
  next
    case False
    with Cons.prems obtain j where j: "i = Suc j" "Index s w = Some j" by (auto simp: Index_first)
    note Cons.IH [OF j(2)]
    then obtain u where u: "s = u @ w @ drop (j + length w) s"
      and longest: "\<And>u v. s = u @ w @ v \<Longrightarrow> suffix v (drop (j + length w) s)"
      by auto
    from u have "c # s = (c # u) @ w @ drop (i + length w) (c # s)" by (simp add: j)
    moreover have "suffix v (drop (i + length w) (c # s))" if "c # s = u @ w @ v" for u v
      using that False longest by (cases u) (auto simp: j HasPrefix_iff_prefix)
    ultimately show ?thesis by blast
  qed
qed

lemma Index_None: "Index s w = None \<longleftrightarrow> (\<nexists>u v. s = u @ w @ v)"
proof (induction s)
  case Nil
  then show ?case by (subst Index.simps) (auto simp: HasPrefix_iff_prefix)
next
  case (Cons c s)
  have "(\<exists>u v. c # s = u @ w @ v) \<longleftrightarrow> prefix w (c # s) \<or> (\<exists>u v. s = u @ w @ v)"
  proof
    assume "\<exists>u v. c # s = u @ w @ v"
    then obtain u v where "c # s = u @ w @ v" by blast
    then show "prefix w (c # s) \<or> (\<exists>u v. s = u @ w @ v)" by (cases u) auto
  next
    assume "prefix w (c # s) \<or> (\<exists>u v. s = u @ w @ v)"
    then show "\<exists>u v. c # s = u @ w @ v" by (metis append_Cons append_Nil prefix_def)
  qed
  with Cons show ?case
    by (cases "HasPrefix (c # s) w") (auto simp: Index_prefix Index_first HasPrefix_iff_prefix)
qed

lemma spread_suffix: "spread ws v \<Longrightarrow> suffix v s \<Longrightarrow> spread ws s"
proof (induction ws v rule: spread.induct)
  case (3 w x xs v)
  from 3(2,3) obtain a u r where "s = (a @ u) @ w @ r" "spread (x # xs) r" by (auto simp: suffix_def)
  then show ?case by (auto simp del: append_assoc)
qed (auto intro: suffix_order.trans)

text \<open>An empty part is skipped, and is anywhere.\<close>

lemma skip_parts_spread:
  "(case skip_parts ws s of None \<Rightarrow> False | Some r \<Rightarrow> HasSuffix r w) \<longleftrightarrow> spread (ws @ [w]) s"
proof (induction ws arbitrary: s)
  case Nil
  then show ?case by (simp add: HasSuffix_iff_suffix)
next
  case (Cons x xs)
  have step: "spread ((x # xs) @ [w]) s \<longleftrightarrow> (\<exists>u v. s = u @ x @ v \<and> spread (xs @ [w]) v)"
    by (cases xs) simp_all
  show ?case
  proof (cases "x = []")
    case True
    then show ?thesis
      using Cons step spread_suffix [of "xs @ [w]"] by (auto simp: suffix_def)
  next
    case False
    show ?thesis
    proof (cases "Index s x")
      case None
      then have "\<nexists>u v. s = u @ x @ v" by (rule iffD1 [OF Index_None])
      then show ?thesis using step False None by simp
    next
      case (Some i)
      define r where "r = drop (i + length x) s"
      have "(\<exists>u. s = u @ x @ r) \<and> (\<forall>u v. s = u @ x @ v \<longrightarrow> suffix v r)"
        unfolding r_def by (rule Index_Some [OF Some])
      then have "spread ((x # xs) @ [w]) s \<longleftrightarrow> spread (xs @ [w]) r"
        unfolding step using spread_suffix [of "xs @ [w]"] by blast
      then show ?thesis using Cons [of r] False Some by (simp add: r_def)
    qed
  qed
qed

lemma glob_literal: "CHR ''*'' \<notin> set w \<Longrightarrow> glob (w @ p) s \<longleftrightarrow> (\<exists>v. s = w @ v \<and> glob p v)"
  by (induction w arbitrary: s) (auto split: list.splits)

lemma glob_star: "glob (CHR ''*'' # p) s \<longleftrightarrow> (\<exists>u v. s = u @ v \<and> glob p v)"
  by (auto simp: list_ex_iff suffix_def) blast

lemma glob_text: "CHR ''*'' \<notin> set w \<Longrightarrow> glob w s \<longleftrightarrow> s = w"
  using glob_literal [of w "[]" s] by simp

text \<open>A pattern is a text, or a text, a star and a pattern.\<close>

lemma star_cases:
  obtains "CHR ''*'' \<notin> set p" | w q where "p = w @ CHR ''*'' # q" "CHR ''*'' \<notin> set w"
  using split_list_first [of "CHR ''*''" p] by blast

lemma glob_spread: "glob (CHR ''*'' # p) s \<longleftrightarrow> spread (split_byte CHR ''*'' p) s"
proof (induction "length p" arbitrary: p s rule: less_induct)
  case less
  show ?case
  proof (cases p rule: star_cases)
    case 1
    then show ?thesis by (auto simp: glob_star glob_text split_byte_single suffix_def simp del: glob.simps)
  next
    case (2 w q)
    obtain x xs where q: "split_byte CHR ''*'' q = x # xs" by (cases "split_byte CHR ''*'' q") simp_all
    have "glob p v \<longleftrightarrow> (\<exists>r. v = w @ r \<and> glob (CHR ''*'' # q) r)" for v
      unfolding 2(1) by (rule glob_literal [OF 2(2)])
    then have "glob (CHR ''*'' # p) s \<longleftrightarrow> (\<exists>u v. s = u @ w @ v \<and> glob (CHR ''*'' # q) v)"
      unfolding glob_star [of p] by auto
    then show ?thesis
      using less [of q] 2 by (simp add: split_byte_append q del: glob.simps)
  qed
qed

text \<open> The wildcard matcher of the price overrides accepts a model name for a pattern exactly if the pattern describes it, a star
  standing for any string: searching each middle part at its first occurrence loses no match.\<close>

theorem wildcard_is_glob: "wildcardMatch pattern model \<longleftrightarrow> glob pattern model"
proof (cases pattern rule: star_cases)
  case 1
  then show ?thesis by (auto simp: wildcardMatch_def split_byte_single glob_text)
next
  case (2 w q)
  define qs where "qs = split_byte CHR ''*'' q"
  then have "qs \<noteq> []" by simp
  have "split_byte CHR ''*'' pattern = w # qs" using 2 by (simp add: split_byte_append qs_def)
  then have "wildcardMatch pattern model \<longleftrightarrow> HasPrefix model w \<and> spread qs (drop (length w) model)"
    using skip_parts_spread [where ws = "butlast qs" and w = "last qs"] \<open>qs \<noteq> []\<close>
    by (simp add: wildcardMatch_def Let_def cong: option.case_cong)
  also have "\<dots> \<longleftrightarrow> (\<exists>v. model = w @ v \<and> glob (CHR ''*'' # q) v)"
    unfolding glob_spread qs_def by (auto simp: HasPrefix_iff_prefix prefix_def)
  also have "\<dots> \<longleftrightarrow> glob pattern model"
    using 2 glob_literal [of w "CHR ''*'' # q" model] by simp
  finally show ?thesis .
qed

section \<open>The best override\<close>

text \<open>The order of preference: match type, request filter, literal characters, position in the list.  The smaller the better.\<close>

definition rank :: "compiledProviderPricingOverride \<Rightarrow> int list" where
  "rank c = [int (overridePriority (po_MatchType (co_override c))), if co_hasRequestFilter c then 0 else 1, - int (co_literalChars c), int (co_order c)]"

lemma better_rank: "isBetterOverride c (Some b) \<longleftrightarrow> rank c < rank b"
  by (auto simp: isBetterOverride_def rank_def Let_def)

text \<open> The loop over the overrides of a provider picks, among those that apply to the model and the kind of request, one that no
  other that applies comes before in the order of preference: exact before wildcard before regular expression, then with
  a request filter, then with more literal characters, then earlier in the list.  It picks none only if none applies.\<close>

theorem best_override:
  "case selectBestOverride overrides models mode of
     None \<Rightarrow> filter (override_applies models mode) overrides = []
   | Some b \<Rightarrow> b \<in> set overrides \<and> override_applies models mode b \<and> list_all (\<lambda>c. rank b \<le> rank c) (filter (override_applies models mode) overrides)"
proof (induction overrides rule: rev_induct)
  case Nil
  then show ?case by (simp add: selectBestOverride_def)
next
  case (snoc c cs)
  have step: "selectBestOverride (cs @ [c]) models mode =
    (if override_applies models mode c \<and> isBetterOverride c (selectBestOverride cs models mode) then Some c else selectBestOverride cs models mode)"
    by (simp add: selectBestOverride_def)
  show ?case
  proof (cases "selectBestOverride cs models mode")
    case None
    with snoc step show ?thesis by (auto simp: isBetterOverride_def)
  next
    case (Some b)
    with snoc step show ?thesis by (auto simp: better_rank list_all_iff)
  qed
qed

section \<open>What an override cannot change\<close>

text \<open>The rate for a character, the rates above 128 thousand tokens, for image tokens and for large images are fields of an
  override that \<open>patchPricing\<close> does not read.\<close>

theorem override_fields_ignored:
  "patchPricing pricing
     (ov\<lparr>po_InputCostPerCharacter := r0, po_InputCostPerTokenAbove128kTokens := r1, po_InputCostPerImageAbove128kTokens := r2,
         po_InputCostPerVideoPerSecondAbove128kTokens := r3, po_InputCostPerAudioPerSecondAbove128kTokens := r4, po_OutputCostPerTokenAbove128kTokens := r5,
         po_InputCostPerImageToken := r6, po_OutputCostPerImageToken := r7, po_OutputCostPerImageAbove1024x1024Pixels := r8,
         po_OutputCostPerImageAbove2048x2048Pixels := r9, po_OutputCostPerImageAbove4096x4096Pixels := r10\<rparr>) = patchPricing pricing ov"
  by (simp add: patchPricing_def)

end
