(* ===== verification/Pricing.thy ===== *)
theory Pricing
  imports PriceRows
begin

text \<open>
  The cost of a response and what was saved on it: \<^verbatim>\<open>framework/modelcatalog/pricing.go\<close>.

  A cost is a sequence of roundings on \<open>float64\<close>, one for each operation; counters are 64-bit integers.  A response is
  reduced to what the functions read of it: a part that needs both a response and its usage is there when both are.
\<close>

section \<open>Usage\<close>

record PromptTokensDetails =
  pt_CachedReadTokens :: int
  pt_CachedWriteTokens :: int

record CompletionTokensDetails =
  ct_ReasoningTokens :: int
  ct_NumSearchQueries :: "int option"

record LLMUsage =
  us_PromptTokens :: int
  us_PromptTokensDetails :: "PromptTokensDetails option"
  us_CompletionTokens :: int
  us_CompletionTokensDetails :: "CompletionTokensDetails option"
  us_TotalTokens :: int
  us_TotalCost :: "rat option"

record ResponsesUsage =
  ru_InputTokens :: int
  ru_InputTokensDetails :: "PromptTokensDetails option"
  ru_OutputTokens :: int
  ru_OutputTokensDetails :: "CompletionTokensDetails option"
  ru_TotalTokens :: int
  ru_TotalCost :: "rat option"

record SpeechUsage =
  su_InputTokens :: int
  su_OutputTokens :: int
  su_TotalTokens :: int
  su_InputChars :: int

record TranscriptionUsage =
  tu_InputTokens :: "int option"
  tu_OutputTokens :: "int option"
  tu_TotalTokens :: "int option"
  tu_Seconds :: "int option"
  tu_InputTokenDetails :: "(int \<times> int) option"

record ImageTokenDetails =
  it_NImages :: int
  it_ImageTokens :: int
  it_TextTokens :: int

record ImageUsage =
  iu_InputTokens :: int
  iu_InputTokensDetails :: "ImageTokenDetails option"
  iu_TotalTokens :: int
  iu_OutputTokens :: int
  iu_OutputTokensDetails :: "ImageTokenDetails option"
  iu_NumInputImages :: int

record CacheDebug =
  cd_CacheHit :: bool
  cd_HitType :: "string option"
  cd_ProviderUsed :: "string option"
  cd_ModelUsed :: "string option"
  cd_InputTokens :: "int option"

text \<open>An image response: its usage, the number of images and, if given, size and quality.\<close>

record ImageResponse =
  im_Usage :: "ImageUsage option"
  im_DataLen :: nat
  im_Parameters :: "(string \<times> string) option"

record ReasoningDebug =
  rd_Applied :: bool
  rd_OriginalEffort :: string
  rd_AppliedEffort :: string

record CompressionDebug =
  cp_Applied :: bool
  cp_OriginalTokens :: int
  cp_CompressedTokens :: int

record RagDebug =
  rg_Applied :: bool
  rg_TrimmedTokens :: int

record SummarizationDebug =
  sm_Applied :: bool
  sm_SavedTokens :: int

record ConsistencyDebug =
  cn_Applied :: bool
  cn_Model :: string
  cn_AvoidedPromptTokens :: int
  cn_AvoidedCompletionTokens :: int

record PricedResponse =
  rs_Text :: "LLMUsage option"
  rs_Chat :: "LLMUsage option"
  rs_Responses :: "ResponsesUsage option"
  rs_ResponsesStream :: "ResponsesUsage option"
  rs_Embedding :: "LLMUsage option"
  rs_Rerank :: "LLMUsage option"
  rs_Speech :: "SpeechUsage option"
  rs_SpeechStream :: "SpeechUsage option"
  rs_Transcription :: "TranscriptionUsage option"
  rs_TranscriptionStream :: "TranscriptionUsage option"
  rs_Image :: "ImageResponse option"
  rs_ImageStream :: "ImageResponse option"
  rs_VideoSeconds :: "string option"
  rs_Provider :: string
  rs_ModelRequested :: string
  rs_ModelDeployment :: string
  rs_RequestType :: string
  rs_CacheDebug :: "CacheDebug option"
  rs_ReasoningDebug :: "ReasoningDebug option"
  rs_CompressionDebug :: "CompressionDebug option"
  rs_RagDebug :: "RagDebug option"
  rs_SummarizationDebug :: "SummarizationDebug option"
  rs_ConsistencyDebug :: "ConsistencyDebug option"

record costInput =
  ci_usage :: "LLMUsage option"
  ci_audioTextInputChars :: int
  ci_audioSeconds :: "int option"
  ci_audioTokenDetails :: "(int \<times> int) option"
  ci_imageUsage :: "ImageUsage option"
  ci_imageSize :: string
  ci_imageQuality :: string
  ci_videoSeconds :: "int option"

text \<open>\<open>float64(n) * rate\<close>.\<close>

definition tokens_cost :: "int \<Rightarrow> rat \<Rightarrow> rat" where
  "tokens_cost n rate = f_mul (fl (of_int n)) rate"

definition f_sub :: "rat \<Rightarrow> rat \<Rightarrow> rat" where
  "f_sub x y = fl (x - y)"

section \<open>Rates\<close>

text \<open>A rate that needs more than a number of tokens and is configured, or else the next one.\<close>

definition tier :: "bool \<Rightarrow> rat option \<Rightarrow> rat \<Rightarrow> rat" where
  "tier reached rate other = (case rate of Some r \<Rightarrow> if reached then r else other | None \<Rightarrow> other)"

definition tieredInputRate :: "TableModelPricing \<Rightarrow> int \<Rightarrow> rat" where
  "tieredInputRate p totalTokens =
     tier (totalTokens > 200000) (pr_InputCostPerTokenAbove200kTokens p)
       (tier (totalTokens > 128000) (pr_InputCostPerTokenAbove128kTokens p) (pr_InputCostPerToken p))"

definition tieredOutputRate :: "TableModelPricing \<Rightarrow> int \<Rightarrow> rat" where
  "tieredOutputRate p totalTokens =
     tier (totalTokens > 200000) (pr_OutputCostPerTokenAbove200kTokens p)
       (tier (totalTokens > 128000) (pr_OutputCostPerTokenAbove128kTokens p) (pr_OutputCostPerToken p))"

definition tieredImageInputRate :: "TableModelPricing \<Rightarrow> int \<Rightarrow> rat" where
  "tieredImageInputRate p totalTokens =
     tier (totalTokens > 128000) (pr_InputCostPerImageAbove128kTokens p)
       (tier True (pr_InputCostPerImageToken p) (tieredInputRate p totalTokens))"

definition tieredImageOutputRate :: "TableModelPricing \<Rightarrow> int \<Rightarrow> rat" where
  "tieredImageOutputRate p totalTokens = tier True (pr_OutputCostPerImageToken p) (tieredOutputRate p totalTokens)"

definition tieredAudioInputPerSecondRate :: "TableModelPricing \<Rightarrow> int \<Rightarrow> rat" where
  "tieredAudioInputPerSecondRate p totalTokens =
     tier (totalTokens > 128000) (pr_InputCostPerAudioPerSecondAbove128kTokens p)
       (tier True (pr_InputCostPerAudioPerSecond p) (tier True (pr_InputCostPerSecond p) 0))"

definition tieredVideoInputPerSecondRate :: "TableModelPricing \<Rightarrow> int \<Rightarrow> rat" where
  "tieredVideoInputPerSecondRate p totalTokens =
     tier (totalTokens > 128000) (pr_InputCostPerVideoPerSecondAbove128kTokens p) (tier True (pr_InputCostPerVideoPerSecond p) 0)"

definition tieredAudioTokenInputRate :: "TableModelPricing \<Rightarrow> int \<Rightarrow> rat" where
  "tieredAudioTokenInputRate p totalTokens = tier True (pr_InputCostPerAudioToken p) (tieredInputRate p totalTokens)"

definition tieredAudioTokenOutputRate :: "TableModelPricing \<Rightarrow> int \<Rightarrow> rat" where
  "tieredAudioTokenOutputRate p totalTokens = tier True (pr_OutputCostPerAudioToken p) (tieredOutputRate p totalTokens)"

definition tieredCacheReadInputTokenRate :: "TableModelPricing \<Rightarrow> int \<Rightarrow> rat" where
  "tieredCacheReadInputTokenRate p totalTokens =
     tier (totalTokens > 200000) (pr_CacheReadInputTokenCostAbove200kTokens p)
       (tier True (pr_CacheReadInputTokenCost p) (tieredInputRate p totalTokens))"

definition tieredCacheCreationInputTokenRate :: "TableModelPricing \<Rightarrow> int \<Rightarrow> rat" where
  "tieredCacheCreationInputTokenRate p totalTokens =
     tier (totalTokens > 200000) (pr_CacheCreationInputTokenCostAbove200kTokens p)
       (tier True (pr_CacheCreationInputTokenCost p) (tieredInputRate p totalTokens))"

definition safeTotalTokens :: "LLMUsage option \<Rightarrow> int" where
  "safeTotalTokens usage = (case usage of None \<Rightarrow> 0 | Some u \<Rightarrow> us_TotalTokens u)"

section \<open>Costs by kind of request\<close>

definition search_cost :: "TableModelPricing \<Rightarrow> LLMUsage \<Rightarrow> rat" where
  "search_cost p u =
     (case (pr_SearchContextCostPerQuery p, Option.bind (us_CompletionTokensDetails u) ct_NumSearchQueries) of (Some rate, Some n) \<Rightarrow> tokens_cost n rate | _ \<Rightarrow> 0)"

text \<open>The prompt tokens outside the cache, read from it and written to it, clamped.\<close>

definition prompt_split :: "LLMUsage \<Rightarrow> int \<times> int \<times> int" where
  "prompt_split u =
     (let promptTokens = us_PromptTokens u;
          (read0, write0) = (case us_PromptTokensDetails u of None \<Rightarrow> (0, 0) | Some d \<Rightarrow> (pt_CachedReadTokens d, pt_CachedWriteTokens d));
          cachedReadTokens = (if read0 > promptTokens then promptTokens else read0);
          cachedWriteTokens = (if write0 > wrap64 (promptTokens - cachedReadTokens) then wrap64 (promptTokens - cachedReadTokens) else write0)
      in (wrap64 (wrap64 (promptTokens - cachedReadTokens) - cachedWriteTokens), cachedReadTokens, cachedWriteTokens))"

definition computeTextCost :: "TableModelPricing \<Rightarrow> LLMUsage option \<Rightarrow> rat" where
  "computeTextCost p usage =
     (case usage of
        None \<Rightarrow> 0
      | Some u \<Rightarrow>
          (let totalTokens = us_TotalTokens u;
               (nonCachedPrompt, cachedReadTokens, cachedWriteTokens) = prompt_split u;
               cost1 = tokens_cost nonCachedPrompt (tieredInputRate p totalTokens);
               cost2 = (if cachedReadTokens > 0 then f_add cost1 (tokens_cost cachedReadTokens (tieredCacheReadInputTokenRate p totalTokens)) else cost1);
               inputCost = (if cachedWriteTokens > 0 then f_add cost2 (tokens_cost cachedWriteTokens (tieredCacheCreationInputTokenRate p totalTokens)) else cost2);
               outputCost = tokens_cost (us_CompletionTokens u) (tieredOutputRate p totalTokens)
           in f_add (f_add inputCost outputCost) (search_cost p u)))"

definition computeEmbeddingCost :: "TableModelPricing \<Rightarrow> LLMUsage option \<Rightarrow> rat" where
  "computeEmbeddingCost p usage =
     (case usage of None \<Rightarrow> 0 | Some u \<Rightarrow> tokens_cost (us_PromptTokens u) (tieredInputRate p (us_TotalTokens u)))"

definition computeRerankCost :: "TableModelPricing \<Rightarrow> LLMUsage option \<Rightarrow> rat" where
  "computeRerankCost p usage =
     (case usage of
        None \<Rightarrow> 0
      | Some u \<Rightarrow>
          f_add (f_add (tokens_cost (us_PromptTokens u) (tieredInputRate p (us_TotalTokens u)))
                       (tokens_cost (us_CompletionTokens u) (tieredOutputRate p (us_TotalTokens u)))) (search_cost p u))"

text \<open>What a positive count costs; nothing otherwise.\<close>

definition if_positive :: "int option \<Rightarrow> (int \<Rightarrow> rat) \<Rightarrow> rat \<Rightarrow> rat" where
  "if_positive n cost other = (case n of Some k \<Rightarrow> if k > 0 then cost k else other | None \<Rightarrow> other)"

definition computeAudioInputCost :: "TableModelPricing \<Rightarrow> LLMUsage option \<Rightarrow> int option \<Rightarrow> (int \<times> int) option \<Rightarrow> int \<Rightarrow> rat" where
  "computeAudioInputCost p usage audioSeconds audioTokenDetails totalTokens =
     (let plain = if_positive (map_option us_PromptTokens usage) (\<lambda>n. tokens_cost n (tieredInputRate p totalTokens))
                    (if_positive audioSeconds
                       (\<lambda>n. let rate = tieredAudioInputPerSecondRate p totalTokens in if rate > 0 then tokens_cost n rate else 0) 0)
      in case audioTokenDetails of
           Some (audio, txt) \<Rightarrow>
             if audio > 0 \<or> txt > 0
             then f_add (tokens_cost audio (tieredAudioTokenInputRate p totalTokens)) (tokens_cost txt (tieredInputRate p totalTokens))
             else plain
         | None \<Rightarrow> plain)"

definition computeAudioOutputCost :: "TableModelPricing \<Rightarrow> LLMUsage option \<Rightarrow> int option \<Rightarrow> int \<Rightarrow> rat" where
  "computeAudioOutputCost p usage audioSeconds totalTokens =
     if_positive (map_option us_CompletionTokens usage) (\<lambda>n. tokens_cost n (tieredAudioTokenOutputRate p totalTokens))
       (if_positive audioSeconds (\<lambda>n. case pr_OutputCostPerSecond p of Some rate \<Rightarrow> tokens_cost n rate | None \<Rightarrow> 0) 0)"

definition computeSpeechCost :: "TableModelPricing \<Rightarrow> LLMUsage option \<Rightarrow> int option \<Rightarrow> int \<Rightarrow> rat" where
  "computeSpeechCost p usage audioSeconds audioTextInputChars =
     (let totalTokens = safeTotalTokens usage;
          inputCost =
            (if audioTextInputChars > 0
             then (case pr_InputCostPerCharacter p of
                     Some rate \<Rightarrow> tokens_cost audioTextInputChars rate
                   | None \<Rightarrow> tokens_cost audioTextInputChars (tieredInputRate p totalTokens))
             else if_positive (map_option us_PromptTokens usage) (\<lambda>n. tokens_cost n (tieredInputRate p totalTokens)) 0)
      in f_add inputCost (computeAudioOutputCost p usage audioSeconds totalTokens))"

definition computeTranscriptionCost :: "TableModelPricing \<Rightarrow> LLMUsage option \<Rightarrow> int option \<Rightarrow> (int \<times> int) option \<Rightarrow> rat" where
  "computeTranscriptionCost p usage audioSeconds audioTokenDetails =
     (let totalTokens = safeTotalTokens usage
      in f_add (computeAudioInputCost p usage audioSeconds audioTokenDetails totalTokens)
           (if_positive (map_option us_CompletionTokens usage) (\<lambda>n. tokens_cost n (tieredOutputRate p totalTokens)) 0))"

definition parseImagePixels :: "string \<Rightarrow> int" where
  "parseImagePixels sz =
     (case index_byte sz CHR ''x'' of
        None \<Rightarrow> 0
      | Some i \<Rightarrow>
          (case (Atoi (take i sz), Atoi (drop (Suc i) sz)) of
             (Some w, Some h) \<Rightarrow> if w \<le> 0 \<or> h \<le> 0 then 0 else wrap64 (w * h)
           | _ \<Rightarrow> 0))"

definition computeImageInputCost :: "TableModelPricing \<Rightarrow> ImageUsage \<Rightarrow> int \<Rightarrow> int \<Rightarrow> rat" where
  "computeImageInputCost p iu totalTokens pixels =
     (let (inputImageTokens, inputTextTokens) =
            (case iu_InputTokensDetails iu of Some d \<Rightarrow> (it_ImageTokens d, it_TextTokens d) | None \<Rightarrow> (0, iu_InputTokens iu));
          perImage = (case pr_InputCostPerImage p of
                        Some rate \<Rightarrow> if iu_NumInputImages iu > 0 then tokens_cost (iu_NumInputImages iu) rate else 0
                      | None \<Rightarrow> 0)
      in if inputTextTokens > 0 \<or> inputImageTokens > 0
         then f_add (tokens_cost inputTextTokens (tieredInputRate p totalTokens)) (tokens_cost inputImageTokens (tieredImageInputRate p totalTokens))
         else
           (case pr_InputCostPerPixel p of
              Some rate \<Rightarrow>
                if pixels > 0 \<and> iu_NumInputImages iu > 0 then tokens_cost (wrap64 (pixels * iu_NumInputImages iu)) rate else perImage
            | None \<Rightarrow> perImage))"

definition output_images :: "ImageUsage \<Rightarrow> int" where
  "output_images iu = (case iu_OutputTokensDetails iu of Some d \<Rightarrow> if it_NImages d > 0 then it_NImages d else 1 | None \<Rightarrow> 1)"

definition quality_rate :: "TableModelPricing \<Rightarrow> string \<Rightarrow> rat option" where
  "quality_rate p imageQuality =
     (let q = (if imageQuality = [] then ''auto'' else imageQuality) in
      if q = ''low'' then pr_OutputCostPerImageLowQuality p
      else if q = ''medium'' then pr_OutputCostPerImageMediumQuality p
      else if q = ''high'' then pr_OutputCostPerImageHighQuality p
      else if q = ''auto'' then pr_OutputCostPerImageAutoQuality p
      else None)"

definition size_rate :: "TableModelPricing \<Rightarrow> int \<Rightarrow> rat option" where
  "size_rate p pixels =
     (if pixels \<ge> 4096 * 4096 \<and> pr_OutputCostPerImageAbove4096x4096Pixels p \<noteq> None then pr_OutputCostPerImageAbove4096x4096Pixels p
      else if pixels \<ge> 2048 * 2048 \<and> pr_OutputCostPerImageAbove2048x2048Pixels p \<noteq> None then pr_OutputCostPerImageAbove2048x2048Pixels p
      else if pixels \<ge> 1024 * 1024 \<and> pr_OutputCostPerImageAbove1024x1024Pixels p \<noteq> None then pr_OutputCostPerImageAbove1024x1024Pixels p
      else if pixels \<ge> 512 * 512 \<and> pr_OutputCostPerImageAbove512x512Pixels p \<noteq> None then pr_OutputCostPerImageAbove512x512Pixels p
      else pr_OutputCostPerImage p)"

definition computeImageOutputCost :: "TableModelPricing \<Rightarrow> ImageUsage \<Rightarrow> int \<Rightarrow> int \<Rightarrow> string \<Rightarrow> rat" where
  "computeImageOutputCost p iu totalTokens pixels imageQuality =
     (let (outputImageTokens, outputTextTokens) =
            (case iu_OutputTokensDetails iu of Some d \<Rightarrow> (it_ImageTokens d, it_TextTokens d) | None \<Rightarrow> (iu_OutputTokens iu, 0));
          perImageRate = (case quality_rate p imageQuality of Some r \<Rightarrow> Some r | None \<Rightarrow> size_rate p pixels);
          perImage = (case perImageRate of Some rate \<Rightarrow> tokens_cost (output_images iu) rate | None \<Rightarrow> 0)
      in if outputTextTokens > 0 \<or> outputImageTokens > 0
         then f_add (tokens_cost outputTextTokens (tieredOutputRate p totalTokens)) (tokens_cost outputImageTokens (tieredImageOutputRate p totalTokens))
         else
           (case pr_OutputCostPerPixel p of
              Some rate \<Rightarrow> if pixels > 0 then tokens_cost (wrap64 (pixels * output_images iu)) rate else perImage
            | None \<Rightarrow> perImage))"

definition computeImageCost :: "TableModelPricing \<Rightarrow> ImageUsage option \<Rightarrow> string \<Rightarrow> string \<Rightarrow> rat" where
  "computeImageCost p imageUsage imageSize imageQuality =
     (case imageUsage of
        None \<Rightarrow> 0
      | Some iu \<Rightarrow>
          (let totalTokens = iu_TotalTokens iu; pixels = parseImagePixels imageSize
           in f_add (computeImageInputCost p iu totalTokens pixels) (computeImageOutputCost p iu totalTokens pixels imageQuality)))"

definition computeVideoCost :: "TableModelPricing \<Rightarrow> LLMUsage option \<Rightarrow> int option \<Rightarrow> rat" where
  "computeVideoCost p usage videoSeconds =
     (let totalTokens = safeTotalTokens usage;
          inputCost = if_positive (map_option us_PromptTokens usage) (\<lambda>n. tokens_cost n (tieredInputRate p totalTokens))
            (if_positive videoSeconds
               (\<lambda>n. let rate = tieredVideoInputPerSecondRate p totalTokens in if rate > 0 then tokens_cost n rate else 0) 0);
          outputCost = if_positive (map_option us_CompletionTokens usage) (\<lambda>n. tokens_cost n (tieredOutputRate p totalTokens))
            (if_positive videoSeconds
               (\<lambda>n. case pr_OutputCostPerVideoPerSecond p of
                      Some rate \<Rightarrow> tokens_cost n rate
                    | None \<Rightarrow> (case pr_OutputCostPerSecond p of Some rate \<Rightarrow> tokens_cost n rate | None \<Rightarrow> 0)) 0)
      in f_add inputCost outputCost)"

section \<open>Extraction of the usage\<close>

definition empty_input :: costInput where
  "empty_input = \<lparr>ci_usage = None, ci_audioTextInputChars = 0, ci_audioSeconds = None, ci_audioTokenDetails = None, ci_imageUsage = None,
     ci_imageSize = [], ci_imageQuality = [], ci_videoSeconds = None\<rparr>"

definition responsesUsageToDeepIntShieldUsage :: "ResponsesUsage \<Rightarrow> LLMUsage" where
  "responsesUsageToDeepIntShieldUsage u =
     \<lparr>us_PromptTokens = ru_InputTokens u, us_PromptTokensDetails = ru_InputTokensDetails u, us_CompletionTokens = ru_OutputTokens u,
      us_CompletionTokensDetails = ru_OutputTokensDetails u, us_TotalTokens = ru_TotalTokens u, us_TotalCost = ru_TotalCost u\<rparr>"

definition speechUsageToDeepIntShieldUsage :: "SpeechUsage \<Rightarrow> LLMUsage" where
  "speechUsageToDeepIntShieldUsage u =
     \<lparr>us_PromptTokens = su_InputTokens u, us_PromptTokensDetails = None, us_CompletionTokens = su_OutputTokens u,
      us_CompletionTokensDetails = None, us_TotalTokens = su_TotalTokens u, us_TotalCost = None\<rparr>"

definition extractTranscriptionUsage :: "TranscriptionUsage \<Rightarrow> LLMUsage \<times> int option \<times> (int \<times> int) option" where
  "extractTranscriptionUsage u =
     (let prompt = (case tu_InputTokens u of Some n \<Rightarrow> n | None \<Rightarrow> 0);
          completion = (case tu_OutputTokens u of Some n \<Rightarrow> n | None \<Rightarrow> 0)
      in (\<lparr>us_PromptTokens = prompt, us_PromptTokensDetails = None, us_CompletionTokens = completion, us_CompletionTokensDetails = None,
           us_TotalTokens = (case tu_TotalTokens u of Some n \<Rightarrow> n | None \<Rightarrow> wrap64 (prompt + completion)), us_TotalCost = None\<rparr>,
          tu_Seconds u, tu_InputTokenDetails u))"

definition empty_image_usage :: ImageUsage where
  "empty_image_usage = \<lparr>iu_InputTokens = 0, iu_InputTokensDetails = None, iu_TotalTokens = 0, iu_OutputTokens = 0, iu_OutputTokensDetails = None,
     iu_NumInputImages = 0\<rparr>"

definition populateOutputImageCount :: "ImageUsage \<Rightarrow> nat \<Rightarrow> ImageUsage" where
  "populateOutputImageCount iu dataLen =
     (if dataLen = 0 then iu
      else
        (let d = (case iu_OutputTokensDetails iu of Some d \<Rightarrow> d | None \<Rightarrow> \<lparr>it_NImages = 0, it_ImageTokens = 0, it_TextTokens = 0\<rparr>)
         in iu\<lparr>iu_OutputTokensDetails := Some (if it_NImages d = 0 then d\<lparr>it_NImages := int dataLen\<rparr> else d)\<rparr>))"

definition speech_input :: "SpeechUsage \<Rightarrow> costInput" where
  "speech_input u = empty_input\<lparr>ci_usage := Some (speechUsageToDeepIntShieldUsage u), ci_audioTextInputChars := su_InputChars u\<rparr>"

definition transcription_input :: "TranscriptionUsage \<Rightarrow> costInput" where
  "transcription_input u =
     (case extractTranscriptionUsage u of
        (usage, seconds, details) \<Rightarrow> empty_input\<lparr>ci_usage := Some usage, ci_audioSeconds := seconds, ci_audioTokenDetails := details\<rparr>)"

definition image_input :: "ImageResponse \<Rightarrow> costInput" where
  "image_input r =
     (let iu = populateOutputImageCount (case im_Usage r of Some u \<Rightarrow> u | None \<Rightarrow> empty_image_usage) (im_DataLen r);
          (sz, quality) = (case im_Parameters r of Some p \<Rightarrow> p | None \<Rightarrow> ([], []))
      in empty_input\<lparr>ci_imageUsage := Some iu, ci_imageSize := sz, ci_imageQuality := quality\<rparr>)"

text \<open>A streamed image response has no list of images; its size and quality are fields of its own.\<close>

definition image_stream_input :: "ImageResponse \<Rightarrow> costInput" where
  "image_stream_input r =
     (let (sz, quality) = (case im_Parameters r of Some p \<Rightarrow> p | None \<Rightarrow> ([], []))
      in empty_input\<lparr>ci_imageUsage := Some (case im_Usage r of Some u \<Rightarrow> u | None \<Rightarrow> empty_image_usage), ci_imageSize := sz, ci_imageQuality := quality\<rparr>)"

text \<open>The first kind of response that is there.\<close>

definition extractCostInput :: "PricedResponse \<Rightarrow> costInput" where
  "extractCostInput r =
     (let of_usage = map_option (\<lambda>u. empty_input\<lparr>ci_usage := Some u\<rparr>)
      in case first_some
           [of_usage (rs_Text r), of_usage (rs_Chat r), of_usage (map_option responsesUsageToDeepIntShieldUsage (rs_Responses r)),
            of_usage (map_option responsesUsageToDeepIntShieldUsage (rs_ResponsesStream r)), of_usage (rs_Embedding r),
            of_usage (rs_Rerank r), map_option speech_input (rs_Speech r), map_option speech_input (rs_SpeechStream r),
            map_option transcription_input (rs_Transcription r), map_option transcription_input (rs_TranscriptionStream r),
            map_option image_input (rs_Image r), map_option image_stream_input (rs_ImageStream r),
            map_option (\<lambda>s. empty_input\<lparr>ci_videoSeconds := Atoi s\<rparr>) (rs_VideoSeconds r)]
         of Some input \<Rightarrow> input | None \<Rightarrow> empty_input)"

section \<open>The cost of a response\<close>

definition cost_by_type :: "TableModelPricing \<Rightarrow> costInput \<Rightarrow> string \<Rightarrow> rat" where
  "cost_by_type p input requestType =
     (if requestType \<in> {''chat_completion'', ''text_completion'', ''responses''} then computeTextCost p (ci_usage input)
      else if requestType = ''embedding'' then computeEmbeddingCost p (ci_usage input)
      else if requestType = ''rerank'' then computeRerankCost p (ci_usage input)
      else if requestType = ''speech'' then computeSpeechCost p (ci_usage input) (ci_audioSeconds input) (ci_audioTextInputChars input)
      else if requestType = ''transcription''
      then computeTranscriptionCost p (ci_usage input) (ci_audioSeconds input) (ci_audioTokenDetails input)
      else if requestType \<in> {''image_generation'', ''image_edit'', ''image_variation''}
      then computeImageCost p (ci_imageUsage input) (ci_imageSize input) (ci_imageQuality input)
      else if requestType \<in> {''video_generation'', ''video_remix''} then computeVideoCost p (ci_usage input) (ci_videoSeconds input)
      else 0)"

definition calculateBaseCost :: "PriceSheet \<Rightarrow> PricedResponse \<Rightarrow> rat" where
  "calculateBaseCost ps r =
     (let input = extractCostInput r;
          billed = Option.bind (ci_usage input) us_TotalCost;
          requestType = normalizeStreamRequestType (rs_RequestType r);
          priced = (case resolvePricing ps (rs_Provider r) (rs_ModelRequested r) (rs_ModelDeployment r) requestType of
                      None \<Rightarrow> 0
                    | Some p \<Rightarrow> cost_by_type p input requestType);
          unbilled = (if ci_usage input = None \<and> ci_audioSeconds input = None \<and> ci_audioTokenDetails input = None \<and> ci_imageUsage input = None \<and>
                         ci_videoSeconds input = None \<and> ci_audioTextInputChars input = 0 then 0 else priced)
      in case billed of Some c \<Rightarrow> if c > 0 then c else unbilled | None \<Rightarrow> unbilled)"

definition computeCacheEmbeddingCost :: "PriceSheet \<Rightarrow> CacheDebug \<Rightarrow> rat" where
  "computeCacheEmbeddingCost ps d =
     (case (cd_ProviderUsed d, cd_ModelUsed d, cd_InputTokens d) of
        (Some provider, Some model, Some n) \<Rightarrow>
          (case getPricing ps model provider ''embedding'' of Some p \<Rightarrow> tokens_cost n (tieredInputRate p n) | None \<Rightarrow> 0)
      | _ \<Rightarrow> 0)"

definition calculateCostWithCache :: "PriceSheet \<Rightarrow> PricedResponse \<Rightarrow> CacheDebug \<Rightarrow> rat" where
  "calculateCostWithCache ps r d =
     (if cd_CacheHit d
      then (if cd_HitType d = Some ''direct'' then 0
            else if cd_HitType d = Some ''coalesced'' then 0
            else if cd_ProviderUsed d \<noteq> None \<and> cd_ModelUsed d \<noteq> None \<and> cd_InputTokens d \<noteq> None then computeCacheEmbeddingCost ps d
            else 0)
      else f_add (calculateBaseCost ps r) (computeCacheEmbeddingCost ps d))"

definition CalculateCost :: "PriceSheet \<Rightarrow> PricedResponse option \<Rightarrow> rat" where
  "CalculateCost ps result =
     (case result of
        None \<Rightarrow> 0
      | Some r \<Rightarrow> (case rs_CacheDebug r of Some d \<Rightarrow> calculateCostWithCache ps r d | None \<Rightarrow> calculateBaseCost ps r))"

definition CalculateCostBreakdown :: "PriceSheet \<Rightarrow> PricedResponse option \<Rightarrow> rat \<times> rat" where
  "CalculateCostBreakdown ps result =
     (case result of
        None \<Rightarrow> (0, 0)
      | Some r \<Rightarrow>
          (let actualCost = CalculateCost ps result in
           case rs_CacheDebug r of
             None \<Rightarrow> (actualCost, 0)
           | Some d \<Rightarrow>
               if \<not> cd_CacheHit d then (actualCost, 0)
               else
                 (let uncachedCost = calculateBaseCost ps r in
                  if uncachedCost \<le> 0 \<or> actualCost \<ge> uncachedCost then (actualCost, 0) else (actualCost, f_sub uncachedCost actualCost))))"

section \<open>Savings\<close>

text \<open>\<open>extra\<close> is never missing for the kinds of response the model has.\<close>

definition response_row :: "PriceSheet \<Rightarrow> PricedResponse \<Rightarrow> string \<Rightarrow> TableModelPricing option" where
  "response_row ps r requestType = resolvePricing ps (rs_Provider r) (rs_ModelRequested r) (rs_ModelDeployment r) requestType"

definition CalculatePromptCacheSavings :: "PriceSheet \<Rightarrow> PricedResponse option \<Rightarrow> rat" where
  "CalculatePromptCacheSavings ps result =
     (case result of
        None \<Rightarrow> 0
      | Some r \<Rightarrow>
          (let requestType = normalizeStreamRequestType (rs_RequestType r);
               usage = ci_usage (extractCostInput r)
           in if (case rs_CacheDebug r of Some d \<Rightarrow> cd_CacheHit d | None \<Rightarrow> False) then 0
              else if requestType \<notin> {''chat_completion'', ''text_completion'', ''responses''} then 0
              else
                (case (usage, Option.bind usage us_PromptTokensDetails) of
                   (Some u, Some d) \<Rightarrow>
                     if pt_CachedReadTokens d \<le> 0 \<and> pt_CachedWriteTokens d \<le> 0 then 0
                     else
                       (case response_row ps r requestType of
                          None \<Rightarrow> 0
                        | Some p \<Rightarrow>
                            (let totalTokens = us_TotalTokens u;
                                 inputRate = tieredInputRate p totalTokens;
                                 cacheReadRate = tieredCacheReadInputTokenRate p totalTokens;
                                 cacheCreationRate = tieredCacheCreationInputTokenRate p totalTokens;
                                 cachedRead = min (pt_CachedReadTokens d) (us_PromptTokens u);
                                 cachedWrite = min (pt_CachedWriteTokens d) (wrap64 (us_PromptTokens u - cachedRead))
                             in f_sub (tokens_cost cachedRead (f_sub inputRate cacheReadRate))
                                      (tokens_cost cachedWrite (f_sub cacheCreationRate inputRate))))
                 | _ \<Rightarrow> 0)))"

definition effortBudgetRatio :: "string \<Rightarrow> rat option" where
  "effortBudgetRatio =
     map_of [(''none'', 0), (''minimal'', 1 / 2), (''low'', 1), (''medium'', 3), (''high'', 12), (''auto'', 1)]"

definition CalculateReasoningSavings :: "PriceSheet \<Rightarrow> PricedResponse option \<Rightarrow> rat" where
  "CalculateReasoningSavings ps result =
     (case Option.bind result (\<lambda>r. map_option (Pair r) (rs_ReasoningDebug r)) of
        None \<Rightarrow> 0
      | Some (r, dbg) \<Rightarrow>
          (case (effortBudgetRatio (ToLower (TrimSpace (rd_OriginalEffort dbg))), effortBudgetRatio (ToLower (TrimSpace (rd_AppliedEffort dbg)))) of
             (Some origRatio, Some appliedRatio) \<Rightarrow>
               (let requestType = normalizeStreamRequestType (rs_RequestType r);
                    usage = ci_usage (extractCostInput r)
                in if \<not> rd_Applied dbg \<or> appliedRatio \<le> 0 \<or> origRatio \<le> appliedRatio then 0
                   else if requestType \<notin> {''chat_completion'', ''responses''} then 0
                   else
                     (case (usage, Option.bind usage us_CompletionTokensDetails) of
                        (Some u, Some d) \<Rightarrow>
                          if ct_ReasoningTokens d \<le> 0 then 0
                          else
                            (case response_row ps r requestType of
                               None \<Rightarrow> 0
                             | Some p \<Rightarrow>
                                 (let outputRate = tieredOutputRate p (us_TotalTokens u);
                                      actual = tokens_cost (ct_ReasoningTokens d) outputRate;
                                      saved = f_sub (f_mul actual (f_div origRatio appliedRatio)) actual
                                  in if outputRate \<le> 0 then 0 else if saved < 0 then 0 else saved))
                      | _ \<Rightarrow> 0))
           | _ \<Rightarrow> 0))"

text \<open>What the three savings on input tokens have in common: a number of tokens that were not sent, at the input rate.\<close>

definition input_savings :: "PriceSheet \<Rightarrow> PricedResponse \<Rightarrow> int \<Rightarrow> rat" where
  "input_savings ps r saved =
     (let requestType = normalizeStreamRequestType (rs_RequestType r) in
      if saved \<le> 0 then 0
      else if requestType \<notin> {''chat_completion'', ''responses'', ''text_completion''} then 0
      else
        (case response_row ps r requestType of
           None \<Rightarrow> 0
         | Some p \<Rightarrow>
             (let rate = tieredInputRate p (safeTotalTokens (ci_usage (extractCostInput r)))
              in if rate \<le> 0 then 0 else tokens_cost saved rate)))"

definition CalculateCompressionSavings :: "PriceSheet \<Rightarrow> PricedResponse option \<Rightarrow> rat" where
  "CalculateCompressionSavings ps result =
     (case Option.bind result (\<lambda>r. map_option (Pair r) (rs_CompressionDebug r)) of
        None \<Rightarrow> 0
      | Some (r, dbg) \<Rightarrow> if cp_Applied dbg then input_savings ps r (wrap64 (cp_OriginalTokens dbg - cp_CompressedTokens dbg)) else 0)"

definition CalculateRagSavings :: "PriceSheet \<Rightarrow> PricedResponse option \<Rightarrow> rat" where
  "CalculateRagSavings ps result =
     (case Option.bind result (\<lambda>r. map_option (Pair r) (rs_RagDebug r)) of
        None \<Rightarrow> 0
      | Some (r, dbg) \<Rightarrow> if rg_Applied dbg then input_savings ps r (rg_TrimmedTokens dbg) else 0)"

definition CalculateSummarizationSavings :: "PriceSheet \<Rightarrow> PricedResponse option \<Rightarrow> rat" where
  "CalculateSummarizationSavings ps result =
     (case Option.bind result (\<lambda>r. map_option (Pair r) (rs_SummarizationDebug r)) of
        None \<Rightarrow> 0
      | Some (r, dbg) \<Rightarrow> if sm_Applied dbg then input_savings ps r (sm_SavedTokens dbg) else 0)"

definition CalculateConsistencySavings :: "PriceSheet \<Rightarrow> PricedResponse option \<Rightarrow> rat" where
  "CalculateConsistencySavings ps result =
     (case Option.bind result (\<lambda>r. map_option (Pair r) (rs_ConsistencyDebug r)) of
        None \<Rightarrow> 0
      | Some (r, dbg) \<Rightarrow>
          (let requestType = normalizeStreamRequestType (rs_RequestType r);
               prompt = cn_AvoidedPromptTokens dbg;
               completion = cn_AvoidedCompletionTokens dbg;
               model = (if TrimSpace (cn_Model dbg) = [] then rs_ModelRequested r else cn_Model dbg)
           in if \<not> cn_Applied dbg \<or> prompt \<le> 0 \<and> completion \<le> 0 then 0
              else if requestType \<notin> {''chat_completion'', ''responses'', ''text_completion''} then 0
              else
                (case resolvePricing ps (rs_Provider r) model (rs_ModelDeployment r) requestType of
                   None \<Rightarrow> 0
                 | Some p \<Rightarrow>
                     (let totalTokens = wrap64 (prompt + completion);
                          saved = f_add (tokens_cost prompt (tieredInputRate p totalTokens)) (tokens_cost completion (tieredOutputRate p totalTokens))
                      in if saved < 0 then 0 else saved))))"

text \<open>The total that the logging plugin writes for a response.\<close>

definition total_savings :: "PriceSheet \<Rightarrow> PricedResponse \<Rightarrow> rat" where
  "total_savings ps r =
     fold (\<lambda>f acc. f_add acc (f ps (Some r)))
       [CalculatePromptCacheSavings, CalculateReasoningSavings, CalculateCompressionSavings, CalculateRagSavings,
        CalculateSummarizationSavings, CalculateConsistencySavings]
       (snd (CalculateCostBreakdown ps (Some r)))"

section \<open>No cost is negative\<close>

text \<open>The rates of a row are at least zero.\<close>

definition nonneg :: "rat option \<Rightarrow> bool" where
  "nonneg rate \<longleftrightarrow> (case rate of Some r \<Rightarrow> 0 \<le> r | None \<Rightarrow> True)"

definition rates_nonneg :: "TableModelPricing \<Rightarrow> bool" where
  "rates_nonneg p \<longleftrightarrow> 0 \<le> pr_InputCostPerToken p \<and> 0 \<le> pr_OutputCostPerToken p \<and>
     list_all nonneg
        [pr_InputCostPerTokenBatches p, pr_OutputCostPerTokenBatches p, pr_InputCostPerCharacter p, pr_InputCostPerTokenAbove128kTokens p,
         pr_InputCostPerImageAbove128kTokens p, pr_InputCostPerVideoPerSecondAbove128kTokens p, pr_InputCostPerAudioPerSecondAbove128kTokens p,
         pr_OutputCostPerTokenAbove128kTokens p, pr_InputCostPerTokenAbove200kTokens p, pr_OutputCostPerTokenAbove200kTokens p,
         pr_CacheCreationInputTokenCost p, pr_CacheReadInputTokenCost p, pr_CacheCreationInputTokenCostAbove200kTokens p,
         pr_CacheReadInputTokenCostAbove200kTokens p, pr_InputCostPerImage p, pr_InputCostPerPixel p, pr_OutputCostPerImage p,
         pr_OutputCostPerPixel p, pr_OutputCostPerImageAbove512x512Pixels p, pr_OutputCostPerImageAbove1024x1024Pixels p,
         pr_OutputCostPerImageAbove2048x2048Pixels p, pr_OutputCostPerImageAbove4096x4096Pixels p, pr_OutputCostPerImageLowQuality p,
         pr_OutputCostPerImageMediumQuality p, pr_OutputCostPerImageHighQuality p, pr_OutputCostPerImageAutoQuality p, pr_InputCostPerImageToken p,
         pr_OutputCostPerImageToken p, pr_InputCostPerAudioToken p, pr_InputCostPerAudioPerSecond p, pr_InputCostPerSecond p,
         pr_InputCostPerVideoPerSecond p, pr_OutputCostPerAudioToken p, pr_OutputCostPerVideoPerSecond p, pr_OutputCostPerSecond p,
         pr_SearchContextCostPerQuery p]"

text \<open>The counts of a usage.  The two counts of cached tokens may be anything that does not overflow.\<close>

definition small :: "int \<Rightarrow> bool" where
  "small n \<longleftrightarrow> \<bar>n\<bar> \<le> 2 ^ 60"

definition usage_sane :: "LLMUsage \<Rightarrow> bool" where
  "usage_sane u \<longleftrightarrow> 0 \<le> us_PromptTokens u \<and> small (us_PromptTokens u) \<and> 0 \<le> us_CompletionTokens u \<and>
     (case us_PromptTokensDetails u of None \<Rightarrow> True | Some d \<Rightarrow> small (pt_CachedReadTokens d) \<and> small (pt_CachedWriteTokens d)) \<and>
     (case Option.bind (us_CompletionTokensDetails u) ct_NumSearchQueries of None \<Rightarrow> True | Some n \<Rightarrow> 0 \<le> n)"

definition details_sane :: "ImageTokenDetails option \<Rightarrow> bool" where
  "details_sane d \<longleftrightarrow> (case d of None \<Rightarrow> True | Some t \<Rightarrow> 0 \<le> it_ImageTokens t \<and> 0 \<le> it_TextTokens t)"

definition image_sane :: "ImageUsage \<Rightarrow> int \<Rightarrow> bool" where
  "image_sane iu pixels \<longleftrightarrow> details_sane (iu_InputTokensDetails iu) \<and> details_sane (iu_OutputTokensDetails iu) \<and>
     pixels * iu_NumInputImages iu < 2 ^ 63 \<and> pixels * output_images iu < 2 ^ 63"

definition input_sane :: "costInput \<Rightarrow> bool" where
  "input_sane i \<longleftrightarrow>
     (case ci_usage i of None \<Rightarrow> True | Some u \<Rightarrow> usage_sane u) \<and>
     (case ci_audioTokenDetails i of None \<Rightarrow> True | Some (audio, txt) \<Rightarrow> 0 \<le> audio \<and> 0 \<le> txt) \<and>
     (case ci_imageUsage i of None \<Rightarrow> True | Some iu \<Rightarrow> image_sane iu (parseImagePixels (ci_imageSize i)))"

lemma fl_nonneg: "0 \<le> x \<Longrightarrow> 0 \<le> fl x"
  using fl_pos [of x] by (cases "x = 0") auto

lemma tokens_cost_nonneg [simp]: "0 \<le> n \<Longrightarrow> 0 \<le> rate \<Longrightarrow> 0 \<le> tokens_cost n rate"
  by (simp add: tokens_cost_def f_mul_def fl_nonneg)

lemma tokens_cost_float [simp]: "0 \<le> n \<Longrightarrow> 0 \<le> rate \<Longrightarrow> float64 (tokens_cost n rate)"
  by (simp add: tokens_cost_def f_mul_def fl_nonneg)

lemma f_add_no_tokens [simp]: "float64 c \<Longrightarrow> f_add c (tokens_cost 0 rate) = c"
  by (simp add: tokens_cost_def f_mul_def f_add_zero)

declare f_add_nonneg [simp]

lemma tier_nonneg: "nonneg rate \<Longrightarrow> 0 \<le> other \<Longrightarrow> 0 \<le> tier reached rate other"
  by (auto simp: tier_def nonneg_def split: option.splits)

lemma rate_nonneg [simp]:
  assumes "rates_nonneg p"
  shows "0 \<le> tieredInputRate p t" "0 \<le> tieredOutputRate p t" "0 \<le> tieredImageInputRate p t" "0 \<le> tieredImageOutputRate p t"
    "0 \<le> tieredAudioTokenInputRate p t" "0 \<le> tieredAudioTokenOutputRate p t" "0 \<le> tieredCacheReadInputTokenRate p t"
    "0 \<le> tieredCacheCreationInputTokenRate p t"
proof -
  note n = assms [unfolded rates_nonneg_def list.pred_inject]
  show i: "0 \<le> tieredInputRate p t" unfolding tieredInputRate_def using n by (blast intro: tier_nonneg)
  show o': "0 \<le> tieredOutputRate p t" unfolding tieredOutputRate_def using n by (blast intro: tier_nonneg)
  show "0 \<le> tieredImageInputRate p t" unfolding tieredImageInputRate_def using n i by (blast intro: tier_nonneg)
  show "0 \<le> tieredImageOutputRate p t" unfolding tieredImageOutputRate_def using n o' by (blast intro: tier_nonneg)
  show "0 \<le> tieredAudioTokenInputRate p t" unfolding tieredAudioTokenInputRate_def using n i by (blast intro: tier_nonneg)
  show "0 \<le> tieredAudioTokenOutputRate p t" unfolding tieredAudioTokenOutputRate_def using n o' by (blast intro: tier_nonneg)
  show "0 \<le> tieredCacheReadInputTokenRate p t" unfolding tieredCacheReadInputTokenRate_def using n i by (blast intro: tier_nonneg)
  show "0 \<le> tieredCacheCreationInputTokenRate p t" unfolding tieredCacheCreationInputTokenRate_def using n i by (blast intro: tier_nonneg)
qed

lemma row_rate_nonneg:
  assumes "rates_nonneg p"
  shows "nonneg (pr_SearchContextCostPerQuery p)" "nonneg (pr_InputCostPerCharacter p)" "nonneg (pr_OutputCostPerSecond p)"
    "nonneg (pr_OutputCostPerVideoPerSecond p)" "nonneg (pr_InputCostPerPixel p)" "nonneg (pr_InputCostPerImage p)" "nonneg (pr_OutputCostPerPixel p)"
  using assms unfolding rates_nonneg_def list.pred_inject by blast+

lemma search_cost_nonneg: "rates_nonneg p \<Longrightarrow> usage_sane u \<Longrightarrow> 0 \<le> search_cost p u"
  using row_rate_nonneg(1) [of p] by (auto simp: search_cost_def usage_sane_def nonneg_def split: option.splits)

text \<open>The two clamps keep what is billed at the ordinary rate from falling below zero, whatever the counts of cached tokens, and the
  three parts make up the prompt.\<close>

lemma prompt_split_parts:
  assumes u: "usage_sane u" and split: "prompt_split u = (n, r, w)"
  shows "0 \<le> n" "n + r + w = us_PromptTokens u"
    and "(case us_PromptTokensDetails u of None \<Rightarrow> True | Some d \<Rightarrow> 0 \<le> pt_CachedReadTokens d \<and> 0 \<le> pt_CachedWriteTokens d) \<Longrightarrow> 0 \<le> r \<and> 0 \<le> w"
proof -
  obtain r0 w0 where d: "(case us_PromptTokensDetails u of None \<Rightarrow> (0, 0) | Some d \<Rightarrow> (pt_CachedReadTokens d, pt_CachedWriteTokens d)) = (r0, w0)"
    by (metis surj_pair)
  have bounds: "\<bar>r0\<bar> \<le> 2 ^ 60" "\<bar>w0\<bar> \<le> 2 ^ 60" "0 \<le> us_PromptTokens u" "us_PromptTokens u \<le> 2 ^ 60"
    using u d by (auto simp: usage_sane_def small_def split: option.splits)
  have r: "r = min r0 (us_PromptTokens u)" and w: "w = min w0 (wrap64 (us_PromptTokens u - r))"
    and n: "n = wrap64 (wrap64 (us_PromptTokens u - r) - w)"
    using split by (auto simp: prompt_split_def d Let_def)
  have rest: "wrap64 (us_PromptTokens u - r) = us_PromptTokens u - r"
    using bounds by (intro wrap64_id) (auto simp: r int64_def min_def abs_le_iff)
  have "n = us_PromptTokens u - r - w"
    unfolding n rest using bounds by (intro wrap64_id) (auto simp: w rest r int64_def min_def abs_le_iff)
  then show "0 \<le> n" "n + r + w = us_PromptTokens u" by (simp_all add: w rest)
  show "0 \<le> r \<and> 0 \<le> w"
    if "case us_PromptTokensDetails u of None \<Rightarrow> True | Some d \<Rightarrow> 0 \<le> pt_CachedReadTokens d \<and> 0 \<le> pt_CachedWriteTokens d"
    using that d bounds unfolding w rest by (auto simp: r split: option.splits)
qed

lemma text_cost_nonneg: "rates_nonneg p \<Longrightarrow> usage_sane u \<Longrightarrow> 0 \<le> computeTextCost p (Some u)"
proof -
  assume p: "rates_nonneg p" and u: "usage_sane u"
  obtain n r w where s: "prompt_split u = (n, r, w)" by (metis surj_pair)
  have "0 \<le> us_CompletionTokens u" using u by (simp add: usage_sane_def)
  with prompt_split_parts(1) [OF u s] p search_cost_nonneg [OF p u] show ?thesis
    by (simp add: computeTextCost_def s Let_def)
qed

lemma if_positive_nonneg: "(\<And>k. 0 < k \<Longrightarrow> 0 \<le> cost k) \<Longrightarrow> 0 \<le> other \<Longrightarrow> 0 \<le> if_positive n cost other"
  by (simp add: if_positive_def split: option.split)

lemma some_rate_nonneg: "nonneg rate \<Longrightarrow> 0 \<le> n \<Longrightarrow> 0 \<le> (case rate of Some r \<Rightarrow> tokens_cost n r | None \<Rightarrow> 0)"
  by (simp add: nonneg_def split: option.splits)

lemma rerank_cost_nonneg: "rates_nonneg p \<Longrightarrow> usage_sane u \<Longrightarrow> 0 \<le> computeRerankCost p (Some u)"
  using search_cost_nonneg [of p u] by (simp add: computeRerankCost_def usage_sane_def)

lemma audio_output_nonneg: "rates_nonneg p \<Longrightarrow> 0 \<le> computeAudioOutputCost p usage seconds t"
  unfolding computeAudioOutputCost_def
  by (intro if_positive_nonneg) (use row_rate_nonneg(3) in \<open>auto intro: some_rate_nonneg\<close>)

lemma speech_cost_nonneg: "rates_nonneg p \<Longrightarrow> 0 \<le> computeSpeechCost p usage seconds chars"
  using row_rate_nonneg(2) [of p] audio_output_nonneg [of p]
  by (auto simp: computeSpeechCost_def Let_def nonneg_def intro!: f_add_nonneg if_positive_nonneg split: option.splits)

lemma transcription_cost_nonneg:
  assumes "rates_nonneg p" and "case details of None \<Rightarrow> True | Some (audio, txt) \<Rightarrow> 0 \<le> audio \<and> 0 \<le> txt"
  shows "0 \<le> computeTranscriptionCost p usage seconds details"
proof -
  have "0 \<le> computeAudioInputCost p usage seconds details t" for t
    using assms by (auto simp: computeAudioInputCost_def Let_def intro!: if_positive_nonneg split: option.splits)
  with assms show ?thesis
    by (auto simp: computeTranscriptionCost_def Let_def intro!: f_add_nonneg if_positive_nonneg)
qed

lemma video_cost_nonneg: "rates_nonneg p \<Longrightarrow> 0 \<le> computeVideoCost p usage seconds"
  using row_rate_nonneg(3,4) [of p]
  by (auto simp: computeVideoCost_def Let_def nonneg_def intro!: f_add_nonneg if_positive_nonneg split: option.splits)

lemma image_input_nonneg:
  assumes "rates_nonneg p" and "image_sane iu pixels"
  shows "0 \<le> computeImageInputCost p iu t pixels"
proof -
  have "wrap64 (pixels * iu_NumInputImages iu) = pixels * iu_NumInputImages iu" if "0 < pixels" "0 < iu_NumInputImages iu"
    using assms(2) that by (intro wrap64_id) (simp add: image_sane_def int64_def, smt (verit) mult_pos_pos)
  with assms row_rate_nonneg(5,6) [OF assms(1)] show ?thesis
    by (auto simp: computeImageInputCost_def Let_def image_sane_def details_sane_def nonneg_def split: option.splits)
qed

lemma output_images_pos: "0 < output_images iu"
  by (simp add: output_images_def split: option.split)

lemma quality_rate_nonneg: "rates_nonneg p \<Longrightarrow> nonneg (quality_rate p q)"
  unfolding quality_rate_def Let_def rates_nonneg_def list.pred_inject by (simp add: nonneg_def)

lemma size_rate_nonneg: "rates_nonneg p \<Longrightarrow> nonneg (size_rate p pixels)"
  unfolding size_rate_def rates_nonneg_def list.pred_inject by simp

lemma image_output_nonneg:
  assumes "rates_nonneg p" and "image_sane iu pixels"
  shows "0 \<le> computeImageOutputCost p iu t pixels q"
proof -
  have "wrap64 (pixels * output_images iu) = pixels * output_images iu" if "0 < pixels"
    using assms(2) that output_images_pos [of iu]
    by (intro wrap64_id) (simp add: image_sane_def int64_def, smt (verit) mult_pos_pos)
  with assms row_rate_nonneg(7) [OF assms(1)] quality_rate_nonneg [OF assms(1), of q] size_rate_nonneg [OF assms(1), of pixels]
    output_images_pos [of iu]
  show ?thesis
    by (auto simp: computeImageOutputCost_def Let_def image_sane_def details_sane_def nonneg_def split: option.splits)
qed

lemma cost_by_type_nonneg: "rates_nonneg p \<Longrightarrow> input_sane i \<Longrightarrow> 0 \<le> cost_by_type p i requestType"
  unfolding cost_by_type_def input_sane_def
  using text_cost_nonneg [of p] rerank_cost_nonneg [of p] speech_cost_nonneg [of p] transcription_cost_nonneg [of p]
    video_cost_nonneg [of p] image_input_nonneg [of p] image_output_nonneg [of p]
  by (auto simp: computeEmbeddingCost_def computeImageCost_def Let_def usage_sane_def computeTextCost_def computeRerankCost_def split: option.splits)

lemma getPricing_row: "getPricing ps model provider requestType = Some p \<Longrightarrow> p \<in> snd ` set (ps_pricingData ps)"
  unfolding getPricing_def
  by (drule first_some_in) (force simp: alias_rows_keys eq_commute [of "Some p"] bind_eq_Some_conv dest: map_of_SomeD)

lemma resolvePricing_row: "resolvePricing ps provider model deployment requestType = Some p \<Longrightarrow> p \<in> snd ` set (ps_pricingData ps)"
  unfolding resolvePricing_def by (auto dest: getPricing_row split: option.splits if_splits)

definition sheet_nonneg :: "PriceSheet \<Rightarrow> bool" where
  "sheet_nonneg ps \<longleftrightarrow> list_all (\<lambda>e. rates_nonneg (snd e)) (ps_pricingData ps)"

lemma sheet_rates: "sheet_nonneg ps \<Longrightarrow> p \<in> snd ` set (ps_pricingData ps) \<Longrightarrow> rates_nonneg p"
  by (auto simp: sheet_nonneg_def list_all_iff)

lemma base_cost_nonneg:
  assumes "sheet_nonneg ps" and "input_sane (extractCostInput r)"
  shows "0 \<le> calculateBaseCost ps r"
proof -
  have "0 \<le> cost_by_type p (extractCostInput r) t"
    if "resolvePricing ps (rs_Provider r) (rs_ModelRequested r) (rs_ModelDeployment r) t = Some p" for p t
    using assms sheet_rates resolvePricing_row [OF that] by (blast intro: cost_by_type_nonneg)
  then show ?thesis by (auto simp: calculateBaseCost_def Let_def split: option.splits)
qed

lemma embedding_lookup_nonneg:
  assumes "sheet_nonneg ps" and "case cd_InputTokens d of None \<Rightarrow> True | Some n \<Rightarrow> 0 \<le> n"
  shows "0 \<le> computeCacheEmbeddingCost ps d"
  using assms sheet_rates getPricing_row
  by (auto simp: computeCacheEmbeddingCost_def split: option.splits)

lemma priced_cost_nonneg:
  assumes "sheet_nonneg ps" and "input_sane (extractCostInput r)"
    and "case Option.bind (rs_CacheDebug r) cd_InputTokens of None \<Rightarrow> True | Some n \<Rightarrow> 0 \<le> n"
  shows "0 \<le> CalculateCost ps (Some r)"
  using assms(3) base_cost_nonneg [OF assms(1,2)] embedding_lookup_nonneg [OF assms(1)]
  by (auto simp: CalculateCost_def calculateCostWithCache_def split: option.splits)

text \<open> C16. If no rate of the price sheet is negative and the counts of a response are sane, neither its cost nor the saving of a cache hit
  is negative; the counts of cached tokens may be anything, negative or more than the prompt.  The cost with the saving
  is the cost of the response without a cache, rounded, whenever a saving is reported.\<close>

theorem cost_nonneg:
  assumes "sheet_nonneg ps" and "input_sane (extractCostInput r)"
    and "case Option.bind (rs_CacheDebug r) cd_InputTokens of None \<Rightarrow> True | Some n \<Rightarrow> 0 \<le> n"
  shows "case CalculateCostBreakdown ps (Some r) of
    (cost, saving) \<Rightarrow> 0 \<le> cost \<and> 0 \<le> saving \<and> cost = CalculateCost ps (Some r) \<and>
      (saving = 0 \<or> saving = fl (calculateBaseCost ps r - cost))"
proof -
  have "0 \<le> CalculateCost ps (Some r)" using assms by (rule priced_cost_nonneg)
  then show ?thesis
    by (auto simp: CalculateCostBreakdown_def Let_def f_sub_def intro: fl_nonneg split: option.splits)
qed

text \<open>The prompt of a text request is billed once: what is billed at the ordinary rate, at the rate of a cache read and at the rate of
  a cache write adds up to the prompt tokens, and the cost is the sum of the three, of the output and of the searches.\<close>

theorem prompt_billed_once:
  assumes "usage_sane u"
    and "case us_PromptTokensDetails u of None \<Rightarrow> True | Some d \<Rightarrow> 0 \<le> pt_CachedReadTokens d \<and> 0 \<le> pt_CachedWriteTokens d"
    and "0 \<le> tieredInputRate p (us_TotalTokens u)" "0 \<le> tieredCacheReadInputTokenRate p (us_TotalTokens u)"
  shows "\<exists>n r w. 0 \<le> n \<and> 0 \<le> r \<and> 0 \<le> w \<and> n + r + w = us_PromptTokens u \<and>
    computeTextCost p (Some u) =
      f_add (f_add (f_add (f_add (tokens_cost n (tieredInputRate p (us_TotalTokens u)))
                                 (tokens_cost r (tieredCacheReadInputTokenRate p (us_TotalTokens u))))
                          (tokens_cost w (tieredCacheCreationInputTokenRate p (us_TotalTokens u))))
                   (tokens_cost (us_CompletionTokens u) (tieredOutputRate p (us_TotalTokens u))))
            (search_cost p u)"
proof -
  obtain n r w where s: "prompt_split u = (n, r, w)" by (metis surj_pair)
  note parts = prompt_split_parts [OF assms(1) s]
  have "computeTextCost p (Some u) =
      f_add (f_add (f_add (f_add (tokens_cost n (tieredInputRate p (us_TotalTokens u)))
                                 (tokens_cost r (tieredCacheReadInputTokenRate p (us_TotalTokens u))))
                          (tokens_cost w (tieredCacheCreationInputTokenRate p (us_TotalTokens u))))
                   (tokens_cost (us_CompletionTokens u) (tieredOutputRate p (us_TotalTokens u))))
            (search_cost p u)"
    using parts(1) parts(3) [OF assms(2)] assms(3,4)
    by (cases "r = 0"; cases "w = 0") (simp_all add: computeTextCost_def s Let_def)
  with parts(1,2) parts(3) [OF assms(2)] show ?thesis by blast
qed

section \<open>Savings are not counted twice\<close>

text \<open>A hit in the semantic cache is no call to the provider: its prompt cache saves nothing.\<close>

theorem hit_saves_no_prompt:
  "rs_CacheDebug r = Some d \<Longrightarrow> cd_CacheHit d \<Longrightarrow> CalculatePromptCacheSavings ps (Some r) = 0"
  by (simp add: CalculatePromptCacheSavings_def Let_def)

text \<open>An answer without usage, such as one the consistency engine serves, saves nothing as a hit: the call that was avoided is
  counted by the engine alone.\<close>

theorem no_usage_no_saving:
  "extractCostInput r = empty_input \<Longrightarrow> snd (CalculateCostBreakdown ps (Some r)) = 0"
  by (simp add: CalculateCostBreakdown_def calculateBaseCost_def empty_input_def Let_def split: option.split)

text \<open>Reads from the prompt cache alone never count as a loss, if a read is no dearer than a token of input.\<close>

lemma f_sub_zero [simp]: "f_sub 0 0 = 0"
  by (simp add: f_sub_def)

theorem reads_save:
  assumes usage: "ci_usage (extractCostInput r) = Some u" "us_PromptTokensDetails u = Some d"
    and reads: "0 \<le> us_PromptTokens u" "0 \<le> pt_CachedReadTokens d" "pt_CachedWriteTokens d = 0" "small (us_PromptTokens u)"
    and rate: "\<And>p. response_row ps r (normalizeStreamRequestType (rs_RequestType r)) = Some p \<Longrightarrow>
      tieredCacheReadInputTokenRate p (us_TotalTokens u) \<le> tieredInputRate p (us_TotalTokens u)"
  shows "0 \<le> CalculatePromptCacheSavings ps (Some r)"
proof -
  define n where "n = min (pt_CachedReadTokens d) (us_PromptTokens u)"
  have rest: "wrap64 (us_PromptTokens u - n) = us_PromptTokens u - n" and n: "0 \<le> n" "0 \<le> us_PromptTokens u - n"
    using reads by (auto simp: n_def small_def int64_def min_def)
  have "0 \<le> f_sub (tokens_cost n (f_sub a b)) (tokens_cost 0 c)" if "b \<le> a" for a b c
    using that n by (simp add: f_sub_def tokens_cost_def f_mul_def fl_nonneg)
  then show ?thesis
    using rate reads(3) rest n usage
    by (simp add: CalculatePromptCacheSavings_def Let_def flip: n_def split: option.split)
qed

section \<open>Examples\<close>

definition chat_usage :: "int \<Rightarrow> int \<Rightarrow> int \<Rightarrow> int \<Rightarrow> LLMUsage" where
  "chat_usage prompt cachedRead cachedWrite completion =
     \<lparr>us_PromptTokens = prompt, us_PromptTokensDetails = Some \<lparr>pt_CachedReadTokens = cachedRead, pt_CachedWriteTokens = cachedWrite\<rparr>,
      us_CompletionTokens = completion, us_CompletionTokensDetails = None, us_TotalTokens = prompt + completion, us_TotalCost = None\<rparr>"

definition plain_response :: "string \<Rightarrow> string \<Rightarrow> PricedResponse" where
  "plain_response model requestType =
     \<lparr>rs_Text = None, rs_Chat = None, rs_Responses = None, rs_ResponsesStream = None, rs_Embedding = None, rs_Rerank = None, rs_Speech = None,
      rs_SpeechStream = None, rs_Transcription = None, rs_TranscriptionStream = None, rs_Image = None, rs_ImageStream = None, rs_VideoSeconds = None,
      rs_Provider = ''openai'', rs_ModelRequested = model, rs_ModelDeployment = [], rs_RequestType = requestType, rs_CacheDebug = None,
      rs_ReasoningDebug = None, rs_CompressionDebug = None, rs_RagDebug = None, rs_SummarizationDebug = None, rs_ConsistencyDebug = None\<rparr>"

definition demo_sheet :: PriceSheet where
  "demo_sheet = loadPricingFromDatabase demo_snapshots id"

text \<open>More cached tokens than prompt tokens.\<close>

definition demo_chat :: PricedResponse where
  "demo_chat = (plain_response ''gpt-4o-2024-08-06'' ''chat_completion'')\<lparr>rs_Chat := Some (chat_usage 100 5000 (-3) 10)\<rparr>"

theorem cost_nonneg_witness: "0 \<le> fst (CalculateCostBreakdown demo_sheet (Some demo_chat))"
proof -
  have "sheet_nonneg demo_sheet" by code_simp
  moreover have "input_sane (extractCostInput demo_chat)" by code_simp
  moreover have "case Option.bind (rs_CacheDebug demo_chat) cd_InputTokens of None \<Rightarrow> True | Some n \<Rightarrow> 0 \<le> n"
    by (simp add: demo_chat_def plain_response_def)
  ultimately show ?thesis using cost_nonneg [of demo_sheet demo_chat] by (auto split: prod.splits)
qed

theorem prompt_billed_once_witness:
  "\<exists>n r w. 0 \<le> n \<and> 0 \<le> r \<and> 0 \<le> w \<and> n + r + w = (100 :: int) \<and> usage_sane (chat_usage 100 60 20 10)"
proof -
  let ?u = "chat_usage 100 60 20 10" and ?p = "hd demo_snapshots"
  have sane: "usage_sane ?u" by code_simp
  have "case us_PromptTokensDetails ?u of None \<Rightarrow> True | Some d \<Rightarrow> 0 \<le> pt_CachedReadTokens d \<and> 0 \<le> pt_CachedWriteTokens d"
    by (simp add: chat_usage_def)
  moreover have "0 \<le> tieredInputRate ?p (us_TotalTokens ?u)" "0 \<le> tieredCacheReadInputTokenRate ?p (us_TotalTokens ?u)" by code_simp+
  ultimately show ?thesis
    using prompt_billed_once [OF sane, of ?p] sane by (auto simp: chat_usage_def)
qed

text \<open>An image model with a rate for output tokens, and a response that reports how many there were, without details.\<close>

definition image_row :: TableModelPricing where
  "image_row = (basic_row ''gpt-image-1'' ''openai'' ''image_generation'' (1 / 200000) 0)\<lparr>pr_OutputCostPerImageToken := Some (1 / 25000)\<rparr>"

definition image_usage :: ImageUsage where
  "image_usage = empty_image_usage\<lparr>iu_OutputTokens := 4160, iu_TotalTokens := 4160\<rparr>"

definition demo_image :: PricedResponse where
  "demo_image = (plain_response ''gpt-image-1'' ''image_generation'')\<lparr>rs_Image := Some \<lparr>im_Usage = Some image_usage, im_DataLen = 1, im_Parameters = None\<rparr>\<rparr>"

text \<open> The output tokens of an image response that come without details are not billed.  The count of images is written into empty
  details first, and the details are then read instead of the total: a response of 4160 output tokens costs nothing, though
  the function that prices the output gives a positive cost for the usage as the provider reported it.\<close>

theorem image_output_tokens_unbilled:
  "CalculateCost (loadPricingFromDatabase [image_row] id) (Some demo_image) = 0 \<and>
   0 < computeImageOutputCost image_row image_usage (iu_TotalTokens image_usage) 0 []"
  by code_simp

end
