(* ===== verification/PricedUsage.thy ===== *)
theory PricedUsage
  imports GovQuota Pricing
begin

text \<open>
  Prices and budgets together: what a response costs is what its budgets are charged.  The plugin takes the cost from the
  catalogue (\<^verbatim>\<open>postHookWorker\<close> in \<^verbatim>\<open>plugins/governance/main.go\<close>); a model without a price costs nothing, and nothing is charged.
\<close>

lemma unpriced_cost:
  assumes "resolvePricing ps (rs_Provider r) (rs_ModelRequested r) (rs_ModelDeployment r) (normalizeStreamRequestType (rs_RequestType r)) = None"
    and "Option.bind (ci_usage (extractCostInput r)) us_TotalCost = None" and "rs_CacheDebug r = None"
  shows "CalculateCost ps (Some r) = 0"
  using assms by (simp add: CalculateCost_def calculateBaseCost_def Let_def)

text \<open> C38. A response of a model for which the catalogue finds no price, neither by the requested name nor by the deployment, for which
  the provider reports no cost, and which carries no data of a semantic-cache look-up (whose embedding would be charged), leaves every
  budget as it is, whatever number of tokens it used.\<close>

theorem unpriced_response_uncharged:
  assumes "metering_ok gs" and "uu_Cost update = CalculateCost ps (Some r)"
    and "resolvePricing ps (rs_Provider r) (rs_ModelRequested r) (rs_ModelDeployment r) (normalizeStreamRequestType (rs_RequestType r)) = None"
    and "Option.bind (ci_usage (extractCostInput r)) us_TotalCost = None" and "rs_CacheDebug r = None"
  shows "gs_budgets (UpdateUsage now tenantID update gs) = gs_budgets gs"
  using assms unpriced_cost [OF assms(3-5)]
  by (simp add: UpdateUsage_budgets charged_budget_ids_def)

text \<open>The catalogue lists \<open>gpt-4o\<close>; the request names \<open>gpt-4o-latest\<close> and used a million tokens.\<close>

definition unlisted_sheet :: PriceSheet where
  "unlisted_sheet = loadPricingFromDatabase [basic_row ''gpt-4o'' ''openai'' ''chat'' (1 / 400000) (1 / 100000)] id"

definition unlisted_chat :: PricedResponse where
  "unlisted_chat = (plain_response ''gpt-4o-latest'' ''chat_completion'')\<lparr>rs_Chat := Some (chat_usage 900000 0 0 100000)\<rparr>"

theorem unpriced_response_uncharged_witness:
  "gs_budgets (UpdateUsage 1 ''acme'' (sample_usage (CalculateCost unlisted_sheet (Some unlisted_chat))) sample_store) = gs_budgets sample_store"
proof (rule unpriced_response_uncharged)
  show "metering_ok sample_store" by (simp add: metering_ok_def sample_store_def sample_budget_def sample_limit_def keyed_def)
  show "uu_Cost (sample_usage (CalculateCost unlisted_sheet (Some unlisted_chat))) = CalculateCost unlisted_sheet (Some unlisted_chat)"
    by (simp add: sample_usage_def)
  show "resolvePricing unlisted_sheet (rs_Provider unlisted_chat) (rs_ModelRequested unlisted_chat) (rs_ModelDeployment unlisted_chat)
      (normalizeStreamRequestType (rs_RequestType unlisted_chat)) = None"
    by code_simp
  show "Option.bind (ci_usage (extractCostInput unlisted_chat)) us_TotalCost = None" by code_simp
  show "rs_CacheDebug unlisted_chat = None" by (simp add: unlisted_chat_def plain_response_def)
qed

text \<open>For a sheet without negative rates a response never lowers a budget: the charge is not negative.\<close>

theorem priced_charge_keeps_exhausted:
  assumes "sheet_nonneg ps" and "input_sane (extractCostInput r)"
    and "case Option.bind (rs_CacheDebug r) cd_InputTokens of None \<Rightarrow> True | Some n \<Rightarrow> 0 \<le> n"
    and "exhausted T b" and "now \<le> T"
  shows "exhausted T (budget_charge now (CalculateCost ps (Some r)) b)"
  using exhausted_charges [of T b now "CalculateCost ps (Some r)" 1] assms(4,5) priced_cost_nonneg [OF assms(1-3)] by simp

end
