(* ===== verification/KeyTracker.thy ===== *)
theory KeyTracker
  imports Prelude "HOL-Library.AList"
begin

text \<open>
  The load and the circuit of every provider key, \<^verbatim>\<open>deepintshield_server/core/key_load_tracker.go\<close>.  Each method is one step;
  it reads the clock once.  The atomic counters wrap at 64 bits; a difference of times saturates in Go, which no comparison with a
  cool-down can tell from the difference of integers.  A tracker that is nil is \<open>None\<close>.

  A circuit opens after a run of errors and lets requests through again after the cool-down; it lets all of them through,
  and a late success can keep a failed probe from opening it again.
\<close>

section \<open>State\<close>

datatype KeyCircuit = KeyClosed | KeyOpen | KeyHalfOpen

record KeyLoadState =
  kl_ActiveRequests :: int
  kl_TotalRequests :: int
  kl_TotalTokens :: int
  kl_ErrorCount :: int
  kl_LastError :: "int option"
  kl_CircuitState :: KeyCircuit
  kl_CircuitOpenedAt :: "int option"

record KeyLoadTracker =
  kt_states :: "(string \<times> KeyLoadState) list"
  kt_ErrorThreshold :: int
  kt_Cooldown :: int

definition NewKeyLoadTracker :: KeyLoadTracker where
  "NewKeyLoadTracker = \<lparr>kt_states = [], kt_ErrorThreshold = 5, kt_Cooldown = 30 * 10 ^ 9\<rparr>"

definition fresh_key :: KeyLoadState where
  "fresh_key = \<lparr>kl_ActiveRequests = 0, kl_TotalRequests = 0, kl_TotalTokens = 0, kl_ErrorCount = 0, kl_LastError = None,
     kl_CircuitState = KeyClosed, kl_CircuitOpenedAt = None\<rparr>"

definition key_state :: "string \<Rightarrow> KeyLoadTracker \<Rightarrow> KeyLoadState" where
  "key_state keyID t = (case map_of (kt_states t) keyID of Some s \<Rightarrow> s | None \<Rightarrow> fresh_key)"

text \<open>\<open>getOrCreateState\<close> and an update of what it returns.\<close>

definition getOrCreateState :: "string \<Rightarrow> KeyLoadTracker \<Rightarrow> KeyLoadTracker" where
  "getOrCreateState keyID t = t\<lparr>kt_states := AList.update keyID (key_state keyID t) (kt_states t)\<rparr>"

definition update_key :: "string \<Rightarrow> (KeyLoadState \<Rightarrow> KeyLoadState) \<Rightarrow> KeyLoadTracker \<Rightarrow> KeyLoadTracker" where
  "update_key keyID f t = t\<lparr>kt_states := AList.update keyID (f (key_state keyID t)) (kt_states t)\<rparr>"

section \<open>Operations\<close>

definition IncrementActive :: "string \<Rightarrow> KeyLoadTracker option \<Rightarrow> KeyLoadTracker option" where
  "IncrementActive keyID = map_option (update_key keyID (\<lambda>s. s\<lparr>kl_ActiveRequests := wrap64 (kl_ActiveRequests s + 1)\<rparr>))"

definition DecrementActive :: "string \<Rightarrow> KeyLoadTracker option \<Rightarrow> KeyLoadTracker option" where
  "DecrementActive keyID = map_option (update_key keyID (\<lambda>s. s\<lparr>kl_ActiveRequests := wrap64 (kl_ActiveRequests s - 1)\<rparr>))"

definition key_success :: "int \<Rightarrow> KeyLoadState \<Rightarrow> KeyLoadState" where
  "key_success tokens s =
     s\<lparr>kl_TotalRequests := wrap64 (kl_TotalRequests s + 1),
       kl_TotalTokens := (if tokens > 0 then wrap64 (kl_TotalTokens s + tokens) else kl_TotalTokens s),
       kl_ErrorCount := 0,
       kl_CircuitState := (if kl_CircuitState s = KeyHalfOpen then KeyClosed else kl_CircuitState s)\<rparr>"

definition RecordSuccess :: "string \<Rightarrow> int \<Rightarrow> KeyLoadTracker option \<Rightarrow> KeyLoadTracker option" where
  "RecordSuccess keyID tokens = map_option (update_key keyID (key_success tokens))"

text \<open>The two compare-and-swap operations: from closed to open, then from half-open to open.\<close>

definition key_failure :: "int \<Rightarrow> int \<Rightarrow> KeyLoadState \<Rightarrow> KeyLoadState" where
  "key_failure now threshold s =
     (let newCount = wrap64 (kl_ErrorCount s + 1);
          s1 = s\<lparr>kl_TotalRequests := wrap64 (kl_TotalRequests s + 1), kl_LastError := Some now, kl_ErrorCount := newCount\<rparr>;
          s2 = (if kl_CircuitState s1 = KeyClosed then s1\<lparr>kl_CircuitState := KeyOpen, kl_CircuitOpenedAt := Some now\<rparr> else s1);
          s3 = (if kl_CircuitState s2 = KeyHalfOpen then s2\<lparr>kl_CircuitState := KeyOpen, kl_CircuitOpenedAt := Some now\<rparr> else s2)
      in if newCount \<ge> threshold then s3 else s1)"

definition RecordError :: "int \<Rightarrow> string \<Rightarrow> KeyLoadTracker option \<Rightarrow> KeyLoadTracker option" where
  "RecordError now keyID = map_option (\<lambda>t. update_key keyID (key_failure now (kt_ErrorThreshold t)) t)"

definition IsCircuitOpen :: "int \<Rightarrow> string \<Rightarrow> KeyLoadTracker \<Rightarrow> bool \<times> KeyLoadTracker" where
  "IsCircuitOpen now keyID t =
     (case map_of (kt_states t) keyID of
        None \<Rightarrow> (False, t)
      | Some s \<Rightarrow>
          (case kl_CircuitState s of
             KeyClosed \<Rightarrow> (False, t)
           | KeyOpen \<Rightarrow>
               (case kl_CircuitOpenedAt s of
                  Some openedAt \<Rightarrow>
                    if now - openedAt \<ge> kt_Cooldown t
                    then (False, update_key keyID (\<lambda>s. s\<lparr>kl_CircuitState := KeyHalfOpen\<rparr>) t)
                    else (True, t)
                | None \<Rightarrow> (True, t))
           | KeyHalfOpen \<Rightarrow> (False, t)))"

record KeyHealthInfo =
  kh_KeyID :: string
  kh_ActiveRequests :: int
  kh_TotalRequests :: int
  kh_TotalTokens :: int
  kh_ErrorCount :: int
  kh_CircuitState :: string
  kh_LastError :: "int option"

definition GetKeyHealth :: "string \<Rightarrow> KeyLoadTracker option \<Rightarrow> KeyHealthInfo" where
  "GetKeyHealth keyID t =
     (case Option.bind t (\<lambda>t. map_of (kt_states t) keyID) of
        None \<Rightarrow> \<lparr>kh_KeyID = keyID, kh_ActiveRequests = 0, kh_TotalRequests = 0, kh_TotalTokens = 0, kh_ErrorCount = 0,
                 kh_CircuitState = ''closed'', kh_LastError = None\<rparr>
      | Some s \<Rightarrow> \<lparr>kh_KeyID = keyID, kh_ActiveRequests = kl_ActiveRequests s, kh_TotalRequests = kl_TotalRequests s,
                   kh_TotalTokens = kl_TotalTokens s, kh_ErrorCount = kl_ErrorCount s,
                   kh_CircuitState = (case kl_CircuitState s of KeyClosed \<Rightarrow> ''closed'' | KeyOpen \<Rightarrow> ''open'' | KeyHalfOpen \<Rightarrow> ''half_open''),
                   kh_LastError = kl_LastError s\<rparr>)"

definition GetAllKeyHealth :: "KeyLoadTracker option \<Rightarrow> KeyHealthInfo list" where
  "GetAllKeyHealth t = (case t of None \<Rightarrow> [] | Some t' \<Rightarrow> map (\<lambda>(keyID, _). GetKeyHealth keyID t) (kt_states t'))"

section \<open>The circuit of a key\<close>

lemma key_state_update [simp]: "key_state k (update_key k' f t) = (if k = k' then f (key_state k t) else key_state k t)"
  by (simp add: key_state_def update_key_def update_conv')

lemma threshold_update [simp]: "kt_ErrorThreshold (update_key k f t) = kt_ErrorThreshold t" "kt_Cooldown (update_key k f t) = kt_Cooldown t"
  by (simp_all add: update_key_def)

lemma key_failure_count: "kl_ErrorCount (key_failure now th s) = wrap64 (kl_ErrorCount s + 1)"
  by (simp add: key_failure_def Let_def)

lemma key_failure_closed:
  "kl_CircuitState s = KeyClosed \<Longrightarrow>
     kl_CircuitState (key_failure now th s) = (if th \<le> wrap64 (kl_ErrorCount s + 1) then KeyOpen else KeyClosed)"
  by (simp add: key_failure_def Let_def)

lemma key_failure_open:
  "kl_CircuitState s = KeyOpen \<Longrightarrow> kl_CircuitState (key_failure now th s) = KeyOpen \<and> kl_CircuitOpenedAt (key_failure now th s) = kl_CircuitOpenedAt s"
  by (simp add: key_failure_def Let_def)

text \<open>A run of errors, at the times given.\<close>

lemma error_run:
  assumes "kl_CircuitState s = KeyClosed" "kl_ErrorCount s = 0" "0 < th" "int (length stamps) < 2 ^ 63"
  shows "kl_ErrorCount (fold (\<lambda>now. key_failure now th) stamps s) = int (length stamps) \<and>
    kl_CircuitState (fold (\<lambda>now. key_failure now th) stamps s) = (if th \<le> int (length stamps) then KeyOpen else KeyClosed)"
  using assms
proof (induction stamps rule: rev_induct)
  case (snoc now stamps)
  then have w: "wrap64 (int (length stamps) + 1) = int (length stamps) + 1" by (intro wrap64_id) (simp add: int64_def)
  show ?case
    using snoc w key_failure_closed [of "fold (\<lambda>now. key_failure now th) stamps s" now th]
      key_failure_open [of "fold (\<lambda>now. key_failure now th) stamps s" now th]
    by (auto simp: key_failure_count split: if_splits)
qed simp

text \<open>An open circuit has the time at which it was opened: it is never open for good.\<close>

inductive key_step :: "int \<Rightarrow> KeyLoadState \<Rightarrow> KeyLoadState \<Rightarrow> bool" for th where
  Active: "key_step th s (s\<lparr>kl_ActiveRequests := n\<rparr>)"
| Success: "key_step th s (key_success tokens s)"
| Failure: "key_step th s (key_failure now th s)"
| Probe: "kl_CircuitState s = KeyOpen \<Longrightarrow> key_step th s (s\<lparr>kl_CircuitState := KeyHalfOpen\<rparr>)"

lemma opened_at_step: "key_step th s s' \<Longrightarrow> (kl_CircuitState s = KeyOpen \<longrightarrow> kl_CircuitOpenedAt s \<noteq> None) \<Longrightarrow>
    kl_CircuitState s' = KeyOpen \<longrightarrow> kl_CircuitOpenedAt s' \<noteq> None"
  by (induction rule: key_step.induct) (auto simp: key_success_def key_failure_def Let_def)

lemma opened_at: "(key_step th)\<^sup>*\<^sup>* fresh_key s \<Longrightarrow> kl_CircuitState s = KeyOpen \<longrightarrow> kl_CircuitOpenedAt s \<noteq> None"
  by (induction rule: rtranclp_induct) (auto simp: fresh_key_def dest: opened_at_step)

text \<open> Whatever happened to a key before, its circuit is not open once the cool-down has passed since it opened, and the probe
  that is then allowed moves it to half-open; while it is half-open every request passes.\<close>

theorem circuit_reopens:
  assumes "map_of (kt_states t) keyID = Some s" "(key_step (kt_ErrorThreshold t))\<^sup>*\<^sup>* fresh_key s"
    and "case kl_CircuitOpenedAt s of None \<Rightarrow> True | Some openedAt \<Rightarrow> openedAt + kt_Cooldown t \<le> now"
  shows "\<not> fst (IsCircuitOpen now keyID t) \<and> kl_CircuitState (key_state keyID (snd (IsCircuitOpen now keyID t))) \<noteq> KeyOpen"
proof (cases "kl_CircuitState s")
  case KeyOpen
  with opened_at [OF assms(2)] obtain openedAt where "kl_CircuitOpenedAt s = Some openedAt" by auto
  with KeyOpen assms(1,3) show ?thesis by (simp add: IsCircuitOpen_def key_state_def update_key_def update_conv')
qed (use assms(1) in \<open>simp_all add: IsCircuitOpen_def key_state_def\<close>)

definition errors :: "nat \<Rightarrow> KeyLoadTracker option \<Rightarrow> KeyLoadTracker option" where
  "errors n = (RecordError 1 ''k1'' ^^ n)"

theorem circuit_reopens_witness:
  "\<not> fst (IsCircuitOpen (30 * 10 ^ 9 + 1) ''k1'' (the (errors 5 (Some NewKeyLoadTracker))))"
proof -
  let ?t = "the (errors 5 (Some NewKeyLoadTracker))"
  define s where "s = key_failure 1 5 (key_failure 1 5 (key_failure 1 5 (key_failure 1 5 (key_failure 1 5 fresh_key))))"
  have row: "map_of (kt_states ?t) ''k1'' = Some s" and th: "kt_ErrorThreshold ?t = 5" and at: "kl_CircuitOpenedAt s = Some 1"
    and cool: "kt_Cooldown ?t = 30 * 10 ^ 9"
    unfolding s_def by code_simp+
  have more: "(key_step 5)\<^sup>*\<^sup>* fresh_key (key_failure now 5 s)" if "(key_step 5)\<^sup>*\<^sup>* fresh_key s" for now s
    using that by (rule rtranclp.rtrancl_into_rtrancl) (rule key_step.Failure)
  have "(key_step 5)\<^sup>*\<^sup>* fresh_key s" unfolding s_def by (intro more rtranclp.rtrancl_refl)
  with circuit_reopens [of ?t "''k1''" s "30 * 10 ^ 9 + 1"] row show ?thesis by (simp add: th at cool)
qed

text \<open>A request that was under way when the circuit opened succeeds: the error count is cleared, the circuit stays open.  After the
  cool-down a failed probe then counts as the first error, the circuit stays half-open, and requests keep passing.\<close>

theorem late_success_disarms:
  "let t1 = RecordSuccess ''k1'' 0 (errors 5 (Some NewKeyLoadTracker));
       t2 = map_option (\<lambda>t. snd (IsCircuitOpen (31 * 10 ^ 9) ''k1'' t)) t1;
       t3 = RecordError (31 * 10 ^ 9) ''k1'' t2
   in map_option (\<lambda>t. fst (IsCircuitOpen 2 ''k1'' t)) t1 = Some True \<and>
      kh_CircuitState (GetKeyHealth ''k1'' t3) = ''half_open'' \<and>
      map_option (\<lambda>t. fst (IsCircuitOpen (31 * 10 ^ 9) ''k1'' t)) t3 = Some False"
  by code_simp

text \<open>Without the late success the failed probe opens the circuit again.\<close>

theorem failed_probe_reopens:
  "let t2 = map_option (\<lambda>t. snd (IsCircuitOpen (31 * 10 ^ 9) ''k1'' t)) (errors 5 (Some NewKeyLoadTracker));
       t3 = RecordError (31 * 10 ^ 9) ''k1'' t2
   in kh_CircuitState (GetKeyHealth ''k1'' t2) = ''half_open'' \<and> kh_CircuitState (GetKeyHealth ''k1'' t3) = ''open''"
  by code_simp

end
