(* ===== verification/KeySelect.thy ===== *)
theory KeySelect
  imports KeyTracker KVStore ModelCatalog Float64
begin

text \<open>
  The choice of a provider key for a request, \<^verbatim>\<open>deepintshield_server/core/deepintshield.go\<close> and \<^verbatim>\<open>key_selectors.go\<close>: which keys
  a request may use, pins, the circuits of the tracker, sticky sessions in the key-value store, and the selectors.

  A key that is chosen is enabled, has a value and serves the model; weights are respected exactly; a round of the
  round-robin selector uses every key once; a session keeps its key.
\<close>

section \<open>Keys\<close>

text \<open>A provider-specific part of a key is present with the names of its deployments, or for vLLM with the name of its model.\<close>

record Key =
  key_ID :: string
  key_Name :: string
  key_Value :: string
  key_Models :: "string list"
  key_Weight :: rat
  key_Azure :: "string list option"
  key_Vertex :: "string list option"
  key_Bedrock :: "string list option"
  key_Replicate :: "string list option"
  key_VLLM :: "string option"
  key_Enabled :: "bool option"
  key_UseForBatchAPI :: "bool option"

definition empty_key :: Key where
  "empty_key = \<lparr>key_ID = [], key_Name = [], key_Value = [], key_Models = [], key_Weight = 0, key_Azure = None, key_Vertex = None, key_Bedrock = None,
     key_Replicate = None, key_VLLM = None, key_Enabled = None, key_UseForBatchAPI = None\<rparr>"

datatype key_error =
  AccountError string
| NoKeys
| NoBatchKeys
| NoSupportedDeployment
| NoSupportedModel
| NoKeyWithID string
| NoKeyWithName string
| NoSelectableKey

text \<open>A call returns a value, returns an error, or panics.\<close>

datatype 'a outcome = Ok 'a | Fail key_error | Panic

section \<open>Models of a key\<close>

text \<open>The names a request or a restriction goes by: with one known provider prefix after the other removed.\<close>

lemma ParseModelString_shorter:
  "snd (ParseModelString known m d) \<noteq> m \<Longrightarrow> length (snd (ParseModelString known m d)) < length m"
proof (cases "index_byte m CHR ''/''")
  case (Some i)
  then have "i < length m" by (simp add: index_byte_Some_iff)
  with Some show "snd (ParseModelString known m d) \<noteq> m \<Longrightarrow> ?thesis" by (auto simp: ParseModelString_def split: if_splits)
qed (simp add: ParseModelString_def)

function stripped_names :: "string list \<Rightarrow> string \<Rightarrow> string list" where
  "stripped_names known current =
     (let stripped = snd (ParseModelString known current []) in
      if stripped = current then [] else stripped # stripped_names known stripped)"
  by auto
termination
  by (relation "measure (\<lambda>(known, current). length current)") (auto intro: ParseModelString_shorter)

declare stripped_names.simps [simp del]

definition add_variant :: "string \<Rightarrow> string list \<Rightarrow> string list" where
  "add_variant v variants =
     (let value = TrimSpace v in if value = [] then variants else if value \<in> set variants then variants else variants @ [value])"

definition normalizedModelRestrictionVariants :: "string list \<Rightarrow> string \<Rightarrow> string list" where
  "normalizedModelRestrictionVariants known m =
     (let model = TrimSpace m in
      if model = [] then [] else fold add_variant (model # stripped_names known model) [])"

definition keySupportsRequestedModel :: "string list \<Rightarrow> string list \<Rightarrow> string \<Rightarrow> bool" where
  "keySupportsRequestedModel known allowedModels requestedModel =
     (let requestVariants = normalizedModelRestrictionVariants known requestedModel in
      if requestVariants = [] then False
      else list_ex (\<lambda>allowed. list_ex (\<lambda>v. v \<in> set requestVariants) (normalizedModelRestrictionVariants known allowed)) allowedModels)"

section \<open>Kinds of request and provider\<close>

definition isBatchRequestType :: "string \<Rightarrow> bool" where
  "isBatchRequestType t \<longleftrightarrow> t \<in> {''batch_create'', ''batch_list'', ''batch_retrieve'', ''batch_cancel'', ''batch_delete'', ''batch_results''}"

definition isFileRequestType :: "string \<Rightarrow> bool" where
  "isFileRequestType t \<longleftrightarrow> t \<in> {''file_upload'', ''file_list'', ''file_retrieve'', ''file_delete'', ''file_content''}"

definition isContainerRequestType :: "string \<Rightarrow> bool" where
  "isContainerRequestType t \<longleftrightarrow>
     t \<in> {''container_create'', ''container_list'', ''container_retrieve'', ''container_delete'', ''container_file_create'', ''container_file_list'',
          ''container_file_retrieve'', ''container_file_content'', ''container_file_delete''}"

definition isModellessVideoRequestType :: "string \<Rightarrow> bool" where
  "isModellessVideoRequestType t \<longleftrightarrow> t \<in> {''video_retrieve'', ''video_download'', ''video_list'', ''video_delete'', ''video_remix''}"

definition isPassthroughRequestType :: "string \<Rightarrow> bool" where
  "isPassthroughRequestType t \<longleftrightarrow> t = ''passthrough'' \<or> t = ''passthrough_stream''"

definition CanProviderKeyValueBeEmpty :: "string \<Rightarrow> bool" where
  "CanProviderKeyValueBeEmpty p \<longleftrightarrow> p \<in> {''vertex'', ''bedrock'', ''vllm'', ''azure''}"

definition isKeySkippingAllowed :: "string \<Rightarrow> bool" where
  "isKeySkippingAllowed p \<longleftrightarrow> p \<noteq> ''azure'' \<and> p \<noteq> ''bedrock'' \<and> p \<noteq> ''vertex''"

section \<open>The keys a request may use\<close>

definition key_active :: "Key \<Rightarrow> bool" where
  "key_active k \<longleftrightarrow> key_Enabled k \<noteq> Some False"

definition key_has_value :: "string \<Rightarrow> Key \<Rightarrow> bool" where
  "key_has_value base k \<longleftrightarrow> TrimSpace (key_Value k) \<noteq> [] \<or> CanProviderKeyValueBeEmpty base"

definition batch_enabled :: "Key \<Rightarrow> bool" where
  "batch_enabled k \<longleftrightarrow> key_UseForBatchAPI k = Some True"

text \<open>A table of deployments that is not empty must have the model.\<close>

definition deployed :: "string list \<Rightarrow> string \<Rightarrow> bool" where
  "deployed ds model \<longleftrightarrow> ds = [] \<or> model \<in> set ds"

definition deployment_supported :: "string \<Rightarrow> string \<Rightarrow> Key \<Rightarrow> bool" where
  "deployment_supported base model k =
     (if base = ''azure'' \<and> key_Azure k \<noteq> None then deployed (the (key_Azure k)) model
      else if base = ''bedrock'' \<and> key_Bedrock k \<noteq> None then deployed (the (key_Bedrock k)) model
      else if base = ''vertex'' \<and> key_Vertex k \<noteq> None then deployed (the (key_Vertex k)) model
      else if base = ''replicate'' \<and> key_Replicate k \<noteq> None then deployed (the (key_Replicate k)) model
      else if base = ''vllm'' \<and> key_VLLM k \<noteq> None then the (key_VLLM k) = [] \<or> the (key_VLLM k) = model
      else True)"

definition model_supported :: "string list \<Rightarrow> string \<Rightarrow> string \<Rightarrow> Key \<Rightarrow> bool" where
  "model_supported known base model k \<longleftrightarrow> key_has_value base k \<and> (key_Models k = [] \<or> keySupportsRequestedModel known (key_Models k) model)"

definition skip_model_check :: "string \<Rightarrow> string \<Rightarrow> bool" where
  "skip_model_check requestType model \<longleftrightarrow>
     model = [] \<and> (isFileRequestType requestType \<or> isBatchRequestType requestType \<or> isContainerRequestType requestType \<or>
       isModellessVideoRequestType requestType \<or> isPassthroughRequestType requestType) \<or> requestType = ''list_models''"

definition supported :: "string list \<Rightarrow> string \<Rightarrow> string \<Rightarrow> string \<Rightarrow> Key \<Rightarrow> bool" where
  "supported known base requestType model k \<longleftrightarrow>
     key_active k \<and>
     (if skip_model_check requestType model then key_has_value base k
      else model_supported known base model k \<and> deployment_supported base model k)"

text \<open>A request on batches or files needs keys that are enabled for it.\<close>

definition supported_keys :: "string list \<Rightarrow> string \<Rightarrow> string \<Rightarrow> string \<Rightarrow> Key list \<Rightarrow> Key list outcome" where
  "supported_keys known base requestType model keys =
     (let batch = isBatchRequestType requestType \<or> isFileRequestType requestType;
          candidates = (if batch then filter batch_enabled keys else keys);
          found = filter (supported known base requestType model) candidates
      in if keys = [] then Fail NoKeys
         else if batch \<and> candidates = [] then Fail NoBatchKeys
         else if found = []
         then Fail (if base \<in> {''azure'', ''bedrock'', ''vertex'', ''replicate'', ''vllm''} then NoSupportedDeployment else NoSupportedModel)
         else Ok found)"

text \<open>The keys whose circuit is not open; asking may move a circuit to half-open.\<close>

fun healthy_keys :: "int \<Rightarrow> Key list \<Rightarrow> KeyLoadTracker \<Rightarrow> Key list \<times> KeyLoadTracker" where
  "healthy_keys now [] t = ([], t)"
| "healthy_keys now (k # ks) t =
     (let (is_open, t1) = IsCircuitOpen now (key_ID k) t; (rest, t2) = healthy_keys now ks t1
      in (if is_open then rest else k # rest, t2))"

definition circuit_filter :: "int \<Rightarrow> Key list \<Rightarrow> KeyLoadTracker option \<Rightarrow> Key list \<times> KeyLoadTracker option" where
  "circuit_filter now keys tracker =
     (case tracker of
        None \<Rightarrow> (keys, None)
      | Some t \<Rightarrow>
          if length keys > 1
          then (case healthy_keys now keys t of (healthy, t') \<Rightarrow> (if healthy = [] then keys else healthy, Some t'))
          else (keys, Some t))"

section \<open>The choice\<close>

text \<open>What the choice reads of the request context.\<close>

record KeyContext =
  kc_DirectKey :: "Key option"
  kc_SkipKeySelection :: bool
  kc_APIKeyID :: string
  kc_APIKeyName :: string
  kc_SessionID :: string
  kc_SessionTTL :: int
  kc_FallbackIndex :: int

text \<open>The surroundings: the keys of the account, known providers, the selector, the clock, what others do to the store before the
  key of a session is set, the hash of a session, and the coding of stored values.\<close>

record KeyEnv =
  ke_keys :: "string + Key list"
  ke_known :: "string list"
  ke_selector :: "Key list \<Rightarrow> Key outcome"
  ke_now :: int
  ke_mid :: "string Store \<Rightarrow> string Store"
  ke_hash :: "string \<Rightarrow> string"
  ke_marshal :: "string any \<Rightarrow> string + byte list"
  ke_unmarshal :: "byte list \<Rightarrow> string option"

definition buildSessionKey :: "(string \<Rightarrow> string) \<Rightarrow> string \<Rightarrow> string \<Rightarrow> string \<Rightarrow> string" where
  "buildSessionKey hash providerKey sessionID model =
     ''session:'' @ providerKey @ '':'' @ hash sessionID @ '':'' @ hash (if model = [] then ''__modelless__'' else model)"

datatype cached_key = Found Key | Stale | Absent

definition getCachedKeyFromStore :: "KeyEnv \<Rightarrow> string \<Rightarrow> Key list \<Rightarrow> string Store \<Rightarrow> cached_key \<times> string Store" where
  "getCachedKeyFromStore env kvKey keys kv =
     (case Get (ke_now env) id (ke_now env) kvKey kv of
        (Inl _, kv') \<Rightarrow> (Absent, kv')
      | (Inr raw, kv') \<Rightarrow>
          (let cachedKeyID = (case raw of AnyVal s \<Rightarrow> s | RawBytes bs \<Rightarrow> (case ke_unmarshal env bs of Some s \<Rightarrow> s | None \<Rightarrow> bs))
           in (if cachedKeyID = [] then Absent
               else (case List.find (\<lambda>k. key_ID k = cachedKeyID) keys of Some k \<Rightarrow> Found k | None \<Rightarrow> Stale), kv')))"

definition DefaultSessionStickyTTL :: int where
  "DefaultSessionStickyTTL = 3600 * 10 ^ 9"

definition sticky_key :: "KeyEnv \<Rightarrow> KeyContext \<Rightarrow> string \<Rightarrow> Key list \<Rightarrow> string Store \<Rightarrow> Key outcome \<times> string Store" where
  "sticky_key env ctx kvKey keys kv =
     (let ttl = (if kc_SessionTTL ctx \<le> 0 then DefaultSessionStickyTTL else kc_SessionTTL ctx);
          (cached, kv1) = getCachedKeyFromStore env kvKey keys kv
      in case cached of
           Found k \<Rightarrow> (Ok k, snd (SetWithTTL (ke_marshal env) (ke_now env) kvKey (AnyVal (key_ID k)) ttl kv1))
         | _ \<Rightarrow>
             (let kv2 = (if cached = Stale then snd (KVStore.Delete (ke_now env) kvKey kv1) else kv1)
              in case ke_selector env keys of
                   Fail e \<Rightarrow> (Fail e, kv2)
                 | Panic \<Rightarrow> (Panic, kv2)
                 | Ok k \<Rightarrow>
                     (case SetNXWithTTL (ke_marshal env) (ke_now env) kvKey (AnyVal (key_ID k)) ttl (ke_mid env kv2) of
                        (Inl _, kv3) \<Rightarrow> (Ok k, kv3)
                      | (Inr True, kv3) \<Rightarrow> (Ok k, kv3)
                      | (Inr False, kv3) \<Rightarrow>
                          (case getCachedKeyFromStore env kvKey keys kv3 of
                             (Found current, kv4) \<Rightarrow> (Ok current, kv4)
                           | (Stale, kv4) \<Rightarrow> (Ok k, snd (KVStore.Delete (ke_now env) kvKey kv4))
                           | (Absent, kv4) \<Rightarrow> (Ok k, kv4)))))"

text \<open>Pins, then the only key, then the session, then the selector.\<close>

definition choose_key :: "KeyEnv \<Rightarrow> KeyContext \<Rightarrow> string \<Rightarrow> string \<Rightarrow> Key list \<Rightarrow> string Store option \<Rightarrow> Key outcome \<times> string Store option" where
  "choose_key env ctx providerKey model keys kv =
     (let keyID = TrimSpace (kc_APIKeyID ctx); keyName = TrimSpace (kc_APIKeyName ctx) in
      if keyID \<noteq> []
      then (case List.find (\<lambda>k. key_ID k = keyID) keys of Some k \<Rightarrow> Ok k | None \<Rightarrow> Fail (NoKeyWithID keyID), kv)
      else if keyName \<noteq> []
      then (case List.find (\<lambda>k. key_Name k = keyName) keys of Some k \<Rightarrow> Ok k | None \<Rightarrow> Fail (NoKeyWithName keyName), kv)
      else
        (case keys of
           [k] \<Rightarrow> (Ok k, kv)
         | _ \<Rightarrow>
             (case kv of
                Some store \<Rightarrow>
                  if kc_SessionID ctx \<noteq> [] \<and> kc_FallbackIndex ctx = 0
                  then (case sticky_key env ctx (buildSessionKey (ke_hash env) providerKey (kc_SessionID ctx) model) keys store of
                          (r, store') \<Rightarrow> (r, Some store'))
                  else (ke_selector env keys, kv)
              | None \<Rightarrow> (ke_selector env keys, kv))))"

definition selectKeyFromProviderForModel ::
  "KeyEnv \<Rightarrow> KeyContext \<Rightarrow> string \<Rightarrow> string \<Rightarrow> string \<Rightarrow> string \<Rightarrow> KeyLoadTracker option \<times> string Store option \<Rightarrow>
   Key outcome \<times> KeyLoadTracker option \<times> string Store option" where
  "selectKeyFromProviderForModel env ctx requestType providerKey model base = (\<lambda>(tracker, kv).
     (case kc_DirectKey ctx of
        Some k \<Rightarrow> (Ok k, tracker, kv)
      | None \<Rightarrow>
          if kc_SkipKeySelection ctx \<and> isKeySkippingAllowed providerKey then (Ok empty_key, tracker, kv)
          else
            (case ke_keys env of
               Inl err \<Rightarrow> (Fail (AccountError err), tracker, kv)
             | Inr keys \<Rightarrow>
                 (case supported_keys (ke_known env) base requestType model keys of
                    Fail e \<Rightarrow> (Fail e, tracker, kv)
                  | Panic \<Rightarrow> (Panic, tracker, kv)
                  | Ok found \<Rightarrow>
                      (let (healthy, tracker') = circuit_filter (ke_now env) found tracker;
                           (r, kv') = choose_key env ctx providerKey model healthy kv
                       in (r, tracker', kv'))))))"

text \<open>The other two requests for keys: all keys for a list of models, and the keys for batches and files, sorted by identifier.\<close>

definition getAllSupportedKeys :: "KeyEnv \<Rightarrow> KeyContext \<Rightarrow> string \<Rightarrow> Key list outcome" where
  "getAllSupportedKeys env ctx base =
     (case kc_DirectKey ctx of
        Some k \<Rightarrow> Ok [k]
      | None \<Rightarrow>
          (case ke_keys env of
             Inl err \<Rightarrow> Fail (AccountError err)
           | Inr keys \<Rightarrow>
               (let found = filter (\<lambda>k. key_active k \<and> key_has_value base k) keys
                in if keys = [] then Fail NoKeys else if found = [] then Fail NoKeys else Ok found)))"

definition getKeysForBatchAndFileOps :: "KeyEnv \<Rightarrow> KeyContext \<Rightarrow> string \<Rightarrow> string option \<Rightarrow> bool \<Rightarrow> Key list outcome" where
  "getKeysForBatchAndFileOps env ctx base model isBatchOp =
     (case kc_DirectKey ctx of
        Some k \<Rightarrow> Ok [k]
      | None \<Rightarrow>
          (case ke_keys env of
             Inl err \<Rightarrow> Fail (AccountError err)
           | Inr keys \<Rightarrow>
               (let serves = (\<lambda>k. case model of
                                Some m \<Rightarrow> m = [] \<or> key_Models k = [] \<or> keySupportsRequestedModel (ke_known env) (key_Models k) m
                              | None \<Rightarrow> True);
                    found = filter (\<lambda>k. key_active k \<and> (isBatchOp \<longrightarrow> batch_enabled k) \<and> serves k \<and> key_has_value base k) keys
                in if keys = [] then Fail NoKeys
                   else if found = [] then Fail (if isBatchOp then NoBatchKeys else NoSupportedModel)
                   else Ok (sort_key key_ID found))))"

section \<open>Selectors\<close>

text \<open>\<open>int(key.Weight * 100)\<close>: rounded, then cut off at the point.\<close>

definition int_weight :: "Key \<Rightarrow> int" where
  "int_weight k = (let x = f_mul (key_Weight k) 100 in if 0 \<le> x then \<lfloor>x\<rfloor> else \<lceil>x\<rceil>)"

definition totalWeight :: "int list \<Rightarrow> int" where
  "totalWeight ws = fold (\<lambda>w acc. wrap64 (acc + w)) ws 0"

text \<open>The first position at which the running total exceeds the random value.\<close>

fun weighted_index :: "int \<Rightarrow> int \<Rightarrow> int list \<Rightarrow> nat option" where
  "weighted_index r current [] = None"
| "weighted_index r current (w # ws) =
     (let current' = wrap64 (current + w) in if r < current' then Some 0 else map_option Suc (weighted_index r current' ws))"

text \<open>\<open>Intn\<close> stands for \<open>rand.Intn\<close>, which panics on a bound that is not positive.\<close>

definition WeightedRandomKeySelector :: "(int \<Rightarrow> int) \<Rightarrow> Key list \<Rightarrow> Key outcome" where
  "WeightedRandomKeySelector Intn keys =
     (let ws = map int_weight keys; total = totalWeight ws in
      if total = 0 then (if keys = [] then Panic else Ok (keys ! nat (Intn (int (length keys)))))
      else if total < 0 then Panic
      else (case weighted_index (Intn total) 0 ws of Some i \<Rightarrow> Ok (keys ! i) | None \<Rightarrow> Ok (keys ! 0)))"

definition RoundRobinKeySelector :: "string \<Rightarrow> string \<Rightarrow> Key list \<Rightarrow> (string \<times> nat) list \<Rightarrow> Key outcome \<times> (string \<times> nat) list" where
  "RoundRobinKeySelector providerKey model keys counters =
     (case keys of
        [] \<Rightarrow> (Fail NoSelectableKey, counters)
      | [k] \<Rightarrow> (Ok k, counters)
      | _ \<Rightarrow>
          (let counterKey = providerKey @ '':'' @ model;
               idx = (case map_of counters counterKey of Some c \<Rightarrow> c | None \<Rightarrow> 0)
           in (Ok (keys ! (idx mod length keys)), AList.update counterKey ((idx + 1) mod 2 ^ 64) counters)))"

text \<open>The loop of the least-load selector; \<open>coins\<close> are the random bits of the ties.\<close>

definition key_score :: "KeyLoadTracker \<Rightarrow> Key \<Rightarrow> rat" where
  "key_score t k =
     f_div (fl (of_int (kl_ActiveRequests (key_state (key_ID k) t)))) (if key_Weight k \<le> 0 then 1 else key_Weight k)"

fun least_load :: "rat list \<Rightarrow> (nat \<Rightarrow> bool) \<Rightarrow> nat \<Rightarrow> nat \<times> rat \<Rightarrow> nat" where
  "least_load [] coins i best = fst best"
| "least_load (score # scores) coins i (bestIdx, bestScore) =
     least_load scores coins (Suc i)
       (if bestScore < 0 \<or> score < bestScore then (i, score)
        else if score = bestScore \<and> coins i then (i, bestScore) else (bestIdx, bestScore))"

definition LeastLoadKeySelector :: "(int \<Rightarrow> int) \<Rightarrow> (nat \<Rightarrow> bool) \<Rightarrow> KeyLoadTracker option \<Rightarrow> Key list \<Rightarrow> Key outcome \<times> KeyLoadTracker option" where
  "LeastLoadKeySelector Intn coins tracker keys =
     (case keys of
        [] \<Rightarrow> (Fail NoSelectableKey, tracker)
      | [k] \<Rightarrow> (Ok k, tracker)
      | _ \<Rightarrow>
          (case tracker of
             None \<Rightarrow> (WeightedRandomKeySelector Intn keys, None)
           | Some t \<Rightarrow>
               (Ok (keys ! least_load (map (key_score t) keys) coins 0 (0, -1)), Some (fold (\<lambda>k. getOrCreateState (key_ID k)) keys t))))"

text \<open>The selector that reads the strategy of the request.\<close>

definition Select ::
  "(int \<Rightarrow> int) \<Rightarrow> (nat \<Rightarrow> bool) \<Rightarrow> string \<Rightarrow> string \<Rightarrow> string \<Rightarrow> Key list \<Rightarrow> KeyLoadTracker option \<times> (string \<times> nat) list \<Rightarrow>
   Key outcome \<times> KeyLoadTracker option \<times> (string \<times> nat) list" where
  "Select Intn coins strategy providerKey model keys = (\<lambda>(tracker, counters).
     (if strategy = ''round_robin''
      then (case RoundRobinKeySelector providerKey model keys counters of (r, counters') \<Rightarrow> (r, tracker, counters'))
      else if strategy = ''least_load''
      then (case LeastLoadKeySelector Intn coins tracker keys of (r, tracker') \<Rightarrow> (r, tracker', counters))
      else (WeightedRandomKeySelector Intn keys, tracker, counters)))"

end
