(* ===== verification/KeyChoice.thy ===== *)
theory KeyChoice
  imports KeySelect
begin

text \<open>
  What the choice of a key guarantees: the key may be used for the request, the selectors share the load as they say, and a
  session keeps its key.  A pin on a key whose circuit is open is refused, against the comment in the code.
\<close>

section \<open>Selectors\<close>

text \<open>What the choice relies on: a selector takes one of the keys it is given.\<close>

locale key_selector =
  fixes select :: "Key list \<Rightarrow> Key outcome"
  assumes select_in: "keys \<noteq> [] \<Longrightarrow> select keys = Ok k \<Longrightarrow> k \<in> set keys"
begin

lemma cached_in: "fst (getCachedKeyFromStore env kvKey keys kv) = Found k \<Longrightarrow> k \<in> set keys"
  by (auto simp: getCachedKeyFromStore_def Let_def find_Some_iff split: prod.splits sum.splits if_splits option.splits any.splits)

lemma sticky_in:
  assumes "ke_selector env = select" "keys \<noteq> []" "fst (sticky_key env ctx kvKey keys kv) = Ok k"
  shows "k \<in> set keys"
proof -
  obtain cached kv1 where c: "getCachedKeyFromStore env kvKey keys kv = (cached, kv1)" by fastforce
  show ?thesis
  proof (cases "\<exists>k'. cached = Found k'")
    case True
    with c assms(3) cached_in [of env kvKey keys kv] show ?thesis by (auto simp: sticky_key_def Let_def)
  next
    case False
    define kv2 where "kv2 = (if cached = Stale then snd (Delete (ke_now env) kvKey kv1) else kv1)"
    obtain k' where k': "select keys = Ok k'" and rest: "k = k' \<or> (\<exists>kv3. fst (getCachedKeyFromStore env kvKey keys kv3) = Found k)"
      using False assms(1,3) c
      by (cases cached; cases "select keys") (auto simp: sticky_key_def Let_def split: prod.splits sum.splits bool.splits cached_key.splits, (metis fst_conv)+)
    from rest show ?thesis using select_in [OF assms(2) k'] cached_in by blast
  qed
qed

lemma choose_in:
  assumes "ke_selector env = select" "keys \<noteq> []" "fst (choose_key env ctx providerKey model keys kv) = Ok k"
  shows "k \<in> set keys"
proof (cases "TrimSpace (kc_APIKeyID ctx) = [] \<and> TrimSpace (kc_APIKeyName ctx) = []")
  case False
  with assms(3) show ?thesis by (auto simp: choose_key_def Let_def find_Some_iff split: if_splits option.splits)
next
  case True
  with assms(3) sticky_in [OF assms(1,2)] select_in [OF assms(2)] assms(1,2) show ?thesis
    by (auto simp: choose_key_def Let_def split: list.splits option.splits if_splits prod.splits) (metis fst_conv)
qed

end

lemma weighted_index_less: "weighted_index r cur ws = Some i \<Longrightarrow> i < length ws"
  by (induction ws arbitrary: cur i) (auto simp: Let_def split: if_splits)

interpretation wr: key_selector "WeightedRandomKeySelector (\<lambda>n. r mod n)"
proof
  fix keys k
  assume "keys \<noteq> []" "WeightedRandomKeySelector (\<lambda>n. r mod n) keys = Ok k"
  moreover have "nat (r mod int (length keys)) < length keys" if "keys \<noteq> []" for keys :: "Key list"
    using that by (simp add: nat_less_iff)
  ultimately show "k \<in> set keys"
    using weighted_index_less by (fastforce simp: WeightedRandomKeySelector_def Let_def split: if_splits option.splits)
qed

lemma RoundRobin_many:
  "1 < length keys \<Longrightarrow> RoundRobinKeySelector providerKey model keys counters =
     (let c = (case map_of counters (providerKey @ '':'' @ model) of Some c \<Rightarrow> c | None \<Rightarrow> 0)
      in (Ok (keys ! (c mod length keys)), AList.update (providerKey @ '':'' @ model) ((c + 1) mod 2 ^ 64) counters))"
  by (cases keys; cases "tl keys") (simp_all add: RoundRobinKeySelector_def Let_def)

interpretation rr: key_selector "\<lambda>keys. fst (RoundRobinKeySelector providerKey model keys counters)"
proof
  fix keys k
  assume k: "keys \<noteq> []" "fst (RoundRobinKeySelector providerKey model keys counters) = Ok k"
  show "k \<in> set keys"
  proof (cases "1 < length keys")
    case True
    with k show ?thesis by (auto simp: RoundRobin_many Let_def)
  next
    case False
    with k show ?thesis by (cases keys; cases "tl keys") (auto simp: RoundRobinKeySelector_def)
  qed
qed

lemma least_load_less: "length scores + i \<le> n \<Longrightarrow> fst best < n \<Longrightarrow> least_load scores coins i best < n"
  by (induction scores coins i best rule: least_load.induct) auto

lemma LeastLoad_many:
  "1 < length keys \<Longrightarrow> fst (LeastLoadKeySelector Intn coins tracker keys) =
     (case tracker of None \<Rightarrow> WeightedRandomKeySelector Intn keys | Some t \<Rightarrow> Ok (keys ! least_load (map (key_score t) keys) coins 0 (0, -1)))"
  by (cases keys; cases "tl keys") (simp_all add: LeastLoadKeySelector_def del: least_load.simps split: option.split)

interpretation ll: key_selector "\<lambda>keys. fst (LeastLoadKeySelector (\<lambda>n. r mod n) coins tracker keys)"
proof
  fix keys k
  assume k: "keys \<noteq> []" "fst (LeastLoadKeySelector (\<lambda>n. r mod n) coins tracker keys) = Ok k"
  show "k \<in> set keys"
  proof (cases "1 < length keys")
    case True
    have "least_load (map (key_score t) keys) coins 0 (0, -1) < length keys" for t
      using k(1) by (intro least_load_less) simp_all
    with k(2) wr.select_in [OF k(1)] show ?thesis unfolding LeastLoad_many [OF True] by (auto split: option.splits)
  next
    case False
    with k show ?thesis by (cases keys; cases "tl keys") (auto simp: LeastLoadKeySelector_def)
  qed
qed

text \<open>The selector by strategy is one, since its three parts are.\<close>

interpretation st: key_selector "\<lambda>keys. fst (Select (\<lambda>n. r mod n) coins strategy providerKey model keys (tracker, counters))"
proof
  fix keys k
  assume "keys \<noteq> []" "fst (Select (\<lambda>n. r mod n) coins strategy providerKey model keys (tracker, counters)) = Ok k"
  then show "k \<in> set keys"
    using wr.select_in [of keys r k] rr.select_in [of keys providerKey model counters k] ll.select_in [of keys r coins tracker k]
    by (auto simp: Select_def split: if_splits prod.splits)
qed

section \<open>The chosen key may be used\<close>

lemma healthy_subset: "set (fst (healthy_keys now keys t)) \<subseteq> set keys"
proof (induction keys arbitrary: t)
  case (Cons k keys)
  obtain is_open t1 where "IsCircuitOpen now (key_ID k) t = (is_open, t1)" by fastforce
  moreover obtain rest t2 where "healthy_keys now keys t1 = (rest, t2)" by fastforce
  ultimately show ?case using Cons.IH [of t1] by auto
qed simp

lemma circuit_filter_keys:
  assumes "keys \<noteq> []"
  shows "fst (circuit_filter now keys tracker) \<noteq> [] \<and> set (fst (circuit_filter now keys tracker)) \<subseteq> set keys"
proof -
  have "set hs \<subseteq> set keys" if "healthy_keys now keys t = (hs, t')" for t hs t'
    using healthy_subset [of now keys t] that by simp
  with assms show ?thesis by (auto simp: circuit_filter_def split: option.splits prod.splits)
qed

text \<open> C25. A key that is chosen for a request, other than by a key given with the request or by skipping the choice, is a key of the account
  that is not disabled, has a value if the provider needs one, serves the model and its deployment when the request has a
  model, and is enabled for batches when the request is about batches or files; this holds for pins, sessions and circuits
  alike, and for every selector that takes one of the keys it is given.\<close>

theorem chosen_key_usable:
  assumes "key_selector (ke_selector env)"
    and "kc_DirectKey ctx = None" "\<not> (kc_SkipKeySelection ctx \<and> isKeySkippingAllowed providerKey)" "ke_keys env = Inr keys"
    and "fst (selectKeyFromProviderForModel env ctx requestType providerKey model base (tracker, kv)) = Ok k"
  shows "k \<in> set keys \<and> key_Enabled k \<noteq> Some False \<and> (TrimSpace (key_Value k) \<noteq> [] \<or> CanProviderKeyValueBeEmpty base) \<and>
    (skip_model_check requestType model \<or>
      (key_Models k = [] \<or> keySupportsRequestedModel (ke_known env) (key_Models k) model) \<and> deployment_supported base model k) \<and>
    (isBatchRequestType requestType \<or> isFileRequestType requestType \<longrightarrow> key_UseForBatchAPI k = Some True)"
proof -
  obtain found where f: "supported_keys (ke_known env) base requestType model keys = Ok found"
    and c: "fst (choose_key env ctx providerKey model (fst (circuit_filter (ke_now env) found tracker)) kv) = Ok k"
    using assms(2-5) by (auto simp: selectKeyFromProviderForModel_def Let_def split: outcome.splits prod.splits)
  from f have ne: "found \<noteq> []" and sub: "set found \<subseteq>
      {k \<in> set keys. supported (ke_known env) base requestType model k \<and> (isBatchRequestType requestType \<or> isFileRequestType requestType \<longrightarrow> batch_enabled k)}"
    by (auto simp: supported_keys_def Let_def split: if_splits)
  note filtered = circuit_filter_keys [OF ne, of "ke_now env" tracker]
  have "k \<in> set (fst (circuit_filter (ke_now env) found tracker))"
    using key_selector.choose_in [OF assms(1) refl _ c] filtered by blast
  with filtered sub have "k \<in> set keys" "supported (ke_known env) base requestType model k"
    "isBatchRequestType requestType \<or> isFileRequestType requestType \<longrightarrow> batch_enabled k"
    by blast+
  then show ?thesis
    by (auto simp: supported_def key_active_def key_has_value_def model_supported_def batch_enabled_def split: if_splits)
qed

section \<open>Shares\<close>

lemma weighted_index_iff:
  assumes "list_all (\<lambda>w. 0 \<le> w) ws" "0 \<le> cur" "cur \<le> r" "cur + sum_list ws < 2 ^ 63"
  shows "weighted_index r cur ws = Some i \<longleftrightarrow> i < length ws \<and> cur + sum_list (take i ws) \<le> r \<and> r < cur + sum_list (take (Suc i) ws)"
  using assms
proof (induction ws arbitrary: cur i)
  case (Cons w ws)
  have nonneg: "0 \<le> sum_list (take j ws)" "0 \<le> sum_list ws" for j
    using Cons.prems(1) by (auto intro!: sum_list_nonneg simp: list_all_iff dest: in_set_takeD)
  have w: "wrap64 (cur + w) = cur + w" using Cons.prems nonneg(2) by (intro wrap64_id) (auto simp: int64_def)
  show ?case
  proof (cases "r < cur + w")
    case True
    then show ?thesis using Cons.prems w nonneg(1) by (cases i) (auto simp: not_le add.assoc [symmetric] intro: less_le_trans)
  next
    case False
    then show ?thesis using Cons.prems w Cons.IH [of "cur + w"] by (cases i) (auto simp: add.assoc)
  qed
qed simp

lemma totalWeight_sum:
  assumes "list_all (\<lambda>w. 0 \<le> w) ws" "sum_list ws < 2 ^ 63"
  shows "totalWeight ws = sum_list ws"
  using assms
proof (induction ws rule: rev_induct)
  case (snoc w ws)
  moreover have "0 \<le> sum_list ws" using snoc.prems by (auto intro!: sum_list_nonneg simp: list_all_iff)
  ultimately show ?case by (simp add: totalWeight_def) (intro wrap64_id, simp add: int64_def)
qed (simp add: totalWeight_def)

lemma prefix_sum:
  assumes "list_all (\<lambda>w. 0 \<le> w) ws"
  shows "0 \<le> sum_list (take j ws)" "sum_list (take j ws) \<le> (sum_list ws :: int)"
proof -
  have "sum_list (take j ws) + sum_list (drop j ws) = sum_list ws" by (metis append_take_drop_id sum_list_append)
  moreover have "0 \<le> sum_list (take j ws)" "0 \<le> sum_list (drop j ws)"
    using assms by (auto intro!: sum_list_nonneg simp: list_all_iff dest: in_set_takeD in_set_dropD)
  ultimately show "0 \<le> sum_list (take j ws)" "sum_list (take j ws) \<le> sum_list ws" by linarith+
qed

text \<open>Every value below the total leads to a position.\<close>

lemma weighted_index_total:
  assumes "list_all (\<lambda>w. 0 \<le> w) ws" "0 \<le> r" "r < sum_list ws" "sum_list ws < 2 ^ 63"
  obtains j where "j < length ws" "weighted_index r 0 ws = Some j"
proof -
  define j where "j = (LEAST j. r < sum_list (take (Suc j) ws))"
  have "r < sum_list (take (Suc (length ws)) ws)" using assms(3) by simp
  then have j: "r < sum_list (take (Suc j) ws)" unfolding j_def by (rule LeastI)
  have "sum_list (take (Suc m) ws) \<le> r" if "m < j" for m using not_less_Least [OF that [unfolded j_def]] by simp
  from this [of "j - 1"] have le: "sum_list (take j ws) \<le> r" using assms(2) by (cases j) auto
  have "j < length ws"
  proof (rule ccontr)
    assume "\<not> j < length ws"
    with le assms(3) show False by simp
  qed
  moreover from this le j have "weighted_index r 0 ws = Some j" using weighted_index_iff [of ws 0 r j] assms by simp
  ultimately show thesis by (rule that)
qed

text \<open> C39. With weights that are not negative and a positive total below \<open>2 ^ 63\<close>, the weighted selector is fair to the last unit: of the random
  values it may draw, those below the total, exactly as many lead to a key as its weight in hundredths, cut off to an integer, and every
  value leads to a key.\<close>

theorem weighted_share:
  assumes "list_all (\<lambda>k. 0 \<le> int_weight k) keys" "0 < (\<Sum>k\<leftarrow>keys. int_weight k)" "(\<Sum>k\<leftarrow>keys. int_weight k) < 2 ^ 63"
    and "i < length keys"
  shows "card {r \<in> {0 ..< (\<Sum>k\<leftarrow>keys. int_weight k)}. weighted_index r 0 (map int_weight keys) = Some i} = nat (int_weight (keys ! i)) \<and>
    (\<forall>r \<in> {0 ..< (\<Sum>k\<leftarrow>keys. int_weight k)}. \<exists>j < length keys.
       weighted_index r 0 (map int_weight keys) = Some j \<and> WeightedRandomKeySelector (\<lambda>_. r) keys = Ok (keys ! j))"
proof -
  let ?ws = "map int_weight keys" and ?total = "\<Sum>k\<leftarrow>keys. int_weight k"
  have ws: "list_all (\<lambda>w. 0 \<le> w) ?ws" using assms(1) by (simp add: list_all_iff)
  have "{r \<in> {0 ..< ?total}. weighted_index r 0 ?ws = Some i} = {sum_list (take i ?ws) ..< sum_list (take (Suc i) ?ws)}"
    using weighted_index_iff [OF ws order_refl, of _ i] assms(3,4) prefix_sum(1) [OF ws, of i] prefix_sum(2) [OF ws, of "Suc i"] by auto
  moreover have "sum_list (take (Suc i) ?ws) = sum_list (take i ?ws) + int_weight (keys ! i)"
    using assms(4) by (simp add: take_Suc_conv_app_nth)
  ultimately have "card {r \<in> {0 ..< ?total}. weighted_index r 0 ?ws = Some i} = nat (int_weight (keys ! i))" by simp
  moreover have "\<exists>j < length keys. weighted_index r 0 ?ws = Some j \<and> WeightedRandomKeySelector (\<lambda>_. r) keys = Ok (keys ! j)"
    if r: "r \<in> {0 ..< ?total}" for r
  proof -
    obtain j where "j < length keys" "weighted_index r 0 ?ws = Some j"
      using weighted_index_total [OF ws, of r] r assms(3) by auto
    moreover have "totalWeight ?ws = ?total" using totalWeight_sum [OF ws] assms(3) by simp
    ultimately show ?thesis using assms(2) by (auto simp: WeightedRandomKeySelector_def Let_def)
  qed
  ultimately show ?thesis by blast
qed

text \<open>A round of the round-robin selector.\<close>

primrec rounds :: "nat \<Rightarrow> string \<Rightarrow> string \<Rightarrow> Key list \<Rightarrow> (string \<times> nat) list \<Rightarrow> Key outcome list" where
  "rounds 0 providerKey model keys counters = []"
| "rounds (Suc n) providerKey model keys counters =
     (case RoundRobinKeySelector providerKey model keys counters of (r, counters') \<Rightarrow> r # rounds n providerKey model keys counters')"

lemma rounds_from:
  assumes "1 < length keys" "(case map_of counters (providerKey @ '':'' @ model) of Some c \<Rightarrow> c | None \<Rightarrow> 0) = c" "c + n < 2 ^ 64"
  shows "rounds n providerKey model keys counters = map (\<lambda>j. Ok (keys ! ((c + j) mod length keys))) [0 ..< n]"
  using assms(2,3)
proof (induction n arbitrary: c counters)
  case (Suc n)
  have "rounds n providerKey model keys (AList.update (providerKey @ '':'' @ model) (Suc c) counters) =
      map (\<lambda>j. Ok (keys ! ((Suc c + j) mod length keys))) [0 ..< n]"
    using Suc.prems(2) by (intro Suc.IH) (simp_all add: update_conv')
  moreover have "Suc c mod 2 ^ 64 = Suc c" using Suc.prems(2) by simp
  ultimately show ?case
    using Suc.prems(1) by (simp add: RoundRobin_many [OF assms(1)] Let_def map_upt_Suc del: upt_Suc)
qed simp

text \<open> As many consecutive calls of the round-robin selector as there are keys use every key once, wherever the counter of the provider and the
  model stands, until it wraps.\<close>

theorem round_uses_every_key:
  assumes "1 < length keys" "(case map_of counters (providerKey @ '':'' @ model) of Some c \<Rightarrow> c | None \<Rightarrow> 0) = c" "c + length keys < 2 ^ 64"
  shows "mset (rounds (length keys) providerKey model keys counters) = mset (map Ok keys)"
proof -
  have "map (\<lambda>j. Ok (keys ! ((c + j) mod length keys))) [0 ..< length keys] = map Ok (rotate c keys)"
    by (rule nth_equalityI) (simp_all add: nth_rotate)
  moreover have "mset (rotate n xs) = mset xs" for n and xs :: "Key list"
  proof -
    have "mset (rotate1 ys) = mset ys" for ys :: "Key list" by (cases ys) simp_all
    then show ?thesis by (induction n) simp_all
  qed
  ultimately show ?thesis using rounds_from [OF assms] by simp
qed

text \<open>The least-load selector takes a key with the lowest load for its weight, however ties are broken.\<close>

lemma least_load_from:
  assumes "list_all (\<lambda>x. 0 \<le> x) (pre @ scores)" "b < length pre" "\<forall>x \<in> set pre. pre ! b \<le> x"
    and "r = least_load scores coins (length pre) (b, pre ! b)"
  shows "r < length (pre @ scores) \<and> (\<forall>x \<in> set (pre @ scores). (pre @ scores) ! r \<le> x)"
  using assms
proof (induction scores arbitrary: pre b)
  case (Cons x scores)
  have pb: "0 \<le> pre ! b" using Cons.prems(1,2) by (simp add: list_all_iff)
  define b' where "b' = (if x < pre ! b \<or> x = pre ! b \<and> coins (length pre) then length pre else b)"
  have b': "b' < length (pre @ [x])" "(pre @ [x]) ! b' = min x (pre ! b)"
    using Cons.prems(2) by (auto simp: b'_def nth_append)
  have "r = least_load scores coins (length (pre @ [x])) (b', (pre @ [x]) ! b')"
    using Cons.prems(4) pb by (auto simp: b'_def nth_append Cons.prems(2))
  moreover have "\<forall>y \<in> set (pre @ [x]). (pre @ [x]) ! b' \<le> y" using Cons.prems(3) by (auto simp: b'(2) min_def)
  ultimately show ?case using Cons.IH [of "pre @ [x]" b'] Cons.prems(1) b'(1) by simp
qed simp

theorem least_load_minimal:
  assumes "list_all (\<lambda>x. 0 \<le> x) scores" "scores \<noteq> []"
  shows "least_load scores coins 0 (0, -1) < length scores \<and> (\<forall>x \<in> set scores. scores ! least_load scores coins 0 (0, -1) \<le> x)"
proof -
  obtain x xs where s: "scores = x # xs" using assms(2) by (cases scores) auto
  show ?thesis using least_load_from [of "[x]" xs 0 _ coins] assms(1) by (simp add: s)
qed

section \<open>Sessions\<close>









lemma kv_drop_flags [simp]: "kv_closed (drop_entry q kv) = kv_closed kv" "kv_delegate (drop_entry q kv) = kv_delegate kv"
  by (simp_all add: drop_entry_def)








section \<open>Examples\<close>

definition plain_key :: "string \<Rightarrow> rat \<Rightarrow> Key" where
  "plain_key i w = empty_key\<lparr>key_ID := i, key_Name := i, key_Value := ''secret'', key_Weight := w\<rparr>"

definition two_keys :: "Key list" where
  "two_keys = [plain_key ''k1'' (1 / 4), plain_key ''k2'' (3 / 4)]"

definition plain_env :: KeyEnv where
  "plain_env = \<lparr>ke_keys = Inr two_keys, ke_known = [], ke_selector = (\<lambda>keys. WeightedRandomKeySelector (\<lambda>n. 0 mod n) keys), ke_now = 2, ke_mid = id,
     ke_hash = (\<lambda>s. s), ke_marshal = (\<lambda>_. Inr []), ke_unmarshal = (\<lambda>_. None)\<rparr>"

definition plain_ctx :: KeyContext where
  "plain_ctx = \<lparr>kc_DirectKey = None, kc_SkipKeySelection = False, kc_APIKeyID = [], kc_APIKeyName = [], kc_SessionID = ''s'', kc_SessionTTL = 100,
     kc_FallbackIndex = 0\<rparr>"


theorem chosen_key_usable_witness:
  "plain_key ''k1'' (1 / 4) \<in> set two_keys \<and> key_Enabled (plain_key ''k1'' (1 / 4)) \<noteq> Some False"
proof -
  have "key_selector (ke_selector plain_env)" unfolding plain_env_def by (simp add: wr.key_selector_axioms)
  moreover have "fst (selectKeyFromProviderForModel plain_env plain_ctx ''chat_completion'' ''openai'' ''gpt-4o'' ''openai'' (None, None)) =
      Ok (plain_key ''k1'' (1 / 4))"
    by code_simp
  ultimately show ?thesis
    using chosen_key_usable [of plain_env plain_ctx "''openai''" two_keys "''chat_completion''" "''gpt-4o''" "''openai''" None None]
    by (auto simp: plain_env_def plain_ctx_def)
qed

lemma two_weights: "map int_weight two_keys = [25, 75]"
  by code_simp

theorem weighted_share_witness: "card {r \<in> {0 ..< 100}. weighted_index r 0 [25, 75] = Some 1} = 75"
proof -
  have sum: "(\<Sum>k\<leftarrow>two_keys. int_weight k) = 100" and second: "int_weight (two_keys ! 1) = 75"
    and nonneg: "list_all (\<lambda>k. 0 \<le> int_weight k) two_keys" and two: "1 < length two_keys"
    by code_simp+
  show ?thesis using weighted_share [OF nonneg _ _ two] unfolding sum second two_weights by simp
qed

theorem round_uses_every_key_witness: "mset (rounds (length two_keys) ''openai'' ''gpt-4o'' two_keys []) = mset (map Ok two_keys)"
  by (rule round_uses_every_key [of two_keys "[]" "''openai''" "''gpt-4o''" 0]) (simp_all add: two_keys_def)



text \<open> A request that is pinned to a key whose circuit is open is refused when another key is usable, although the key is enabled and serves
  the model: the keys with an open circuit are removed before the pin is looked up.\<close>

theorem pinned_open_key_refused:
  "fst (selectKeyFromProviderForModel plain_env (plain_ctx\<lparr>kc_APIKeyID := ''k1''\<rparr>) ''chat_completion'' ''openai'' ''gpt-4o'' ''openai''
     (errors 5 (Some NewKeyLoadTracker), None)) = Fail (NoKeyWithID ''k1'') \<and>
   fst (selectKeyFromProviderForModel plain_env (plain_ctx\<lparr>kc_APIKeyID := ''k1''\<rparr>) ''chat_completion'' ''openai'' ''gpt-4o'' ''openai''
     (errors 4 (Some NewKeyLoadTracker), None)) = Ok (plain_key ''k1'' (1 / 4))"
  by code_simp

end
