(* ===== verification/PluginChain.thy ===== *)
theory PluginChain
  imports GovResolver
begin

text \<open>
  The plugin pipeline around a model call, \<^verbatim>\<open>deepintshield_server/core/deepintshield.go\<close>: which plugin runs for which workspace, the hooks before
  the call and the hooks after it, and \<open>tryRequest\<close>, which puts the request between them into the queue of its provider.

  Tracing, latency measurement and the timing of streamed chunks are left out; the line \<open>running pre-hook\<close> or \<open>running post-hook\<close> that is
  logged before each hook is kept, as the list of the runs.  Plugins are values with their hooks as functions over a state of their own.
\<close>

section \<open>Requests, responses and errors\<close>

record ErrorField =
  ef_Type :: "string option"
  ef_Message :: string
  ef_Error :: "string option"

record ErrorExtraFields =
  xf_RequestType :: string
  xf_Provider :: string
  xf_ModelRequested :: string
  xf_RawRequest :: "string option"
  xf_RawResponse :: "string option"
  xf_KeyStatuses :: "string list"

record CoreError =
  ce_IsDeepIntShieldError :: bool
  ce_StatusCode :: "int option"
  ce_Error :: "ErrorField option"
  ce_AllowFallbacks :: "bool option"
  ce_ExtraFields :: ErrorExtraFields

record CoreResponse =
  cr_Body :: string
  cr_RawRequest :: "string option"
  cr_RawResponse :: "string option"

text \<open>The kind of body a request has: the kinds with a model and fallbacks, and the others.\<close>

datatype RequestBody =
  TextCompletionBody | ChatBody | ResponsesBody | CountTokensBody | EmbeddingBody | RerankBody | SpeechBody | TranscriptionBody
| ImageGenerationBody | ImageEditBody | ImageVariationBody | VideoGenerationBody | OtherBody

record CoreRequest =
  rq_RequestType :: string
  rq_Kind :: RequestBody
  rq_Provider :: string
  rq_Model :: string
  rq_Fallbacks :: "(string \<times> string) list"
  rq_Content :: string

definition GetRequestFields :: "CoreRequest \<Rightarrow> string \<times> string \<times> (string \<times> string) list" where
  "GetRequestFields req = (rq_Provider req, rq_Model req, if rq_Kind req = OtherBody then [] else rq_Fallbacks req)"

definition no_extra :: ErrorExtraFields where
  "no_extra = \<lparr>xf_RequestType = [], xf_Provider = [], xf_ModelRequested = [], xf_RawRequest = None, xf_RawResponse = None, xf_KeyStatuses = []\<rparr>"

definition newDeepIntShieldErrorFromMsg :: "string \<Rightarrow> CoreError" where
  "newDeepIntShieldErrorFromMsg message =
     \<lparr>ce_IsDeepIntShieldError = False, ce_StatusCode = None, ce_Error = Some \<lparr>ef_Type = None, ef_Message = message, ef_Error = None\<rparr>,
      ce_AllowFallbacks = None, ce_ExtraFields = no_extra\<rparr>"

definition newDeepIntShieldError :: "string \<Rightarrow> CoreError" where
  "newDeepIntShieldError err =
     \<lparr>ce_IsDeepIntShieldError = False, ce_StatusCode = None, ce_Error = Some \<lparr>ef_Type = None, ef_Message = err, ef_Error = Some err\<rparr>,
      ce_AllowFallbacks = None, ce_ExtraFields = no_extra\<rparr>"

definition error_of_request :: "CoreRequest \<Rightarrow> CoreError \<Rightarrow> CoreError" where
  "error_of_request req e = e\<lparr>ce_ExtraFields := no_extra\<lparr>xf_RequestType := rq_RequestType req, xf_Provider := rq_Provider req, xf_ModelRequested := rq_Model req\<rparr>\<rparr>"

section \<open>Plugins\<close>

record LLMPluginShortCircuit =
  sc_Response :: "CoreResponse option"
  sc_Error :: "CoreError option"

text \<open>\<open>pl_id\<close> is the identity of the instance; \<open>pl_WorkspaceID\<close> is present for an instance that is bound to a workspace.\<close>

record 'w LLMPlugin =
  pl_id :: nat
  pl_Name :: string
  pl_WorkspaceID :: "string option"
  pl_PreLLMHook :: "DeepIntShieldContext \<Rightarrow> CoreRequest option \<Rightarrow> 'w \<Rightarrow>
    (CoreRequest option \<times> LLMPluginShortCircuit option \<times> string option) \<times> DeepIntShieldContext \<times> 'w"
  pl_PostLLMHook :: "DeepIntShieldContext \<Rightarrow> CoreResponse option \<times> CoreError option \<Rightarrow> 'w \<Rightarrow>
    (CoreResponse option \<times> CoreError option \<times> string option) \<times> DeepIntShieldContext \<times> 'w"

datatype hook_run = RanPre nat | RanPost nat

record 'w Flow =
  flow_ctx :: DeepIntShieldContext
  flow_executedPreHooks :: nat
  flow_preHookErrors :: "string list"
  flow_postHookErrors :: "string list"
  flow_runs :: "hook_run list"
  flow_world :: 'w

definition workspaceFromContext :: "DeepIntShieldContext \<Rightarrow> string" where
  "workspaceFromContext ctx = TrimSpace (GetStringFromContext ctx ''workspace_id'')"

definition plugin_workspace :: "'w LLMPlugin \<Rightarrow> string" where
  "plugin_workspace p = (case pl_WorkspaceID p of Some ws \<Rightarrow> ws | None \<Rightarrow> [])"

definition shouldRunPluginForRequestWorkspace :: "'w LLMPlugin \<Rightarrow> 'w LLMPlugin list \<Rightarrow> string \<Rightarrow> bool" where
  "shouldRunPluginForRequestWorkspace plugin all requestWS =
     (if plugin_workspace plugin = []
      then requestWS = [] \<or>
        \<not> list_ex (\<lambda>other. pl_id other \<noteq> pl_id plugin \<and> pl_Name other = pl_Name plugin \<and> plugin_workspace other = requestWS) all
      else plugin_workspace plugin = requestWS)"

section \<open>Hooks before the call\<close>

definition skip_pipeline :: "DeepIntShieldContext \<Rightarrow> bool" where
  "skip_pipeline ctx = GetBoolFromContext ctx ''deepintshield-skip-plugin-pipeline''"

definition block_writes :: "bool \<Rightarrow> 'w Flow \<Rightarrow> 'w Flow" where
  "block_writes b s = s\<lparr>flow_ctx := (flow_ctx s)\<lparr>ctx_blockRestrictedWrites := b\<rparr>\<rparr>"

fun pre_loop :: "'w LLMPlugin list \<Rightarrow> (nat \<times> 'w LLMPlugin) list \<Rightarrow> CoreRequest option \<Rightarrow> 'w Flow \<Rightarrow>
    (CoreRequest option \<times> LLMPluginShortCircuit option) \<times> 'w Flow" where
  "pre_loop all [] req s = ((req, None), s)"
| "pre_loop all ((i, plugin) # rest) req s =
     (if \<not> shouldRunPluginForRequestWorkspace plugin all (workspaceFromContext (flow_ctx s)) then pre_loop all rest req s
      else
        (case pl_PreLLMHook plugin (flow_ctx s) req (flow_world s) of
           ((req', shortCircuit, err), ctx', w') \<Rightarrow>
             (let s' = s\<lparr>flow_ctx := ctx', flow_world := w', flow_runs := flow_runs s @ [RanPre i],
                         flow_preHookErrors := flow_preHookErrors s @ (case err of None \<Rightarrow> [] | Some e \<Rightarrow> [e]),
                         flow_executedPreHooks := i + 1\<rparr>
              in if shortCircuit \<noteq> None then ((req', shortCircuit), s') else pre_loop all rest req' s')))"

definition RunLLMPreHooks :: "'w LLMPlugin list \<Rightarrow> CoreRequest option \<Rightarrow> 'w Flow \<Rightarrow>
    (CoreRequest option \<times> LLMPluginShortCircuit option \<times> nat) \<times> 'w Flow" where
  "RunLLMPreHooks plugins req s =
     (if skip_pipeline (flow_ctx s) then ((req, None, 0), s)
      else
        (case pre_loop plugins (enumerate 0 plugins) req (block_writes True s) of
           ((req', shortCircuit), s') \<Rightarrow> ((req', shortCircuit, flow_executedPreHooks s'), block_writes False s')))"

section \<open>Hooks after the call\<close>

fun post_loop :: "'w LLMPlugin list \<Rightarrow> (nat \<times> 'w LLMPlugin) list \<Rightarrow> CoreResponse option \<times> CoreError option \<Rightarrow> 'w Flow \<Rightarrow>
    (CoreResponse option \<times> CoreError option) \<times> 'w Flow" where
  "post_loop all [] r s = (r, s)"
| "post_loop all ((i, plugin) # rest) r s =
     (if \<not> shouldRunPluginForRequestWorkspace plugin all (workspaceFromContext (flow_ctx s)) then post_loop all rest r s
      else
        (case pl_PostLLMHook plugin (flow_ctx s) r (flow_world s) of
           ((resp, e, err), ctx', w') \<Rightarrow>
             post_loop all rest (resp, e)
               (s\<lparr>flow_ctx := ctx', flow_world := w', flow_runs := flow_runs s @ [RanPost i],
                  flow_postHookErrors := flow_postHookErrors s @ (case err of None \<Rightarrow> [] | Some e \<Rightarrow> [e])\<rparr>)))"

text \<open>An error without code, type, message and cause counts as none when there is a response.\<close>

definition empty_error :: "CoreError \<Rightarrow> bool" where
  "empty_error e \<longleftrightarrow>
     ce_StatusCode e = None \<and>
     (case ce_Error e of Some f \<Rightarrow> ef_Type f = None \<and> ef_Message f = [] \<and> ef_Error f = None | None \<Rightarrow> False)"

definition RunPostLLMHooks :: "'w LLMPlugin list \<Rightarrow> CoreResponse option \<times> CoreError option \<Rightarrow> nat \<Rightarrow> 'w Flow \<Rightarrow>
    (CoreResponse option \<times> CoreError option) \<times> 'w Flow" where
  "RunPostLLMHooks plugins r runFrom s =
     (if skip_pipeline (flow_ctx s) then (r, s)
      else
        (case post_loop plugins (rev (take runFrom (enumerate 0 plugins))) r (block_writes True s) of
           ((resp, err), s') \<Rightarrow>
             ((resp, case err of None \<Rightarrow> None | Some e \<Rightarrow> if resp \<noteq> None \<and> empty_error e then None else Some e), block_writes False s')))"

section \<open>One attempt at a provider\<close>

text \<open>How the two sends to the queue end, and what comes back from the worker.\<close>

datatype send = Sent | Shutdown | Cancelled | QueueFull

datatype answer = Answer "CoreResponse option" | Failed CoreError | Expired string

record 'w TryEnv =
  te_queue :: "string option"
  te_addTools :: "CoreRequest \<Rightarrow> CoreRequest"
  te_tracer :: bool
  te_plugins :: "'w LLMPlugin list"
  te_closing :: bool
  te_send :: send
  te_dropExcess :: bool
  te_closingAgain :: bool
  te_sendAgain :: send
  te_worker :: "CoreRequest \<Rightarrow> DeepIntShieldContext \<Rightarrow> 'w \<Rightarrow> answer \<times> DeepIntShieldContext \<times> 'w"
  te_pluginCount :: nat

text \<open>The message for which the request does not enter the queue.\<close>

definition enqueue_error :: "'w TryEnv \<Rightarrow> string option" where
  "enqueue_error env =
     (if te_closing env then Some ''provider is shutting down''
      else
        (case te_send env of
           Sent \<Rightarrow> None
         | Shutdown \<Rightarrow> Some ''provider is shutting down''
         | Cancelled \<Rightarrow> Some ''request cancelled while waiting for queue space''
         | QueueFull \<Rightarrow>
             if te_dropExcess env then Some ''request dropped: queue is full''
             else if te_closingAgain env then Some ''provider is shutting down''
             else
               (case te_sendAgain env of
                  Shutdown \<Rightarrow> Some ''provider is shutting down''
                | Cancelled \<Rightarrow> Some ''request cancelled while waiting for queue space''
                | _ \<Rightarrow> None)))"

definition drop_raw :: "DeepIntShieldContext \<Rightarrow> bool" where
  "drop_raw ctx = GetBoolFromContext ctx ''deepintshield-raw-request-response-for-logging''"

definition without_raw :: "CoreResponse \<Rightarrow> CoreResponse" where
  "without_raw r = r\<lparr>cr_RawRequest := None, cr_RawResponse := None\<rparr>"

definition error_without_raw :: "CoreError \<Rightarrow> CoreError" where
  "error_without_raw e = e\<lparr>ce_ExtraFields := (ce_ExtraFields e)\<lparr>xf_RawRequest := None, xf_RawResponse := None\<rparr>\<rparr>"

definition expired_error :: "CoreRequest \<Rightarrow> string \<Rightarrow> CoreError" where
  "expired_error req err =
     error_of_request req
       \<lparr>ce_IsDeepIntShieldError = True, ce_StatusCode = None,
        ce_Error = Some \<lparr>ef_Type = Some ''request_cancelled'', ef_Message = ''request timed out waiting for provider response: '' @ err, ef_Error = Some err\<rparr>,
        ce_AllowFallbacks = None, ce_ExtraFields = no_extra\<rparr>"

text \<open>An error of the hooks takes the place of the response.\<close>

definition error_first :: "CoreResponse option \<times> CoreError option \<Rightarrow> CoreResponse option \<times> CoreError option" where
  "error_first r = (case snd r of Some e \<Rightarrow> (None, Some e) | None \<Rightarrow> (fst r, None))"

definition await_answer :: "'w TryEnv \<Rightarrow> CoreRequest \<Rightarrow> CoreRequest \<Rightarrow> 'w Flow \<Rightarrow> (CoreResponse option \<times> CoreError option) \<times> 'w Flow" where
  "await_answer env req preReq s =
     (case te_worker env preReq (flow_ctx s) (flow_world s) of
        (answer, ctx', w') \<Rightarrow>
          (let s1 = s\<lparr>flow_ctx := ctx', flow_world := w'\<rparr>
           in case answer of
                Answer result \<Rightarrow>
                  (case RunPostLLMHooks (te_plugins env) (result, None) (te_pluginCount env) s1 of
                     (r, s2) \<Rightarrow>
                       (if snd r = None \<and> drop_raw (flow_ctx s2) then (map_option without_raw (fst r), None) else error_first r, s2))
              | Failed e \<Rightarrow>
                  (case RunPostLLMHooks (te_plugins env) (None, Some e) (te_pluginCount env) s1 of
                     (r, s2) \<Rightarrow>
                       (error_first
                          (if drop_raw (flow_ctx s2) then (map_option without_raw (fst r), map_option error_without_raw (snd r)) else r), s2))
              | Expired err \<Rightarrow> ((None, Some (expired_error req err)), s1)))"

definition tryRequest :: "'w TryEnv \<Rightarrow> CoreRequest \<Rightarrow> 'w Flow \<Rightarrow> (CoreResponse option \<times> CoreError option) \<times> 'w Flow" where
  "tryRequest env req0 s0 =
     (case te_queue env of
        Some err \<Rightarrow> ((None, Some (error_of_request req0 (newDeepIntShieldError err))), s0)
      | None \<Rightarrow>
          (let req = te_addTools env req0 in
           if \<not> te_tracer env then ((None, Some (newDeepIntShieldErrorFromMsg ''tracer not found in context'')), s0)
           else
             (case RunLLMPreHooks (te_plugins env) (Some req)
                (s0\<lparr>flow_executedPreHooks := 0, flow_preHookErrors := [], flow_postHookErrors := []\<rparr>) of
                ((preReq, shortCircuit, preCount), s) \<Rightarrow>
                  (let result = Option.bind shortCircuit sc_Response; failure = Option.bind shortCircuit sc_Error in
                   if result \<noteq> None \<or> failure \<noteq> None
                   then (case RunPostLLMHooks (te_plugins env) (if result \<noteq> None then (result, None) else (None, failure)) preCount s of
                           (r, s') \<Rightarrow> (error_first r, s'))
                   else
                     (case preReq of
                        None \<Rightarrow>
                          ((None, Some (error_of_request (req\<lparr>rq_Provider := rq_Provider req0, rq_Model := rq_Model req0\<rparr>)
                             (newDeepIntShieldErrorFromMsg ''deepintshield request after plugin hooks cannot be nil''))), s)
                      | Some preReq' \<Rightarrow>
                          (case enqueue_error env of
                             Some message \<Rightarrow>
                               ((None, Some (error_of_request (req\<lparr>rq_Provider := rq_Provider req0, rq_Model := rq_Model req0\<rparr>)
                                  (newDeepIntShieldErrorFromMsg message))), s)
                           | None \<Rightarrow> await_answer env req preReq' s))))))"

end
