(* ===== verification/PluginSymmetry.thy ===== *)
theory PluginSymmetry
  imports PluginChain
begin

text \<open>
  The promise of the plugin interface that every hook before the call is matched by the hook after it, in reverse order: when it holds, and the
  two ways in which the code breaks it, a request that never reaches its provider and a plugin of a workspace placed before the plugin
  that finds out the workspace.
\<close>

section \<open>What the promise needs of plugins\<close>

text \<open>The plugin runs in every workspace.\<close>

definition everywhere :: "'w LLMPlugin list \<Rightarrow> 'w LLMPlugin \<Rightarrow> bool" where
  "everywhere all p \<longleftrightarrow> plugin_workspace p = [] \<and> list_all (\<lambda>q. pl_Name q = pl_Name p \<longrightarrow> plugin_workspace q = []) all"

definition pre_keeps_workspace :: "'w LLMPlugin \<Rightarrow> bool" where
  "pre_keeps_workspace p \<longleftrightarrow>
     (\<forall>ctx req w. workspaceFromContext (fst (snd (pl_PreLLMHook p ctx req w))) = workspaceFromContext ctx)"

text \<open>The plugins up to the one that finds out the workspace run in every workspace, those after it leave the workspace alone.\<close>

fun workspace_settled :: "'w LLMPlugin list \<Rightarrow> (nat \<times> 'w LLMPlugin) list \<Rightarrow> bool" where
  "workspace_settled all [] = True"
| "workspace_settled all ((i, p) # ps) =
     (everywhere all p \<and> workspace_settled all ps \<or> list_all (\<lambda>(_, q). pre_keeps_workspace q) ((i, p) # ps))"

text \<open>Hooks leave the flag that skips the pipeline alone, the hook after the call also the workspace; the hook before the call keeps the request
  or ends the chain with a response or an error.\<close>

definition well_behaved :: "'w LLMPlugin \<Rightarrow> bool" where
  "well_behaved p \<longleftrightarrow>
     (\<forall>ctx req w. case pl_PreLLMHook p ctx req w of ((req', sc, err), ctx', w') \<Rightarrow>
        skip_pipeline ctx' = skip_pipeline ctx \<and> (sc = None \<longrightarrow> req \<noteq> None \<longrightarrow> req' \<noteq> None) \<and>
        (\<forall>c. sc = Some c \<longrightarrow> sc_Response c \<noteq> None \<or> sc_Error c \<noteq> None)) \<and>
     (\<forall>ctx r w. case pl_PostLLMHook p ctx r w of (r', ctx', w') \<Rightarrow>
        skip_pipeline ctx' = skip_pipeline ctx \<and> workspaceFromContext ctx' = workspaceFromContext ctx)"

lemma well_behaved_pre:
  assumes "well_behaved p" "pl_PreLLMHook p ctx req w = ((req', sc, err), ctx', w')"
  shows "skip_pipeline ctx' = skip_pipeline ctx" "sc = None \<Longrightarrow> req \<noteq> None \<Longrightarrow> req' \<noteq> None"
    "sc = Some c \<Longrightarrow> sc_Response c \<noteq> None \<or> sc_Error c \<noteq> None"
  using assms(1) [unfolded well_behaved_def, THEN conjunct1, rule_format, of ctx req w] unfolding assms(2) by simp_all

lemma well_behaved_post:
  assumes "well_behaved p" "pl_PostLLMHook p ctx r w = (r', ctx', w')"
  shows "skip_pipeline ctx' = skip_pipeline ctx" "workspaceFromContext ctx' = workspaceFromContext ctx"
  using assms(1) [unfolded well_behaved_def, THEN conjunct2, rule_format, of ctx r w] unfolding assms(2) by simp_all

section \<open>The hooks that run\<close>

definition ran :: "'w LLMPlugin list \<Rightarrow> string \<Rightarrow> (nat \<times> 'w LLMPlugin) list \<Rightarrow> nat list" where
  "ran all ws ps = map fst (filter (\<lambda>(_, p). shouldRunPluginForRequestWorkspace p all ws) ps)"

lemma ran_simps [simp]:
  "ran all ws [] = []"
  "ran all ws ((i, p) # ps) = (if shouldRunPluginForRequestWorkspace p all ws then i # ran all ws ps else ran all ws ps)"
  "ran all ws (ps @ qs) = ran all ws ps @ ran all ws qs"
  "ran all ws (rev ps) = rev (ran all ws ps)"
  by (simp_all add: ran_def rev_filter rev_map)

lemma ran_sorted: "sorted_wrt (<) (map fst ps) \<Longrightarrow> sorted_wrt (<) (ran all ws ps)"
  by (simp add: ran_def sorted_wrt_map sorted_wrt_filter)

lemma everywhere_runs: "everywhere all p \<Longrightarrow> shouldRunPluginForRequestWorkspace p all ws"
  by (auto simp: everywhere_def shouldRunPluginForRequestWorkspace_def list_ex_iff list_all_iff)

abbreviation flow_workspace :: "'w Flow \<Rightarrow> string" where
  "flow_workspace s \<equiv> workspaceFromContext (flow_ctx s)"

text \<open>How far the loop before the call came: through all plugins, or up to the one that ended the chain.\<close>

definition pre_reached :: "(nat \<times> 'w LLMPlugin) list \<Rightarrow> LLMPluginShortCircuit option \<Rightarrow> 'w Flow \<Rightarrow> (nat \<times> 'w LLMPlugin) list \<Rightarrow> bool" where
  "pre_reached ps sc s js \<longleftrightarrow>
     (\<exists>rest. ps = js @ rest \<and> (sc = None \<longrightarrow> rest = []) \<and> (sc \<noteq> None \<longrightarrow> js \<noteq> [] \<and> flow_executedPreHooks s = Suc (fst (last js))))"

lemma pre_reached_Nil [simp]: "pre_reached [] None s []"
  by (simp add: pre_reached_def)

lemma pre_reached_here: "sc \<noteq> None \<Longrightarrow> flow_executedPreHooks s = Suc i \<Longrightarrow> pre_reached ((i, p) # ps) sc s [(i, p)]"
  by (auto simp: pre_reached_def)

lemma pre_reached_Cons: "pre_reached ps sc s js \<Longrightarrow> pre_reached (p # ps) sc s (p # js)"
  by (auto simp: pre_reached_def)

text \<open>One turn of the loop: the plugin is passed over, ends the chain, or runs and hands on.\<close>

definition pre_ran :: "nat \<Rightarrow> string option \<Rightarrow> DeepIntShieldContext \<Rightarrow> 'w \<Rightarrow> 'w Flow \<Rightarrow> 'w Flow" where
  "pre_ran i err ctx' w' s =
     s\<lparr>flow_ctx := ctx', flow_world := w', flow_runs := flow_runs s @ [RanPre i],
       flow_preHookErrors := flow_preHookErrors s @ (case err of None \<Rightarrow> [] | Some e \<Rightarrow> [e]), flow_executedPreHooks := i + 1\<rparr>"

lemma pre_ran_simps [simp]:
  "flow_ctx (pre_ran i err ctx' w' s) = ctx'" "flow_runs (pre_ran i err ctx' w' s) = flow_runs s @ [RanPre i]"
  "flow_executedPreHooks (pre_ran i err ctx' w' s) = Suc i"
  by (simp_all add: pre_ran_def)

lemma pre_loop_cases:
  assumes "pre_loop all ((i, p) # ps) req s = ((req', sc), s')"
  obtains (skip) "\<not> shouldRunPluginForRequestWorkspace p all (flow_workspace s)" "pre_loop all ps req s = ((req', sc), s')"
  | (stop) err ctx' w' where "shouldRunPluginForRequestWorkspace p all (flow_workspace s)"
      "pl_PreLLMHook p (flow_ctx s) req (flow_world s) = ((req', sc, err), ctx', w')" "sc \<noteq> None" "s' = pre_ran i err ctx' w' s"
  | (pass) r err ctx' w' where "shouldRunPluginForRequestWorkspace p all (flow_workspace s)"
      "pl_PreLLMHook p (flow_ctx s) req (flow_world s) = ((r, None, err), ctx', w')"
      "pre_loop all ps r (pre_ran i err ctx' w' s) = ((req', sc), s')"
proof -
  obtain r c e x w where h: "pl_PreLLMHook p (flow_ctx s) req (flow_world s) = ((r, c, e), x, w)" by (metis prod_cases3 surj_pair)
  show thesis
  proof (cases "shouldRunPluginForRequestWorkspace p all (flow_workspace s)")
    case True
    show thesis
    proof (cases c)
      case None
      with True h assms show thesis by (intro pass [of r e x w]) (simp_all add: pre_ran_def Let_def)
    next
      case (Some c')
      with True h assms show thesis by (intro stop [of e x w]) (auto simp: pre_ran_def Let_def)
    qed
  qed (use assms skip in simp)
qed

lemma pre_keeps: "pre_keeps_workspace p \<Longrightarrow> pl_PreLLMHook p ctx req w = (r, ctx', w') \<Longrightarrow> workspaceFromContext ctx' = workspaceFromContext ctx"
  unfolding pre_keeps_workspace_def by (metis fst_conv snd_conv)

lemma pre_loop_workspace:
  "list_all (\<lambda>(_, p). pre_keeps_workspace p) ps \<Longrightarrow> pre_loop all ps req s = ((req', sc), s') \<Longrightarrow> flow_workspace s' = flow_workspace s"
proof (induction ps arbitrary: req s)
  case (Cons ip ps)
  obtain i p where ip: "ip = (i, p)" by fastforce
  from Cons.prems(2) [unfolded ip] show ?case
  proof (cases rule: pre_loop_cases)
    case stop
    with Cons.prems(1) pre_keeps [OF _ stop(2)] ip show ?thesis by simp
  next
    case (pass r err ctx' w')
    with Cons.prems(1) Cons.IH [OF _ pass(3)] pre_keeps [OF _ pass(2)] ip show ?thesis by simp
  qed (use Cons ip in auto)
qed simp

lemma settled_rest: "workspace_settled all (ip # ps) \<Longrightarrow> workspace_settled all ps"
  by (cases ip; cases ps) auto

text \<open>The hooks that ran before the call are those the workspace that was found asks for.\<close>

lemma pre_loop_runs:
  assumes "workspace_settled all ps" "pre_loop all ps req s = ((req', sc), s')"
  shows "\<exists>js. pre_reached ps sc s' js \<and> flow_runs s' = flow_runs s @ map RanPre (ran all (flow_workspace s') js)"
  using assms
proof (induction ps arbitrary: req s)
  case (Cons ip ps)
  obtain i p where ip: "ip = (i, p)" by fastforce
  have decided: "shouldRunPluginForRequestWorkspace p all (flow_workspace s') = shouldRunPluginForRequestWorkspace p all (flow_workspace s)"
    using Cons.prems(1) pre_loop_workspace [OF _ Cons.prems(2)] everywhere_runs unfolding ip workspace_settled.simps by metis
  from Cons.prems(2) [unfolded ip] show ?case
  proof (cases rule: pre_loop_cases)
    case skip
    obtain js where "pre_reached ps sc s' js" "flow_runs s' = flow_runs s @ map RanPre (ran all (flow_workspace s') js)"
      using Cons.IH [OF settled_rest [OF Cons.prems(1)] skip(2)] by blast
    with skip(1) decided ip show ?thesis by (intro exI [of _ "ip # js"]) (simp add: pre_reached_Cons)
  next
    case (stop err ctx' w')
    with decided ip show ?thesis by (intro exI [of _ "[ip]"]) (simp add: pre_reached_here)
  next
    case (pass r err ctx' w')
    obtain js where "pre_reached ps sc s' js"
      "flow_runs s' = flow_runs (pre_ran i err ctx' w' s) @ map RanPre (ran all (flow_workspace s') js)"
      using Cons.IH [OF settled_rest [OF Cons.prems(1)] pass(3)] by blast
    with pass(1) decided ip show ?thesis by (intro exI [of _ "ip # js"]) (simp add: pre_reached_Cons)
  qed
qed (auto intro: exI [of _ "[]"])

lemma pre_loop_kept:
  assumes "list_all (\<lambda>(_, p). well_behaved p) ps" "pre_loop all ps (Some req) s = ((req', sc), s')"
  shows "skip_pipeline (flow_ctx s') = skip_pipeline (flow_ctx s) \<and> (sc = None \<longrightarrow> req' \<noteq> None) \<and>
    (\<forall>c. sc = Some c \<longrightarrow> sc_Response c \<noteq> None \<or> sc_Error c \<noteq> None)"
  using assms
proof (induction ps arbitrary: req s)
  case (Cons ip ps)
  obtain i p where ip: "ip = (i, p)" by fastforce
  then have p: "well_behaved p" using Cons.prems(1) by simp
  from Cons.prems(2) [unfolded ip] show ?case
  proof (cases rule: pre_loop_cases)
    case stop
    with well_behaved_pre [OF p stop(2)] show ?thesis by auto
  next
    case (pass r err ctx' w')
    obtain r' where r: "r = Some r'" using well_behaved_pre(2) [OF p pass(2)] by auto
    have "list_all (\<lambda>(_, p). well_behaved p) ps" using Cons.prems(1) by simp
    from Cons.IH [OF this pass(3) [unfolded r]] well_behaved_pre(1) [OF p pass(2)] show ?thesis by simp
  qed (use Cons ip in auto)
qed auto

lemma post_loop_runs:
  assumes "list_all (\<lambda>(_, p). well_behaved p) ps" "post_loop all ps r s = (r', s')"
  shows "flow_runs s' = flow_runs s @ map RanPost (ran all (flow_workspace s) ps)"
  using assms
proof (induction ps arbitrary: r s)
  case (Cons ip ps)
  obtain i p where ip: "ip = (i, p)" by fastforce
  then have p: "well_behaved p" using Cons.prems(1) by simp
  obtain resp e err ctx' w' where h: "pl_PostLLMHook p (flow_ctx s) r (flow_world s) = ((resp, e, err), ctx', w')" by (metis prod_cases3 surj_pair)
  from well_behaved_post(2) [OF p this] show ?case using Cons ip h by (auto split: if_splits)
qed simp

section \<open>One attempt\<close>

lemma block_writes_simps [simp]:
  "flow_runs (block_writes b s) = flow_runs s" "flow_workspace (block_writes b s) = flow_workspace s"
  "skip_pipeline (flow_ctx (block_writes b s)) = skip_pipeline (flow_ctx s)"
  "flow_executedPreHooks (block_writes b s) = flow_executedPreHooks s"
  by (simp_all add: block_writes_def workspaceFromContext_def skip_pipeline_def GetStringFromContext_def GetBoolFromContext_def ctx_Value_def)

lemma enumerate_behaved: "list_all well_behaved plugins \<Longrightarrow> list_all (\<lambda>(_, p). well_behaved p) (enumerate n plugins)"
  by (induction plugins arbitrary: n) simp_all

text \<open>The positions whose hooks ran before the call, from a state in which nothing ran yet.\<close>

lemma RunLLMPreHooks_runs:
  assumes "list_all well_behaved plugins" "workspace_settled plugins (enumerate 0 plugins)"
    and "RunLLMPreHooks plugins (Some req) s = ((req', sc, n), s')"
  obtains js where "flow_runs s' = flow_runs s @ map RanPre (if skip_pipeline (flow_ctx s) then [] else ran plugins (flow_workspace s') js)"
    "if sc = None then js = enumerate 0 plugins else js = take n (enumerate 0 plugins)"
    "skip_pipeline (flow_ctx s') = skip_pipeline (flow_ctx s)" "sc = None \<longrightarrow> req' \<noteq> None"
    "\<forall>c. sc = Some c \<longrightarrow> sc_Response c \<noteq> None \<or> sc_Error c \<noteq> None"
proof (cases "skip_pipeline (flow_ctx s)")
  case True
  then have "req' = Some req" "sc = None" "s' = s" using assms(3) by (simp_all add: RunLLMPreHooks_def)
  with True show thesis by (intro that [of "enumerate 0 plugins"]) simp_all
next
  case False
  then obtain s1 where l: "pre_loop plugins (enumerate 0 plugins) (Some req) (block_writes True s) = ((req', sc), s1)"
    and s': "s' = block_writes False s1" "n = flow_executedPreHooks s1"
    using assms(3) by (auto simp: RunLLMPreHooks_def split: prod.splits)
  obtain js where js: "pre_reached (enumerate 0 plugins) sc s1 js" "flow_runs s1 = flow_runs s @ map RanPre (ran plugins (flow_workspace s1) js)"
    using pre_loop_runs [OF assms(2) l] by auto
  have "js = take n (enumerate 0 plugins)" if some: "sc \<noteq> None"
  proof -
    obtain rest where r: "enumerate 0 plugins = js @ rest" "js \<noteq> []" "n = Suc (fst (last js))"
      using js(1) some s'(2) by (auto simp: pre_reached_def)
    have "last js = enumerate 0 plugins ! (length js - 1)" using r(1,2) by (simp add: last_conv_nth nth_append)
    moreover have "length js \<le> length plugins" using arg_cong [OF r(1), of length] by simp
    ultimately have "n = length js" using r(2,3) by (cases js) (simp_all add: nth_enumerate_eq)
    with r(1) show ?thesis by simp
  qed
  moreover have "js = enumerate 0 plugins" if "sc = None" using js(1) that by (simp add: pre_reached_def)
  ultimately show thesis
    using that [of js] js(2) pre_loop_kept [OF enumerate_behaved [OF assms(1)] l] False s' by simp
qed

lemma RunPostLLMHooks_runs:
  assumes "list_all well_behaved plugins" "RunPostLLMHooks plugins r n s = (r', s')"
  shows "flow_runs s' = flow_runs s @
    map RanPost (if skip_pipeline (flow_ctx s) then [] else rev (ran plugins (flow_workspace s) (take n (enumerate 0 plugins))))"
proof -
  have "list_all (\<lambda>(_, p). well_behaved p) (rev (take n (enumerate 0 plugins)))"
    using enumerate_behaved [OF assms(1), of 0] by (auto simp: list_all_iff dest: in_set_takeD)
  then show ?thesis
    using assms(2) post_loop_runs [of "rev (take n (enumerate 0 plugins))" plugins r "block_writes True s"]
    by (auto simp: RunPostLLMHooks_def split: if_splits prod.splits)
qed

text \<open>The worker answers and leaves the workspace and the flag alone.\<close>

definition answers :: "'w TryEnv \<Rightarrow> bool" where
  "answers env \<longleftrightarrow>
     (\<forall>req ctx w. case te_worker env req ctx w of (answer, ctx', w') \<Rightarrow>
        (\<forall>err. answer \<noteq> Expired err) \<and> workspaceFromContext ctx' = workspaceFromContext ctx \<and> skip_pipeline ctx' = skip_pipeline ctx)"

lemma await_answer_runs:
  assumes "answers env" "list_all well_behaved (te_plugins env)" "te_pluginCount env = length (te_plugins env)"
  shows "flow_runs (snd (await_answer env req preReq s)) = flow_runs s @
    map RanPost (if skip_pipeline (flow_ctx s) then [] else rev (ran (te_plugins env) (flow_workspace s) (enumerate 0 (te_plugins env))))"
proof -
  obtain answer ctx' w' where a: "te_worker env preReq (flow_ctx s) (flow_world s) = (answer, ctx', w')" by (metis prod_cases3)
  have kept: "answer \<noteq> Expired err" "workspaceFromContext ctx' = flow_workspace s" "skip_pipeline ctx' = skip_pipeline (flow_ctx s)" for err
    using assms(1) [unfolded answers_def, rule_format, of "flow_ctx s" preReq "flow_world s"] unfolding a by simp_all
  let ?s1 = "s\<lparr>flow_ctx := ctx', flow_world := w'\<rparr>"
  have post: "flow_runs s2 = flow_runs s @
      map RanPost (if skip_pipeline (flow_ctx s) then [] else rev (ran (te_plugins env) (flow_workspace s) (enumerate 0 (te_plugins env))))"
    if "RunPostLLMHooks (te_plugins env) r (te_pluginCount env) ?s1 = (r', s2)" for r r' s2
    using RunPostLLMHooks_runs [OF assms(2) that] kept(2,3) assms(3) by simp
  show ?thesis
  proof (cases answer)
    case (Answer result)
    obtain r s2 where "RunPostLLMHooks (te_plugins env) (result, None) (te_pluginCount env) ?s1 = (r, s2)" by fastforce
    with post [OF this] a Answer show ?thesis by (simp add: await_answer_def Let_def)
  next
    case (Failed e)
    obtain r s2 where "RunPostLLMHooks (te_plugins env) (None, Some e) (te_pluginCount env) ?s1 = (r, s2)" by fastforce
    with post [OF this] a Failed show ?thesis by (simp add: await_answer_def Let_def)
  qed (use kept(1) in simp)
qed

text \<open> C20. Every hook that runs before the call is matched by the hook after it, in reverse order, whether a plugin ends the chain or the provider
  answers or fails: for plugins that keep the request or end the chain properly and leave workspace and flag alone, except that
  plugins that run in every workspace may set the workspace before the others run, when the request enters the queue and is
  answered and the list of plugins does not change meanwhile.\<close>

theorem hooks_symmetric:
  assumes "te_queue env = None" "te_tracer env" "enqueue_error env = None" "answers env"
    and "te_pluginCount env = length (te_plugins env)" "list_all well_behaved (te_plugins env)"
    and "workspace_settled (te_plugins env) (enumerate 0 (te_plugins env))"
  shows "\<exists>ps. sorted_wrt (<) ps \<and> flow_runs (snd (tryRequest env req s)) = flow_runs s @ map RanPre ps @ map RanPost (rev ps)"
proof -
  let ?plugins = "te_plugins env"
  let ?s0 = "s\<lparr>flow_executedPreHooks := 0, flow_preHookErrors := [], flow_postHookErrors := []\<rparr>"
  let ?req = "te_addTools env req"
  obtain preReq sc n s1 where pre: "RunLLMPreHooks ?plugins (Some ?req) ?s0 = ((preReq, sc, n), s1)" by (metis prod_cases3 surj_pair)
  obtain js where js: "flow_runs s1 = flow_runs ?s0 @ map RanPre (if skip_pipeline (flow_ctx ?s0) then [] else ran ?plugins (flow_workspace s1) js)"
    "if sc = None then js = enumerate 0 ?plugins else js = take n (enumerate 0 ?plugins)"
    "skip_pipeline (flow_ctx s1) = skip_pipeline (flow_ctx ?s0)" "sc = None \<longrightarrow> preReq \<noteq> None"
    "\<forall>c. sc = Some c \<longrightarrow> sc_Response c \<noteq> None \<or> sc_Error c \<noteq> None"
    by (rule RunLLMPreHooks_runs [OF assms(6,7) pre])
  define ps where "ps = (if skip_pipeline (flow_ctx s1) then [] else ran ?plugins (flow_workspace s1) js)"
  have "sorted_wrt (<) (map fst (enumerate 0 ?plugins))" "sorted_wrt (<) (map fst (take n (enumerate 0 ?plugins)))"
    by (simp_all add: sorted_wrt_take take_map [symmetric] del: sorted_wrt_map)
  then have "sorted_wrt (<) ps" using js(2) by (auto simp: ps_def intro: ran_sorted split: if_splits)
  moreover have "flow_runs (snd (tryRequest env req s)) = flow_runs s @ map RanPre ps @ map RanPost (rev ps)"
  proof (cases sc)
    case None
    then obtain preReq' where "preReq = Some preReq'" using js(4) by auto
    then have "snd (tryRequest env req s) = snd (await_answer env ?req preReq' s1)"
      using assms(1-3) None pre by (simp add: tryRequest_def Let_def)
    then show ?thesis using await_answer_runs [OF assms(4,6,5)] js(1-3) None by (simp add: ps_def)
  next
    case (Some c)
    let ?r = "if sc_Response c \<noteq> None then (sc_Response c, None) else (None, sc_Error c)"
    obtain r s2 where r: "RunPostLLMHooks ?plugins ?r n s1 = (r, s2)" by fastforce
    then have "snd (tryRequest env req s) = s2"
      using assms(1,2) pre js(5) Some by (auto simp: tryRequest_def Let_def)
    then show ?thesis using RunPostLLMHooks_runs [OF assms(6) r] js(1-3) Some by (simp add: ps_def)
  qed
  ultimately show ?thesis by blast
qed

section \<open>Examples\<close>

text \<open>A plugin that passes everything on, after an update of the context.\<close>

definition passing_plugin :: "nat \<Rightarrow> string \<Rightarrow> string option \<Rightarrow> (DeepIntShieldContext \<Rightarrow> DeepIntShieldContext) \<Rightarrow> unit LLMPlugin" where
  "passing_plugin i name ws f =
     \<lparr>pl_id = i, pl_Name = name, pl_WorkspaceID = ws, pl_PreLLMHook = (\<lambda>ctx req w. ((req, None, None), f ctx, w)),
      pl_PostLLMHook = (\<lambda>ctx r w. ((fst r, snd r, None), ctx, w))\<rparr>"

definition governance_plugin :: "unit LLMPlugin" where
  "governance_plugin = passing_plugin 0 ''governance'' None (SetValue ''workspace_id'' (CtxStr ''ws1''))"

definition workspace_cache :: "unit LLMPlugin" where
  "workspace_cache = passing_plugin 1 ''semantic_cache'' (Some ''ws1'') id"

definition sample_response :: CoreResponse where
  "sample_response = \<lparr>cr_Body = ''ok'', cr_RawRequest = None, cr_RawResponse = None\<rparr>"

definition passing_env :: "unit LLMPlugin list \<Rightarrow> send \<Rightarrow> unit TryEnv" where
  "passing_env plugins sent =
     \<lparr>te_queue = None, te_addTools = id, te_tracer = True, te_plugins = plugins, te_closing = False, te_send = sent, te_dropExcess = True,
      te_closingAgain = False, te_sendAgain = Sent, te_worker = (\<lambda>req ctx w. (Answer (Some sample_response), ctx, w)),
      te_pluginCount = length plugins\<rparr>"

definition chat_request :: CoreRequest where
  "chat_request = \<lparr>rq_RequestType = ''chat_completion'', rq_Kind = ChatBody, rq_Provider = ''openai'', rq_Model = ''gpt-4o'',
     rq_Fallbacks = [(''anthropic'', ''claude''), (''groq'', ''llama'')], rq_Content = ''hello''\<rparr>"

definition sample_flow :: "unit Flow" where
  "sample_flow = \<lparr>flow_ctx = \<lparr>ctx_values = [], ctx_blockRestrictedWrites = False\<rparr>, flow_executedPreHooks = 0, flow_preHookErrors = [],
     flow_postHookErrors = [], flow_runs = [], flow_world = ()\<rparr>"

lemma sample_behaved: "well_behaved governance_plugin" "well_behaved workspace_cache" "pre_keeps_workspace workspace_cache"
  by (simp_all add: well_behaved_def pre_keeps_workspace_def governance_plugin_def workspace_cache_def passing_plugin_def skip_pipeline_def
      GetBoolFromContext_def ctx_Value_def SetValue_def)

theorem hooks_symmetric_witness:
  "\<exists>ps. sorted_wrt (<) ps \<and>
     flow_runs (snd (tryRequest (passing_env [governance_plugin, workspace_cache] Sent) chat_request sample_flow)) =
       map RanPre ps @ map RanPost (rev ps)"
proof -
  let ?env = "passing_env [governance_plugin, workspace_cache] Sent"
  have "everywhere [governance_plugin, workspace_cache] governance_plugin" by code_simp
  then have "workspace_settled (te_plugins ?env) (enumerate 0 (te_plugins ?env))"
    using sample_behaved by (simp add: passing_env_def)
  moreover have "answers ?env" by (simp add: answers_def passing_env_def)
  moreover have "enqueue_error ?env = None" by code_simp
  ultimately show ?thesis
    using hooks_symmetric [of ?env chat_request sample_flow] sample_behaved by (simp add: passing_env_def sample_flow_def)
qed

theorem symmetric_run:
  "flow_runs (snd (tryRequest (passing_env [governance_plugin, workspace_cache] Sent) chat_request sample_flow)) =
     [RanPre 0, RanPre 1, RanPost 1, RanPost 0]"
  by code_simp

text \<open>A plugin of a workspace that comes before the plugin that finds out the workspace: its hook after the call runs although the one before
  the call did not.\<close>

theorem post_hook_without_pre:
  "flow_runs (snd (tryRequest (passing_env [workspace_cache, governance_plugin] Sent) chat_request sample_flow)) =
     [RanPre 1, RanPost 1, RanPost 0]"
  by code_simp

text \<open>A request that is dropped because the queue is full: no hook after the call runs.\<close>

theorem dropped_request_no_post:
  "flow_runs (snd (tryRequest (passing_env [governance_plugin, workspace_cache] QueueFull) chat_request sample_flow)) = [RanPre 0, RanPre 1] \<and>
   map_option (\<lambda>e. map_option ef_Message (ce_Error e))
     (snd (fst (tryRequest (passing_env [governance_plugin, workspace_cache] QueueFull) chat_request sample_flow))) =
     Some (Some ''request dropped: queue is full'')"
  by code_simp

end
