(* ===== verification/RequestFlow.thy ===== *)
theory RequestFlow
  imports PluginSymmetry Float64
begin

text \<open>
  The way of a request through the gateway core, \<^verbatim>\<open>deepintshield_server/core/deepintshield.go\<close> and \<^verbatim>\<open>utils.go\<close>: the primary provider and its
  fallbacks (\<open>handleRequest\<close>), and within a worker the retries (\<open>executeRequestWithRetries\<close>) with their waiting times.

  The fallbacks are tried in order and the first result that settles the request is returned; the retries are exactly those the errors
  ask for and end.  Fallbacks of image edits go to the provider that failed.
\<close>

section \<open>Validation\<close>

definition core_isModelRequired :: "string \<Rightarrow> bool" where
  "core_isModelRequired t \<longleftrightarrow>
     t \<in> {''text_completion'', ''text_completion_stream'', ''chat_completion'', ''chat_completion_stream'', ''responses'', ''responses_stream'',
          ''speech'', ''speech_stream'', ''transcription'', ''transcription_stream'', ''embedding'', ''image_generation'',
          ''image_generation_stream'', ''video_generation''}"

definition validateRequest :: "CoreRequest \<Rightarrow> CoreError option" where
  "validateRequest req =
     (case GetRequestFields req of (provider, model, _) \<Rightarrow>
        if provider = [] then Some (newDeepIntShieldErrorFromMsg ''provider is required'')
        else if core_isModelRequired (rq_RequestType req) \<and> model = [] then Some (newDeepIntShieldErrorFromMsg ''model is required'')
        else None)"

section \<open>Fallbacks\<close>

definition is_cancelled :: "ErrorField \<Rightarrow> bool" where
  "is_cancelled f \<longleftrightarrow> ef_Type f = Some ''request_cancelled''"

definition shouldTryFallbacks :: "CoreRequest \<Rightarrow> CoreError option \<Rightarrow> bool" where
  "shouldTryFallbacks req primaryErr =
     (case primaryErr of
        None \<Rightarrow> False
      | Some e \<Rightarrow>
          (if (case ce_Error e of Some f \<Rightarrow> is_cancelled f | None \<Rightarrow> False) then False
           else if ce_AllowFallbacks e = Some False then False
           else snd (snd (GetRequestFields req)) \<noteq> []))"

text \<open>The kinds of request whose provider and model are exchanged.\<close>

definition exchanged :: "RequestBody \<Rightarrow> bool" where
  "exchanged k \<longleftrightarrow>
     k \<in> {TextCompletionBody, ChatBody, ResponsesBody, CountTokensBody, EmbeddingBody, RerankBody, SpeechBody, TranscriptionBody,
          ImageGenerationBody, VideoGenerationBody}"

definition prepareFallbackRequest :: "(string \<Rightarrow> bool) \<Rightarrow> CoreRequest \<Rightarrow> string \<times> string \<Rightarrow> CoreRequest option" where
  "prepareFallbackRequest configured req fallback =
     (if \<not> configured (fst fallback) then None
      else Some (if exchanged (rq_Kind req) then req\<lparr>rq_Provider := fst fallback, rq_Model := snd fallback\<rparr> else req))"

text \<open>\<open>None\<close>: the error has no error field, and reading its type panics.\<close>

definition shouldContinueWithFallbacks :: "CoreError \<Rightarrow> bool option" where
  "shouldContinueWithFallbacks e =
     (case ce_Error e of
        None \<Rightarrow> None
      | Some f \<Rightarrow> Some (\<not> is_cancelled f \<and> ce_AllowFallbacks e \<noteq> Some False))"

definition ClearValue :: "string \<Rightarrow> DeepIntShieldContext \<Rightarrow> DeepIntShieldContext" where
  "ClearValue key ctx =
     (if ctx_blockRestrictedWrites ctx \<and> key \<in> set reservedKeys then ctx else ctx\<lparr>ctx_values := Store key CtxNil (ctx_values ctx)\<rparr>)"

definition clearCtxForFallback :: "DeepIntShieldContext \<Rightarrow> DeepIntShieldContext" where
  "clearCtxForFallback ctx = ClearValue ''x-bf-api-key'' (ClearValue ''x-bf-api-key-id'' ctx)"

text \<open>The error as it is returned: it names the provider and the model that were asked for.\<close>

definition located :: "string \<Rightarrow> string \<Rightarrow> string \<Rightarrow> CoreError \<Rightarrow> CoreError" where
  "located requestType provider model e =
     e\<lparr>ce_ExtraFields := (ce_ExtraFields e)\<lparr>xf_RequestType := requestType, xf_Provider := provider, xf_ModelRequested := model\<rparr>\<rparr>"

text \<open>The attempts at the providers: their surroundings by number, the providers that are configured, and fresh identifiers.\<close>

record 'w CoreEnv =
  co_attempt :: "nat \<Rightarrow> 'w TryEnv"
  co_configured :: "string \<Rightarrow> bool"
  co_uuid :: "nat \<Rightarrow> string"

definition enter_fallback :: "'w CoreEnv \<Rightarrow> nat \<Rightarrow> 'w Flow \<Rightarrow> 'w Flow" where
  "enter_fallback env i s =
     s\<lparr>flow_ctx := clearCtxForFallback (SetValue ''fallback-request-id'' (CtxStr (co_uuid env i))
         (SetValue ''deepintshield-fallback-index'' (CtxInt (int i)) (flow_ctx s)))\<rparr>"

datatype handled = Returned "CoreResponse option" "CoreError option" | Panicked

text \<open>\<open>i\<close> is the number of the fallback, from one; when none is left the error of the primary provider is returned.\<close>

fun try_fallbacks :: "'w CoreEnv \<Rightarrow> CoreRequest \<Rightarrow> CoreError \<Rightarrow> nat \<Rightarrow> (string \<times> string) list \<Rightarrow> 'w Flow \<Rightarrow> handled \<times> 'w Flow" where
  "try_fallbacks env req primaryErr i [] s =
     (Returned None (Some (located (rq_RequestType req) (rq_Provider req) (rq_Model req) primaryErr)), s)"
| "try_fallbacks env req primaryErr i (fallback # rest) s =
     (let s1 = enter_fallback env i s in
      case prepareFallbackRequest (co_configured env) req fallback of
        None \<Rightarrow> try_fallbacks env req primaryErr (Suc i) rest s1
      | Some fallbackReq \<Rightarrow>
          (case tryRequest (co_attempt env i) fallbackReq s1 of
             ((result, None), s2) \<Rightarrow> (Returned result None, s2)
           | ((result, Some e), s2) \<Rightarrow>
               (case shouldContinueWithFallbacks e of
                  None \<Rightarrow> (Panicked, s2)
                | Some False \<Rightarrow> (Returned None (Some (located (rq_RequestType req) (fst fallback) (snd fallback) e)), s2)
                | Some True \<Rightarrow> try_fallbacks env req primaryErr (Suc i) rest s2)))"

definition enter_primary :: "'w CoreEnv \<Rightarrow> 'w Flow \<Rightarrow> 'w Flow" where
  "enter_primary env s =
     (let ctx = SetValue ''deepintshield-fallback-index'' (CtxInt 0) (flow_ctx s)
      in s\<lparr>flow_ctx := (case ctx_Value ctx ''request-id'' of
             Some (CtxStr _) \<Rightarrow> ctx | _ \<Rightarrow> SetValue ''request-id'' (CtxStr (co_uuid env 0)) ctx)\<rparr>)"

definition handleRequest :: "'w CoreEnv \<Rightarrow> CoreRequest \<Rightarrow> 'w Flow \<Rightarrow> handled \<times> 'w Flow" where
  "handleRequest env req s =
     (case GetRequestFields req of (provider, model, fallbacks) \<Rightarrow>
        (case validateRequest req of
           Some e \<Rightarrow> (Returned None (Some (error_of_request req e)), s)
         | None \<Rightarrow>
             (case tryRequest (co_attempt env 0) req (enter_primary env s) of
                ((primaryResult, primaryErr), s1) \<Rightarrow>
                  if \<not> shouldTryFallbacks req primaryErr
                  then (Returned primaryResult (map_option (located (rq_RequestType req) provider model) primaryErr), s1)
                  else try_fallbacks env req (the primaryErr) 1 fallbacks s1)))"

section \<open>Retries\<close>

record NetworkConfig =
  nc_MaxRetries :: int
  nc_RetryBackoffInitial :: int
  nc_RetryBackoffMax :: int

definition retryableStatusCodes :: "int list" where
  "retryableStatusCodes = [500, 502, 503, 504, 429]"

definition rateLimitPatterns :: "string list" where
  "rateLimitPatterns = [''rate limit'', ''rate_limit'', ''ratelimit'', ''too many requests'', ''quota exceeded'', ''quota_exceeded'', ''request limit'',
     ''throttled'', ''throttling'', ''rate exceeded'', ''limit exceeded'', ''requests per'', ''rpm exceeded'', ''tpm exceeded'', ''tokens per minute'',
     ''requests per minute'', ''requests per second'', ''api rate limit'', ''usage limit'', ''concurrent requests limit'']"

definition IsRateLimitErrorMessage :: "string \<Rightarrow> bool" where
  "IsRateLimitErrorMessage m = (if m = [] then False else list_ex (\<lambda>pattern. Contains (ToLower m) pattern) rateLimitPatterns)"

definition ErrProviderDoRequest :: string where
  "ErrProviderDoRequest = ''failed to execute HTTP request to provider API''"

definition ErrProviderNetworkError :: string where
  "ErrProviderNetworkError = ''network error occurred while connecting to provider API (DNS lookup, connection refused, etc.)''"

text \<open>A shift by 64 or more gives 0, one by 63 the lowest integer; \<open>r\<close> is the value of \<open>rand.Float64\<close>.\<close>

definition calculateBackoff :: "nat \<Rightarrow> NetworkConfig \<Rightarrow> rat \<Rightarrow> int" where
  "calculateBackoff attempt config r =
     (let backoff = min (wrap64 (nc_RetryBackoffInitial config * wrap64 (2 ^ attempt))) (nc_RetryBackoffMax config);
          jitter = f_mul (fl (of_int backoff)) (f_add (fl (4 / 5)) (f_mul (fl (2 / 5)) r));
          result = (if 0 \<le> jitter then \<lfloor>jitter\<rfloor> else \<lceil>jitter\<rceil>)
      in min result (nc_RetryBackoffMax config))"

datatype verdict = Final | Again | NilError

text \<open>What follows an attempt.  \<open>NilError\<close>: the status asks for a retry, there is no error field, and logging its message panics.\<close>

definition retry_verdict :: "CoreError option \<Rightarrow> verdict" where
  "retry_verdict err =
     (case err of
        None \<Rightarrow> Final
      | Some e \<Rightarrow>
          if ce_IsDeepIntShieldError e \<or> (case ce_Error e of Some f \<Rightarrow> is_cancelled f | None \<Rightarrow> False) then Final
          else
            (let network = (case ce_Error e of Some f \<Rightarrow> ef_Message f = ErrProviderDoRequest \<or> ef_Message f = ErrProviderNetworkError | None \<Rightarrow> False);
                 limited = ((case ce_StatusCode e of Some c \<Rightarrow> c \<in> set retryableStatusCodes | None \<Rightarrow> False) \<or>
                   (case ce_Error e of
                      Some f \<Rightarrow> IsRateLimitErrorMessage (ef_Message f) \<or> (case ef_Type f of Some t \<Rightarrow> IsRateLimitErrorMessage t | None \<Rightarrow> False)
                    | None \<Rightarrow> False))
             in if limited \<and> ce_Error e = None then NilError else if network \<or> limited then Again else Final))"

text \<open>The call of the provider reads and changes the context and a state of its own; the waiting times are recorded.\<close>

type_synonym ('r, 'w) handler = "DeepIntShieldContext \<Rightarrow> 'w \<Rightarrow> ('r option \<times> CoreError option) \<times> DeepIntShieldContext \<times> 'w"

record 'w Worker =
  wk_ctx :: DeepIntShieldContext
  wk_world :: 'w
  wk_sleeps :: "int list"

definition begin_attempt :: "NetworkConfig \<Rightarrow> (nat \<Rightarrow> rat) \<Rightarrow> nat \<Rightarrow> 'w Worker \<Rightarrow> 'w Worker" where
  "begin_attempt config rnd attempts s =
     s\<lparr>wk_ctx := SetValue ''deepintshield-number-of-retries'' (CtxInt (int attempts)) (wk_ctx s),
       wk_sleeps := wk_sleeps s @ (if attempts > 0 then [calculateBackoff (attempts - 1) config (rnd attempts)] else [])\<rparr>"

definition one_attempt :: "NetworkConfig \<Rightarrow> (nat \<Rightarrow> rat) \<Rightarrow> ('r, 'w) handler \<Rightarrow> nat \<Rightarrow> 'w Worker \<Rightarrow> ('r option \<times> CoreError option) \<times> 'w Worker" where
  "one_attempt config rnd handler attempts s =
     (let s1 = begin_attempt config rnd attempts s
      in case handler (wk_ctx s1) (wk_world s1) of (r, ctx', w') \<Rightarrow> (r, s1\<lparr>wk_ctx := ctx', wk_world := w'\<rparr>))"

text \<open>The loop; \<open>prev\<close> is the result of the attempt before, and \<open>None\<close> a panic.\<close>

function retry_loop :: "bool \<Rightarrow> NetworkConfig \<Rightarrow> (nat \<Rightarrow> rat) \<Rightarrow> ('r, 'w) handler \<Rightarrow> nat \<Rightarrow> 'r option \<times> CoreError option \<Rightarrow> 'w Worker \<Rightarrow>
    ('r option \<times> CoreError option) option \<times> 'w Worker" where
  "retry_loop tracer config rnd handler attempts prev s =
     (if int attempts > nc_MaxRetries config then (Some prev, s)
      else if \<not> tracer
      then (Some (fst prev, Some (newDeepIntShieldErrorFromMsg ''tracer not found in context'')), begin_attempt config rnd attempts s)
      else
        (case one_attempt config rnd handler attempts s of
           (r, s') \<Rightarrow>
             (case retry_verdict (snd r) of
                Final \<Rightarrow> (Some r, s')
              | NilError \<Rightarrow> (None, s')
              | Again \<Rightarrow> retry_loop tracer config rnd handler (Suc attempts) r s')))"
  by pat_completeness auto
termination
  by (relation "measure (\<lambda>(tracer, config, rnd, handler, attempts, prev, s). nat (nc_MaxRetries config + 1 - int attempts))") auto

declare retry_loop.simps [simp del]

definition executeRequestWithRetries :: "bool \<Rightarrow> NetworkConfig \<Rightarrow> (nat \<Rightarrow> rat) \<Rightarrow> ('r, 'w) handler \<Rightarrow> 'w Worker \<Rightarrow>
    ('r option \<times> CoreError option) option \<times> 'w Worker" where
  "executeRequestWithRetries tracer config rnd handler s = retry_loop tracer config rnd handler 0 (None, None) s"

end
