(* ===== verification/FlowOrder.thy ===== *)
theory FlowOrder
  imports RequestFlow
begin

text \<open>
  What a caller can rely on: the order of the providers, the number of the retries and the bounds of the waiting times.  What it cannot:
  fallbacks of an image edit, fallbacks after a cancellation, waiting times after many retries, and errors without details.
\<close>

section \<open>Fallbacks in order\<close>

text \<open>The results of the configured fallbacks, one after the other, each asked for the request with its own provider and model.\<close>

fun fallback_results :: "'w CoreEnv \<Rightarrow> CoreRequest \<Rightarrow> nat \<Rightarrow> (string \<times> string) list \<Rightarrow> 'w Flow \<Rightarrow>
    ((string \<times> string) \<times> CoreResponse option \<times> CoreError option) list" where
  "fallback_results env req i [] s = []"
| "fallback_results env req i (fallback # rest) s =
     (let s1 = enter_fallback env i s in
      if \<not> co_configured env (fst fallback) then fallback_results env req (Suc i) rest s1
      else
        (case tryRequest (co_attempt env i) (req\<lparr>rq_Provider := fst fallback, rq_Model := snd fallback\<rparr>) s1 of
           (r, s2) \<Rightarrow> (fallback, r) # fallback_results env req (Suc i) rest s2))"

text \<open>A result settles the request if it is a success, an error that forbids more fallbacks, or one that cannot be read.\<close>

definition settles :: "(string \<times> string) \<times> CoreResponse option \<times> CoreError option \<Rightarrow> bool" where
  "settles x \<longleftrightarrow> (case snd (snd x) of None \<Rightarrow> True | Some e \<Rightarrow> shouldContinueWithFallbacks e \<noteq> Some True)"

definition settlement :: "CoreRequest \<Rightarrow> (string \<times> string) \<times> CoreResponse option \<times> CoreError option \<Rightarrow> handled" where
  "settlement req x =
     (case x of (fallback, result, err) \<Rightarrow>
        (case err of
           None \<Rightarrow> Returned result None
         | Some e \<Rightarrow>
             if ce_Error e = None then Panicked else Returned None (Some (located (rq_RequestType req) (fst fallback) (snd fallback) e))))"

lemma settlement_error:
  "settlement req (fallback, result, Some e) =
     (case shouldContinueWithFallbacks e of None \<Rightarrow> Panicked
      | Some _ \<Rightarrow> Returned None (Some (located (rq_RequestType req) (fst fallback) (snd fallback) e)))"
  by (simp add: settlement_def shouldContinueWithFallbacks_def split: option.splits)

lemma try_fallbacks_find:
  assumes "exchanged (rq_Kind req)"
  shows "fst (try_fallbacks env req e i fallbacks s) =
     (case List.find settles (fallback_results env req i fallbacks s) of
        Some x \<Rightarrow> settlement req x
      | None \<Rightarrow> Returned None (Some (located (rq_RequestType req) (rq_Provider req) (rq_Model req) e)))"
proof (induction fallbacks arbitrary: i s)
  case (Cons fallback rest)
  let ?s1 = "enter_fallback env i s" and ?req = "req\<lparr>rq_Provider := fst fallback, rq_Model := snd fallback\<rparr>"
  show ?case
  proof (cases "co_configured env (fst fallback)")
    case True
    then have prep: "prepareFallbackRequest (co_configured env) req fallback = Some ?req" using assms by (simp add: prepareFallbackRequest_def)
    obtain result err s2 where r: "tryRequest (co_attempt env i) ?req ?s1 = ((result, err), s2)" by (metis surj_pair)
    show ?thesis
    proof (cases err)
      case None
      with True prep r show ?thesis by (simp add: Let_def settles_def settlement_def)
    next
      case err: (Some e')
      with True prep r Cons.IH [of "Suc i" s2] show ?thesis
        by (cases "shouldContinueWithFallbacks e'") (auto simp: Let_def settles_def settlement_error split: bool.split)
    qed
  qed (simp add: Cons.IH Let_def prepareFallbackRequest_def)
qed simp

text \<open> C9. A valid request, other than an image edit or an image variation, is first tried at its provider.  If the result calls for fallbacks,
  each configured fallback is asked, with its own provider and model, in the order of the request, and the first result that settles
  the request is the result: a success, or an error that forbids further fallbacks, named after that fallback; an error without
  details panics.  If none settles it, the error of the primary provider is returned, named after that provider.\<close>

theorem fallbacks_in_order:
  assumes "rq_Kind req \<notin> {ImageEditBody, ImageVariationBody}"
    and "validateRequest req = None" "tryRequest (co_attempt env 0) req (enter_primary env s) = ((result, err), s1)"
  shows "fst (handleRequest env req s) =
    (if shouldTryFallbacks req err
     then (case List.find settles (fallback_results env req 1 (rq_Fallbacks req) s1) of
             Some x \<Rightarrow> settlement req x
           | None \<Rightarrow> Returned None (Some (located (rq_RequestType req) (rq_Provider req) (rq_Model req) (the err))))
     else Returned result (map_option (located (rq_RequestType req) (rq_Provider req) (rq_Model req)) err))"
proof (cases "shouldTryFallbacks req err")
  case True
  then have "rq_Kind req \<noteq> OtherBody" "snd (snd (GetRequestFields req)) = rq_Fallbacks req"
    by (auto simp: shouldTryFallbacks_def GetRequestFields_def split: option.splits if_splits)
  moreover from this assms(1) have "exchanged (rq_Kind req)" by (cases "rq_Kind req") (simp_all add: exchanged_def)
  ultimately show ?thesis
    using True assms(2,3) try_fallbacks_find [of req env "the err" 1 "rq_Fallbacks req" s1] by (simp add: handleRequest_def GetRequestFields_def)
next
  case False
  then show ?thesis using assms(2,3) by (simp add: handleRequest_def GetRequestFields_def)
qed

section \<open>Retries\<close>

text \<open>The state after the first attempts.\<close>

primrec attempts_state :: "NetworkConfig \<Rightarrow> (nat \<Rightarrow> rat) \<Rightarrow> ('r, 'w) handler \<Rightarrow> 'w Worker \<Rightarrow> nat \<Rightarrow> 'w Worker" where
  "attempts_state config rnd handler s 0 = s"
| "attempts_state config rnd handler s (Suc k) = snd (one_attempt config rnd handler k (attempts_state config rnd handler s k))"

definition attempt_result :: "NetworkConfig \<Rightarrow> (nat \<Rightarrow> rat) \<Rightarrow> ('r, 'w) handler \<Rightarrow> 'w Worker \<Rightarrow> nat \<Rightarrow> 'r option \<times> CoreError option" where
  "attempt_result config rnd handler s k = fst (one_attempt config rnd handler k (attempts_state config rnd handler s k))"

lemma retry_loop_step:
  "int k \<le> nc_MaxRetries config \<Longrightarrow> retry_loop True config rnd handler k prev (attempts_state config rnd handler s k) =
     (case retry_verdict (snd (attempt_result config rnd handler s k)) of
        Final \<Rightarrow> (Some (attempt_result config rnd handler s k), attempts_state config rnd handler s (Suc k))
      | NilError \<Rightarrow> (None, attempts_state config rnd handler s (Suc k))
      | Again \<Rightarrow> retry_loop True config rnd handler (Suc k) (attempt_result config rnd handler s k) (attempts_state config rnd handler s (Suc k)))"
proof -
  assume k: "int k \<le> nc_MaxRetries config"
  obtain r s' where "one_attempt config rnd handler k (attempts_state config rnd handler s k) = (r, s')" by fastforce
  moreover from this have "attempt_result config rnd handler s k = r" "attempts_state config rnd handler s (Suc k) = s'"
    by (simp_all add: attempt_result_def)
  ultimately show ?thesis using k by (subst retry_loop.simps) (simp del: attempts_state.simps split: verdict.split)
qed

lemma retry_loop_end: "nc_MaxRetries config < int k \<Longrightarrow> retry_loop True config rnd handler k prev s = (Some prev, s)"
  by (subst retry_loop.simps) simp

lemma retry_loop_from:
  assumes "int k \<le> nc_MaxRetries config"
  shows "\<exists>n \<ge> k. int n \<le> nc_MaxRetries config \<and> (\<forall>j. k \<le> j \<and> j < n \<longrightarrow> retry_verdict (snd (attempt_result config rnd handler s j)) = Again) \<and>
    (retry_verdict (snd (attempt_result config rnd handler s n)) = Again \<longrightarrow> int n = nc_MaxRetries config) \<and>
    retry_loop True config rnd handler k prev (attempts_state config rnd handler s k) =
      (if retry_verdict (snd (attempt_result config rnd handler s n)) = NilError then None else Some (attempt_result config rnd handler s n),
       attempts_state config rnd handler s (Suc n))"
  using assms
proof (induction "nat (nc_MaxRetries config - int k)" arbitrary: k prev)
  case 0
  then have k: "int k = nc_MaxRetries config" by simp
  show ?case unfolding retry_loop_step [OF 0(2)]
    using k by (intro exI [of _ k]) (auto simp: retry_loop_end simp del: attempts_state.simps split: verdict.split)
next
  case (Suc m)
  let ?r = "attempt_result config rnd handler s k"
  show ?case
  proof (cases "retry_verdict (snd ?r) = Again")
    case True
    have "m = nat (nc_MaxRetries config - int (Suc k))" "int (Suc k) \<le> nc_MaxRetries config" using Suc.hyps(2) by simp_all
    from Suc.hyps(1) [OF this, of ?r] obtain n where n: "Suc k \<le> n" "int n \<le> nc_MaxRetries config"
      "\<forall>j. Suc k \<le> j \<and> j < n \<longrightarrow> retry_verdict (snd (attempt_result config rnd handler s j)) = Again"
      "retry_verdict (snd (attempt_result config rnd handler s n)) = Again \<longrightarrow> int n = nc_MaxRetries config"
      "retry_loop True config rnd handler (Suc k) ?r (attempts_state config rnd handler s (Suc k)) =
        (if retry_verdict (snd (attempt_result config rnd handler s n)) = NilError then None else Some (attempt_result config rnd handler s n),
         attempts_state config rnd handler s (Suc n))"
      by blast
    have "retry_verdict (snd (attempt_result config rnd handler s j)) = Again" if "k \<le> j" "j < n" for j
      using True n(3) that by (cases "j = k") auto
    with n True show ?thesis unfolding retry_loop_step [OF Suc.prems] by (intro exI [of _ n]) (simp del: attempts_state.simps)
  next
    case False
    then show ?thesis unfolding retry_loop_step [OF Suc.prems]
      using Suc.prems by (intro exI [of _ k]) (auto simp del: attempts_state.simps split: verdict.split)
  qed
qed

lemma backoff_max: "calculateBackoff attempt config r \<le> nc_RetryBackoffMax config"
  by (simp add: calculateBackoff_def Let_def)

lemma attempts_sleeps:
  "wk_sleeps (attempts_state config rnd handler s (Suc n)) =
     wk_sleeps s @ map (\<lambda>k. calculateBackoff k config (rnd (Suc k))) [0 ..< n]"
  by (induction n) (simp_all add: one_attempt_def begin_attempt_def Let_def split: prod.split)

text \<open> C17. The retries end: with a number of retries that is not negative there is a last attempt, not later than that number.  All attempts before it
  failed with an error that asks for a retry, the last one did not, unless the number is used up, and its result is the result, or a panic
  if its error asks for a retry by its status but has no details.  Before each retry, and only then, the code waits, never longer than
  the longest waiting time.\<close>

theorem retries_exact:
  assumes "0 \<le> nc_MaxRetries config"
  shows "\<exists>n. int n \<le> nc_MaxRetries config \<and>
    (\<forall>k < n. retry_verdict (snd (attempt_result config rnd handler s k)) = Again) \<and>
    (retry_verdict (snd (attempt_result config rnd handler s n)) = Again \<longrightarrow> int n = nc_MaxRetries config) \<and>
    fst (executeRequestWithRetries True config rnd handler s) =
      (if retry_verdict (snd (attempt_result config rnd handler s n)) = NilError then None else Some (attempt_result config rnd handler s n)) \<and>
    (\<exists>sleeps. wk_sleeps (snd (executeRequestWithRetries True config rnd handler s)) = wk_sleeps s @ sleeps \<and> length sleeps = n \<and>
      (\<forall>d \<in> set sleeps. d \<le> nc_RetryBackoffMax config))"
proof -
  obtain n where n: "int n \<le> nc_MaxRetries config" "\<forall>k < n. retry_verdict (snd (attempt_result config rnd handler s k)) = Again"
    "retry_verdict (snd (attempt_result config rnd handler s n)) = Again \<longrightarrow> int n = nc_MaxRetries config"
    "executeRequestWithRetries True config rnd handler s =
      (if retry_verdict (snd (attempt_result config rnd handler s n)) = NilError then None else Some (attempt_result config rnd handler s n),
       attempts_state config rnd handler s (Suc n))"
    using retry_loop_from [of 0 config rnd handler s "(None, None)"] assms by (auto simp: executeRequestWithRetries_def)
  have "\<exists>sleeps. wk_sleeps (attempts_state config rnd handler s (Suc n)) = wk_sleeps s @ sleeps \<and> length sleeps = n \<and>
      (\<forall>d \<in> set sleeps. d \<le> nc_RetryBackoffMax config)"
    unfolding attempts_sleeps
    by (intro exI [of _ "map (\<lambda>k. calculateBackoff k config (rnd (Suc k))) [0 ..< n]"]) (auto simp: backoff_max)
  with n show ?thesis by (intro exI [of _ n]) simp
qed

text \<open>The waiting time is never negative, as long as the product does not overflow.\<close>

theorem backoff_bounds:
  assumes "0 \<le> nc_RetryBackoffInitial config" "nc_RetryBackoffInitial config * 2 ^ attempt < 2 ^ 63" "attempt < 63"
    and "0 \<le> nc_RetryBackoffMax config" "0 \<le> r"
  shows "0 \<le> calculateBackoff attempt config r \<and> calculateBackoff attempt config r \<le> nc_RetryBackoffMax config"
proof -
  have "(2 :: int) ^ attempt < 2 ^ 63" using assms(3) by (intro power_strict_increasing) simp_all
  moreover have "(0 :: int) \<le> 2 ^ attempt" by simp
  ultimately have "wrap64 (2 ^ attempt) = 2 ^ attempt" by (intro wrap64_id) (auto simp only: int64_def)
  moreover have "0 \<le> nc_RetryBackoffInitial config * 2 ^ attempt" using assms(1) by simp
  then have "wrap64 (nc_RetryBackoffInitial config * 2 ^ attempt) = nc_RetryBackoffInitial config * 2 ^ attempt"
    using assms(2) by (intro wrap64_id) (auto simp: int64_def)
  ultimately have b: "0 \<le> min (wrap64 (nc_RetryBackoffInitial config * wrap64 (2 ^ attempt))) (nc_RetryBackoffMax config)"
    using assms(1,4) by simp
  have fl_nonneg: "0 \<le> fl x" if "0 \<le> x" for x using that fl_pos [of x] by (cases "x = 0") simp_all
  have "0 \<le> f_add (fl (4 / 5)) (f_mul (fl (2 / 5)) r)"
    using assms(5) fl_nonneg by (intro f_add_nonneg) (simp_all add: f_mul_def)
  then show ?thesis
    using b assms(4) fl_nonneg by (simp add: calculateBackoff_def Let_def f_mul_def)
qed

text \<open>From the 36th retry on, with the first waiting time of half a second, it is negative, and the code does not wait at all.\<close>

theorem backoff_overflow:
  "calculateBackoff 35 \<lparr>nc_MaxRetries = 40, nc_RetryBackoffInitial = 5 * 10 ^ 8, nc_RetryBackoffMax = 5 * 10 ^ 9\<rparr> (1 / 2) < 0 \<and>
   calculateBackoff 34 \<lparr>nc_MaxRetries = 40, nc_RetryBackoffInitial = 5 * 10 ^ 8, nc_RetryBackoffMax = 5 * 10 ^ 9\<rparr> (1 / 2) > 4 * 10 ^ 9"
  by code_simp

text \<open>With a negative number of retries the provider is not called, and neither a response nor an error is returned.\<close>

theorem negative_retries_no_call:
  "nc_MaxRetries config < 0 \<Longrightarrow> executeRequestWithRetries tracer config rnd handler s = (Some (None, None), s)"
  by (simp add: executeRequestWithRetries_def retry_loop.simps)

section \<open>Examples\<close>

text \<open>Attempts whose worker notes the provider and fails, or succeeds, by provider.\<close>

definition status_error :: "int \<Rightarrow> CoreError" where
  "status_error c = (newDeepIntShieldErrorFromMsg ''failed'')\<lparr>ce_StatusCode := Some c\<rparr>"

definition noting_env :: "string list \<Rightarrow> send \<Rightarrow> string list TryEnv" where
  "noting_env up sent =
     \<lparr>te_queue = None, te_addTools = id, te_tracer = True, te_plugins = [], te_closing = False, te_send = sent, te_dropExcess = False,
      te_closingAgain = False, te_sendAgain = Sent,
      te_worker = (\<lambda>req ctx w. (if rq_Provider req \<in> set up then Answer (Some sample_response) else Failed (status_error 500), ctx, w @ [rq_Provider req])),
      te_pluginCount = 0\<rparr>"

definition noting_core :: "string list \<Rightarrow> send \<Rightarrow> string list CoreEnv" where
  "noting_core up first =
     \<lparr>co_attempt = (\<lambda>i. noting_env up (if i = 0 then first else Sent)), co_configured = (\<lambda>_. True), co_uuid = (\<lambda>_. ''id'')\<rparr>"

definition noting_flow :: "string list Flow" where
  "noting_flow = \<lparr>flow_ctx = \<lparr>ctx_values = [], ctx_blockRestrictedWrites = False\<rparr>, flow_executedPreHooks = 0, flow_preHookErrors = [],
     flow_postHookErrors = [], flow_runs = [], flow_world = []\<rparr>"

theorem fallbacks_in_order_witness: "fst (handleRequest (noting_core [''groq''] Sent) chat_request noting_flow) = Returned (Some sample_response) None"
proof -
  let ?env = "noting_core [''groq''] Sent"
  let ?t = "tryRequest (co_attempt ?env 0) chat_request (enter_primary ?env noting_flow)"
  have t: "?t = ((None, Some (status_error 500)), snd ?t)" by (rule prod_eqI) (code_simp, simp)
  have found: "List.find settles (fallback_results ?env chat_request 1 (rq_Fallbacks chat_request) (snd ?t)) =
      Some ((''groq'', ''llama''), Some sample_response, None)"
    and valid: "validateRequest chat_request = None" and falls_back: "shouldTryFallbacks chat_request (Some (status_error 500))"
    by code_simp+
  have "rq_Kind chat_request \<notin> {ImageEditBody, ImageVariationBody}" by (simp add: chat_request_def)
  from fallbacks_in_order [OF this valid t] show ?thesis unfolding found by (simp add: falls_back settlement_def)
qed

text \<open>The fallbacks of an image edit, or of an image variation, are sent to the primary provider again.\<close>

theorem image_edit_fallback_repeats:
  "rq_Kind req \<in> {ImageEditBody, ImageVariationBody} \<Longrightarrow> configured (fst fallback) \<Longrightarrow>
     prepareFallbackRequest configured req fallback = Some req \<and> snd (snd (GetRequestFields req)) = rq_Fallbacks req"
  by (auto simp: prepareFallbackRequest_def exchanged_def GetRequestFields_def)

theorem image_edit_run:
  "flow_world (snd (handleRequest (noting_core [''groq''] Sent)
     (chat_request\<lparr>rq_RequestType := ''image_edit'', rq_Kind := ImageEditBody\<rparr>) noting_flow)) = [''openai'', ''openai'', ''openai'']"
  by code_simp

text \<open>A request that is cancelled while it waits for a place in the queue is sent to its fallbacks, since the error does not have the type of a
  cancellation.\<close>

theorem cancelled_request_falls_back:
  "flow_world (snd (handleRequest (noting_core [''anthropic''] Cancelled) chat_request noting_flow)) = [''anthropic''] \<and>
   fst (handleRequest (noting_core [''anthropic''] Cancelled) chat_request noting_flow) = Returned (Some sample_response) None"
  by code_simp

text \<open>An error with a status that asks for a retry and without details makes the loop panic.\<close>

theorem bare_status_panics:
  "ce_Error e = None \<Longrightarrow> ce_StatusCode e = Some 503 \<Longrightarrow> \<not> ce_IsDeepIntShieldError e \<Longrightarrow> retry_verdict (Some e) = NilError"
  by (simp add: retry_verdict_def retryableStatusCodes_def)

text \<open>A provider that fails twice and then answers.\<close>

definition third_time :: "(CoreResponse, nat) handler" where
  "third_time ctx n = ((if n < 2 then None else Some sample_response, if n < 2 then Some (status_error 503) else None), ctx, Suc n)"

definition two_retries :: NetworkConfig where
  "two_retries = \<lparr>nc_MaxRetries = 2, nc_RetryBackoffInitial = 500, nc_RetryBackoffMax = 5000\<rparr>"

definition idle_worker :: "nat Worker" where
  "idle_worker = \<lparr>wk_ctx = \<lparr>ctx_values = [], ctx_blockRestrictedWrites = False\<rparr>, wk_world = 0, wk_sleeps = []\<rparr>"

theorem retries_exact_witness:
  "\<exists>n. int n \<le> 2 \<and> (\<exists>sleeps. wk_sleeps (snd (executeRequestWithRetries True two_retries (\<lambda>_. 1 / 2) third_time idle_worker)) = sleeps \<and>
     length sleeps = n \<and> list_all (\<lambda>d. d \<le> 5000) sleeps)"
proof -
  have "nc_MaxRetries two_retries = 2" "nc_RetryBackoffMax two_retries = 5000" "wk_sleeps idle_worker = []"
    by (simp_all add: two_retries_def idle_worker_def)
  then show ?thesis using retries_exact [of two_retries "\<lambda>_. 1 / 2" third_time idle_worker] by (auto simp: list_all_iff)
qed

theorem third_attempt_answers:
  "fst (executeRequestWithRetries True two_retries (\<lambda>_. 1 / 2) third_time idle_worker) = Some (Some sample_response, None) \<and>
   wk_sleeps (snd (executeRequestWithRetries True two_retries (\<lambda>_. 1 / 2) third_time idle_worker)) = [500, 1000]"
  by code_simp

end
