(* ===== verification/Spec2Isabelle.thy ===== *)
theory Spec2Isabelle
  imports KVStore CircuitBreaker DecisionPoint GuardFindings GuardCards GuardRetrieval GuardModality CardCompile
    GovPersist GovPrecedence GovSelection AuditTamper DistLock AgentLoop PricingOverrides PricedUsage KeyChoice FlowOrder
begin

text \<open>
  A verification library for the DeepintShield AI-security gateway.

  \<^bold>\<open>The program.\<close>  Two Go programs work together.  The gateway (\<^verbatim>\<open>deepintshield_server\<close>) forwards model and tool calls;
  its governance plugin admits a request by its virtual key, budgets and rate limits, routes it and charges the response;
  before a tool call it asks its policy decision point for a decision, and around a model call it asks the guard.  The
  guard runtime (\<^verbatim>\<open>deepintshield_guard\<close>) evaluates the policies of a tenant on the texts of a request: it selects policies,
  compiles their cards into checks, runs checks and rules with several layers of pre-filters and caches, adds the findings
  of tool policies, external providers and attachments, and turns the findings into a decision.

  \<^bold>\<open>The theories\<close>, each with the file it models (under \<^verbatim>\<open>src/\<close>).

  Shared: \<^verbatim>\<open>Prelude\<close> has the Go string functions, 64-bit wrap-around, stable sorting with its locale \<open>slice_stable\<close>, and the
  locale for invariants of reachable states.

  The guard runtime, under \<^verbatim>\<open>deepintshield_guard/internal\<close>:
  \<^item> \<^verbatim>\<open>AhoCorasick\<close> (\<^verbatim>\<open>engine/aho_corasick.go\<close>): the automaton, its construction by breadth-first search and its scan; it
    reports a text exactly if a pattern occurs in it.
  \<^item> \<^verbatim>\<open>RegexLiterals\<close> (same file): the literals a regular expression needs, proved sound against a matching relation for
    syntax trees over ASCII patterns and texts (Go folds by Unicode, where the long s matches an s and is kept by the lower-casing
    of the text); a nested alternation shows where it is not.
  \<^item> \<^verbatim>\<open>FastScanners\<close> (\<^verbatim>\<open>engine/fast_scanners.go\<close>): byte scanners for cards, addresses and numbers.
  \<^item> \<^verbatim>\<open>GuardTypes\<close> (\<^verbatim>\<open>pkg/runtimeapi/types.go\<close> and the accessors of the engine): wire types, dynamic values, normalisers.
  \<^item> \<^verbatim>\<open>GuardSelect\<close> (\<^verbatim>\<open>engine/engine.go\<close>): selectors, ordering and merging of policies, for both entry points.
  \<^item> \<^verbatim>\<open>RuntimeChecks\<close> (\<^verbatim>\<open>engine/runtime_checks.go\<close>): extraction and evaluation of checks, the effect of a result, the
    cached pre-filters and the loop over policies and checks.
  \<^item> \<^verbatim>\<open>PrefilterEquiv\<close>: the pre-filters change nothing that is reported, for a lawful regular-expression package, ASCII
    patterns and texts, and policies that share cache keys only with their patterns.  \<^verbatim>\<open>CheckEffects\<close>: what a check contributes, and where shared
    cache keys, ignored severities and repeated redactions break the expectation.
  \<^item> \<^verbatim>\<open>GuardEngine\<close> (\<^verbatim>\<open>engine/engine.go\<close>, \<^verbatim>\<open>finding_summary.go\<close>): the runtime's state, rules and their caches, tenants,
    tool policies, provider bindings and the decision.
  \<^item> \<^verbatim>\<open>GuardRAG\<close> (\<^verbatim>\<open>engine/rag.go\<close>): the retrieval stage, which judges every retrieved chunk.  \<^verbatim>\<open>GuardChunks\<close>: a chunk that
    violates a directive is rejected and one with PII flags is not passed on as it is, unless a policy is in shadow mode; a
    request with no other chunks is denied.  \<^verbatim>\<open>GuardRetrieval\<close>: the stage on concrete
    requests, where shadow mode, missing scores and empty summaries do not have the intended effect.
  \<^item> \<^verbatim>\<open>GuardEntry\<close> (\<^verbatim>\<open>engine/engine.go\<close>): \<open>Evaluate\<close> and \<open>EvaluateFastOnly\<close>, with all their paths.
  \<^item> \<^verbatim>\<open>GuardDecision\<close>: the decision is the worst finding.  \<^verbatim>\<open>GuardPaths\<close>: the rule caches are transparent, and a denial by
    the fast evaluation is a denial by the full one.  \<^verbatim>\<open>GuardFindings\<close>: scopes of tool calls, providers, tenants, call
    budgets, and two ways a policy is left unenforced.  The engine takes the compiler of the cards as an argument; \<^verbatim>\<open>GuardCards\<close>
    instantiates it with the modelled compiler and runs the theorems on a request whose policy is written as cards.
  \<^item> \<^verbatim>\<open>GuardModality\<close> (\<^verbatim>\<open>engine/modality.go\<close>, \<^verbatim>\<open>modality_detect.go\<close>): text extraction from attachments and its bounds; the
    cache can hide an asset.
  \<^item> \<^verbatim>\<open>Cards\<close> and \<^verbatim>\<open>CardCompile\<close> (\<^verbatim>\<open>cards/compiler.go\<close>): the cards and the compiler; no enabled card is lost, a definition without
    cards stays as it is, and compiling is idempotent.

  The gateway, under \<^verbatim>\<open>deepintshield_server\<close>:
  \<^item> \<^verbatim>\<open>AgenticContext\<close>, \<^verbatim>\<open>AgenticPolicy\<close> (\<^verbatim>\<open>framework/agentic/context.go\<close>, \<^verbatim>\<open>policy.go\<close>, \<^verbatim>\<open>rego.go\<close>): the call context, the
    cache key, matching and first-match evaluation with the Rego path.
  \<^item> \<^verbatim>\<open>Resolvers\<close> (\<^verbatim>\<open>vk_resolver.go\<close>, \<^verbatim>\<open>policy_target_resolver.go\<close>): the indexes for virtual keys and policy targets; a
    resolution is compared with what the history of updates says, not with the index.
  \<^item> \<^verbatim>\<open>AuditPipeline\<close> (\<^verbatim>\<open>audit.go\<close>): queue, overflow file, replay and shutdown as interleaved steps; a worker's turn is two steps
    (take, write), a replay goes line by line, a write to the file may be torn and the truncation may fail.
  \<^item> \<^verbatim>\<open>DecisionPoint\<close> (\<^verbatim>\<open>decide.go\<close>, \<^verbatim>\<open>decision_cache.go\<close>): \<open>Decide\<close> with its cache, early denials, modes and audit.
  \<^item> \<^verbatim>\<open>CircuitBreaker\<close> (\<^verbatim>\<open>core/providers/utils/circuit_breaker.go\<close>): the breaker as a state machine refining a specification.
  \<^item> \<^verbatim>\<open>KVStore\<close> (\<^verbatim>\<open>framework/kvstore/kvstore.go\<close>): the store with expiry and last-writer-wins replication; replicas agree on what
    a reader sees although each sweeps and reads between the writes, when a later write does not expire before an earlier one.
  \<^item> \<^verbatim>\<open>AuditChain\<close> (\<^verbatim>\<open>framework/logstore/audit_types.go\<close>, \<^verbatim>\<open>audit_store.go\<close>, \<^verbatim>\<open>audit_verify.go\<close>): the hash chain of the audit
    log, its writer and its verifier.  \<^verbatim>\<open>AuditAppend\<close>: interleaved writers keep every chain intact, but can lose an event;
    of the JSON coding only that what it writes can be read again is assumed.
    \<^verbatim>\<open>AuditTamper\<close>: an intact chain commits to the fields of all its rows; what the separator and the workspace filter break.
  \<^item> \<^verbatim>\<open>DistLock\<close> (\<^verbatim>\<open>framework/configstore/dlock.go\<close>, \<^verbatim>\<open>rdb.go\<close>): the lock on a database row, as operations and as the
    interleaved statements of many clients; every process has its own clock, leases exclude each other up to the bound on the
    difference of the clocks, and a client with a fast clock steals the lock; waiting ends, and a free lock is acquired.
  \<^item> \<^verbatim>\<open>McpTools\<close> (\<^verbatim>\<open>core/mcp/utils.go\<close>, \<^verbatim>\<open>toolmanager.go\<close>, \<^verbatim>\<open>parallel_registry.go\<close>, \<^verbatim>\<open>parallel_classifier.go\<close>): the tools of
    connected MCP servers, their filters, the calls found in code, and the split of a batch into calls that may run side by
    side.  \<^verbatim>\<open>AgentLoop\<close> (\<^verbatim>\<open>agent.go\<close>, \<^verbatim>\<open>agentadaptors.go\<close>): the agent mode; it runs only tools it may run, hands back the
    others, and stops; how code escapes the check, and a result that is lost.

  \<^item> \<^verbatim>\<open>PriceRows\<close> (\<^verbatim>\<open>framework/modelcatalog/sync.go\<close>, \<^verbatim>\<open>canonicalize.go\<close>, \<^verbatim>\<open>pricing.go\<close>): the price rows, the alias index and the
    look-up; a price is there for a reason, but not always the same one.  \<^verbatim>\<open>Pricing\<close> (\<^verbatim>\<open>pricing.go\<close>): the cost of every kind of
    response and the savings; no cost is negative, a prompt is billed once, and image tokens that are not billed.
    \<^verbatim>\<open>PricingOverrides\<close> (\<^verbatim>\<open>overrides.go\<close>): the wildcard matcher is the matcher by definition, and the best override is taken.
    \<^verbatim>\<open>PricedUsage\<close>: prices and budgets together; a model without a price is not charged.

  \<^item> \<^verbatim>\<open>KeyTracker\<close> (\<^verbatim>\<open>core/key_load_tracker.go\<close>): load and circuit of every provider key.  \<^verbatim>\<open>KeySelect\<close>
    (\<^verbatim>\<open>core/deepintshield.go\<close>, \<^verbatim>\<open>key_selectors.go\<close>): the keys a request may use, pins, sessions and selectors.  \<^verbatim>\<open>KeyChoice\<close>: the
    chosen key may be used, for every selector that meets the locale \<open>key_selector\<close>; weights and rounds are kept, a session keeps its
    key over any run of requests and sweeps while it is alive; a pin on a key whose circuit is open is refused.
  \<^item> \<^verbatim>\<open>PluginChain\<close> (\<^verbatim>\<open>core/deepintshield.go\<close>): the hooks of the plugins around a model call, by workspace, and \<open>tryRequest\<close>, one attempt at
    a provider.  \<^verbatim>\<open>PluginSymmetry\<close>: hooks before and after the call match, and when they do not.  \<^verbatim>\<open>RequestFlow\<close> (same file,
    \<^verbatim>\<open>utils.go\<close>): \<open>handleRequest\<close> with its fallbacks, and the retries with their waiting times.  \<^verbatim>\<open>FlowOrder\<close>: fallbacks are tried in
    order, retries are exact and end; fallbacks of image edits that repeat the primary provider, and requests that go on after
    they were cancelled.

  The governance plugin of the gateway, \<^verbatim>\<open>plugins/governance\<close>:
  \<^item> \<^verbatim>\<open>Float64\<close>: amounts of money and weights, as rationals rounded to 53 bits after each operation, with the monotonicity
    the proofs about limits and weights need.  \<^verbatim>\<open>GoDuration\<close>: \<open>time.ParseDuration\<close> on 64-bit words.
  \<^item> \<^verbatim>\<open>ModelCatalog\<close> (\<^verbatim>\<open>core/schemas/utils.go\<close>, \<^verbatim>\<open>framework/modelcatalog/main.go\<close>): model names and their version suffixes,
    and the catalogue that says which provider serves which model.
  \<^item> \<^verbatim>\<open>GovTables\<close> (\<^verbatim>\<open>framework/configstore/tables\<close>, \<^verbatim>\<open>tenant_keys.go\<close>): the rows, their save hooks, the durations of windows,
    the store and the keys its rows are filed under.
  \<^item> \<^verbatim>\<open>GovStore\<close>, \<^verbatim>\<open>GovCrud\<close>, \<^verbatim>\<open>GovLoad\<close> (\<^verbatim>\<open>store.go\<close>): look-ups, budget and rate-limit checks over the hierarchy, charges,
    background resets and dumps; creation, update and deletion of every row; loading from database or configuration.
  \<^item> \<^verbatim>\<open>GovRouting\<close> (\<^verbatim>\<open>routing.go\<close>, \<^verbatim>\<open>store.go\<close>): routing rules, the cache of compiled programs, scopes and weighted targets.
  \<^item> \<^verbatim>\<open>GovResolver\<close> (\<^verbatim>\<open>resolver.go\<close>, \<^verbatim>\<open>tracker.go\<close>, \<^verbatim>\<open>core/schemas/context.go\<close>): the evaluation of a request and the charge of a
    response.  \<^verbatim>\<open>GovPlugin\<close> (\<^verbatim>\<open>main.go\<close>, \<^verbatim>\<open>utils.go\<close>): the hooks, the choice of a provider and the errors a client sees.
  \<^item> \<^verbatim>\<open>GovMeter\<close>: which rows a response charges, and how often.  \<^verbatim>\<open>GovReset\<close>: lazy expiry and the background reset agree.
    \<^verbatim>\<open>GovInvariant\<close>, \<^verbatim>\<open>GovReach\<close>: the well-formedness of the store, kept by every operation, and the isolation of tenants it
    gives.  \<^verbatim>\<open>GovAdmission\<close>: admission is exact.  \<^verbatim>\<open>GovQuota\<close>: an exhausted budget blocks, once no goroutine
    holds a copy of its row from before, and overspending is bounded.
    \<^verbatim>\<open>GovPrecedence\<close>: the engine refines \<open>the first rule that fires\<close>.  \<^verbatim>\<open>GovSelection\<close>: only targets with a positive weight
    are taken.  \<^verbatim>\<open>GovPersist\<close>: what a dump and a reload keep and lose, rotated keys, and overlapping charges.
    \<^verbatim>\<open>GovSample\<close>: the store the instances of these theorems use.

  \<^bold>\<open>How code becomes definitions.\<close>  A struct is a record, a handler one definition with every branch, an error a value of a
  sum or option type.  State is passed explicitly; where goroutines or processes interleave (audit, store, breaker, lock) the operations are
  steps of an inductive relation and invariants are proved for every reachable state.  Mutexes make the modelled critical
  sections atomic.  Strings are byte sequences; case folding and trimming are those of ASCII, and a theorem that depends on folding says so.  Maps are partial functions
  where only look-ups matter and association lists where order or size does (a \<open>sync.Map\<close> is the latter).  An operation of the
  governance plugin reads the clock once; charges of one budget are also split into their load and their store.  The catalogue of models is a field
    of the store that no store operation changes: the price synchronisation replaces it, and the theorems about runs of the store hold between
    two replacements (the keys of model configurations are computed with the catalogue of the moment).  Times are integers; a product with
  \<open>time.Millisecond\<close> and counters that may overflow wrap at 64 bits.  The one loop without an evident measure, the
  breadth-first search of the automaton, is a partial function into options, and it is proved to return.

  \<^bold>\<open>Parameters.\<close>  Code that is not in the repository is an argument: the regular-expression package (what is assumed of it is
  \<open>lawful_engine\<close>, on ASCII patterns and texts), JSON coding (\<open>lawful_json\<close> and \<open>codec_ok\<close>: what was written can be read again, not that the same
  value comes back), SHA-256, the theine cache, Rego, the databases, webhooks and provider adapters; for the
  agent, the model, the tools and the connected clients at each moment; for the governance plugin, compiling and evaluating CEL expressions, the random source and the errors of the database; for the prices, the rows the
  database returns and the order of the loop over the map of the rows; for provider keys, the account, the selector and the
  hash of a session; for an attempt at a provider, the plugins, the ends of the two sends to its queue and the answer of the worker.  The preset
  catalogue of the cards is an embedded data file and an argument too.  Assumptions on them are named hypotheses of the
  theorems, and every theorem with hypotheses has a witness that instantiates them.

  \<^bold>\<open>Not modelled.\<close>  The provider adapters of the guard, the transports and their clients, the model-vendor formats, streams
  and workers of the gateway core, the agent adapter for the Responses format, the configuration and log stores except for the rows the governance plugin uses, the
  distributed lock and the audit log, the download of the price sheet, the other plugins and the user interface.  A product and a sum of \<open>float64\<close>
  values are rounded one after the other, without fused operations.  Within the engine, the goroutines of one evaluation are run one after the other: they
  share only caches, in which they use different keys, and are joined before their results are merged.
\<close>

end
